(* ===== verification/Prelude.thy ===== *)
theory Prelude
  imports Main "HOL-Library.AList"
begin

text \<open>
  Shared vocabulary of the development: the JavaScript notions every component uses
  (insertion-ordered maps, truthiness of optional strings, decimal rendering, index scans)
  and the generic lemmas about them. The named collections gather the facts that the
  component theories hand to \<open>simp\<close>.
\<close>

named_theorems map_laws "look-up laws of insertion-ordered maps"
named_theorems scan_laws "results of the index scans"

section \<open>JavaScript maps\<close>

text \<open>
  A JavaScript \<open>Map\<close> (or a plain object used as a dictionary) iterates in insertion
  order; \<open>set\<close> on a present key keeps its position. \<open>AList.update\<close> behaves the
  same way, so a map is an association list whose keys are distinct.
\<close>

type_synonym 'v jsmap = "(string \<times> 'v) list"

abbreviation jm_get :: "'v jsmap \<Rightarrow> string \<Rightarrow> 'v option" where
  "jm_get \<equiv> map_of"

abbreviation jm_set :: "string \<Rightarrow> 'v \<Rightarrow> 'v jsmap \<Rightarrow> 'v jsmap" where
  "jm_set \<equiv> AList.update"

abbreviation jm_delete :: "string \<Rightarrow> 'v jsmap \<Rightarrow> 'v jsmap" where
  "jm_delete \<equiv> AList.delete"

abbreviation jm_has :: "'v jsmap \<Rightarrow> string \<Rightarrow> bool" where
  "jm_has m k \<equiv> map_of m k \<noteq> None"

lemma jm_get_set [map_laws]: "jm_get (jm_set k v m) j = (if j = k then Some v else jm_get m j)"
  by (simp add: update_conv')

lemma jm_get_delete [map_laws]: "jm_get (jm_delete k m) j = (if j = k then None else jm_get m j)"
  by (simp add: delete_conv' restrict_map_def)

lemma jm_set_fresh [map_laws]: "jm_get m k = None \<Longrightarrow> jm_set k v m = m @ [(k, v)]"
  by (induction m) auto

lemma jm_has_iff [map_laws]: "jm_has m k \<longleftrightarrow> k \<in> fst ` set m"
  by (auto simp: map_of_eq_None_iff)

lemma jm_set_distinct: "distinct (map fst m) \<Longrightarrow> distinct (map fst (jm_set k v m))"
  by (rule distinct_update)

lemma jm_delete_distinct: "distinct (map fst m) \<Longrightarrow> distinct (map fst (jm_delete k m))"
  by (rule distinct_delete)

section \<open>Truthiness and rendering\<close>

text \<open>\<open>undefined\<close>, \<open>null\<close> and the empty string are falsy.\<close>

fun truthy_str :: "string option \<Rightarrow> string option" where
  "truthy_str None = None"
| "truthy_str (Some s) = (if s = [] then None else Some s)"

lemma truthy_str_Some_iff [simp]: "truthy_str x = Some s \<longleftrightarrow> x = Some s \<and> s \<noteq> []"
  by (cases x) auto

abbreviation nl :: string where
  "nl \<equiv> [CHR 0x0A]"

text \<open>Decimal rendering of a number interpolated into a template literal.\<close>

definition digit_char :: "nat \<Rightarrow> char" where
  "digit_char d = char_of (48 + d)"

fun nat_str :: "nat \<Rightarrow> string" where
  "nat_str n = (if n < 10 then [digit_char n] else nat_str (n div 10) @ [digit_char (n mod 10)])"

declare nat_str.simps [simp del]

definition int_str :: "int \<Rightarrow> string" where
  "int_str i = (if i < 0 then ''-'' @ nat_str (nat (- i)) else nat_str (nat i))"

text \<open>\<open>xs.join(sep)\<close>.\<close>

fun join_with :: "'a list \<Rightarrow> 'a list list \<Rightarrow> 'a list" where
  "join_with sep [] = []"
| "join_with sep [x] = x"
| "join_with sep (x # y # ys) = x @ sep @ join_with sep (y # ys)"

lemma join_with_Cons: "ys \<noteq> [] \<Longrightarrow> join_with sep (x # ys) = x @ sep @ join_with sep ys"
  by (cases ys) auto

lemma join_with_append:
  "xs \<noteq> [] \<Longrightarrow> ys \<noteq> [] \<Longrightarrow> join_with sep (xs @ ys) = join_with sep xs @ sep @ join_with sep ys"
proof (induction xs)
  case Nil
  then show ?case by simp
next
  case (Cons x xs)
  then show ?case by (cases "xs = []") (auto simp: join_with_Cons)
qed

section \<open>Index scans\<close>

text \<open>
  \<open>for (let i = n - 1; i >= lo; i--) if (P(i)) return i;\<close> and its upward twin
  \<open>for (let i = lo; i < n; i++)\<close>; \<open>None\<close> is falling out of the loop.
\<close>

fun scan_down :: "(nat \<Rightarrow> bool) \<Rightarrow> nat \<Rightarrow> nat \<Rightarrow> nat option" where
  "scan_down P lo 0 = None"
| "scan_down P lo (Suc i) = (if i < lo then None else if P i then Some i else scan_down P lo i)"

definition scan_up :: "(nat \<Rightarrow> bool) \<Rightarrow> nat \<Rightarrow> nat \<Rightarrow> nat option" where
  "scan_up P lo n = find P [lo..<n]"

definition find_index :: "('a \<Rightarrow> bool) \<Rightarrow> 'a list \<Rightarrow> nat option" where
  "find_index P xs = scan_up (\<lambda>i. P (xs ! i)) 0 (length xs)"

lemma scan_down_SomeD [scan_laws]:
  "scan_down P lo n = Some i \<Longrightarrow> lo \<le> i \<and> i < n \<and> P i \<and> (\<forall>j. i < j \<and> j < n \<longrightarrow> \<not> P j)"
proof (induction n)
  case 0
  then show ?case by simp
next
  case (Suc n)
  then show ?case by (auto split: if_splits simp: less_Suc_eq)
qed

lemma scan_down_NoneD [scan_laws]:
  "scan_down P lo n = None \<Longrightarrow> lo \<le> j \<Longrightarrow> j < n \<Longrightarrow> \<not> P j"
proof (induction n)
  case 0
  then show ?case by simp
next
  case (Suc n)
  then show ?case by (auto split: if_splits simp: less_Suc_eq)
qed

lemma scan_up_SomeD [scan_laws]:
  "scan_up P lo n = Some i \<Longrightarrow> lo \<le> i \<and> i < n \<and> P i \<and> (\<forall>j. lo \<le> j \<and> j < i \<longrightarrow> \<not> P j)"
proof -
  assume "scan_up P lo n = Some i"
  then obtain k where k: "k < n - lo" "P (lo + k)" "i = lo + k" "\<forall>j < k. \<not> P (lo + j)"
    by (auto simp: scan_up_def find_Some_iff)
  have "\<not> P j" if "lo \<le> j" "j < i" for j
    using k(3,4) that by (auto dest: spec [of _ "j - lo"])
  with k show ?thesis by auto
qed

lemma scan_up_NoneD [scan_laws]:
  "scan_up P lo n = None \<Longrightarrow> lo \<le> j \<Longrightarrow> j < n \<Longrightarrow> \<not> P j"
  by (auto simp: scan_up_def find_None_iff)

lemma find_index_SomeD [scan_laws]:
  "find_index P xs = Some i \<Longrightarrow> i < length xs \<and> P (xs ! i) \<and> (\<forall>j < i. \<not> P (xs ! j))"
  by (auto simp: find_index_def dest!: scan_up_SomeD)

lemma find_index_NoneD [scan_laws]:
  "find_index P xs = None \<Longrightarrow> x \<in> set xs \<Longrightarrow> \<not> P x"
  by (auto simp: find_index_def in_set_conv_nth dest: scan_up_NoneD)

text \<open>
  JSON values as the runtime holds them after \<open>JSON.parse\<close> (tool-call arguments, entry
  details) and \<open>JSON.stringify\<close>, which the token estimate and the conversation
  serialiser measure. Numbers are restricted to integers.
\<close>

datatype json =
    JNull
  | JBool bool
  | JInt int
  | JStr string
  | JArr "json list"
  | JObj "(string \<times> json) list"

definition hex_digit :: "nat \<Rightarrow> char" where
  "hex_digit d = (if d < 10 then char_of (48 + d) else char_of (87 + d))"

text \<open>The escapes of \<open>JSON.stringify\<close>; other control characters become \<open>\u00xx\<close>.\<close>

definition json_escape :: "char \<Rightarrow> string" where
  "json_escape c =
     (let n = of_char c :: nat in
      if n = 34 then [CHR 0x5C, c]
      else if n = 92 then [CHR 0x5C, c]
      else if n = 8 then [CHR 0x5C, CHR ''b'']
      else if n = 9 then [CHR 0x5C, CHR ''t'']
      else if n = 10 then [CHR 0x5C, CHR ''n'']
      else if n = 12 then [CHR 0x5C, CHR ''f'']
      else if n = 13 then [CHR 0x5C, CHR ''r'']
      else if n < 32 then [CHR 0x5C, CHR ''u'', CHR ''0'', CHR ''0'', hex_digit (n div 16), hex_digit (n mod 16)]
      else [c])"

definition json_quote :: "string \<Rightarrow> string" where
  "json_quote s = [CHR 0x22] @ concat (map json_escape s) @ [CHR 0x22]"

fun json_str :: "json \<Rightarrow> string" where
  "json_str JNull = ''null''"
| "json_str (JBool b) = (if b then ''true'' else ''false'')"
| "json_str (JInt i) = int_str i"
| "json_str (JStr s) = json_quote s"
| "json_str (JArr xs) = ''['' @ join_with '','' (map json_str xs) @ '']''"
| "json_str (JObj kvs) =
     ''{'' @ join_with '','' (map (\<lambda>(k, v). json_quote k @ '':'' @ json_str v) kvs) @ ''}''"

text \<open>\<open>typeof v === "string" ? v : undefined\<close>.\<close>

fun json_string :: "json option \<Rightarrow> string option" where
  "json_string (Some (JStr s)) = Some s"
| "json_string _ = None"

end
