(* ===== verification/Messages.thy ===== *)
theory Messages
  imports Complex_Main Prelude
begin

text \<open>
  The messages of a conversation (\<open>src/core/messages.ts\<close> and the roles its types
  extend) and their projection to the three roles a language model accepts.
  A time stamp is the instant in milliseconds that \<open>new Date(timestamp).getTime()\<close>
  yields for the ISO string the code stores.
\<close>

section \<open>Message types\<close>

datatype block =
    TextBlock string
  | ImageBlock string
  | ThinkingBlock string
  | ToolCallBlock (call_id: string) (call_name: string) (call_args: "json jsmap")

text \<open>\<open>content: string | (TextContent | ImageContent)[]\<close>.\<close>

datatype content = Plain string | Blocks "block list"

record cost =
  cost_input :: rat
  cost_output :: rat
  cost_cacheRead :: rat
  cost_cacheWrite :: rat
  cost_total :: rat

record usage =
  us_input :: nat
  us_output :: nat
  us_cacheRead :: nat
  us_cacheWrite :: nat
  us_cacheWrite1h :: "nat option"
  us_reasoning :: "nat option"
  us_totalTokens :: nat
  us_cost :: cost

datatype stop_reason = Aborted | StopError | OtherStop string

record bash_execution =
  bx_command :: string
  bx_output :: string
  bx_exitCode :: "int option"
  bx_cancelled :: bool
  bx_truncated :: bool
  bx_fullOutputPath :: "string option"
  bx_timestamp :: int
  bx_excludeFromContext :: bool

record custom_message =
  cm_customType :: string
  cm_content :: "content option"
  cm_display :: bool
  cm_details :: "json option"
  cm_timestamp :: int

record assistant_message =
  am_content :: "block list option"
  am_provider :: string
  am_model :: string
  am_stopReason :: stop_reason
  am_usage :: "usage option"
  am_errorMessage :: "string option"
  am_timestamp :: int

text \<open>
  A message's \<open>content\<close> is optional because session files are parsed without
  validation: \<open>None\<close> is a missing or \<open>null\<close> field.
\<close>

datatype agent_message =
    User (user_content: "content option") (user_time: int)
  | Assistant assistant_message
  | ToolResult (result_call: string) (result_content: "content option") (result_time: int)
  | BashExecution bash_execution
  | Custom custom_message
  | BranchSummary (bs_summary: string) (bs_fromId: string) (bs_time: int)
  | CompactionSummary (cs_summary: string) (cs_tokensBefore: nat) (cs_time: int)

fun is_assistant :: "agent_message \<Rightarrow> bool" where
  "is_assistant (Assistant _) = True"
| "is_assistant _ = False"

fun is_tool_result :: "agent_message \<Rightarrow> bool" where
  "is_tool_result (ToolResult _ _ _) = True"
| "is_tool_result _ = False"

fun is_llm_role :: "agent_message \<Rightarrow> bool" where
  "is_llm_role (User _ _) = True"
| "is_llm_role (Assistant _) = True"
| "is_llm_role (ToolResult _ _ _) = True"
| "is_llm_role _ = False"

section \<open>Constructors and rendering\<close>

definition COMPACTION_SUMMARY_PREFIX :: string where
  "COMPACTION_SUMMARY_PREFIX =
     ''The conversation history before this point was compacted into the following summary:''
       @ nl @ nl @ ''<summary>'' @ nl"

definition COMPACTION_SUMMARY_SUFFIX :: string where
  "COMPACTION_SUMMARY_SUFFIX = nl @ ''</summary>''"

definition BRANCH_SUMMARY_PREFIX :: string where
  "BRANCH_SUMMARY_PREFIX =
     ''The following is a summary of a branch that this conversation came back from:''
       @ nl @ nl @ ''<summary>'' @ nl"

definition BRANCH_SUMMARY_SUFFIX :: string where
  "BRANCH_SUMMARY_SUFFIX = ''</summary>''"

definition bashExecutionToText :: "bash_execution \<Rightarrow> string" where
  "bashExecutionToText m =
     ''Ran `'' @ bx_command m @ ''`'' @ nl
     @ (if bx_output m \<noteq> [] then ''```'' @ nl @ bx_output m @ nl @ ''```'' else ''(no output)'')
     @ (if bx_cancelled m then nl @ nl @ ''(command cancelled)''
        else (case bx_exitCode m of
                None \<Rightarrow> []
              | Some c \<Rightarrow> if c \<noteq> 0 then nl @ nl @ ''Command exited with code '' @ int_str c else []))
     @ (case truthy_str (bx_fullOutputPath m) of
          Some p \<Rightarrow> if bx_truncated m then nl @ nl @ ''[Output truncated. Full output: '' @ p @ '']'' else []
        | None \<Rightarrow> [])"

definition createBranchSummaryMessage :: "string \<Rightarrow> string \<Rightarrow> int \<Rightarrow> agent_message" where
  "createBranchSummaryMessage summary fromId timestamp = BranchSummary summary fromId timestamp"

definition createCompactionSummaryMessage :: "string \<Rightarrow> nat \<Rightarrow> int \<Rightarrow> agent_message" where
  "createCompactionSummaryMessage summary tokensBefore timestamp =
     CompactionSummary summary tokensBefore timestamp"

definition createCustomMessage ::
  "string \<Rightarrow> content option \<Rightarrow> bool \<Rightarrow> json option \<Rightarrow> int \<Rightarrow> agent_message" where
  "createCustomMessage customType content display details timestamp =
     Custom \<lparr>cm_customType = customType, cm_content = content, cm_display = display,
             cm_details = details, cm_timestamp = timestamp\<rparr>"

section \<open>Projection to model messages\<close>

fun content_blocks :: "content \<Rightarrow> block list" where
  "content_blocks (Plain s) = [TextBlock s]"
| "content_blocks (Blocks bs) = bs"

fun convert_one :: "agent_message \<Rightarrow> agent_message option" where
  "convert_one (BashExecution m) =
     (if bx_excludeFromContext m then None
      else Some (User (Some (Blocks [TextBlock (bashExecutionToText m)])) (bx_timestamp m)))"
| "convert_one (Custom m) =
     Some (User (map_option (\<lambda>c. Blocks (content_blocks c)) (cm_content m)) (cm_timestamp m))"
| "convert_one (BranchSummary s fromId t) =
     Some (User (Some (Blocks [TextBlock (BRANCH_SUMMARY_PREFIX @ s @ BRANCH_SUMMARY_SUFFIX)])) t)"
| "convert_one (CompactionSummary s tokensBefore t) =
     Some (User (Some (Blocks [TextBlock (COMPACTION_SUMMARY_PREFIX @ s @ COMPACTION_SUMMARY_SUFFIX)])) t)"
| "convert_one m = Some m"

definition convertToLlm :: "agent_message list \<Rightarrow> agent_message list" where
  "convertToLlm ms = List.map_filter convert_one ms"

fun excluded_from_context :: "agent_message \<Rightarrow> bool" where
  "excluded_from_context (BashExecution m) = bx_excludeFromContext m"
| "excluded_from_context _ = False"

lemma convert_one_None_iff: "convert_one m = None \<longleftrightarrow> excluded_from_context m"
  by (cases m) auto

lemma convert_one_llm: "convert_one m = Some m' \<Longrightarrow> is_llm_role m'"
  by (cases m) (auto split: if_splits)

lemma convert_one_id: "is_llm_role m \<Longrightarrow> convert_one m = Some m"
  by (cases m) auto

lemma convertToLlm_Nil [simp]: "convertToLlm [] = []"
  by (simp add: convertToLlm_def)

lemma convertToLlm_Cons [simp]:
  "convertToLlm (m # ms) =
     (case convert_one m of None \<Rightarrow> convertToLlm ms | Some m' \<Rightarrow> m' # convertToLlm ms)"
  by (simp add: convertToLlm_def split: option.split)

lemma convertToLlm_append [simp]: "convertToLlm (xs @ ys) = convertToLlm xs @ convertToLlm ys"
  by (induction xs) (auto split: option.splits)

lemma convertToLlm_length:
  "length (convertToLlm ms) = length (filter (\<lambda>m. \<not> excluded_from_context m) ms)"
  by (induction ms) (auto simp: convert_one_None_iff [symmetric] split: option.splits)

lemma convertToLlm_roles: "m \<in> set (convertToLlm ms) \<Longrightarrow> is_llm_role m"
  by (induction ms) (auto split: option.splits dest: convert_one_llm)

lemma convertToLlm_id: "list_all is_llm_role ms \<Longrightarrow> convertToLlm ms = ms"
  by (induction ms) (auto simp: convert_one_id)

lemma convertToLlm_idem: "convertToLlm (convertToLlm ms) = convertToLlm ms"
  by (rule convertToLlm_id) (auto simp: list_all_iff dest: convertToLlm_roles)

end
