(* ===== verification/Session_Entry.thy ===== *)
theory Session_Entry
  imports Messages
begin

text \<open>
  The entries of a session log (\<open>src/core/session-manager.ts\<close>, types and pure helpers):
  the header, the nine kinds of tree entries, the identifier generator, the session-id check
  and the migrations of version 1 and version 2 logs.
\<close>

section \<open>Entries\<close>

text \<open>
  A session file is either a path given explicitly or the name the code builds,
  \<open>join(dir, `${fileTimestamp}_${id}.jsonl`)\<close>, kept here as its three parts.
\<close>

datatype session_path = ExplicitPath string | SessionFileOf string int string

record session_header =
  sh_version :: "nat option"
  sh_id :: string
  sh_timestamp :: int
  sh_cwd :: string
  sh_parentSession :: "session_path option"

definition CURRENT_SESSION_VERSION :: nat where
  "CURRENT_SESSION_VERSION = 3"

text \<open>\<open>firstKeptEntryId\<close> is \<open>None\<close> where the property is missing from the parsed object.\<close>

record compaction_data =
  ce_summary :: string
  ce_firstKeptEntryId :: "string option"
  ce_tokensBefore :: nat
  ce_details :: "json option"
  ce_usage :: "usage option"
  ce_fromHook :: bool

record branch_summary_data =
  be_fromId :: string
  be_summary :: string
  be_details :: "json option"
  be_usage :: "usage option"
  be_fromHook :: bool

record custom_message_data =
  ke_customType :: string
  ke_content :: "content option"
  ke_details :: "json option"
  ke_display :: bool

datatype entry_body =
    EMessage agent_message
  | EThinkingLevelChange string
  | EModelChange string string
  | ECompaction compaction_data
  | EBranchSummary branch_summary_data
  | ECustom string "json option"
  | ECustomMessage custom_message_data
  | ELabel string "string option"
  | ESessionInfo "string option"

record entry =
  eid :: string
  parentId :: "string option"
  timestamp :: int
  body :: entry_body

datatype file_entry = FHeader session_header | FEntry entry

fun is_compaction :: "entry_body \<Rightarrow> bool" where
  "is_compaction (ECompaction _) = True"
| "is_compaction _ = False"

fun is_label :: "entry_body \<Rightarrow> bool" where
  "is_label (ELabel _ _) = True"
| "is_label _ = False"

fun has_assistant_body :: "entry_body \<Rightarrow> bool" where
  "has_assistant_body (EMessage m) = is_assistant m"
| "has_assistant_body _ = False"

fun entries_of :: "file_entry list \<Rightarrow> entry list" where
  "entries_of [] = []"
| "entries_of (FHeader _ # es) = entries_of es"
| "entries_of (FEntry e # es) = e # entries_of es"

lemma entries_of_append [simp]: "entries_of (xs @ ys) = entries_of xs @ entries_of ys"
  by (induction xs rule: entries_of.induct) auto

lemma entries_of_map_FEntry [simp]: "entries_of (map FEntry es) = es"
  by (induction es) auto

lemma set_entries_of: "e \<in> set (entries_of fs) \<longleftrightarrow> FEntry e \<in> set fs"
  by (induction fs rule: entries_of.induct) auto

definition getLatestCompactionEntry :: "entry list \<Rightarrow> entry option" where
  "getLatestCompactionEntry es =
     map_option (\<lambda>i. es ! i) (scan_down (\<lambda>i. is_compaction (body (es ! i))) 0 (length es))"

section \<open>Identifiers\<close>

text \<open>
  \<open>randomUUID()\<close> is a stream \<open>rnd\<close> with a read position. The loop draws up to 100 values,
  keeps the first whose eight-character prefix is unused, and falls back to a full UUID.
\<close>

fun generateId_loop :: "(string \<Rightarrow> bool) \<Rightarrow> (nat \<Rightarrow> string) \<Rightarrow> nat \<Rightarrow> nat \<Rightarrow> string \<times> nat" where
  "generateId_loop has rnd n 0 = (rnd n, Suc n)"
| "generateId_loop has rnd n (Suc k) =
     (if \<not> has (take 8 (rnd n)) then (take 8 (rnd n), Suc n)
      else generateId_loop has rnd (Suc n) k)"

definition generateId :: "(string \<Rightarrow> bool) \<Rightarrow> (nat \<Rightarrow> string) \<Rightarrow> nat \<Rightarrow> string \<times> nat" where
  "generateId has rnd n = generateId_loop has rnd n 100"

lemma generateId_loop_cases:
  "generateId_loop has rnd n k = (i, n') \<Longrightarrow>
     (\<not> has i \<and> n < n' \<and> n' \<le> n + k) \<or> ((\<forall>j < k. has (take 8 (rnd (n + j)))) \<and> i = rnd (n + k) \<and> n' = Suc (n + k))"
proof (induction k arbitrary: n)
  case 0
  then show ?case by simp
next
  case (Suc k)
  show ?case
  proof (cases "has (take 8 (rnd n))")
    case False
    with Suc.prems show ?thesis by auto
  next
    case True
    with Suc.prems have "generateId_loop has rnd (Suc n) k = (i, n')" by simp
    from Suc.IH [OF this] True show ?thesis by (auto simp: less_Suc_eq_0_disj)
  qed
qed

lemma generateId_first: "\<not> has (take 8 (rnd n)) \<Longrightarrow> generateId has rnd n = (take 8 (rnd n), Suc n)"
  by (simp add: generateId_def numeral_eq_Suc)

text \<open>\<open>/^[A-Za-z0-9](?:[A-Za-z0-9._-]*[A-Za-z0-9])?$/\<close>\<close>

definition is_alnum :: "char \<Rightarrow> bool" where
  "is_alnum c = (let n = of_char c :: nat in
     (48 \<le> n \<and> n \<le> 57) \<or> (65 \<le> n \<and> n \<le> 90) \<or> (97 \<le> n \<and> n \<le> 122))"

definition validSessionId :: "string \<Rightarrow> bool" where
  "validSessionId s =
     (s \<noteq> [] \<and> is_alnum (hd s) \<and> is_alnum (last s)
      \<and> list_all (\<lambda>c. is_alnum c \<or> c = CHR ''.'' \<or> c = CHR ''_'' \<or> c = CHR ''-'') s)"

section \<open>Migration of old logs\<close>

text \<open>
  Before migration an entry may lack \<open>id\<close> and \<open>parentId\<close>, a compaction may carry the old
  \<open>firstKeptEntryIndex\<close>, and a message may have the old role \<open>hookMessage\<close>.
\<close>

datatype raw_body =
    RawBody entry_body
  | RawCompaction compaction_data "nat option"
  | RawHookMessage custom_message

record raw_entry =
  re_id :: "string option"
  re_parentId :: "string option"
  re_timestamp :: int
  re_body :: raw_body

datatype raw_file_entry = RawHeader session_header | RawEntry raw_entry

fun fix_first_kept :: "raw_file_entry list \<Rightarrow> raw_entry \<Rightarrow> raw_entry" where
  "fix_first_kept es e =
     (case re_body e of
        RawCompaction c (Some k) \<Rightarrow>
          e\<lparr>re_body := RawCompaction
              (if k < length es then
                 (case es ! k of RawHeader _ \<Rightarrow> c | RawEntry t \<Rightarrow> c\<lparr>ce_firstKeptEntryId := re_id t\<rparr>)
               else c) None\<rparr>
      | _ \<Rightarrow> e)"

text \<open>
  The source draws each id with \<open>generateId(ids)\<close> from a set \<open>ids\<close> that nothing ever adds
  to: the membership test is the constant \<open>False\<close>.
\<close>

fun migrateV1ToV2_loop ::
  "(nat \<Rightarrow> string) \<Rightarrow> nat \<Rightarrow> string option \<Rightarrow> raw_file_entry list \<Rightarrow> raw_file_entry list \<Rightarrow>
     raw_file_entry list \<times> nat" where
  "migrateV1ToV2_loop rnd n prevId fin [] = (fin, n)"
| "migrateV1ToV2_loop rnd n prevId fin (RawHeader h # rest) =
     migrateV1ToV2_loop rnd n prevId (fin @ [RawHeader (h\<lparr>sh_version := Some 2\<rparr>)]) rest"
| "migrateV1ToV2_loop rnd n prevId fin (RawEntry e # rest) =
     (let (i, n') = generateId (\<lambda>_. False) rnd n;
          e1 = e\<lparr>re_id := Some i, re_parentId := prevId\<rparr>;
          e2 = fix_first_kept (fin @ RawEntry e1 # rest) e1
      in migrateV1ToV2_loop rnd n' (Some i) (fin @ [RawEntry e2]) rest)"

definition migrateV1ToV2 :: "(nat \<Rightarrow> string) \<Rightarrow> nat \<Rightarrow> raw_file_entry list \<Rightarrow> raw_file_entry list \<times> nat" where
  "migrateV1ToV2 rnd n es = migrateV1ToV2_loop rnd n None [] es"

fun migrateV2ToV3_one :: "raw_file_entry \<Rightarrow> raw_file_entry" where
  "migrateV2ToV3_one (RawHeader h) = RawHeader (h\<lparr>sh_version := Some 3\<rparr>)"
| "migrateV2ToV3_one (RawEntry e) =
     RawEntry (case re_body e of
                 RawHookMessage m \<Rightarrow> e\<lparr>re_body := RawBody (EMessage (Custom m))\<rparr>
               | _ \<Rightarrow> e)"

definition migrateV2ToV3 :: "raw_file_entry list \<Rightarrow> raw_file_entry list" where
  "migrateV2ToV3 es = map migrateV2ToV3_one es"

fun raw_header :: "raw_file_entry \<Rightarrow> session_header option" where
  "raw_header (RawHeader h) = Some h"
| "raw_header (RawEntry _) = None"

definition raw_version :: "raw_file_entry list \<Rightarrow> nat" where
  "raw_version es =
     (case List.map_filter raw_header es of
        [] \<Rightarrow> 1
      | h # _ \<Rightarrow> (case sh_version h of None \<Rightarrow> 1 | Some v \<Rightarrow> v))"

definition migrateToCurrentVersion ::
  "(nat \<Rightarrow> string) \<Rightarrow> nat \<Rightarrow> raw_file_entry list \<Rightarrow> bool \<times> raw_file_entry list \<times> nat" where
  "migrateToCurrentVersion rnd n es =
     (let v = raw_version es in
      if v \<ge> CURRENT_SESSION_VERSION then (False, es, n)
      else let (es1, n1) = (if v < 2 then migrateV1ToV2 rnd n es else (es, n));
               es2 = (if v < 3 then migrateV2ToV3 es1 else es1)
           in (True, es2, n1))"

subsection \<open>Reading a migrated log\<close>

fun cook_body :: "raw_body \<Rightarrow> entry_body" where
  "cook_body (RawBody b) = b"
| "cook_body (RawCompaction c _) = ECompaction c"
| "cook_body (RawHookMessage m) = EMessage (Custom m)"

text \<open>The typed view of a parsed line; an entry without an id has none.\<close>

fun cook :: "raw_file_entry \<Rightarrow> file_entry option" where
  "cook (RawHeader h) = Some (FHeader h)"
| "cook (RawEntry e) =
     (case re_id e of
        None \<Rightarrow> None
      | Some i \<Rightarrow> Some (FEntry \<lparr>eid = i, parentId = re_parentId e, timestamp = re_timestamp e,
                               body = cook_body (re_body e)\<rparr>))"

text \<open>A list of entries is a chain from \<open>prev\<close> when each names its predecessor as parent.\<close>

fun chained :: "string option \<Rightarrow> entry list \<Rightarrow> bool" where
  "chained prev [] = True"
| "chained prev (e # es) \<longleftrightarrow> parentId e = prev \<and> chained (Some (eid e)) es"

definition cooked :: "raw_file_entry list \<Rightarrow> entry list" where
  "cooked es = entries_of (List.map_filter cook es)"

lemma cooked_simps [simp]:
  "cooked [] = []"
  "cooked (RawHeader h # es) = cooked es"
  "cooked (xs @ ys) = cooked xs @ cooked ys"
  by (auto simp: cooked_def List.map_filter_def)

lemma cooked_RawEntry:
  "re_id e = Some i \<Longrightarrow> cooked (RawEntry e # es) =
     \<lparr>eid = i, parentId = re_parentId e, timestamp = re_timestamp e, body = cook_body (re_body e)\<rparr> # cooked es"
  by (simp add: cooked_def List.map_filter_def)

lemma fix_first_kept_ids [simp]:
  "re_id (fix_first_kept es e) = re_id e"
  "re_parentId (fix_first_kept es e) = re_parentId e"
  "re_timestamp (fix_first_kept es e) = re_timestamp e"
  by (auto split: raw_body.split option.split)

declare fix_first_kept.simps [simp del]

lemma chained_append:
  "chained prev (xs @ ys) \<longleftrightarrow>
     chained prev xs \<and> chained (if xs = [] then prev else Some (eid (last xs))) ys"
  by (induction xs arbitrary: prev) auto

lemma migrateV1ToV2_loop_chained:
  "chained None (cooked fin) \<Longrightarrow> prevId = (if cooked fin = [] then None else Some (eid (last (cooked fin)))) \<Longrightarrow>
     chained None (cooked (fst (migrateV1ToV2_loop rnd n prevId fin es)))"
proof (induction rnd n prevId fin es rule: migrateV1ToV2_loop.induct)
  case (3 rnd n prevId fin e rest)
  obtain i n' where g: "generateId (\<lambda>_. False) rnd n = (i, n')" by (meson surj_pair)
  let ?e1 = "e\<lparr>re_id := Some i, re_parentId := prevId\<rparr>"
  let ?e2 = "fix_first_kept (fin @ RawEntry ?e1 # rest) ?e1"
  have "cooked [RawEntry ?e2] = [\<lparr>eid = i, parentId = prevId, timestamp = re_timestamp e, body = cook_body (re_body ?e2)\<rparr>]"
    by (subst cooked_RawEntry [where i = i]) simp_all
  with 3 g show ?case by (simp add: chained_append Let_def)
qed auto

lemma migrateV2ToV3_cooked: "cooked (migrateV2ToV3 es) = cooked es"
proof (induction es)
  case Nil
  then show ?case by (simp add: migrateV2ToV3_def)
next
  case (Cons x es)
  then show ?case
    by (cases x) (auto simp: migrateV2ToV3_def cooked_def List.map_filter_def split: raw_body.splits option.splits)
qed

end
