(* ===== verification/Session_Context.thy ===== *)
theory Session_Context
  imports Prelude Session_Entry
begin

text \<open>
  From the entry tree to the context of a model call (\<open>src/core/session-manager.ts\<close>):
  the path from the leaf to the root, the settings in force on it, the messages an entry
  contributes, and the compaction-aware selection of entries. \<open>None\<close> is a walk over parent
  links that never returns.
\<close>

text \<open>
  The walk every reader of the session tree performs: start at an entry, follow
  \<open>parentId\<close> until there is none, and return the entries root first. The source loop is
  a \<open>while (current)\<close> without a visited set, so it is a \<open>partial_function\<close>:
  \<open>None\<close> is a walk that never ends. The locale \<open>parent_chain\<close> states what a provider of
  parent links has to promise for the walk to end.
\<close>

partial_function (option) walk_up :: "('e \<Rightarrow> 'e option) \<Rightarrow> 'e \<Rightarrow> 'e list \<Rightarrow> 'e list option" where
  "walk_up par e acc =
     (case par e of None \<Rightarrow> Some (e # acc) | Some a \<Rightarrow> walk_up par a (e # acc))"

declare walk_up.simps [code]

inductive root_path :: "('e \<Rightarrow> 'e option) \<Rightarrow> 'e list \<Rightarrow> 'e \<Rightarrow> bool" for par where
  root: "par e = None \<Longrightarrow> root_path par [e] e"
| step: "root_path par p a \<Longrightarrow> par e = Some a \<Longrightarrow> root_path par (p @ [e]) e"

lemma root_path_not_Nil: "root_path par p e \<Longrightarrow> p \<noteq> []"
  by (induction rule: root_path.induct) auto

lemma root_path_last: "root_path par p e \<Longrightarrow> last p = e"
  by (induction rule: root_path.induct) auto

lemma root_path_mem: "root_path par p e \<Longrightarrow> e \<in> set p"
  by (auto dest: root_path_last root_path_not_Nil intro: last_in_set)

lemma root_path_hd: "root_path par p e \<Longrightarrow> par (hd p) = None"
  by (induction rule: root_path.induct) (auto dest: root_path_not_Nil)

lemma root_path_unique: "root_path par p e \<Longrightarrow> root_path par q e \<Longrightarrow> p = q"
proof (induction arbitrary: q rule: root_path.induct)
  case (root e)
  from root.prems show ?case by (cases rule: root_path.cases) (use root.hyps in auto)
next
  case (step p a e)
  from step.prems obtain p' where q: "q = p' @ [e]" and p': "root_path par p' a"
    by (cases rule: root_path.cases) (use step.hyps in auto)
  from step.IH [OF p'] q show ?case by simp
qed

lemma root_path_link:
  "root_path par p e \<Longrightarrow> Suc i < length p \<Longrightarrow> par (p ! Suc i) = Some (p ! i)"
proof (induction arbitrary: i rule: root_path.induct)
  case (root e)
  then show ?case by simp
next
  case (step p a e)
  have "p ! i = a" if "Suc i = length p"
    using that root_path_last [OF step.hyps(1)] root_path_not_Nil [OF step.hyps(1)]
    by (metis diff_Suc_1 last_conv_nth)
  with step show ?case by (auto simp: nth_append less_Suc_eq)
qed

lemma root_path_prefix:
  "root_path par p e \<Longrightarrow> a \<in> set p \<Longrightarrow> \<exists>q r. root_path par q a \<and> p = q @ r"
proof (induction rule: root_path.induct)
  case (root e)
  then show ?case by (auto intro: root_path.root)
next
  case (step p b e)
  show ?case
  proof (cases "a = e")
    case True
    with step.hyps show ?thesis by (auto intro: root_path.step)
  next
    case False
    with step show ?thesis by fastforce
  qed
qed

text \<open>The walk computes exactly the root path, and diverges when there is none.\<close>

lemma root_path_walk: "root_path par p e \<Longrightarrow> walk_up par e acc = Some (p @ acc)"
proof (induction arbitrary: acc rule: root_path.induct)
  case (root e)
  then show ?case by (simp add: walk_up.simps)
next
  case (step p a e)
  then show ?case by (subst walk_up.simps) simp
qed

lemma walk_root_path:
  assumes "walk_up par e acc = Some r"
  shows "\<exists>p. root_path par p e \<and> r = p @ acc"
proof (rule walk_up.raw_induct [where P = "\<lambda>par e acc r. \<exists>p. root_path par p e \<and> r = p @ acc", OF _ assms])
  fix walk :: "('a \<Rightarrow> 'a option) \<Rightarrow> 'a \<Rightarrow> 'a list \<Rightarrow> 'a list option"
    and par e acc r
  assume IH: "\<And>par e acc r. walk par e acc = Some r \<Longrightarrow> \<exists>p. root_path par p e \<and> r = p @ acc"
    and eq: "(case par e of None \<Rightarrow> Some (e # acc) | Some a \<Rightarrow> walk par a (e # acc)) = Some r"
  show "\<exists>p. root_path par p e \<and> r = p @ acc"
  proof (cases "par e")
    case None
    with eq show ?thesis by (auto intro: root_path.root)
  next
    case (Some a)
    with eq have "walk par a (e # acc) = Some r" by simp
    then obtain p where "root_path par p a" "r = p @ e # acc" using IH by blast
    with Some show ?thesis by (auto intro: root_path.step)
  qed
qed

lemma walk_iff: "walk_up par e [] = Some p \<longleftrightarrow> root_path par p e"
  using walk_root_path [of par e "[]" p] root_path_walk [of par p e "[]"] by auto

lemma walk_None_iff: "walk_up par e acc = None \<longleftrightarrow> (\<forall>p. \<not> root_path par p e)"
  using walk_root_path [of par e acc] root_path_walk [of par _ e acc] by fastforce

text \<open>An entry that is its own parent has no root path: the walk from it never returns.\<close>

lemma self_parent_diverges: "par e = Some e \<Longrightarrow> walk_up par e acc = None"
proof -
  have "root_path par p e' \<Longrightarrow> e' = e \<Longrightarrow> par e = Some e \<Longrightarrow> False" for p e'
    by (induction rule: root_path.induct) auto
  then show "par e = Some e \<Longrightarrow> walk_up par e acc = None" by (auto simp: walk_None_iff)
qed

lemma walk_cong:
  assumes "root_path par p e" and "\<And>x. x \<in> set p \<Longrightarrow> par' x = par x"
  shows "root_path par' p e"
  using assms
proof (induction rule: root_path.induct)
  case (root e)
  then show ?case by (auto intro: root_path.root)
next
  case (step p a e)
  then show ?case by (auto intro: root_path.step)
qed

section \<open>The interface of parent links\<close>

text \<open>
  The client reads \<open>par\<close>; the provider promises a carrier closed under \<open>par\<close> and a rank
  that every step up decreases (in a session: the position in the append-only log).
\<close>

locale parent_chain =
  fixes par :: "'e \<Rightarrow> 'e option"
    and carrier :: "'e set"
    and rank :: "'e \<Rightarrow> nat"
  assumes par_closed: "e \<in> carrier \<Longrightarrow> par e = Some a \<Longrightarrow> a \<in> carrier"
    and par_rank: "e \<in> carrier \<Longrightarrow> par e = Some a \<Longrightarrow> rank a < rank e"
begin

lemma path_exists: "e \<in> carrier \<Longrightarrow> \<exists>p. root_path par p e"
proof (induction "rank e" arbitrary: e rule: less_induct)
  case less
  show ?case
  proof (cases "par e")
    case None
    then show ?thesis by (auto intro: root_path.root)
  next
    case (Some a)
    with less par_closed par_rank show ?thesis by (meson root_path.step)
  qed
qed

lemma walk_terminates: "e \<in> carrier \<Longrightarrow> \<exists>p. walk_up par e [] = Some p"
  using path_exists by (auto simp: walk_iff)

lemma path_in_carrier: "root_path par p e \<Longrightarrow> e \<in> carrier \<Longrightarrow> set p \<subseteq> carrier"
  by (induction rule: root_path.induct) (auto dest: par_closed)

lemma path_ranks:
  "root_path par p e \<Longrightarrow> e \<in> carrier \<Longrightarrow> sorted_wrt (<) (map rank p) \<and> (\<forall>x \<in> set p. rank x \<le> rank e)"
proof (induction rule: root_path.induct)
  case (root e)
  then show ?case by simp
next
  case (step p a e)
  then have "rank a < rank e" and "a \<in> carrier" by (auto dest: par_closed par_rank)
  with step show ?case by (fastforce simp: sorted_wrt_append)
qed

lemma path_distinct: "root_path par p e \<Longrightarrow> e \<in> carrier \<Longrightarrow> distinct p"
proof -
  assume "root_path par p e" "e \<in> carrier"
  then have "sorted_wrt (<) (map rank p)" by (simp add: path_ranks)
  then have "distinct (map rank p)" by (simp add: strict_sorted_iff)
  then show ?thesis by (simp add: distinct_map)
qed

end

section \<open>The path from leaf to root\<close>

text \<open>\<open>leafId?: string | null\<close>.\<close>

datatype leaf_arg = LeafUndefined | LeafNull | LeafId string

definition buildEntryIndex :: "entry list \<Rightarrow> entry jsmap option \<Rightarrow> entry jsmap" where
  "buildEntryIndex es byId =
     (case byId of Some m \<Rightarrow> m | None \<Rightarrow> foldl (\<lambda>m e. jm_set (eid e) e m) [] es)"

definition parent_of :: "entry jsmap \<Rightarrow> entry \<Rightarrow> entry option" where
  "parent_of index e =
     (case truthy_str (parentId e) of None \<Rightarrow> None | Some p \<Rightarrow> jm_get index p)"

definition buildSessionPath ::
  "entry list \<Rightarrow> leaf_arg \<Rightarrow> entry jsmap option \<Rightarrow> entry list option" where
  "buildSessionPath es leafId byId =
     (let index = buildEntryIndex es byId in
      if leafId = LeafNull then Some []
      else
        (let leaf = (case leafId of LeafId i \<Rightarrow> if i = [] then None else jm_get index i | _ \<Rightarrow> None);
             leaf = (case leaf of
                       None \<Rightarrow> if es = [] then None else Some (last es)
                     | Some e \<Rightarrow> Some e)
         in case leaf of
              None \<Rightarrow> Some []
            | Some e \<Rightarrow> walk_up (parent_of index) e []))"

section \<open>Settings and messages\<close>

text \<open>The loop over the path carries \<open>(thinkingLevel, model)\<close>.\<close>

fun settings_step :: "string \<times> (string \<times> string) option \<Rightarrow> entry_body \<Rightarrow> string \<times> (string \<times> string) option" where
  "settings_step (t, m) (EThinkingLevelChange level) = (level, m)"
| "settings_step (t, m) (EModelChange provider modelId) = (t, Some (provider, modelId))"
| "settings_step (t, m) (EMessage (Assistant a)) = (t, Some (am_provider a, am_model a))"
| "settings_step s _ = s"

definition getSessionContextSettings :: "entry list \<Rightarrow> string \<times> (string \<times> string) option" where
  "getSessionContextSettings path = foldl (\<lambda>s e. settings_step s (body e)) (''off'', None) path"

fun fill_content :: "agent_message \<Rightarrow> agent_message" where
  "fill_content (User None t) = User (Some (Blocks [])) t"
| "fill_content (ToolResult c None t) = ToolResult c (Some (Blocks [])) t"
| "fill_content (Assistant a) =
     Assistant (if am_content a = None then a\<lparr>am_content := Some []\<rparr> else a)"
| "fill_content m = m"

definition sessionEntryToContextMessages :: "entry \<Rightarrow> agent_message list" where
  "sessionEntryToContextMessages e =
     (case body e of
        EMessage m \<Rightarrow> [fill_content m]
      | ECustomMessage k \<Rightarrow>
          [createCustomMessage (ke_customType k)
             (Some (case ke_content k of None \<Rightarrow> Blocks [] | Some c \<Rightarrow> c)) (ke_display k) (ke_details k) (timestamp e)]
      | EBranchSummary b \<Rightarrow>
          if be_summary b \<noteq> [] then [createBranchSummaryMessage (be_summary b) (be_fromId b) (timestamp e)] else []
      | ECompaction c \<Rightarrow> [createCompactionSummaryMessage (ce_summary c) (ce_tokensBefore c) (timestamp e)]
      | _ \<Rightarrow> [])"

lemma context_messages_at_most_one: "length (sessionEntryToContextMessages e) \<le> 1"
  by (simp add: sessionEntryToContextMessages_def split: entry_body.split)

section \<open>Compaction-aware selection\<close>

definition context_of_path :: "entry list \<Rightarrow> entry list" where
  "context_of_path path =
     (let compactions = filter (\<lambda>e. is_compaction (body e)) path in
      if compactions = [] then path
      else
        (let compaction = last compactions;
             kept = (case body compaction of ECompaction c \<Rightarrow> ce_firstKeptEntryId c | _ \<Rightarrow> None)
         in case find_index (\<lambda>e. eid e = eid compaction) path of
              None \<Rightarrow> path
            | Some idx \<Rightarrow>
                [compaction] @ dropWhile (\<lambda>e. Some (eid e) \<noteq> kept) (take idx path) @ drop (idx + 1) path))"

definition buildContextEntries ::
  "entry list \<Rightarrow> leaf_arg \<Rightarrow> entry jsmap option \<Rightarrow> entry list option" where
  "buildContextEntries es leafId byId = map_option context_of_path (buildSessionPath es leafId byId)"

record session_context =
  sc_messages :: "agent_message list"
  sc_thinkingLevel :: string
  sc_model :: "(string \<times> string) option"

definition buildSessionContext ::
  "entry list \<Rightarrow> leaf_arg \<Rightarrow> entry jsmap option \<Rightarrow> session_context option" where
  "buildSessionContext es leafId byId =
     (case buildSessionPath es leafId byId of
        None \<Rightarrow> None
      | Some path \<Rightarrow>
          (case buildContextEntries es leafId byId of
             None \<Rightarrow> None
           | Some ces \<Rightarrow>
               (let (thinkingLevel, model) = getSessionContextSettings path in
                Some \<lparr>sc_messages = concat (map sessionEntryToContextMessages ces),
                      sc_thinkingLevel = thinkingLevel, sc_model = model\<rparr>)))"

section \<open>Lemmas\<close>

lemma parent_of_Some:
  "parent_of index e = Some a \<Longrightarrow> \<exists>p. parentId e = Some p \<and> p \<noteq> [] \<and> jm_get index p = Some a"
  by (auto simp: parent_of_def split: option.splits)

lemma context_of_path_no_compaction:
  "\<forall>e \<in> set path. \<not> is_compaction (body e) \<Longrightarrow> context_of_path path = path"
  by (simp add: context_of_path_def filter_False)

lemma dropWhile_first_match:
  "k < length xs \<Longrightarrow> \<not> P (xs ! k) \<Longrightarrow> \<forall>j < k. P (xs ! j) \<Longrightarrow> dropWhile P xs = drop k xs"
proof (induction xs arbitrary: k)
  case Nil
  then show ?case by simp
next
  case (Cons x xs)
  show ?case
  proof (cases k)
    case 0
    with Cons.prems show ?thesis by simp
  next
    case (Suc k')
    with Cons.prems have "P x" by force
    moreover have "dropWhile P xs = drop k' xs"
      using Cons.prems Suc by (intro Cons.IH) auto
    ultimately show ?thesis using Suc by simp
  qed
qed

lemma find_index_distinct:
  assumes "distinct (map f xs)" and "i < length xs"
  shows "find_index (\<lambda>e. f e = f (xs ! i)) xs = Some i"
proof (cases "find_index (\<lambda>e. f e = f (xs ! i)) xs")
  case None
  with find_index_NoneD [OF None nth_mem [OF assms(2)]] show ?thesis by simp
next
  case (Some j)
  then have "j < length xs" "f (xs ! j) = f (xs ! i)" by (auto dest: find_index_SomeD)
  with assms have "j = i" by (metis distinct_conv_nth length_map nth_map)
  with Some show ?thesis by simp
qed

text \<open>
  The selection on a path \<open>before @ [compaction] @ after\<close> whose ids are distinct and whose
  last compaction is the one named: the compaction first, then what \<open>dropWhile\<close> keeps of the
  part before it, then the part after it.
\<close>

lemma context_of_path_split:
  assumes "distinct (map eid (xs @ c # ys))"
    and "body c = ECompaction d" and "\<forall>e \<in> set ys. \<not> is_compaction (body e)"
  shows "context_of_path (xs @ c # ys) =
           c # dropWhile (\<lambda>e. Some (eid e) \<noteq> ce_firstKeptEntryId d) xs @ ys"
proof -
  have ys: "filter (\<lambda>e. is_compaction (body e)) ys = []" using assms(3) by (simp add: filter_False)
  then have "filter (\<lambda>e. is_compaction (body e)) (xs @ c # ys) = filter (\<lambda>e. is_compaction (body e)) xs @ [c]"
    using assms(2) by simp
  moreover have "find_index (\<lambda>e. eid e = eid c) (xs @ c # ys) = Some (length xs)"
    using find_index_distinct [OF assms(1), of "length xs"] by simp
  ultimately show ?thesis
    using assms(2) by (simp add: context_of_path_def Let_def)
qed

text \<open>With the first kept entry on the path, the kept part is the suffix that starts at it.\<close>

lemma context_of_path_kept:
  assumes "distinct (map eid (xs @ c # ys))"
    and "body c = ECompaction d" and "\<forall>e \<in> set ys. \<not> is_compaction (body e)"
    and "k < length xs" and "ce_firstKeptEntryId d = Some (eid (xs ! k))"
  shows "context_of_path (xs @ c # ys) = c # drop k xs @ ys"
proof -
  have "eid (xs ! j) \<noteq> eid (xs ! k)" if "j < k" for j
    using assms(1,4) that nth_eq_iff_index_eq [of "map eid xs" j k] by auto
  then have "dropWhile (\<lambda>e. Some (eid e) \<noteq> ce_firstKeptEntryId d) xs = drop k xs"
    using assms(4,5) by (intro dropWhile_first_match) auto
  then show ?thesis using context_of_path_split [OF assms(1-3)] by simp
qed

text \<open>A dangling first kept id keeps nothing of what stood before the compaction.\<close>

lemma context_of_path_dangling:
  assumes "distinct (map eid (xs @ c # ys))"
    and "body c = ECompaction d" and "\<forall>e \<in> set ys. \<not> is_compaction (body e)"
    and "\<forall>e \<in> set xs. ce_firstKeptEntryId d \<noteq> Some (eid e)"
  shows "context_of_path (xs @ c # ys) = c # ys"
proof -
  have "dropWhile (\<lambda>e. Some (eid e) \<noteq> ce_firstKeptEntryId d) xs = []"
    using assms(4) by auto
  then show ?thesis using context_of_path_split [OF assms(1-3)] by simp
qed

lemma context_of_path_subset: "set (context_of_path path) \<subseteq> set path"
proof (cases "filter (\<lambda>e. is_compaction (body e)) path = []")
  case True
  then show ?thesis by (simp add: context_of_path_def)
next
  case False
  then have "last (filter (\<lambda>e. is_compaction (body e)) path) \<in> set path"
    using last_in_set [OF False] by auto
  moreover have "set (dropWhile P (take n path)) \<subseteq> set path" for P n
    by (meson order.trans set_dropWhileD set_take_subset subsetI)
  ultimately show ?thesis using False set_drop_subset [of _ path]
    by (auto simp: context_of_path_def Let_def split: option.splits)
qed

lemma settings_last_thinking:
  assumes "body e = EThinkingLevelChange level"
    and "\<forall>x \<in> set after. \<forall>l. body x \<noteq> EThinkingLevelChange l"
  shows "fst (getSessionContextSettings (before @ e # after)) = level"
proof -
  have "fst (foldl (\<lambda>s e. settings_step s (body e)) s after) = fst s" for s
    using assms(2)
  proof (induction after arbitrary: s)
    case Nil
    then show ?case by simp
  next
    case (Cons x xs)
    have "fst (settings_step s (body x)) = fst s"
      using Cons.prems by (cases "(s, body x)" rule: settings_step.cases) auto
    with Cons show ?case by simp
  qed
  moreover have "fst (settings_step s (body e)) = level" for s
    using assms(1) by (cases s) simp
  ultimately show ?thesis by (simp add: getSessionContextSettings_def)
qed

end
