(* ===== verification/Session_Manager.thy ===== *)
theory Session_Manager
  imports Session_Context
begin

text \<open>
  The session manager (\<open>class SessionManager\<close> in \<open>src/core/session-manager.ts\<close>): an
  append-only log of entries forming a tree, the indexes over it, the leaf pointer, and the
  rules that decide when the log is written to its file. Every operation takes the manager
  and the world it acts on (random identifiers, the clock, the files) and returns both, with
  an error value where the code throws; what was assigned before a throw stays assigned.
\<close>

section \<open>State\<close>

record session_manager =
  sm_sessionId :: string
  sm_sessionFile :: "session_path option"
  sm_sessionDir :: string
  sm_cwd :: string
  sm_persist :: bool
  sm_flushed :: bool
  sm_fileEntries :: "file_entry list"
  sm_byId :: "entry jsmap"
  sm_labelsById :: "string jsmap"
  sm_labelTimestampsById :: "int jsmap"
  sm_leafId :: "string option"

text \<open>A file is its list of lines; a line parses to an entry or is malformed or blank.\<close>

datatype file_line = LineEntry raw_file_entry | LineMalformed

record world =
  w_uuid :: "nat \<Rightarrow> string"
  w_uuid_pos :: nat
  w_sessionIds :: "nat \<Rightarrow> string"
  w_session_pos :: nat
  w_clock :: "nat \<Rightarrow> int"
  w_tick :: nat
  w_files :: "session_path \<Rightarrow> file_line list option"

datatype sm_error =
    EntryNotFound string
  | InvalidSessionId
  | FileExists session_path
  | InvalidSessionFile session_path
  | ForkSourceInvalid session_path

type_synonym 'a sm_result = "(sm_error + 'a) \<times> session_manager \<times> world"

definition next_id :: "(string \<Rightarrow> bool) \<Rightarrow> world \<Rightarrow> string \<times> world" where
  "next_id has w = (let (i, n) = generateId has (w_uuid w) (w_uuid_pos w) in (i, w\<lparr>w_uuid_pos := n\<rparr>))"

definition createSessionId :: "world \<Rightarrow> string \<times> world" where
  "createSessionId w = (w_sessionIds w (w_session_pos w), w\<lparr>w_session_pos := Suc (w_session_pos w)\<rparr>)"

definition now :: "world \<Rightarrow> int \<times> world" where
  "now w = (w_clock w (w_tick w), w\<lparr>w_tick := Suc (w_tick w)\<rparr>)"

section \<open>Lines of the log\<close>

fun uncook :: "file_entry \<Rightarrow> file_line" where
  "uncook (FHeader h) = LineEntry (RawHeader h)"
| "uncook (FEntry e) =
     LineEntry (RawEntry \<lparr>re_id = Some (eid e), re_parentId = parentId e, re_timestamp = timestamp e,
                          re_body = RawBody (body e)\<rparr>)"

fun line_entry :: "file_line \<Rightarrow> raw_file_entry option" where
  "line_entry (LineEntry r) = Some r"
| "line_entry LineMalformed = None"

definition parseSessionEntries :: "file_line list \<Rightarrow> raw_file_entry list" where
  "parseSessionEntries ls = List.map_filter line_entry ls"

text \<open>A non-empty log whose first entry is not a header is no session.\<close>

definition loadEntriesFromFile :: "world \<Rightarrow> session_path \<Rightarrow> raw_file_entry list" where
  "loadEntriesFromFile w p =
     (case w_files w p of
        None \<Rightarrow> []
      | Some ls \<Rightarrow>
          (let es = parseSessionEntries ls in
           case es of
             RawHeader h # _ \<Rightarrow> es
           | _ \<Rightarrow> []))"

section \<open>The indexes\<close>

fun label_step :: "string jsmap \<times> int jsmap \<Rightarrow> entry \<Rightarrow> string jsmap \<times> int jsmap" where
  "label_step (ls, ts) e =
     (case body e of
        ELabel target label \<Rightarrow>
          (case truthy_str label of
             Some l \<Rightarrow> (jm_set target l ls, jm_set target (timestamp e) ts)
           | None \<Rightarrow> (jm_delete target ls, jm_delete target ts))
      | _ \<Rightarrow> (ls, ts))"

fun index_step :: "session_manager \<Rightarrow> file_entry \<Rightarrow> session_manager" where
  "index_step s (FHeader h) = s"
| "index_step s (FEntry e) =
     (let (ls, ts) = label_step (sm_labelsById s, sm_labelTimestampsById s) e in
      s\<lparr>sm_byId := jm_set (eid e) e (sm_byId s), sm_leafId := Some (eid e),
        sm_labelsById := ls, sm_labelTimestampsById := ts\<rparr>)"

definition buildIndex :: "session_manager \<Rightarrow> session_manager" where
  "buildIndex s =
     foldl index_step
       (s\<lparr>sm_byId := [], sm_labelsById := [], sm_labelTimestampsById := [], sm_leafId := None\<rparr>)
       (sm_fileEntries s)"

section \<open>Persistence\<close>

definition rewriteFile :: "session_manager \<Rightarrow> world \<Rightarrow> world" where
  "rewriteFile s w =
     (case sm_sessionFile s of
        Some p \<Rightarrow>
          if sm_persist s then w\<lparr>w_files := (w_files w)(p \<mapsto> map uncook (sm_fileEntries s))\<rparr> else w
      | None \<Rightarrow> w)"

definition append_line :: "session_path \<Rightarrow> file_entry \<Rightarrow> world \<Rightarrow> world" where
  "append_line p e w =
     w\<lparr>w_files := (w_files w)(p \<mapsto> (case w_files w p of None \<Rightarrow> [] | Some ls \<Rightarrow> ls) @ [uncook e])\<rparr>"

definition hasAssistant :: "file_entry list \<Rightarrow> bool" where
  "hasAssistant fs = (\<exists>e \<in> set (entries_of fs). has_assistant_body (body e))"

text \<open>\<open>openSync(file, "wx")\<close> throws when the file exists.\<close>

definition persist_entry :: "entry \<Rightarrow> session_manager \<Rightarrow> world \<Rightarrow> unit sm_result" where
  "persist_entry e s w =
     (case sm_sessionFile s of
        None \<Rightarrow> (Inr (), s, w)
      | Some p \<Rightarrow>
          if \<not> sm_persist s then (Inr (), s, w)
          else if \<not> hasAssistant (sm_fileEntries s) then
            (if sm_flushed s then (Inr (), s, append_line p (FEntry e) w)
             else (Inr (), s\<lparr>sm_flushed := False\<rparr>, w))
          else if \<not> sm_flushed s then
            (if w_files w p \<noteq> None then (Inl (FileExists p), s, w)
             else (Inr (), s\<lparr>sm_flushed := True\<rparr>,
                   w\<lparr>w_files := (w_files w)(p \<mapsto> map uncook (sm_fileEntries s))\<rparr>))
          else (Inr (), s, append_line p (FEntry e) w))"

definition push_entry :: "entry \<Rightarrow> session_manager \<Rightarrow> session_manager" where
  "push_entry e s =
     s\<lparr>sm_fileEntries := sm_fileEntries s @ [FEntry e],
       sm_byId := jm_set (eid e) e (sm_byId s), sm_leafId := Some (eid e)\<rparr>"

definition appendEntry :: "entry \<Rightarrow> session_manager \<Rightarrow> world \<Rightarrow> unit sm_result" where
  "appendEntry e s w = persist_entry e (push_entry e s) w"

section \<open>Appending\<close>

text \<open>The part every \<open>appendXXX\<close> shares: a new child of the leaf.\<close>

definition new_entry :: "entry_body \<Rightarrow> session_manager \<Rightarrow> world \<Rightarrow> entry \<times> world" where
  "new_entry b s w =
     (let (i, w1) = next_id (jm_has (sm_byId s)) w;
          (t, w2) = now w1
      in (\<lparr>eid = i, parentId = sm_leafId s, timestamp = t, body = b\<rparr>, w2))"

definition append_body :: "entry_body \<Rightarrow> session_manager \<Rightarrow> world \<Rightarrow> string sm_result" where
  "append_body b s w =
     (let (e, w1) = new_entry b s w;
          (r, s2, w2) = appendEntry e s w1
      in (case r of Inl err \<Rightarrow> (Inl err, s2, w2) | Inr _ \<Rightarrow> (Inr (eid e), s2, w2)))"

definition appendMessage :: "agent_message \<Rightarrow> session_manager \<Rightarrow> world \<Rightarrow> string sm_result" where
  "appendMessage m = append_body (EMessage m)"

definition appendThinkingLevelChange :: "string \<Rightarrow> session_manager \<Rightarrow> world \<Rightarrow> string sm_result" where
  "appendThinkingLevelChange level = append_body (EThinkingLevelChange level)"

definition appendModelChange :: "string \<Rightarrow> string \<Rightarrow> session_manager \<Rightarrow> world \<Rightarrow> string sm_result" where
  "appendModelChange provider modelId = append_body (EModelChange provider modelId)"

definition appendCompaction ::
  "string \<Rightarrow> string \<Rightarrow> nat \<Rightarrow> json option \<Rightarrow> bool \<Rightarrow> usage option \<Rightarrow>
     session_manager \<Rightarrow> world \<Rightarrow> string sm_result" where
  "appendCompaction summary firstKept tokensBefore details fromHook usage =
     append_body (ECompaction
       \<lparr>ce_summary = summary, ce_firstKeptEntryId = Some firstKept, ce_tokensBefore = tokensBefore,
        ce_details = details, ce_usage = usage, ce_fromHook = fromHook\<rparr>)"

definition appendCustomEntry :: "string \<Rightarrow> json option \<Rightarrow> session_manager \<Rightarrow> world \<Rightarrow> string sm_result" where
  "appendCustomEntry customType data = append_body (ECustom customType data)"

text \<open>\<open>name.replace(/[\r\n]+/g, " ").trim()\<close>.\<close>

definition is_newline :: "char \<Rightarrow> bool" where
  "is_newline c = (c = CHR 0x0D \<or> c = CHR 0x0A)"

definition is_space :: "char \<Rightarrow> bool" where
  "is_space c = (let n = of_char c :: nat in (9 \<le> n \<and> n \<le> 13) \<or> n = 32 \<or> n = 160)"

text \<open>The flag says that the character before was a newline of the same run.\<close>

fun squash_newlines :: "bool \<Rightarrow> string \<Rightarrow> string" where
  "squash_newlines run [] = []"
| "squash_newlines run (c # cs) =
     (if is_newline c then (if run then [] else '' '') @ squash_newlines True cs
      else c # squash_newlines False cs)"

definition trim :: "string \<Rightarrow> string" where
  "trim s = rev (dropWhile is_space (rev (dropWhile is_space s)))"

definition appendSessionInfo :: "string \<Rightarrow> session_manager \<Rightarrow> world \<Rightarrow> string sm_result" where
  "appendSessionInfo name = append_body (ESessionInfo (Some (trim (squash_newlines False name))))"

definition appendCustomMessageEntry ::
  "string \<Rightarrow> content \<Rightarrow> bool \<Rightarrow> json option \<Rightarrow> session_manager \<Rightarrow> world \<Rightarrow> string sm_result" where
  "appendCustomMessageEntry customType content display details =
     append_body (ECustomMessage
       \<lparr>ke_customType = customType, ke_content = Some content, ke_details = details, ke_display = display\<rparr>)"

text \<open>
  The label maps are updated after \<open>_appendEntry\<close>: a throw inside it leaves them unchanged.
\<close>

definition appendLabelChange :: "string \<Rightarrow> string option \<Rightarrow> session_manager \<Rightarrow> world \<Rightarrow> string sm_result" where
  "appendLabelChange targetId label s w =
     (if \<not> jm_has (sm_byId s) targetId then (Inl (EntryNotFound targetId), s, w)
      else
        (let (e, w1) = new_entry (ELabel targetId label) s w;
             (r, s2, w2) = appendEntry e s w1
         in (case r of
               Inl err \<Rightarrow> (Inl err, s2, w2)
             | Inr _ \<Rightarrow>
                 (let (ls, ts) = label_step (sm_labelsById s2, sm_labelTimestampsById s2) e in
                  (Inr (eid e), s2\<lparr>sm_labelsById := ls, sm_labelTimestampsById := ts\<rparr>, w2)))))"

section \<open>Reading\<close>

definition getEntries :: "session_manager \<Rightarrow> entry list" where
  "getEntries s = entries_of (sm_fileEntries s)"

definition getEntry :: "session_manager \<Rightarrow> string \<Rightarrow> entry option" where
  "getEntry s i = jm_get (sm_byId s) i"

definition getLeafEntry :: "session_manager \<Rightarrow> entry option" where
  "getLeafEntry s = (case truthy_str (sm_leafId s) of None \<Rightarrow> None | Some i \<Rightarrow> jm_get (sm_byId s) i)"

definition getChildren :: "session_manager \<Rightarrow> string \<Rightarrow> entry list" where
  "getChildren s i = filter (\<lambda>e. parentId e = Some i) (map snd (sm_byId s))"

definition getLabel :: "session_manager \<Rightarrow> string \<Rightarrow> string option" where
  "getLabel s i = jm_get (sm_labelsById s) i"

fun file_header :: "file_entry list \<Rightarrow> session_header option" where
  "file_header [] = None"
| "file_header (FHeader h # _) = Some h"
| "file_header (FEntry _ # fs) = file_header fs"

definition getHeader :: "session_manager \<Rightarrow> session_header option" where
  "getHeader s = file_header (sm_fileEntries s)"

fun session_info_name :: "entry_body \<Rightarrow> string option option" where
  "session_info_name (ESessionInfo name) = Some name"
| "session_info_name _ = None"

definition getSessionName :: "session_manager \<Rightarrow> string option" where
  "getSessionName s =
     (let es = getEntries s in
      case scan_down (\<lambda>i. session_info_name (body (es ! i)) \<noteq> None) 0 (length es) of
        None \<Rightarrow> None
      | Some i \<Rightarrow>
          (case session_info_name (body (es ! i)) of
             Some (Some name) \<Rightarrow> truthy_str (Some (trim name))
           | _ \<Rightarrow> None))"

text \<open>\<open>None\<close> outside is a walk that does not return.\<close>

definition getBranch :: "session_manager \<Rightarrow> string option \<Rightarrow> entry list option" where
  "getBranch s fromId =
     (let startId = (case fromId of Some i \<Rightarrow> Some i | None \<Rightarrow> sm_leafId s) in
      case truthy_str startId of
        None \<Rightarrow> Some []
      | Some i \<Rightarrow>
          (case jm_get (sm_byId s) i of
             None \<Rightarrow> Some []
           | Some e \<Rightarrow> walk_up (parent_of (sm_byId s)) e []))"

definition leaf_of :: "session_manager \<Rightarrow> leaf_arg" where
  "leaf_of s = (case sm_leafId s of None \<Rightarrow> LeafNull | Some i \<Rightarrow> LeafId i)"

definition sm_buildContextEntries :: "session_manager \<Rightarrow> entry list option" where
  "sm_buildContextEntries s = buildContextEntries (getEntries s) (leaf_of s) (Some (sm_byId s))"

definition sm_buildSessionContext :: "session_manager \<Rightarrow> session_context option" where
  "sm_buildSessionContext s = buildSessionContext (getEntries s) (leaf_of s) (Some (sm_byId s))"

section \<open>Branching\<close>

definition branch :: "string \<Rightarrow> session_manager \<Rightarrow> world \<Rightarrow> unit sm_result" where
  "branch i s w =
     (if \<not> jm_has (sm_byId s) i then (Inl (EntryNotFound i), s, w)
      else (Inr (), s\<lparr>sm_leafId := Some i\<rparr>, w))"

definition resetLeaf :: "session_manager \<Rightarrow> session_manager" where
  "resetLeaf s = s\<lparr>sm_leafId := None\<rparr>"

definition branchWithSummary ::
  "string option \<Rightarrow> string \<Rightarrow> json option \<Rightarrow> bool \<Rightarrow> usage option \<Rightarrow>
     session_manager \<Rightarrow> world \<Rightarrow> string sm_result" where
  "branchWithSummary branchFromId summary details fromHook usage s w =
     (case branchFromId of
        Some i \<Rightarrow>
          if \<not> jm_has (sm_byId s) i then (Inl (EntryNotFound i), s, w)
          else append_body (EBranchSummary
                 \<lparr>be_fromId = i, be_summary = summary, be_details = details, be_usage = usage, be_fromHook = fromHook\<rparr>)
                 (s\<lparr>sm_leafId := branchFromId\<rparr>) w
      | None \<Rightarrow>
          append_body (EBranchSummary
            \<lparr>be_fromId = ''root'', be_summary = summary, be_details = details, be_usage = usage, be_fromHook = fromHook\<rparr>)
            (s\<lparr>sm_leafId := branchFromId\<rparr>) w)"

section \<open>Sessions\<close>

definition begin_session :: "string \<Rightarrow> session_path option \<Rightarrow> session_manager \<Rightarrow> world \<Rightarrow> session_manager \<times> world" where
  "begin_session i parentSession s w =
     (let (t, w1) = now w;
          header = \<lparr>sh_version = Some CURRENT_SESSION_VERSION, sh_id = i, sh_timestamp = t,
                    sh_cwd = sm_cwd s, sh_parentSession = parentSession\<rparr>
      in (s\<lparr>sm_sessionId := i, sm_fileEntries := [FHeader header], sm_byId := [],
            sm_labelsById := [], sm_labelTimestampsById := [], sm_leafId := None, sm_flushed := False,
            sm_sessionFile := (if sm_persist s then Some (SessionFileOf (sm_sessionDir s) t i)
                               else sm_sessionFile s)\<rparr>, w1))"

definition newSession :: "string option \<Rightarrow> session_path option \<Rightarrow> session_manager \<Rightarrow> world \<Rightarrow> unit sm_result" where
  "newSession optId parentSession s w =
     (case optId of
        Some i \<Rightarrow>
          if \<not> validSessionId i then (Inl InvalidSessionId, s, w)
          else (let (s1, w1) = begin_session i parentSession s w in (Inr (), s1, w1))
      | None \<Rightarrow>
          (let (i, w1) = createSessionId w;
               (s2, w2) = begin_session i parentSession s w1
           in (Inr (), s2, w2)))"

definition setSessionFile :: "session_path \<Rightarrow> session_manager \<Rightarrow> world \<Rightarrow> unit sm_result" where
  "setSessionFile p s w =
     (let s0 = s\<lparr>sm_sessionFile := Some p\<rparr> in
      case w_files w p of
        Some ls \<Rightarrow>
          (let raws = loadEntriesFromFile w p in
           if raws = [] then
             (if ls \<noteq> [] then (Inl (InvalidSessionFile p), s0\<lparr>sm_fileEntries := []\<rparr>, w)
              else
                (let (r, s1, w1) = newSession None None (s0\<lparr>sm_fileEntries := []\<rparr>) w;
                     s2 = s1\<lparr>sm_sessionFile := Some p\<rparr>
                 in (Inr (), s2\<lparr>sm_flushed := True\<rparr>, rewriteFile s2 w1)))
           else
             (let (i, w1) = (case List.map_filter raw_header raws of
                               h # _ \<Rightarrow> (sh_id h, w)
                             | [] \<Rightarrow> createSessionId w);
                  (migrated, es, n) = migrateToCurrentVersion (w_uuid w1) (w_uuid_pos w1) raws;
                  s1 = s0\<lparr>sm_sessionId := i, sm_fileEntries := List.map_filter cook es\<rparr>;
                  w2 = w1\<lparr>w_uuid_pos := n\<rparr>;
                  w3 = (if migrated then rewriteFile s1 w2 else w2)
              in (Inr (), (buildIndex s1)\<lparr>sm_flushed := True\<rparr>, w3)))
      | None \<Rightarrow>
          (let (r, s1, w1) = newSession None None s0 w in (Inr (), s1\<lparr>sm_sessionFile := Some p\<rparr>, w1)))"

text \<open>A manager before its constructor has chosen a session.\<close>

definition blank_manager :: "string \<Rightarrow> string \<Rightarrow> bool \<Rightarrow> session_manager" where
  "blank_manager cwd dir persist =
     \<lparr>sm_sessionId = [], sm_sessionFile = None, sm_sessionDir = dir, sm_cwd = cwd,
      sm_persist = persist, sm_flushed = False, sm_fileEntries = [], sm_byId = [],
      sm_labelsById = [], sm_labelTimestampsById = [], sm_leafId = None\<rparr>"

definition create :: "string \<Rightarrow> string \<Rightarrow> string option \<Rightarrow> session_path option \<Rightarrow> world \<Rightarrow> unit sm_result" where
  "create cwd dir optId parentSession w = newSession optId parentSession (blank_manager cwd dir True) w"

definition inMemory :: "string \<Rightarrow> string option \<Rightarrow> session_path option \<Rightarrow> world \<Rightarrow> unit sm_result" where
  "inMemory cwd optId parentSession w = newSession optId parentSession (blank_manager cwd [] False) w"

definition open_session :: "session_path \<Rightarrow> string \<Rightarrow> string \<Rightarrow> world \<Rightarrow> unit sm_result" where
  "open_session p cwd dir w = setSessionFile p (blank_manager cwd dir True) w"

subsection \<open>Extracting a branch\<close>

text \<open>Label entries leave the path; the entries that stay are chained anew.\<close>

fun drop_labels :: "string option \<Rightarrow> entry list \<Rightarrow> entry list" where
  "drop_labels pathParentId [] = []"
| "drop_labels pathParentId (e # es) =
     (if is_label (body e) then drop_labels pathParentId es
      else e\<lparr>parentId := pathParentId\<rparr> # drop_labels (Some (eid e)) es)"

text \<open>
  The labels of retained entries are written back as label entries, each a child of the one
  before; both branches of the source (persisted and in memory) draw ids that avoid the path
  and the labels written so far.
\<close>

fun label_entries ::
  "(string \<times> string \<times> int) list \<Rightarrow> string list \<Rightarrow> string option \<Rightarrow> world \<Rightarrow> entry list \<times> world" where
  "label_entries [] ids par w = ([], w)"
| "label_entries ((targetId, label, t) # rest) ids par w =
     (let (i, w1) = next_id (\<lambda>k. k \<in> set ids) w;
          e = \<lparr>eid = i, parentId = par, timestamp = t, body = ELabel targetId (Some label)\<rparr>;
          (es, w2) = label_entries rest (ids @ [i]) (Some i) w1
      in (e # es, w2))"

definition labels_to_write :: "session_manager \<Rightarrow> string list \<Rightarrow> (string \<times> string \<times> int) list" where
  "labels_to_write s ids =
     map (\<lambda>(k, l). (k, l, the (jm_get (sm_labelTimestampsById s) k)))
       (filter (\<lambda>(k, l). k \<in> set ids) (sm_labelsById s))"

definition branched_entries :: "session_manager \<Rightarrow> entry list \<Rightarrow> world \<Rightarrow> entry list \<times> world" where
  "branched_entries s path w =
     (let kept = drop_labels None path;
          ids = map eid kept;
          lastEntryId = truthy_str (if kept = [] then None else Some (eid (last kept)));
          (labels, w1) = label_entries (labels_to_write s ids) ids lastEntryId w
      in (kept @ labels, w1))"

definition createBranchedSession ::
  "string \<Rightarrow> session_manager \<Rightarrow> world \<Rightarrow> session_path option sm_result option" where
  "createBranchedSession leafId s w =
     (case getBranch s (Some leafId) of
        None \<Rightarrow> None
      | Some [] \<Rightarrow> Some (Inl (EntryNotFound leafId), s, w)
      | Some path \<Rightarrow>
          (let (newId, w1) = createSessionId w;
               (t, w2) = now w1;
               newFile = SessionFileOf (sm_sessionDir s) t newId;
               header = \<lparr>sh_version = Some CURRENT_SESSION_VERSION, sh_id = newId, sh_timestamp = t,
                         sh_cwd = sm_cwd s,
                         sh_parentSession = (if sm_persist s then sm_sessionFile s else None)\<rparr>;
               (es, w3) = branched_entries s path w2;
               s1 = s\<lparr>sm_fileEntries := FHeader header # map FEntry es, sm_sessionId := newId\<rparr>
           in if sm_persist s then
                (let s2 = buildIndex (s1\<lparr>sm_sessionFile := Some newFile\<rparr>) in
                 if hasAssistant (sm_fileEntries s2)
                 then Some (Inr (Some newFile), s2\<lparr>sm_flushed := True\<rparr>, rewriteFile s2 w3)
                 else Some (Inr (Some newFile), s2\<lparr>sm_flushed := False\<rparr>, w3))
              else Some (Inr None, buildIndex s1, w3)))"

section \<open>The tree view\<close>

text \<open>
  The node objects live in \<open>nodeMap\<close> and refer to each other, so a node holds the ids of its
  children. Parents are looked up by \<open>parentId\<close>, an entry that is its own parent or whose
  parent is missing is a root, and the children of every reachable node are sorted by time.
\<close>

record tree_node =
  tn_entry :: entry
  tn_children :: "string list"
  tn_label :: "string option"
  tn_labelTimestamp :: "int option"

definition tree_parent :: "session_manager \<Rightarrow> entry \<Rightarrow> string option" where
  "tree_parent s e =
     (case parentId e of
        None \<Rightarrow> None
      | Some p \<Rightarrow> if p = eid e then None
                 else if p \<in> eid ` set (getEntries s) then Some p else None)"

definition tree_roots :: "session_manager \<Rightarrow> string list" where
  "tree_roots s = map eid (filter (\<lambda>e. tree_parent s e = None) (getEntries s))"

definition node_of :: "session_manager \<Rightarrow> entry \<Rightarrow> tree_node" where
  "node_of s e =
     \<lparr>tn_entry = e,
      tn_children = map eid (sort_key timestamp (filter (\<lambda>c. tree_parent s c = Some (eid e)) (getEntries s))),
      tn_label = jm_get (sm_labelsById s) (eid e),
      tn_labelTimestamp = jm_get (sm_labelTimestampsById s) (eid e)\<rparr>"

definition getTree :: "session_manager \<Rightarrow> string list \<times> tree_node jsmap" where
  "getTree s =
     (tree_roots s, foldl (\<lambda>m e. jm_set (eid e) (node_of s e) m) [] (getEntries s))"

section \<open>Forking from another project\<close>

text \<open>
  The new file is created with the flag \<open>wx\<close>: a new header that names the source as parent,
  then every non-header line of the source, then the manager opens it.
\<close>

fun is_raw_entry :: "raw_file_entry \<Rightarrow> bool" where
  "is_raw_entry (RawEntry _) = True"
| "is_raw_entry (RawHeader _) = False"

definition forkFrom ::
  "session_path \<Rightarrow> string \<Rightarrow> string \<Rightarrow> string option \<Rightarrow> world \<Rightarrow> unit sm_result" where
  "forkFrom source targetCwd dir optId w =
     (let blank = blank_manager targetCwd dir True;
          raws = loadEntriesFromFile w source in
      if raws = [] \<or> List.map_filter raw_header raws = [] then (Inl (ForkSourceInvalid source), blank, w)
      else if (case optId of Some i \<Rightarrow> \<not> validSessionId i | None \<Rightarrow> False) then (Inl InvalidSessionId, blank, w)
      else
        (let (newId, w1) = (case optId of Some i \<Rightarrow> (i, w) | None \<Rightarrow> createSessionId w);
             (t, w2) = now w1;
             file = SessionFileOf dir t newId;
             header = \<lparr>sh_version = Some CURRENT_SESSION_VERSION, sh_id = newId, sh_timestamp = t,
                       sh_cwd = targetCwd, sh_parentSession = Some source\<rparr>
         in if w_files w2 file \<noteq> None then (Inl (FileExists file), blank, w2)
            else
              (let w3 = w2\<lparr>w_files := (w_files w2)(file \<mapsto>
                              LineEntry (RawHeader header) # map LineEntry (filter is_raw_entry raws))\<rparr>
               in setSessionFile file blank w3)))"

end
