(* ===== verification/Session_Runs.thy ===== *)
theory Session_Runs
  imports Session_Manager
begin

text \<open>
  Runs of the session manager: its mutating operations as data, their execution, the states
  reachable from a fresh session, and the preservation of \<open>wf_session\<close>, of the origin of
  identifiers and of the agreement between the log in memory and its file.
\<close>

text \<open>
  What every session manager keeps true: the log is a tree grown by appending (unique
  non-empty ids, each parent earlier in the log), the indexes are those \<open>_buildIndex\<close> would
  rebuild from the log, and the leaf is an entry. The entry index satisfies the interface
  \<open>parent_chain\<close>, so every walk to the root ends.
\<close>

section \<open>Well-formed logs\<close>

inductive wf_log :: "entry list \<Rightarrow> bool" where
  empty: "wf_log []"
| snoc: "wf_log es \<Longrightarrow> eid e \<notin> eid ` set es \<Longrightarrow> eid e \<noteq> [] \<Longrightarrow>
         (\<forall>p. parentId e = Some p \<longrightarrow> p \<in> eid ` set es) \<Longrightarrow> wf_log (es @ [e])"

definition entry_index :: "entry list \<Rightarrow> entry jsmap" where
  "entry_index es = map (\<lambda>e. (eid e, e)) es"

definition label_maps :: "entry list \<Rightarrow> string jsmap \<times> int jsmap" where
  "label_maps es = foldl label_step ([], []) es"

definition wf_session :: "session_manager \<Rightarrow> bool" where
  "wf_session s \<longleftrightarrow>
     wf_log (getEntries s) \<and> sm_byId s = entry_index (getEntries s) \<and>
     (sm_labelsById s, sm_labelTimestampsById s) = label_maps (getEntries s) \<and>
     (\<forall>l. sm_leafId s = Some l \<longrightarrow> l \<in> eid ` set (getEntries s))"

lemma wf_log_snoc_iff:
  "wf_log (es @ [e]) \<longleftrightarrow>
     wf_log es \<and> eid e \<notin> eid ` set es \<and> eid e \<noteq> [] \<and> (\<forall>p. parentId e = Some p \<longrightarrow> p \<in> eid ` set es)"
  by (auto intro: wf_log.snoc elim: wf_log.cases)

lemma wf_log_distinct: "wf_log es \<Longrightarrow> distinct (map eid es)"
  by (induction rule: wf_log.induct) auto

lemma wf_log_nonempty: "wf_log es \<Longrightarrow> e \<in> set es \<Longrightarrow> eid e \<noteq> []"
  by (induction rule: wf_log.induct) auto

lemma wf_log_inj: "wf_log es \<Longrightarrow> a \<in> set es \<Longrightarrow> b \<in> set es \<Longrightarrow> eid a = eid b \<Longrightarrow> a = b"
  by (meson distinct_map inj_onD wf_log_distinct)

lemma entry_index_simps [simp]:
  "entry_index [] = []"
  "entry_index (xs @ ys) = entry_index xs @ entry_index ys"
  "entry_index (e # ys) = (eid e, e) # entry_index ys"
  by (auto simp: entry_index_def)

lemma entry_index_fst [simp]: "fst ` set (entry_index es) = eid ` set es"
  by (force simp: entry_index_def)

lemma entry_index_None: "jm_get (entry_index es) i = None \<longleftrightarrow> i \<notin> eid ` set es"
  by (simp add: map_of_eq_None_iff)

lemma entry_index_has [simp]: "(\<exists>e. jm_get (entry_index es) i = Some e) \<longleftrightarrow> i \<in> eid ` set es"
  using entry_index_None [of es i] by auto

lemma entry_index_SomeD: "jm_get (entry_index es) i = Some e \<Longrightarrow> e \<in> set es \<and> eid e = i"
  by (auto simp: entry_index_def dest: map_of_SomeD)

lemma entry_index_get: "wf_log es \<Longrightarrow> e \<in> set es \<Longrightarrow> jm_get (entry_index es) (eid e) = Some e"
  by (rule map_of_is_SomeI) (auto simp: entry_index_def comp_def dest: wf_log_distinct)

lemma entry_index_set_fresh: "eid e \<notin> eid ` set es \<Longrightarrow> jm_set (eid e) e (entry_index es) = entry_index (es @ [e])"
  by (simp add: jm_set_fresh entry_index_None)

lemma wf_log_parent: "wf_log es \<Longrightarrow> e \<in> set es \<Longrightarrow> parentId e = Some p \<Longrightarrow> p \<in> eid ` set es"
  by (induction rule: wf_log.induct) auto

lemma parent_of_snoc:
  assumes "wf_log (es @ [e])" and "x \<in> set (es @ [e])"
  shows "parent_of (entry_index es @ [(eid e, e)]) x = parent_of (entry_index es) x"
proof -
  have "p \<in> eid ` set es" if "parentId x = Some p" for p
    using assms that by (auto simp: wf_log_snoc_iff dest: wf_log_parent)
  moreover have "eid e \<notin> eid ` set es" using assms(1) by (simp add: wf_log_snoc_iff)
  ultimately have "p \<noteq> eid e" if "parentId x = Some p" for p
    using that by blast
  then show ?thesis by (auto simp: parent_of_def map_add_def split: option.splits)
qed

section \<open>The entry index provides parent links\<close>

definition log_carrier :: "entry list \<Rightarrow> entry set" where
  "log_carrier es = (if wf_log es then set es else {})"

definition log_rank :: "entry list \<Rightarrow> entry \<Rightarrow> nat" where
  "log_rank es e = length (takeWhile (\<lambda>x. eid x \<noteq> eid e) es)"

lemma log_carrier_wf [simp]: "wf_log es \<Longrightarrow> log_carrier es = set es"
  by (simp add: log_carrier_def)

lemma log_rank_snoc:
  "log_rank (es @ [x]) e = (if eid e \<in> eid ` set es then log_rank es e
                            else if eid x = eid e then length es else Suc (length es))"
proof (cases "eid e \<in> eid ` set es")
  case True
  then show ?thesis by (force simp: log_rank_def takeWhile_append)
next
  case False
  then have "\<And>y. y \<in> set es \<Longrightarrow> eid y \<noteq> eid e" by (metis image_eqI)
  with False show ?thesis by (simp add: log_rank_def takeWhile_append)
qed

lemma log_rank_less: "eid e \<in> eid ` set es \<Longrightarrow> log_rank es e < length es"
  by (induction es) (auto simp: log_rank_def)

lemma parent_of_earlier:
  "wf_log es \<Longrightarrow> e \<in> set es \<Longrightarrow> parent_of (entry_index es) e = Some a \<Longrightarrow>
     a \<in> set es \<and> log_rank es a < log_rank es e"
proof (induction rule: wf_log.induct)
  case empty
  then show ?case by simp
next
  case (snoc es x)
  have wf: "wf_log (es @ [x])" using snoc.hyps by (auto simp: wf_log_snoc_iff)
  have par: "parent_of (entry_index es) e = Some a" using snoc.prems parent_of_snoc [OF wf] by simp
  then have a: "a \<in> set es" by (auto dest!: parent_of_Some entry_index_SomeD)
  show ?case
  proof (cases "e \<in> set es")
    case True
    with snoc.IH par have "log_rank es a < log_rank es e" by simp
    with True a show ?thesis by (simp add: log_rank_snoc)
  next
    case False
    with snoc.prems have "e = x" by simp
    with snoc.hyps a show ?thesis by (simp add: log_rank_snoc log_rank_less)
  qed
qed

interpretation log: parent_chain "parent_of (entry_index es)" "log_carrier es" "log_rank es" for es
proof
  fix e a
  assume "e \<in> log_carrier es" "parent_of (entry_index es) e = Some a"
  then show "a \<in> log_carrier es" and "log_rank es a < log_rank es e"
    using parent_of_earlier [of es e a] by (auto simp: log_carrier_def split: if_splits)
qed

text \<open>A root path of the old log is a root path of the grown log.\<close>

lemma root_path_snoc:
  assumes "wf_log (es @ [x])" and "root_path (parent_of (entry_index es)) p e" and "e \<in> set es"
  shows "root_path (parent_of (entry_index (es @ [x]))) p e"
proof (rule walk_cong [OF assms(2)])
  fix y
  assume "y \<in> set p"
  have "wf_log es" using assms(1) by (simp add: wf_log_snoc_iff)
  with assms log.path_in_carrier [OF assms(2)] \<open>y \<in> set p\<close> have "y \<in> set es" by auto
  with assms(1) show "parent_of (entry_index (es @ [x])) y = parent_of (entry_index es) y"
    by (simp add: parent_of_snoc)
qed

section \<open>Index reconstruction\<close>

lemma foldl_index_step:
  "foldl index_step s fs =
     s\<lparr>sm_byId := foldl (\<lambda>m e. jm_set (eid e) e m) (sm_byId s) (entries_of fs),
       sm_leafId := (if entries_of fs = [] then sm_leafId s else Some (eid (last (entries_of fs)))),
       sm_labelsById := fst (foldl label_step (sm_labelsById s, sm_labelTimestampsById s) (entries_of fs)),
       sm_labelTimestampsById := snd (foldl label_step (sm_labelsById s, sm_labelTimestampsById s) (entries_of fs))\<rparr>"
proof (induction fs arbitrary: s)
  case Nil
  then show ?case by simp
next
  case (Cons f fs)
  show ?case
  proof (cases f)
    case (FHeader h)
    with Cons show ?thesis by simp
  next
    case (FEntry e)
    obtain ls ts where l: "label_step (sm_labelsById s, sm_labelTimestampsById s) e = (ls, ts)"
      by (meson surj_pair)
    with FEntry show ?thesis by (simp add: Cons)
  qed
qed

lemma foldl_entry_index: "wf_log es \<Longrightarrow> foldl (\<lambda>m e. jm_set (eid e) e m) [] es = entry_index es"
  by (induction rule: wf_log.induct) (auto simp: jm_set_fresh entry_index_None)

lemma buildIndex_eq:
  "wf_log (getEntries s) \<Longrightarrow>
     buildIndex s =
       s\<lparr>sm_byId := entry_index (getEntries s),
         sm_leafId := (if getEntries s = [] then None else Some (eid (last (getEntries s)))),
         sm_labelsById := fst (label_maps (getEntries s)),
         sm_labelTimestampsById := snd (label_maps (getEntries s))\<rparr>"
  by (simp add: buildIndex_def foldl_index_step getEntries_def foldl_entry_index label_maps_def)

lemma buildIndex_wf: "wf_log (getEntries s) \<Longrightarrow> wf_session (buildIndex s)"
  by (auto simp: wf_session_def buildIndex_eq getEntries_def)

text \<open>Rebuilding the indexes of a well-formed session only moves the leaf to the newest entry.\<close>

lemma buildIndex_wf_session:
  "wf_session s \<Longrightarrow>
     buildIndex s = s\<lparr>sm_leafId := (if getEntries s = [] then None else Some (eid (last (getEntries s))))\<rparr>"
  by (cases s) (auto simp: wf_session_def buildIndex_eq fst_def snd_def split: prod.splits)

section \<open>Operations as data\<close>

datatype sm_op =
    OpMessage agent_message
  | OpThinkingLevel string
  | OpModel string string
  | OpCompaction string string nat "json option" bool "usage option"
  | OpCustom string "json option"
  | OpCustomMessage string content bool "json option"
  | OpSessionInfo string
  | OpLabel string "string option"
  | OpBranch string
  | OpResetLeaf
  | OpBranchSummary "string option" string "json option" bool "usage option"
  | OpBranchedSession string
  | OpNewSession "string option" "session_path option"

fun void :: "'a sm_result \<Rightarrow> unit sm_result" where
  "void (Inl e, s, w) = (Inl e, s, w)"
| "void (Inr _, s, w) = (Inr (), s, w)"

fun exec_op :: "sm_op \<Rightarrow> session_manager \<Rightarrow> world \<Rightarrow> unit sm_result option" where
  "exec_op (OpMessage m) s w = Some (void (appendMessage m s w))"
| "exec_op (OpThinkingLevel l) s w = Some (void (appendThinkingLevelChange l s w))"
| "exec_op (OpModel p m) s w = Some (void (appendModelChange p m s w))"
| "exec_op (OpCompaction t k n d h u) s w = Some (void (appendCompaction t k n d h u s w))"
| "exec_op (OpCustom t d) s w = Some (void (appendCustomEntry t d s w))"
| "exec_op (OpCustomMessage t c b d) s w = Some (void (appendCustomMessageEntry t c b d s w))"
| "exec_op (OpSessionInfo n) s w = Some (void (appendSessionInfo n s w))"
| "exec_op (OpLabel t l) s w = Some (void (appendLabelChange t l s w))"
| "exec_op (OpBranch i) s w = Some (branch i s w)"
| "exec_op OpResetLeaf s w = Some (Inr (), resetLeaf s, w)"
| "exec_op (OpBranchSummary i t d h u) s w = Some (void (branchWithSummary i t d h u s w))"
| "exec_op (OpBranchedSession i) s w = map_option void (createBranchedSession i s w)"
| "exec_op (OpNewSession i p) s w = Some (newSession i p s w)"

text \<open>The random source of a world: UUIDs longer than the eight characters kept, never repeated.\<close>

definition uuid_source :: "world \<Rightarrow> bool" where
  "uuid_source w \<longleftrightarrow> inj (w_uuid w) \<and> (\<forall>n. 8 < length (w_uuid w n))"

inductive reachable :: "session_manager \<Rightarrow> world \<Rightarrow> bool" where
  created: "uuid_source w0 \<Longrightarrow> create cwd dir i p w0 = (Inr (), s, w) \<Longrightarrow> reachable s w"
| in_memory: "uuid_source w0 \<Longrightarrow> inMemory cwd i p w0 = (Inr (), s, w) \<Longrightarrow> reachable s w"
| step: "reachable s w \<Longrightarrow> exec_op op s w = Some (Inr (), s', w') \<Longrightarrow> reachable s' w'"

section \<open>Identifiers stay fresh\<close>

definition id_origin :: "world \<Rightarrow> string \<Rightarrow> bool" where
  "id_origin w i \<longleftrightarrow> length i = 8 \<or> (\<exists>n < w_uuid_pos w. i = w_uuid w n)"

definition ids_known :: "session_manager \<Rightarrow> world \<Rightarrow> bool" where
  "ids_known s w \<longleftrightarrow> uuid_source w \<and> (\<forall>e \<in> set (getEntries s). id_origin w (eid e))"

lemma next_id_fresh:
  assumes "uuid_source w" and "\<And>i. has i \<Longrightarrow> id_origin w i" and "next_id has w = (i, w')"
  shows "\<not> has i" and "i \<noteq> []" and "id_origin w' i"
    and "w' = w\<lparr>w_uuid_pos := w_uuid_pos w'\<rparr>" and "w_uuid_pos w \<le> w_uuid_pos w'"
proof -
  obtain n where g: "generateId has (w_uuid w) (w_uuid_pos w) = (i, n)" and w': "w' = w\<lparr>w_uuid_pos := n\<rparr>"
    using assms(3) by (auto simp: next_id_def split: prod.splits)
  have cases: "(\<not> has i \<and> w_uuid_pos w < n) \<or> (i = w_uuid w (w_uuid_pos w + 100) \<and> n = Suc (w_uuid_pos w + 100))"
    using generateId_loop_cases [of has "w_uuid w" "w_uuid_pos w" 100 i n] g by (auto simp: generateId_def)
  have long: "8 < length (w_uuid w k)" for k
    using assms(1) by (simp add: uuid_source_def)
  have len: "length (take 8 (w_uuid w k)) = 8" "8 < length (w_uuid w k)" for k
    using long [of k] by simp_all
  have shape: "generateId_loop has rnd m k = (j, l) \<Longrightarrow>
      (\<exists>x. j = take 8 (rnd x)) \<or> (j = rnd (m + k) \<and> l = Suc (m + k))"
    for rnd :: "nat \<Rightarrow> string" and m k j l
    by (induction k arbitrary: m) (fastforce split: if_splits)+
  have "(\<exists>x. i = take 8 (w_uuid w x)) \<or> (i = w_uuid w (w_uuid_pos w + 100) \<and> n = Suc (w_uuid_pos w + 100))"
    using shape [of "w_uuid w" "w_uuid_pos w" 100 i n] g by (auto simp: generateId_def)
  then have i: "length i = 8 \<or> (i = w_uuid w (w_uuid_pos w + 100) \<and> n = Suc (w_uuid_pos w + 100))"
    using len by auto
  then show "i \<noteq> []" using len(2) [of "w_uuid_pos w + 100"] by auto
  show "\<not> has i"
  proof
    assume "has i"
    with cases have eq: "i = w_uuid w (w_uuid_pos w + 100)" by auto
    with \<open>has i\<close> assms(2) len(2) [of "w_uuid_pos w + 100"] obtain m where
      "m < w_uuid_pos w" "w_uuid w (w_uuid_pos w + 100) = w_uuid w m"
      by (fastforce simp: id_origin_def)
    with assms(1) show False by (auto simp: uuid_source_def dest: injD)
  qed
  show "id_origin w' i"
  proof (cases "length i = 8")
    case True
    then show ?thesis by (simp add: id_origin_def)
  next
    case False
    with i w' have "w_uuid_pos w + 100 < w_uuid_pos w'" "i = w_uuid w' (w_uuid_pos w + 100)" by auto
    then show ?thesis unfolding id_origin_def by blast
  qed
  show "w' = w\<lparr>w_uuid_pos := w_uuid_pos w'\<rparr>" and "w_uuid_pos w \<le> w_uuid_pos w'"
    using cases w' by auto
qed

lemma id_origin_mono:
  "id_origin w i \<Longrightarrow> w_uuid w' = w_uuid w \<Longrightarrow> w_uuid_pos w \<le> w_uuid_pos w' \<Longrightarrow> id_origin w' i"
  by (auto simp: id_origin_def intro: less_le_trans)

section \<open>One appended entry\<close>

lemma persist_entry_frame:
  "persist_entry e s w = (r, s', w') \<Longrightarrow>
     s' = s\<lparr>sm_flushed := sm_flushed s'\<rparr> \<and> w' = w\<lparr>w_files := w_files w'\<rparr>"
  by (auto simp: persist_entry_def append_line_def split: option.splits if_splits)

lemma wf_session_flushed [simp]: "wf_session (s\<lparr>sm_flushed := b\<rparr>) = wf_session s"
  by (simp add: wf_session_def getEntries_def)

lemma getEntries_flushed [simp]: "getEntries (s\<lparr>sm_flushed := b\<rparr>) = getEntries s"
  by (simp add: getEntries_def)

lemma getEntries_push [simp]: "getEntries (push_entry e s) = getEntries s @ [e]"
  by (simp add: getEntries_def push_entry_def)

text \<open>What \<open>append_body\<close> does on a well-formed session whose ids are known.\<close>

lemma append_body_entry:
  assumes "wf_session s" and "ids_known s w" and "new_entry b s w = (e, w1)"
  shows "eid e \<notin> eid ` set (getEntries s)" and "eid e \<noteq> []" and "parentId e = sm_leafId s" and "body e = b"
    and "id_origin w1 (eid e)" and "w_uuid w1 = w_uuid w" and "w_uuid_pos w \<le> w_uuid_pos w1"
    and "w_files w1 = w_files w"
proof -
  obtain w0 where n: "next_id (jm_has (sm_byId s)) w = (eid e, w0)"
    and e: "parentId e = sm_leafId s" "body e = b"
    and w1: "w1 = w0\<lparr>w_tick := Suc (w_tick w0)\<rparr>"
    using assms(3) by (auto simp: new_entry_def now_def split: prod.splits)
  have has: "jm_has (sm_byId s) i \<longleftrightarrow> i \<in> eid ` set (getEntries s)" for i
    using assms(1) by (simp add: wf_session_def)
  have src: "uuid_source w" "\<And>i. jm_has (sm_byId s) i \<Longrightarrow> id_origin w i"
    using assms(2) has by (auto simp: ids_known_def)
  note fresh = next_id_fresh [OF src n]
  show "eid e \<notin> eid ` set (getEntries s)" using fresh(1) has by blast
  show "eid e \<noteq> []" by (rule fresh(2))
  show "parentId e = sm_leafId s" and "body e = b" by (fact e)+
  have "w0 = w\<lparr>w_uuid_pos := w_uuid_pos w0\<rparr>" by (rule fresh(4))
  then have w0: "w_uuid w0 = w_uuid w" "w_files w0 = w_files w"
    by (metis world.ext_inject world.surjective world.update_convs(2), metis world.ext_inject world.surjective world.update_convs(2))
  show "id_origin w1 (eid e)" using fresh(3) w1 by (simp add: id_origin_def)
  show "w_uuid w1 = w_uuid w" and "w_files w1 = w_files w" using w0 w1 by auto
  show "w_uuid_pos w \<le> w_uuid_pos w1" using fresh(5) w1 by simp
qed

lemma label_maps_snoc: "label_maps (es @ [e]) = label_step (label_maps es) e"
  by (simp add: label_maps_def)

lemma label_step_other: "\<not> is_label (body e) \<Longrightarrow> label_step m e = m"
  by (cases m; cases "body e") auto

lemma wf_session_push:
  assumes "wf_session s" and "eid e \<notin> eid ` set (getEntries s)" and "eid e \<noteq> []"
    and "parentId e = sm_leafId s"
  shows "wf_log (getEntries s @ [e])"
    and "sm_byId (push_entry e s) = entry_index (getEntries s @ [e])"
    and "\<not> is_label (body e) \<Longrightarrow> wf_session (push_entry e s)"
proof -
  show log: "wf_log (getEntries s @ [e])" using assms by (auto simp: wf_session_def wf_log_snoc_iff)
  show idx: "sm_byId (push_entry e s) = entry_index (getEntries s @ [e])"
    using assms(1,2) by (simp add: wf_session_def push_entry_def entry_index_set_fresh)
  assume "\<not> is_label (body e)"
  then have "label_maps (getEntries s @ [e]) = label_maps (getEntries s)"
    by (simp add: label_maps_snoc label_step_other)
  with log idx assms(1) show "wf_session (push_entry e s)"
    by (auto simp: wf_session_def) (auto simp: push_entry_def)
qed

lemma append_body_result:
  assumes "append_body b s w = (r, s', w')" and "new_entry b s w = (e, w1)"
  shows "s' = (push_entry e s)\<lparr>sm_flushed := sm_flushed s'\<rparr>" and "w' = w1\<lparr>w_files := w_files w'\<rparr>"
    and "r = Inr i \<Longrightarrow> i = eid e"
  using assms persist_entry_frame [of e "push_entry e s" w1]
  by (auto simp: append_body_def appendEntry_def split: prod.splits sum.splits)

lemma append_body_wf:
  assumes "wf_session s" and "ids_known s w" and "append_body b s w = (r, s', w')" and "\<not> is_label b"
  shows "wf_session s' \<and> ids_known s' w' \<and> (\<exists>e. getEntries s' = getEntries s @ [e] \<and> body e = b \<and>
           parentId e = sm_leafId s \<and> sm_leafId s' = Some (eid e) \<and> eid e \<noteq> [] \<and> eid e \<notin> eid ` set (getEntries s))"
proof -
  obtain e w1 where n: "new_entry b s w = (e, w1)" by (meson surj_pair)
  note res = append_body_result [OF assms(3) n] and ent = append_body_entry [OF assms(1,2) n]
  have "wf_session (push_entry e s)"
    using wf_session_push [OF assms(1) ent(1,2,3)] ent(4) assms(4) by simp
  then have "wf_session s'" by (subst res(1)) simp
  have es: "getEntries s' = getEntries s @ [e]" by (subst res(1)) simp
  have leaf: "sm_leafId s' = Some (eid e)" by (subst res(1)) (simp add: push_entry_def)
  have "w_uuid w' = w_uuid w1" "w_uuid_pos w' = w_uuid_pos w1"
    by (subst res(2), simp)+
  with ent assms(2) es have "ids_known s' w'"
    by (auto simp: ids_known_def uuid_source_def intro: id_origin_mono)
  with \<open>wf_session s'\<close> es leaf ent show ?thesis by blast
qed


section \<open>Walking a well-formed session\<close>

lemma getBranch_root:
  assumes "wf_session s" and "i \<in> eid ` set (getEntries s)"
  shows "\<exists>p e. getBranch s (Some i) = Some p \<and> e \<in> set (getEntries s) \<and> eid e = i \<and>
               root_path (parent_of (entry_index (getEntries s))) p e"
proof -
  from assms(2) obtain e where e: "e \<in> set (getEntries s)" "eid e = i" by auto
  from assms(1) have wf: "wf_log (getEntries s)" and idx: "sm_byId s = entry_index (getEntries s)"
    by (auto simp: wf_session_def)
  have get: "jm_get (entry_index (getEntries s)) i = Some e" "i \<noteq> []"
    using entry_index_get [OF wf e(1)] wf_log_nonempty [OF wf e(1)] e(2) by auto
  obtain p where p: "root_path (parent_of (entry_index (getEntries s))) p e"
    using log.path_exists [of e "getEntries s"] wf e(1) by auto
  with get idx have "getBranch s (Some i) = Some p"
    by (simp add: getBranch_def walk_iff)
  with p e show ?thesis by blast
qed

lemma getBranch_cases:
  assumes "wf_session s" and "getBranch s (Some i) = Some p"
  shows "(p = [] \<and> i \<notin> eid ` set (getEntries s)) \<or>
         (\<exists>e. e \<in> set (getEntries s) \<and> eid e = i \<and> root_path (parent_of (entry_index (getEntries s))) p e)"
proof (cases "i \<in> eid ` set (getEntries s)")
  case True
  with getBranch_root [OF assms(1)] assms(2) show ?thesis by force
next
  case False
  then have "jm_get (sm_byId s) i = None"
    using assms(1) by (simp add: wf_session_def entry_index_None)
  with assms(2) False show ?thesis by (auto simp: getBranch_def split: if_splits)
qed

lemma getBranch_leaf: "getBranch s None = (case sm_leafId s of None \<Rightarrow> Some [] | Some l \<Rightarrow> getBranch s (Some l))"
  by (simp add: getBranch_def split: option.split)

section \<open>Extracted branches are well formed\<close>

lemma chained_wf:
  "chained None es \<Longrightarrow> distinct (map eid es) \<Longrightarrow> [] \<notin> eid ` set es \<Longrightarrow> wf_log es"
proof (induction es rule: rev_induct)
  case Nil
  show ?case by (rule wf_log.empty)
next
  case (snoc e es)
  then show ?case
    by (auto simp: wf_log_snoc_iff chained_append split: if_splits intro!: imageI [OF last_in_set])
qed

lemma drop_labels_chained: "chained par (drop_labels par es)"
  by (induction par es rule: drop_labels.induct) auto

lemma drop_labels_ids: "map eid (drop_labels par es) = map eid (filter (\<lambda>e. \<not> is_label (body e)) es)"
  by (induction par es rule: drop_labels.induct) auto

lemma drop_labels_bodies: "map body (drop_labels par es) = map body (filter (\<lambda>e. \<not> is_label (body e)) es)"
  by (induction par es rule: drop_labels.induct) auto

lemma label_entries_props:
  assumes "uuid_source w" and "\<forall>i \<in> set ids. id_origin w i" and "label_entries ls ids par w = (es, w')"
  shows "chained par es \<and> distinct (map eid es) \<and> set (map eid es) \<inter> set ids = {} \<and> [] \<notin> eid ` set es \<and>
         (\<forall>e \<in> set es. id_origin w' (eid e)) \<and> w_uuid w' = w_uuid w \<and> w_uuid_pos w \<le> w_uuid_pos w' \<and>
         map body es = map (\<lambda>(k, l, t). ELabel k (Some l)) ls \<and> map timestamp es = map (\<lambda>(k, l, t). t) ls"
  using assms
proof (induction ls ids par w arbitrary: es w' rule: label_entries.induct)
  case (1 ids par w)
  then show ?case by simp
next
  case (2 k l t rest ids par w)
  obtain i w1 where n: "next_id (\<lambda>k. k \<in> set ids) w = (i, w1)" by (meson surj_pair)
  obtain es2 w2 where l: "label_entries rest (ids @ [i]) (Some i) w1 = (es2, w2)" by (meson surj_pair)
  have fresh: "i \<notin> set ids" "i \<noteq> []" "id_origin w1 i" "w_uuid_pos w \<le> w_uuid_pos w1"
    and w1: "w1 = w\<lparr>w_uuid_pos := w_uuid_pos w1\<rparr>"
    using next_id_fresh [OF "2.prems"(1) _ n] "2.prems"(2) by auto
  have same: "w_uuid w1 = w_uuid w" by (subst w1) simp
  have "uuid_source w1" using "2.prems"(1) same by (simp add: uuid_source_def)
  moreover have "\<forall>j \<in> set (ids @ [i]). id_origin w1 j"
    using "2.prems"(2) fresh same by (auto intro: id_origin_mono)
  ultimately have IH: "chained (Some i) es2 \<and> distinct (map eid es2) \<and> set (map eid es2) \<inter> set (ids @ [i]) = {} \<and>
      [] \<notin> eid ` set es2 \<and> (\<forall>e \<in> set es2. id_origin w2 (eid e)) \<and> w_uuid w2 = w_uuid w1 \<and>
      w_uuid_pos w1 \<le> w_uuid_pos w2 \<and> map body es2 = map (\<lambda>(k, l, t). ELabel k (Some l)) rest \<and>
      map timestamp es2 = map (\<lambda>(k, l, t). t) rest"
    using "2.IH" [OF n [symmetric] refl refl _ _ l] by blast
  then have "id_origin w2 i" using fresh(3) by (auto intro: id_origin_mono)
  with IH fresh same n l "2.prems"(3) show ?case by (auto simp: disjoint_iff)
qed

lemma branched_entries_wf:
  assumes "wf_session s" and "uuid_source w" and "\<forall>e \<in> set (getEntries s). id_origin w (eid e)"
    and "getBranch s (Some i) = Some path" and "branched_entries s path w = (es, w')"
  shows "wf_log es \<and> (\<forall>e \<in> set es. id_origin w' (eid e)) \<and> w_uuid w' = w_uuid w"
proof -
  define kept where "kept = drop_labels None path"
  obtain labels where l: "label_entries (labels_to_write s (map eid kept)) (map eid kept)
      (truthy_str (if kept = [] then None else Some (eid (last kept)))) w = (labels, w')"
    and es: "es = kept @ labels"
    using assms(5) unfolding branched_entries_def kept_def [symmetric] Let_def by (auto split: prod.splits)
  have wf: "wf_log (getEntries s)" using assms(1) by (simp add: wf_session_def)
  have path: "set path \<subseteq> set (getEntries s) \<and> distinct path"
    using getBranch_cases [OF assms(1,4)] log.path_in_carrier log.path_distinct wf by fastforce
  have ids: "map eid kept = map eid (filter (\<lambda>e. \<not> is_label (body e)) path)"
    by (simp add: kept_def drop_labels_ids)
  then have sub: "set (map eid kept) \<subseteq> eid ` set (getEntries s)" using path by auto
  have "inj_on eid (set path)" using path wf by (auto intro!: inj_onI dest: wf_log_inj)
  then have "distinct (map eid kept)"
    unfolding ids using path by (auto simp: distinct_map intro: inj_on_subset)
  have nonempty: "[] \<notin> set (map eid kept)" using sub wf_log_nonempty [OF wf] by force
  have origin: "\<forall>j \<in> set (map eid kept). id_origin w j" using sub assms(3) by auto
  note props = label_entries_props [OF assms(2) origin l]
  have last: "truthy_str (if kept = [] then None else Some (eid (last kept))) =
      (if kept = [] then None else Some (eid (last kept)))"
    using nonempty by (cases kept rule: rev_cases) auto
  have "chained None es"
    using props drop_labels_chained [of None path] unfolding last es
    by (auto simp: chained_append kept_def)
  moreover have "distinct (map eid es)" "[] \<notin> eid ` set es"
    using props \<open>distinct (map eid kept)\<close> nonempty by (auto simp: es)
  ultimately have "wf_log es" by (rule chained_wf)
  moreover have "\<forall>e \<in> set es. id_origin w' (eid e)"
    using props origin by (auto simp: es intro: id_origin_mono)
  ultimately show ?thesis using props by blast
qed


section \<open>The log and its file\<close>

text \<open>
  A persisting session is either flushed, and then its file holds exactly the lines of the
  log, or not yet flushed, and then the log has no assistant message.
\<close>

definition file_synced :: "session_manager \<Rightarrow> world \<Rightarrow> bool" where
  "file_synced s w \<longleftrightarrow>
     (\<forall>p. sm_persist s \<longrightarrow> sm_sessionFile s = Some p \<longrightarrow>
        (if sm_flushed s then w_files w p = Some (map uncook (sm_fileEntries s))
         else \<not> hasAssistant (sm_fileEntries s)))"

definition headed :: "session_manager \<Rightarrow> bool" where
  "headed s \<longleftrightarrow>
     (\<exists>h es. sm_fileEntries s = FHeader h # map FEntry es \<and> sh_version h = Some CURRENT_SESSION_VERSION \<and>
             sh_id h = sm_sessionId s)"

definition sm_inv :: "session_manager \<Rightarrow> world \<Rightarrow> bool" where
  "sm_inv s w \<longleftrightarrow> wf_session s \<and> ids_known s w \<and> file_synced s w \<and> headed s"

lemma hasAssistant_append [simp]: "hasAssistant (fs @ gs) \<longleftrightarrow> hasAssistant fs \<or> hasAssistant gs"
  by (auto simp: hasAssistant_def)

lemma persist_entry_synced:
  assumes "file_synced s w" and "persist_entry e (push_entry e s) w1 = (Inr (), s', w')" and "w_files w1 = w_files w"
  shows "file_synced s' w'"
proof (cases "sm_sessionFile s")
  case None
  with assms(2) show ?thesis by (auto simp: persist_entry_def push_entry_def file_synced_def)
next
  case (Some p)
  with assms show ?thesis
    by (auto simp: persist_entry_def push_entry_def file_synced_def append_line_def split: if_splits)
qed

lemma append_body_synced:
  assumes "file_synced s w" and "append_body b s w = (Inr i, s', w')"
  shows "file_synced s' w'"
proof -
  obtain e w1 where n: "new_entry b s w = (e, w1)" by (meson surj_pair)
  then have "w_files w1 = w_files w" by (auto simp: new_entry_def next_id_def now_def split: prod.splits)
  moreover have "persist_entry e (push_entry e s) w1 = (Inr (), s', w')"
    using assms(2) n by (auto simp: append_body_def appendEntry_def split: prod.splits sum.splits)
  ultimately show ?thesis using persist_entry_synced [OF assms(1)] by blast
qed

lemma headed_flushed [simp]: "headed (s\<lparr>sm_flushed := b\<rparr>) = headed s"
  by (simp add: headed_def)

lemma headed_push: "headed s \<Longrightarrow> headed (push_entry e s)"
proof -
  assume "headed s"
  then obtain h es where "sm_fileEntries s = FHeader h # map FEntry es"
    "sh_version h = Some CURRENT_SESSION_VERSION" "sh_id h = sm_sessionId s"
    by (auto simp: headed_def)
  then show ?thesis
    by (auto simp: headed_def push_entry_def intro!: exI [of _ h] exI [of _ "es @ [e]"])
qed

lemma append_body_inv:
  assumes "sm_inv s w" and "append_body b s w = (Inr i, s', w')" and "\<not> is_label b"
  shows "sm_inv s' w'"
proof -
  obtain e w1 where n: "new_entry b s w = (e, w1)" by (meson surj_pair)
  have "headed s'"
    using headed_push [of s e] assms(1) by (subst append_body_result(1) [OF assms(2) n]) (simp add: sm_inv_def)
  then show ?thesis
    using assms append_body_wf [of s w b "Inr i" s' w'] append_body_synced [of s w b i s' w']
    by (auto simp: sm_inv_def)
qed

lemma appendLabelChange_inv:
  assumes "sm_inv s w" and "appendLabelChange k l s w = (Inr i, s', w')"
  shows "sm_inv s' w'"
proof -
  obtain e w1 where n: "new_entry (ELabel k l) s w = (e, w1)" by (meson surj_pair)
  obtain s2 where p: "persist_entry e (push_entry e s) w1 = (Inr (), s2, w')"
    and s': "s' = s2\<lparr>sm_labelsById := fst (label_step (sm_labelsById s2, sm_labelTimestampsById s2) e),
                    sm_labelTimestampsById := snd (label_step (sm_labelsById s2, sm_labelTimestampsById s2) e)\<rparr>"
    using assms(2) n by (auto simp: appendLabelChange_def appendEntry_def split: prod.splits sum.splits if_splits)
  note frame = persist_entry_frame [OF p]
  have inv: "wf_session s" "ids_known s w" "file_synced s w" "headed s" using assms(1) by (auto simp: sm_inv_def)
  note ent = append_body_entry [OF inv(1,2) n]
  note push = wf_session_push [OF inv(1) ent(1,2,3)]
  have s2: "sm_byId s2 = sm_byId (push_entry e s)" "sm_leafId s2 = Some (eid e)"
    "sm_labelsById s2 = sm_labelsById s" "sm_labelTimestampsById s2 = sm_labelTimestampsById s"
    "getEntries s2 = getEntries s @ [e]"
    by (subst frame [THEN conjunct1], simp add: push_entry_def getEntries_def)+
  have es: "getEntries s' = getEntries s @ [e]" using s2 by (simp add: s' getEntries_def)
  have maps: "(sm_labelsById s, sm_labelTimestampsById s) = label_maps (getEntries s)"
    using inv(1) by (simp add: wf_session_def)
  have "wf_session s'"
    unfolding wf_session_def es using push(1,2) s2 maps
    by (simp add: s' label_maps_snoc del: label_step.simps)
  moreover have "ids_known s' w'"
  proof -
    have "w_uuid w' = w_uuid w1" "w_uuid_pos w' = w_uuid_pos w1"
      by (subst frame [THEN conjunct2], simp)+
    with ent inv(2) es show ?thesis by (auto simp: ids_known_def uuid_source_def intro: id_origin_mono)
  qed
  moreover have "file_synced s' w'"
    using persist_entry_synced [OF inv(3) p] ent(8) by (simp add: file_synced_def s')
  moreover have "headed s'"
  proof -
    have "headed s2" using headed_push [OF inv(4), of e] by (subst frame [THEN conjunct1]) (simp add: headed_def)
    then show ?thesis by (simp add: headed_def s')
  qed
  ultimately show ?thesis by (simp add: sm_inv_def)
qed

lemma sm_inv_leaf:
  "sm_inv s w \<Longrightarrow> (\<forall>l. i = Some l \<longrightarrow> l \<in> eid ` set (getEntries s)) \<Longrightarrow> sm_inv (s\<lparr>sm_leafId := i\<rparr>) w"
  by (auto simp: sm_inv_def wf_session_def ids_known_def file_synced_def headed_def getEntries_def)

lemma begin_session_inv:
  assumes "uuid_source w" and "begin_session i p s w = (s', w')"
  shows "sm_inv s' w'"
  using assms
  by (auto simp: begin_session_def now_def sm_inv_def wf_session_def ids_known_def file_synced_def headed_def
      getEntries_def uuid_source_def hasAssistant_def label_maps_def intro: wf_log.empty)

lemma newSession_inv:
  assumes "uuid_source w" and "newSession i p s w = (Inr (), s', w')"
  shows "sm_inv s' w'"
proof -
  have "uuid_source (snd (createSessionId w))" using assms(1) by (simp add: createSessionId_def uuid_source_def)
  with assms show ?thesis
    by (auto simp: newSession_def split: option.splits if_splits prod.splits intro: begin_session_inv)
qed

lemma createBranchedSession_result:
  assumes "createBranchedSession i s w = Some (Inr r, s', w')"
  obtains path newId t h es w2 w3 s1 where
    "getBranch s (Some i) = Some path" "path \<noteq> []"
    "w2 = w\<lparr>w_session_pos := w_session_pos w2, w_tick := w_tick w2\<rparr>"
    "branched_entries s path w2 = (es, w3)"
    "s1 = s\<lparr>sm_fileEntries := FHeader h # map FEntry es, sm_sessionId := newId\<rparr>"
    "sh_version h = Some CURRENT_SESSION_VERSION" "sh_id h = newId"
    "if sm_persist s then
       s' = (buildIndex (s1\<lparr>sm_sessionFile := Some (SessionFileOf (sm_sessionDir s) t newId)\<rparr>))
              \<lparr>sm_flushed := hasAssistant (map FEntry es)\<rparr> \<and>
       w' = (if hasAssistant (map FEntry es)
             then w3\<lparr>w_files := (w_files w3)(SessionFileOf (sm_sessionDir s) t newId \<mapsto> map uncook (FHeader h # map FEntry es))\<rparr>
             else w3)
     else s' = buildIndex s1 \<and> w' = w3"
proof -
  obtain path where g: "getBranch s (Some i) = Some path" and ne: "path \<noteq> []"
    using assms by (auto simp: createBranchedSession_def split: option.splits list.splits)
  obtain newId w1 where c: "createSessionId w = (newId, w1)" by (meson surj_pair)
  obtain t w2 where t: "now w1 = (t, w2)" by (meson surj_pair)
  obtain es w3 where b: "branched_entries s path w2 = (es, w3)" by (meson surj_pair)
  define h where "h = \<lparr>sh_version = Some CURRENT_SESSION_VERSION, sh_id = newId, sh_timestamp = t,
    sh_cwd = sm_cwd s, sh_parentSession = (if sm_persist s then sm_sessionFile s else None)\<rparr>"
  define s1 where "s1 = s\<lparr>sm_fileEntries := FHeader h # map FEntry es, sm_sessionId := newId\<rparr>"
  obtain a as where path: "path = a # as" using ne by (cases path) auto
  have fe: "sm_fileEntries (buildIndex x) = sm_fileEntries x" "sm_persist (buildIndex x) = sm_persist x"
    "sm_sessionFile (buildIndex x) = sm_sessionFile x" for x
    by (simp_all add: buildIndex_def foldl_index_step)
  have ha: "hasAssistant (FHeader k # fs) = hasAssistant fs" for k fs
    by (simp add: hasAssistant_def)
  have res: "if sm_persist s then
       s' = (buildIndex (s1\<lparr>sm_sessionFile := Some (SessionFileOf (sm_sessionDir s) t newId)\<rparr>))
              \<lparr>sm_flushed := hasAssistant (map FEntry es)\<rparr> \<and>
       w' = (if hasAssistant (map FEntry es)
             then w3\<lparr>w_files := (w_files w3)(SessionFileOf (sm_sessionDir s) t newId \<mapsto> map uncook (FHeader h # map FEntry es))\<rparr>
             else w3)
     else s' = buildIndex s1 \<and> w' = w3"
    using assms
    by (simp add: createBranchedSession_def g path c t b [unfolded path] Let_def fe ha rewriteFile_def
        split: if_splits) (auto simp: s1_def h_def)
  have "w2 = w\<lparr>w_session_pos := w_session_pos w2, w_tick := w_tick w2\<rparr>"
    using c t by (auto simp: createSessionId_def now_def)
  from that [OF g ne this b s1_def _ _ res] show ?thesis by (simp add: h_def)
qed

lemma createBranchedSession_inv:
  assumes "sm_inv s w" and "createBranchedSession i s w = Some (Inr r, s', w')"
  shows "sm_inv s' w'"
  using assms(2)
proof (rule createBranchedSession_result)
  fix path newId t h es w2 w3 s1
  assume g: "getBranch s (Some i) = Some path"
    and w2: "w2 = w\<lparr>w_session_pos := w_session_pos w2, w_tick := w_tick w2\<rparr>"
    and b: "branched_entries s path w2 = (es, w3)"
    and s1: "s1 = s\<lparr>sm_fileEntries := FHeader h # map FEntry es, sm_sessionId := newId\<rparr>"
    and h: "sh_version h = Some CURRENT_SESSION_VERSION" "sh_id h = newId"
    and res: "if sm_persist s then
       s' = (buildIndex (s1\<lparr>sm_sessionFile := Some (SessionFileOf (sm_sessionDir s) t newId)\<rparr>))
              \<lparr>sm_flushed := hasAssistant (map FEntry es)\<rparr> \<and>
       w' = (if hasAssistant (map FEntry es)
             then w3\<lparr>w_files := (w_files w3)(SessionFileOf (sm_sessionDir s) t newId \<mapsto> map uncook (FHeader h # map FEntry es))\<rparr>
             else w3)
     else s' = buildIndex s1 \<and> w' = w3"
  have u: "w_uuid w2 = w_uuid w" "w_uuid_pos w2 = w_uuid_pos w" by (subst w2, simp)+
  have inv: "wf_session s" "ids_known s w" using assms(1) by (auto simp: sm_inv_def)
  have src: "uuid_source w2" "\<forall>e \<in> set (getEntries s). id_origin w2 (eid e)"
    using inv(2) u by (auto simp: ids_known_def uuid_source_def id_origin_def)
  have wf: "wf_log es" "\<forall>e \<in> set es. id_origin w3 (eid e)" "w_uuid w3 = w_uuid w2"
    using branched_entries_wf [OF inv(1) src g b] by auto
  define f where "f = (if sm_persist s then Some (SessionFileOf (sm_sessionDir s) t newId) else sm_sessionFile s)"
  define fl where "fl = (if sm_persist s then hasAssistant (map FEntry es) else sm_flushed s)"
  have ge: "getEntries (s1\<lparr>sm_sessionFile := f\<rparr>) = es" by (simp add: s1 getEntries_def)
  have sf: "s1\<lparr>sm_sessionFile := sm_sessionFile s\<rparr> = s1" by (simp add: s1)
  have s': "s' = (buildIndex (s1\<lparr>sm_sessionFile := f\<rparr>))\<lparr>sm_flushed := fl\<rparr>"
    using res sf by (auto simp: f_def fl_def buildIndex_def foldl_index_step s1 split: if_splits)
  have "wf_session s'" using buildIndex_wf [of "s1\<lparr>sm_sessionFile := f\<rparr>"] ge wf(1) by (simp add: s')
  moreover have fe: "sm_fileEntries s' = FHeader h # map FEntry es" "sm_sessionId s' = newId"
    "sm_persist s' = sm_persist s" "sm_sessionFile s' = f" "sm_flushed s' = fl"
    by (simp_all add: s' buildIndex_def foldl_index_step s1)
  moreover have "ids_known s' w'"
  proof -
    have "w_uuid w' = w_uuid w3 \<and> w_uuid_pos w' = w_uuid_pos w3" using res by (auto split: if_splits)
    moreover have "getEntries s' = es" using fe by (simp add: getEntries_def)
    ultimately show ?thesis using wf src by (auto simp: ids_known_def uuid_source_def id_origin_def)
  qed
  moreover have "file_synced s' w'"
    using res fe by (auto simp: file_synced_def f_def fl_def hasAssistant_def split: if_splits)
  ultimately show ?thesis using h by (auto simp: sm_inv_def headed_def)
qed


section \<open>Every operation keeps the invariant\<close>

lemmas append_defs = appendMessage_def appendThinkingLevelChange_def appendModelChange_def
  appendCompaction_def appendCustomEntry_def appendCustomMessageEntry_def appendSessionInfo_def

lemma void_InrD: "void R = (Inr (), s, w) \<Longrightarrow> \<exists>v. R = (Inr v, s, w)"
  by (cases R rule: void.cases) auto

lemma branch_inv: "sm_inv s w \<Longrightarrow> branch i s w = (Inr (), s', w') \<Longrightarrow> sm_inv s' w'"
  by (auto simp: branch_def sm_inv_def [of s] wf_session_def [of s] split: if_splits intro!: sm_inv_leaf)

lemma branchWithSummary_inv:
  assumes "sm_inv s w" and "branchWithSummary i t d h u s w = (Inr v, s', w')"
  shows "sm_inv s' w'"
proof -
  have idx: "jm_has (sm_byId s) k \<longleftrightarrow> k \<in> eid ` set (getEntries s)" for k
    using assms(1) by (simp add: sm_inv_def wf_session_def)
  have "sm_inv (s\<lparr>sm_leafId := i\<rparr>) w"
  proof (rule sm_inv_leaf [OF assms(1)], intro allI impI)
    fix l
    assume "i = Some l"
    with assms(2) idx [of l] show "l \<in> eid ` set (getEntries s)"
      by (simp add: branchWithSummary_def split: if_splits)
  qed
  moreover obtain b where "append_body (EBranchSummary b) (s\<lparr>sm_leafId := i\<rparr>) w = (Inr v, s', w')"
    using assms(2) by (auto simp: branchWithSummary_def split: option.splits if_splits)
  ultimately show ?thesis using append_body_inv by (metis is_label.simps(6))
qed

lemma exec_op_inv:
  assumes "sm_inv s w" and "exec_op op s w = Some (Inr (), s', w')"
  shows "sm_inv s' w'"
proof (cases op)
  case (OpLabel k l)
  with assms show ?thesis by (auto dest!: void_InrD intro: appendLabelChange_inv)
next
  case (OpBranch i)
  with assms show ?thesis by (auto intro: branch_inv)
next
  case OpResetLeaf
  with assms show ?thesis by (auto simp: resetLeaf_def intro: sm_inv_leaf)
next
  case (OpBranchSummary i t d h u)
  with assms show ?thesis by (auto dest!: void_InrD intro: branchWithSummary_inv)
next
  case (OpBranchedSession i)
  with assms show ?thesis by (auto dest!: void_InrD intro: createBranchedSession_inv)
next
  case (OpNewSession i p)
  with assms show ?thesis by (auto simp: sm_inv_def [of s] ids_known_def intro: newSession_inv)
qed (use assms in \<open>auto simp: append_defs dest!: void_InrD intro: append_body_inv\<close>)

lemma reachable_inv: "reachable s w \<Longrightarrow> sm_inv s w"
  by (induction rule: reachable.induct) (auto simp: create_def inMemory_def intro: newSession_inv exec_op_inv)

lemma reachable_wf: "reachable s w \<Longrightarrow> wf_session s"
  by (auto dest: reachable_inv simp: sm_inv_def)

section \<open>The branch as the abstract state\<close>

text \<open>
  What a session promises its clients is a conversation: the path from the root to the leaf.
  Appending is \<open>snoc\<close> on it, moving the leaf selects the path of another entry, and entries
  already in the log are never changed.
\<close>

definition conversation :: "session_manager \<Rightarrow> entry list option" where
  "conversation s = getBranch s None"

lemma conversation_exists:
  assumes "wf_session s"
  shows "\<exists>p. conversation s = Some p"
proof (cases "sm_leafId s")
  case None
  then show ?thesis by (simp add: conversation_def getBranch_leaf)
next
  case (Some l)
  then have "l \<in> eid ` set (getEntries s)" using assms by (simp add: wf_session_def)
  with getBranch_root [OF assms this] Some show ?thesis by (auto simp: conversation_def getBranch_leaf)
qed

lemma getBranch_grown:
  assumes "wf_session s" and "wf_log (getEntries s @ [e])" and "i \<in> eid ` set (getEntries s)"
    and "sm_byId s' = entry_index (getEntries s @ [e])"
  shows "getBranch s' (Some i) = getBranch s (Some i)"
proof -
  obtain p x where p: "getBranch s (Some i) = Some p" "x \<in> set (getEntries s)" "eid x = i"
    "root_path (parent_of (entry_index (getEntries s))) p x"
    using getBranch_root [OF assms(1,3)] by blast
  have "root_path (parent_of (entry_index (getEntries s @ [e]))) p x"
    by (rule root_path_snoc [OF assms(2) p(4,2)])
  moreover have "jm_get (entry_index (getEntries s @ [e])) i = Some x"
    using entry_index_get [OF assms(2), of x] p by simp
  moreover have "i \<noteq> []" using assms(1) p(2,3) by (auto simp: wf_session_def dest: wf_log_nonempty)
  ultimately show ?thesis using p(1) assms(4) by (simp add: getBranch_def walk_iff)
qed

lemma conversation_append:
  assumes "wf_session s" and "wf_log (getEntries s @ [e])" and "parentId e = sm_leafId s"
    and "sm_byId s' = entry_index (getEntries s @ [e])" and "sm_leafId s' = Some (eid e)"
    and "conversation s = Some p"
  shows "conversation s' = Some (p @ [e])"
proof -
  let ?par = "parent_of (entry_index (getEntries s @ [e]))"
  have e: "eid e \<noteq> []" "jm_get (entry_index (getEntries s @ [e])) (eid e) = Some e"
    using assms(2) entry_index_get [OF assms(2), of e] by (auto simp: wf_log_snoc_iff)
  have "root_path ?par (p @ [e]) e"
  proof (cases "sm_leafId s")
    case None
    with assms(3,6) show ?thesis
      by (auto simp: conversation_def getBranch_leaf parent_of_def intro: root_path.root)
  next
    case (Some l)
    then have l: "l \<in> eid ` set (getEntries s)" using assms(1) by (simp add: wf_session_def)
    obtain x where x: "x \<in> set (getEntries s)" "eid x = l"
      "root_path (parent_of (entry_index (getEntries s))) p x"
      using getBranch_root [OF assms(1) l] assms(6) Some by (auto simp: conversation_def getBranch_leaf)
    have "l \<noteq> []" using assms(1) x by (auto simp: wf_session_def dest: wf_log_nonempty)
    moreover have "jm_get (entry_index (getEntries s @ [e])) l = Some x"
      using entry_index_get [OF assms(2), of x] x by simp
    ultimately have "?par e = Some x" using assms(3) Some by (simp add: parent_of_def)
    with root_path_snoc [OF assms(2) x(3,1)] show ?thesis by (rule root_path.step)
  qed
  with e assms(4,5) show ?thesis by (simp add: conversation_def getBranch_def walk_iff)
qed

lemma append_body_conversation:
  assumes "wf_session s" and "ids_known s w" and "append_body b s w = (r, s', w')" and "\<not> is_label b"
    and "conversation s = Some p"
  shows "\<exists>e. body e = b \<and> conversation s' = Some (p @ [e]) \<and> getEntries s' = getEntries s @ [e]"
proof -
  from append_body_wf [OF assms(1-4)] obtain e where
    e: "wf_session s'" "getEntries s' = getEntries s @ [e]" "body e = b" "parentId e = sm_leafId s"
      "sm_leafId s' = Some (eid e)" by blast
  then have "conversation s' = Some (p @ [e])"
    using conversation_append [OF assms(1) _ e(4) _ e(5) assms(5)] by (simp add: wf_session_def)
  with e show ?thesis by blast
qed

section \<open>The context of a model call\<close>

lemma buildSessionPath_conversation:
  assumes "wf_session s"
  shows "buildSessionPath (getEntries s) (leaf_of s) (Some (sm_byId s)) = conversation s"
proof (cases "sm_leafId s")
  case None
  then show ?thesis by (simp add: buildSessionPath_def leaf_of_def conversation_def getBranch_leaf)
next
  case (Some l)
  then have "l \<in> eid ` set (getEntries s)" using assms by (simp add: wf_session_def)
  then obtain x where x: "x \<in> set (getEntries s)" "eid x = l" by auto
  have "l \<noteq> []" "jm_get (sm_byId s) l = Some x"
    using assms x entry_index_get [of "getEntries s" x] by (auto simp: wf_session_def dest: wf_log_nonempty)
  with Some show ?thesis
    by (simp add: buildSessionPath_def leaf_of_def conversation_def getBranch_leaf getBranch_def buildEntryIndex_def)
qed

lemma sm_buildSessionContext_eq:
  assumes "wf_session s" and "conversation s = Some p"
  shows "sm_buildSessionContext s =
     Some \<lparr>sc_messages = concat (map sessionEntryToContextMessages (context_of_path p)),
           sc_thinkingLevel = fst (getSessionContextSettings p), sc_model = snd (getSessionContextSettings p)\<rparr>"
  using assms
  by (simp add: sm_buildSessionContext_def buildSessionContext_def buildContextEntries_def
      buildSessionPath_conversation split: prod.split)

lemma conversation_props:
  assumes "wf_session s" and "conversation s = Some p"
  shows "set p \<subseteq> set (getEntries s)" and "distinct (map eid p)"
    and "(sm_leafId s = None \<and> p = []) \<or> (p \<noteq> [] \<and> Some (eid (last p)) = sm_leafId s \<and>
         root_path (parent_of (entry_index (getEntries s))) p (last p))"
proof -
  have wf: "wf_log (getEntries s)" using assms(1) by (simp add: wf_session_def)
  have 1: "(sm_leafId s = None \<and> p = []) \<or> (p \<noteq> [] \<and> Some (eid (last p)) = sm_leafId s \<and>
         root_path (parent_of (entry_index (getEntries s))) p (last p) \<and> last p \<in> set (getEntries s))"
  proof (cases "sm_leafId s")
    case None
    with assms(2) show ?thesis by (simp add: conversation_def getBranch_leaf)
  next
    case (Some l)
    then have "l \<in> eid ` set (getEntries s)" using assms(1) by (simp add: wf_session_def)
    with getBranch_root [OF assms(1) this] Some assms(2) obtain e where
      "e \<in> set (getEntries s)" "eid e = l" "root_path (parent_of (entry_index (getEntries s))) p e"
      by (auto simp: conversation_def getBranch_leaf)
    with Some show ?thesis by (auto simp: root_path_last dest: root_path_not_Nil)
  qed
  then show sub: "set p \<subseteq> set (getEntries s)"
    using log.path_in_carrier [of "getEntries s" p "last p"] wf by auto
  have "distinct p" using 1 log.path_distinct [of "getEntries s" p "last p"] wf by auto
  with sub show "distinct (map eid p)" using wf by (auto simp: distinct_map inj_on_def dest: wf_log_inj)
  show "(sm_leafId s = None \<and> p = []) \<or> (p \<noteq> [] \<and> Some (eid (last p)) = sm_leafId s \<and>
         root_path (parent_of (entry_index (getEntries s))) p (last p))" using 1 by blast
qed

section \<open>Reopening the file\<close>

lemma cook_uncook: "\<exists>r. uncook f = LineEntry r \<and> cook r = Some f"
  by (cases f) auto

lemma parse_uncook: "List.map_filter cook (parseSessionEntries (map uncook fs)) = fs"
proof (induction fs)
  case Nil
  then show ?case by (simp add: parseSessionEntries_def)
next
  case (Cons f fs)
  then show ?case using cook_uncook [of f] by (auto simp: parseSessionEntries_def)
qed

lemma setSessionFile_reload:
  assumes "headed s" and "wf_session s" and "w_files w p = Some (map uncook (sm_fileEntries s))"
  shows "\<exists>s1. setSessionFile p s0 w = (Inr (), s1, w) \<and> sm_sessionId s1 = sm_sessionId s \<and>
           sm_fileEntries s1 = sm_fileEntries s \<and> sm_byId s1 = sm_byId s \<and>
           sm_labelsById s1 = sm_labelsById s \<and> sm_labelTimestampsById s1 = sm_labelTimestampsById s \<and>
           sm_leafId s1 = (if getEntries s = [] then None else Some (eid (last (getEntries s)))) \<and> sm_flushed s1"
proof -
  obtain h es where fe: "sm_fileEntries s = FHeader h # map FEntry es"
    and h: "sh_version h = Some CURRENT_SESSION_VERSION" "sh_id h = sm_sessionId s"
    using assms(1) by (auto simp: headed_def)
  let ?raws = "parseSessionEntries (map uncook (sm_fileEntries s))"
  obtain rs where raws: "?raws = RawHeader h # rs"
    by (simp add: fe parseSessionEntries_def)
  have load: "loadEntriesFromFile w p = ?raws"
    using raws by (simp add: loadEntriesFromFile_def assms(3))
  have mig: "migrateToCurrentVersion u n ?raws = (False, ?raws, n)" for u n
    by (simp add: migrateToCurrentVersion_def raw_version_def raws h)
  have cooked: "List.map_filter cook ?raws = sm_fileEntries s" by (rule parse_uncook)
  let ?s1 = "s0\<lparr>sm_sessionFile := Some p, sm_sessionId := sm_sessionId s, sm_fileEntries := sm_fileEntries s\<rparr>"
  have "setSessionFile p s0 w = (Inr (), (buildIndex ?s1)\<lparr>sm_flushed := True\<rparr>, w)"
    using h cooked mig unfolding raws by (simp add: setSessionFile_def assms(3) load raws Let_def)
  moreover have "getEntries ?s1 = getEntries s" by (simp add: getEntries_def)
  then have "buildIndex ?s1 = ?s1\<lparr>sm_byId := entry_index (getEntries s),
      sm_leafId := (if getEntries s = [] then None else Some (eid (last (getEntries s)))),
      sm_labelsById := fst (label_maps (getEntries s)), sm_labelTimestampsById := snd (label_maps (getEntries s))\<rparr>"
    using assms(2) by (simp add: buildIndex_eq wf_session_def)
  ultimately show ?thesis
    using assms(2) by (auto simp: wf_session_def) (metis fst_conv, metis snd_conv)
qed

end
