(* ===== verification/Session_Spec.thy ===== *)
theory Session_Spec
  imports Session_Runs "HOL-Library.Multiset"
begin

text \<open>
  What a session manager promises, over two lists: the log of everything ever appended and
  the conversation, the path from the root to the current position. The manager (indexes, leaf
  pointer, file, identifiers) implements this machine: every successful operation of a
  reachable manager is one of its steps.
\<close>

section \<open>The abstract machine\<close>

type_synonym session_abs = "entry list \<times> entry list"

definition path_to :: "entry list \<Rightarrow> string \<Rightarrow> entry list \<Rightarrow> bool" where
  "path_to es i p \<longleftrightarrow> (\<exists>e \<in> set es. eid e = i \<and> root_path (parent_of (entry_index es)) p e)"

fun op_body :: "sm_op \<Rightarrow> entry_body option" where
  "op_body (OpMessage m) = Some (EMessage m)"
| "op_body (OpThinkingLevel l) = Some (EThinkingLevelChange l)"
| "op_body (OpModel p m) = Some (EModelChange p m)"
| "op_body (OpCompaction t k n d h u) = Some (ECompaction
     \<lparr>ce_summary = t, ce_firstKeptEntryId = Some k, ce_tokensBefore = n, ce_details = d, ce_usage = u, ce_fromHook = h\<rparr>)"
| "op_body (OpCustom t d) = Some (ECustom t d)"
| "op_body (OpCustomMessage t c b d) = Some (ECustomMessage
     \<lparr>ke_customType = t, ke_content = Some c, ke_details = d, ke_display = b\<rparr>)"
| "op_body (OpSessionInfo n) = Some (ESessionInfo (Some (trim (squash_newlines False n))))"
| "op_body (OpLabel k l) = Some (ELabel k l)"
| "op_body _ = None"

definition last_id :: "entry list \<Rightarrow> string option" where
  "last_id p = (if p = [] then None else Some (eid (last p)))"

definition fresh_child :: "entry list \<Rightarrow> entry list \<Rightarrow> entry_body \<Rightarrow> entry \<Rightarrow> bool" where
  "fresh_child es conv b e \<longleftrightarrow>
     body e = b \<and> eid e \<noteq> [] \<and> eid e \<notin> eid ` set es \<and> parentId e = last_id conv"

definition content_of :: "entry list \<Rightarrow> (string \<times> entry_body) list" where
  "content_of es = map (\<lambda>e. (eid e, body e)) (filter (\<lambda>e. \<not> is_label (body e)) es)"

inductive session_spec :: "sm_op \<Rightarrow> session_abs \<Rightarrow> session_abs \<Rightarrow> bool" where
  append: "op_body op = Some b \<Longrightarrow> fresh_child es conv b e \<Longrightarrow>
           session_spec op (es, conv) (es @ [e], conv @ [e])"
| move: "path_to es i p \<Longrightarrow> session_spec (OpBranch i) (es, conv) (es, p)"
| reset: "session_spec OpResetLeaf (es, conv) (es, [])"
| summary_root: "fresh_child es [] (EBranchSummary
     \<lparr>be_fromId = ''root'', be_summary = t, be_details = d, be_usage = u, be_fromHook = h\<rparr>) e \<Longrightarrow>
   session_spec (OpBranchSummary None t d h u) (es, conv) (es @ [e], [e])"
| summary_at: "path_to es i p \<Longrightarrow> fresh_child es p (EBranchSummary
     \<lparr>be_fromId = i, be_summary = t, be_details = d, be_usage = u, be_fromHook = h\<rparr>) e \<Longrightarrow>
   session_spec (OpBranchSummary (Some i) t d h u) (es, conv) (es @ [e], p @ [e])"
| extracted: "path_to es i p \<Longrightarrow> wf_log es' \<Longrightarrow> chained None es' \<Longrightarrow> content_of es' = content_of p \<Longrightarrow>
   session_spec (OpBranchedSession i) (es, conv) (es', es')"
| fresh: "session_spec (OpNewSession i q) (es, conv) ([], [])"

inductive_cases session_spec_moveE: "session_spec (OpBranch i) a b"
inductive_cases session_spec_messageE: "session_spec (OpMessage m) a b"

definition abs_session :: "session_manager \<Rightarrow> session_abs" where
  "abs_session s = (getEntries s, case conversation s of Some p \<Rightarrow> p | None \<Rightarrow> [])"

section \<open>Lemmas of the simulation\<close>

lemma conversation_last_id: "wf_session s \<Longrightarrow> conversation s = Some p \<Longrightarrow> sm_leafId s = last_id p"
  using conversation_props(3) [of s p] by (auto simp: last_id_def)

lemma abs_session_eq: "conversation s = Some p \<Longrightarrow> abs_session s = (getEntries s, p)"
  by (simp add: abs_session_def)

lemma append_body_spec:
  assumes "wf_session s" and "ids_known s w" and "append_body b s w = (r, s', w')" and "\<not> is_label b"
    and "conversation s = Some p"
  shows "\<exists>e. fresh_child (getEntries s) p b e \<and> abs_session s' = (getEntries s @ [e], p @ [e])"
proof -
  from append_body_wf [OF assms(1-4)] obtain e where
    e: "wf_session s'" "getEntries s' = getEntries s @ [e]" "body e = b" "parentId e = sm_leafId s"
      "sm_leafId s' = Some (eid e)" "eid e \<noteq> []" "eid e \<notin> eid ` set (getEntries s)" by blast
  then have "conversation s' = Some (p @ [e])"
    using conversation_append [OF assms(1) _ e(4) _ e(5) assms(5)] by (simp add: wf_session_def)
  then have "abs_session s' = (getEntries s @ [e], p @ [e])" using e(2) by (simp add: abs_session_eq)
  moreover have "fresh_child (getEntries s) p b e"
    using e conversation_last_id [OF assms(1,5)] by (simp add: fresh_child_def)
  ultimately show ?thesis by blast
qed

lemma appendLabelChange_spec:
  assumes "sm_inv s w" and "appendLabelChange k l s w = (Inr i, s', w')" and "conversation s = Some p"
  shows "\<exists>e. fresh_child (getEntries s) p (ELabel k l) e \<and> abs_session s' = (getEntries s @ [e], p @ [e])"
proof -
  obtain e w1 where n: "new_entry (ELabel k l) s w = (e, w1)" by (meson surj_pair)
  obtain s2 where p: "persist_entry e (push_entry e s) w1 = (Inr (), s2, w')"
    and s': "s' = s2\<lparr>sm_labelsById := fst (label_step (sm_labelsById s2, sm_labelTimestampsById s2) e),
                    sm_labelTimestampsById := snd (label_step (sm_labelsById s2, sm_labelTimestampsById s2) e)\<rparr>"
    using assms(2) n by (auto simp: appendLabelChange_def appendEntry_def split: prod.splits sum.splits if_splits)
  have inv: "wf_session s" "ids_known s w" using assms(1) by (auto simp: sm_inv_def)
  note ent = append_body_entry [OF inv n]
  have "sm_inv s' w'" by (rule appendLabelChange_inv [OF assms(1,2)])
  then have wf': "wf_session s'" by (simp add: sm_inv_def)
  have "getEntries s2 = getEntries s @ [e]" "sm_leafId s2 = Some (eid e)"
    by (subst persist_entry_frame [OF p, THEN conjunct1], simp add: push_entry_def getEntries_def)+
  then have es: "getEntries s' = getEntries s @ [e]" and leaf: "sm_leafId s' = Some (eid e)"
    by (simp_all add: s' getEntries_def)
  have "conversation s' = Some (p @ [e])"
    using conversation_append [OF inv(1) _ ent(3) _ leaf assms(3)] wf' es by (simp add: wf_session_def)
  then have "abs_session s' = (getEntries s @ [e], p @ [e])" using es by (simp add: abs_session_eq)
  moreover have "fresh_child (getEntries s) p (ELabel k l) e"
    using ent conversation_last_id [OF inv(1) assms(3)] by (simp add: fresh_child_def)
  ultimately show ?thesis by blast
qed

lemma getBranch_path_to:
  assumes "wf_session s" and "i \<in> eid ` set (getEntries s)"
  shows "\<exists>p. getBranch s (Some i) = Some p \<and> path_to (getEntries s) i p"
  using getBranch_root [OF assms] by (auto simp: path_to_def)

lemma getBranch_subset:
  assumes "wf_session s" and "getBranch s (Some i) = Some p"
  shows "set p \<subseteq> set (getEntries s)"
  using getBranch_cases [OF assms] log.path_in_carrier [of "getEntries s" p] assms(1)
  by (auto simp: wf_session_def)

lemma conversation_leaf: "conversation (s\<lparr>sm_leafId := Some i\<rparr>) = getBranch s (Some i)"
  by (simp add: conversation_def getBranch_def cong: option.case_cong)

lemma conversation_no_leaf: "conversation (s\<lparr>sm_leafId := None\<rparr>) = Some []"
  by (simp add: conversation_def getBranch_def)

lemma getEntries_leaf [simp]: "getEntries (s\<lparr>sm_leafId := i\<rparr>) = getEntries s"
  by (simp add: getEntries_def)

lemma chained_root_path:
  assumes "wf_log es" and "chained None es" and "es \<noteq> []"
  shows "root_path (parent_of (entry_index es)) es (last es)"
  using assms
proof (induction rule: wf_log.induct)
  case empty
  then show ?case by simp
next
  case (snoc es e)
  have wf: "wf_log (es @ [e])" using snoc.hyps by (auto simp: wf_log_snoc_iff)
  show ?case
  proof (cases "es = []")
    case True
    then show ?thesis using snoc.prems by (auto simp: parent_of_def intro: root_path.root)
  next
    case False
    then have par: "parentId e = Some (eid (last es))" and ch: "chained None es"
      using snoc.prems by (auto simp: chained_append)
    have l: "last es \<in> set es" using False by simp
    have "root_path (parent_of (entry_index (es @ [e]))) es (last es)"
      by (rule root_path_snoc [OF wf snoc.IH [OF ch False] l])
    moreover have "jm_get (entry_index (es @ [e])) (eid (last es)) = Some (last es)"
      by (rule entry_index_get [OF wf]) (simp add: l)
    then have "parent_of (entry_index (es @ [e])) e = Some (last es)"
      using par wf_log_nonempty [OF snoc.hyps(1) l] by (simp add: parent_of_def)
    ultimately show ?thesis by (simp add: root_path.step)
  qed
qed

lemma chained_conversation:
  assumes "wf_session s" and "chained None (getEntries s)" and "sm_leafId s = last_id (getEntries s)"
  shows "conversation s = Some (getEntries s)"
proof (cases "getEntries s = []")
  case True
  then show ?thesis using assms(3) by (simp add: conversation_def getBranch_leaf last_id_def)
next
  case False
  have wf: "wf_log (getEntries s)" using assms(1) by (simp add: wf_session_def)
  have l: "last (getEntries s) \<in> set (getEntries s)" using False by simp
  have "jm_get (sm_byId s) (eid (last (getEntries s))) = Some (last (getEntries s))"
    using entry_index_get [OF wf l] assms(1) by (simp add: wf_session_def)
  moreover have "root_path (parent_of (sm_byId s)) (getEntries s) (last (getEntries s))"
    using chained_root_path [OF wf assms(2) False] assms(1) by (simp add: wf_session_def)
  ultimately show ?thesis
    using False assms(3) wf_log_nonempty [OF wf l]
    by (simp add: conversation_def getBranch_leaf getBranch_def last_id_def walk_iff)
qed

lemma buildIndex_leaf: "sm_leafId (buildIndex s) = last_id (getEntries s)" if "wf_log (getEntries s)"
  using that by (simp add: buildIndex_eq last_id_def)

lemma drop_labels_content: "content_of (drop_labels par es) = content_of es"
  by (induction es arbitrary: par) (auto simp: content_of_def)

lemma label_entries_content: "label_entries ls ids par w = (es, w') \<Longrightarrow> content_of es = []"
  by (induction ls ids par w arbitrary: es w' rule: label_entries.induct)
     (auto simp: content_of_def Let_def split: prod.splits)

lemma content_of_append [simp]: "content_of (xs @ ys) = content_of xs @ content_of ys"
  by (simp add: content_of_def)

lemma branched_entries_content: "branched_entries s path w = (es, w') \<Longrightarrow> content_of es = content_of path"
  by (auto simp: branched_entries_def Let_def drop_labels_content split: prod.splits
      dest: label_entries_content)

lemma label_entries_chained: "label_entries ls ids par w = (es, w') \<Longrightarrow> chained par es"
  by (induction ls ids par w arbitrary: es w' rule: label_entries.induct) (auto simp: Let_def split: prod.splits)

lemma branched_entries_chained:
  assumes "wf_session s" and "getBranch s (Some i) = Some path" and "branched_entries s path w = (es, w')"
  shows "chained None es"
proof -
  define kept where "kept = drop_labels None path"
  obtain labels where l: "label_entries (labels_to_write s (map eid kept)) (map eid kept)
      (truthy_str (if kept = [] then None else Some (eid (last kept)))) w = (labels, w')"
    and es: "es = kept @ labels"
    using assms(3) unfolding branched_entries_def kept_def [symmetric] Let_def by (auto split: prod.splits)
  have wf: "wf_log (getEntries s)" using assms(1) by (simp add: wf_session_def)
  have "set path \<subseteq> set (getEntries s)"
    using getBranch_cases [OF assms(1,2)] log.path_in_carrier wf by fastforce
  moreover have "map eid kept = map eid (filter (\<lambda>e. \<not> is_label (body e)) path)"
    by (simp add: kept_def drop_labels_ids)
  then have "set (map eid kept) \<subseteq> eid ` set path" by (metis filter_is_subset image_mono list.set_map)
  ultimately have "[] \<notin> set (map eid kept)" using wf_log_nonempty [OF wf] by force
  then have "truthy_str (if kept = [] then None else Some (eid (last kept))) =
      (if kept = [] then None else Some (eid (last kept)))"
    by (cases kept rule: rev_cases) auto
  moreover have "chained (truthy_str (if kept = [] then None else Some (eid (last kept)))) labels"
    by (rule label_entries_chained [OF l])
  moreover have "chained None kept" by (simp add: kept_def drop_labels_chained)
  ultimately show ?thesis by (simp add: es chained_append)
qed

text \<open>The manager of an extracted branch: its log is the new conversation.\<close>

lemma extract_branch:
  assumes "sm_inv s w" and "getBranch s (Some i) = Some path"
    and w2: "w2 = w\<lparr>w_session_pos := w_session_pos w2, w_tick := w_tick w2\<rparr>"
    and b: "branched_entries s path w2 = (es, w3)"
    and s1: "s1 = s\<lparr>sm_fileEntries := FHeader h # map FEntry es, sm_sessionId := newId\<rparr>"
    and res: "if sm_persist s then
       s' = (buildIndex (s1\<lparr>sm_sessionFile := Some (SessionFileOf (sm_sessionDir s) t newId)\<rparr>))
              \<lparr>sm_flushed := hasAssistant (map FEntry es)\<rparr> \<and> w' = w4
     else s' = buildIndex s1 \<and> w' = w3"
  shows "wf_log es \<and> chained None es \<and> abs_session s' = (es, es)"
proof -
  have wf: "wf_session s" and ids: "ids_known s w" using assms(1) by (auto simp: sm_inv_def)
  have src: "uuid_source w2 \<and> (\<forall>e \<in> set (getEntries s). id_origin w2 (eid e))"
    using ids by (subst w2, subst (2) w2) (simp add: ids_known_def uuid_source_def id_origin_def)
  have wl: "wf_log es" using branched_entries_wf [OF wf _ _ assms(2) b] src by blast
  have ch: "chained None es"
    by (rule branched_entries_chained [OF wf assms(2) b])
  have "sm_byId s' = entry_index es \<and> sm_leafId s' = last_id es \<and> getEntries s' = es \<and> wf_session s'"
    using res wl buildIndex_wf [of s1] buildIndex_wf [of "s1\<lparr>sm_sessionFile := Some (SessionFileOf (sm_sessionDir s) t newId)\<rparr>"]
    by (auto simp: s1 buildIndex_eq getEntries_def last_id_def split: if_splits)
  then have "conversation s' = Some es"
    using chained_conversation [of s'] ch by simp
  then show ?thesis using wl ch \<open>_ \<and> _ \<and> getEntries s' = es \<and> _\<close> by (simp add: abs_session_eq)
qed

section \<open>One operation, one step\<close>

lemma index_has: "wf_session s \<Longrightarrow> jm_has (sm_byId s) k \<longleftrightarrow> k \<in> eid ` set (getEntries s)"
  by (simp add: wf_session_def)

lemma spec_append:
  assumes "sm_inv s w" and "append_body b s w = (Inr v, s', w')" and "\<not> is_label b" and "op_body op = Some b"
  shows "session_spec op (abs_session s) (abs_session s')"
proof -
  have wf: "wf_session s" "ids_known s w" using assms(1) by (auto simp: sm_inv_def)
  obtain p where p: "conversation s = Some p" using conversation_exists [OF wf(1)] by blast
  show ?thesis
    using append_body_spec [OF wf assms(2,3) p] assms(4)
    by (auto simp: abs_session_eq [OF p] intro: session_spec.append)
qed

lemma spec_label:
  assumes "sm_inv s w" and "appendLabelChange k l s w = (Inr v, s', w')"
  shows "session_spec (OpLabel k l) (abs_session s) (abs_session s')"
proof -
  have wf: "wf_session s" using assms(1) by (auto simp: sm_inv_def)
  obtain p where p: "conversation s = Some p" using conversation_exists [OF wf] by blast
  from appendLabelChange_spec [OF assms p] obtain e where
    e: "fresh_child (getEntries s) p (ELabel k l) e" "abs_session s' = (getEntries s @ [e], p @ [e])" by blast
  have "op_body (OpLabel k l) = Some (ELabel k l)" by simp
  from session_spec.append [OF this e(1)] e(2) show ?thesis by (simp add: abs_session_eq [OF p])
qed

lemma spec_move:
  assumes "wf_session s" and "branch i s w = (Inr (), s', w')"
  shows "session_spec (OpBranch i) (abs_session s) (abs_session s')"
proof -
  obtain p where p: "conversation s = Some p" using conversation_exists [OF assms(1)] by blast
  have i: "i \<in> eid ` set (getEntries s)" and s': "s' = s\<lparr>sm_leafId := Some i\<rparr>"
    using assms(2) index_has [OF assms(1), of i] by (auto simp: branch_def split: if_splits)
  from getBranch_path_to [OF assms(1) i] obtain q where
    "conversation s' = Some q" "path_to (getEntries s) i q" by (auto simp: s' conversation_leaf)
  with s' show ?thesis by (simp add: abs_session_eq [OF p] abs_session_eq session_spec.move)
qed

lemma spec_summary:
  assumes "sm_inv s w" and "branchWithSummary i t d h u s w = (Inr v, s', w')"
  shows "session_spec (OpBranchSummary i t d h u) (abs_session s) (abs_session s')"
proof -
  have wf: "wf_session s" using assms(1) by (simp add: sm_inv_def)
  obtain p where p: "conversation s = Some p" using conversation_exists [OF wf] by blast
  show ?thesis
  proof (cases i)
    case None
    have inv: "wf_session (s\<lparr>sm_leafId := None\<rparr>)" "ids_known (s\<lparr>sm_leafId := None\<rparr>) w"
      using sm_inv_leaf [OF assms(1), of None] by (auto simp: sm_inv_def)
    have "append_body (EBranchSummary \<lparr>be_fromId = ''root'', be_summary = t, be_details = d, be_usage = u,
            be_fromHook = h\<rparr>) (s\<lparr>sm_leafId := None\<rparr>) w = (Inr v, s', w')"
      using assms(2) None by (simp add: branchWithSummary_def)
    from append_body_spec [OF inv this _ conversation_no_leaf] show ?thesis
      using None by (auto simp: abs_session_eq [OF p] intro: session_spec.summary_root)
  next
    case (Some j)
    then have j: "j \<in> eid ` set (getEntries s)"
      using assms(2) index_has [OF wf, of j] by (auto simp: branchWithSummary_def split: if_splits)
    from getBranch_path_to [OF wf j] obtain q where
      q: "conversation (s\<lparr>sm_leafId := Some j\<rparr>) = Some q" "path_to (getEntries s) j q"
      by (auto simp: conversation_leaf)
    have inv: "wf_session (s\<lparr>sm_leafId := Some j\<rparr>)" "ids_known (s\<lparr>sm_leafId := Some j\<rparr>) w"
      using sm_inv_leaf [OF assms(1), of "Some j"] j by (auto simp: sm_inv_def)
    have "append_body (EBranchSummary \<lparr>be_fromId = j, be_summary = t, be_details = d, be_usage = u,
            be_fromHook = h\<rparr>) (s\<lparr>sm_leafId := Some j\<rparr>) w = (Inr v, s', w')"
      using assms(2) Some by (simp add: branchWithSummary_def split: if_splits)
    from append_body_spec [OF inv this _ q(1)] show ?thesis
      using Some q(2) by (auto simp: abs_session_eq [OF p] intro: session_spec.summary_at)
  qed
qed

lemma spec_extract:
  assumes "sm_inv s w" and "createBranchedSession i s w = Some (Inr r, s', w')"
  shows "session_spec (OpBranchedSession i) (abs_session s) (abs_session s')"
  using assms(2)
proof (rule createBranchedSession_result)
  fix path newId t h es w2 w3 s1
  assume g: "getBranch s (Some i) = Some path" "path \<noteq> []"
    and w2: "w2 = w\<lparr>w_session_pos := w_session_pos w2, w_tick := w_tick w2\<rparr>"
    and b: "branched_entries s path w2 = (es, w3)"
    and s1: "s1 = s\<lparr>sm_fileEntries := FHeader h # map FEntry es, sm_sessionId := newId\<rparr>"
    and res: "if sm_persist s then
      s' = (buildIndex (s1\<lparr>sm_sessionFile := Some (SessionFileOf (sm_sessionDir s) t newId)\<rparr>))
             \<lparr>sm_flushed := hasAssistant (map FEntry es)\<rparr> \<and>
      w' = (if hasAssistant (map FEntry es)
            then w3\<lparr>w_files := (w_files w3)(SessionFileOf (sm_sessionDir s) t newId \<mapsto> map uncook (FHeader h # map FEntry es))\<rparr>
            else w3)
      else s' = buildIndex s1 \<and> w' = w3"
  have wf: "wf_session s" using assms(1) by (simp add: sm_inv_def)
  obtain p where p: "conversation s = Some p" using conversation_exists [OF wf] by blast
  have "path_to (getEntries s) i path"
    using getBranch_cases [OF wf g(1)] g(2) by (auto simp: path_to_def)
  with extract_branch [OF assms(1) g(1) w2 b s1 res] branched_entries_content [OF b] show ?thesis
    by (simp add: abs_session_eq [OF p] session_spec.extracted)
qed

lemma spec_new:
  assumes "wf_session s" and "newSession i q s w = (Inr (), s', w')"
  shows "session_spec (OpNewSession i q) (abs_session s) (abs_session s')"
proof -
  have "getEntries s' = [] \<and> sm_leafId s' = None"
    using assms(2)
    by (auto simp: newSession_def begin_session_def getEntries_def split: option.splits if_splits prod.splits)
  then show ?thesis by (simp add: abs_session_def conversation_def getBranch_leaf session_spec.fresh)
qed

lemma spec_reset: "session_spec OpResetLeaf (abs_session s) (abs_session (resetLeaf s))"
  by (simp add: abs_session_def resetLeaf_def conversation_no_leaf session_spec.reset)

section \<open>Errors\<close>

lemma void_InlD: "void R = (Inl err, s, w) \<Longrightarrow> R = (Inl err, s, w)"
  by (cases R rule: void.cases) auto

lemma persist_entry_error: "persist_entry e s w = (Inl err, s', w') \<Longrightarrow> \<exists>p. err = FileExists p"
  by (auto simp: persist_entry_def split: option.splits if_splits)

lemma append_body_error: "append_body b s w = (Inl err, s', w') \<Longrightarrow> \<exists>p. err = FileExists p"
  by (auto simp: append_body_def appendEntry_def split: prod.splits sum.splits dest: persist_entry_error)

lemma appendLabelChange_error:
  "appendLabelChange k l s w = (Inl err, s', w') \<Longrightarrow>
     (\<exists>p. err = FileExists p) \<or> (err = EntryNotFound k \<and> \<not> jm_has (sm_byId s) k \<and> s' = s \<and> w' = w)"
  by (auto simp: appendLabelChange_def appendEntry_def Let_def split: prod.splits sum.splits if_splits
      dest: persist_entry_error)

lemma createBranchedSession_error:
  assumes "wf_session s" and "createBranchedSession i s w = Some (Inl err, s', w')"
  shows "s' = s \<and> w' = w \<and> err = EntryNotFound i \<and> i \<notin> eid ` set (getEntries s)"
proof -
  from assms(2) have g: "getBranch s (Some i) = Some []" and r: "s' = s \<and> w' = w \<and> err = EntryNotFound i"
    by (auto simp: createBranchedSession_def Let_def split: option.splits list.splits prod.splits if_splits)
  have "i \<notin> eid ` set (getEntries s)"
    using getBranch_root [OF assms(1), of i] g by (auto dest: root_path_not_Nil)
  with r show ?thesis by blast
qed

lemma parent_of_None_wf:
  assumes "wf_log es" and "e \<in> set es" and "parent_of (entry_index es) e = None"
  shows "parentId e = None"
proof (rule ccontr)
  assume "parentId e \<noteq> None"
  then obtain p where p: "parentId e = Some p" by auto
  then have mem: "p \<in> eid ` set es" using wf_log_parent [OF assms(1,2)] by blast
  then have "p \<noteq> []" using wf_log_nonempty [OF assms(1)] by auto
  with p mem assms(3) entry_index_None [of es p] show False
    by (auto simp: parent_of_def)
qed

section \<open>Labels\<close>

fun targets :: "string \<Rightarrow> entry_body \<Rightarrow> bool" where
  "targets i (ELabel k l) = (k = i)"
| "targets i _ = False"

fun label_text :: "entry_body \<Rightarrow> string option" where
  "label_text (ELabel k l) = truthy_str l"
| "label_text _ = None"

definition logged_label :: "entry list \<Rightarrow> string \<Rightarrow> string option" where
  "logged_label es i =
     (case filter (\<lambda>e. targets i (body e)) es of [] \<Rightarrow> None | x # xs \<Rightarrow> label_text (body (last (x # xs))))"

lemma logged_label_snoc:
  "logged_label (es @ [e]) i = (if targets i (body e) then label_text (body e) else logged_label es i)"
  by (cases "filter (\<lambda>e. targets i (body e)) es") (auto simp: logged_label_def)

lemma label_step_get:
  "jm_get (fst (label_step m e)) i = (if targets i (body e) then label_text (body e) else jm_get (fst m) i)"
proof (cases "body e")
  case (ELabel k l)
  then show ?thesis by (cases m; cases l) (auto simp: map_laws)
qed (cases m; simp)+

lemma label_maps_logged: "jm_get (fst (label_maps es)) i = logged_label es i"
proof (induction es rule: rev_induct)
  case Nil
  then show ?case by (simp add: label_maps_def logged_label_def)
next
  case (snoc e es)
  then show ?case by (simp add: label_maps_snoc label_step_get logged_label_snoc del: label_step.simps)
qed

lemma logged_label_nonempty: "logged_label es i = Some l \<Longrightarrow> l \<noteq> []"
proof (induction es rule: rev_induct)
  case Nil
  then show ?case by (simp add: logged_label_def)
next
  case (snoc e es)
  then show ?case by (cases "body e") (auto simp: logged_label_snoc split: if_splits)
qed

lemma logged_label_none: "\<forall>e \<in> set es. \<not> targets i (body e) \<Longrightarrow> logged_label es i = None"
  by (simp add: logged_label_def filter_False)

lemma logged_label_append:
  "logged_label (xs @ ys) i = (if \<exists>e \<in> set ys. targets i (body e) then logged_label ys i else logged_label xs i)"
  by (induction ys rule: rev_induct) (auto simp: logged_label_snoc simp flip: append_assoc)

lemma is_label_targets: "targets i b \<Longrightarrow> is_label b"
  by (cases b) auto

lemma labels_distinct: "distinct (map fst (fst (label_maps es)))"
proof (induction es rule: rev_induct)
  case Nil
  then show ?case by (simp add: label_maps_def)
next
  case (snoc e es)
  then show ?case
    by (cases "label_maps es")
       (auto simp: label_maps_snoc jm_set_distinct jm_delete_distinct split: entry_body.split option.split)
qed

lemma label_entries_bodies:
  "label_entries ls ids par w = (es, w') \<Longrightarrow> map body es = map (\<lambda>(k, l, t). ELabel k (Some l)) ls"
  by (induction ls ids par w arbitrary: es w' rule: label_entries.induct) (auto simp: Let_def split: prod.splits)

lemma logged_label_bodies:
  "map body es = map (\<lambda>(k, l, t). ELabel k (Some l)) ls \<Longrightarrow> distinct (map fst ls) \<Longrightarrow>
     \<forall>(k, l, t) \<in> set ls. l \<noteq> [] \<Longrightarrow> logged_label es i = map_option fst (map_of ls i)"
proof (induction ls arbitrary: es)
  case Nil
  then show ?case by (simp add: logged_label_def)
next
  case (Cons x ls)
  obtain k l t where x: "x = (k, l, t)" by (cases x)
  with Cons.prems(1) obtain e es' where es: "es = e # es'" "body e = ELabel k (Some l)"
      "map body es' = map (\<lambda>(k, l, t). ELabel k (Some l)) ls"
    by (cases es) auto
  have IH: "logged_label es' i = map_option fst (map_of ls i)" using Cons es x by auto
  have mem: "(\<exists>e \<in> set es'. targets i (body e)) \<longleftrightarrow> i \<in> fst ` set ls"
  proof -
    have "(\<exists>e \<in> set es'. targets i (body e)) \<longleftrightarrow> (\<exists>b \<in> set (map body es'). targets i b)" by simp
    also have "\<dots> \<longleftrightarrow> i \<in> fst ` set ls" unfolding es(3) by force
    finally show ?thesis .
  qed
  have "logged_label ([e] @ es') i =
      (if i \<in> fst ` set ls then logged_label es' i else if k = i then Some l else None)"
    using Cons.prems(3) x es(2) unfolding logged_label_append mem by (auto simp: logged_label_def)
  then show ?case using IH x es(1) Cons.prems(2)
    by (auto simp: map_of_eq_None_iff)
qed

lemma map_of_filtered_labels:
  "i \<in> A \<Longrightarrow> map_option fst (map_of (map (\<lambda>(k, l). (k, l, f k)) (filter (\<lambda>(k, l). k \<in> A) m)) i) = map_of m i"
  by (induction m) auto

lemma branched_entries_labels:
  assumes "wf_session s" and "branched_entries s path w = (es, w')"
    and "e \<in> set es" and "\<not> is_label (body e)"
  shows "jm_get (fst (label_maps es)) (eid e) = jm_get (sm_labelsById s) (eid e)"
proof -
  define kept where "kept = drop_labels None path"
  define ls where "ls = labels_to_write s (map eid kept)"
  obtain labels where l: "label_entries ls (map eid kept)
      (truthy_str (if kept = [] then None else Some (eid (last kept)))) w = (labels, w')"
    and es: "es = kept @ labels"
    using assms(2) unfolding branched_entries_def kept_def [symmetric] ls_def Let_def by (auto split: prod.splits)
  have maps: "sm_labelsById s = fst (label_maps (getEntries s))"
    using assms(1) by (metis wf_session_def fst_conv)
  have nl: "\<not> targets i (body x)" if "x \<in> set kept" for x i
  proof -
    have "body x \<in> set (map body kept)" using that by simp
    then have "\<not> is_label (body x)" unfolding kept_def drop_labels_bodies by auto
    then show ?thesis by (auto dest: is_label_targets)
  qed
  have keys: "map fst ls = map fst (filter (\<lambda>(k, l). k \<in> eid ` set kept) (sm_labelsById s))"
    by (simp add: ls_def labels_to_write_def case_prod_beta comp_def)
  have dist: "distinct (map fst ls)"
    unfolding keys maps using labels_distinct [of "getEntries s"] by (simp add: distinct_map_filter)
  have nonempty: "\<forall>(k, l, t) \<in> set ls. l \<noteq> []"
  proof -
    have "l \<noteq> []" if "(k, l) \<in> set (sm_labelsById s)" for k l
      using map_of_is_SomeI [OF labels_distinct [of "getEntries s"], of k l] that maps
      by (auto simp: label_maps_logged dest: logged_label_nonempty)
    then show ?thesis by (auto simp: ls_def labels_to_write_def)
  qed
  have "body e \<notin> set (map body labels)"
    unfolding label_entries_bodies [OF l] using assms(4) by (auto split: prod.splits)
  then have "e \<in> set kept" using assms(3) es by auto
  then have ei: "eid e \<in> eid ` set kept" by simp
  have "logged_label es (eid e) = logged_label labels (eid e)"
    unfolding es logged_label_append using nl by (auto simp: logged_label_none)
  also have "\<dots> = map_option fst (map_of ls (eid e))"
    by (rule logged_label_bodies [OF label_entries_bodies [OF l] dist nonempty])
  also have "\<dots> = map_of (sm_labelsById s) (eid e)"
    using ei unfolding ls_def labels_to_write_def by (simp add: map_of_filtered_labels)
  finally show ?thesis by (simp add: label_maps_logged)
qed

section \<open>The tree\<close>

lemma foldl_jm_set_distinct:
  "distinct (map f xs) \<Longrightarrow> foldl (\<lambda>m x. jm_set (f x) (g x) m) [] xs = map (\<lambda>x. (f x, g x)) xs"
proof (induction xs rule: rev_induct)
  case Nil
  then show ?case by simp
next
  case (snoc x xs)
  then show ?case by (auto simp: jm_set_fresh map_of_eq_None_iff image_image)
qed

lemma mset_filter_disjoint:
  "\<forall>x. \<not> (P x \<and> Q x) \<Longrightarrow> mset (filter P xs) + mset (filter Q xs) = mset (filter (\<lambda>x. P x \<or> Q x) xs)"
  by (induction xs) auto

lemma children_mset:
  "distinct (map eid es) \<Longrightarrow>
     mset (concat (map (\<lambda>e. filter (\<lambda>c. f c = Some (eid e)) cs) es)) = mset (filter (\<lambda>c. f c \<in> Some ` eid ` set es) cs)"
proof (induction es)
  case Nil
  then show ?case by simp
next
  case (Cons e es)
  then have "mset (filter (\<lambda>c. f c = Some (eid e)) cs) + mset (filter (\<lambda>c. f c \<in> Some ` eid ` set es) cs) =
      mset (filter (\<lambda>c. f c = Some (eid e) \<or> f c \<in> Some ` eid ` set es) cs)"
    by (intro mset_filter_disjoint) auto
  with Cons show ?case by simp
qed

lemma tree_parent_Some: "tree_parent s e \<noteq> None \<longleftrightarrow> tree_parent s e \<in> Some ` eid ` set (getEntries s)"
  by (auto simp: tree_parent_def split: option.splits)

lemma mset_node_children:
  "mset (concat (map (\<lambda>e. tn_children (node_of s e)) es)) =
     image_mset eid (mset (concat (map (\<lambda>e. filter (\<lambda>c. tree_parent s c = Some (eid e)) (getEntries s)) es)))"
  by (induction es) (auto simp: node_of_def)

section \<open>Migration\<close>

lemma migrateV1ToV2_loop_prefix:
  "migrateV1ToV2_loop rnd n prevId fin es = (out, n') \<Longrightarrow>
     \<exists>new. out = fin @ new \<and> length new = length es"
proof (induction rnd n prevId fin es arbitrary: out rule: migrateV1ToV2_loop.induct)
  case (3 rnd n prevId fin e rest)
  obtain i m where g: "generateId (\<lambda>_. False) rnd n = (i, m)" by (meson surj_pair)
  show ?case using 3(1) [OF g [symmetric] refl refl refl] 3(2) g by (force simp: Let_def)
qed (force)+

lemma migrateV1ToV2_loop_compaction:
  "migrateV1ToV2_loop rnd n prevId fin es = (out, n') \<Longrightarrow> i < length es \<Longrightarrow> es ! i = RawEntry e \<Longrightarrow>
     re_body e = RawCompaction c (Some k) \<Longrightarrow> k \<le> length fin + i \<Longrightarrow> out ! k = RawEntry t \<Longrightarrow>
     \<exists>e'. out ! (length fin + i) = RawEntry e' \<and> re_body e' = RawCompaction (c\<lparr>ce_firstKeptEntryId := re_id t\<rparr>) None"
proof (induction rnd n prevId fin es arbitrary: i rule: migrateV1ToV2_loop.induct)
  case (1 rnd n prevId fin)
  then show ?case by simp
next
  case (2 rnd n prevId fin h rest)
  then obtain j where "i = Suc j" by (cases i) auto
  with 2 show ?case by simp
next
  case (3 rnd n prevId fin x rest)
  obtain d m where g: "generateId (\<lambda>_. False) rnd n = (d, m)" by (meson surj_pair)
  let ?e1 = "x\<lparr>re_id := Some d, re_parentId := prevId\<rparr>"
  let ?e2 = "fix_first_kept (fin @ RawEntry ?e1 # rest) ?e1"
  have run: "migrateV1ToV2_loop rnd m (Some d) (fin @ [RawEntry ?e2]) rest = (out, n')"
    using "3.prems"(1) g by (simp add: Let_def)
  show ?case
  proof (cases i)
    case 0
    from migrateV1ToV2_loop_prefix [OF run] obtain new where out: "out = (fin @ [RawEntry ?e2]) @ new" by blast
    have k: "k \<le> length fin" using "3.prems"(5) 0 by simp
    have "(fin @ RawEntry ?e1 # rest) ! k = RawEntry t \<or> (k = length fin \<and> t = ?e2)"
      using "3.prems"(6) k by (auto simp: out nth_append)
    moreover have "re_body ?e1 = RawCompaction c (Some k)" using "3.prems"(3,4) 0 by simp
    ultimately have "re_body ?e2 = RawCompaction (c\<lparr>ce_firstKeptEntryId := re_id t\<rparr>) None"
      using k by (auto simp: fix_first_kept.simps [of _ ?e1])
    then show ?thesis using 0 by (simp add: out)
  next
    case (Suc j)
    from "3.IH" [OF g [symmetric] refl refl refl run, of j] "3.prems" Suc show ?thesis by simp
  qed
qed

lemma migrateV1ToV2_loop_result:
  assumes "migrateV1ToV2_loop rnd n None [] es = (out, n')"
  shows "length out = length es"
    and "i < length es \<Longrightarrow> es ! i = RawEntry e \<Longrightarrow> re_body e = RawCompaction c (Some k) \<Longrightarrow> k \<le> i \<Longrightarrow>
         out ! k = RawEntry t \<Longrightarrow>
         \<exists>e'. out ! i = RawEntry e' \<and> re_body e' = RawCompaction (c\<lparr>ce_firstKeptEntryId := re_id t\<rparr>) None"
  using migrateV1ToV2_loop_prefix [OF assms] migrateV1ToV2_loop_compaction [OF assms, of i e c k t] by auto

lemma migrateV2ToV3_nth: "i < length es \<Longrightarrow> migrateV2ToV3 es ! i = migrateV2ToV3_one (es ! i)"
  by (simp add: migrateV2ToV3_def)

lemma migrateV2ToV3_id:
  assumes "k < length es" and "migrateV2ToV3 es ! k = RawEntry t"
  shows "\<exists>t1. es ! k = RawEntry t1 \<and> re_id t1 = re_id t"
  using assms by (cases "es ! k") (auto simp: migrateV2ToV3_nth split: raw_body.splits)

end
