(* ===== verification/Session_Demo.thy ===== *)
theory Session_Demo
  imports Session_Spec
begin

text \<open>
  Two sample runs of the session manager, on which the properties of the sessions are
  instantiated: a persisted session with a user message, an answer, a label and a move back,
  and an in-memory session with two branches.
\<close>

fun run_ops :: "sm_op list \<Rightarrow> session_manager \<Rightarrow> world \<Rightarrow> (session_manager \<times> world) option" where
  "run_ops [] s w = Some (s, w)"
| "run_ops (op # ops) s w =
     (case exec_op op s w of
        Some (Inr u, s', w') \<Rightarrow> run_ops ops s' w'
      | _ \<Rightarrow> None)"

lemma run_ops_reachable: "run_ops ops s w = Some (s', w') \<Longrightarrow> reachable s w \<Longrightarrow> reachable s' w'"
proof (induction ops arbitrary: s w)
  case Nil
  then show ?case by simp
next
  case (Cons op ops)
  from Cons.prems(1) obtain u s1 w1 where
    "exec_op op s w = Some (Inr u, s1, w1)" "run_ops ops s1 w1 = Some (s', w')"
    by (auto split: option.splits prod.splits sum.splits)
  with Cons show ?case by (auto intro: reachable.step)
qed

definition demo_world :: world where
  "demo_world =
     \<lparr>w_uuid = (\<lambda>n. replicate n CHR ''a'' @ replicate 9 CHR ''b''), w_uuid_pos = 0,
      w_sessionIds = (\<lambda>n. replicate n CHR ''s''), w_session_pos = 0,
      w_clock = int, w_tick = 0, w_files = (\<lambda>_. None)\<rparr>"

lemma demo_uuid: "uuid_source demo_world"
proof -
  have "inj (\<lambda>n. replicate n CHR ''a'' @ replicate 9 CHR ''b'')"
  proof (rule injI)
    fix m n :: nat
    assume "replicate m CHR ''a'' @ replicate 9 CHR ''b'' = replicate n CHR ''a'' @ replicate 9 CHR ''b''"
    then have "length (replicate m CHR ''a'' @ replicate 9 CHR ''b'') =
               length (replicate n CHR ''a'' @ replicate 9 CHR ''b'')" by (rule arg_cong)
    then show "m = n" by simp
  qed
  then show ?thesis by (simp add: uuid_source_def demo_world_def)
qed

definition demo_usage :: usage where
  "demo_usage = \<lparr>us_input = 10, us_output = 5, us_cacheRead = 0, us_cacheWrite = 0, us_cacheWrite1h = None,
     us_reasoning = None, us_totalTokens = 15,
     us_cost = \<lparr>cost_input = 0, cost_output = 0, cost_cacheRead = 0, cost_cacheWrite = 0, cost_total = 0\<rparr>\<rparr>"

definition demo_answer :: agent_message where
  "demo_answer = Assistant \<lparr>am_content = Some [TextBlock ''hello''], am_provider = ''p'', am_model = ''m'',
     am_stopReason = OtherStop ''stop'', am_usage = Some demo_usage, am_errorMessage = None, am_timestamp = 2\<rparr>"

definition demo_user :: agent_message where
  "demo_user = User (Some (Plain ''hi'')) 1"

definition demo_ops :: "sm_op list" where
  "demo_ops = [OpMessage demo_user, OpMessage demo_answer, OpLabel ''bbbbbbbb'' (Some ''start''), OpMessage demo_user]"

definition demo_start :: "session_manager \<times> world" where
  "demo_start = snd (create ''/home'' ''/sessions'' None None demo_world)"

definition demo :: "session_manager \<times> world" where
  "demo = the (run_ops demo_ops (fst demo_start) (snd demo_start))"

lemma demo_start_reachable: "reachable (fst demo_start) (snd demo_start)"
proof (rule reachable.created [OF demo_uuid])
  show "create ''/home'' ''/sessions'' None None demo_world = (Inr (), fst demo_start, snd demo_start)"
    by (simp add: demo_start_def create_def newSession_def split: prod.split)
qed

lemma demo_runs: "run_ops demo_ops (fst demo_start) (snd demo_start) \<noteq> None"
  by code_simp

lemma demo_reachable: "reachable (fst demo) (snd demo)"
proof -
  from demo_runs obtain s w where "run_ops demo_ops (fst demo_start) (snd demo_start) = Some (s, w)" by auto
  with run_ops_reachable demo_start_reachable show ?thesis by (simp add: demo_def)
qed

lemma demo_ids: "map eid (getEntries (fst demo)) = [''bbbbbbbb'', ''abbbbbbb'', ''aabbbbbb'', ''aaabbbbb'']"
  by code_simp

end
