(* ===== verification/Session_Properties.thy ===== *)
theory Session_Properties
  imports Session_Demo
begin

text \<open>
  The properties of the session manager, each with an instance on a sample run. They rest on
  the invariant of \<open>Session_Runs\<close> and on the lemmas of \<open>Session_Spec\<close>.
\<close>

section \<open>Refinement and invariants\<close>

text \<open>
  C1. Refinement of the session manager: every operation that succeeds on a reachable manager
  is a step of the abstract machine over (log, conversation). Appending is \<open>snoc\<close> on both, with
  an unused id and the end of the conversation as parent; moving selects the root path of another
  entry; a branch summary hangs below the target; extracting a branch keeps the id and the
  content of every entry of the path that is no label. Entries of the log are never changed.
\<close>

theorem session_refinement:
  assumes "reachable s w" and "exec_op op s w = Some (Inr (), s', w')"
  shows "session_spec op (abs_session s) (abs_session s')"
proof -
  have inv: "sm_inv s w" and wf: "wf_session s" using assms(1) by (auto intro: reachable_inv reachable_wf)
  show ?thesis
  proof (cases op)
    case (OpLabel k l)
    with assms(2) show ?thesis by (auto dest!: void_InrD intro: spec_label [OF inv])
  next
    case (OpBranch i)
    with assms(2) show ?thesis by (auto intro: spec_move [OF wf])
  next
    case OpResetLeaf
    with assms(2) show ?thesis by (auto intro: spec_reset)
  next
    case (OpBranchSummary i t d h u)
    with assms(2) show ?thesis by (auto dest!: void_InrD intro: spec_summary [OF inv])
  next
    case (OpBranchedSession i)
    with assms(2) show ?thesis by (auto dest!: void_InrD intro: spec_extract [OF inv])
  next
    case (OpNewSession i q)
    with assms(2) show ?thesis by (auto intro: spec_new [OF wf])
  qed (use assms(2) in \<open>auto simp: append_defs dest!: void_InrD intro: spec_append [OF inv]\<close>)
qed

theorem session_refinement_witness:
  "\<exists>s' w'. exec_op (OpBranch ''bbbbbbbb'') (fst demo) (snd demo) = Some (Inr (), s', w') \<and>
     session_spec (OpBranch ''bbbbbbbb'') (abs_session (fst demo)) (abs_session s')"
proof -
  have "jm_has (sm_byId (fst demo)) ''bbbbbbbb''" by code_simp
  then have "exec_op (OpBranch ''bbbbbbbb'') (fst demo) (snd demo) =
      Some (Inr (), (fst demo)\<lparr>sm_leafId := Some ''bbbbbbbb''\<rparr>, snd demo)"
    by (simp add: branch_def)
  with session_refinement [OF demo_reachable this] show ?thesis by blast
qed

text \<open>
  C9. Walking from any entry of a reachable session to the root terminates, and yields the
  path from a parentless entry to it: consecutive entries are linked by \<open>parentId\<close>, no id
  repeats and all are entries of the session.
\<close>

theorem branch_terminates:
  assumes "reachable s w" and "e \<in> set (getEntries s)"
  shows "\<exists>p. getBranch s (Some (eid e)) = Some p \<and> p \<noteq> [] \<and> last p = e \<and> parentId (hd p) = None \<and>
           distinct (map eid p) \<and> set p \<subseteq> set (getEntries s) \<and>
           (\<forall>i. Suc i < length p \<longrightarrow> parentId (p ! Suc i) = Some (eid (p ! i)))"
proof -
  have wf: "wf_session s" using assms(1) by (rule reachable_wf)
  then have wl: "wf_log (getEntries s)" by (simp add: wf_session_def)
  from getBranch_root [OF wf] assms(2) obtain p x where
    p: "getBranch s (Some (eid e)) = Some p" "x \<in> set (getEntries s)" "eid x = eid e"
      "root_path (parent_of (entry_index (getEntries s))) p x" by blast
  then have x: "x = e" using wf_log_inj [OF wl] assms(2) by blast
  have sub: "set p \<subseteq> set (getEntries s)" and dist: "distinct p"
    using log.path_in_carrier [OF p(4)] log.path_distinct [OF p(4)] wl p(2) by auto
  have "distinct (map eid p)"
    using sub dist wl by (auto simp: distinct_map inj_on_def dest: wf_log_inj)
  moreover have "parentId (hd p) = None"
    using root_path_hd [OF p(4)] root_path_not_Nil [OF p(4)] sub
    by (intro parent_of_None_wf [OF wl]) auto
  moreover have "parentId (p ! Suc i) = Some (eid (p ! i))" if "Suc i < length p" for i
    using root_path_link [OF p(4) that] by (auto dest!: parent_of_Some entry_index_SomeD)
  ultimately show ?thesis
    using p x sub root_path_last [OF p(4)] root_path_not_Nil [OF p(4)] by auto
qed

theorem branch_terminates_witness:
  "\<exists>e p. e \<in> set (getEntries (fst demo)) \<and> getBranch (fst demo) (Some (eid e)) = Some p \<and> last p = e"
proof -
  have "getEntries (fst demo) \<noteq> []" using demo_ids by auto
  then have "last (getEntries (fst demo)) \<in> set (getEntries (fst demo))" by simp
  with branch_terminates [OF demo_reachable this] show ?thesis by blast
qed

text \<open>
  An operation that throws for any reason but a session file that appeared behind the
  manager's back throws because the id it was given is not in the log, or because the requested
  session id is malformed; then neither the manager nor the world has changed.
\<close>

theorem failed_operation_is_noop:
  assumes "reachable s w" and "exec_op op s w = Some (Inl err, s', w')" and "\<forall>p. err \<noteq> FileExists p"
  shows "s' = s \<and> w' = w \<and>
         (err = InvalidSessionId \<or> (\<exists>i. err = EntryNotFound i \<and> i \<notin> eid ` set (getEntries s)))"
proof -
  have wf: "wf_session s" using assms(1) by (rule reachable_wf)
  note idx = index_has [OF wf]
  have app: False if "void (append_body b s0 w) = (Inl err, s', w')" for b s0
    using that assms(3) append_body_error [of b s0 w err s' w'] by (auto dest!: void_InlD)
  show ?thesis
  proof (cases op)
    case (OpLabel k l)
    with assms(2) have "appendLabelChange k l s w = (Inl err, s', w')" by (auto dest!: void_InlD)
    with appendLabelChange_error assms(3) idx [of k] show ?thesis by fastforce
  next
    case (OpBranch i)
    with assms(2) idx [of i] show ?thesis by (auto simp: branch_def split: if_splits)
  next
    case (OpBranchSummary i t d h u)
    with assms(2) idx show ?thesis
      by (auto simp: branchWithSummary_def split: option.splits if_splits dest: app)
  next
    case (OpBranchedSession i)
    with assms(2) obtain "createBranchedSession i s w = Some (Inl err, s', w')" by (auto dest!: void_InlD)
    with createBranchedSession_error [OF wf] show ?thesis by blast
  next
    case (OpNewSession i q)
    with assms(2) show ?thesis by (auto simp: newSession_def split: option.splits if_splits prod.splits)
  qed (use assms(2) in \<open>auto simp: append_defs dest: app\<close>)
qed

theorem failed_operation_is_noop_witness:
  "\<exists>s' w'. exec_op (OpBranch ''nowhere'') (fst demo) (snd demo) = Some (Inl (EntryNotFound ''nowhere''), s', w') \<and>
     s' = fst demo \<and> w' = snd demo"
proof -
  have "\<not> jm_has (sm_byId (fst demo)) ''nowhere''" by code_simp
  then have "exec_op (OpBranch ''nowhere'') (fst demo) (snd demo) =
      Some (Inl (EntryNotFound ''nowhere''), fst demo, snd demo)"
    by (simp add: branch_def)
  with failed_operation_is_noop [OF demo_reachable this] show ?thesis by blast
qed

section \<open>The session file\<close>

text \<open>
  C9. Once the conversation holds an assistant message, the file of a persisted session is
  exactly the log: the header and every entry, one line each, in order.
\<close>

theorem file_mirrors_log:
  assumes "reachable s w" and "sm_persist s" and "sm_sessionFile s = Some p" and "hasAssistant (sm_fileEntries s)"
  shows "w_files w p = Some (map uncook (sm_fileEntries s))"
  using reachable_inv [OF assms(1)] assms(2-4) by (auto simp: sm_inv_def file_synced_def split: if_splits)

theorem file_mirrors_log_witness:
  "\<exists>p. sm_sessionFile (fst demo) = Some p \<and> w_files (snd demo) p = Some (map uncook (sm_fileEntries (fst demo)))"
proof -
  have "sm_persist (fst demo)" "sm_sessionFile (fst demo) = Some (SessionFileOf ''/sessions'' 0 [])"
      "hasAssistant (sm_fileEntries (fst demo))"
    by code_simp+
  with file_mirrors_log [OF demo_reachable] show ?thesis by blast
qed

text \<open>
  C8. Reopening the file of a flushed session restores it: the same log, the same entry and
  label indexes, the same branch of every entry; only the position moves to the last entry of
  the log. Opening changes nothing on disk.
\<close>

theorem reopen_restores_session:
  assumes "reachable s w" and "sm_persist s" and "sm_sessionFile s = Some p" and "sm_flushed s"
  shows "\<exists>s1. open_session p cwd dir w = (Inr (), s1, w) \<and> sm_sessionId s1 = sm_sessionId s \<and>
           sm_fileEntries s1 = sm_fileEntries s \<and> sm_byId s1 = sm_byId s \<and> sm_labelsById s1 = sm_labelsById s \<and>
           sm_leafId s1 = last_id (getEntries s) \<and> (\<forall>i. getBranch s1 (Some i) = getBranch s (Some i))"
proof -
  have inv: "wf_session s" "headed s" "file_synced s w" using reachable_inv [OF assms(1)] by (auto simp: sm_inv_def)
  then have "w_files w p = Some (map uncook (sm_fileEntries s))"
    using assms(2-4) by (auto simp: file_synced_def)
  from setSessionFile_reload [OF inv(2,1) this, of "blank_manager cwd dir True"] show ?thesis
    by (auto simp: open_session_def last_id_def getBranch_def cong: option.case_cong)
qed

theorem reopen_restores_session_witness:
  "\<exists>s1 p. open_session p ''/tmp'' ''/sessions'' (snd demo) = (Inr (), s1, snd demo) \<and>
     sm_fileEntries s1 = sm_fileEntries (fst demo) \<and> sm_leafId s1 = Some ''aaabbbbb''"
proof -
  have "sm_persist (fst demo)" "sm_sessionFile (fst demo) = Some (SessionFileOf ''/sessions'' 0 [])"
      "sm_flushed (fst demo)"
    by code_simp+
  moreover have "last_id (getEntries (fst demo)) = Some ''aaabbbbb''" by code_simp
  ultimately show ?thesis using reopen_restores_session [OF demo_reachable, of _ "''/tmp''" "''/sessions''"] by metis
qed

text \<open>
  C9. The indexes kept incrementally are those \<open>_buildIndex\<close> computes from scratch: rebuilding a
  reachable manager changes nothing but the position, which goes to the end of the log.
\<close>

theorem rebuild_changes_only_leaf:
  assumes "reachable s w"
  shows "buildIndex s = s\<lparr>sm_leafId := last_id (getEntries s)\<rparr>"
proof -
  have wf: "wf_session s" using assms by (rule reachable_wf)
  then have "sm_labelsById s = fst (label_maps (getEntries s))"
      "sm_labelTimestampsById s = snd (label_maps (getEntries s))" "sm_byId s = entry_index (getEntries s)"
    by (metis wf_session_def fst_conv, metis wf_session_def snd_conv, simp add: wf_session_def)
  with wf show ?thesis by (simp add: buildIndex_eq wf_session_def last_id_def)
qed

theorem rebuild_changes_only_leaf_witness:
  "buildIndex (fst demo) = (fst demo)\<lparr>sm_leafId := Some ''aaabbbbb''\<rparr>"
proof -
  have "last_id (getEntries (fst demo)) = Some ''aaabbbbb''" by code_simp
  with rebuild_changes_only_leaf [OF demo_reachable] show ?thesis by simp
qed

section \<open>Labels and branches\<close>

text \<open>
  The label shown for an entry is the one of the last label entry of the log that targets
  it; a last label entry without text clears it.
\<close>

theorem label_is_last_written:
  assumes "reachable s w"
  shows "getLabel s i = logged_label (getEntries s) i"
proof -
  have "sm_labelsById s = fst (label_maps (getEntries s))"
    using reachable_wf [OF assms] by (metis wf_session_def fst_conv)
  then show ?thesis by (simp add: getLabel_def label_maps_logged)
qed

theorem label_is_last_written_witness:
  "getLabel (fst demo) ''bbbbbbbb'' = Some ''start''"
proof -
  have "logged_label (getEntries (fst demo)) ''bbbbbbbb'' = Some ''start''" by code_simp
  with label_is_last_written [OF demo_reachable] show ?thesis by simp
qed

text \<open>
  Extracting a branch keeps the labels: every entry of the new session that is no label
  shows there the label it had in the old session.
\<close>

theorem extracted_branch_keeps_labels:
  assumes "reachable s w" and "createBranchedSession i s w = Some (Inr r, s', w')"
    and "e \<in> set (getEntries s')" and "\<not> is_label (body e)"
  shows "getLabel s' (eid e) = getLabel s (eid e)"
  using assms(2)
proof (rule createBranchedSession_result)
  fix path newId t h es w2 w3 s1
  assume b: "branched_entries s path w2 = (es, w3)"
    and s1: "s1 = s\<lparr>sm_fileEntries := FHeader h # map FEntry es, sm_sessionId := newId\<rparr>"
    and res: "if sm_persist s then
      s' = (buildIndex (s1\<lparr>sm_sessionFile := Some (SessionFileOf (sm_sessionDir s) t newId)\<rparr>))
             \<lparr>sm_flushed := hasAssistant (map FEntry es)\<rparr> \<and>
      w' = (if hasAssistant (map FEntry es)
            then w3\<lparr>w_files := (w_files w3)(SessionFileOf (sm_sessionDir s) t newId \<mapsto> map uncook (FHeader h # map FEntry es))\<rparr>
            else w3)
      else s' = buildIndex s1 \<and> w' = w3"
  have wf: "wf_session s" and wf': "wf_session s'"
    using reachable_inv [OF assms(1)] createBranchedSession_inv [OF _ assms(2)] by (auto simp: sm_inv_def)
  have es: "getEntries s' = es"
    using res by (auto simp: s1 getEntries_def buildIndex_def foldl_index_step split: if_splits)
  have "getLabel s' (eid e) = jm_get (fst (label_maps es)) (eid e)"
    using wf' es by (metis getLabel_def wf_session_def fst_conv)
  also have "\<dots> = getLabel s (eid e)"
    using branched_entries_labels [OF wf b] assms(3,4) es by (simp add: getLabel_def)
  finally show ?thesis .
qed

definition demo_extracted :: "(sm_error + session_path option) \<times> session_manager \<times> world" where
  "demo_extracted = the (createBranchedSession ''aabbbbbb'' (fst demo) (snd demo))"

theorem extracted_branch_keeps_labels_witness:
  "\<exists>e r s' w'. createBranchedSession ''aabbbbbb'' (fst demo) (snd demo) = Some (Inr r, s', w') \<and>
     e \<in> set (getEntries s') \<and> eid e = ''bbbbbbbb'' \<and> getLabel s' (eid e) = Some ''start''"
proof -
  let ?x = "createBranchedSession ''aabbbbbb'' (fst demo) (snd demo)"
  have "case ?x of Some (Inr r, s', w') \<Rightarrow>
      (case getEntries s' of e # _ \<Rightarrow> eid e = ''bbbbbbbb'' \<and> \<not> is_label (body e) | [] \<Rightarrow> False) | _ \<Rightarrow> False"
    by code_simp
  then obtain r s' w' e es where x: "?x = Some (Inr r, s', w')" "getEntries s' = e # es"
      "eid e = ''bbbbbbbb''" "\<not> is_label (body e)"
    by (cases ?x) (auto split: option.split_asm prod.split_asm sum.split_asm list.split_asm)
  have "getLabel (fst demo) ''bbbbbbbb'' = Some ''start''" by code_simp
  with extracted_branch_keeps_labels [OF demo_reachable x(1) _ x(4)] x show ?thesis by auto
qed

section \<open>The tree view\<close>

text \<open>
  The tree view of a reachable session shows every entry exactly once: the roots together
  with the children of all nodes are the ids of the log, without repetition, and the children of a
  node are the entries that name it as parent.
\<close>

theorem tree_partitions_log:
  assumes "reachable s w"
  shows "mset (fst (getTree s) @ concat (map (\<lambda>(k, n). tn_children n) (snd (getTree s)))) =
           mset (map eid (getEntries s))"
proof -
  have dist: "distinct (map eid (getEntries s))"
    using reachable_wf [OF assms] by (simp add: wf_session_def wf_log_distinct)
  then have "snd (getTree s) = map (\<lambda>e. (eid e, node_of s e)) (getEntries s)"
    by (simp add: getTree_def foldl_jm_set_distinct)
  then have "mset (concat (map (\<lambda>(k, n). tn_children n) (snd (getTree s)))) =
      image_mset eid (mset (filter (\<lambda>e. tree_parent s e \<noteq> None) (getEntries s)))"
    unfolding tree_parent_Some by (simp add: comp_def mset_node_children children_mset [OF dist])
  then show ?thesis
    by (simp add: getTree_def tree_roots_def flip: image_mset_union)
qed

theorem tree_partitions_log_witness:
  "mset (fst (getTree (fst demo)) @ concat (map (\<lambda>(k, n). tn_children n) (snd (getTree (fst demo))))) =
     {#''bbbbbbbb'', ''abbbbbbb'', ''aabbbbbb'', ''aaabbbbb''#}"
  unfolding tree_partitions_log [OF demo_reachable] demo_ids by simp

section \<open>Old and damaged logs\<close>

text \<open>
  Migrating a log of version 1 turns it into a chain: every entry gets an id and names the
  entry before it as parent, no line is lost, and a compaction that pointed to a line at or before
  its own by index points to the id of that line.
\<close>

theorem migration_builds_chain:
  assumes "migrateToCurrentVersion rnd n es = (migrated, es', n')" and "raw_version es < 2"
  shows "migrated \<and> chained None (cooked es') \<and> length es' = length es \<and>
         (\<forall>i k e c t. i < length es \<longrightarrow> es ! i = RawEntry e \<longrightarrow> re_body e = RawCompaction c (Some k) \<longrightarrow>
            k \<le> i \<longrightarrow> es' ! k = RawEntry t \<longrightarrow>
            (\<exists>e'. es' ! i = RawEntry e' \<and> re_body e' = RawCompaction (c\<lparr>ce_firstKeptEntryId := re_id t\<rparr>) None))"
proof -
  obtain es1 n1 where m: "migrateV1ToV2 rnd n es = (es1, n1)" by (meson surj_pair)
  have es': "es' = migrateV2ToV3 es1" and mig: migrated
    using assms m by (auto simp: migrateToCurrentVersion_def CURRENT_SESSION_VERSION_def Let_def)
  have loop: "migrateV1ToV2_loop rnd n None [] es = (es1, n1)" using m by (simp add: migrateV1ToV2_def)
  have "chained None (cooked (fst (migrateV1ToV2_loop rnd n None [] es)))"
    by (rule migrateV1ToV2_loop_chained) auto
  then have chain: "chained None (cooked es')" by (simp add: loop es' migrateV2ToV3_cooked)
  have len: "length es1 = length es" by (rule migrateV1ToV2_loop_result(1) [OF loop])
  have comp: "\<exists>e'. es' ! i = RawEntry e' \<and> re_body e' = RawCompaction (c\<lparr>ce_firstKeptEntryId := re_id t\<rparr>) None"
    if i: "i < length es" "es ! i = RawEntry e" "re_body e = RawCompaction c (Some k)" "k \<le> i" and k: "es' ! k = RawEntry t"
    for i k e c t
  proof -
    obtain t1 where t1: "es1 ! k = RawEntry t1" "re_id t1 = re_id t"
      using k migrateV2ToV3_id [of k es1 t] i(1,4) len es' by auto
    from migrateV1ToV2_loop_result(2) [OF loop i t1(1)] t1(2) obtain e1 where
      "es1 ! i = RawEntry e1" "re_body e1 = RawCompaction (c\<lparr>ce_firstKeptEntryId := re_id t\<rparr>) None" by metis
    then show ?thesis using migrateV2ToV3_nth [of i es1] i(1) len es' by simp
  qed
  have "length es' = length es" using len es' by (simp add: migrateV2ToV3_def)
  then show ?thesis
    by (intro conjI allI impI mig chain) (assumption | rule comp)+
qed

definition v1_uuids :: "nat \<Rightarrow> string" where
  "v1_uuids n = replicate 9 CHR ''a'' @ replicate n CHR ''b''"

definition v1_entry :: "raw_body \<Rightarrow> raw_file_entry" where
  "v1_entry b = RawEntry \<lparr>re_id = None, re_parentId = None, re_timestamp = 0, re_body = b\<rparr>"

definition v1_compaction :: compaction_data where
  "v1_compaction = \<lparr>ce_summary = ''S'', ce_firstKeptEntryId = None, ce_tokensBefore = 9, ce_details = None,
                    ce_usage = None, ce_fromHook = False\<rparr>"

definition v1_log :: "raw_file_entry list" where
  "v1_log = [v1_entry (RawBody (EMessage demo_user)), v1_entry (RawCompaction v1_compaction (Some 0))]"

theorem migration_builds_chain_witness:
  "\<exists>es' n' e'. migrateToCurrentVersion v1_uuids 0 v1_log = (True, es', n') \<and> chained None (cooked es') \<and>
     es' ! 1 = RawEntry e' \<and> re_body e' = RawCompaction (v1_compaction\<lparr>ce_firstKeptEntryId := Some ''aaaaaaaa''\<rparr>) None"
proof -
  have "case migrateToCurrentVersion v1_uuids 0 v1_log of (b, es', n') \<Rightarrow>
      b \<and> (case es' ! 0 of RawEntry t \<Rightarrow> re_id t = Some ''aaaaaaaa'' | _ \<Rightarrow> False)" by code_simp
  then obtain es' n' t where x: "migrateToCurrentVersion v1_uuids 0 v1_log = (True, es', n')"
      "es' ! 0 = RawEntry t" "re_id t = Some ''aaaaaaaa''"
    by (auto split: prod.splits raw_file_entry.splits)
  have "raw_version v1_log < 2" by code_simp
  note res = migration_builds_chain [OF x(1) this]
  let ?e = "\<lparr>re_id = None, re_parentId = None, re_timestamp = 0, re_body = RawCompaction v1_compaction (Some 0)\<rparr>"
  have "1 < length v1_log" "v1_log ! 1 = RawEntry ?e" by (simp_all add: v1_log_def v1_entry_def)
  with res x(2) obtain e' where e': "es' ! 1 = RawEntry e'"
      "re_body e' = RawCompaction (v1_compaction\<lparr>ce_firstKeptEntryId := re_id t\<rparr>) None"
    by (metis raw_entry.select_convs(4) zero_le)
  from res have "chained None (cooked es')" by blast
  show ?thesis
    by (intro exI conjI, rule x(1), rule \<open>chained None (cooked es')\<close>, rule e'(1), simp add: e'(2) x(3))
qed

text \<open>
  The migration draws ids without looking at those already given: two entries whose UUIDs
  agree in the first eight characters get the same id, for a source of pairwise distinct UUIDs.
\<close>

theorem migration_may_repeat_ids:
  "inj v1_uuids \<and>
   map eid (cooked (fst (migrateV1ToV2 v1_uuids 0 v1_log))) = [''aaaaaaaa'', ''aaaaaaaa'']"
proof
  show "inj v1_uuids" by (auto simp: v1_uuids_def inj_def)
  show "map eid (cooked (fst (migrateV1ToV2 v1_uuids 0 v1_log))) = [''aaaaaaaa'', ''aaaaaaaa'']" by code_simp
qed

text \<open>
  On a log with an entry that names itself as parent, walking to the root never returns, while
  the tree view shows that entry as a root.
\<close>

theorem self_parent_hangs_walk:
  assumes "jm_get (sm_byId s) i = Some e" and "eid e = i" and "i \<noteq> []" and "parentId e = Some i"
    and "e \<in> set (getEntries s)"
  shows "getBranch s (Some i) = None \<and> i \<in> set (fst (getTree s))"
proof -
  have "parent_of (sm_byId s) e = Some e" using assms(1-4) by (simp add: parent_of_def)
  then have "walk_up (parent_of (sm_byId s)) e [] = None" by (rule self_parent_diverges)
  moreover have "tree_parent s e = None" using assms(2,4) by (simp add: tree_parent_def)
  ultimately show ?thesis using assms by (auto simp: getBranch_def getTree_def tree_roots_def)
qed

definition loop_file :: "file_line list" where
  "loop_file =
     [LineEntry (RawHeader \<lparr>sh_version = Some 3, sh_id = ''s'', sh_timestamp = 0, sh_cwd = ''/'', sh_parentSession = None\<rparr>),
      LineEntry (RawEntry \<lparr>re_id = Some ''x'', re_parentId = Some ''x'', re_timestamp = 0, re_body = RawBody (EMessage demo_user)\<rparr>)]"

definition loop_session :: session_manager where
  "loop_session = fst (snd (open_session (ExplicitPath ''f'') ''/'' ''/''
     (demo_world\<lparr>w_files := (\<lambda>_. Some loop_file)\<rparr>)))"

theorem self_parent_hangs_walk_witness:
  "getBranch loop_session (Some ''x'') = None \<and> ''x'' \<in> set (fst (getTree loop_session))"
proof -
  let ?e = "\<lparr>eid = ''x'', parentId = Some ''x'', timestamp = 0, body = EMessage demo_user\<rparr>"
  have "case jm_get (sm_byId loop_session) ''x'' of
      Some e \<Rightarrow> eid e = ''x'' \<and> parentId e = Some ''x'' \<and> (case getEntries loop_session of [e'] \<Rightarrow> e' = e | _ \<Rightarrow> False)
    | None \<Rightarrow> False"
    by code_simp
  then obtain e where "jm_get (sm_byId loop_session) ''x'' = Some e" "eid e = ''x''" "parentId e = Some ''x''"
      "e \<in> set (getEntries loop_session)"
    by (auto split: option.splits list.splits)
  with self_parent_hangs_walk [of loop_session "''x''" e] show ?thesis by simp
qed

end
