(* ===== verification/File_Ops.thy ===== *)
theory File_Ops
  imports Session_Context "HOL-Library.List_Lexorder" "HOL-Library.Char_ord"
begin

text \<open>
  What both kinds of summaries share (\<open>src/core/compaction/utils.ts\<close>): the files a
  conversation read and modified, their rendering, and the serialisation of a conversation
  to text. A JavaScript \<open>Set\<close> is the list of its elements in insertion order.
\<close>

section \<open>Tracking file operations\<close>

definition set_add :: "'a \<Rightarrow> 'a list \<Rightarrow> 'a list" where
  "set_add x xs = (if x \<in> set xs then xs else xs @ [x])"

lemma set_set_add [simp]: "set (set_add x xs) = insert x (set xs)"
  by (auto simp: set_add_def)

lemma distinct_set_add: "distinct xs \<Longrightarrow> distinct (set_add x xs)"
  by (auto simp: set_add_def)

definition set_add_all :: "'a list \<Rightarrow> 'a list \<Rightarrow> 'a list" where
  "set_add_all ys xs = foldl (\<lambda>acc y. set_add y acc) xs ys"

lemma set_add_all_simps [simp]:
  "set_add_all [] xs = xs" "set_add_all (y # ys) xs = set_add_all ys (set_add y xs)"
  by (simp_all add: set_add_all_def)

lemma set_set_add_all [simp]: "set (set_add_all ys xs) = set xs \<union> set ys"
  by (induction ys arbitrary: xs) auto

lemma distinct_set_add_all: "distinct xs \<Longrightarrow> distinct (set_add_all ys xs)"
  by (induction ys arbitrary: xs) (auto simp: distinct_set_add)

record file_operations =
  fo_read :: "string list"
  fo_written :: "string list"
  fo_edited :: "string list"

definition createFileOps :: file_operations where
  "createFileOps = \<lparr>fo_read = [], fo_written = [], fo_edited = []\<rparr>"

definition record_call :: "string \<Rightarrow> string \<Rightarrow> file_operations \<Rightarrow> file_operations" where
  "record_call name path ops =
     (if name = ''read'' then ops\<lparr>fo_read := set_add path (fo_read ops)\<rparr>
      else if name = ''write'' then ops\<lparr>fo_written := set_add path (fo_written ops)\<rparr>
      else if name = ''edit'' then ops\<lparr>fo_edited := set_add path (fo_edited ops)\<rparr>
      else ops)"

fun block_file_op :: "block \<Rightarrow> file_operations \<Rightarrow> file_operations" where
  "block_file_op (ToolCallBlock i name args) ops =
     (case truthy_str (json_string (jm_get args ''path'')) of
        None \<Rightarrow> ops
      | Some path \<Rightarrow> record_call name path ops)"
| "block_file_op _ ops = ops"

fun extractFileOpsFromMessage :: "agent_message \<Rightarrow> file_operations \<Rightarrow> file_operations" where
  "extractFileOpsFromMessage (Assistant a) ops =
     (case am_content a of
        None \<Rightarrow> ops
      | Some bs \<Rightarrow> foldl (\<lambda>acc b. block_file_op b acc) ops bs)"
| "extractFileOpsFromMessage _ ops = ops"

definition extract_all :: "agent_message list \<Rightarrow> file_operations \<Rightarrow> file_operations" where
  "extract_all ms ops = foldl (\<lambda>acc m. extractFileOpsFromMessage m acc) ops ms"

text \<open>\<open>[...fileOps.read].filter(f => !modified.has(f)).sort()\<close>: the default order of strings.\<close>

definition computeFileLists :: "file_operations \<Rightarrow> string list \<times> string list" where
  "computeFileLists ops =
     (let modified = set_add_all (fo_edited ops @ fo_written ops) [];
          readOnly = sort (filter (\<lambda>f. f \<notin> set modified) (fo_read ops))
      in (readOnly, sort modified))"

definition formatFileOperations :: "string list \<Rightarrow> string list \<Rightarrow> string" where
  "formatFileOperations readFiles modifiedFiles =
     (let sections =
        (if readFiles \<noteq> [] then [''<read-files>'' @ nl @ join_with nl readFiles @ nl @ ''</read-files>''] else [])
        @ (if modifiedFiles \<noteq> []
           then [''<modified-files>'' @ nl @ join_with nl modifiedFiles @ nl @ ''</modified-files>''] else [])
      in if sections = [] then [] else nl @ nl @ join_with (nl @ nl) sections)"

text \<open>A details object read back from the log: \<open>Array.isArray(details.k)\<close> and its strings.\<close>

definition detail_files :: "json \<Rightarrow> string \<Rightarrow> string list" where
  "detail_files d k =
     (case d of
        JObj kvs \<Rightarrow>
          (case map_of kvs k of
             Some (JArr xs) \<Rightarrow> List.map_filter (\<lambda>j. json_string (Some j)) xs
           | _ \<Rightarrow> [])
      | _ \<Rightarrow> [])"

definition details_json :: "string list \<Rightarrow> string list \<Rightarrow> json" where
  "details_json readFiles modifiedFiles =
     JObj [(''readFiles'', JArr (map JStr readFiles)), (''modifiedFiles'', JArr (map JStr modifiedFiles))]"

text \<open>The details a summary stores are the ones the next summary reads.\<close>

lemma detail_files_roundtrip:
  "detail_files (details_json rs ms) ''readFiles'' = rs"
  "detail_files (details_json rs ms) ''modifiedFiles'' = ms"
proof -
  have "List.map_filter (\<lambda>j. json_string (Some j)) (map JStr xs) = xs" for xs
    by (induction xs) (auto simp: List.map_filter_def)
  then show "detail_files (details_json rs ms) ''readFiles'' = rs"
    and "detail_files (details_json rs ms) ''modifiedFiles'' = ms"
    by (simp_all add: detail_files_def details_json_def)
qed

section \<open>Lemmas on the file lists\<close>

definition ops_distinct :: "file_operations \<Rightarrow> bool" where
  "ops_distinct ops \<longleftrightarrow> distinct (fo_read ops) \<and> distinct (fo_written ops) \<and> distinct (fo_edited ops)"

lemma block_file_op_distinct: "ops_distinct ops \<Longrightarrow> ops_distinct (block_file_op b ops)"
  by (cases b) (auto simp: ops_distinct_def record_call_def distinct_set_add split: option.split)

lemma extract_message_distinct: "ops_distinct ops \<Longrightarrow> ops_distinct (extractFileOpsFromMessage m ops)"
proof (cases m)
  case (Assistant a)
  have "ops_distinct ops \<Longrightarrow> ops_distinct (foldl (\<lambda>acc b. block_file_op b acc) ops bs)" for ops bs
    by (induction bs arbitrary: ops) (auto simp: block_file_op_distinct)
  with Assistant show "ops_distinct ops \<Longrightarrow> ?thesis" by (auto split: option.split)
qed auto

lemma extract_all_distinct: "ops_distinct ops \<Longrightarrow> ops_distinct (extract_all ms ops)"
  unfolding extract_all_def by (induction ms arbitrary: ops) (auto simp: extract_message_distinct)

lemma computeFileLists_sets:
  "computeFileLists ops = (rs, ms) \<Longrightarrow>
     set ms = set (fo_edited ops) \<union> set (fo_written ops) \<and> set rs = set (fo_read ops) - set ms \<and>
     sorted rs \<and> sorted ms \<and> distinct ms"
  by (auto simp: computeFileLists_def Let_def distinct_set_add_all)

lemma computeFileLists_distinct:
  "ops_distinct ops \<Longrightarrow> computeFileLists ops = (rs, ms) \<Longrightarrow> distinct rs"
  by (auto simp: computeFileLists_def Let_def ops_distinct_def)

section \<open>Serialising a conversation\<close>

definition TOOL_RESULT_MAX_CHARS :: nat where
  "TOOL_RESULT_MAX_CHARS = 2000"

definition truncateForSummary :: "string \<Rightarrow> nat \<Rightarrow> string" where
  "truncateForSummary text maxChars =
     (if length text \<le> maxChars then text
      else take maxChars text @ nl @ nl @ ''[... '' @ nat_str (length text - maxChars)
             @ '' more characters truncated]'')"

text \<open>
  \<open>contentText(content, separator)\<close> is a function of the model package: a parameter \<open>ct\<close>,
  with \<open>None\<close> for its default separator.
\<close>

definition render_call :: "string \<Rightarrow> json jsmap \<Rightarrow> string" where
  "render_call name args =
     name @ ''('' @ join_with '', '' (map (\<lambda>(k, v). k @ ''='' @ json_str v) args) @ '')''"

fun thinking_part :: "block \<Rightarrow> string option" where
  "thinking_part (ThinkingBlock t) = Some t"
| "thinking_part _ = None"

fun call_part :: "block \<Rightarrow> string option" where
  "call_part (ToolCallBlock i name args) = Some (render_call name args)"
| "call_part _ = None"

fun is_text_block :: "block \<Rightarrow> bool" where
  "is_text_block (TextBlock _) = True"
| "is_text_block _ = False"

definition serialize_message :: "(string option \<Rightarrow> content \<Rightarrow> string) \<Rightarrow> agent_message \<Rightarrow> string list" where
  "serialize_message ct m =
     (case m of
        User (Some c) t \<Rightarrow>
          (let s = ct (Some []) c in if s \<noteq> [] then [''[User]: '' @ s] else [])
      | Assistant a \<Rightarrow>
          (case am_content a of
             None \<Rightarrow> []
           | Some bs \<Rightarrow>
               (let thinking = List.map_filter thinking_part bs; calls = List.map_filter call_part bs in
                (if thinking \<noteq> [] then [''[Assistant thinking]: '' @ join_with nl thinking] else [])
                @ (if (\<exists>b \<in> set bs. is_text_block b) then [''[Assistant]: '' @ ct None (Blocks bs)] else [])
                @ (if calls \<noteq> [] then [''[Assistant tool calls]: '' @ join_with ''; '' calls] else [])))
      | ToolResult i (Some c) t \<Rightarrow>
          (let s = ct (Some []) c in
           if s \<noteq> [] then [''[Tool result]: '' @ truncateForSummary s TOOL_RESULT_MAX_CHARS] else [])
      | _ \<Rightarrow> [])"

definition serializeConversation :: "(string option \<Rightarrow> content \<Rightarrow> string) \<Rightarrow> agent_message list \<Rightarrow> string" where
  "serializeConversation ct ms = join_with (nl @ nl) (concat (map (serialize_message ct) ms))"

lemma nat_str_length: "length (nat_str n) \<le> Suc n"
proof (induction n rule: nat_str.induct)
  case (1 n)
  show ?case
  proof (cases "n < 10")
    case True
    then show ?thesis by (simp add: nat_str.simps)
  next
    case False
    with 1 have "length (nat_str (n div 10)) \<le> Suc (n div 10)" by simp
    moreover have "Suc (n div 10) \<le> n" using False by simp
    ultimately show ?thesis using False by (subst nat_str.simps) simp
  qed
qed

lemma truncateForSummary_prefix:
  "take (min maxChars (length text)) (truncateForSummary text maxChars) = take maxChars text"
  by (simp add: truncateForSummary_def min_def)

end
