(* ===== verification/Compaction.thy ===== *)
theory Compaction
  imports File_Ops
begin

text \<open>
  Context compaction (\<open>src/core/compaction/compaction.ts\<close>): token estimates, the choice of
  a cut point, the preparation of a compaction and the compaction itself, with the language
  model as a parameter.
\<close>

section \<open>Settings and usage\<close>

record compaction_settings =
  cs_enabled :: bool
  cs_reserveTokens :: nat
  cs_keepRecentTokens :: nat

definition DEFAULT_COMPACTION_SETTINGS :: compaction_settings where
  "DEFAULT_COMPACTION_SETTINGS = \<lparr>cs_enabled = True, cs_reserveTokens = 16384, cs_keepRecentTokens = 20000\<rparr>"

definition add_optional :: "nat option \<Rightarrow> nat option \<Rightarrow> nat option" where
  "add_optional a b =
     (if a = None \<and> b = None then None
      else Some ((case a of None \<Rightarrow> 0 | Some x \<Rightarrow> x) + (case b of None \<Rightarrow> 0 | Some y \<Rightarrow> y)))"

definition combineUsage :: "usage \<Rightarrow> usage \<Rightarrow> usage" where
  "combineUsage a b =
     \<lparr>us_input = us_input a + us_input b, us_output = us_output a + us_output b,
      us_cacheRead = us_cacheRead a + us_cacheRead b, us_cacheWrite = us_cacheWrite a + us_cacheWrite b,
      us_cacheWrite1h = add_optional (us_cacheWrite1h a) (us_cacheWrite1h b),
      us_reasoning = add_optional (us_reasoning a) (us_reasoning b),
      us_totalTokens = us_totalTokens a + us_totalTokens b,
      us_cost = \<lparr>cost_input = cost_input (us_cost a) + cost_input (us_cost b),
                 cost_output = cost_output (us_cost a) + cost_output (us_cost b),
                 cost_cacheRead = cost_cacheRead (us_cost a) + cost_cacheRead (us_cost b),
                 cost_cacheWrite = cost_cacheWrite (us_cost a) + cost_cacheWrite (us_cost b),
                 cost_total = cost_total (us_cost a) + cost_total (us_cost b)\<rparr>\<rparr>"

definition calculateContextTokens :: "usage \<Rightarrow> nat" where
  "calculateContextTokens u =
     (if us_totalTokens u \<noteq> 0 then us_totalTokens u
      else us_input u + us_output u + us_cacheRead u + us_cacheWrite u)"

fun getAssistantUsage :: "agent_message \<Rightarrow> usage option" where
  "getAssistantUsage (Assistant a) =
     (case am_usage a of
        Some u \<Rightarrow>
          if am_stopReason a \<noteq> Aborted \<and> am_stopReason a \<noteq> StopError \<and> calculateContextTokens u > 0
          then Some u else None
      | None \<Rightarrow> None)"
| "getAssistantUsage _ = None"

fun entry_usage :: "entry_body \<Rightarrow> usage option" where
  "entry_usage (EMessage m) = getAssistantUsage m"
| "entry_usage _ = None"

definition getLastAssistantUsage :: "entry list \<Rightarrow> usage option" where
  "getLastAssistantUsage es =
     (case scan_down (\<lambda>i. entry_usage (body (es ! i)) \<noteq> None) 0 (length es) of
        None \<Rightarrow> None
      | Some i \<Rightarrow> entry_usage (body (es ! i)))"

section \<open>Token estimates\<close>

definition ESTIMATED_IMAGE_CHARS :: nat where
  "ESTIMATED_IMAGE_CHARS = 4800"

fun text_or_image_chars :: "block \<Rightarrow> nat" where
  "text_or_image_chars (TextBlock s) = length s"
| "text_or_image_chars (ImageBlock _) = ESTIMATED_IMAGE_CHARS"
| "text_or_image_chars _ = 0"

fun estimateTextAndImageContentChars :: "content \<Rightarrow> nat" where
  "estimateTextAndImageContentChars (Plain s) = length s"
| "estimateTextAndImageContentChars (Blocks bs) = sum_list (map text_or_image_chars bs)"

fun assistant_block_chars :: "block \<Rightarrow> nat" where
  "assistant_block_chars (TextBlock s) = length s"
| "assistant_block_chars (ThinkingBlock s) = length s"
| "assistant_block_chars (ToolCallBlock i name args) = length name + length (json_str (JObj args))"
| "assistant_block_chars (ImageBlock _) = 0"

text \<open>
  A missing \<open>content\<close> makes the estimate throw (a loop over, or the length of, \<open>null\<close>):
  that is \<open>None\<close>.
\<close>

fun message_chars :: "agent_message \<Rightarrow> nat option" where
  "message_chars (User c t) = map_option estimateTextAndImageContentChars c"
| "message_chars (Assistant a) = map_option (\<lambda>bs. sum_list (map assistant_block_chars bs)) (am_content a)"
| "message_chars (Custom m) = map_option estimateTextAndImageContentChars (cm_content m)"
| "message_chars (ToolResult i c t) = map_option estimateTextAndImageContentChars c"
| "message_chars (BashExecution m) = Some (length (bx_command m) + length (bx_output m))"
| "message_chars (BranchSummary s f t) = Some (length s)"
| "message_chars (CompactionSummary s n t) = Some (length s)"

text \<open>\<open>Math.ceil(chars / 4)\<close>.\<close>

definition estimateTokens :: "agent_message \<Rightarrow> nat option" where
  "estimateTokens m = map_option (\<lambda>c. (c + 3) div 4) (message_chars m)"

fun sum_tokens :: "agent_message list \<Rightarrow> nat option" where
  "sum_tokens [] = Some 0"
| "sum_tokens (m # ms) =
     (case estimateTokens m of
        None \<Rightarrow> None
      | Some n \<Rightarrow> map_option (\<lambda>k. n + k) (sum_tokens ms))"

record context_usage =
  cu_tokens :: nat
  cu_usageTokens :: nat
  cu_trailingTokens :: nat
  cu_lastUsageIndex :: "nat option"

definition getLastAssistantUsageInfo :: "agent_message list \<Rightarrow> (usage \<times> nat) option" where
  "getLastAssistantUsageInfo ms =
     (case scan_down (\<lambda>i. getAssistantUsage (ms ! i) \<noteq> None) 0 (length ms) of
        None \<Rightarrow> None
      | Some i \<Rightarrow> map_option (\<lambda>u. (u, i)) (getAssistantUsage (ms ! i)))"

definition estimateContextTokens :: "agent_message list \<Rightarrow> context_usage option" where
  "estimateContextTokens ms =
     (case getLastAssistantUsageInfo ms of
        None \<Rightarrow>
          map_option (\<lambda>n. \<lparr>cu_tokens = n, cu_usageTokens = 0, cu_trailingTokens = n, cu_lastUsageIndex = None\<rparr>)
            (sum_tokens ms)
      | Some (u, i) \<Rightarrow>
          map_option (\<lambda>n. \<lparr>cu_tokens = calculateContextTokens u + n, cu_usageTokens = calculateContextTokens u,
                          cu_trailingTokens = n, cu_lastUsageIndex = Some i\<rparr>)
            (sum_tokens (drop (i + 1) ms)))"

definition shouldCompact :: "nat \<Rightarrow> nat \<Rightarrow> compaction_settings \<Rightarrow> bool" where
  "shouldCompact contextTokens contextWindow settings =
     (if \<not> cs_enabled settings then False
      else int contextTokens > int contextWindow - int (cs_reserveTokens settings))"

section \<open>Cut points\<close>

fun isCutPointMessage :: "agent_message \<Rightarrow> bool" where
  "isCutPointMessage (ToolResult i c t) = False"
| "isCutPointMessage _ = True"

fun isTurnStartMessage :: "agent_message \<Rightarrow> bool" where
  "isTurnStartMessage (Assistant a) = False"
| "isTurnStartMessage (ToolResult i c t) = False"
| "isTurnStartMessage _ = True"

definition isTurnStartEntry :: "entry \<Rightarrow> bool" where
  "isTurnStartEntry e =
     (if is_compaction (body e) then False
      else \<exists>m \<in> set (sessionEntryToContextMessages e). isTurnStartMessage m)"

definition is_cut_entry :: "entry \<Rightarrow> bool" where
  "is_cut_entry e \<longleftrightarrow>
     \<not> is_compaction (body e) \<and> (\<exists>m \<in> set (sessionEntryToContextMessages e). isCutPointMessage m)"

definition findValidCutPoints :: "entry list \<Rightarrow> nat \<Rightarrow> nat \<Rightarrow> nat list" where
  "findValidCutPoints es startIndex endIndex = filter (\<lambda>i. is_cut_entry (es ! i)) [startIndex..<endIndex]"

text \<open>\<open>None\<close> is \<open>-1\<close>.\<close>

definition findTurnStartIndex :: "entry list \<Rightarrow> nat \<Rightarrow> nat \<Rightarrow> nat option" where
  "findTurnStartIndex es entryIndex startIndex =
     scan_down (\<lambda>i. isTurnStartEntry (es ! i)) startIndex (entryIndex + 1)"

record cut_point =
  cp_firstKeptEntryIndex :: nat
  cp_turnStartIndex :: "nat option"
  cp_isSplitTurn :: bool

text \<open>The \<open>reduce\<close> over the messages of an entry; \<open>None\<close> when an estimate throws.\<close>

definition entry_tokens :: "entry \<Rightarrow> nat option" where
  "entry_tokens e = sum_tokens (sessionEntryToContextMessages e)"

text \<open>The walk back from the newest entry; the last argument is the loop index plus one.\<close>

fun cut_walk :: "entry list \<Rightarrow> nat \<Rightarrow> nat \<Rightarrow> nat list \<Rightarrow> nat \<Rightarrow> nat \<Rightarrow> nat \<Rightarrow> nat option" where
  "cut_walk es startIndex keep cutPoints cutIndex acc 0 = Some cutIndex"
| "cut_walk es startIndex keep cutPoints cutIndex acc (Suc i) =
     (if i < startIndex then Some cutIndex
      else
        (case entry_tokens (es ! i) of
           None \<Rightarrow> None
         | Some t \<Rightarrow>
             if t = 0 then cut_walk es startIndex keep cutPoints cutIndex acc i
             else if acc + t \<ge> keep then
               Some (case find (\<lambda>c. c \<ge> i) cutPoints of Some c \<Rightarrow> c | None \<Rightarrow> cutIndex)
             else cut_walk es startIndex keep cutPoints cutIndex (acc + t) i))"

text \<open>\<open>while (cutIndex > startIndex)\<close>: include the metadata entries right before the cut.\<close>

definition is_metadata :: "entry \<Rightarrow> bool" where
  "is_metadata e \<longleftrightarrow> \<not> (is_compaction (body e) \<or> sessionEntryToContextMessages e \<noteq> [])"

fun skip_metadata :: "entry list \<Rightarrow> nat \<Rightarrow> nat \<Rightarrow> nat" where
  "skip_metadata es startIndex 0 = 0"
| "skip_metadata es startIndex (Suc i) =
     (if Suc i > startIndex then
        (if is_metadata (es ! i) then skip_metadata es startIndex i else Suc i)
      else Suc i)"

definition findCutPoint :: "entry list \<Rightarrow> nat \<Rightarrow> nat \<Rightarrow> nat \<Rightarrow> cut_point option" where
  "findCutPoint es startIndex endIndex keepRecentTokens =
     (case findValidCutPoints es startIndex endIndex of
        [] \<Rightarrow> Some \<lparr>cp_firstKeptEntryIndex = startIndex, cp_turnStartIndex = None, cp_isSplitTurn = False\<rparr>
      | c0 # cps \<Rightarrow>
          map_option
            (\<lambda>c. let cutIndex = skip_metadata es startIndex c;
                     startsTurn = isTurnStartEntry (es ! cutIndex);
                     turnStartIndex = (if startsTurn then None else findTurnStartIndex es cutIndex startIndex)
                 in \<lparr>cp_firstKeptEntryIndex = cutIndex, cp_turnStartIndex = turnStartIndex,
                     cp_isSplitTurn = (\<not> startsTurn \<and> turnStartIndex \<noteq> None)\<rparr>)
            (cut_walk es startIndex keepRecentTokens (c0 # cps) c0 0 endIndex))"

section \<open>Preparation\<close>

definition getMessageFromEntryForCompaction :: "entry \<Rightarrow> agent_message option" where
  "getMessageFromEntryForCompaction e =
     (if is_compaction (body e) then None
      else (case sessionEntryToContextMessages e of [] \<Rightarrow> None | m # _ \<Rightarrow> Some m))"

definition extractFileOperations :: "agent_message list \<Rightarrow> entry list \<Rightarrow> nat option \<Rightarrow> file_operations" where
  "extractFileOperations messages es prevCompactionIndex =
     extract_all messages
       (case prevCompactionIndex of
          None \<Rightarrow> createFileOps
        | Some i \<Rightarrow>
            (case body (es ! i) of
               ECompaction c \<Rightarrow>
                 (case ce_details c of
                    Some d \<Rightarrow>
                      if \<not> ce_fromHook c then
                        createFileOps\<lparr>fo_read := set_add_all (detail_files d ''readFiles'') [],
                                      fo_edited := set_add_all (detail_files d ''modifiedFiles'') []\<rparr>
                      else createFileOps
                  | None \<Rightarrow> createFileOps)
             | _ \<Rightarrow> createFileOps))"

record compaction_preparation =
  pr_firstKeptEntryId :: string
  pr_messagesToSummarize :: "agent_message list"
  pr_turnPrefixMessages :: "agent_message list"
  pr_isSplitTurn :: bool
  pr_tokensBefore :: nat
  pr_previousSummary :: "string option"
  pr_fileOps :: file_operations
  pr_settings :: compaction_settings

definition messages_between :: "entry list \<Rightarrow> nat \<Rightarrow> nat \<Rightarrow> agent_message list" where
  "messages_between es lo hi =
     List.map_filter (\<lambda>i. getMessageFromEntryForCompaction (es ! i)) [lo..<hi]"

definition previous_compaction :: "entry list \<Rightarrow> nat option" where
  "previous_compaction es = scan_down (\<lambda>i. is_compaction (body (es ! i))) 0 (length es)"

definition boundary_start :: "entry list \<Rightarrow> nat" where
  "boundary_start es =
     (case previous_compaction es of
        None \<Rightarrow> 0
      | Some i \<Rightarrow>
          (case body (es ! i) of
             ECompaction c \<Rightarrow>
               (case find_index (\<lambda>e. Some (eid e) = ce_firstKeptEntryId c) es of
                  Some k \<Rightarrow> k
                | None \<Rightarrow> i + 1)
           | _ \<Rightarrow> i + 1))"

definition previous_summary :: "entry list \<Rightarrow> string option" where
  "previous_summary es =
     (case previous_compaction es of
        None \<Rightarrow> None
      | Some i \<Rightarrow> (case body (es ! i) of ECompaction c \<Rightarrow> Some (ce_summary c) | _ \<Rightarrow> None))"

text \<open>
  The outer \<open>None\<close> is a call that gives no result (the walk over parent links of
  \<open>buildSessionContext\<close> diverges, or an estimate throws); the inner one is \<open>undefined\<close>,
  nothing to compact.
\<close>

definition prepareCompaction :: "entry list \<Rightarrow> compaction_settings \<Rightarrow> compaction_preparation option option" where
  "prepareCompaction es settings =
     (if es \<noteq> [] \<and> is_compaction (body (last es)) then Some None
      else
        (let boundaryStart = boundary_start es; boundaryEnd = length es in
         case buildSessionContext es LeafUndefined None of
           None \<Rightarrow> None
         | Some ctx \<Rightarrow>
             (case estimateContextTokens (sc_messages ctx) of
                None \<Rightarrow> None
              | Some usage \<Rightarrow>
                 (case findCutPoint es boundaryStart boundaryEnd (cs_keepRecentTokens settings) of
                    None \<Rightarrow> None
                  | Some cutPoint \<Rightarrow>
                  (let k = cp_firstKeptEntryIndex cutPoint
                   in if k \<ge> length es \<or> eid (es ! k) = [] then Some None
                      else
                        (let historyEnd = (case cp_turnStartIndex cutPoint of
                                             Some t \<Rightarrow> if cp_isSplitTurn cutPoint then t else k
                                           | None \<Rightarrow> k);
                             messagesToSummarize = messages_between es boundaryStart historyEnd;
                             turnPrefixMessages = (if cp_isSplitTurn cutPoint then messages_between es historyEnd k else [])
                         in if messagesToSummarize = [] \<and> turnPrefixMessages = [] then Some None
                            else Some (Some
                              \<lparr>pr_firstKeptEntryId = eid (es ! k), pr_messagesToSummarize = messagesToSummarize,
                               pr_turnPrefixMessages = turnPrefixMessages, pr_isSplitTurn = cp_isSplitTurn cutPoint,
                               pr_tokensBefore = cu_tokens usage, pr_previousSummary = previous_summary es,
                               pr_fileOps =
                                 (let ops = extractFileOperations messagesToSummarize es (previous_compaction es) in
                                  if cp_isSplitTurn cutPoint then extract_all turnPrefixMessages ops else ops),
                               pr_settings = settings\<rparr>)))))))"

end
