(* ===== verification/Summarization.thy ===== *)
theory Summarization
  imports Prelude Compaction
begin

text \<open>
  The summaries a language model writes for a compaction (\<open>generateSummaryWithUsage\<close>,
  \<open>generateTurnPrefixSummary\<close> and \<open>compact\<close> of \<open>src/core/compaction/compaction.ts\<close>).
  The model call and its retries belong to packages outside the repository: they are the
  parameter \<open>call\<close>, a function from the request to the response, \<open>None\<close> when it throws.
  \<open>ct\<close> is their \<open>contentText\<close>.
\<close>

text \<open>
  The prompt texts of the summarisation calls (\<open>src/core/compaction/utils.ts\<close>,
  \<open>compaction.ts\<close> and \<open>branch-summarization.ts\<close>), line by line.
\<close>

definition SUMMARIZATION_SYSTEM_PROMPT :: string where
  "SUMMARIZATION_SYSTEM_PROMPT = join_with nl
    [''You are a context summarization assistant. Your task is to read a conversation between a user and an AI assistant, then produce a structured summary following the exact format specified.'',
     [],
     ''Do NOT continue the conversation. Do NOT respond to any questions in the conversation. ONLY output the structured summary.'']"

definition SUMMARIZATION_PROMPT :: string where
  "SUMMARIZATION_PROMPT = join_with nl
    [''The messages above are a conversation to summarize. Create a structured context checkpoint summary that another LLM will use to continue the work.'',
     [],
     ''Use this EXACT format:'',
     [],
     ''## Goal'',
     ''[What is the user trying to accomplish? Can be multiple items if the session covers different tasks.]'',
     [],
     ''## Constraints & Preferences'',
     ''- [Any constraints, preferences, or requirements mentioned by user]'',
     ''- [Or '' @ [CHR 0x22] @ ''(none)'' @ [CHR 0x22] @ '' if none were mentioned]'',
     [],
     ''## Progress'',
     ''### Done'',
     ''- [x] [Completed tasks/changes]'',
     [],
     ''### In Progress'',
     ''- [ ] [Current work]'',
     [],
     ''### Blocked'',
     ''- [Issues preventing progress, if any]'',
     [],
     ''## Key Decisions'',
     ''- **[Decision]**: [Brief rationale]'',
     [],
     ''## Next Steps'',
     ''1. [Ordered list of what should happen next]'',
     [],
     ''## Critical Context'',
     ''- [Any data, examples, or references needed to continue]'',
     ''- [Or '' @ [CHR 0x22] @ ''(none)'' @ [CHR 0x22] @ '' if not applicable]'',
     [],
     ''Keep each section concise. Preserve exact file paths, function names, and error messages.'']"

definition UPDATE_SUMMARIZATION_PROMPT :: string where
  "UPDATE_SUMMARIZATION_PROMPT = join_with nl
    [''The messages above are NEW conversation messages to incorporate into the existing summary provided in <previous-summary> tags.'',
     [],
     ''Update the existing structured summary with new information. RULES:'',
     ''- PRESERVE all existing information from the previous summary'',
     ''- ADD new progress, decisions, and context from the new messages'',
     ''- UPDATE the Progress section: move items from '' @ [CHR 0x22] @ ''In Progress'' @ [CHR 0x22] @ '' to '' @ [CHR 0x22] @ ''Done'' @ [CHR 0x22] @ '' when completed'',
     ''- UPDATE '' @ [CHR 0x22] @ ''Next Steps'' @ [CHR 0x22] @ '' based on what was accomplished'',
     ''- PRESERVE exact file paths, function names, and error messages'',
     ''- If something is no longer relevant, you may remove it'',
     [],
     ''Use this EXACT format:'',
     [],
     ''## Goal'',
     ''[Preserve existing goals, add new ones if the task expanded]'',
     [],
     ''## Constraints & Preferences'',
     ''- [Preserve existing, add new ones discovered]'',
     [],
     ''## Progress'',
     ''### Done'',
     ''- [x] [Include previously done items AND newly completed items]'',
     [],
     ''### In Progress'',
     ''- [ ] [Current work - update based on progress]'',
     [],
     ''### Blocked'',
     ''- [Current blockers - remove if resolved]'',
     [],
     ''## Key Decisions'',
     ''- **[Decision]**: [Brief rationale] (preserve all previous, add new)'',
     [],
     ''## Next Steps'',
     ''1. [Update based on current state]'',
     [],
     ''## Critical Context'',
     ''- [Preserve important context, add new if needed]'',
     [],
     ''Keep each section concise. Preserve exact file paths, function names, and error messages.'']"

definition TURN_PREFIX_SUMMARIZATION_PROMPT :: string where
  "TURN_PREFIX_SUMMARIZATION_PROMPT = join_with nl
    [''This is the PREFIX of a turn that was too large to keep. The SUFFIX (recent work) is retained.'',
     [],
     ''Summarize the prefix to provide context for the retained suffix:'',
     [],
     ''## Original Request'',
     ''[What did the user ask for in this turn?]'',
     [],
     ''## Early Progress'',
     ''- [Key decisions and work done in the prefix]'',
     [],
     ''## Context for Suffix'',
     ''- [Information needed to understand the retained recent work]'',
     [],
     ''Be concise. Focus on what'' @ [CHR 0x27] @ ''s needed to understand the kept suffix.'']"

definition BRANCH_SUMMARY_PREAMBLE :: string where
  "BRANCH_SUMMARY_PREAMBLE = join_with nl
    [''The user explored a different conversation branch before returning here.'',
     ''Summary of that exploration:'',
     [],
     []]"

definition BRANCH_SUMMARY_PROMPT :: string where
  "BRANCH_SUMMARY_PROMPT = join_with nl
    [''Create a structured summary of this conversation branch for context when returning later.'',
     [],
     ''Use this EXACT format:'',
     [],
     ''## Goal'',
     ''[What was the user trying to accomplish in this branch?]'',
     [],
     ''## Constraints & Preferences'',
     ''- [Any constraints, preferences, or requirements mentioned]'',
     ''- [Or '' @ [CHR 0x22] @ ''(none)'' @ [CHR 0x22] @ '' if none were mentioned]'',
     [],
     ''## Progress'',
     ''### Done'',
     ''- [x] [Completed tasks/changes]'',
     [],
     ''### In Progress'',
     ''- [ ] [Work that was started but not finished]'',
     [],
     ''### Blocked'',
     ''- [Issues preventing progress, if any]'',
     [],
     ''## Key Decisions'',
     ''- **[Decision]**: [Brief rationale]'',
     [],
     ''## Next Steps'',
     ''1. [What should happen next to continue this work]'',
     [],
     ''Keep each section concise. Preserve exact file paths, function names, and error messages.'']"

section \<open>Requests and responses\<close>

record llm_model =
  lm_maxTokens :: int
  lm_contextWindow :: nat
  lm_reasoning :: bool

record llm_request =
  rq_systemPrompt :: string
  rq_prompt :: string
  rq_maxTokens :: int
  rq_reasoning :: "string option"
  rq_cacheRetention :: string

record llm_response =
  rs_content :: "block list"
  rs_stopReason :: stop_reason
  rs_errorMessage :: "string option"
  rs_usage :: usage

type_synonym llm_call = "llm_request \<Rightarrow> llm_response option"
type_synonym text_of = "string option \<Rightarrow> content \<Rightarrow> string"

datatype compaction_error =
    CallThrew
  | SummarizationFailed string
  | TurnPrefixFailed string
  | NoFirstKeptId

text \<open>\<open>Math.min(budget, model.maxTokens > 0 ? model.maxTokens : Infinity)\<close>.\<close>

definition capped_tokens :: "nat \<Rightarrow> llm_model \<Rightarrow> int" where
  "capped_tokens budget model =
     (if lm_maxTokens model > 0 then min (int budget) (lm_maxTokens model) else int budget)"

definition summary_options :: "llm_model \<Rightarrow> string option \<Rightarrow> string option" where
  "summary_options model thinkingLevel =
     (case truthy_str thinkingLevel of
        Some l \<Rightarrow> if lm_reasoning model \<and> l \<noteq> ''off'' then Some l else None
      | None \<Rightarrow> None)"

definition completeSummarization ::
  "llm_call \<Rightarrow> string \<Rightarrow> int \<Rightarrow> string option \<Rightarrow> llm_response option" where
  "completeSummarization call prompt maxTokens reasoning =
     call \<lparr>rq_systemPrompt = SUMMARIZATION_SYSTEM_PROMPT, rq_prompt = prompt, rq_maxTokens = maxTokens,
           rq_reasoning = reasoning, rq_cacheRetention = ''none''\<rparr>"

definition error_text :: "string option \<Rightarrow> string \<Rightarrow> string" where
  "error_text msg fallback = (case truthy_str msg of Some m \<Rightarrow> m | None \<Rightarrow> fallback)"

section \<open>The two summary calls\<close>

definition conversation_tag :: "text_of \<Rightarrow> agent_message list \<Rightarrow> string" where
  "conversation_tag ct messages =
     ''<conversation>'' @ nl @ serializeConversation ct (convertToLlm messages) @ nl @ ''</conversation>'' @ nl @ nl"

definition summary_prompt :: "text_of \<Rightarrow> agent_message list \<Rightarrow> string option \<Rightarrow> string option \<Rightarrow> string" where
  "summary_prompt ct messages customInstructions previousSummary =
     conversation_tag ct messages
     @ (case truthy_str previousSummary of
          Some s \<Rightarrow> ''<previous-summary>'' @ nl @ s @ nl @ ''</previous-summary>'' @ nl @ nl
        | None \<Rightarrow> [])
     @ (case truthy_str previousSummary of Some s \<Rightarrow> UPDATE_SUMMARIZATION_PROMPT | None \<Rightarrow> SUMMARIZATION_PROMPT)
     @ (case truthy_str customInstructions of Some c \<Rightarrow> nl @ nl @ ''Additional focus: '' @ c | None \<Rightarrow> [])"

definition generateSummaryWithUsage ::
  "llm_call \<Rightarrow> text_of \<Rightarrow> llm_model \<Rightarrow> string option \<Rightarrow> nat \<Rightarrow> agent_message list \<Rightarrow> string option \<Rightarrow>
   string option \<Rightarrow> compaction_error + string \<times> usage" where
  "generateSummaryWithUsage call ct model thinkingLevel reserveTokens messages customInstructions previousSummary =
     (case completeSummarization call (summary_prompt ct messages customInstructions previousSummary)
             (capped_tokens ((4 * reserveTokens) div 5) model) (summary_options model thinkingLevel) of
        None \<Rightarrow> Inl CallThrew
      | Some r \<Rightarrow>
          if rs_stopReason r = StopError
          then Inl (SummarizationFailed (error_text (rs_errorMessage r) ''Unknown error''))
          else Inr (ct None (Blocks (rs_content r)), rs_usage r))"

definition generateTurnPrefixSummary ::
  "llm_call \<Rightarrow> text_of \<Rightarrow> llm_model \<Rightarrow> string option \<Rightarrow> nat \<Rightarrow> agent_message list \<Rightarrow>
   compaction_error + string \<times> usage" where
  "generateTurnPrefixSummary call ct model thinkingLevel reserveTokens messages =
     (case completeSummarization call (conversation_tag ct messages @ TURN_PREFIX_SUMMARIZATION_PROMPT)
             (capped_tokens (reserveTokens div 2) model) (summary_options model thinkingLevel) of
        None \<Rightarrow> Inl CallThrew
      | Some r \<Rightarrow>
          if rs_stopReason r = StopError
          then Inl (TurnPrefixFailed (error_text (rs_errorMessage r) ''Unknown error''))
          else Inr (ct None (Blocks (rs_content r)), rs_usage r))"

section \<open>Compaction\<close>

record compaction_result =
  cr_summary :: string
  cr_firstKeptEntryId :: string
  cr_tokensBefore :: nat
  cr_usage :: usage
  cr_details :: json

definition NO_PRIOR_HISTORY :: string where
  "NO_PRIOR_HISTORY = ''No prior history.''"

definition split_summary :: "string \<Rightarrow> string \<Rightarrow> string" where
  "split_summary historyText prefixText =
     historyText @ nl @ nl @ ''---'' @ nl @ nl @ ''**Turn Context (split turn):**'' @ nl @ nl @ prefixText"

text \<open>The first half of \<open>compact\<close>: the summary text and its usage.\<close>

definition compaction_summary ::
  "llm_call \<Rightarrow> text_of \<Rightarrow> llm_model \<Rightarrow> string option \<Rightarrow> string option \<Rightarrow> compaction_preparation \<Rightarrow>
   compaction_error + string \<times> usage" where
  "compaction_summary call ct model thinkingLevel customInstructions p =
     (let reserve = cs_reserveTokens (pr_settings p);
          history = (\<lambda>_::unit. generateSummaryWithUsage call ct model thinkingLevel reserve
                       (pr_messagesToSummarize p) customInstructions (pr_previousSummary p)) in
      if pr_isSplitTurn p \<and> pr_turnPrefixMessages p \<noteq> [] then
        (case (if pr_messagesToSummarize p \<noteq> [] then map_sum id (\<lambda>(t, u). (t, Some u)) (history ())
               else Inr (NO_PRIOR_HISTORY, None)) of
           Inl e \<Rightarrow> Inl e
         | Inr (historyText, historyUsage) \<Rightarrow>
             (case generateTurnPrefixSummary call ct model thinkingLevel reserve (pr_turnPrefixMessages p) of
                Inl e \<Rightarrow> Inl e
              | Inr (prefixText, prefixUsage) \<Rightarrow>
                  Inr (split_summary historyText prefixText,
                       (case historyUsage of Some u \<Rightarrow> combineUsage u prefixUsage | None \<Rightarrow> prefixUsage))))
      else history ())"

definition compact ::
  "llm_call \<Rightarrow> text_of \<Rightarrow> llm_model \<Rightarrow> string option \<Rightarrow> string option \<Rightarrow> compaction_preparation \<Rightarrow>
   compaction_error + compaction_result" where
  "compact call ct model thinkingLevel customInstructions p =
     (case compaction_summary call ct model thinkingLevel customInstructions p of
        Inl e \<Rightarrow> Inl e
      | Inr (summary, u) \<Rightarrow>
          (let (readFiles, modifiedFiles) = computeFileLists (pr_fileOps p) in
           if pr_firstKeptEntryId p = [] then Inl NoFirstKeptId
           else Inr \<lparr>cr_summary = summary @ formatFileOperations readFiles modifiedFiles,
                     cr_firstKeptEntryId = pr_firstKeptEntryId p, cr_tokensBefore = pr_tokensBefore p,
                     cr_usage = u, cr_details = details_json readFiles modifiedFiles\<rparr>))"

end
