(* ===== verification/Branch_Summary.thy ===== *)
theory Branch_Summary
  imports Session_Manager Summarization
begin

text \<open>
  Summaries of an abandoned branch (\<open>src/core/compaction/branch-summarization.ts\<close>): the
  entries between the old leaf and the common ancestor, the messages that fit the budget, and
  the summary. The session manager is read only.
\<close>

section \<open>Collecting the entries of the branch\<close>

text \<open>\<open>while (current && current !== commonAncestorId)\<close>, an entry at a time.\<close>

definition collect_next :: "entry jsmap \<Rightarrow> string option \<Rightarrow> string option \<Rightarrow> entry option" where
  "collect_next byId ancestor current =
     (case truthy_str current of
        None \<Rightarrow> None
      | Some c \<Rightarrow> if Some c = ancestor then None else jm_get byId c)"

text \<open>\<open>(entries, commonAncestorId)\<close>; \<open>None\<close> is a walk that never returns.\<close>

definition collectEntriesForBranchSummary ::
  "session_manager \<Rightarrow> string option \<Rightarrow> string \<Rightarrow> (entry list \<times> string option) option" where
  "collectEntriesForBranchSummary sm oldLeafId targetId =
     (case truthy_str oldLeafId of
        None \<Rightarrow> Some ([], None)
      | Some old \<Rightarrow>
          (case getBranch sm (Some old) of
             None \<Rightarrow> None
           | Some oldPath \<Rightarrow>
               (case getBranch sm (Some targetId) of
                  None \<Rightarrow> None
                | Some targetPath \<Rightarrow>
                    (let commonAncestorId =
                           map_option (\<lambda>i. eid (targetPath ! i))
                             (scan_down (\<lambda>i. eid (targetPath ! i) \<in> eid ` set oldPath) 0 (length targetPath))
                     in case collect_next (sm_byId sm) commonAncestorId (Some old) of
                          None \<Rightarrow> Some ([], commonAncestorId)
                        | Some e \<Rightarrow>
                            map_option (\<lambda>es. (es, commonAncestorId))
                              (walk_up (\<lambda>e. collect_next (sm_byId sm) commonAncestorId (parentId e)) e [])))))"

section \<open>The messages of the branch\<close>

definition getMessageFromEntry :: "entry \<Rightarrow> agent_message option" where
  "getMessageFromEntry e =
     (case body e of
        EMessage m \<Rightarrow> if is_tool_result m then None else Some m
      | ECustomMessage k \<Rightarrow>
          Some (createCustomMessage (ke_customType k) (ke_content k) (ke_display k) (ke_details k) (timestamp e))
      | EBranchSummary b \<Rightarrow> Some (createBranchSummaryMessage (be_summary b) (be_fromId b) (timestamp e))
      | ECompaction c \<Rightarrow> Some (createCompactionSummaryMessage (ce_summary c) (ce_tokensBefore c) (timestamp e))
      | _ \<Rightarrow> None)"

record branch_preparation =
  bp_messages :: "agent_message list"
  bp_fileOps :: file_operations
  bp_totalTokens :: nat

fun summary_file_ops :: "entry_body \<Rightarrow> file_operations \<Rightarrow> file_operations" where
  "summary_file_ops (EBranchSummary b) ops =
     (case be_details b of
        Some d \<Rightarrow>
          if \<not> be_fromHook b then
            ops\<lparr>fo_read := set_add_all (detail_files d ''readFiles'') (fo_read ops),
                fo_edited := set_add_all (detail_files d ''modifiedFiles'') (fo_edited ops)\<rparr>
          else ops
      | None \<Rightarrow> ops)"
| "summary_file_ops _ ops = ops"

fun is_summary_body :: "entry_body \<Rightarrow> bool" where
  "is_summary_body (ECompaction c) = True"
| "is_summary_body (EBranchSummary b) = True"
| "is_summary_body _ = False"

text \<open>
  The second pass, newest entry first (\<open>es\<close> is reversed); \<open>None\<close> is an estimate that throws on
  a message without content. The budget is an integer, \<open>totalTokens < tokenBudget * 0.9\<close>
  is compared in tenths.
\<close>

fun branch_pass :: "int \<Rightarrow> entry list \<Rightarrow> branch_preparation \<Rightarrow> branch_preparation option" where
  "branch_pass budget [] p = Some p"
| "branch_pass budget (e # es) p =
     (case getMessageFromEntry e of
        None \<Rightarrow> branch_pass budget es p
      | Some m \<Rightarrow>
          (let p = p\<lparr>bp_fileOps := extractFileOpsFromMessage m (bp_fileOps p)\<rparr> in
           case estimateTokens m of
             None \<Rightarrow> None
           | Some tokens \<Rightarrow>
               (let add = p\<lparr>bp_messages := m # bp_messages p, bp_totalTokens := bp_totalTokens p + tokens\<rparr> in
                if budget > 0 \<and> int (bp_totalTokens p + tokens) > budget then
                  (if is_summary_body (body e) \<and> 10 * int (bp_totalTokens p) < 9 * budget
                   then Some add else Some p)
                else branch_pass budget es add)))"

definition prepareBranchEntries :: "entry list \<Rightarrow> int \<Rightarrow> branch_preparation option" where
  "prepareBranchEntries es tokenBudget =
     branch_pass tokenBudget (rev es)
       \<lparr>bp_messages = [], bp_fileOps = foldl (\<lambda>acc e. summary_file_ops (body e) acc) createFileOps es,
        bp_totalTokens = 0\<rparr>"

section \<open>The summary\<close>

datatype branch_summary_result =
    NothingToSummarize string
  | SummaryAborted
  | SummaryError string
  | Summarized string usage "string list" "string list"

definition branch_instructions :: "string option \<Rightarrow> bool \<Rightarrow> string" where
  "branch_instructions customInstructions replaceInstructions =
     (case truthy_str customInstructions of
        None \<Rightarrow> BRANCH_SUMMARY_PROMPT
      | Some c \<Rightarrow>
          if replaceInstructions then c
          else BRANCH_SUMMARY_PROMPT @ nl @ nl @ ''Additional focus: '' @ c)"

text \<open>\<open>None\<close> is an exception: of an estimate, or of the call.\<close>

definition generateBranchSummary ::
  "llm_call \<Rightarrow> text_of \<Rightarrow> llm_model \<Rightarrow> nat \<Rightarrow> string option \<Rightarrow> bool \<Rightarrow> entry list \<Rightarrow>
   branch_summary_result option" where
  "generateBranchSummary call ct model reserveTokens customInstructions replaceInstructions es =
     (let contextWindow = (if lm_contextWindow model = 0 then 128000 else lm_contextWindow model);
          tokenBudget = int contextWindow - int reserveTokens in
      case prepareBranchEntries es tokenBudget of
        None \<Rightarrow> None
      | Some p \<Rightarrow>
          if bp_messages p = [] then Some (NothingToSummarize ''No content to summarize'')
          else
            (case completeSummarization call
                    (conversation_tag ct (bp_messages p) @ branch_instructions customInstructions replaceInstructions)
                    2048 None of
               None \<Rightarrow> None
             | Some r \<Rightarrow>
                 if rs_stopReason r = Aborted then Some SummaryAborted
                 else if rs_stopReason r = StopError
                 then Some (SummaryError (error_text (rs_errorMessage r) ''Summarization failed''))
                 else
                   (let (readFiles, modifiedFiles) = computeFileLists (bp_fileOps p);
                        summary = BRANCH_SUMMARY_PREAMBLE @ ct None (Blocks (rs_content r))
                                    @ formatFileOperations readFiles modifiedFiles
                    in Some (Summarized (if summary = [] then ''No summary generated'' else summary)
                               (rs_usage r) readFiles modifiedFiles))))"

end
