(* ===== verification/Compaction_Lemmas.thy ===== *)
theory Compaction_Lemmas
  imports Summarization
begin

text \<open>
  What the choice of a cut point and the preparation of a compaction guarantee: every index is
  in range, the kept part starts at an entry that may start a context, the parts form a
  partition, and the kept part fits the budget up to its first entry.
\<close>

section \<open>Estimates of filled messages\<close>

fun has_content :: "agent_message \<Rightarrow> bool" where
  "has_content (User c t) = (c \<noteq> None)"
| "has_content (ToolResult i c t) = (c \<noteq> None)"
| "has_content (Assistant a) = (am_content a \<noteq> None)"
| "has_content (Custom m) = (cm_content m \<noteq> None)"
| "has_content _ = True"

lemma estimateTokens_total: "has_content m \<Longrightarrow> estimateTokens m \<noteq> None"
  by (cases m) (auto simp: estimateTokens_def)

text \<open>A custom message of the log is appended with its content by \<open>createCustomMessage\<close>, never as a message.\<close>

fun plain_message :: "agent_message \<Rightarrow> bool" where
  "plain_message (Custom m) = (cm_content m \<noteq> None)"
| "plain_message _ = True"

lemma fill_content_has_content: "plain_message m \<Longrightarrow> has_content (fill_content m)"
  by (cases m rule: fill_content.cases) auto

fun plain_body :: "entry_body \<Rightarrow> bool" where
  "plain_body (EMessage m) = plain_message m"
| "plain_body _ = True"

lemma context_messages_content:
  "plain_body (body e) \<Longrightarrow> m \<in> set (sessionEntryToContextMessages e) \<Longrightarrow> has_content m"
  by (cases "body e")
     (auto simp: sessionEntryToContextMessages_def createCustomMessage_def createBranchSummaryMessage_def
        createCompactionSummaryMessage_def fill_content_has_content split: if_splits)

lemma sum_tokens_total: "\<forall>m \<in> set ms. has_content m \<Longrightarrow> sum_tokens ms \<noteq> None"
proof (induction ms)
  case Nil
  then show ?case by simp
next
  case (Cons m ms)
  then show ?case using estimateTokens_total [of m] by (auto split: option.split)
qed

lemma entry_tokens_total: "plain_body (body e) \<Longrightarrow> entry_tokens e \<noteq> None"
  unfolding entry_tokens_def by (rule sum_tokens_total) (auto dest: context_messages_content)

section \<open>The walk back and the cut point\<close>

lemma in_valid_cut_points:
  "i \<in> set (findValidCutPoints es s e) \<longleftrightarrow> s \<le> i \<and> i < e \<and> is_cut_entry (es ! i)"
  by (auto simp: findValidCutPoints_def)

lemma sorted_valid_cut_points: "sorted (findValidCutPoints es s e)"
  by (simp add: findValidCutPoints_def sorted_wrt_filter)

lemma cut_walk_in: "cut_walk es s keep cps c acc n = Some k \<Longrightarrow> k \<in> insert c (set cps)"
proof (induction n arbitrary: acc)
  case 0
  then show ?case by simp
next
  case (Suc n)
  then show ?case by (auto simp: find_Some_iff split: option.splits if_splits)
qed

lemma cut_walk_total:
  "n \<le> length es \<Longrightarrow> \<forall>e \<in> set es. plain_body (body e) \<Longrightarrow> cut_walk es s keep cps c acc n \<noteq> None"
proof (induction n arbitrary: acc)
  case 0
  then show ?case by simp
next
  case (Suc n)
  then have "entry_tokens (es ! n) \<noteq> None" by (simp add: entry_tokens_total)
  with Suc show ?case by (auto split: option.split)
qed

lemma skip_metadata_le: "skip_metadata es s n \<le> n"
  by (induction n) auto

lemma skip_metadata_ge: "s \<le> n \<Longrightarrow> s \<le> skip_metadata es s n"
  by (induction n) auto

lemma skip_metadata_skipped:
  "skip_metadata es s n \<le> j \<Longrightarrow> j < n \<Longrightarrow> is_metadata (es ! j)"
proof (induction n)
  case 0
  then show ?case by simp
next
  case (Suc n)
  then show ?case by (auto split: if_splits simp: less_Suc_eq)
qed

lemma is_cut_entry_not_metadata: "is_cut_entry e \<Longrightarrow> \<not> is_metadata e"
  by (auto simp: is_cut_entry_def is_metadata_def)

text \<open>
  The cut point: an entry that may start the kept part, reached from the kept index over
  metadata only.
\<close>

lemma findCutPoint_none:
  "findValidCutPoints es s e = [] \<Longrightarrow>
     findCutPoint es s e keep = Some \<lparr>cp_firstKeptEntryIndex = s, cp_turnStartIndex = None, cp_isSplitTurn = False\<rparr>"
  by (simp add: findCutPoint_def)

lemma findCutPoint_total:
  "e \<le> length es \<Longrightarrow> \<forall>x \<in> set es. plain_body (body x) \<Longrightarrow> findCutPoint es s e keep \<noteq> None"
  using cut_walk_total [of e es] by (auto simp: findCutPoint_def split: list.split)

lemma findCutPoint_some:
  assumes "findCutPoint es s e keep = Some cp" and "findValidCutPoints es s e = c0 # cps"
  obtains c where "cut_walk es s keep (c0 # cps) c0 0 e = Some c"
    and "s \<le> c" and "c < e" and "is_cut_entry (es ! c)"
    and "cp_firstKeptEntryIndex cp = skip_metadata es s c"
proof -
  from assms obtain c where c: "cut_walk es s keep (c0 # cps) c0 0 e = Some c"
      "cp_firstKeptEntryIndex cp = skip_metadata es s c"
    by (auto simp: findCutPoint_def Let_def)
  have "c \<in> set (findValidCutPoints es s e)" using cut_walk_in [OF c(1)] assms(2) by auto
  then show ?thesis using c by (intro that) (auto simp: in_valid_cut_points)
qed

lemma findCutPoint_range:
  assumes "findCutPoint es s e keep = Some cp" and "s \<le> e"
  shows "s \<le> cp_firstKeptEntryIndex cp \<and> cp_firstKeptEntryIndex cp \<le> e"
proof (cases "findValidCutPoints es s e")
  case Nil
  then show ?thesis using assms by (auto simp: findCutPoint_none)
next
  case (Cons c0 cps)
  with assms(1) obtain c where c: "s \<le> c" "c < e" "cp_firstKeptEntryIndex cp = skip_metadata es s c"
    by (rule findCutPoint_some)
  then show ?thesis using skip_metadata_ge [of s c es] skip_metadata_le [of es s c] by simp
qed

lemma findCutPoint_turn:
  assumes "findCutPoint es s e keep = Some cp" and "cp_turnStartIndex cp = Some t"
  shows "s \<le> t \<and> t < cp_firstKeptEntryIndex cp \<and> isTurnStartEntry (es ! t) \<and> cp_isSplitTurn cp"
proof -
  let ?k = "cp_firstKeptEntryIndex cp"
  have nt: "\<not> isTurnStartEntry (es ! ?k)" and f: "findTurnStartIndex es ?k s = Some t"
    and sp: "cp_isSplitTurn cp"
    using assms by (auto simp: findCutPoint_def Let_def split: list.splits if_splits)
  have *: "s \<le> t \<and> t < ?k + 1 \<and> isTurnStartEntry (es ! t)"
    using scan_down_SomeD [OF f [unfolded findTurnStartIndex_def]] by auto
  with nt have "t \<noteq> ?k" by auto
  with * sp show ?thesis by auto
qed

lemma findCutPoint_split:
  "findCutPoint es s e keep = Some cp \<Longrightarrow> cp_isSplitTurn cp = (cp_turnStartIndex cp \<noteq> None)"
  by (auto simp: findCutPoint_def Let_def split: list.splits if_splits)

section \<open>What is kept\<close>

definition context_messages :: "entry list \<Rightarrow> agent_message list" where
  "context_messages es = concat (map sessionEntryToContextMessages es)"

lemma context_messages_append [simp]: "context_messages (xs @ ys) = context_messages xs @ context_messages ys"
  by (simp add: context_messages_def)

lemma context_messages_Cons [simp]:
  "context_messages (e # es) = sessionEntryToContextMessages e @ context_messages es"
  by (simp add: context_messages_def)

lemma context_messages_Nil [simp]: "context_messages [] = []"
  by (simp add: context_messages_def)

lemma context_messages_metadata: "\<forall>e \<in> set es. is_metadata e \<Longrightarrow> context_messages es = []"
  by (induction es) (auto simp: is_metadata_def)

lemma drop_split: "k \<le> c \<Longrightarrow> drop k xs = take (c - k) (drop k xs) @ drop c xs"
  by (metis append_take_drop_id drop_drop le_add_diff_inverse2 add.commute)

lemma nth_take_drop_metadata:
  assumes "\<forall>j. k \<le> j \<and> j < c \<longrightarrow> P (xs ! j)" and "c \<le> length xs"
  shows "\<forall>e \<in> set (take (c - k) (drop k xs)). P e"
  using assms by (auto simp: in_set_conv_nth)

lemma is_cut_entry_message:
  assumes "is_cut_entry e"
  obtains m where "sessionEntryToContextMessages e = [m]" and "isCutPointMessage m"
proof -
  from assms obtain m where m: "m \<in> set (sessionEntryToContextMessages e)" "isCutPointMessage m"
    by (auto simp: is_cut_entry_def)
  with context_messages_at_most_one [of e] have "sessionEntryToContextMessages e = [m]"
    by (cases "sessionEntryToContextMessages e") (auto simp: le_Suc_eq)
  with m(2) show ?thesis by (rule that [rotated])
qed

lemma findCutPoint_kept_messages:
  assumes "findCutPoint es s (length es) keep = Some cp" and "findValidCutPoints es s (length es) = c0 # cps"
  obtains m c where "context_messages (drop (cp_firstKeptEntryIndex cp) es) = m # context_messages (drop (Suc c) es)"
    and "isCutPointMessage m" and "c < length es" and "s \<le> c" and "sessionEntryToContextMessages (es ! c) = [m]"
    and "cut_walk es s keep (c0 # cps) c0 0 (length es) = Some c"
proof -
  let ?k = "cp_firstKeptEntryIndex cp"
  from assms obtain c where c: "cut_walk es s keep (c0 # cps) c0 0 (length es) = Some c"
      "s \<le> c" "c < length es" "is_cut_entry (es ! c)" "?k = skip_metadata es s c"
    by (rule findCutPoint_some)
  have le: "?k \<le> c" using c(5) skip_metadata_le by simp
  have "\<forall>e \<in> set (take (c - ?k) (drop ?k es)). is_metadata e"
    using c(3,5) by (intro nth_take_drop_metadata) (auto simp: skip_metadata_skipped)
  then have "context_messages (drop ?k es) = context_messages (drop c es)"
    using drop_split [OF le, of es] by (metis append_Nil context_messages_append context_messages_metadata)
  also have "drop c es = es ! c # drop (Suc c) es"
    using c(3) by (simp add: Cons_nth_drop_Suc)
  finally have *: "context_messages (drop ?k es) =
      sessionEntryToContextMessages (es ! c) @ context_messages (drop (Suc c) es)" by simp
  from c(4) obtain m where m: "sessionEntryToContextMessages (es ! c) = [m]" "isCutPointMessage m"
    by (rule is_cut_entry_message)
  show ?thesis
    by (rule that [of m c]) (use * m c in auto)
qed

section \<open>The budget\<close>

text \<open>The estimate of what the entries from \<open>k\<close> on contribute (no estimate throws).\<close>

definition tokens_of :: "entry \<Rightarrow> nat" where
  "tokens_of e = (case entry_tokens e of None \<Rightarrow> 0 | Some n \<Rightarrow> n)"

definition tokens_from :: "entry list \<Rightarrow> nat \<Rightarrow> nat" where
  "tokens_from es k = sum_list (map tokens_of (drop k es))"

lemma tokens_from_Suc: "k < length es \<Longrightarrow> tokens_from es k = tokens_of (es ! k) + tokens_from es (Suc k)"
  by (simp add: tokens_from_def Cons_nth_drop_Suc [symmetric])

lemma tokens_from_mono: "k \<le> c \<Longrightarrow> tokens_from es c \<le> tokens_from es k"
  using drop_split [of k c es] by (metis le_add2 map_append sum_list_append tokens_from_def)

text \<open>
  When the walk stops and there is a cut point \<open>c\<close> at or after the place, what follows \<open>c\<close> is
  less than the budget; when it does not stop, the whole range is.
\<close>

lemma cut_walk_budget:
  assumes "n \<le> length es" and "acc = tokens_from es n" and "acc < keep"
    and "cut_walk es s keep cps c0 acc n = Some c"
    and "\<exists>l \<in> set cps. \<forall>i. i < n \<longrightarrow> i \<le> l" and "s \<le> n"
  shows "(tokens_from es s < keep \<and> c = c0) \<or> (c \<in> set cps \<and> tokens_from es (Suc c) < keep)"
  using assms
proof (induction n arbitrary: acc)
  case 0
  then show ?case by simp
next
  case (Suc n)
  show ?case
  proof (cases "n < s")
    case True
    with Suc.prems have "c = c0" "s = Suc n" by simp_all
    with Suc.prems(2,3) show ?thesis by simp
  next
    case False
    from False Suc.prems(4) obtain k where k: "entry_tokens (es ! n) = Some k"
      by (auto split: option.splits)
    have t: "tokens_from es n = k + tokens_from es (Suc n)"
      using Suc.prems(1) k by (simp add: tokens_from_Suc tokens_of_def)
    have ex: "\<exists>l \<in> set cps. \<forall>i. i < n \<longrightarrow> i \<le> l" using Suc.prems(5) by (meson less_SucI)
    show ?thesis
    proof (cases "k = 0 \<or> acc + k < keep")
      case True
      have "cut_walk es s keep cps c0 (acc + k) n = Some c"
        using True False k Suc.prems(4) by (auto split: if_splits)
      moreover have "acc + k < keep" using True Suc.prems(3) by auto
      ultimately show ?thesis
        using Suc.IH [of "acc + k"] Suc.prems(1,2) t ex False by simp
    next
      case stop: False
      then have "c = (case find (\<lambda>c. c \<ge> n) cps of Some c \<Rightarrow> c | None \<Rightarrow> c0)"
        using False k Suc.prems(4) by (auto split: if_splits)
      moreover obtain l where "l \<in> set cps" "n \<le> l" using Suc.prems(5) by auto
      then obtain l' where l': "find (\<lambda>c. c \<ge> n) cps = Some l'"
        by (cases "find (\<lambda>c. c \<ge> n) cps") (auto simp: find_None_iff)
      then have "l' \<in> set cps" "n \<le> l'" by (auto simp: find_Some_iff)
      ultimately have "c \<in> set cps" "n \<le> c" using l' by simp_all
      moreover have "tokens_from es (Suc c) \<le> tokens_from es (Suc n)"
        using \<open>n \<le> c\<close> by (simp add: tokens_from_mono)
      ultimately show ?thesis using Suc.prems(2,3) by simp
    qed
  qed
qed

section \<open>The preparation\<close>

lemma messages_between_split:
  "a \<le> b \<Longrightarrow> b \<le> c \<Longrightarrow> messages_between es a b @ messages_between es b c = messages_between es a c"
  using upt_add_eq_append [of a b "c - b"]
  by (simp add: messages_between_def List.map_filter_def)

lemma messages_between_empty: "b \<le> a \<Longrightarrow> messages_between es a b = []"
  by (simp add: messages_between_def)

lemma messages_between_Cons:
  "a < b \<Longrightarrow> messages_between es a b =
     (case getMessageFromEntryForCompaction (es ! a) of None \<Rightarrow> [] | Some m \<Rightarrow> [m]) @ messages_between es (Suc a) b"
  by (simp add: messages_between_def upt_conv_Cons split: option.split)

text \<open>Without compaction entries, the collected messages are the context messages of the range.\<close>

lemma messages_between_context:
  assumes "b \<le> length es" and "\<forall>j. a \<le> j \<and> j < b \<longrightarrow> \<not> is_compaction (body (es ! j))" and "a \<le> b"
  shows "messages_between es a b = context_messages (take (b - a) (drop a es))"
  using assms(2,3)
proof (induction "b - a" arbitrary: a)
  case 0
  then show ?case by (simp add: messages_between_empty)
next
  case (Suc n)
  then have lt: "a < b" by simp
  have "messages_between es (Suc a) b = context_messages (take (b - Suc a) (drop (Suc a) es))"
    using Suc by simp
  moreover have "take (b - a) (drop a es) = es ! a # take (b - Suc a) (drop (Suc a) es)"
    using lt assms(1) by (simp add: take_Cons' Cons_nth_drop_Suc [symmetric])
  moreover have "sessionEntryToContextMessages (es ! a) =
      (case getMessageFromEntryForCompaction (es ! a) of None \<Rightarrow> [] | Some m \<Rightarrow> [m])"
    using Suc.prems lt context_messages_at_most_one [of "es ! a"]
    by (cases "sessionEntryToContextMessages (es ! a)") (auto simp: getMessageFromEntryForCompaction_def)
  ultimately show ?case using lt by (simp add: messages_between_Cons)
qed

lemma previous_compaction_SomeD:
  assumes "previous_compaction es = Some i"
  shows "i < length es \<and> is_compaction (body (es ! i)) \<and> (\<forall>j. i < j \<and> j < length es \<longrightarrow> \<not> is_compaction (body (es ! j)))"
  using scan_down_SomeD [OF assms [unfolded previous_compaction_def]] by auto

lemma boundary_start_le: "boundary_start es \<le> length es"
proof (cases "previous_compaction es")
  case None
  then show ?thesis by (simp add: boundary_start_def)
next
  case (Some i)
  then have "i < length es" using previous_compaction_SomeD by blast
  with Some show ?thesis
    by (auto simp: boundary_start_def dest: find_index_SomeD split: entry_body.split option.split)
qed

text \<open>What a successful preparation says, in terms of three indices.\<close>

lemma prepareCompaction_result:
  assumes "prepareCompaction es settings = Some (Some p)"
  obtains cp h where "findCutPoint es (boundary_start es) (length es) (cs_keepRecentTokens settings) = Some cp"
    and "boundary_start es \<le> h" and "h \<le> cp_firstKeptEntryIndex cp" and "cp_firstKeptEntryIndex cp < length es"
    and "pr_firstKeptEntryId p = eid (es ! cp_firstKeptEntryIndex cp)" and "pr_firstKeptEntryId p \<noteq> []"
    and "pr_messagesToSummarize p = messages_between es (boundary_start es) h"
    and "pr_turnPrefixMessages p = messages_between es h (cp_firstKeptEntryIndex cp)"
    and "pr_isSplitTurn p = cp_isSplitTurn cp" and "pr_isSplitTurn p \<or> h = cp_firstKeptEntryIndex cp"
    and "pr_messagesToSummarize p \<noteq> [] \<or> pr_turnPrefixMessages p \<noteq> []"
    and "pr_previousSummary p = previous_summary es" and "pr_settings p = settings"
proof -
  from assms obtain cp where cp:
      "findCutPoint es (boundary_start es) (length es) (cs_keepRecentTokens settings) = Some cp"
    by (auto simp: prepareCompaction_def Let_def split: if_splits option.splits)
  let ?k = "cp_firstKeptEntryIndex cp"
  let ?h = "(case cp_turnStartIndex cp of Some t \<Rightarrow> if cp_isSplitTurn cp then t else ?k | None \<Rightarrow> ?k)"
  have sp: "cp_isSplitTurn cp = (cp_turnStartIndex cp \<noteq> None)" using findCutPoint_split [OF cp] .
  have p: "?k < length es" "pr_firstKeptEntryId p = eid (es ! ?k)" "eid (es ! ?k) \<noteq> []"
      "pr_messagesToSummarize p = messages_between es (boundary_start es) ?h"
      "pr_turnPrefixMessages p = (if cp_isSplitTurn cp then messages_between es ?h ?k else [])"
      "pr_isSplitTurn p = cp_isSplitTurn cp" "pr_previousSummary p = previous_summary es"
      "pr_settings p = settings" "pr_messagesToSummarize p \<noteq> [] \<or> pr_turnPrefixMessages p \<noteq> []"
    using assms cp by (auto simp: prepareCompaction_def Let_def split: if_splits option.splits)
  have h: "boundary_start es \<le> ?h \<and> ?h \<le> ?k"
  proof (cases "cp_turnStartIndex cp")
    case None
    then show ?thesis using findCutPoint_range [OF cp boundary_start_le] by simp
  next
    case (Some t)
    then show ?thesis using findCutPoint_turn [OF cp Some] findCutPoint_range [OF cp boundary_start_le] by simp
  qed
  show ?thesis
    by (rule that [OF cp, of ?h])
       (use p h sp in \<open>auto simp: messages_between_empty split: option.splits\<close>)
qed

end
