(* ===== verification/Context_Lemmas.thy ===== *)
theory Context_Lemmas
  imports Session_Spec Branch_Summary Compaction_Lemmas
begin

text \<open>
  Lemmas where sessions and summaries meet: the context under appending, the path of an
  abandoned branch, the budget of a branch summary, and the files a summary carries on.
\<close>

section \<open>The context under appending\<close>

lemma context_of_path_append:
  assumes "distinct (map eid (p @ [e]))" and "\<not> is_compaction (body e)"
  shows "context_of_path (p @ [e]) = context_of_path p @ [e]"
proof (cases "filter (\<lambda>e. is_compaction (body e)) p = []")
  case True
  then show ?thesis using assms(2) by (simp add: context_of_path_def)
next
  case False
  let ?c = "last (filter (\<lambda>e. is_compaction (body e)) p)"
  have "?c \<in> set p" using last_in_set [OF False] by auto
  then obtain i where i: "i < length p" "p ! i = ?c" by (auto simp: in_set_conv_nth)
  have "find_index (\<lambda>x. eid x = eid ?c) p = Some i"
    using find_index_distinct [of eid p i] assms(1) i by simp
  moreover have "find_index (\<lambda>x. eid x = eid ?c) (p @ [e]) = Some i"
    using find_index_distinct [OF assms(1), of i] i by (simp add: nth_append)
  ultimately show ?thesis
    using False assms(2) i by (simp add: context_of_path_def Let_def)
qed

text \<open>After a compaction was appended, the context is its summary and what is kept before it.\<close>

lemma context_after_compaction:
  assumes "distinct (map eid (p @ [c]))" and "body c = ECompaction d"
    and "k < length p" and "ce_firstKeptEntryId d = Some (eid (p ! k))"
  shows "concat (map sessionEntryToContextMessages (context_of_path (p @ [c]))) =
           CompactionSummary (ce_summary d) (ce_tokensBefore d) (timestamp c) # context_messages (drop k p)"
  using context_of_path_kept [OF assms(1,2) _ assms(3,4)] assms(2)
  by (simp add: context_messages_def sessionEntryToContextMessages_def createCompactionSummaryMessage_def)

section \<open>Two branches and their common part\<close>

lemma root_path_suffix:
  assumes "root_path par (q @ r) e" and "r \<noteq> []" and "q \<noteq> []" and "distinct (q @ r)"
    and "\<And>x. x \<in> set r \<Longrightarrow> par' x = (if par x = Some (last q) then None else par x)"
  shows "root_path par' r e"
  using assms
proof (induction r arbitrary: e rule: rev_induct)
  case Nil
  then show ?case by simp
next
  case (snoc x r)
  have x: "x = e" using root_path_last [OF snoc.prems(1)] by simp
  have "root_path par ((q @ r) @ [x]) e" using snoc.prems(1) by simp
  then obtain b where b: "root_path par (q @ r) b" "par e = Some b"
    using snoc.prems(3) by (cases rule: root_path.cases) auto
  have lb: "last (q @ r) = b" using root_path_last [OF b(1)] by simp
  show ?case
  proof (cases "r = []")
    case True
    then have "par' e = None" using snoc.prems(5) [of e] b lb x by simp
    then show ?thesis using True x by (simp add: root_path.root)
  next
    case False
    then have "root_path par' r b"
      using snoc.IH [OF b(1) False snoc.prems(3)] snoc.prems(4,5) by simp
    moreover have "b \<in> set r" using lb False by (metis last_append last_in_set)
    then have "b \<noteq> last q"
      using snoc.prems(4) last_in_set [OF snoc.prems(3)] by (metis IntI Un_iff distinct_append empty_iff set_append)
    then have "par' e = Some b" using snoc.prems(5) [of e] b(2) x by simp
    ultimately show ?thesis using x by (auto intro: root_path.step)
  qed
qed

lemma deepest_common:
  assumes "root_path par p x" and "root_path par t y" and "distinct p" and "distinct t"
    and "n < length t" and "t ! n \<in> set p" and "\<forall>j. n < j \<and> j < length t \<longrightarrow> t ! j \<notin> set p"
  obtains q r r' where "p = q @ r" and "t = q @ r'" and "set r \<inter> set t = {}" and "q \<noteq> []" and "last q = t ! n"
proof -
  obtain q r where q: "root_path par q (t ! n)" "p = q @ r" using root_path_prefix [OF assms(1,6)] by blast
  obtain q' r' where q': "root_path par q' (t ! n)" "t = q' @ r'"
    using root_path_prefix [OF assms(2), of "t ! n"] assms(5) by auto
  have qq: "q' = q" using root_path_unique [OF q'(1) q(1)] .
  have lq: "q \<noteq> []" "last q = t ! n" using root_path_not_Nil [OF q(1)] root_path_last [OF q(1)] .
  have "n = length q - 1"
    using assms(4,5) lq q'(2) qq nth_eq_iff_index_eq [of t n "length q - 1"]
    by (auto simp: last_conv_nth nth_append)
  then have n: "n < length q + m" for m using lq(1) by (cases q) auto
  have "r' ! m \<notin> set p" if "m < length r'" for m
    using assms(7) n [of m] that q'(2) qq by (auto simp: nth_append dest: spec [of _ "length q + m"])
  then have "z \<notin> set p" if "z \<in> set r'" for z
    using that by (auto simp: in_set_conv_nth)
  then have "set r \<inter> set t = {}" using assms(3) q(2) q'(2) qq by auto
  with q(2) q'(2) qq lq show ?thesis by (intro that) simp_all
qed

lemma collect_next_parent:
  assumes "wf_session s" and "e \<in> set (getEntries s)"
  shows "collect_next (sm_byId s) anc (parentId e) =
           (case parent_of (entry_index (getEntries s)) e of
              None \<Rightarrow> None
            | Some b \<Rightarrow> if Some (eid b) = anc then None else Some b)"
  using assms
  by (auto simp: collect_next_def parent_of_def wf_session_def split: option.splits dest: entry_index_SomeD)

text \<open>What the code computes, for two entries of a well-formed session.\<close>

lemma collect_entries_split:
  assumes "wf_session s" and "old \<in> eid ` set (getEntries s)" and "target \<in> eid ` set (getEntries s)"
    and "getBranch s (Some old) = Some oldPath" and "getBranch s (Some target) = Some targetPath"
  shows "\<exists>c es r. oldPath = c @ es \<and> targetPath = c @ r \<and> set es \<inter> set targetPath = {} \<and>
           collectEntriesForBranchSummary s (Some old) target = Some (es, last_id c)"
proof -
  let ?par = "parent_of (entry_index (getEntries s))"
  have wl: "wf_log (getEntries s)" using assms(1) by (simp add: wf_session_def)
  obtain x where x: "x \<in> set (getEntries s)" "eid x = old" "root_path ?par oldPath x"
    using getBranch_root [OF assms(1,2)] assms(4) by auto
  obtain y where y: "y \<in> set (getEntries s)" "eid y = target" "root_path ?par targetPath y"
    using getBranch_root [OF assms(1,3)] assms(5) by auto
  have sub: "set oldPath \<subseteq> set (getEntries s)" "set targetPath \<subseteq> set (getEntries s)"
    using log.path_in_carrier [OF x(3)] log.path_in_carrier [OF y(3)] wl x(1) y(1) by auto
  have dist: "distinct oldPath" "distinct targetPath"
    using log.path_distinct [OF x(3)] log.path_distinct [OF y(3)] wl x(1) y(1) by auto
  have common: "eid e \<in> eid ` set oldPath \<longleftrightarrow> e \<in> set oldPath" if "e \<in> set targetPath" for e
    using sub that wf_log_inj [OF wl] by (auto simp: image_iff)
  have ne: "old \<noteq> []" "jm_get (sm_byId s) old = Some x"
    using x wf_log_nonempty [OF wl x(1)] entry_index_get [OF wl x(1)] assms(1) by (auto simp: wf_session_def)
  define i where "i = scan_down (\<lambda>i. eid (targetPath ! i) \<in> eid ` set oldPath) 0 (length targetPath)"
  have run: "collectEntriesForBranchSummary s (Some old) target =
      (let anc = map_option (\<lambda>i. eid (targetPath ! i)) i in
       case collect_next (sm_byId s) anc (Some old) of
         None \<Rightarrow> Some ([], anc)
       | Some e \<Rightarrow> map_option (\<lambda>es. (es, anc)) (walk_up (\<lambda>e. collect_next (sm_byId s) anc (parentId e)) e []))"
    using assms(4,5) ne(1) by (simp add: collectEntriesForBranchSummary_def i_def Let_def)
  show ?thesis
  proof (cases i)
    case None
    have disj: "set oldPath \<inter> set targetPath = {}"
      using scan_down_NoneD [OF None [unfolded i_def]] common by (metis disjoint_iff in_set_conv_nth le0)
    have "root_path (\<lambda>e. collect_next (sm_byId s) None (parentId e)) oldPath x"
      by (rule walk_cong [OF x(3)]) (use sub in \<open>auto simp: collect_next_parent [OF assms(1)] split: option.splits\<close>)
    then have "collectEntriesForBranchSummary s (Some old) target = Some (oldPath, None)"
      using ne by (simp add: run None Let_def collect_next_def walk_iff)
    with disj show ?thesis by (intro exI [of _ "[]"] exI [of _ oldPath] exI [of _ targetPath]) (simp add: last_id_def)
  next
    case (Some n)
    then have n: "n < length targetPath" "targetPath ! n \<in> set oldPath"
        "\<forall>j. n < j \<and> j < length targetPath \<longrightarrow> targetPath ! j \<notin> set oldPath"
      using scan_down_SomeD [OF Some [unfolded i_def]] common [OF nth_mem] by blast+
    let ?a = "targetPath ! n"
    obtain q r r' where q: "oldPath = q @ r" "targetPath = q @ r'" "set r \<inter> set targetPath = {}"
        and lq: "q \<noteq> []" "last q = ?a"
      using deepest_common [OF x(3) y(3) dist n] by blast
    have anc: "map_option (\<lambda>i. eid (targetPath ! i)) i = last_id q" using lq by (simp add: Some last_id_def)
    have "collectEntriesForBranchSummary s (Some old) target = Some (r, last_id q)"
    proof (cases "r = []")
      case True
      then have "x = ?a" using root_path_last [OF x(3)] lq q(1) by simp
      then show ?thesis using True x(2) lq by (simp add: run anc Let_def collect_next_def last_id_def ne(1))
    next
      case False
      have "x \<in> set r" using root_path_last [OF x(3)] q(1) False by auto
      then have "x \<noteq> ?a" using q(3) n(1) by (metis disjoint_iff nth_mem)
      then have neq: "eid x \<noteq> eid ?a" using wf_log_inj [OF wl x(1)] sub n(1) by (metis nth_mem subsetD)
      have "root_path (\<lambda>e. collect_next (sm_byId s) (last_id q) (parentId e)) r x"
      proof (rule root_path_suffix [OF x(3) [unfolded q(1)] False lq(1)])
        show "distinct (q @ r)" using dist(1) q(1) by simp
        fix z
        assume "z \<in> set r"
        then have z: "z \<in> set (getEntries s)" using sub q(1) by auto
        have "?a \<in> set (getEntries s)" using sub n(1) nth_mem by blast
        then have "?par z = Some b \<Longrightarrow> (eid b = eid ?a) = (b = ?a)" for b
          using wf_log_inj [OF wl, of b ?a] by (auto dest!: parent_of_Some entry_index_SomeD)
        then show "collect_next (sm_byId s) (last_id q) (parentId z) =
            (if ?par z = Some (last q) then None else ?par z)"
          using lq by (auto simp: collect_next_parent [OF assms(1) z] last_id_def split: option.splits)
      qed
      then show ?thesis using ne neq lq x(2)
        by (simp add: run anc Let_def collect_next_def last_id_def walk_iff)
    qed
    with q show ?thesis by blast
  qed
qed

section \<open>The budget of a branch summary\<close>

lemma sum_tokens_append:
  "sum_tokens (xs @ ys) = (case sum_tokens xs of None \<Rightarrow> None | Some m \<Rightarrow> map_option (\<lambda>n. m + n) (sum_tokens ys))"
  by (induction xs; cases "sum_tokens ys") (auto simp: add.assoc split: option.splits)

definition branch_messages :: "entry list \<Rightarrow> agent_message list" where
  "branch_messages es = List.map_filter getMessageFromEntry es"

lemma branch_messages_append: "branch_messages (xs @ ys) = branch_messages xs @ branch_messages ys"
  by (simp add: branch_messages_def List.map_filter_def)

text \<open>
  The pass over \<open>rev es\<close> adds the messages of a suffix of \<open>es\<close>, with their estimate, within the
  budget but for one summary entry.
\<close>

lemma branch_pass_suffix:
  "branch_pass budget (rev es) p = Some p' \<Longrightarrow>
     \<exists>k. bp_messages p' = branch_messages (drop k es) @ bp_messages p \<and>
         (\<exists>n. sum_tokens (branch_messages (drop k es)) = Some n \<and> bp_totalTokens p' = bp_totalTokens p + n)"
proof (induction es arbitrary: p rule: rev_induct)
  case Nil
  then show ?case by (simp add: branch_messages_def)
next
  case (snoc e es)
  have single: "branch_messages (drop k (es @ [e])) = branch_messages (drop k es) @ branch_messages [e]"
    if "k \<le> length es" for k
    using that by (simp add: branch_messages_append)
  have none: "branch_messages (drop (length (es @ [e])) (es @ [e])) = []" by (simp add: branch_messages_def)
  show ?case
  proof (cases "getMessageFromEntry e")
    case None
    then have "branch_pass budget (rev es) p = Some p'" using snoc.prems by simp
    from snoc.IH [OF this] obtain k where
      k: "bp_messages p' = branch_messages (drop k es) @ bp_messages p"
        "\<exists>n. sum_tokens (branch_messages (drop k es)) = Some n \<and> bp_totalTokens p' = bp_totalTokens p + n" by blast
    have "branch_messages (drop (min k (length es)) (es @ [e])) = branch_messages (drop k es)"
      using None by (simp add: branch_messages_append branch_messages_def [of "[e]"] min_def)
    with k show ?thesis by metis
  next
    case (Some m)
    define q where "q = p\<lparr>bp_fileOps := extractFileOpsFromMessage m (bp_fileOps p)\<rparr>"
    obtain t where t: "estimateTokens m = Some t"
      using snoc.prems Some by (auto simp: Let_def split: option.splits)
    define a where "a = q\<lparr>bp_messages := m # bp_messages q, bp_totalTokens := bp_totalTokens q + t\<rparr>"
    have pass: "p' = q \<or> p' = a \<or> branch_pass budget (rev es) a = Some p'"
      using snoc.prems Some t by (auto simp: Let_def q_def [symmetric] a_def [symmetric] split: if_splits)
    have one: "branch_messages [e] = [m]" using Some by (simp add: branch_messages_def)
    have fields: "bp_messages q = bp_messages p" "bp_totalTokens q = bp_totalTokens p"
        "bp_messages a = m # bp_messages p" "bp_totalTokens a = bp_totalTokens p + t"
      by (simp_all add: q_def a_def)
    from pass show ?thesis
    proof (elim disjE)
      assume "p' = q"
      then show ?thesis using none fields by (intro exI [of _ "length (es @ [e])"]) simp
    next
      assume "p' = a"
      then show ?thesis using single [of "length es"] one t fields
        by (intro exI [of _ "length es"]) (simp add: branch_messages_def [of "[]"])
    next
      assume "branch_pass budget (rev es) a = Some p'"
      from snoc.IH [OF this] obtain k n where
        k: "bp_messages p' = branch_messages (drop k es) @ bp_messages a"
          "sum_tokens (branch_messages (drop k es)) = Some n" "bp_totalTokens p' = bp_totalTokens a + n" by blast
      have "branch_messages (drop (min k (length es)) (es @ [e])) = branch_messages (drop k es) @ [m]"
        using one by (simp add: branch_messages_append min_def branch_messages_def [of "[]"])
      then show ?thesis using k t fields
        by (intro exI [of _ "min k (length es)"]) (simp add: sum_tokens_append)
    qed
  qed
qed

lemma branch_pass_budget:
  assumes "branch_pass budget es p = Some p'" and "0 < budget" and "int (bp_totalTokens p) \<le> budget"
  shows "int (bp_totalTokens p') \<le> budget \<or>
         (\<exists>m ms t. bp_messages p' = m # ms \<and> estimateTokens m = Some t \<and>
                   10 * (int (bp_totalTokens p') - int t) < 9 * budget \<and>
                   (\<exists>e \<in> set es. getMessageFromEntry e = Some m \<and> is_summary_body (body e)))"
  using assms
proof (induction budget es p rule: branch_pass.induct)
  case (1 budget p)
  then show ?case by simp
next
  case (2 budget e es p)
  show ?case
  proof (cases "getMessageFromEntry e")
    case None
    with 2 show ?thesis by auto
  next
    case (Some m)
    define q where "q = p\<lparr>bp_fileOps := extractFileOpsFromMessage m (bp_fileOps p)\<rparr>"
    obtain t where t: "estimateTokens m = Some t"
      using 2(3) Some by (auto simp: Let_def split: option.splits)
    define a where "a = q\<lparr>bp_messages := m # bp_messages q, bp_totalTokens := bp_totalTokens q + t\<rparr>"
    have fields: "bp_totalTokens q = bp_totalTokens p" "bp_totalTokens a = bp_totalTokens p + t"
        "bp_messages a = m # bp_messages p" by (simp_all add: q_def a_def)
    show ?thesis
    proof (cases "int (bp_totalTokens p + t) > budget")
      case True
      then have "(p' = a \<and> is_summary_body (body e) \<and> 10 * int (bp_totalTokens p) < 9 * budget) \<or> p' = q"
        using 2(3,4) Some t fields
        by (simp add: Let_def q_def [symmetric] split: if_splits) (auto simp: a_def)
      then show ?thesis using 2(5) Some t fields by auto
    next
      case False
      then have "branch_pass budget es a = Some p'"
        using 2(3,4) Some t fields by (simp add: Let_def q_def [symmetric] split: if_splits) (simp add: a_def)
      with 2(2) [OF Some q_def t a_def] False 2(4) fields show ?thesis by auto
    qed
  qed
qed

section \<open>Scans and files\<close>

lemma scan_down_last:
  "i < length xs \<Longrightarrow> P (xs ! i) \<Longrightarrow> \<forall>j. i < j \<and> j < length xs \<longrightarrow> \<not> P (xs ! j) \<Longrightarrow>
     scan_down (\<lambda>i. P (xs ! i)) 0 (length xs) = Some i"
proof (cases "scan_down (\<lambda>i. P (xs ! i)) 0 (length xs)")
  case None
  assume "i < length xs" "P (xs ! i)"
  with scan_down_NoneD [OF None] show ?thesis by auto
next
  case (Some j)
  assume "i < length xs" "P (xs ! i)" "\<forall>j. i < j \<and> j < length xs \<longrightarrow> \<not> P (xs ! j)"
  with scan_down_SomeD [OF Some] have "j = i" by (metis linorder_neqE_nat)
  with Some show ?thesis by simp
qed

definition ops_below :: "file_operations \<Rightarrow> file_operations \<Rightarrow> bool" where
  "ops_below a b \<longleftrightarrow> set (fo_read a) \<subseteq> set (fo_read b) \<and> set (fo_written a) \<subseteq> set (fo_written b) \<and>
                     set (fo_edited a) \<subseteq> set (fo_edited b)"

lemma ops_below_refl [simp]: "ops_below a a"
  by (simp add: ops_below_def)

lemma ops_below_trans [trans]: "ops_below a b \<Longrightarrow> ops_below b c \<Longrightarrow> ops_below a c"
  by (auto simp: ops_below_def)

lemma block_file_op_below: "ops_below ops (block_file_op b ops)"
  by (cases b) (auto simp: ops_below_def record_call_def split: option.split)

lemma extract_message_below: "ops_below ops (extractFileOpsFromMessage m ops)"
proof (cases m)
  case (Assistant a)
  have "ops_below ops (foldl (\<lambda>acc b. block_file_op b acc) ops bs)" for bs
    by (induction bs arbitrary: ops) (auto intro: ops_below_trans block_file_op_below)
  with Assistant show ?thesis by (auto split: option.split)
qed auto

lemma extract_all_below: "ops_below ops (extract_all ms ops)"
  unfolding extract_all_def
  by (induction ms arbitrary: ops) (auto intro: ops_below_trans extract_message_below)

lemma extract_all_mono:
  "set (fo_edited ops) \<subseteq> set (fo_edited (extract_all ms ops))"
  "set (fo_read ops) \<subseteq> set (fo_read (extract_all ms ops))"
  using extract_all_below [of ops ms] by (auto simp: ops_below_def)

end
