(* ===== verification/Context_Properties.thy ===== *)
theory Context_Properties
  imports Session_Demo Context_Lemmas
begin

text \<open>
  The properties of contexts, compactions and branch summaries: what a model call is given,
  what a compaction replaces, and what a summary of an abandoned branch covers.
\<close>

section \<open>Samples\<close>

definition demo_conversation :: "entry list" where
  "demo_conversation = (case conversation (fst demo) of Some p \<Rightarrow> p | None \<Rightarrow> [])"

definition demo_settings :: compaction_settings where
  "demo_settings = \<lparr>cs_enabled = True, cs_reserveTokens = 100, cs_keepRecentTokens = 1\<rparr>"

definition demo_preparation :: compaction_preparation where
  "demo_preparation = (case prepareCompaction demo_conversation demo_settings of Some (Some p) \<Rightarrow> p)"

lemma demo_prepared: "prepareCompaction demo_conversation demo_settings = Some (Some demo_preparation)"
proof -
  have "case prepareCompaction demo_conversation demo_settings of Some (Some p) \<Rightarrow> True | _ \<Rightarrow> False" by code_simp
  then show ?thesis by (auto simp: demo_preparation_def split: option.splits)
qed

lemma demo_conversation: "conversation (fst demo) = Some demo_conversation"
  using conversation_exists [OF reachable_wf [OF demo_reachable]] by (auto simp: demo_conversation_def)

section \<open>Contexts\<close>

text \<open>
  Appending a message to a reachable session adds exactly that message at the end of the
  context of the next model call, whatever compactions the session holds.
\<close>

theorem context_grows_by_message:
  assumes "reachable s w" and "exec_op (OpMessage m) s w = Some (Inr (), s', w')"
  shows "\<exists>c c'. sm_buildSessionContext s = Some c \<and> sm_buildSessionContext s' = Some c' \<and>
           sc_messages c' = sc_messages c @ [fill_content m]"
proof -
  have inv: "sm_inv s w" and inv': "sm_inv s' w'"
    using reachable_inv [OF assms(1)] exec_op_inv [OF _ assms(2)] by blast+
  obtain p where p: "conversation s = Some p" using conversation_exists inv by (auto simp: sm_inv_def)
  from assms(2) obtain v where v: "append_body (EMessage m) s w = (Inr v, s', w')"
    by (auto simp: appendMessage_def dest!: void_InrD)
  with inv p append_body_conversation [of s w "EMessage m" "Inr v" s' w' p] obtain e where
    e: "body e = EMessage m" "conversation s' = Some (p @ [e])" by (auto simp: sm_inv_def)
  have "distinct (map eid (p @ [e]))"
    using conversation_props(2) [OF _ e(2)] inv' by (simp add: sm_inv_def)
  then have "context_of_path (p @ [e]) = context_of_path p @ [e]" using e(1) by (simp add: context_of_path_append)
  moreover have "sessionEntryToContextMessages e = [fill_content m]"
    using e(1) by (simp add: sessionEntryToContextMessages_def)
  ultimately show ?thesis using inv inv' p e(2) by (simp add: sm_buildSessionContext_eq sm_inv_def)
qed

theorem context_grows_by_message_witness:
  "\<exists>s' w' c c'. exec_op (OpMessage demo_answer) (fst demo) (snd demo) = Some (Inr (), s', w') \<and>
     sm_buildSessionContext (fst demo) = Some c \<and> sm_buildSessionContext s' = Some c' \<and>
     sc_messages c' = sc_messages c @ [demo_answer]"
proof -
  let ?x = "exec_op (OpMessage demo_answer) (fst demo) (snd demo)"
  have "case ?x of Some (Inr _, s', w') \<Rightarrow> True | _ \<Rightarrow> False" by code_simp
  then obtain s' w' where x: "?x = Some (Inr (), s', w')"
    by (cases ?x) (auto split: option.split_asm prod.split_asm sum.split_asm)
  have "fill_content demo_answer = demo_answer" by (simp add: demo_answer_def)
  with x context_grows_by_message [OF demo_reachable x] show ?thesis by auto
qed

text \<open>
  C10. A prepared compaction splits the conversation since the last boundary: what is summarised,
  what is summarised as the prefix of a split turn, and what is kept are consecutive and complete,
  and something is summarised. The kept part starts at the entry whose id is recorded.
\<close>

theorem compaction_partition:
  assumes "prepareCompaction es settings = Some (Some p)"
  shows "\<exists>k < length es. pr_firstKeptEntryId p = eid (es ! k) \<and> boundary_start es \<le> k \<and>
           pr_messagesToSummarize p @ pr_turnPrefixMessages p @ messages_between es k (length es) =
             messages_between es (boundary_start es) (length es) \<and>
           pr_messagesToSummarize p @ pr_turnPrefixMessages p \<noteq> []"
  using assms
proof (rule prepareCompaction_result)
  fix cp h
  let ?k = "cp_firstKeptEntryIndex cp"
  assume *: "boundary_start es \<le> h" "h \<le> cp_firstKeptEntryIndex cp" "cp_firstKeptEntryIndex cp < length es"
    "pr_firstKeptEntryId p = eid (es ! cp_firstKeptEntryIndex cp)"
    "pr_messagesToSummarize p = messages_between es (boundary_start es) h"
    "pr_turnPrefixMessages p = messages_between es h (cp_firstKeptEntryIndex cp)"
    "pr_messagesToSummarize p \<noteq> [] \<or> pr_turnPrefixMessages p \<noteq> []"
  then have "pr_messagesToSummarize p @ pr_turnPrefixMessages p = messages_between es (boundary_start es) ?k"
    by (simp add: messages_between_split)
  with * messages_between_split [of "boundary_start es" ?k "length es" es] show ?thesis
    by (intro exI [of _ ?k]) (auto simp flip: append_assoc)
qed

theorem compaction_partition_witness:
  "\<exists>k < length demo_conversation. pr_firstKeptEntryId demo_preparation = eid (demo_conversation ! k)"
  using compaction_partition [OF demo_prepared] by blast

text \<open>
  C2. Compacting a session: after the prepared compaction of its conversation has been appended,
  the next model call is given the summary followed by exactly the messages of the kept
  entries, in order; the log still holds every entry.
\<close>

theorem compaction_replaces_history:
  assumes "reachable s w" and "conversation s = Some path"
    and "prepareCompaction path settings = Some (Some p)"
    and "exec_op (OpCompaction summary (pr_firstKeptEntryId p) n d h u) s w = Some (Inr (), s', w')"
  shows "\<exists>k < length path. pr_firstKeptEntryId p = eid (path ! k) \<and>
           (\<exists>c t. sm_buildSessionContext s' = Some c \<and>
                  sc_messages c = CompactionSummary summary n t # context_messages (drop k path)) \<and>
           set (getEntries s) \<subseteq> set (getEntries s')"
proof -
  have inv: "sm_inv s w" and inv': "sm_inv s' w'"
    using reachable_inv [OF assms(1)] exec_op_inv [OF _ assms(4)] by blast+
  let ?d = "\<lparr>ce_summary = summary, ce_firstKeptEntryId = Some (pr_firstKeptEntryId p), ce_tokensBefore = n,
             ce_details = d, ce_usage = u, ce_fromHook = h\<rparr>"
  from assms(4) obtain v where "append_body (ECompaction ?d) s w = (Inr v, s', w')"
    by (auto simp: appendCompaction_def dest!: void_InrD)
  with inv append_body_conversation [of s w "ECompaction ?d" "Inr v" s' w' path] assms(2) obtain e where
    e: "body e = ECompaction ?d" "conversation s' = Some (path @ [e])" "getEntries s' = getEntries s @ [e]"
    by (auto simp: sm_inv_def)
  obtain k where k: "k < length path" "pr_firstKeptEntryId p = eid (path ! k)"
    using assms(3) by (rule prepareCompaction_result) blast
  have "distinct (map eid (path @ [e]))"
    using conversation_props(2) [OF _ e(2)] inv' by (simp add: sm_inv_def)
  from context_after_compaction [OF this e(1) k(1)] k(2) e inv' show ?thesis
    by (intro exI [of _ k]) (auto simp: sm_buildSessionContext_eq sm_inv_def k(1))
qed

theorem compaction_replaces_history_witness:
  "\<exists>s' w' k c t. exec_op (OpCompaction ''S'' (pr_firstKeptEntryId demo_preparation) 7 None False None) (fst demo) (snd demo)
       = Some (Inr (), s', w') \<and> k < length demo_conversation \<and> sm_buildSessionContext s' = Some c \<and>
     sc_messages c = CompactionSummary ''S'' 7 t # context_messages (drop k demo_conversation)"
proof -
  let ?x = "exec_op (OpCompaction ''S'' (pr_firstKeptEntryId demo_preparation) 7 None False None) (fst demo) (snd demo)"
  have "case ?x of Some (Inr _, s', w') \<Rightarrow> True | _ \<Rightarrow> False" by code_simp
  then obtain s' w' where x: "?x = Some (Inr (), s', w')"
    by (cases ?x) (auto split: option.split_asm prod.split_asm sum.split_asm)
  from compaction_replaces_history [OF demo_reachable demo_conversation demo_prepared x] x show ?thesis
    by blast
qed

text \<open>
  The kept part never starts with a tool result: when the range has an entry a cut may be
  placed at, the first message that is kept is not one.
\<close>

theorem kept_part_starts_a_context:
  assumes "findCutPoint es s (length es) keep = Some cp" and "findValidCutPoints es s (length es) \<noteq> []"
  shows "\<exists>m ms. context_messages (drop (cp_firstKeptEntryIndex cp) es) = m # ms \<and> \<not> is_tool_result m"
proof -
  from assms(2) obtain c0 cps where "findValidCutPoints es s (length es) = c0 # cps"
    by (cases "findValidCutPoints es s (length es)") auto
  with assms(1) obtain m c where
    "context_messages (drop (cp_firstKeptEntryIndex cp) es) = m # context_messages (drop (Suc c) es)"
    "isCutPointMessage m" by (rule findCutPoint_kept_messages)
  then show ?thesis by (cases m) auto
qed

theorem kept_part_starts_a_context_witness:
  "\<exists>cp m ms. findCutPoint demo_conversation 0 (length demo_conversation) 1 = Some cp \<and>
     context_messages (drop (cp_firstKeptEntryIndex cp) demo_conversation) = m # ms \<and> \<not> is_tool_result m"
proof -
  have "findCutPoint demo_conversation 0 (length demo_conversation) 1 \<noteq> None" by code_simp
  moreover have "findValidCutPoints demo_conversation 0 (length demo_conversation) \<noteq> []" by code_simp
  ultimately show ?thesis using kept_part_starts_a_context by blast
qed

text \<open>
  C8. The kept part fits the budget but for its first message: when the range ends with an entry
  a cut may be placed at, everything kept after the first kept message is estimated below
  \<open>keepRecentTokens\<close>.
\<close>

theorem kept_part_fits_budget:
  assumes "findCutPoint es s (length es) keep = Some cp" and "0 < keep" and "s < length es"
    and "is_cut_entry (last es)"
  shows "\<exists>c m. c < length es \<and> sessionEntryToContextMessages (es ! c) = [m] \<and>
           context_messages (drop (cp_firstKeptEntryIndex cp) es) = m # context_messages (drop (Suc c) es) \<and>
           tokens_from es (Suc c) < keep"
proof -
  have l: "length es - 1 \<in> set (findValidCutPoints es s (length es))"
    using assms(3,4) by (cases "es = []") (auto simp: in_valid_cut_points last_conv_nth)
  then obtain c0 cps where vs: "findValidCutPoints es s (length es) = c0 # cps"
    by (cases "findValidCutPoints es s (length es)") auto
  with assms(1) obtain m c where
    c: "context_messages (drop (cp_firstKeptEntryIndex cp) es) = m # context_messages (drop (Suc c) es)"
      "c < length es" "s \<le> c" "sessionEntryToContextMessages (es ! c) = [m]"
      "cut_walk es s keep (c0 # cps) c0 0 (length es) = Some c"
    by (rule findCutPoint_kept_messages)
  have "0 = tokens_from es (length es)" by (simp add: tokens_from_def)
  moreover have "\<exists>l \<in> set (c0 # cps). \<forall>i. i < length es \<longrightarrow> i \<le> l"
    using l unfolding vs by force
  ultimately have "tokens_from es (Suc c) < keep"
    using cut_walk_budget [OF _ _ assms(2) c(5)] assms(3) tokens_from_mono [of s "Suc c" es] c(3) by force
  with c show ?thesis by blast
qed

theorem kept_part_fits_budget_witness:
  "\<exists>cp c. findCutPoint demo_conversation 0 (length demo_conversation) 2 = Some cp \<and>
     c < length demo_conversation \<and> tokens_from demo_conversation (Suc c) < 2"
proof -
  have "findCutPoint demo_conversation 0 (length demo_conversation) 2 \<noteq> None" by code_simp
  moreover have "0 < length demo_conversation" "is_cut_entry (last demo_conversation)" by code_simp+
  ultimately show ?thesis using kept_part_fits_budget [of demo_conversation 0 2] by fastforce
qed

section \<open>Estimates\<close>

text \<open>
  The context estimate: with an answer that reports its usage and nothing newer that does,
  it is the reported total plus the estimates of the messages after that answer; the messages
  before it do not matter.
\<close>

theorem estimate_after_last_usage:
  assumes "getAssistantUsage a = Some u" and "\<forall>m \<in> set after. getAssistantUsage m = None"
    and "sum_tokens after = Some n"
  shows "estimateContextTokens (before @ a # after) =
           Some \<lparr>cu_tokens = calculateContextTokens u + n, cu_usageTokens = calculateContextTokens u,
                 cu_trailingTokens = n, cu_lastUsageIndex = Some (length before)\<rparr>"
proof -
  let ?xs = "before @ a # after"
  have "?xs ! j \<in> set after" if "length before < j" "j < length ?xs" for j
    using that by (simp add: nth_append nth_Cons')
  then have "scan_down (\<lambda>i. getAssistantUsage (?xs ! i) \<noteq> None) 0 (length ?xs) = Some (length before)"
    using assms(1,2) by (intro scan_down_last) auto
  then have "getLastAssistantUsageInfo ?xs = Some (u, length before)"
    unfolding getLastAssistantUsageInfo_def using assms(1) by simp
  then show ?thesis using assms(3) by (simp add: estimateContextTokens_def)
qed

theorem estimate_after_last_usage_witness:
  "map_option cu_tokens (estimateContextTokens [demo_user, demo_answer, demo_user]) = Some 16"
proof -
  have "getAssistantUsage demo_answer = Some demo_usage" "sum_tokens [demo_user] = Some 1"
      "getAssistantUsage demo_user = None" "calculateContextTokens demo_usage = 15"
    by code_simp+
  with estimate_after_last_usage [of demo_answer demo_usage "[demo_user]" 1 "[demo_user]"] show ?thesis by simp
qed

section \<open>The files a summary carries on\<close>

text \<open>
  File tracking is cumulative: what a compaction recorded in its details is in the lists the
  next compaction computes, whatever is summarised in between. A modified file stays modified; a
  read file stays listed, as read or as modified by then. The two lists are sorted, without
  repetition and disjoint.
\<close>

theorem file_tracking_cumulative:
  assumes "compact call ct model lvl instr p = Inr cr" and "i < length es"
    and "body (es ! i) = ECompaction c" and "ce_details c = Some (cr_details cr)" and "\<not> ce_fromHook c"
    and "computeFileLists (extractFileOperations messages es (Some i)) = (rs, ms)"
  shows "set (detail_files (cr_details cr) ''modifiedFiles'') \<subseteq> set ms \<and>
         set (detail_files (cr_details cr) ''readFiles'') \<subseteq> set rs \<union> set ms \<and>
         sorted rs \<and> sorted ms \<and> distinct rs \<and> distinct ms \<and> set rs \<inter> set ms = {}"
proof -
  let ?d = "cr_details cr"
  let ?base = "createFileOps\<lparr>fo_read := set_add_all (detail_files ?d ''readFiles'') [],
                             fo_edited := set_add_all (detail_files ?d ''modifiedFiles'') []\<rparr>"
  have ops: "extractFileOperations messages es (Some i) = extract_all messages ?base"
    using assms(3-5) by (simp add: extractFileOperations_def)
  have "ops_distinct ?base" by (simp add: ops_distinct_def createFileOps_def distinct_set_add_all)
  then have "distinct rs" using computeFileLists_distinct [OF extract_all_distinct] assms(6) ops by metis
  moreover have "set (fo_edited ?base) \<subseteq> set (fo_edited (extract_all messages ?base))"
      "set (fo_read ?base) \<subseteq> set (fo_read (extract_all messages ?base))"
    using extract_all_mono by blast+
  ultimately show ?thesis
    using computeFileLists_sets [OF assms(6)] by (auto simp: ops)
qed

definition demo_call :: llm_call where
  "demo_call r = Some \<lparr>rs_content = [TextBlock ''S''], rs_stopReason = OtherStop ''stop'',
                       rs_errorMessage = None, rs_usage = demo_usage\<rparr>"

definition demo_text :: text_of where
  "demo_text sep c = (case c of Plain s \<Rightarrow> s | Blocks bs \<Rightarrow> concat (map (\<lambda>b. case b of TextBlock s \<Rightarrow> s | _ \<Rightarrow> []) bs))"

definition demo_model :: llm_model where
  "demo_model = \<lparr>lm_maxTokens = 0, lm_contextWindow = 0, lm_reasoning = False\<rparr>"

definition demo_edit :: agent_message where
  "demo_edit = Assistant \<lparr>am_content = Some [ToolCallBlock ''1'' ''edit'' [(''path'', JStr ''a.ts'')]],
     am_provider = ''p'', am_model = ''m'', am_stopReason = OtherStop ''stop'', am_usage = None,
     am_errorMessage = None, am_timestamp = 3\<rparr>"

definition demo_edit_preparation :: compaction_preparation where
  "demo_edit_preparation =
     \<lparr>pr_firstKeptEntryId = ''k'', pr_messagesToSummarize = [demo_edit], pr_turnPrefixMessages = [],
      pr_isSplitTurn = False, pr_tokensBefore = 9, pr_previousSummary = None,
      pr_fileOps = extract_all [demo_edit] createFileOps, pr_settings = demo_settings\<rparr>"

lemma demo_compacted:
  obtains cr where "compact demo_call demo_text demo_model None None demo_edit_preparation = Inr cr"
    and "cr_details cr = details_json [] [''a.ts'']"
proof -
  have lists: "computeFileLists (pr_fileOps demo_edit_preparation) = ([], [''a.ts''])" by code_simp
  then show ?thesis
    using that
    by (auto simp: compact_def compaction_summary_def generateSummaryWithUsage_def completeSummarization_def
        demo_call_def demo_edit_preparation_def Let_def)
qed

theorem file_tracking_cumulative_witness:
  "\<exists>cr rs ms. compact demo_call demo_text demo_model None None demo_edit_preparation = Inr cr \<and>
     computeFileLists (extractFileOperations []
       [\<lparr>eid = ''c'', parentId = None, timestamp = 1, body = ECompaction
          \<lparr>ce_summary = ''S'', ce_firstKeptEntryId = Some ''k'', ce_tokensBefore = 9,
           ce_details = Some (cr_details cr), ce_usage = None, ce_fromHook = False\<rparr>\<rparr>] (Some 0)) = (rs, ms) \<and>
     ''a.ts'' \<in> set ms"
proof -
  obtain cr where cr: "compact demo_call demo_text demo_model None None demo_edit_preparation = Inr cr"
      "cr_details cr = details_json [] [''a.ts'']" by (rule demo_compacted)
  let ?c = "\<lparr>ce_summary = ''S'', ce_firstKeptEntryId = Some ''k'', ce_tokensBefore = 9,
             ce_details = Some (cr_details cr), ce_usage = None, ce_fromHook = False\<rparr>"
  let ?es = "[\<lparr>eid = ''c'', parentId = None, timestamp = 1, body = ECompaction ?c\<rparr>]"
  obtain rs ms where l: "computeFileLists (extractFileOperations [] ?es (Some 0)) = (rs, ms)" by (meson surj_pair)
  have "''a.ts'' \<in> set ms"
    using file_tracking_cumulative [OF cr(1) _ _ _ _ l, of ?c] cr(2) by (simp add: detail_files_roundtrip)
  with cr(1) l show ?thesis by blast
qed

text \<open>
  C19. A compaction of a split turn that has nothing older to summarise drops the summary it was
  to update: its text is the fixed phrase and the summary of the turn prefix, and does not depend
  on \<open>previousSummary\<close>, although the entry that held it is no longer part of the context.
\<close>

theorem split_turn_drops_previous_summary:
  assumes "pr_isSplitTurn p" and "pr_turnPrefixMessages p \<noteq> []" and "pr_messagesToSummarize p = []"
    and "compact call ct model lvl instr p = Inr cr"
  shows "compact call ct model lvl instr (p\<lparr>pr_previousSummary := prev\<rparr>) = Inr cr \<and>
         (\<exists>prefix rest. cr_summary cr = split_summary NO_PRIOR_HISTORY prefix @ rest)"
proof -
  have "compaction_summary call ct model lvl instr (p\<lparr>pr_previousSummary := prev\<rparr>) =
      compaction_summary call ct model lvl instr p"
    using assms(1-3) by (simp add: compaction_summary_def)
  then have "compact call ct model lvl instr (p\<lparr>pr_previousSummary := prev\<rparr>) = compact call ct model lvl instr p"
    by (auto simp: compact_def split: sum.split prod.split)
  moreover have "\<exists>prefix rest. cr_summary cr = split_summary NO_PRIOR_HISTORY prefix @ rest"
    using assms
    by (auto simp: compact_def compaction_summary_def Let_def split: sum.splits prod.splits if_splits) blast
  ultimately show ?thesis using assms(4) by simp
qed

text \<open>
  A session where this happens: the kept part of the first compaction is one long turn, and the
  second compaction cuts inside it.
\<close>

definition split_entry :: "string \<Rightarrow> string option \<Rightarrow> entry_body \<Rightarrow> entry" where
  "split_entry i par b = \<lparr>eid = i, parentId = par, timestamp = 0, body = b\<rparr>"

definition split_path :: "entry list" where
  "split_path =
     [split_entry ''1'' None (EMessage demo_user),
      split_entry ''2'' (Some ''1'') (ECompaction
        \<lparr>ce_summary = ''the old summary'', ce_firstKeptEntryId = Some ''1'', ce_tokensBefore = 9, ce_details = None,
         ce_usage = None, ce_fromHook = False\<rparr>),
      split_entry ''3'' (Some ''2'') (EMessage demo_edit),
      split_entry ''4'' (Some ''3'') (EMessage demo_answer)]"

definition split_preparation :: compaction_preparation where
  "split_preparation = (case prepareCompaction split_path demo_settings of Some (Some p) \<Rightarrow> p)"

theorem split_turn_drops_previous_summary_witness:
  "\<exists>cr. prepareCompaction split_path demo_settings = Some (Some split_preparation) \<and>
     pr_previousSummary split_preparation = Some ''the old summary'' \<and>
     compact demo_call demo_text demo_model None None split_preparation = Inr cr \<and>
     compact demo_call demo_text demo_model None None (split_preparation\<lparr>pr_previousSummary := None\<rparr>) = Inr cr"
proof -
  have "case prepareCompaction split_path demo_settings of Some (Some p) \<Rightarrow>
      pr_isSplitTurn p \<and> pr_turnPrefixMessages p \<noteq> [] \<and> pr_messagesToSummarize p = [] \<and>
      pr_previousSummary p = Some ''the old summary'' \<and> pr_firstKeptEntryId p \<noteq> [] | _ \<Rightarrow> False"
    by code_simp
  then have p: "prepareCompaction split_path demo_settings = Some (Some split_preparation)"
      "pr_isSplitTurn split_preparation" "pr_turnPrefixMessages split_preparation \<noteq> []"
      "pr_messagesToSummarize split_preparation = []"
      "pr_previousSummary split_preparation = Some ''the old summary''" "pr_firstKeptEntryId split_preparation \<noteq> []"
    by (auto simp: split_preparation_def split: option.splits)
  obtain rs ms where "computeFileLists (pr_fileOps split_preparation) = (rs, ms)" by (meson surj_pair)
  with p obtain cr where "compact demo_call demo_text demo_model None None split_preparation = Inr cr"
    by (auto simp: compact_def compaction_summary_def generateTurnPrefixSummary_def completeSummarization_def
        demo_call_def Let_def)
  with split_turn_drops_previous_summary [OF p(2-4) this, of None] p show ?thesis by blast
qed

section \<open>Summaries of an abandoned branch\<close>

text \<open>
  Navigating from one entry of a reachable session to another: the entries to summarise are
  exactly those of the branch being left that are not on the branch being entered, oldest first,
  and the reported ancestor is the last entry the two branches share.
\<close>

theorem branch_summary_covers_abandoned_part:
  assumes "reachable s w" and "old \<in> eid ` set (getEntries s)" and "target \<in> eid ` set (getEntries s)"
  shows "\<exists>common es rest. getBranch s (Some old) = Some (common @ es) \<and>
           getBranch s (Some target) = Some (common @ rest) \<and> set es \<inter> set (common @ rest) = {} \<and>
           collectEntriesForBranchSummary s (Some old) target = Some (es, last_id common)"
proof -
  have wf: "wf_session s" using assms(1) by (rule reachable_wf)
  from getBranch_path_to [OF wf assms(2)] getBranch_path_to [OF wf assms(3)] obtain p q where
    "getBranch s (Some old) = Some p" "getBranch s (Some target) = Some q" by blast
  with collect_entries_split [OF wf assms(2,3) this] show ?thesis by blast
qed

theorem branch_summary_covers_abandoned_part_witness:
  "\<exists>es. collectEntriesForBranchSummary (fst demo) (Some ''aaabbbbb'') ''bbbbbbbb'' = Some (es, Some ''bbbbbbbb'') \<and>
     map eid es = [''abbbbbbb'', ''aabbbbbb'', ''aaabbbbb'']"
proof -
  have m: "''aaabbbbb'' \<in> eid ` set (getEntries (fst demo))" "''bbbbbbbb'' \<in> eid ` set (getEntries (fst demo))"
    using arg_cong [OF demo_ids, of set] by auto
  have b: "map_option (map eid) (getBranch (fst demo) (Some ''bbbbbbbb'')) = Some [''bbbbbbbb'']"
      "map_option (map eid) (getBranch (fst demo) (Some ''aaabbbbb'')) =
         Some [''bbbbbbbb'', ''abbbbbbb'', ''aabbbbbb'', ''aaabbbbb'']" by code_simp+
  from branch_summary_covers_abandoned_part [OF demo_reachable m] obtain c es rest where
    c: "getBranch (fst demo) (Some ''aaabbbbb'') = Some (c @ es)"
      "getBranch (fst demo) (Some ''bbbbbbbb'') = Some (c @ rest)" "set es \<inter> set (c @ rest) = {}"
      "collectEntriesForBranchSummary (fst demo) (Some ''aaabbbbb'') ''bbbbbbbb'' = Some (es, last_id c)" by blast
  from b c have l: "map eid c @ map eid rest = [''bbbbbbbb'']"
      "map eid c @ map eid es = [''bbbbbbbb'', ''abbbbbbb'', ''aabbbbbb'', ''aaabbbbb'']" by simp_all
  have "c \<noteq> []"
  proof
    assume "c = []"
    then obtain x y ys where xy: "rest = [x]" "es = y # ys" "eid x = eid y" using l by (cases es) auto
    have "x \<in> set (getEntries (fst demo))" "y \<in> set (getEntries (fst demo))"
      using c \<open>c = []\<close> xy getBranch_subset [OF reachable_wf [OF demo_reachable]] by fastforce+
    then have "x = y" using wf_log_inj reachable_wf [OF demo_reachable] xy(3) by (metis wf_session_def)
    with c(3) xy show False by simp
  qed
  then obtain x where "c = [x]" "eid x = ''bbbbbbbb''" using l(1) by (cases c) auto
  with c(4) l(2) show ?thesis by (auto simp: last_id_def)
qed

text \<open>
  The messages given to a branch summary are those of a suffix of the branch, in order, and
  the reported total is their estimate. With a budget, the total stays within it, but for an
  oldest message that is itself a summary, added while less than nine tenths were used.
\<close>

theorem branch_summary_fits_budget:
  assumes "prepareBranchEntries es budget = Some p"
  shows "(\<exists>k. bp_messages p = branch_messages (drop k es) \<and> sum_tokens (bp_messages p) = Some (bp_totalTokens p)) \<and>
         (0 < budget \<longrightarrow> int (bp_totalTokens p) \<le> budget \<or>
            (\<exists>m ms t. bp_messages p = m # ms \<and> estimateTokens m = Some t \<and>
               10 * (int (bp_totalTokens p) - int t) < 9 * budget \<and>
               (\<exists>e \<in> set es. getMessageFromEntry e = Some m \<and> is_summary_body (body e))))"
  using branch_pass_suffix [OF assms [unfolded prepareBranchEntries_def]]
    branch_pass_budget [OF assms [unfolded prepareBranchEntries_def]]
  by auto

theorem branch_summary_fits_budget_witness:
  "\<exists>p. prepareBranchEntries demo_conversation 3 = Some p \<and> int (bp_totalTokens p) \<le> 3 \<and> bp_messages p \<noteq> []"
proof -
  have "case prepareBranchEntries demo_conversation 3 of
      Some p \<Rightarrow> bp_messages p \<noteq> [] \<and> \<not> (\<exists>e \<in> set demo_conversation. is_summary_body (body e)) | None \<Rightarrow> False"
    by code_simp
  then obtain p where p: "prepareBranchEntries demo_conversation 3 = Some p" "bp_messages p \<noteq> []"
      "\<not> (\<exists>e \<in> set demo_conversation. is_summary_body (body e))"
    by (auto split: option.splits)
  with branch_summary_fits_budget [OF p(1)] show ?thesis by auto
qed

section \<open>Where the code falls short\<close>

text \<open>
  C22. The cut may be moved back over metadata onto a label entry, and a compaction then records
  the label as its first kept entry. Extracting the branch drops label entries, so in the new
  session the id dangles: messages that were in the context are not any more.
\<close>

definition kept_compaction :: sm_op where
  "kept_compaction = OpCompaction ''S'' (pr_firstKeptEntryId demo_preparation) 7 None False None"

definition kept_before :: "session_manager \<times> world" where
  "kept_before = the (run_ops [kept_compaction] (fst demo) (snd demo))"

definition kept_after :: "session_manager \<times> world" where
  "kept_after = the (run_ops [OpBranchedSession (the (sm_leafId (fst kept_before)))] (fst kept_before) (snd kept_before))"

theorem extraction_loses_kept_messages:
  "reachable (fst kept_before) (snd kept_before) \<and> reachable (fst kept_after) (snd kept_after) \<and>
   map_option sc_messages (sm_buildSessionContext (fst kept_before)) = Some [CompactionSummary ''S'' 7 5, demo_user] \<and>
   map_option sc_messages (sm_buildSessionContext (fst kept_after)) = Some [CompactionSummary ''S'' 7 5]"
proof (intro conjI)
  have "run_ops [kept_compaction] (fst demo) (snd demo) \<noteq> None" by code_simp
  then show before: "reachable (fst kept_before) (snd kept_before)"
    using run_ops_reachable [OF _ demo_reachable, of "[kept_compaction]" "fst kept_before" "snd kept_before"]
    by (auto simp: kept_before_def)
  have "run_ops [OpBranchedSession (the (sm_leafId (fst kept_before)))] (fst kept_before) (snd kept_before) \<noteq> None"
    by code_simp
  then show "reachable (fst kept_after) (snd kept_after)"
    using run_ops_reachable [OF _ before, of "[OpBranchedSession (the (sm_leafId (fst kept_before)))]"
        "fst kept_after" "snd kept_after"]
    by (auto simp: kept_after_def)
  show "map_option sc_messages (sm_buildSessionContext (fst kept_before)) = Some [CompactionSummary ''S'' 7 5, demo_user]"
    by code_simp
  show "map_option sc_messages (sm_buildSessionContext (fst kept_after)) = Some [CompactionSummary ''S'' 7 5]"
    by code_simp
qed

text \<open>
  Tool results at the end of the range that alone exceed the budget defeat the cut: no cut
  point lies at or after them, so the walk falls back to the first cut point, everything is kept and
  nothing is left to compact.
\<close>

theorem trailing_tool_results_prevent_compaction:
  assumes "findValidCutPoints es s (length es) = c0 # cps"
    and "\<forall>c \<in> set (c0 # cps). c < i" and "i < length es" and "s \<le> i"
    and "entry_tokens (es ! i) = Some t" and "keep \<le> t" and "0 < t"
    and "\<forall>j. i < j \<and> j < length es \<longrightarrow> entry_tokens (es ! j) = Some 0"
    and "findCutPoint es s (length es) keep = Some cp"
  shows "cp_firstKeptEntryIndex cp \<le> c0"
proof -
  have "cut_walk es s keep (c0 # cps) c0 0 n = Some c0" if "i < n" "n \<le> length es" for n
    using that
  proof (induction n)
    case 0
    then show ?case by simp
  next
    case (Suc n)
    show ?case
    proof (cases "n = i")
      case True
      have "find (\<lambda>c. c \<ge> i) (c0 # cps) = None" using assms(2) by (auto simp: find_None_iff)
      then show ?thesis using True assms(4-7) by (simp del: find.simps)
    next
      case False
      then show ?thesis using Suc assms(4,8) by simp
    qed
  qed
  from this [OF assms(3)] have w: "cut_walk es s keep (c0 # cps) c0 0 (length es) = Some c0" by simp
  then have "cp_firstKeptEntryIndex cp = skip_metadata es s c0"
    using assms(1,9) by (auto simp: findCutPoint_def Let_def)
  then show ?thesis by (simp add: skip_metadata_le)
qed

definition tool_path :: "entry list" where
  "tool_path =
     [split_entry ''1'' None (EMessage demo_user), split_entry ''2'' (Some ''1'') (EMessage demo_edit),
      split_entry ''3'' (Some ''2'') (EMessage (ToolResult ''1'' (Some (Plain ''four tokens here'')) 4))]"

theorem trailing_tool_results_prevent_compaction_witness:
  "\<exists>cp. findCutPoint tool_path 0 (length tool_path) 1 = Some cp \<and> cp_firstKeptEntryIndex cp = 0 \<and>
     prepareCompaction tool_path demo_settings = Some None"
proof -
  have v: "findValidCutPoints tool_path 0 (length tool_path) = [0, 1]" by code_simp
  have t: "entry_tokens (tool_path ! 2) = Some 4" by code_simp
  have l: "length tool_path = 3" by (simp add: tool_path_def)
  have "findCutPoint tool_path 0 (length tool_path) 1 \<noteq> None" by code_simp
  then obtain cp where cp: "findCutPoint tool_path 0 (length tool_path) 1 = Some cp" by auto
  have "cp_firstKeptEntryIndex cp \<le> 0"
    by (rule trailing_tool_results_prevent_compaction [OF v _ _ _ t _ _ _ cp]) (auto simp: l)
  moreover have "prepareCompaction tool_path demo_settings = Some None" by code_simp
  ultimately show ?thesis using cp by simp
qed

section \<open>Messages for the model\<close>

text \<open>
  C11. The projection to model messages: the result has only the roles user, assistant and
  tool result, projecting twice is projecting once, messages of these roles are untouched, and only
  shell runs excluded from the context are dropped.
\<close>

theorem convertToLlm_correct:
  "(\<forall>m \<in> set (convertToLlm ms). is_llm_role m) \<and> convertToLlm (convertToLlm ms) = convertToLlm ms \<and>
   convertToLlm (filter is_llm_role ms) = filter is_llm_role ms \<and>
   length (convertToLlm ms) = length (filter (\<lambda>m. \<not> excluded_from_context m) ms)"
  using convertToLlm_roles [of _ ms] convertToLlm_idem [of ms] convertToLlm_length [of ms]
    convertToLlm_id [of "filter is_llm_role ms"]
  by (auto simp: list_all_iff)

theorem convertToLlm_correct_witness:
  "convertToLlm [demo_user, BranchSummary ''S'' ''b'' 3, demo_answer] \<noteq> [] \<and>
   is_llm_role (hd (convertToLlm [demo_user, BranchSummary ''S'' ''b'' 3, demo_answer]))"
proof -
  have "convertToLlm [demo_user, BranchSummary ''S'' ''b'' 3, demo_answer] \<noteq> []"
    by (simp add: demo_user_def)
  with convertToLlm_correct [of "[demo_user, BranchSummary ''S'' ''b'' 3, demo_answer]"] show ?thesis
    by (metis hd_in_set)
qed

end
