(* ===== verification/Path_Resolve.thy ===== *)
theory Path_Resolve
  imports Prelude "HOL-Library.Sublist"
begin

text \<open>
  \<open>path.resolve\<close> of Node on POSIX, as the harness uses it, and the containment test
  \<open>within\<close> of \<open>src/harness/runtime-policy.ts\<close>. A resolved path is the list of its segments
  written after slashes; \<open>pcwd\<close> stands for the process directory, an absolute path.
\<close>

abbreviation slash :: char where
  "slash \<equiv> CHR ''/''"

fun split_slash :: "string \<Rightarrow> string list" where
  "split_slash [] = [[]]"
| "split_slash (c # cs) =
     (case split_slash cs of
        [] \<Rightarrow> [[c]]
      | seg # segs \<Rightarrow> if c = slash then [] # seg # segs else (c # seg) # segs)"

fun step_segment :: "string list \<Rightarrow> string \<Rightarrow> string list" where
  "step_segment acc seg =
     (if seg = [] \<or> seg = ''.'' then acc
      else if seg = ''..'' then butlast acc
      else acc @ [seg])"

definition is_absolute :: "string \<Rightarrow> bool" where
  "is_absolute p = (p \<noteq> [] \<and> hd p = slash)"

definition norm_segments :: "string list \<Rightarrow> string \<Rightarrow> string list" where
  "norm_segments base p = foldl step_segment base (split_slash p)"

definition abs_segments :: "string \<Rightarrow> string \<Rightarrow> string list" where
  "abs_segments pcwd p =
     (if is_absolute p then norm_segments [] p else norm_segments (norm_segments [] pcwd) p)"

definition show_segments :: "string list \<Rightarrow> string" where
  "show_segments segs = (if segs = [] then [slash] else concat (map (\<lambda>s. slash # s) segs))"

definition resolve1 :: "string \<Rightarrow> string \<Rightarrow> string" where
  "resolve1 pcwd p = show_segments (abs_segments pcwd p)"

text \<open>\<open>resolve(base, p)\<close>.\<close>

definition resolve2_segments :: "string \<Rightarrow> string \<Rightarrow> string \<Rightarrow> string list" where
  "resolve2_segments pcwd base p =
     (if is_absolute p then norm_segments [] p else norm_segments (abs_segments pcwd base) p)"

definition resolve2 :: "string \<Rightarrow> string \<Rightarrow> string \<Rightarrow> string" where
  "resolve2 pcwd base p = show_segments (resolve2_segments pcwd base p)"

definition ends_with_slash :: "string \<Rightarrow> bool" where
  "ends_with_slash s = (s \<noteq> [] \<and> last s = slash)"

definition within_dir :: "string \<Rightarrow> string \<Rightarrow> bool" where
  "within_dir target root =
     (target = root \<or> prefix (if ends_with_slash root then root else root @ [slash]) target)"

section \<open>Containment is containment of segments\<close>

definition segment :: "string \<Rightarrow> bool" where
  "segment s \<longleftrightarrow> s \<noteq> [] \<and> slash \<notin> set s \<and> s \<noteq> ''.'' \<and> s \<noteq> ''..''"

lemma split_slash_not_Nil: "split_slash p \<noteq> []"
  by (induction p) (auto split: list.splits)

lemma split_slash_no_slash: "seg \<in> set (split_slash p) \<Longrightarrow> slash \<notin> set seg"
proof (induction p arbitrary: seg)
  case Nil
  then show ?case by simp
next
  case (Cons c cs)
  then show ?case using split_slash_not_Nil [of cs] by (cases "split_slash cs") (auto split: if_splits)
qed

lemma step_segment_valid: "\<forall>s \<in> set acc. segment s \<Longrightarrow> slash \<notin> set x \<Longrightarrow> \<forall>s \<in> set (step_segment acc x). segment s"
  by (auto simp: segment_def dest: in_set_butlastD)

lemma fold_segments_valid:
  "\<forall>s \<in> set acc. segment s \<Longrightarrow> \<forall>s \<in> set segs. slash \<notin> set s \<Longrightarrow> \<forall>s \<in> set (foldl step_segment acc segs). segment s"
proof (induction segs arbitrary: acc)
  case Nil
  then show ?case by simp
next
  case (Cons x segs)
  have "\<forall>s \<in> set (step_segment acc x). segment s" using Cons.prems by (intro step_segment_valid) auto
  with Cons show ?case by simp
qed

lemma norm_segments_valid: "\<forall>s \<in> set base. segment s \<Longrightarrow> \<forall>s \<in> set (norm_segments base p). segment s"
  unfolding norm_segments_def by (rule fold_segments_valid) (auto dest: split_slash_no_slash)

lemma abs_segments_valid: "\<forall>s \<in> set (abs_segments pcwd p). segment s"
proof -
  have "\<forall>s \<in> set (norm_segments [] q). segment s" for q by (rule norm_segments_valid) simp
  then show ?thesis using norm_segments_valid [of "norm_segments [] pcwd" p] by (simp add: abs_segments_def)
qed

lemma resolve2_segments_valid: "\<forall>s \<in> set (resolve2_segments pcwd base p). segment s"
proof -
  have "\<forall>s \<in> set (norm_segments [] p). segment s" by (rule norm_segments_valid) simp
  then show ?thesis
    using norm_segments_valid [OF abs_segments_valid [of pcwd base], of p] by (simp add: resolve2_segments_def)
qed

lemma show_segments_Cons: "show_segments (s # segs) = slash # s @ (if segs = [] then [] else show_segments segs)"
  by (simp add: show_segments_def)

lemma segment_prefix:
  "slash \<notin> set s \<Longrightarrow> slash \<notin> set t \<Longrightarrow> prefix (s @ slash # x) (t @ slash # y) \<Longrightarrow> s = t \<and> prefix x y"
  by (induction s arbitrary: t) (case_tac t; auto)+

text \<open>The string test on resolved paths is the prefix relation of their segments.\<close>

lemma show_segments_hd: "segs \<noteq> [] \<Longrightarrow> show_segments segs = slash # tl (show_segments segs)"
  by (cases segs) (auto simp: show_segments_Cons)

lemma prefix_shown:
  "\<forall>s \<in> set rs. segment s \<Longrightarrow> \<forall>s \<in> set ts. segment s \<Longrightarrow> rs \<noteq> [] \<Longrightarrow>
     prefix (show_segments rs @ [slash]) (show_segments ts) \<longleftrightarrow> strict_prefix rs ts"
proof (induction rs arbitrary: ts)
  case Nil
  then show ?case by simp
next
  case (Cons r rs)
  show ?case
  proof (cases ts)
    case Nil
    then show ?thesis by (auto simp: show_segments_def segment_def)
  next
    case (Cons t ts')
    have seg: "slash \<notin> set r" "slash \<notin> set t" "r \<noteq> []" using Cons.prems Cons by (auto simp: segment_def)
    show ?thesis
    proof (cases "rs = []")
      case True
      then show ?thesis
      proof (cases "ts' = []")
        case True
        with \<open>rs = []\<close> Cons seg show ?thesis
          by (auto simp: show_segments_def strict_prefix_def prefix_def)
      next
        case False
        then have "show_segments ts' = slash # tl (show_segments ts')" by (rule show_segments_hd)
        with \<open>rs = []\<close> Cons seg False show ?thesis
          using segment_prefix [of r t "[]" "tl (show_segments ts')"]
          by (auto simp: show_segments_Cons [of r] show_segments_Cons [of t] show_segments_def [of "[]"] strict_prefix_def prefix_def)
      qed
    next
      case rs: False
      then have hr: "show_segments rs = slash # tl (show_segments rs)" by (rule show_segments_hd)
      show ?thesis
      proof (cases "ts' = []")
        case True
        have "slash \<in> set t" if "prefix (r @ show_segments rs @ [slash]) t"
          using that hr by (auto simp: prefix_def)
        with True Cons seg rs show ?thesis
          by (auto simp: show_segments_Cons strict_prefix_def)
      next
        case False
        then have ht: "show_segments ts' = slash # tl (show_segments ts')" by (rule show_segments_hd)
        have "prefix (r @ show_segments rs @ [slash]) (t @ show_segments ts') \<longleftrightarrow>
            r = t \<and> prefix (show_segments rs @ [slash]) (show_segments ts')"
          using segment_prefix [OF seg(1,2), of "tl (show_segments rs) @ [slash]" "tl (show_segments ts')"] hr ht
          by (metis append_Cons prefix_Cons same_prefix_prefix)
        with Cons.IH [OF _ _ rs, of ts'] Cons.prems Cons rs False show ?thesis
          by (auto simp: show_segments_Cons strict_prefix_def)
      qed
    qed
  qed
qed

lemma segment_unique:
  "slash \<notin> set x \<Longrightarrow> slash \<notin> set y \<Longrightarrow> x @ u = y @ v \<Longrightarrow>
     u = [] \<or> hd u = slash \<Longrightarrow> v = [] \<or> hd v = slash \<Longrightarrow> x = y"
proof (induction x arbitrary: y)
  case Nil
  then show ?case by (cases y) auto
next
  case (Cons a x)
  then show ?case by (cases y) auto
qed

lemma show_segments_hd_slash: "hd (show_segments xs) = slash"
  by (cases xs) (auto simp: show_segments_def)

lemma show_segments_inj:
  "\<forall>s \<in> set xs. segment s \<Longrightarrow> \<forall>s \<in> set ys. segment s \<Longrightarrow> show_segments xs = show_segments ys \<Longrightarrow> xs = ys"
proof (induction xs arbitrary: ys)
  case Nil
  then show ?case by (cases ys) (auto simp: show_segments_def segment_def)
next
  case (Cons x xs)
  show ?case
  proof (cases ys)
    case Nil
    with Cons.prems show ?thesis by (auto simp: show_segments_def segment_def)
  next
    case (Cons y ys')
    have seg: "slash \<notin> set x" "slash \<notin> set y" using Cons.prems Cons by (auto simp: segment_def)
    have eq: "x @ (if xs = [] then [] else show_segments xs) = y @ (if ys' = [] then [] else show_segments ys')"
      using Cons.prems(3) Cons by (simp add: show_segments_Cons)
    have "x = y"
      by (rule segment_unique [OF seg eq]) (auto simp: show_segments_hd_slash)
    note xy = this
    with eq have "(if xs = [] then [] else show_segments xs) = (if ys' = [] then [] else show_segments ys')" by simp
    then have "xs = ys'"
      using Cons.IH [of ys'] Cons.prems Cons by (cases xs; cases ys') (auto simp: show_segments_Cons)
    with xy Cons show ?thesis by simp
  qed
qed

lemma ends_with_slash_shown:
  assumes "\<forall>s \<in> set xs. segment s"
  shows "ends_with_slash (show_segments xs) \<longleftrightarrow> xs = []"
proof (cases xs rule: rev_cases)
  case Nil
  then show ?thesis by (simp add: ends_with_slash_def show_segments_def)
next
  case (snoc ys y)
  with assms have y: "y \<noteq> []" "slash \<notin> set y" by (simp_all add: segment_def)
  then have "last y \<noteq> slash" by (metis last_in_set)
  moreover have "show_segments xs = concat (map (\<lambda>s. slash # s) ys) @ slash # y"
    using snoc by (simp add: show_segments_def)
  ultimately show ?thesis using snoc y(1) by (simp add: ends_with_slash_def)
qed

lemma within_root: "within_dir (show_segments ts) (show_segments [])"
proof -
  have "prefix [slash] (show_segments ts)"
    by (cases ts) (simp_all add: show_segments_def)
  moreover have "show_segments [] = [slash]" "ends_with_slash [slash]"
    by (simp_all add: show_segments_def ends_with_slash_def)
  ultimately show ?thesis unfolding within_dir_def by metis
qed

lemma within_segments:
  assumes "\<forall>s \<in> set ts. segment s" and "\<forall>s \<in> set rs. segment s"
  shows "within_dir (show_segments ts) (show_segments rs) \<longleftrightarrow> prefix rs ts"
proof (cases "rs = []")
  case True
  then show ?thesis using within_root [of ts] by simp
next
  case False
  have eq: "show_segments ts = show_segments rs \<longleftrightarrow> ts = rs"
    using show_segments_inj [OF assms] by metis
  have "ends_with_slash (show_segments rs) = False" using False ends_with_slash_shown [OF assms(2)] by metis
  then have "within_dir (show_segments ts) (show_segments rs) \<longleftrightarrow> ts = rs \<or> strict_prefix rs ts"
    unfolding within_dir_def eq using prefix_shown [OF assms(2,1) False] by metis
  then show ?thesis by (metis strict_prefixE strict_prefixI prefix_order.order_refl prefix_order.le_less)
qed

end
