(* ===== verification/Runtime_Policy.thy ===== *)
theory Runtime_Policy
  imports Prelude Path_Resolve
begin

text \<open>
  The execution-point policy for the generic tools (\<open>src/harness/runtime-policy.ts\<close>). The
  reasons are the codes of the messages the source builds, with what it interpolates.
\<close>

text \<open>
  The fragment of JavaScript regular expressions the policy uses (\<open>RegExp.prototype.test\<close>
  on expressions without captures or look-around): character classes, alternatives,
  repetition, the anchors and the word boundary. A match is a pair of positions in the text;
  \<open>rx_ends r s i\<close> lists the ends of the matches of \<open>r\<close> that start at \<open>i\<close>. Greediness does
  not matter for a test.
\<close>

datatype rx =
    Eps
  | Class "char \<Rightarrow> bool"
  | Cat rx rx
  | Alt rx rx
  | Star rx
  | Bos
  | Eos
  | Boundary

definition is_word :: "char \<Rightarrow> bool" where
  "is_word c = (let n = of_char c :: nat in
     (48 \<le> n \<and> n \<le> 57) \<or> (65 \<le> n \<and> n \<le> 90) \<or> n = 95 \<or> (97 \<le> n \<and> n \<le> 122))"

text \<open>\<open>\s\<close>, among the characters of the model.\<close>

definition is_white :: "char \<Rightarrow> bool" where
  "is_white c = (let n = of_char c :: nat in (9 \<le> n \<and> n \<le> 13) \<or> n = 32 \<or> n = 160)"

definition word_at :: "string \<Rightarrow> nat \<Rightarrow> bool" where
  "word_at s i = (i < length s \<and> is_word (s ! i))"

definition boundary_at :: "string \<Rightarrow> nat \<Rightarrow> bool" where
  "boundary_at s i = ((0 < i \<and> word_at s (i - 1)) \<noteq> word_at s i)"

text \<open>Each round of a repetition has to consume something, so as many rounds as positions suffice.\<close>

fun star_ends :: "(nat \<Rightarrow> nat list) \<Rightarrow> nat \<Rightarrow> nat \<Rightarrow> nat list" where
  "star_ends f 0 i = [i]"
| "star_ends f (Suc n) i = i # concat (map (star_ends f n) (filter (\<lambda>j. i < j) (f i)))"

primrec rx_ends :: "rx \<Rightarrow> string \<Rightarrow> nat \<Rightarrow> nat list" where
  "rx_ends Eps s i = [i]"
| "rx_ends (Class P) s i = (if i < length s \<and> P (s ! i) then [Suc i] else [])"
| "rx_ends (Cat a b) s i = concat (map (rx_ends b s) (remdups (rx_ends a s i)))"
| "rx_ends (Alt a b) s i = rx_ends a s i @ rx_ends b s i"
| "rx_ends (Star a) s i = remdups (star_ends (rx_ends a s) (length s) i)"
| "rx_ends Bos s i = (if i = 0 then [i] else [])"
| "rx_ends Eos s i = (if i = length s then [i] else [])"
| "rx_ends Boundary s i = (if boundary_at s i then [i] else [])"

definition rx_test :: "rx \<Rightarrow> string \<Rightarrow> bool" where
  "rx_test r s = (\<exists>i \<in> set [0..<Suc (length s)]. rx_ends r s i \<noteq> [])"

section \<open>Building blocks\<close>

definition rx_char :: "char \<Rightarrow> rx" where
  "rx_char c = Class (\<lambda>x. x = c)"

definition rx_lit :: "string \<Rightarrow> rx" where
  "rx_lit w = foldr (\<lambda>c r. Cat (rx_char c) r) w Eps"

definition rx_cats :: "rx list \<Rightarrow> rx" where
  "rx_cats rs = foldr Cat rs Eps"

fun rx_alts :: "rx list \<Rightarrow> rx" where
  "rx_alts [] = Class (\<lambda>_. False)"
| "rx_alts (r # rs) = Alt r (rx_alts rs)"

definition rx_any_of :: "string \<Rightarrow> rx" where
  "rx_any_of cs = Class (\<lambda>x. x \<in> set cs)"

section \<open>Lemmas\<close>

lemma rx_lit_simps [simp]: "rx_lit [] = Eps" "rx_lit (c # w) = Cat (rx_char c) (rx_lit w)"
  by (simp_all add: rx_lit_def)

lemma rx_cats_simps [simp]: "rx_cats [] = Eps" "rx_cats (r # rs) = Cat r (rx_cats rs)"
  by (simp_all add: rx_cats_def)

lemma in_rx_cat: "k \<in> set (rx_ends (Cat a b) s i) \<longleftrightarrow> (\<exists>j \<in> set (rx_ends a s i). k \<in> set (rx_ends b s j))"
  by auto

lemma in_rx_alts: "k \<in> set (rx_ends (rx_alts rs) s i) \<longleftrightarrow> (\<exists>r \<in> set rs. k \<in> set (rx_ends r s i))"
  by (induction rs) auto

lemma rx_test_iff: "rx_test r s \<longleftrightarrow> (\<exists>i j. i \<le> length s \<and> j \<in> set (rx_ends r s i))"
proof -
  have "rx_ends r s i \<noteq> [] \<longleftrightarrow> (\<exists>j. j \<in> set (rx_ends r s i))" for i
    by (cases "rx_ends r s i") auto
  moreover have "rx_test r s \<longleftrightarrow> (\<exists>i < Suc (length s). rx_ends r s i \<noteq> [])"
    by (auto simp: rx_test_def simp del: upt_Suc)
  ultimately show ?thesis by (metis less_Suc_eq_le)
qed

lemma rx_ends_lit:
  "k \<in> set (rx_ends (rx_lit w) s i) \<longleftrightarrow> k = i + length w \<and> take (length w) (drop i s) = w \<and> (w = [] \<or> i < length s)"
proof (induction w arbitrary: i)
  case Nil
  then show ?case by auto
next
  case (Cons c w)
  show ?case
  proof (cases "i < length s")
    case True
    then have "drop i s = s ! i # drop (Suc i) s" by (simp add: Cons_nth_drop_Suc)
    moreover have "take (length w) (drop (Suc i) s) = w \<Longrightarrow> w = [] \<or> Suc i < length s"
      by (cases "Suc i < length s") auto
    ultimately show ?thesis using True Cons.IH [of "Suc i"] by (auto simp: rx_char_def)
  next
    case False
    then show ?thesis by (auto simp: rx_char_def)
  qed
qed

lemma star_ends_self: "i \<in> set (star_ends f n i)"
  by (cases n) auto

text \<open>A run of characters of a class is matched by the repetition of the class.\<close>

lemma star_class_run:
  "i + m \<le> length s \<Longrightarrow> \<forall>j. i \<le> j \<and> j < i + m \<longrightarrow> P (s ! j) \<Longrightarrow> m \<le> n \<Longrightarrow>
     i + m \<in> set (star_ends (rx_ends (Class P) s) n i)"
proof (induction m arbitrary: i n)
  case 0
  then show ?case by (simp add: star_ends_self)
next
  case (Suc m)
  then obtain n' where n: "n = Suc n'" by (cases n) auto
  have "Suc i + m \<in> set (star_ends (rx_ends (Class P) s) n' (Suc i))"
    using Suc.prems n by (intro Suc.IH) auto
  moreover have "rx_ends (Class P) s i = [Suc i]" using Suc.prems by simp
  ultimately show ?case by (simp add: n del: rx_ends.simps)
qed

section \<open>Outcomes\<close>

datatype decision = Allow | Ask | Deny

datatype confirmation = Ordinary | Explicit

datatype reason =
    EmptyCommand
  | ManagedDirectory
  | DestructiveRm
  | RedirectDevice string
  | RedirectUnresolvable string
  | RedirectOutside string
  | PipeDangerous
  | SubstitutionDangerous
  | ScoutForbidden string
  | ScoutConfirm string string
  | DockerReadOnly
  | DockerChanges string
  | GitReadOnly
  | GitChanges string
  | NetworkWrite
  | NetworkReadOnly
  | WgetWrites
  | PipInstalls
  | NpmInstalls
  | UvInstalls
  | CondaChanges
  | PackagesReadOnly
  | ToolchainReadOnly
  | EnvironmentReadOnly
  | HostChanges string string
  | LowImpact
  | UnknownCommand string string
  | MissingPath
  | FileManaged string string
  | FileReadOnly
  | FileInWorkspace
  | FileOutside string
  | PreparationCommand
  | InventoryCommand
  | ScopeManaged
  | ScopeFile
  | ScopeDenied

record policy_outcome =
  po_decision :: decision
  po_confirmation :: "confirmation option"
  po_reason :: reason

definition allow :: "reason \<Rightarrow> policy_outcome" where
  "allow r = \<lparr>po_decision = Allow, po_confirmation = None, po_reason = r\<rparr>"

definition deny :: "reason \<Rightarrow> policy_outcome" where
  "deny r = \<lparr>po_decision = Deny, po_confirmation = None, po_reason = r\<rparr>"

definition ask :: "confirmation \<Rightarrow> reason \<Rightarrow> policy_outcome" where
  "ask c r = \<lparr>po_decision = Ask, po_confirmation = Some c, po_reason = r\<rparr>"

lemmas outcome_defs = allow_def deny_def ask_def

text \<open>
  \<open>COMPOUND[word]\<close> on a plain object also finds what every object inherits: for the command words
  \<open>constructor\<close> and \<open>toString\<close> the inherited function returns a value that is no outcome
  (\<open>Inherited\<close>), for the others calling it without a receiver throws (\<open>Throws\<close>). A managed root
  with other regular-expression metacharacters than the dot is outside the model.
\<close>

datatype verdict = Outcome policy_outcome | Inherited | Throws | OutsideModel

datatype profile = Parent | Scout

datatype tool = Bash | Read | Edit | Write

text \<open>The process directory and \<open>tmpdir()\<close>.\<close>

record policy_env =
  pe_pcwd :: string
  pe_tmpdir :: string

record generic_policy_input =
  gi_tool :: tool
  gi_command :: "string option"
  gi_path :: "string option"
  gi_cwd :: string
  gi_protectedRoots :: "string list"
  gi_profile :: "profile option"

section \<open>Word lists\<close>

definition READ_ONLY_FIRST_WORDS :: "string list" where
  "READ_ONLY_FIRST_WORDS =
     [''cat'', ''head'', ''tail'', ''grep'', ''find'', ''ls'', ''df'', ''free'', ''uname'', ''lscpu'', ''pwd'', ''which'',
      ''echo'', ''printf'', ''true'', ''false'', ''env'', ''printenv'', ''du'', ''uptime'', ''hostname'', ''id'', ''whoami'', ''date'',
      ''nvidia-smi'', ''ps'', ''ip'', ''ss'', ''file'', ''stat'', ''wc'', ''sort'', ''uniq'', ''cut'', ''tr'', ''sed'', ''awk'',
      ''python'', ''python3'', ''git'', ''docker'', ''curl'', ''wget'', ''pip'', ''pip3'', ''npm'', ''pnpm'', ''conda'', ''uv'']"

definition ASK_FIRST_WORDS :: "string list" where
  "ASK_FIRST_WORDS =
     [''rm'', ''mv'', ''chmod'', ''chown'', ''kill'', ''pkill'', ''killall'', ''systemctl'', ''service'', ''mkdir'', ''touch'', ''cp'',
      ''apt'', ''apt-get'', ''yum'', ''dnf'', ''zypper'', ''pacman'', ''brew'', ''sudo'', ''reboot'', ''shutdown'', ''mount'', ''umount'', ''ssh'', ''scp'',
      ''dd'', ''tee'', ''shred'', ''truncate'']"

definition SCOUT_READ_ONLY_FIRST_WORDS :: "string list" where
  "SCOUT_READ_ONLY_FIRST_WORDS =
     [''cat'', ''head'', ''tail'', ''grep'', ''find'', ''ls'', ''df'', ''free'', ''uname'', ''lscpu'', ''pwd'', ''which'',
      ''echo'', ''printf'', ''true'', ''false'', ''env'', ''printenv'', ''du'', ''uptime'', ''hostname'', ''id'', ''whoami'', ''date'',
      ''nvidia-smi'', ''ps'', ''ip'', ''ss'', ''file'', ''stat'', ''wc'', ''sort'', ''uniq'', ''cut'', ''tr'', ''sed'', ''awk'']"

definition SCOUT_DENY_FIRST_WORDS :: "string list" where
  "SCOUT_DENY_FIRST_WORDS =
     [''rm'', ''kill'', ''pkill'', ''killall'', ''systemctl'', ''service'', ''reboot'', ''shutdown'', ''dd'', ''shred'']"

definition INHERITED_WORDS :: "string list" where
  "INHERITED_WORDS = [''constructor'', ''toString'']"

definition THROWING_WORDS :: "string list" where
  "THROWING_WORDS =
     [''toLocaleString'', ''valueOf'', ''hasOwnProperty'', ''isPrototypeOf'', ''propertyIsEnumerable'', ''__proto__'',
      ''__defineGetter__'', ''__defineSetter__'', ''__lookupGetter__'', ''__lookupSetter__'']"

section \<open>Compound tools\<close>

abbreviation first_arg :: "string list \<Rightarrow> string" where
  "first_arg args \<equiv> (case args of [] \<Rightarrow> [] | a # _ \<Rightarrow> a)"

definition docker_outcome :: "string list \<Rightarrow> policy_outcome" where
  "docker_outcome args =
     (if first_arg args \<noteq> [] \<and>
         first_arg args \<in> set [''ps'', ''images'', ''image'', ''version'', ''info'', ''inspect'', ''logs'', ''stats'',
                               ''network'', ''volume'', ''container'']
      then allow DockerReadOnly else ask Explicit (DockerChanges (first_arg args)))"

definition git_outcome :: "string list \<Rightarrow> policy_outcome" where
  "git_outcome args =
     (if first_arg args \<in> set [''status'', ''log'', ''diff'', ''show'', ''fetch'', ''branch'', ''remote'', ''rev-parse'',
                               ''ls-files'', ''tag'']
      then allow GitReadOnly else ask Explicit (GitChanges (first_arg args)))"

definition curl_write_rx :: rx where
  "curl_write_rx =
     rx_cats [Bos, rx_alts (map rx_lit [''--data'', ''--data-raw'', ''--data-binary'', ''--data-urlencode'', ''-d'', ''--form'',
                                        ''-F'', ''-T'', ''--upload-file'', ''-o'', ''--output'']), Boundary]"

definition to_upper :: "string \<Rightarrow> string" where
  "to_upper s = map (\<lambda>c. let n = of_char c :: nat in if 97 \<le> n \<and> n \<le> 122 then char_of (n - 32) else c) s"

definition curl_method :: "string list \<Rightarrow> string" where
  "curl_method args =
     (case find_index (\<lambda>a. a = ''-X'' \<or> a = ''--request'') args of
        None \<Rightarrow> ''GET''
      | Some i \<Rightarrow> if i + 1 < length args then to_upper (args ! (i + 1)) else ''GET'')"

definition curl_outcome :: "string list \<Rightarrow> policy_outcome" where
  "curl_outcome args =
     (if curl_method args \<noteq> ''GET'' \<or> (\<exists>a \<in> set args. rx_test curl_write_rx a)
      then ask Explicit NetworkWrite else allow NetworkReadOnly)"

definition pip_outcome :: "string list \<Rightarrow> policy_outcome" where
  "pip_outcome args =
     (if first_arg args \<in> set [''install'', ''uninstall''] then ask Explicit PipInstalls else allow PackagesReadOnly)"

definition npm_outcome :: "string list \<Rightarrow> policy_outcome" where
  "npm_outcome args =
     (if first_arg args \<in> set [''install'', ''ci'', ''add'', ''run'', ''exec''] then ask Explicit NpmInstalls
      else allow PackagesReadOnly)"

definition uv_outcome :: "string list \<Rightarrow> policy_outcome" where
  "uv_outcome args =
     (if first_arg args \<in> set [''pip'', ''add''] then ask Explicit UvInstalls else allow ToolchainReadOnly)"

definition conda_outcome :: "string list \<Rightarrow> policy_outcome" where
  "conda_outcome args =
     (if first_arg args \<in> set [''install'', ''create'', ''remove''] then ask Explicit CondaChanges
      else allow EnvironmentReadOnly)"

definition COMPOUND :: "string \<Rightarrow> (string list \<Rightarrow> policy_outcome) option" where
  "COMPOUND word =
     (if word = ''docker'' then Some docker_outcome
      else if word = ''git'' then Some git_outcome
      else if word = ''curl'' then Some curl_outcome
      else if word = ''wget'' then Some (\<lambda>_. ask Explicit WgetWrites)
      else if word = ''pip'' \<or> word = ''pip3'' then Some pip_outcome
      else if word = ''npm'' \<or> word = ''pnpm'' then Some npm_outcome
      else if word = ''uv'' then Some uv_outcome
      else if word = ''conda'' then Some conda_outcome
      else None)"

section \<open>Patterns\<close>

definition not_sep_rx :: rx where
  "not_sep_rx = Star (Class (\<lambda>c. c \<noteq> CHR ''|'' \<and> c \<noteq> CHR ''&'' \<and> c \<noteq> CHR '';'' \<and> c \<noteq> CHR 0x0A))"

definition white_rx :: rx where
  "white_rx = Class is_white"

definition before_rx :: rx where
  "before_rx = Alt Bos (Class (\<lambda>c. is_white c \<or> c = CHR 0x22 \<or> c = CHR 0x27 \<or> c = CHR 0x5C))"

definition after_rx :: rx where
  "after_rx = Alt (Class (\<lambda>c. c = slash \<or> is_white c \<or> c = CHR 0x22 \<or> c = CHR 0x27)) Eos"

definition PROTECTED_TOKEN :: rx where
  "PROTECTED_TOKEN =
     rx_cats [before_rx,
       rx_alts [rx_lit ''$BITTUNE_HOME'', rx_lit ''~/.bittune'', rx_lit ''/root/.bittune'',
                Cat (Star (Cat (rx_char slash) (Star (Class (\<lambda>c. is_word c \<or> c = CHR ''.'' \<or> c = CHR ''-'')))))
                    (rx_lit ''/.bittune'')],
       after_rx]"

definition DESTRUCTIVE_ROOT_RM :: rx where
  "DESTRUCTIVE_ROOT_RM =
     rx_cats [Boundary, rx_lit ''rm'', Boundary, not_sep_rx, white_rx, rx_lit ''-r'', not_sep_rx, Alt white_rx Eps,
       Alt (rx_char slash)
           (rx_cats [rx_char slash,
                     rx_alts (map rx_lit [''bin'', ''sbin'', ''etc'', ''usr'', ''var'', ''opt'', ''root'', ''lib'', ''boot'']),
                     Boundary])]"

definition DANGEROUS_WORDS :: "string list" where
  "DANGEROUS_WORDS = ASK_FIRST_WORDS @ [''sudo'']"

definition dangerous_rx :: rx where
  "dangerous_rx = rx_cats [Boundary, rx_alts (map rx_lit DANGEROUS_WORDS), Boundary]"

definition PIPE_DANGEROUS_RE :: rx where
  "PIPE_DANGEROUS_RE =
     rx_cats [rx_char CHR ''|'', Star (Class (\<lambda>c. c \<noteq> CHR ''|'' \<and> c \<noteq> CHR '';'' \<and> c \<noteq> CHR ''&'' \<and> c \<noteq> CHR 0x0A)),
              dangerous_rx]"

definition SUBSTITUTION_DANGEROUS_RE :: rx where
  "SUBSTITUTION_DANGEROUS_RE = dangerous_rx"

definition SUBSTITUTION_RE :: rx where
  "SUBSTITUTION_RE = Alt (rx_lit ''$('') (rx_char CHR 0x60)"

section \<open>Guards\<close>

definition trim_white :: "string \<Rightarrow> string" where
  "trim_white s = rev (dropWhile is_white (rev (dropWhile is_white s)))"

text \<open>\<open>command.trim().split(/\s+/).filter(Boolean)\<close>; the argument is the word being read.\<close>

fun split_words :: "string \<Rightarrow> string \<Rightarrow> string list" where
  "split_words w [] = (if w = [] then [] else [w])"
| "split_words w (c # cs) =
     (if is_white c then (if w = [] then [] else [w]) @ split_words [] cs else split_words (w @ [c]) cs)"

definition firstWord :: "string \<Rightarrow> string \<times> string list" where
  "firstWord command =
     (case split_words [] (trim_white command) of [] \<Rightarrow> ([], []) | w # ws \<Rightarrow> (w, ws))"

definition plain_root :: "string \<Rightarrow> bool" where
  "plain_root root = (\<forall>c \<in> set root. c \<notin> set ''^$*+?()[]{}|'')"

text \<open>The root as an expression: a backslash is escaped, a dot matches any character of a line.\<close>

definition root_rx :: "string \<Rightarrow> rx" where
  "root_rx root =
     foldr (\<lambda>c r. Cat (if c = CHR ''.'' then Class (\<lambda>x. x \<noteq> CHR 0x0A \<and> x \<noteq> CHR 0x0D) else rx_char c) r) root Eps"

definition root_token_rx :: "string \<Rightarrow> rx" where
  "root_token_rx root = rx_cats [before_rx, root_rx root, after_rx]"

definition touchesProtectedRoot :: "string \<Rightarrow> string list \<Rightarrow> string option" where
  "touchesProtectedRoot command protectedRoots =
     (if rx_test PROTECTED_TOKEN command then Some ''$BITTUNE_HOME''
      else find (\<lambda>root. rx_test (root_token_rx root) command) protectedRoots)"

definition is_target_char :: "char \<Rightarrow> bool" where
  "is_target_char c = (\<not> is_white c \<and> c \<notin> set '';&|<>'')"

text \<open>
  \<open>command.matchAll(/(?:[0-2]?>>?)\s*([^\s;&|<>]+)/g)\<close>: after an arrow or a double arrow and
  blanks, the longest run of target characters, when there is one.
\<close>

definition after_arrow :: "string \<Rightarrow> string" where
  "after_arrow cs = dropWhile is_white (case cs of d # ds \<Rightarrow> if d = CHR ''>'' then ds else cs | [] \<Rightarrow> [])"

lemma after_arrow_length: "length (dropWhile is_target_char (after_arrow cs)) \<le> length cs"
proof -
  have "length (dropWhile is_target_char (dropWhile is_white r)) \<le> length r" for r
    by (meson le_trans length_dropWhile_le)
  from this [of cs] this [of "tl cs"] show ?thesis by (cases cs) (auto simp: after_arrow_def simp del: dropWhile.simps)
qed

function redirect_captures :: "string \<Rightarrow> string list" where
  "redirect_captures [] = []"
| "redirect_captures (c # cs) =
     (if c \<noteq> CHR ''>'' then redirect_captures cs
      else if takeWhile is_target_char (after_arrow cs) = [] then redirect_captures cs
      else takeWhile is_target_char (after_arrow cs)
             # redirect_captures (dropWhile is_target_char (after_arrow cs)))"
  by pat_completeness auto
termination
  by (relation "measure length") (auto simp: le_imp_less_Suc after_arrow_length)

definition is_quote :: "char \<Rightarrow> bool" where
  "is_quote c = (c = CHR 0x27 \<or> c = CHR 0x22)"

definition strip_quotes :: "string \<Rightarrow> string" where
  "strip_quotes s =
     (let t = (case s of c # cs \<Rightarrow> if is_quote c then cs else s | [] \<Rightarrow> [])
      in if t \<noteq> [] \<and> is_quote (last t) then butlast t else t)"

definition redirect_targets :: "string \<Rightarrow> string list" where
  "redirect_targets command = filter (\<lambda>t. t \<noteq> []) (map (\<lambda>m. strip_quotes (trim_white m)) (redirect_captures command))"

definition target_outcome :: "policy_env \<Rightarrow> string \<Rightarrow> string \<Rightarrow> policy_outcome option" where
  "target_outcome env cwd target =
     (if target = ''/dev/null'' then None
      else if take 5 target = ''/dev/'' then Some (ask Explicit (RedirectDevice target))
      else if CHR ''$'' \<in> set target \<or> CHR 0x60 \<in> set target \<or> take 1 target = ''~''
      then Some (ask Explicit (RedirectUnresolvable target))
      else
        (let resolved = resolve2 (pe_pcwd env) cwd target;
             inside = within_dir resolved (resolve1 (pe_pcwd env) cwd) \<or>
                      within_dir resolved (resolve1 (pe_pcwd env) (pe_tmpdir env))
         in if inside then None else Some (ask Explicit (RedirectOutside target))))"

definition redirectionOutcome :: "policy_env \<Rightarrow> string \<Rightarrow> string \<Rightarrow> policy_outcome option" where
  "redirectionOutcome env command cwd =
     (case List.map_filter (target_outcome env cwd) (redirect_targets command) of [] \<Rightarrow> None | o1 # _ \<Rightarrow> Some o1)"

definition pipeOutcome :: "string \<Rightarrow> policy_outcome option" where
  "pipeOutcome command =
     (if rx_test PIPE_DANGEROUS_RE command then Some (ask Explicit PipeDangerous)
      else if rx_test SUBSTITUTION_RE command \<and> rx_test SUBSTITUTION_DANGEROUS_RE command
      then Some (ask Explicit SubstitutionDangerous)
      else None)"

section \<open>The policy\<close>

definition scout_outcome :: "string \<Rightarrow> string list \<Rightarrow> string \<Rightarrow> policy_outcome" where
  "scout_outcome word rest cwd =
     (if word \<in> set SCOUT_DENY_FIRST_WORDS then deny (ScoutForbidden word)
      else if word = ''docker'' then docker_outcome rest
      else if word \<in> set SCOUT_READ_ONLY_FIRST_WORDS then allow LowImpact
      else ask Explicit (ScoutConfirm word cwd))"

definition parent_outcome :: "string \<Rightarrow> string list \<Rightarrow> string \<Rightarrow> verdict" where
  "parent_outcome word rest cwd =
     (if word \<in> set INHERITED_WORDS then Inherited
      else if word \<in> set THROWING_WORDS then Throws
      else (case COMPOUND word of
              Some f \<Rightarrow> Outcome (f rest)
            | None \<Rightarrow>
                if word \<in> set ASK_FIRST_WORDS then Outcome (ask Explicit (HostChanges word cwd))
                else if word \<in> set READ_ONLY_FIRST_WORDS then Outcome (allow LowImpact)
                else Outcome (ask Ordinary (UnknownCommand word cwd))))"

definition evaluateBash :: "policy_env \<Rightarrow> string \<Rightarrow> string \<Rightarrow> string list \<Rightarrow> profile \<Rightarrow> verdict" where
  "evaluateBash env command cwd protectedRoots prof =
     (if trim_white command = [] then Outcome (deny EmptyCommand)
      else if \<not> list_all plain_root protectedRoots then OutsideModel
      else if truthy_str (touchesProtectedRoot command protectedRoots) \<noteq> None then Outcome (deny ManagedDirectory)
      else if rx_test DESTRUCTIVE_ROOT_RM command then Outcome (deny DestructiveRm)
      else
        (case redirectionOutcome env command cwd of
           Some r \<Rightarrow> Outcome r
         | None \<Rightarrow>
             (case pipeOutcome command of
                Some p \<Rightarrow> Outcome p
              | None \<Rightarrow>
                  (let (word, rest) = firstWord command in
                   if prof = Scout then Outcome (scout_outcome word rest cwd)
                   else parent_outcome word rest cwd))))"

definition evaluateFileAccess :: "policy_env \<Rightarrow> generic_policy_input \<Rightarrow> policy_outcome" where
  "evaluateFileAccess env input =
     (case truthy_str (gi_path input) of
        None \<Rightarrow> deny MissingPath
      | Some path \<Rightarrow>
          (let target = resolve2 (pe_pcwd env) (gi_cwd input) path;
               roots = map (resolve1 (pe_pcwd env)) (gi_protectedRoots input)
           in case find (\<lambda>root. within_dir target root) roots of
                Some root \<Rightarrow> deny (FileManaged path root)
              | None \<Rightarrow>
                  if gi_tool input = Read then allow FileReadOnly
                  else if within_dir target (resolve1 (pe_pcwd env) (gi_cwd input)) \<or>
                          within_dir target (resolve1 (pe_pcwd env) (pe_tmpdir env))
                  then allow FileInWorkspace
                  else ask Ordinary (FileOutside path)))"

definition evaluateGenericCall :: "policy_env \<Rightarrow> generic_policy_input \<Rightarrow> verdict" where
  "evaluateGenericCall env input =
     (case gi_command input of
        Some command \<Rightarrow>
          if gi_tool input = Bash
          then evaluateBash env command (gi_cwd input) (gi_protectedRoots input)
                 (case gi_profile input of Some p \<Rightarrow> p | None \<Rightarrow> Parent)
          else Outcome (evaluateFileAccess env input)
      | None \<Rightarrow> Outcome (evaluateFileAccess env input))"

end
