(* ===== verification/Approval_Gate.thy ===== *)
theory Approval_Gate
  imports Runtime_Policy Session_Manager
begin

text \<open>
  Where the policy meets the tools: the approval preference and its command, the task scope of
  a delegated run, and the handlers that let a call through, ask the user, or block it
  (\<open>src/harness/extension.ts\<close>, \<open>task-scope.ts\<close>, \<open>child-extension.ts\<close>, and the approval
  setting of \<open>src/core/settings-manager.ts\<close>).
\<close>

section \<open>The approval preference\<close>

text \<open>
  The stored preference, \<open>harness.approvalMode\<close> of the global settings. \<open>session_skip\<close> is
  never reported: any stored value but \<open>always_skip\<close> reads as \<open>ask\<close>.
\<close>

datatype approval_mode = ModeAsk | ModeSessionSkip | ModeAlwaysSkip

definition getApprovalMode :: "approval_mode option \<Rightarrow> approval_mode" where
  "getApprovalMode stored = (if stored = Some ModeAlwaysSkip then ModeAlwaysSkip else ModeAsk)"

definition setApprovalMode :: "approval_mode \<Rightarrow> approval_mode option \<Rightarrow> approval_mode option" where
  "setApprovalMode mode stored = Some mode"

definition resolveApprovalSkip :: "confirmation option \<Rightarrow> approval_mode option \<Rightarrow> bool \<Rightarrow> bool" where
  "resolveApprovalSkip conf mode sessionSkip =
     (if conf \<noteq> Some Ordinary then False
      else if mode \<noteq> Some ModeSessionSkip \<and> mode \<noteq> Some ModeAlwaysSkip then False
      else mode = Some ModeAlwaysSkip \<or> sessionSkip)"

text \<open>
  The state of the extension: the session flag and the stored preference; \<open>has_approval\<close> says
  that the host passed \<open>options.approval\<close>.
\<close>

record gate =
  ga_sessionSkip :: bool
  ga_hasApproval :: bool
  ga_stored :: "approval_mode option"

definition approval_get :: "gate \<Rightarrow> approval_mode option" where
  "approval_get g = (if ga_hasApproval g then Some (getApprovalMode (ga_stored g)) else None)"

definition approval_set :: "approval_mode \<Rightarrow> gate \<Rightarrow> gate" where
  "approval_set m g = (if ga_hasApproval g then g\<lparr>ga_stored := setApprovalMode m (ga_stored g)\<rparr> else g)"

datatype approval_label = LabelAlways | LabelSession | LabelAsk

definition approvalLabel :: "gate \<Rightarrow> approval_label" where
  "approvalLabel g =
     (if approval_get g = Some ModeAlwaysSkip then LabelAlways
      else if ga_sessionSkip g then LabelSession else LabelAsk)"

definition to_lower :: "string \<Rightarrow> string" where
  "to_lower s = map (\<lambda>c. let n = of_char c :: nat in if 65 \<le> n \<and> n \<le> 90 then char_of (n + 32) else c) s"

datatype approval_reply = UsageWarning | ApprovalSet approval_label

definition approval_command :: "string \<Rightarrow> gate \<Rightarrow> gate \<times> approval_reply" where
  "approval_command args g =
     (let mode = to_lower (trim args) in
      if mode = ''session'' then
        (let g' = g\<lparr>ga_sessionSkip := True\<rparr> in (g', ApprovalSet (approvalLabel g')))
      else if mode = ''always'' then
        (let g' = approval_set ModeAlwaysSkip (g\<lparr>ga_sessionSkip := False\<rparr>) in (g', ApprovalSet (approvalLabel g')))
      else if mode = ''ask'' \<or> mode = [] then
        (let g' = approval_set ModeAsk (g\<lparr>ga_sessionSkip := False\<rparr>) in (g', ApprovalSet (approvalLabel g')))
      else (g, UsageWarning))"

section \<open>The scope of a delegated task\<close>

text \<open>\<open>realpathSync\<close> and \<open>statSync(...).isFile()\<close>; \<open>None\<close> is a throw.\<close>

record file_view =
  fv_realpath :: "string \<Rightarrow> string option"
  fv_isFile :: "string \<Rightarrow> bool option"

record task_scope =
  ts_allow_execution :: bool
  ts_preparation_commands :: "string list option"
  ts_read_paths :: "string list"
  ts_inventory_commands :: "string list"

definition under_canonical :: "string \<Rightarrow> string \<Rightarrow> bool" where
  "under_canonical target canonical = (target = canonical \<or> prefix (canonical @ [slash]) target)"

definition scoped_read :: "policy_env \<Rightarrow> file_view \<Rightarrow> generic_policy_input \<Rightarrow> task_scope \<Rightarrow> string \<Rightarrow> policy_outcome option" where
  "scoped_read env fv input scope path =
     (case fv_realpath fv (resolve2 (pe_pcwd env) (gi_cwd input) path) of
        None \<Rightarrow> None
      | Some target \<Rightarrow>
          (let canonical = (\<lambda>root. let c = resolve1 (pe_pcwd env) root in
                              case fv_realpath fv c of Some r \<Rightarrow> r | None \<Rightarrow> c)
           in if \<exists>root \<in> set (gi_protectedRoots input). under_canonical target (canonical root)
              then Some (deny ScopeManaged)
              else if target \<in> set (ts_read_paths scope) \<and> fv_isFile fv target = Some True
              then Some (allow ScopeFile)
              else None))"

definition evaluateScopedGeneric ::
  "policy_env \<Rightarrow> file_view \<Rightarrow> generic_policy_input \<Rightarrow> task_scope \<Rightarrow> policy_outcome" where
  "evaluateScopedGeneric env fv input scope =
     (let command = (case gi_command input of Some c \<Rightarrow> c | None \<Rightarrow> []) in
      if gi_tool input = Bash \<and> ts_allow_execution scope \<and>
         (case ts_preparation_commands scope of Some cs \<Rightarrow> command \<in> set cs | None \<Rightarrow> False)
      then \<lparr>po_decision = Ask, po_confirmation = None, po_reason = PreparationCommand\<rparr>
      else if gi_tool input = Bash \<and> command \<in> set (ts_inventory_commands scope) then allow InventoryCommand
      else
        (case (if gi_tool input = Read
               then (case truthy_str (gi_path input) of
                       Some path \<Rightarrow> scoped_read env fv input scope path
                     | None \<Rightarrow> None)
               else None) of
           Some r \<Rightarrow> r
         | None \<Rightarrow> deny ScopeDenied))"

section \<open>The handlers of a tool call\<close>

text \<open>
  A call proceeds, is blocked with a reason (the one the user did not confirm, or the policy's), or
  is blocked without one, when the value found in the table has no decision and no reason;
  \<open>HookThrew\<close> is a throw of the hook, which the session turns into a blocked call.
  \<open>Unknown\<close> stands for a verdict outside the model.
\<close>

datatype call_result =
    Proceed
  | NotConfirmed reason
  | Refused reason
  | RefusedWithoutReason
  | HookThrew
  | Unknown

record call_view =
  cv_input :: generic_policy_input
  cv_hasUI :: bool
  cv_confirm :: "reason \<Rightarrow> bool"

definition settle_outcome :: "policy_outcome \<Rightarrow> bool \<Rightarrow> (reason \<Rightarrow> bool) \<Rightarrow> bool \<Rightarrow> call_result" where
  "settle_outcome outcome hasUI confirm skip =
     (if po_decision outcome = Allow then Proceed
      else if po_decision outcome = Ask \<and> skip then Proceed
      else if po_decision outcome = Ask \<and> hasUI then
        (if confirm (po_reason outcome) then Proceed else NotConfirmed (po_reason outcome))
      else if po_decision outcome = Ask then NotConfirmed (po_reason outcome)
      else Refused (po_reason outcome))"

definition parent_verdict :: "policy_env \<Rightarrow> file_view \<Rightarrow> task_scope option \<Rightarrow> generic_policy_input \<Rightarrow> verdict" where
  "parent_verdict env fv scope input =
     (case evaluateGenericCall env input of
        OutsideModel \<Rightarrow> OutsideModel
      | Throws \<Rightarrow> Throws
      | v \<Rightarrow>
          (case scope of
             None \<Rightarrow> v
           | Some sc \<Rightarrow>
               (case v of
                  Outcome o1 \<Rightarrow> if po_decision o1 = Deny then v else Outcome (evaluateScopedGeneric env fv input sc)
                | _ \<Rightarrow> Outcome (evaluateScopedGeneric env fv input sc))))"

definition parent_tool_call ::
  "policy_env \<Rightarrow> file_view \<Rightarrow> task_scope option \<Rightarrow> gate \<Rightarrow> call_view \<Rightarrow> call_result" where
  "parent_tool_call env fv scope g v =
     (case parent_verdict env fv scope (cv_input v) of
        OutsideModel \<Rightarrow> Unknown
      | Inherited \<Rightarrow> RefusedWithoutReason
      | Throws \<Rightarrow> HookThrew
      | Outcome outcome \<Rightarrow>
          settle_outcome outcome (cv_hasUI v) (cv_confirm v)
            (resolveApprovalSkip (po_confirmation outcome) (approval_get g) (ga_sessionSkip g)))"

text \<open>The child session: only bash and read, the scout profile, every question goes to the parent's user.\<close>

datatype child_result = ChildSettled call_result | ChildToolForbidden

definition child_tool_call :: "policy_env \<Rightarrow> call_view \<Rightarrow> child_result" where
  "child_tool_call env v =
     (if gi_tool (cv_input v) \<noteq> Bash \<and> gi_tool (cv_input v) \<noteq> Read then ChildToolForbidden
      else ChildSettled
        (case evaluateGenericCall env ((cv_input v)\<lparr>gi_profile := Some Scout\<rparr>) of
           OutsideModel \<Rightarrow> Unknown
         | Inherited \<Rightarrow> RefusedWithoutReason
         | Throws \<Rightarrow> HookThrew
         | Outcome outcome \<Rightarrow> settle_outcome outcome True (cv_confirm v) False))"

end
