(* ===== verification/Policy_Properties.thy ===== *)
theory Policy_Properties
  imports Approval_Gate
begin

text \<open>
  The properties of the execution-point policy and of the gate built on it: what an allowed
  command or file access can touch, how the scout profile relates to the parent's, when a call
  may proceed without the user, and the places where the policy lets more through than it means to.
\<close>

section \<open>Lemmas\<close>








lemma target_asks: "target_outcome env cwd t = Some r \<Longrightarrow> po_confirmation r = Some Explicit \<and> po_decision r = Ask"
  by (auto simp: target_outcome_def Let_def ask_def split: if_splits)

lemma redirection_asks: "redirectionOutcome env c cwd = Some r \<Longrightarrow> po_confirmation r = Some Explicit \<and> po_decision r = Ask"
proof -
  assume "redirectionOutcome env c cwd = Some r"
  then have "r \<in> set (List.map_filter (target_outcome env cwd) (redirect_targets c))"
    by (auto simp: redirectionOutcome_def split: list.splits)
  then show ?thesis by (auto simp: List.map_filter_def dest: target_asks)
qed

lemma pipe_asks: "pipeOutcome c = Some r \<Longrightarrow> po_confirmation r = Some Explicit \<and> po_decision r = Ask"
  by (auto simp: pipeOutcome_def ask_def split: if_splits)


definition COMPOUND_WORDS :: "string list" where
  "COMPOUND_WORDS = [''docker'', ''git'', ''curl'', ''wget'', ''pip'', ''pip3'', ''npm'', ''pnpm'', ''uv'', ''conda'']"


lemma scout_word_facts:
  "list_all (\<lambda>w. w \<in> set READ_ONLY_FIRST_WORDS \<and> w \<notin> set ASK_FIRST_WORDS \<and> w \<notin> set INHERITED_WORDS \<and>
                 w \<notin> set THROWING_WORDS \<and> w \<notin> set COMPOUND_WORDS) SCOUT_READ_ONLY_FIRST_WORDS"
  by code_simp

lemma docker_word: "COMPOUND ''docker'' = Some docker_outcome" "''docker'' \<notin> set INHERITED_WORDS"
    "''docker'' \<notin> set THROWING_WORDS"
    "''docker'' \<in> set READ_ONLY_FIRST_WORDS" "''docker'' \<notin> set ASK_FIRST_WORDS"
      apply (simp add: COMPOUND_def)
     apply code_simp
    apply code_simp
   apply code_simp
  apply code_simp
  done

lemma compound_in: "COMPOUND word = Some f \<Longrightarrow> word \<in> set COMPOUND_WORDS"
  by (simp add: COMPOUND_def COMPOUND_WORDS_def split: if_splits) blast+


lemma asks_or_allows:
  "po_decision (if b then allow r else ask c q) \<noteq> Deny" "po_decision (if b then ask c q else allow r) \<noteq> Deny"
  by (simp_all add: outcome_defs)

lemma compound_not_deny: "COMPOUND word = Some f \<Longrightarrow> po_decision (f args) \<noteq> Deny"
proof -
  assume "COMPOUND word = Some f"
  then have "f \<in> {docker_outcome, git_outcome, curl_outcome, \<lambda>_. ask Explicit WgetWrites, pip_outcome, npm_outcome,
                  uv_outcome, conda_outcome}"
    unfolding COMPOUND_def by (simp only: split: if_splits) simp_all
  moreover have "po_decision (docker_outcome args) \<noteq> Deny" "po_decision (git_outcome args) \<noteq> Deny"
    "po_decision (curl_outcome args) \<noteq> Deny" "po_decision (pip_outcome args) \<noteq> Deny" "po_decision (npm_outcome args) \<noteq> Deny"
    "po_decision (uv_outcome args) \<noteq> Deny" "po_decision (conda_outcome args) \<noteq> Deny"
    unfolding docker_outcome_def git_outcome_def curl_outcome_def pip_outcome_def npm_outcome_def uv_outcome_def
      conda_outcome_def
    by (rule asks_or_allows)+
  ultimately show ?thesis by (auto simp: ask_def)
qed

lemma scout_words:
  assumes "word \<in> set SCOUT_READ_ONLY_FIRST_WORDS"
  shows "word \<in> set READ_ONLY_FIRST_WORDS" "word \<notin> set ASK_FIRST_WORDS" "word \<notin> set INHERITED_WORDS"
    "word \<notin> set THROWING_WORDS" "COMPOUND word = None"
proof -
  from assms scout_word_facts have f: "word \<in> set READ_ONLY_FIRST_WORDS \<and> word \<notin> set ASK_FIRST_WORDS \<and>
      word \<notin> set INHERITED_WORDS \<and> word \<notin> set THROWING_WORDS \<and> word \<notin> set COMPOUND_WORDS"
    unfolding list_all_iff by blast
  then show "word \<in> set READ_ONLY_FIRST_WORDS" "word \<notin> set ASK_FIRST_WORDS" "word \<notin> set INHERITED_WORDS"
    "word \<notin> set THROWING_WORDS" by simp_all
  show "COMPOUND word = None" using f compound_in [of word] by (cases "COMPOUND word") auto
qed

lemma scout_outcome_cases:
  "(word \<in> set SCOUT_DENY_FIRST_WORDS \<and> scout_outcome word rest cwd = deny (ScoutForbidden word)) \<or>
   (word = ''docker'' \<and> scout_outcome word rest cwd = docker_outcome rest) \<or>
   (word \<in> set SCOUT_READ_ONLY_FIRST_WORDS \<and> scout_outcome word rest cwd = allow LowImpact) \<or>
   scout_outcome word rest cwd = ask Explicit (ScoutConfirm word cwd)"
  unfolding scout_outcome_def by presburger


lemma scout_word_allowed:
  assumes "po_decision (scout_outcome word rest cwd) = Allow"
  shows "\<exists>r'. parent_outcome word rest cwd = Outcome r' \<and> po_decision r' = Allow"
  using scout_outcome_cases [of word rest cwd]
  by (elim disjE conjE) (use assms in \<open>simp_all add: parent_outcome_def docker_word scout_words outcome_defs\<close>)

lemma docker_explicit: "po_decision (docker_outcome rest) = Ask \<Longrightarrow> po_confirmation (docker_outcome rest) = Some Explicit"
  unfolding docker_outcome_def outcome_defs by (simp only: split: if_splits) simp_all

lemma scout_word_explicit:
  assumes "po_decision (scout_outcome word rest cwd) = Ask"
  shows "po_confirmation (scout_outcome word rest cwd) = Some Explicit"
  using scout_outcome_cases [of word rest cwd]
  by (elim disjE conjE) (use assms in \<open>simp_all add: docker_explicit outcome_defs\<close>)

lemma parent_word_not_denied: "parent_outcome word rest cwd = Outcome r \<Longrightarrow> po_decision r \<noteq> Deny"
  by (auto simp: parent_outcome_def outcome_defs split: if_splits option.splits dest: compound_not_deny)

lemma scoped_outcome:
  assumes "evaluateScopedGeneric env fv input sc = r" and "po_decision r \<noteq> Deny"
  shows "(po_decision r = Allow \<and> gi_tool input = Bash \<and>
            (case gi_command input of Some c \<Rightarrow> c | None \<Rightarrow> []) \<in> set (ts_inventory_commands sc)) \<or>
         (r = \<lparr>po_decision = Ask, po_confirmation = None, po_reason = PreparationCommand\<rparr> \<and> gi_tool input = Bash \<and>
            ts_allow_execution sc) \<or>
         (po_decision r = Allow \<and> gi_tool input = Read \<and>
            (\<exists>p t. gi_path input = Some p \<and> fv_realpath fv (resolve2 (pe_pcwd env) (gi_cwd input) p) = Some t \<and>
                   t \<in> set (ts_read_paths sc) \<and> fv_isFile fv t = Some True))"
  using assms
  by (auto simp: evaluateScopedGeneric_def scoped_read_def Let_def outcome_defs split: if_splits option.splits)

section \<open>Commands\<close>





text \<open>
  The scout profile is the stricter one: what it allows, the parent's allows; what the parent
  denies, it denies; and every question it raises is an explicit one.
\<close>

theorem scout_refines_parent:
  "(\<forall>r. evaluateBash env command cwd roots Scout = Outcome r \<longrightarrow>
      (po_decision r = Allow \<longrightarrow> (\<exists>r'. evaluateBash env command cwd roots Parent = Outcome r' \<and> po_decision r' = Allow)) \<and>
      (po_decision r = Ask \<longrightarrow> po_confirmation r = Some Explicit)) \<and>
   (\<forall>r'. evaluateBash env command cwd roots Parent = Outcome r' \<longrightarrow> po_decision r' = Deny \<longrightarrow>
      evaluateBash env command cwd roots Scout = Outcome r')"
proof -
  obtain word rest where fw: "firstWord command = (word, rest)" by (meson surj_pair)
  have ex: "redirectionOutcome env command cwd = Some r \<Longrightarrow> po_confirmation r = Some Explicit \<and> po_decision r = Ask" for r
    by (auto dest: redirection_asks)
  have px: "pipeOutcome command = Some r \<Longrightarrow> po_confirmation r = Some Explicit \<and> po_decision r = Ask" for r
    by (auto dest: pipe_asks)
  show ?thesis
    using scout_word_allowed [of word rest cwd] scout_word_explicit [of word rest cwd] parent_word_not_denied [of word rest cwd] ex px
    by (auto simp: evaluateBash_def fw deny_def split: option.splits)
qed

theorem scout_refines_parent_witness:
  "\<exists>r'. evaluateBash \<lparr>pe_pcwd = ''/w'', pe_tmpdir = ''/tmp''\<rparr> ''nvidia-smi -L'' ''/w'' [] Parent = Outcome r' \<and> po_decision r' = Allow"
proof -
  have "evaluateBash \<lparr>pe_pcwd = ''/w'', pe_tmpdir = ''/tmp''\<rparr> ''nvidia-smi -L'' ''/w'' [] Scout = Outcome (allow LowImpact)"
    by code_simp
  with scout_refines_parent [of "\<lparr>pe_pcwd = ''/w'', pe_tmpdir = ''/tmp''\<rparr>" "''nvidia-smi -L''" "''/w''" "[]"] show ?thesis
    by (simp add: allow_def)
qed

section \<open>Files\<close>

text \<open>
  File access is decided on resolved path segments, so dot segments cannot escape: a path
  below a managed root is denied for every tool, any other read is allowed, and a change is allowed
  exactly below the workspace or the temporary directory and asked about elsewhere.
\<close>

theorem file_access_by_segments:
  assumes "gi_path input = Some path" and "path \<noteq> []"
  shows "po_decision (evaluateFileAccess env input) =
     (let t = resolve2_segments (pe_pcwd env) (gi_cwd input) path in
      if \<exists>r \<in> set (gi_protectedRoots input). prefix (abs_segments (pe_pcwd env) r) t then Deny
      else if gi_tool input = Read then Allow
      else if prefix (abs_segments (pe_pcwd env) (gi_cwd input)) t \<or> prefix (abs_segments (pe_pcwd env) (pe_tmpdir env)) t
      then Allow else Ask)"
proof -
  let ?t = "resolve2 (pe_pcwd env) (gi_cwd input) path"
  have w: "within_dir ?t (resolve1 (pe_pcwd env) r) \<longleftrightarrow>
      prefix (abs_segments (pe_pcwd env) r) (resolve2_segments (pe_pcwd env) (gi_cwd input) path)" for r
    unfolding resolve2_def resolve1_def by (rule within_segments [OF resolve2_segments_valid abs_segments_valid])
  show ?thesis
  proof (cases "find (\<lambda>r. within_dir ?t r) (map (resolve1 (pe_pcwd env)) (gi_protectedRoots input))")
    case None
    then have "\<not> (\<exists>r \<in> set (gi_protectedRoots input). within_dir ?t (resolve1 (pe_pcwd env) r))"
      by (auto simp: find_None_iff)
    with None show ?thesis using assms by (auto simp: evaluateFileAccess_def Let_def w outcome_defs)
  next
    case (Some x)
    then have "\<exists>r \<in> set (gi_protectedRoots input). within_dir ?t (resolve1 (pe_pcwd env) r)"
      by (auto simp: find_Some_iff)
    with Some show ?thesis using assms by (auto simp: evaluateFileAccess_def Let_def w outcome_defs)
  qed
qed

theorem file_access_by_segments_witness:
  "po_decision (evaluateFileAccess \<lparr>pe_pcwd = ''/w'', pe_tmpdir = ''/tmp''\<rparr>
     \<lparr>gi_tool = Write, gi_command = None, gi_path = Some ''src/../../srv/bt/x'', gi_cwd = ''/w'',
      gi_protectedRoots = [''/srv/bt''], gi_profile = None\<rparr>) = Deny"
proof -
  let ?in = "\<lparr>gi_tool = Write, gi_command = None, gi_path = Some ''src/../../srv/bt/x'', gi_cwd = ''/w'',
              gi_protectedRoots = [''/srv/bt''], gi_profile = None\<rparr>"
  have "prefix (abs_segments ''/w'' ''/srv/bt'') (resolve2_segments ''/w'' ''/w'' ''src/../../srv/bt/x'')" by code_simp
  then show ?thesis using file_access_by_segments [of ?in "''src/../../srv/bt/x''"] by simp
qed

section \<open>The gate\<close>



text \<open>
  A delegated task widens nothing: with a task scope, a call that proceeds is one the policy
  does not deny, and it is a listed inventory command, a listed preparation command the user
  confirmed, or the read of an existing file that is listed by its real path and lies under no managed
  directory.
\<close>

theorem task_scope_is_exact:
  assumes "parent_tool_call env fv (Some sc) g v = Proceed"
  shows "(\<forall>r. evaluateGenericCall env (cv_input v) = Outcome r \<longrightarrow> po_decision r \<noteq> Deny) \<and>
         ((gi_tool (cv_input v) = Bash \<and> (case gi_command (cv_input v) of Some c \<Rightarrow> c | None \<Rightarrow> []) \<in> set (ts_inventory_commands sc)) \<or>
          (gi_tool (cv_input v) = Bash \<and> cv_confirm v PreparationCommand \<and> ts_allow_execution sc) \<or>
          (gi_tool (cv_input v) = Read \<and>
             (\<exists>p t. gi_path (cv_input v) = Some p \<and>
                fv_realpath fv (resolve2 (pe_pcwd env) (gi_cwd (cv_input v)) p) = Some t \<and>
                t \<in> set (ts_read_paths sc) \<and> fv_isFile fv t = Some True)))"
proof -
  from assms obtain r where r: "parent_verdict env fv (Some sc) (cv_input v) = Outcome r"
      "settle_outcome r (cv_hasUI v) (cv_confirm v)
         (resolveApprovalSkip (po_confirmation r) (approval_get g) (ga_sessionSkip g)) = Proceed"
    by (auto simp: parent_tool_call_def split: verdict.splits)
  then have nd: "po_decision r \<noteq> Deny" by (auto simp: settle_outcome_def split: if_splits)
  then have s: "r = evaluateScopedGeneric env fv (cv_input v) sc"
      "\<forall>r. evaluateGenericCall env (cv_input v) = Outcome r \<longrightarrow> po_decision r \<noteq> Deny"
    using r(1) by (auto simp: parent_verdict_def split: verdict.splits if_splits)
  show ?thesis
    using s(2) scoped_outcome [OF s(1) [symmetric] nd] r(2)
    by (auto simp: settle_outcome_def resolveApprovalSkip_def split: if_splits)
qed

theorem task_scope_is_exact_witness:
  "\<exists>sc. parent_tool_call \<lparr>pe_pcwd = ''/w'', pe_tmpdir = ''/tmp''\<rparr> \<lparr>fv_realpath = Some, fv_isFile = (\<lambda>_. Some True)\<rparr> (Some sc)
     \<lparr>ga_sessionSkip = False, ga_hasApproval = True, ga_stored = None\<rparr>
     \<lparr>cv_input = \<lparr>gi_tool = Bash, gi_command = Some ''nvidia-smi -L'', gi_path = None, gi_cwd = ''/w'', gi_protectedRoots = [],
                 gi_profile = None\<rparr>, cv_hasUI = False, cv_confirm = (\<lambda>_. False)\<rparr> = Proceed \<and>
   ''nvidia-smi -L'' \<in> set (ts_inventory_commands sc)"
proof -
  let ?sc = "\<lparr>ts_allow_execution = False, ts_preparation_commands = None, ts_read_paths = [], ts_inventory_commands = [''nvidia-smi -L'']\<rparr>"
  have p: "parent_tool_call \<lparr>pe_pcwd = ''/w'', pe_tmpdir = ''/tmp''\<rparr> \<lparr>fv_realpath = Some, fv_isFile = (\<lambda>_. Some True)\<rparr> (Some ?sc)
     \<lparr>ga_sessionSkip = False, ga_hasApproval = True, ga_stored = None\<rparr>
     \<lparr>cv_input = \<lparr>gi_tool = Bash, gi_command = Some ''nvidia-smi -L'', gi_path = None, gi_cwd = ''/w'', gi_protectedRoots = [],
                 gi_profile = None\<rparr>, cv_hasUI = False, cv_confirm = (\<lambda>_. False)\<rparr> = Proceed"
    by code_simp
  from task_scope_is_exact [OF p] p show ?thesis by auto
qed

section \<open>Where the policy falls short\<close>

text \<open>
  C28. The command \<open>/approval session\<close> has no effect: the stored preference is only ever reported
  as ask or always, so the session flag changes no decision, although the label then says that
  ordinary questions are skipped for the session.
\<close>

theorem session_approval_has_no_effect:
  assumes "approval_command ''session'' g = (g', reply)" and "ga_hasApproval g" and "ga_stored g \<noteq> Some ModeAlwaysSkip"
  shows "reply = ApprovalSet LabelSession \<and> parent_tool_call env fv scope g' v = parent_tool_call env fv scope g v \<and>
         \<not> resolveApprovalSkip (Some Ordinary) (approval_get g') (ga_sessionSkip g')"
proof -
  have g': "g' = g\<lparr>ga_sessionSkip := True\<rparr>" "reply = ApprovalSet (approvalLabel g')"
  proof -
    have "to_lower (trim ''session'') = ''session''" by code_simp
    then show "g' = g\<lparr>ga_sessionSkip := True\<rparr>" "reply = ApprovalSet (approvalLabel g')"
      using assms(1) by (auto simp: approval_command_def Let_def)
  qed
  have mode: "approval_get g = Some ModeAsk" "approval_get g' = Some ModeAsk"
    using assms(2,3) g' by (auto simp: approval_get_def getApprovalMode_def)
  then have "resolveApprovalSkip c (approval_get g') b = False" "resolveApprovalSkip c (approval_get g) b = False" for c b
    by (auto simp: resolveApprovalSkip_def)
  then show ?thesis
    using mode g' by (auto simp: approvalLabel_def parent_tool_call_def split: verdict.split)
qed

theorem session_approval_has_no_effect_witness:
  "\<exists>g' reply. approval_command ''session'' \<lparr>ga_sessionSkip = False, ga_hasApproval = True, ga_stored = None\<rparr> = (g', reply) \<and>
     reply = ApprovalSet LabelSession \<and> \<not> resolveApprovalSkip (Some Ordinary) (approval_get g') (ga_sessionSkip g')"
proof -
  obtain g' reply where a: "approval_command ''session'' \<lparr>ga_sessionSkip = False, ga_hasApproval = True, ga_stored = None\<rparr> = (g', reply)"
    by (meson surj_pair)
  with session_approval_has_no_effect [OF a] show ?thesis by auto
qed

definition demo_env :: policy_env where
  "demo_env = \<lparr>pe_pcwd = ''/w'', pe_tmpdir = ''/tmp''\<rparr>"

definition demo_decision :: "string \<Rightarrow> decision option" where
  "demo_decision command =
     (case evaluateBash demo_env command ''/w'' [] Parent of Outcome r \<Rightarrow> Some (po_decision r) | _ \<Rightarrow> None)"

lemma demo_decision_1: "demo_decision ''ls && rm -rf build'' = Some Allow"
  by code_simp

lemma demo_decision_2: "demo_decision ''curl -XPOST http://h/x'' = Some Allow"
  by code_simp

lemma demo_decision_3: "demo_decision ''curl -dsecret http://h/x'' = Some Allow"
  by code_simp

lemma demo_decision_4: "demo_decision ''find . -delete'' = Some Allow"
  by code_simp

lemma demo_decision_5: "demo_decision ''git branch -D main'' = Some Allow"
  by code_simp

lemma demo_decision_6: "demo_decision ''docker container rm x'' = Some Allow"
  by code_simp

lemma demo_decision_7: "demo_decision ''env rm -rf build'' = Some Allow"
  by code_simp

lemma demo_decision_8: "demo_decision ''rm -fr /'' = Some Ask"
  by code_simp

lemma demo_decision_9: "demo_decision ''rm -r ./build/x'' = Some Deny"
  by code_simp

lemmas demo_decisions =
  demo_decision_1 demo_decision_2 demo_decision_3 demo_decision_4 demo_decision_5
  demo_decision_6 demo_decision_7 demo_decision_8 demo_decision_9

text \<open>
  C33. Commands that change the host and are allowed without a question, since only the first word,
  pipes and substitutions are looked at: a chained removal, a request method or data glued to its flag,
  a deleting \<open>find\<close>, a removed branch or container. A recursive removal of the root written
  \<open>-fr\<close> is only asked about, while the removal of a directory of the workspace is denied.
\<close>

theorem side_effects_allowed:
  "map demo_decision
     [''ls && rm -rf build'', ''curl -XPOST http://h/x'', ''curl -dsecret http://h/x'', ''find . -delete'',
      ''git branch -D main'', ''docker container rm x'', ''env rm -rf build'']
     = replicate 7 (Some Allow) \<and>
   demo_decision ''rm -fr /'' = Some Ask \<and> demo_decision ''rm -r ./build/x'' = Some Deny"
  by (simp add: demo_decisions numeral_eq_Suc)

end
