(* ===== verification/Utf8.thy ===== *)
theory Utf8
  imports Prelude "HOL-Library.Sublist"
begin

unbundle bit_operations_syntax

text \<open>
  Text and bytes. A text is its list of Unicode scalar values (a JavaScript string without lone
  surrogates), a buffer its list of bytes. \<open>encode\<close> is \<open>Buffer.from(text, "utf-8")\<close>, whose length is
  \<open>Buffer.byteLength\<close>; \<open>decode\<close> is \<open>buffer.toString("utf-8")\<close>, the decoder of the WHATWG Encoding
  standard, which replaces each maximal ill-formed part by U+FFFD. The state of the decoder is
  explicit, since \<open>TextDecoder\<close> keeps it from one chunk to the next.
\<close>

type_synonym utext = "nat list"
type_synonym buffer = "nat list"

definition scalar :: "nat \<Rightarrow> bool" where
  "scalar c \<longleftrightarrow> c < 0xD800 \<or> (0xE000 \<le> c \<and> c \<le> 0x10FFFF)"

definition enc :: "nat \<Rightarrow> buffer" where
  "enc c =
     (if c < 0x80 then [c]
      else if c < 0x800 then [0xC0 + c div 64, 0x80 + c mod 64]
      else if c < 0x10000 then [0xE0 + c div 4096, 0x80 + (c div 64) mod 64, 0x80 + c mod 64]
      else [0xF0 + c div 262144, 0x80 + (c div 4096) mod 64, 0x80 + (c div 64) mod 64, 0x80 + c mod 64])"

definition encode :: "utext \<Rightarrow> buffer" where
  "encode s = concat (map enc s)"

definition byteLength :: "utext \<Rightarrow> nat" where
  "byteLength s = length (encode s)"

definition replacement :: nat where
  "replacement = 0xFFFD"

section \<open>The decoder\<close>

text \<open>\<open>Need cp n lo hi\<close>: \<open>n\<close> more bytes, the next one between \<open>lo\<close> and \<open>hi\<close>.\<close>

datatype dec = Start | Need nat nat nat nat

fun dec_start :: "nat \<Rightarrow> dec \<times> utext" where
  "dec_start b =
     (if b \<le> 0x7F then (Start, [b])
      else if 0xC2 \<le> b \<and> b \<le> 0xDF then (Need (b - 0xC0) 1 0x80 0xBF, [])
      else if 0xE0 \<le> b \<and> b \<le> 0xEF then
        (Need (b - 0xE0) 2 (if b = 0xE0 then 0xA0 else 0x80) (if b = 0xED then 0x9F else 0xBF), [])
      else if 0xF0 \<le> b \<and> b \<le> 0xF4 then
        (Need (b - 0xF0) 3 (if b = 0xF0 then 0x90 else 0x80) (if b = 0xF4 then 0x8F else 0xBF), [])
      else (Start, [replacement]))"

fun dec_byte :: "dec \<Rightarrow> nat \<Rightarrow> dec \<times> utext" where
  "dec_byte Start b = dec_start b"
| "dec_byte (Need cp n lo hi) b =
     (if b < lo \<or> hi < b then (let (d, s) = dec_start b in (d, replacement # s))
      else (let cp' = cp * 64 + (b - 0x80) in
            if n \<le> 1 then (Start, [cp']) else (Need cp' (n - 1) 0x80 0xBF, [])))"

fun dec_bytes :: "dec \<Rightarrow> buffer \<Rightarrow> dec \<times> utext" where
  "dec_bytes d [] = (d, [])"
| "dec_bytes d (b # bs) = (let (d', s) = dec_byte d b; (d'', s') = dec_bytes d' bs in (d'', s @ s'))"

definition dec_end :: "dec \<Rightarrow> utext" where
  "dec_end d = (case d of Start \<Rightarrow> [] | Need _ _ _ _ \<Rightarrow> [replacement])"

definition decode :: "buffer \<Rightarrow> utext" where
  "decode bs = (let (d, s) = dec_bytes Start bs in s @ dec_end d)"

section \<open>Lemmas\<close>

lemma encode_simps [simp]:
  "encode [] = []" "encode (c # s) = enc c @ encode s" "encode (s @ t) = encode s @ encode t"
  by (simp_all add: encode_def)

lemma byteLength_simps [simp]:
  "byteLength [] = 0" "byteLength (c # s) = length (enc c) + byteLength s"
  "byteLength (s @ t) = byteLength s + byteLength t"
  by (simp_all add: byteLength_def)

lemma enc_pos [simp]: "0 < length (enc c)" "enc c \<noteq> []"
  by (simp_all add: enc_def)

lemma enc_le4: "length (enc c) \<le> 4"
  by (simp add: enc_def)

lemma byteLength_length: "length s \<le> byteLength s"
proof (induction s)
  case (Cons c s)
  have "1 \<le> length (enc c)" using enc_pos(1) [of c] by linarith
  with Cons show ?case by simp
qed simp

lemma byteLength_eq_0 [simp]: "byteLength s = 0 \<longleftrightarrow> s = []"
  by (cases s) auto

lemma byteLength_suffix: "suffix t s \<Longrightarrow> byteLength t \<le> byteLength s"
  by (auto simp: suffix_def)

lemma dec_bytes_append:
  "dec_bytes d (xs @ ys) = (let (d', s) = dec_bytes d xs; (d'', s') = dec_bytes d' ys in (d'', s @ s'))"
  by (induction xs arbitrary: d) (auto simp: Let_def split: prod.splits)

text \<open>The digits of a code in base 64, and the decoder on them.\<close>

lemma base64_two: "\<exists>a b. c = 64 * a + b \<and> b < 64 \<and> c div 64 = a \<and> c mod 64 = b" for c :: nat
  by (intro exI [of _ "c div 64"] exI [of _ "c mod 64"]) simp

lemma base64_three:
  "\<exists>a b d. c = 4096 * a + 64 * b + d \<and> b < 64 \<and> d < 64 \<and> c div 4096 = a \<and> c div 64 mod 64 = b \<and> c mod 64 = d" for c :: nat
proof -
  have "c div 64 div 64 = c div 4096" by (simp add: div_mult2_eq [symmetric])
  moreover have "c = 64 * (c div 64) + c mod 64" by simp
  moreover have "c div 64 = 64 * (c div 64 div 64) + c div 64 mod 64" by simp
  ultimately have "c = 4096 * (c div 4096) + 64 * (c div 64 mod 64) + c mod 64" by linarith
  then show ?thesis by (intro exI [of _ "c div 4096"] exI [of _ "c div 64 mod 64"] exI [of _ "c mod 64"]) simp
qed

lemma base64_four:
  "\<exists>e a b d. c = 262144 * e + 4096 * a + 64 * b + d \<and> a < 64 \<and> b < 64 \<and> d < 64 \<and>
     c div 262144 = e \<and> c div 4096 mod 64 = a \<and> c div 64 mod 64 = b \<and> c mod 64 = d" for c :: nat
proof -
  obtain a b d where c: "c = 4096 * a + 64 * b + d" "b < 64" "d < 64" "c div 4096 = a" "c div 64 mod 64 = b" "c mod 64 = d"
    using base64_three [of c] by blast
  have "a div 64 = c div 262144" using c(4) by (simp add: div_mult2_eq [symmetric])
  moreover have "a = 64 * (a div 64) + a mod 64" by simp
  ultimately have "c = 262144 * (c div 262144) + 4096 * (a mod 64) + 64 * b + d" using c(1) by linarith
  moreover have "a mod 64 < 64" "c div 4096 mod 64 = a mod 64" using c(4) by simp_all
  ultimately show ?thesis using c(2,3,5,6) by blast
qed

lemma dec_two:
  "b < 64 \<Longrightarrow> 2 \<le> a \<Longrightarrow> a < 32 \<Longrightarrow> dec_bytes Start [0xC0 + a, 0x80 + b] = (Start, [64 * a + b])"
  by (simp add: Let_def)

lemma dec_three:
  "b < 64 \<Longrightarrow> d < 64 \<Longrightarrow> a < 16 \<Longrightarrow> (a = 0 \<longrightarrow> 32 \<le> b) \<Longrightarrow> (a = 13 \<longrightarrow> b < 32) \<Longrightarrow>
     dec_bytes Start [0xE0 + a, 0x80 + b, 0x80 + d] = (Start, [4096 * a + 64 * b + d])"
  by (auto simp: Let_def)

lemma dec_four:
  "a < 64 \<Longrightarrow> b < 64 \<Longrightarrow> d < 64 \<Longrightarrow> e \<le> 4 \<Longrightarrow> (e = 0 \<longrightarrow> 16 \<le> a) \<Longrightarrow> (e = 4 \<longrightarrow> a < 16) \<Longrightarrow>
     dec_bytes Start [0xF0 + e, 0x80 + a, 0x80 + b, 0x80 + d] = (Start, [262144 * e + 4096 * a + 64 * b + d])"
  by (auto simp: Let_def)

lemma dec_enc: "scalar c \<Longrightarrow> dec_bytes Start (enc c) = (Start, [c])"
proof -
  assume c: "scalar c"
  consider "c < 0x80" | "0x80 \<le> c" "c < 0x800" | "0x800 \<le> c" "c < 0x10000" | "0x10000 \<le> c" "c \<le> 0x10FFFF"
    using c by (force simp: scalar_def)
  then show ?thesis
  proof cases
    case 1
    then show ?thesis by (simp add: enc_def)
  next
    case 2
    obtain a b where d: "c = 64 * a + b" "b < 64" "c div 64 = a" "c mod 64 = b" using base64_two [of c] by blast
    then have "enc c = [0xC0 + a, 0x80 + b]" using 2 by (simp add: enc_def)
    moreover have "2 \<le> a" "a < 32" using 2 d(1,2) by linarith+
    ultimately show ?thesis using dec_two [of b a] d(1,2) by (simp only:)
  next
    case 3
    obtain a b d where d: "c = 4096 * a + 64 * b + d" "b < 64" "d < 64" "c div 4096 = a" "c div 64 mod 64 = b" "c mod 64 = d"
      using base64_three [of c] by blast
    then have "enc c = [0xE0 + a, 0x80 + b, 0x80 + d]" using 3 by (simp add: enc_def)
    moreover have "a < 16" "a = 0 \<longrightarrow> 32 \<le> b" using 3 d(1-3) by linarith+
    moreover have "a = 13 \<longrightarrow> b < 32" using c d(1-3) by (simp only: scalar_def) linarith
    ultimately show ?thesis using dec_three [of b d a] d(1-3) by (simp only:)
  next
    case 4
    obtain e a b d where d: "c = 262144 * e + 4096 * a + 64 * b + d" "a < 64" "b < 64" "d < 64"
        "c div 262144 = e" "c div 4096 mod 64 = a" "c div 64 mod 64 = b" "c mod 64 = d"
      using base64_four [of c] by blast
    then have "enc c = [0xF0 + e, 0x80 + a, 0x80 + b, 0x80 + d]" using 4 by (simp add: enc_def)
    moreover have "e \<le> 4" "e = 0 \<longrightarrow> 16 \<le> a" "e = 4 \<longrightarrow> a < 16" using 4 d(1-4) by linarith+
    ultimately show ?thesis using dec_four [of a b d e] d(1-4) by (simp only:)
  qed
qed

lemma dec_encode: "list_all scalar s \<Longrightarrow> dec_bytes Start (encode s) = (Start, s)"
  by (induction s) (auto simp: dec_bytes_append dec_enc)

lemma decode_encode: "list_all scalar s \<Longrightarrow> decode (encode s) = s"
  by (simp add: decode_def dec_encode dec_end_def)

end
