(* ===== verification/Truncate.thy ===== *)
theory Truncate
  imports Utf8
begin

text \<open>
  The truncation of tool output (\<open>src/core/tools/truncate.ts\<close>): by lines and by UTF-8 bytes, from
  the head (file reads) and from the tail (command output). Sizes are natural numbers.
\<close>

abbreviation newline :: nat where
  "newline \<equiv> 10"

definition DEFAULT_MAX_LINES :: nat where
  "DEFAULT_MAX_LINES = 2000"

definition DEFAULT_MAX_BYTES :: nat where
  "DEFAULT_MAX_BYTES = 50 * 1024"

definition GREP_MAX_LINE_LENGTH :: nat where
  "GREP_MAX_LINE_LENGTH = 500"

datatype limit = LimitLines | LimitBytes

record truncation =
  tr_content :: utext
  tr_truncated :: bool
  tr_truncatedBy :: "limit option"
  tr_totalLines :: nat
  tr_totalBytes :: nat
  tr_outputLines :: nat
  tr_outputBytes :: nat
  tr_lastLinePartial :: bool
  tr_firstLineExceedsLimit :: bool
  tr_maxLines :: nat
  tr_maxBytes :: nat

text \<open>\<open>content.split("\n")\<close>.\<close>

fun split_nl :: "utext \<Rightarrow> utext list" where
  "split_nl [] = [[]]"
| "split_nl (c # cs) =
     (if c = newline then [] # split_nl cs
      else (case split_nl cs of [] \<Rightarrow> [[c]] | l # ls \<Rightarrow> (c # l) # ls))"

definition splitLinesForCounting :: "utext \<Rightarrow> utext list" where
  "splitLinesForCounting content =
     (if content = [] then []
      else (let lines = split_nl content in if last content = newline then butlast lines else lines))"

definition whole :: "utext \<Rightarrow> nat \<Rightarrow> nat \<Rightarrow> truncation" where
  "whole content maxLines maxBytes =
     \<lparr>tr_content = content, tr_truncated = False, tr_truncatedBy = None,
      tr_totalLines = length (splitLinesForCounting content), tr_totalBytes = byteLength content,
      tr_outputLines = length (splitLinesForCounting content), tr_outputBytes = byteLength content,
      tr_lastLinePartial = False, tr_firstLineExceedsLimit = False, tr_maxLines = maxLines, tr_maxBytes = maxBytes\<rparr>"

text \<open>The two loops; the result is the collected lines, their byte count and whether the byte limit stopped the loop.\<close>

fun head_loop :: "nat \<Rightarrow> nat \<Rightarrow> nat \<Rightarrow> utext list \<Rightarrow> utext list \<Rightarrow> nat \<Rightarrow> utext list \<times> nat \<times> bool" where
  "head_loop maxLines maxBytes i [] out n = (out, n, False)"
| "head_loop maxLines maxBytes i (line # lines) out n =
     (if \<not> i < maxLines then (out, n, False)
      else (let lineBytes = byteLength line + (if 0 < i then 1 else 0) in
            if maxBytes < n + lineBytes then (out, n, True)
            else head_loop maxLines maxBytes (i + 1) lines (out @ [line]) (n + lineBytes)))"

definition is_cont :: "nat \<Rightarrow> bool" where
  "is_cont b = (b AND 0xC0 = 0x80)"

text \<open>The loop over the continuation bytes at \<open>start\<close>.\<close>

definition skip_cont :: "buffer \<Rightarrow> nat \<Rightarrow> nat" where
  "skip_cont buf start = start + length (takeWhile is_cont (drop start buf))"

definition truncateStringToBytesFromEnd :: "utext \<Rightarrow> nat \<Rightarrow> utext" where
  "truncateStringToBytesFromEnd str maxBytes =
     (let buf = encode str in
      if length buf \<le> maxBytes then str
      else decode (drop (skip_cont buf (length buf - maxBytes)) buf))"

text \<open>The lines are visited from the last one; \<open>lines\<close> is the reversed list of those not yet visited.\<close>

fun tail_loop :: "nat \<Rightarrow> nat \<Rightarrow> utext list \<Rightarrow> utext list \<Rightarrow> nat \<Rightarrow> utext list \<times> nat \<times> bool \<times> bool" where
  "tail_loop maxLines maxBytes [] out n = (out, n, False, False)"
| "tail_loop maxLines maxBytes (line # lines) out n =
     (if \<not> length out < maxLines then (out, n, False, False)
      else (let lineBytes = byteLength line + (if 0 < length out then 1 else 0) in
            if maxBytes < n + lineBytes then
              (if out = [] then
                 (let t = truncateStringToBytesFromEnd line maxBytes in ([t], byteLength t, True, True))
               else (out, n, True, False))
            else tail_loop maxLines maxBytes lines (line # out) (n + lineBytes)))"

definition limit_hit :: "nat \<Rightarrow> nat \<Rightarrow> utext list \<Rightarrow> nat \<Rightarrow> bool \<Rightarrow> limit" where
  "limit_hit maxLines maxBytes out n by_bytes =
     (if maxLines \<le> length out \<and> n \<le> maxBytes then LimitLines
      else if by_bytes then LimitBytes else LimitLines)"

definition truncated_result :: "utext \<Rightarrow> utext list \<Rightarrow> nat \<Rightarrow> nat \<Rightarrow> utext list \<Rightarrow> limit \<Rightarrow> bool \<Rightarrow> truncation" where
  "truncated_result content lines maxLines maxBytes out by part =
     (let result = join_with [newline] out in
      \<lparr>tr_content = result, tr_truncated = True, tr_truncatedBy = Some by,
       tr_totalLines = length lines, tr_totalBytes = byteLength content,
       tr_outputLines = length out, tr_outputBytes = byteLength result,
       tr_lastLinePartial = part, tr_firstLineExceedsLimit = False, tr_maxLines = maxLines, tr_maxBytes = maxBytes\<rparr>)"

definition truncateHead :: "utext \<Rightarrow> nat option \<Rightarrow> nat option \<Rightarrow> truncation" where
  "truncateHead content optLines optBytes =
     (let maxLines = (case optLines of Some n \<Rightarrow> n | None \<Rightarrow> DEFAULT_MAX_LINES);
          maxBytes = (case optBytes of Some n \<Rightarrow> n | None \<Rightarrow> DEFAULT_MAX_BYTES);
          lines = splitLinesForCounting content
      in if length lines \<le> maxLines \<and> byteLength content \<le> maxBytes then whole content maxLines maxBytes
         else if maxBytes < byteLength (hd lines) then
           \<lparr>tr_content = [], tr_truncated = True, tr_truncatedBy = Some LimitBytes,
            tr_totalLines = length lines, tr_totalBytes = byteLength content, tr_outputLines = 0, tr_outputBytes = 0,
            tr_lastLinePartial = False, tr_firstLineExceedsLimit = True, tr_maxLines = maxLines, tr_maxBytes = maxBytes\<rparr>
         else (let (out, n, by_bytes) = head_loop maxLines maxBytes 0 lines [] 0
               in truncated_result content lines maxLines maxBytes out (limit_hit maxLines maxBytes out n by_bytes) False))"

definition truncateTail :: "utext \<Rightarrow> nat option \<Rightarrow> nat option \<Rightarrow> truncation" where
  "truncateTail content optLines optBytes =
     (let maxLines = (case optLines of Some n \<Rightarrow> n | None \<Rightarrow> DEFAULT_MAX_LINES);
          maxBytes = (case optBytes of Some n \<Rightarrow> n | None \<Rightarrow> DEFAULT_MAX_BYTES);
          lines = splitLinesForCounting content
      in if length lines \<le> maxLines \<and> byteLength content \<le> maxBytes then whole content maxLines maxBytes
         else (let (out, n, by_bytes, part) = tail_loop maxLines maxBytes (rev lines) [] 0
               in truncated_result content lines maxLines maxBytes out (limit_hit maxLines maxBytes out n by_bytes) part))"

text \<open>
  \<open>truncateLine\<close>, for a line without characters beyond the basic plane, whose length is the number
  of its characters; the suffix is \<open>"... [truncated]"\<close>.
\<close>

definition truncated_suffix :: utext where
  "truncated_suffix = map of_char ''... [truncated]''"

definition truncateLine :: "utext \<Rightarrow> nat option \<Rightarrow> utext \<times> bool" where
  "truncateLine line optChars =
     (let maxChars = (case optChars of Some n \<Rightarrow> n | None \<Rightarrow> GREP_MAX_LINE_LENGTH) in
      if length line \<le> maxChars then (line, False) else (take maxChars line @ truncated_suffix, True))"

end
