(* ===== verification/Output_Accumulator.thy ===== *)
theory Output_Accumulator
  imports Truncate
begin

text \<open>
  The bounded-memory accumulator of command output (\<open>src/core/tools/output-accumulator.ts\<close>, class
  \<open>OutputAccumulator\<close>): a streaming decoder, counters over the whole output, a rolling tail of the
  decoded text for snapshots, and a temporary file that receives the raw bytes once the output is
  too large. The path of the file, random in the source, is an argument of the operations that may
  create it; \<open>oa_file\<close> is what has been written to it.
\<close>

text \<open>\<open>TextDecoder\<close>: the decoder's state and whether the place of a byte order mark has passed.\<close>

type_synonym text_decoder = "dec \<times> bool"

definition skip_bom :: "bool \<Rightarrow> utext \<Rightarrow> bool \<times> utext" where
  "skip_bom seen s =
     (if seen \<or> s = [] then (seen, s) else (True, if hd s = 0xFEFF then tl s else s))"

definition td_decode :: "text_decoder \<Rightarrow> buffer \<Rightarrow> text_decoder \<times> utext" where
  "td_decode td data =
     (let (d', s) = dec_bytes (fst td) data; (seen, t) = skip_bom (snd td) s in ((d', seen), t))"

definition td_flush :: "text_decoder \<Rightarrow> text_decoder \<times> utext" where
  "td_flush td = ((Start, False), snd (skip_bom (snd td) (dec_end (fst td))))"

record accumulator =
  oa_maxLines :: nat
  oa_maxBytes :: nat
  oa_maxRollingBytes :: nat
  oa_decoder :: text_decoder
  oa_rawChunks :: "buffer list"
  oa_tailText :: utext
  oa_tailBytes :: nat
  oa_tailStartsAtLineBoundary :: bool
  oa_totalRawBytes :: nat
  oa_totalDecodedBytes :: nat
  oa_completedLines :: nat
  oa_totalLines :: nat
  oa_currentLineBytes :: nat
  oa_hasOpenLine :: bool
  oa_finished :: bool
  oa_tempFilePath :: "string option"
  oa_streamOpen :: bool
  oa_file :: buffer

definition new_accumulator :: "nat option \<Rightarrow> nat option \<Rightarrow> accumulator" where
  "new_accumulator optLines optBytes =
     (let maxLines = (case optLines of Some n \<Rightarrow> n | None \<Rightarrow> DEFAULT_MAX_LINES);
          maxBytes = (case optBytes of Some n \<Rightarrow> n | None \<Rightarrow> DEFAULT_MAX_BYTES)
      in \<lparr>oa_maxLines = maxLines, oa_maxBytes = maxBytes, oa_maxRollingBytes = max (maxBytes * 2) 1,
          oa_decoder = (Start, False), oa_rawChunks = [], oa_tailText = [], oa_tailBytes = 0,
          oa_tailStartsAtLineBoundary = True, oa_totalRawBytes = 0, oa_totalDecodedBytes = 0,
          oa_completedLines = 0, oa_totalLines = 0, oa_currentLineBytes = 0, oa_hasOpenLine = False,
          oa_finished = False, oa_tempFilePath = None, oa_streamOpen = False, oa_file = []\<rparr>)"

definition trimTail :: "accumulator \<Rightarrow> accumulator" where
  "trimTail acc =
     (let buf = encode (oa_tailText acc) in
      if length buf \<le> oa_maxRollingBytes acc then acc\<lparr>oa_tailBytes := length buf\<rparr>
      else
        (let start = skip_cont buf (length buf - oa_maxRollingBytes acc);
             tail = decode (drop start buf)
         in acc\<lparr>oa_tailStartsAtLineBoundary :=
                  (if start = 0 then oa_tailStartsAtLineBoundary acc else buf ! (start - 1) = 0x0A),
                oa_tailText := tail, oa_tailBytes := byteLength tail\<rparr>))"

definition after_last_newline :: "utext \<Rightarrow> utext" where
  "after_last_newline text = rev (takeWhile (\<lambda>c. c \<noteq> newline) (rev text))"

definition count_lines :: "utext \<Rightarrow> accumulator \<Rightarrow> accumulator" where
  "count_lines text acc =
     (let newlines = length (filter (\<lambda>c. c = newline) text);
          acc' = (if newlines = 0
                  then acc\<lparr>oa_currentLineBytes := oa_currentLineBytes acc + byteLength text, oa_hasOpenLine := True\<rparr>
                  else acc\<lparr>oa_completedLines := oa_completedLines acc + newlines,
                           oa_currentLineBytes := byteLength (after_last_newline text),
                           oa_hasOpenLine := (after_last_newline text \<noteq> [])\<rparr>)
      in acc'\<lparr>oa_totalLines := oa_completedLines acc' + (if oa_hasOpenLine acc' then 1 else 0)\<rparr>)"

definition appendDecodedText :: "utext \<Rightarrow> accumulator \<Rightarrow> accumulator" where
  "appendDecodedText text acc =
     (if text = [] then acc
      else
        (let acc1 = acc\<lparr>oa_totalDecodedBytes := oa_totalDecodedBytes acc + byteLength text,
                        oa_tailText := oa_tailText acc @ text, oa_tailBytes := oa_tailBytes acc + byteLength text\<rparr>;
             acc2 = (if oa_maxRollingBytes acc1 * 2 < oa_tailBytes acc1 then trimTail acc1 else acc1)
         in count_lines text acc2))"

definition shouldUseTempFile :: "accumulator \<Rightarrow> bool" where
  "shouldUseTempFile acc =
     (oa_maxBytes acc < oa_totalRawBytes acc \<or> oa_maxBytes acc < oa_totalDecodedBytes acc \<or>
      oa_maxLines acc < oa_totalLines acc)"

definition ensureTempFile :: "string \<Rightarrow> accumulator \<Rightarrow> accumulator" where
  "ensureTempFile path acc =
     (if oa_tempFilePath acc \<noteq> None then acc
      else acc\<lparr>oa_tempFilePath := Some path, oa_streamOpen := True, oa_file := concat (oa_rawChunks acc), oa_rawChunks := []\<rparr>)"

datatype accumulator_error = AppendAfterFinish

definition append_chunk :: "string \<Rightarrow> buffer \<Rightarrow> accumulator \<Rightarrow> accumulator_error + accumulator" where
  "append_chunk path data acc =
     (if oa_finished acc then Inl AppendAfterFinish
      else
        (let (td, text) = td_decode (oa_decoder acc) data;
             acc1 = appendDecodedText text
                      (acc\<lparr>oa_totalRawBytes := oa_totalRawBytes acc + length data, oa_decoder := td\<rparr>)
         in if oa_streamOpen acc1 \<or> shouldUseTempFile acc1 then
              (let acc2 = ensureTempFile path acc1
               in Inr (if oa_streamOpen acc2 then acc2\<lparr>oa_file := oa_file acc2 @ data\<rparr> else acc2))
            else Inr (if 0 < length data then acc1\<lparr>oa_rawChunks := oa_rawChunks acc1 @ [data]\<rparr> else acc1)))"

definition finish :: "string \<Rightarrow> accumulator \<Rightarrow> accumulator" where
  "finish path acc =
     (if oa_finished acc then acc
      else
        (let (td, text) = td_flush (oa_decoder acc);
             acc1 = appendDecodedText text (acc\<lparr>oa_finished := True, oa_decoder := td\<rparr>)
         in if shouldUseTempFile acc1 then ensureTempFile path acc1 else acc1))"

definition getSnapshotText :: "accumulator \<Rightarrow> utext" where
  "getSnapshotText acc =
     (if oa_tailStartsAtLineBoundary acc then oa_tailText acc
      else if newline \<in> set (oa_tailText acc) then tl (dropWhile (\<lambda>c. c \<noteq> newline) (oa_tailText acc))
      else oa_tailText acc)"

record output_snapshot =
  os_content :: utext
  os_truncation :: truncation
  os_fullOutputPath :: "string option"

definition snapshot_truncation :: "accumulator \<Rightarrow> truncation" where
  "snapshot_truncation acc =
     (let tail = truncateTail (getSnapshotText acc) (Some (oa_maxLines acc)) (Some (oa_maxBytes acc));
          truncated = (oa_maxLines acc < oa_totalLines acc \<or> oa_maxBytes acc < oa_totalDecodedBytes acc)
      in tail\<lparr>tr_truncated := truncated,
              tr_truncatedBy :=
                (if truncated
                 then (case tr_truncatedBy tail of
                         Some by \<Rightarrow> Some by
                       | None \<Rightarrow> Some (if oa_maxBytes acc < oa_totalDecodedBytes acc then LimitBytes else LimitLines))
                 else None),
              tr_totalLines := oa_totalLines acc, tr_totalBytes := oa_totalDecodedBytes acc,
              tr_maxLines := oa_maxLines acc, tr_maxBytes := oa_maxBytes acc\<rparr>)"

definition snapshot :: "string \<Rightarrow> bool \<Rightarrow> accumulator \<Rightarrow> accumulator \<times> output_snapshot" where
  "snapshot path persistIfTruncated acc =
     (let tr = snapshot_truncation acc;
          acc' = (if persistIfTruncated \<and> tr_truncated tr then ensureTempFile path acc else acc)
      in (acc', \<lparr>os_content = tr_content tr, os_truncation = tr, os_fullOutputPath = oa_tempFilePath acc'\<rparr>))"

definition closeTempFile :: "accumulator \<Rightarrow> accumulator" where
  "closeTempFile acc = acc\<lparr>oa_streamOpen := False\<rparr>"

definition getLastLineBytes :: "accumulator \<Rightarrow> nat" where
  "getLastLineBytes acc = oa_currentLineBytes acc"

text \<open>A run of chunks; an error stops it.\<close>

fun append_all :: "string \<Rightarrow> buffer list \<Rightarrow> accumulator \<Rightarrow> accumulator_error + accumulator" where
  "append_all path [] acc = Inr acc"
| "append_all path (data # chunks) acc =
     (case append_chunk path data acc of Inl e \<Rightarrow> Inl e | Inr acc' \<Rightarrow> append_all path chunks acc')"

end
