(* ===== verification/Truncate_Lemmas.thy ===== *)
theory Truncate_Lemmas
  imports Truncate
begin

text \<open>
  Lines and their joins, what the two truncation loops keep, and the cut of a line at a character
  boundary.
\<close>

section \<open>Lines\<close>

lemma split_nl_not_Nil [simp]: "split_nl s \<noteq> []"
  by (induction s) (auto split: list.splits)

lemma join_split_nl: "join_with [newline] (split_nl s) = s"
proof (induction s)
  case Nil
  then show ?case by simp
next
  case (Cons c s)
  then show ?case by (cases "split_nl s") (auto simp: join_with_Cons split: list.splits, cases "tl (split_nl s)", auto simp: join_with_Cons)
qed

lemma split_nl_no_newline: "l \<in> set (split_nl s) \<Longrightarrow> newline \<notin> set l"
proof (induction s arbitrary: l)
  case Nil
  then show ?case by simp
next
  case (Cons c s)
  then show ?case by (cases "split_nl s") (auto split: if_splits)
qed

lemma split_nl_append_newline: "split_nl (s @ newline # t) = split_nl s @ split_nl t"
proof (induction s)
  case Nil
  then show ?case by simp
next
  case (Cons c s)
  then show ?case by (cases "split_nl s") auto
qed

lemma split_nl_single: "newline \<notin> set s \<Longrightarrow> split_nl s = [s]"
  by (induction s) auto

abbreviation lines_of :: "utext \<Rightarrow> utext list" where
  "lines_of \<equiv> splitLinesForCounting"

lemma lines_of_Nil [simp]: "lines_of [] = []"
  by (simp add: splitLinesForCounting_def)

lemma lines_of_newline [simp]: "lines_of (s @ [newline]) = split_nl s"
  by (simp add: splitLinesForCounting_def Let_def split_nl_append_newline)

lemma lines_of_open: "s \<noteq> [] \<Longrightarrow> last s \<noteq> newline \<Longrightarrow> lines_of s = split_nl s"
  by (simp add: splitLinesForCounting_def Let_def)

lemma lines_of_append:
  assumes "q = [] \<or> last q = newline"
  shows "lines_of (q @ s) = lines_of q @ lines_of s"
proof (cases "q = []")
  case False
  then obtain p where q: "q = p @ [newline]" using assms by (metis append_butlast_last_id)
  show ?thesis
  proof (cases s rule: rev_cases)
    case (snoc t c)
    then show ?thesis
      by (cases "c = newline")
         (simp_all add: q splitLinesForCounting_def Let_def split_nl_append_newline [of p] butlast_append)
  qed simp
qed simp

lemma join_lines_of:
  "s = join_with [newline] (lines_of s) @ (if s \<noteq> [] \<and> last s = newline then [newline] else [])"
proof (cases s rule: rev_cases)
  case (snoc t c)
  then show ?thesis using join_split_nl [of t] join_split_nl [of s]
    by (cases "c = newline") (simp_all add: lines_of_open)
qed simp

abbreviation joined :: "utext list \<Rightarrow> nat" where
  "joined ls \<equiv> byteLength (join_with [newline] ls)"

lemma enc_newline [simp]: "enc newline = [10]"
  by (simp add: enc_def)

lemma joined_Cons: "joined (l # ls) = byteLength l + (if ls = [] then 0 else 1) + joined ls"
  by (cases ls) simp_all

lemma joined_snoc: "joined (ls @ [l]) = joined ls + byteLength l + (if ls = [] then 0 else 1)"
  by (induction ls) (simp_all add: joined_Cons)

lemma byteLength_lines: "byteLength s \<le> joined (lines_of s) + 1"
  by (subst join_lines_of [of s]) simp

lemma line_set: "l \<in> set xs \<Longrightarrow> set l \<subseteq> set (join_with sep xs)"
proof (induction xs)
  case (Cons x xs)
  then show ?case by (cases "xs = []") (auto simp: join_with_Cons)
qed simp

lemma lines_scalar: "list_all scalar s \<Longrightarrow> l \<in> set (lines_of s) \<Longrightarrow> list_all scalar l"
  using line_set [of l "lines_of s" "[newline]"] join_lines_of [of s]
  by (metis list_all_append list.pred_set subsetD)

section \<open>The loops\<close>

lemma head_loop_spec:
  assumes "head_loop ml mb (length out) ls out (joined out) = (out', n, b)" and "joined out \<le> mb" and "length out \<le> ml"
  shows "\<exists>k \<le> length ls. out' = out @ take k ls \<and> n = joined out' \<and> n \<le> mb \<and> length out' \<le> ml \<and>
     (if b then k < length ls \<and> length out' < ml \<and> mb < joined (out' @ [ls ! k]) else k = length ls \<or> length out' = ml)"
  using assms
proof (induction ls arbitrary: out)
  case Nil
  then show ?case by auto
next
  case (Cons l ls)
  show ?case
  proof (cases "length out < ml")
    case False
    then show ?thesis using Cons.prems by (intro exI [of _ 0]) auto
  next
    case True
    have j: "joined (out @ [l]) = joined out + (byteLength l + (if 0 < length out then 1 else 0))"
      by (simp add: joined_snoc)
    show ?thesis
    proof (cases "mb < joined (out @ [l])")
      case True
      then show ?thesis using Cons.prems \<open>length out < ml\<close> j by (intro exI [of _ 0]) (auto simp: Let_def)
    next
      case False
      then have "head_loop ml mb (length (out @ [l])) ls (out @ [l]) (joined (out @ [l])) = (out', n, b)"
        using Cons.prems(1) True by (simp add: j Let_def)
      from Cons.IH [OF this] False True obtain k where "k \<le> length ls" "out' = (out @ [l]) @ take k ls" "n = joined out'"
        "n \<le> mb" "length out' \<le> ml"
        "if b then k < length ls \<and> length out' < ml \<and> mb < joined (out' @ [ls ! k]) else k = length ls \<or> length out' = ml"
        by auto
      then show ?thesis by (intro exI [of _ "Suc k"]) auto
    qed
  qed
qed

lemma tail_loop_spec:
  assumes "tail_loop ml mb rls out (joined out) = (out', n, b, part)" and "joined out \<le> mb" and "length out \<le> ml"
  shows "if part then out = [] \<and> b \<and> 0 < ml \<and> rls \<noteq> [] \<and> mb < byteLength (hd rls) \<and>
           out' = [truncateStringToBytesFromEnd (hd rls) mb] \<and> n = joined out'
         else (\<exists>k \<le> length rls. out' = rev (take k rls) @ out \<and> n = joined out' \<and> n \<le> mb \<and> length out' \<le> ml \<and>
           (if b then k < length rls \<and> length out' < ml \<and> mb < joined (rls ! k # out') else k = length rls \<or> length out' = ml))"
  using assms
proof (induction rls arbitrary: out)
  case Nil
  then show ?case by auto
next
  case (Cons l rls)
  show ?case
  proof (cases "length out < ml")
    case False
    then show ?thesis using Cons.prems by (auto intro!: exI [of _ 0])
  next
    case True
    have j: "joined (l # out) = joined out + (byteLength l + (if 0 < length out then 1 else 0))"
      by (simp add: joined_Cons)
    show ?thesis
    proof (cases "mb < joined (l # out)")
      case True
      then show ?thesis using Cons.prems \<open>length out < ml\<close> j
        by (cases "out = []") (auto simp: Let_def intro!: exI [of _ 0])
    next
      case False
      then have t: "tail_loop ml mb rls (l # out) (joined (l # out)) = (out', n, b, part)"
        using Cons.prems(1) True by (simp add: j Let_def)
      from Cons.IH [OF this] False True have
        "if part then False
         else (\<exists>k \<le> length rls. out' = rev (take k rls) @ l # out \<and> n = joined out' \<and> n \<le> mb \<and> length out' \<le> ml \<and>
           (if b then k < length rls \<and> length out' < ml \<and> mb < joined (rls ! k # out') else k = length rls \<or> length out' = ml))"
        by (auto split: if_splits)
      then have "\<not> part \<and> (\<exists>k \<le> length rls. out' = rev (take k rls) @ l # out \<and> n = joined out' \<and> n \<le> mb \<and> length out' \<le> ml \<and>
           (if b then k < length rls \<and> length out' < ml \<and> mb < joined (rls ! k # out') else k = length rls \<or> length out' = ml))"
        by (cases part) simp_all
      then obtain k where "\<not> part" "k \<le> length rls" "out' = rev (take k rls) @ l # out" "n = joined out'" "n \<le> mb" "length out' \<le> ml"
           "if b then k < length rls \<and> length out' < ml \<and> mb < joined (rls ! k # out') else k = length rls \<or> length out' = ml"
        by blast
      then show ?thesis by (auto intro!: exI [of _ "Suc k"])
    qed
  qed
qed

text \<open>Lines whose join exceeds the limit hide whatever comes before them.\<close>

lemma tail_loop_stops:
  "mb < joined (rev rls @ out) \<Longrightarrow> n = joined out \<Longrightarrow> n \<le> mb \<Longrightarrow>
     tail_loop ml mb (rls @ rest) out n = tail_loop ml mb rls out n"
proof (induction rls arbitrary: out n)
  case Nil
  then show ?case by simp
next
  case (Cons l rls)
  have j: "joined (l # out) = n + (byteLength l + (if 0 < length out then 1 else 0))"
    using Cons.prems(2) by (simp add: joined_Cons)
  show ?case
  proof (cases "mb < n + (byteLength l + (if 0 < length out then 1 else 0))")
    case True
    then show ?thesis by (simp add: Let_def)
  next
    case False
    have "mb < joined (rev rls @ l # out)" using Cons.prems(1) by simp
    from Cons.IH [OF this refl] False j
    have "tail_loop ml mb (rls @ rest) (l # out) (joined (l # out)) = tail_loop ml mb rls (l # out) (joined (l # out))"
      by simp
    then show ?thesis using False unfolding j by (simp add: Let_def)
  qed
qed

section \<open>Character boundaries\<close>

lemma top_bits: "b < 256 \<Longrightarrow> b AND 0xC0 = b div 64 * 64" for b :: nat
proof -
  assume "b < 256"
  then have t: "take_bit 8 b = b" by (simp add: take_bit_eq_mod)
  have m: "(0xC0 :: nat) = push_bit 6 (mask 2)" by (simp add: mask_eq_exp_minus_1 push_bit_eq_mult)
  have "b AND push_bit 6 (mask 2) = push_bit 6 (drop_bit 6 b)"
  proof (rule bit_eqI)
    fix n
    have "bit b n \<Longrightarrow> n < 8" using t by (metis bit_take_bit_iff)
    then show "bit (b AND push_bit 6 (mask 2)) n \<longleftrightarrow> bit (push_bit 6 (drop_bit 6 b)) n"
      by (auto simp: bit_and_iff bit_push_bit_iff bit_mask_iff bit_drop_bit_eq)
  qed
  then show ?thesis unfolding m by (simp add: push_bit_eq_mult drop_bit_eq_div)
qed

lemma is_cont_iff: "b < 256 \<Longrightarrow> is_cont b \<longleftrightarrow> 0x80 \<le> b \<and> b < 0xC0"
  by (auto simp: is_cont_def top_bits)

lemma enc_bytes: "scalar c \<Longrightarrow> \<not> is_cont (hd (enc c)) \<and> list_all is_cont (tl (enc c))"
proof -
  assume c: "scalar c"
  then have le: "c \<le> 0x10FFFF" by (auto simp: scalar_def)
  have m: "x mod 64 < 64" for x :: nat by simp
  have tl: "is_cont (0x80 + x mod 64)" for x using m [of x] by (subst is_cont_iff) linarith+
  have h2: "c < 0x800 \<Longrightarrow> \<not> is_cont (0xC0 + c div 64)" by (subst is_cont_iff) auto
  have h3: "c < 0x10000 \<Longrightarrow> \<not> is_cont (0xE0 + c div 4096)" by (subst is_cont_iff) auto
  have h4: "\<not> is_cont (0xF0 + c div 262144)" using le by (subst is_cont_iff) auto
  have h1: "c < 0x80 \<Longrightarrow> \<not> is_cont c" by (subst is_cont_iff) auto
  show ?thesis unfolding enc_def using tl h1 h2 h3 h4 by simp
qed

text \<open>The longest suffix that starts at or after byte \<open>k\<close>.\<close>

fun suffix_from :: "nat \<Rightarrow> utext \<Rightarrow> utext" where
  "suffix_from k [] = []"
| "suffix_from k (c # s) = (if k = 0 then c # s else suffix_from (k - length (enc c)) s)"

lemma suffix_from_0 [simp]: "suffix_from 0 s = s"
  by (cases s) auto

lemma suffix_from_suffix: "suffix (suffix_from k s) s"
  by (induction s arbitrary: k) (auto intro: suffix_ConsI)

lemma suffix_from_bytes: "k \<le> byteLength s \<Longrightarrow> byteLength (suffix_from k s) \<le> byteLength s - k"
proof (induction s arbitrary: k)
  case Nil
  then show ?case by simp
next
  case (Cons c s)
  show ?case
  proof (cases "k \<le> length (enc c)")
    case True
    then show ?thesis using Cons.prems by (cases "k = 0") auto
  next
    case False
    then have "k - length (enc c) \<le> byteLength s" using Cons.prems by simp
    from Cons.IH [OF this] show ?thesis using False Cons.prems by (simp split: if_splits)
  qed
qed

lemma suffix_from_near: "k \<le> byteLength s \<Longrightarrow> byteLength s \<le> byteLength (suffix_from k s) + k + 3"
proof (induction s arbitrary: k)
  case Nil
  then show ?case by simp
next
  case (Cons c s)
  show ?case
  proof (cases "k \<le> length (enc c)")
    case True
    then show ?thesis using enc_le4 [of c] by (cases "k = 0") auto
  next
    case False
    then have "k - length (enc c) \<le> byteLength s" using Cons.prems by simp
    from Cons.IH [OF this] show ?thesis using False Cons.prems by (simp split: if_splits)
  qed
qed

lemma suffix_from_maximal:
  "suffix t s \<Longrightarrow> byteLength t + k \<le> byteLength s \<Longrightarrow> suffix t (suffix_from k s)"
proof (induction s arbitrary: k)
  case Nil
  then show ?case by simp
next
  case (Cons c s)
  show ?case
  proof (cases "k = 0")
    case True
    then show ?thesis using Cons.prems by simp
  next
    case False
    then have "t \<noteq> c # s" using Cons.prems(2) by auto
    then have t: "suffix t s" using Cons.prems(1) by (simp add: suffix_Cons)
    have "byteLength t + (k - length (enc c)) \<le> byteLength s"
      using Cons.prems(2) byteLength_suffix [OF t] by (cases "k \<le> length (enc c)") auto
    from Cons.IH [OF t this] False show ?thesis by simp
  qed
qed

lemma dropWhile_cont_encode: "list_all scalar s \<Longrightarrow> dropWhile is_cont (encode s) = encode s"
proof (cases s)
  case (Cons c t)
  assume "list_all scalar s"
  with Cons have "\<not> is_cont (hd (enc c))" "enc c \<noteq> []" by (auto dest: enc_bytes)
  with Cons show ?thesis by (cases "enc c") auto
qed simp

lemma drop_cont_encode:
  "list_all scalar s \<Longrightarrow> dropWhile is_cont (drop k (encode s)) = encode (suffix_from k s)"
proof (induction s arbitrary: k)
  case Nil
  then show ?case by simp
next
  case (Cons c s)
  then have c: "scalar c" and s: "list_all scalar s" by simp_all
  show ?case
  proof (cases "k = 0")
    case True
    then show ?thesis using dropWhile_cont_encode [OF Cons.prems] by simp
  next
    case False
    have e: "set (drop k (enc c)) \<subseteq> Collect is_cont"
    proof -
      obtain h ts where h: "enc c = h # ts" by (cases "enc c") auto
      then have "set (drop k (enc c)) \<subseteq> set ts" using False by (cases k) (auto dest: in_set_dropD)
      with enc_bytes [OF c] h show ?thesis by (auto simp: list_all_iff)
    qed
    have "dropWhile is_cont (drop k (encode (c # s))) = dropWhile is_cont (drop (k - length (enc c)) (encode s))"
      using e by (simp add: dropWhile_append2 subset_iff)
    then show ?thesis using Cons.IH [OF s] False by simp
  qed
qed

lemma skip_cont_drop: "drop (skip_cont buf k) buf = dropWhile is_cont (drop k buf)"
  by (simp add: skip_cont_def dropWhile_eq_drop add.commute)

lemma suffix_scalar: "suffix t s \<Longrightarrow> list_all scalar s \<Longrightarrow> list_all scalar t"
  by (auto simp: suffix_def)

lemma cut_from_end:
  "list_all scalar s \<Longrightarrow> decode (drop (skip_cont (encode s) k) (encode s)) = suffix_from k s"
  using suffix_scalar [OF suffix_from_suffix] by (simp add: skip_cont_drop drop_cont_encode decode_encode)

lemma truncate_from_end:
  assumes "list_all scalar s" and "mb < byteLength s"
  shows "truncateStringToBytesFromEnd s mb = suffix_from (byteLength s - mb) s"
  using assms cut_from_end [of s] by (simp add: truncateStringToBytesFromEnd_def Let_def byteLength_def)

end
