(* ===== verification/Accumulator_Lemmas.thy ===== *)
theory Accumulator_Lemmas
  imports Output_Accumulator Truncate_Lemmas
begin

text \<open>
  What the accumulator's fields stand for: \<open>represents acc d\<close> relates a state to the whole text \<open>d\<close>
  decoded so far. Every operation keeps it, whatever way the bytes were cut into chunks.
\<close>

section \<open>Streaming decoding\<close>

text \<open>A state of the decoder from which only scalar values can come.\<close>

fun dec_ok :: "dec \<Rightarrow> bool" where
  "dec_ok Start = True"
| "dec_ok (Need cp n lo hi) =
     (0x80 \<le> lo \<and> hi \<le> 0xBF \<and>
      (if n \<le> 1 then cp < 0x360 \<or> (0x380 \<le> cp \<and> cp \<le> 0x43FF)
       else if n = 2 then (cp < 16 \<and> (cp = 13 \<longrightarrow> hi \<le> 0x9F)) \<or> (16 \<le> cp \<and> cp \<le> 0x10F)
       else n = 3 \<and> cp \<le> 4 \<and> (cp = 0 \<longrightarrow> 0x90 \<le> lo) \<and> (cp = 4 \<longrightarrow> hi \<le> 0x8F)))"

lemma dec_start_ok: "dec_start b = (d, s) \<Longrightarrow> dec_ok d \<and> list_all scalar s"
  by (auto simp: scalar_def replacement_def split: if_splits)

lemma dec_byte_ok: "dec_ok d \<Longrightarrow> dec_byte d b = (d', s) \<Longrightarrow> dec_ok d' \<and> list_all scalar s"
proof (cases d)
  case Start
  assume "dec_ok d" "dec_byte d b = (d', s)"
  with Start show ?thesis using dec_start_ok by (simp del: dec_start.simps)
next
  case (Need cp n lo hi)
  assume d: "dec_ok d" "dec_byte d b = (d', s)"
  show ?thesis
  proof (cases "b < lo \<or> hi < b")
    case True
    obtain d1 s1 where "dec_start b = (d1, s1)" by (meson surj_pair)
    with dec_start_ok [OF this] True d Need show ?thesis
      by (auto simp: Let_def scalar_def replacement_def simp del: dec_start.simps)
  next
    case False
    have "cp \<le> 12 \<or> cp = 13 \<or> 14 \<le> cp" by linarith
    then show ?thesis using False d Need
      by (elim disjE) (auto simp: Let_def scalar_def split: if_splits)
  qed
qed

lemma dec_bytes_ok: "dec_ok d \<Longrightarrow> dec_bytes d bs = (d', s) \<Longrightarrow> dec_ok d' \<and> list_all scalar s"
proof (induction bs arbitrary: d d' s)
  case Nil
  then show ?case by simp
next
  case (Cons b bs)
  obtain d1 s1 where b: "dec_byte d b = (d1, s1)" by (meson surj_pair)
  obtain d2 s2 where bs: "dec_bytes d1 bs = (d2, s2)" by (meson surj_pair)
  from dec_byte_ok [OF Cons.prems(1) b] have 1: "dec_ok d1" "list_all scalar s1" by simp_all
  from Cons.IH [OF 1(1) bs] Cons.prems(2) b bs 1(2) show ?case by auto
qed

lemma skip_bom_append:
  "skip_bom seen (s @ t) =
     (let (seen', s') = skip_bom seen s; (seen'', t') = skip_bom seen' t in (seen'', s' @ t'))"
  by (cases s) (auto simp: skip_bom_def)

lemma td_decode_append:
  "td_decode td (xs @ ys) =
     (let (td', s) = td_decode td xs; (td'', t) = td_decode td' ys in (td'', s @ t))"
  by (auto simp: td_decode_def dec_bytes_append skip_bom_append Let_def split: prod.splits)

lemma td_decode_Nil [simp]: "td_decode td [] = (td, [])"
  by (cases td) (simp add: td_decode_def skip_bom_def)

lemma skip_bom_scalar: "list_all scalar s \<Longrightarrow> skip_bom seen s = (seen', t) \<Longrightarrow> list_all scalar t"
  by (cases s) (auto simp: skip_bom_def split: if_splits)

lemma td_decode_ok:
  "dec_ok (fst td) \<Longrightarrow> td_decode td data = (td', t) \<Longrightarrow> dec_ok (fst td') \<and> list_all scalar t"
  by (auto simp: td_decode_def Let_def split: prod.splits dest: dec_bytes_ok skip_bom_scalar)

section \<open>Counting\<close>

lemma length_split_nl: "length (split_nl s) = length (filter (\<lambda>c. c = newline) s) + 1"
proof (induction s)
  case Nil
  then show ?case by simp
next
  case (Cons c s)
  then show ?case by (cases "split_nl s") auto
qed

lemma length_lines_of:
  "length (lines_of s) = length (filter (\<lambda>c. c = newline) s) + (if s \<noteq> [] \<and> last s \<noteq> newline then 1 else 0)"
proof (cases s rule: rev_cases)
  case (snoc t c)
  then show ?thesis by (cases "c = newline") (simp_all add: lines_of_open length_split_nl)
qed simp

lemma after_last_newline_append:
  "after_last_newline (s @ t) = (if newline \<in> set t then after_last_newline t else after_last_newline s @ t)"
proof (cases "newline \<in> set t")
  case True
  then show ?thesis by (simp add: after_last_newline_def takeWhile_append1)
next
  case False
  then have "takeWhile (\<lambda>c. c \<noteq> newline) (rev t @ rev s) = rev t @ takeWhile (\<lambda>c. c \<noteq> newline) (rev s)"
    by (intro takeWhile_append2) auto
  with False show ?thesis by (simp add: after_last_newline_def)
qed

lemma after_last_newline_Nil: "after_last_newline s = [] \<longleftrightarrow> s = [] \<or> last s = newline"
  by (cases s rule: rev_cases) (auto simp: after_last_newline_def)

lemma filter_newline_0: "length (filter (\<lambda>c. c = newline) s) = 0 \<longleftrightarrow> newline \<notin> set s"
  by (auto simp: filter_empty_conv)

section \<open>The representation\<close>

definition tail_ok :: "accumulator \<Rightarrow> utext \<Rightarrow> bool" where
  "tail_ok acc d \<longleftrightarrow>
     suffix (oa_tailText acc) d \<and>
     oa_maxRollingBytes acc = max (oa_maxBytes acc * 2) 1 \<and>
     oa_tailBytes acc = byteLength (oa_tailText acc) \<and> oa_tailBytes acc \<le> oa_maxRollingBytes acc * 2 \<and>
     (oa_tailText acc = d \<longrightarrow> oa_tailStartsAtLineBoundary acc) \<and>
     (oa_tailStartsAtLineBoundary acc \<longrightarrow> oa_tailText acc = d \<or> (\<exists>p. d = p @ [newline] @ oa_tailText acc)) \<and>
     (oa_tailText acc \<noteq> d \<longrightarrow>
        oa_maxRollingBytes acc \<le> oa_tailBytes acc + 3 \<and> oa_maxRollingBytes acc * 2 < byteLength d)"

definition counts_ok :: "accumulator \<Rightarrow> utext \<Rightarrow> bool" where
  "counts_ok acc d \<longleftrightarrow>
     oa_totalDecodedBytes acc = byteLength d \<and>
     oa_completedLines acc = length (filter (\<lambda>c. c = newline) d) \<and>
     oa_hasOpenLine acc = (d \<noteq> [] \<and> last d \<noteq> newline) \<and>
     oa_totalLines acc = length (lines_of d) \<and>
     oa_currentLineBytes acc = byteLength (after_last_newline d)"

definition represents :: "accumulator \<Rightarrow> utext \<Rightarrow> bool" where
  "represents acc d \<longleftrightarrow> list_all scalar d \<and> tail_ok acc d \<and> counts_ok acc d"

lemmas represents_defs = represents_def tail_ok_def counts_ok_def

lemma represents_new: "represents (new_accumulator l b) []"
  by (simp add: represents_defs new_accumulator_def Let_def after_last_newline_def)

lemma skip_cont_encode:
  assumes "list_all scalar s" and "k \<le> byteLength s"
  shows "skip_cont (encode s) k + byteLength (suffix_from k s) = byteLength s"
proof -
  have "length (drop (skip_cont (encode s) k) (encode s)) = byteLength (suffix_from k s)"
    using assms(1) by (simp add: skip_cont_drop drop_cont_encode byteLength_def)
  moreover have "length (takeWhile is_cont (drop k (encode s))) \<le> length (encode s) - k"
    by (metis length_drop length_takeWhile_le)
  then have "skip_cont (encode s) k \<le> byteLength s"
    using assms(2) by (simp add: skip_cont_def byteLength_def)
  ultimately show ?thesis by (simp add: byteLength_def)
qed

lemma last_enc: "scalar c \<Longrightarrow> last (enc c) = 10 \<longleftrightarrow> c = newline"
  by (auto simp: enc_def)

lemma byte_before:
  assumes "list_all scalar p" and "p \<noteq> []"
  shows "encode (p @ t) ! (byteLength p - 1) = 10 \<longleftrightarrow> last p = newline"
proof -
  obtain q c where p: "p = q @ [c]" using assms(2) by (metis append_butlast_last_id)
  have l: "0 < length (encode p)" using assms(2) by (simp add: p)
  then have "encode (p @ t) ! (byteLength p - 1) = last (encode p)"
    by (simp add: byteLength_def nth_append last_conv_nth)
  also have "last (encode p) = last (enc c)" by (simp add: p)
  finally show ?thesis using last_enc [of c] assms(1) by (simp add: p)
qed

lemma trimTail_keeps:
  assumes sc: "list_all scalar (oa_tailText acc)" and big: "oa_maxRollingBytes acc < byteLength (oa_tailText acc)"
  obtains p t where "oa_tailText acc = p @ t" and "p \<noteq> []" and "byteLength t \<le> oa_maxRollingBytes acc"
    and "oa_maxRollingBytes acc \<le> byteLength t + 3"
    and "trimTail acc = acc\<lparr>oa_tailStartsAtLineBoundary := (last p = newline), oa_tailText := t, oa_tailBytes := byteLength t\<rparr>"
proof -
  let ?s = "oa_tailText acc"
  let ?k = "byteLength ?s - oa_maxRollingBytes acc"
  obtain p where p: "?s = p @ suffix_from ?k ?s"
    using suffix_from_suffix [of ?k ?s] unfolding suffix_def by blast
  let ?t = "suffix_from ?k ?s"
  have k: "?k \<le> byteLength ?s" "0 < ?k" using big by auto
  have start: "skip_cont (encode ?s) ?k = byteLength p"
    using skip_cont_encode [OF sc k(1)] p by (metis add_right_cancel byteLength_simps(3))
  have le: "byteLength ?t \<le> oa_maxRollingBytes acc"
    using suffix_from_bytes [OF k(1)] big by linarith
  have ge: "oa_maxRollingBytes acc \<le> byteLength ?t + 3"
    using suffix_from_near [OF k(1)] big by linarith
  have ne: "p \<noteq> []" using p le big by (metis append_Nil leD)
  have pos: "byteLength p \<noteq> 0" using ne by simp
  have sp: "list_all scalar p" using sc p by (metis list_all_append)
  have b: "encode ?s ! (byteLength p - 1) = 10 \<longleftrightarrow> last p = newline"
    using byte_before [OF sp ne, of ?t] p by metis
  have "trimTail acc = acc\<lparr>oa_tailStartsAtLineBoundary := (last p = newline), oa_tailText := ?t, oa_tailBytes := byteLength ?t\<rparr>"
    using big start pos b cut_from_end [OF sc, of ?k]
    by (simp add: trimTail_def Let_def byteLength_def [of ?s, symmetric])
  with that [OF p ne le ge] show thesis by blast
qed

definition roll_tail :: "utext \<Rightarrow> accumulator \<Rightarrow> accumulator" where
  "roll_tail text acc =
     (let acc1 = acc\<lparr>oa_totalDecodedBytes := oa_totalDecodedBytes acc + byteLength text,
                     oa_tailText := oa_tailText acc @ text, oa_tailBytes := oa_tailBytes acc + byteLength text\<rparr>
      in if oa_maxRollingBytes acc1 * 2 < oa_tailBytes acc1 then trimTail acc1 else acc1)"

lemma appendDecodedText_roll: "appendDecodedText text acc = (if text = [] then acc else count_lines text (roll_tail text acc))"
  by (simp add: appendDecodedText_def roll_tail_def Let_def)

lemma trimTail_frame [simp]:
  "oa_completedLines (trimTail acc) = oa_completedLines acc" "oa_totalDecodedBytes (trimTail acc) = oa_totalDecodedBytes acc"
  "oa_currentLineBytes (trimTail acc) = oa_currentLineBytes acc" "oa_maxRollingBytes (trimTail acc) = oa_maxRollingBytes acc"
  "oa_maxBytes (trimTail acc) = oa_maxBytes acc" "oa_maxLines (trimTail acc) = oa_maxLines acc"
  "oa_totalRawBytes (trimTail acc) = oa_totalRawBytes acc" "oa_decoder (trimTail acc) = oa_decoder acc"
  "oa_rawChunks (trimTail acc) = oa_rawChunks acc" "oa_finished (trimTail acc) = oa_finished acc"
  "oa_tempFilePath (trimTail acc) = oa_tempFilePath acc" "oa_streamOpen (trimTail acc) = oa_streamOpen acc"
  "oa_file (trimTail acc) = oa_file acc"
  by (simp_all add: trimTail_def Let_def)

lemma roll_tail_frame [simp]:
  "oa_completedLines (roll_tail text acc) = oa_completedLines acc"
  "oa_totalDecodedBytes (roll_tail text acc) = oa_totalDecodedBytes acc + byteLength text"
  "oa_currentLineBytes (roll_tail text acc) = oa_currentLineBytes acc"
  "oa_maxRollingBytes (roll_tail text acc) = oa_maxRollingBytes acc"
  "oa_maxBytes (roll_tail text acc) = oa_maxBytes acc" "oa_maxLines (roll_tail text acc) = oa_maxLines acc"
  "oa_totalRawBytes (roll_tail text acc) = oa_totalRawBytes acc" "oa_decoder (roll_tail text acc) = oa_decoder acc"
  "oa_rawChunks (roll_tail text acc) = oa_rawChunks acc" "oa_finished (roll_tail text acc) = oa_finished acc"
  "oa_tempFilePath (roll_tail text acc) = oa_tempFilePath acc" "oa_streamOpen (roll_tail text acc) = oa_streamOpen acc"
  "oa_file (roll_tail text acc) = oa_file acc"
  by (simp_all add: roll_tail_def Let_def)

lemma count_lines_frame [simp]:
  "oa_tailText (count_lines text a) = oa_tailText a" "oa_tailBytes (count_lines text a) = oa_tailBytes a"
  "oa_tailStartsAtLineBoundary (count_lines text a) = oa_tailStartsAtLineBoundary a"
  "oa_maxRollingBytes (count_lines text a) = oa_maxRollingBytes a" "oa_maxBytes (count_lines text a) = oa_maxBytes a"
  "oa_maxLines (count_lines text a) = oa_maxLines a"
  "oa_totalDecodedBytes (count_lines text a) = oa_totalDecodedBytes a"
  "oa_totalRawBytes (count_lines text a) = oa_totalRawBytes a" "oa_decoder (count_lines text a) = oa_decoder a"
  "oa_rawChunks (count_lines text a) = oa_rawChunks a" "oa_finished (count_lines text a) = oa_finished a"
  "oa_tempFilePath (count_lines text a) = oa_tempFilePath a" "oa_streamOpen (count_lines text a) = oa_streamOpen a"
  "oa_file (count_lines text a) = oa_file a"
  by (simp_all add: count_lines_def Let_def)

lemma tail_ok_count [simp]: "tail_ok (count_lines text a) d = tail_ok a d"
  by (simp add: tail_ok_def)

lemma counts_ok_append:
  assumes "counts_ok acc d" and "text \<noteq> []"
    and f: "oa_completedLines a = oa_completedLines acc" "oa_totalDecodedBytes a = oa_totalDecodedBytes acc + byteLength text"
      "oa_currentLineBytes a = oa_currentLineBytes acc"
  shows "counts_ok (count_lines text a) (d @ text)"
proof (cases "newline \<in> set text")
  case True
  then have "length (filter (\<lambda>c. c = newline) text) \<noteq> 0" by (simp only: filter_newline_0 not_not)
  then have c: "count_lines text a = a\<lparr>oa_completedLines := oa_completedLines a + length (filter (\<lambda>c. c = newline) text),
      oa_currentLineBytes := byteLength (after_last_newline text), oa_hasOpenLine := (after_last_newline text \<noteq> []),
      oa_totalLines := oa_completedLines a + length (filter (\<lambda>c. c = newline) text) +
        (if after_last_newline text \<noteq> [] then 1 else 0)\<rparr>"
    by (simp add: count_lines_def Let_def)
  show ?thesis unfolding counts_ok_def c
    using assms True by (simp add: counts_ok_def length_lines_of after_last_newline_append after_last_newline_Nil)
next
  case False
  then have "last text \<noteq> newline" using assms(2) by (metis last_in_set)
  moreover have z: "filter (\<lambda>c. c = newline) text = []" using False by (auto simp: filter_empty_conv)
  then have c: "count_lines text a = a\<lparr>oa_currentLineBytes := oa_currentLineBytes a + byteLength text, oa_hasOpenLine := True,
      oa_totalLines := oa_completedLines a + 1\<rparr>"
    by (simp add: count_lines_def Let_def)
  ultimately show ?thesis unfolding counts_ok_def c
    using assms False z by (simp add: counts_ok_def length_lines_of after_last_newline_append)
qed

lemma tail_ok_roll:
  assumes r: "tail_ok acc d" and sd: "list_all scalar (d @ text)"
  shows "tail_ok (roll_tail text acc) (d @ text)"
proof -
  let ?acc1 = "acc\<lparr>oa_totalDecodedBytes := oa_totalDecodedBytes acc + byteLength text,
                   oa_tailText := oa_tailText acc @ text, oa_tailBytes := oa_tailBytes acc + byteLength text\<rparr>"
  have suf: "suffix (oa_tailText acc @ text) (d @ text)" using r by (simp add: tail_ok_def)
  show ?thesis
  proof (cases "oa_maxRollingBytes ?acc1 * 2 < oa_tailBytes ?acc1")
    case False
    then have rt: "roll_tail text acc = ?acc1" by (simp add: roll_tail_def)
    have fields: "oa_tailText (roll_tail text acc) = oa_tailText acc @ text"
      "oa_tailBytes (roll_tail text acc) = oa_tailBytes acc + byteLength text"
      "oa_tailStartsAtLineBoundary (roll_tail text acc) = oa_tailStartsAtLineBoundary acc"
      by (simp_all add: rt)
    have le: "oa_tailBytes acc + byteLength text \<le> oa_maxRollingBytes acc * 2" using False by simp
    have "oa_tailText acc \<noteq> d \<Longrightarrow> oa_maxRollingBytes acc \<le> oa_tailBytes acc + byteLength text + 3 \<and>
        oa_maxRollingBytes acc * 2 < byteLength d + byteLength text"
      using r unfolding tail_ok_def by linarith
    moreover have "oa_tailStartsAtLineBoundary acc \<Longrightarrow> oa_tailText acc = d \<or> (\<exists>p. d @ text = p @ [newline] @ oa_tailText acc @ text)"
      using r unfolding tail_ok_def by auto
    ultimately show ?thesis
      unfolding tail_ok_def fields roll_tail_frame append_same_eq
      using r suf le unfolding tail_ok_def byteLength_simps by (intro conjI) (simp_all only: simp_thms, blast+)
  next
    case True
    have sc: "list_all scalar (oa_tailText ?acc1)" using suffix_scalar [OF suf sd] by simp
    have tb: "oa_tailBytes acc = byteLength (oa_tailText acc)" using r by (simp add: tail_ok_def)
    then have big: "oa_maxRollingBytes ?acc1 < byteLength (oa_tailText ?acc1)" using True by simp
    obtain p u where pu: "oa_tailText ?acc1 = p @ u" "p \<noteq> []" "byteLength u \<le> oa_maxRollingBytes ?acc1"
        "oa_maxRollingBytes ?acc1 \<le> byteLength u + 3"
        "trimTail ?acc1 = ?acc1\<lparr>oa_tailStartsAtLineBoundary := (last p = newline), oa_tailText := u, oa_tailBytes := byteLength u\<rparr>"
      by (rule trimTail_keeps [OF sc big])
    obtain q where q: "d @ text = q @ p @ u" using suf pu(1) by (auto simp: suffix_def)
    have "byteLength (oa_tailText acc @ text) \<le> byteLength (d @ text)" by (rule byteLength_suffix [OF suf])
    then have long: "oa_maxRollingBytes acc * 2 < byteLength (d @ text)" using True tb by simp
    have pl: "last p = newline \<Longrightarrow> \<exists>p'. d @ text = p' @ [newline] @ u"
      using q pu(2) by (metis append.assoc append_butlast_last_id)
    have rt: "roll_tail text acc = ?acc1\<lparr>oa_tailStartsAtLineBoundary := (last p = newline), oa_tailText := u, oa_tailBytes := byteLength u\<rparr>"
      using True pu(5) by (simp add: roll_tail_def)
    have fields: "oa_tailText (roll_tail text acc) = u" "oa_tailBytes (roll_tail text acc) = byteLength u"
      "oa_tailStartsAtLineBoundary (roll_tail text acc) = (last p = newline)"
      by (simp_all add: rt)
    have u: "suffix u (d @ text)" "u \<noteq> d @ text" using q pu(2) by (auto simp: suffix_def)
    have m: "oa_maxRollingBytes acc = max (oa_maxBytes acc * 2) 1" using r by (simp add: tail_ok_def)
    have b: "byteLength u \<le> oa_maxRollingBytes acc * 2" "oa_maxRollingBytes acc \<le> byteLength u + 3" using pu(3,4) by simp_all
    show ?thesis
      unfolding tail_ok_def fields roll_tail_frame
      using u m b long pl by blast
  qed
qed

lemma represents_append:
  assumes r: "represents acc d" and t: "list_all scalar text"
  shows "represents (appendDecodedText text acc) (d @ text)"
proof -
  have sd: "list_all scalar (d @ text)" using r t by (simp add: represents_def)
  show ?thesis
    using r sd tail_ok_roll [OF _ sd, of acc] counts_ok_append [of acc d "text" "roll_tail text acc"]
    by (auto simp: represents_def appendDecodedText_roll)
qed

section \<open>Runs\<close>

text \<open>The text that the decoder gives for the bytes so far, and the bytes that are kept.\<close>

definition stream_text :: "buffer \<Rightarrow> utext" where
  "stream_text bs = snd (td_decode (Start, False) bs)"

definition kept_bytes :: "accumulator \<Rightarrow> buffer" where
  "kept_bytes acc = (if oa_tempFilePath acc = None then concat (oa_rawChunks acc) else oa_file acc)"

definition bytes_ok :: "accumulator \<Rightarrow> buffer \<Rightarrow> bool" where
  "bytes_ok acc bs \<longleftrightarrow>
     oa_totalRawBytes acc = length bs \<and> oa_decoder acc = fst (td_decode (Start, False) bs) \<and> \<not> oa_finished acc \<and>
     oa_streamOpen acc = (oa_tempFilePath acc \<noteq> None) \<and> kept_bytes acc = bs \<and>
     (shouldUseTempFile acc \<longrightarrow> oa_tempFilePath acc \<noteq> None)"

lemma appendDecodedText_frame [simp]:
  "oa_maxBytes (appendDecodedText t acc) = oa_maxBytes acc" "oa_maxLines (appendDecodedText t acc) = oa_maxLines acc"
  "oa_totalRawBytes (appendDecodedText t acc) = oa_totalRawBytes acc" "oa_decoder (appendDecodedText t acc) = oa_decoder acc"
  "oa_rawChunks (appendDecodedText t acc) = oa_rawChunks acc" "oa_finished (appendDecodedText t acc) = oa_finished acc"
  "oa_tempFilePath (appendDecodedText t acc) = oa_tempFilePath acc" "oa_streamOpen (appendDecodedText t acc) = oa_streamOpen acc"
  "oa_file (appendDecodedText t acc) = oa_file acc"
  by (simp_all add: appendDecodedText_roll)

lemma ensureTempFile_frame [simp]:
  "oa_maxBytes (ensureTempFile p acc) = oa_maxBytes acc" "oa_maxLines (ensureTempFile p acc) = oa_maxLines acc"
  "oa_totalRawBytes (ensureTempFile p acc) = oa_totalRawBytes acc" "oa_decoder (ensureTempFile p acc) = oa_decoder acc"
  "oa_finished (ensureTempFile p acc) = oa_finished acc" "oa_totalDecodedBytes (ensureTempFile p acc) = oa_totalDecodedBytes acc"
  "oa_totalLines (ensureTempFile p acc) = oa_totalLines acc"
  "oa_tempFilePath (ensureTempFile p acc) \<noteq> None"
  "oa_streamOpen (ensureTempFile p acc) = (oa_streamOpen acc \<or> oa_tempFilePath acc = None)"
  "oa_file (ensureTempFile p acc) = (if oa_tempFilePath acc = None then concat (oa_rawChunks acc) else oa_file acc)"
  by (auto simp: ensureTempFile_def)

lemma represents_cong:
  assumes "oa_tailText a = oa_tailText b" "oa_maxRollingBytes a = oa_maxRollingBytes b" "oa_maxBytes a = oa_maxBytes b"
    "oa_tailBytes a = oa_tailBytes b" "oa_tailStartsAtLineBoundary a = oa_tailStartsAtLineBoundary b"
    "oa_totalDecodedBytes a = oa_totalDecodedBytes b" "oa_completedLines a = oa_completedLines b"
    "oa_hasOpenLine a = oa_hasOpenLine b" "oa_totalLines a = oa_totalLines b" "oa_currentLineBytes a = oa_currentLineBytes b"
  shows "represents a d = represents b d"
  using assms by (simp add: represents_defs)

lemma ensureTempFile_represents [simp]: "represents (ensureTempFile p acc) d = represents acc d"
  by (rule represents_cong) (simp_all add: ensureTempFile_def)

lemma append_chunk_ok:
  assumes r: "represents acc (stream_text bs)" and b: "bytes_ok acc bs"
  shows "\<exists>acc'. append_chunk path data acc = Inr acc' \<and> represents acc' (stream_text (bs @ data)) \<and> bytes_ok acc' (bs @ data) \<and>
     oa_maxBytes acc' = oa_maxBytes acc \<and> oa_maxLines acc' = oa_maxLines acc"
proof -
  obtain td t where td: "td_decode (oa_decoder acc) data = (td, t)" by (meson surj_pair)
  obtain td0 s0 where td0: "td_decode (Start, False) bs = (td0, s0)" by (meson surj_pair)
  have d0: "oa_decoder acc = td0" using b td0 by (simp add: bytes_ok_def)
  have ok0: "dec_ok (fst td0)" using td_decode_ok [of "(Start, False)" bs td0 s0] td0 by simp
  have t: "list_all scalar t" using td_decode_ok [OF ok0] td d0 by blast
  have st: "stream_text (bs @ data) = stream_text bs @ t" "fst (td_decode (Start, False) (bs @ data)) = td"
    using td td0 d0 by (simp_all add: stream_text_def td_decode_append)
  let ?acc0 = "acc\<lparr>oa_totalRawBytes := oa_totalRawBytes acc + length data, oa_decoder := td\<rparr>"
  let ?acc1 = "appendDecodedText t ?acc0"
  have "represents ?acc0 (stream_text bs)"
    by (rule represents_cong [THEN iffD1, OF _ _ _ _ _ _ _ _ _ _ r]) simp_all
  then have r1: "represents ?acc1 (stream_text (bs @ data))" unfolding st by (rule represents_append [OF _ t])
  have nf: "\<not> oa_finished acc" using b by (simp add: bytes_ok_def)
  show ?thesis
  proof (cases "oa_streamOpen ?acc1 \<or> shouldUseTempFile ?acc1")
    case True
    let ?acc2 = "ensureTempFile path ?acc1"
    have op: "oa_streamOpen ?acc2" using b by (cases "oa_tempFilePath acc") (auto simp: bytes_ok_def)
    have kb: "oa_file ?acc2 = bs" using b by (auto simp: bytes_ok_def kept_bytes_def)
    have e: "append_chunk path data acc = Inr (?acc2\<lparr>oa_file := oa_file ?acc2 @ data\<rparr>)"
      using nf td True op by (simp add: append_chunk_def Let_def)
    have "represents (?acc2\<lparr>oa_file := oa_file ?acc2 @ data\<rparr>) (stream_text (bs @ data))"
      by (rule represents_cong [THEN iffD1, OF _ _ _ _ _ _ _ _ _ _ r1]) (simp_all add: ensureTempFile_def)
    moreover have "bytes_ok (?acc2\<lparr>oa_file := oa_file ?acc2 @ data\<rparr>) (bs @ data)"
      using b st(2) kb op by (simp add: bytes_ok_def kept_bytes_def)
    ultimately show ?thesis unfolding e by simp
  next
    case False
    let ?acc2 = "if 0 < length data then ?acc1\<lparr>oa_rawChunks := oa_rawChunks ?acc1 @ [data]\<rparr> else ?acc1"
    have e: "append_chunk path data acc = Inr ?acc2"
      using nf td False by (simp add: append_chunk_def Let_def)
    have np: "oa_tempFilePath acc = None" using b False by (auto simp: bytes_ok_def)
    have "represents ?acc2 (stream_text (bs @ data))"
      by (rule represents_cong [THEN iffD1, OF _ _ _ _ _ _ _ _ _ _ r1]) simp_all
    moreover have "shouldUseTempFile ?acc2 = shouldUseTempFile ?acc1" by (simp add: shouldUseTempFile_def)
    then have "bytes_ok ?acc2 (bs @ data)"
      using b st(2) np False by (auto simp: bytes_ok_def kept_bytes_def)
    ultimately show ?thesis unfolding e by simp
  qed
qed

lemma append_all_ok:
  assumes "represents acc (stream_text bs)" and "bytes_ok acc bs"
  shows "\<exists>acc'. append_all path chunks acc = Inr acc' \<and> represents acc' (stream_text (bs @ concat chunks)) \<and>
     bytes_ok acc' (bs @ concat chunks) \<and> oa_maxBytes acc' = oa_maxBytes acc \<and> oa_maxLines acc' = oa_maxLines acc"
  using assms
proof (induction chunks arbitrary: acc bs)
  case Nil
  then show ?case by simp
next
  case (Cons data chunks)
  obtain acc1 where a: "append_chunk path data acc = Inr acc1" "represents acc1 (stream_text (bs @ data))" "bytes_ok acc1 (bs @ data)"
      "oa_maxBytes acc1 = oa_maxBytes acc" "oa_maxLines acc1 = oa_maxLines acc"
    using append_chunk_ok [OF Cons.prems] by blast
  from Cons.IH [OF a(2,3)] a(1,4,5) show ?case by auto
qed

lemma new_ok: "bytes_ok (new_accumulator l b) []" "represents (new_accumulator l b) (stream_text [])"
  using represents_new [of l b]
  by (simp_all add: bytes_ok_def kept_bytes_def shouldUseTempFile_def stream_text_def new_accumulator_def Let_def)

section \<open>Snapshots\<close>

lemma truncateTail_fields:
  fixes d ml mb
  defines "r \<equiv> truncateTail d (Some ml) (Some mb)"
  shows "tr_truncated r = (ml < length (lines_of d) \<or> mb < byteLength d)"
    "tr_totalLines r = length (lines_of d)" "tr_totalBytes r = byteLength d" "tr_maxLines r = ml" "tr_maxBytes r = mb"
    "(tr_truncatedBy r = None) = (\<not> tr_truncated r)"
  by (auto simp: r_def truncateTail_def whole_def truncated_result_def Let_def split: prod.splits)

lemma truncation_eq:
  fixes a b :: truncation
  assumes "tr_content a = tr_content b" "tr_truncated a = tr_truncated b" "tr_truncatedBy a = tr_truncatedBy b"
    "tr_totalLines a = tr_totalLines b" "tr_totalBytes a = tr_totalBytes b" "tr_outputLines a = tr_outputLines b"
    "tr_outputBytes a = tr_outputBytes b" "tr_lastLinePartial a = tr_lastLinePartial b"
    "tr_firstLineExceedsLimit a = tr_firstLineExceedsLimit b" "tr_maxLines a = tr_maxLines b" "tr_maxBytes a = tr_maxBytes b"
  shows "a = b"
  using assms by simp

text \<open>A suffix of the text that starts at a line and exceeds the limit is enough for the tail.\<close>

lemma truncateTail_suffix:
  assumes q: "q = [] \<or> last q = newline" and big: "mb + 1 < byteLength s"
  shows "truncateTail (q @ s) (Some ml) (Some mb) =
     (truncateTail s (Some ml) (Some mb))\<lparr>tr_totalLines := length (lines_of (q @ s)), tr_totalBytes := byteLength (q @ s)\<rparr>"
proof -
  have j: "mb < joined (lines_of s)" using byteLength_lines [of s] big by linarith
  have l: "lines_of (q @ s) = lines_of q @ lines_of s" by (rule lines_of_append [OF q])
  have t: "tail_loop ml mb (rev (lines_of (q @ s))) [] 0 = tail_loop ml mb (rev (lines_of s)) [] 0"
    unfolding l rev_append by (rule tail_loop_stops) (use j in simp_all)
  have e: "truncateTail x (Some ml) (Some mb) =
      (let (out, n, by_bytes, part) = tail_loop ml mb (rev (lines_of x)) [] 0
       in truncated_result x (lines_of x) ml mb out (limit_hit ml mb out n by_bytes) part)"
    if "\<not> (length (lines_of x) \<le> ml \<and> byteLength x \<le> mb)" for x
    unfolding truncateTail_def Let_def option.case if_not_P [OF that] by (rule refl)
  have "\<not> (length (lines_of s) \<le> ml \<and> byteLength s \<le> mb)" using big by linarith
  note s = e [OF this]
  have "\<not> (length (lines_of (q @ s)) \<le> ml \<and> byteLength (q @ s) \<le> mb)" using big by simp
  note qs = e [OF this]
  show ?thesis unfolding s qs t
    by (simp add: truncated_result_def Let_def split: prod.split del: byteLength_simps(3))
qed

definition short_lines :: "nat \<Rightarrow> utext \<Rightarrow> bool" where
  "short_lines mb d \<longleftrightarrow> (\<forall>l \<in> set (lines_of d). byteLength l + 5 < mb)"

lemma line_head:
  assumes "p = [] \<or> last p = newline" and "newline \<notin> set u" and "u \<noteq> []" and "t = [] \<or> hd t = newline"
  shows "u \<in> set (lines_of (p @ u @ t))"
proof -
  have "u \<in> set (lines_of (u @ t))"
  proof (cases t)
    case Nil
    then show ?thesis using assms(2,3) by (simp add: lines_of_open split_nl_single) (metis last_in_set lines_of_open list.set_intros(1) split_nl_single)
  next
    case (Cons c t')
    then have c: "u @ t = (u @ [newline]) @ t'" using assms(4) by simp
    have "lines_of ((u @ [newline]) @ t') = lines_of (u @ [newline]) @ lines_of t'" by (rule lines_of_append) simp
    then show ?thesis unfolding c using split_nl_single [OF assms(2)] by simp
  qed
  then show ?thesis using lines_of_append [OF assms(1), of "u @ t"] by simp
qed

lemma last_line_part:
  obtains q u where "p = q @ u" and "q = [] \<or> last q = newline" and "newline \<notin> set u"
proof -
  let ?u = "after_last_newline p"
  have "p = rev (dropWhile (\<lambda>c. c \<noteq> newline) (rev p)) @ ?u"
    unfolding after_last_newline_def by (metis rev_append rev_rev_ident takeWhile_dropWhile_id)
  moreover have "rev (dropWhile (\<lambda>c. c \<noteq> newline) (rev p)) = [] \<or> last (rev (dropWhile (\<lambda>c. c \<noteq> newline) (rev p))) = newline"
    by (metis (mono_tags, lifting) hd_dropWhile last_rev rev.simps(1))
  moreover have "newline \<notin> set ?u" unfolding after_last_newline_def by (auto dest: set_takeWhileD)
  ultimately show thesis by (rule that)
qed

lemma snapshot_text:
  assumes r: "represents acc d" and short: "short_lines (oa_maxBytes acc) d" and ne: "oa_tailText acc \<noteq> d"
  obtains q where "d = q @ getSnapshotText acc" and "q = [] \<or> last q = newline"
    and "oa_maxBytes acc + 1 < byteLength (getSnapshotText acc)"
proof -
  let ?t = "oa_tailText acc"
  obtain p where p: "d = p @ ?t" using r by (auto simp: represents_defs suffix_def)
  have pne: "p \<noteq> []" using p ne by auto
  have dne: "d \<noteq> []" using p pne by simp
  have R: "oa_maxRollingBytes acc = max (oa_maxBytes acc * 2) 1" "oa_maxRollingBytes acc \<le> oa_tailBytes acc + 3"
    "oa_tailBytes acc = byteLength ?t"
    using r ne unfolding represents_def tail_ok_def by blast+
  have "oa_maxBytes acc * 2 \<le> max (oa_maxBytes acc * 2) 1" by simp
  then have m: "oa_maxBytes acc * 2 \<le> byteLength ?t + 3" using R by linarith
  have "lines_of d \<noteq> []"
  proof
    assume "lines_of d = []"
    then have "d = (if d \<noteq> [] \<and> last d = newline then [newline] else [])" using join_lines_of [of d] by simp
    then have "lines_of d = [[]]" using dne by (metis append_Nil lines_of_newline split_nl.simps(1))
    with \<open>lines_of d = []\<close> show False by simp
  qed
  then obtain l where "l \<in> set (lines_of d)" by (meson list.set_sel(1))
  then have mb: "5 < oa_maxBytes acc" using short by (force simp: short_lines_def)
  have len: "byteLength u + 5 < oa_maxBytes acc" if "q' = [] \<or> last q' = newline" "newline \<notin> set u" "d = q' @ u @ t'" "t' = [] \<or> hd t' = newline" for q' u t'
    using line_head [OF that(1,2) _ that(4)] that(3) short mb by (cases "u = []") (auto simp: short_lines_def)
  show thesis
  proof (cases "oa_tailStartsAtLineBoundary acc")
    case True
    then obtain p' where "d = p' @ [newline] @ ?t" using r ne by (auto simp: represents_defs)
    moreover have "getSnapshotText acc = ?t" using True by (simp add: getSnapshotText_def)
    ultimately show thesis using that [of "p' @ [newline]"] m mb by simp
  next
    case False
    obtain q' u where qu: "p = q' @ u" "q' = [] \<or> last q' = newline" "newline \<notin> set u" by (rule last_line_part)
    show thesis
    proof (cases "newline \<in> set ?t")
      case True
      let ?h = "takeWhile (\<lambda>c. c \<noteq> newline) ?t" and ?s = "tl (dropWhile (\<lambda>c. c \<noteq> newline) ?t)"
      have dw: "dropWhile (\<lambda>c. c \<noteq> newline) ?t \<noteq> []" using True by (auto simp: dropWhile_eq_Nil_conv)
      moreover have "hd (dropWhile (\<lambda>c. c \<noteq> newline) ?t) = newline" using hd_dropWhile [OF dw] by simp
      ultimately have "dropWhile (\<lambda>c. c \<noteq> newline) ?t = newline # ?s" by (metis list.collapse)
      then have t: "?t = ?h @ newline # ?s" by (metis takeWhile_dropWhile_id)
      have s: "getSnapshotText acc = ?s" using False True by (simp add: getSnapshotText_def)
      have "newline \<notin> set (u @ ?h)" using qu(3) by (auto dest: set_takeWhileD)
      moreover have "d = q' @ (u @ ?h) @ (newline # ?s)" using p qu(1) t by (metis append.assoc)
      ultimately have "byteLength (u @ ?h) + 5 < oa_maxBytes acc" by (rule len [OF qu(2)]) simp
      moreover have "byteLength ?t = byteLength ?h + 1 + byteLength ?s" by (subst t) simp
      ultimately have "oa_maxBytes acc + 1 < byteLength ?s" using m by simp
      moreover have "d = (p @ ?h @ [newline]) @ ?s" using p t by (metis append.assoc append_Cons append_Nil)
      ultimately show thesis using that [of "p @ ?h @ [newline]"] s by simp
    next
      case nn: False
      have "newline \<notin> set (u @ ?t)" using qu(3) nn by simp
      moreover have "d = q' @ (u @ ?t) @ []" using p qu(1) by simp
      ultimately have "byteLength (u @ ?t) + 5 < oa_maxBytes acc" by (rule len [OF qu(2)]) simp
      then show thesis using m mb by simp
    qed
  qed
qed

lemma snapshot_tail:
  assumes r: "represents acc d" and c: "oa_tailText acc = d \<or> short_lines (oa_maxBytes acc) d"
  shows "snapshot_truncation acc = truncateTail d (Some (oa_maxLines acc)) (Some (oa_maxBytes acc))"
proof -
  let ?T = "\<lambda>s. truncateTail s (Some (oa_maxLines acc)) (Some (oa_maxBytes acc))"
  have tot: "oa_totalLines acc = length (lines_of d)" "oa_totalDecodedBytes acc = byteLength d"
    using r by (simp_all add: represents_defs)
  have same: "?T d = (?T (getSnapshotText acc))\<lparr>tr_totalLines := length (lines_of d), tr_totalBytes := byteLength d\<rparr> \<and>
      (tr_truncatedBy (?T (getSnapshotText acc)) = None) = (\<not> tr_truncated (?T d)) \<and>
      tr_truncated (?T (getSnapshotText acc)) = tr_truncated (?T d)"
  proof (cases "oa_tailText acc = d")
    case True
    then have "getSnapshotText acc = d" using r by (simp add: getSnapshotText_def represents_defs)
    then show ?thesis using truncateTail_fields [of d "oa_maxLines acc" "oa_maxBytes acc"] by (intro conjI truncation_eq) simp_all
  next
    case False
    obtain q where q: "d = q @ getSnapshotText acc" "q = [] \<or> last q = newline"
        "oa_maxBytes acc + 1 < byteLength (getSnapshotText acc)"
      using c False snapshot_text [OF r] by blast
    have e: "?T d = (?T (getSnapshotText acc))\<lparr>tr_totalLines := length (lines_of d), tr_totalBytes := byteLength d\<rparr>"
      using truncateTail_suffix [OF q(2,3), of "oa_maxLines acc"] q(1) by metis
    then have "tr_truncated (?T d) = tr_truncated (?T (getSnapshotText acc))" by simp
    with e show ?thesis using truncateTail_fields(6) [of "getSnapshotText acc"] by simp
  qed
  then show ?thesis
    unfolding snapshot_truncation_def Let_def tot
    using truncateTail_fields(1) [of d "oa_maxLines acc" "oa_maxBytes acc"]
      truncateTail_fields(4,5) [of "getSnapshotText acc" "oa_maxLines acc" "oa_maxBytes acc"]
    by (intro truncation_eq) (auto split: option.splits)
qed

end
