(* ===== verification/Output_Properties.thy ===== *)
theory Output_Properties
  imports Accumulator_Lemmas
begin

text \<open>
  The properties of tool-output truncation: what the two truncations keep, that the accumulator's
  snapshot is the truncation of the whole output although it only holds a rolling tail of it, what it
  bounds and what it preserves, and the outputs for which the snapshot is empty.
\<close>

section \<open>Truncation\<close>

text \<open>
  Truncation from the head returns the text unchanged when it is within both limits, nothing when
  its first line alone exceeds the byte limit, and otherwise the longest prefix of whole lines that is
  within both limits; the reported sizes are those of what is returned.
\<close>

theorem truncate_head_longest_prefix:
  "let r = truncateHead s (Some ml) (Some mb); lines = lines_of s in
   if length lines \<le> ml \<and> byteLength s \<le> mb then tr_content r = s \<and> \<not> tr_truncated r
   else if mb < byteLength (hd lines) then tr_content r = [] \<and> tr_truncated r \<and> tr_firstLineExceedsLimit r
   else (\<exists>k \<le> min ml (length lines).
           tr_content r = join_with [newline] (take k lines) \<and> tr_truncated r \<and> tr_outputLines r = k \<and>
           tr_outputBytes r = byteLength (tr_content r) \<and> byteLength (tr_content r) \<le> mb \<and>
           (k = ml \<or> k = length lines \<or> mb < joined (take (Suc k) lines)))"
proof -
  let ?lines = "lines_of s"
  consider (fits) "length ?lines \<le> ml \<and> byteLength s \<le> mb"
    | (first) "\<not> (length ?lines \<le> ml \<and> byteLength s \<le> mb)" "mb < byteLength (hd ?lines)"
    | (cut) "\<not> (length ?lines \<le> ml \<and> byteLength s \<le> mb)" "\<not> mb < byteLength (hd ?lines)"
    by blast
  then show ?thesis
  proof cases
    case cut
    obtain out n b where l: "head_loop ml mb 0 ?lines [] 0 = (out, n, b)" by (metis prod_cases3)
    then obtain k where k: "k \<le> length ?lines" "out = take k ?lines" "n \<le> mb" "n = joined out" "length out \<le> ml"
        "if b then k < length ?lines \<and> length out < ml \<and> mb < joined (out @ [?lines ! k]) else k = length ?lines \<or> length out = ml"
      using head_loop_spec [of ml mb "[]" ?lines out n b] by auto
    have r: "truncateHead s (Some ml) (Some mb) = truncated_result s ?lines ml mb out (limit_hit ml mb out n b) False"
      unfolding truncateHead_def Let_def option.case if_not_P [OF cut(1)] if_not_P [OF cut(2)] l by simp
    have "k = ml \<or> k = length ?lines \<or> mb < joined (take (Suc k) ?lines)"
      using k(1,2,6) by (auto simp: take_Suc_conv_app_nth split: if_splits)
    with k cut show ?thesis unfolding r by (auto simp: truncated_result_def Let_def intro!: exI [of _ k])
  qed (simp_all add: truncateHead_def whole_def Let_def)
qed

text \<open>
  C15. Truncation from the tail keeps the longest suffix of whole lines within both limits; only when
  the last line alone exceeds the byte limit is it cut, and then to its longest suffix of whole
  characters within the limit.
\<close>

theorem truncate_tail_longest_suffix:
  assumes "list_all scalar s" and "ml < length (lines_of s) \<or> mb < byteLength s" and "0 < ml"
  shows "let r = truncateTail s (Some ml) (Some mb); lines = lines_of s in
     tr_truncated r \<and> byteLength (tr_content r) \<le> mb \<and> tr_outputBytes r = byteLength (tr_content r) \<and> tr_outputLines r \<le> ml \<and>
     (if lines \<noteq> [] \<and> mb < byteLength (last lines)
      then tr_lastLinePartial r \<and> suffix (tr_content r) (last lines) \<and>
           (\<forall>t. suffix t (last lines) \<longrightarrow> byteLength t \<le> mb \<longrightarrow> suffix t (tr_content r))
      else \<not> tr_lastLinePartial r \<and>
           (\<exists>k \<le> length lines. tr_content r = join_with [newline] (drop k lines) \<and> tr_outputLines r = length lines - k \<and>
              (k = 0 \<or> length lines - k = ml \<or> mb < joined (drop (k - 1) lines))))"
proof -
  let ?lines = "lines_of s"
  obtain out n b part where l: "tail_loop ml mb (rev ?lines) [] 0 = (out, n, b, part)" by (metis prod_cases4)
  have c: "\<not> (length ?lines \<le> ml \<and> byteLength s \<le> mb)" using assms(2) by linarith
  have r: "truncateTail s (Some ml) (Some mb) = truncated_result s ?lines ml mb out (limit_hit ml mb out n b) part"
    unfolding truncateTail_def Let_def option.case if_not_P [OF c] l by simp
  note spec = tail_loop_spec [of ml mb "rev ?lines" "[]" out n b part]
  show ?thesis
  proof (cases "?lines \<noteq> [] \<and> mb < byteLength (last ?lines)")
    case True
    then obtain l0 ls where ls: "rev ?lines = l0 # ls" "last ?lines = l0" by (cases "?lines" rule: rev_cases) auto
    let ?t = "truncateStringToBytesFromEnd l0 mb"
    have p: "out = [?t]" "part" using l True ls assms(3) by (auto simp: Let_def)
    have "l0 \<in> set ?lines" using True ls(2) by (metis last_in_set)
    then have sl: "list_all scalar l0" by (rule lines_scalar [OF assms(1)])
    have t: "?t = suffix_from (byteLength l0 - mb) l0" by (rule truncate_from_end [OF sl]) (use True ls(2) in simp)
    have le: "byteLength ?t \<le> mb" using suffix_from_bytes [of "byteLength l0 - mb" l0] True ls(2) by (simp add: t)
    have "suffix u ?t" if "suffix u l0" "byteLength u \<le> mb" for u
      unfolding t by (rule suffix_from_maximal [OF that(1)]) (use that True ls(2) in simp)
    then show ?thesis using True ls(2) le assms(3) p(2) suffix_from_suffix [of "byteLength l0 - mb" l0]
      unfolding r p(1) by (simp add: truncated_result_def Let_def t)
  next
    case False
    have l': "tail_loop ml mb (rev ?lines) [] (joined []) = (out, n, b, part)" using l by simp
    have np: "\<not> part" using spec [OF l'] False by (auto simp: hd_rev)
    have "\<exists>k \<le> length ?lines. out = rev (take k (rev ?lines)) \<and> n = joined out \<and> n \<le> mb \<and> length out \<le> ml \<and>
        (if b then k < length (rev ?lines) \<and> length out < ml \<and> mb < joined (rev ?lines ! k # out) else k = length (rev ?lines) \<or> length out = ml)"
      using spec [OF l'] np by (simp split del: if_split)
    then obtain k where k: "k \<le> length ?lines" "out = rev (take k (rev ?lines))" "n = joined out" "n \<le> mb" "length out \<le> ml"
        "if b then k < length (rev ?lines) \<and> length out < ml \<and> mb < joined (rev ?lines ! k # out) else k = length (rev ?lines) \<or> length out = ml"
      by blast
    let ?j = "length ?lines - k"
    have o: "out = drop ?j ?lines" using k(1,2) by (simp add: rev_take)
    have "joined (rev ?lines ! k # out) = joined (drop (?j - 1) ?lines)" if "k < length ?lines"
      using that by (simp add: o rev_nth Cons_nth_drop_Suc [symmetric] Suc_diff_Suc)
    then have "?j = 0 \<or> length ?lines - ?j = ml \<or> mb < joined (drop (?j - 1) ?lines)"
      using k(1,5,6) o by (auto split: if_splits)
    then show ?thesis using False np k o unfolding r
      by (auto simp: truncated_result_def Let_def intro!: exI [of _ ?j])
  qed
qed

theorem truncate_tail_longest_suffix_witness:
  "suffix [0x20AC] (tr_content (truncateTail [97, 10, 0x20AC, 0x20AC] (Some 5) (Some 5))) \<and>
   byteLength (tr_content (truncateTail [97, 10, 0x20AC, 0x20AC] (Some 5) (Some 5))) \<le> 5"
proof -
  let ?s = "[97, 10, 0x20AC, 0x20AC] :: nat list"
  have "list_all scalar ?s" by (simp add: scalar_def)
  moreover have "5 < length (lines_of ?s) \<or> 5 < byteLength ?s" by (simp add: enc_def)
  moreover have "lines_of ?s \<noteq> [] \<and> 5 < byteLength (last (lines_of ?s)) \<and> last (lines_of ?s) = [0x20AC, 0x20AC]"
    by (simp add: splitLinesForCounting_def enc_def)
  moreover have "suffix [0x20AC] [0x20AC, 0x20AC :: nat]" "byteLength [0x20AC] \<le> 5" by (simp_all add: suffix_def enc_def)
  ultimately show ?thesis
    using truncate_tail_longest_suffix [of ?s 5 5] by (simp add: Let_def enc_def)
qed

section \<open>The accumulator\<close>

text \<open>
  C16. However the output arrives in chunks, no append fails, the rolling tail stays within four times
  the byte limit (but at least two bytes), no byte is lost (the kept chunks or the file hold all of
  them), the counters are those of the whole decoded text, and the file exists once a limit is exceeded.
\<close>

theorem accumulator_keeps_everything:
  "\<exists>acc. append_all path chunks (new_accumulator (Some ml) (Some mb)) = Inr acc \<and>
     (let bs = concat chunks; text = stream_text bs in
      kept_bytes acc = bs \<and> byteLength (oa_tailText acc) \<le> 2 * max (2 * mb) 1 \<and> suffix (oa_tailText acc) text \<and>
      oa_totalRawBytes acc = length bs \<and> oa_totalDecodedBytes acc = byteLength text \<and>
      oa_totalLines acc = length (lines_of text) \<and> getLastLineBytes acc = byteLength (after_last_newline text) \<and>
      (mb < length bs \<or> mb < byteLength text \<or> ml < length (lines_of text) \<longrightarrow> oa_tempFilePath acc \<noteq> None))"
proof -
  obtain acc where a: "append_all path chunks (new_accumulator (Some ml) (Some mb)) = Inr acc"
      "represents acc (stream_text (concat chunks))" "bytes_ok acc (concat chunks)"
      "oa_maxBytes acc = mb" "oa_maxLines acc = ml"
    using append_all_ok [OF new_ok(2,1), of path chunks "Some ml" "Some mb"]
    by (auto simp: new_accumulator_def Let_def)
  then show ?thesis
    by (intro exI [of _ acc])
       (auto simp: represents_def tail_ok_def counts_ok_def bytes_ok_def shouldUseTempFile_def getLastLineBytes_def Let_def
          mult.commute max.commute)
qed

theorem accumulator_keeps_everything_witness:
  "\<exists>acc. append_all ''/tmp/x'' [[104, 105], [10, 0xE2], [0x82, 0xAC]] (new_accumulator (Some 5) (Some 4)) = Inr acc \<and>
     oa_tempFilePath acc \<noteq> None"
proof -
  have "(4 :: nat) < length (concat [[104, 105], [10, 0xE2], [0x82, 0xAC :: nat]])" by simp
  then show ?thesis
    using accumulator_keeps_everything [of "''/tmp/x''" "[[104, 105], [10, 0xE2], [0x82, 0xAC]]" 5 4] unfolding Let_def by blast
qed



text \<open>
  A line of at least four times the byte limit that ends with a newline leaves an empty snapshot:
  the tail starts inside the line, and everything up to the newline is dropped. The truncation of the
  whole output would keep the end of the line.
\<close>

theorem long_line_snapshot_empty:
  assumes "append_all path chunks (new_accumulator (Some ml) (Some mb)) = Inr acc"
    and "stream_text (concat chunks) = line @ [newline]" and "newline \<notin> set line" and "4 * mb \<le> byteLength line"
    and "2 \<le> mb" and "0 < ml"
  shows "os_content (snd (snapshot path persist acc)) = [] \<and> tr_truncated (os_truncation (snd (snapshot path persist acc))) \<and>
     tr_content (truncateTail (line @ [newline]) (Some ml) (Some mb)) = suffix_from (byteLength line - mb) line \<and>
     mb \<le> byteLength (suffix_from (byteLength line - mb) line) + 3"
proof -
  have a: "represents acc (line @ [newline])" "oa_maxBytes acc = mb" "oa_maxLines acc = ml"
    using append_all_ok [OF new_ok(2,1), of path chunks "Some ml" "Some mb"] assms(1,2)
    by (auto simp: new_accumulator_def Let_def)
  let ?t = "oa_tailText acc"
  have m: "max (mb * 2) 1 = mb * 2" using assms(5) by simp
  have tail: "suffix ?t (line @ [newline])" "byteLength ?t \<le> 4 * mb"
      "?t \<noteq> line @ [newline] \<Longrightarrow> mb * 2 \<le> byteLength ?t + 3"
      "oa_tailStartsAtLineBoundary acc \<Longrightarrow> ?t = line @ [newline] \<or> (\<exists>p. line @ [newline] = p @ [newline] @ ?t)"
    using a(1,2) m unfolding represents_def tail_ok_def by auto
  have ne: "?t \<noteq> line @ [newline]" using tail(2) assms(4) by auto
  then have "?t \<noteq> []" using tail(3) assms(5) by auto
  with tail(1) obtain u where u: "?t = u @ [newline]" "suffix u line"
    by (cases ?t rule: rev_cases) (auto simp: suffix_def)
  have nu: "newline \<notin> set u" using u(2) assms(3) by (auto simp: suffix_def)
  have nb: "\<not> oa_tailStartsAtLineBoundary acc"
  proof
    assume "oa_tailStartsAtLineBoundary acc"
    then obtain p where "line @ [newline] = p @ [newline] @ u @ [newline]" using tail(4) ne u(1) by auto
    then have "line = p @ [newline] @ u" by simp
    with assms(3) show False by simp
  qed
  have "dropWhile (\<lambda>c. c \<noteq> newline) (u @ [newline]) = [newline]"
    using nu by (subst dropWhile_append2) auto
  then have s: "getSnapshotText acc = []" using nb u(1) by (simp add: getSnapshotText_def)
  have sc: "list_all scalar line" using a(1) by (simp add: represents_def)
  have big: "mb < byteLength line" using assms(4,5) by linarith
  have "tr_content (truncateTail (line @ [newline]) (Some ml) (Some mb)) = suffix_from (byteLength line - mb) line"
    using big assms(3,6) truncate_from_end [OF sc big]
    by (simp add: truncateTail_def truncated_result_def Let_def split_nl_single)
  moreover have "mb \<le> byteLength (suffix_from (byteLength line - mb) line) + 3"
    using suffix_from_near [of "byteLength line - mb" line] big by linarith
  moreover have "oa_totalDecodedBytes acc = byteLength line + 1" using a(1) by (simp add: represents_def counts_ok_def)
  ultimately show ?thesis using s a(2) big
    by (simp add: snapshot_def snapshot_truncation_def truncateTail_def whole_def Let_def)
qed

theorem long_line_snapshot_empty_witness:
  "\<exists>acc. append_all ''/tmp/x'' [[120, 120, 120, 120, 120, 120, 120, 120], [10]] (new_accumulator (Some 9) (Some 2)) = Inr acc \<and>
     os_content (snd (snapshot ''/tmp/x'' False acc)) = []"
proof -
  let ?chunks = "[[120, 120, 120, 120, 120, 120, 120, 120], [10 :: nat]]"
  obtain acc where a: "append_all ''/tmp/x'' ?chunks (new_accumulator (Some 9) (Some 2)) = Inr acc"
    using append_all_ok [OF new_ok(2,1), of "''/tmp/x''" ?chunks "Some 9" "Some 2"] by blast
  have t: "stream_text (concat ?chunks) = [120, 120, 120, 120, 120, 120, 120, 120] @ [newline]"
    by (simp add: stream_text_def td_decode_def skip_bom_def)
  have "4 * 2 \<le> byteLength ([120, 120, 120, 120, 120, 120, 120, 120])" by (simp add: enc_def)
  with long_line_snapshot_empty [OF a t] a show ?thesis by auto
qed

end
