(* ===== verification/Ticket_Port.thy ===== *)
theory Ticket_Port
  imports Prelude "HOL-Library.Multiset"
begin

text \<open>
  The contract of a component that hands out promises. A caller's event opens a ticket (the promise),
  a later effect answers it, and the component holds the tickets it has not answered yet. The law of
  the locale is conservation at one step; the lemmas are what a caller may rely on over a whole run:
  nothing is answered that was not asked, nothing twice, and what is unanswered is still held.
\<close>

fun run_steps :: "('s \<Rightarrow> 'e \<Rightarrow> 's \<times> 'f list) \<Rightarrow> 's \<Rightarrow> 'e list \<Rightarrow> 's \<times> 'f list" where
  "run_steps step s [] = (s, [])"
| "run_steps step s (e # es) =
     (let (s', fx) = step s e; (s'', fxs) = run_steps step s' es in (s'', fx @ fxs))"

lemma run_steps_append:
  "run_steps step s (es @ es') =
     (let (s', fx) = run_steps step s es; (s'', fx') = run_steps step s' es' in (s'', fx @ fx'))"
  by (induction es arbitrary: s) (auto simp: Let_def split: prod.splits)

lemma run_steps_snoc:
  "run_steps step s (es @ [e]) =
     (let (s', fx) = run_steps step s es; (s'', fx') = step s' e in (s'', fx @ fx'))"
  by (simp add: run_steps_append Let_def split: prod.splits)

definition tickets :: "('x \<Rightarrow> nat list) \<Rightarrow> 'x list \<Rightarrow> nat multiset" where
  "tickets f xs = mset (concat (map f xs))"

lemma tickets_simps [simp]:
  "tickets f [] = {#}" "tickets f (x # xs) = mset (f x) + tickets f xs"
  "tickets f (xs @ ys) = tickets f xs + tickets f ys"
  by (simp_all add: tickets_def)

lemma tickets_map: "(\<And>x. x \<in> set xs \<Longrightarrow> f (g x) = h x) \<Longrightarrow> tickets f (map g xs) = tickets h xs"
  by (induction xs) auto

lemma tickets_none: "(\<And>x. x \<in> set xs \<Longrightarrow> f x = []) \<Longrightarrow> tickets f xs = {#}"
  by (induction xs) auto

lemma in_tickets: "t \<in># tickets f xs \<longleftrightarrow> (\<exists>x \<in> set xs. t \<in> set (f x))"
  by (induction xs) auto

locale ticket_port =
  fixes step :: "'s \<Rightarrow> 'e \<Rightarrow> 's \<times> 'f list"
    and inv :: "'s \<Rightarrow> bool"
    and held :: "'s \<Rightarrow> nat list"
    and opens :: "'e \<Rightarrow> nat list"
    and answers :: "'f \<Rightarrow> nat list"
  assumes inv_step: "inv s \<Longrightarrow> step s e = (s', fx) \<Longrightarrow> inv s'"
    and conserve: "inv s \<Longrightarrow> step s e = (s', fx) \<Longrightarrow>
      mset (held s) + mset (opens e) = mset (held s') + tickets answers fx"
begin

lemma inv_run: "inv s \<Longrightarrow> run_steps step s es = (s', fx) \<Longrightarrow> inv s'"
proof (induction es arbitrary: s s' fx)
  case Nil
  then show ?case by simp
next
  case (Cons e es)
  obtain s1 f1 where e: "step s e = (s1, f1)" by (meson surj_pair)
  obtain s2 f2 where es: "run_steps step s1 es = (s2, f2)" by (meson surj_pair)
  from Cons.prems e es Cons.IH [OF inv_step [OF Cons.prems(1) e] es] show ?case by simp
qed

lemma conserve_run:
  "inv s \<Longrightarrow> run_steps step s es = (s', fx) \<Longrightarrow>
     mset (held s) + tickets opens es = mset (held s') + tickets answers fx"
proof (induction es arbitrary: s s' fx)
  case Nil
  then show ?case by simp
next
  case (Cons e es)
  obtain s1 f1 where e: "step s e = (s1, f1)" by (meson surj_pair)
  obtain s2 f2 where es: "run_steps step s1 es = (s2, f2)" by (meson surj_pair)
  have rest: "mset (held s1) + tickets opens es = mset (held s2) + tickets answers f2"
    by (rule Cons.IH [OF inv_step [OF Cons.prems(1) e] es])
  have "mset (held s) + tickets opens (e # es) = (mset (held s) + mset (opens e)) + tickets opens es"
    by (simp add: union_assoc)
  also have "\<dots> = tickets answers f1 + (mset (held s1) + tickets opens es)"
    using conserve [OF Cons.prems(1) e] by (simp add: ac_simps)
  also have "\<dots> = mset (held s2) + tickets answers (f1 @ f2)"
    using rest by (simp add: ac_simps)
  finally show ?case using Cons.prems e es by auto
qed

lemma answered_once:
  assumes "inv s" and "held s = []" and "run_steps step s es = (s', fx)" and "count (tickets opens es) t = 1"
  shows "count (tickets answers fx) t + count (mset (held s')) t = 1"
  using conserve_run [OF assms(1,3)] assms(2,4)
  by (metis add.commute add_0 count_union mset.simps(1))

lemma answered_was_asked:
  assumes "inv s" and "held s = []" and "run_steps step s es = (s', fx)" and "t \<in># tickets answers fx"
  shows "t \<in># tickets opens es"
  using conserve_run [OF assms(1,3)] assms(2,4) by simp

lemma all_answered:
  assumes "inv s" and "held s = []" and "run_steps step s es = (s', fx)" and "held s' = []"
  shows "tickets answers fx = tickets opens es"
  using conserve_run [OF assms(1,3)] assms(2,4) by simp

end

text \<open>A port that serves one caller at a time.\<close>

locale exclusive_port = ticket_port +
  assumes exclusive: "inv s \<Longrightarrow> length (held s) \<le> 1"
begin

lemma held_unique: "inv s \<Longrightarrow> t \<in> set (held s) \<Longrightarrow> held s = [t]"
  using exclusive [of s] by (cases "held s") auto

end

end
