(* ===== verification/Core_Client.thy ===== *)
theory Core_Client
  imports Prelude Ticket_Port
begin

text \<open>
  The client of the Python Core over one line per message (\<open>src/harness/core-client.ts\<close>, class
  \<open>CoreClient\<close>). Each callback of the source is an operation on the client's state that returns
  what it does to the outside: promises settled, waiters woken, lines written, signals sent. A
  promise is named by the number of the call that made it. The child process, the streams and the
  timers are the environment: their callbacks are events, in any order.
\<close>

section \<open>Errors and messages\<close>

text \<open>The texts of \<open>COPY.errors\<close> and the literals of the source, and the ones the Core sent.\<close>

datatype error_text =
    CoreUnavailableText
  | CoreBusyText
  | NoCancelAnswerText
  | ExitedText
  | UnexplainedText
  | RestartText
  | WireText json

datatype error_details = DetailLine string | WireDetails json

record core_error =
  ce_code :: json
  ce_message :: error_text
  ce_remediation :: "error_text option"
  ce_details :: "error_details option"

definition CORE_UNAVAILABLE :: json where
  "CORE_UNAVAILABLE = JStr ''core_unavailable''"

definition core_error :: "json \<Rightarrow> error_text \<Rightarrow> core_error" where
  "core_error code message = \<lparr>ce_code = code, ce_message = message, ce_remediation = None, ce_details = None\<rparr>"

text \<open>Property access on a parsed value (\<open>null\<close> is handled where it throws), and \<open>??\<close>.\<close>

fun jprop :: "string \<Rightarrow> json \<Rightarrow> json option" where
  "jprop k (JObj kvs) = map_of kvs k"
| "jprop k _ = None"

fun nullish :: "json option \<Rightarrow> json option" where
  "nullish None = None"
| "nullish (Some JNull) = None"
| "nullish (Some v) = Some v"

fun truthy_json :: "json option \<Rightarrow> bool" where
  "truthy_json None = False"
| "truthy_json (Some JNull) = False"
| "truthy_json (Some (JBool b)) = b"
| "truthy_json (Some (JInt i)) = (i \<noteq> 0)"
| "truthy_json (Some (JStr s)) = (s \<noteq> [])"
| "truthy_json (Some v) = True"

text \<open>\<open>message.error?.k\<close>.\<close>

definition error_prop :: "json \<Rightarrow> string \<Rightarrow> json option" where
  "error_prop message k = (case nullish (jprop ''error'' message) of Some e \<Rightarrow> jprop k e | None \<Rightarrow> None)"

definition wire_error :: "json \<Rightarrow> core_error" where
  "wire_error message =
     \<lparr>ce_code = (case nullish (error_prop message ''code'') of Some c \<Rightarrow> c | None \<Rightarrow> JStr ''core_error''),
      ce_message = (case nullish (error_prop message ''message'') of Some m \<Rightarrow> WireText m | None \<Rightarrow> UnexplainedText),
      ce_remediation = map_option WireText (error_prop message ''remediation''),
      ce_details = map_option WireDetails (error_prop message ''details'')\<rparr>"

section \<open>The state\<close>

text \<open>One call of \<open>request\<close>: its promise, its random id and its arguments.\<close>

record core_call =
  cl_promise :: nat
  cl_requestId :: string
  cl_session :: string
  cl_tool :: string
  cl_params :: json
  cl_signal :: bool
  cl_progress :: bool

record pending =
  pd_promise :: nat
  pd_requestId :: string
  pd_cancelled :: bool
  pd_guard :: bool
  pd_signal :: bool
  pd_progress :: bool

text \<open>
  \<open>cc_stops\<close> are the calls of \<open>stop\<close> that wait for the exit; the flag tells the second wait, after
  the kill. \<open>cc_writable\<close> is \<open>child.stdin.writable\<close>, \<open>cc_progress\<close> that \<open>options.onProgress\<close> is given.
\<close>

record core_client =
  cc_pending :: "pending option"
  cc_dead :: bool
  cc_stderrTail :: string
  cc_idleWaiters :: "nat list"
  cc_writable :: bool
  cc_progress :: bool
  cc_stops :: "(nat \<times> bool) list"

definition start_client :: "bool \<Rightarrow> core_client" where
  "start_client has_progress =
     \<lparr>cc_pending = None, cc_dead = False, cc_stderrTail = [], cc_idleWaiters = [], cc_writable = True,
      cc_progress = has_progress, cc_stops = []\<rparr>"

datatype effect =
    Resolved nat "json option"
  | Rejected nat core_error
  | Woken nat
  | SentRequest string string string json
  | SentCancel string
  | ClientProgress json "json option"
  | CallProgress nat json "json option"
  | Killed
  | StdinEnded
  | StopReturned nat
  | Threw

section \<open>Operations\<close>

definition sendLine :: "core_client \<Rightarrow> effect \<Rightarrow> effect list" where
  "sendLine c e = (if cc_dead c \<or> \<not> cc_writable c then [] else [e])"

definition flushIdle :: "core_client \<Rightarrow> core_client \<times> effect list" where
  "flushIdle c =
     (case cc_pending c of
        Some _ \<Rightarrow> (c, [])
      | None \<Rightarrow> (c\<lparr>cc_idleWaiters := []\<rparr>, map Woken (cc_idleWaiters c)))"

definition whenIdle :: "nat \<Rightarrow> core_client \<Rightarrow> core_client \<times> effect list" where
  "whenIdle w c =
     (if cc_dead c \<or> cc_pending c = None then (c, [Woken w])
      else (c\<lparr>cc_idleWaiters := cc_idleWaiters c @ [w]\<rparr>, []))"

definition request :: "core_call \<Rightarrow> core_client \<Rightarrow> core_client \<times> effect list" where
  "request call c =
     (if cc_dead c then (c, [Rejected (cl_promise call) (core_error CORE_UNAVAILABLE CoreUnavailableText)])
      else if cc_pending c \<noteq> None then (c, [Rejected (cl_promise call) (core_error (JStr ''core_busy'') CoreBusyText)])
      else
        (let p = \<lparr>pd_promise = cl_promise call, pd_requestId = cl_requestId call, pd_cancelled = False,
                  pd_guard = False, pd_signal = cl_signal call, pd_progress = cl_progress call\<rparr>;
             c' = c\<lparr>cc_pending := Some p\<rparr>
         in (c', sendLine c' (SentRequest (cl_requestId call) (cl_session call) (cl_tool call) (cl_params call)))))"

text \<open>
  \<open>failPending\<close>; \<open>finishPending\<close> clears the guard timer and removes the abort listener, which live
  and die with the pending call here.
\<close>

definition failPending :: "core_error \<Rightarrow> core_client \<Rightarrow> core_client \<times> effect list" where
  "failPending err c =
     (let (c', fx) = flushIdle (c\<lparr>cc_pending := None\<rparr>) in
      case cc_pending c of
        None \<Rightarrow> (c', fx)
      | Some p \<Rightarrow> (c', fx @ [Rejected (pd_promise p) err]))"

text \<open>The abort listener of the call with promise \<open>n\<close>, when it is still registered.\<close>

definition onAbort :: "nat \<Rightarrow> core_client \<Rightarrow> core_client \<times> effect list" where
  "onAbort n c =
     (case cc_pending c of
        Some p \<Rightarrow>
          if pd_promise p = n \<and> pd_signal p \<and> \<not> pd_cancelled p \<and> \<not> cc_dead c
          then (let c' = c\<lparr>cc_pending := Some (p\<lparr>pd_cancelled := True, pd_guard := True\<rparr>)\<rparr>
                in (c', sendLine c (SentCancel (pd_requestId p))))
          else (c, [])
      | None \<Rightarrow> (c, []))"

text \<open>The callback of the guard timer of the call with promise \<open>n\<close>, fifteen seconds after its cancel.\<close>

definition guardExpires :: "nat \<Rightarrow> core_client \<Rightarrow> core_client \<times> effect list" where
  "guardExpires n c =
     (case cc_pending c of
        Some p \<Rightarrow>
          if pd_promise p = n \<and> pd_guard p
          then (let (c', fx) = failPending (core_error CORE_UNAVAILABLE NoCancelAnswerText) c in (c', Killed # fx))
          else (c, [])
      | None \<Rightarrow> (c, []))"

definition progress_line :: "json \<Rightarrow> core_client \<Rightarrow> effect list" where
  "progress_line message c =
     (case cc_pending c of
        Some p \<Rightarrow>
          if jprop ''request_id'' message = Some (JStr (pd_requestId p))
          then (let text = (case nullish (jprop ''message'' message) of Some m \<Rightarrow> m | None \<Rightarrow> JStr []);
                    dat = jprop ''data'' message
                in (if cc_progress c then [ClientProgress text dat] else [])
                   @ (if pd_progress p then [CallProgress (pd_promise p) text dat] else []))
          else []
      | None \<Rightarrow> [])"

definition result_line :: "json \<Rightarrow> core_client \<Rightarrow> core_client \<times> effect list" where
  "result_line message c =
     (let (c', fx) = flushIdle (c\<lparr>cc_pending := None\<rparr>) in
      case cc_pending c of
        None \<Rightarrow> (c', fx)
      | Some p \<Rightarrow>
          (c', fx @ [if truthy_json (jprop ''ok'' message) then Resolved (pd_promise p) (jprop ''data'' message)
                     else Rejected (pd_promise p) (wire_error message)]))"

text \<open>A line of the Core; \<open>None\<close> is one that \<open>JSON.parse\<close> refuses. A line \<open>null\<close> throws at \<open>message.type\<close>.\<close>

definition onLine :: "json option \<Rightarrow> core_client \<Rightarrow> core_client \<times> effect list" where
  "onLine line c =
     (case line of
        None \<Rightarrow> (c, [])
      | Some message \<Rightarrow>
          if message = JNull then (c, [Threw])
          else if jprop ''type'' message = Some (JStr ''progress'') then (c, progress_line message c)
          else if jprop ''type'' message \<noteq> Some (JStr ''result'') then (c, [])
          else result_line message c)"

text \<open>The last line of the trimmed tail: \<open>trim().split(/\r?\n/).pop()\<close>.\<close>

definition is_space :: "char \<Rightarrow> bool" where
  "is_space c = (let n = of_char c :: nat in (9 \<le> n \<and> n \<le> 13) \<or> n = 32 \<or> n = 160)"

definition last_line :: "string \<Rightarrow> string" where
  "last_line s =
     (let t = rev (dropWhile is_space (rev (dropWhile is_space s)))
      in rev (takeWhile (\<lambda>c. c \<noteq> CHR 0x0A) (rev t)))"

definition onStderr :: "string \<Rightarrow> core_client \<Rightarrow> core_client" where
  "onStderr chunk c =
     (let t = cc_stderrTail c @ chunk in c\<lparr>cc_stderrTail := drop (length t - 4096) t\<rparr>)"

definition onExit :: "string option \<Rightarrow> core_client \<Rightarrow> core_client \<times> effect list" where
  "onExit err c =
     (if cc_dead c then (c, [])
      else
        (let detail = (case err of Some m \<Rightarrow> m | None \<Rightarrow> last_line (cc_stderrTail c))
         in failPending
              \<lparr>ce_code = CORE_UNAVAILABLE, ce_message = ExitedText, ce_remediation = Some RestartText,
               ce_details = (if detail = [] then None else Some (DetailLine detail))\<rparr>
              (c\<lparr>cc_dead := True, cc_writable := False\<rparr>)))"

text \<open>
  \<open>stop\<close>: end the input, wait for the exit, kill, wait again. An exit ends every wait; the timer of
  a wait, or an error event, ends it with \<open>false\<close>.
\<close>

definition stop :: "nat \<Rightarrow> core_client \<Rightarrow> core_client \<times> effect list" where
  "stop n c =
     (if cc_dead c then (c, [StopReturned n])
      else (c\<lparr>cc_writable := False, cc_stops := cc_stops c @ [(n, False)]\<rparr>,
            if cc_writable c then [StdinEnded] else []))"

fun stop_gave_up :: "nat \<times> bool \<Rightarrow> (nat \<times> bool) list \<times> effect list" where
  "stop_gave_up (n, second) = (if second then ([], [StopReturned n]) else ([(n, True)], [Killed]))"

definition stopTimer :: "nat \<Rightarrow> core_client \<Rightarrow> core_client \<times> effect list" where
  "stopTimer n c =
     (case map_of (cc_stops c) n of
        None \<Rightarrow> (c, [])
      | Some second \<Rightarrow>
          (let (keep, fx) = stop_gave_up (n, second)
           in (c\<lparr>cc_stops := remove1 (n, second) (cc_stops c) @ keep\<rparr>, fx)))"

definition childExit :: "core_client \<Rightarrow> core_client \<times> effect list" where
  "childExit c =
     (let (c', fx) = onExit None c
      in (c'\<lparr>cc_stops := []\<rparr>, fx @ map (\<lambda>(n, _). StopReturned n) (cc_stops c')))"

definition childError :: "string \<Rightarrow> core_client \<Rightarrow> core_client \<times> effect list" where
  "childError m c =
     (let (c', fx) = onExit (Some m) c;
          outcomes = map stop_gave_up (cc_stops c')
      in (c'\<lparr>cc_stops := concat (map fst outcomes)\<rparr>, fx @ concat (map snd outcomes)))"

section \<open>Events\<close>

datatype event =
    Request core_call
  | WhenIdle nat
  | Abort nat
  | GuardExpires nat
  | Line "json option"
  | Stderr string
  | StdinLost
  | ChildError string
  | ChildExit
  | Stop nat
  | StopTimer nat

fun core_step :: "core_client \<Rightarrow> event \<Rightarrow> core_client \<times> effect list" where
  "core_step c (Request call) = request call c"
| "core_step c (WhenIdle w) = whenIdle w c"
| "core_step c (Abort n) = onAbort n c"
| "core_step c (GuardExpires n) = guardExpires n c"
| "core_step c (Line l) = onLine l c"
| "core_step c (Stderr chunk) = (onStderr chunk c, [])"
| "core_step c StdinLost = (c\<lparr>cc_writable := False\<rparr>, [])"
| "core_step c (ChildError m) = childError m c"
| "core_step c ChildExit = childExit c"
| "core_step c (Stop n) = stop n c"
| "core_step c (StopTimer n) = stopTimer n c"

abbreviation core_run :: "core_client \<Rightarrow> event list \<Rightarrow> core_client \<times> effect list" where
  "core_run \<equiv> run_steps core_step"

lemmas core_step_defs =
  request_def whenIdle_def onAbort_def guardExpires_def onLine_def onStderr_def childError_def childExit_def
  stop_def stopTimer_def onExit_def failPending_def result_line_def progress_line_def flushIdle_def sendLine_def

text \<open>
  The client as a port: its invariant, and the three contracts it provides (one request at a time,
  waiters for idleness, calls of \<open>stop\<close>), each an interpretation of the ticket contract on
  \<open>core_step\<close>. Their facts \<open>calls\<close>, \<open>waiters\<close> and \<open>stops\<close> carry the properties over whole runs.
\<close>

section \<open>The invariant\<close>

definition core_inv :: "core_client \<Rightarrow> bool" where
  "core_inv c \<longleftrightarrow>
     (cc_dead c \<longrightarrow> cc_pending c = None \<and> \<not> cc_writable c) \<and>
     (cc_pending c = None \<longrightarrow> cc_idleWaiters c = []) \<and>
     (\<forall>p. cc_pending c = Some p \<longrightarrow> pd_guard p = pd_cancelled p \<and> (pd_cancelled p \<longrightarrow> pd_signal p))"

lemma start_inv [simp]: "core_inv (start_client b)"
  by (simp add: core_inv_def start_client_def)

lemma core_inv_step:
  assumes "core_inv c" and "core_step c e = (c', fx)"
  shows "core_inv c'"
  using assms by (cases e) (auto simp: core_step_defs core_inv_def Let_def split: option.splits if_splits prod.splits)

section \<open>Tickets\<close>

fun call_opens :: "event \<Rightarrow> nat list" where
  "call_opens (Request call) = [cl_promise call]"
| "call_opens _ = []"

fun call_answers :: "effect \<Rightarrow> nat list" where
  "call_answers (Resolved n d) = [n]"
| "call_answers (Rejected n err) = [n]"
| "call_answers _ = []"

definition call_held :: "core_client \<Rightarrow> nat list" where
  "call_held c = (case cc_pending c of Some p \<Rightarrow> [pd_promise p] | None \<Rightarrow> [])"

fun wait_opens :: "event \<Rightarrow> nat list" where
  "wait_opens (WhenIdle w) = [w]"
| "wait_opens _ = []"

fun wait_answers :: "effect \<Rightarrow> nat list" where
  "wait_answers (Woken w) = [w]"
| "wait_answers _ = []"

fun stop_opens :: "event \<Rightarrow> nat list" where
  "stop_opens (Stop n) = [n]"
| "stop_opens _ = []"

fun stop_answers :: "effect \<Rightarrow> nat list" where
  "stop_answers (StopReturned n) = [n]"
| "stop_answers _ = []"

lemma woken_tickets [simp]:
  "tickets call_answers (map Woken ws) = {#}" "tickets stop_answers (map Woken ws) = {#}"
  "tickets wait_answers (map Woken ws) = mset ws"
  by (induction ws) auto

lemma sendLine_tickets [simp]:
  "tickets f (sendLine c e) = (if cc_dead c \<or> \<not> cc_writable c then {#} else mset (f e))"
  by (simp add: sendLine_def)

lemma progress_tickets [simp]:
  "tickets call_answers (progress_line m c) = {#}" "tickets wait_answers (progress_line m c) = {#}"
  "tickets stop_answers (progress_line m c) = {#}"
  by (auto simp: progress_line_def Let_def split: option.splits)

lemma returned_tickets [simp]:
  "tickets call_answers (map (\<lambda>(n, _). StopReturned n) ss) = {#}"
  "tickets wait_answers (map (\<lambda>(n, _). StopReturned n) ss) = {#}"
  "tickets stop_answers (map (\<lambda>(n, _). StopReturned n) ss) = mset (map fst ss)"
  by (induction ss) auto

lemma gave_up_tickets [simp]:
  "tickets call_answers (snd (stop_gave_up s)) = {#}" "tickets wait_answers (snd (stop_gave_up s)) = {#}"
  by (cases s; cases "snd s"; simp)+

lemma gave_up_stop:
  "image_mset fst (mset (fst (stop_gave_up s))) + tickets stop_answers (snd (stop_gave_up s)) = {#fst s#}"
  by (cases s; cases "snd s"; simp)

lemma all_gave_up_tickets [simp]:
  "tickets call_answers (concat (map (snd \<circ> stop_gave_up) ss)) = {#}"
  "tickets wait_answers (concat (map (snd \<circ> stop_gave_up) ss)) = {#}"
  by (induction ss) auto

lemma all_gave_up_stops:
  "image_mset fst (mset (concat (map (fst \<circ> stop_gave_up) ss))) +
     tickets stop_answers (concat (map (snd \<circ> stop_gave_up) ss)) = image_mset fst (mset ss)"
proof (induction ss)
  case Nil
  then show ?case by simp
next
  case (Cons s ss)
  have "image_mset fst (mset (s # ss)) = {#fst s#} + image_mset fst (mset ss)" by simp
  also have "\<dots> = (image_mset fst (mset (fst (stop_gave_up s))) + tickets stop_answers (snd (stop_gave_up s)))
      + (image_mset fst (mset (concat (map (fst \<circ> stop_gave_up) ss))) +
         tickets stop_answers (concat (map (snd \<circ> stop_gave_up) ss)))"
    by (simp only: gave_up_stop Cons.IH)
  finally show ?case by (simp add: ac_simps comp_def)
qed

section \<open>What one callback settles\<close>

lemma flushIdle_held:
  "flushIdle c = (c', fx) \<Longrightarrow> call_held c' = call_held c \<and> tickets call_answers fx = {#} \<and>
     mset (cc_idleWaiters c) = mset (cc_idleWaiters c') + tickets wait_answers fx \<and>
     tickets stop_answers fx = {#} \<and> cc_stops c' = cc_stops c \<and> cc_dead c' = cc_dead c \<and> cc_writable c' = cc_writable c"
  by (auto simp: flushIdle_def call_held_def split: option.splits)

lemma failPending_held:
  "failPending err c = (c', fx) \<Longrightarrow> mset (call_held c) = mset (call_held c') + tickets call_answers fx \<and>
     mset (cc_idleWaiters c) = mset (cc_idleWaiters c') + tickets wait_answers fx \<and>
     tickets stop_answers fx = {#} \<and> cc_stops c' = cc_stops c"
  by (auto simp: failPending_def flushIdle_def call_held_def split: option.splits)

lemma onExit_held:
  "onExit err c = (c', fx) \<Longrightarrow> mset (call_held c) = mset (call_held c') + tickets call_answers fx \<and>
     mset (cc_idleWaiters c) = mset (cc_idleWaiters c') + tickets wait_answers fx \<and>
     tickets stop_answers fx = {#} \<and> cc_stops c' = cc_stops c"
  by (auto simp: onExit_def Let_def call_held_def dest!: failPending_held split: if_splits)

lemma result_line_held:
  "result_line m c = (c', fx) \<Longrightarrow> mset (call_held c) = mset (call_held c') + tickets call_answers fx \<and>
     mset (cc_idleWaiters c) = mset (cc_idleWaiters c') + tickets wait_answers fx \<and>
     tickets stop_answers fx = {#} \<and> cc_stops c' = cc_stops c"
  by (auto simp: result_line_def flushIdle_def call_held_def split: option.splits if_splits)

lemmas held_laws = failPending_held onExit_held result_line_held

lemma calls_conserve:
  assumes "core_step c e = (c', fx)"
  shows "mset (call_held c) + mset (call_opens e) = mset (call_held c') + tickets call_answers fx"
  using assms
  by (cases e)
     (auto simp: request_def whenIdle_def onAbort_def guardExpires_def onLine_def onStderr_def childError_def childExit_def
        stop_def stopTimer_def call_held_def Let_def split: option.splits if_splits prod.splits dest!: held_laws)

lemma waits_conserve:
  assumes "core_step c e = (c', fx)"
  shows "mset (cc_idleWaiters c) + mset (wait_opens e) = mset (cc_idleWaiters c') + tickets wait_answers fx"
  using assms
  by (cases e)
     (auto simp: request_def whenIdle_def onAbort_def guardExpires_def onLine_def onStderr_def childError_def childExit_def
        stop_def stopTimer_def Let_def split: option.splits if_splits prod.splits dest!: held_laws)

lemma stops_conserve:
  assumes "core_step c e = (c', fx)"
  shows "mset (map fst (cc_stops c)) + mset (stop_opens e) = mset (map fst (cc_stops c')) + tickets stop_answers fx"
proof (cases e)
  case (ChildError m)
  then obtain c1 f1 where "onExit (Some m) c = (c1, f1)" "c' = c1\<lparr>cc_stops := concat (map (fst \<circ> stop_gave_up) (cc_stops c1))\<rparr>"
    "fx = f1 @ concat (map (snd \<circ> stop_gave_up) (cc_stops c1))"
    using assms by (auto simp: childError_def Let_def split: prod.splits)
  with ChildError show ?thesis
    using all_gave_up_stops [of "cc_stops c"] by (auto dest!: held_laws)
next
  case (StopTimer n)
  show ?thesis
  proof (cases "map_of (cc_stops c) n")
    case None
    with StopTimer assms show ?thesis by (simp add: stopTimer_def)
  next
    case (Some second)
    then have "(n, second) \<in># mset (cc_stops c)" by (auto dest: map_of_SomeD)
    then obtain A where A: "mset (cc_stops c) = add_mset (n, second) A" by (metis multi_member_split)
    with StopTimer assms Some show ?thesis
      by (cases second) (auto simp: stopTimer_def Let_def)
  qed
qed (use assms in \<open>auto simp: request_def whenIdle_def onAbort_def guardExpires_def onLine_def onStderr_def childExit_def
        stop_def Let_def split: option.splits if_splits prod.splits dest!: held_laws\<close>)

section \<open>The contracts\<close>

interpretation calls: exclusive_port core_step core_inv call_held call_opens call_answers
proof
  show "core_inv c'" if "core_inv c" "core_step c e = (c', fx)" for c e c' fx
    using that by (rule core_inv_step)
  show "mset (call_held c) + mset (call_opens e) = mset (call_held c') + tickets call_answers fx"
    if "core_step c e = (c', fx)" for c e c' fx
    using that by (rule calls_conserve)
  show "length (call_held c) \<le> 1" for c
    by (simp add: call_held_def split: option.split)
qed

interpretation waiters: ticket_port core_step core_inv cc_idleWaiters wait_opens wait_answers
  by unfold_locales (erule (1) core_inv_step, erule waits_conserve)

interpretation stops: ticket_port core_step core_inv "\<lambda>c. map fst (cc_stops c)" stop_opens stop_answers
  by unfold_locales (erule (1) core_inv_step, erule stops_conserve)

end
