(* ===== verification/Core_Properties.thy ===== *)
theory Core_Properties
  imports Core_Client
begin

text \<open>
  The properties of the Core client over whole runs of callbacks, in any order: every call is settled
  exactly once or still the one in flight, a dead Core answers nothing but \<open>core_unavailable\<close>, every
  way out of a pending call settles it, and the place where an answer can reach the wrong call.
\<close>

section \<open>Lemmas\<close>

lemma start_held [simp]: "call_held (start_client b) = []" "cc_idleWaiters (start_client b) = []" "cc_stops (start_client b) = []"
  by (simp_all add: call_held_def start_client_def)

lemma dead_nothing_held: "core_inv c \<Longrightarrow> cc_dead c \<Longrightarrow> call_held c = [] \<and> cc_idleWaiters c = []"
  by (auto simp: core_inv_def call_held_def)

definition unavailable_only :: "effect \<Rightarrow> bool" where
  "unavailable_only f =
     (case f of
        Resolved _ _ \<Rightarrow> False
      | Rejected _ err \<Rightarrow> ce_code err = CORE_UNAVAILABLE
      | SentRequest _ _ _ _ \<Rightarrow> False
      | SentCancel _ \<Rightarrow> False
      | ClientProgress _ _ \<Rightarrow> False
      | CallProgress _ _ _ \<Rightarrow> False
      | _ \<Rightarrow> True)"

lemma gave_up_unavailable: "f \<in> set (snd (stop_gave_up s)) \<Longrightarrow> unavailable_only f"
  by (cases s; cases "snd s") (auto simp: unavailable_only_def)

lemma dead_step:
  assumes "core_inv c" and "cc_dead c" and "core_step c e = (c', fx)"
  shows "cc_dead c' \<and> list_all unavailable_only fx"
proof -
  have p: "cc_pending c = None" and i: "cc_idleWaiters c = []" using assms(1,2) by (auto simp: core_inv_def)
  show ?thesis
  proof (cases e)
    case (ChildError m)
    then show ?thesis using assms(2,3) gave_up_unavailable
      by (auto simp: childError_def onExit_def Let_def list_all_iff)
  next
    case (StopTimer n)
    then show ?thesis using assms(2,3) gave_up_unavailable [of _ "(n, _)"]
      by (auto simp: stopTimer_def Let_def list_all_iff unavailable_only_def split: option.splits if_splits)
  qed (use assms p i in \<open>auto simp: request_def core_error_def whenIdle_def onAbort_def guardExpires_def onLine_def result_line_def flushIdle_def
      progress_line_def onStderr_def childExit_def onExit_def stop_def unavailable_only_def list_all_iff Let_def
      split: if_splits option.splits prod.splits\<close>)
qed

lemma dead_run:
  "core_inv c \<Longrightarrow> cc_dead c \<Longrightarrow> core_run c es = (c', fx) \<Longrightarrow> cc_dead c' \<and> list_all unavailable_only fx"
proof (induction es arbitrary: c c' fx)
  case Nil
  then show ?case by simp
next
  case (Cons e es)
  obtain c1 f1 where e: "core_step c e = (c1, f1)" by (meson surj_pair)
  obtain c2 f2 where es: "core_run c1 es = (c2, f2)" by (meson surj_pair)
  from dead_step [OF Cons.prems(1,2) e] Cons.IH [OF core_inv_step [OF Cons.prems(1) e] _ es] Cons.prems(3) e es
  show ?case by auto
qed

section \<open>Settling\<close>

text \<open>
  C18. Over any run of callbacks, a promise that one call of \<open>request\<close> made is settled exactly once, or
  it is the one in flight; at most one is in flight; nothing is settled that was not requested; every
  idle waiter is woken exactly once or still waits, and it waits only while a request is in flight;
  and once the child is dead nothing is in flight and nobody waits.
\<close>

theorem core_settles_each_call_once:
  assumes "core_run (start_client b) es = (c, fx)" and "count (tickets call_opens es) t \<le> 1" and "count (tickets wait_opens es) w \<le> 1"
  shows "count (tickets call_answers fx) t + count (mset (call_held c)) t = count (tickets call_opens es) t \<and>
     count (tickets wait_answers fx) w + count (mset (cc_idleWaiters c)) w = count (tickets wait_opens es) w \<and>
     length (call_held c) \<le> 1 \<and> (call_held c = [] \<longrightarrow> cc_idleWaiters c = []) \<and>
     (cc_dead c \<longrightarrow> tickets call_answers fx = tickets call_opens es \<and> tickets wait_answers fx = tickets wait_opens es)"
proof -
  have inv: "core_inv c" by (rule calls.inv_run [OF start_inv assms(1)])
  have "tickets call_opens es = mset (call_held c) + tickets call_answers fx"
    using calls.conserve_run [OF start_inv assms(1)] by simp
  moreover have "tickets wait_opens es = mset (cc_idleWaiters c) + tickets wait_answers fx"
    using waiters.conserve_run [OF start_inv assms(1)] by simp
  moreover have "call_held c = [] \<longrightarrow> cc_idleWaiters c = []"
    using inv by (auto simp: core_inv_def call_held_def split: option.splits)
  ultimately show ?thesis using calls.exclusive [OF inv] dead_nothing_held [OF inv] by auto
qed

definition demo_call :: "nat \<Rightarrow> string \<Rightarrow> core_call" where
  "demo_call n rid =
     \<lparr>cl_promise = n, cl_requestId = rid, cl_session = ''s'', cl_tool = ''inspect_service'', cl_params = JObj [],
      cl_signal = True, cl_progress = False\<rparr>"

definition result_message :: "string \<Rightarrow> json \<Rightarrow> json" where
  "result_message rid d = JObj [(''type'', JStr ''result''), (''request_id'', JStr rid), (''ok'', JBool True), (''data'', d)]"

definition demo_events :: "event list" where
  "demo_events =
     [Request (demo_call 1 ''a''), WhenIdle 7, Abort 1, GuardExpires 1, Request (demo_call 2 ''b''),
      Line (Some (result_message ''a'' (JInt 5)))]"

theorem core_settles_each_call_once_witness:
  "case core_run (start_client True) demo_events of (c, fx) \<Rightarrow> count (tickets call_answers fx) 1 = 1 \<and> count (tickets wait_answers fx) 7 = 1"
proof -
  obtain c fx where r: "core_run (start_client True) demo_events = (c, fx)" by (meson surj_pair)
  have "call_held c = []"
    using r by (auto simp: demo_events_def demo_call_def result_message_def start_client_def core_step_defs call_held_def Let_def)
  moreover have "count (tickets call_opens demo_events) 1 = 1" "count (tickets wait_opens demo_events) 7 = 1"
    by (simp_all add: demo_events_def demo_call_def)
  ultimately show ?thesis using core_settles_each_call_once [OF r, of 1 7] unfolding r by auto
qed

text \<open>
  C29. Once the child has exited or failed, no event ever makes the client report a success or write a
  line again: whatever is still settled is rejected as \<open>core_unavailable\<close>, and a new request is.
\<close>

theorem dead_core_is_unavailable:
  assumes "core_run (start_client b) es = (c, fx)" and "e = ChildExit \<or> e = ChildError m"
    and "core_run c (e # later) = (c', fx')"
  shows "list_all unavailable_only fx' \<and> cc_dead c' \<and>
     core_step c' (Request call) = (c', [Rejected (cl_promise call) (core_error CORE_UNAVAILABLE CoreUnavailableText)])"
proof -
  have inv: "core_inv c" by (rule calls.inv_run [OF start_inv assms(1)])
  obtain c1 f1 where s: "core_step c e = (c1, f1)" by (meson surj_pair)
  obtain c2 f2 where l: "core_run c1 later = (c2, f2)" by (meson surj_pair)
  have d: "cc_dead c1"
    using s assms(2) by (auto simp: childExit_def childError_def onExit_def failPending_def flushIdle_def Let_def split: option.splits if_splits prod.splits)
  have "list_all unavailable_only f1"
    using s assms(2) gave_up_unavailable
    by (auto simp: childExit_def childError_def onExit_def failPending_def flushIdle_def Let_def list_all_iff unavailable_only_def
        split: option.splits if_splits)
  with dead_run [OF core_inv_step [OF inv s] d l] assms(3) s l show ?thesis by (auto simp: request_def)
qed

theorem dead_core_is_unavailable_witness:
  "case core_run (start_client True) [Request (demo_call 1 ''a''), ChildExit, Request (demo_call 2 ''b'')] of
     (c, fx) \<Rightarrow> list_all unavailable_only (tl fx)"
proof -
  obtain c fx where r: "core_run (start_client True) [Request (demo_call 1 ''a'')] = (c, fx)" by (meson surj_pair)
  obtain c' fx' where r': "core_run c [ChildExit, Request (demo_call 2 ''b'')] = (c', fx')" by (meson surj_pair)
  have "length fx = 1" using r by (auto simp: request_def sendLine_def start_client_def demo_call_def Let_def)
  moreover have "core_run (start_client True) ([Request (demo_call 1 ''a'')] @ [ChildExit, Request (demo_call 2 ''b'')]) = (c', fx @ fx')"
    by (simp only: run_steps_append r r' Let_def prod.case)
  ultimately show ?thesis using dead_core_is_unavailable [OF r _ r'] by (cases fx) auto
qed

text \<open>
  C19. A request in flight does not hang: a result line, the exit or the failure of the child, and a
  cancellation that is not answered in time each settle it and wake every waiter.
\<close>

theorem pending_call_is_settled:
  assumes "core_run (start_client b) es = (c, fx)" and "call_held c = [n]"
  shows "(\<forall>message. jprop ''type'' message = Some (JStr ''result'') \<longrightarrow>
            tickets call_answers (snd (core_step c (Line (Some message)))) = {#n#} \<and>
            tickets wait_answers (snd (core_step c (Line (Some message)))) = mset (cc_idleWaiters c)) \<and>
     tickets call_answers (snd (core_step c ChildExit)) = {#n#} \<and>
     tickets wait_answers (snd (core_step c ChildExit)) = mset (cc_idleWaiters c) \<and>
     tickets call_answers (snd (core_step c (ChildError m))) = {#n#} \<and>
     (pd_signal (the (cc_pending c)) \<longrightarrow>
        tickets call_answers (snd (core_run c [Abort n, GuardExpires n])) = {#n#} \<and>
        tickets wait_answers (snd (core_run c [Abort n, GuardExpires n])) = mset (cc_idleWaiters c))"
proof -
  have inv: "core_inv c" by (rule calls.inv_run [OF start_inv assms(1)])
  obtain p where p: "cc_pending c = Some p" "pd_promise p = n"
    using assms(2) by (auto simp: call_held_def split: option.splits)
  have nd: "\<not> cc_dead c" and g: "pd_guard p = pd_cancelled p" using inv p by (auto simp: core_inv_def)
  have line: "tickets call_answers (snd (core_step c (Line (Some message)))) = {#n#} \<and>
      tickets wait_answers (snd (core_step c (Line (Some message)))) = mset (cc_idleWaiters c)"
    if "jprop ''type'' message = Some (JStr ''result'')" for message
  proof -
    have "message \<noteq> JNull" using that by auto
    then show ?thesis using that p by (simp add: onLine_def result_line_def flushIdle_def)
  qed
  have exit: "tickets call_answers (snd (core_step c ChildExit)) = {#n#} \<and>
      tickets wait_answers (snd (core_step c ChildExit)) = mset (cc_idleWaiters c)"
    using p nd by (simp add: childExit_def onExit_def failPending_def flushIdle_def Let_def)
  have err: "tickets call_answers (snd (core_step c (ChildError m))) = {#n#}"
    using p nd by (simp add: childError_def onExit_def failPending_def flushIdle_def Let_def)
  have cancel: "tickets call_answers (snd (core_run c [Abort n, GuardExpires n])) = {#n#} \<and>
      tickets wait_answers (snd (core_run c [Abort n, GuardExpires n])) = mset (cc_idleWaiters c)" if "pd_signal p"
    using p nd g that
    by (cases "pd_cancelled p") (simp_all add: onAbort_def guardExpires_def failPending_def flushIdle_def Let_def)
  show ?thesis using line exit err cancel p(1) by auto
qed

theorem pending_call_is_settled_witness:
  "tickets call_answers (snd (core_run (fst (core_run (start_client True) [Request (demo_call 1 ''a'')])) [Abort 1, GuardExpires 1])) = {#1#}"
proof -
  obtain c fx where r: "core_run (start_client True) [Request (demo_call 1 ''a'')] = (c, fx)" by (meson surj_pair)
  have h: "call_held c = [1]" and s: "pd_signal (the (cc_pending c))"
    using r by (auto simp: request_def sendLine_def start_client_def demo_call_def call_held_def Let_def)
  from pending_call_is_settled [OF r h] s show ?thesis unfolding r by simp
qed

text \<open>
  A result line is not matched with the request it answers: after a cancellation that timed out,
  a late answer to the first request resolves the second one, with the first one's data.
\<close>

theorem late_result_answers_next_call:
  "case core_run (start_client True) demo_events of (c, fx) \<Rightarrow>
     Resolved 2 (Some (JInt 5)) \<in> set fx \<and> SentRequest ''a'' ''s'' ''inspect_service'' (JObj []) \<in> set fx \<and>
     Rejected 1 (core_error CORE_UNAVAILABLE NoCancelAnswerText) \<in> set fx \<and>
     jprop ''request_id'' (result_message ''a'' (JInt 5)) = Some (JStr ''a'')"
  by (simp add: demo_events_def demo_call_def result_message_def start_client_def core_step_defs Let_def)

end
