(* ===== verification/Evidence_Intake.thy ===== *)
theory Evidence_Intake
  imports Core_Client Truncate_Lemmas Runtime_Policy
begin

text \<open>
  Evidence of the generic tools (\<open>src/harness/generic-evidence.ts\<close>): the record built from a tool
  result with its capped texts, its staging as a file, and the queue that has the Core ingest the
  staged files one after the other. The queue is a client of the Core client: it relies on
  \<open>whenIdle\<close> and \<open>request\<close> keeping the promises they hand out.
\<close>

section \<open>The record\<close>

definition EVIDENCE_OUTPUT_CAP_BYTES :: nat where
  "EVIDENCE_OUTPUT_CAP_BYTES = 256 * 1024"

definition RESULT_SUMMARY_CAP_CHARS :: nat where
  "RESULT_SUMMARY_CAP_CHARS = 1200"

definition RESULT_OUTPUT_CAP_BYTES :: nat where
  "RESULT_OUTPUT_CAP_BYTES = 64 * 1024"

datatype content_item = TextItem utext | ImageItem

record tool_result =
  te_tool :: tool
  te_isError :: bool
  te_content :: "content_item list"
  te_input :: json
  te_fullOutputPath :: "string option"

datatype evidence_status = Completed | Failed | Cancelled

record evidence_output =
  eo_label :: string
  eo_content :: utext

record evidence =
  ev_tool :: tool
  ev_status :: evidence_status
  ev_summary :: utext
  ev_input :: json
  ev_error :: "utext option"
  ev_outputs :: "evidence_output list"

text \<open>The white space of \<open>String.prototype.trim\<close>.\<close>

definition js_white :: "nat \<Rightarrow> bool" where
  "js_white c = ((9 \<le> c \<and> c \<le> 13) \<or> c = 32 \<or> c = 0xA0 \<or> c = 0x1680 \<or> (0x2000 \<le> c \<and> c \<le> 0x200A) \<or>
     c = 0x2028 \<or> c = 0x2029 \<or> c = 0x202F \<or> c = 0x205F \<or> c = 0x3000 \<or> c = 0xFEFF)"

definition trim_text :: "utext \<Rightarrow> utext" where
  "trim_text s = rev (dropWhile js_white (rev (dropWhile js_white s)))"

text \<open>\<open>split(/\r?\n/)[0]\<close>.\<close>

definition first_line :: "utext \<Rightarrow> utext" where
  "first_line s =
     (let l = takeWhile (\<lambda>c. c \<noteq> newline) s
      in if newline \<in> set s \<and> l \<noteq> [] \<and> last l = 13 then butlast l else l)"

text \<open>The text \<open>COPY\<close> shows when there is no error text is a parameter; the cut counts characters.\<close>

fun first_text :: "content_item list \<Rightarrow> utext option" where
  "first_text [] = None"
| "first_text (TextItem t # items) = (if t \<noteq> [] then Some t else first_text items)"
| "first_text (ImageItem # items) = first_text items"

definition firstErrorLine :: "utext \<Rightarrow> tool_result \<Rightarrow> utext" where
  "firstErrorLine no_reason event =
     (case first_text (te_content event) of
        Some t \<Rightarrow> take 300 (first_line (trim_text t))
      | None \<Rightarrow> no_reason)"

definition resultText :: "tool_result \<Rightarrow> utext" where
  "resultText event =
     join_with [newline] (List.map_filter (\<lambda>item. case item of TextItem t \<Rightarrow> Some t | ImageItem \<Rightarrow> None) (te_content event))"

definition capText :: "utext \<Rightarrow> nat \<Rightarrow> utext" where
  "capText value bytes =
     (let buf = encode value in if length buf \<le> bytes then value else decode (take bytes buf))"

text \<open>\<open>files\<close> is the disk: \<open>None\<close> where \<open>existsSync\<close> is false.\<close>

definition capFile :: "(string \<Rightarrow> buffer option) \<Rightarrow> string \<Rightarrow> nat \<Rightarrow> utext option" where
  "capFile files path bytes = map_option (\<lambda>buf. capText (decode buf) bytes) (files path)"

definition bashEvidenceOutputs :: "(string \<Rightarrow> buffer option) \<Rightarrow> tool_result \<Rightarrow> evidence_output list" where
  "bashEvidenceOutputs files event =
     (let result = capText (resultText event) RESULT_OUTPUT_CAP_BYTES
      in (if result \<noteq> [] then [\<lparr>eo_label = ''result'', eo_content = result\<rparr>] else [])
         @ (case truthy_str (te_fullOutputPath event) of
              None \<Rightarrow> []
            | Some path \<Rightarrow>
                (case capFile files path EVIDENCE_OUTPUT_CAP_BYTES of
                   None \<Rightarrow> []
                 | Some full \<Rightarrow> [\<lparr>eo_label = ''full-output'', eo_content = full\<rparr>])))"

definition buildEvidenceFromResult ::
  "utext \<Rightarrow> (string \<Rightarrow> buffer option) \<Rightarrow> tool_result \<Rightarrow> evidence_status \<Rightarrow> evidence" where
  "buildEvidenceFromResult no_reason files event status =
     \<lparr>ev_tool = te_tool event, ev_status = status,
      ev_summary = capText (if te_isError event then firstErrorLine no_reason event else resultText event) RESULT_SUMMARY_CAP_CHARS,
      ev_input = te_input event,
      ev_error = (if te_isError event then Some (firstErrorLine no_reason event) else None),
      ev_outputs = (if te_tool event = Bash then bashEvidenceOutputs files event else [])\<rparr>"

section \<open>The queue\<close>

text \<open>
  Where the ingestion of a staged file stands: before \<open>whenIdle\<close>, waiting for it, before \<open>request\<close>,
  waiting for its answer.
\<close>

datatype phase = AtStart | Waiting nat | Ready | Requested nat

record job =
  jb_file :: string
  jb_session :: string
  jb_phase :: phase

text \<open>
  \<open>it_queue\<close> is the chain of promises of \<open>ingestTails\<close> for the client: its head runs, the others wait
  for it. \<open>it_done\<close> are the outcomes, \<open>None\<close> one that was given up with a warning; \<open>it_staged\<close> the
  staging directory. The promises of the queue are the even numbers, those of everyone else the odd ones.
\<close>

record intake =
  it_client :: core_client
  it_queue :: "job list"
  it_done :: "(string \<times> json option option) list"
  it_staged :: "((string \<times> string) \<times> evidence) list"
  it_next :: nat

definition start_intake :: "core_client \<Rightarrow> intake" where
  "start_intake c = \<lparr>it_client = c, it_queue = [], it_done = [], it_staged = [], it_next = 0\<rparr>"

text \<open>\<open>stageEvidence\<close>: \<open>disk_ok\<close> tells whether the directory and the file could be written.\<close>

definition stageEvidence :: "bool \<Rightarrow> string \<Rightarrow> string \<Rightarrow> evidence \<Rightarrow> intake \<Rightarrow> intake \<times> string option" where
  "stageEvidence disk_ok uuid session ev it =
     (if disk_ok then
        (let filename = ''ev-'' @ uuid @ ''.json''
         in (it\<lparr>it_staged := ((session, filename), ev) # it_staged it\<rparr>, Some filename))
      else (it, None))"

definition enqueueIngest :: "string \<Rightarrow> string \<Rightarrow> intake \<Rightarrow> intake" where
  "enqueueIngest filename session it =
     it\<lparr>it_queue := it_queue it @ [\<lparr>jb_file = filename, jb_session = session, jb_phase = AtStart\<rparr>]\<rparr>"

definition submitEvidence :: "bool \<Rightarrow> string \<Rightarrow> string \<Rightarrow> evidence \<Rightarrow> intake \<Rightarrow> intake" where
  "submitEvidence disk_ok uuid session ev it =
     (case stageEvidence disk_ok uuid session ev it of
        (it', Some filename) \<Rightarrow> enqueueIngest filename session it'
      | (it', None) \<Rightarrow> it')"

definition isCoreBusy :: "core_error \<Rightarrow> bool" where
  "isCoreBusy err = (ce_code err = JStr ''core_busy'')"

definition set_phase :: "phase \<Rightarrow> intake \<Rightarrow> intake" where
  "set_phase ph it =
     it\<lparr>it_queue := (case it_queue it of [] \<Rightarrow> [] | j # js \<Rightarrow> j\<lparr>jb_phase := ph\<rparr> # js)\<rparr>"

definition finish_job :: "json option option \<Rightarrow> intake \<Rightarrow> intake" where
  "finish_job outcome it =
     it\<lparr>it_done := it_done it @ map (\<lambda>j. (jb_file j, outcome)) (take 1 (it_queue it)), it_queue := tl (it_queue it)\<rparr>"

text \<open>What the effects of a callback of the client mean for the running ingestion.\<close>

definition settle_job :: "effect list \<Rightarrow> intake \<Rightarrow> intake" where
  "settle_job fx it =
     (case it_queue it of
        [] \<Rightarrow> it
      | j # js \<Rightarrow>
          (case jb_phase j of
             Waiting w \<Rightarrow> if Woken w \<in> set fx then set_phase Ready it else it
           | Requested n \<Rightarrow>
               (case find (\<lambda>f. call_answers f = [n]) fx of
                  Some (Resolved _ receipt) \<Rightarrow> finish_job (Some receipt) it
                | Some (Rejected _ err) \<Rightarrow> if isCoreBusy err then set_phase AtStart it else finish_job None it
                | _ \<Rightarrow> it)
           | _ \<Rightarrow> it))"

text \<open>The next piece of \<open>ingestStagedEvidence\<close>, up to its next \<open>await\<close>; \<open>rid\<close> is the random id of the request.\<close>

definition resume_job :: "string \<Rightarrow> intake \<Rightarrow> intake" where
  "resume_job rid it =
     (case it_queue it of
        [] \<Rightarrow> it
      | j # js \<Rightarrow>
          (case jb_phase j of
             AtStart \<Rightarrow>
               (let (c, fx) = whenIdle (2 * it_next it) (it_client it)
                in settle_job fx (set_phase (Waiting (2 * it_next it)) (it\<lparr>it_client := c, it_next := it_next it + 1\<rparr>)))
           | Ready \<Rightarrow>
               (let (c, fx) = request
                      \<lparr>cl_promise = 2 * it_next it, cl_requestId = rid, cl_session = jb_session j, cl_tool = ''ingest_evidence'',
                       cl_params = JObj [(''staging_file'', JStr (jb_file j))], cl_signal = False, cl_progress = False\<rparr>
                      (it_client it)
                in settle_job fx (set_phase (Requested (2 * it_next it)) (it\<lparr>it_client := c, it_next := it_next it + 1\<rparr>)))
           | _ \<Rightarrow> it))"

datatype intake_event =
    Submit bool string string evidence
  | IngestStaged string string
  | Resume string
  | ClientEvent event

fun intake_step :: "intake \<Rightarrow> intake_event \<Rightarrow> intake" where
  "intake_step it (Submit disk_ok uuid session ev) = submitEvidence disk_ok uuid session ev it"
| "intake_step it (IngestStaged filename session) = enqueueIngest filename session it"
| "intake_step it (Resume rid) = resume_job rid it"
| "intake_step it (ClientEvent e) =
     (let (c, fx) = core_step (it_client it) e in settle_job fx (it\<lparr>it_client := c\<rparr>))"

definition intake_run :: "intake \<Rightarrow> intake_event list \<Rightarrow> intake" where
  "intake_run = foldl intake_step"

text \<open>The files handed to the queue by an event.\<close>

fun submitted :: "intake_event \<Rightarrow> string list" where
  "submitted (Submit disk_ok uuid session ev) = (if disk_ok then [''ev-'' @ uuid @ ''.json''] else [])"
| "submitted (IngestStaged filename session) = [filename]"
| "submitted _ = []"

text \<open>An event of someone else uses only promises of its own.\<close>

fun others_promise :: "intake_event \<Rightarrow> bool" where
  "others_promise (ClientEvent e) = (list_all odd (call_opens e) \<and> list_all odd (wait_opens e))"
| "others_promise _ = True"

end
