(* ===== verification/Evidence_Properties.thy ===== *)
theory Evidence_Properties
  imports Evidence_Intake
begin

text \<open>
  The properties of evidence capture: how much of a text a cap keeps, the order in which staged files
  are ingested, and that the queue never waits for something that cannot happen. The last one rests on
  the contracts of the Core client.
\<close>

section \<open>Caps\<close>

lemma prefix_two: "2 \<le> a \<Longrightarrow> a < 32 \<Longrightarrow> snd (dec_bytes Start [0xC0 + a]) = []"
  by simp

lemma prefix_three:
  "b < 64 \<Longrightarrow> a < 16 \<Longrightarrow> (a = 0 \<longrightarrow> 32 \<le> b) \<Longrightarrow> (a = 13 \<longrightarrow> b < 32) \<Longrightarrow>
     snd (dec_bytes Start [0xE0 + a]) = [] \<and> snd (dec_bytes Start [0xE0 + a, 0x80 + b]) = []"
  by (auto simp: Let_def)

lemma prefix_four:
  "a < 64 \<Longrightarrow> b < 64 \<Longrightarrow> e \<le> 4 \<Longrightarrow> (e = 0 \<longrightarrow> 16 \<le> a) \<Longrightarrow> (e = 4 \<longrightarrow> a < 16) \<Longrightarrow>
     snd (dec_bytes Start [0xF0 + e]) = [] \<and> snd (dec_bytes Start [0xF0 + e, 0x80 + a]) = [] \<and>
     snd (dec_bytes Start [0xF0 + e, 0x80 + a, 0x80 + b]) = []"
  by (auto simp: Let_def)

lemma dec_prefix:
  assumes c: "scalar c" and k: "k < length (enc c)"
  shows "snd (dec_bytes Start (take k (enc c))) = []"
proof -
  consider "c < 0x80" | "0x80 \<le> c" "c < 0x800" | "0x800 \<le> c" "c < 0x10000" | "0x10000 \<le> c" "c \<le> 0x10FFFF"
    using c by (force simp: scalar_def)
  then show ?thesis
  proof cases
    case 1
    then show ?thesis using k by (simp add: enc_def)
  next
    case 2
    obtain a b where d: "c = 64 * a + b" "b < 64" "c div 64 = a" "c mod 64 = b" using base64_two [of c] by blast
    then have e: "enc c = [0xC0 + a, 0x80 + b]" using 2 by (simp add: enc_def)
    have "2 \<le> a" "a < 32" using 2 d(1,2) by linarith+
    moreover have "k = 0 \<or> k = 1" using k e by auto
    ultimately show ?thesis unfolding e using prefix_two [of a] by auto
  next
    case 3
    obtain a b d where d: "c = 4096 * a + 64 * b + d" "b < 64" "d < 64" "c div 4096 = a" "c div 64 mod 64 = b" "c mod 64 = d"
      using base64_three [of c] by blast
    then have e: "enc c = [0xE0 + a, 0x80 + b, 0x80 + d]" using 3 by (simp add: enc_def)
    have "a < 16" "a = 0 \<longrightarrow> 32 \<le> b" using 3 d(1-3) by linarith+
    moreover have "a = 13 \<longrightarrow> b < 32" using c d(1-3) by (simp only: scalar_def) linarith
    ultimately have p: "snd (dec_bytes Start [0xE0 + a]) = [] \<and> snd (dec_bytes Start [0xE0 + a, 0x80 + b]) = []"
      by (rule prefix_three [OF d(2)])
    have "k = 0 \<or> k = 1 \<or> k = 2" using k e by auto
    then have "take k (enc c) \<in> {[], [0xE0 + a], [0xE0 + a, 0x80 + b]}" unfolding e by auto
    then show ?thesis using p
      by (elim insertE emptyE) (simp_all del: dec_bytes.simps dec_byte.simps add: dec_bytes.simps(1))
  next
    case 4
    obtain e a b d where d: "c = 262144 * e + 4096 * a + 64 * b + d" "a < 64" "b < 64" "d < 64"
        "c div 262144 = e" "c div 4096 mod 64 = a" "c div 64 mod 64 = b" "c mod 64 = d"
      using base64_four [of c] by blast
    then have en: "enc c = [0xF0 + e, 0x80 + a, 0x80 + b, 0x80 + d]" using 4 by (simp add: enc_def)
    have "e \<le> 4" "e = 0 \<longrightarrow> 16 \<le> a" "e = 4 \<longrightarrow> a < 16" using 4 d(1-4) by linarith+
    then have p: "snd (dec_bytes Start [0xF0 + e]) = [] \<and> snd (dec_bytes Start [0xF0 + e, 0x80 + a]) = [] \<and>
        snd (dec_bytes Start [0xF0 + e, 0x80 + a, 0x80 + b]) = []"
      by (rule prefix_four [OF d(2,3)])
    have "k = 0 \<or> k = 1 \<or> k = 2 \<or> k = 3" using k en by auto
    then have "take k (enc c) \<in> {[], [0xF0 + e], [0xF0 + e, 0x80 + a], [0xF0 + e, 0x80 + a, 0x80 + b]}" unfolding en by auto
    then show ?thesis using p
      by (elim insertE emptyE) (simp_all del: dec_bytes.simps dec_byte.simps add: dec_bytes.simps(1))
  qed
qed

lemma dec_take:
  "list_all scalar s \<Longrightarrow> dec_bytes Start (take n (encode s)) = (d, t) \<Longrightarrow>
     prefix t s \<and> byteLength t \<le> n \<and> (t = s \<or> n < byteLength t + 4)"
proof (induction s arbitrary: n d t)
  case Nil
  then show ?case by simp
next
  case (Cons c s)
  then have c: "scalar c" and s: "list_all scalar s" by simp_all
  show ?case
  proof (cases "length (enc c) \<le> n")
    case True
    obtain d1 t1 where r: "dec_bytes Start (take (n - length (enc c)) (encode s)) = (d1, t1)" by (meson surj_pair)
    have "take n (encode (c # s)) = enc c @ take (n - length (enc c)) (encode s)" using True by simp
    then have "t = c # t1" using Cons.prems(2) r dec_enc [OF c] by (simp add: dec_bytes_append)
    with Cons.IH [OF s r] True show ?thesis by auto
  next
    case False
    then have "take n (encode (c # s)) = take n (enc c)" by simp
    then have "t = []" using dec_prefix [OF c, of n] False Cons.prems(2) by simp
    moreover have "n < 4" using False enc_le4 [of c] by linarith
    ultimately show ?thesis by simp
  qed
qed

text \<open>
  A capped text is a prefix of the text within the cap, at most three bytes short of it, with one
  U+FFFD behind it when the cap falls inside a character; so it may exceed its cap by up to three bytes.
\<close>

theorem cap_keeps_prefix:
  assumes "list_all scalar s"
  shows "\<exists>p. prefix p s \<and> byteLength p \<le> n \<and> (capText s n = p \<or> capText s n = p @ [replacement]) \<and>
     byteLength (capText s n) \<le> n + 3 \<and> (p = s \<or> n < byteLength p + 4)"
proof (cases "byteLength s \<le> n")
  case True
  then show ?thesis by (intro exI [of _ s]) (simp add: capText_def byteLength_def)
next
  case False
  obtain d t where t: "dec_bytes Start (take n (encode s)) = (d, t)" by (meson surj_pair)
  have e: "capText s n = t @ dec_end d" using False t by (simp add: capText_def decode_def byteLength_def)
  have "byteLength [replacement] = 3" by (simp add: replacement_def enc_def)
  then have "capText s n = t \<or> capText s n = t @ [replacement]" "byteLength (capText s n) \<le> byteLength t + 3"
    unfolding e by (cases d; simp add: dec_end_def)+
  then show ?thesis using dec_take [OF assms t] by (intro exI [of _ t]) auto
qed

theorem cap_keeps_prefix_witness:
  "\<exists>p. prefix p [97, 0x20AC] \<and> (capText [97, 0x20AC] 2 = p \<or> capText [97, 0x20AC] 2 = p @ [replacement])"
proof -
  have "list_all scalar [97, 0x20AC]" by (simp add: scalar_def)
  from cap_keeps_prefix [OF this, of 2] show ?thesis by blast
qed

lemma cap_may_be_exceeded: "byteLength (capText [97, 0x20AC] 2) = 4"
  by (simp add: capText_def decode_def enc_def dec_end_def replacement_def Let_def)

section \<open>The queue\<close>

lemma set_phase_simps [simp]:
  "it_done (set_phase ph it) = it_done it" "it_client (set_phase ph it) = it_client it"
  "map jb_file (it_queue (set_phase ph it)) = map jb_file (it_queue it)" "it_next (set_phase ph it) = it_next it"
  by (simp_all add: set_phase_def split: list.split)

definition outcome_files :: "intake \<Rightarrow> string list" where
  "outcome_files it = map fst (it_done it) @ map jb_file (it_queue it)"

lemma finish_job_files [simp]: "outcome_files (finish_job r it) = outcome_files it"
  by (cases "it_queue it") (simp_all add: outcome_files_def finish_job_def)

lemma set_phase_files [simp]: "outcome_files (set_phase ph it) = outcome_files it"
  by (simp add: outcome_files_def)

lemma settle_job_files [simp]: "outcome_files (settle_job fx it) = outcome_files it"
  by (auto simp: settle_job_def split: list.splits phase.splits option.splits effect.splits)

lemma client_files [simp]: "outcome_files (it\<lparr>it_client := c\<rparr>) = outcome_files it" "outcome_files (it\<lparr>it_client := c, it_next := n\<rparr>) = outcome_files it"
  by (simp_all add: outcome_files_def)

lemma resume_job_files [simp]: "outcome_files (resume_job rid it) = outcome_files it"
  by (auto simp: resume_job_def Let_def split: list.splits phase.splits prod.splits)

lemma intake_step_files: "outcome_files (intake_step it e) = outcome_files it @ submitted e"
proof (cases e)
  case (Submit disk_ok uuid session ev)
  then show ?thesis by (simp add: submitEvidence_def stageEvidence_def enqueueIngest_def outcome_files_def Let_def)
next
  case (IngestStaged filename session)
  then show ?thesis by (simp add: enqueueIngest_def outcome_files_def)
next
  case (Resume rid)
  then show ?thesis by simp
next
  case (ClientEvent e)
  then show ?thesis by (simp split: prod.split)
qed

text \<open>
  Staged files are ingested in the order in which they were handed over, whichever session or
  caller they come from and whatever else happens: the files with an outcome, followed by those in the
  queue, are exactly the files handed over, none lost and none twice.
\<close>

theorem intake_is_first_in_first_out:
  "map fst (it_done (intake_run (start_intake c) es)) @ map jb_file (it_queue (intake_run (start_intake c) es))
     = concat (map submitted es)"
proof -
  have "outcome_files (intake_run (start_intake c) es) = concat (map submitted es)"
    by (induction es rule: rev_induct)
       (simp_all add: intake_run_def intake_step_files, simp add: outcome_files_def start_intake_def)
  then show ?thesis by (simp add: outcome_files_def)
qed

text \<open>What the running ingestion waits for is held by the client.\<close>

definition head_ok :: "core_client \<Rightarrow> phase \<Rightarrow> bool" where
  "head_ok c ph =
     (case ph of
        Waiting w \<Rightarrow> w \<in> set (cc_idleWaiters c)
      | Requested n \<Rightarrow> call_held c = [n]
      | _ \<Rightarrow> True)"

definition intake_inv :: "intake \<Rightarrow> bool" where
  "intake_inv it \<longleftrightarrow>
     core_inv (it_client it) \<and> list_all (\<lambda>j. jb_phase j = AtStart) (tl (it_queue it)) \<and>
     (it_queue it \<noteq> [] \<longrightarrow> head_ok (it_client it) (jb_phase (hd (it_queue it))))"

lemma answer_found:
  assumes "n \<in># tickets call_answers fx"
  shows "\<exists>f. find (\<lambda>f. call_answers f = [n]) fx = Some f \<and> ((\<exists>d. f = Resolved n d) \<or> (\<exists>err. f = Rejected n err))"
proof -
  have a: "n \<in> set (call_answers f) \<Longrightarrow> call_answers f = [n]" for f by (cases f) auto
  from assms obtain f where "f \<in> set fx" "n \<in> set (call_answers f)" by (auto simp: in_tickets)
  then obtain f' where f': "find (\<lambda>f. call_answers f = [n]) fx = Some f'"
    using a by (cases "find (\<lambda>f. call_answers f = [n]) fx") (auto simp: find_None_iff)
  then have "call_answers f' = [n]" by (auto simp: find_Some_iff)
  with f' show ?thesis by (cases f') auto
qed

lemma woken_found: "w \<in># tickets wait_answers fx \<Longrightarrow> Woken w \<in> set fx"
proof -
  assume "w \<in># tickets wait_answers fx"
  then obtain f where f: "f \<in> set fx" "w \<in> set (wait_answers f)" by (auto simp: in_tickets)
  have "f = Woken w" using f(2) by (cases f) auto
  with f(1) show ?thesis by simp
qed

lemma finish_job_inv:
  "core_inv (it_client it) \<Longrightarrow> list_all (\<lambda>j. jb_phase j = AtStart) (tl (it_queue it)) \<Longrightarrow> intake_inv (finish_job r it)"
  by (cases "it_queue it"; cases "tl (it_queue it)") (auto simp: intake_inv_def finish_job_def head_ok_def)

lemma set_phase_inv:
  "core_inv (it_client it) \<Longrightarrow> list_all (\<lambda>j. jb_phase j = AtStart) (tl (it_queue it)) \<Longrightarrow> head_ok (it_client it) ph \<Longrightarrow>
     intake_inv (set_phase ph it)"
  by (cases "it_queue it") (auto simp: intake_inv_def set_phase_def)

lemma settle_job_inv:
  assumes inv: "core_inv c" and later: "list_all (\<lambda>j. jb_phase j = AtStart) (tl (it_queue it))" and cl: "it_client it = c"
    and w: "\<And>w. it_queue it \<noteq> [] \<Longrightarrow> jb_phase (hd (it_queue it)) = Waiting w \<Longrightarrow> w \<in> set (cc_idleWaiters c) \<or> w \<in># tickets wait_answers fx"
    and n: "\<And>n. it_queue it \<noteq> [] \<Longrightarrow> jb_phase (hd (it_queue it)) = Requested n \<Longrightarrow> call_held c = [n] \<or> n \<in># tickets call_answers fx"
  shows "intake_inv (settle_job fx it)"
proof (cases "it_queue it")
  case Nil
  then show ?thesis using inv cl by (simp add: settle_job_def intake_inv_def)
next
  case (Cons j js)
  show ?thesis
  proof (cases "jb_phase j")
    case (Waiting w)
    show ?thesis
    proof (cases "Woken w \<in> set fx")
      case True
      then have "settle_job fx it = set_phase Ready it" using Cons Waiting by (simp add: settle_job_def)
      then show ?thesis using set_phase_inv [of it Ready] inv later cl by (simp add: head_ok_def)
    next
      case False
      then have "settle_job fx it = it" using Cons Waiting by (simp add: settle_job_def)
      moreover have "w \<in> set (cc_idleWaiters c)" using assms(4) [of w] woken_found [of w fx] Cons Waiting False by auto
      ultimately show ?thesis using Cons Waiting inv later cl by (simp add: intake_inv_def head_ok_def)
    qed
  next
    case (Requested k)
    show ?thesis
    proof (cases "k \<in># tickets call_answers fx")
      case True
      with answer_found [OF this] show ?thesis using Cons Requested inv later cl finish_job_inv [of it] set_phase_inv [of it AtStart]
        by (auto simp: settle_job_def head_ok_def)
    next
      case False
      then have "find (\<lambda>f. call_answers f = [k]) fx = None" by (auto simp: find_None_iff in_tickets)
      then show ?thesis using Cons Requested inv later cl n [of k] False by (simp add: settle_job_def intake_inv_def head_ok_def)
    qed
  qed (use Cons inv later cl in \<open>simp_all add: settle_job_def intake_inv_def head_ok_def\<close>)
qed

lemma submitEvidence_eq:
  "submitEvidence disk_ok uuid session ev it =
     (if disk_ok then enqueueIngest (''ev-'' @ uuid @ ''.json'') session
                        (it\<lparr>it_staged := ((session, ''ev-'' @ uuid @ ''.json''), ev) # it_staged it\<rparr>)
      else it)"
  by (simp add: submitEvidence_def stageEvidence_def Let_def)

lemma enqueueIngest_inv: "intake_inv it \<Longrightarrow> intake_inv (enqueueIngest filename session it)"
  by (cases "it_queue it") (auto simp: enqueueIngest_def intake_inv_def head_ok_def)

lemma staged_inv: "intake_inv (it\<lparr>it_staged := xs\<rparr>) = intake_inv it"
  by (simp add: intake_inv_def)

lemma intake_inv_step:
  assumes inv: "intake_inv it"
  shows "intake_inv (intake_step it e)"
proof (cases e)
  case (Submit disk_ok uuid session ev)
  then show ?thesis using inv by (simp add: submitEvidence_eq enqueueIngest_inv staged_inv)
next
  case (IngestStaged filename session)
  then show ?thesis using inv by (simp add: enqueueIngest_inv)
next
  case (ClientEvent ce)
  obtain c fx where s: "core_step (it_client it) ce = (c, fx)" by (meson surj_pair)
  have ci: "core_inv (it_client it)" using inv by (simp add: intake_inv_def)
  have "intake_inv (settle_job fx (it\<lparr>it_client := c\<rparr>))"
  proof (rule settle_job_inv)
    show "core_inv c" by (rule core_inv_step [OF ci s])
    show "w \<in> set (cc_idleWaiters c) \<or> w \<in># tickets wait_answers fx"
      if "it_queue (it\<lparr>it_client := c\<rparr>) \<noteq> []" "jb_phase (hd (it_queue (it\<lparr>it_client := c\<rparr>))) = Waiting w" for w
    proof -
      have "w \<in># mset (cc_idleWaiters (it_client it)) + mset (wait_opens ce)" using inv that by (auto simp: intake_inv_def head_ok_def)
      then have "w \<in># mset (cc_idleWaiters c) + tickets wait_answers fx" unfolding waiters.conserve [OF ci s] .
      then show ?thesis by simp
    qed
    show "call_held c = [n] \<or> n \<in># tickets call_answers fx"
      if "it_queue (it\<lparr>it_client := c\<rparr>) \<noteq> []" "jb_phase (hd (it_queue (it\<lparr>it_client := c\<rparr>))) = Requested n" for n
    proof -
      have "n \<in># mset (call_held (it_client it)) + mset (call_opens ce)" using inv that by (auto simp: intake_inv_def head_ok_def)
      then have "n \<in># mset (call_held c) + tickets call_answers fx" unfolding calls.conserve [OF ci s] .
      then show ?thesis using calls.held_unique [OF core_inv_step [OF ci s], of n] by auto
    qed
  qed (use inv in \<open>simp_all add: intake_inv_def\<close>)
  then show ?thesis using ClientEvent s by simp
next
  case (Resume rid)
  show ?thesis
  proof (cases "it_queue it")
    case Nil
    then show ?thesis using Resume inv by (simp add: resume_job_def)
  next
    case (Cons j js)
    have ci: "core_inv (it_client it)" and later: "list_all (\<lambda>j. jb_phase j = AtStart) js"
      using inv Cons by (auto simp: intake_inv_def)
    show ?thesis
    proof (cases "jb_phase j")
      case AtStart
      obtain c fx where s: "whenIdle (2 * it_next it) (it_client it) = (c, fx)" by (meson surj_pair)
      have ci': "core_inv c" using core_inv_step [OF ci, of "WhenIdle (2 * it_next it)"] s by simp
      have "intake_inv (settle_job fx (set_phase (Waiting (2 * it_next it)) (it\<lparr>it_client := c, it_next := it_next it + 1\<rparr>)))"
        by (rule settle_job_inv [OF ci']) (use Cons later s in \<open>auto simp: set_phase_def whenIdle_def split: if_splits\<close>)
      then show ?thesis using Resume Cons AtStart s by (simp add: resume_job_def)
    next
      case Ready
      let ?call = "\<lparr>cl_promise = 2 * it_next it, cl_requestId = rid, cl_session = jb_session j, cl_tool = ''ingest_evidence'',
                       cl_params = JObj [(''staging_file'', JStr (jb_file j))], cl_signal = False, cl_progress = False\<rparr>"
      obtain c fx where s: "request ?call (it_client it) = (c, fx)" by (meson surj_pair)
      have ci': "core_inv c" using core_inv_step [OF ci, of "Request ?call"] s by simp
      have "intake_inv (settle_job fx (set_phase (Requested (2 * it_next it)) (it\<lparr>it_client := c, it_next := it_next it + 1\<rparr>)))"
        by (rule settle_job_inv [OF ci'])
           (use Cons later s in \<open>auto simp: set_phase_def request_def call_held_def Let_def split: if_splits\<close>)
      then show ?thesis using Resume Cons Ready s by (simp add: resume_job_def)
    qed (use Resume Cons inv in \<open>simp_all add: resume_job_def\<close>)
  qed
qed

lemma intake_inv_run: "intake_inv it \<Longrightarrow> intake_inv (intake_run it es)"
  by (induction es rule: rev_induct) (simp_all add: intake_run_def intake_inv_step)

lemma start_intake_inv: "intake_inv (start_intake (start_client b))"
  by (simp add: intake_inv_def start_intake_def)

text \<open>Two turns of the running ingestion when nothing is in flight.\<close>

lemma resume_ready_idle:
  assumes "it_queue it = j # js" and "jb_phase j = Ready" and "cc_pending (it_client it) = None" and "\<not> cc_dead (it_client it)"
  shows "\<exists>n. it_queue (resume_job rid it) = j\<lparr>jb_phase := Requested n\<rparr> # js \<and> call_held (it_client (resume_job rid it)) = [n]"
  using assms by (simp add: resume_job_def request_def Let_def settle_job_def set_phase_def call_held_def sendLine_def)

lemma resume_start_idle:
  assumes "it_queue it = j # js" and "jb_phase j = AtStart" and "cc_pending (it_client it) = None \<or> cc_dead (it_client it)"
  shows "it_queue (resume_job rid it) = j\<lparr>jb_phase := Ready\<rparr> # js \<and> it_client (resume_job rid it) = it_client it \<and>
     it_done (resume_job rid it) = it_done it"
  using assms by (auto simp: resume_job_def whenIdle_def Let_def settle_job_def set_phase_def)

lemma resume_ready_dead:
  assumes "it_queue it = j # js" and "jb_phase j = Ready" and "cc_dead (it_client it)"
  shows "it_queue (resume_job rid it) = js \<and> it_done (resume_job rid it) = it_done it @ [(jb_file j, None)] \<and>
     it_client (resume_job rid it) = it_client it"
  using assms
  by (simp add: resume_job_def request_def Let_def settle_job_def set_phase_def finish_job_def isCoreBusy_def core_error_def
      CORE_UNAVAILABLE_def)

text \<open>
  The queue is never stuck. In every reachable state the ingestion at its head either can go on, or
  waits for a waiter or a request that the client still holds; once the client is idle, two turns put
  its request in flight, and once the client is dead, two turns give it up with its file kept, and the
  next one's turn comes.
\<close>

theorem intake_never_stuck:
  assumes "it = intake_run (start_intake (start_client b)) es" and "it_queue it = j # js"
  shows "(case jb_phase j of
            Waiting w \<Rightarrow> w \<in> set (cc_idleWaiters (it_client it)) \<and> cc_pending (it_client it) \<noteq> None
          | Requested n \<Rightarrow> call_held (it_client it) = [n]
          | _ \<Rightarrow> True) \<and>
     (cc_pending (it_client it) = None \<longrightarrow> \<not> cc_dead (it_client it) \<longrightarrow>
        (\<exists>n it'. it' = resume_job r2 (resume_job r1 it) \<and> it_queue it' = j\<lparr>jb_phase := Requested n\<rparr> # js \<and>
                 call_held (it_client it') = [n])) \<and>
     (cc_dead (it_client it) \<longrightarrow>
        it_done (resume_job r2 (resume_job r1 it)) = it_done it @ [(jb_file j, None)] \<and>
        map jb_file (it_queue (resume_job r2 (resume_job r1 it))) = map jb_file js)"
proof -
  have inv: "intake_inv it" unfolding assms(1) by (rule intake_inv_run [OF start_intake_inv])
  have ci: "core_inv (it_client it)" and h: "head_ok (it_client it) (jb_phase j)"
    and later: "list_all (\<lambda>j. jb_phase j = AtStart) js"
    using inv assms(2) by (auto simp: intake_inv_def)
  have idle: "cc_pending (it_client it) = None \<Longrightarrow> cc_idleWaiters (it_client it) = []"
    and dead: "cc_dead (it_client it) \<Longrightarrow> cc_pending (it_client it) = None"
    using ci by (auto simp: core_inv_def)
  have ph: "jb_phase j = AtStart \<or> jb_phase j = Ready" if "cc_pending (it_client it) = None"
    using h that idle by (cases "jb_phase j") (auto simp: head_ok_def call_held_def)
  have go: "\<exists>n it'. it' = resume_job r2 (resume_job r1 it) \<and> it_queue it' = j\<lparr>jb_phase := Requested n\<rparr> # js \<and>
      call_held (it_client it') = [n]" if c: "cc_pending (it_client it) = None" "\<not> cc_dead (it_client it)"
  proof (cases "jb_phase j = Ready")
    case True
    obtain n where n: "it_queue (resume_job r1 it) = j\<lparr>jb_phase := Requested n\<rparr> # js" "call_held (it_client (resume_job r1 it)) = [n]"
      using resume_ready_idle [OF assms(2) True c] by blast
    moreover have "resume_job r2 (resume_job r1 it) = resume_job r1 it" using n by (simp add: resume_job_def)
    ultimately show ?thesis by metis
  next
    case False
    then have "jb_phase j = AtStart" using ph [OF c(1)] by simp
    note r1 = resume_start_idle [OF assms(2) this, of r1]
    with c have "\<exists>n. it_queue (resume_job r2 (resume_job r1 it)) = j\<lparr>jb_phase := Ready, jb_phase := Requested n\<rparr> # js \<and>
        call_held (it_client (resume_job r2 (resume_job r1 it))) = [n]"
      by (intro resume_ready_idle) auto
    then show ?thesis by simp
  qed
  have gone: "it_done (resume_job r2 (resume_job r1 it)) = it_done it @ [(jb_file j, None)] \<and>
        map jb_file (it_queue (resume_job r2 (resume_job r1 it))) = map jb_file js" if d: "cc_dead (it_client it)"
  proof (cases "jb_phase j = Ready")
    case True
    note r1 = resume_ready_dead [OF assms(2) True d, of r1]
    show ?thesis
    proof (cases js)
      case Nil
      then show ?thesis using r1 by (simp add: resume_job_def [of r2])
    next
      case (Cons k ks)
      then have "jb_phase k = AtStart" using later by simp
      from resume_start_idle [of "resume_job r1 it", OF _ this, of ks r2] r1 Cons d show ?thesis by auto
    qed
  next
    case False
    then have "jb_phase j = AtStart" using ph [OF dead [OF d]] by simp
    note r1 = resume_start_idle [OF assms(2) this, of r1]
    have "it_queue (resume_job r2 (resume_job r1 it)) = js \<and>
        it_done (resume_job r2 (resume_job r1 it)) = it_done (resume_job r1 it) @ [(jb_file (j\<lparr>jb_phase := Ready\<rparr>), None)] \<and>
        it_client (resume_job r2 (resume_job r1 it)) = it_client (resume_job r1 it)"
      by (rule resume_ready_dead) (use r1 d in auto)
    then show ?thesis using r1 d by simp
  qed
  have "case jb_phase j of
            Waiting w \<Rightarrow> w \<in> set (cc_idleWaiters (it_client it)) \<and> cc_pending (it_client it) \<noteq> None
          | Requested n \<Rightarrow> call_held (it_client it) = [n]
          | _ \<Rightarrow> True"
    using h idle by (cases "jb_phase j"; cases "cc_pending (it_client it)") (auto simp: head_ok_def)
  with go gone show ?thesis by blast
qed

theorem intake_never_stuck_witness:
  "it_done (resume_job ''b'' (resume_job ''a'' (intake_run (start_intake (start_client True))
     [IngestStaged ''f'' ''s'', IngestStaged ''g'' ''s'', ClientEvent ChildExit]))) = [(''f'', None)]"
proof -
  let ?it = "intake_run (start_intake (start_client True)) [IngestStaged ''f'' ''s'', IngestStaged ''g'' ''s'', ClientEvent ChildExit]"
  have it: "it_queue ?it = \<lparr>jb_file = ''f'', jb_session = ''s'', jb_phase = AtStart\<rparr> #
      [\<lparr>jb_file = ''g'', jb_session = ''s'', jb_phase = AtStart\<rparr>]" "cc_dead (it_client ?it)" "it_done ?it = []"
    by (simp_all add: intake_run_def start_intake_def enqueueIngest_def start_client_def childExit_def onExit_def failPending_def
        flushIdle_def settle_job_def Let_def)
  from intake_never_stuck [OF refl it(1), of "''b''" "''a''"] it(2,3) show ?thesis by simp
qed

end
