(* ===== verification/Text_Edit.thy ===== *)
theory Text_Edit
  imports Prelude "HOL-Library.Word" "HOL-Library.Sublist"
begin

text \<open>
  \<open>core/tools/edit-diff.ts\<close>: line endings, fuzzy matching and the application of text replacements.
  A JavaScript string is the list of its UTF-16 code units, so offsets and lengths are those of the
  code. \<open>String.prototype.normalize("NFKC")\<close> rests on the Unicode tables and is the parameter
  \<open>nfkc\<close>; the third-party \<open>diff\<close> package appears only as the list of parts it returns.
\<close>

type_synonym jstext = "16 word list"

abbreviation LF :: "16 word" where "LF \<equiv> 0x0A"
abbreviation CR :: "16 word" where "CR \<equiv> 0x0D"
abbreviation BOM :: "16 word" where "BOM \<equiv> 0xFEFF"

section \<open>Strings\<close>

text \<open>\<open>indexOf\<close> and \<open>split\<close>; splitting at the empty string gives the single units.\<close>

fun index_of :: "'a list \<Rightarrow> 'a list \<Rightarrow> nat option" where
  "index_of pat [] = (if pat = [] then Some 0 else None)"
| "index_of pat (c # cs) = (if prefix pat (c # cs) then Some 0 else map_option Suc (index_of pat cs))"

function js_split :: "'a list \<Rightarrow> 'a list \<Rightarrow> 'a list list" where
  "js_split sep t =
     (if sep = [] then map (\<lambda>c. [c]) t
      else (case index_of sep t of
              None \<Rightarrow> [t]
            | Some i \<Rightarrow> take i t # js_split sep (drop (i + length sep) t)))"
  by auto

lemma index_of_length: "index_of pat t = Some i \<Longrightarrow> i + length pat \<le> length t"
proof (induction t arbitrary: i)
  case Nil
  then show ?case by (auto split: if_splits)
next
  case (Cons c cs)
  then show ?case by (auto split: if_splits dest: prefix_length_le)
qed

termination js_split
proof (relation "measure (\<lambda>(sep, t). length t)")
  fix sep t :: "'a list" and i
  assume "sep \<noteq> []" "index_of sep t = Some i"
  moreover from this have "0 < length t" using index_of_length [of sep t i] by (cases sep) auto
  ultimately show "((sep, drop (i + length sep) t), sep, t) \<in> measure (\<lambda>(sep, t). length t)"
    by (cases sep) auto
qed simp

declare js_split.simps [simp del]

section \<open>Line endings\<close>

datatype line_ending = CrLf | Lf

definition detectLineEnding :: "jstext \<Rightarrow> line_ending" where
  "detectLineEnding content =
     (case (index_of [LF] content, index_of [CR, LF] content) of
        (None, _) \<Rightarrow> Lf
      | (_, None) \<Rightarrow> Lf
      | (Some lfIdx, Some crlfIdx) \<Rightarrow> if crlfIdx < lfIdx then CrLf else Lf)"

text \<open>\<open>replace(/\r\n/g, "\n")\<close>, then \<open>replace(/\r/g, "\n")\<close>.\<close>

fun replace_crlf :: "jstext \<Rightarrow> jstext" where
  "replace_crlf (a # b # t) =
     (if a = CR \<and> b = LF then LF # replace_crlf t else a # replace_crlf (b # t))"
| "replace_crlf t = t"

definition normalizeToLF :: "jstext \<Rightarrow> jstext" where
  "normalizeToLF t = map (\<lambda>c. if c = CR then LF else c) (replace_crlf t)"

definition restoreLineEndings :: "jstext \<Rightarrow> line_ending \<Rightarrow> jstext" where
  "restoreLineEndings t ending =
     (if ending = CrLf then concat (map (\<lambda>c. if c = LF then [CR, LF] else [c]) t) else t)"

text \<open>\<open>content.startsWith("\uFEFF")\<close>: the mark, if any, and the rest.\<close>

definition stripBom :: "jstext \<Rightarrow> jstext \<times> jstext" where
  "stripBom content = (case content of c # t \<Rightarrow> if c = BOM then ([BOM], t) else ([], content) | [] \<Rightarrow> ([], []))"

section \<open>Fuzzy matching\<close>

text \<open>The white space and line terminators that \<open>trimEnd\<close> removes.\<close>

definition js_space :: "16 word \<Rightarrow> bool" where
  "js_space c \<longleftrightarrow>
     c \<in> {0x09, 0x0A, 0x0B, 0x0C, 0x0D, 0x20, 0xA0, 0x1680, 0x2028, 0x2029, 0x202F, 0x205F, 0x3000, 0xFEFF} \<or>
     0x2000 \<le> c \<and> c \<le> 0x200A"

definition trimEnd :: "jstext \<Rightarrow> jstext" where
  "trimEnd t = rev (dropWhile js_space (rev t))"

definition ascii_quote_dash_space :: "16 word \<Rightarrow> 16 word" where
  "ascii_quote_dash_space c =
     (if 0x2018 \<le> c \<and> c \<le> 0x201B then 0x27
      else if 0x201C \<le> c \<and> c \<le> 0x201F then 0x22
      else if 0x2010 \<le> c \<and> c \<le> 0x2015 \<or> c = 0x2212 then 0x2D
      else if c = 0xA0 \<or> 0x2002 \<le> c \<and> c \<le> 0x200A \<or> c = 0x202F \<or> c = 0x205F \<or> c = 0x3000 then 0x20
      else c)"

definition normalizeForFuzzyMatch :: "(jstext \<Rightarrow> jstext) \<Rightarrow> jstext \<Rightarrow> jstext" where
  "normalizeForFuzzyMatch nfkc t =
     map ascii_quote_dash_space (join_with [LF] (map trimEnd (js_split [LF] (nfkc t))))"

record fuzzy_match =
  fm_found :: bool
  fm_index :: nat
  fm_matchLength :: nat
  fm_usedFuzzyMatch :: bool
  fm_contentForReplacement :: jstext

text \<open>The index \<open>-1\<close> of a failed match is never read; it is \<open>0\<close> here.\<close>

definition fuzzyFindText :: "(jstext \<Rightarrow> jstext) \<Rightarrow> jstext \<Rightarrow> jstext \<Rightarrow> fuzzy_match" where
  "fuzzyFindText nfkc content oldText =
     (case index_of oldText content of
        Some exactIndex \<Rightarrow>
          \<lparr>fm_found = True, fm_index = exactIndex, fm_matchLength = length oldText,
           fm_usedFuzzyMatch = False, fm_contentForReplacement = content\<rparr>
      | None \<Rightarrow>
          (let fuzzyContent = normalizeForFuzzyMatch nfkc content;
               fuzzyOldText = normalizeForFuzzyMatch nfkc oldText
           in case index_of fuzzyOldText fuzzyContent of
                None \<Rightarrow>
                  \<lparr>fm_found = False, fm_index = 0, fm_matchLength = 0,
                   fm_usedFuzzyMatch = False, fm_contentForReplacement = content\<rparr>
              | Some fuzzyIndex \<Rightarrow>
                  \<lparr>fm_found = True, fm_index = fuzzyIndex, fm_matchLength = length fuzzyOldText,
                   fm_usedFuzzyMatch = True, fm_contentForReplacement = fuzzyContent\<rparr>))"

definition countOccurrences :: "(jstext \<Rightarrow> jstext) \<Rightarrow> jstext \<Rightarrow> jstext \<Rightarrow> int" where
  "countOccurrences nfkc content oldText =
     int (length (js_split (normalizeForFuzzyMatch nfkc oldText) (normalizeForFuzzyMatch nfkc content))) - 1"

section \<open>Errors\<close>

datatype edit_error =
    OutsideBase
  | DifferentLineCount
  | TextNotFound string nat nat
  | TextDuplicated string nat nat int
  | EmptyOldText string nat nat
  | EditsOverlap nat nat string
  | NoChange string nat

fun edit_error_text :: "edit_error \<Rightarrow> string" where
  "edit_error_text OutsideBase = ''Replacement range is outside the base content.''"
| "edit_error_text DifferentLineCount =
     ''Cannot preserve unchanged lines because the base content has a different line count.''"
| "edit_error_text (TextNotFound path i n) =
     (if n = 1 then ''Could not find the exact text in '' @ path @
        ''. The old text must match exactly including all whitespace and newlines.''
      else ''Could not find edits['' @ nat_str i @ ''] in '' @ path @
        ''. The oldText must match exactly including all whitespace and newlines.'')"
| "edit_error_text (TextDuplicated path i n occurrences) =
     (if n = 1 then ''Found '' @ int_str occurrences @ '' occurrences of the text in '' @ path @
        ''. The text must be unique. Please provide more context to make it unique.''
      else ''Found '' @ int_str occurrences @ '' occurrences of edits['' @ nat_str i @ ''] in '' @ path @
        ''. Each oldText must be unique. Please provide more context to make it unique.'')"
| "edit_error_text (EmptyOldText path i n) =
     (if n = 1 then ''oldText must not be empty in '' @ path @ ''.''
      else ''edits['' @ nat_str i @ ''].oldText must not be empty in '' @ path @ ''.'')"
| "edit_error_text (EditsOverlap i j path) =
     ''edits['' @ nat_str i @ ''] and edits['' @ nat_str j @ ''] overlap in '' @ path @
       ''. Merge them into one edit or target disjoint regions.''"
| "edit_error_text (NoChange path n) =
     (if n = 1 then ''No changes made to '' @ path @ ''. The replacement produced identical content. '' @
        ''This might indicate an issue with special characters or the text not existing as expected.''
      else ''No changes made to '' @ path @ ''. The replacements produced identical content.'')"

section \<open>Replacements\<close>

lemma dropWhile_shorter: "dropWhile P xs = y # ys \<Longrightarrow> length ys < length xs"
  using length_dropWhile_le [of P xs] by simp

text \<open>\<open>content.match(/[^\n]*\n|[^\n]+/g) ?? []\<close>.\<close>

function splitLinesWithEndings :: "jstext \<Rightarrow> jstext list" where
  "splitLinesWithEndings [] = []"
| "splitLinesWithEndings (c # cs) =
     (case dropWhile (\<lambda>d. d \<noteq> LF) (c # cs) of
        [] \<Rightarrow> [c # cs]
      | n # rest \<Rightarrow> (takeWhile (\<lambda>d. d \<noteq> LF) (c # cs) @ [n]) # splitLinesWithEndings rest)"
  by pat_completeness auto

termination splitLinesWithEndings
  by (relation "measure length") (simp_all only: in_measure wf_measure dropWhile_shorter)

record line_span =
  ls_start :: nat
  ls_end :: nat

record matched_edit =
  me_editIndex :: nat
  me_matchIndex :: nat
  me_matchLength :: nat
  me_newText :: jstext

abbreviation me_end :: "matched_edit \<Rightarrow> nat" where
  "me_end r \<equiv> me_matchIndex r + me_matchLength r"

fun spans_from :: "nat \<Rightarrow> jstext list \<Rightarrow> line_span list" where
  "spans_from offset [] = []"
| "spans_from offset (line # lines) =
     \<lparr>ls_start = offset, ls_end = offset + length line\<rparr> # spans_from (offset + length line) lines"

definition getLineSpans :: "jstext \<Rightarrow> line_span list" where
  "getLineSpans content = spans_from 0 (splitLinesWithEndings content)"

definition getReplacementLineRange :: "line_span list \<Rightarrow> matched_edit \<Rightarrow> edit_error + nat \<times> nat" where
  "getReplacementLineRange lines r =
     (case find_index (\<lambda>l. ls_start l \<le> me_matchIndex r \<and> me_matchIndex r < ls_end l) lines of
        None \<Rightarrow> Inl OutsideBase
      | Some startLine \<Rightarrow>
          (case scan_up (\<lambda>i. \<not> ls_end (lines ! i) < me_end r) startLine (length lines) of
             None \<Rightarrow> Inl OutsideBase
           | Some endLine \<Rightarrow> Inr (startLine, endLine + 1)))"

text \<open>From the last replacement to the first; \<open>substring\<close> reads a negative index as zero.\<close>

definition replace_one :: "nat \<Rightarrow> matched_edit \<Rightarrow> jstext \<Rightarrow> jstext" where
  "replace_one offset r result =
     (let matchIndex = int (me_matchIndex r) - int offset in
      take (nat matchIndex) result @ me_newText r @ drop (nat (matchIndex + int (me_matchLength r))) result)"

definition applyReplacements :: "jstext \<Rightarrow> matched_edit list \<Rightarrow> nat \<Rightarrow> jstext" where
  "applyReplacements content rs offset = foldr (replace_one offset) rs content"

record line_group =
  lg_startLine :: nat
  lg_endLine :: nat
  lg_replacements :: "matched_edit list"

text \<open>The loop that joins replacements touching common lines; the newest group comes first.\<close>

fun group_replacements :: "line_span list \<Rightarrow> matched_edit list \<Rightarrow> line_group list \<Rightarrow> edit_error + line_group list" where
  "group_replacements lines [] groups = Inr (rev groups)"
| "group_replacements lines (r # rs) groups =
     (case getReplacementLineRange lines r of
        Inl e \<Rightarrow> Inl e
      | Inr (startLine, endLine) \<Rightarrow>
          (case groups of
             current # earlier \<Rightarrow>
               if startLine < lg_endLine current
               then group_replacements lines rs
                      (current\<lparr>lg_endLine := max (lg_endLine current) endLine,
                               lg_replacements := lg_replacements current @ [r]\<rparr> # earlier)
               else group_replacements lines rs
                      (\<lparr>lg_startLine = startLine, lg_endLine = endLine, lg_replacements = [r]\<rparr> # groups)
           | [] \<Rightarrow>
               group_replacements lines rs
                 [\<lparr>lg_startLine = startLine, lg_endLine = endLine, lg_replacements = [r]\<rparr>]))"

definition js_slice :: "nat \<Rightarrow> nat \<Rightarrow> 'a list \<Rightarrow> 'a list" where
  "js_slice a b xs = take (b - a) (drop a xs)"

fun render_groups :: "jstext list \<Rightarrow> jstext \<Rightarrow> line_span list \<Rightarrow> nat \<Rightarrow> line_group list \<Rightarrow> jstext" where
  "render_groups originalLines base lines i [] = concat (drop i originalLines)"
| "render_groups originalLines base lines i (g # gs) =
     (let groupStart = ls_start (lines ! lg_startLine g);
          groupEnd = ls_end (lines ! (lg_endLine g - 1))
      in concat (js_slice i (lg_startLine g) originalLines) @
         applyReplacements (js_slice groupStart groupEnd base) (lg_replacements g) groupStart @
         render_groups originalLines base lines (lg_endLine g) gs)"

definition applyReplacementsPreservingUnchangedLines ::
  "jstext \<Rightarrow> jstext \<Rightarrow> matched_edit list \<Rightarrow> edit_error + jstext" where
  "applyReplacementsPreservingUnchangedLines original base rs =
     (let originalLines = splitLinesWithEndings original;
          baseLines = getLineSpans base
      in if length originalLines \<noteq> length baseLines then Inl DifferentLineCount
         else (case group_replacements baseLines (sort_key me_matchIndex rs) [] of
                 Inl e \<Rightarrow> Inl e
               | Inr groups \<Rightarrow> Inr (render_groups originalLines base baseLines 0 groups)))"

section \<open>Edits\<close>

record edit =
  ed_oldText :: jstext
  ed_newText :: jstext

record applied_edits =
  ae_baseContent :: jstext
  ae_newContent :: jstext

definition normalize_edit :: "edit \<Rightarrow> edit" where
  "normalize_edit e = \<lparr>ed_oldText = normalizeToLF (ed_oldText e), ed_newText = normalizeToLF (ed_newText e)\<rparr>"

text \<open>The matching loop from edit \<open>i\<close> on, \<open>n\<close> edits in all.\<close>

fun match_edits ::
  "(jstext \<Rightarrow> jstext) \<Rightarrow> jstext \<Rightarrow> string \<Rightarrow> nat \<Rightarrow> nat \<Rightarrow> edit list \<Rightarrow> edit_error + matched_edit list" where
  "match_edits nfkc base path n i [] = Inr []"
| "match_edits nfkc base path n i (e # es) =
     (let m = fuzzyFindText nfkc base (ed_oldText e);
          occurrences = countOccurrences nfkc base (ed_oldText e)
      in if \<not> fm_found m then Inl (TextNotFound path i n)
         else if occurrences > 1 then Inl (TextDuplicated path i n occurrences)
         else (case match_edits nfkc base path n (i + 1) es of
                 Inl err \<Rightarrow> Inl err
               | Inr ms \<Rightarrow>
                   Inr (\<lparr>me_editIndex = i, me_matchIndex = fm_index m, me_matchLength = fm_matchLength m,
                         me_newText = ed_newText e\<rparr> # ms)))"

fun overlap :: "string \<Rightarrow> matched_edit list \<Rightarrow> edit_error option" where
  "overlap path (previous # current # ms) =
     (if me_end previous > me_matchIndex current
      then Some (EditsOverlap (me_editIndex previous) (me_editIndex current) path)
      else overlap path (current # ms))"
| "overlap path ms = None"

definition applyEditsToNormalizedContent ::
  "(jstext \<Rightarrow> jstext) \<Rightarrow> jstext \<Rightarrow> edit list \<Rightarrow> string \<Rightarrow> edit_error + applied_edits" where
  "applyEditsToNormalizedContent nfkc content edits path =
     (let es = map normalize_edit edits in
      case find_index (\<lambda>e. ed_oldText e = []) es of
        Some i \<Rightarrow> Inl (EmptyOldText path i (length es))
      | None \<Rightarrow>
          (let usedFuzzyMatch = (\<exists>e \<in> set es. fm_usedFuzzyMatch (fuzzyFindText nfkc content (ed_oldText e)));
               base = (if usedFuzzyMatch then normalizeForFuzzyMatch nfkc content else content)
           in case match_edits nfkc base path (length es) 0 es of
                Inl err \<Rightarrow> Inl err
              | Inr found \<Rightarrow>
                  (let ms = sort_key me_matchIndex found in
                   case overlap path ms of
                     Some err \<Rightarrow> Inl err
                   | None \<Rightarrow>
                       (case (if usedFuzzyMatch then applyReplacementsPreservingUnchangedLines content base ms
                              else Inr (applyReplacements base ms 0)) of
                          Inl err \<Rightarrow> Inl err
                        | Inr newContent \<Rightarrow>
                            if content = newContent then Inl (NoChange path (length es))
                            else Inr \<lparr>ae_baseContent = content, ae_newContent = newContent\<rparr>))))"

end
