(* ===== verification/Diff_Display.thy ===== *)
theory Diff_Display
  imports Text_Edit
begin

text \<open>
  \<open>generateDiffString\<close> of \<open>core/tools/edit-diff.ts\<close>: the numbered diff that the edit tool shows.
  \<open>Diff.diffLines\<close> is third-party code; its list of parts is an argument, and what its
  documentation says of it (whole lines, both texts recovered from the parts) is \<open>diff_parts_of\<close>.
\<close>

section \<open>The display\<close>

record diff_part =
  dp_value :: jstext
  dp_added :: bool
  dp_removed :: bool

datatype diff_row =
    AddedRow nat jstext
  | RemovedRow nat jstext
  | ContextRow nat jstext
  | Ellipsis

definition js_text :: "string \<Rightarrow> jstext" where
  "js_text s = map of_char s"

definition padStart :: "nat \<Rightarrow> string \<Rightarrow> string" where
  "padStart w s = replicate (w - length s) CHR '' '' @ s"

fun row_text :: "nat \<Rightarrow> diff_row \<Rightarrow> jstext" where
  "row_text w (AddedRow n line) = js_text (''+'' @ padStart w (nat_str n) @ '' '') @ line"
| "row_text w (RemovedRow n line) = js_text (''-'' @ padStart w (nat_str n) @ '' '') @ line"
| "row_text w (ContextRow n line) = js_text ('' '' @ padStart w (nat_str n) @ '' '') @ line"
| "row_text w Ellipsis = js_text ('' '' @ padStart w '''' @ '' ...'')"

text \<open>\<open>part.value.split("\n")\<close> without a last empty piece.\<close>

definition part_lines :: "jstext \<Rightarrow> jstext list" where
  "part_lines v = (let raw = js_split [LF] v in if last raw = [] then butlast raw else raw)"

fun numbered :: "(nat \<Rightarrow> jstext \<Rightarrow> diff_row) \<Rightarrow> nat \<Rightarrow> jstext list \<Rightarrow> diff_row list" where
  "numbered f n [] = []"
| "numbered f n (line # lines) = f n line # numbered f (n + 1) lines"

definition context_rows :: "nat \<Rightarrow> bool \<Rightarrow> bool \<Rightarrow> nat \<Rightarrow> jstext list \<Rightarrow> diff_row list" where
  "context_rows contextLines hasLeadingChange hasTrailingChange oldLineNum raw =
     (if hasLeadingChange \<and> hasTrailingChange then
        (if length raw \<le> contextLines * 2 then numbered ContextRow oldLineNum raw
         else
           (let leading = take contextLines raw;
                trailing = drop (length raw - contextLines) raw;
                skipped = length raw - length leading - length trailing
            in numbered ContextRow oldLineNum leading @ [Ellipsis] @
               numbered ContextRow (oldLineNum + length leading + skipped) trailing))
      else if hasLeadingChange then
        (let shown = take contextLines raw; skipped = length raw - length shown
         in numbered ContextRow oldLineNum shown @ (if 0 < skipped then [Ellipsis] else []))
      else if hasTrailingChange then
        (let skipped = length raw - contextLines
         in (if 0 < skipped then [Ellipsis] else []) @ numbered ContextRow (oldLineNum + skipped) (drop skipped raw))
      else [])"

abbreviation is_change :: "diff_part \<Rightarrow> bool" where
  "is_change p \<equiv> dp_added p \<or> dp_removed p"

text \<open>The loop over the parts, from the line numbers \<open>m\<close> (old) and \<open>n\<close> (new) on.\<close>

fun diff_loop :: "nat \<Rightarrow> diff_part list \<Rightarrow> nat \<Rightarrow> nat \<Rightarrow> bool \<Rightarrow> diff_row list" where
  "diff_loop contextLines [] m n lastWasChange = []"
| "diff_loop contextLines (p # ps) m n lastWasChange =
     (let raw = part_lines (dp_value p) in
      if dp_added p then numbered AddedRow n raw @ diff_loop contextLines ps m (n + length raw) True
      else if dp_removed p then numbered RemovedRow m raw @ diff_loop contextLines ps (m + length raw) n True
      else
        (let nextPartIsChange = (case ps of [] \<Rightarrow> False | q # _ \<Rightarrow> is_change q)
         in context_rows contextLines lastWasChange nextPartIsChange m raw @
            diff_loop contextLines ps (m + length raw) (n + length raw) False))"

fun first_changed :: "diff_part list \<Rightarrow> nat \<Rightarrow> nat option" where
  "first_changed [] n = None"
| "first_changed (p # ps) n =
     (if is_change p then Some n else first_changed ps (n + length (part_lines (dp_value p))))"

definition generateDiffString ::
  "(jstext \<Rightarrow> jstext \<Rightarrow> diff_part list) \<Rightarrow> jstext \<Rightarrow> jstext \<Rightarrow> nat \<Rightarrow> jstext \<times> nat option" where
  "generateDiffString diffLines oldContent newContent contextLines =
     (let parts = diffLines oldContent newContent;
          maxLineNum = max (length (js_split [LF] oldContent)) (length (js_split [LF] newContent));
          lineNumWidth = length (nat_str maxLineNum)
      in (join_with [LF] (map (row_text lineNumWidth) (diff_loop contextLines parts 1 1 False)), first_changed parts 1))"

section \<open>What the diff package promises\<close>

definition old_values :: "diff_part list \<Rightarrow> jstext list" where
  "old_values ps = map dp_value (filter (\<lambda>p. \<not> dp_added p) ps)"

definition new_values :: "diff_part list \<Rightarrow> jstext list" where
  "new_values ps = map dp_value (filter (\<lambda>p. \<not> dp_removed p) ps)"

text \<open>Pieces made of whole lines: only the last one may lack its line feed.\<close>

definition whole_lines :: "jstext list \<Rightarrow> bool" where
  "whole_lines vs \<longleftrightarrow> (\<forall>v \<in> set (butlast vs). v \<noteq> [] \<and> last v = LF)"

definition diff_parts_of :: "jstext \<Rightarrow> jstext \<Rightarrow> diff_part list \<Rightarrow> bool" where
  "diff_parts_of old new ps \<longleftrightarrow>
     concat (old_values ps) = old \<and> concat (new_values ps) = new \<and>
     whole_lines (old_values ps) \<and> whole_lines (new_values ps) \<and>
     (\<forall>p \<in> set ps. \<not> (dp_added p \<and> dp_removed p))"

section \<open>Lines of concatenated parts\<close>

lemma js_split_LF_Nil [simp]: "js_split [LF] [] = [[]]"
  by (simp add: js_split.simps)

lemma js_split_LF_nonempty [simp]: "js_split [LF] t \<noteq> []"
  by (subst js_split.simps) (auto split: option.splits)

lemma js_split_LF_Cons:
  "js_split [LF] (c # t) = (if c = LF then [] # js_split [LF] t
     else (case js_split [LF] t of l # ls \<Rightarrow> (c # l) # ls | [] \<Rightarrow> [[c]]))"
proof (cases "c = LF")
  case True
  then show ?thesis by (subst js_split.simps) simp
next
  case False
  then show ?thesis
    by (subst js_split.simps, subst (2) js_split.simps) (auto split: option.splits)
qed

lemma js_split_LF_middle: "js_split [LF] (v @ LF # w) = js_split [LF] v @ js_split [LF] w"
  by (induction v) (auto simp: js_split_LF_Cons split: list.splits)

lemma part_lines_whole:
  assumes "v \<noteq> []" "last v = LF"
  shows "js_split [LF] (v @ w) = part_lines v @ js_split [LF] w"
proof -
  have v: "v = butlast v @ [LF]" using assms by (metis append_butlast_last_id)
  have "js_split [LF] v = js_split [LF] (butlast v) @ [[]]"
    using js_split_LF_middle [of "butlast v" "[]"] v by simp
  then have "part_lines v = js_split [LF] (butlast v)" by (simp add: part_lines_def)
  moreover have "v @ w = butlast v @ LF # w" using v by (metis append.assoc append_Cons append_Nil)
  ultimately show ?thesis by (simp only: js_split_LF_middle)
qed

lemma part_lines_prefix: "prefix (part_lines v) (js_split [LF] v)"
  by (simp add: part_lines_def Let_def) (metis append_butlast_last_id js_split_LF_nonempty prefixI)

text \<open>The lines of the parts, one after the other, are those of the text they make up.\<close>

lemma part_lines_concat: "whole_lines vs \<Longrightarrow> prefix (concat (map part_lines vs)) (js_split [LF] (concat vs))"
proof (induction vs)
  case Nil
  then show ?case by simp
next
  case (Cons v vs)
  show ?case
  proof (cases "vs = []")
    case True
    then show ?thesis using part_lines_prefix by simp
  next
    case False
    then have "v \<noteq> []" "last v = LF" "whole_lines vs" using Cons.prems by (auto simp: whole_lines_def)
    then show ?thesis using Cons.IH by (simp add: part_lines_whole)
  qed
qed

section \<open>The rows\<close>

text \<open>Row \<open>f n line\<close> shows the line number \<open>n\<close>, the first line having number \<open>base\<close>.\<close>

definition line_number_ok :: "jstext list \<Rightarrow> nat \<Rightarrow> nat \<Rightarrow> jstext \<Rightarrow> bool" where
  "line_number_ok lines base n line \<longleftrightarrow> base \<le> n \<and> n - base < length lines \<and> lines ! (n - base) = line"

fun row_ok :: "jstext list \<Rightarrow> nat \<Rightarrow> jstext list \<Rightarrow> nat \<Rightarrow> diff_row \<Rightarrow> bool" where
  "row_ok old m new n (AddedRow k line) = line_number_ok new n k line"
| "row_ok old m new n (RemovedRow k line) = line_number_ok old m k line"
| "row_ok old m new n (ContextRow k line) = line_number_ok old m k line"
| "row_ok old m new n Ellipsis = True"

lemma line_number_ok_append1: "line_number_ok xs m k l \<Longrightarrow> line_number_ok (xs @ ys) m k l"
  by (auto simp: line_number_ok_def nth_append)

lemma line_number_ok_append2: "line_number_ok ys (m + length xs) k l \<Longrightarrow> line_number_ok (xs @ ys) m k l"
  by (auto simp: line_number_ok_def nth_append)

lemma row_ok_append1: "row_ok old m new n r \<Longrightarrow> row_ok (old @ xs) m (new @ ys) n r"
  by (cases r) (auto intro: line_number_ok_append1)

lemma row_ok_append2: "row_ok old (m + length xs) new (n + length ys) r \<Longrightarrow> row_ok (xs @ old) m (ys @ new) n r"
  by (cases r) (auto intro: line_number_ok_append2)

lemma numbered_in: "r \<in> set (numbered f n ls) \<Longrightarrow> \<exists>i < length ls. r = f (n + i) (ls ! i)"
proof (induction ls arbitrary: n)
  case Nil
  then show ?case by simp
next
  case (Cons l ls)
  then show ?case by (fastforce simp: nth_Cons')
qed

lemma context_rows_ok:
  "r \<in> set (context_rows c lead trail m raw) \<Longrightarrow> row_ok raw m new n r"
  by (auto simp: context_rows_def Let_def line_number_ok_def split: if_splits dest!: numbered_in)

definition old_lines :: "diff_part list \<Rightarrow> jstext list" where
  "old_lines ps = concat (map part_lines (old_values ps))"

definition new_lines :: "diff_part list \<Rightarrow> jstext list" where
  "new_lines ps = concat (map part_lines (new_values ps))"

lemma diff_loop_rows_ok:
  "r \<in> set (diff_loop c ps m n w) \<Longrightarrow> \<forall>p \<in> set ps. \<not> (dp_added p \<and> dp_removed p) \<Longrightarrow>
     row_ok (old_lines ps) m (new_lines ps) n r"
proof (induction ps arbitrary: m n w)
  case Nil
  then show ?case by simp
next
  case (Cons p ps)
  let ?raw = "part_lines (dp_value p)"
  show ?case
  proof (cases "dp_added p")
    case True
    then have "\<not> dp_removed p" using Cons.prems by simp
    then have lines: "old_lines (p # ps) = [] @ old_lines ps" "new_lines (p # ps) = ?raw @ new_lines ps"
      using True by (simp_all add: old_lines_def new_lines_def old_values_def new_values_def)
    from Cons.prems True consider "r \<in> set (numbered AddedRow n ?raw)" | "r \<in> set (diff_loop c ps m (n + length ?raw) True)"
      by (auto simp: Let_def)
    then show ?thesis
    proof cases
      case 1
      then have "row_ok [] m ?raw n r" by (auto simp: line_number_ok_def dest!: numbered_in)
      then show ?thesis unfolding lines using row_ok_append1 [of "[]" m ?raw n r "old_lines ps" "new_lines ps"] by simp
    next
      case 2
      then show ?thesis unfolding lines using Cons by (intro row_ok_append2) auto
    qed
  next
    case False
    show ?thesis
    proof (cases "dp_removed p")
      case True
      then have lines: "old_lines (p # ps) = ?raw @ old_lines ps" "new_lines (p # ps) = [] @ new_lines ps"
        using False by (simp_all add: old_lines_def new_lines_def old_values_def new_values_def)
      from Cons.prems True False consider "r \<in> set (numbered RemovedRow m ?raw)" | "r \<in> set (diff_loop c ps (m + length ?raw) n True)"
        by (auto simp: Let_def)
      then show ?thesis
      proof cases
        case 1
        then have "row_ok ?raw m [] n r" by (auto simp: line_number_ok_def dest!: numbered_in)
        then show ?thesis unfolding lines using row_ok_append1 [of ?raw m "[]" n r "old_lines ps" "new_lines ps"] by simp
      next
        case 2
        then show ?thesis unfolding lines using Cons by (intro row_ok_append2) auto
      qed
    next
      case rem: False
      then have lines: "old_lines (p # ps) = ?raw @ old_lines ps" "new_lines (p # ps) = ?raw @ new_lines ps"
        using False by (simp_all add: old_lines_def new_lines_def old_values_def new_values_def)
      from Cons.prems rem False consider t where "r \<in> set (context_rows c w t m ?raw)"
        | "r \<in> set (diff_loop c ps (m + length ?raw) (n + length ?raw) False)"
        by (auto simp: Let_def)
      then show ?thesis
      proof cases
        case 1
        then show ?thesis unfolding lines by (intro row_ok_append1 context_rows_ok)
      next
        case 2
        then show ?thesis unfolding lines using Cons by (intro row_ok_append2) auto
      qed
    qed
  qed
qed

text \<open>The added rows are the added lines, the removed rows the removed ones.\<close>

definition rows_of :: "(diff_row \<Rightarrow> jstext option) \<Rightarrow> diff_row list \<Rightarrow> jstext list" where
  "rows_of f rows = map the (filter (\<lambda>x. x \<noteq> None) (map f rows))"

fun added_text :: "diff_row \<Rightarrow> jstext option" where
  "added_text (AddedRow k line) = Some line"
| "added_text _ = None"

fun removed_text :: "diff_row \<Rightarrow> jstext option" where
  "removed_text (RemovedRow k line) = Some line"
| "removed_text _ = None"

lemma rows_of_append [simp]: "rows_of f (xs @ ys) = rows_of f xs @ rows_of f ys"
  by (simp add: rows_of_def)

lemma rows_of_numbered [simp]:
  "rows_of added_text (numbered AddedRow n ls) = ls" "rows_of removed_text (numbered AddedRow n ls) = []"
  "rows_of removed_text (numbered RemovedRow n ls) = ls" "rows_of added_text (numbered RemovedRow n ls) = []"
  "rows_of added_text (numbered ContextRow n ls) = []" "rows_of removed_text (numbered ContextRow n ls) = []"
  by (induction ls arbitrary: n) (simp_all add: rows_of_def)

lemma rows_of_Ellipsis [simp]:
  "rows_of added_text (Ellipsis # rs) = rows_of added_text rs"
  "rows_of removed_text (Ellipsis # rs) = rows_of removed_text rs" "rows_of f [] = []"
  by (simp_all add: rows_of_def)

lemma rows_of_context [simp]:
  "rows_of added_text (context_rows c a b m raw) = []" "rows_of removed_text (context_rows c a b m raw) = []"
  by (auto simp: context_rows_def Let_def)

lemma diff_loop_changes:
  "rows_of added_text (diff_loop c ps m n w) = concat (map (\<lambda>p. part_lines (dp_value p)) (filter dp_added ps)) \<and>
   rows_of removed_text (diff_loop c ps m n w) =
     concat (map (\<lambda>p. part_lines (dp_value p)) (filter (\<lambda>p. dp_removed p \<and> \<not> dp_added p) ps))"
  by (induction ps arbitrary: m n w) (auto simp: Let_def)

end
