(* ===== verification/Mutation_Queue.thy ===== *)
theory Mutation_Queue
  imports Ticket_Port Path_Resolve
begin

text \<open>
  \<open>core/tools/file-mutation-queue.ts\<close>: operations on the same file one after the other. A call of
  \<open>withFileMutationQueue\<close> first registers, in the order of the calls, and then waits for the calls
  registered before it under the same key. \<open>realpath\<close> answers with an event.
\<close>

section \<open>State\<close>

text \<open>
  A call that has registered: its key, the calls its \<open>currentQueue\<close> waits for, and how far it is. The
  promise \<open>currentQueue.then(() => nextQueue)\<close> is the list of calls whose \<open>nextQueue\<close> it waits
  for, so \<open>chainedQueue\<close> of call \<open>i\<close> is \<open>currentQueue @ [i]\<close>; call \<open>i\<close> is the one at
  position \<open>i\<close> of the list of registered calls.
\<close>

datatype call_phase = Queued | Running | Released

record queued_call =
  qc_tag :: nat
  qc_key :: string
  qc_current :: "nat list"
  qc_phase :: call_phase

record mutation_queue =
  mq_registrations :: "(nat \<times> string) list"
  mq_map :: "string \<Rightarrow> nat list option"
  mq_calls :: "queued_call list"

definition mq_init :: mutation_queue where
  "mq_init = \<lparr>mq_registrations = [], mq_map = (\<lambda>k. None), mq_calls = []\<rparr>"

section \<open>Operations\<close>

text \<open>What \<open>realpath\<close> came to; a path that does not exist yet stands for itself.\<close>

datatype realpath_result = RealPath string | PathMissing | PathError

fun getMutationQueueKey :: "string \<Rightarrow> string \<Rightarrow> realpath_result \<Rightarrow> string option" where
  "getMutationQueueKey pcwd path (RealPath p) = Some p"
| "getMutationQueueKey pcwd path PathMissing = Some (resolve1 pcwd path)"
| "getMutationQueueKey pcwd path PathError = None"

definition chain_done :: "mutation_queue \<Rightarrow> nat list \<Rightarrow> bool" where
  "chain_done q p \<longleftrightarrow> (\<forall>i \<in> set p. qc_phase (mq_calls q ! i) = Released)"

datatype mq_event =
    Call nat string
  | Registered realpath_result
  | Start nat
  | Settle nat

datatype mq_effect =
    RegistrationFailed nat
  | FnCalled nat nat
  | CallReturned nat

definition register :: "string \<Rightarrow> realpath_result \<Rightarrow> mutation_queue \<Rightarrow> mutation_queue \<times> mq_effect list" where
  "register pcwd r q =
     (case mq_registrations q of
        [] \<Rightarrow> (q, [])
      | (tag, path) # rest \<Rightarrow>
          (case getMutationQueueKey pcwd path r of
             None \<Rightarrow> (q\<lparr>mq_registrations := rest\<rparr>, [RegistrationFailed tag])
           | Some key \<Rightarrow>
               (let current = (case mq_map q key of Some p \<Rightarrow> p | None \<Rightarrow> []);
                    chained = current @ [length (mq_calls q)]
                in (q\<lparr>mq_registrations := rest, mq_map := (mq_map q)(key \<mapsto> chained),
                     mq_calls := mq_calls q @ [\<lparr>qc_tag = tag, qc_key = key, qc_current = current, qc_phase = Queued\<rparr>]\<rparr>,
                    []))))"

definition set_call_phase :: "nat \<Rightarrow> call_phase \<Rightarrow> mutation_queue \<Rightarrow> mutation_queue" where
  "set_call_phase i ph q = q\<lparr>mq_calls := (mq_calls q)[i := (mq_calls q ! i)\<lparr>qc_phase := ph\<rparr>]\<rparr>"

text \<open>\<open>await currentQueue\<close> has returned: \<open>fn\<close> is called.\<close>

definition start_call :: "nat \<Rightarrow> mutation_queue \<Rightarrow> mutation_queue \<times> mq_effect list" where
  "start_call i q =
     (if i < length (mq_calls q) \<and> qc_phase (mq_calls q ! i) = Queued \<and> chain_done q (qc_current (mq_calls q ! i))
      then (set_call_phase i Running q, [FnCalled i (qc_tag (mq_calls q ! i))])
      else (q, []))"

text \<open>\<open>fn\<close> has settled: the \<open>finally\<close> block.\<close>

definition settle_call :: "nat \<Rightarrow> mutation_queue \<Rightarrow> mutation_queue \<times> mq_effect list" where
  "settle_call i q =
     (if i < length (mq_calls q) \<and> qc_phase (mq_calls q ! i) = Running
      then (let c = mq_calls q ! i; q' = set_call_phase i Released q
            in (if mq_map q' (qc_key c) = Some (qc_current c @ [i])
                then q'\<lparr>mq_map := (mq_map q')(qc_key c := None)\<rparr> else q',
                [CallReturned (qc_tag c)]))
      else (q, []))"

fun mq_step :: "string \<Rightarrow> mutation_queue \<Rightarrow> mq_event \<Rightarrow> mutation_queue \<times> mq_effect list" where
  "mq_step pcwd q (Call tag path) = (q\<lparr>mq_registrations := mq_registrations q @ [(tag, path)]\<rparr>, [])"
| "mq_step pcwd q (Registered r) = register pcwd r q"
| "mq_step pcwd q (Start i) = start_call i q"
| "mq_step pcwd q (Settle i) = settle_call i q"

section \<open>The invariant\<close>

abbreviation phase_of :: "mutation_queue \<Rightarrow> nat \<Rightarrow> call_phase" where
  "phase_of q i \<equiv> qc_phase (mq_calls q ! i)"

abbreviation key_of :: "mutation_queue \<Rightarrow> nat \<Rightarrow> string" where
  "key_of q i \<equiv> qc_key (mq_calls q ! i)"

abbreviation current_of :: "mutation_queue \<Rightarrow> nat \<Rightarrow> nat list" where
  "current_of q i \<equiv> qc_current (mq_calls q ! i)"

text \<open>
  A call waits for every unreleased call of its key that registered before it, and only for such
  calls; a key is in the map exactly as long as a call of it is unreleased, and then with the promise
  of its last call.
\<close>

definition waits_ok :: "mutation_queue \<Rightarrow> bool" where
  "waits_ok q \<longleftrightarrow>
     (\<forall>i < length (mq_calls q).
        (\<forall>j \<in> set (current_of q i). j < i \<and> key_of q j = key_of q i) \<and>
        (\<forall>j < i. key_of q j = key_of q i \<longrightarrow> phase_of q j \<noteq> Released \<longrightarrow> j \<in> set (current_of q i)))"

definition map_ok :: "mutation_queue \<Rightarrow> bool" where
  "map_ok q \<longleftrightarrow>
     (\<forall>k. case mq_map q k of
        None \<Rightarrow> \<forall>i < length (mq_calls q). key_of q i = k \<longrightarrow> phase_of q i = Released
      | Some p \<Rightarrow>
          \<exists>i < length (mq_calls q). p = current_of q i @ [i] \<and> key_of q i = k \<and> phase_of q i \<noteq> Released \<and>
            (\<forall>j. i < j \<longrightarrow> j < length (mq_calls q) \<longrightarrow> key_of q j \<noteq> k))"

definition phases_ok :: "mutation_queue \<Rightarrow> bool" where
  "phases_ok q \<longleftrightarrow>
     (\<forall>i < length (mq_calls q). phase_of q i \<noteq> Queued \<longrightarrow> chain_done q (current_of q i))"

definition mq_inv :: "mutation_queue \<Rightarrow> bool" where
  "mq_inv q \<longleftrightarrow> waits_ok q \<and> map_ok q \<and> phases_ok q"

text \<open>Among the calls of a key, those registered before a running one are released.\<close>

lemma running_is_first:
  assumes q: "mq_inv q" and i: "i < length (mq_calls q)" "phase_of q i \<noteq> Queued" and j: "j < i" "key_of q j = key_of q i"
  shows "phase_of q j = Released"
proof (rule ccontr)
  assume "phase_of q j \<noteq> Released"
  then have "j \<in> set (current_of q i)" using q i j unfolding mq_inv_def waits_ok_def by blast
  moreover have "chain_done q (current_of q i)" using q i unfolding mq_inv_def phases_ok_def by blast
  ultimately show False using \<open>phase_of q j \<noteq> Released\<close> unfolding chain_done_def by blast
qed

lemma set_call_phase_nth:
  "mq_calls (set_call_phase i ph q) ! j =
     (if j = i \<and> i < length (mq_calls q) then (mq_calls q ! i)\<lparr>qc_phase := ph\<rparr> else mq_calls q ! j)"
  by (cases "i < length (mq_calls q)") (auto simp: set_call_phase_def nth_list_update list_update_beyond)

lemma set_call_phase_sel [simp]:
  "length (mq_calls (set_call_phase i ph q)) = length (mq_calls q)"
  "mq_map (set_call_phase i ph q) = mq_map q"
  "mq_registrations (set_call_phase i ph q) = mq_registrations q"
  "key_of (set_call_phase i ph q) j = key_of q j"
  "current_of (set_call_phase i ph q) j = current_of q j"
  "i < length (mq_calls q) \<Longrightarrow> phase_of (set_call_phase i ph q) j = (if j = i then ph else phase_of q j)"
  by (simp_all add: set_call_phase_nth) (simp_all add: set_call_phase_def)

lemma mq_init_inv: "mq_inv mq_init"
  by (simp add: mq_init_def mq_inv_def waits_ok_def map_ok_def phases_ok_def)

lemma mq_inv_registrations [simp]: "mq_inv (q\<lparr>mq_registrations := rs\<rparr>) \<longleftrightarrow> mq_inv q"
  by (cases q) (simp only: mq_inv_def waits_ok_def map_ok_def phases_ok_def chain_done_def mutation_queue.simps)

lemma register_inv:
  assumes q: "mq_inv q"
  shows "mq_inv (fst (register pcwd r q))"
proof (cases "mq_registrations q")
  case Nil
  then show ?thesis using q by (simp add: register_def)
next
  case (Cons x rest)
  obtain tag path where x: "x = (tag, path)" by (cases x)
  show ?thesis
  proof (cases "getMutationQueueKey pcwd path r")
    case None
    then show ?thesis using q Cons x by (simp add: register_def)
  next
    case (Some key)
    let ?n = "length (mq_calls q)"
    define cur where "cur = (case mq_map q key of Some p \<Rightarrow> p | None \<Rightarrow> [])"
    let ?c = "\<lparr>qc_tag = tag, qc_key = key, qc_current = cur, qc_phase = Queued\<rparr>"
    let ?q = "q\<lparr>mq_registrations := rest, mq_map := (mq_map q)(key \<mapsto> cur @ [?n]), mq_calls := mq_calls q @ [?c]\<rparr>"
    have q': "fst (register pcwd r q) = ?q"
      using Cons x Some by (simp add: register_def Let_def cur_def)
    have W: "waits_ok q" and M: "map_ok q" and P: "phases_ok q" using q by (auto simp: mq_inv_def)
    have old: "mq_calls ?q ! i = mq_calls q ! i" if "i < ?n" for i using that by (simp add: nth_append)
    have new: "mq_calls ?q ! ?n = ?c" by simp
    have len: "length (mq_calls ?q) = Suc ?n" by simp
    have cur_ok: "(\<forall>j \<in> set cur. j < ?n \<and> key_of q j = key) \<and>
        (\<forall>j < ?n. key_of q j = key \<longrightarrow> phase_of q j \<noteq> Released \<longrightarrow> j \<in> set cur)"
    proof (cases "mq_map q key")
      case None
      then have "\<forall>i < ?n. key_of q i = key \<longrightarrow> phase_of q i = Released"
        using spec [OF M [unfolded map_ok_def], of key] by simp
      then show ?thesis using None by (simp add: cur_def)
    next
      case (Some p)
      then obtain i where i: "i < ?n" "p = current_of q i @ [i]" "key_of q i = key"
        "\<forall>j. i < j \<longrightarrow> j < ?n \<longrightarrow> key_of q j \<noteq> key"
        using spec [OF M [unfolded map_ok_def], of key] by auto
      have "j \<in> set p" if "j < ?n" "key_of q j = key" "phase_of q j \<noteq> Released" for j
      proof (cases "j = i")
        case False
        with that i have "j < i" by (metis linorder_neqE_nat)
        moreover have "key_of q j = key_of q i" using that i by simp
        ultimately have "j \<in> set (current_of q i)" using W i(1) that(3) unfolding waits_ok_def by blast
        then show ?thesis using i(2) by simp
      qed (simp add: i)
      moreover have "\<forall>j \<in> set (current_of q i). j < i \<and> key_of q j = key_of q i"
        using W i(1) unfolding waits_ok_def by blast
      then have "\<forall>j \<in> set p. j < ?n \<and> key_of q j = key" using i(1,2,3) by fastforce
      moreover have "cur = p" using Some by (simp add: cur_def)
      ultimately show ?thesis by blast
    qed
    have "waits_ok ?q"
      unfolding waits_ok_def len
    proof (intro allI impI)
      fix i assume i: "i < Suc ?n"
      show "(\<forall>j \<in> set (current_of ?q i). j < i \<and> key_of ?q j = key_of ?q i) \<and>
        (\<forall>j < i. key_of ?q j = key_of ?q i \<longrightarrow> phase_of ?q j \<noteq> Released \<longrightarrow> j \<in> set (current_of ?q i))"
      proof (cases "i = ?n")
        case True
        have n: "key_of ?q ?n = key" "current_of ?q ?n = cur" by simp_all
        have o: "key_of ?q j = key_of q j" "phase_of ?q j = phase_of q j" if "j < ?n" for j
          using that by (simp_all add: nth_append)
        show ?thesis unfolding True n using cur_ok o by metis
      next
        case False
        with i have "i < ?n" by simp
        moreover from this have "\<forall>j \<le> i. mq_calls ?q ! j = mq_calls q ! j" using old by auto
        ultimately show ?thesis using W unfolding waits_ok_def by (metis order.strict_implies_order order_refl)
      qed
    qed
    moreover have "map_ok ?q"
      unfolding map_ok_def len
    proof (intro allI)
      fix k
      show "case mq_map ?q k of
          None \<Rightarrow> \<forall>i < Suc ?n. key_of ?q i = k \<longrightarrow> phase_of ?q i = Released
        | Some p \<Rightarrow> \<exists>i < Suc ?n. p = current_of ?q i @ [i] \<and> key_of ?q i = k \<and> phase_of ?q i \<noteq> Released \<and>
            (\<forall>j. i < j \<longrightarrow> j < Suc ?n \<longrightarrow> key_of ?q j \<noteq> k)"
      proof (cases "k = key")
        case True
        then show ?thesis by (auto intro!: exI [of _ ?n])
      next
        case False
        then have "case mq_map q k of
          None \<Rightarrow> \<forall>i < ?n. key_of q i = k \<longrightarrow> phase_of q i = Released
        | Some p \<Rightarrow> \<exists>i < ?n. p = current_of q i @ [i] \<and> key_of q i = k \<and> phase_of q i \<noteq> Released \<and>
            (\<forall>j. i < j \<longrightarrow> j < ?n \<longrightarrow> key_of q j \<noteq> k)" using M unfolding map_ok_def by blast
        with False show ?thesis
          by (auto simp: nth_append less_Suc_eq split: option.splits)
      qed
    qed
    moreover have "phases_ok ?q"
      unfolding phases_ok_def len
    proof (intro allI impI)
      fix i assume i: "i < Suc ?n" "phase_of ?q i \<noteq> Queued"
      have "i \<noteq> ?n"
      proof
        assume "i = ?n"
        then show False using i(2) new by simp
      qed
      with i have i': "i < ?n" by simp
      then have "\<forall>j \<le> i. mq_calls ?q ! j = mq_calls q ! j" using old by auto
      moreover have "chain_done q (current_of q i)" "\<forall>j \<in> set (current_of q i). j < i"
        using P W i' i(2) old [OF i'] unfolding phases_ok_def waits_ok_def by auto
      ultimately show "chain_done ?q (current_of ?q i)"
        unfolding chain_done_def by (metis order.strict_implies_order order_refl)
    qed
    ultimately show ?thesis by (simp only: q' mq_inv_def)
  qed
qed

lemma phase_change_inv:
  assumes q: "mq_inv q" and i: "i < length (mq_calls q)"
    and ph: "ph \<noteq> Queued" "ph = Released \<Longrightarrow> phase_of q i = Running" "phase_of q i \<noteq> Released"
    and ready: "chain_done q (current_of q i)"
  shows "waits_ok (set_call_phase i ph q)" "phases_ok (set_call_phase i ph q)"
proof -
  have W: "waits_ok q" and P: "phases_ok q" using q by (auto simp: mq_inv_def)
  show "waits_ok (set_call_phase i ph q)"
    unfolding waits_ok_def set_call_phase_sel(1)
  proof (intro allI impI)
    fix j assume "j < length (mq_calls q)"
    with W have "(\<forall>k \<in> set (current_of q j). k < j \<and> key_of q k = key_of q j) \<and>
        (\<forall>k < j. key_of q k = key_of q j \<longrightarrow> phase_of q k \<noteq> Released \<longrightarrow> k \<in> set (current_of q j))"
      unfolding waits_ok_def by blast
    moreover have "phase_of (set_call_phase i ph q) k \<noteq> Released \<Longrightarrow> phase_of q k \<noteq> Released" for k
      using i ph(3) by (auto split: if_splits)
    ultimately show "(\<forall>k \<in> set (current_of (set_call_phase i ph q) j). k < j \<and>
          key_of (set_call_phase i ph q) k = key_of (set_call_phase i ph q) j) \<and>
        (\<forall>k < j. key_of (set_call_phase i ph q) k = key_of (set_call_phase i ph q) j \<longrightarrow>
          phase_of (set_call_phase i ph q) k \<noteq> Released \<longrightarrow> k \<in> set (current_of (set_call_phase i ph q) j))"
      unfolding set_call_phase_sel by blast
  qed
  have mono: "chain_done (set_call_phase i ph q) p" if "chain_done q p" for p
    using that i ph(3) unfolding chain_done_def by (metis set_call_phase_sel(6))
  show "phases_ok (set_call_phase i ph q)"
    unfolding phases_ok_def set_call_phase_sel(1)
  proof (intro allI impI)
    fix j assume j: "j < length (mq_calls q)" "phase_of (set_call_phase i ph q) j \<noteq> Queued"
    have "chain_done q (current_of q j)"
    proof (cases "j = i")
      case True
      then show ?thesis using ready by simp
    next
      case False
      then show ?thesis using j i P unfolding phases_ok_def by (metis set_call_phase_sel(6))
    qed
    then show "chain_done (set_call_phase i ph q) (current_of (set_call_phase i ph q) j)"
      unfolding set_call_phase_sel by (rule mono)
  qed
qed

lemma mq_map_update:
  "mq_calls (q\<lparr>mq_map := m\<rparr>) = mq_calls q" "mq_map (q\<lparr>mq_map := m\<rparr>) = m"
  by (cases q, simp)+

lemma start_call_inv:
  assumes q: "mq_inv q"
  shows "mq_inv (fst (start_call i q))"
proof (cases "i < length (mq_calls q) \<and> phase_of q i = Queued \<and> chain_done q (current_of q i)")
  case True
  let ?q = "set_call_phase i Running q"
  have "waits_ok ?q" "phases_ok ?q" using phase_change_inv [OF q, of i Running] True by simp_all
  moreover have "map_ok ?q"
    unfolding map_ok_def
  proof
    fix k
    have same: "phase_of ?q j = Released \<longleftrightarrow> phase_of q j = Released" for j using True by simp
    show "case mq_map ?q k of
        None \<Rightarrow> \<forall>j < length (mq_calls ?q). key_of ?q j = k \<longrightarrow> phase_of ?q j = Released
      | Some p \<Rightarrow> \<exists>j < length (mq_calls ?q). p = current_of ?q j @ [j] \<and> key_of ?q j = k \<and> phase_of ?q j \<noteq> Released \<and>
          (\<forall>l. j < l \<longrightarrow> l < length (mq_calls ?q) \<longrightarrow> key_of ?q l \<noteq> k)"
      unfolding same set_call_phase_sel(1,2,4,5) using q unfolding mq_inv_def map_ok_def by blast
  qed
  ultimately show ?thesis using True by (simp add: start_call_def mq_inv_def)
next
  case False
  then show ?thesis using q unfolding start_call_def by (simp only: if_False fst_conv)
qed

text \<open>The promise in the map under the key of an unreleased call is that of the last call of the key.\<close>

lemma last_of_key:
  assumes q: "mq_inv q" and i: "i < length (mq_calls q)" "phase_of q i \<noteq> Released"
  obtains l where "mq_map q (key_of q i) = Some (current_of q l @ [l])" "l < length (mq_calls q)" "key_of q l = key_of q i"
    "phase_of q l \<noteq> Released" "\<forall>j. l < j \<longrightarrow> j < length (mq_calls q) \<longrightarrow> key_of q j \<noteq> key_of q i"
proof -
  have "case mq_map q (key_of q i) of
        None \<Rightarrow> \<forall>j < length (mq_calls q). key_of q j = key_of q i \<longrightarrow> phase_of q j = Released
      | Some p \<Rightarrow> \<exists>j < length (mq_calls q). p = current_of q j @ [j] \<and> key_of q j = key_of q i \<and> phase_of q j \<noteq> Released \<and>
            (\<forall>l. j < l \<longrightarrow> l < length (mq_calls q) \<longrightarrow> key_of q l \<noteq> key_of q i)"
    using q unfolding mq_inv_def map_ok_def by blast
  then show thesis using i that by (cases "mq_map q (key_of q i)") auto
qed

lemma settle_call_inv:
  assumes q: "mq_inv q"
  shows "mq_inv (fst (settle_call i q))"
proof (cases "i < length (mq_calls q) \<and> phase_of q i = Running")
  case True
  let ?q = "set_call_phase i Released q" and ?k = "key_of q i"
  let ?m = "(if mq_map q ?k = Some (current_of q i @ [i]) then (mq_map q)(?k := None) else mq_map q)"
  have i: "i < length (mq_calls q)" "phase_of q i = Running" using True by auto
  have ready: "chain_done q (current_of q i)" using q i unfolding mq_inv_def phases_ok_def by simp
  have WP: "waits_ok ?q" "phases_ok ?q" using phase_change_inv [OF q i(1), of Released] i ready by simp_all
  obtain l where l: "mq_map q ?k = Some (current_of q l @ [l])" "l < length (mq_calls q)" "key_of q l = ?k"
    "phase_of q l \<noteq> Released" "\<forall>j. l < j \<longrightarrow> j < length (mq_calls q) \<longrightarrow> key_of q j \<noteq> ?k"
    using last_of_key [OF q i(1)] i by auto
  have "case ?m k of
        None \<Rightarrow> \<forall>j < length (mq_calls q). key_of q j = k \<longrightarrow> phase_of ?q j = Released
      | Some p \<Rightarrow> \<exists>j < length (mq_calls q). p = current_of q j @ [j] \<and> key_of q j = k \<and> phase_of ?q j \<noteq> Released \<and>
          (\<forall>l. j < l \<longrightarrow> l < length (mq_calls q) \<longrightarrow> key_of q l \<noteq> k)" for k
  proof (cases "k = ?k")
    case False
    have ph: "key_of q j = k \<Longrightarrow> phase_of ?q j = phase_of q j" for j using False i by auto
    have "?m k = mq_map q k" using False by simp
    moreover have "case mq_map q k of
        None \<Rightarrow> \<forall>j < length (mq_calls q). key_of q j = k \<longrightarrow> phase_of q j = Released
      | Some p \<Rightarrow> \<exists>j < length (mq_calls q). p = current_of q j @ [j] \<and> key_of q j = k \<and> phase_of q j \<noteq> Released \<and>
          (\<forall>l. j < l \<longrightarrow> l < length (mq_calls q) \<longrightarrow> key_of q l \<noteq> k)"
      using q unfolding mq_inv_def map_ok_def by blast
    ultimately show ?thesis using ph by (cases "mq_map q k") (simp_all, metis)
  next
    case k: True
    show ?thesis
    proof (cases "l = i")
      case True
      have "phase_of ?q j = Released" if "j < length (mq_calls q)" "key_of q j = ?k" for j
      proof -
        have "j \<le> i" using that l(5) True by (metis not_le)
        then show ?thesis using running_is_first [OF q i(1), of j] i that by (cases "j = i") auto
      qed
      then show ?thesis using l(1) True k by simp
    next
      case False
      then have "?m ?k = Some (current_of q l @ [l])" using l(1) by simp
      moreover have "phase_of ?q l \<noteq> Released" using False l(4) i by simp
      ultimately show ?thesis using k l(2,3,5) by auto
    qed
  qed
  then have M: "map_ok (?q\<lparr>mq_map := ?m\<rparr>)"
    unfolding map_ok_def mq_map_update set_call_phase_sel(1,2,4,5) by blast
  have "waits_ok (?q\<lparr>mq_map := ?m\<rparr>)" "phases_ok (?q\<lparr>mq_map := ?m\<rparr>)"
    using WP unfolding waits_ok_def phases_ok_def chain_done_def mq_map_update by blast+
  moreover have "fst (settle_call i q) = ?q\<lparr>mq_map := ?m\<rparr>"
    using i by (simp add: settle_call_def Let_def)
  ultimately show ?thesis using M by (simp only: mq_inv_def)
next
  case False
  then show ?thesis using q unfolding settle_call_def by (simp only: if_False fst_conv)
qed

lemma mq_step_inv:
  assumes "mq_inv q" "mq_step pcwd q e = (q', fx)"
  shows "mq_inv q'"
proof -
  have "mq_inv (fst (mq_step pcwd q e))"
    using assms(1) register_inv start_call_inv settle_call_inv by (cases e) simp_all
  then show ?thesis using assms(2) by simp
qed

section \<open>The contract\<close>

text \<open>Every call returns exactly once: with the error of its registration, or after its \<open>fn\<close> has settled.\<close>

fun mq_opens :: "mq_event \<Rightarrow> nat list" where
  "mq_opens (Call tag path) = [tag]"
| "mq_opens _ = []"

fun mq_answers :: "mq_effect \<Rightarrow> nat list" where
  "mq_answers (RegistrationFailed tag) = [tag]"
| "mq_answers (CallReturned tag) = [tag]"
| "mq_answers (FnCalled i tag) = []"

definition mq_held :: "mutation_queue \<Rightarrow> nat list" where
  "mq_held q = map fst (mq_registrations q) @ map qc_tag (filter (\<lambda>c. qc_phase c \<noteq> Released) (mq_calls q))"

lemma filter_update_mset:
  "i < length xs \<Longrightarrow> P (xs ! i) \<Longrightarrow>
     mset (map f (filter P (xs[i := y]))) + {#f (xs ! i)#} = mset (map f (filter P xs)) + (if P y then {#f y#} else {#})"
proof (induction xs arbitrary: i)
  case Nil
  then show ?case by simp
next
  case (Cons x xs)
  then show ?case by (cases i) auto
qed

lemma mq_conserve:
  assumes "mq_step pcwd q e = (q', fx)"
  shows "mset (mq_held q) + mset (mq_opens e) = mset (mq_held q') + tickets mq_answers fx"
proof (cases e)
  case (Start i)
  then show ?thesis
    using assms filter_update_mset [of i "mq_calls q" "\<lambda>c. qc_phase c \<noteq> Released" qc_tag "(mq_calls q ! i)\<lparr>qc_phase := Running\<rparr>"]
    by (auto simp: start_call_def mq_held_def set_call_phase_def split: if_splits)
next
  case (Settle i)
  then show ?thesis
    using assms filter_update_mset [of i "mq_calls q" "\<lambda>c. qc_phase c \<noteq> Released" qc_tag "(mq_calls q ! i)\<lparr>qc_phase := Released\<rparr>"]
    by (auto simp: settle_call_def mq_held_def set_call_phase_def Let_def split: if_splits)
qed (use assms in \<open>auto simp: register_def mq_held_def Let_def split: list.splits option.splits\<close>)

interpretation mutations: ticket_port "mq_step pcwd" mq_inv mq_held mq_opens mq_answers for pcwd
  by unfold_locales (erule (1) mq_step_inv, erule mq_conserve)

end
