(* ===== verification/Edit_Tool.thy ===== *)
theory Edit_Tool
  imports Text_Edit Diff_Display Mutation_Queue
begin

text \<open>
  \<open>core/tools/edit.ts\<close>: the \<open>execute\<close> of the edit tool inside the mutation queue. A call goes
  through \<open>access\<close>, \<open>readFile\<close> and \<open>writeFile\<close>, each of which answers with an event; between
  them any other call may run. A file is the text that \<open>toString("utf-8")\<close> reads, under the real path
  the queue uses as its key. The rendering of calls and results is not modelled.
\<close>

section \<open>One call\<close>

text \<open>\<open>ec_absolutePath\<close> is what \<open>resolveToCwd(path, cwd)\<close> made of the path.\<close>

record edit_call =
  ec_path :: string
  ec_absolutePath :: string
  ec_edits :: "edit list"

datatype edit_fault =
    NoEdits
  | OperationAborted
  | CouldNotEdit string string
  | ReadRejected string
  | EditRejected edit_error
  | WriteRejected string

record edit_done =
  dn_blocks :: nat
  dn_diff :: jstext
  dn_firstChangedLine :: "nat option"

text \<open>\<open>validateEditInput\<close>, for an argument that went through \<open>prepareEditArguments\<close>.\<close>

definition validateEditInput :: "edit_call \<Rightarrow> edit_fault + edit_call" where
  "validateEditInput input = (if ec_edits input = [] then Inl NoEdits else Inr input)"

text \<open>From the text read to the text written.\<close>

definition edited_text ::
  "(jstext \<Rightarrow> jstext) \<Rightarrow> jstext \<Rightarrow> edit list \<Rightarrow> string \<Rightarrow> edit_error + jstext \<times> applied_edits" where
  "edited_text nfkc raw edits path =
     (let (bom, content) = stripBom raw;
          originalEnding = detectLineEnding content;
          normalizedContent = normalizeToLF content
      in case applyEditsToNormalizedContent nfkc normalizedContent edits path of
           Inl err \<Rightarrow> Inl err
         | Inr res \<Rightarrow> Inr (bom @ restoreLineEndings (ae_newContent res) originalEnding, res))"

text \<open>What a finished call did to its file: nothing, its edit, or what a failing write left behind.\<close>

datatype file_effect = Untouched | Edited | LeftBy "jstext option"

datatype edit_phase =
    Accessing
  | Reading
  | Writing jstext applied_edits
  | Finished "edit_fault + edit_done" file_effect

text \<open>\<open>throwIfAborted()\<close> before going on.\<close>

definition unless_aborted :: "bool \<Rightarrow> file_effect \<Rightarrow> edit_phase \<Rightarrow> edit_phase" where
  "unless_aborted aborted eff next_phase = (if aborted then Finished (Inl OperationAborted) eff else next_phase)"

definition begin_edit :: "bool \<Rightarrow> edit_phase" where
  "begin_edit aborted = unless_aborted aborted Untouched Accessing"

definition access_answered :: "edit_call \<Rightarrow> string option \<Rightarrow> bool \<Rightarrow> edit_phase" where
  "access_answered input err aborted =
     unless_aborted aborted Untouched
       (case err of Some msg \<Rightarrow> Finished (Inl (CouldNotEdit (ec_path input) msg)) Untouched | None \<Rightarrow> Reading)"

text \<open>A rejected \<open>readFile\<close> leaves \<open>execute\<close> before the next \<open>throwIfAborted()\<close>.\<close>

definition read_answered ::
  "(jstext \<Rightarrow> jstext) \<Rightarrow> edit_call \<Rightarrow> string + jstext \<Rightarrow> bool \<Rightarrow> edit_phase" where
  "read_answered nfkc input answer aborted =
     (case answer of
        Inl msg \<Rightarrow> Finished (Inl (ReadRejected msg)) Untouched
      | Inr raw \<Rightarrow>
          unless_aborted aborted Untouched
            (case edited_text nfkc raw (ec_edits input) (ec_path input) of
               Inl err \<Rightarrow> Finished (Inl (EditRejected err)) Untouched
             | Inr (final, res) \<Rightarrow> Writing final res))"

definition write_answered ::
  "(jstext \<Rightarrow> jstext \<Rightarrow> diff_part list) \<Rightarrow> edit_call \<Rightarrow> applied_edits \<Rightarrow> bool \<Rightarrow> edit_phase" where
  "write_answered diffLines input res aborted =
     unless_aborted aborted Edited
       (let (diff, firstChangedLine) = generateDiffString diffLines (ae_baseContent res) (ae_newContent res) 4
        in Finished (Inr \<lparr>dn_blocks = length (ec_edits input), dn_diff = diff, dn_firstChangedLine = firstChangedLine\<rparr>)
             Edited)"

section \<open>Calls in the queue\<close>

record edit_system =
  es_queue :: mutation_queue
  es_files :: "string \<Rightarrow> jstext option"
  es_runs :: "nat \<Rightarrow> edit_phase option"

definition es_init :: "(string \<Rightarrow> jstext option) \<Rightarrow> edit_system" where
  "es_init files = \<lparr>es_queue = mq_init, es_files = files, es_runs = (\<lambda>i. None)\<rparr>"

text \<open>
  Events: a call of the tool or the answer of \<open>realpath\<close>; the queue lets call \<open>i\<close> run; an answer
  for call \<open>i\<close>, with whether its signal is aborted by then; the return of call \<open>i\<close>. A write that
  fails may leave any content.
\<close>

datatype edit_event =
    InvokeEdit nat
  | PathResolved realpath_result
  | BeginEdit nat bool
  | AccessAnswered nat "string option" bool
  | ReadFailed nat string
  | ReadSucceeded nat bool
  | WriteFailed nat string "jstext option"
  | WriteSucceeded nat bool
  | ReturnEdit nat

definition set_run :: "nat \<Rightarrow> edit_phase \<Rightarrow> edit_system \<Rightarrow> edit_system" where
  "set_run i ph s = s\<lparr>es_runs := (es_runs s)(i \<mapsto> ph)\<rparr>"

definition file_of :: "edit_system \<Rightarrow> nat \<Rightarrow> string" where
  "file_of s i = key_of (es_queue s) i"

text \<open>The input of call \<open>i\<close>; \<open>inputs\<close> gives what the caller with a tag passed.\<close>

definition input_of :: "(nat \<Rightarrow> edit_call) \<Rightarrow> edit_system \<Rightarrow> nat \<Rightarrow> edit_call" where
  "input_of inputs s i = inputs (qc_tag (mq_calls (es_queue s) ! i))"


fun es_step ::
  "(jstext \<Rightarrow> jstext) \<Rightarrow> (jstext \<Rightarrow> jstext \<Rightarrow> diff_part list) \<Rightarrow> string \<Rightarrow> (nat \<Rightarrow> edit_call) \<Rightarrow>
     edit_system \<Rightarrow> edit_event \<Rightarrow> edit_system" where
  "es_step nfkc diffLines pcwd inputs s (InvokeEdit tag) =
     (case validateEditInput (inputs tag) of
        Inl err \<Rightarrow> s
      | Inr input \<Rightarrow> s\<lparr>es_queue := fst (mq_step pcwd (es_queue s) (Call tag (ec_absolutePath input)))\<rparr>)"
| "es_step nfkc diffLines pcwd inputs s (PathResolved r) =
     s\<lparr>es_queue := fst (mq_step pcwd (es_queue s) (Registered r))\<rparr>"
| "es_step nfkc diffLines pcwd inputs s (BeginEdit i aborted) =
     (case mq_step pcwd (es_queue s) (Start i) of
        (q, []) \<Rightarrow> s
      | (q, _) \<Rightarrow> set_run i (begin_edit aborted) (s\<lparr>es_queue := q\<rparr>))"
| "es_step nfkc diffLines pcwd inputs s (AccessAnswered i err aborted) =
     (case es_runs s i of
        Some Accessing \<Rightarrow> set_run i (access_answered (input_of inputs s i) err aborted) s
      | _ \<Rightarrow> s)"
| "es_step nfkc diffLines pcwd inputs s (ReadFailed i msg) =
     (case es_runs s i of
        Some Reading \<Rightarrow> set_run i (read_answered nfkc (input_of inputs s i) (Inl msg) False) s
      | _ \<Rightarrow> s)"
| "es_step nfkc diffLines pcwd inputs s (ReadSucceeded i aborted) =
     (case (es_runs s i, es_files s (file_of s i)) of
        (Some Reading, Some raw) \<Rightarrow> set_run i (read_answered nfkc (input_of inputs s i) (Inr raw) aborted) s
      | _ \<Rightarrow> s)"
| "es_step nfkc diffLines pcwd inputs s (WriteFailed i msg left) =
     (case es_runs s i of
        Some (Writing final res) \<Rightarrow>
          set_run i (Finished (Inl (WriteRejected msg)) (LeftBy left))
            (s\<lparr>es_files := (es_files s)(file_of s i := left)\<rparr>)
      | _ \<Rightarrow> s)"
| "es_step nfkc diffLines pcwd inputs s (WriteSucceeded i aborted) =
     (case es_runs s i of
        Some (Writing final res) \<Rightarrow>
          set_run i (write_answered diffLines (input_of inputs s i) res aborted)
            (s\<lparr>es_files := (es_files s)(file_of s i \<mapsto> final)\<rparr>)
      | _ \<Rightarrow> s)"
| "es_step nfkc diffLines pcwd inputs s (ReturnEdit i) =
     (case es_runs s i of
        Some (Finished r eff) \<Rightarrow> s\<lparr>es_queue := fst (mq_step pcwd (es_queue s) (Settle i))\<rparr>
      | _ \<Rightarrow> s)"

definition es_run where
  "es_run nfkc diffLines pcwd inputs = foldl (es_step nfkc diffLines pcwd inputs)"

section \<open>The serial specification\<close>

text \<open>
  What a finished call does to the content it finds, and the content of a file when the calls for it
  are done one after the other, in the order of their registration.
\<close>

definition effect_on :: "(jstext \<Rightarrow> jstext) \<Rightarrow> edit_call \<Rightarrow> edit_phase option \<Rightarrow> jstext option \<Rightarrow> jstext option" where
  "effect_on nfkc input run content =
     (case run of
        Some (Finished r Edited) \<Rightarrow>
          (case content of
             None \<Rightarrow> None
           | Some raw \<Rightarrow>
               (case edited_text nfkc raw (ec_edits input) (ec_path input) of
                  Inl err \<Rightarrow> Some raw
                | Inr (final, res) \<Rightarrow> Some final))
      | Some (Finished r (LeftBy left)) \<Rightarrow> left
      | _ \<Rightarrow> content)"

definition calls_for :: "edit_system \<Rightarrow> string \<Rightarrow> nat list" where
  "calls_for s k = filter (\<lambda>i. file_of s i = k) [0..<length (mq_calls (es_queue s))]"

definition serial :: "(jstext \<Rightarrow> jstext) \<Rightarrow> (nat \<Rightarrow> edit_call) \<Rightarrow> (string \<Rightarrow> jstext option) \<Rightarrow> edit_system \<Rightarrow> string \<Rightarrow> jstext option" where
  "serial nfkc inputs files s k =
     fold (\<lambda>i. effect_on nfkc (input_of inputs s i) (es_runs s i)) (calls_for s k) (files k)"

end
