(* ===== verification/Text_Edit_Lemmas.thy ===== *)
theory Text_Edit_Lemmas
  imports Text_Edit "HOL-Library.Multiset"
begin

text \<open>
  Lemmas about text replacement: what a search returns, that lines partition their text, the
  closed form \<open>replaced\<close> of the backward loop of \<open>applyReplacements\<close>, and the groups of
  lines that the fuzzy path rewrites.
\<close>

section \<open>Searching\<close>

lemma index_of_prefix: "index_of pat t = Some i \<Longrightarrow> prefix pat (drop i t)"
proof (induction t arbitrary: i)
  case Nil
  then show ?case by (auto split: if_splits)
next
  case (Cons c cs)
  then show ?case by (auto split: if_splits)
qed

lemma index_of_least: "index_of pat t = Some i \<Longrightarrow> j < i \<Longrightarrow> \<not> prefix pat (drop j t)"
proof (induction t arbitrary: i j)
  case Nil
  then show ?case by (auto split: if_splits)
next
  case (Cons c cs)
  then show ?case by (cases j) (auto split: if_splits)
qed

lemma index_of_None: "index_of pat t = None \<longleftrightarrow> \<not> sublist pat t"
proof (induction t)
  case Nil
  then show ?case by simp
next
  case (Cons c cs)
  then show ?case by (auto simp: sublist_Cons_right)
qed

lemma index_of_take: "index_of pat t = Some i \<Longrightarrow> take (length pat) (drop i t) = pat"
  using index_of_prefix [of pat t i] by (auto simp: prefix_def)

section \<open>Lines\<close>

lemma concat_lines: "concat (splitLinesWithEndings t) = t"
proof (induction t rule: splitLinesWithEndings.induct)
  case 1
  then show ?case by simp
next
  case (2 c cs)
  show ?case
  proof (cases "dropWhile (\<lambda>d. d \<noteq> LF) (c # cs)")
    case Nil
    then show ?thesis by (simp only: splitLinesWithEndings.simps list.case concat.simps append_Nil2)
  next
    case (Cons n rest)
    have "takeWhile (\<lambda>d. d \<noteq> LF) (c # cs) @ n # rest = c # cs"
      by (metis Cons takeWhile_dropWhile_id)
    with Cons 2 [OF Cons] show ?thesis by (simp del: dropWhile.simps takeWhile.simps)
  qed
qed

lemma lines_nonempty: "l \<in> set (splitLinesWithEndings t) \<Longrightarrow> l \<noteq> []"
proof (induction t rule: splitLinesWithEndings.induct)
  case 1
  then show ?case by simp
next
  case (2 c cs)
  then show ?case
    by (cases "dropWhile (\<lambda>d. d \<noteq> LF) (c # cs)") (auto simp del: dropWhile.simps takeWhile.simps)
qed

lemma spans_nth:
  "i < length ls \<Longrightarrow>
     spans_from off ls ! i = \<lparr>ls_start = off + length (concat (take i ls)), ls_end = off + length (concat (take (Suc i) ls))\<rparr>"
  by (induction ls arbitrary: off i) (auto simp: nth_Cons' take_Cons' gr0_conv_Suc)

lemma length_spans [simp]: "length (spans_from off ls) = length ls"
  by (induction ls arbitrary: off) auto

text \<open>Where line \<open>i\<close> of a text starts; line \<open>i\<close> ends where the next one starts.\<close>

definition line_at :: "jstext \<Rightarrow> nat \<Rightarrow> nat" where
  "line_at t i = length (concat (take i (splitLinesWithEndings t)))"

abbreviation line_count :: "jstext \<Rightarrow> nat" where
  "line_count t \<equiv> length (splitLinesWithEndings t)"

lemma span_nth: "i < line_count t \<Longrightarrow> getLineSpans t ! i = \<lparr>ls_start = line_at t i, ls_end = line_at t (Suc i)\<rparr>"
  by (simp add: getLineSpans_def spans_nth line_at_def)

lemma length_getLineSpans [simp]: "length (getLineSpans t) = line_count t"
  by (simp add: getLineSpans_def)

lemma line_at_0 [simp]: "line_at t 0 = 0"
  by (simp add: line_at_def)

lemma line_at_end: "line_count t \<le> i \<Longrightarrow> line_at t i = length t"
  by (simp add: line_at_def concat_lines)

lemma line_at_Suc: "i < line_count t \<Longrightarrow> line_at t i < line_at t (Suc i)"
  using lines_nonempty [of "splitLinesWithEndings t ! i" t]
  by (simp add: line_at_def take_Suc_conv_app_nth)

lemma line_at_mono: "i \<le> j \<Longrightarrow> line_at t i \<le> line_at t j"
proof (induction j)
  case 0
  then show ?case by simp
next
  case (Suc j)
  then show ?case
    using line_at_Suc [of j t] line_at_end [of t j] line_at_end [of t "Suc j"]
    by (cases "i \<le> j") (force simp: le_Suc_eq not_less)+
qed

lemma line_at_less: "line_at t i < line_at t j \<Longrightarrow> i < j"
  by (meson line_at_mono not_le)

lemma line_at_le_length: "line_at t i \<le> length t"
  using line_at_mono [of i "max i (line_count t)" t] line_at_end [of t "max i (line_count t)"] by simp

lemma js_slice_append:
  assumes "a \<le> b" "b \<le> c"
  shows "js_slice a b xs @ js_slice b c xs = js_slice a c xs"
proof -
  have "c - a = (b - a) + (c - b)" "drop (b - a) (drop a xs) = drop b xs"
    using assms by (simp_all add: add.commute)
  then show ?thesis by (simp only: js_slice_def take_add)
qed

lemma js_slice_full [simp]: "js_slice 0 (length xs) xs = xs"
  by (simp add: js_slice_def)

lemma js_slice_same [simp]: "js_slice a a xs = []"
  by (simp add: js_slice_def)

lemma length_js_slice [simp]: "length (js_slice a b xs) = min (b - a) (length xs - a)"
  by (simp add: js_slice_def)

lemma concat_slice:
  assumes "i \<le> j"
  shows "concat (js_slice i j (splitLinesWithEndings t)) = js_slice (line_at t i) (line_at t j) t"
proof -
  let ?ls = "splitLinesWithEndings t"
  have tk: "take j ?ls = take i ?ls @ js_slice i j ?ls"
    using assms by (simp add: js_slice_def take_add [symmetric])
  define A B C where "A = concat (take i ?ls)" and "B = concat (js_slice i j ?ls)" and "C = concat (drop j ?ls)"
  have "concat (take j ?ls) @ C = t"
    unfolding C_def by (simp only: concat_append [symmetric] append_take_drop_id concat_lines)
  then have t: "t = A @ B @ C" by (simp add: tk A_def B_def)
  have "line_at t i = length A" "line_at t j = length A + length B"
    by (simp_all add: line_at_def tk A_def B_def)
  then have "js_slice (line_at t i) (line_at t j) t = js_slice (length A) (length A + length B) (A @ B @ C)"
    by (simp only: t [symmetric])
  then show ?thesis by (simp add: js_slice_def B_def)
qed

section \<open>The closed form of the replacement loop\<close>

fun ranges_ok :: "nat \<Rightarrow> matched_edit list \<Rightarrow> nat \<Rightarrow> bool" where
  "ranges_ok pos [] stop \<longleftrightarrow> pos \<le> stop"
| "ranges_ok pos (r # rs) stop \<longleftrightarrow> pos \<le> me_matchIndex r \<and> ranges_ok (me_end r) rs stop"

fun replaced :: "nat \<Rightarrow> matched_edit list \<Rightarrow> nat \<Rightarrow> jstext \<Rightarrow> jstext" where
  "replaced pos [] stop t = js_slice pos stop t"
| "replaced pos (r # rs) stop t =
     js_slice pos (me_matchIndex r) t @ me_newText r @ replaced (me_end r) rs stop t"

lemma ranges_ok_le: "ranges_ok pos rs stop \<Longrightarrow> pos \<le> stop"
  by (induction rs arbitrary: pos) (auto dest: add_leD1 order.trans)

lemma ranges_ok_append:
  "ranges_ok pos rs mid \<Longrightarrow> ranges_ok mid ss stop \<Longrightarrow> ranges_ok pos (rs @ ss) stop"
proof (induction rs arbitrary: pos)
  case Nil
  then show ?case by (cases ss) auto
next
  case (Cons r rs)
  then show ?case by simp
qed

lemma replaced_append:
  "ranges_ok pos rs mid \<Longrightarrow> ranges_ok mid ss stop \<Longrightarrow>
     replaced pos (rs @ ss) stop t = replaced pos rs mid t @ replaced mid ss stop t"
proof (induction rs arbitrary: pos)
  case Nil
  then show ?case
    by (cases ss) (auto simp: js_slice_append simp flip: append_assoc)
next
  case (Cons r rs)
  then show ?case by simp
qed

lemma applyReplacements_slice:
  assumes "ranges_ok pos rs stop" "off \<le> pos" "stop \<le> length t"
  shows "applyReplacements (js_slice off stop t) rs off = js_slice off pos t @ replaced pos rs stop t"
  using assms
proof (induction rs arbitrary: pos)
  case Nil
  then show ?case by (simp add: applyReplacements_def js_slice_append)
next
  case (Cons r rs)
  let ?rest = "replaced (me_end r) rs stop t"
  have IH: "applyReplacements (js_slice off stop t) rs off = js_slice off (me_end r) t @ ?rest"
    using Cons by simp
  have le: "off \<le> me_matchIndex r" "me_end r \<le> stop" "pos \<le> me_matchIndex r"
    using Cons.prems ranges_ok_le by auto
  have split: "js_slice off (me_end r) t = js_slice off (me_matchIndex r) t @ js_slice (me_matchIndex r) (me_end r) t"
    using le by (simp add: js_slice_append)
  have len: "length (js_slice off (me_matchIndex r) t) = me_matchIndex r - off"
            "length (js_slice off (me_end r) t) = me_end r - off"
    using le Cons.prems(3) by auto
  have "take (me_matchIndex r - off) (js_slice off (me_end r) t @ ?rest) = js_slice off (me_matchIndex r) t"
    unfolding split using len(1) by simp
  moreover have "drop (me_end r - off) (js_slice off (me_end r) t @ ?rest) = ?rest"
    using len(2) by simp
  moreover have "nat (int (me_matchIndex r) - int off) = me_matchIndex r - off"
      "nat (int (me_matchIndex r) - int off + int (me_matchLength r)) = me_end r - off"
    using le by auto
  ultimately have "replace_one off r (js_slice off (me_end r) t @ ?rest) =
      js_slice off (me_matchIndex r) t @ me_newText r @ ?rest"
    by (simp add: replace_one_def Let_def)
  moreover have "js_slice off pos t @ js_slice pos (me_matchIndex r) t = js_slice off (me_matchIndex r) t"
    using le Cons.prems(2) by (simp add: js_slice_append)
  ultimately show ?case using IH by (simp add: applyReplacements_def flip: append_assoc)
qed

text \<open>Gaps and cut-out pieces woven together again.\<close>

fun weave :: "'a list list \<Rightarrow> 'a list list \<Rightarrow> 'a list" where
  "weave (g # gs) (x # xs) = g @ x @ weave gs xs"
| "weave gs [] = concat gs"
| "weave [] xs = concat xs"

fun gaps :: "nat \<Rightarrow> matched_edit list \<Rightarrow> nat \<Rightarrow> jstext \<Rightarrow> jstext list" where
  "gaps pos [] stop t = [js_slice pos stop t]"
| "gaps pos (r # rs) stop t = js_slice pos (me_matchIndex r) t # gaps (me_end r) rs stop t"

lemma length_gaps [simp]: "length (gaps pos rs stop t) = Suc (length rs)"
  by (induction rs arbitrary: pos) auto

lemma replaced_weave: "replaced pos rs stop t = weave (gaps pos rs stop t) (map me_newText rs)"
  by (induction rs arbitrary: pos) auto

lemma slice_weave:
  "ranges_ok pos rs stop \<Longrightarrow>
     js_slice pos stop t = weave (gaps pos rs stop t) (map (\<lambda>r. js_slice (me_matchIndex r) (me_end r) t) rs)"
proof (induction rs arbitrary: pos)
  case Nil
  then show ?case by simp
next
  case (Cons r rs)
  moreover have "me_end r \<le> stop" using Cons.prems ranges_ok_le by auto
  ultimately show ?case
    using js_slice_append [of "me_matchIndex r" "me_end r" stop t] js_slice_append [of pos "me_matchIndex r" stop t]
    by simp
qed

lemma ranges_ok_iff:
  "ranges_ok pos rs stop \<longleftrightarrow>
     pos \<le> stop \<and> (\<forall>r \<in> set rs. pos \<le> me_matchIndex r \<and> me_end r \<le> stop) \<and>
     sorted_wrt (\<lambda>r q. me_end r \<le> me_matchIndex q) rs"
proof (induction rs arbitrary: pos)
  case Nil
  then show ?case by simp
next
  case (Cons r rs)
  then show ?case by (fastforce simp: Cons.IH)
qed

section \<open>The lines a replacement touches\<close>

definition touches_line :: "jstext \<Rightarrow> matched_edit \<Rightarrow> nat \<Rightarrow> bool" where
  "touches_line t r i \<longleftrightarrow>
     me_matchIndex r < line_at t (Suc i) \<and> (line_at t i \<le> me_matchIndex r \<or> line_at t i < me_end r)"

lemma line_range_cases:
  assumes "getReplacementLineRange (getLineSpans t) r = Inr (a, b)"
  shows "a < b" "b \<le> line_count t" "line_at t a \<le> me_matchIndex r" "me_matchIndex r < line_at t (Suc a)"
    "me_end r \<le> line_at t b" "\<And>i. a \<le> i \<Longrightarrow> Suc i < b \<Longrightarrow> line_at t (Suc i) < me_end r"
proof -
  obtain e where a: "find_index (\<lambda>l. ls_start l \<le> me_matchIndex r \<and> me_matchIndex r < ls_end l) (getLineSpans t) = Some a"
    and e: "scan_up (\<lambda>i. \<not> ls_end (getLineSpans t ! i) < me_end r) a (line_count t) = Some e" and b: "b = Suc e"
    using assms by (auto simp: getReplacementLineRange_def split: option.splits)
  note A = find_index_SomeD [OF a] and E = scan_up_SomeD [OF e]
  show "a < b" "b \<le> line_count t" using E b by auto
  show "line_at t a \<le> me_matchIndex r" "me_matchIndex r < line_at t (Suc a)" using A by (auto simp: span_nth)
  show "me_end r \<le> line_at t b" using E b by (auto simp: span_nth not_less)
  show "line_at t (Suc i) < me_end r" if "a \<le> i" "Suc i < b" for i
    using E b that by (auto simp: span_nth)
qed

lemma line_range_touches:
  assumes r: "getReplacementLineRange (getLineSpans t) r = Inr (a, b)" and i: "i < line_count t"
  shows "a \<le> i \<and> i < b \<longleftrightarrow> touches_line t r i"
proof
  note R = line_range_cases [OF r]
  assume ab: "a \<le> i \<and> i < b"
  then have "line_at t (Suc a) \<le> line_at t (Suc i)" by (intro line_at_mono) simp
  moreover have "line_at t i \<le> me_matchIndex r \<or> line_at t i < me_end r"
  proof (cases "i = a")
    case True
    then show ?thesis using R(3) by simp
  next
    case False
    with ab obtain k where "i = Suc k" "a \<le> k" by (cases i) auto
    then show ?thesis using ab R(6) [of k] by simp
  qed
  ultimately show "touches_line t r i" using R(4) by (simp add: touches_line_def)
next
  note R = line_range_cases [OF r]
  assume T: "touches_line t r i"
  then have "line_at t a < line_at t (Suc i)" using R(3) by (simp add: touches_line_def)
  then have "a \<le> i" using line_at_less by fastforce
  moreover have "line_at t i < line_at t b"
  proof -
    have "line_at t (Suc a) \<le> line_at t b" using R(1) by (intro line_at_mono) simp
    then show ?thesis using T R(4,5) by (auto simp: touches_line_def)
  qed
  ultimately show "a \<le> i \<and> i < b" using line_at_less by blast
qed

lemma line_range_total:
  assumes "me_matchIndex r < length t" "me_end r \<le> length t"
  shows "\<exists>a b. getReplacementLineRange (getLineSpans t) r = Inr (a, b)"
proof -
  let ?P = "\<lambda>l. ls_start l \<le> me_matchIndex r \<and> me_matchIndex r < ls_end l"
  have "\<exists>i < line_count t. line_at t i \<le> me_matchIndex r \<and> me_matchIndex r < line_at t (Suc i)"
  proof -
    let ?i = "LEAST i. me_matchIndex r < line_at t i"
    have ex: "me_matchIndex r < line_at t (line_count t)" using assms by (simp add: line_at_end)
    then have L: "me_matchIndex r < line_at t ?i" "?i \<le> line_count t" by (auto intro: LeastI Least_le)
    then obtain j where j: "?i = Suc j" by (cases ?i) auto
    then have "\<not> me_matchIndex r < line_at t j" by (metis lessI not_less_Least)
    then show ?thesis using L j by (intro exI [of _ j]) auto
  qed
  then obtain i where i: "i < line_count t" "?P (getLineSpans t ! i)" by (auto simp: span_nth)
  then obtain a where a: "find_index ?P (getLineSpans t) = Some a"
    using find_index_NoneD [of ?P "getLineSpans t" "getLineSpans t ! i"] by (cases "find_index ?P (getLineSpans t)") auto
  then have al: "a < line_count t" using find_index_SomeD [OF a] by simp
  have "ls_end (getLineSpans t ! (line_count t - 1)) = length t"
    using al by (simp add: span_nth line_at_end)
  then have "scan_up (\<lambda>i. \<not> ls_end (getLineSpans t ! i) < me_end r) a (line_count t) \<noteq> None"
    using al assms(2) by (intro notI) (drule scan_up_NoneD [where j = "line_count t - 1"], auto)
  with a show ?thesis by (auto simp: getReplacementLineRange_def)
qed

section \<open>Groups of touched lines\<close>

text \<open>
  What the grouping loop maintains, the newest group first: the groups are disjoint runs of lines in
  order, they hold the replacements seen so far, each within the lines of its group, and together
  they are the lines those replacements touch.
\<close>

definition groups_inv :: "jstext \<Rightarrow> matched_edit list \<Rightarrow> line_group list \<Rightarrow> bool" where
  "groups_inv t seen gs \<longleftrightarrow>
     (\<forall>g \<in> set gs. lg_startLine g < lg_endLine g \<and> lg_endLine g \<le> line_count t \<and>
        (\<forall>r \<in> set (lg_replacements g). line_at t (lg_startLine g) \<le> me_matchIndex r \<and> me_end r \<le> line_at t (lg_endLine g))) \<and>
     sorted_wrt (\<lambda>g h. lg_endLine h \<le> lg_startLine g) gs \<and>
     concat (map lg_replacements (rev gs)) = seen \<and>
     (\<forall>i < line_count t. (\<exists>g \<in> set gs. lg_startLine g \<le> i \<and> i < lg_endLine g) \<longleftrightarrow> (\<exists>r \<in> set seen. touches_line t r i))"

lemma groups_inv_extend:
  assumes G: "groups_inv t seen (g # gs)" and r: "getReplacementLineRange (getLineSpans t) r = Inr (a, b)"
    and old: "line_at t (lg_startLine g) \<le> me_matchIndex r" and common: "a < lg_endLine g"
  shows "groups_inv t (seen @ [r])
     (g\<lparr>lg_endLine := max (lg_endLine g) b, lg_replacements := lg_replacements g @ [r]\<rparr> # gs)"
proof -
  note R = line_range_cases [OF r]
  let ?g = "g\<lparr>lg_endLine := max (lg_endLine g) b, lg_replacements := lg_replacements g @ [r]\<rparr>"
  have start: "lg_startLine g \<le> a" using old R(4) line_at_less [of t "lg_startLine g" "Suc a"] by simp
  have mono: "line_at t (lg_endLine g) \<le> line_at t (max (lg_endLine g) b)" "line_at t b \<le> line_at t (max (lg_endLine g) b)"
    by (simp_all add: line_at_mono)
  have lines: "(lg_startLine g \<le> i \<and> i < max (lg_endLine g) b) \<longleftrightarrow>
      (lg_startLine g \<le> i \<and> i < lg_endLine g) \<or> (a \<le> i \<and> i < b)" for i
    using start common by auto
  have seen: "\<forall>i < line_count t. (\<exists>h \<in> set (?g # gs). lg_startLine h \<le> i \<and> i < lg_endLine h) \<longleftrightarrow>
      (\<exists>q \<in> set (seen @ [r]). touches_line t q i)"
  proof (intro allI impI)
    fix i assume i: "i < line_count t"
    have "(\<exists>h \<in> set (?g # gs). lg_startLine h \<le> i \<and> i < lg_endLine h) \<longleftrightarrow>
        (\<exists>h \<in> set (g # gs). lg_startLine h \<le> i \<and> i < lg_endLine h) \<or> (a \<le> i \<and> i < b)"
      using lines by auto
    also have "\<dots> \<longleftrightarrow> (\<exists>q \<in> set seen. touches_line t q i) \<or> touches_line t r i"
      using G i line_range_touches [OF r i] by (simp add: groups_inv_def)
    finally show "(\<exists>h \<in> set (?g # gs). lg_startLine h \<le> i \<and> i < lg_endLine h) \<longleftrightarrow>
      (\<exists>q \<in> set (seen @ [r]). touches_line t q i)" by auto
  qed
  have each: "lg_startLine h < lg_endLine h \<and> lg_endLine h \<le> line_count t \<and>
        (\<forall>q \<in> set (lg_replacements h). line_at t (lg_startLine h) \<le> me_matchIndex q \<and> me_end q \<le> line_at t (lg_endLine h))"
    if h: "h \<in> set (?g # gs)" for h
  proof (cases "h = ?g")
    case True
    then show ?thesis using G R(2,5) old mono by (force simp: groups_inv_def)
  next
    case False
    then show ?thesis using G h by (auto simp: groups_inv_def)
  qed
  have rest: "sorted_wrt (\<lambda>g h. lg_endLine h \<le> lg_startLine g) (?g # gs)"
      "concat (map lg_replacements (rev (?g # gs))) = seen @ [r]"
    using G by (auto simp: groups_inv_def)
  show ?thesis unfolding groups_inv_def using each rest seen by blast
qed

lemma groups_inv_new:
  assumes G: "groups_inv t seen gs" and r: "getReplacementLineRange (getLineSpans t) r = Inr (a, b)"
    and after: "\<And>g. g \<in> set gs \<Longrightarrow> lg_endLine g \<le> a"
  shows "groups_inv t (seen @ [r]) (\<lparr>lg_startLine = a, lg_endLine = b, lg_replacements = [r]\<rparr> # gs)"
proof -
  note R = line_range_cases [OF r]
  have seen: "(\<exists>h \<in> set (\<lparr>lg_startLine = a, lg_endLine = b, lg_replacements = [r]\<rparr> # gs). lg_startLine h \<le> i \<and> i < lg_endLine h)
      \<longleftrightarrow> (\<exists>q \<in> set (seen @ [r]). touches_line t q i)" if i: "i < line_count t" for i
    using G i line_range_touches [OF r i] by (auto simp: groups_inv_def)
  then show ?thesis using G R(1,2,3,5) after unfolding groups_inv_def by auto
qed

lemma group_replacements_inv:
  assumes "group_replacements (getLineSpans t) rs gs = Inr out" "groups_inv t seen gs"
    "sorted (map me_matchIndex rs)"
    "\<And>g gs' r. gs = g # gs' \<Longrightarrow> r \<in> set rs \<Longrightarrow> line_at t (lg_startLine g) \<le> me_matchIndex r"
  shows "groups_inv t (seen @ rs) (rev out)"
  using assms
proof (induction rs arbitrary: seen gs)
  case Nil
  then show ?case by auto
next
  case (Cons r rs)
  obtain a b where r: "getReplacementLineRange (getLineSpans t) r = Inr (a, b)"
    using Cons.prems(1) by (auto split: sum.splits)
  note R = line_range_cases [OF r]
  have later: "me_matchIndex r \<le> me_matchIndex q" if "q \<in> set rs" for q using Cons.prems(3) that by simp
  let ?new = "\<lparr>lg_startLine = a, lg_endLine = b, lg_replacements = [r]\<rparr>"
  have new: ?case if "groups_inv t (seen @ [r]) (?new # gs)" "group_replacements (getLineSpans t) rs (?new # gs) = Inr out"
  proof -
    have "groups_inv t ((seen @ [r]) @ rs) (rev out)"
      using Cons.prems(3) R(3) later by (intro Cons.IH [OF that(2,1)]) (auto intro: order.trans)
    then show ?thesis by simp
  qed
  show ?case
  proof (cases gs)
    case Nil
    then show ?thesis using Cons.prems(1,2) r groups_inv_new [OF _ r, of seen gs] by (intro new) auto
  next
    case (Cons g gs')
    have old: "line_at t (lg_startLine g) \<le> me_matchIndex r" using Cons.prems(4) Cons by simp
    show ?thesis
    proof (cases "a < lg_endLine g")
      case True
      let ?g = "g\<lparr>lg_endLine := max (lg_endLine g) b, lg_replacements := lg_replacements g @ [r]\<rparr>"
      have "group_replacements (getLineSpans t) rs (?g # gs') = Inr out"
        using Cons.prems(1) r Cons True by simp
      moreover have "groups_inv t (seen @ [r]) (?g # gs')"
        using groups_inv_extend [OF _ r old True, of seen gs'] Cons.prems(2) Cons by simp
      ultimately have "groups_inv t ((seen @ [r]) @ rs) (rev out)"
        using Cons.prems(3,4) Cons by (intro Cons.IH) auto
      then show ?thesis by simp
    next
      case False
      have "lg_endLine h \<le> a" if "h \<in> set gs" for h
        using that False Cons Cons.prems(2) by (fastforce simp: groups_inv_def)
      then show ?thesis using Cons.prems(1,2) r Cons False groups_inv_new [OF _ r, of seen gs] by (intro new) auto
    qed
  qed
qed

lemma group_replacements_total:
  assumes "\<And>r. r \<in> set rs \<Longrightarrow> me_matchIndex r < length t \<and> me_end r \<le> length t"
  shows "\<exists>out. group_replacements (getLineSpans t) rs gs = Inr out"
  using assms
proof (induction rs arbitrary: gs)
  case Nil
  then show ?case by simp
next
  case (Cons r rs)
  then obtain a b where "getReplacementLineRange (getLineSpans t) r = Inr (a, b)"
    using line_range_total by (metis list.set_intros(1))
  with Cons show ?case by (auto split: list.splits)
qed

section \<open>Kept blocks and rewritten pieces\<close>

text \<open>The lines outside the given runs of lines, from line \<open>i\<close> on.\<close>

fun kept_blocks :: "jstext list \<Rightarrow> nat \<Rightarrow> (nat \<times> nat) list \<Rightarrow> jstext list" where
  "kept_blocks ls i [] = [concat (drop i ls)]"
| "kept_blocks ls i ((a, b) # runs) = concat (js_slice i a ls) # kept_blocks ls b runs"

definition run_of :: "line_group \<Rightarrow> nat \<times> nat" where
  "run_of g = (lg_startLine g, lg_endLine g)"

definition rewritten :: "jstext \<Rightarrow> line_group \<Rightarrow> jstext" where
  "rewritten base g =
     applyReplacements (js_slice (line_at base (lg_startLine g)) (line_at base (lg_endLine g)) base)
       (lg_replacements g) (line_at base (lg_startLine g))"

lemma render_groups_weave:
  assumes "\<And>g. g \<in> set gs \<Longrightarrow> lg_startLine g < lg_endLine g \<and> lg_endLine g \<le> line_count base"
  shows "render_groups ls base (getLineSpans base) i gs = weave (kept_blocks ls i (map run_of gs)) (map (rewritten base) gs)"
  using assms
proof (induction gs arbitrary: i)
  case Nil
  then show ?case by simp
next
  case (Cons g gs)
  moreover have "Suc (lg_endLine g - 1) = lg_endLine g" "lg_startLine g < line_count base" "lg_endLine g - 1 < line_count base"
    using Cons.prems [of g] by auto
  ultimately show ?case by (simp add: Let_def run_of_def rewritten_def span_nth)
qed

lemma replaced_groups_weave:
  assumes "sorted_wrt (\<lambda>g h. lg_endLine g \<le> lg_startLine h) gs"
    and "\<And>g. g \<in> set gs \<Longrightarrow> i \<le> lg_startLine g \<and> lg_startLine g < lg_endLine g \<and> lg_endLine g \<le> line_count t \<and>
       (\<forall>r \<in> set (lg_replacements g). line_at t (lg_startLine g) \<le> me_matchIndex r \<and> me_end r \<le> line_at t (lg_endLine g))"
    and "sorted_wrt (\<lambda>r q. me_end r \<le> me_matchIndex q) (concat (map lg_replacements gs))"
  shows "ranges_ok (line_at t i) (concat (map lg_replacements gs)) (length t) \<and>
     replaced (line_at t i) (concat (map lg_replacements gs)) (length t) t =
       weave (kept_blocks (splitLinesWithEndings t) i (map run_of gs)) (map (rewritten t) gs)"
  using assms
proof (induction gs arbitrary: i)
  case Nil
  have "concat (drop i (splitLinesWithEndings t)) = js_slice (line_at t i) (length t) t"
    using concat_slice [of i "max i (line_count t)" t] by (simp add: js_slice_def line_at_end)
  then show ?case by (simp add: line_at_le_length)
next
  case (Cons g gs)
  let ?a = "line_at t (lg_startLine g)" and ?b = "line_at t (lg_endLine g)"
  let ?rs = "concat (map lg_replacements gs)"
  have G: "i \<le> lg_startLine g" "lg_startLine g < lg_endLine g" "lg_endLine g \<le> line_count t" using Cons.prems(2) by auto
  have IH: "ranges_ok ?b ?rs (length t)"
    "replaced ?b ?rs (length t) t = weave (kept_blocks (splitLinesWithEndings t) (lg_endLine g) (map run_of gs)) (map (rewritten t) gs)"
    using Cons.IH [of "lg_endLine g"] Cons.prems by (auto simp: sorted_wrt_append)
  have le: "line_at t i \<le> ?a" "?a \<le> ?b" using G by (auto intro: line_at_mono)
  have here: "ranges_ok ?a (lg_replacements g) ?b"
    using Cons.prems(2,3) le by (auto simp: ranges_ok_iff sorted_wrt_append)
  have from_i: "ranges_ok (line_at t i) (lg_replacements g) ?b"
    using here le by (auto simp: ranges_ok_iff)
  have "replaced (line_at t i) (lg_replacements g) ?b t = js_slice (line_at t i) ?a t @ replaced ?a (lg_replacements g) ?b t"
    using replaced_append [of "line_at t i" "[]" ?a "lg_replacements g" ?b t] le here by simp
  moreover have "replaced ?a (lg_replacements g) ?b t = rewritten t g"
    using applyReplacements_slice [OF here order_refl line_at_le_length] by (simp add: rewritten_def)
  ultimately show ?case
    using IH replaced_append [OF from_i IH(1), of t] ranges_ok_append [OF from_i IH(1)] concat_slice [OF G(1), of t]
    by (simp add: run_of_def [of g])
qed

section \<open>The matching loop\<close>

lemma overlap_None:
  "overlap path ms = None \<Longrightarrow> (\<And>m. m \<in> set ms \<Longrightarrow> me_end m \<le> n) \<Longrightarrow>
     ms \<noteq> [] \<Longrightarrow> ranges_ok (me_matchIndex (hd ms)) ms n"
proof (induction path ms rule: overlap.induct)
  case (1 path p c ms)
  then have "ranges_ok (me_matchIndex c) (c # ms) n" "me_end p \<le> me_matchIndex c" by (auto split: if_splits)
  then show ?case by simp
qed auto

text \<open>What the loop stores about edit number \<open>i + k\<close>.\<close>

definition found_exactly :: "jstext \<Rightarrow> edit \<Rightarrow> matched_edit \<Rightarrow> bool" where
  "found_exactly t e m \<longleftrightarrow>
     index_of (ed_oldText e) t = Some (me_matchIndex m) \<and> me_matchLength m = length (ed_oldText e) \<and>
     me_newText m = ed_newText e"

lemma match_edits_exact:
  "match_edits nfkc base path n i es = Inr ms \<Longrightarrow> (\<And>e. e \<in> set es \<Longrightarrow> index_of (ed_oldText e) base \<noteq> None) \<Longrightarrow>
     list_all2 (found_exactly base) es ms"
proof (induction es arbitrary: i ms)
  case Nil
  then show ?case by simp
next
  case (Cons e es)
  then obtain k where "index_of (ed_oldText e) base = Some k" by fastforce
  with Cons show ?case
    by (auto simp: Let_def fuzzyFindText_def found_exactly_def split: if_splits sum.splits)
qed

lemma found_exactly_slice:
  "found_exactly t e m \<Longrightarrow> js_slice (me_matchIndex m) (me_end m) t = ed_oldText e \<and> me_end m \<le> length t"
  by (auto simp: found_exactly_def js_slice_def index_of_take dest: index_of_length)

lemma list_all2_sort_key:
  assumes "list_all2 P es ms"
  shows "\<exists>es'. mset es' = mset es \<and> list_all2 P es' (sort_key f ms)"
proof -
  have "list_all2 (\<lambda>m e. P e m) ms es" using assms by (simp add: list_all2_conv_all_nth)
  then obtain es' where "list_all2 (\<lambda>m e. P e m) (sort_key f ms) es'" "mset es' = mset es"
    using list_all2_reorder_left_invariance [of _ ms es "sort_key f ms"] by auto
  then show ?thesis by (auto simp: list_all2_conv_all_nth)
qed

section \<open>Line endings\<close>

text \<open>Every line feed follows a carriage return and every carriage return precedes a line feed.\<close>

fun crlf_only :: "jstext \<Rightarrow> bool" where
  "crlf_only (a # b # t) \<longleftrightarrow> (if a = CR then b = LF \<and> crlf_only t else a \<noteq> LF \<and> crlf_only (b # t))"
| "crlf_only [a] \<longleftrightarrow> a \<noteq> CR \<and> a \<noteq> LF"
| "crlf_only [] \<longleftrightarrow> True"

lemma normalizeToLF_simps [simp]:
  "normalizeToLF [] = []"
  "normalizeToLF (CR # LF # t) = LF # normalizeToLF t"
  "c \<noteq> CR \<Longrightarrow> normalizeToLF (c # t) = c # normalizeToLF t"
  by (simp_all add: normalizeToLF_def) (cases t, simp_all)

lemma CR_not_in_normalizeToLF: "CR \<notin> set (normalizeToLF t)"
  by (auto simp: normalizeToLF_def)

lemma normalizeToLF_id: "CR \<notin> set t \<Longrightarrow> normalizeToLF t = t"
  by (induction t) auto

lemma restoreLineEndings_simps [simp]:
  "restoreLineEndings t Lf = t"
  "restoreLineEndings [] e = []"
  "restoreLineEndings (c # t) CrLf = (if c = LF then [CR, LF] else [c]) @ restoreLineEndings t CrLf"
  by (auto simp: restoreLineEndings_def)

lemma restoreLineEndings_append: "restoreLineEndings (s @ t) e = restoreLineEndings s e @ restoreLineEndings t e"
  by (simp add: restoreLineEndings_def)

lemma crlf_only_Cons: "a \<noteq> CR \<Longrightarrow> a \<noteq> LF \<Longrightarrow> crlf_only (a # t) \<longleftrightarrow> crlf_only t"
  by (cases t) auto

lemma crlf_only_restore: "CR \<notin> set t \<Longrightarrow> crlf_only (restoreLineEndings t CrLf)"
  by (induction t) (auto simp: crlf_only_Cons)

lemma restore_normalize_crlf: "crlf_only t \<Longrightarrow> restoreLineEndings (normalizeToLF t) CrLf = t"
  by (induction t rule: crlf_only.induct) (auto split: if_splits)

lemma detect_crlf: "crlf_only t \<Longrightarrow> CR \<in> set t \<Longrightarrow> \<exists>j. index_of [CR, LF] t = Some j \<and> index_of [LF] t = Some (Suc j)"
  by (induction t rule: crlf_only.induct) (auto split: if_splits)

lemma index_of_crlf_CR: "index_of [CR, LF] t \<noteq> None \<Longrightarrow> CR \<in> set t"
  by (auto simp: index_of_None dest: set_mono_sublist)

lemma detect_no_CR: "CR \<notin> set t \<Longrightarrow> detectLineEnding t = Lf"
  using index_of_crlf_CR [of t] by (auto simp: detectLineEnding_def split: option.splits)

lemma restore_normalize_iff:
  "restoreLineEndings (normalizeToLF t) (detectLineEnding t) = t \<longleftrightarrow> CR \<notin> set t \<or> crlf_only t"
proof
  assume eq: "restoreLineEndings (normalizeToLF t) (detectLineEnding t) = t"
  show "CR \<notin> set t \<or> crlf_only t"
  proof (cases "detectLineEnding t")
    case CrLf
    then show ?thesis using eq crlf_only_restore [OF CR_not_in_normalizeToLF, of t] by simp
  next
    case Lf
    then show ?thesis using eq CR_not_in_normalizeToLF [of t] by simp
  qed
next
  assume "CR \<notin> set t \<or> crlf_only t"
  then show "restoreLineEndings (normalizeToLF t) (detectLineEnding t) = t"
  proof (cases "CR \<in> set t")
    case True
    then have "detectLineEnding t = CrLf" using \<open>CR \<notin> set t \<or> crlf_only t\<close> detect_crlf [of t]
      by (auto simp: detectLineEnding_def)
    then show ?thesis using True \<open>CR \<notin> set t \<or> crlf_only t\<close> restore_normalize_crlf by simp
  next
    case False
    then show ?thesis by (simp add: detect_no_CR normalizeToLF_id)
  qed
qed

lemma restore_weave:
  "length gs = Suc (length xs) \<Longrightarrow>
     restoreLineEndings (weave gs xs) e = weave (map (\<lambda>t. restoreLineEndings t e) gs) (map (\<lambda>t. restoreLineEndings t e) xs)"
proof (induction gs xs rule: weave.induct)
  case (1 g gs x xs)
  then show ?case by (simp add: restoreLineEndings_append)
next
  case (2 gs)
  then show ?case by (cases gs) auto
qed simp

end
