(* ===== verification/Edit_Tool_Lemmas.thy ===== *)
theory Edit_Tool_Lemmas
  imports Edit_Tool Text_Edit_Lemmas
begin

text \<open>
  The invariant of concurrent edits: the files are those of the serial specification, and a call
  that is about to write still sees in its file the text it computed its edit from. It rests on the
  contract of the queue alone: while a call runs, every other call of its key is released or queued.
\<close>

section \<open>The invariant\<close>

definition is_finished :: "edit_phase \<Rightarrow> bool" where
  "is_finished ph \<longleftrightarrow> (case ph of Finished r e \<Rightarrow> True | _ \<Rightarrow> False)"

definition runs_ok :: "edit_system \<Rightarrow> bool" where
  "runs_ok s \<longleftrightarrow>
     (\<forall>i. es_runs s i \<noteq> None \<longleftrightarrow> i < length (mq_calls (es_queue s)) \<and> phase_of (es_queue s) i \<noteq> Queued) \<and>
     (\<forall>i ph. es_runs s i = Some ph \<longrightarrow> \<not> is_finished ph \<longrightarrow> phase_of (es_queue s) i = Running)"

definition writes_ok :: "(jstext \<Rightarrow> jstext) \<Rightarrow> (nat \<Rightarrow> edit_call) \<Rightarrow> edit_system \<Rightarrow> bool" where
  "writes_ok nfkc inputs s \<longleftrightarrow>
     (\<forall>i final res. es_runs s i = Some (Writing final res) \<longrightarrow>
        (\<exists>raw. es_files s (file_of s i) = Some raw \<and>
           edited_text nfkc raw (ec_edits (input_of inputs s i)) (ec_path (input_of inputs s i)) = Inr (final, res)))"

definition es_inv :: "(jstext \<Rightarrow> jstext) \<Rightarrow> (nat \<Rightarrow> edit_call) \<Rightarrow> (string \<Rightarrow> jstext option) \<Rightarrow> edit_system \<Rightarrow> bool" where
  "es_inv nfkc inputs files s \<longleftrightarrow>
     mq_inv (es_queue s) \<and> runs_ok s \<and> writes_ok nfkc inputs s \<and> es_files s = serial nfkc inputs files s"

lemma es_init_inv: "es_inv nfkc inputs files (es_init files)"
  by (simp add: es_inv_def es_init_def runs_ok_def writes_ok_def mq_init_inv fun_eq_iff serial_def calls_for_def)
     (simp add: mq_init_def)

lemma effect_on_unfinished [simp]:
  "effect_on nfkc c None x = x" "\<not> is_finished ph \<Longrightarrow> effect_on nfkc c (Some ph) x = x"
  by (simp_all add: effect_on_def is_finished_def split: edit_phase.splits)

section \<open>Running calls are alone on their file\<close>

lemma others_not_running:
  assumes q: "mq_inv (es_queue s)" and r: "runs_ok s"
    and i: "es_runs s i = Some ph" "\<not> is_finished ph" and j: "es_runs s j = Some ph'" "file_of s j = file_of s i" "j \<noteq> i"
  shows "j < i" "is_finished ph'"
proof -
  have I: "i < length (mq_calls (es_queue s))" "phase_of (es_queue s) i = Running" using r i unfolding runs_ok_def by blast+
  have J: "j < length (mq_calls (es_queue s))" "phase_of (es_queue s) j \<noteq> Queued" using r j unfolding runs_ok_def by blast+
  have "\<not> i < j"
  proof
    assume "i < j"
    then have "phase_of (es_queue s) i = Released" using running_is_first [OF q J] j(2) by (simp add: file_of_def)
    then show False using I by simp
  qed
  then show less: "j < i" using j(3) by simp
  then have "phase_of (es_queue s) j = Released"
    using running_is_first [OF q I(1), of j] I j(2) by (simp add: file_of_def)
  then show "is_finished ph'" using r j(1) unfolding runs_ok_def by (metis call_phase.distinct(5))
qed

lemma fold_last_change:
  assumes "\<And>x. x \<in> set xs \<Longrightarrow> g x = f x" "f y = id" "\<And>z. z \<in> set zs \<Longrightarrow> f z = id \<and> g z = id"
  shows "fold g (xs @ y # zs) c = g y (fold f (xs @ y # zs) c)"
proof -
  have "fold g zs = id" "fold f zs = id" using assms(3) by (induction zs) auto
  moreover have "fold g xs c = fold f xs c" using assms(1) by (intro fold_cong) auto
  ultimately show ?thesis using assms(2) by simp
qed

lemma filter_upt_split:
  assumes "i < n" "P i"
  shows "filter P [0..<n] = filter P [0..<i] @ i # filter P [Suc i..<n]"
proof -
  have "[0..<n] = [0..<i] @ i # [Suc i..<n]"
    using assms by (metis less_imp_add_positive upt_add_eq_append upt_conv_Cons zero_le add_0)
  then show ?thesis using assms by simp
qed

lemma set_run_sel [simp]:
  "es_queue (set_run i ph s) = es_queue s" "es_files (set_run i ph s) = es_files s"
  "es_runs (set_run i ph s) = (es_runs s)(i \<mapsto> ph)" "file_of (set_run i ph s) j = file_of s j"
  "calls_for (set_run i ph s) k = calls_for s k" "input_of inputs (set_run i ph s) j = input_of inputs s j"
  by (simp_all add: set_run_def file_of_def calls_for_def input_of_def)

text \<open>One step of a running call, whose file then holds \<open>c\<close>.\<close>

lemma advance_inv:
  assumes inv: "es_inv nfkc inputs files s" and i: "es_runs s i = Some ph0" "\<not> is_finished ph0"
    and c: "effect_on nfkc (input_of inputs s i) (Some ph) (es_files s (file_of s i)) = c"
    and w: "\<And>final res. ph = Writing final res \<Longrightarrow> \<exists>raw. c = Some raw \<and>
       edited_text nfkc raw (ec_edits (input_of inputs s i)) (ec_path (input_of inputs s i)) = Inr (final, res)"
  shows "es_inv nfkc inputs files (set_run i ph (s\<lparr>es_files := (es_files s)(file_of s i := c)\<rparr>))"
proof -
  let ?s = "set_run i ph (s\<lparr>es_files := (es_files s)(file_of s i := c)\<rparr>)"
  let ?k = "file_of s i"
  have q: "mq_inv (es_queue s)" and r: "runs_ok s" and wo: "writes_ok nfkc inputs s" and f: "es_files s = serial nfkc inputs files s"
    using inv by (auto simp: es_inv_def)
  have in_range: "i < length (mq_calls (es_queue s))" "phase_of (es_queue s) i = Running" using r i unfolding runs_ok_def by blast+
  have sel: "es_queue ?s = es_queue s" "es_runs ?s = (es_runs s)(i \<mapsto> ph)" "\<And>j. file_of ?s j = file_of s j"
    "\<And>k. calls_for ?s k = calls_for s k" "\<And>j. input_of inputs ?s j = input_of inputs s j"
    "es_files ?s = (es_files s)(?k := c)"
    by (simp_all add: file_of_def calls_for_def input_of_def)
  have "runs_ok ?s"
    using r in_range unfolding runs_ok_def sel by auto
  moreover have "writes_ok nfkc inputs ?s"
    unfolding writes_ok_def
  proof (intro allI impI)
    fix j final res assume j: "es_runs ?s j = Some (Writing final res)"
    show "\<exists>raw. es_files ?s (file_of ?s j) = Some raw \<and>
        edited_text nfkc raw (ec_edits (input_of inputs ?s j)) (ec_path (input_of inputs ?s j)) = Inr (final, res)"
    proof (cases "j = i")
      case True
      then show ?thesis using j w unfolding sel by simp
    next
      case False
      then have J: "es_runs s j = Some (Writing final res)" using j unfolding sel by simp
      have "file_of s j \<noteq> ?k"
        using others_not_running [OF q r i J] False by (auto simp: is_finished_def)
      then show ?thesis using J wo unfolding sel writes_ok_def by simp
    qed
  qed
  moreover have "es_files ?s k = serial nfkc inputs files ?s k" for k
  proof (cases "k = ?k")
    case False
    have "serial nfkc inputs files ?s k = serial nfkc inputs files s k"
      unfolding serial_def sel using False
      by (intro fold_cong refl) (auto simp: calls_for_def)
    then show ?thesis using False f unfolding sel by simp
  next
    case True
    let ?f = "\<lambda>j. effect_on nfkc (input_of inputs s j) (es_runs s j)"
    let ?g = "\<lambda>j. effect_on nfkc (input_of inputs s j) (((es_runs s)(i \<mapsto> ph)) j)"
    let ?n = "length (mq_calls (es_queue s))"
    have split: "calls_for s ?k = filter (\<lambda>j. file_of s j = ?k) [0..<i] @ i # filter (\<lambda>j. file_of s j = ?k) [Suc i..<?n]"
      unfolding calls_for_def using in_range(1) by (rule filter_upt_split) simp
    have later: "es_runs s j = None" if "j \<in> set (filter (\<lambda>j. file_of s j = ?k) [Suc i..<?n])" for j
    proof (rule ccontr)
      assume "es_runs s j \<noteq> None"
      then obtain ph' where "es_runs s j = Some ph'" by auto
      then show False using others_not_running(1) [OF q r i] that by fastforce
    qed
    have "fold ?g (calls_for s ?k) (files ?k) = ?g i (fold ?f (calls_for s ?k) (files ?k))"
      unfolding split
      by (rule fold_last_change) (use later i in \<open>auto simp: fun_eq_iff\<close>)
    also have "fold ?f (calls_for s ?k) (files ?k) = es_files s ?k" by (simp add: f serial_def)
    finally have "fold ?g (calls_for s ?k) (files ?k) = c" using c by simp
    moreover have "serial nfkc inputs files ?s ?k = fold ?g (calls_for s ?k) (files ?k)" by (simp only: serial_def sel)
    ultimately show ?thesis using True unfolding sel by simp
  qed
  ultimately show ?thesis using q by (simp add: es_inv_def sel fun_eq_iff)
qed

lemma advance_inv_same_file:
  assumes "es_inv nfkc inputs files s" "es_runs s i = Some ph0" "\<not> is_finished ph0"
    and "effect_on nfkc (input_of inputs s i) (Some ph) (es_files s (file_of s i)) = es_files s (file_of s i)"
    and "\<And>final res. ph = Writing final res \<Longrightarrow> \<exists>raw. es_files s (file_of s i) = Some raw \<and>
       edited_text nfkc raw (ec_edits (input_of inputs s i)) (ec_path (input_of inputs s i)) = Inr (final, res)"
  shows "es_inv nfkc inputs files (set_run i ph s)"
  using advance_inv [OF assms(1-5)] by simp

section \<open>Queue steps\<close>

lemma queue_step_inv:
  assumes inv: "es_inv nfkc inputs files s" and q: "mq_inv q"
    and calls: "mq_calls q = mq_calls (es_queue s)"
  shows "es_inv nfkc inputs files (s\<lparr>es_queue := q\<rparr>)"
proof -
  let ?s = "s\<lparr>es_queue := q\<rparr>"
  have sel: "file_of ?s i = file_of s i" "input_of inputs ?s i = input_of inputs s i" "calls_for ?s k = calls_for s k" for i k
    by (simp_all add: file_of_def input_of_def calls_for_def calls)
  have "runs_ok ?s \<longleftrightarrow> runs_ok s" "writes_ok nfkc inputs ?s \<longleftrightarrow> writes_ok nfkc inputs s"
    "serial nfkc inputs files ?s = serial nfkc inputs files s"
    by (simp_all add: runs_ok_def calls writes_ok_def sel serial_def fun_eq_iff)
  then show ?thesis using inv q by (simp add: es_inv_def)
qed

lemma register_step_inv:
  assumes inv: "es_inv nfkc inputs files s" and q: "mq_inv q"
    and calls: "mq_calls q = mq_calls (es_queue s) @ [c]" "qc_phase c = Queued"
  shows "es_inv nfkc inputs files (s\<lparr>es_queue := q\<rparr>)"
proof -
  let ?s = "s\<lparr>es_queue := q\<rparr>" and ?n = "length (mq_calls (es_queue s))"
  have r: "runs_ok s" and wo: "writes_ok nfkc inputs s" and f: "es_files s = serial nfkc inputs files s"
    using inv by (auto simp: es_inv_def)
  have none: "es_runs s ?n = None" using r unfolding runs_ok_def by (meson less_irrefl)
  have old: "file_of ?s i = file_of s i" "input_of inputs ?s i = input_of inputs s i" if "i < ?n" for i
    using that by (simp_all add: file_of_def input_of_def calls nth_append)
  have "runs_ok ?s"
    unfolding runs_ok_def
  proof (intro conjI allI impI)
    fix i
    show "(es_runs ?s i \<noteq> None) = (i < length (mq_calls (es_queue ?s)) \<and> phase_of (es_queue ?s) i \<noteq> Queued)"
      using r none calls unfolding runs_ok_def
      by (cases "i < ?n"; cases "i = ?n") (auto simp: nth_append)
  next
    fix i ph assume "es_runs ?s i = Some ph" "\<not> is_finished ph"
    then have "phase_of (es_queue s) i = Running" "i < ?n" using r unfolding runs_ok_def by auto
    then show "phase_of (es_queue ?s) i = Running" using calls by (simp add: nth_append)
  qed
  moreover have "writes_ok nfkc inputs ?s"
    unfolding writes_ok_def
  proof (intro allI impI)
    fix i final res assume "es_runs ?s i = Some (Writing final res)"
    then have i: "es_runs s i = Some (Writing final res)" by simp
    then have "i < ?n" using r unfolding runs_ok_def by blast
    with i show "\<exists>raw. es_files ?s (file_of ?s i) = Some raw \<and>
        edited_text nfkc raw (ec_edits (input_of inputs ?s i)) (ec_path (input_of inputs ?s i)) = Inr (final, res)"
      using wo unfolding writes_ok_def by (simp add: old)
  qed
  moreover have "serial nfkc inputs files ?s k = serial nfkc inputs files s k" for k
  proof -
    have "calls_for ?s k = filter (\<lambda>i. file_of ?s i = k) [0..<?n] @ (if file_of ?s ?n = k then [?n] else [])"
      by (simp add: calls_for_def calls)
    also have "filter (\<lambda>i. file_of ?s i = k) [0..<?n] = calls_for s k"
      unfolding calls_for_def by (intro filter_cong) (auto simp: old)
    finally have "serial nfkc inputs files ?s k =
        fold (\<lambda>i. effect_on nfkc (input_of inputs ?s i) (es_runs s i)) (calls_for s k) (files k)"
      by (simp add: serial_def none)
    also have "\<dots> = serial nfkc inputs files s k"
      unfolding serial_def by (intro fold_cong refl) (auto simp: calls_for_def old)
    finally show ?thesis .
  qed
  ultimately show ?thesis using q f by (simp add: es_inv_def fun_eq_iff)
qed

text \<open>A change of the phase of a call in the queue changes neither files nor inputs.\<close>

lemma phase_step_inv:
  assumes inv: "es_inv nfkc inputs files s" and q: "mq_inv q"
    and calls: "mq_calls q = mq_calls (set_call_phase i ph (es_queue s))" and i: "i < length (mq_calls (es_queue s))"
    and runs: "runs_ok (s\<lparr>es_queue := q, es_runs := f\<rparr>)"
    and same: "\<And>j. f j = es_runs s j \<or> es_runs s j = None \<and> (\<exists>p. f j = Some p \<and> (\<forall>c x. effect_on nfkc c (Some p) x = x) \<and> (\<forall>a b. p \<noteq> Writing a b))"
  shows "es_inv nfkc inputs files (s\<lparr>es_queue := q, es_runs := f\<rparr>)"
proof -
  let ?s = "s\<lparr>es_queue := q, es_runs := f\<rparr>"
  have nth: "qc_key (mq_calls q ! j) = key_of (es_queue s) j" "qc_tag (mq_calls q ! j) = qc_tag (mq_calls (es_queue s) ! j)" for j
    unfolding calls by (simp_all add: set_call_phase_nth)
  have sel: "file_of ?s j = file_of s j" "input_of inputs ?s j = input_of inputs s j" "calls_for ?s k = calls_for s k" for j k
    by (simp_all add: file_of_def input_of_def calls_for_def nth) (simp add: calls)
  have eff: "effect_on nfkc c (f j) = effect_on nfkc c (es_runs s j)" for j c
    using same [of j] by (auto simp: fun_eq_iff)
  have "writes_ok nfkc inputs ?s"
    unfolding writes_ok_def sel
  proof (intro allI impI)
    fix j final res assume "es_runs ?s j = Some (Writing final res)"
    then have "es_runs s j = Some (Writing final res)" using same [of j] by auto
    moreover have "writes_ok nfkc inputs s" using inv by (simp add: es_inv_def)
    ultimately show "\<exists>raw. es_files ?s (file_of s j) = Some raw \<and>
        edited_text nfkc raw (ec_edits (input_of inputs s j)) (ec_path (input_of inputs s j)) = Inr (final, res)"
      by (simp add: writes_ok_def)
  qed
  moreover have "serial nfkc inputs files ?s = serial nfkc inputs files s"
    by (simp add: fun_eq_iff serial_def sel eff)
  ultimately show ?thesis using inv q runs by (simp add: es_inv_def)
qed

lemma es_step_inv:
  assumes inv: "es_inv nfkc inputs files s"
  shows "es_inv nfkc inputs files (es_step nfkc diffLines pcwd inputs s e)"
proof (cases e)
  case (InvokeEdit tag)
  show ?thesis
  proof (cases "validateEditInput (inputs tag)")
    case (Inr c)
    have "mq_inv (fst (mq_step pcwd (es_queue s) (Call tag (ec_absolutePath c))))"
      using inv mq_step_inv by (metis es_inv_def prod.collapse)
    then show ?thesis using InvokeEdit Inr inv by (simp add: queue_step_inv)
  qed (use InvokeEdit inv in simp)
next
  case (PathResolved r)
  have q: "mq_inv (fst (register pcwd r (es_queue s)))" using inv register_inv by (simp add: es_inv_def)
  have "mq_calls (fst (register pcwd r (es_queue s))) = mq_calls (es_queue s) \<or>
      (\<exists>c. mq_calls (fst (register pcwd r (es_queue s))) = mq_calls (es_queue s) @ [c] \<and> qc_phase c = Queued)"
    by (simp add: register_def Let_def split: list.split option.split)
  then consider "mq_calls (fst (register pcwd r (es_queue s))) = mq_calls (es_queue s)"
    | c where "mq_calls (fst (register pcwd r (es_queue s))) = mq_calls (es_queue s) @ [c]" "qc_phase c = Queued"
    by blast
  then show ?thesis using PathResolved queue_step_inv [OF inv q] register_step_inv [OF inv q] by cases simp_all
next
  case (BeginEdit i aborted)
  let ?q = "set_call_phase i Running (es_queue s)"
  show ?thesis
  proof (cases "i < length (mq_calls (es_queue s)) \<and> phase_of (es_queue s) i = Queued \<and> chain_done (es_queue s) (current_of (es_queue s) i)")
    case True
    then have start: "start_call i (es_queue s) = (?q, [FnCalled i (qc_tag (mq_calls (es_queue s) ! i))])"
      by (simp add: start_call_def)
    have q: "mq_inv ?q" using start_call_inv [of "es_queue s" i] inv start by (simp add: es_inv_def)
    have none: "es_runs s i = None" using inv True unfolding es_inv_def runs_ok_def by (metis (no_types))
    let ?f = "(es_runs s)(i \<mapsto> begin_edit aborted)"
    have "runs_ok (s\<lparr>es_queue := ?q, es_runs := ?f\<rparr>)"
      using inv True unfolding es_inv_def runs_ok_def by auto
    then have "es_inv nfkc inputs files (s\<lparr>es_queue := ?q, es_runs := ?f\<rparr>)"
      using none by (intro phase_step_inv [OF inv q refl]) (auto simp: True begin_edit_def unless_aborted_def effect_on_def)
    then show ?thesis using BeginEdit start by (simp add: set_run_def)
  next
    case False
    then have "start_call i (es_queue s) = (es_queue s, [])" unfolding start_call_def by (simp only: if_False)
    then show ?thesis using BeginEdit inv by simp
  qed
next
  case (AccessAnswered i err aborted)
  show ?thesis
  proof (cases "es_runs s i = Some Accessing")
    case True
    then show ?thesis using AccessAnswered
      by (auto intro!: advance_inv_same_file [OF inv True]
          simp: is_finished_def effect_on_def access_answered_def unless_aborted_def split: option.splits if_splits)
  qed (use AccessAnswered inv in \<open>auto split: option.splits edit_phase.splits\<close>)
next
  case (ReadFailed i msg)
  show ?thesis
  proof (cases "es_runs s i = Some Reading")
    case True
    then show ?thesis using ReadFailed
      by (auto intro!: advance_inv_same_file [OF inv True] simp: is_finished_def effect_on_def read_answered_def)
  qed (use ReadFailed inv in \<open>auto split: option.splits edit_phase.splits\<close>)
next
  case (ReadSucceeded i aborted)
  show ?thesis
  proof (cases "es_runs s i = Some Reading \<and> es_files s (file_of s i) \<noteq> None")
    case True
    then obtain raw where raw: "es_files s (file_of s i) = Some raw" and i: "es_runs s i = Some Reading" by auto
    show ?thesis using ReadSucceeded raw i
      by (auto intro!: advance_inv_same_file [OF inv i]
          simp: is_finished_def effect_on_def read_answered_def unless_aborted_def split: sum.splits if_splits)
  qed (use ReadSucceeded inv in \<open>auto split: option.splits edit_phase.splits\<close>)
next
  case (WriteFailed i msg left)
  show ?thesis
  proof (cases "\<exists>final res. es_runs s i = Some (Writing final res)")
    case True
    then obtain final res where i: "es_runs s i = Some (Writing final res)" by auto
    have "es_inv nfkc inputs files (set_run i (Finished (Inl (WriteRejected msg)) (LeftBy left))
        (s\<lparr>es_files := (es_files s)(file_of s i := left)\<rparr>))"
      by (rule advance_inv [OF inv i]) (simp_all add: is_finished_def effect_on_def)
    then show ?thesis using WriteFailed i by simp
  qed (use WriteFailed inv in \<open>auto split: option.splits edit_phase.splits\<close>)
next
  case (WriteSucceeded i aborted)
  show ?thesis
  proof (cases "\<exists>final res. es_runs s i = Some (Writing final res)")
    case True
    then obtain final res where i: "es_runs s i = Some (Writing final res)" by auto
    then obtain raw where raw: "es_files s (file_of s i) = Some raw"
      "edited_text nfkc raw (ec_edits (input_of inputs s i)) (ec_path (input_of inputs s i)) = Inr (final, res)"
      using inv unfolding es_inv_def writes_ok_def by blast
    obtain r where w: "write_answered diffLines (input_of inputs s i) res aborted = Finished r Edited"
      by (cases aborted; cases "generateDiffString diffLines (ae_baseContent res) (ae_newContent res) 4")
        (auto simp: write_answered_def unless_aborted_def)
    have "es_inv nfkc inputs files (set_run i (Finished r Edited) (s\<lparr>es_files := (es_files s)(file_of s i := Some final)\<rparr>))"
      by (rule advance_inv [OF inv i]) (simp_all add: is_finished_def effect_on_def raw)
    then show ?thesis using WriteSucceeded i w by simp
  qed (use WriteSucceeded inv in \<open>auto split: option.splits edit_phase.splits\<close>)
next
  case (ReturnEdit i)
  show ?thesis
  proof (cases "\<exists>r e. es_runs s i = Some (Finished r e) \<and> phase_of (es_queue s) i = Running")
    case True
    then obtain r e where i: "es_runs s i = Some (Finished r e)" "phase_of (es_queue s) i = Running" by auto
    then have len: "i < length (mq_calls (es_queue s))" using inv unfolding es_inv_def runs_ok_def by blast
    let ?q = "fst (settle_call i (es_queue s))"
    have q: "mq_inv ?q" using settle_call_inv inv by (simp add: es_inv_def)
    have calls: "mq_calls ?q = mq_calls (set_call_phase i Released (es_queue s))"
      using i len by (simp add: settle_call_def Let_def)
    have ph: "phase_of ?q j = (if j = i then Released else phase_of (es_queue s) j)" for j
      unfolding calls using len by simp
    have lens: "length (mq_calls ?q) = length (mq_calls (es_queue s))" unfolding calls by simp
    have "runs_ok (s\<lparr>es_queue := ?q, es_runs := es_runs s\<rparr>)"
      using inv i len unfolding es_inv_def runs_ok_def by (auto simp: ph lens is_finished_def)
    then have "es_inv nfkc inputs files (s\<lparr>es_queue := ?q, es_runs := es_runs s\<rparr>)"
      by (intro phase_step_inv [OF inv q calls len]) auto
    then show ?thesis using ReturnEdit i by simp
  next
    case False
    have "es_runs s i = Some (Finished r e) \<Longrightarrow> settle_call i (es_queue s) = (es_queue s, [])" for r e
      using False by (auto simp: settle_call_def)
    then show ?thesis using ReturnEdit inv by (auto split: option.splits edit_phase.splits)
  qed
qed

lemma es_run_inv: "es_inv nfkc inputs files (es_run nfkc diffLines pcwd inputs (es_init files) es)"
  by (induction es rule: rev_induct) (auto simp: es_run_def es_init_inv es_step_inv)

end
