(* ===== verification/Edit_Properties.thy ===== *)
theory Edit_Properties
  imports Edit_Tool_Lemmas
begin

text \<open>
  The properties of the edit tool: what an edit changes in a text and in a file, what its diff shows,
  and how calls that edit the same file interact.
\<close>

section \<open>Texts\<close>

lemma exact_search:
  "(\<And>e. e \<in> set es \<Longrightarrow> index_of (ed_oldText e) t \<noteq> None) \<Longrightarrow>
     \<not> (\<exists>e \<in> set es. fm_usedFuzzyMatch (fuzzyFindText nfkc t (ed_oldText e)))"
  by (force simp: fuzzyFindText_def)

lemma exact_apply:
  assumes ok: "applyEditsToNormalizedContent nfkc content edits path = Inr res"
    and exact: "\<And>e. e \<in> set edits \<Longrightarrow> index_of (normalizeToLF (ed_oldText e)) content \<noteq> None"
  shows "ae_baseContent res = content \<and> content \<noteq> ae_newContent res \<and>
    (\<exists>order gs. mset order = mset (map normalize_edit edits) \<and> length gs = Suc (length order) \<and>
       content = weave gs (map ed_oldText order) \<and> ae_newContent res = weave gs (map ed_newText order))"
proof -
  let ?es = "map normalize_edit edits"
  have found: "index_of (ed_oldText e) content \<noteq> None" if "e \<in> set ?es" for e
    using that exact by (auto simp: normalize_edit_def)
  have no_fuzzy: "\<not> (\<exists>e \<in> set ?es. fm_usedFuzzyMatch (fuzzyFindText nfkc content (ed_oldText e)))"
    using exact_search [of ?es content nfkc, OF found] by blast
  obtain ms where ms: "match_edits nfkc content path (length ?es) 0 ?es = Inr ms" "overlap path (sort_key me_matchIndex ms) = None"
    "ae_baseContent res = content" "ae_newContent res = applyReplacements content (sort_key me_matchIndex ms) 0"
    "content \<noteq> ae_newContent res"
    using ok no_fuzzy unfolding applyEditsToNormalizedContent_def Let_def
    by (fastforce split: option.splits sum.splits if_splits)
  let ?ms = "sort_key me_matchIndex ms"
  obtain order where order: "mset order = mset ?es" "list_all2 (found_exactly content) order ?ms"
    using list_all2_sort_key [OF match_edits_exact [OF ms(1) found]] by blast
  have slice: "js_slice (me_matchIndex (?ms ! i)) (me_end (?ms ! i)) content = ed_oldText (order ! i) \<and>
      me_newText (?ms ! i) = ed_newText (order ! i) \<and> me_end (?ms ! i) \<le> length content" if "i < length ?ms" for i
    using list_all2_nthD2 [OF order(2) that] found_exactly_slice by (auto simp: found_exactly_def)
  have "ranges_ok 0 ?ms (length content)"
  proof (cases "?ms = []")
    case True
    then show ?thesis by simp
  next
    case False
    have "ranges_ok (me_matchIndex (hd ?ms)) ?ms (length content)"
      using slice by (intro overlap_None [OF ms(2) _ False]) (metis in_set_conv_nth)
    then show ?thesis using False by (cases ?ms) auto
  qed
  note R = this
  let ?gs = "gaps 0 ?ms (length content) content"
  have len: "length order = length ?ms" using order(2) by (rule list_all2_lengthD)
  have "map (\<lambda>r. js_slice (me_matchIndex r) (me_end r) content) ?ms = map ed_oldText order"
    "map me_newText ?ms = map ed_newText order"
    using slice len by (auto intro!: nth_equalityI)
  then have "content = weave ?gs (map ed_oldText order)" "ae_newContent res = weave ?gs (map ed_newText order)"
    using slice_weave [OF R, of content] replaced_weave [of 0 ?ms "length content" content]
      applyReplacements_slice [OF R order_refl order_refl] ms(4)
    by (metis js_slice_full, metis append_Nil js_slice_full js_slice_same)
  then show ?thesis using order(1) ms(3,5) len by (intro conjI exI [of _ order] exI [of _ ?gs]) simp_all
qed

text \<open>
  C20. Edits whose old texts all occur in the content replace disjoint regions of it: the content is
  the old texts, in some order, between pieces that the new content keeps as they are, with the new
  texts in the place of the old ones. A successful call has changed something.
\<close>
theorem exact_edits_replace_disjoint_regions:
  assumes "applyEditsToNormalizedContent nfkc content edits path = Inr res"
    and "\<forall>e \<in> set edits. index_of (normalizeToLF (ed_oldText e)) content \<noteq> None"
  shows "ae_baseContent res = content \<and> content \<noteq> ae_newContent res \<and>
    (\<exists>order gs. mset order = mset (map normalize_edit edits) \<and> length gs = Suc (length order) \<and>
       content = weave gs (map ed_oldText order) \<and> ae_newContent res = weave gs (map ed_newText order))"
  using assms by (intro exact_apply) auto

text \<open>
  C21. The fuzzy path touches only the lines that a replacement reaches. There are runs of lines,
  exactly the touched ones, and one rewritten piece for each, such that the pieces between the other
  lines of the base are the plain replacement in the base, and the pieces between the other lines of
  the original are the result: what differs from the plain replacement are the untouched lines, and
  they come from the original. The call cannot fail when the base has as many lines as the original.
\<close>
theorem fuzzy_edit_changes_only_touched_lines:
  assumes "ranges_ok 0 (sort_key me_matchIndex rs) (length base)"
    and "\<forall>r \<in> set rs. me_matchIndex r < length base"
    and "line_count original = line_count base"
  shows "\<exists>result runs pieces.
     applyReplacementsPreservingUnchangedLines original base rs = Inr result \<and>
     length pieces = length runs \<and> sorted_wrt (\<lambda>p q. snd p \<le> fst q) runs \<and>
     (\<forall>i < line_count base. (\<exists>(a, b) \<in> set runs. a \<le> i \<and> i < b) \<longleftrightarrow> (\<exists>r \<in> set rs. touches_line base r i)) \<and>
     applyReplacements base (sort_key me_matchIndex rs) 0 = weave (kept_blocks (splitLinesWithEndings base) 0 runs) pieces \<and>
     result = weave (kept_blocks (splitLinesWithEndings original) 0 runs) pieces"
proof -
  let ?rs = "sort_key me_matchIndex rs"
  have ends: "me_matchIndex r < length base \<and> me_end r \<le> length base" if "r \<in> set ?rs" for r
    using assms that by (auto simp: ranges_ok_iff)
  obtain gs where gs: "group_replacements (getLineSpans base) ?rs [] = Inr gs"
    using group_replacements_total [OF ends] by blast
  have "groups_inv base ([] @ ?rs) (rev gs)"
    by (rule group_replacements_inv [OF gs]) (simp_all add: groups_inv_def)
  then have G: "\<forall>g \<in> set gs. lg_startLine g < lg_endLine g \<and> lg_endLine g \<le> line_count base \<and>
        (\<forall>r \<in> set (lg_replacements g). line_at base (lg_startLine g) \<le> me_matchIndex r \<and> me_end r \<le> line_at base (lg_endLine g))"
    "sorted_wrt (\<lambda>g h. lg_endLine g \<le> lg_startLine h) gs" "concat (map lg_replacements gs) = ?rs"
    "\<forall>i < line_count base. (\<exists>g \<in> set gs. lg_startLine g \<le> i \<and> i < lg_endLine g) \<longleftrightarrow> (\<exists>r \<in> set rs. touches_line base r i)"
    by (simp_all add: groups_inv_def sorted_wrt_rev)
  let ?runs = "map run_of gs" and ?pieces = "map (rewritten base) gs"
  have R: "applyReplacements base ?rs 0 = replaced 0 ?rs (length base) base"
    using applyReplacements_slice [OF assms(1) order_refl order_refl] by simp
  have W: "replaced 0 ?rs (length base) base = weave (kept_blocks (splitLinesWithEndings base) 0 ?runs) ?pieces"
    using replaced_groups_weave [OF G(2), of 0 base] G(1,3) assms(1) by (auto simp: ranges_ok_iff)
  have "applyReplacementsPreservingUnchangedLines original base rs =
      Inr (weave (kept_blocks (splitLinesWithEndings original) 0 ?runs) ?pieces)"
    using assms(3) gs G(1) by (simp add: applyReplacementsPreservingUnchangedLines_def Let_def render_groups_weave)
  moreover have "(\<exists>(a, b) \<in> set ?runs. a \<le> i \<and> i < b) \<longleftrightarrow> (\<exists>g \<in> set gs. lg_startLine g \<le> i \<and> i < lg_endLine g)" for i
    by (simp add: run_of_def)
  moreover have "sorted_wrt (\<lambda>p q. snd p \<le> fst q) ?runs" using G(2) by (simp add: sorted_wrt_map run_of_def)
  ultimately show ?thesis using G(4) R W by (intro exI [of _ ?runs] exI [of _ ?pieces] exI conjI) simp_all
qed

theorem exact_edits_replace_disjoint_regions_witness:
  "applyEditsToNormalizedContent (\<lambda>t. t) [0x61, 0x62, LF, 0x63]
       [\<lparr>ed_oldText = [0x63], ed_newText = []\<rparr>, \<lparr>ed_oldText = [0x61], ed_newText = [0x64, 0x64]\<rparr>] ''f'' =
     Inr \<lparr>ae_baseContent = [0x61, 0x62, LF, 0x63], ae_newContent = [0x64, 0x64, 0x62, LF]\<rparr> \<and>
   (\<exists>(order :: edit list) gs. length gs = Suc (length order) \<and>
      [0x61, 0x62, LF, 0x63] = weave gs (map ed_oldText order) \<and>
      [0x64, 0x64, 0x62, LF] = weave gs (map ed_newText order))"
proof -
  let ?t = "[0x61, 0x62, LF, 0x63] :: jstext"
  let ?es = "[\<lparr>ed_oldText = [0x63], ed_newText = []\<rparr>, \<lparr>ed_oldText = [0x61], ed_newText = [0x64, 0x64]\<rparr>]"
  have run: "applyEditsToNormalizedContent (\<lambda>t. t) ?t ?es ''f'' =
      Inr \<lparr>ae_baseContent = ?t, ae_newContent = [0x64, 0x64, 0x62, LF]\<rparr>"
    by code_simp
  have "\<forall>e \<in> set ?es. index_of (normalizeToLF (ed_oldText e)) ?t \<noteq> None" by code_simp
  from exact_edits_replace_disjoint_regions [OF run this] run show ?thesis unfolding applied_edits.simps by blast
qed

theorem fuzzy_edit_changes_only_touched_lines_witness:
  "\<exists>result. applyReplacementsPreservingUnchangedLines [0x61, 0x20, LF, 0x62, LF] [0x61, LF, 0x62, LF]
       [\<lparr>me_editIndex = 0, me_matchIndex = 2, me_matchLength = 1, me_newText = [0x63]\<rparr>] = Inr result \<and>
     result = [0x61, 0x20, LF, 0x63, LF]"
proof -
  let ?o = "[0x61, 0x20, LF, 0x62, LF] :: jstext" and ?b = "[0x61, LF, 0x62, LF] :: jstext"
  let ?rs = "[\<lparr>me_editIndex = 0, me_matchIndex = 2, me_matchLength = 1, me_newText = [0x63]\<rparr>]"
  have "ranges_ok 0 (sort_key me_matchIndex ?rs) (length ?b)" "\<forall>r \<in> set ?rs. me_matchIndex r < length ?b" by simp_all
  moreover have "line_count ?o = line_count ?b" by code_simp
  ultimately obtain result where r: "applyReplacementsPreservingUnchangedLines ?o ?b ?rs = Inr result"
    using fuzzy_edit_changes_only_touched_lines [of ?rs ?b ?o] by blast
  have "applyReplacementsPreservingUnchangedLines ?o ?b ?rs = Inr [0x61, 0x20, LF, 0x63, LF]" by code_simp
  with r show ?thesis by simp
qed

section \<open>Files\<close>

text \<open>
  An edit of a file whose line endings are uniform keeps every byte outside the replaced
  regions: the mark at the start, the kept pieces and their line endings are those of the file, and
  the new text is written with the line endings of the file.
\<close>
theorem edit_keeps_bytes_outside:
  assumes "edited_text nfkc raw edits path = Inr (final, res)"
    and "raw = bom @ content" "stripBom raw = (bom, content)"
    and "CR \<notin> set content \<or> crlf_only content"
    and "\<forall>e \<in> set edits. index_of (normalizeToLF (ed_oldText e)) (normalizeToLF content) \<noteq> None"
  shows "\<exists>order gs. mset order = mset (map normalize_edit edits) \<and> length gs = Suc (length order) \<and>
     (let write = (\<lambda>t. restoreLineEndings t (detectLineEnding content)) in
      raw = bom @ weave (map write gs) (map (write \<circ> ed_oldText) order) \<and>
      final = bom @ weave (map write gs) (map (write \<circ> ed_newText) order))"
proof -
  let ?e = "detectLineEnding content"
  have ok: "applyEditsToNormalizedContent nfkc (normalizeToLF content) edits path = Inr res"
    and final: "final = bom @ restoreLineEndings (ae_newContent res) ?e"
    using assms(1,3) by (auto simp: edited_text_def Let_def split: sum.splits)
  obtain order gs where O: "mset order = mset (map normalize_edit edits)" "length gs = Suc (length order)"
    "normalizeToLF content = weave gs (map ed_oldText order)" "ae_newContent res = weave gs (map ed_newText order)"
    using exact_apply [OF ok] assms(5) by blast
  have "content = restoreLineEndings (normalizeToLF content) ?e"
    by (rule iffD2 [OF restore_normalize_iff assms(4), symmetric])
  then have "content = weave (map (\<lambda>t. restoreLineEndings t ?e) gs) (map (\<lambda>t. restoreLineEndings t ?e) (map ed_oldText order))"
    using O(2,3) restore_weave [of gs "map ed_oldText order" ?e] by simp
  moreover have "restoreLineEndings (ae_newContent res) ?e =
      weave (map (\<lambda>t. restoreLineEndings t ?e) gs) (map (\<lambda>t. restoreLineEndings t ?e) (map ed_newText order))"
    using O(2,4) restore_weave [of gs "map ed_newText order" ?e] by simp
  ultimately show ?thesis using O(1,2) assms(2) final
    by (intro exI [of _ order] exI [of _ gs]) (simp add: Let_def comp_def)
qed

theorem edit_keeps_bytes_outside_witness:
  "\<exists>final res. edited_text (\<lambda>t. t) [BOM, 0x61, CR, LF, 0x62, CR, LF] [\<lparr>ed_oldText = [0x62], ed_newText = [0x63, LF]\<rparr>] ''f'' =
       Inr (final, res) \<and>
     final = [BOM, 0x61, CR, LF, 0x63, CR, LF, CR, LF] \<and>
     (\<exists>gs. [BOM, 0x61, CR, LF, 0x62, CR, LF] = [BOM] @ weave (map (\<lambda>t. restoreLineEndings t CrLf) gs) [[0x62]])"
proof -
  let ?c = "[0x61, CR, LF, 0x62, CR, LF] :: jstext"
  let ?es = "[\<lparr>ed_oldText = [0x62], ed_newText = [0x63, LF]\<rparr>]"
  let ?res = "\<lparr>ae_baseContent = [0x61, LF, 0x62, LF], ae_newContent = [0x61, LF, 0x63, LF, LF]\<rparr>"
  have e: "edited_text (\<lambda>t. t) (BOM # ?c) ?es ''f'' = Inr ([BOM, 0x61, CR, LF, 0x63, CR, LF, CR, LF], ?res)" by code_simp
  have c: "stripBom (BOM # ?c) = ([BOM], ?c)" "BOM # ?c = [BOM] @ ?c" by (simp_all add: stripBom_def)
  have u: "CR \<notin> set ?c \<or> crlf_only ?c" by simp
  have x: "\<forall>e \<in> set ?es. index_of (normalizeToLF (ed_oldText e)) (normalizeToLF ?c) \<noteq> None" by code_simp
  have d: "detectLineEnding ?c = CrLf" by code_simp
  obtain order gs where O: "mset order = mset (map normalize_edit ?es)"
    "BOM # ?c = [BOM] @ weave (map (\<lambda>t. restoreLineEndings t CrLf) gs) (map ((\<lambda>t. restoreLineEndings t CrLf) \<circ> ed_oldText) order)"
    using edit_keeps_bytes_outside [OF e c(2) c(1) u x] unfolding d Let_def by blast
  have "order = [\<lparr>ed_oldText = [0x62], ed_newText = [0x63, LF]\<rparr>]"
    using O(1) by (simp add: normalize_edit_def)
  with O(2) e show ?thesis by (intro exI conjI) (auto simp: restoreLineEndings_def)
qed

text \<open>
  The round trip of line endings, exactly: a text read and written back unchanged is itself when it
  has no carriage return or only pairs of carriage return and line feed, and in no other case. An
  edit of a file with mixed line endings rewrites lines it was not asked to touch.
\<close>

theorem line_endings_round_trip:
  "restoreLineEndings (normalizeToLF t) (detectLineEnding t) = t \<longleftrightarrow> CR \<notin> set t \<or> crlf_only t"
  by (rule restore_normalize_iff)

theorem edit_rewrites_untouched_lines:
  "edited_text (\<lambda>t. t) [0x61, LF, 0x62, CR, LF, 0x63, LF] [\<lparr>ed_oldText = [0x61], ed_newText = [0x64]\<rparr>] ''f'' =
     Inr ([0x64, LF, 0x62, LF, 0x63, LF],
       \<lparr>ae_baseContent = [0x61, LF, 0x62, LF, 0x63, LF], ae_newContent = [0x64, LF, 0x62, LF, 0x63, LF]\<rparr>)"
  by code_simp

text \<open>
  An old text is meant to be unique, but only disjoint occurrences are counted: "aXa" occurs twice in
  "aXaXa" and the first occurrence is replaced.
\<close>

theorem overlapping_occurrences_are_not_counted:
  "applyEditsToNormalizedContent (\<lambda>t. t) [0x61, 0x58, 0x61, 0x58, 0x61]
     [\<lparr>ed_oldText = [0x61, 0x58, 0x61], ed_newText = [0x62]\<rparr>] ''f'' =
   Inr \<lparr>ae_baseContent = [0x61, 0x58, 0x61, 0x58, 0x61], ae_newContent = [0x62, 0x58, 0x61]\<rparr>"
  by code_simp

section \<open>The diff\<close>

text \<open>
  Every row of the diff shown after an edit is true: an added row holds the line of the new
  content with its number, a removed row and a context row the line of the old content with its
  number. The added rows are all the added lines in order, and the removed rows all the removed ones.
\<close>
theorem diff_rows_are_numbered_lines:
  assumes "diff_parts_of old new parts"
  shows "(\<forall>r \<in> set (diff_loop contextLines parts 1 1 False). case r of
       AddedRow n line \<Rightarrow> 1 \<le> n \<and> n \<le> length (js_split [LF] new) \<and> js_split [LF] new ! (n - 1) = line
     | RemovedRow n line \<Rightarrow> 1 \<le> n \<and> n \<le> length (js_split [LF] old) \<and> js_split [LF] old ! (n - 1) = line
     | ContextRow n line \<Rightarrow> 1 \<le> n \<and> n \<le> length (js_split [LF] old) \<and> js_split [LF] old ! (n - 1) = line
     | Ellipsis \<Rightarrow> True) \<and>
    rows_of added_text (diff_loop contextLines parts 1 1 False) =
      concat (map (\<lambda>p. part_lines (dp_value p)) (filter dp_added parts)) \<and>
    rows_of removed_text (diff_loop contextLines parts 1 1 False) =
      concat (map (\<lambda>p. part_lines (dp_value p)) (filter dp_removed parts))"
proof -
  have D: "concat (old_values parts) = old" "concat (new_values parts) = new" "whole_lines (old_values parts)"
    "whole_lines (new_values parts)" "\<forall>p \<in> set parts. \<not> (dp_added p \<and> dp_removed p)"
    using assms by (auto simp: diff_parts_of_def)
  have P: "prefix (old_lines parts) (js_split [LF] old)" "prefix (new_lines parts) (js_split [LF] new)"
    using part_lines_concat [OF D(3)] part_lines_concat [OF D(4)] D(1,2) by (simp_all add: old_lines_def new_lines_def)
  have N: "1 \<le> n \<and> n \<le> length ls \<and> ls ! (n - 1) = line" if "line_number_ok ms 1 n line" "prefix ms ls" for ms ls n line
    using that by (auto simp: line_number_ok_def prefix_def nth_append)
  have "case r of
       AddedRow n line \<Rightarrow> 1 \<le> n \<and> n \<le> length (js_split [LF] new) \<and> js_split [LF] new ! (n - 1) = line
     | RemovedRow n line \<Rightarrow> 1 \<le> n \<and> n \<le> length (js_split [LF] old) \<and> js_split [LF] old ! (n - 1) = line
     | ContextRow n line \<Rightarrow> 1 \<le> n \<and> n \<le> length (js_split [LF] old) \<and> js_split [LF] old ! (n - 1) = line
     | Ellipsis \<Rightarrow> True" if "r \<in> set (diff_loop contextLines parts 1 1 False)" for r
    using diff_loop_rows_ok [OF that D(5)] N [OF _ P(1)] N [OF _ P(2)] by (cases r) auto
  moreover have "filter (\<lambda>p. dp_removed p \<and> \<not> dp_added p) parts = filter dp_removed parts"
    using D(5) by (intro filter_cong) auto
  ultimately show ?thesis using diff_loop_changes [of contextLines parts 1 1 False] by auto
qed

theorem diff_rows_are_numbered_lines_witness:
  "diff_loop 4 [\<lparr>dp_value = [0x61, LF], dp_added = False, dp_removed = False\<rparr>,
                \<lparr>dp_value = [0x62], dp_added = False, dp_removed = True\<rparr>,
                \<lparr>dp_value = [0x63], dp_added = True, dp_removed = False\<rparr>] 1 1 False =
     [ContextRow 1 [0x61], RemovedRow 2 [0x62], AddedRow 2 [0x63]] \<and>
   js_split [LF] [0x61, LF, 0x63] ! 1 = ([0x63] :: jstext)"
proof -
  let ?ps = "[\<lparr>dp_value = [0x61, LF], dp_added = False, dp_removed = False\<rparr>,
                \<lparr>dp_value = [0x62], dp_added = False, dp_removed = True\<rparr>,
                \<lparr>dp_value = [0x63], dp_added = True, dp_removed = False\<rparr>]"
  have rows: "diff_loop 4 ?ps 1 1 False = [ContextRow 1 [0x61], RemovedRow 2 [0x62], AddedRow 2 [0x63]]" by code_simp
  have "diff_parts_of [0x61, LF, 0x62] [0x61, LF, 0x63] ?ps"
    by (simp add: diff_parts_of_def old_values_def new_values_def whole_lines_def)
  from diff_rows_are_numbered_lines [OF this, of 4] rows show ?thesis by simp
qed

section \<open>Calls that edit the same file\<close>

text \<open>
  C22. Concurrent edits are serial: however the calls of the edit tool and their file operations
  interleave, every file holds at every moment what the finished calls for it make of its first
  content when they are done one after the other in the order of their registration. No edit is lost.
\<close>
theorem concurrent_edits_are_serial:
  "es_files (es_run nfkc diffLines pcwd inputs (es_init files) events) =
     serial nfkc inputs files (es_run nfkc diffLines pcwd inputs (es_init files) events)"
  using es_run_inv [of nfkc inputs files diffLines pcwd events] by (simp add: es_inv_def)

text \<open>
  Operations on the same file run one at a time and in the order of their registration, whatever
  happens to operations on other files; of the unreleased operations on a file the first one runs or
  may start; the map has an entry for a file exactly while an operation on it is unreleased; and every
  call that was made returns exactly once or is still held.
\<close>
theorem mutations_take_turns:
  assumes "run_steps (mq_step pcwd) mq_init events = (q, effects)"
  shows "(\<forall>i j. i < j \<longrightarrow> j < length (mq_calls q) \<longrightarrow> key_of q i = key_of q j \<longrightarrow> phase_of q j \<noteq> Queued \<longrightarrow>
             phase_of q i = Released) \<and>
    (\<forall>k. (\<exists>i < length (mq_calls q). key_of q i = k \<and> phase_of q i \<noteq> Released) \<longrightarrow>
       (\<exists>i < length (mq_calls q). key_of q i = k \<and>
          (phase_of q i = Running \<or> phase_of (fst (mq_step pcwd q (Start i))) i = Running \<and> phase_of q i = Queued))) \<and>
    (\<forall>k. mq_map q k \<noteq> None \<longleftrightarrow> (\<exists>i < length (mq_calls q). key_of q i = k \<and> phase_of q i \<noteq> Released)) \<and>
    tickets mq_opens events = mset (mq_held q) + tickets mq_answers effects"
proof -
  have q: "mq_inv q" by (rule mutations.inv_run [OF mq_init_inv assms])
  have first: "\<exists>i < length (mq_calls q). key_of q i = k \<and>
      (phase_of q i = Running \<or> phase_of (fst (mq_step pcwd q (Start i))) i = Running \<and> phase_of q i = Queued)"
    if ex: "\<exists>i < length (mq_calls q). key_of q i = k \<and> phase_of q i \<noteq> Released" for k
  proof -
    let ?P = "\<lambda>i. i < length (mq_calls q) \<and> key_of q i = k \<and> phase_of q i \<noteq> Released"
    define i where "i = (LEAST i. ?P i)"
    have i: "?P i" unfolding i_def by (rule LeastI_ex) (use ex in blast)
    have least: "\<not> ?P j" if "j < i" for j using that unfolding i_def by (rule not_less_Least)
    have "chain_done q (current_of q i)"
      unfolding chain_done_def
    proof
      fix j assume "j \<in> set (current_of q i)"
      then have "j < i" "key_of q j = key_of q i" using q i unfolding mq_inv_def waits_ok_def by blast+
      then show "phase_of q j = Released" using least [of j] i by auto
    qed
    then have "phase_of q i = Queued \<Longrightarrow> phase_of (fst (mq_step pcwd q (Start i))) i = Running"
      using i by (simp add: start_call_def)
    then show ?thesis using i by (cases "phase_of q i") auto
  qed
  have map: "mq_map q k \<noteq> None \<longleftrightarrow> (\<exists>i < length (mq_calls q). key_of q i = k \<and> phase_of q i \<noteq> Released)" for k
    using spec [OF q [unfolded mq_inv_def map_ok_def, THEN conjunct2, THEN conjunct1], of k]
    by (auto split: option.splits)
  have order: "phase_of q i = Released"
    if "i < j" "j < length (mq_calls q)" "key_of q i = key_of q j" "phase_of q j \<noteq> Queued" for i j
    using running_is_first [OF q that(2,4,1,3)] .
  have "mset (mq_held mq_init) + tickets mq_opens events = mset (mq_held q) + tickets mq_answers effects"
    by (rule mutations.conserve_run [OF mq_init_inv assms])
  then have "tickets mq_opens events = mset (mq_held q) + tickets mq_answers effects"
    by (simp add: mq_held_def mq_init_def)
  with order first map show ?thesis by blast
qed

theorem mutations_take_turns_witness:
  "let (q, effects) = run_steps (mq_step ''/w'') mq_init
         [Call 7 ''a'', Call 8 ''/w/a'', Registered PathMissing, Registered (RealPath ''/w/a''), Start 1, Start 0, Start 1]
   in map qc_phase (mq_calls q) = [Running, Queued] \<and> effects = [FnCalled 0 7] \<and>
      (\<forall>k. mq_map q k \<noteq> None \<longleftrightarrow> (\<exists>i < length (mq_calls q). key_of q i = k \<and> phase_of q i \<noteq> Released))"
proof -
  let ?es = "[Call 7 ''a'', Call 8 ''/w/a'', Registered PathMissing, Registered (RealPath ''/w/a''), Start 1, Start 0, Start 1]"
  obtain q effects where run: "run_steps (mq_step ''/w'') mq_init ?es = (q, effects)" by (meson surj_pair)
  have "map qc_phase (mq_calls (fst (run_steps (mq_step ''/w'') mq_init ?es))) = [Running, Queued]"
    "snd (run_steps (mq_step ''/w'') mq_init ?es) = [FnCalled 0 7]" by code_simp+
  with run mutations_take_turns [OF run] show ?thesis by simp
qed



end
