(* ===== verification/Settings_Manager.thy ===== *)
theory Settings_Manager
  imports Prelude
begin

text \<open>
  \<open>core/settings-manager.ts\<close>: the merged view of global and project settings, the queue of
  writes and the fields each write is about. Settings are untyped at run time and stay JSON objects
  here; a property that is \<open>undefined\<close> counts as absent, and objects are ordinary, without a key
  \<open>__proto__\<close>. A stored file is what \<open>JSON.parse\<close> makes of its text.
\<close>

type_synonym settings = "(string \<times> json) list"

section \<open>Merging\<close>

text \<open>The spread \<open>{ ...value }\<close>.\<close>

definition indexed :: "json list \<Rightarrow> settings" where
  "indexed xs = map (\<lambda>(i, x). (nat_str i, x)) (enumerate 0 xs)"

fun spread :: "json option \<Rightarrow> settings" where
  "spread (Some (JObj kvs)) = kvs"
| "spread (Some (JArr xs)) = indexed xs"
| "spread (Some (JStr s)) = indexed (map (\<lambda>c. JStr [c]) s)"
| "spread _ = []"

fun isMergeableObject :: "json option \<Rightarrow> bool" where
  "isMergeableObject (Some (JObj kvs)) = True"
| "isMergeableObject _ = False"

function deepMergeObjects :: "settings \<Rightarrow> settings \<Rightarrow> settings" where
  "deepMergeObjects base overrides =
     fold (\<lambda>(key, overrideValue) result.
       jm_set key
         (case (jm_get base key, overrideValue) of
            (Some (JObj b), JObj ov) \<Rightarrow> JObj (deepMergeObjects b ov)
          | _ \<Rightarrow> overrideValue) result)
       overrides base"
  by auto

lemma nested_override_smaller:
  "(key, JObj ov) \<in> set overrides \<Longrightarrow> size (JObj ov) < size (JObj overrides)"
  using size_list_estimation' [of "(key, JObj ov)" overrides "size (JObj ov)" "size_prod (\<lambda>x. 0) size"] by simp

termination deepMergeObjects
  by (relation "measure (\<lambda>(base, overrides). size (JObj overrides))")
    (auto simp del: json.size dest: nested_override_smaller)

declare deepMergeObjects.simps [simp del]

definition deepMergeSettings :: "settings \<Rightarrow> settings \<Rightarrow> settings" where
  "deepMergeSettings = deepMergeObjects"

text \<open>\<open>base.harness ?? {}\<close>: \<open>null\<close> spreads to nothing as well.\<close>

definition mergedSettingsView :: "settings \<Rightarrow> settings \<Rightarrow> settings" where
  "mergedSettingsView base overrides =
     (let merged = deepMergeSettings base overrides in
      if jm_get merged ''harness'' \<noteq> None
      then jm_set ''harness'' (JObj (spread (jm_get base ''harness''))) merged
      else merged)"

section \<open>Stored files and migration\<close>

datatype file_text = Unparsable | EmptyText | JsonText json

datatype scope = GlobalScope | ProjectScope

record settings_storage =
  st_global :: "file_text option"
  st_project :: "file_text option"

definition stored :: "scope \<Rightarrow> settings_storage \<Rightarrow> file_text option" where
  "stored sc st = (if sc = GlobalScope then st_global st else st_project st)"

text \<open>\<open>ParseFailed\<close>: \<open>JSON.parse\<close> threw, or the migration did on a value that is no object.\<close>

datatype settings_fault = ParseFailed | StorageFailed string | ProjectNotTrusted

text \<open>
  \<open>withLock\<close> of either storage: the function sees the content and may give a new one. \<open>fault\<close> is the
  message of a lock or a file operation that fails; the content is then as before.
\<close>

definition withLock ::
  "scope \<Rightarrow> string option \<Rightarrow> (file_text option \<Rightarrow> settings_fault + file_text option) \<Rightarrow>
     settings_storage \<Rightarrow> settings_fault + settings_storage" where
  "withLock sc fault fn st =
     (case fn (stored sc st) of
        Inl e \<Rightarrow> Inl (case fault of None \<Rightarrow> e | Some msg \<Rightarrow> StorageFailed msg)
      | Inr next_content \<Rightarrow>
          (case (fault, next_content) of
             (Some msg, _) \<Rightarrow> Inl (StorageFailed msg)
           | (None, None) \<Rightarrow> Inr st
           | (None, Some t) \<Rightarrow>
               Inr (if sc = GlobalScope then st\<lparr>st_global := Some t\<rparr> else st\<lparr>st_project := Some t\<rparr>)))"

definition migrate_queueMode :: "settings \<Rightarrow> settings" where
  "migrate_queueMode s =
     (case jm_get s ''queueMode'' of
        Some q \<Rightarrow> if jm_has s ''steeringMode'' then s else jm_delete ''queueMode'' (jm_set ''steeringMode'' q s)
      | None \<Rightarrow> s)"

definition migrate_websockets :: "settings \<Rightarrow> settings" where
  "migrate_websockets s =
     (case (jm_get s ''transport'', jm_get s ''websockets'') of
        (None, Some (JBool b)) \<Rightarrow>
          jm_delete ''websockets'' (jm_set ''transport'' (JStr (if b then ''websocket'' else ''sse'')) s)
      | _ \<Rightarrow> s)"

definition migrate_skills :: "settings \<Rightarrow> settings" where
  "migrate_skills s =
     (case jm_get s ''skills'' of
        Some (JObj sk) \<Rightarrow>
          (let s1 = (case (jm_get sk ''enableSkillCommands'', jm_get s ''enableSkillCommands'') of
                       (Some e, None) \<Rightarrow> jm_set ''enableSkillCommands'' e s
                     | _ \<Rightarrow> s)
           in case jm_get sk ''customDirectories'' of
                Some (JArr (d # ds)) \<Rightarrow> jm_set ''skills'' (JArr (d # ds)) s1
              | _ \<Rightarrow> jm_delete ''skills'' s1)
      | _ \<Rightarrow> s)"

text \<open>\<open>provider\<close> may be any object, an array too.\<close>

definition migrate_retry :: "settings \<Rightarrow> settings" where
  "migrate_retry s =
     (case jm_get s ''retry'' of
        Some (JObj r) \<Rightarrow>
          (let provider = (case jm_get r ''provider'' of
                             Some (JObj p) \<Rightarrow> p
                           | Some (JArr xs) \<Rightarrow> indexed xs
                           | _ \<Rightarrow> []);
               r1 = (case jm_get r ''maxDelayMs'' of
                       Some (JInt n) \<Rightarrow>
                         if jm_get provider ''maxRetryDelayMs'' \<in> {None, Some JNull}
                         then jm_set ''provider'' (JObj (jm_set ''maxRetryDelayMs'' (JInt n) provider)) r
                         else r
                     | _ \<Rightarrow> r)
           in jm_set ''retry'' (JObj (jm_delete ''maxDelayMs'' r1)) s)
      | _ \<Rightarrow> s)"

definition migrateSettings :: "settings \<Rightarrow> settings" where
  "migrateSettings s = migrate_retry (migrate_skills (migrate_websockets (migrate_queueMode s)))"

text \<open>\<open>content ? migrateSettings(JSON.parse(content)) : {}\<close>; \<open>in\<close> throws on a primitive value.\<close>

fun parsed_settings :: "file_text option \<Rightarrow> settings_fault + settings" where
  "parsed_settings None = Inr []"
| "parsed_settings (Some EmptyText) = Inr []"
| "parsed_settings (Some (JsonText (JObj kvs))) = Inr (migrateSettings kvs)"
| "parsed_settings (Some (JsonText (JArr xs))) = Inr (migrateSettings (indexed xs))"
| "parsed_settings _ = Inl ParseFailed"

definition loadFromStorage ::
  "settings_storage \<Rightarrow> scope \<Rightarrow> bool \<Rightarrow> string option \<Rightarrow> settings_fault + settings" where
  "loadFromStorage st sc projectTrusted fault =
     (if sc = ProjectScope \<and> \<not> projectTrusted then Inr []
      else (case withLock sc fault (\<lambda>current. Inr None) st of
              Inl e \<Rightarrow> Inl e
            | Inr st' \<Rightarrow> parsed_settings (stored sc st)))"

definition tryLoadFromStorage ::
  "settings_storage \<Rightarrow> scope \<Rightarrow> bool \<Rightarrow> string option \<Rightarrow> settings \<times> settings_fault option" where
  "tryLoadFromStorage st sc projectTrusted fault =
     (case loadFromStorage st sc projectTrusted fault of Inr s \<Rightarrow> (s, None) | Inl e \<Rightarrow> ([], Some e))"

section \<open>The manager\<close>

record write_task =
  wt_scope :: scope
  wt_snapshot :: settings
  wt_fields :: "string list"
  wt_nested :: "(string \<times> string list) list"

record settings_manager =
  sg_storage :: settings_storage
  sg_global :: settings
  sg_project :: settings
  sg_settings :: settings
  sg_trusted :: bool
  sg_modified :: "string list"
  sg_modifiedNested :: "(string \<times> string list) list"
  sg_modifiedProject :: "string list"
  sg_modifiedProjectNested :: "(string \<times> string list) list"
  sg_globalLoadError :: "settings_fault option"
  sg_projectLoadError :: "settings_fault option"
  sg_writeQueue :: "write_task list"
  sg_errors :: "(scope \<times> settings_fault) list"

definition fromStorage :: "settings_storage \<Rightarrow> bool \<Rightarrow> string option \<Rightarrow> string option \<Rightarrow> settings_manager" where
  "fromStorage st projectTrusted globalFault projectFault =
     (let (g, ge) = tryLoadFromStorage st GlobalScope True globalFault;
          (p, pe) = tryLoadFromStorage st ProjectScope projectTrusted projectFault
      in \<lparr>sg_storage = st, sg_global = g, sg_project = p, sg_settings = mergedSettingsView g p,
          sg_trusted = projectTrusted, sg_modified = [], sg_modifiedNested = [],
          sg_modifiedProject = [], sg_modifiedProjectNested = [],
          sg_globalLoadError = ge, sg_projectLoadError = pe, sg_writeQueue = [],
          sg_errors = (case ge of Some e \<Rightarrow> [(GlobalScope, e)] | None \<Rightarrow> []) @
                      (case pe of Some e \<Rightarrow> [(ProjectScope, e)] | None \<Rightarrow> [])\<rparr>)"

definition settings_inMemory :: "settings \<Rightarrow> bool \<Rightarrow> settings_manager" where
  "settings_inMemory initial projectTrusted =
     fromStorage \<lparr>st_global = Some (JsonText (JObj (migrateSettings initial))), st_project = None\<rparr> projectTrusted None None"

definition add_once :: "'a \<Rightarrow> 'a list \<Rightarrow> 'a list" where
  "add_once x xs = (if x \<in> set xs then xs else xs @ [x])"

definition add_nested :: "string \<Rightarrow> string \<Rightarrow> (string \<times> string list) list \<Rightarrow> (string \<times> string list) list" where
  "add_nested field k m = AList.update field (add_once k (case map_of m field of Some ks \<Rightarrow> ks | None \<Rightarrow> [])) m"

definition markModified :: "string \<Rightarrow> string option \<Rightarrow> settings_manager \<Rightarrow> settings_manager" where
  "markModified field nestedKey s =
     s\<lparr>sg_modified := add_once field (sg_modified s),
       sg_modifiedNested := (case truthy_str nestedKey of
          Some k \<Rightarrow> add_nested field k (sg_modifiedNested s) | None \<Rightarrow> sg_modifiedNested s)\<rparr>"

definition markProjectModified :: "string \<Rightarrow> string option \<Rightarrow> settings_manager \<Rightarrow> settings_manager" where
  "markProjectModified field nestedKey s =
     s\<lparr>sg_modifiedProject := add_once field (sg_modifiedProject s),
       sg_modifiedProjectNested := (case truthy_str nestedKey of
          Some k \<Rightarrow> add_nested field k (sg_modifiedProjectNested s) | None \<Rightarrow> sg_modifiedProjectNested s)\<rparr>"

definition recordError :: "scope \<Rightarrow> settings_fault \<Rightarrow> settings_manager \<Rightarrow> settings_manager" where
  "recordError sc e s = s\<lparr>sg_errors := sg_errors s @ [(sc, e)]\<rparr>"

definition clearModifiedScope :: "scope \<Rightarrow> settings_manager \<Rightarrow> settings_manager" where
  "clearModifiedScope sc s =
     (if sc = GlobalScope then s\<lparr>sg_modified := [], sg_modifiedNested := []\<rparr>
      else s\<lparr>sg_modifiedProject := [], sg_modifiedProjectNested := []\<rparr>)"

definition refresh :: "settings_manager \<Rightarrow> settings_manager" where
  "refresh s = s\<lparr>sg_settings := mergedSettingsView (sg_global s) (sg_project s)\<rparr>"

section \<open>Writing\<close>

text \<open>Assigning \<open>undefined\<close> makes \<open>JSON.stringify\<close> drop the property.\<close>

fun put :: "string \<Rightarrow> json option \<Rightarrow> settings \<Rightarrow> settings" where
  "put k (Some v) m = jm_set k v m"
| "put k None m = jm_delete k m"

fun is_object :: "json option \<Rightarrow> bool" where
  "is_object (Some (JObj kvs)) = True"
| "is_object (Some (JArr xs)) = True"
| "is_object _ = False"

definition persist_field :: "write_task \<Rightarrow> settings \<Rightarrow> string \<Rightarrow> settings \<Rightarrow> settings" where
  "persist_field t currentFileSettings field merged =
     (let value = jm_get (wt_snapshot t) field in
      case map_of (wt_nested t) field of
        Some nestedModified \<Rightarrow>
          if is_object value
          then put field (Some (JObj (fold (\<lambda>k. put k (jm_get (spread value) k)) nestedModified
                 (spread (jm_get currentFileSettings field))))) merged
          else put field value merged
      | None \<Rightarrow> put field value merged)"

definition persisted :: "write_task \<Rightarrow> settings \<Rightarrow> settings" where
  "persisted t currentFileSettings = fold (persist_field t currentFileSettings) (wt_fields t) currentFileSettings"

definition persistScopedSettings ::
  "write_task \<Rightarrow> string option \<Rightarrow> settings_storage \<Rightarrow> settings_fault + settings_storage" where
  "persistScopedSettings t fault st =
     withLock (wt_scope t) fault
       (\<lambda>current. case parsed_settings current of
                    Inl e \<Rightarrow> Inl e
                  | Inr s \<Rightarrow> Inr (Some (JsonText (JObj (persisted t s))))) st"

text \<open>The next task of the write queue runs.\<close>

definition run_write :: "string option \<Rightarrow> settings_manager \<Rightarrow> settings_manager" where
  "run_write fault s =
     (case sg_writeQueue s of
        [] \<Rightarrow> s
      | t # ts \<Rightarrow>
          (let s1 = s\<lparr>sg_writeQueue := ts\<rparr> in
           if wt_scope t = ProjectScope \<and> \<not> sg_trusted s then recordError ProjectScope ProjectNotTrusted s1
           else (case persistScopedSettings t fault (sg_storage s) of
                   Inl e \<Rightarrow> recordError (wt_scope t) e s1
                 | Inr st \<Rightarrow> clearModifiedScope (wt_scope t) (s1\<lparr>sg_storage := st\<rparr>))))"

definition save :: "settings_manager \<Rightarrow> settings_manager" where
  "save s =
     (let s1 = refresh s in
      if sg_globalLoadError s \<noteq> None then s1
      else s1\<lparr>sg_writeQueue := sg_writeQueue s1 @
             [\<lparr>wt_scope = GlobalScope, wt_snapshot = sg_global s1, wt_fields = sg_modified s1,
               wt_nested = sg_modifiedNested s1\<rparr>]\<rparr>)"

definition saveProjectSettings :: "settings \<Rightarrow> settings_manager \<Rightarrow> settings_fault + settings_manager" where
  "saveProjectSettings p s =
     (if \<not> sg_trusted s then Inl ProjectNotTrusted
      else
        (let s1 = refresh (s\<lparr>sg_project := p\<rparr>) in
         Inr (if sg_projectLoadError s \<noteq> None then s1
              else s1\<lparr>sg_writeQueue := sg_writeQueue s1 @
                     [\<lparr>wt_scope = ProjectScope, wt_snapshot = p, wt_fields = sg_modifiedProject s1,
                       wt_nested = sg_modifiedProjectNested s1\<rparr>]\<rparr>)))"

definition updateProjectSettings ::
  "string \<Rightarrow> (settings \<Rightarrow> settings) \<Rightarrow> settings_manager \<Rightarrow> settings_fault + settings_manager" where
  "updateProjectSettings field update s =
     (if \<not> sg_trusted s then Inl ProjectNotTrusted
      else saveProjectSettings (update (sg_project s)) (markProjectModified field None s))"

section \<open>Trust, reload, overrides\<close>

definition setProjectTrusted :: "bool \<Rightarrow> string option \<Rightarrow> settings_manager \<Rightarrow> settings_manager" where
  "setProjectTrusted trusted fault s =
     (if sg_trusted s = trusted then s
      else
        (let s1 = clearModifiedScope ProjectScope (s\<lparr>sg_trusted := trusted\<rparr>) in
         if \<not> trusted then refresh (s1\<lparr>sg_project := [], sg_projectLoadError := None\<rparr>)
         else
           (let (p, e) = tryLoadFromStorage (sg_storage s) ProjectScope trusted fault;
                s2 = s1\<lparr>sg_project := p, sg_projectLoadError := e\<rparr>
            in refresh (case e of Some err \<Rightarrow> recordError ProjectScope err s2 | None \<Rightarrow> s2))))"

text \<open>What \<open>reload\<close> does once the writes queued before it are done.\<close>

definition reload :: "string option \<Rightarrow> string option \<Rightarrow> settings_manager \<Rightarrow> settings_manager" where
  "reload globalFault projectFault s =
     (let (g, ge) = tryLoadFromStorage (sg_storage s) GlobalScope True globalFault;
          s1 = (case ge of
                  None \<Rightarrow> s\<lparr>sg_global := g, sg_globalLoadError := None\<rparr>
                | Some e \<Rightarrow> recordError GlobalScope e (s\<lparr>sg_globalLoadError := Some e\<rparr>));
          s2 = clearModifiedScope ProjectScope (clearModifiedScope GlobalScope s1);
          (p, pe) = tryLoadFromStorage (sg_storage s) ProjectScope (sg_trusted s) projectFault;
          s3 = (case pe of
                  None \<Rightarrow> s2\<lparr>sg_project := p, sg_projectLoadError := None\<rparr>
                | Some e \<Rightarrow> recordError ProjectScope e (s2\<lparr>sg_projectLoadError := Some e\<rparr>))
      in refresh s3)"

definition applyOverrides :: "settings \<Rightarrow> settings_manager \<Rightarrow> settings_manager" where
  "applyOverrides overrides s = s\<lparr>sg_settings := deepMergeSettings (sg_settings s) overrides\<rparr>"

definition drainErrors :: "settings_manager \<Rightarrow> (scope \<times> settings_fault) list \<times> settings_manager" where
  "drainErrors s = (sg_errors s, s\<lparr>sg_errors := []\<rparr>)"

section \<open>Global setters\<close>

text \<open>
  A setter assigns fields, or a key of a nested object that it creates when the field is falsy, marks
  them and saves once. Assigning a key of a truthy primitive throws before anything has changed; a
  field that holds an array where an object belongs is outside the model.
\<close>

datatype assignment = Field string "json option" | Nested string string json

datatype assign_fault = KeyOfPrimitive | KeyOfArray

fun json_falsy :: "json option \<Rightarrow> bool" where
  "json_falsy None = True"
| "json_falsy (Some JNull) = True"
| "json_falsy (Some (JBool b)) = (\<not> b)"
| "json_falsy (Some (JInt i)) = (i = 0)"
| "json_falsy (Some (JStr s)) = (s = [])"
| "json_falsy _ = False"

fun assign_global :: "assignment \<Rightarrow> settings_manager \<Rightarrow> assign_fault + settings_manager" where
  "assign_global (Field f v) s = Inr (markModified f None (s\<lparr>sg_global := put f v (sg_global s)\<rparr>))"
| "assign_global (Nested f k v) s =
     (let cur = jm_get (sg_global s) f;
          with_object = (\<lambda>kvs. markModified f (Some k) (s\<lparr>sg_global := jm_set f (JObj (jm_set k v kvs)) (sg_global s)\<rparr>))
      in if json_falsy cur then Inr (with_object [])
         else (case cur of
                 Some (JObj kvs) \<Rightarrow> Inr (with_object kvs)
               | Some (JArr xs) \<Rightarrow> Inl KeyOfArray
               | _ \<Rightarrow> Inl KeyOfPrimitive))"

fun assign_all :: "assignment list \<Rightarrow> settings_manager \<Rightarrow> assign_fault + settings_manager" where
  "assign_all [] s = Inr s"
| "assign_all (a # as) s = (case assign_global a s of Inl e \<Rightarrow> Inl e | Inr s' \<Rightarrow> assign_all as s')"

definition set_global :: "assignment list \<Rightarrow> settings_manager \<Rightarrow> assign_fault + settings_manager" where
  "set_global as s = (case assign_all as s of Inl e \<Rightarrow> Inl e | Inr s' \<Rightarrow> Inr (save s'))"

end
