(* ===== verification/Settings_Fields.thy ===== *)
theory Settings_Fields
  imports Settings_Manager
begin

text \<open>
  The accessors of \<open>core/settings-manager.ts\<close>, one definition each, in the order of the class. A
  getter reads the effective settings and supplies its fallback; a setter is one group of assignments
  to the global settings followed by a save. Values are untyped JSON at run time. The environment
  variables that some getters consult and the random identifier are arguments.
\<close>

section \<open>Reading\<close>

definition eff_field :: "settings_manager \<Rightarrow> string \<Rightarrow> json option" where
  "eff_field s f = jm_get (sg_settings s) f"

text \<open>\<open>v?.k\<close>.\<close>

definition prop_of :: "json option \<Rightarrow> string \<Rightarrow> json option" where
  "prop_of v k = (case v of Some (JObj kvs) \<Rightarrow> jm_get kvs k | _ \<Rightarrow> None)"

text \<open>\<open>v ?? d\<close> and \<open>v || d\<close>.\<close>

fun nullish_or :: "json option \<Rightarrow> json \<Rightarrow> json" where
  "nullish_or None d = d"
| "nullish_or (Some JNull) d = d"
| "nullish_or (Some v) d = v"

definition truthy_or :: "json option \<Rightarrow> json \<Rightarrow> json" where
  "truthy_or v d = (case v of Some x \<Rightarrow> if json_falsy v then d else x | None \<Rightarrow> d)"

text \<open>\<open>[...(v ?? [])]\<close>; spreading a value that is not iterable throws.\<close>

fun array_of :: "json option \<Rightarrow> json list option" where
  "array_of None = Some []"
| "array_of (Some JNull) = Some []"
| "array_of (Some (JArr xs)) = Some xs"
| "array_of (Some (JStr s)) = Some (map (\<lambda>c. JStr [c]) s)"
| "array_of (Some v) = None"

section \<open>Getters\<close>

definition getLastChangelogVersion :: "settings_manager \<Rightarrow> json option" where
  "getLastChangelogVersion s = eff_field s ''lastChangelogVersion''"

definition getDefaultProvider :: "settings_manager \<Rightarrow> json option" where
  "getDefaultProvider s = eff_field s ''defaultProvider''"

definition getDefaultModel :: "settings_manager \<Rightarrow> json option" where
  "getDefaultModel s = eff_field s ''defaultModel''"

definition settings_getApprovalMode :: "settings_manager \<Rightarrow> string" where
  "settings_getApprovalMode s =
     (if prop_of (eff_field s ''harness'') ''approvalMode'' = Some (JStr ''always_skip'') then ''always_skip'' else ''ask'')"

definition getSteeringMode :: "settings_manager \<Rightarrow> json" where
  "getSteeringMode s = truthy_or (eff_field s ''steeringMode'') (JStr ''one-at-a-time'')"

definition getFollowUpMode :: "settings_manager \<Rightarrow> json" where
  "getFollowUpMode s = truthy_or (eff_field s ''followUpMode'') (JStr ''one-at-a-time'')"

definition getThemeSetting :: "settings_manager \<Rightarrow> string option" where
  "getThemeSetting s = json_string (eff_field s ''theme'')"

definition getTheme :: "settings_manager \<Rightarrow> string option" where
  "getTheme s = (case getThemeSetting s of Some t \<Rightarrow> if CHR ''/'' \<in> set t then None else Some t | None \<Rightarrow> None)"

definition getDefaultThinkingLevel :: "settings_manager \<Rightarrow> json option" where
  "getDefaultThinkingLevel s = eff_field s ''defaultThinkingLevel''"

definition getTransport :: "settings_manager \<Rightarrow> json" where
  "getTransport s = nullish_or (eff_field s ''transport'') (JStr ''auto'')"

definition getCompactionEnabled :: "settings_manager \<Rightarrow> json" where
  "getCompactionEnabled s = nullish_or (prop_of (eff_field s ''compaction'') ''enabled'') (JBool True)"

definition getCompactionReserveTokens :: "settings_manager \<Rightarrow> json" where
  "getCompactionReserveTokens s = nullish_or (prop_of (eff_field s ''compaction'') ''reserveTokens'') (JInt 16384)"

definition getCompactionKeepRecentTokens :: "settings_manager \<Rightarrow> json" where
  "getCompactionKeepRecentTokens s = nullish_or (prop_of (eff_field s ''compaction'') ''keepRecentTokens'') (JInt 20000)"

definition getCompactionSettings :: "settings_manager \<Rightarrow> json \<times> json \<times> json" where
  "getCompactionSettings s = (getCompactionEnabled s, getCompactionReserveTokens s, getCompactionKeepRecentTokens s)"

definition getBranchSummarySettings :: "settings_manager \<Rightarrow> json \<times> json" where
  "getBranchSummarySettings s =
     (nullish_or (prop_of (eff_field s ''branchSummary'') ''reserveTokens'') (JInt 16384),
      nullish_or (prop_of (eff_field s ''branchSummary'') ''skipPrompt'') (JBool False))"

definition getBranchSummarySkipPrompt :: "settings_manager \<Rightarrow> json" where
  "getBranchSummarySkipPrompt s = nullish_or (prop_of (eff_field s ''branchSummary'') ''skipPrompt'') (JBool False)"

definition getRetryEnabled :: "settings_manager \<Rightarrow> json" where
  "getRetryEnabled s = nullish_or (prop_of (eff_field s ''retry'') ''enabled'') (JBool True)"

definition getRetrySettings :: "settings_manager \<Rightarrow> json \<times> json \<times> json" where
  "getRetrySettings s =
     (getRetryEnabled s, nullish_or (prop_of (eff_field s ''retry'') ''maxRetries'') (JInt 3),
      nullish_or (prop_of (eff_field s ''retry'') ''baseDelayMs'') (JInt 2000))"

definition getProviderRetrySettings :: "settings_manager \<Rightarrow> json option \<times> json option \<times> json" where
  "getProviderRetrySettings s =
     (let provider = prop_of (eff_field s ''retry'') ''provider'' in
      (prop_of provider ''timeoutMs'', prop_of provider ''maxRetries'',
       nullish_or (prop_of provider ''maxRetryDelayMs'') (JInt 60000)))"

definition getHideThinkingBlock :: "settings_manager \<Rightarrow> json" where
  "getHideThinkingBlock s = nullish_or (eff_field s ''hideThinkingBlock'') (JBool False)"

definition getShowCacheMissNotices :: "settings_manager \<Rightarrow> json" where
  "getShowCacheMissNotices s = nullish_or (eff_field s ''showCacheMissNotices'') (JBool False)"

definition getQuietStartup :: "settings_manager \<Rightarrow> json" where
  "getQuietStartup s = nullish_or (eff_field s ''quietStartup'') (JBool False)"

definition getDefaultProjectTrust :: "settings_manager \<Rightarrow> json" where
  "getDefaultProjectTrust s =
     (let mode = jm_get (sg_global s) ''defaultProjectTrust'' in
      if mode = Some (JStr ''always'') \<or> mode = Some (JStr ''never'') then the mode else JStr ''ask'')"

definition getShellCommandPrefix :: "settings_manager \<Rightarrow> json option" where
  "getShellCommandPrefix s = eff_field s ''shellCommandPrefix''"

text \<open>The outer option is a throw, the inner one \<open>undefined\<close>.\<close>

definition getNpmCommand :: "settings_manager \<Rightarrow> json list option option" where
  "getNpmCommand s =
     (if json_falsy (eff_field s ''npmCommand'') then Some None
      else map_option Some (array_of (eff_field s ''npmCommand'')))"

definition getCollapseChangelog :: "settings_manager \<Rightarrow> json" where
  "getCollapseChangelog s = nullish_or (eff_field s ''collapseChangelog'') (JBool False)"

definition getEnableInstallTelemetry :: "settings_manager \<Rightarrow> json" where
  "getEnableInstallTelemetry s = nullish_or (eff_field s ''enableInstallTelemetry'') (JBool True)"

definition getEnableAnalytics :: "settings_manager \<Rightarrow> json" where
  "getEnableAnalytics s = nullish_or (eff_field s ''enableAnalytics'') (JBool False)"

definition getTrackingId :: "settings_manager \<Rightarrow> json option" where
  "getTrackingId s = eff_field s ''trackingId''"

definition getPackages :: "settings_manager \<Rightarrow> json list option" where
  "getPackages s = array_of (eff_field s ''packages'')"

definition getExtensionPaths :: "settings_manager \<Rightarrow> json list option" where
  "getExtensionPaths s = array_of (eff_field s ''extensions'')"

definition getSkillPaths :: "settings_manager \<Rightarrow> json list option" where
  "getSkillPaths s = array_of (eff_field s ''skills'')"

definition getPromptTemplatePaths :: "settings_manager \<Rightarrow> json list option" where
  "getPromptTemplatePaths s = array_of (eff_field s ''prompts'')"

definition getThemePaths :: "settings_manager \<Rightarrow> json list option" where
  "getThemePaths s = array_of (eff_field s ''themes'')"

definition getEnableSkillCommands :: "settings_manager \<Rightarrow> json" where
  "getEnableSkillCommands s = nullish_or (eff_field s ''enableSkillCommands'') (JBool True)"

definition getThinkingBudgets :: "settings_manager \<Rightarrow> json option" where
  "getThinkingBudgets s = eff_field s ''thinkingBudgets''"

definition getShowImages :: "settings_manager \<Rightarrow> json" where
  "getShowImages s = nullish_or (prop_of (eff_field s ''terminal'') ''showImages'') (JBool True)"

definition getImageWidthCells :: "settings_manager \<Rightarrow> int" where
  "getImageWidthCells s = (case prop_of (eff_field s ''terminal'') ''imageWidthCells'' of Some (JInt w) \<Rightarrow> max 1 w | _ \<Rightarrow> 60)"

definition getClearOnShrink :: "bool \<Rightarrow> settings_manager \<Rightarrow> json" where
  "getClearOnShrink env s =
     (case prop_of (eff_field s ''terminal'') ''clearOnShrink'' of Some v \<Rightarrow> v | None \<Rightarrow> JBool env)"

definition getShowTerminalProgress :: "settings_manager \<Rightarrow> json" where
  "getShowTerminalProgress s = nullish_or (prop_of (eff_field s ''terminal'') ''showTerminalProgress'') (JBool False)"

definition getTuiMode :: "settings_manager \<Rightarrow> json" where
  "getTuiMode s =
     (let mode = eff_field s ''tuiMode'' in
      if mode = Some (JStr ''fullscreen'') then the mode else JStr ''regular'')"

definition getFullscreenScrollbar :: "settings_manager \<Rightarrow> json" where
  "getFullscreenScrollbar s =
     (let mode = eff_field s ''fullscreenScrollbar'' in
      if mode = Some (JStr ''always'') \<or> mode = Some (JStr ''hidden'') then the mode else JStr ''auto'')"

definition getImageAutoResize :: "settings_manager \<Rightarrow> json" where
  "getImageAutoResize s = nullish_or (prop_of (eff_field s ''images'') ''autoResize'') (JBool True)"

definition getBlockImages :: "settings_manager \<Rightarrow> json" where
  "getBlockImages s = nullish_or (prop_of (eff_field s ''images'') ''blockImages'') (JBool False)"

definition getEnabledModels :: "settings_manager \<Rightarrow> json option" where
  "getEnabledModels s = eff_field s ''enabledModels''"

definition getDoubleEscapeAction :: "settings_manager \<Rightarrow> json" where
  "getDoubleEscapeAction s = nullish_or (eff_field s ''doubleEscapeAction'') (JStr ''tree'')"

definition getTreeFilterMode :: "settings_manager \<Rightarrow> json" where
  "getTreeFilterMode s =
     (let mode = eff_field s ''treeFilterMode'' in
      if mode = Some (JStr ''default'') \<or> mode = Some (JStr ''no-tools'') \<or> mode = Some (JStr ''user-only'') \<or> mode = Some (JStr ''labeled-only'') \<or> mode = Some (JStr ''all'') then the mode else JStr ''default'')"

definition getShowHardwareCursor :: "bool \<Rightarrow> settings_manager \<Rightarrow> json" where
  "getShowHardwareCursor env s = nullish_or (eff_field s ''showHardwareCursor'') (JBool env)"

definition getEditorPaddingX :: "settings_manager \<Rightarrow> json" where
  "getEditorPaddingX s = nullish_or (eff_field s ''editorPaddingX'') (JInt 0)"

definition getOutputPad :: "settings_manager \<Rightarrow> int" where
  "getOutputPad s = (if eff_field s ''outputPad'' = Some (JInt 0) then 0 else 1)"

definition getAutocompleteMaxVisible :: "settings_manager \<Rightarrow> json" where
  "getAutocompleteMaxVisible s = nullish_or (eff_field s ''autocompleteMaxVisible'') (JInt 5)"

definition getCodeBlockIndent :: "settings_manager \<Rightarrow> json" where
  "getCodeBlockIndent s = nullish_or (prop_of (eff_field s ''markdown'') ''codeBlockIndent'') (JStr ''  '')"

definition getMermaidRenderingMode :: "settings_manager \<Rightarrow> json" where
  "getMermaidRenderingMode s =
     (let mode = prop_of (eff_field s ''markdown'') ''mermaid'' in
      if mode = Some (JStr ''off'') \<or> mode = Some (JStr ''final'') then the mode else JStr ''streaming'')"

definition getWarnings :: "settings_manager \<Rightarrow> settings" where
  "getWarnings s = spread (eff_field s ''warnings'')"

section \<open>Setters\<close>

type_synonym setter = "settings_manager \<Rightarrow> assign_fault + settings_manager"

definition setLastChangelogVersion :: "string \<Rightarrow> setter" where
  "setLastChangelogVersion v = set_global [Field ''lastChangelogVersion'' (Some (JStr v))]"

definition setDefaultProvider :: "string \<Rightarrow> setter" where
  "setDefaultProvider v = set_global [Field ''defaultProvider'' (Some (JStr v))]"

definition setDefaultModel :: "string \<Rightarrow> setter" where
  "setDefaultModel v = set_global [Field ''defaultModel'' (Some (JStr v))]"

definition setDefaultModelAndProvider :: "string \<Rightarrow> string \<Rightarrow> setter" where
  "setDefaultModelAndProvider provider modelId =
     set_global [Field ''defaultProvider'' (Some (JStr provider)), Field ''defaultModel'' (Some (JStr modelId))]"

definition settings_setApprovalMode :: "string \<Rightarrow> setter" where
  "settings_setApprovalMode mode s =
     set_global
       [Field ''harness''
          (Some (JObj (jm_set ''approvalMode'' (JStr mode) (spread (jm_get (sg_global s) ''harness'')))))] s"

definition setSteeringMode :: "string \<Rightarrow> setter" where
  "setSteeringMode v = set_global [Field ''steeringMode'' (Some (JStr v))]"

definition setFollowUpMode :: "string \<Rightarrow> setter" where
  "setFollowUpMode v = set_global [Field ''followUpMode'' (Some (JStr v))]"

definition setTheme :: "string \<Rightarrow> setter" where
  "setTheme v = set_global [Field ''theme'' (Some (JStr v))]"

definition setDefaultThinkingLevel :: "string \<Rightarrow> setter" where
  "setDefaultThinkingLevel v = set_global [Field ''defaultThinkingLevel'' (Some (JStr v))]"

definition setTransport :: "string \<Rightarrow> setter" where
  "setTransport v = set_global [Field ''transport'' (Some (JStr v))]"

definition setCompactionEnabled :: "bool \<Rightarrow> setter" where
  "setCompactionEnabled v = set_global [Nested ''compaction'' ''enabled'' (JBool v)]"

definition setRetryEnabled :: "bool \<Rightarrow> setter" where
  "setRetryEnabled v = set_global [Nested ''retry'' ''enabled'' (JBool v)]"

text \<open>A negative timeout throws: \<open>None\<close>.\<close>

definition setHttpIdleTimeoutMs :: "int \<Rightarrow> settings_manager \<Rightarrow> (assign_fault + settings_manager) option" where
  "setHttpIdleTimeoutMs timeoutMs s =
     (if timeoutMs < 0 then None else Some (set_global [Field ''httpIdleTimeoutMs'' (Some (JInt timeoutMs))] s))"

definition setHideThinkingBlock :: "bool \<Rightarrow> setter" where
  "setHideThinkingBlock v = set_global [Field ''hideThinkingBlock'' (Some (JBool v))]"

definition setShowCacheMissNotices :: "bool \<Rightarrow> setter" where
  "setShowCacheMissNotices v = set_global [Field ''showCacheMissNotices'' (Some (JBool v))]"

definition setShellPath :: "string option \<Rightarrow> setter" where
  "setShellPath v = set_global [Field ''shellPath'' (map_option JStr v)]"

definition setQuietStartup :: "bool \<Rightarrow> setter" where
  "setQuietStartup v = set_global [Field ''quietStartup'' (Some (JBool v))]"

definition setDefaultProjectTrust :: "string \<Rightarrow> setter" where
  "setDefaultProjectTrust v = set_global [Field ''defaultProjectTrust'' (Some (JStr v))]"

definition setShellCommandPrefix :: "string option \<Rightarrow> setter" where
  "setShellCommandPrefix v = set_global [Field ''shellCommandPrefix'' (map_option JStr v)]"

definition setNpmCommand :: "string list option \<Rightarrow> setter" where
  "setNpmCommand v = set_global [Field ''npmCommand'' (map_option (\<lambda>xs. JArr (map JStr xs)) v)]"

definition setCollapseChangelog :: "bool \<Rightarrow> setter" where
  "setCollapseChangelog v = set_global [Field ''collapseChangelog'' (Some (JBool v))]"

definition setEnableInstallTelemetry :: "bool \<Rightarrow> setter" where
  "setEnableInstallTelemetry v = set_global [Field ''enableInstallTelemetry'' (Some (JBool v))]"

definition setEnableAnalytics :: "string \<Rightarrow> bool \<Rightarrow> setter" where
  "setEnableAnalytics uuid enabled s =
     set_global
       (Field ''enableAnalytics'' (Some (JBool enabled)) #
        (if enabled \<and> json_falsy (jm_get (sg_global s) ''trackingId'')
         then [Field ''trackingId'' (Some (JStr uuid))] else [])) s"

definition setPackages :: "json list \<Rightarrow> setter" where
  "setPackages v = set_global [Field ''packages'' (Some (JArr v))]"

definition setProjectPackages :: "json list \<Rightarrow> settings_manager \<Rightarrow> settings_fault + settings_manager" where
  "setProjectPackages v = updateProjectSettings ''packages'' (put ''packages'' (Some (JArr v)))"

definition setExtensionPaths :: "string list \<Rightarrow> setter" where
  "setExtensionPaths v = set_global [Field ''extensions'' (Some (JArr (map JStr v)))]"

definition setProjectExtensionPaths :: "string list \<Rightarrow> settings_manager \<Rightarrow> settings_fault + settings_manager" where
  "setProjectExtensionPaths v = updateProjectSettings ''extensions'' (put ''extensions'' (Some (JArr (map JStr v))))"

definition setSkillPaths :: "string list \<Rightarrow> setter" where
  "setSkillPaths v = set_global [Field ''skills'' (Some (JArr (map JStr v)))]"

definition setProjectSkillPaths :: "string list \<Rightarrow> settings_manager \<Rightarrow> settings_fault + settings_manager" where
  "setProjectSkillPaths v = updateProjectSettings ''skills'' (put ''skills'' (Some (JArr (map JStr v))))"

definition setPromptTemplatePaths :: "string list \<Rightarrow> setter" where
  "setPromptTemplatePaths v = set_global [Field ''prompts'' (Some (JArr (map JStr v)))]"

definition setProjectPromptTemplatePaths :: "string list \<Rightarrow> settings_manager \<Rightarrow> settings_fault + settings_manager" where
  "setProjectPromptTemplatePaths v = updateProjectSettings ''prompts'' (put ''prompts'' (Some (JArr (map JStr v))))"

definition setThemePaths :: "string list \<Rightarrow> setter" where
  "setThemePaths v = set_global [Field ''themes'' (Some (JArr (map JStr v)))]"

definition setProjectThemePaths :: "string list \<Rightarrow> settings_manager \<Rightarrow> settings_fault + settings_manager" where
  "setProjectThemePaths v = updateProjectSettings ''themes'' (put ''themes'' (Some (JArr (map JStr v))))"

definition setEnableSkillCommands :: "bool \<Rightarrow> setter" where
  "setEnableSkillCommands v = set_global [Field ''enableSkillCommands'' (Some (JBool v))]"

definition setShowImages :: "bool \<Rightarrow> setter" where
  "setShowImages v = set_global [Nested ''terminal'' ''showImages'' (JBool v)]"

definition setImageWidthCells :: "int \<Rightarrow> setter" where
  "setImageWidthCells v = set_global [Nested ''terminal'' ''imageWidthCells'' (JInt (max 1 v))]"

definition setClearOnShrink :: "bool \<Rightarrow> setter" where
  "setClearOnShrink v = set_global [Nested ''terminal'' ''clearOnShrink'' (JBool v)]"

definition setShowTerminalProgress :: "bool \<Rightarrow> setter" where
  "setShowTerminalProgress v = set_global [Nested ''terminal'' ''showTerminalProgress'' (JBool v)]"

definition setTuiMode :: "string \<Rightarrow> setter" where
  "setTuiMode v = set_global [Field ''tuiMode'' (Some (JStr v))]"

definition setFullscreenScrollbar :: "string \<Rightarrow> setter" where
  "setFullscreenScrollbar v = set_global [Field ''fullscreenScrollbar'' (Some (JStr v))]"

definition setImageAutoResize :: "bool \<Rightarrow> setter" where
  "setImageAutoResize v = set_global [Nested ''images'' ''autoResize'' (JBool v)]"

definition setBlockImages :: "bool \<Rightarrow> setter" where
  "setBlockImages v = set_global [Nested ''images'' ''blockImages'' (JBool v)]"

definition setEnabledModels :: "string list option \<Rightarrow> setter" where
  "setEnabledModels v = set_global [Field ''enabledModels'' (map_option (\<lambda>xs. JArr (map JStr xs)) v)]"

definition setDoubleEscapeAction :: "string \<Rightarrow> setter" where
  "setDoubleEscapeAction v = set_global [Field ''doubleEscapeAction'' (Some (JStr v))]"

definition setTreeFilterMode :: "string \<Rightarrow> setter" where
  "setTreeFilterMode v = set_global [Field ''treeFilterMode'' (Some (JStr v))]"

definition setShowHardwareCursor :: "bool \<Rightarrow> setter" where
  "setShowHardwareCursor v = set_global [Field ''showHardwareCursor'' (Some (JBool v))]"

definition setEditorPaddingX :: "int \<Rightarrow> setter" where
  "setEditorPaddingX v = set_global [Field ''editorPaddingX'' (Some (JInt (max 0 (min 3 v))))]"

definition setOutputPad :: "int \<Rightarrow> setter" where
  "setOutputPad v = set_global [Field ''outputPad'' (Some (JInt v))]"

definition setAutocompleteMaxVisible :: "int \<Rightarrow> setter" where
  "setAutocompleteMaxVisible v = set_global [Field ''autocompleteMaxVisible'' (Some (JInt (max 3 (min 20 v))))]"

text \<open>\<open>this.globalSettings.markdown ??= {}\<close>: unlike elsewhere a falsy primitive stays and throws.\<close>

definition setMermaidRenderingMode :: "string \<Rightarrow> setter" where
  "setMermaidRenderingMode v s =
     (if jm_get (sg_global s) ''markdown'' \<notin> {None, Some JNull} \<and> json_falsy (jm_get (sg_global s) ''markdown'')
      then Inl KeyOfPrimitive
      else set_global [Nested ''markdown'' ''mermaid'' (JStr v)] s)"

definition setWarnings :: "settings \<Rightarrow> setter" where
  "setWarnings v = set_global [Field ''warnings'' (Some (JObj v))]"

end
