(* ===== verification/Settings_Lemmas.thy ===== *)
theory Settings_Lemmas
  imports Settings_Fields
begin

text \<open>
  Lemmas about settings: look-ups in merged and in persisted objects, the migration as an idempotent
  function, and the events through which a settings manager is used.
\<close>

section \<open>Objects\<close>

lemma jm_set_same: "jm_get m k = Some v \<Longrightarrow> jm_set k v m = m"
  by (induction m) auto

lemma put_get [simp]: "jm_get (put k v m) j = (if j = k then v else jm_get m j)"
  by (cases v) (simp_all add: map_laws)

lemma put_distinct: "distinct (map fst m) \<Longrightarrow> distinct (map fst (put k v m))"
  by (cases v) (simp_all add: jm_set_distinct jm_delete_distinct)

lemma fold_put: "jm_get (fold (\<lambda>k. put k (f k)) ks m) j = (if j \<in> set ks then f j else jm_get m j)"
  by (induction ks arbitrary: m) auto

lemma deepMerge_fold:
  "jm_get (fold (\<lambda>(key, v) result. jm_set key (f key v) result) ov m) k =
     (case map_of (rev ov) k of Some v \<Rightarrow> Some (f k v) | None \<Rightarrow> jm_get m k)"
proof (induction ov arbitrary: m)
  case Nil
  then show ?case by simp
next
  case (Cons x ov)
  obtain j v where x: "x = (j, v)" by (cases x)
  show ?case unfolding x by (auto simp: Cons.IH map_laws map_add_def split: option.splits)
qed

lemma deepMerge_as_fold:
  "deepMergeObjects base overrides =
     fold (\<lambda>(key, v) result. jm_set key
       ((\<lambda>key v. case (jm_get base key, v) of
            (Some (JObj b), JObj ov) \<Rightarrow> JObj (deepMergeObjects b ov) | _ \<Rightarrow> v) key v) result) overrides base"
  by (rule deepMergeObjects.simps)

lemma deepMerge_get:
  assumes "distinct (map fst overrides)"
  shows "jm_get (deepMergeObjects base overrides) k =
    (case jm_get overrides k of
       None \<Rightarrow> jm_get base k
     | Some v \<Rightarrow> Some (case (jm_get base k, v) of
                         (Some (JObj b), JObj ov) \<Rightarrow> JObj (deepMergeObjects b ov) | _ \<Rightarrow> v))"
proof -
  have "map_of (rev overrides) = map_of overrides"
    using assms map_of_inject_set [of "rev overrides" overrides] by (simp add: rev_map [symmetric])
  then show ?thesis by (simp only: deepMerge_as_fold [of base overrides] deepMerge_fold)
qed

lemma deepMerge_keeps: "jm_get base k \<noteq> None \<Longrightarrow> jm_get (deepMergeObjects base overrides) k \<noteq> None"
  by (simp only: deepMerge_as_fold [of base overrides] deepMerge_fold) (simp split: option.split)

section \<open>Migration\<close>

lemma migrate_queueMode_get:
  "k \<notin> {''queueMode'', ''steeringMode''} \<Longrightarrow> jm_get (migrate_queueMode s) k = jm_get s k"
  by (auto simp: migrate_queueMode_def jm_get_set jm_get_delete split: option.split)

lemma migrate_websockets_get:
  "k \<notin> {''websockets'', ''transport''} \<Longrightarrow> jm_get (migrate_websockets s) k = jm_get s k"
  by (auto simp: migrate_websockets_def jm_get_set jm_get_delete split: option.split json.split)

lemma migrate_skills_shape:
  "(\<forall>sk. jm_get s ''skills'' \<noteq> Some (JObj sk)) \<and> migrate_skills s = s \<or>
   (\<exists>s1. (\<forall>k. k \<noteq> ''enableSkillCommands'' \<longrightarrow> jm_get s1 k = jm_get s k) \<and>
      (migrate_skills s = jm_delete ''skills'' s1 \<or> (\<exists>d. migrate_skills s = jm_set ''skills'' (JArr d) s1)))"
proof (cases "\<exists>sk. jm_get s ''skills'' = Some (JObj sk)")
  case True
  then obtain sk where sk: "jm_get s ''skills'' = Some (JObj sk)" by auto
  define s1 where "s1 = (case (jm_get sk ''enableSkillCommands'', jm_get s ''enableSkillCommands'') of
                       (Some e, None) \<Rightarrow> jm_set ''enableSkillCommands'' e s
                     | _ \<Rightarrow> s)"
  have "\<forall>k. k \<noteq> ''enableSkillCommands'' \<longrightarrow> jm_get s1 k = jm_get s k"
    by (simp add: s1_def jm_get_set split: option.split)
  moreover have m: "migrate_skills s = (case jm_get sk ''customDirectories'' of
                Some (JArr (d # ds)) \<Rightarrow> jm_set ''skills'' (JArr (d # ds)) s1
              | _ \<Rightarrow> jm_delete ''skills'' s1)"
    unfolding migrate_skills_def sk option.case json.case s1_def Let_def by (rule refl)
  have "migrate_skills s = jm_delete ''skills'' s1 \<or> (\<exists>d. migrate_skills s = jm_set ''skills'' (JArr d) s1)"
  proof (cases "jm_get sk ''customDirectories''")
    case (Some v)
    then show ?thesis
    proof (cases v)
      case (JArr xs)
      then show ?thesis using Some by (cases xs) (auto simp: m)
    qed (simp_all add: m)
  qed (simp add: m)
  ultimately show ?thesis by blast
next
  case False
  then have "migrate_skills s = s"
    by (cases "jm_get s ''skills''"; cases "the (jm_get s ''skills'')") (auto simp: migrate_skills_def)
  with False show ?thesis by blast
qed

lemma migrate_skills_get:
  "k \<notin> {''skills'', ''enableSkillCommands''} \<Longrightarrow> jm_get (migrate_skills s) k = jm_get s k"
  using migrate_skills_shape [of s] by (auto simp: jm_get_set jm_get_delete)

lemma migrate_retry_shape:
  "(\<forall>r. jm_get s ''retry'' \<noteq> Some (JObj r)) \<and> migrate_retry s = s \<or>
   (\<exists>r r1. jm_get s ''retry'' = Some (JObj r) \<and> (jm_get r ''maxDelayMs'' = None \<longrightarrow> r1 = r) \<and>
      migrate_retry s = jm_set ''retry'' (JObj (jm_delete ''maxDelayMs'' r1)) s)"
proof (cases "\<exists>r. jm_get s ''retry'' = Some (JObj r)")
  case True
  then obtain r where r: "jm_get s ''retry'' = Some (JObj r)" by auto
  show ?thesis
    by (intro disjI2 exI [of _ r] exI conjI) (simp_all add: r migrate_retry_def Let_def)
next
  case False
  then have "migrate_retry s = s"
    by (cases "jm_get s ''retry''"; cases "the (jm_get s ''retry'')") (auto simp: migrate_retry_def)
  with False show ?thesis by blast
qed

lemma migrate_retry_get: "k \<noteq> ''retry'' \<Longrightarrow> jm_get (migrate_retry s) k = jm_get s k"
  using migrate_retry_shape [of s] by (auto simp: jm_get_set)

lemmas migrate_gets = migrate_queueMode_get migrate_websockets_get migrate_skills_get migrate_retry_get

text \<open>When each step has nothing to do.\<close>

definition queueMode_done :: "settings \<Rightarrow> bool" where
  "queueMode_done s \<longleftrightarrow> (jm_has s ''queueMode'' \<longrightarrow> jm_has s ''steeringMode'')"

definition websockets_done :: "settings \<Rightarrow> bool" where
  "websockets_done s \<longleftrightarrow> jm_has s ''transport'' \<or> (\<forall>b. jm_get s ''websockets'' \<noteq> Some (JBool b))"

definition skills_done :: "settings \<Rightarrow> bool" where
  "skills_done s \<longleftrightarrow> (\<forall>sk. jm_get s ''skills'' \<noteq> Some (JObj sk))"

definition retry_done :: "settings \<Rightarrow> bool" where
  "retry_done s \<longleftrightarrow> (\<forall>r. jm_get s ''retry'' = Some (JObj r) \<longrightarrow> jm_get r ''maxDelayMs'' = None)"

lemma migrate_queueMode_id: "queueMode_done s \<Longrightarrow> migrate_queueMode s = s"
  by (auto simp: queueMode_done_def migrate_queueMode_def split: option.split)

lemma migrate_websockets_id: "websockets_done s \<Longrightarrow> migrate_websockets s = s"
  by (auto simp: websockets_done_def migrate_websockets_def split: option.split json.split)

lemma migrate_skills_id: "skills_done s \<Longrightarrow> migrate_skills s = s"
  by (cases "jm_get s ''skills''"; cases "the (jm_get s ''skills'')") (auto simp: skills_done_def migrate_skills_def)

lemma migrate_retry_id: "retry_done s \<Longrightarrow> migrate_retry s = s"
  using migrate_retry_shape [of s]
  by (auto simp: retry_done_def delete_id map_of_eq_None_iff jm_set_same)

lemma migrate_queueMode_done: "queueMode_done (migrate_queueMode s)"
  by (auto simp: queueMode_done_def migrate_queueMode_def jm_get_set jm_get_delete split: option.split)

lemma migrate_websockets_done: "websockets_done (migrate_websockets s)"
  by (auto simp: websockets_done_def migrate_websockets_def jm_get_set jm_get_delete split: option.split json.split)

lemma migrate_skills_done: "skills_done (migrate_skills s)"
  using migrate_skills_shape [of s] by (auto simp: skills_done_def jm_get_set jm_get_delete)

lemma migrate_retry_done: "retry_done (migrate_retry s)"
  using migrate_retry_shape [of s] by (auto simp: retry_done_def jm_get_set jm_get_delete)

lemma migrated_id:
  "queueMode_done s \<Longrightarrow> websockets_done s \<Longrightarrow> skills_done s \<Longrightarrow> retry_done s \<Longrightarrow> migrateSettings s = s"
  by (simp add: migrateSettings_def migrate_queueMode_id migrate_websockets_id migrate_skills_id migrate_retry_id)

lemma migrateSettings_done:
  "queueMode_done (migrateSettings s)" "websockets_done (migrateSettings s)"
  "skills_done (migrateSettings s)" "retry_done (migrateSettings s)"
proof -
  let ?s1 = "migrate_queueMode s" let ?s2 = "migrate_websockets ?s1" let ?s3 = "migrate_skills ?s2"
  show "queueMode_done (migrateSettings s)"
    using migrate_queueMode_done [of s] unfolding migrateSettings_def queueMode_done_def by (simp add: migrate_gets)
  show "websockets_done (migrateSettings s)"
    using migrate_websockets_done [of ?s1] unfolding migrateSettings_def websockets_done_def
    by (simp add: migrate_skills_get migrate_retry_get)
  show "skills_done (migrateSettings s)"
    using migrate_skills_done [of ?s2] unfolding migrateSettings_def skills_done_def by (simp add: migrate_retry_get)
  show "retry_done (migrateSettings s)" by (simp add: migrateSettings_def migrate_retry_done)
qed

lemma migrateSettings_idem: "migrateSettings (migrateSettings s) = migrateSettings s"
  by (intro migrated_id migrateSettings_done)

lemma parsed_migrated: "parsed_settings c = Inr s \<Longrightarrow> migrateSettings s = s"
  by (induction c rule: parsed_settings.induct)
    (auto simp: migrateSettings_idem migrated_id queueMode_done_def websockets_done_def skills_done_def retry_done_def)

section \<open>Persisting\<close>

text \<open>The value a write gives to a field it is about.\<close>

definition persisted_value :: "write_task \<Rightarrow> settings \<Rightarrow> string \<Rightarrow> json option" where
  "persisted_value t cur f =
     (case map_of (wt_nested t) f of
        Some ks \<Rightarrow>
          if is_object (jm_get (wt_snapshot t) f)
          then Some (JObj (fold (\<lambda>k. put k (jm_get (spread (jm_get (wt_snapshot t) f)) k)) ks (spread (jm_get cur f))))
          else jm_get (wt_snapshot t) f
      | None \<Rightarrow> jm_get (wt_snapshot t) f)"

lemma persist_field_put: "persist_field t cur f = put f (persisted_value t cur f)"
  by (simp add: fun_eq_iff persist_field_def persisted_value_def Let_def split: option.splits)

lemma persisted_get: "jm_get (persisted t cur) f = (if f \<in> set (wt_fields t) then persisted_value t cur f else jm_get cur f)"
proof -
  have "persist_field t cur = (\<lambda>f. put f (persisted_value t cur f))" by (simp add: fun_eq_iff persist_field_put)
  then show ?thesis by (simp add: persisted_def fold_put)
qed

section \<open>Events\<close>

datatype settings_event =
    Assign "assignment list"
  | UpdateProject string "json option"
  | SetTrusted bool "string option"
  | Reload "string option" "string option"
  | Override settings
  | RunWrite "string option"
  | DrainErrors
  | ExternalEdit scope "file_text option"

fun settings_event_step :: "settings_manager \<Rightarrow> settings_event \<Rightarrow> settings_manager" where
  "settings_event_step s (Assign as) = (case set_global as s of Inl e \<Rightarrow> s | Inr s' \<Rightarrow> s')"
| "settings_event_step s (UpdateProject f v) = (case updateProjectSettings f (put f v) s of Inl e \<Rightarrow> s | Inr s' \<Rightarrow> s')"
| "settings_event_step s (SetTrusted b fault) = setProjectTrusted b fault s"
| "settings_event_step s (Reload gf pf) = reload gf pf s"
| "settings_event_step s (Override ov) = applyOverrides ov s"
| "settings_event_step s (RunWrite fault) = run_write fault s"
| "settings_event_step s DrainErrors = snd (drainErrors s)"
| "settings_event_step s (ExternalEdit sc c) =
     s\<lparr>sg_storage := (if sc = GlobalScope then (sg_storage s)\<lparr>st_global := c\<rparr> else (sg_storage s)\<lparr>st_project := c\<rparr>)\<rparr>"

definition settings_run :: "settings_manager \<Rightarrow> settings_event list \<Rightarrow> settings_manager" where
  "settings_run = foldl settings_event_step"

text \<open>Frame facts: assignments and marks keep everything but the global settings and the marks.\<close>

lemma markModified_frame [simp]:
  "sg_storage (markModified f k s) = sg_storage s" "sg_global (markModified f k s) = sg_global s"
  "sg_project (markModified f k s) = sg_project s" "sg_settings (markModified f k s) = sg_settings s"
  "sg_trusted (markModified f k s) = sg_trusted s" "sg_writeQueue (markModified f k s) = sg_writeQueue s"
  "sg_globalLoadError (markModified f k s) = sg_globalLoadError s"
  "sg_projectLoadError (markModified f k s) = sg_projectLoadError s" "sg_errors (markModified f k s) = sg_errors s"
  by (simp_all add: markModified_def)

lemma clearModifiedScope_frame [simp]:
  "sg_storage (clearModifiedScope c s) = sg_storage s" "sg_global (clearModifiedScope c s) = sg_global s"
  "sg_project (clearModifiedScope c s) = sg_project s" "sg_settings (clearModifiedScope c s) = sg_settings s"
  "sg_trusted (clearModifiedScope c s) = sg_trusted s" "sg_writeQueue (clearModifiedScope c s) = sg_writeQueue s"
  "sg_errors (clearModifiedScope c s) = sg_errors s"
  by (simp_all add: clearModifiedScope_def)

lemma recordError_frame [simp]:
  "sg_storage (recordError c e s) = sg_storage s" "sg_global (recordError c e s) = sg_global s"
  "sg_project (recordError c e s) = sg_project s" "sg_settings (recordError c e s) = sg_settings s"
  "sg_trusted (recordError c e s) = sg_trusted s" "sg_writeQueue (recordError c e s) = sg_writeQueue s"
  by (simp_all add: recordError_def)

lemma refresh_frame [simp]:
  "sg_storage (refresh s) = sg_storage s" "sg_global (refresh s) = sg_global s" "sg_project (refresh s) = sg_project s"
  "sg_trusted (refresh s) = sg_trusted s" "sg_writeQueue (refresh s) = sg_writeQueue s"
  "sg_settings (refresh s) = mergedSettingsView (sg_global s) (sg_project s)"
  by (simp_all add: refresh_def)

lemma save_frame [simp]:
  "sg_storage (save s) = sg_storage s" "sg_global (save s) = sg_global s" "sg_project (save s) = sg_project s"
  "sg_trusted (save s) = sg_trusted s" "sg_settings (save s) = mergedSettingsView (sg_global s) (sg_project s)"
  by (simp_all add: save_def Let_def)

lemma assign_global_frame:
  "assign_global a s = Inr s' \<Longrightarrow>
     sg_storage s' = sg_storage s \<and> sg_project s' = sg_project s \<and> sg_settings s' = sg_settings s \<and>
     sg_trusted s' = sg_trusted s \<and> sg_writeQueue s' = sg_writeQueue s"
  by (cases a) (auto simp: Let_def split: if_splits option.splits json.splits)

lemma assign_all_frame:
  "assign_all as s = Inr s' \<Longrightarrow>
     sg_storage s' = sg_storage s \<and> sg_project s' = sg_project s \<and> sg_settings s' = sg_settings s \<and>
     sg_trusted s' = sg_trusted s \<and> sg_writeQueue s' = sg_writeQueue s"
  by (induction as arbitrary: s) (auto split: sum.splits dest: assign_global_frame)

end
