(* ===== verification/Settings_Properties.thy ===== *)
theory Settings_Properties
  imports Settings_Lemmas
begin

text \<open>
  The properties of the settings manager: what a write changes in a file, what the effective view may
  take from the project, and what happens to files that cannot be read.
\<close>

section \<open>Writing\<close>

lemma run_write_ok:
  assumes q: "sg_writeQueue s = t # ts" and c: "parsed_settings (stored (wt_scope t) (sg_storage s)) = Inr cur"
    and trusted: "wt_scope t = GlobalScope \<or> sg_trusted s"
  shows "stored (wt_scope t) (sg_storage (run_write None s)) = Some (JsonText (JObj (persisted t cur)))"
    "sc \<noteq> wt_scope t \<Longrightarrow> stored sc (sg_storage (run_write None s)) = stored sc (sg_storage s)"
    "sg_trusted (run_write None s) = sg_trusted s"
  using assms
  by (cases "wt_scope t"; cases sc;
      auto simp: run_write_def Let_def persistScopedSettings_def withLock_def stored_def)+

text \<open>
  C38. A write changes in the file only what it is about: every field that was not set keeps the
  value the file has at that moment, whoever wrote it; a field that was set gets the value of the
  manager; and of an object of which only some keys were set, the other keys keep the file's values.
  The other file is not touched.
\<close>
theorem write_changes_only_set_fields:
  assumes "sg_writeQueue s = t # ts" "parsed_settings (stored (wt_scope t) (sg_storage s)) = Inr cur"
    and "wt_scope t = GlobalScope \<or> sg_trusted s"
  shows "\<exists>new. stored (wt_scope t) (sg_storage (run_write None s)) = Some (JsonText (JObj new)) \<and>
    (\<forall>f. f \<notin> set (wt_fields t) \<longrightarrow> jm_get new f = jm_get cur f) \<and>
    (\<forall>f \<in> set (wt_fields t). map_of (wt_nested t) f = None \<longrightarrow> jm_get new f = jm_get (wt_snapshot t) f) \<and>
    (\<forall>f \<in> set (wt_fields t). \<forall>ks obj. map_of (wt_nested t) f = Some ks \<longrightarrow> jm_get (wt_snapshot t) f = Some (JObj obj) \<longrightarrow>
       (\<exists>nobj. jm_get new f = Some (JObj nobj) \<and>
          (\<forall>k. jm_get nobj k = (if k \<in> set ks then jm_get obj k else jm_get (spread (jm_get cur f)) k)))) \<and>
    (\<forall>sc. sc \<noteq> wt_scope t \<longrightarrow> stored sc (sg_storage (run_write None s)) = stored sc (sg_storage s))"
  by (intro exI conjI, rule run_write_ok(1) [OF assms])
    (auto simp: persisted_get persisted_value_def fold_put run_write_ok(2) [OF assms])

theorem write_changes_only_set_fields_witness:
  "\<exists>s t new. sg_writeQueue s = [t] \<and> wt_fields t = [''compaction''] \<and>
     stored GlobalScope (sg_storage (run_write None s)) = Some (JsonText (JObj new)) \<and>
     jm_get new ''theme'' = Some (JStr ''dark'')"
proof -
  let ?file = "JsonText (JObj [(''theme'', JStr ''dark''), (''compaction'', JObj [(''reserveTokens'', JInt 7)])])"
  let ?st = "\<lparr>st_global = Some ?file, st_project = None\<rparr>"
  let ?s = "settings_event_step (fromStorage ?st True None None) (Assign [Nested ''compaction'' ''enabled'' (JBool False)])"
  let ?t = "hd (sg_writeQueue ?s)"
  have q: "sg_writeQueue ?s = [?t]" by code_simp
  have f: "wt_fields ?t = [''compaction'']" "wt_scope ?t = GlobalScope" by code_simp+
  have p: "parsed_settings (stored (wt_scope ?t) (sg_storage ?s)) =
      Inr [(''theme'', JStr ''dark''), (''compaction'', JObj [(''reserveTokens'', JInt 7)])]" by code_simp
  obtain new where "stored (wt_scope ?t) (sg_storage (run_write None ?s)) = Some (JsonText (JObj new))"
    "\<forall>f. f \<notin> set (wt_fields ?t) \<longrightarrow> jm_get new f = jm_get [(''theme'', JStr ''dark''), (''compaction'', JObj [(''reserveTokens'', JInt 7)])] f"
    using write_changes_only_set_fields [OF q p] f(2) by blast
  then have "stored GlobalScope (sg_storage (run_write None ?s)) = Some (JsonText (JObj new))"
    "jm_get new ''theme'' = Some (JStr ''dark'')" unfolding f by simp_all
  with q f show ?thesis by blast
qed





text \<open>
  A migrated object stays as it is: loading and writing back a file migrates it once.
\<close>
theorem migration_is_idempotent:
  "migrateSettings (migrateSettings s) = migrateSettings s \<and>
   (jm_get (migrateSettings s) ''queueMode'' = None \<or> jm_get (migrateSettings s) ''steeringMode'' \<noteq> None) \<and>
   (\<nexists>sk. jm_get (migrateSettings s) ''skills'' = Some (JObj sk))"
  using migrateSettings_idem migrateSettings_done [of s] by (auto simp: queueMode_done_def skills_done_def)

section \<open>The effective view\<close>

definition no_override :: "settings_event \<Rightarrow> bool" where
  "no_override e \<longleftrightarrow> (\<forall>ov. e \<noteq> Override ov)"

definition view_ok :: "settings_manager \<Rightarrow> bool" where
  "view_ok s \<longleftrightarrow> sg_settings s = mergedSettingsView (sg_global s) (sg_project s)"

lemma view_fromStorage: "view_ok (fromStorage st t a b)"
  by (simp add: view_ok_def fromStorage_def split: prod.split)

lemma view_step: "view_ok s \<Longrightarrow> no_override e \<Longrightarrow> view_ok (settings_event_step s e)"
  unfolding view_ok_def no_override_def
  by (cases e)
    (auto simp: set_global_def updateProjectSettings_def saveProjectSettings_def setProjectTrusted_def reload_def
      run_write_def drainErrors_def Let_def refresh_def
      split: sum.splits prod.splits option.splits list.splits)

lemma view_run: "view_ok s \<Longrightarrow> list_all no_override es \<Longrightarrow> view_ok (settings_run s es)"
  by (induction es rule: rev_induct) (auto simp: settings_run_def view_step)

lemma merged_harness:
  "jm_get (mergedSettingsView g p) ''harness'' =
     (if jm_get (deepMergeSettings g p) ''harness'' = None then None else Some (JObj (spread (jm_get g ''harness''))))"
  by (auto simp: mergedSettingsView_def Let_def map_laws)

text \<open>
  A project never decides how approvals are asked for: whatever the project file says, and
  whatever was set, loaded, written or edited in between, the effective approval mode is the one of
  the global settings.
\<close>
theorem project_cannot_shadow_approval:
  assumes "list_all no_override events"
  shows "let s = settings_run (fromStorage st trusted gf pf) events in
    settings_getApprovalMode s =
      (if jm_get (spread (jm_get (sg_global s) ''harness'')) ''approvalMode'' = Some (JStr ''always_skip'')
       then ''always_skip'' else ''ask'')"
proof -
  have "jm_get (deepMergeSettings g p) ''harness'' = None \<Longrightarrow> jm_get g ''harness'' = None" for g p
    using deepMerge_keeps [of g "''harness''" p] unfolding deepMergeSettings_def by blast
  then show ?thesis using view_run [OF view_fromStorage assms, of st trusted gf pf]
    by (simp add: Let_def view_ok_def settings_getApprovalMode_def prop_of_def eff_field_def merged_harness)
qed

theorem project_cannot_shadow_approval_witness:
  "let s = settings_run (fromStorage \<lparr>st_global = None,
        st_project = Some (JsonText (JObj [(''harness'', JObj [(''approvalMode'', JStr ''always_skip'')])]))\<rparr> True None None)
        [Assign [Field ''theme'' (Some (JStr ''dark''))], RunWrite None, Reload None None]
   in settings_getApprovalMode s = ''ask'' \<and> jm_get (sg_project s) ''harness'' \<noteq> None"
proof -
  let ?st = "\<lparr>st_global = None,
        st_project = Some (JsonText (JObj [(''harness'', JObj [(''approvalMode'', JStr ''always_skip'')])]))\<rparr>"
  let ?es = "[Assign [Field ''theme'' (Some (JStr ''dark''))], RunWrite None, Reload None None]"
  have "list_all no_override ?es" by (simp add: no_override_def)
  from project_cannot_shadow_approval [OF this, of ?st True None None]
  have "settings_getApprovalMode (settings_run (fromStorage ?st True None None) ?es) = ''ask''"
    unfolding Let_def by (rule trans) code_simp
  moreover have "jm_get (sg_project (settings_run (fromStorage ?st True None None) ?es)) ''harness'' \<noteq> None" by code_simp
  ultimately show ?thesis by (simp add: Let_def)
qed

section \<open>Untrusted projects\<close>

text \<open>The manager that differs only in the content of the project file.\<close>

definition with_project :: "file_text option \<Rightarrow> settings_manager \<Rightarrow> settings_manager" where
  "with_project x s = s\<lparr>sg_storage := (sg_storage s)\<lparr>st_project := x\<rparr>\<rparr>"

definition keeps_untrusted :: "settings_event \<Rightarrow> bool" where
  "keeps_untrusted e \<longleftrightarrow> (\<forall>fault. e \<noteq> SetTrusted True fault) \<and> (\<forall>c. e \<noteq> ExternalEdit ProjectScope c)"

lemma with_project_sel [simp]:
  "sg_global (with_project x s) = sg_global s" "sg_project (with_project x s) = sg_project s"
  "sg_trusted (with_project x s) = sg_trusted s" "sg_writeQueue (with_project x s) = sg_writeQueue s"
  "sg_errors (with_project x s) = sg_errors s" "sg_settings (with_project x s) = sg_settings s"
  "sg_storage (with_project x s) = (sg_storage s)\<lparr>st_project := x\<rparr>"
  by (simp_all add: with_project_def)

lemma assign_global_with_project:
  "assign_global a (with_project x s) = map_sum id (with_project x) (assign_global a s)"
  by (cases a)
    (simp_all add: with_project_def markModified_def Let_def split: option.split json.split)

lemma assign_all_with_project: "assign_all as (with_project x s) = map_sum id (with_project x) (assign_all as s)"
  by (induction as arbitrary: s) (auto simp: assign_global_with_project split: sum.split)

lemma save_with_project: "save (with_project x s) = with_project x (save s)"
  by (simp add: with_project_def save_def refresh_def Let_def)

lemma set_global_with_project: "set_global as (with_project x s) = map_sum id (with_project x) (set_global as s)"
  by (simp add: set_global_def assign_all_with_project save_with_project split: sum.split)

lemma run_write_with_project:
  assumes "\<not> sg_trusted s"
  shows "run_write fault (with_project x s) = with_project x (run_write fault s)"
proof (cases "sg_writeQueue s")
  case Nil
  then show ?thesis by (simp add: run_write_def)
next
  case (Cons t ts)
  show ?thesis
  proof (cases "wt_scope t")
    case GlobalScope
    then have "persistScopedSettings t fault ((sg_storage s)\<lparr>st_project := x\<rparr>) =
        map_sum id (\<lambda>st. st\<lparr>st_project := x\<rparr>) (persistScopedSettings t fault (sg_storage s))"
      by (auto simp: persistScopedSettings_def withLock_def stored_def split: sum.split option.split)
    then show ?thesis using Cons GlobalScope
      by (cases "persistScopedSettings t fault (sg_storage s)")
        (auto simp: run_write_def Let_def recordError_def clearModifiedScope_def with_project_def)
  next
    case ProjectScope
    then show ?thesis using Cons assms by (simp add: run_write_def Let_def recordError_def with_project_def)
  qed
qed

lemma untrusted_load [simp]: "tryLoadFromStorage st ProjectScope False fault = ([], None)"
  by (simp add: tryLoadFromStorage_def loadFromStorage_def)

lemma global_load_with_project [simp]:
  "tryLoadFromStorage (st\<lparr>st_project := x\<rparr>) GlobalScope t fault = tryLoadFromStorage st GlobalScope t fault"
  by (simp add: tryLoadFromStorage_def loadFromStorage_def withLock_def stored_def split: option.split)

lemma step_with_project:
  assumes "\<not> sg_trusted s" "keeps_untrusted e"
  shows "settings_event_step (with_project x s) e = with_project x (settings_event_step s e)"
proof (cases e)
  case (Assign as)
  then show ?thesis by (simp add: set_global_with_project split: sum.split)
next
  case (Reload gf pf)
  obtain g ge where g: "tryLoadFromStorage (sg_storage s) GlobalScope True gf = (g, ge)" by (cases "tryLoadFromStorage (sg_storage s) GlobalScope True gf")
  show ?thesis using Reload assms(1)
    by (cases ge) (simp_all add: reload_def g Let_def recordError_def clearModifiedScope_def refresh_def with_project_def)
next
  case (SetTrusted b fault)
  then show ?thesis using assms by (cases b) (auto simp: keeps_untrusted_def setProjectTrusted_def)
next
  case (ExternalEdit sc c)
  then show ?thesis using assms by (cases sc) (auto simp: keeps_untrusted_def with_project_def)
next
  case (RunWrite fault)
  then show ?thesis using assms(1) by (simp add: run_write_with_project)
qed (use assms in \<open>simp_all add: updateProjectSettings_def applyOverrides_def drainErrors_def with_project_def\<close>)

lemma step_untrusted: "\<not> sg_trusted s \<Longrightarrow> keeps_untrusted e \<Longrightarrow> \<not> sg_trusted (settings_event_step s e)"
proof (cases e)
  case (Assign as)
  assume "\<not> sg_trusted s"
  then show ?thesis using Assign by (auto simp: set_global_def split: sum.split dest: assign_all_frame)
next
  case (SetTrusted b fault)
  assume "\<not> sg_trusted s" "keeps_untrusted e"
  then show ?thesis using SetTrusted by (cases b) (auto simp: keeps_untrusted_def setProjectTrusted_def)
qed (auto simp: updateProjectSettings_def applyOverrides_def drainErrors_def reload_def run_write_def Let_def
    split: list.split sum.split prod.split option.split)

lemma run_with_project:
  "\<not> sg_trusted s \<Longrightarrow> list_all keeps_untrusted es \<Longrightarrow>
     settings_run (with_project x s) es = with_project x (settings_run s es) \<and> \<not> sg_trusted (settings_run s es)"
  by (induction es rule: rev_induct) (auto simp: settings_run_def step_with_project step_untrusted)

text \<open>
  C40. The settings file of a project that is not trusted has no influence and is not written:
  whatever it contains, effective settings, errors and the global file are the same, and until the
  project is trusted the manager leaves the file as it is.
\<close>
theorem untrusted_project_is_ignored:
  assumes "list_all keeps_untrusted events"
  shows "let s = settings_run (fromStorage (st\<lparr>st_project := x\<rparr>) False gf pf) events;
             s' = settings_run (fromStorage (st\<lparr>st_project := y\<rparr>) False gf pf) events
    in sg_settings s = sg_settings s' \<and> sg_errors s = sg_errors s' \<and>
       st_global (sg_storage s) = st_global (sg_storage s') \<and> st_project (sg_storage s) = x"
proof -
  let ?s = "fromStorage st False gf pf"
  have f: "fromStorage (st\<lparr>st_project := z\<rparr>) False gf pf = with_project z ?s" for z
    by (simp add: fromStorage_def with_project_def split: prod.split)
  have "\<not> sg_trusted ?s" by (simp add: fromStorage_def split: prod.split)
  from run_with_project [OF this assms] show ?thesis by (simp add: f Let_def)
qed

theorem untrusted_project_is_ignored_witness:
  "let s = settings_run (fromStorage \<lparr>st_global = None, st_project = Some (JsonText (JObj [(''theme'', JStr ''dark'')]))\<rparr> False None None)
             [Assign [Field ''quietStartup'' (Some (JBool True))], RunWrite None, Reload None None]
   in jm_get (sg_settings s) ''theme'' = None \<and> st_project (sg_storage s) = Some (JsonText (JObj [(''theme'', JStr ''dark'')]))"
proof -
  let ?es = "[Assign [Field ''quietStartup'' (Some (JBool True))], RunWrite None, Reload None None]"
  let ?p = "Some (JsonText (JObj [(''theme'', JStr ''dark'')]))"
  let ?st = "\<lparr>st_global = None, st_project = None\<rparr>"
  have "list_all keeps_untrusted ?es" by (simp add: keeps_untrusted_def)
  from untrusted_project_is_ignored [OF this, where st = ?st and x = ?p and y = None and gf = None and pf = None]
  have eq: "sg_settings (settings_run (fromStorage \<lparr>st_global = None, st_project = ?p\<rparr> False None None) ?es) =
      sg_settings (settings_run (fromStorage ?st False None None) ?es)"
    "st_project (sg_storage (settings_run (fromStorage \<lparr>st_global = None, st_project = ?p\<rparr> False None None) ?es)) = ?p"
    by (simp_all add: Let_def)
  have "jm_get (sg_settings (settings_run (fromStorage ?st False None None) ?es)) ''theme'' = None" by code_simp
  with eq show ?thesis by (simp add: Let_def)
qed

section \<open>Files that cannot be read\<close>

definition not_edited :: "scope \<Rightarrow> settings_event \<Rightarrow> bool" where
  "not_edited sc e \<longleftrightarrow> (\<forall>c. e \<noteq> ExternalEdit sc c)"

lemma step_keeps_unparsable:
  assumes "parsed_settings (stored sc (sg_storage s)) = Inl ParseFailed" "not_edited sc e"
  shows "stored sc (sg_storage (settings_event_step s e)) = stored sc (sg_storage s)"
proof (cases e)
  case (Assign as)
  then show ?thesis by (auto simp: set_global_def split: sum.split dest: assign_all_frame)
next
  case (RunWrite fault)
  show ?thesis
  proof (cases "sg_writeQueue s")
    case (Cons t ts)
    have "stored sc st = stored sc (sg_storage s)" if "persistScopedSettings t fault (sg_storage s) = Inr st" for st
      using that assms(1)
      by (cases "wt_scope t = sc"; cases sc; cases "wt_scope t")
        (auto simp: persistScopedSettings_def withLock_def stored_def split: sum.splits option.splits)
    then show ?thesis using RunWrite Cons by (auto simp: run_write_def Let_def split: sum.split)
  qed (use RunWrite in \<open>simp add: run_write_def\<close>)
next
  case (ExternalEdit sc' c)
  then show ?thesis using assms(2) by (cases sc; cases sc') (auto simp: not_edited_def stored_def)
qed (auto simp: updateProjectSettings_def saveProjectSettings_def markProjectModified_def setProjectTrusted_def
    applyOverrides_def drainErrors_def reload_def Let_def refresh_def recordError_def clearModifiedScope_def
    split: sum.split prod.split option.split)

text \<open>
  A settings file that does not parse is never overwritten: no setter, reload or pending write
  changes it, until somebody else edits it.
\<close>
theorem unparsable_file_is_kept:
  assumes "parsed_settings (stored sc (sg_storage s)) = Inl ParseFailed" "list_all (not_edited sc) events"
  shows "stored sc (sg_storage (settings_run s events)) = stored sc (sg_storage s)"
  using assms(2)
proof (induction events rule: rev_induct)
  case Nil
  then show ?case by (simp add: settings_run_def)
next
  case (snoc e es)
  then show ?case using assms(1) step_keeps_unparsable [of sc "settings_run s es" e] by (simp add: settings_run_def)
qed

theorem unparsable_file_is_kept_witness:
  "st_global (sg_storage (settings_run (fromStorage \<lparr>st_global = Some Unparsable, st_project = None\<rparr> True None None)
     [Assign [Field ''theme'' (Some (JStr ''dark''))], RunWrite None, Reload None None])) = Some Unparsable"
proof -
  let ?s = "fromStorage \<lparr>st_global = Some Unparsable, st_project = None\<rparr> True None None"
  let ?es = "[Assign [Field ''theme'' (Some (JStr ''dark''))], RunWrite None, Reload None None]"
  have s: "stored GlobalScope (sg_storage ?s) = Some Unparsable" by code_simp
  have "list_all (not_edited GlobalScope) ?es" by (simp add: not_edited_def)
  from unparsable_file_is_kept [OF _ this, of ?s] s show ?thesis by (simp add: stored_def)
qed

text \<open>
  The marks of a scope are cleared by every successful write, also those of fields that were set after
  the write was queued. When the write that carries such a field then fails, no later write repeats it:
  the setting lives in memory, no write is pending for it, and the file never gets it.
\<close>

theorem failed_write_may_lose_setting:
  "let s = settings_run (fromStorage \<lparr>st_global = None, st_project = None\<rparr> True None None)
        [Assign [Field ''theme'' (Some (JStr ''dark''))], Assign [Field ''quietStartup'' (Some (JBool True))],
         RunWrite None, RunWrite (Some ''ELOCKED''), Assign [Field ''editorPaddingX'' (Some (JInt 1))], RunWrite None]
   in jm_get (sg_global s) ''quietStartup'' = Some (JBool True) \<and> sg_writeQueue s = [] \<and> sg_modified s = [] \<and>
      st_global (sg_storage s) = Some (JsonText (JObj [(''theme'', JStr ''dark''), (''editorPaddingX'', JInt 1)]))"
  by code_simp

section \<open>Ranges\<close>

text \<open>
  The enumerated and the clamped settings stay in range: the getters with a fixed set of values return
  one of them whatever the files contain, and the clamped setters store values in their range.
\<close>

theorem settings_stay_in_range:
  "getTreeFilterMode s \<in> JStr ` {''default'', ''no-tools'', ''user-only'', ''labeled-only'', ''all''} \<and>
   getDefaultProjectTrust s \<in> JStr ` {''ask'', ''always'', ''never''} \<and>
   getTuiMode s \<in> JStr ` {''regular'', ''fullscreen''} \<and> 1 \<le> getImageWidthCells s \<and> getOutputPad s \<in> {0, 1} \<and>
   (case setEditorPaddingX n s of Inl e \<Rightarrow> False
    | Inr s' \<Rightarrow> \<exists>i. jm_get (sg_global s') ''editorPaddingX'' = Some (JInt i) \<and> 0 \<le> i \<and> i \<le> 3) \<and>
   (case setAutocompleteMaxVisible n s of Inl e \<Rightarrow> False
    | Inr s' \<Rightarrow> \<exists>i. jm_get (sg_global s') ''autocompleteMaxVisible'' = Some (JInt i) \<and> 3 \<le> i \<and> i \<le> 20)"
proof (intro conjI)
  show "getTreeFilterMode s \<in> JStr ` {''default'', ''no-tools'', ''user-only'', ''labeled-only'', ''all''}"
    unfolding getTreeFilterMode_def Let_def by (simp only: image_insert image_empty split: if_split) auto
  show "getDefaultProjectTrust s \<in> JStr ` {''ask'', ''always'', ''never''}"
    unfolding getDefaultProjectTrust_def Let_def by (simp only: image_insert image_empty split: if_split) auto
  show "getTuiMode s \<in> JStr ` {''regular'', ''fullscreen''}"
    unfolding getTuiMode_def Let_def by (simp only: image_insert image_empty split: if_split) auto
  show "1 \<le> getImageWidthCells s" by (simp add: getImageWidthCells_def split: option.split json.split)
  show "getOutputPad s \<in> {0, 1}" by (simp add: getOutputPad_def)
qed (simp_all add: setEditorPaddingX_def setAutocompleteMaxVisible_def set_global_def jm_get_set)

end
