(* ===== verification/Agent_Session.thy ===== *)
theory Agent_Session
  imports Session_Manager Branch_Summary Settings_Fields
begin

text \<open>
  The session of an agent (\<open>class AgentSession\<close> in \<open>core/agent-session.ts\<close>): what it does with the
  events of a run, the queues of messages a user sends meanwhile, shell results, retries, compaction
  and the loop that drives a prompt. The agent itself, the classification of replies and the
  extensions belong to other packages: the agent's run is a list of steps given from outside, the
  rest is the record \<open>services\<close>. Times that are only displayed and the abort controllers are left out.
\<close>

section \<open>State\<close>

record agent_model = llm_model +
  mo_provider :: string
  mo_id :: string

text \<open>
  \<open>sv_rejects messages queued\<close>: \<open>agent.continue()\<close> refuses to continue from these messages.
\<close>

record services =
  sv_overflow :: "assistant_message \<Rightarrow> nat \<Rightarrow> bool"
  sv_recoverableLength :: "assistant_message \<Rightarrow> int \<Rightarrow> bool"
  sv_retryable :: "assistant_message \<Rightarrow> bool"
  sv_text :: text_of
  sv_levels :: "agent_model \<Rightarrow> string list"
  sv_clamp :: "agent_model \<Rightarrow> string \<Rightarrow> string"
  sv_modelsEqual :: "agent_model option \<Rightarrow> agent_model option \<Rightarrow> bool"
  sv_rejects :: "agent_message list \<Rightarrow> bool \<Rightarrow> bool"

datatype session_fault =
    StoreFault sm_error
  | SettingFault assign_fault
  | AuthFault
  | NoModelSelected
  | SummaryFault compaction_error
  | EstimateFault
  | AlreadyCompacted
  | NothingToCompact
  | RecoveryFailed
  | CompactionCancelled
  | CompactionRunning
  | NeedsStreamingBehavior
  | CommandNotQueued string
  | AgentRejected
  | StillStreaming
  | NoSummaryModel
  | SummaryText string
  | NoResult

text \<open>
  The finished message of \<open>MessageEnd\<close> comes with the replacement an extension returned for it.
\<close>

datatype agent_event =
    AgentStart
  | AgentEnd "agent_message list"
  | TurnStart
  | TurnEnd agent_message "agent_message list"
  | MessageStart agent_message
  | MessageUpdate agent_message
  | MessageEnd agent_message "agent_message option"
  | ToolExecution string

datatype compaction_reason = ManualRequest | ContextOverflow | OverThreshold

record applied_compaction =
  ac_summary :: string
  ac_firstKeptEntryId :: string
  ac_tokensBefore :: nat
  ac_usage :: "usage option"
  ac_details :: "json option"

datatype session_event =
    QueueUpdate "string list" "string list"
  | FromAgent agent_event
  | AgentEnded "agent_message list" bool
  | AutoRetryStart nat int int string
  | AutoRetryEnd bool nat "string option"
  | CompactionStart compaction_reason
  | CompactionEnd compaction_reason "(applied_compaction \<times> nat) option" bool bool "session_fault option"
  | ThinkingLevelChanged string
  | SessionInfoChanged "string option"
  | AgentSettled

record agent_session =
  as_messages :: "agent_message list"
  as_model :: "agent_model option"
  as_thinkingLevel :: string
  as_systemPrompt :: string
  as_agentSteering :: "agent_message list"
  as_agentFollowUp :: "agent_message list"
  as_manager :: session_manager
  as_world :: world
  as_settings :: settings_manager
  as_steering :: "string list"
  as_followUp :: "string list"
  as_nextTurn :: "agent_message list"
  as_runActive :: bool
  as_compacting :: bool
  as_overflowTried :: bool
  as_retryAttempt :: nat
  as_lastAssistant :: "assistant_message option"
  as_pendingBash :: "bash_execution list"
  as_basePrompt :: string
  as_promptOverride :: "string option"
  as_events :: "session_event list"

text \<open>An operation that may throw keeps what it assigned before.\<close>

type_synonym 'a act = "agent_session \<Rightarrow> (session_fault + 'a) \<times> agent_session"

definition ret :: "'a \<Rightarrow> 'a act" where
  "ret x s = (Inr x, s)"

definition throw :: "session_fault \<Rightarrow> 'a act" where
  "throw e s = (Inl e, s)"

definition andThen :: "'a act \<Rightarrow> ('a \<Rightarrow> 'b act) \<Rightarrow> 'b act" where
  "andThen f g s = (case f s of (Inl e, s') \<Rightarrow> (Inl e, s') | (Inr x, s') \<Rightarrow> g x s')"

definition change :: "(agent_session \<Rightarrow> agent_session) \<Rightarrow> unit act" where
  "change f s = (Inr (), f s)"

definition emit :: "session_event \<Rightarrow> agent_session \<Rightarrow> agent_session" where
  "emit ev s = s\<lparr>as_events := as_events s @ [ev]\<rparr>"

definition on_store :: "(session_manager \<Rightarrow> world \<Rightarrow> 'a sm_result) \<Rightarrow> 'a act" where
  "on_store f s =
     (case f (as_manager s) (as_world s) of
        (Inl e, m, w) \<Rightarrow> (Inl (StoreFault e), s\<lparr>as_manager := m, as_world := w\<rparr>)
      | (Inr x, m, w) \<Rightarrow> (Inr x, s\<lparr>as_manager := m, as_world := w\<rparr>))"

definition date_now :: "int act" where
  "date_now s = (let (t, w) = now (as_world s) in (Inr t, s\<lparr>as_world := w\<rparr>))"

definition push_message :: "agent_message \<Rightarrow> agent_session \<Rightarrow> agent_session" where
  "push_message m s = s\<lparr>as_messages := as_messages s @ [m]\<rparr>"

section \<open>Settings the session reads\<close>

text \<open>Settings that hold no number, or a negative count of tokens, are outside the model.\<close>

fun json_number :: "json \<Rightarrow> int" where
  "json_number (JInt i) = i"
| "json_number _ = 0"

definition compaction_settings_of :: "agent_session \<Rightarrow> compaction_settings" where
  "compaction_settings_of s =
     (let (enabled, reserveTokens, keepRecentTokens) = getCompactionSettings (as_settings s) in
      \<lparr>cs_enabled = (\<not> json_falsy (Some enabled)), cs_reserveTokens = nat (json_number reserveTokens),
       cs_keepRecentTokens = nat (json_number keepRecentTokens)\<rparr>)"

definition retry_settings_of :: "agent_session \<Rightarrow> bool \<times> int \<times> int" where
  "retry_settings_of s =
     (let (enabled, maxRetries, baseDelayMs) = getRetrySettings (as_settings s) in
      (\<not> json_falsy (Some enabled), json_number maxRetries, json_number baseDelayMs))"

section \<open>Queues\<close>

definition hasQueuedMessages :: "agent_session \<Rightarrow> bool" where
  "hasQueuedMessages s \<longleftrightarrow> as_agentSteering s \<noteq> [] \<or> as_agentFollowUp s \<noteq> []"

definition emitQueueUpdate :: "agent_session \<Rightarrow> agent_session" where
  "emitQueueUpdate s = emit (QueueUpdate (as_steering s) (as_followUp s)) s"

definition queueSteer :: "string \<Rightarrow> block list \<Rightarrow> unit act" where
  "queueSteer text images =
     andThen (change (\<lambda>s. emitQueueUpdate (s\<lparr>as_steering := as_steering s @ [text]\<rparr>))) (\<lambda>_.
     andThen date_now (\<lambda>t.
     change (\<lambda>s. s\<lparr>as_agentSteering := as_agentSteering s @ [User (Some (Blocks (TextBlock text # images))) t]\<rparr>)))"

definition queueFollowUp :: "string \<Rightarrow> block list \<Rightarrow> unit act" where
  "queueFollowUp text images =
     andThen (change (\<lambda>s. emitQueueUpdate (s\<lparr>as_followUp := as_followUp s @ [text]\<rparr>))) (\<lambda>_.
     andThen date_now (\<lambda>t.
     change (\<lambda>s. s\<lparr>as_agentFollowUp := as_agentFollowUp s @ [User (Some (Blocks (TextBlock text # images))) t]\<rparr>)))"

definition clearQueue :: "(string list \<times> string list) act" where
  "clearQueue s =
     (Inr (as_steering s, as_followUp s),
      emitQueueUpdate (s\<lparr>as_steering := [], as_followUp := [], as_agentSteering := [], as_agentFollowUp := []\<rparr>))"

definition pendingMessageCount :: "agent_session \<Rightarrow> nat" where
  "pendingMessageCount s = length (as_steering s) + length (as_followUp s)"

text \<open>\<open>getCommand\<close> says whether an extension has registered the name.\<close>

definition command_name :: "string \<Rightarrow> string" where
  "command_name text = takeWhile (\<lambda>c. c \<noteq> CHR '' '') (tl text)"

definition throwIfExtensionCommand :: "(string \<Rightarrow> bool) \<Rightarrow> string \<Rightarrow> unit act" where
  "throwIfExtensionCommand getCommand text =
     (if getCommand (command_name text) then throw (CommandNotQueued (command_name text)) else ret ())"

definition is_command :: "string \<Rightarrow> bool" where
  "is_command text \<longleftrightarrow> text \<noteq> [] \<and> hd text = CHR ''/''"

definition steer :: "(string \<Rightarrow> bool) \<Rightarrow> (string \<Rightarrow> string) \<Rightarrow> string \<Rightarrow> block list \<Rightarrow> unit act" where
  "steer getCommand expand text images =
     andThen (if is_command text then throwIfExtensionCommand getCommand text else ret ())
       (\<lambda>_. queueSteer (expand text) images)"

definition followUp :: "(string \<Rightarrow> bool) \<Rightarrow> (string \<Rightarrow> string) \<Rightarrow> string \<Rightarrow> block list \<Rightarrow> unit act" where
  "followUp getCommand expand text images =
     andThen (if is_command text then throwIfExtensionCommand getCommand text else ret ())
       (\<lambda>_. queueFollowUp (expand text) images)"

section \<open>Shell results and custom messages\<close>

record bash_result =
  br_output :: string
  br_exitCode :: "int option"
  br_cancelled :: bool
  br_truncated :: bool
  br_fullOutputPath :: "string option"

definition log_message :: "agent_message \<Rightarrow> unit act" where
  "log_message m = andThen (on_store (appendMessage m)) (\<lambda>_. ret ())"

definition bash_message :: "string \<Rightarrow> bash_result \<Rightarrow> bool \<Rightarrow> int \<Rightarrow> bash_execution" where
  "bash_message command result excludeFromContext t =
     \<lparr>bx_command = command, bx_output = br_output result, bx_exitCode = br_exitCode result,
      bx_cancelled = br_cancelled result, bx_truncated = br_truncated result,
      bx_fullOutputPath = br_fullOutputPath result, bx_timestamp = t, bx_excludeFromContext = excludeFromContext\<rparr>"

text \<open>A shell result: into the agent's messages, then into the log.\<close>

definition add_bash :: "bash_execution \<Rightarrow> unit act" where
  "add_bash b = andThen (change (push_message (BashExecution b))) (\<lambda>_. log_message (BashExecution b))"

definition recordBashResult :: "string \<Rightarrow> bash_result \<Rightarrow> bool \<Rightarrow> unit act" where
  "recordBashResult command result excludeFromContext =
     andThen date_now (\<lambda>t s.
       let b = bash_message command result excludeFromContext t in
       if as_runActive s then change (\<lambda>s. s\<lparr>as_pendingBash := as_pendingBash s @ [b]\<rparr>) s
       else add_bash b s)"

fun add_all_bash :: "bash_execution list \<Rightarrow> unit act" where
  "add_all_bash [] = ret ()"
| "add_all_bash (b # bs) = andThen (add_bash b) (\<lambda>_. add_all_bash bs)"

definition flushPendingBashMessages :: "unit act" where
  "flushPendingBashMessages s =
     (if as_pendingBash s = [] then ret () s
      else andThen (add_all_bash (as_pendingBash s)) (\<lambda>_. change (\<lambda>s. s\<lparr>as_pendingBash := []\<rparr>)) s)"

text \<open>The content of an entry may be \<open>null\<close>: it is logged as it came.\<close>

definition log_custom :: "string \<Rightarrow> content option \<Rightarrow> bool \<Rightarrow> json option \<Rightarrow> unit act" where
  "log_custom customType content display details =
     andThen
       (on_store (case content of
          Some c \<Rightarrow> appendCustomMessageEntry customType c display details
        | None \<Rightarrow> append_body (ECustomMessage
            \<lparr>ke_customType = customType, ke_content = None, ke_details = details, ke_display = display\<rparr>)))
       (\<lambda>_. ret ())"

datatype delivery = NextTurn | AsFollowUp | AsSteer

text \<open>The result is a message that starts a run of its own.\<close>

definition sendCustomMessage ::
  "string \<Rightarrow> content option \<Rightarrow> bool \<Rightarrow> json option \<Rightarrow> bool \<Rightarrow> delivery option \<Rightarrow> agent_message option act" where
  "sendCustomMessage customType content display details triggerTurn deliverAs =
     andThen date_now (\<lambda>t s.
       let filled = (case content of None \<Rightarrow> Some (Blocks []) | c \<Rightarrow> c);
           m = createCustomMessage customType filled display details t in
       if deliverAs = Some NextTurn then (Inr None, s\<lparr>as_nextTurn := as_nextTurn s @ [m]\<rparr>)
       else if as_runActive s then
         (if deliverAs = Some AsFollowUp then (Inr None, s\<lparr>as_agentFollowUp := as_agentFollowUp s @ [m]\<rparr>)
          else (Inr None, s\<lparr>as_agentSteering := as_agentSteering s @ [m]\<rparr>))
       else if triggerTurn then (Inr (Some m), s)
       else
         andThen (change (push_message m)) (\<lambda>_.
         andThen (log_custom customType content display details) (\<lambda>_.
         andThen (change (\<lambda>s. emit (FromAgent (MessageEnd m None)) (emit (FromAgent (MessageStart m)) s))) (\<lambda>_.
         ret None))) s)"

text \<open>
  Switching the model and the thinking level of a session (\<open>core/agent-session.ts\<close>). Which levels a
  model has and how another level is clamped to them is the record \<open>services\<close>; the models that are
  available, and whether a request can be authenticated, are arguments.
\<close>

section \<open>Thinking level\<close>

definition THINKING_LEVELS :: "string list" where
  "THINKING_LEVELS = [''off'', ''minimal'', ''low'', ''medium'', ''high'']"

definition DEFAULT_THINKING_LEVEL :: string where
  "DEFAULT_THINKING_LEVEL = ''medium''"

definition getAvailableThinkingLevels :: "services \<Rightarrow> agent_session \<Rightarrow> string list" where
  "getAvailableThinkingLevels sv s = (case as_model s of None \<Rightarrow> THINKING_LEVELS | Some m \<Rightarrow> sv_levels sv m)"

definition supportsThinking :: "agent_session \<Rightarrow> bool" where
  "supportsThinking s = (case as_model s of None \<Rightarrow> False | Some m \<Rightarrow> lm_reasoning m)"

definition clampThinkingLevel_of :: "services \<Rightarrow> string \<Rightarrow> agent_session \<Rightarrow> string" where
  "clampThinkingLevel_of sv level s = (case as_model s of None \<Rightarrow> ''off'' | Some m \<Rightarrow> sv_clamp sv m level)"

definition effective_level :: "services \<Rightarrow> string \<Rightarrow> agent_session \<Rightarrow> string" where
  "effective_level sv level s =
     (if level \<in> set (getAvailableThinkingLevels sv s) then level else clampThinkingLevel_of sv level s)"

definition getThinkingLevelForModelSwitch :: "string option \<Rightarrow> agent_session \<Rightarrow> string" where
  "getThinkingLevelForModelSwitch explicitLevel s =
     (case explicitLevel of
        Some l \<Rightarrow> l
      | None \<Rightarrow>
          if \<not> supportsThinking s then
            (case json_string (getDefaultThinkingLevel (as_settings s)) of Some l \<Rightarrow> l | None \<Rightarrow> DEFAULT_THINKING_LEVEL)
          else as_thinkingLevel s)"

definition on_settings :: "setter \<Rightarrow> unit act" where
  "on_settings f s =
     (case f (as_settings s) of
        Inl e \<Rightarrow> (Inl (SettingFault e), s)
      | Inr g \<Rightarrow> (Inr (), s\<lparr>as_settings := g\<rparr>))"

definition setThinkingLevel :: "services \<Rightarrow> string \<Rightarrow> unit act" where
  "setThinkingLevel sv level s =
     (let eff = effective_level sv level s;
          previousLevel = as_thinkingLevel s in
      if eff = previousLevel then (Inr (), s)
      else
        andThen (on_store (appendThinkingLevelChange eff)) (\<lambda>_.
        andThen (if supportsThinking s \<or> eff \<noteq> ''off'' then on_settings (setDefaultThinkingLevel eff) else ret ()) (\<lambda>_.
        change (emit (ThinkingLevelChanged eff))))
          (s\<lparr>as_thinkingLevel := eff\<rparr>))"

definition index_of_level :: "string \<Rightarrow> string list \<Rightarrow> nat option" where
  "index_of_level x xs = find_index (\<lambda>y. y = x) xs"

text \<open>\<open>(levels.indexOf(current) + 1) % levels.length\<close>, where a missing level has the index \<open>-1\<close>.\<close>

definition next_level :: "string \<Rightarrow> string list \<Rightarrow> string" where
  "next_level current levels =
     levels ! (case index_of_level current levels of None \<Rightarrow> 0 | Some i \<Rightarrow> (i + 1) mod length levels)"

definition cycleThinkingLevel :: "services \<Rightarrow> string option act" where
  "cycleThinkingLevel sv s =
     (if \<not> supportsThinking s then (Inr None, s)
      else
        (let nextLevel = next_level (as_thinkingLevel s) (getAvailableThinkingLevels sv s) in
         andThen (setThinkingLevel sv nextLevel) (\<lambda>_. ret (Some nextLevel)) s))"

section \<open>Model\<close>

text \<open>Assign the model, log it and make it the default; then the level it should have.\<close>

definition switch_model :: "services \<Rightarrow> agent_model \<Rightarrow> string \<Rightarrow> unit act" where
  "switch_model sv model thinkingLevel =
     andThen (change (\<lambda>s. s\<lparr>as_model := Some model\<rparr>)) (\<lambda>_.
     andThen (on_store (appendModelChange (mo_provider model) (mo_id model))) (\<lambda>_.
     andThen (on_settings (setDefaultModelAndProvider (mo_provider model) (mo_id model))) (\<lambda>_.
     setThinkingLevel sv thinkingLevel)))"

definition setModel :: "services \<Rightarrow> bool \<Rightarrow> agent_model \<Rightarrow> unit act" where
  "setModel sv authenticated model s =
     (if \<not> authenticated then (Inl AuthFault, s)
      else switch_model sv model (getThinkingLevelForModelSwitch None s) s)"

datatype direction = Forward | Backward

definition cycle_index :: "direction \<Rightarrow> nat \<Rightarrow> nat \<Rightarrow> nat" where
  "cycle_index d currentIndex len =
     (if d = Forward then (currentIndex + 1) mod len else (currentIndex + len - 1) mod len)"

text \<open>\<open>findIndex\<close>, with \<open>-1\<close> read as the first model.\<close>

definition current_index :: "services \<Rightarrow> agent_model list \<Rightarrow> agent_model option \<Rightarrow> nat" where
  "current_index sv models current =
     (case find_index (\<lambda>m. sv_modelsEqual sv (Some m) current) models of None \<Rightarrow> 0 | Some i \<Rightarrow> i)"

definition model_key :: "agent_model \<Rightarrow> string" where
  "model_key m = mo_provider m @ [CHR 0x00] @ mo_id m"

type_synonym cycle_result = "(agent_model \<times> string \<times> bool) option"

definition cycleScopedModel ::
  "services \<Rightarrow> agent_model list \<Rightarrow> (agent_model \<times> string option) list \<Rightarrow> direction \<Rightarrow> cycle_result act" where
  "cycleScopedModel sv available scoped d s =
     (let availableIds = model_key ` set available;
          scopedModels = filter (\<lambda>sm. model_key (fst sm) \<in> availableIds) scoped in
      if length scopedModels \<le> 1 then (Inr None, s)
      else
        (let (model, level) =
               scopedModels ! cycle_index d (current_index sv (map fst scopedModels) (as_model s)) (length scopedModels)
         in andThen (switch_model sv model (getThinkingLevelForModelSwitch level s))
              (\<lambda>_ s1. (Inr (Some (model, as_thinkingLevel s1, True)), s1)) s))"

definition cycleAvailableModel :: "services \<Rightarrow> agent_model list \<Rightarrow> direction \<Rightarrow> cycle_result act" where
  "cycleAvailableModel sv available d s =
     (if length available \<le> 1 then (Inr None, s)
      else
        (let model = available ! cycle_index d (current_index sv available (as_model s)) (length available)
         in andThen (switch_model sv model (getThinkingLevelForModelSwitch None s))
              (\<lambda>_ s1. (Inr (Some (model, as_thinkingLevel s1, False)), s1)) s))"

definition cycleModel ::
  "services \<Rightarrow> agent_model list \<Rightarrow> (agent_model \<times> string option) list \<Rightarrow> direction \<Rightarrow> cycle_result act" where
  "cycleModel sv available scoped d =
     (if scoped \<noteq> [] then cycleScopedModel sv available scoped d else cycleAvailableModel sv available d)"

section \<open>Modes\<close>

definition session_setSteeringMode :: "string \<Rightarrow> unit act" where
  "session_setSteeringMode mode = on_settings (setSteeringMode mode)"

definition session_setFollowUpMode :: "string \<Rightarrow> unit act" where
  "session_setFollowUpMode mode = on_settings (setFollowUpMode mode)"

definition setAutoCompactionEnabled :: "bool \<Rightarrow> unit act" where
  "setAutoCompactionEnabled enabled = on_settings (setCompactionEnabled enabled)"

definition setAutoRetryEnabled :: "bool \<Rightarrow> unit act" where
  "setAutoRetryEnabled enabled = on_settings (setRetryEnabled enabled)"

end
