(* ===== verification/Agent_Run.thy ===== *)
theory Agent_Run
  imports Agent_Session
begin

text \<open>
  A run of the agent as its session sees it: the handler of the agent's events, the decision to
  retry a failed reply, compaction when the context is full, what happens after each run of the
  agent, and the loop around it.
\<close>

section \<open>Events\<close>

fun filled_content :: "content option \<Rightarrow> content" where
  "filled_content None = Blocks []"
| "filled_content (Some c) = c"

text \<open>A user message that came from a queue leaves it before anybody hears of it.\<close>

definition user_started :: "services \<Rightarrow> content option \<Rightarrow> agent_session \<Rightarrow> agent_session" where
  "user_started sv content s =
     (let s1 = s\<lparr>as_overflowTried := False\<rparr>;
          messageText = sv_text sv (Some []) (filled_content content) in
      if messageText = [] then s1
      else if messageText \<in> set (as_steering s1)
      then emitQueueUpdate (s1\<lparr>as_steering := remove1 messageText (as_steering s1)\<rparr>)
      else if messageText \<in> set (as_followUp s1)
      then emitQueueUpdate (s1\<lparr>as_followUp := remove1 messageText (as_followUp s1)\<rparr>)
      else s1)"

text \<open>
  The replacement an extension returns: content that is missing becomes the empty list. The message
  object is the one the agent has just stored, so the agent's copy changes with it.
\<close>

fun normalized_message :: "agent_message \<Rightarrow> agent_message" where
  "normalized_message (User None t) = User (Some (Blocks [])) t"
| "normalized_message (ToolResult i None t) = ToolResult i (Some (Blocks [])) t"
| "normalized_message (Assistant a) =
     Assistant (if am_content a = None then a\<lparr>am_content := Some []\<rparr> else a)"
| "normalized_message (Custom k) =
     Custom (if cm_content k = None then k\<lparr>cm_content := Some (Blocks [])\<rparr> else k)"
| "normalized_message m = m"

definition final_message :: "agent_message \<Rightarrow> agent_message option \<Rightarrow> agent_message" where
  "final_message m replacement = (case replacement of None \<Rightarrow> m | Some r \<Rightarrow> normalized_message r)"

definition replace_last :: "agent_message \<Rightarrow> agent_session \<Rightarrow> agent_session" where
  "replace_last m s = s\<lparr>as_messages := butlast (as_messages s) @ [m]\<rparr>"

text \<open>\<open>appendCustomMessageEntry\<close> or \<open>appendMessage\<close>; the other roles are logged elsewhere.\<close>

fun persist_message :: "agent_message \<Rightarrow> unit act" where
  "persist_message (Custom k) = log_custom (cm_customType k) (cm_content k) (cm_display k) (cm_details k)"
| "persist_message (User c t) = log_message (User c t)"
| "persist_message (Assistant a) = log_message (Assistant a)"
| "persist_message (ToolResult i c t) = log_message (ToolResult i c t)"
| "persist_message m = ret ()"

definition is_length_stop :: "stop_reason \<Rightarrow> bool" where
  "is_length_stop r \<longleftrightarrow> r = OtherStop ''length''"

fun track_assistant :: "agent_message \<Rightarrow> agent_session \<Rightarrow> agent_session" where
  "track_assistant (Assistant a) s =
     (let s1 = s\<lparr>as_lastAssistant := Some a\<rparr>;
          s2 = (if am_stopReason a \<noteq> StopError \<and> \<not> is_length_stop (am_stopReason a)
                then s1\<lparr>as_overflowTried := False\<rparr> else s1)
      in if am_stopReason a \<noteq> StopError \<and> as_retryAttempt s2 > 0
         then (emit (AutoRetryEnd True (as_retryAttempt s2) None) s2)\<lparr>as_retryAttempt := 0\<rparr>
         else s2)"
| "track_assistant _ s = s"

definition contextWindow_of :: "agent_session \<Rightarrow> nat" where
  "contextWindow_of s = (case as_model s of None \<Rightarrow> 0 | Some m \<Rightarrow> lm_contextWindow m)"

definition isRetryableError :: "services \<Rightarrow> assistant_message \<Rightarrow> agent_session \<Rightarrow> bool" where
  "isRetryableError sv a s = (if sv_overflow sv a (contextWindow_of s) then False else sv_retryable sv a)"

fun assistant_of :: "agent_message \<Rightarrow> assistant_message option" where
  "assistant_of (Assistant a) = Some a"
| "assistant_of _ = None"

definition last_assistant :: "agent_message list \<Rightarrow> assistant_message option" where
  "last_assistant ms =
     (case scan_down (\<lambda>i. is_assistant (ms ! i)) 0 (length ms) of
        None \<Rightarrow> None
      | Some i \<Rightarrow> assistant_of (ms ! i))"

definition findLastAssistantMessage :: "agent_session \<Rightarrow> assistant_message option" where
  "findLastAssistantMessage s = last_assistant (as_messages s)"

definition willRetryAfterAgentEnd :: "services \<Rightarrow> agent_message list \<Rightarrow> agent_session \<Rightarrow> bool" where
  "willRetryAfterAgentEnd sv ms s =
     (let (enabled, maxRetries, baseDelayMs) = retry_settings_of s in
      if \<not> enabled \<or> int (as_retryAttempt s) \<ge> maxRetries then False
      else (case last_assistant ms of None \<Rightarrow> False | Some a \<Rightarrow> isRetryableError sv a s))"

fun handleAgentEvent :: "services \<Rightarrow> agent_event \<Rightarrow> unit act" where
  "handleAgentEvent sv (MessageStart (User c t)) =
     change (\<lambda>s. emit (FromAgent (MessageStart (User c t))) (user_started sv c s))"
| "handleAgentEvent sv (MessageEnd m replacement) =
     (let final = final_message m replacement in
      andThen (change (\<lambda>s. emit (FromAgent (MessageEnd final None))
                             (if replacement = None then s else replace_last final s))) (\<lambda>_.
      andThen (persist_message final) (\<lambda>_.
      change (track_assistant final))))"
| "handleAgentEvent sv (AgentEnd ms) =
     change (\<lambda>s. emit (AgentEnded ms (willRetryAfterAgentEnd sv ms s)) s)"
| "handleAgentEvent sv ev = change (emit (FromAgent ev))"

section \<open>Retry\<close>

definition drop_last_assistant :: "agent_session \<Rightarrow> agent_session" where
  "drop_last_assistant s =
     (if as_messages s \<noteq> [] \<and> is_assistant (last (as_messages s))
      then s\<lparr>as_messages := butlast (as_messages s)\<rparr> else s)"

text \<open>\<open>cancelled\<close>: the wait was aborted.\<close>

definition prepareRetry :: "assistant_message \<Rightarrow> bool \<Rightarrow> agent_session \<Rightarrow> bool \<times> agent_session" where
  "prepareRetry a cancelled s =
     (let (enabled, maxRetries, baseDelayMs) = retry_settings_of s in
      if \<not> enabled then (False, s)
      else if int (as_retryAttempt s + 1) > maxRetries then (False, s)
      else
        (let attempt = as_retryAttempt s + 1;
             delayMs = baseDelayMs * 2 ^ (attempt - 1);
             s1 = drop_last_assistant
                    (emit (AutoRetryStart attempt maxRetries delayMs (error_text (am_errorMessage a) ''Unknown error''))
                      (s\<lparr>as_retryAttempt := attempt\<rparr>))
         in if cancelled
            then (False, emit (AutoRetryEnd False attempt (Some ''Retry cancelled'')) (s1\<lparr>as_retryAttempt := 0\<rparr>))
            else (True, s1)))"

section \<open>Compaction\<close>

text \<open>
  What a compaction gets from outside: whether a request can be authenticated, what an extension
  says to it, the model's answers and whether it was aborted before it is applied.
\<close>

datatype compaction_hook = NoHook | HookCancels | HookProvides applied_compaction

record compaction_env =
  en_auth :: bool
  en_hook :: compaction_hook
  en_call :: llm_call
  en_aborted :: bool

definition from_result :: "compaction_result \<Rightarrow> applied_compaction" where
  "from_result r =
     \<lparr>ac_summary = cr_summary r, ac_firstKeptEntryId = cr_firstKeptEntryId r,
      ac_tokensBefore = cr_tokensBefore r, ac_usage = Some (cr_usage r), ac_details = Some (cr_details r)\<rparr>"

text \<open>The compaction and whether an extension provided it; \<open>CompactionCancelled\<close> when one refused.\<close>

definition compaction_outcome ::
  "services \<Rightarrow> compaction_env \<Rightarrow> agent_model \<Rightarrow> string \<Rightarrow> string option \<Rightarrow> compaction_preparation \<Rightarrow>
     session_fault + applied_compaction \<times> bool" where
  "compaction_outcome sv env model thinkingLevel customInstructions preparation =
     (case en_hook env of
        HookCancels \<Rightarrow> Inl CompactionCancelled
      | HookProvides r \<Rightarrow> Inr (r, True)
      | NoHook \<Rightarrow>
          (case compact (en_call env) (sv_text sv) (llm_model.truncate model) (Some thinkingLevel)
                  customInstructions preparation of
             Inl e \<Rightarrow> Inl (SummaryFault e)
           | Inr r \<Rightarrow> Inr (from_result r, False)))"

text \<open>The entry is appended, the agent's messages are rebuilt, and their tokens estimated.\<close>

definition applyCompaction :: "applied_compaction \<Rightarrow> bool \<Rightarrow> nat act" where
  "applyCompaction r fromExtension =
     andThen (on_store (appendCompaction (ac_summary r) (ac_firstKeptEntryId r) (ac_tokensBefore r)
                          (ac_details r) fromExtension (ac_usage r))) (\<lambda>_ s.
       case sm_buildSessionContext (as_manager s) of
         None \<Rightarrow> (Inl NoResult, s)
       | Some ctx \<Rightarrow>
           (let s1 = s\<lparr>as_messages := sc_messages ctx\<rparr> in
            case sum_tokens (sc_messages ctx) of
              None \<Rightarrow> (Inl EstimateFault, s1)
            | Some n \<Rightarrow> (Inr n, s1)))"

fun failed_reply :: "agent_message \<Rightarrow> bool" where
  "failed_reply (Assistant a) \<longleftrightarrow> am_stopReason a = StopError \<or> is_length_stop (am_stopReason a)"
| "failed_reply _ \<longleftrightarrow> False"

text \<open>
  \<open>NoResult\<close> stands for a walk over parent links that never returns, which no handler catches.
\<close>

definition compaction_failed :: "compaction_reason \<Rightarrow> session_fault \<Rightarrow> bool act" where
  "compaction_failed reason e s =
     (if e = NoResult then (Inl NoResult, s)
      else if e = CompactionCancelled then (Inr False, emit (CompactionEnd reason None True False None) s)
      else (Inr False, emit (CompactionEnd reason None False False (Some e)) s))"

definition compaction_done ::
  "compaction_reason \<Rightarrow> bool \<Rightarrow> applied_compaction \<Rightarrow> nat \<Rightarrow> agent_session \<Rightarrow> bool \<times> agent_session" where
  "compaction_done reason willRetry r tokens s =
     (let s1 = emit (CompactionEnd reason (Some (r, tokens)) False willRetry None) s in
      if willRetry then
        (True, if as_messages s1 \<noteq> [] \<and> failed_reply (last (as_messages s1))
               then s1\<lparr>as_messages := butlast (as_messages s1)\<rparr> else s1)
      else (hasQueuedMessages s1, s1))"

definition runAutoCompaction ::
  "services \<Rightarrow> compaction_env \<Rightarrow> compaction_reason \<Rightarrow> bool \<Rightarrow> bool act" where
  "runAutoCompaction sv env reason willRetry s =
     (case as_model s of
        None \<Rightarrow> (Inr False, s)
      | Some model \<Rightarrow>
          if \<not> en_auth env then (Inr False, s)
          else
            (case getBranch (as_manager s) None of
               None \<Rightarrow> (Inl NoResult, s)
             | Some pathEntries \<Rightarrow>
                 (case prepareCompaction pathEntries (compaction_settings_of s) of
                    None \<Rightarrow> (Inl NoResult, s)
                  | Some None \<Rightarrow> (Inr False, s)
                  | Some (Some preparation) \<Rightarrow>
                      (let s1 = emit (CompactionStart reason) s in
                       case compaction_outcome sv env model (as_thinkingLevel s) None preparation of
                         Inl e \<Rightarrow> compaction_failed reason e s1
                       | Inr (r, fromExtension) \<Rightarrow>
                           if en_aborted env then compaction_failed reason CompactionCancelled s1
                           else
                             (case applyCompaction r fromExtension s1 of
                                (Inl e, s2) \<Rightarrow> compaction_failed reason e s2
                              | (Inr tokens, s2) \<Rightarrow>
                                  (let (again, s3) = compaction_done reason willRetry r tokens s2
                                   in (Inr again, s3)))))))"

text \<open>
  The size of the context after a reply: its own usage, or an estimate from the last reply that has
  one. The inner \<open>None\<close> says that there is no usage, or only one from before the last compaction.
\<close>

definition context_tokens_after ::
  "assistant_message \<Rightarrow> entry option \<Rightarrow> agent_session \<Rightarrow> session_fault + nat option" where
  "context_tokens_after a compactionEntry s =
     (let direct = (case am_usage a of Some u \<Rightarrow> calculateContextTokens u | None \<Rightarrow> 0) in
      if am_stopReason a = StopError \<or> direct = 0 then
        (case estimateContextTokens (as_messages s) of
           None \<Rightarrow> Inl EstimateFault
         | Some estimate \<Rightarrow>
             (case cu_lastUsageIndex estimate of
                None \<Rightarrow> Inr None
              | Some i \<Rightarrow>
                  (case (compactionEntry, assistant_of (as_messages s ! i)) of
                     (Some e, Some u) \<Rightarrow>
                       if am_timestamp u \<le> timestamp e then Inr None else Inr (Some (cu_tokens estimate))
                   | _ \<Rightarrow> Inr (Some (cu_tokens estimate)))))
      else Inr (Some direct))"

definition sameModel :: "assistant_message \<Rightarrow> agent_session \<Rightarrow> bool" where
  "sameModel a s =
     (case as_model s of
        None \<Rightarrow> False
      | Some m \<Rightarrow> am_provider a = mo_provider m \<and> am_model a = mo_id m)"

definition recoverable_failure :: "services \<Rightarrow> assistant_message \<Rightarrow> agent_session \<Rightarrow> bool" where
  "recoverable_failure sv a s \<longleftrightarrow>
     sameModel a s \<and>
     (sv_overflow sv a (contextWindow_of s) \<or>
      sv_recoverableLength sv a (case as_model s of None \<Rightarrow> 0 | Some m \<Rightarrow> lm_maxTokens m))"

definition checkCompaction ::
  "services \<Rightarrow> compaction_env \<Rightarrow> assistant_message \<Rightarrow> bool \<Rightarrow> bool act" where
  "checkCompaction sv env a skipAbortedCheck s =
     (let settings = compaction_settings_of s in
      if \<not> cs_enabled settings then (Inr False, s)
      else if skipAbortedCheck \<and> am_stopReason a = Aborted then (Inr False, s)
      else
        (case getBranch (as_manager s) None of
           None \<Rightarrow> (Inl NoResult, s)
         | Some path \<Rightarrow>
             (let compactionEntry = getLatestCompactionEntry path in
              if (case compactionEntry of Some e \<Rightarrow> am_timestamp a \<le> timestamp e | None \<Rightarrow> False)
              then (Inr False, s)
              else if recoverable_failure sv a s then
                (if am_stopReason a = OtherStop ''stop'' then runAutoCompaction sv env ContextOverflow False s
                 else if as_overflowTried s
                 then (Inr False, emit (CompactionEnd ContextOverflow None False False (Some RecoveryFailed)) s)
                 else runAutoCompaction sv env ContextOverflow True (drop_last_assistant (s\<lparr>as_overflowTried := True\<rparr>)))
              else
                (case context_tokens_after a compactionEntry s of
                   Inl e \<Rightarrow> (Inl e, s)
                 | Inr None \<Rightarrow> (Inr False, s)
                 | Inr (Some tokens) \<Rightarrow>
                     if shouldCompact tokens (contextWindow_of s) settings
                     then runAutoCompaction sv env OverThreshold False s
                     else (Inr False, s)))))"

section \<open>Manual compaction\<close>

text \<open>
  \<open>abort()\<close> has waited until no run is active. Every failure is reported and thrown again.
\<close>

definition compactNow :: "services \<Rightarrow> compaction_env \<Rightarrow> string option \<Rightarrow> (applied_compaction \<times> nat) act" where
  "compactNow sv env customInstructions s =
     (let s0 = emit (CompactionStart ManualRequest) s;
          fail = (\<lambda>e s1. (Inl e,
                    if e = NoResult then s1
                    else emit (CompactionEnd ManualRequest None (e = CompactionCancelled) False
                                 (if e = CompactionCancelled then None else Some e)) s1))
      in case as_model s of
           None \<Rightarrow> fail NoModelSelected s0
         | Some model \<Rightarrow>
             if \<not> en_auth env then fail AuthFault s0
             else
               (case getBranch (as_manager s) None of
                  None \<Rightarrow> fail NoResult s0
                | Some pathEntries \<Rightarrow>
                    (case prepareCompaction pathEntries (compaction_settings_of s) of
                       None \<Rightarrow> fail NoResult s0
                     | Some None \<Rightarrow>
                         fail (if pathEntries \<noteq> [] \<and> is_compaction (body (last pathEntries))
                               then AlreadyCompacted else NothingToCompact) s0
                     | Some (Some preparation) \<Rightarrow>
                         (case compaction_outcome sv env model (as_thinkingLevel s) customInstructions preparation of
                            Inl e \<Rightarrow> fail e s0
                          | Inr (r, fromExtension) \<Rightarrow>
                              if en_aborted env then fail CompactionCancelled s0
                              else
                                (case applyCompaction r fromExtension s0 of
                                   (Inl e, s2) \<Rightarrow> fail e s2
                                 | (Inr tokens, s2) \<Rightarrow>
                                     (Inr (r, tokens),
                                      emit (CompactionEnd ManualRequest (Some (r, tokens)) False False None) s2))))))"

section \<open>What happens while the agent runs\<close>

datatype run_step =
    AgentDoes agent_event
  | AgentTakes nat nat
  | UserSteers string "block list"
  | UserFollowsUp string "block list"
  | BashEnds string bash_result bool
  | ExtensionSends string "content option" bool "json option" "delivery option"
  | QueueCleared

text \<open>
  The agent has stored a finished message before it reports it, and takes messages from the front of
  its queues.
\<close>

fun agent_stores :: "agent_event \<Rightarrow> agent_session \<Rightarrow> agent_session" where
  "agent_stores (MessageEnd m replacement) s = push_message m s"
| "agent_stores _ s = s"

fun perform :: "services \<Rightarrow> run_step \<Rightarrow> unit act" where
  "perform sv (AgentDoes ev) = andThen (change (agent_stores ev)) (\<lambda>_. handleAgentEvent sv ev)"
| "perform sv (AgentTakes m n) =
     change (\<lambda>s. s\<lparr>as_agentSteering := drop m (as_agentSteering s), as_agentFollowUp := drop n (as_agentFollowUp s)\<rparr>)"
| "perform sv (UserSteers text images) = queueSteer text images"
| "perform sv (UserFollowsUp text images) = queueFollowUp text images"
| "perform sv (BashEnds command result excluded) = recordBashResult command result excluded"
| "perform sv (ExtensionSends customType content display details deliverAs) =
     andThen (sendCustomMessage customType content display details False deliverAs) (\<lambda>_. ret ())"
| "perform sv QueueCleared = andThen clearQueue (\<lambda>_. ret ())"

fun perform_all :: "services \<Rightarrow> run_step list \<Rightarrow> unit act" where
  "perform_all sv [] = ret ()"
| "perform_all sv (i # is) = andThen (perform sv i) (\<lambda>_. perform_all sv is)"

section \<open>The run loop\<close>

text \<open>One run of the agent, and what the session meets after it.\<close>

record run_input =
  ri_steps :: "run_step list"
  ri_retryCancelled :: bool
  ri_compaction :: compaction_env

definition retry_over :: "assistant_message \<Rightarrow> agent_session \<Rightarrow> agent_session" where
  "retry_over a s =
     (if am_stopReason a = StopError \<and> as_retryAttempt s > 0
      then (emit (AutoRetryEnd False (as_retryAttempt s) (am_errorMessage a)) s)\<lparr>as_retryAttempt := 0\<rparr>
      else s)"

definition handlePostAgentRun :: "services \<Rightarrow> run_input \<Rightarrow> bool act" where
  "handlePostAgentRun sv i s =
     (case as_lastAssistant s of
        None \<Rightarrow> (Inr False, s)
      | Some a \<Rightarrow>
          (let s1 = s\<lparr>as_lastAssistant := None\<rparr>;
               (retry, s2) = (if isRetryableError sv a s1 then prepareRetry a (ri_retryCancelled i) s1 else (False, s1))
           in if retry then (Inr True, s2)
              else
                (case checkCompaction sv (ri_compaction i) a True (retry_over a s2) of
                   (Inl e, s3) \<Rightarrow> (Inl e, s3)
                 | (Inr again, s3) \<Rightarrow> (Inr (again \<or> hasQueuedMessages s3), s3))))"

text \<open>
  \<open>None\<close>: the agent has not answered yet. The inputs are its runs in order, the first one for the
  prompt, each other for an \<open>agent.continue()\<close>.
\<close>

fun run_loop :: "services \<Rightarrow> run_input list \<Rightarrow> agent_session \<Rightarrow> ((session_fault + unit) \<times> agent_session) option" where
  "run_loop sv [] s = None"
| "run_loop sv (i # is) s =
     (case perform_all sv (ri_steps i) s of
        (Inl e, s1) \<Rightarrow> Some (Inl e, s1)
      | (Inr _, s1) \<Rightarrow>
          (case handlePostAgentRun sv i s1 of
             (Inl e, s2) \<Rightarrow> Some (Inl e, s2)
           | (Inr False, s2) \<Rightarrow> Some (Inr (), s2)
           | (Inr True, s2) \<Rightarrow>
               if sv_rejects sv (as_messages s2) (hasQueuedMessages s2) then Some (Inl AgentRejected, s2)
               else run_loop sv is s2))"

text \<open>The \<open>finally\<close>: a flush that throws keeps the rest from running.\<close>

definition settle_run :: "unit act" where
  "settle_run =
     andThen (change (\<lambda>s. s\<lparr>as_promptOverride := None\<rparr>)) (\<lambda>_.
     andThen flushPendingBashMessages (\<lambda>_.
     change (\<lambda>s. emit AgentSettled (s\<lparr>as_runActive := False\<rparr>))))"

text \<open>\<open>answer\<close>: the agent's run for the messages of the prompt.\<close>

definition runAgentPrompt ::
  "services \<Rightarrow> (agent_message list \<Rightarrow> run_input) \<Rightarrow> run_input list \<Rightarrow> agent_message list \<Rightarrow> agent_session \<Rightarrow>
     ((session_fault + unit) \<times> agent_session) option" where
  "runAgentPrompt sv answer continued messages s =
     (case run_loop sv (answer messages # continued) (s\<lparr>as_runActive := True\<rparr>) of
        None \<Rightarrow> None
      | Some (r, s1) \<Rightarrow>
          (case settle_run s1 of
             (Inl e, s2) \<Rightarrow> Some (Inl e, s2)
           | (Inr _, s2) \<Rightarrow> Some (r, s2)))"

section \<open>A prompt\<close>

datatype input_result = InputContinues | InputHandled | InputTransforms string "block list option"

datatype streaming_behavior = SteerNow | FollowUpLater

record prompt_input =
  pi_text :: string
  pi_images :: "block list"
  pi_expand :: bool
  pi_behavior :: "streaming_behavior option"
  pi_commandHandled :: bool
  pi_input :: input_result
  pi_expansion :: "string \<Rightarrow> string"
  pi_auth :: bool
  pi_compaction :: compaction_env
  pi_injected :: "(string \<times> content option \<times> bool \<times> json option) list"
  pi_systemPrompt :: "string option"

fun timed_customs :: "(string \<times> content option \<times> bool \<times> json option) list \<Rightarrow> agent_message list act" where
  "timed_customs [] = ret []"
| "timed_customs ((customType, content, display, details) # rest) =
     andThen date_now (\<lambda>t.
     andThen (timed_customs rest) (\<lambda>ms.
     ret (createCustomMessage customType (Some (filled_content content)) display details t # ms)))"

definition set_prompt :: "string option \<Rightarrow> agent_session \<Rightarrow> agent_session" where
  "set_prompt p s =
     (case p of
        Some q \<Rightarrow> s\<lparr>as_promptOverride := Some q, as_systemPrompt := q\<rparr>
      | None \<Rightarrow> s\<lparr>as_promptOverride := None, as_systemPrompt := as_basePrompt s\<rparr>)"

text \<open>The part of \<open>prompt\<close> after the text is known and no run is active: the messages to send.\<close>

definition prompt_messages :: "services \<Rightarrow> prompt_input \<Rightarrow> string \<Rightarrow> block list \<Rightarrow> agent_message list act" where
  "prompt_messages sv p text images =
     andThen flushPendingBashMessages (\<lambda>_ s.
       if as_model s = None then (Inl NoModelSelected, s)
       else if \<not> pi_auth p then (Inl AuthFault, s)
       else
         andThen
           (case findLastAssistantMessage s of
              None \<Rightarrow> ret False
            | Some a \<Rightarrow> checkCompaction sv (pi_compaction p) a False) (\<lambda>_.
         andThen date_now (\<lambda>t s1.
           (let asides = as_nextTurn s1 in
            andThen (timed_customs (pi_injected p)) (\<lambda>customs.
            andThen (change (set_prompt (pi_systemPrompt p))) (\<lambda>_.
            ret (User (Some (Blocks (TextBlock text # images))) t # asides @ customs)))
              (s1\<lparr>as_nextTurn := []\<rparr>)))) s)"

text \<open>The messages that start a run, \<open>None\<close> when there is nothing to run.\<close>

definition prompt :: "services \<Rightarrow> prompt_input \<Rightarrow> agent_message list option act" where
  "prompt sv p s =
     (if pi_expand p \<and> is_command (pi_text p) \<and> pi_commandHandled p then (Inr None, s)
      else if as_compacting s then (Inl CompactionRunning, s)
      else
        (case pi_input p of
           InputHandled \<Rightarrow> (Inr None, s)
         | inp \<Rightarrow>
             (let (currentText, currentImages) =
                    (case inp of
                       InputTransforms t images \<Rightarrow> (t, case images of Some is \<Rightarrow> is | None \<Rightarrow> pi_images p)
                     | _ \<Rightarrow> (pi_text p, pi_images p));
                  text = (if pi_expand p then pi_expansion p currentText else currentText)
              in if as_runActive s then
                   (case pi_behavior p of
                      None \<Rightarrow> (Inl NeedsStreamingBehavior, s)
                    | Some FollowUpLater \<Rightarrow> andThen (queueFollowUp text currentImages) (\<lambda>_. ret None) s
                    | Some SteerNow \<Rightarrow> andThen (queueSteer text currentImages) (\<lambda>_. ret None) s)
                 else andThen (prompt_messages sv p text currentImages) (\<lambda>ms. ret (Some ms)) s)))"

end
