(* ===== verification/Agent_Navigation.thy ===== *)
theory Agent_Navigation
  imports Agent_Run Agent_Session
begin

text \<open>
  Moving in the session tree and reading from the session (\<open>navigateTree\<close>, \<open>getContextUsage\<close>,
  \<open>getUserMessagesForForking\<close>, \<open>exportToJsonl\<close>, \<open>getLastAssistantText\<close>, \<open>setSessionName\<close> of
  \<open>core/agent-session.ts\<close>). The model's call and the answer of the extensions are arguments.
\<close>

section \<open>Navigation\<close>

record tree_options =
  to_summarize :: bool
  to_customInstructions :: "string option"
  to_replaceInstructions :: bool
  to_label :: "string option"

text \<open>What \<open>session_before_tree\<close> gave back.\<close>

record tree_hook =
  th_cancel :: bool
  th_summary :: "(string \<times> json option \<times> usage option) option"
  th_customInstructions :: "string option"
  th_replaceInstructions :: "bool option"
  th_label :: "string option"

record tree_result =
  tr_editorText :: "string option"
  tr_cancelled :: bool
  tr_aborted :: bool
  tr_summaryEntry :: "entry option"

definition tree_cancelled :: "bool \<Rightarrow> tree_result" where
  "tree_cancelled aborted =
     \<lparr>tr_editorText = None, tr_cancelled = True, tr_aborted = aborted, tr_summaryEntry = None\<rparr>"

text \<open>Where the leaf goes, and the text that goes to the editor.\<close>

definition tree_target :: "text_of \<Rightarrow> entry \<Rightarrow> string option \<times> string option" where
  "tree_target ct e =
     (case body e of
        EMessage (User c t) \<Rightarrow> (parentId e, Some (ct (Some []) (case c of Some x \<Rightarrow> x | None \<Rightarrow> Blocks [])))
      | ECustomMessage k \<Rightarrow> (parentId e, Some (ct (Some []) (case ke_content k of Some x \<Rightarrow> x | None \<Rightarrow> Blocks [])))
      | _ \<Rightarrow> (Some (eid e), None))"

text \<open>
  The summary of the abandoned branch with its origin; \<open>None\<close> when there is none, \<open>Inl None\<close> when
  the summariser was aborted.
\<close>

definition tree_summary ::
  "services \<Rightarrow> llm_call \<Rightarrow> bool \<Rightarrow> agent_model option \<Rightarrow> nat \<Rightarrow> tree_options \<Rightarrow> tree_hook option \<Rightarrow> entry list \<Rightarrow>
     session_fault option + (string \<times> json option \<times> usage option \<times> bool) option" where
  "tree_summary sv call authenticated model reserveTokens options hook entries =
     (let extension = (case hook of Some h \<Rightarrow> if to_summarize options then th_summary h else None | None \<Rightarrow> None);
          customInstructions = (case hook of
             Some h \<Rightarrow> (case th_customInstructions h of Some c \<Rightarrow> Some c | None \<Rightarrow> to_customInstructions options)
           | None \<Rightarrow> to_customInstructions options);
          replaceInstructions = (case hook of
             Some h \<Rightarrow> (case th_replaceInstructions h of Some r \<Rightarrow> r | None \<Rightarrow> to_replaceInstructions options)
           | None \<Rightarrow> to_replaceInstructions options)
      in case extension of
           Some (text, details, usage) \<Rightarrow> Inr (Some (text, details, usage, True))
         | None \<Rightarrow>
             (case model of
                None \<Rightarrow> Inr None
              | Some m \<Rightarrow>
                  if to_summarize options \<and> entries \<noteq> [] then
                    (if \<not> authenticated then Inl (Some AuthFault) else case generateBranchSummary call (sv_text sv) (llm_model.truncate m) reserveTokens
                            customInstructions replaceInstructions entries of
                       None \<Rightarrow> Inl (Some (SummaryFault CallThrew))
                     | Some SummaryAborted \<Rightarrow> Inl None
                     | Some (SummaryError e) \<Rightarrow> Inl (Some (SummaryText e))
                     | Some (NothingToSummarize e) \<Rightarrow>
                         Inr (Some (e, Some (details_json [] []), None, False))
                     | Some (Summarized text usage readFiles modifiedFiles) \<Rightarrow>
                         Inr (Some (text, Some (details_json readFiles modifiedFiles), Some usage, False)))
                  else Inr None))"

definition tree_label :: "tree_options \<Rightarrow> tree_hook option \<Rightarrow> string option" where
  "tree_label options hook =
     truthy_str (case hook of
       Some h \<Rightarrow> (case th_label h of Some l \<Rightarrow> Some l | None \<Rightarrow> to_label options)
     | None \<Rightarrow> to_label options)"

text \<open>The leaf moves, with the summary as a new entry at the target when there is one.\<close>

definition move_leaf ::
  "string option \<Rightarrow> (string \<times> json option \<times> usage option \<times> bool) option \<Rightarrow> string option \<Rightarrow> string \<Rightarrow>
     entry option act" where
  "move_leaf newLeafId summary label targetId =
     (case summary of
        Some (text, details, usage, fromExtension) \<Rightarrow>
          if text \<noteq> [] then
            andThen (on_store (branchWithSummary newLeafId text details fromExtension usage)) (\<lambda>summaryId s.
              (let entry = getEntry (as_manager s) summaryId in
               case label of
                 None \<Rightarrow> (Inr entry, s)
               | Some l \<Rightarrow> andThen (on_store (appendLabelChange summaryId (Some l))) (\<lambda>_. ret entry) s))
          else
            andThen (case newLeafId of
                None \<Rightarrow> change (\<lambda>s. s\<lparr>as_manager := resetLeaf (as_manager s)\<rparr>)
              | Some i \<Rightarrow> on_store (branch i)) (\<lambda>_.
            andThen (case label of
                None \<Rightarrow> ret ()
              | Some l \<Rightarrow> andThen (on_store (appendLabelChange targetId (Some l))) (\<lambda>_. ret ())) (\<lambda>_. ret None))
      | None \<Rightarrow>
          andThen (case newLeafId of
              None \<Rightarrow> change (\<lambda>s. s\<lparr>as_manager := resetLeaf (as_manager s)\<rparr>)
            | Some i \<Rightarrow> on_store (branch i)) (\<lambda>_.
          andThen (case label of
              None \<Rightarrow> ret ()
            | Some l \<Rightarrow> andThen (on_store (appendLabelChange targetId (Some l))) (\<lambda>_. ret ())) (\<lambda>_. ret None)))"

definition rebuild_messages :: "unit act" where
  "rebuild_messages s =
     (case sm_buildSessionContext (as_manager s) of
        None \<Rightarrow> (Inl NoResult, s)
      | Some ctx \<Rightarrow> (Inr (), s\<lparr>as_messages := sc_messages ctx\<rparr>))"

definition navigateTree ::
  "services \<Rightarrow> llm_call \<Rightarrow> bool \<Rightarrow> string \<Rightarrow> tree_options \<Rightarrow> tree_hook option \<Rightarrow> tree_result act" where
  "navigateTree sv call authenticated targetId options hook s =
     (if as_runActive s then (Inl StillStreaming, s)
      else if Some targetId = sm_leafId (as_manager s)
      then (Inr \<lparr>tr_editorText = None, tr_cancelled = False, tr_aborted = False, tr_summaryEntry = None\<rparr>, s)
      else if to_summarize options \<and> as_model s = None then (Inl NoSummaryModel, s)
      else
        (case getEntry (as_manager s) targetId of
           None \<Rightarrow> (Inl (StoreFault (EntryNotFound targetId)), s)
         | Some targetEntry \<Rightarrow>
             (case collectEntriesForBranchSummary (as_manager s) (sm_leafId (as_manager s)) targetId of
                None \<Rightarrow> (Inl NoResult, s)
              | Some (entries, commonAncestorId) \<Rightarrow>
                  if (case hook of Some h \<Rightarrow> th_cancel h | None \<Rightarrow> False) then (Inr (tree_cancelled False), s)
                  else
                    (case tree_summary sv call authenticated (as_model s)
                            (nat (json_number (fst (getBranchSummarySettings (as_settings s))))) options hook entries of
                       Inl None \<Rightarrow> (Inr (tree_cancelled True), s)
                     | Inl (Some e) \<Rightarrow> (Inl e, s)
                     | Inr summary \<Rightarrow>
                         (let (newLeafId, editorText) = tree_target (sv_text sv) targetEntry in
                          andThen (move_leaf newLeafId summary (tree_label options hook) targetId) (\<lambda>summaryEntry.
                          andThen rebuild_messages (\<lambda>_.
                          ret \<lparr>tr_editorText = editorText, tr_cancelled = False, tr_aborted = False,
                               tr_summaryEntry = summaryEntry\<rparr>)) s)))))"

section \<open>Reading\<close>

definition fork_candidate :: "text_of \<Rightarrow> entry \<Rightarrow> (string \<times> string) option" where
  "fork_candidate ct e =
     (case body e of
        EMessage (User c t) \<Rightarrow>
          (let text = ct (Some []) (case c of Some x \<Rightarrow> x | None \<Rightarrow> Blocks []) in
           if text \<noteq> [] then Some (eid e, text) else None)
      | _ \<Rightarrow> None)"

definition getUserMessagesForForking :: "services \<Rightarrow> agent_session \<Rightarrow> (string \<times> string) list" where
  "getUserMessagesForForking sv s = List.map_filter (fork_candidate (sv_text sv)) (getEntries (as_manager s))"

text \<open>Tokens, window and percentage, the first and the last unknown right after a compaction.\<close>

record usage_view =
  uv_tokens :: "nat option"
  uv_contextWindow :: nat
  uv_percent :: "rat option"

definition valid_usage :: "entry \<Rightarrow> bool" where
  "valid_usage e =
     (case body e of
        EMessage (Assistant a) \<Rightarrow>
          am_stopReason a \<noteq> Aborted \<and> am_stopReason a \<noteq> StopError \<and>
          (case am_usage a of Some u \<Rightarrow> calculateContextTokens u > 0 | None \<Rightarrow> False)
      | _ \<Rightarrow> False)"

text \<open>The outer \<open>None\<close>: a walk that does not return or an estimate that throws.\<close>

definition getContextUsage :: "agent_session \<Rightarrow> usage_view option option" where
  "getContextUsage s =
     (case as_model s of
        None \<Rightarrow> Some None
      | Some m \<Rightarrow>
          (let contextWindow = lm_contextWindow m in
           if contextWindow = 0 then Some None
           else
             (case getBranch (as_manager s) None of
                None \<Rightarrow> None
              | Some es \<Rightarrow>
                  if (case previous_compaction es of
                        Some i \<Rightarrow> \<not> list_ex valid_usage (drop (i + 1) es)
                      | None \<Rightarrow> False)
                  then Some (Some \<lparr>uv_tokens = None, uv_contextWindow = contextWindow, uv_percent = None\<rparr>)
                  else
                    (case estimateContextTokens (as_messages s) of
                       None \<Rightarrow> None
                     | Some u \<Rightarrow>
                         Some (Some \<lparr>uv_tokens = Some (cu_tokens u), uv_contextWindow = contextWindow,
                                     uv_percent = Some (of_nat (cu_tokens u) / of_nat contextWindow * 100)\<rparr>)))))"

text \<open>The lines of the exported file: the header, then the branch as one chain.\<close>

fun rechained :: "string option \<Rightarrow> entry list \<Rightarrow> entry list" where
  "rechained prevId [] = []"
| "rechained prevId (e # es) = e\<lparr>parentId := prevId\<rparr> # rechained (Some (eid e)) es"

definition exportToJsonl :: "agent_session \<Rightarrow> (file_line list \<times> agent_session) option" where
  "exportToJsonl s =
     (let (t, w) = now (as_world s);
          header = \<lparr>sh_version = Some CURRENT_SESSION_VERSION, sh_id = sm_sessionId (as_manager s), sh_timestamp = t,
                    sh_cwd = sm_cwd (as_manager s), sh_parentSession = None\<rparr> in
      case getBranch (as_manager s) None of
        None \<Rightarrow> None
      | Some es \<Rightarrow>
          Some (map uncook (FHeader header # map FEntry (rechained None es)), s\<lparr>as_world := w\<rparr>))"

fun block_text :: "block \<Rightarrow> string" where
  "block_text (TextBlock t) = t"
| "block_text _ = []"

fun speaks :: "agent_message \<Rightarrow> bool" where
  "speaks (Assistant a) \<longleftrightarrow> \<not> (am_stopReason a = Aborted \<and> am_content a = Some [])"
| "speaks _ \<longleftrightarrow> False"

text \<open>Content that is missing would throw: the outer \<open>None\<close>.\<close>

definition getLastAssistantText :: "agent_session \<Rightarrow> string option option" where
  "getLastAssistantText s =
     (case find speaks (rev (as_messages s)) of
        Some (Assistant a) \<Rightarrow>
          map_option (\<lambda>bs. truthy_str (Some (trim (concat (map block_text bs))))) (am_content a)
      | _ \<Rightarrow> Some None)"

definition setSessionName :: "string \<Rightarrow> unit act" where
  "setSessionName name =
     andThen (on_store (appendSessionInfo name)) (\<lambda>_.
     change (\<lambda>s. emit (SessionInfoChanged (getSessionName (as_manager s))) s))"

text \<open>
  The operations of \<open>AgentSession\<close> as a step relation on its state, with every outcome, thrown or
  returned: what a client of the class can make a session do.
\<close>

inductive session_step :: "services \<Rightarrow> agent_session \<Rightarrow> agent_session \<Rightarrow> bool" for sv where
  prompted: "prompt sv p s = (r, s') \<Longrightarrow> session_step sv s s'"
| ran: "runAgentPrompt sv answer continued ms s = Some (r, s') \<Longrightarrow> session_step sv s s'"
| during: "perform sv i s = (r, s') \<Longrightarrow> session_step sv s s'"
| steered: "steer getCommand expand text images s = (r, s') \<Longrightarrow> session_step sv s s'"
| followed: "followUp getCommand expand text images s = (r, s') \<Longrightarrow> session_step sv s s'"
| sent: "sendCustomMessage customType content display details trigger deliverAs s = (r, s') \<Longrightarrow> session_step sv s s'"
| compacted: "compactNow sv env customInstructions s = (r, s') \<Longrightarrow> session_step sv s s'"
| model_set: "setModel sv authenticated m s = (r, s') \<Longrightarrow> session_step sv s s'"
| model_cycled: "cycleModel sv available scoped d s = (r, s') \<Longrightarrow> session_step sv s s'"
| level_set: "setThinkingLevel sv level s = (r, s') \<Longrightarrow> session_step sv s s'"
| level_cycled: "cycleThinkingLevel sv s = (r, s') \<Longrightarrow> session_step sv s s'"
| navigated: "navigateTree sv call authenticated target options hook s = (r, s') \<Longrightarrow> session_step sv s s'"
| named: "setSessionName name s = (r, s') \<Longrightarrow> session_step sv s s'"
| exported: "exportToJsonl s = Some (ls, s') \<Longrightarrow> session_step sv s s'"

inductive session_run :: "services \<Rightarrow> agent_session \<Rightarrow> agent_session \<Rightarrow> bool" for sv where
  stop: "session_run sv s s"
| more: "session_run sv s s' \<Longrightarrow> session_step sv s' s'' \<Longrightarrow> session_run sv s s''"

inductive_cases session_runE: "session_run sv s s'"

end
