(* ===== verification/Agent_Lemmas.thy ===== *)
theory Agent_Lemmas
  imports Agent_Navigation Session_Spec Context_Lemmas
begin

text \<open>
  Reasoning about the operations of a session: relations every operation keeps, a rule for pre- and
  postconditions, what each operation does to the log, and the agreement of the agent's messages with
  the log.
\<close>

section \<open>Relations that operations keep\<close>

definition obeys :: "(agent_session \<Rightarrow> agent_session \<Rightarrow> bool) \<Rightarrow> 'a act \<Rightarrow> bool" where
  "obeys R f \<longleftrightarrow> (\<forall>s r s'. f s = (r, s') \<longrightarrow> R s s')"

lemma obeysI: "(\<And>s. R s (snd (f s))) \<Longrightarrow> obeys R f"
  unfolding obeys_def by (metis snd_conv)

lemma obeysD: "obeys R f \<Longrightarrow> R s (snd (f s))"
  by (cases "f s") (auto simp: obeys_def)

lemma obeys_at: "obeys R f \<Longrightarrow> f s = (r, s') \<Longrightarrow> R s s'"
  by (auto simp: obeys_def)

text \<open>
  A relation between the state before and after. Composition and the operations that do not touch
  the log keep it as soon as it is a preorder and these changes are in it.
\<close>

locale session_relation =
  fixes R :: "agent_session \<Rightarrow> agent_session \<Rightarrow> bool"
  assumes refl: "R s s"
    and trans: "R a b \<Longrightarrow> R b c \<Longrightarrow> R a c"
begin

lemma ret: "obeys R (ret x)"
  by (simp add: obeys_def ret_def refl)

lemma throw: "obeys R (throw e)"
  by (simp add: obeys_def throw_def refl)

lemma andThen:
  assumes "obeys R f" and "\<And>x. obeys R (g x)"
  shows "obeys R (andThen f g)"
proof (rule obeysI)
  fix s
  obtain r s1 where f: "f s = (r, s1)" by (meson surj_pair)
  then have 1: "R s s1" using obeysD [OF assms(1), of s] by simp
  have 2: "R s1 (snd (g x s1))" for x by (rule obeysD [OF assms(2)])
  show "R s (snd (andThen f g s))"
    using 1 trans [OF 1 2] by (cases r) (simp_all add: andThen_def f)
qed

lemma cond: "obeys R f \<Longrightarrow> obeys R g \<Longrightarrow> obeys R (if b then f else g)"
  by simp

lemma choose: "obeys R f \<Longrightarrow> obeys R g \<Longrightarrow> obeys R (\<lambda>s. if P s then f s else g s)"
  by (simp add: obeys_def)

lemma change: "(\<And>s. R s (h s)) \<Longrightarrow> obeys R (change h)"
  by (auto simp: obeys_def change_def)

lemma steps:
  assumes "\<And>i. obeys R (perform sv i)"
  shows "obeys R (perform_all sv is)"
proof (induction "is")
  case Nil
  then show ?case by (simp add: ret)
next
  case (Cons i "is")
  with assms show ?case by (simp add: andThen)
qed

text \<open>A relation of the steps, of what follows a run and of settling is one of the whole loop.\<close>

lemma loop:
  assumes "\<And>i. obeys R (perform sv i)" and "\<And>i. obeys R (handlePostAgentRun sv i)"
  shows "run_loop sv is s = Some (r, s') \<Longrightarrow> R s s'"
proof (induction "is" arbitrary: s)
  case Nil
  then show ?case by simp
next
  case (Cons i "is")
  obtain q s1 where p: "perform_all sv (ri_steps i) s = (q, s1)" by (meson surj_pair)
  then have 1: "R s s1" using steps [of sv "ri_steps i", OF assms(1)] by (auto simp: obeys_def)
  obtain q2 s2 where h: "handlePostAgentRun sv i s1 = (q2, s2)" by (meson surj_pair)
  then have 2: "R s1 s2" using assms(2) by (auto simp: obeys_def)
  have 3: "R s s2" by (rule trans [OF 1 2])
  show ?case
  proof (cases q)
    case (Inl e)
    with Cons.prems p 1 show ?thesis by simp
  next
    case (Inr u)
    show ?thesis
    proof (cases q2)
      case (Inl e)
      with Cons.prems p h 3 \<open>q = Inr u\<close> show ?thesis by simp
    next
      case (Inr again)
      with Cons.prems p h \<open>q = Inr u\<close> have "s' = s2 \<or> run_loop sv is s2 = Some (r, s')"
        by (cases again) (simp_all split: if_split_asm)
      with 3 trans [OF 3 Cons.IH] show ?thesis by blast
    qed
  qed
qed

lemma prompt_run:
  assumes "\<And>i. obeys R (perform sv i)" and "\<And>i. obeys R (handlePostAgentRun sv i)" and "obeys R settle_run"
    and "\<And>s. R s (s\<lparr>as_runActive := True\<rparr>)"
  shows "runAgentPrompt sv answer continued ms s = Some (r, s') \<Longrightarrow> R s s'"
proof -
  assume run: "runAgentPrompt sv answer continued ms s = Some (r, s')"
  then obtain q s1 where l: "run_loop sv (answer ms # continued) (s\<lparr>as_runActive := True\<rparr>) = Some (q, s1)"
    by (auto simp: runAgentPrompt_def split: option.splits)
  have "R s s1" using trans [OF assms(4) loop [OF assms(1,2) l]] .
  moreover have "s' = snd (settle_run s1)"
    using run l by (auto simp: runAgentPrompt_def split: prod.splits sum.splits)
  ultimately show ?thesis using obeysD [OF assms(3), of s1] trans by blast
qed

end

section \<open>The log only grows\<close>

definition entries_of_session :: "agent_session \<Rightarrow> entry list" where
  "entries_of_session s = getEntries (as_manager s)"

definition bodies :: "agent_session \<Rightarrow> entry_body list" where
  "bodies s = map body (entries_of_session s)"

definition log_extends :: "agent_session \<Rightarrow> agent_session \<Rightarrow> bool" where
  "log_extends s s' \<longleftrightarrow> (\<exists>es. entries_of_session s' = entries_of_session s @ es)"

lemma append_body_entries:
  assumes "append_body b s w = (r, s', w')"
  shows "\<exists>e. body e = b \<and> getEntries s' = getEntries s @ [e]"
proof -
  obtain e w1 where n: "new_entry b s w = (e, w1)" by (meson surj_pair)
  have "body e = b" using n by (auto simp: new_entry_def split: prod.splits)
  moreover have "getEntries s' = getEntries s @ [e]"
    by (subst append_body_result(1) [OF assms n]) simp
  ultimately show ?thesis by blast
qed

text \<open>What an operation on the store adds to the log, whether it throws or not.\<close>

lemma on_store_append:
  assumes "f = append_body b" and "on_store f s = (r, s')"
  shows "\<exists>e. body e = b \<and> entries_of_session s' = entries_of_session s @ [e]"
    and "s' = s\<lparr>as_manager := as_manager s', as_world := as_world s'\<rparr>"
  using append_body_entries [of b "as_manager s" "as_world s"] assms
  by (auto simp: on_store_def entries_of_session_def split: prod.splits sum.splits)

lemma on_store_bodies: "on_store (append_body b) s = (r, s') \<Longrightarrow> bodies s' = bodies s @ [b]"
  using on_store_append(1) [OF HOL.refl, of b s r s'] by (auto simp: bodies_def)

lemma grow_append: "obeys log_extends (on_store (append_body b))"
  using on_store_append(1) [OF HOL.refl] by (fastforce simp: obeys_def log_extends_def)

lemma log_custom_append:
  "log_custom customType content display details =
     andThen (on_store (append_body (ECustomMessage
       \<lparr>ke_customType = customType, ke_content = content, ke_details = details, ke_display = display\<rparr>))) (\<lambda>_. ret ())"
  by (cases content) (simp_all add: log_custom_def appendCustomMessageEntry_def)

lemma log_message_append: "log_message m = andThen (on_store (append_body (EMessage m))) (\<lambda>_. ret ())"
  by (simp add: log_message_def appendMessage_def)

lemma same_log: "as_manager s' = as_manager s \<Longrightarrow> log_extends s s'"
  by (simp add: log_extends_def entries_of_session_def)

text \<open>What the operations on the session's own fields leave alone.\<close>

definition config :: "agent_session \<Rightarrow> agent_model option \<times> settings_manager \<times> bool \<times> bool" where
  "config s = (as_model s, as_settings s, as_runActive s, as_compacting s)"

definition core :: "agent_session \<Rightarrow> session_manager \<times> world \<times> bash_execution list" where
  "core s = (as_manager s, as_world s, as_pendingBash s)"

lemma emit_silent [simp]: "core (emit ev s) = core s" "config (emit ev s) = config s"
  by (simp_all add: emit_def core_def config_def)

lemma emitQueueUpdate_silent [simp]: "core (emitQueueUpdate s) = core s" "config (emitQueueUpdate s) = config s"
  by (simp_all add: emitQueueUpdate_def)

lemma push_message_silent [simp]: "core (push_message m s) = core s" "config (push_message m s) = config s"
  by (simp_all add: push_message_def core_def config_def)

lemma replace_last_silent [simp]: "core (replace_last m s) = core s" "config (replace_last m s) = config s"
  by (simp_all add: replace_last_def core_def config_def)

lemma fields_silent [simp]:
  "core (s\<lparr>as_overflowTried := b\<rparr>) = core s" "config (s\<lparr>as_overflowTried := b\<rparr>) = config s"
  "core (s\<lparr>as_retryAttempt := n\<rparr>) = core s" "config (s\<lparr>as_retryAttempt := n\<rparr>) = config s"
  "core (s\<lparr>as_lastAssistant := l\<rparr>) = core s" "config (s\<lparr>as_lastAssistant := l\<rparr>) = config s"
  "core (s\<lparr>as_messages := ms\<rparr>) = core s" "config (s\<lparr>as_messages := ms\<rparr>) = config s"
  "core (s\<lparr>as_steering := q\<rparr>) = core s" "config (s\<lparr>as_steering := q\<rparr>) = config s"
  "core (s\<lparr>as_followUp := q\<rparr>) = core s" "config (s\<lparr>as_followUp := q\<rparr>) = config s"
  "core (s\<lparr>as_agentSteering := k\<rparr>) = core s" "config (s\<lparr>as_agentSteering := k\<rparr>) = config s"
  "core (s\<lparr>as_agentFollowUp := k\<rparr>) = core s" "config (s\<lparr>as_agentFollowUp := k\<rparr>) = config s"
  "core (s\<lparr>as_nextTurn := k\<rparr>) = core s" "config (s\<lparr>as_nextTurn := k\<rparr>) = config s"
  "core (s\<lparr>as_promptOverride := p\<rparr>) = core s" "config (s\<lparr>as_promptOverride := p\<rparr>) = config s"
  "core (s\<lparr>as_runActive := b\<rparr>) = core s" "config (s\<lparr>as_world := w\<rparr>) = config s"
  "config (s\<lparr>as_pendingBash := bs\<rparr>) = config s" "config (s\<lparr>as_manager := m\<rparr>) = config s"
  by (simp_all add: core_def config_def)

lemma user_started_silent [simp]: "core (user_started sv c s) = core s" "config (user_started sv c s) = config s"
  by (simp_all add: user_started_def Let_def)

lemma track_assistant_silent [simp]: "core (track_assistant m s) = core s" "config (track_assistant m s) = config s"
  by (cases m; simp add: Let_def)+

lemma drop_last_assistant_silent [simp]:
  "core (drop_last_assistant s) = core s" "config (drop_last_assistant s) = config s"
  by (simp_all add: drop_last_assistant_def)

lemma retry_over_silent [simp]: "core (retry_over a s) = core s" "config (retry_over a s) = config s"
  by (simp_all add: retry_over_def)

lemma set_prompt_silent [simp]: "core (set_prompt p s) = core s" "config (set_prompt p s) = config s"
  by (simp_all add: set_prompt_def core_def config_def split: option.split)

lemma agent_stores_silent [simp]: "core (agent_stores ev s) = core s" "config (agent_stores ev s) = config s"
  by (cases ev; simp)+

lemma core_log: "core s' = core s \<Longrightarrow> log_extends s s'"
  by (simp add: core_def same_log)

text \<open>
  What follows a run of the agent touches the log only with compactions: any preorder that allows
  these and ignores the session's own bookkeeping is kept by it.
\<close>

locale post_run_relation = session_relation +
  assumes silent: "core s' = core s \<Longrightarrow> config s' = config s \<Longrightarrow> R s s'"
    and compaction: "obeys R (on_store (append_body (ECompaction c)))"
begin

lemma compaction_append: "obeys R (on_store (appendCompaction t k n d h u))"
  unfolding appendCompaction_def by (rule compaction)

lemma prepareRetry: "R s (snd (prepareRetry a cancelled s))"
  by (simp add: prepareRetry_def Let_def silent split: prod.split)

lemma applyCompaction: "obeys R (applyCompaction r fromExtension)"
  unfolding applyCompaction_def
  by (intro andThen compaction_append obeysI)
    (simp add: Let_def refl silent split: option.split)

lemma compaction_failed: "obeys R (compaction_failed reason e)"
  by (rule obeysI) (simp add: compaction_failed_def refl silent)

lemma compaction_done: "R s (snd (compaction_done reason willRetry r tokens s))"
  by (simp add: compaction_done_def Let_def silent)

lemma runAutoCompaction: "obeys R (runAutoCompaction sv env reason willRetry)"
proof (rule obeysI)
  fix s
  have start: "R s (emit (CompactionStart reason) s)" by (simp add: silent)
  have failed: "R s s1 \<Longrightarrow> R s (snd (compaction_failed reason e s1))" for s1 e
    using trans obeysD [OF compaction_failed] by blast
  have applied: "applyCompaction r fe (emit (CompactionStart reason) s) = (q, s1) \<Longrightarrow> R s s1" for r fe q s1
    using trans [OF start] obeys_at [OF applyCompaction] by blast
  have finished: "R s s1 \<Longrightarrow> compaction_done reason willRetry r n s1 = (b, s2) \<Longrightarrow> R s s2" for s1 r n b s2
    using trans compaction_done by (metis snd_conv)
  show "R s (snd (runAutoCompaction sv env reason willRetry s))"
    by (auto simp: runAutoCompaction_def Let_def refl start failed
        dest: applied intro: failed finished split: option.split sum.split prod.split)
qed

lemma checkCompaction: "obeys R (checkCompaction sv env a skipAborted)"
proof (rule obeysI)
  fix s :: agent_session
  have auto: "R s s1 \<Longrightarrow> R s (snd (runAutoCompaction sv env reason willRetry s1))" for s1 reason willRetry
    using trans obeysD [OF runAutoCompaction] by blast
  show "R s (snd (checkCompaction sv env a skipAborted s))"
    by (auto simp: checkCompaction_def Let_def refl silent intro!: auto split: option.split sum.split)
qed

lemma handlePostAgentRun: "obeys R (handlePostAgentRun sv i)"
proof (rule obeysI)
  fix s :: agent_session
  have start: "R s (s\<lparr>as_lastAssistant := None\<rparr>)" by (rule silent) simp_all
  have retry: "prepareRetry a c (s\<lparr>as_lastAssistant := None\<rparr>) = (b, s2) \<Longrightarrow> R s s2" for a c b s2
    using trans [OF start prepareRetry [of _ a c]] by (metis snd_conv)
  have over: "R s s2 \<Longrightarrow> R s (retry_over a s2)" for a s2
    using trans [of s s2] silent [of "retry_over a s2" s2] by simp
  have check: "checkCompaction sv env a True (retry_over a s2) = (q, s3) \<Longrightarrow> R s s2 \<Longrightarrow> R s s3" for env a s2 q s3
    using trans [OF over] obeys_at [OF checkCompaction] by blast
  show "R s (snd (handlePostAgentRun sv i s))"
    by (auto simp: handlePostAgentRun_def Let_def refl start split: option.split prod.split sum.split
        dest: retry check [OF _ start] check [OF _ retry])
qed

end

interpretation growth: post_run_relation log_extends
  by unfold_locales (rule grow_append | auto simp: log_extends_def entries_of_session_def core_def)+

section \<open>Every operation only adds to the log\<close>

lemma grow_log [intro, simp]:
  "obeys log_extends (log_message m)" "obeys log_extends (log_custom c x d t)"
  by (simp_all add: log_message_append log_custom_append growth.andThen grow_append growth.ret)

lemma grow_date_now [intro, simp]: "obeys log_extends date_now"
  by (auto simp: obeys_def date_now_def now_def intro!: same_log)

lemma grow_change [intro]: "(\<And>s. core (h s) = core s) \<Longrightarrow> obeys log_extends (change h)"
  by (rule growth.change) (rule core_log)

lemma grow_add_bash [simp]: "obeys log_extends (add_bash b)"
  unfolding add_bash_def by (intro growth.andThen grow_change) auto

lemma grow_add_all_bash [simp]: "obeys log_extends (add_all_bash bs)"
  by (induction bs) (auto intro: growth.andThen growth.ret)

lemma grow_flush [simp]: "obeys log_extends flushPendingBashMessages"
proof (rule obeysI)
  fix s :: agent_session
  have "obeys log_extends (andThen (add_all_bash (as_pendingBash s)) (\<lambda>_. change (\<lambda>s. s\<lparr>as_pendingBash := []\<rparr>)))"
    by (intro growth.andThen growth.change) (simp_all add: same_log)
  from obeysD [OF this, of s] show "log_extends s (snd (flushPendingBashMessages s))"
    using growth.refl [of s] by (simp add: flushPendingBashMessages_def ret_def)
qed

lemma grow_recordBashResult [simp]: "obeys log_extends (recordBashResult command result excluded)"
  unfolding recordBashResult_def Let_def
  by (intro growth.andThen grow_date_now growth.choose grow_add_bash growth.change) (simp add: same_log)

lemma grow_queueSteer [simp]: "obeys log_extends (queueSteer text images)"
  unfolding queueSteer_def by (intro growth.andThen grow_date_now grow_change) simp_all

lemma grow_queueFollowUp [simp]: "obeys log_extends (queueFollowUp text images)"
  unfolding queueFollowUp_def by (intro growth.andThen grow_date_now grow_change) simp_all

lemma grow_clearQueue [simp]: "obeys log_extends clearQueue"
  by (rule obeysI) (simp add: clearQueue_def core_log)

lemma grow_sendCustomMessage [simp]:
  "obeys log_extends (sendCustomMessage customType content display details triggerTurn deliverAs)"
proof -
  have "obeys log_extends (andThen (change (push_message m)) (\<lambda>_.
      andThen (log_custom customType content display details) (\<lambda>_.
      andThen (change (\<lambda>s. emit (FromAgent (MessageEnd m None)) (emit (FromAgent (MessageStart m)) s)))
        (\<lambda>_. ret (None :: agent_message option)))))" for m
    by (intro growth.andThen grow_change grow_log growth.ret) simp_all
  note log = this [THEN obeysD]
  show ?thesis
    unfolding sendCustomMessage_def
    by (intro growth.andThen grow_date_now obeysI) (simp add: Let_def core_log log)
qed

lemma grow_persist_message [simp]: "obeys log_extends (persist_message m)"
  by (cases m) (simp_all add: growth.ret)

lemma grow_handleAgentEvent [simp]: "obeys log_extends (handleAgentEvent sv ev)"
  by (induction sv ev rule: handleAgentEvent.induct)
    (auto simp: Let_def intro!: growth.andThen grow_change)

lemma grow_perform [simp]: "obeys log_extends (perform sv i)"
  by (cases i) (auto intro!: growth.andThen grow_change growth.ret)

lemma grow_settle_run [simp]: "obeys log_extends settle_run"
  unfolding settle_run_def by (intro growth.andThen grow_flush grow_change) simp_all

lemma grow_runAgentPrompt: "runAgentPrompt sv answer continued ms s = Some (r, s') \<Longrightarrow> log_extends s s'"
  by (rule growth.prompt_run [OF grow_perform growth.handlePostAgentRun grow_settle_run]) (simp_all add: core_log)

lemma grow_timed_customs [simp]: "obeys log_extends (timed_customs cs)"
  by (induction cs rule: timed_customs.induct) (auto intro!: growth.andThen growth.ret)

lemma grow_prompt_messages [simp]: "obeys log_extends (prompt_messages sv p text images)"
proof -
  have tail: "obeys log_extends (andThen (timed_customs cs) (\<lambda>customs.
      andThen (change (set_prompt q)) (\<lambda>_. ret (m # asides @ customs))))" for cs q m asides
    by (intro growth.andThen grow_timed_customs grow_change growth.ret) simp_all
  have nested: "log_extends s1 (snd (andThen (timed_customs cs) (\<lambda>customs.
      andThen (change (set_prompt q)) (\<lambda>_. ret (m # asides @ customs))) (s1\<lparr>as_nextTurn := []\<rparr>)))" for cs q m asides s1
    using growth.trans [OF core_log obeysD [OF tail]] by simp
  have mid: "obeys log_extends (andThen f (\<lambda>_. andThen date_now (\<lambda>t s1.
      andThen (timed_customs (pi_injected p)) (\<lambda>customs.
      andThen (change (set_prompt (pi_systemPrompt p))) (\<lambda>_.
      ret (User (Some (Blocks (TextBlock text # images))) t # as_nextTurn s1 @ customs)))
        (s1\<lparr>as_nextTurn := []\<rparr>))))"
    if "obeys log_extends f" for f :: "bool act"
    by (intro growth.andThen that grow_date_now obeysI) (simp add: nested)
  show ?thesis
    unfolding prompt_messages_def
    by (intro growth.andThen grow_flush obeysI)
      (auto simp: growth.refl growth.ret growth.checkCompaction Let_def intro!: obeysD [OF mid] split: option.split)
qed

lemma grow_prompt [simp]: "obeys log_extends (prompt sv p)"
proof -
  have "obeys log_extends (andThen (prompt_messages sv p u imgs) (\<lambda>ms. ret (Some ms)))"
    "obeys log_extends (andThen (queueSteer u imgs) (\<lambda>_. ret (None :: agent_message list option)))"
    "obeys log_extends (andThen (queueFollowUp u imgs) (\<lambda>_. ret (None :: agent_message list option)))" for u imgs
    by (intro growth.andThen growth.ret; simp)+
  note this [THEN obeysD]
  then show ?thesis
    by (intro obeysI)
      (simp add: prompt_def growth.refl Let_def split: input_result.split option.split prod.split streaming_behavior.split)
qed

lemma grow_compactNow [simp]: "obeys log_extends (compactNow sv env customInstructions)"
proof (rule obeysI)
  fix s :: agent_session
  have start: "log_extends s (emit (CompactionStart ManualRequest) s)" by (simp add: core_log)
  have applied: "applyCompaction r fe (emit (CompactionStart ManualRequest) s) = (q, s1) \<Longrightarrow> log_extends s s1" for r fe q s1
    using growth.trans [OF start] obeys_at [OF growth.applyCompaction] by blast
  have ending: "log_extends s s1 \<Longrightarrow> log_extends s (emit ev s1)" for s1 ev
    using growth.trans core_log [of "emit ev s1" s1] by simp
  show "log_extends s (snd (compactNow sv env customInstructions s))"
    by (auto simp: compactNow_def Let_def start ending dest: applied intro!: ending
        split: option.split sum.split prod.split)
qed

subsection \<open>Models and navigation\<close>

lemma grow_on_settings [simp]: "obeys log_extends (on_settings f)"
  by (rule obeysI) (auto simp: on_settings_def growth.refl intro: same_log split: sum.split)

lemma grow_setThinkingLevel [simp]: "obeys log_extends (setThinkingLevel sv level)"
proof (rule obeysI)
  fix s :: agent_session
  have act: "obeys log_extends (andThen (on_store (appendThinkingLevelChange eff)) (\<lambda>_.
      andThen (if b then on_settings (setDefaultThinkingLevel eff) else ret ()) (\<lambda>_.
      change (emit (ThinkingLevelChanged eff)))))" for eff b
    unfolding appendThinkingLevelChange_def
    by (intro growth.andThen grow_append growth.cond growth.ret grow_on_settings grow_change) simp
  have "log_extends s (s\<lparr>as_thinkingLevel := l\<rparr>)" for l by (simp add: same_log)
  from growth.trans [OF this obeysD [OF act]]
  show "log_extends s (snd (setThinkingLevel sv level s))"
    by (simp add: setThinkingLevel_def Let_def growth.refl)
qed

lemma grow_cycleThinkingLevel [simp]: "obeys log_extends (cycleThinkingLevel sv)"
proof -
  have "obeys log_extends (andThen (setThinkingLevel sv l) (\<lambda>_. ret (Some l)))" for l
    by (intro growth.andThen growth.ret grow_setThinkingLevel)
  from this [THEN obeysD] show ?thesis
    by (intro obeysI) (simp add: cycleThinkingLevel_def Let_def growth.refl)
qed

lemma grow_switch_model [simp]: "obeys log_extends (switch_model sv m level)"
  unfolding switch_model_def appendModelChange_def
  by (intro growth.andThen growth.change grow_append grow_on_settings grow_setThinkingLevel) (simp add: same_log)

lemma grow_setModel [simp]: "obeys log_extends (setModel sv authenticated m)"
  using obeysD [OF grow_switch_model] by (intro obeysI) (simp add: setModel_def growth.refl)

lemma grow_cycleModel [simp]: "obeys log_extends (cycleModel sv available scoped d)"
proof -
  have "obeys log_extends (andThen (switch_model sv m l) (\<lambda>_ s1. (Inr (Some (m, as_thinkingLevel s1, b)), s1)))" for m l b
    by (intro growth.andThen grow_switch_model) (simp add: obeys_def growth.refl)
  note switched = this [THEN obeysD]
  have "obeys log_extends (cycleScopedModel sv available scoped d)" "obeys log_extends (cycleAvailableModel sv available d)"
    by (auto simp: cycleScopedModel_def cycleAvailableModel_def Let_def growth.refl switched
        intro!: obeysI split: prod.split)
  then show ?thesis by (simp add: cycleModel_def)
qed

lemma grow_store:
  assumes "\<And>s w r s' w'. f s w = (r, s', w') \<Longrightarrow> \<exists>es. getEntries s' = getEntries s @ es"
  shows "obeys log_extends (on_store f)"
  by (rule obeysI) (auto simp: on_store_def log_extends_def entries_of_session_def
      dest: assms split: prod.split sum.split)

lemma grow_branch [simp]: "obeys log_extends (on_store (branch i))"
  by (rule grow_store) (auto simp: branch_def getEntries_def split: if_splits)

lemma grow_branchWithSummary [simp]: "obeys log_extends (on_store (branchWithSummary i t d h u))"
proof (rule grow_store)
  fix s w r s' w'
  assume "branchWithSummary i t d h u s w = (r, s', w')"
  then have "s' = s \<or> (\<exists>b. append_body b (s\<lparr>sm_leafId := i\<rparr>) w = (r, s', w'))"
    by (auto simp: branchWithSummary_def split: option.splits if_splits)
  moreover have "getEntries (s\<lparr>sm_leafId := i\<rparr>) = getEntries s" by (simp add: getEntries_def)
  ultimately show "\<exists>es. getEntries s' = getEntries s @ es"
    by (auto dest!: append_body_entries)
qed

lemma grow_appendLabelChange [simp]: "obeys log_extends (on_store (appendLabelChange i l))"
proof (rule grow_store)
  fix s w r s' w'
  assume a: "appendLabelChange i l s w = (r, s', w')"
  obtain e w1 where n: "new_entry (ELabel i l) s w = (e, w1)" by (meson surj_pair)
  obtain q s2 w2 where p: "appendEntry e s w1 = (q, s2, w2)" by (metis prod_cases3)
  have "s2 = (push_entry e s)\<lparr>sm_flushed := sm_flushed s2\<rparr>"
    using persist_entry_frame p by (auto simp: appendEntry_def)
  then have "getEntries s2 = getEntries s @ [e]" by (metis getEntries_flushed getEntries_push)
  with a n p show "\<exists>es. getEntries s' = getEntries s @ es"
    by (auto simp: appendLabelChange_def Let_def getEntries_def split: if_splits sum.splits prod.splits)
qed

lemma grow_move_leaf [simp]: "obeys log_extends (move_leaf newLeafId summary label target)"
proof -
  have reset: "obeys log_extends (change (\<lambda>s. s\<lparr>as_manager := resetLeaf (as_manager s)\<rparr>))"
    by (intro growth.change) (simp add: log_extends_def entries_of_session_def resetLeaf_def getEntries_def)
  have labelled: "obeys log_extends (\<lambda>s. case label of None \<Rightarrow> (Inr (e s), s)
      | Some l \<Rightarrow> andThen (on_store (appendLabelChange i (Some l))) (\<lambda>_. ret (e s)) s)" for e :: "agent_session \<Rightarrow> entry option" and i
  proof (rule obeysI)
    fix s :: agent_session
    have "obeys log_extends (andThen (on_store (appendLabelChange i (Some l))) (\<lambda>_. ret (e s)))" for l
      by (intro growth.andThen grow_appendLabelChange growth.ret)
    from this [THEN obeysD] show "log_extends s (snd (case label of None \<Rightarrow> (Inr (e s), s)
      | Some l \<Rightarrow> andThen (on_store (appendLabelChange i (Some l))) (\<lambda>_. ret (e s)) s))"
      by (simp add: growth.refl split: option.split)
  qed
  have plain: "obeys log_extends (andThen (case newLeafId of
        None \<Rightarrow> change (\<lambda>s. s\<lparr>as_manager := resetLeaf (as_manager s)\<rparr>) | Some i \<Rightarrow> on_store (branch i)) (\<lambda>_.
      andThen (case label of None \<Rightarrow> ret ()
        | Some l \<Rightarrow> andThen (on_store (appendLabelChange target (Some l))) (\<lambda>_. ret ())) (\<lambda>_. ret (None :: entry option))))"
    by (cases newLeafId; cases label) (auto intro!: growth.andThen growth.ret reset)
  show ?thesis
    using plain labelled
    by (auto simp: move_leaf_def Let_def intro!: growth.andThen split: option.split)
qed

lemma grow_rebuild [simp]: "obeys log_extends rebuild_messages"
  by (rule obeysI) (simp add: rebuild_messages_def growth.refl core_log split: option.split)

lemma grow_navigateTree [simp]: "obeys log_extends (navigateTree sv call authenticated target options hook)"
proof -
  have "obeys log_extends (andThen (move_leaf l summary label target) (\<lambda>e. andThen rebuild_messages (\<lambda>_. ret (k e))))"
    for l summary label and k :: "entry option \<Rightarrow> tree_result"
    by (intro growth.andThen growth.ret) simp_all
  from this [THEN obeysD] show ?thesis
    by (intro obeysI) (simp add: navigateTree_def growth.refl Let_def split: option.split prod.split sum.split)
qed

lemma grow_setSessionName [simp]: "obeys log_extends (setSessionName name)"
  unfolding setSessionName_def appendSessionInfo_def
  by (intro growth.andThen grow_append grow_change) simp

lemma grow_steer [simp]: "obeys log_extends (steer getCommand expand t images)"
  "obeys log_extends (followUp getCommand expand t images)"
  unfolding steer_def followUp_def throwIfExtensionCommand_def
  by (intro growth.andThen growth.cond growth.ret growth.throw; simp)+

lemma session_step_grows: "session_step sv s s' \<Longrightarrow> log_extends s s'"
proof (induction rule: session_step.induct)
  case (exported s ls s')
  then show ?case by (auto simp: exportToJsonl_def Let_def split: option.splits prod.splits intro: same_log)
qed (blast dest: grow_runAgentPrompt obeys_at [OF grow_prompt] obeys_at [OF grow_perform]
    obeys_at [OF grow_steer(1)] obeys_at [OF grow_steer(2)] obeys_at [OF grow_sendCustomMessage]
    obeys_at [OF grow_compactNow] obeys_at [OF grow_setModel] obeys_at [OF grow_cycleModel]
    obeys_at [OF grow_setThinkingLevel] obeys_at [OF grow_cycleThinkingLevel]
    obeys_at [OF grow_navigateTree] obeys_at [OF grow_setSessionName])+

end
