(* ===== verification/Agent_Trace.thy ===== *)
theory Agent_Trace
  imports Agent_Lemmas
begin

text \<open>
  What a run leaves in the log, message by message: each step that finishes a message logs it once,
  a shell result is held back until the run is over, and what follows a run adds only compactions.
\<close>

section \<open>Sequences that return\<close>

lemma andThen_Inr:
  "andThen f g s = (Inr x, s') \<longleftrightarrow> (\<exists>y s1. f s = (Inr y, s1) \<and> g y s1 = (Inr x, s'))"
  by (auto simp: andThen_def split: prod.split sum.split)

lemma ret_Inr [simp]: "ret x s = (Inr y, s') \<longleftrightarrow> y = x \<and> s' = s"
  by (auto simp: ret_def)

lemma change_Inr [simp]: "change h s = (Inr u, s') \<longleftrightarrow> s' = h s"
  by (auto simp: change_def)

lemma throw_Inr [simp]: "throw e s \<noteq> (Inr x, s')"
  by (simp add: throw_def)

lemma date_now_Inr: "date_now s = (Inr t, s') \<Longrightarrow> s' = s\<lparr>as_world := as_world s'\<rparr> \<and> w_files (as_world s') = w_files (as_world s)"
  by (auto simp: date_now_def now_def)

section \<open>What a step logs\<close>

fun message_bodies :: "agent_message \<Rightarrow> entry_body list" where
  "message_bodies (Custom k) =
     [ECustomMessage \<lparr>ke_customType = cm_customType k, ke_content = cm_content k, ke_details = cm_details k,
                      ke_display = cm_display k\<rparr>]"
| "message_bodies (User c t) = [EMessage (User c t)]"
| "message_bodies (Assistant a) = [EMessage (Assistant a)]"
| "message_bodies (ToolResult i c t) = [EMessage (ToolResult i c t)]"
| "message_bodies m = []"

fun logged_bodies :: "run_step \<Rightarrow> entry_body list" where
  "logged_bodies (AgentDoes (MessageEnd m replacement)) = message_bodies (final_message m replacement)"
| "logged_bodies i = []"

definition untimed :: "bash_execution \<Rightarrow> bash_execution" where
  "untimed b = b\<lparr>bx_timestamp := 0\<rparr>"

fun shell_results :: "run_step \<Rightarrow> bash_execution list" where
  "shell_results (BashEnds command result excluded) = [bash_message command result excluded 0]"
| "shell_results i = []"

lemma core_bodies: "core s' = core s \<Longrightarrow> bodies s' = bodies s \<and> as_pendingBash s' = as_pendingBash s"
  by (simp add: core_def bodies_def entries_of_session_def)

lemma log_message_ok:
  assumes "log_message m s = (Inr u, s')"
  shows "bodies s' = bodies s @ [EMessage m]"
    and "s' = s\<lparr>as_manager := as_manager s', as_world := as_world s'\<rparr>"
  using assms on_store_bodies on_store_append(2) [OF HOL.refl]
  by (auto simp: log_message_append andThen_Inr)

lemma log_custom_ok:
  assumes "log_custom t c d e s = (Inr u, s')"
  shows "bodies s' = bodies s @ [ECustomMessage \<lparr>ke_customType = t, ke_content = c, ke_details = e, ke_display = d\<rparr>]"
    and "s' = s\<lparr>as_manager := as_manager s', as_world := as_world s'\<rparr>"
  using assms on_store_bodies on_store_append(2) [OF HOL.refl]
  by (auto simp: log_custom_append andThen_Inr)

lemma persist_message_ok:
  assumes "persist_message m s = (Inr u, s')"
  shows "bodies s' = bodies s @ message_bodies m"
    and "s' = s\<lparr>as_manager := as_manager s', as_world := as_world s'\<rparr>"
  using assms by (cases m; auto dest: log_message_ok log_custom_ok)+

lemma store_frame:
  assumes "s' = s\<lparr>as_manager := as_manager s', as_world := as_world s'\<rparr>"
  shows "as_pendingBash s' = as_pendingBash s" and "config s' = config s" and "as_messages s' = as_messages s"
    and "as_lastAssistant s' = as_lastAssistant s" and "as_retryAttempt s' = as_retryAttempt s"
    and "as_overflowTried s' = as_overflowTried s" and "as_agentSteering s' = as_agentSteering s"
    and "as_agentFollowUp s' = as_agentFollowUp s"
proof -
  obtain m w where "s' = s\<lparr>as_manager := m, as_world := w\<rparr>" using assms by blast
  then show "as_pendingBash s' = as_pendingBash s" and "config s' = config s" and "as_messages s' = as_messages s"
    and "as_lastAssistant s' = as_lastAssistant s" and "as_retryAttempt s' = as_retryAttempt s"
    and "as_overflowTried s' = as_overflowTried s" and "as_agentSteering s' = as_agentSteering s"
    and "as_agentFollowUp s' = as_agentFollowUp s" by (simp_all add: config_def)
qed

definition logs :: "agent_session \<Rightarrow> agent_session \<Rightarrow> entry_body list \<Rightarrow> bash_execution list \<Rightarrow> bool" where
  "logs s s' bs held \<longleftrightarrow>
     bodies s' = bodies s @ bs \<and> config s' = config s \<and>
     (\<exists>ps. as_pendingBash s' = as_pendingBash s @ ps \<and> map untimed ps = held)"

lemma logs_silent: "core s' = core s \<Longrightarrow> config s' = config s \<Longrightarrow> logs s s' [] []"
  using core_bodies [of s' s] by (simp add: logs_def)

lemma logs_active: "logs s s' bs held \<Longrightarrow> as_runActive s' = as_runActive s"
  by (simp add: logs_def config_def)

lemma logs_trans: "logs s s1 b1 h1 \<Longrightarrow> logs s1 s2 b2 h2 \<Longrightarrow> logs s s2 (b1 @ b2) (h1 @ h2)"
  by (auto simp: logs_def)

lemma date_now_logs: "date_now s = (Inr t, s') \<Longrightarrow> logs s s' [] []"
  by (auto simp: logs_def date_now_def now_def bodies_def entries_of_session_def config_def)

lemma handleAgentEvent_logs:
  assumes "handleAgentEvent sv ev s = (Inr u, s')"
  shows "logs s s' (logged_bodies (AgentDoes ev)) []"
proof (cases ev)
  case (MessageStart m)
  with assms show ?thesis by (cases m) (auto intro!: logs_silent)
next
  case (MessageEnd m replacement)
  let ?m = "final_message m replacement"
  from assms MessageEnd obtain s1 s2 where
    s1: "s1 = emit (FromAgent (MessageEnd ?m None)) (if replacement = None then s else replace_last ?m s)"
    and p: "persist_message ?m s1 = (Inr (), s2)" and s': "s' = track_assistant ?m s2"
    by (auto simp: Let_def andThen_Inr)
  have "logs s s1 [] []" using s1 by (intro logs_silent) simp_all
  moreover have "logs s1 s2 (message_bodies ?m) []"
    using persist_message_ok(1) [OF p] store_frame [OF persist_message_ok(2) [OF p]] by (simp add: logs_def)
  moreover have "logs s2 s' [] []" unfolding s' by (rule logs_silent) simp_all
  ultimately have "logs s s' ([] @ message_bodies ?m @ []) ([] @ [] @ [])"
    by (blast intro: logs_trans)
  with MessageEnd show ?thesis by simp
qed (use assms in \<open>auto intro!: logs_silent\<close>)

lemma recordBashResult_logs:
  assumes "recordBashResult command result excluded s = (Inr u, s')" and "as_runActive s"
  shows "logs s s' [] [bash_message command result excluded 0]"
proof -
  obtain t w where d: "date_now s = (Inr t, s\<lparr>as_world := w\<rparr>)" by (simp add: date_now_def now_def)
  with assms have "s' = s\<lparr>as_world := w, as_pendingBash := as_pendingBash s @ [bash_message command result excluded t]\<rparr>"
    by (simp add: recordBashResult_def andThen_def Let_def)
  then show ?thesis
    by (simp add: logs_def bodies_def entries_of_session_def untimed_def bash_message_def config_def)
qed

lemma queue_logs:
  "queueSteer t images s = (Inr u, s') \<Longrightarrow> logs s s' [] []"
  "queueFollowUp t images s = (Inr u, s') \<Longrightarrow> logs s s' [] []"
  by (auto simp: queueSteer_def queueFollowUp_def andThen_Inr date_now_def now_def logs_def bodies_def
      entries_of_session_def config_def emitQueueUpdate_def emit_def)

lemma sendCustomMessage_logs:
  assumes "sendCustomMessage t c d e False deliverAs s = (Inr x, s')" and "as_runActive s"
  shows "logs s s' [] []"
  using assms
  by (auto simp: sendCustomMessage_def andThen_Inr date_now_def now_def Let_def logs_def bodies_def
      entries_of_session_def config_def split: if_splits)

lemma perform_logs:
  assumes "perform sv i s = (Inr u, s')" and "as_runActive s"
  shows "logs s s' (logged_bodies i) (shell_results i)"
proof (cases i)
  case (AgentDoes ev)
  have 1: "logs s (agent_stores ev s) [] []" by (rule logs_silent) simp_all
  from assms AgentDoes have "handleAgentEvent sv ev (agent_stores ev s) = (Inr u, s')"
    by (simp add: andThen_Inr)
  from logs_trans [OF 1 handleAgentEvent_logs [OF this]] AgentDoes show ?thesis by simp
next
  case (AgentTakes m n)
  with assms show ?thesis by (auto intro!: logs_silent)
next
  case (UserSteers t images)
  with assms show ?thesis by (simp add: queue_logs)
next
  case (UserFollowsUp t images)
  with assms show ?thesis by (simp add: queue_logs)
next
  case (BashEnds command result excluded)
  with assms show ?thesis by (simp add: recordBashResult_logs)
next
  case (ExtensionSends t c d e deliverAs)
  with assms show ?thesis using sendCustomMessage_logs by (auto simp: andThen_Inr)
next
  case QueueCleared
  with assms show ?thesis by (auto simp: andThen_Inr clearQueue_def intro!: logs_silent)
qed

lemma perform_all_logs:
  "perform_all sv is s = (Inr u, s') \<Longrightarrow> as_runActive s \<Longrightarrow>
     logs s s' (concat (map logged_bodies is)) (concat (map shell_results is))"
proof (induction "is" arbitrary: s)
  case Nil
  then show ?case by (simp add: logs_silent)
next
  case (Cons i "is")
  from Cons.prems(1) obtain s1 where s1: "perform sv i s = (Inr (), s1)" "perform_all sv is s1 = (Inr u, s')"
    by (auto simp: andThen_Inr)
  have 1: "logs s s1 (logged_bodies i) (shell_results i)" by (rule perform_logs [OF s1(1) Cons.prems(2)])
  then have "as_runActive s1" using Cons.prems(2) logs_active by blast
  from logs_trans [OF 1 Cons.IH [OF s1(2) this]] show ?case by simp
qed

section \<open>What follows a run\<close>

definition adds_compactions :: "agent_session \<Rightarrow> agent_session \<Rightarrow> bool" where
  "adds_compactions s s' \<longleftrightarrow> (\<exists>cs. logs s s' cs [] \<and> list_all is_compaction cs)"

lemma adds_compactions_trans:
  assumes "adds_compactions a b" and "adds_compactions b c"
  shows "adds_compactions a c"
proof -
  from assms obtain u v where "logs a b u []" "list_all is_compaction u" "logs b c v []" "list_all is_compaction v"
    by (auto simp: adds_compactions_def)
  with logs_trans [of a b u "[]" c v "[]"] have "logs a c (u @ v) []" "list_all is_compaction (u @ v)" by simp_all
  then show ?thesis unfolding adds_compactions_def by blast
qed

lemma adds_compaction:
  assumes "on_store (append_body (ECompaction c)) s = (r, s')"
  shows "adds_compactions s s'"
proof -
  have "logs s s' [ECompaction c] []"
    using on_store_bodies [OF assms] store_frame [OF on_store_append(2) [OF HOL.refl assms]]
    by (simp add: logs_def)
  then show ?thesis unfolding adds_compactions_def by (intro exI [of _ "[ECompaction c]"]) simp
qed

lemma logs_refl: "logs s s [] []"
  by (rule logs_silent) simp_all

lemma adds_nothing: "logs s s' [] [] \<Longrightarrow> adds_compactions s s'"
  unfolding adds_compactions_def by (intro exI [of _ "[]"]) simp

interpretation after_run: post_run_relation adds_compactions
proof unfold_locales
  show "adds_compactions s s" for s by (rule adds_nothing [OF logs_refl])
  show "adds_compactions a b \<Longrightarrow> adds_compactions b c \<Longrightarrow> adds_compactions a c" for a b c
    by (rule adds_compactions_trans)
  show "core s' = core s \<Longrightarrow> config s' = config s \<Longrightarrow> adds_compactions s s'" for s s'
    by (rule adds_nothing [OF logs_silent])
  show "obeys adds_compactions (on_store (append_body (ECompaction c)))" for c
    unfolding obeys_def using adds_compaction by blast
qed

definition without_compactions :: "entry_body list \<Rightarrow> entry_body list" where
  "without_compactions bs = filter (\<lambda>b. \<not> is_compaction b) bs"

lemma without_compactions_append [simp]:
  "without_compactions (xs @ ys) = without_compactions xs @ without_compactions ys"
  by (simp add: without_compactions_def)

lemma without_compactions_none: "list_all is_compaction cs \<Longrightarrow> without_compactions cs = []"
  by (simp add: without_compactions_def list_all_iff filter_empty_conv)

lemma message_bodies_kept [simp]: "without_compactions (message_bodies m) = message_bodies m"
  by (cases m) (simp_all add: without_compactions_def)

lemma logged_bodies_kept [simp]:
  "without_compactions (concat (map logged_bodies is)) = concat (map logged_bodies is)"
proof (induction "is")
  case (Cons i "is")
  have "without_compactions (logged_bodies i) = logged_bodies i"
    by (cases i rule: logged_bodies.cases) (simp_all, simp_all add: without_compactions_def)
  with Cons show ?case by simp
qed (simp add: without_compactions_def)

text \<open>The steps of the first \<open>n + 1\<close> runs of the agent.\<close>

definition steps_of :: "nat \<Rightarrow> run_input list \<Rightarrow> run_step list" where
  "steps_of n is = concat (map ri_steps (take (Suc n) is))"

lemma run_loop_logs:
  "run_loop sv is s = Some (Inr u, s') \<Longrightarrow> as_runActive s \<Longrightarrow>
     \<exists>n bs. n < length is \<and> logs s s' bs (concat (map shell_results (steps_of n is))) \<and>
       without_compactions bs = concat (map logged_bodies (steps_of n is))"
proof (induction "is" arbitrary: s)
  case Nil
  then show ?case by simp
next
  case (Cons i "is")
  obtain q s1 where p: "perform_all sv (ri_steps i) s = (q, s1)" by (meson surj_pair)
  with Cons.prems(1) obtain v where q: "q = Inr v" by (cases q) auto
  obtain q2 s2 where h: "handlePostAgentRun sv i s1 = (q2, s2)" by (meson surj_pair)
  with Cons.prems(1) p q obtain again where q2: "q2 = Inr again" by (cases q2) auto
  have 1: "logs s s1 (concat (map logged_bodies (ri_steps i))) (concat (map shell_results (ri_steps i)))"
    using perform_all_logs p q Cons.prems(2) by blast
  obtain cs where cs: "logs s1 s2 cs []" "list_all is_compaction cs"
    using obeys_at [OF after_run.handlePostAgentRun h] by (auto simp: adds_compactions_def)
  note 2 = logs_trans [OF 1 cs(1)]
  show ?case
  proof (cases again)
    case False
    with Cons.prems(1) p q h q2 have "s' = s2" by simp
    with 2 cs(2) show ?thesis
      by (intro exI [of _ 0] exI [of _ "concat (map logged_bodies (ri_steps i)) @ cs"])
        (simp add: steps_of_def without_compactions_none)
  next
    case True
    with Cons.prems(1) p q h q2 have r: "run_loop sv is s2 = Some (Inr u, s')" by (simp split: if_split_asm)
    have "as_runActive s2" using logs_active [OF 2] Cons.prems(2) by simp
    from Cons.IH [OF r this] obtain n bs where
      n: "n < length is" "logs s2 s' bs (concat (map shell_results (steps_of n is)))"
        "without_compactions bs = concat (map logged_bodies (steps_of n is))" by blast
    from logs_trans [OF 2 n(2)] n cs(2) show ?thesis
      by (intro exI [of _ "Suc n"] exI [of _ "(concat (map logged_bodies (ri_steps i)) @ cs) @ bs"])
        (simp add: steps_of_def without_compactions_none)
  qed
qed

section \<open>Settling\<close>

lemma add_bash_ok:
  assumes "add_bash b s = (Inr u, s')"
  shows "bodies s' = bodies s @ [EMessage (BashExecution b)]" and "config s' = config s"
    and "as_messages s' = as_messages s @ [BashExecution b]"
proof -
  from assms have l: "log_message (BashExecution b) (push_message (BashExecution b) s) = (Inr u, s')"
    by (simp add: add_bash_def andThen_Inr)
  show "bodies s' = bodies s @ [EMessage (BashExecution b)]"
    using log_message_ok(1) [OF l] core_bodies [OF push_message_silent(1)] by metis
  show "config s' = config s" and "as_messages s' = as_messages s @ [BashExecution b]"
    using store_frame(2,3) [OF log_message_ok(2) [OF l]] push_message_silent(2) by (simp_all add: push_message_def)
qed

lemma add_all_bash_ok:
  "add_all_bash bs s = (Inr u, s') \<Longrightarrow>
     bodies s' = bodies s @ map (\<lambda>b. EMessage (BashExecution b)) bs \<and> config s' = config s"
proof (induction bs arbitrary: s)
  case (Cons b bs)
  from Cons.prems obtain s1 where s1: "add_bash b s = (Inr (), s1)" "add_all_bash bs s1 = (Inr u, s')"
    by (auto simp: andThen_Inr)
  from Cons.IH [OF s1(2)] add_bash_ok [OF s1(1)] show ?case by simp
qed simp

lemma flush_ok:
  assumes "flushPendingBashMessages s = (Inr u, s')"
  shows "bodies s' = bodies s @ map (\<lambda>b. EMessage (BashExecution b)) (as_pendingBash s)"
    and "config s' = config s" and "as_pendingBash s' = []"
proof -
  have "(as_pendingBash s = [] \<and> s' = s) \<or> (\<exists>s1. add_all_bash (as_pendingBash s) s = (Inr (), s1) \<and> s' = s1\<lparr>as_pendingBash := []\<rparr>)"
    using assms by (simp add: flushPendingBashMessages_def andThen_Inr split: if_split_asm)
  then show "bodies s' = bodies s @ map (\<lambda>b. EMessage (BashExecution b)) (as_pendingBash s)"
    and "config s' = config s" and "as_pendingBash s' = []"
    using add_all_bash_ok by (fastforce simp: bodies_def entries_of_session_def)+
qed

lemma settle_run_ok:
  assumes "settle_run s = (Inr u, s')"
  shows "bodies s' = bodies s @ map (\<lambda>b. EMessage (BashExecution b)) (as_pendingBash s)"
    and "as_pendingBash s' = []" and "\<not> as_runActive s'" and "last (as_events s') = AgentSettled"
proof -
  from assms obtain s1 where f: "flushPendingBashMessages (s\<lparr>as_promptOverride := None\<rparr>) = (Inr (), s1)"
    and s': "s' = emit AgentSettled (s1\<lparr>as_runActive := False\<rparr>)"
    by (auto simp: settle_run_def andThen_Inr)
  from flush_ok [OF f] s' show "bodies s' = bodies s @ map (\<lambda>b. EMessage (BashExecution b)) (as_pendingBash s)"
    and "as_pendingBash s' = []" and "\<not> as_runActive s'" and "last (as_events s') = AgentSettled"
    by (simp_all add: bodies_def entries_of_session_def emit_def)
qed

end
