(* ===== verification/Agent_Mirror.thy ===== *)
theory Agent_Mirror
  imports Agent_Trace
begin

text \<open>
  The messages the agent holds against the context that the log yields: they agree but for replies
  that failed, which a retry takes out of the agent's messages and leaves in the log.
\<close>

section \<open>Agreement\<close>

text \<open>
  The time of a custom message is the one of its entry once it is read back, and content that is
  missing is filled in.
\<close>

fun canonical :: "agent_message \<Rightarrow> agent_message" where
  "canonical (Custom k) = Custom (k\<lparr>cm_content := Some (filled_content (cm_content k)), cm_timestamp := 0\<rparr>)"
| "canonical m = fill_content m"

definition sound_part :: "agent_message list \<Rightarrow> agent_message list" where
  "sound_part ms = filter (\<lambda>m. \<not> failed_reply m) (map canonical ms)"

definition log_context :: "agent_session \<Rightarrow> agent_message list option" where
  "log_context s = map_option sc_messages (sm_buildSessionContext (as_manager s))"

definition mirrors :: "agent_session \<Rightarrow> bool" where
  "mirrors s \<longleftrightarrow> (\<exists>ms. log_context s = Some ms \<and> sound_part (as_messages s) = sound_part ms)"

definition store_ok :: "agent_session \<Rightarrow> bool" where
  "store_ok s \<longleftrightarrow> sm_inv (as_manager s) (as_world s)"

definition tracked :: "agent_session \<Rightarrow> bool" where
  "tracked s \<longleftrightarrow>
     (\<forall>a b. as_lastAssistant s = Some a \<longrightarrow> as_messages s \<noteq> [] \<longrightarrow> last (as_messages s) = Assistant b \<longrightarrow> a = b)"

definition consistent :: "agent_session \<Rightarrow> bool" where
  "consistent s \<longleftrightarrow> store_ok s \<and> mirrors s"

lemma failed_canonical [simp]: "failed_reply (canonical m) = failed_reply m"
  by (cases m rule: fill_content.cases) auto

lemma sound_part_append [simp]: "sound_part (xs @ ys) = sound_part xs @ sound_part ys"
  by (simp add: sound_part_def)

lemma sound_part_failed: "failed_reply m \<Longrightarrow> sound_part (ms @ [m]) = sound_part ms"
  by (simp add: sound_part_def)

lemma sound_part_butlast: "ms \<noteq> [] \<Longrightarrow> failed_reply (last ms) \<Longrightarrow> sound_part (butlast ms) = sound_part ms"
  using sound_part_failed [of "last ms" "butlast ms"] by simp

lemma canonical_fill [simp]: "canonical (fill_content m) = canonical m"
  by (cases m rule: fill_content.cases) auto

section \<open>The store\<close>

lemma sm_inv_world:
  "w_uuid w' = w_uuid w \<Longrightarrow> w_uuid_pos w' = w_uuid_pos w \<Longrightarrow> w_files w' = w_files w \<Longrightarrow> sm_inv m w' = sm_inv m w"
  by (simp add: sm_inv_def ids_known_def uuid_source_def id_origin_def file_synced_def)

lemma append_body_ok:
  assumes "sm_inv m w" and "\<not> has_assistant_body b"
  shows "\<exists>i m' w'. append_body b m w = (Inr i, m', w')"
proof -
  obtain e w1 where n: "new_entry b m w = (e, w1)" by (meson surj_pair)
  have e: "body e = b" using n by (auto simp: new_entry_def split: prod.splits)
  have "\<exists>s' w'. appendEntry e m w1 = (Inr (), s', w')"
  proof (cases "sm_sessionFile m")
    case None
    then show ?thesis by (simp add: appendEntry_def persist_entry_def push_entry_def)
  next
    case (Some p)
    have "hasAssistant (sm_fileEntries (push_entry e m)) \<longleftrightarrow> hasAssistant (sm_fileEntries m)"
      using assms(2) e by (simp add: push_entry_def hasAssistant_def)
    then have "hasAssistant (sm_fileEntries (push_entry e m)) \<Longrightarrow> sm_persist m \<Longrightarrow> sm_flushed m"
      using assms(1) Some by (auto simp: sm_inv_def file_synced_def split: if_splits)
    with Some show ?thesis by (auto simp: appendEntry_def persist_entry_def push_entry_def)
  qed
  then show ?thesis by (auto simp: append_body_def n)
qed

text \<open>An entry that is neither a label nor a compaction adds its messages to the context.\<close>

lemma context_after_append:
  assumes "sm_inv m w" and "append_body b m w = (Inr i, m', w')" and "\<not> is_label b" and "\<not> is_compaction b"
  shows "\<exists>c c' e. sm_buildSessionContext m = Some c \<and> sm_buildSessionContext m' = Some c' \<and> body e = b \<and>
           sc_messages c' = sc_messages c @ sessionEntryToContextMessages e"
proof -
  have inv': "sm_inv m' w'" by (rule append_body_inv [OF assms(1-3)])
  obtain p where p: "conversation m = Some p" using conversation_exists assms(1) by (auto simp: sm_inv_def)
  from assms p append_body_conversation [of m w b "Inr i" m' w' p] obtain e where
    e: "body e = b" "conversation m' = Some (p @ [e])" by (auto simp: sm_inv_def)
  have "distinct (map eid (p @ [e]))"
    using conversation_props(2) [OF _ e(2)] inv' by (simp add: sm_inv_def)
  then have "context_of_path (p @ [e]) = context_of_path p @ [e]" using e(1) assms(4) by (simp add: context_of_path_append)
  with assms(1) inv' p e show ?thesis
    by (intro exI [of _ "the (sm_buildSessionContext m)"] exI [of _ "the (sm_buildSessionContext m')"] exI [of _ e])
      (simp add: sm_buildSessionContext_eq sm_inv_def)
qed

lemma store_append:
  assumes "store_ok s" and "on_store (append_body b) s = (Inr i, s')" and "\<not> is_label b" and "\<not> is_compaction b"
  shows "store_ok s'"
    and "\<exists>ms e. log_context s = Some ms \<and> body e = b \<and> log_context s' = Some (ms @ sessionEntryToContextMessages e)"
proof -
  have a: "append_body b (as_manager s) (as_world s) = (Inr i, as_manager s', as_world s')"
    using assms(2) by (auto simp: on_store_def split: prod.splits sum.splits)
  show "store_ok s'" using append_body_inv [OF _ a assms(3)] assms(1) by (simp add: store_ok_def)
  show "\<exists>ms e. log_context s = Some ms \<and> body e = b \<and> log_context s' = Some (ms @ sessionEntryToContextMessages e)"
    using context_after_append [OF _ a assms(3,4)] assms(1) by (fastforce simp: store_ok_def log_context_def)
qed

text \<open>A message that is logged and pushed keeps the agreement.\<close>

definition live :: "agent_message \<Rightarrow> bool" where
  "live m \<longleftrightarrow> message_bodies m \<noteq> []"

lemma body_mirrors:
  assumes "body e = b" and "b = EMessage m \<or> (\<exists>k. m = Custom k \<and> b = ECustomMessage
      \<lparr>ke_customType = cm_customType k, ke_content = cm_content k, ke_details = cm_details k, ke_display = cm_display k\<rparr>)"
  shows "map canonical (sessionEntryToContextMessages e) = [canonical m]"
  using assms
  by (auto simp: sessionEntryToContextMessages_def createCustomMessage_def split: option.split)

lemma logged_message:
  assumes "store_ok s" and "on_store (append_body b) s = (Inr i, s')" and "sound_part xs = sound_part (the (log_context s))"
    and "b = EMessage m \<or> (\<exists>k. m = Custom k \<and> b = ECustomMessage
      \<lparr>ke_customType = cm_customType k, ke_content = cm_content k, ke_details = cm_details k, ke_display = cm_display k\<rparr>)"
  shows "store_ok s'" and "\<exists>ms. log_context s' = Some ms \<and> sound_part (xs @ [m]) = sound_part ms"
proof -
  have nb: "\<not> is_label b" "\<not> is_compaction b" using assms(4) by auto
  show "store_ok s'" by (rule store_append(1) [OF assms(1,2) nb])
  from store_append(2) [OF assms(1,2) nb] obtain ms e where
    e: "log_context s = Some ms" "body e = b" "log_context s' = Some (ms @ sessionEntryToContextMessages e)" by blast
  have "sound_part (sessionEntryToContextMessages e) = sound_part [m]"
    using body_mirrors [OF e(2) assms(4)] by (simp add: sound_part_def)
  with e assms(3) show "\<exists>ms. log_context s' = Some ms \<and> sound_part (xs @ [m]) = sound_part ms" by simp
qed

section \<open>During a run\<close>

definition agrees :: "agent_message list \<Rightarrow> agent_session \<Rightarrow> bool" where
  "agrees xs s \<longleftrightarrow> (\<exists>ms. log_context s = Some ms \<and> sound_part xs = sound_part ms)"

lemma mirrors_agrees: "mirrors s = agrees (as_messages s) s"
  by (simp add: mirrors_def agrees_def)

lemma agrees_manager: "as_manager s' = as_manager s \<Longrightarrow> agrees xs s' = agrees xs s"
  by (simp add: agrees_def log_context_def)

definition same_view :: "agent_session \<Rightarrow> agent_session \<Rightarrow> bool" where
  "same_view s s' \<longleftrightarrow> as_messages s' = as_messages s \<and> as_lastAssistant s' = as_lastAssistant s \<and>
     as_manager s' = as_manager s \<and> w_uuid (as_world s') = w_uuid (as_world s) \<and>
     w_uuid_pos (as_world s') = w_uuid_pos (as_world s) \<and> w_files (as_world s') = w_files (as_world s)"

lemma same_view_store: "same_view s s' \<Longrightarrow> store_ok s' = store_ok s"
  unfolding same_view_def store_ok_def by (metis sm_inv_world)

lemma same_view_mirrors: "same_view s s' \<Longrightarrow> mirrors s' = mirrors s"
  by (simp add: same_view_def mirrors_def log_context_def)

lemma same_view_tracked: "same_view s s' \<Longrightarrow> tracked s' = tracked s"
  by (simp add: same_view_def tracked_def)

definition in_step :: "agent_session \<Rightarrow> bool" where
  "in_step s \<longleftrightarrow> consistent s \<and> tracked s"

lemma in_step_view: "in_step s \<Longrightarrow> same_view s s' \<Longrightarrow> in_step s'"
  by (simp add: in_step_def consistent_def same_view_store same_view_mirrors same_view_tracked)

lemma persist_mirrors:
  assumes "store_ok s" and "agrees xs s" and "persist_message m s = (Inr u, s')" and "live m"
  shows "store_ok s'" and "agrees (xs @ [m]) s'"
proof -
  have "\<exists>b i. on_store (append_body b) s = (Inr i, s') \<and> (b = EMessage m \<or> (\<exists>k. m = Custom k \<and> b = ECustomMessage
      \<lparr>ke_customType = cm_customType k, ke_content = cm_content k, ke_details = cm_details k, ke_display = cm_display k\<rparr>))"
    using assms(3,4) by (cases m) (auto simp: log_message_append log_custom_append andThen_Inr live_def)
  then obtain b i where b: "on_store (append_body b) s = (Inr i, s')"
    "b = EMessage m \<or> (\<exists>k. m = Custom k \<and> b = ECustomMessage
      \<lparr>ke_customType = cm_customType k, ke_content = cm_content k, ke_details = cm_details k, ke_display = cm_display k\<rparr>)"
    by blast
  have "sound_part xs = sound_part (the (log_context s))" using assms(2) by (auto simp: agrees_def)
  from logged_message [OF assms(1) b(1) this b(2)]
  show "store_ok s'" and "agrees (xs @ [m]) s'" by (simp_all add: agrees_def)
qed

lemma track_assistant_view [simp]:
  "as_messages (track_assistant m s) = as_messages s" "as_manager (track_assistant m s) = as_manager s"
  "as_world (track_assistant m s) = as_world s"
  "as_lastAssistant (track_assistant m s) =
     (case assistant_of m of Some a \<Rightarrow> Some a | None \<Rightarrow> as_lastAssistant s)"
  by (cases m; simp add: Let_def emit_def)+

lemma user_started_view: "same_view s (emit ev (user_started sv c s))"
  by (simp add: same_view_def user_started_def Let_def emit_def emitQueueUpdate_def)

lemma queue_view:
  "queueSteer t images s = (Inr u, s') \<Longrightarrow> same_view s s'"
  "queueFollowUp t images s = (Inr u, s') \<Longrightarrow> same_view s s'"
  by (auto simp: queueSteer_def queueFollowUp_def andThen_def date_now_def now_def same_view_def
      change_def emitQueueUpdate_def emit_def)

text \<open>The events that concern the agreement are the finished messages of a live role.\<close>

fun live_step :: "run_step \<Rightarrow> bool" where
  "live_step (AgentDoes (MessageEnd m replacement)) \<longleftrightarrow> live (final_message m replacement)"
| "live_step i \<longleftrightarrow> True"

lemma message_end_in_step:
  assumes "in_step s" and "perform sv (AgentDoes (MessageEnd m replacement)) s = (Inr u, s')"
    and "live (final_message m replacement)"
  shows "in_step s'"
proof -
  let ?m = "final_message m replacement" and ?s0 = "push_message m s"
  let ?s1 = "emit (FromAgent (MessageEnd ?m None)) (if replacement = None then ?s0 else replace_last ?m ?s0)"
  from assms(2) obtain s2 where p: "persist_message ?m ?s1 = (Inr (), s2)" and s': "s' = track_assistant ?m s2"
    by (auto simp: andThen_Inr Let_def)
  have ms: "as_messages ?s1 = as_messages s @ [?m]"
    by (simp add: emit_def push_message_def replace_last_def final_message_def split: option.split)
  have view: "as_manager ?s1 = as_manager s" "as_world ?s1 = as_world s"
    by (simp_all add: emit_def push_message_def replace_last_def)
  have "store_ok ?s1" and "agrees (as_messages s) ?s1"
    using assms(1) view agrees_manager [OF view(1)]
    by (simp_all add: in_step_def consistent_def store_ok_def mirrors_agrees)
  from persist_mirrors [OF this p assms(3)] have 2: "store_ok s2" "agrees (as_messages s @ [?m]) s2" by auto
  have ms2: "as_messages s2 = as_messages s @ [?m]"
    using store_frame(3) [OF persist_message_ok(2) [OF p]] ms by simp
  have "agrees (as_messages s @ [?m]) s'" using 2(2) agrees_manager [of s' s2] s' by simp
  moreover have "store_ok s'" using 2(1) s' by (simp add: store_ok_def)
  moreover have "tracked s'" using s' ms2 by (auto simp: tracked_def)
  ultimately show ?thesis using s' ms2 by (simp add: in_step_def consistent_def mirrors_agrees)
qed

lemma perform_in_step:
  assumes "in_step s" and "perform sv i s = (Inr u, s')" and "as_runActive s" and "live_step i"
  shows "in_step s'"
proof (cases i)
  case (AgentDoes ev)
  show ?thesis
  proof (cases ev)
    case (MessageEnd m replacement)
    with AgentDoes assms message_end_in_step show ?thesis by auto
  next
    case (MessageStart m)
    with AgentDoes assms(2) have "same_view s s'"
      by (cases m) (auto simp: user_started_view andThen_Inr, auto simp: same_view_def emit_def)
    with assms(1) show ?thesis by (rule in_step_view)
  qed (use AgentDoes assms(1,2) in \<open>auto simp: andThen_Inr same_view_def emit_def intro: in_step_view [OF assms(1)]\<close>)
next
  case (AgentTakes m n)
  with assms(2) have "same_view s s'" by (auto simp: same_view_def)
  with assms(1) show ?thesis by (rule in_step_view)
next
  case (UserSteers t images)
  with assms(2) queue_view(1) in_step_view [OF assms(1)] show ?thesis by simp
next
  case (UserFollowsUp t images)
  with assms(2) queue_view(2) in_step_view [OF assms(1)] show ?thesis by simp
next
  case (BashEnds command result excluded)
  with assms(2,3) have "same_view s s'"
    by (simp add: recordBashResult_def andThen_def date_now_def now_def Let_def change_def) (auto simp: same_view_def)
  with assms(1) show ?thesis by (rule in_step_view)
next
  case (ExtensionSends t c d e deliverAs)
  with assms(2,3) have "same_view s s'"
    by (auto simp: sendCustomMessage_def andThen_def date_now_def now_def Let_def ret_def same_view_def split: if_splits)
  with assms(1) show ?thesis by (rule in_step_view)
next
  case QueueCleared
  with assms(2) have "same_view s s'"
    by (auto simp: andThen_Inr clearQueue_def same_view_def emitQueueUpdate_def emit_def)
  with assms(1) show ?thesis by (rule in_step_view)
qed

lemma perform_all_in_step:
  "perform_all sv is s = (Inr u, s') \<Longrightarrow> in_step s \<Longrightarrow> as_runActive s \<Longrightarrow> list_all live_step is \<Longrightarrow>
     in_step s'"
proof (induction "is" arbitrary: s)
  case (Cons i "is")
  from Cons.prems(1) obtain s1 where s1: "perform sv i s = (Inr (), s1)" "perform_all sv is s1 = (Inr u, s')"
    by (auto simp: andThen_Inr)
  have "in_step s1" using perform_in_step [OF Cons.prems(2) s1(1) Cons.prems(3)] Cons.prems(4) by simp
  moreover have "as_runActive s1" using logs_active [OF perform_logs [OF s1(1) Cons.prems(3)]] Cons.prems(3) by simp
  ultimately show ?case using Cons.IH [OF s1(2)] Cons.prems(4) by simp
qed simp

section \<open>After a run\<close>

text \<open>
  What the classification of replies is documented to do: only errors are retried, only output that
  stopped at its limit is recoverable by length, and an overflow is an error, a reply that stopped at
  its limit or a complete one.
\<close>

definition classified :: "services \<Rightarrow> bool" where
  "classified sv \<longleftrightarrow>
     (\<forall>a. sv_retryable sv a \<longrightarrow> am_stopReason a = StopError) \<and>
     (\<forall>a n. sv_recoverableLength sv a n \<longrightarrow> is_length_stop (am_stopReason a)) \<and>
     (\<forall>a n. sv_overflow sv a n \<longrightarrow> am_stopReason a = StopError \<or> is_length_stop (am_stopReason a) \<or>
        am_stopReason a = OtherStop ''stop'')"

lemma consistent_view: "consistent s \<Longrightarrow> same_view s s' \<Longrightarrow> consistent s'"
  by (simp add: consistent_def same_view_store same_view_mirrors)

lemma emit_view [simp]: "same_view s (emit ev s)"
  by (simp add: same_view_def emit_def)

lemma drop_last_consistent:
  assumes "consistent s" and "as_messages s \<noteq> [] \<Longrightarrow> is_assistant (last (as_messages s)) \<Longrightarrow> failed_reply (last (as_messages s))"
  shows "consistent (drop_last_assistant s)"
  using assms sound_part_butlast [of "as_messages s"]
  by (auto simp: drop_last_assistant_def consistent_def store_ok_def mirrors_def log_context_def)

lemma butlast_consistent:
  assumes "consistent s" and "as_messages s \<noteq> []" and "failed_reply (last (as_messages s))"
  shows "consistent (s\<lparr>as_messages := butlast (as_messages s)\<rparr>)"
  using assms sound_part_butlast [of "as_messages s"]
  by (auto simp: consistent_def store_ok_def mirrors_def log_context_def)

lemma applyCompaction_consistent:
  assumes "consistent s" and "applyCompaction r fromExtension s = (q, s')"
  shows "consistent s' \<and> (\<forall>e. q = Inl e \<longrightarrow> e = NoResult \<or> e = EstimateFault)"
proof -
  obtain c where c: "appendCompaction (ac_summary r) (ac_firstKeptEntryId r) (ac_tokensBefore r) (ac_details r)
      fromExtension (ac_usage r) = append_body (ECompaction c)"
    by (simp add: appendCompaction_def)
  obtain i m w where a: "append_body (ECompaction c) (as_manager s) (as_world s) = (Inr i, m, w)"
    using append_body_ok [of "as_manager s" "as_world s" "ECompaction c"] assms(1)
    by (auto simp: consistent_def store_ok_def)
  have inv: "sm_inv m w"
    using append_body_inv [OF _ a] assms(1) by (simp add: consistent_def store_ok_def)
  then obtain p where p: "conversation m = Some p" using conversation_exists by (auto simp: sm_inv_def)
  then obtain ctx where ctx: "sm_buildSessionContext m = Some ctx"
    using sm_buildSessionContext_eq inv by (auto simp: sm_inv_def)
  let ?s1 = "s\<lparr>as_manager := m, as_world := w, as_messages := sc_messages ctx\<rparr>"
  have "s' = ?s1 \<and> (q = Inl EstimateFault \<or> (\<exists>n. q = Inr n))"
    using assms(2) a ctx by (auto simp: applyCompaction_def c andThen_def on_store_def Let_def split: option.splits)
  moreover have "consistent ?s1" using inv ctx by (simp add: consistent_def store_ok_def mirrors_def log_context_def)
  ultimately show ?thesis by auto
qed

lemma compaction_failed_consistent:
  "consistent s \<Longrightarrow> compaction_failed reason e s = (Inr b, s') \<Longrightarrow> consistent s'"
  by (auto simp: compaction_failed_def split: if_splits intro: consistent_view)

lemma compaction_done_consistent:
  assumes "consistent s" and "compaction_done reason willRetry r n s = (b, s')"
  shows "consistent s'"
proof -
  let ?s1 = "emit (CompactionEnd reason (Some (r, n)) False willRetry None) s"
  have "consistent ?s1" by (rule consistent_view [OF assms(1) emit_view])
  with butlast_consistent [OF this] assms(2) show ?thesis
    by (auto simp: compaction_done_def Let_def split: if_splits)
qed

lemma runAutoCompaction_consistent:
  assumes "consistent s" and "runAutoCompaction sv env reason willRetry s = (Inr b, s')"
  shows "consistent s'"
proof -
  let ?s1 = "emit (CompactionStart reason) s"
  have 1: "consistent ?s1" by (rule consistent_view [OF assms(1) emit_view])
  have applied: "consistent s'" if "applyCompaction r fe ?s1 = (Inr n, s2)" "compaction_done reason willRetry r n s2 = (b', s')" for r fe n s2 b'
    using applyCompaction_consistent [OF 1 that(1)] compaction_done_consistent [OF _ that(2)] by blast
  have failed: "consistent s'" if "applyCompaction r fe ?s1 = (Inl e, s2)" "compaction_failed reason e s2 = (Inr b', s')" for r fe e s2 b'
    using applyCompaction_consistent [OF 1 that(1)] compaction_failed_consistent [OF _ that(2)] by blast
  show ?thesis
    using assms compaction_failed_consistent [OF 1] failed applied
    by (auto simp: runAutoCompaction_def Let_def split: option.splits sum.splits prod.splits if_splits)
qed

text \<open>Compaction leaves the bookkeeping of the run alone, but for the attempt it notes.\<close>

definition books :: "agent_session \<Rightarrow> assistant_message option \<times> bool \<times> nat \<times> agent_message list \<times> agent_message list" where
  "books s = (as_lastAssistant s, as_overflowTried s, as_retryAttempt s, as_agentSteering s, as_agentFollowUp s)"

lemma emit_books [simp]: "books (emit ev s) = books s"
  by (simp add: books_def emit_def)

lemma applyCompaction_books: "applyCompaction r fe s = (q, s') \<Longrightarrow> books s' = books s"
  by (auto simp: applyCompaction_def andThen_def on_store_def Let_def books_def split: prod.splits sum.splits option.splits)

lemma compaction_failed_books: "compaction_failed reason e s = (q, s') \<Longrightarrow> books s' = books s"
  by (auto simp: compaction_failed_def split: if_splits)

lemma compaction_done_books: "compaction_done reason willRetry r n s = (b, s') \<Longrightarrow> books s' = books s"
  by (auto simp: compaction_done_def Let_def books_def emit_def split: if_splits)

lemma runAutoCompaction_books:
  assumes "runAutoCompaction sv env reason willRetry s = (q, s')"
  shows "books s' = books s"
  using assms
  by (auto simp: runAutoCompaction_def Let_def split: option.splits sum.splits prod.splits if_splits
      dest!: applyCompaction_books compaction_failed_books compaction_done_books)

lemma drop_last_books [simp]: "books (drop_last_assistant s) = books s"
  by (simp add: drop_last_assistant_def books_def)

lemma checkCompaction_books:
  assumes "checkCompaction sv env a skip s = (q, s')"
  shows "books s' = books s \<or> books s' = books (s\<lparr>as_overflowTried := True\<rparr>)"
  using assms
  by (auto simp: checkCompaction_def Let_def split: option.splits sum.splits if_splits
      dest!: runAutoCompaction_books)

lemma checkCompaction_split:
  assumes "checkCompaction sv env a skip s = (Inr b, s')"
  shows "(s' = s \<and> \<not> b)
    \<or> (s' = emit (CompactionEnd ContextOverflow None False False (Some RecoveryFailed)) s \<and> \<not> b \<and>
       recoverable_failure sv a s \<and> as_overflowTried s)
    \<or> (\<exists>reason. runAutoCompaction sv env reason False s = (Inr b, s'))
    \<or> (recoverable_failure sv a s \<and> am_stopReason a \<noteq> OtherStop ''stop'' \<and> \<not> as_overflowTried s \<and>
       runAutoCompaction sv env ContextOverflow True (drop_last_assistant (s\<lparr>as_overflowTried := True\<rparr>)) = (Inr b, s'))"
proof (cases "recoverable_failure sv a s")
  case True
  with assms show ?thesis
    by (simp add: checkCompaction_def Let_def split: option.splits if_split_asm) blast+
next
  case False
  with assms show ?thesis
    by (simp add: checkCompaction_def Let_def split: option.splits if_split_asm sum.split_asm) blast+
qed

lemma checkCompaction_cases:
  assumes "checkCompaction sv env a skip s = (Inr b, s')"
  obtains (unchanged) "s' = s" "\<not> b"
  | (given_up) "s' = emit (CompactionEnd ContextOverflow None False False (Some RecoveryFailed)) s" "\<not> b"
      "recoverable_failure sv a s" "as_overflowTried s"
  | (full) reason where "runAutoCompaction sv env reason False s = (Inr b, s')"
  | (recovering) "recoverable_failure sv a s" "am_stopReason a \<noteq> OtherStop ''stop''" "\<not> as_overflowTried s"
      "runAutoCompaction sv env ContextOverflow True (drop_last_assistant (s\<lparr>as_overflowTried := True\<rparr>)) = (Inr b, s')"
  using checkCompaction_split [OF assms] by blast

lemma checkCompaction_consistent:
  assumes "consistent s" and "checkCompaction sv env a skip s = (Inr b, s')"
    and "recoverable_failure sv a s \<Longrightarrow> am_stopReason a \<noteq> OtherStop ''stop'' \<Longrightarrow> as_messages s \<noteq> [] \<Longrightarrow>
      is_assistant (last (as_messages s)) \<Longrightarrow> failed_reply (last (as_messages s))"
  shows "consistent s'"
proof -
  let ?s1 = "s\<lparr>as_overflowTried := True\<rparr>"
  have view: "same_view s ?s1" by (simp add: same_view_def)
  have dropped: "consistent (drop_last_assistant ?s1)"
    if "recoverable_failure sv a s" "am_stopReason a \<noteq> OtherStop ''stop''"
    using drop_last_consistent [OF consistent_view [OF assms(1) view]] assms(3) [OF that] by simp
  from assms(2) show ?thesis
  proof (cases rule: checkCompaction_cases)
    case unchanged
    with assms(1) show ?thesis by simp
  next
    case given_up
    show ?thesis unfolding given_up(1) by (rule consistent_view [OF assms(1) emit_view])
  next
    case (full reason)
    then show ?thesis by (rule runAutoCompaction_consistent [OF assms(1)])
  next
    case recovering
    show ?thesis by (rule runAutoCompaction_consistent [OF dropped [OF recovering(1,2)] recovering(4)])
  qed
qed

lemma prepareRetry_consistent:
  assumes "consistent s" and "prepareRetry a cancelled s = (b, s')"
    and "as_messages s \<noteq> [] \<Longrightarrow> is_assistant (last (as_messages s)) \<Longrightarrow> failed_reply (last (as_messages s))"
  shows "consistent s'"
proof -
  let ?s1 = "\<lambda>ev n. emit ev (s\<lparr>as_retryAttempt := n\<rparr>)"
  have "consistent (drop_last_assistant (?s1 ev n))" for ev n
  proof (rule drop_last_consistent)
    show "consistent (?s1 ev n)" by (rule consistent_view [OF assms(1)]) (simp add: same_view_def emit_def)
    show "as_messages (?s1 ev n) \<noteq> [] \<Longrightarrow> is_assistant (last (as_messages (?s1 ev n))) \<Longrightarrow>
        failed_reply (last (as_messages (?s1 ev n)))"
      using assms(3) by (simp add: emit_def)
  qed
  moreover have "consistent t \<Longrightarrow> consistent (emit ev (t\<lparr>as_retryAttempt := 0\<rparr>))" for t ev
    by (erule consistent_view) (simp add: same_view_def emit_def)
  ultimately show ?thesis
    using assms(1,2) by (auto simp: prepareRetry_def Let_def split: prod.splits if_splits)
qed

lemma is_assistantD: "is_assistant m \<Longrightarrow> \<exists>a. m = Assistant a"
  by (cases m) auto

lemma handlePostAgentRun_consistent:
  assumes "in_step s" and "classified sv" and "handlePostAgentRun sv i s = (Inr b, s')"
  shows "in_step s'"
proof (cases "as_lastAssistant s")
  case None
  with assms show ?thesis by (simp add: handlePostAgentRun_def)
next
  case (Some a)
  let ?s1 = "s\<lparr>as_lastAssistant := None\<rparr>"
  have lastA: "as_messages s \<noteq> [] \<Longrightarrow> is_assistant (last (as_messages s)) \<Longrightarrow> last (as_messages s) = Assistant a"
    using assms(1) Some by (auto simp: in_step_def tracked_def dest!: is_assistantD)
  have 1: "consistent ?s1"
    using assms(1) by (simp add: in_step_def consistent_def store_ok_def mirrors_def log_context_def)
  define retryable where "retryable = isRetryableError sv a ?s1"
  obtain retry s2 where r: "(if retryable then prepareRetry a (ri_retryCancelled i) ?s1 else (False, ?s1)) = (retry, s2)"
    by (meson surj_pair)
  have error: "am_stopReason a = StopError" if retryable
    using that assms(2) by (simp add: retryable_def isRetryableError_def classified_def split: if_split_asm)
  have 2: "consistent s2"
  proof (cases retryable)
    case True
    with r have "prepareRetry a (ri_retryCancelled i) ?s1 = (retry, s2)" by simp
    then show ?thesis
      by (rule prepareRetry_consistent [OF 1]) (use lastA error [OF True] in simp)
  next
    case False
    with r 1 show ?thesis by simp
  qed
  have no_overflow: "\<not> recoverable_failure sv a s3" if retryable "config s3 = config s" for s3
  proof -
    have "contextWindow_of s3 = contextWindow_of ?s1" using that(2) by (simp add: contextWindow_of_def config_def)
    with that(1) assms(2) show ?thesis
      by (auto simp: retryable_def isRetryableError_def recoverable_failure_def classified_def is_length_stop_def split: if_split_asm)
  qed
  have untracked: "as_lastAssistant s2 = None"
    using r by (auto simp: prepareRetry_def Let_def drop_last_assistant_def emit_def split: if_splits prod.splits)
  have active: "config s2 = config s"
    using r by (auto simp: prepareRetry_def Let_def split: if_splits prod.splits)
  show ?thesis
  proof (cases retry)
    case True
    with assms(3) Some r have "s' = s2" by (simp add: handlePostAgentRun_def retryable_def [symmetric] Let_def)
    with 2 untracked show ?thesis by (simp add: in_step_def tracked_def)
  next
    case False
    let ?s3 = "retry_over a s2"
    from False assms(3) Some r obtain again where
      c: "checkCompaction sv (ri_compaction i) a True ?s3 = (Inr again, s')"
      by (auto simp: handlePostAgentRun_def retryable_def [symmetric] Let_def split: prod.splits sum.splits)
    have view: "same_view s2 ?s3" by (simp add: same_view_def retry_over_def emit_def)
    have last3: "failed_reply (last (as_messages ?s3))"
      if f: "recoverable_failure sv a ?s3" and stop: "am_stopReason a \<noteq> OtherStop ''stop''"
        and ne: "as_messages ?s3 \<noteq> []" and l: "is_assistant (last (as_messages ?s3))"
    proof -
      have "\<not> retryable" using no_overflow f active by (metis retry_over_silent(2))
      with r have "s2 = ?s1" by simp
      with ne l lastA have "last (as_messages ?s3) = Assistant a" by (simp add: retry_over_def emit_def split: if_split_asm)
      moreover have "failed_reply (Assistant a)"
        using f stop assms(2) by (auto simp: recoverable_failure_def classified_def)
      ultimately show ?thesis by simp
    qed
    have "consistent s'"
      by (rule checkCompaction_consistent [OF consistent_view [OF 2 view] c last3])
    moreover have "as_lastAssistant s' = None"
      using checkCompaction_books [OF c] view untracked by (auto simp: books_def same_view_def)
    ultimately show ?thesis by (simp add: in_step_def tracked_def)
  qed
qed

section \<open>The loop\<close>

lemma handlePost_active: "handlePostAgentRun sv i s = (q, s') \<Longrightarrow> as_runActive s' = as_runActive s"
  using obeys_at [OF after_run.handlePostAgentRun] by (fastforce simp: adds_compactions_def dest: logs_active)

lemma run_loop_in_step:
  "run_loop sv is s = Some (Inr u, s') \<Longrightarrow> in_step s \<Longrightarrow> as_runActive s \<Longrightarrow> classified sv \<Longrightarrow>
     list_all (\<lambda>i. list_all live_step (ri_steps i)) is \<Longrightarrow> in_step s'"
proof (induction "is" arbitrary: s)
  case (Cons i "is")
  obtain q s1 where p: "perform_all sv (ri_steps i) s = (q, s1)" by (meson surj_pair)
  with Cons.prems(1) obtain v where q: "q = Inr v" by (cases q) auto
  obtain q2 s2 where h: "handlePostAgentRun sv i s1 = (q2, s2)" by (meson surj_pair)
  with Cons.prems(1) p q obtain again where q2: "q2 = Inr again" by (cases q2) auto
  have live: "list_all live_step (ri_steps i)" using Cons.prems(5) by simp
  have 1: "in_step s1" using perform_all_in_step [OF _ Cons.prems(2,3) live] p q by simp
  have 2: "in_step s2" using handlePostAgentRun_consistent [OF 1 Cons.prems(4)] h q2 by simp
  have "as_runActive s1" using logs_active [OF perform_all_logs [OF _ Cons.prems(3)]] p q Cons.prems(3) by blast
  then have active: "as_runActive s2" using handlePost_active [OF h] by simp
  show ?case
  proof (cases again)
    case False
    with Cons.prems(1) p q h q2 2 show ?thesis by simp
  next
    case True
    with Cons.prems(1) p q h q2 have "run_loop sv is s2 = Some (Inr u, s')" by (simp split: if_split_asm)
    from Cons.IH [OF this 2 active Cons.prems(4)] Cons.prems(5) show ?thesis by simp
  qed
qed simp

section \<open>Settling\<close>

lemma add_bash_consistent:
  assumes "consistent s" and "add_bash b s = (Inr u, s')"
  shows "consistent s'"
proof -
  let ?m = "BashExecution b"
  from assms(2) obtain i where l: "on_store (append_body (EMessage ?m)) (push_message ?m s) = (Inr i, s')"
    by (auto simp: add_bash_def andThen_Inr log_message_append)
  have "store_ok (push_message ?m s)" "agrees (as_messages s) (push_message ?m s)"
    using assms(1) by (simp_all add: consistent_def store_ok_def mirrors_agrees agrees_def log_context_def push_message_def)
  then have "store_ok s' \<and> agrees (as_messages s @ [?m]) s'"
    using logged_message [OF _ l, of "as_messages s" ?m] by (auto simp: agrees_def)
  with add_bash_ok(3) [OF assms(2)] show ?thesis by (simp add: consistent_def mirrors_agrees)
qed

lemma add_all_bash_consistent: "add_all_bash bs s = (Inr u, s') \<Longrightarrow> consistent s \<Longrightarrow> consistent s'"
proof (induction bs arbitrary: s)
  case (Cons b bs)
  from Cons.prems(1) obtain s1 where s1: "add_bash b s = (Inr (), s1)" "add_all_bash bs s1 = (Inr u, s')"
    by (auto simp: andThen_Inr)
  from Cons.IH [OF s1(2) add_bash_consistent [OF Cons.prems(2) s1(1)]] show ?case .
qed simp

lemma flush_consistent:
  assumes "consistent s" and "flushPendingBashMessages s = (Inr u, s')"
  shows "consistent s'"
proof -
  have "s' = s \<or> (\<exists>s1. add_all_bash (as_pendingBash s) s = (Inr (), s1) \<and> s' = s1\<lparr>as_pendingBash := []\<rparr>)"
    using assms(2) by (simp add: flushPendingBashMessages_def andThen_Inr split: if_split_asm)
  moreover have "same_view s1 (s1\<lparr>as_pendingBash := []\<rparr>)" for s1 :: agent_session by (simp add: same_view_def)
  ultimately show ?thesis using assms(1) add_all_bash_consistent consistent_view by blast
qed

lemma settle_run_consistent:
  assumes "consistent s" and "settle_run s = (Inr u, s')"
  shows "consistent s'"
proof -
  let ?s0 = "s\<lparr>as_promptOverride := None\<rparr>"
  from assms(2) obtain s1 where f: "flushPendingBashMessages ?s0 = (Inr (), s1)"
    and s': "s' = emit AgentSettled (s1\<lparr>as_runActive := False\<rparr>)"
    by (auto simp: settle_run_def andThen_Inr)
  have "consistent ?s0" by (rule consistent_view [OF assms(1)]) (simp add: same_view_def)
  then have "consistent s1" by (rule flush_consistent [OF _ f])
  then show ?thesis unfolding s' by (rule consistent_view) (simp add: same_view_def emit_def)
qed

end
