(* ===== verification/Agent_Retry.thy ===== *)
theory Agent_Retry
  imports Agent_Mirror
begin

text \<open>
  The run loop comes to an end: as long as every reply is an error, each further run of the agent
  uses up an attempt, and there are only so many of them between two messages of the user.
\<close>

section \<open>Attempts left\<close>

definition max_retries :: "agent_session \<Rightarrow> nat" where
  "max_retries s = nat (fst (snd (retry_settings_of s)))"

definition attempts_left :: "agent_session \<Rightarrow> nat" where
  "attempts_left s = (if as_overflowTried s then 0 else max_retries s + 1) + (max_retries s - as_retryAttempt s)"

definition no_queue :: "agent_session \<Rightarrow> bool" where
  "no_queue s \<longleftrightarrow> as_agentSteering s = [] \<and> as_agentFollowUp s = []"

lemma attempts_bound: "attempts_left s \<le> 2 * max_retries s + 1"
  by (cases "as_overflowTried s") (simp_all add: attempts_left_def)

lemma max_retries_config: "config s' = config s \<Longrightarrow> max_retries s' = max_retries s"
  by (simp add: max_retries_def retry_settings_of_def config_def)

lemma no_queue_books: "books s' = books s \<Longrightarrow> no_queue s' = no_queue s"
  by (simp add: no_queue_def books_def)

section \<open>Steps without new messages\<close>

text \<open>Nobody queues a message.\<close>

fun unqueued_step :: "run_step \<Rightarrow> bool" where
  "unqueued_step (UserSteers t images) = False"
| "unqueued_step (UserFollowsUp t images) = False"
| "unqueued_step (ExtensionSends t c d e deliverAs) = False"
| "unqueued_step i = True"

fun is_user :: "agent_message \<Rightarrow> bool" where
  "is_user (User c t) = True"
| "is_user m = False"

text \<open>No message of the user starts, and every reply is an error.\<close>

fun failing_step :: "run_step \<Rightarrow> bool" where
  "failing_step (AgentDoes (MessageStart m)) \<longleftrightarrow> \<not> is_user m"
| "failing_step (AgentDoes (MessageEnd m replacement)) \<longleftrightarrow>
     (case assistant_of (final_message m replacement) of None \<Rightarrow> True | Some a \<Rightarrow> am_stopReason a = StopError)"
| "failing_step i = unqueued_step i"

definition counters :: "agent_session \<Rightarrow> bool \<times> nat" where
  "counters s = (as_overflowTried s, as_retryAttempt s)"

lemma attempts_counters: "counters s' = counters s \<Longrightarrow> config s' = config s \<Longrightarrow> attempts_left s' = attempts_left s"
  using max_retries_config [of s' s] by (simp add: attempts_left_def counters_def)

lemma frame_simps [simp]:
  "no_queue (emit ev s) = no_queue s" "counters (emit ev s) = counters s"
  "no_queue (push_message m s) = no_queue s" "counters (push_message m s) = counters s"
  "no_queue (replace_last m s) = no_queue s" "counters (replace_last m s) = counters s"
  "no_queue (s\<lparr>as_lastAssistant := l\<rparr>) = no_queue s" "counters (s\<lparr>as_lastAssistant := l\<rparr>) = counters s"
  "no_queue (s\<lparr>as_retryAttempt := n\<rparr>) = no_queue s" "no_queue (s\<lparr>as_overflowTried := b\<rparr>) = no_queue s"
  "no_queue (user_started sv c s) = no_queue s" "no_queue (drop_last_assistant s) = no_queue s"
  by (simp_all add: no_queue_def counters_def emit_def push_message_def replace_last_def user_started_def
      Let_def emitQueueUpdate_def drop_last_assistant_def)

lemma track_assistant_frame:
  "no_queue (track_assistant m s) = no_queue s"
  "(case assistant_of m of None \<Rightarrow> True | Some a \<Rightarrow> am_stopReason a = StopError) \<Longrightarrow>
     counters (track_assistant m s) = counters s"
  by (cases m; simp add: Let_def)+

lemma store_counters:
  assumes "s' = s\<lparr>as_manager := as_manager s', as_world := as_world s'\<rparr>"
  shows "no_queue s' = no_queue s" and "counters s' = counters s"
  using store_frame [OF assms] by (simp_all add: no_queue_def counters_def)

lemma event_frame:
  assumes "perform sv (AgentDoes ev) s = (Inr u, s')"
  shows "no_queue s' = no_queue s"
    and "failing_step (AgentDoes ev) \<Longrightarrow> counters s' = counters s"
proof -
  have "no_queue s' = no_queue s \<and> (failing_step (AgentDoes ev) \<longrightarrow> counters s' = counters s)"
  proof (cases ev)
    case (MessageStart m)
    with assms show ?thesis by (cases m) (auto simp: andThen_Inr)
  next
    case (MessageEnd m replacement)
    let ?m = "final_message m replacement" and ?s0 = "push_message m s"
    let ?s1 = "emit (FromAgent (MessageEnd ?m None)) (if replacement = None then ?s0 else replace_last ?m ?s0)"
    from assms MessageEnd obtain s2 where p: "persist_message ?m ?s1 = (Inr (), s2)" and s': "s' = track_assistant ?m s2"
      by (auto simp: andThen_Inr Let_def)
    from store_counters [OF persist_message_ok(2) [OF p]]
    have "no_queue s2 = no_queue s" "counters s2 = counters s" by simp_all
    with s' MessageEnd track_assistant_frame [of ?m s2] show ?thesis by simp
  qed (use assms in \<open>auto simp: andThen_Inr\<close>)
  then show "no_queue s' = no_queue s"
    and "failing_step (AgentDoes ev) \<Longrightarrow> counters s' = counters s" by auto
qed

lemma perform_frame:
  assumes "perform sv i s = (Inr u, s')" and "as_runActive s" and "unqueued_step i"
  shows "no_queue s \<Longrightarrow> no_queue s'" and "failing_step i \<Longrightarrow> counters s' = counters s"
proof -
  have "(no_queue s \<longrightarrow> no_queue s') \<and> (failing_step i \<longrightarrow> counters s' = counters s)"
  proof (cases i)
    case (AgentDoes ev)
    with assms event_frame [of sv ev s u s'] show ?thesis by auto
  next
    case (BashEnds command result excluded)
    with assms show ?thesis
      by (simp add: recordBashResult_def andThen_def date_now_def now_def Let_def change_def)
        (auto simp: no_queue_def counters_def)
  qed (use assms in \<open>auto simp: andThen_Inr clearQueue_def no_queue_def counters_def emitQueueUpdate_def emit_def\<close>)
  then show "no_queue s \<Longrightarrow> no_queue s'" and "failing_step i \<Longrightarrow> counters s' = counters s" by auto
qed

lemma failing_unqueued: "failing_step i \<Longrightarrow> unqueued_step i"
  by (cases i rule: failing_step.cases) auto

lemma perform_all_frame:
  "perform_all sv is s = (Inr u, s') \<Longrightarrow> as_runActive s \<Longrightarrow> list_all unqueued_step is \<Longrightarrow> no_queue s \<Longrightarrow>
     no_queue s' \<and> config s' = config s \<and> (list_all failing_step is \<longrightarrow> counters s' = counters s)"
proof (induction "is" arbitrary: s)
  case (Cons i "is")
  from Cons.prems(1) obtain s1 where s1: "perform sv i s = (Inr (), s1)" "perform_all sv is s1 = (Inr u, s')"
    by (auto simp: andThen_Inr)
  have cfg: "config s1 = config s" using perform_logs [OF s1(1) Cons.prems(2)] by (simp add: logs_def)
  then have active: "as_runActive s1" using Cons.prems(2) by (simp add: config_def)
  from Cons.prems(3) have u: "unqueued_step i" "list_all unqueued_step is" by simp_all
  note p = perform_frame [OF s1(1) Cons.prems(2) u(1)]
  from Cons.IH [OF s1(2) active u(2) p(1) [OF Cons.prems(4)]] p(2) cfg show ?case by simp
qed simp

section \<open>After a run\<close>

lemma prepareRetry_attempts:
  assumes "prepareRetry a cancelled s = (b, s')" and "no_queue s"
  shows "no_queue s'" and "config s' = config s" and "b \<Longrightarrow> attempts_left s' < attempts_left s"
    and "\<not> b \<Longrightarrow> as_overflowTried s' = as_overflowTried s"
proof -
  obtain enabled m d where r: "retry_settings_of s = (enabled, m, d)" by (meson prod_cases3)
  then have m: "max_retries s = nat m" by (simp add: max_retries_def)
  show cfg: "config s' = config s" and "no_queue s'"
    using assms r by (auto simp: prepareRetry_def Let_def split: if_splits)
  show "\<not> b \<Longrightarrow> as_overflowTried s' = as_overflowTried s"
    using assms r by (auto simp: prepareRetry_def Let_def drop_last_assistant_def emit_def split: if_splits)
  assume b
  with assms(1) r have "as_overflowTried s' = as_overflowTried s" "as_retryAttempt s' = as_retryAttempt s + 1"
    "int (as_retryAttempt s + 1) \<le> m"
    by (auto simp: prepareRetry_def Let_def drop_last_assistant_def emit_def split: if_splits)
  moreover from this(3) m have "as_retryAttempt s < max_retries s" by simp
  ultimately show "attempts_left s' < attempts_left s"
    using max_retries_config [OF cfg] by (simp add: attempts_left_def) arith
qed

lemma runAutoCompaction_again:
  assumes "runAutoCompaction sv env reason False s = (Inr b, s')" and "no_queue s"
  shows "\<not> b"
proof -
  have "\<not> again" if "applyCompaction r fe (emit (CompactionStart reason) s) = (Inr n, s2)"
    "compaction_done reason False r n s2 = (again, s3)" for r fe n s2 again s3
  proof -
    have "no_queue s2" using no_queue_books [OF applyCompaction_books [OF that(1)]] assms(2) by simp
    with that(2) show ?thesis
      by (auto simp: compaction_done_def Let_def hasQueuedMessages_def no_queue_def emit_def)
  qed
  note again = this
  show ?thesis
    using assms(1)
    by (auto simp: runAutoCompaction_def Let_def compaction_failed_def dest: again
        split: option.splits sum.splits prod.splits if_splits)
qed

lemma checkCompaction_config: "checkCompaction sv env a skip s = (q, s') \<Longrightarrow> config s' = config s"
  using obeys_at [OF after_run.checkCompaction] by (fastforce simp: adds_compactions_def logs_def)

lemma handlePost_attempts:
  assumes "handlePostAgentRun sv i s = (Inr b, s')" and "no_queue s"
  shows "no_queue s'" and "config s' = config s" and "b \<Longrightarrow> attempts_left s' < attempts_left s"
proof -
  show cfg: "config s' = config s"
    using obeys_at [OF after_run.handlePostAgentRun assms(1)] by (auto simp: adds_compactions_def logs_def)
  have "no_queue s' \<and> (b \<longrightarrow> attempts_left s' < attempts_left s)"
  proof (cases "as_lastAssistant s")
    case None
    with assms show ?thesis by (simp add: handlePostAgentRun_def)
  next
    case (Some a)
    let ?s1 = "s\<lparr>as_lastAssistant := None\<rparr>"
    have left1: "attempts_left ?s1 = attempts_left s" by (rule attempts_counters) simp_all
    obtain retry s2 where r:
      "(if isRetryableError sv a ?s1 then prepareRetry a (ri_retryCancelled i) ?s1 else (False, ?s1)) = (retry, s2)"
      by (meson surj_pair)
    have 2: "no_queue s2" "config s2 = config s" "retry \<Longrightarrow> attempts_left s2 < attempts_left s"
        "\<not> retry \<Longrightarrow> as_overflowTried s2 = as_overflowTried s"
      using r assms(2) prepareRetry_attempts [of a "ri_retryCancelled i" ?s1 retry s2] left1
      by (auto split: if_splits)
    show ?thesis
    proof (cases retry)
      case True
      with assms(1) Some r have "s' = s2" by (simp add: handlePostAgentRun_def Let_def)
      with 2 True show ?thesis by simp
    next
      case False
      let ?s3 = "retry_over a s2"
      from False assms(1) Some r obtain again where
        c: "checkCompaction sv (ri_compaction i) a True ?s3 = (Inr again, s')" and b: "b \<longleftrightarrow> again \<or> hasQueuedMessages s'"
        by (auto simp: handlePostAgentRun_def Let_def split: prod.splits sum.splits)
      have q3: "no_queue ?s3" using 2(1) by (simp add: retry_over_def)
      have t3: "as_overflowTried ?s3 = as_overflowTried s"
        using 2(4) [OF False] by (simp add: retry_over_def emit_def)
      have q': "no_queue s'"
        using checkCompaction_books [OF c] no_queue_books [of s' ?s3]
          no_queue_books [of s' "?s3\<lparr>as_overflowTried := True\<rparr>"] q3 by auto
      have "attempts_left s' < attempts_left s" if again
      proof -
        from c have "\<not> as_overflowTried ?s3 \<and> books s' = books (?s3\<lparr>as_overflowTried := True\<rparr>)"
        proof (cases rule: checkCompaction_cases)
          case unchanged
          with that show ?thesis by simp
        next
          case given_up
          with that show ?thesis by simp
        next
          case (full reason)
          with runAutoCompaction_again [OF _ q3] that show ?thesis by blast
        next
          case recovering
          from runAutoCompaction_books [OF recovering(4)] recovering(3) show ?thesis by simp
        qed
        then have "as_overflowTried s'" "\<not> as_overflowTried s" using t3 by (auto simp: books_def)
        moreover have "max_retries s' = max_retries s" by (rule max_retries_config [OF cfg])
        ultimately show ?thesis by (simp add: attempts_left_def)
      qed
      with b q' show ?thesis by (auto simp: hasQueuedMessages_def no_queue_def)
    qed
  qed
  then show "no_queue s'" and "b \<Longrightarrow> attempts_left s' < attempts_left s" by auto
qed

section \<open>The loop ends\<close>

lemma failing_loop_ends:
  "list_all (\<lambda>i. list_all failing_step (ri_steps i)) is \<Longrightarrow> as_runActive s \<Longrightarrow> no_queue s \<Longrightarrow>
     attempts_left s < length is \<Longrightarrow> run_loop sv is s \<noteq> None"
proof (induction "is" arbitrary: s)
  case (Cons i "is")
  have steps: "list_all failing_step (ri_steps i)" using Cons.prems(1) by simp
  then have unq: "list_all unqueued_step (ri_steps i)" by (auto simp: list_all_iff failing_unqueued)
  obtain q s1 where p: "perform_all sv (ri_steps i) s = (q, s1)" by (meson surj_pair)
  show ?case
  proof (cases q)
    case (Inl e)
    with p show ?thesis by simp
  next
    case (Inr v)
    have 1: "no_queue s1" "config s1 = config s" "counters s1 = counters s"
      using perform_all_frame [OF _ Cons.prems(2) unq Cons.prems(3)] p Inr steps by auto
    obtain q2 s2 where h: "handlePostAgentRun sv i s1 = (q2, s2)" by (meson surj_pair)
    show ?thesis
    proof (cases "q2 = Inr True")
      case False
      with p Inr h show ?thesis by (auto split: sum.split bool.split)
    next
      case True
      note 2 = handlePost_attempts [OF h [unfolded True] 1(1)]
      have "attempts_left s2 < length is"
        using 2(3) attempts_counters [OF 1(3,2)] Cons.prems(4) by simp
      moreover have "as_runActive s2" using 2(2) 1(2) Cons.prems(2) by (simp add: config_def)
      ultimately have "run_loop sv is s2 \<noteq> None" using Cons.IH [OF _ _ 2(1)] Cons.prems(1) by simp
      with p Inr h True show ?thesis by simp
    qed
  qed
qed simp

lemma log_message_fault: "log_message m s = (Inl e, s') \<Longrightarrow> \<exists>x. e = StoreFault x"
  by (auto simp: log_message_append andThen_def ret_def on_store_def split: prod.splits sum.splits)

lemma add_all_bash_fault: "add_all_bash bs s = (Inl e, s') \<Longrightarrow> \<exists>x. e = StoreFault x"
proof (induction bs arbitrary: s)
  case (Cons b bs)
  obtain q s1 where a: "add_bash b s = (q, s1)" by (meson surj_pair)
  show ?case
  proof (cases q)
    case (Inl x)
    with a Cons.prems have "log_message (BashExecution b) (push_message (BashExecution b) s) = (Inl e, s')"
      by (simp add: add_bash_def andThen_def change_def)
    then show ?thesis by (rule log_message_fault)
  next
    case (Inr u)
    with a Cons.prems have "add_all_bash bs s1 = (Inl e, s')" by (simp add: andThen_def)
    then show ?thesis by (rule Cons.IH)
  qed
qed (simp add: ret_def)

text \<open>Settling throws only when the log cannot be written.\<close>

lemma settle_run_fault: "settle_run s = (Inl e, s') \<Longrightarrow> \<exists>x. e = StoreFault x"
proof -
  assume a: "settle_run s = (Inl e, s')"
  let ?s0 = "s\<lparr>as_promptOverride := None\<rparr>"
  from a have "flushPendingBashMessages ?s0 = (Inl e, s')"
    by (auto simp: settle_run_def andThen_def change_def split: prod.splits sum.splits)
  then show ?thesis
    using add_all_bash_fault by (auto simp: flushPendingBashMessages_def andThen_def change_def ret_def
        split: if_splits prod.splits sum.splits)
qed

end
