(* ===== verification/Agent_Demo.thy ===== *)
theory Agent_Demo
  imports Agent_Retry Session_Demo
begin

text \<open>
  Sample sessions of an agent on which the properties are instantiated: a fresh persisted session, a
  provider whose replies are answers, transient errors and overflows, and the services that tell
  these apart by the text of the error.
\<close>

definition sample_text :: text_of where
  "sample_text sep c = (case c of Plain t \<Rightarrow> t | Blocks bs \<Rightarrow> concat (map block_text bs))"

definition sample_services :: services where
  "sample_services =
     \<lparr>sv_overflow = (\<lambda>a n. am_stopReason a = StopError \<and> am_errorMessage a = Some ''overflow''),
      sv_recoverableLength = (\<lambda>a n. False),
      sv_retryable = (\<lambda>a. am_stopReason a = StopError \<and> am_errorMessage a = Some ''overloaded''),
      sv_text = sample_text,
      sv_levels = (\<lambda>m. if lm_reasoning m then [''off'', ''low'', ''high''] else [''off'']),
      sv_clamp = (\<lambda>m l. ''off''),
      sv_modelsEqual = (\<lambda>a b. case (a, b) of
         (Some x, Some y) \<Rightarrow> mo_provider x = mo_provider y \<and> mo_id x = mo_id y | _ \<Rightarrow> False),
      sv_rejects = (\<lambda>ms queued. (case ms of [] \<Rightarrow> True | _ \<Rightarrow> is_assistant (last ms)) \<and> \<not> queued)\<rparr>"

definition sample_model :: "string \<Rightarrow> agent_model" where
  "sample_model i = \<lparr>lm_maxTokens = 100, lm_contextWindow = 40, lm_reasoning = True, mo_provider = ''p'', mo_id = i\<rparr>"

definition sample_reply :: "stop_reason \<Rightarrow> string option \<Rightarrow> assistant_message" where
  "sample_reply stop err =
     \<lparr>am_content = Some (if err = None then [TextBlock ''hello''] else []), am_provider = ''p'', am_model = ''m'',
      am_stopReason = stop, am_usage = None, am_errorMessage = err, am_timestamp = 100\<rparr>"

definition sample_compaction :: "string \<Rightarrow> compaction_env" where
  "sample_compaction kept =
     \<lparr>en_auth = True,
      en_hook = HookProvides \<lparr>ac_summary = ''S'', ac_firstKeptEntryId = kept, ac_tokensBefore = 9,
                             ac_usage = None, ac_details = None\<rparr>,
      en_call = (\<lambda>_. None), en_aborted = False\<rparr>"

definition says :: "agent_message \<Rightarrow> run_step list" where
  "says m = [AgentDoes (MessageStart m), AgentDoes (MessageEnd m None)]"

definition sample_run :: "agent_message list \<Rightarrow> run_step list \<Rightarrow> run_input" where
  "sample_run ms extra =
     \<lparr>ri_steps = concat (map says ms) @ extra, ri_retryCancelled = False, ri_compaction = sample_compaction ''aabbbbbb''\<rparr>"

definition sample_answer :: agent_message where
  "sample_answer = Assistant (sample_reply (OtherStop ''stop'') None)"

definition sample_overloaded :: agent_message where
  "sample_overloaded = Assistant (sample_reply StopError (Some ''overloaded''))"

definition sample_overflow :: agent_message where
  "sample_overflow = Assistant (sample_reply StopError (Some ''overflow''))"

definition sample_question :: agent_message where
  "sample_question = User (Some (Blocks [TextBlock ''hi''])) 0"

definition sample_shell :: bash_result where
  "sample_shell = \<lparr>br_output = ''ok'', br_exitCode = Some 0, br_cancelled = False, br_truncated = False,
                   br_fullOutputPath = None\<rparr>"

definition sample_settings :: settings_manager where
  "sample_settings =
     (let g = [(''compaction'', JObj [(''keepRecentTokens'', JInt 1)])] in
      \<lparr>sg_storage = \<lparr>st_global = Some (JsonText (JObj g)), st_project = None\<rparr>, sg_global = g, sg_project = [],
       sg_settings = g, sg_trusted = True, sg_modified = [], sg_modifiedNested = [], sg_modifiedProject = [],
       sg_modifiedProjectNested = [], sg_globalLoadError = None, sg_projectLoadError = None,
       sg_writeQueue = [], sg_errors = []\<rparr>)"

definition sample_session :: agent_session where
  "sample_session =
     \<lparr>as_messages = [], as_model = Some (sample_model ''m''), as_thinkingLevel = ''off'', as_systemPrompt = [],
      as_agentSteering = [], as_agentFollowUp = [], as_manager = fst demo_start, as_world = snd demo_start,
      as_settings = sample_settings,
      as_steering = [], as_followUp = [], as_nextTurn = [], as_runActive = False, as_compacting = False,
      as_overflowTried = False, as_retryAttempt = 0, as_lastAssistant = None, as_pendingBash = [],
      as_basePrompt = [], as_promptOverride = None, as_events = []\<rparr>"

text \<open>A prompt that is overloaded once and answered then, while a shell command ends.\<close>

definition sample_first :: "((session_fault + unit) \<times> agent_session) option" where
  "sample_first =
     runAgentPrompt sample_services (\<lambda>ms. sample_run (ms @ [sample_overloaded]) [BashEnds ''ls'' sample_shell False])
       [sample_run [sample_answer] []] [sample_question] sample_session"

text \<open>A prompt that is overloaded, then overflows, then would be answered.\<close>

definition sample_second :: "agent_session \<Rightarrow> ((session_fault + unit) \<times> agent_session) option" where
  "sample_second =
     runAgentPrompt sample_services (\<lambda>ms. sample_run (ms @ [sample_overloaded]) [])
       [sample_run [sample_overflow] [], sample_run [sample_answer] []] [sample_question]"

definition after_first :: agent_session where
  "after_first = (case sample_first of Some (r, s) \<Rightarrow> s | None \<Rightarrow> sample_session)"

lemma first_runs: "case sample_first of Some (Inr u, s) \<Rightarrow> True | _ \<Rightarrow> False"
  by code_simp

lemma sample_first_result: "sample_first = Some (Inr (), after_first)"
proof -
  from first_runs obtain s where "sample_first = Some (Inr (), s)"
    by (auto split: option.splits sum.splits prod.splits)
  note run = this
  have "after_first = s" unfolding after_first_def run by (simp only: option.case prod.case)
  with run show ?thesis by simp
qed

end
