(* ===== verification/Agent_Properties.thy ===== *)
theory Agent_Properties
  imports Agent_Demo
begin

text \<open>
  Properties of an agent's session: what its log holds, how the agent's messages relate to it, that
  failing runs come to an end, and what switching models and moving in the tree do.
\<close>

section \<open>The log\<close>

text \<open>
  C3. When a prompt has run, the log holds every message the agent has finished, retried failures
  included, once and in order, then the shell results that arrived meanwhile; only compactions come
  in between. No result is left pending and the session is idle.
\<close>
theorem run_logs_every_message:
  assumes "runAgentPrompt sv answer continued ms s = Some (Inr (), s')"
  shows "\<exists>n bs. n \<le> length continued \<and>
    without_compactions (bodies s') = without_compactions (bodies s) @
      concat (map logged_bodies (steps_of n (answer ms # continued))) @ map (\<lambda>b. EMessage (BashExecution b)) bs \<and>
    map untimed bs = map untimed (as_pendingBash s) @ concat (map shell_results (steps_of n (answer ms # continued))) \<and>
    as_pendingBash s' = [] \<and> \<not> as_runActive s'"
proof -
  let ?s0 = "s\<lparr>as_runActive := True\<rparr>" and ?is = "answer ms # continued"
  from assms obtain s1 u where l: "run_loop sv ?is ?s0 = Some (Inr (), s1)" and t: "settle_run s1 = (Inr u, s')"
    by (auto simp: runAgentPrompt_def split: option.splits prod.splits sum.splits)
  obtain n bs where n: "n < length ?is" "logs ?s0 s1 bs (concat (map shell_results (steps_of n ?is)))"
      "without_compactions bs = concat (map logged_bodies (steps_of n ?is))"
    using run_loop_logs [OF l] by auto
  obtain ps where ps: "as_pendingBash s1 = as_pendingBash s @ ps" "map untimed ps = concat (map shell_results (steps_of n ?is))"
    using n(2) by (auto simp: logs_def)
  have "bodies s1 = bodies s @ bs" using n(2) by (simp add: logs_def bodies_def entries_of_session_def)
  moreover have "without_compactions (map (\<lambda>b. EMessage (BashExecution b)) xs) = map (\<lambda>b. EMessage (BashExecution b)) xs" for xs
    by (simp add: without_compactions_def filter_map comp_def)
  ultimately show ?thesis
    using settle_run_ok [OF t] n ps
    by (intro exI [of _ n] exI [of _ "as_pendingBash s1"]) simp
qed

theorem run_logs_every_message_witness:
  "\<exists>n bs. n \<le> 1 \<and> without_compactions (bodies after_first) = without_compactions (bodies sample_session) @
     concat (map logged_bodies (steps_of n [sample_run [sample_question, sample_overloaded] [BashEnds ''ls'' sample_shell False],
       sample_run [sample_answer] []])) @ map (\<lambda>b. EMessage (BashExecution b)) bs"
  using run_logs_every_message [OF sample_first_result [unfolded sample_first_def]] by auto

text \<open>
  C6. Whatever a client does with a session, and however it ends, the entries in its log stay as they
  are: the log of a later state extends the log of an earlier one.
\<close>
theorem history_is_append_only:
  assumes "session_run sv s s'"
  shows "\<exists>es. getEntries (as_manager s') = getEntries (as_manager s) @ es"
  using assms
proof (induction rule: session_run.induct)
  case stop
  then show ?case by simp
next
  case (more s s' s'')
  with session_step_grows [OF more.hyps(2)] show ?case
    by (auto simp: log_extends_def entries_of_session_def)
qed

theorem history_is_append_only_witness:
  "\<exists>es. getEntries (as_manager after_first) = getEntries (as_manager sample_session) @ es"
proof (rule history_is_append_only)
  have "session_step sample_services sample_session after_first"
    using sample_first_result unfolding sample_first_def by (rule session_step.ran)
  with session_run.stop show "session_run sample_services sample_session after_first" by (rule session_run.more)
qed

section \<open>The agent's messages\<close>

text \<open>
  C4. Between prompts the messages the agent holds are those a restart would rebuild from the log,
  but for failed replies; prompts with retries, shell results and compactions keep it so, and keep
  the store well formed.
\<close>
theorem context_mirrors_log:
  assumes "runAgentPrompt sv answer continued ms s = Some (Inr (), s')"
    and "sm_inv (as_manager s) (as_world s)" and "mirrors s" and "as_lastAssistant s = None"
    and "classified sv" and "\<forall>i \<in> set (answer ms # continued). list_all live_step (ri_steps i)"
  shows "mirrors s' \<and> sm_inv (as_manager s') (as_world s')"
proof -
  let ?s0 = "s\<lparr>as_runActive := True\<rparr>"
  from assms(1) obtain s1 u where l: "run_loop sv (answer ms # continued) ?s0 = Some (Inr (), s1)"
    and t: "settle_run s1 = (Inr u, s')"
    by (auto simp: runAgentPrompt_def split: option.splits prod.splits sum.splits)
  have "in_step s"
    using assms(2-4) by (simp add: in_step_def consistent_def store_ok_def tracked_def)
  then have "in_step ?s0" by (rule in_step_view) (simp add: same_view_def)
  from run_loop_in_step [OF l this _ assms(5)] assms(6) have "in_step s1" by (simp add: list_all_iff)
  then have "consistent s'" using settle_run_consistent [OF _ t] by (simp add: in_step_def)
  then show ?thesis by (simp add: consistent_def store_ok_def)
qed

lemma sample_classified: "classified sample_services"
  by (simp add: classified_def sample_services_def)

lemma sample_store: "sm_inv (as_manager sample_session) (as_world sample_session)"
  using reachable_inv [OF demo_start_reachable] by (simp add: sample_session_def)

lemma sample_mirrors: "mirrors sample_session"
proof -
  have "log_context sample_session = Some []" by code_simp
  then show ?thesis by (simp add: mirrors_def sample_session_def)
qed

theorem context_mirrors_log_witness: "mirrors after_first"
proof -
  have live: "live_step i" if "i \<in> set (ri_steps (sample_run ms extra))" "set extra \<subseteq> {BashEnds ''ls'' sample_shell False}"
      "set ms \<subseteq> {sample_question, sample_overloaded, sample_answer}" for i ms extra
    using that by (auto simp: sample_run_def says_def live_def final_message_def sample_question_def
        sample_overloaded_def sample_answer_def)
  have last: "as_lastAssistant sample_session = None" by (simp add: sample_session_def)
  show ?thesis
    using context_mirrors_log [OF sample_first_result [unfolded sample_first_def] sample_store sample_mirrors last sample_classified]
      live by (auto simp: list_all_iff)
qed

section \<open>Retries\<close>

text \<open>
  C5. A prompt whose every reply fails is given up: when no messages are queued and each run after the
  first ends its replies with errors, the loop returns before the agent has been run more than
  \<open>2 * maxRetries + 3\<close> times, and the session is idle again unless its log could not be written.
\<close>
theorem failing_agent_is_given_up:
  assumes "as_agentSteering s = []" and "as_agentFollowUp s = []"
    and "list_all unqueued_step (ri_steps (answer ms))"
    and "\<forall>i \<in> set continued. list_all failing_step (ri_steps i)"
    and "2 * max_retries s + 1 < length continued"
  shows "\<exists>r s'. runAgentPrompt sv answer continued ms s = Some (r, s') \<and>
    (as_runActive s' \<longrightarrow> (\<exists>e. r = Inl (StoreFault e)))"
proof -
  let ?s0 = "s\<lparr>as_runActive := True\<rparr>"
  have q0: "no_queue ?s0" "as_runActive ?s0" using assms(1,2) by (simp_all add: no_queue_def)
  have m0: "max_retries ?s0 = max_retries s" by (simp add: max_retries_def retry_settings_of_def)
  obtain q s1 where p: "perform_all sv (ri_steps (answer ms)) ?s0 = (q, s1)" by (meson surj_pair)
  have "run_loop sv (answer ms # continued) ?s0 \<noteq> None"
  proof (cases q)
    case (Inl e)
    with p show ?thesis by simp
  next
    case (Inr v)
    have 1: "no_queue s1" "config s1 = config ?s0"
      using perform_all_frame [OF _ q0(2) assms(3) q0(1)] p Inr by auto
    obtain q2 s2 where h: "handlePostAgentRun sv (answer ms) s1 = (q2, s2)" by (meson surj_pair)
    show ?thesis
    proof (cases "q2 = Inr True")
      case False
      with p Inr h show ?thesis by (auto split: sum.split bool.split)
    next
      case True
      note 2 = handlePost_attempts [OF h [unfolded True] 1(1)]
      have "attempts_left s2 \<le> 2 * max_retries s2 + 1" by (rule attempts_bound)
      also have "max_retries s2 = max_retries s" using max_retries_config [of s2 ?s0] 1(2) 2(2) m0 by simp
      finally have "attempts_left s2 < length continued" using assms(5) by simp
      moreover have "as_runActive s2" using 2(2) 1(2) q0(2) by (simp add: config_def)
      ultimately have "run_loop sv continued s2 \<noteq> None"
        using failing_loop_ends [OF _ _ 2(1)] assms(4) by (simp add: list_all_iff)
      with p Inr h True show ?thesis by simp
    qed
  qed
  then obtain r s3 where l: "run_loop sv (answer ms # continued) ?s0 = Some (r, s3)" by auto
  obtain t s4 where st: "settle_run s3 = (t, s4)" by (meson surj_pair)
  show ?thesis
  proof (cases t)
    case (Inl e)
    with st l settle_run_fault [of s3 e s4] show ?thesis by (auto simp: runAgentPrompt_def)
  next
    case (Inr u)
    with st l settle_run_ok(3) [of s3 u s4] show ?thesis by (auto simp: runAgentPrompt_def)
  qed
qed

theorem failing_agent_is_given_up_witness:
  "\<exists>r s'. runAgentPrompt sample_services (\<lambda>ms. sample_run (ms @ [sample_overloaded]) [])
      (replicate 8 (sample_run [sample_overloaded] [])) [sample_question] sample_session = Some (r, s') \<and>
    (as_runActive s' \<longrightarrow> (\<exists>e. r = Inl (StoreFault e)))"
proof (rule failing_agent_is_given_up)
  show "as_agentSteering sample_session = []" "as_agentFollowUp sample_session = []"
    by (simp_all add: sample_session_def)
  show "list_all unqueued_step (ri_steps (sample_run ([sample_question] @ [sample_overloaded]) []))"
    by (simp add: sample_run_def says_def)
  show "\<forall>i \<in> set (replicate 8 (sample_run [sample_overloaded] [])). list_all failing_step (ri_steps i)"
    by (simp add: sample_run_def says_def sample_overloaded_def sample_reply_def final_message_def)
  have "max_retries sample_session = 3" by code_simp
  then show "2 * max_retries sample_session + 1 < length (replicate 8 (sample_run [sample_overloaded] []))"
    by simp
qed

text \<open>
  An earlier failure in the kept part defeats the recovery from an overflow: the context that is
  rebuilt ends with both failed replies, only the last is taken out, and the agent, which does not
  continue from a reply, rejects the rest.
\<close>
theorem earlier_failure_blocks_recovery:
  "case sample_second after_first of
     Some (Inl AgentRejected, s') \<Rightarrow> last (as_messages s') = sample_overloaded
   | _ \<Rightarrow> False"
  by code_simp

text \<open>
  C6. A queued message that is only an image stays listed as pending after it has been delivered.
\<close>
definition image_only_run :: "(session_fault + unit) \<times> agent_session" where
  "image_only_run =
     perform_all sample_services
       [UserSteers [] [ImageBlock ''png''], AgentTakes 1 0,
        AgentDoes (MessageStart (User (Some (Blocks [TextBlock [], ImageBlock ''png''])) 0))]
       (sample_session\<lparr>as_runActive := True\<rparr>)"

theorem image_only_message_stays_pending:
  "fst image_only_run = Inr () \<and> as_agentSteering (snd image_only_run) = [] \<and>
   pendingMessageCount (snd image_only_run) = 1"
  by code_simp

end
