(* ===== verification/Navigation_Properties.thy ===== *)
theory Navigation_Properties
  imports Agent_Demo
begin

text \<open>
  Properties of switching models and thinking levels, and of moving in the session tree.
\<close>

section \<open>Models and levels\<close>

lemma on_settings_ok: "on_settings f s = (Inr u, s') \<Longrightarrow> \<exists>g. s' = s\<lparr>as_settings := g\<rparr>"
  by (auto simp: on_settings_def split: sum.splits)

lemma setThinkingLevel_ok:
  assumes "setThinkingLevel sv level s = (Inr u, s')"
  shows "as_thinkingLevel s' = effective_level sv level s" and "as_model s' = as_model s"
    and "bodies s' = bodies s @ (if effective_level sv level s = as_thinkingLevel s then []
           else [EThinkingLevelChange (effective_level sv level s)])"
proof -
  let ?eff = "effective_level sv level s" and ?s0 = "s\<lparr>as_thinkingLevel := effective_level sv level s\<rparr>"
  have "as_thinkingLevel s' = ?eff \<and> as_model s' = as_model s \<and>
    bodies s' = bodies s @ (if ?eff = as_thinkingLevel s then [] else [EThinkingLevelChange ?eff])"
  proof (cases "?eff = as_thinkingLevel s")
    case True
    with assms show ?thesis by (simp add: setThinkingLevel_def)
  next
    case False
    with assms obtain i s1 s2 where
      a: "on_store (append_body (EThinkingLevelChange ?eff)) ?s0 = (Inr i, s1)"
      and b: "s2 = s1 \<or> (\<exists>g. s2 = s1\<lparr>as_settings := g\<rparr>)"
      and c: "s' = emit (ThinkingLevelChanged ?eff) s2"
      by (auto simp: setThinkingLevel_def Let_def andThen_Inr appendThinkingLevelChange_def
          split: if_splits dest!: on_settings_ok)
    obtain m w where s1: "s1 = ?s0\<lparr>as_manager := m, as_world := w\<rparr>"
      using on_store_append(2) [OF HOL.refl a] by blast
    have "bodies s1 = bodies ?s0 @ [EThinkingLevelChange ?eff]" by (rule on_store_bodies [OF a])
    with b c s1 False show ?thesis by (auto simp: emit_def bodies_def entries_of_session_def)
  qed
  then show "as_thinkingLevel s' = ?eff" and "as_model s' = as_model s"
    and "bodies s' = bodies s @ (if ?eff = as_thinkingLevel s then [] else [EThinkingLevelChange ?eff])"
    by auto
qed

lemma switch_model_ok:
  assumes "switch_model sv m level s = (Inr u, s')"
  shows "as_model s' = Some m" and "as_thinkingLevel s' = effective_level sv level (s\<lparr>as_model := Some m\<rparr>)"
    and "bodies s' = bodies s @ EModelChange (mo_provider m) (mo_id m) #
           (if as_thinkingLevel s' = as_thinkingLevel s then [] else [EThinkingLevelChange (as_thinkingLevel s')])"
proof -
  let ?s0 = "s\<lparr>as_model := Some m\<rparr>"
  from assms obtain i s1 s2 where
    a: "on_store (append_body (EModelChange (mo_provider m) (mo_id m))) ?s0 = (Inr i, s1)"
    and b: "\<exists>g. s2 = s1\<lparr>as_settings := g\<rparr>"
    and c: "setThinkingLevel sv level s2 = (Inr u, s')"
    by (auto simp: switch_model_def andThen_Inr appendModelChange_def dest!: on_settings_ok)
  obtain n w where s1: "s1 = ?s0\<lparr>as_manager := n, as_world := w\<rparr>"
    using on_store_append(2) [OF HOL.refl a] by blast
  have "bodies s1 = bodies ?s0 @ [EModelChange (mo_provider m) (mo_id m)]" by (rule on_store_bodies [OF a])
  moreover have "effective_level sv level s2 = effective_level sv level ?s0"
    using b s1 by (auto simp: effective_level_def getAvailableThinkingLevels_def clampThinkingLevel_of_def)
  ultimately show "as_model s' = Some m" and "as_thinkingLevel s' = effective_level sv level ?s0"
    and "bodies s' = bodies s @ EModelChange (mo_provider m) (mo_id m) #
           (if as_thinkingLevel s' = as_thinkingLevel s then [] else [EThinkingLevelChange (as_thinkingLevel s')])"
    using setThinkingLevel_ok [OF c] b s1 by (auto simp: bodies_def entries_of_session_def)
qed

section \<open>When switching cannot fail\<close>

text \<open>
  Until an answer is logged nothing is written to a file, and settings that are assigned as whole
  fields always can be: on such a session the switches return.
\<close>

definition unanswered :: "agent_session \<Rightarrow> bool" where
  "unanswered s \<longleftrightarrow> \<not> hasAssistant (sm_fileEntries (as_manager s))"

lemma on_store_unanswered:
  assumes "unanswered s" and "\<And>m. b \<noteq> EMessage m"
  shows "\<exists>i s'. on_store (append_body b) s = (Inr i, s') \<and> unanswered s'"
  using assms
  by (auto simp: unanswered_def on_store_def append_body_def new_entry_def appendEntry_def persist_entry_def
      push_entry_def hasAssistant_def Let_def split: prod.splits option.splits elim!: has_assistant_body.elims)

fun whole_fields :: "assignment list \<Rightarrow> bool" where
  "whole_fields [] = True"
| "whole_fields (Field f v # as) = whole_fields as"
| "whole_fields (Nested f k v # as) = False"

lemma whole_fields_assign: "whole_fields as \<Longrightarrow> \<exists>g. assign_all as s = Inr g"
  by (induction as arbitrary: s rule: whole_fields.induct) auto

lemma on_settings_whole: "whole_fields as \<Longrightarrow> \<exists>g. on_settings (set_global as) s = (Inr (), s\<lparr>as_settings := g\<rparr>)"
  using whole_fields_assign [of as "as_settings s"] by (auto simp: on_settings_def set_global_def)

lemma unanswered_frame [simp]:
  "unanswered (s\<lparr>as_settings := g\<rparr>) = unanswered s" "unanswered (s\<lparr>as_model := x\<rparr>) = unanswered s"
  "unanswered (s\<lparr>as_thinkingLevel := l\<rparr>) = unanswered s" "unanswered (emit e s) = unanswered s"
  by (simp_all add: unanswered_def emit_def)

lemma andThen_returns: "f s = (Inr x, s1) \<Longrightarrow> andThen f g s = g x s1"
  by (simp add: andThen_def)

lemma setThinkingLevel_returns:
  assumes "unanswered s"
  shows "\<exists>s'. setThinkingLevel sv level s = (Inr (), s') \<and> unanswered s'"
proof (cases "effective_level sv level s = as_thinkingLevel s")
  case True
  with assms show ?thesis by (simp add: setThinkingLevel_def)
next
  case False
  let ?eff = "effective_level sv level s" and ?s0 = "s\<lparr>as_thinkingLevel := effective_level sv level s\<rparr>"
  from on_store_unanswered [of ?s0 "EThinkingLevelChange ?eff"] assms
  obtain i s1 where a: "on_store (appendThinkingLevelChange ?eff) ?s0 = (Inr i, s1)" and u: "unanswered s1"
    by (auto simp: appendThinkingLevelChange_def)
  obtain g where g: "on_settings (setDefaultThinkingLevel ?eff) s1 = (Inr (), s1\<lparr>as_settings := g\<rparr>)"
    using on_settings_whole [of "[Field ''defaultThinkingLevel'' (Some (JStr ?eff))]" s1]
    by (auto simp: setDefaultThinkingLevel_def)
  from False u show ?thesis
    by (simp add: setThinkingLevel_def Let_def andThen_def change_def ret_def a g)
qed

lemma switch_model_returns:
  assumes "unanswered s"
  shows "\<exists>s'. switch_model sv m level s = (Inr (), s') \<and> unanswered s'"
proof -
  let ?s0 = "s\<lparr>as_model := Some m\<rparr>"
  from on_store_unanswered [of ?s0 "EModelChange (mo_provider m) (mo_id m)"] assms
  obtain i s1 where a: "on_store (appendModelChange (mo_provider m) (mo_id m)) ?s0 = (Inr i, s1)" and u: "unanswered s1"
    by (auto simp: appendModelChange_def)
  obtain g where g: "on_settings (setDefaultModelAndProvider (mo_provider m) (mo_id m)) s1 = (Inr (), s1\<lparr>as_settings := g\<rparr>)"
    using on_settings_whole [of "[Field ''defaultProvider'' (Some (JStr (mo_provider m))), Field ''defaultModel'' (Some (JStr (mo_id m)))]" s1]
    by (auto simp: setDefaultModelAndProvider_def)
  have "switch_model sv m level s = setThinkingLevel sv level (s1\<lparr>as_settings := g\<rparr>)"
    by (simp add: switch_model_def andThen_def change_def a g)
  with setThinkingLevel_returns [of "s1\<lparr>as_settings := g\<rparr>"] u show ?thesis by simp
qed

lemma sample_unanswered: "unanswered sample_session"
  by code_simp

text \<open>
  Switching the model logs the switch, and the thinking level with it when that changes; the level
  in force is one the new model supports, and it is the wanted one when the model has it.
\<close>
theorem model_switch_keeps_level_supported:
  assumes "setModel sv authenticated m s = (Inr u, s')"
    and "\<And>l. l \<notin> set (sv_levels sv m) \<Longrightarrow> sv_clamp sv m l \<in> set (sv_levels sv m)"
  shows "authenticated \<and> as_model s' = Some m \<and> as_thinkingLevel s' \<in> set (sv_levels sv m) \<and>
    (getThinkingLevelForModelSwitch None s \<in> set (sv_levels sv m) \<longrightarrow>
       as_thinkingLevel s' = getThinkingLevelForModelSwitch None s) \<and>
    bodies s' = bodies s @ EModelChange (mo_provider m) (mo_id m) #
      (if as_thinkingLevel s' = as_thinkingLevel s then [] else [EThinkingLevelChange (as_thinkingLevel s')])"
proof -
  from assms(1) have auth: authenticated and sw: "switch_model sv m (getThinkingLevelForModelSwitch None s) s = (Inr u, s')"
    by (auto simp: setModel_def split: if_splits)
  have "effective_level sv l (s\<lparr>as_model := Some m\<rparr>) \<in> set (sv_levels sv m)" for l
    using assms(2) [of l] by (simp add: effective_level_def getAvailableThinkingLevels_def clampThinkingLevel_of_def)
  with auth switch_model_ok [OF sw] show ?thesis
    by (simp add: effective_level_def getAvailableThinkingLevels_def)
qed

theorem model_switch_keeps_level_supported_witness:
  "\<exists>s'. setModel sample_services True (sample_model ''n'') sample_session = (Inr (), s') \<and>
     as_thinkingLevel s' \<in> {''off'', ''low'', ''high''}"
proof -
  obtain s' where s': "setModel sample_services True (sample_model ''n'') sample_session = (Inr (), s')"
    using switch_model_returns [OF sample_unanswered] by (simp add: setModel_def) blast
  with model_switch_keeps_level_supported [OF s'] show ?thesis
    by (auto simp: sample_services_def sample_model_def)
qed

lemma current_index_at:
  assumes "find_index (\<lambda>m. sv_modelsEqual sv (Some m) (Some (ms ! i))) ms = Some i"
  shows "current_index sv ms (Some (ms ! i)) = i"
  using assms by (simp add: current_index_def)

text \<open>\<open>modelsAreEqual\<close> compares provider and id; the models listed differ in one of them.\<close>

definition models_listed :: "services \<Rightarrow> agent_model list \<Rightarrow> bool" where
  "models_listed sv ms \<longleftrightarrow>
     (\<forall>a b. sv_modelsEqual sv (Some a) (Some b) \<longleftrightarrow> mo_provider a = mo_provider b \<and> mo_id a = mo_id b) \<and>
     distinct (map (\<lambda>m. (mo_provider m, mo_id m)) ms)"

lemma current_index_listed:
  assumes "models_listed sv ms" and "i < length ms"
  shows "current_index sv ms (Some (ms ! i)) = i"
proof -
  have "find_index (\<lambda>m. (\<lambda>m. (mo_provider m, mo_id m)) m = (mo_provider (ms ! i), mo_id (ms ! i))) ms = Some i"
    using find_index_distinct [of "\<lambda>m. (mo_provider m, mo_id m)" ms i] assms by (simp add: models_listed_def)
  with assms(1) show ?thesis by (simp add: current_index_def models_listed_def)
qed

lemma cycleAvailable_next:
  assumes "models_listed sv ms" and "i < length ms" and "as_model s = Some (ms ! i)"
    and "cycleAvailableModel sv ms d s = (Inr r, s')" and "1 < length ms"
  shows "as_model s' = Some (ms ! cycle_index d i (length ms))"
proof -
  from assms obtain u where "switch_model sv (ms ! cycle_index d i (length ms)) (getThinkingLevelForModelSwitch None s) s = (Inr u, s')"
    by (auto simp: cycleAvailableModel_def current_index_listed Let_def andThen_Inr)
  from switch_model_ok(1) [OF this] show ?thesis .
qed

fun cycle_times :: "services \<Rightarrow> agent_model list \<Rightarrow> direction \<Rightarrow> nat \<Rightarrow> unit act" where
  "cycle_times sv ms d 0 = ret ()"
| "cycle_times sv ms d (Suc n) = andThen (cycleAvailableModel sv ms d) (\<lambda>_. cycle_times sv ms d n)"

text \<open>
  C2. Cycling forward goes through the available models in order and comes back: after \<open>k\<close> steps from
  the model at \<open>i\<close> the one at \<open>(i + k) mod n\<close> is in use, and a step backward takes back a step forward.
\<close>
theorem cycling_goes_round:
  assumes "models_listed sv ms" and "i < length ms" and "1 < length ms" and "as_model s = Some (ms ! i)"
    and "cycle_times sv ms Forward k s = (Inr u, s')"
  shows "as_model s' = Some (ms ! ((i + k) mod length ms)) \<and>
    (\<forall>r s''. cycleAvailableModel sv ms Backward s' = (Inr r, s'') \<longrightarrow> 0 < k \<longrightarrow>
       as_model s'' = Some (ms ! ((i + (k - 1)) mod length ms)))"
proof (intro conjI allI impI)
  show now_at: "as_model s' = Some (ms ! ((i + k) mod length ms))"
    using assms(2-5)
  proof (induction k arbitrary: i s)
    case 0
    then show ?case by simp
  next
    case (Suc k)
    from Suc.prems(4) obtain r s1 where c: "cycleAvailableModel sv ms Forward s = (Inr r, s1)"
      "cycle_times sv ms Forward k s1 = (Inr u, s')" by (auto simp: andThen_Inr)
    have "as_model s1 = Some (ms ! (Suc i mod length ms))"
      using cycleAvailable_next [OF assms(1) Suc.prems(1,3) c(1) Suc.prems(2)] by (simp add: cycle_index_def)
    moreover have "Suc i mod length ms < length ms" by (rule mod_less_divisor) (use Suc.prems(2) in linarith)
    ultimately have "as_model s' = Some (ms ! ((Suc i mod length ms + k) mod length ms))"
      using Suc.IH [OF _ Suc.prems(2) _ c(2)] by blast
    then show ?case by (simp add: mod_add_left_eq)
  qed
  fix r s''
  assume b: "cycleAvailableModel sv ms Backward s' = (Inr r, s'')" and k: "0 < k"
  let ?n = "length ms" and ?j = "(i + k) mod length ms"
  have "?j < ?n" by (rule mod_less_divisor) (use assms(3) in linarith)
  from cycleAvailable_next [OF assms(1) this now_at b assms(3)]
  have "as_model s'' = Some (ms ! ((?j + (?n - 1)) mod ?n))" using assms(3) by (simp add: cycle_index_def)
  also have "(?j + (?n - 1)) mod ?n = (i + k + (?n - 1)) mod ?n" by (rule mod_add_left_eq)
  also have "i + k + (?n - 1) = i + (k - 1) + ?n" using k assms(3) by simp
  finally show "as_model s'' = Some (ms ! ((i + (k - 1)) mod ?n))" by simp
qed

lemma cycle_times_returns: "unanswered s \<Longrightarrow> \<exists>s'. cycle_times sv ms d k s = (Inr (), s')"
proof (induction k arbitrary: s)
  case 0
  then show ?case by (simp add: ret_def)
next
  case (Suc k)
  have "\<exists>r s1. cycleAvailableModel sv ms d s = (Inr r, s1) \<and> unanswered s1"
  proof (cases "length ms \<le> 1")
    case True
    with Suc.prems show ?thesis by (simp add: cycleAvailableModel_def)
  next
    case False
    obtain s1 where "switch_model sv (ms ! cycle_index d (current_index sv ms (as_model s)) (length ms))
        (getThinkingLevelForModelSwitch None s) s = (Inr (), s1)" "unanswered s1"
      using switch_model_returns [OF Suc.prems] by blast
    with False show ?thesis by (simp add: cycleAvailableModel_def Let_def andThen_def)
  qed
  then obtain r s1 where "cycleAvailableModel sv ms d s = (Inr r, s1)" "unanswered s1" by blast
  with Suc.IH [of s1] show ?case by (simp add: andThen_returns)
qed

theorem cycling_goes_round_witness:
  "\<exists>s'. cycle_times sample_services [sample_model ''m'', sample_model ''n''] Forward 2 sample_session = (Inr (), s') \<and>
     as_model s' = Some (sample_model ''m'')"
proof -
  let ?ms = "[sample_model ''m'', sample_model ''n'']"
  obtain s' where s': "cycle_times sample_services ?ms Forward 2 sample_session = (Inr (), s')"
    using cycle_times_returns [OF sample_unanswered] by blast
  have "models_listed sample_services ?ms" by (auto simp: models_listed_def sample_services_def sample_model_def)
  from cycling_goes_round [OF this _ _ _ s', of 0] s' show ?thesis by (simp add: sample_session_def)
qed

section \<open>Moving in the tree\<close>

definition tip :: "string option \<Rightarrow> entry list \<Rightarrow> string option" where
  "tip p es = (if es = [] then p else Some (eid (last es)))"



text \<open>The log has grown by a chain that hangs below \<open>p\<close>, and the leaf is its end.\<close>

definition grown_at :: "string option \<Rightarrow> session_manager \<Rightarrow> session_manager \<Rightarrow> bool" where
  "grown_at p m m' \<longleftrightarrow> (\<exists>es. getEntries m' = getEntries m @ es \<and> chained p es \<and> sm_leafId m' = tip p es)"






lemma grown_at_labels [simp]:
  "grown_at p m (m'\<lparr>sm_labelsById := l, sm_labelTimestampsById := t\<rparr>) = grown_at p m m'"
  by (simp add: grown_at_def getEntries_def)

lemma grown_at_from_leaf [simp]: "grown_at p (m\<lparr>sm_leafId := q\<rparr>) m' = grown_at p m m'"
  by (simp add: grown_at_def getEntries_def)

















end
