(* ===== verification/Product_Copy.thy ===== *)
theory Product_Copy
  imports Utf8
begin

text \<open>
  The texts of \<open>harness/tui/copy.ts\<close> that the status line, the scouts and the managed tools show, as
  lists of Unicode scalar values.
\<close>

definition ascii :: "string \<Rightarrow> utext" where
  "ascii s = map of_char s"

definition COPY_probing :: utext where
  "COPY_probing = [27491, 22312, 26597, 30475, 26412, 26426, 8230]"

definition COPY_host_noGpu :: utext where
  "COPY_host_noGpu = [26410, 26816, 27979, 21040, 32, 71, 80, 85]"

definition COPY_host_dockerReady :: utext where
  "COPY_host_dockerReady = [68, 111, 99, 107, 101, 114, 32, 23601, 32490]"

definition COPY_host_dockerDown :: utext where
  "COPY_host_dockerDown = [68, 111, 99, 107, 101, 114, 32, 26410, 23601, 32490]"

definition COPY_host_dockerUnknown :: utext where
  "COPY_host_dockerUnknown = [68, 111, 99, 107, 101, 114, 32, 26410, 30693]"

definition COPY_host_local :: utext where
  "COPY_host_local = [20165, 26412, 26426]"

definition COPY_host_coreDown :: utext where
  "COPY_host_coreDown = [26412, 26426, 26381, 21153, 26242, 26102, 19981, 21487, 29992]"

definition COPY_service_unseen :: utext where
  "COPY_service_unseen = [26410, 26597, 30475, 26381, 21153]"

definition COPY_service_none :: utext where
  "COPY_service_none = [26080, 21463, 31649, 26381, 21153]"

definition COPY_service_ready :: utext where
  "COPY_service_ready = [23601, 32490]"

definition COPY_service_notReady :: utext where
  "COPY_service_notReady = [26410, 23601, 32490]"

definition COPY_service_stopped :: utext where
  "COPY_service_stopped = [24050, 20572, 27490]"

definition COPY_task_idle :: utext where
  "COPY_task_idle = [31354, 38386]"

definition COPY_task_awaitingConfirm :: utext where
  "COPY_task_awaitingConfirm = [31561, 24453, 30830, 35748]"

definition COPY_task_deploying :: utext where
  "COPY_task_deploying = [27491, 22312, 37096, 32626]"

definition COPY_task_benchmarking :: utext where
  "COPY_task_benchmarking = [27491, 22312, 21387, 27979]"

definition COPY_task_other :: utext where
  "COPY_task_other = [27491, 22312, 25191, 34892]"

definition COPY_collab_idle :: utext where
  "COPY_collab_idle = [21327, 20316, 32, 31354, 38386]"

definition COPY_collab_running :: utext where
  "COPY_collab_running = [25490, 26597, 20013]"

definition COPY_collab_awaitingConfirm :: utext where
  "COPY_collab_awaitingConfirm = [25490, 26597, 32, 183, 32, 31561, 24453, 30830, 35748]"

definition COPY_collab_done :: utext where
  "COPY_collab_done = [25490, 26597, 23436, 25104]"

definition COPY_collab_failed :: utext where
  "COPY_collab_failed = [25490, 26597, 26410, 33021, 23436, 25104]"

definition COPY_collab_compactPrefix :: utext where
  "COPY_collab_compactPrefix = [25490, 26597, 32, 215]"

definition COPY_collab_stepRunning :: utext where
  "COPY_collab_stepRunning = [36827, 34892, 20013]"

definition COPY_collab_stepDone :: utext where
  "COPY_collab_stepDone = [23436, 25104]"

definition COPY_collab_stepFailed :: utext where
  "COPY_collab_stepFailed = [26410, 33021, 23436, 25104]"

definition COPY_errors_investigateBusy :: utext where
  "COPY_errors_investigateBusy = [24050, 26377, 32, 51, 32, 20010, 25490, 26597, 22312, 36827, 34892]"

definition COPY_errors_investigateCancelled :: utext where
  "COPY_errors_investigateCancelled = [25490, 26597, 24050, 21462, 28040, 12290]"

definition COPY_errors_investigateFailed :: utext where
  "COPY_errors_investigateFailed = [25490, 26597, 26410, 33021, 23436, 25104, 12290]"

definition COPY_errors_investigateLimit :: utext where
  "COPY_errors_investigateLimit = [25490, 26597, 24050, 36798, 21040, 27493, 25968, 19978, 38480, 12290]"

definition COPY_errors_coreUnavailable :: utext where
  "COPY_errors_coreUnavailable = [26412, 26426, 26381, 21153, 26242, 26102, 19981, 21487, 29992, 12290]"

definition COPY_confirmBody_freeze :: utext where
  "COPY_confirmBody_freeze = [23558, 25226, 24403, 21069, 26041, 26696, 22266, 21270, 65292, 20043, 21518, 25353, 35813, 26041, 26696, 22312, 26412, 26426, 37096, 32626, 12290]"

definition COPY_confirmBody_start :: utext where
  "COPY_confirmBody_start = [23558, 25353, 24050, 30830, 35748, 30340, 26041, 26696, 22312, 26412, 26426, 21551, 21160, 26381, 21153, 65292, 21344, 29992, 25152, 36873, 32, 71, 80, 85, 12290]"

definition COPY_confirmBody_stop :: utext where
  "COPY_confirmBody_stop = [23558, 20572, 27490, 26412, 26426, 21463, 31649, 26381, 21153, 12290]"

definition COPY_confirmBody_recover :: utext where
  "COPY_confirmBody_recover = [23558, 25226, 26412, 26426, 21463, 31649, 26381, 21153, 19982, 23454, 38469, 23481, 22120, 29366, 24577, 37325, 26032, 23545, 40784, 12290]"

definition COPY_confirmBody_destructive :: utext where
  "COPY_confirmBody_destructive = [23558, 25353, 26723, 26696, 36305, 26497, 38480, 21387, 27979, 65292, 21487, 33021, 21344, 28385, 36825, 24352, 21345, 24182, 24433, 21709, 21516, 26426, 26381, 21153, 12290]"

definition COPY_confirmBody_loopback :: utext where
  "COPY_confirmBody_loopback = [32467, 26524, 19981, 33021, 25104, 20026, 23454, 27979, 12290]"

definition COPY_confirm_managed :: utext where
  "COPY_confirm_managed = [23558, 22312, 26412, 26426, 25191, 34892]"

definition COPY_footer_host :: utext where
  "COPY_footer_host = [26412, 26426]"

definition COPY_footer_service :: utext where
  "COPY_footer_service = [26381, 21153]"

definition COPY_footer_task :: utext where
  "COPY_footer_task = [20219, 21153]"

definition COPY_footer_separator :: utext where
  "COPY_footer_separator = [32, 32, 183, 32, 32]"

definition PRODUCT_WORDMARK :: utext where
  "PRODUCT_WORDMARK = [66, 73, 84, 84, 85, 78, 69]"

definition PRODUCT_TAGLINE :: utext where
  "PRODUCT_TAGLINE = [26412, 26426, 25512, 29702, 24037, 31243, 26234, 33021, 20307]"

definition LABEL_read :: utext where
  "LABEL_read = [35835, 21462]"

definition LABEL_bash :: utext where
  "LABEL_bash = [21629, 20196]"

definition INVESTIGATE_LABEL :: utext where
  "INVESTIGATE_LABEL = [25490, 26597]"

definition COPY_collab_capacity :: nat where
  "COPY_collab_capacity = 3"

end
