(* ===== verification/Host_Status.thy ===== *)
theory Host_Status
  imports Complex_Main Product_Copy Evidence_Intake Approval_Gate
begin

text \<open>
  The view of machine, managed service and running task that header and footer show
  (\<open>harness/tui/host-status.ts\<close>): its segments, how results of the managed tools change them, and the
  names of graphics cards. Sizes in MiB are exact rationals here.
\<close>

section \<open>Segments\<close>

datatype docker_state = DockerReady | DockerDown | DockerUnknown

datatype service_kind = Unseen | NoService | Running | NotReady | Stopped

datatype task_kind = IdleTask | AwaitingConfirm | Deploying | Benchmarking | OtherManaged

datatype collab_phase = CollabRunning | CollabAwaiting | CollabDone | CollabFailed

record host_segment =
  ho_gpuText :: utext
  ho_docker :: docker_state
  ho_coreDown :: bool
  ho_vramTotal :: "rat option"
  ho_vramUsed :: "rat option"
  ho_utilization :: "int option"

record service_segment =
  sv_kind :: service_kind
  sv_engine :: "utext option"

record collab_slot =
  co_id :: string
  co_title :: utext
  co_phase :: collab_phase

record host_status =
  hs_host :: host_segment
  hs_service :: service_segment
  hs_task :: task_kind
  hs_collab :: "collab_slot list"

definition createIdleHostStatus :: host_status where
  "createIdleHostStatus =
     \<lparr>hs_host = \<lparr>ho_gpuText = COPY_probing, ho_docker = DockerUnknown, ho_coreDown = False,
                 ho_vramTotal = None, ho_vramUsed = None, ho_utilization = None\<rparr>,
      hs_service = \<lparr>sv_kind = Unseen, sv_engine = None\<rparr>, hs_task = IdleTask, hs_collab = []\<rparr>"

section \<open>Names of cards\<close>

definition lower_code :: "nat \<Rightarrow> nat" where
  "lower_code c = (if 65 \<le> c \<and> c \<le> 90 then c + 32 else c)"

text \<open>A literal of an expression with the flag \<open>i\<close>: what follows it.\<close>

definition strip_ci :: "string \<Rightarrow> utext \<Rightarrow> utext option" where
  "strip_ci w t =
     (if length w \<le> length t \<and> map lower_code (take (length w) t) = map lower_code (ascii w)
      then Some (drop (length w) t) else None)"

definition word_code :: "nat \<Rightarrow> bool" where
  "word_code c \<longleftrightarrow> (48 \<le> c \<and> c \<le> 57) \<or> (65 \<le> c \<and> c \<le> 90) \<or> c = 95 \<or> (97 \<le> c \<and> c \<le> 122)"

definition boundary_code :: "utext \<Rightarrow> nat \<Rightarrow> bool" where
  "boundary_code t i \<longleftrightarrow> (0 < i \<and> i - 1 < length t \<and> word_code (t ! (i - 1))) \<noteq> (i < length t \<and> word_code (t ! i))"

text \<open>The ends of the matches at a position, in the order in which backtracking finds them.\<close>

definition lit_ends :: "utext \<Rightarrow> string \<Rightarrow> nat \<Rightarrow> nat list" where
  "lit_ends t w i = (if strip_ci w (drop i t) = None then [] else [i + length w])"

definition opt_space_ends :: "utext \<Rightarrow> nat \<Rightarrow> nat list" where
  "opt_space_ends t i = (if i < length t \<and> js_white (t ! i) then [Suc i, i] else [i])"

definition four_digit_ends :: "utext \<Rightarrow> nat \<Rightarrow> nat list" where
  "four_digit_ends t i =
     (if i + 4 \<le> length t \<and> (\<forall>c \<in> set (take 4 (drop i t)). 48 \<le> c \<and> c \<le> 57) then [i + 4] else [])"

definition rtx_ends :: "utext \<Rightarrow> nat \<Rightarrow> nat list" where
  "rtx_ends t i =
     concat (map (\<lambda>j. concat (map (\<lambda>k. concat (map (lit_ends t ''Ti'') (opt_space_ends t k)) @ [k]) (four_digit_ends t j)))
       (concat (map (opt_space_ends t) (lit_ends t ''RTX'' i))))"

definition gpu_short_names :: "string list" where
  "gpu_short_names = [''H100'', ''H200'', ''A100'', ''A800'', ''L40S'', ''L40'', ''L4'', ''T4'', ''V100'', ''A10'', ''A30'', ''A40'']"

definition GPU_SHORT_ends :: "utext \<Rightarrow> nat \<Rightarrow> nat list" where
  "GPU_SHORT_ends t i =
     (if boundary_code t i
      then filter (boundary_code t) (concat (map (\<lambda>w. lit_ends t w i) gpu_short_names) @ rtx_ends t i)
      else [])"

text \<open>\<open>cleaned.match(GPU_SHORT)?.[1]\<close>.\<close>

definition match_gpu_short :: "utext \<Rightarrow> utext option" where
  "match_gpu_short t =
     (case find_index (\<lambda>i. GPU_SHORT_ends t i \<noteq> []) [0..<Suc (length t)] of
        None \<Rightarrow> None
      | Some i \<Rightarrow> Some (take (hd (GPU_SHORT_ends t i) - i) (drop i t)))"

text \<open>\<open>replace(/\s+/g, " ")\<close>.\<close>

fun squeeze_space :: "utext \<Rightarrow> utext" where
  "squeeze_space [] = []"
| "squeeze_space [c] = (if js_white c then [32] else [c])"
| "squeeze_space (c # d # t) =
     (if js_white c then (if js_white d then squeeze_space (d # t) else 32 # squeeze_space (d # t))
      else c # squeeze_space (d # t))"

text \<open>\<open>replace(/rtx/i, "RTX")\<close>: the first occurrence.\<close>

fun upper_rtx :: "utext \<Rightarrow> utext" where
  "upper_rtx [] = []"
| "upper_rtx (c # t) = (case strip_ci ''RTX'' (c # t) of Some r \<Rightarrow> ascii ''RTX'' @ r | None \<Rightarrow> c # upper_rtx t)"

definition shortenGpuName :: "utext \<Rightarrow> utext" where
  "shortenGpuName name =
     (let cleaned = trim_text (case strip_ci ''NVIDIA'' name of
            Some (c # r) \<Rightarrow> if js_white c then dropWhile js_white r else name
          | _ \<Rightarrow> name)
      in case match_gpu_short cleaned of
           Some m \<Rightarrow> upper_rtx (squeeze_space m)
         | None \<Rightarrow> (let w = takeWhile (\<lambda>c. \<not> js_white c) cleaned in if w = [] then ascii ''GPU'' else w))"

fun count_name :: "utext \<Rightarrow> (utext \<times> nat) list \<Rightarrow> (utext \<times> nat) list" where
  "count_name n [] = [(n, 1)]"
| "count_name n ((m, k) # ms) = (if m = n then (m, Suc k) # ms else (m, k) # count_name n ms)"

definition formatGpuText :: "utext list \<Rightarrow> utext" where
  "formatGpuText names =
     (if names = [] then COPY_host_noGpu
      else join_with [32] (map (\<lambda>(label, n). if n > 1 then ascii (nat_str n) @ [215] @ label else label)
             (fold (\<lambda>name. count_name (shortenGpuName name)) names [])))"

definition nonneg :: "rat option \<Rightarrow> rat option" where
  "nonneg x = (case x of Some v \<Rightarrow> if v \<ge> 0 then Some v else None | None \<Rightarrow> None)"

definition hostFromDoctor ::
  "utext list \<Rightarrow> docker_state \<Rightarrow> bool \<Rightarrow> rat option \<Rightarrow> rat option \<Rightarrow> int option \<Rightarrow> host_segment" where
  "hostFromDoctor gpuNames docker coreDown vramTotal vramUsed utilization =
     \<lparr>ho_gpuText = formatGpuText gpuNames, ho_docker = docker, ho_coreDown = coreDown,
      ho_vramTotal = (case vramTotal of Some v \<Rightarrow> if v > 0 then Some v else None | None \<Rightarrow> None),
      ho_vramUsed = nonneg vramUsed,
      ho_utilization = (case utilization of Some u \<Rightarrow> if u \<ge> 0 then Some u else None | None \<Rightarrow> None)\<rparr>"

section \<open>The managed service\<close>

record service_record =
  sr_ownership :: "string option"
  sr_runtime_kind :: "string option"
  sr_observed_state :: "string option"

definition mapObservedState :: "string option \<Rightarrow> service_kind" where
  "mapObservedState state =
     (let value = to_lower (case state of Some s \<Rightarrow> s | None \<Rightarrow> []) in
      if value = ''ready'' then Running
      else if value \<in> {''stopped'', ''not_running'', ''exited'', ''dead''} then Stopped
      else NotReady)"

definition engine_of :: "service_record \<Rightarrow> utext" where
  "engine_of r = (case truthy_str (sr_runtime_kind r) of Some e \<Rightarrow> ascii e | None \<Rightarrow> COPY_footer_service)"

definition serviceFromManagedRecords :: "service_record list option \<Rightarrow> service_segment" where
  "serviceFromManagedRecords records =
     (case records of
        None \<Rightarrow> \<lparr>sv_kind = Unseen, sv_engine = None\<rparr>
      | Some rs \<Rightarrow>
          (let managed = filter (\<lambda>r. sr_ownership r = Some ''managed'') rs in
           if managed = [] then \<lparr>sv_kind = NoService, sv_engine = None\<rparr>
           else
             (let ranked = map (\<lambda>r. (engine_of r, mapObservedState (sr_observed_state r))) managed in
              case List.find (\<lambda>(e, k). k = Running) ranked of
                Some (e, k) \<Rightarrow> \<lparr>sv_kind = Running, sv_engine = Some e\<rparr>
              | None \<Rightarrow>
                  (case List.find (\<lambda>(e, k). k = NotReady) ranked of
                     Some (e, k) \<Rightarrow> \<lparr>sv_kind = NotReady, sv_engine = Some e\<rparr>
                   | None \<Rightarrow> \<lparr>sv_kind = Stopped, sv_engine = Some (fst (hd ranked))\<rparr>))))"

section \<open>Results of the managed tools\<close>

fun asRecord :: "json option \<Rightarrow> (string \<times> json) list option" where
  "asRecord (Some (JObj kvs)) = Some kvs"
| "asRecord _ = None"

fun asString :: "json option \<Rightarrow> string option" where
  "asString (Some (JStr s)) = (if s = [] then None else Some s)"
| "asString _ = None"

fun field_of :: "(string \<times> json) list option \<Rightarrow> string \<Rightarrow> json option" where
  "field_of (Some kvs) k = jm_get kvs k"
| "field_of None k = None"

text \<open>\<open>Number(text)\<close> of a text that is not blank, when it is finite.\<close>

definition digit_value :: "nat \<Rightarrow> nat option" where
  "digit_value c =
     (if 48 \<le> c \<and> c \<le> 57 then Some (c - 48)
      else if 97 \<le> c \<and> c \<le> 122 then Some (c - 87)
      else if 65 \<le> c \<and> c \<le> 90 then Some (c - 55) else None)"

fun digits_in :: "nat \<Rightarrow> utext \<Rightarrow> nat \<Rightarrow> nat option" where
  "digits_in base [] n = Some n"
| "digits_in base (c # cs) n =
     (case digit_value c of
        Some d \<Rightarrow> if d < base then digits_in base cs (base * n + d) else None
      | None \<Rightarrow> None)"

definition unsigned_int :: "nat \<Rightarrow> utext \<Rightarrow> nat option" where
  "unsigned_int base t = (if t = [] then None else digits_in base t 0)"

definition signed :: "utext \<Rightarrow> int \<times> utext" where
  "signed t = (if t \<noteq> [] \<and> hd t = 45 then (- 1, tl t) else if t \<noteq> [] \<and> hd t = 43 then (1, tl t) else (1, t))"

definition decimal_mantissa :: "utext \<Rightarrow> rat option" where
  "decimal_mantissa t =
     (let w = takeWhile (\<lambda>c. c \<noteq> 46) t; f = drop (Suc (length w)) t in
      if w = [] \<and> f = [] then None
      else (case digits_in 10 (w @ f) 0 of None \<Rightarrow> None | Some n \<Rightarrow> Some (of_nat n / 10 ^ length f)))"

definition decimal_number :: "utext \<Rightarrow> rat option" where
  "decimal_number t =
     (let (sign, r) = signed t;
          m = takeWhile (\<lambda>c. c \<noteq> 101 \<and> c \<noteq> 69) r
      in case decimal_mantissa m of
           None \<Rightarrow> None
         | Some v \<Rightarrow>
             if m = r then Some (of_int sign * v)
             else
               (let (es, e) = signed (drop (Suc (length m)) r) in
                case unsigned_int 10 e of
                  None \<Rightarrow> None
                | Some n \<Rightarrow> Some (of_int sign * (if es = 1 then v * 10 ^ n else v / 10 ^ n))))"

definition js_number :: "utext \<Rightarrow> rat option" where
  "js_number text_of =
     (let t = trim_text text_of; x = lower_code (t ! 1); r = drop 2 t in
      if length t \<ge> 2 \<and> hd t = 48 \<and> x = 120 then map_option of_nat (unsigned_int 16 r)
      else if length t \<ge> 2 \<and> hd t = 48 \<and> x = 111 then map_option of_nat (unsigned_int 8 r)
      else if length t \<ge> 2 \<and> hd t = 48 \<and> x = 98 then map_option of_nat (unsigned_int 2 r)
      else decimal_number t)"

fun asNumber :: "json option \<Rightarrow> rat option" where
  "asNumber (Some (JInt i)) = Some (of_int i)"
| "asNumber (Some (JStr s)) = (if trim_text (ascii s) = [] then None else js_number (ascii s))"
| "asNumber _ = None"

definition MIB :: rat where
  "MIB = 1048576"

definition mibFromBytes :: "rat \<Rightarrow> rat" where
  "mibFromBytes bytes = bytes / MIB"

definition unwrapPayload :: "json option \<Rightarrow> (string \<times> json) list option" where
  "unwrapPayload details =
     (case asRecord details of
        None \<Rightarrow> None
      | Some envelope \<Rightarrow>
          (case asRecord (jm_get envelope ''data'') of Some d \<Rightarrow> Some d | None \<Rightarrow> Some envelope))"

definition js_round :: "rat \<Rightarrow> int" where
  "js_round x = \<lfloor>x + 1 / 2\<rfloor>"

text \<open>Totals over cards: MiB in all and in use, and the utilisation, each with the number of cards that gave it.\<close>

record vram_sum =
  vs_total :: rat
  vs_totalKnown :: nat
  vs_used :: rat
  vs_usedKnown :: nat
  vs_util :: rat
  vs_utilKnown :: nat

definition vram_none :: vram_sum where
  "vram_none = \<lparr>vs_total = 0, vs_totalKnown = 0, vs_used = 0, vs_usedKnown = 0, vs_util = 0, vs_utilKnown = 0\<rparr>"

definition add_used :: "rat option \<Rightarrow> vram_sum \<Rightarrow> vram_sum" where
  "add_used used v = (case used of Some u \<Rightarrow> v\<lparr>vs_used := vs_used v + u, vs_usedKnown := Suc (vs_usedKnown v)\<rparr> | None \<Rightarrow> v)"

definition add_util :: "rat option \<Rightarrow> vram_sum \<Rightarrow> vram_sum" where
  "add_util util v =
     (case nonneg util of Some u \<Rightarrow> v\<lparr>vs_util := vs_util v + u, vs_utilKnown := Suc (vs_utilKnown v)\<rparr> | None \<Rightarrow> v)"

definition add_total :: "rat \<Rightarrow> vram_sum \<Rightarrow> vram_sum" where
  "add_total t v = v\<lparr>vs_total := vs_total v + t, vs_totalKnown := Suc (vs_totalKnown v)\<rparr>"

definition vram_result :: "vram_sum \<Rightarrow> rat option \<times> rat option \<times> int option" where
  "vram_result v =
     (if vs_totalKnown v > 0 then Some (vs_total v) else None,
      if vs_usedKnown v > 0 then Some (vs_used v) else None,
      if vs_utilKnown v > 0 then Some (js_round (vs_util v / of_nat (vs_utilKnown v))) else None)"

definition inspect_gpu :: "json \<Rightarrow> vram_sum \<Rightarrow> vram_sum" where
  "inspect_gpu row v =
     (case asRecord (Some row) of
        None \<Rightarrow> v
      | Some gpu \<Rightarrow>
          (case asNumber (jm_get gpu ''memory_total_bytes'') of
             None \<Rightarrow> v
           | Some totalBytes \<Rightarrow>
               if totalBytes \<le> 0 then v
               else add_util (asNumber (jm_get gpu ''utilization_percent''))
                 (add_used (map_option (\<lambda>free. mibFromBytes (max 0 (totalBytes - free)))
                             (nonneg (asNumber (jm_get gpu ''memory_free_bytes''))))
                   (add_total (mibFromBytes totalBytes) v))))"

definition vramFromInspectGpus :: "json list \<Rightarrow> rat option \<times> rat option \<times> int option" where
  "vramFromInspectGpus gpus = vram_result (fold inspect_gpu gpus vram_none)"

definition hostFromInspect :: "json option \<Rightarrow> host_segment \<Rightarrow> host_segment option" where
  "hostFromInspect details current =
     (case asRecord (field_of (unwrapPayload details) ''hardware_snapshot'') of
        None \<Rightarrow> None
      | Some snapshot \<Rightarrow>
          (let gpus = (case jm_get snapshot ''gpus'' of Some (JArr xs) \<Rightarrow> xs | _ \<Rightarrow> []);
               names = List.map_filter (\<lambda>g. asString (field_of (asRecord (Some g)) ''name'')) gpus;
               docker = (case asRecord (jm_get snapshot ''docker'') of
                           Some d \<Rightarrow> if jm_get d ''daemon'' = Some (JBool True) then DockerReady else DockerDown
                         | None \<Rightarrow> ho_docker current);
               (total, used, util) = vramFromInspectGpus gpus
           in Some (hostFromDoctor (map ascii names) docker False total used util)))"

definition flattenServiceObservation :: "json option \<Rightarrow> service_record" where
  "flattenServiceObservation row =
     (let wrap = (case asRecord row of Some w \<Rightarrow> w | None \<Rightarrow> []);
          service = (case asRecord (jm_get wrap ''service'') of Some s \<Rightarrow> s | None \<Rightarrow> wrap);
          container = asRecord (jm_get wrap ''current_container_state'');
          spec = asRecord (jm_get service ''runtime_spec'');
          state = asString (jm_get service ''observed_state'')
      in \<lparr>sr_ownership = asString (jm_get service ''ownership''),
          sr_runtime_kind = (case asString (jm_get service ''runtime_kind'') of
             Some k \<Rightarrow> Some k | None \<Rightarrow> asString (field_of spec ''runtime_kind'')),
          sr_observed_state =
            (if state = Some ''ready'' then Some ''ready''
             else (case asString (field_of container ''status'') of Some c \<Rightarrow> Some c | None \<Rightarrow> state))\<rparr>)"

definition recordsFromServiceResult :: "json option \<Rightarrow> service_record list option" where
  "recordsFromServiceResult details =
     (case unwrapPayload details of
        None \<Rightarrow> None
      | Some payload \<Rightarrow>
          (case jm_get payload ''services'' of
             Some (JArr xs) \<Rightarrow> Some (map (\<lambda>x. flattenServiceObservation (Some x)) xs)
           | _ \<Rightarrow>
               (case asRecord (jm_get payload ''service'') of
                  Some s \<Rightarrow> Some [flattenServiceObservation (Some (JObj payload))]
                | None \<Rightarrow> None)))"

section \<open>Events\<close>

datatype host_event =
    ToolCalled string "string option"
  | Confirming bool "string option" "string option"
  | ToolResulted string "json option"

definition taskFromFlight :: "bool \<Rightarrow> string option \<Rightarrow> string option \<Rightarrow> task_kind" where
  "taskFromFlight confirming toolName action =
     (case truthy_str toolName of
        None \<Rightarrow> IdleTask
      | Some t \<Rightarrow>
          if confirming then AwaitingConfirm
          else if t = ''deploy_service'' \<and> (action = None \<or> action = Some ''start'') then Deploying
          else if t = ''benchmark_service'' then Benchmarking
          else OtherManaged)"

definition detailsCode :: "json option \<Rightarrow> string option" where
  "detailsCode details = asString (field_of (asRecord details) ''code'')"

fun reduceHostStatus :: "host_status \<Rightarrow> host_event \<Rightarrow> host_status" where
  "reduceHostStatus s (ToolCalled toolName action) = s\<lparr>hs_task := taskFromFlight False (Some toolName) action\<rparr>"
| "reduceHostStatus s (Confirming open_now toolName action) = s\<lparr>hs_task := taskFromFlight open_now toolName action\<rparr>"
| "reduceHostStatus s (ToolResulted toolName details) =
     (let s1 = s\<lparr>hs_task := taskFromFlight False None None\<rparr>;
          s2 = (if detailsCode details = Some ''core_unavailable''
                then s1\<lparr>hs_host := (hs_host s)\<lparr>ho_coreDown := True\<rparr>\<rparr> else s1);
          s3 = (if toolName = ''inspect_environment''
                then (case hostFromInspect details (hs_host s) of Some h \<Rightarrow> s2\<lparr>hs_host := h\<rparr> | None \<Rightarrow> s2) else s2)
      in if toolName = ''inspect_service'' \<or> toolName = ''deploy_service''
         then (case recordsFromServiceResult details of
                 Some rs \<Rightarrow> s3\<lparr>hs_service := serviceFromManagedRecords (Some rs)\<rparr>
               | None \<Rightarrow> s3)
         else s3)"

end
