(* ===== verification/Status_Display.thy ===== *)
theory Status_Display
  imports Host_Status
begin

text \<open>
  How the status is written into the columns of a terminal (\<open>harness/tui/host-status.ts\<close>): the width of
  a text, its truncation, the segments and the lines of footer and header. Widths are integers, since
  the space that is left for a segment may be negative.
\<close>

section \<open>Columns\<close>

definition isWideChar :: "nat \<Rightarrow> bool" where
  "isWideChar code \<longleftrightarrow>
     (0x1100 \<le> code \<and> code \<le> 0x115F) \<or> (0x2E80 \<le> code \<and> code \<le> 0xA4CF \<and> code \<noteq> 0x303F) \<or>
     (0xAC00 \<le> code \<and> code \<le> 0xD7A3) \<or> (0xF900 \<le> code \<and> code \<le> 0xFAFF) \<or> (0xFE10 \<le> code \<and> code \<le> 0xFE19) \<or>
     (0xFE30 \<le> code \<and> code \<le> 0xFE6F) \<or> (0xFF00 \<le> code \<and> code \<le> 0xFF60) \<or> (0xFFE0 \<le> code \<and> code \<le> 0xFFE6) \<or>
     (0x3000 \<le> code \<and> code \<le> 0x303E) \<or> (0x3040 \<le> code \<and> code \<le> 0x30FF) \<or> (0x3400 \<le> code \<and> code \<le> 0x4DBF) \<or>
     (0x4E00 \<le> code \<and> code \<le> 0x9FFF) \<or> (0x20000 \<le> code \<and> code \<le> 0x2FFFD)"

definition char_columns :: "nat \<Rightarrow> int" where
  "char_columns c = (if isWideChar c then 2 else 1)"

definition columnWidth :: "utext \<Rightarrow> int" where
  "columnWidth t = sum_list (map char_columns t)"

fun columns_that_fit :: "int \<Rightarrow> int \<Rightarrow> utext \<Rightarrow> utext" where
  "columns_that_fit room width [] = []"
| "columns_that_fit room width (c # t) =
     (if width + char_columns c > room then [] else c # columns_that_fit room (width + char_columns c) t)"

definition ellipsis :: utext where
  "ellipsis = [0x2026]"

definition truncateColumns :: "utext \<Rightarrow> int \<Rightarrow> utext" where
  "truncateColumns t limit =
     (if limit \<le> 0 then []
      else if columnWidth t \<le> limit then t
      else if limit \<le> columnWidth ellipsis then ellipsis
      else columns_that_fit (limit - columnWidth ellipsis) 0 t @ ellipsis)"

section \<open>Sizes\<close>

definition show_int :: "int \<Rightarrow> utext" where
  "show_int i = ascii (int_str i)"

text \<open>\<open>toFixed(1)\<close> of \<open>n / 10\<close>.\<close>

definition show_tenths :: "int \<Rightarrow> utext" where
  "show_tenths n = (if n < 0 then [45] else []) @ show_int (\<bar>n\<bar> div 10) @ [46] @ show_int (\<bar>n\<bar> mod 10)"

definition formatGib :: "rat \<Rightarrow> bool \<Rightarrow> utext" where
  "formatGib mib installed =
     (let gib = mib / 1024; tenths = js_round (gib * 10) in
      if installed \<and> \<bar>gib - of_int (js_round gib)\<bar> < 4 / 10 then show_int (js_round gib) @ ascii ''G''
      else if tenths mod 10 = 0 then show_int (tenths div 10) @ ascii ''G''
      else show_tenths tenths @ ascii ''G'')"

definition vram_known :: "host_segment \<Rightarrow> rat option" where
  "vram_known h = (case ho_vramTotal h of Some v \<Rightarrow> if v > 0 then Some v else None | None \<Rightarrow> None)"

definition formatVramText :: "host_segment \<Rightarrow> utext option" where
  "formatVramText h =
     (case vram_known h of
        None \<Rightarrow> None
      | Some v \<Rightarrow>
          (let installed = formatGib v True in
           case nonneg (ho_vramUsed h) of
             None \<Rightarrow> Some installed
           | Some u \<Rightarrow>
               (let used = formatGib u False in
                Some ((if used \<noteq> [] \<and> last used = 71 then butlast used else used) @ ascii ''/'' @ installed))))"

definition formatVramBar :: "rat \<Rightarrow> rat \<Rightarrow> utext" where
  "formatVramBar used installed =
     (if \<not> installed > 0 then []
      else
        (let cells = 10; filled = max 0 (min cells (js_round (max 0 used / installed * of_int cells))) in
         replicate (nat filled) 0x2588 @ replicate (nat (cells - filled)) 0x2591))"

section \<open>Segments\<close>

definition middle_dot :: utext where
  "middle_dot = [32, 0xB7, 32]"

definition formatHostParts :: "host_segment \<Rightarrow> bool \<Rightarrow> utext list" where
  "formatHostParts h vramBar =
     (if ho_coreDown h then [COPY_host_coreDown]
      else
        (let docker = (case ho_docker h of DockerReady \<Rightarrow> COPY_host_dockerReady | DockerDown \<Rightarrow> COPY_host_dockerDown
                        | DockerUnknown \<Rightarrow> COPY_host_dockerUnknown);
             bar = (case (vramBar, vram_known h, nonneg (ho_vramUsed h)) of
                      (True, Some installed, Some used) \<Rightarrow> formatVramBar used installed | _ \<Rightarrow> []);
             gpu = (case formatVramText h of
                      Some vram \<Rightarrow> ho_gpuText h @ [32] @ vram @ (if bar \<noteq> [] then [32, 32] @ bar else [])
                    | None \<Rightarrow> ho_gpuText h)
         in (if ho_gpuText h = COPY_probing \<and> ho_docker h = DockerUnknown then [COPY_probing] else [gpu, docker]) @
            [COPY_host_local]))"

definition formatHostText :: "host_segment \<Rightarrow> utext" where
  "formatHostText h = join_with middle_dot (formatHostParts h False)"

definition formatFooterHost :: "host_segment \<Rightarrow> utext" where
  "formatFooterHost h = join_with middle_dot (formatHostParts h True)"

definition live_phase :: "collab_phase \<Rightarrow> bool" where
  "live_phase p \<longleftrightarrow> p = CollabRunning \<or> p = CollabAwaiting"

definition activeCollab :: "collab_slot list \<Rightarrow> collab_slot list" where
  "activeCollab = filter (\<lambda>s. live_phase (co_phase s))"

definition running_count :: "nat \<Rightarrow> utext" where
  "running_count n = COPY_collab_running @ [32] @ ascii (nat_str n) @ [47] @ ascii (nat_str COPY_collab_capacity)"

definition formatFooterCollab :: "collab_slot list \<Rightarrow> utext option" where
  "formatFooterCollab collab =
     (let live = activeCollab collab in
      if live = [] then None
      else if \<exists>s \<in> set collab. co_phase s = CollabAwaiting then Some COPY_collab_awaitingConfirm
      else Some (running_count (length live)))"

definition service_engine :: "service_segment \<Rightarrow> utext" where
  "service_engine s = (case sv_engine s of Some e \<Rightarrow> if e = [] then COPY_footer_service else e | None \<Rightarrow> COPY_footer_service)"

fun formatServiceText :: "service_segment \<Rightarrow> utext" where
  "formatServiceText s =
     (case sv_kind s of
        Unseen \<Rightarrow> COPY_service_unseen
      | NoService \<Rightarrow> COPY_service_none
      | Running \<Rightarrow> service_engine s @ [32] @ COPY_service_ready
      | NotReady \<Rightarrow> service_engine s @ [32] @ COPY_service_notReady
      | Stopped \<Rightarrow> service_engine s @ [32] @ COPY_service_stopped)"

fun formatTaskText :: "task_kind \<Rightarrow> utext" where
  "formatTaskText AwaitingConfirm = COPY_task_awaitingConfirm"
| "formatTaskText Deploying = COPY_task_deploying"
| "formatTaskText Benchmarking = COPY_task_benchmarking"
| "formatTaskText OtherManaged = COPY_task_other"
| "formatTaskText IdleTask = COPY_task_idle"

definition formatCollabText :: "collab_slot list \<Rightarrow> bool \<Rightarrow> utext" where
  "formatCollabText collab short =
     (let live = activeCollab collab in
      if \<exists>s \<in> set collab. co_phase s = CollabAwaiting then COPY_collab_awaitingConfirm
      else if live \<noteq> [] then
        (if short then COPY_collab_compactPrefix @ ascii (nat_str (length live))
         else if length live = 1 \<and> co_title (hd live) \<noteq> [] then truncateColumns (co_title (hd live)) 16
         else running_count (length live))
      else if collab = [] then (if short then COPY_task_idle else COPY_collab_idle)
      else if \<exists>s \<in> set collab. co_phase s = CollabFailed then COPY_collab_failed
      else COPY_collab_done)"

section \<open>Lines\<close>

definition FOOTER_WIDE_MIN :: int where
  "FOOTER_WIDE_MIN = 120"

text \<open>A segment after the host, in what room is left.\<close>

definition host_and_rest :: "utext \<Rightarrow> utext \<Rightarrow> int \<Rightarrow> utext" where
  "host_and_rest host rest width =
     (let sep = COPY_footer_separator; remaining = width - columnWidth host - columnWidth sep in
      if remaining \<ge> 4 then host @ sep @ truncateColumns rest remaining
      else truncateColumns host width)"

definition formatFooterLine :: "host_status \<Rightarrow> int \<Rightarrow> utext" where
  "formatFooterLine status width =
     (let host = COPY_footer_host @ [32] @ formatFooterHost (hs_host status);
          service = COPY_footer_service @ [32] @ formatServiceText (hs_service status);
          task = COPY_footer_task @ [32] @ formatTaskText (hs_task status);
          collab = formatFooterCollab (hs_collab status);
          sep = COPY_footer_separator;
          last_parts = (case collab of Some c \<Rightarrow> [c] | None \<Rightarrow> []);
          full = join_with sep ([host, service, task] @ last_parts);
          withoutService = join_with sep ([host, task] @ last_parts)
      in if columnWidth full \<le> width then full
         else if columnWidth withoutService \<le> width then withoutService
         else (case collab of
                 Some c \<Rightarrow>
                   (let hostCollab = join_with sep [host, c] in
                    if columnWidth hostCollab \<le> width then hostCollab else host_and_rest host c width)
               | None \<Rightarrow> host_and_rest host task width))"

definition formatManagedServiceLine :: "host_status \<Rightarrow> utext option" where
  "formatManagedServiceLine status =
     (if sv_kind (hs_service status) \<noteq> Running then None
      else
        (let h = hs_host status;
             vram = (case (vram_known h, nonneg (ho_vramUsed h)) of
                (Some installed, Some used) \<Rightarrow>
                  [formatVramBar used installed] @
                  (case formatVramText h of Some v \<Rightarrow> if v = [] then [] else [v] | None \<Rightarrow> []) @
                  (case ho_utilization h of Some u \<Rightarrow> if u \<ge> 0 then [show_int u @ [37]] else [] | None \<Rightarrow> [])
              | _ \<Rightarrow> [])
         in Some (join_with [32, 32] ((service_engine (hs_service status) @ [32] @ COPY_service_ready) # vram))))"

definition formatFooterLines :: "host_status \<Rightarrow> int \<Rightarrow> utext list" where
  "formatFooterLines status width =
     (let first = formatFooterLine status width in
      if width < FOOTER_WIDE_MIN then [first]
      else (case formatManagedServiceLine status of Some l \<Rightarrow> [first, l] | None \<Rightarrow> [first]))"

definition align :: "utext \<Rightarrow> utext \<Rightarrow> int \<Rightarrow> utext option" where
  "align left right width =
     (let gap = width - columnWidth left - columnWidth right in
      if gap < 2 then None else Some (left @ replicate (nat gap) 32 @ right))"

definition formatCompactHeader :: "utext \<Rightarrow> collab_slot list \<Rightarrow> int \<Rightarrow> utext" where
  "formatCompactHeader version collab width =
     (let wordmark = PRODUCT_WORDMARK @ [32, 32] @ ascii ''v'' @ version;
          right = formatCollabText collab False;
          compactRight = formatCollabText collab True;
          withTagline = wordmark @ [32, 32] @ PRODUCT_TAGLINE
      in case align withTagline right width of
           Some l \<Rightarrow> l
         | None \<Rightarrow>
             (case align wordmark right width of
                Some l \<Rightarrow> l
              | None \<Rightarrow>
                  (case align wordmark compactRight width of
                     Some l \<Rightarrow> l
                   | None \<Rightarrow> truncateColumns (wordmark @ [32, 32] @ compactRight) width)))"

section \<open>Widths of what is written\<close>

lemma columnWidth_simps [simp]:
  "columnWidth [] = 0" "columnWidth (c # t) = char_columns c + columnWidth t"
  "columnWidth (t @ u) = columnWidth t + columnWidth u" "columnWidth ellipsis = 1"
  by (simp_all add: columnWidth_def ellipsis_def char_columns_def isWideChar_def)

lemma char_columns_bounds: "1 \<le> char_columns c" "char_columns c \<le> 2"
  by (simp_all add: char_columns_def)

lemma columnWidth_spaces [simp]: "columnWidth (replicate n 32) = int n"
  by (induction n) (simp_all add: char_columns_def isWideChar_def)

lemma columns_that_fit_width: "width \<le> room \<Longrightarrow> width + columnWidth (columns_that_fit room width t) \<le> room"
proof (induction t arbitrary: width)
  case Nil
  then show ?case by simp
next
  case (Cons c t)
  show ?case
  proof (cases "width + char_columns c > room")
    case True
    with Cons.prems show ?thesis by simp
  next
    case False
    with Cons.IH [of "width + char_columns c"] show ?thesis by simp
  qed
qed

lemma truncateColumns_width:
  assumes "0 \<le> limit"
  shows "columnWidth (truncateColumns t limit) \<le> limit"
  using assms columns_that_fit_width [of 0 "limit - 1" t] by (auto simp: truncateColumns_def)

lemma align_width: "align left right width = Some l \<Longrightarrow> columnWidth l = width"
  by (auto simp: align_def Let_def split: if_splits)

lemma host_and_rest_width:
  assumes "0 \<le> width"
  shows "columnWidth (host_and_rest host rest width) \<le> width"
  using truncateColumns_width [OF assms, of host]
    truncateColumns_width [of "width - columnWidth host - columnWidth COPY_footer_separator" rest]
  by (auto simp: host_and_rest_def Let_def)

lemma formatFooterLine_width:
  assumes "0 \<le> width"
  shows "columnWidth (formatFooterLine status width) \<le> width"
  using host_and_rest_width [OF assms] by (auto simp: formatFooterLine_def Let_def split: option.split)

lemma formatCompactHeader_width:
  assumes "0 \<le> width"
  shows "columnWidth (formatCompactHeader version collab width) \<le> width"
  unfolding formatCompactHeader_def Let_def
  using truncateColumns_width [OF assms] by (auto split: option.split dest: align_width)

end
