(* ===== verification/Scout_Text.thy ===== *)
theory Scout_Text
  imports Status_Display Settings_Manager
begin

text \<open>
  What a scout is told, what it is called, and what it reports (the pure part of
  \<open>harness/subagent.ts\<close>): the facts about the machine, the choice of its model, its steps, and the
  summary of the child session. \<open>contentText\<close> of the messages and \<open>localeCompare\<close> are arguments.
\<close>

section \<open>Facts for the scout\<close>

definition scoutHostLine :: "host_segment \<Rightarrow> utext option" where
  "scoutHostLine h =
     (if ho_coreDown h \<or> ho_gpuText h = COPY_probing then None
      else
        (let docker = (case ho_docker h of DockerReady \<Rightarrow> [COPY_host_dockerReady] | DockerDown \<Rightarrow> [COPY_host_dockerDown]
                        | DockerUnknown \<Rightarrow> []);
             gpu = (case formatVramText h of Some v \<Rightarrow> ho_gpuText h @ [32] @ v | None \<Rightarrow> ho_gpuText h)
         in Some (COPY_footer_host @ [32] @ join_with middle_dot (gpu # docker))))"

text \<open>The words before a managed service and before the paths of the hint.\<close>

definition managed_service_word :: utext where
  "managed_service_word = [21463, 31649, 26381, 21153, 32]"

definition hint_word :: utext where
  "hint_word = [32447, 32034, 36335, 24452, 32]"

definition scoutServiceLine :: "service_segment \<Rightarrow> utext option" where
  "scoutServiceLine s = (if sv_kind s = Unseen then None else Some (managed_service_word @ formatServiceText s))"

text \<open>The matches of \<open>HINT_PATH\<close>: a drive or none, a slash, and at least one character of a path.\<close>

definition path_code :: "nat \<Rightarrow> bool" where
  "path_code c \<longleftrightarrow> \<not> js_white c \<and> c \<noteq> 34 \<and> c \<noteq> 39 \<and> c \<noteq> 96"

definition slash_code :: "nat \<Rightarrow> bool" where
  "slash_code c \<longleftrightarrow> c = 47 \<or> c = 92"

definition letter_code :: "nat \<Rightarrow> bool" where
  "letter_code c \<longleftrightarrow> (65 \<le> c \<and> c \<le> 90) \<or> (97 \<le> c \<and> c \<le> 122)"

definition slash_path :: "utext \<Rightarrow> utext option" where
  "slash_path t =
     (if t \<noteq> [] \<and> slash_code (hd t) \<and> takeWhile path_code (tl t) \<noteq> []
      then Some (hd t # takeWhile path_code (tl t)) else None)"

definition hint_path_at :: "utext \<Rightarrow> utext option" where
  "hint_path_at t =
     (case (if length t \<ge> 2 \<and> letter_code (hd t) \<and> t ! 1 = 58 then slash_path (drop 2 t) else None) of
        Some p \<Rightarrow> Some (take 2 t @ p)
      | None \<Rightarrow> slash_path t)"

lemma hint_path_at_nonempty: "hint_path_at t = Some p \<Longrightarrow> p \<noteq> []"
  by (auto simp: hint_path_at_def slash_path_def split: option.splits if_splits)

function hint_paths :: "utext \<Rightarrow> utext list" where
  "hint_paths t =
     (if t = [] then []
      else (case hint_path_at t of
              Some p \<Rightarrow> p # hint_paths (drop (length p) t)
            | None \<Rightarrow> hint_paths (tl t)))"
  by auto
termination
  by (relation "measure length") (auto dest: hint_path_at_nonempty)

declare hint_paths.simps [simp del]

definition scoutHintPaths :: "utext \<Rightarrow> utext option" where
  "scoutHintPaths hint =
     (if trim_text hint = [] \<or> hint_paths hint = [] then None
      else Some (hint_word @ join_with [32] (map (\<lambda>p. truncateColumns p 80) (fold add_once (hint_paths hint) []))))"

definition formatScoutContextPack :: "host_status \<Rightarrow> utext \<Rightarrow> utext" where
  "formatScoutContextPack status hint =
     join_with [newline]
       (filter (\<lambda>l. l \<noteq> [])
         (List.map_filter id [scoutHostLine (hs_host status), scoutServiceLine (hs_service status), scoutHintPaths hint]))"

section \<open>Its model\<close>

record scout_model =
  sm_provider :: string
  sm_id :: string
  sm_contextWindow :: "nat option"

definition scoutModelKey :: "scout_model \<Rightarrow> string" where
  "scoutModelKey m = sm_provider m @ ''/'' @ sm_id m"

definition lookupEnabledScoutModel :: "string \<Rightarrow> scout_model list \<Rightarrow> scout_model option" where
  "lookupEnabledScoutModel pattern catalog =
     (let trimmed = trim pattern in
      if trimmed = [] then None
      else
        (let l = to_lower trimmed;
             matches = filter (\<lambda>m. to_lower (sm_id m) = l \<or> to_lower (scoutModelKey m) = l) catalog
         in case matches of [m] \<Rightarrow> Some m | _ \<Rightarrow> None))"

text \<open>
  The order of the sort: by context window, then by name. An unknown window counts as infinite, and the
  difference of two of them is no number, which the sort takes for equal.
\<close>

definition scout_before :: "(string \<Rightarrow> string \<Rightarrow> int) \<Rightarrow> scout_model \<Rightarrow> scout_model \<Rightarrow> bool" where
  "scout_before localeCompare a b =
     (case (sm_contextWindow a, sm_contextWindow b) of
        (Some m, Some n) \<Rightarrow> m < n \<or> (m = n \<and> localeCompare (scoutModelKey a) (scoutModelKey b) < 0)
      | (Some m, None) \<Rightarrow> True
      | _ \<Rightarrow> False)"

definition first_of_sorted :: "(string \<Rightarrow> string \<Rightarrow> int) \<Rightarrow> scout_model list \<Rightarrow> scout_model option" where
  "first_of_sorted localeCompare ms =
     (case ms of
        [] \<Rightarrow> None
      | m # r \<Rightarrow> Some (fold (\<lambda>a best. if scout_before localeCompare a best then a else best) r m))"

fun other_models :: "string option \<Rightarrow> scout_model list \<Rightarrow> string list \<Rightarrow> scout_model list" where
  "other_models parent [] seen = []"
| "other_models parent (m # ms) seen =
     (if Some (scoutModelKey m) = parent \<or> scoutModelKey m \<in> set seen then other_models parent ms seen
      else m # other_models parent ms (scoutModelKey m # seen))"

definition resolveScoutModel ::
  "(string \<Rightarrow> string \<Rightarrow> int) \<Rightarrow> scout_model option \<Rightarrow> scout_model option list \<Rightarrow> string list \<Rightarrow> scout_model list \<Rightarrow>
     scout_model option" where
  "resolveScoutModel localeCompare parent scopedModels enabledModels catalog =
     (let fromScoped = List.map_filter id scopedModels;
          fromEnabled = List.map_filter (\<lambda>p. lookupEnabledScoutModel p catalog) enabledModels;
          unique = other_models (map_option scoutModelKey parent) (fromScoped @ fromEnabled) []
      in case first_of_sorted localeCompare unique of Some m \<Rightarrow> Some m | None \<Rightarrow> parent)"

section \<open>Its steps\<close>

datatype scout_tool = ReadTool | BashTool

datatype step_status = StepRunning | StepDone | StepFailed

record scout_step =
  ss_id :: string
  ss_name :: scout_tool
  ss_target :: utext
  ss_status :: step_status

definition tool_label :: "scout_tool \<Rightarrow> utext" where
  "tool_label t = (case t of ReadTool \<Rightarrow> LABEL_read | BashTool \<Rightarrow> LABEL_bash)"

definition investigateTitle :: "utext \<Rightarrow> utext" where
  "investigateTitle goal =
     (let trimmed = trim_text goal in
      if trimmed = [] then INVESTIGATE_LABEL else INVESTIGATE_LABEL @ middle_dot @ trimmed)"

definition INVESTIGATE_TOOL_LIMIT :: nat where
  "INVESTIGATE_TOOL_LIMIT = 12"

definition INVESTIGATE_TURN_LIMIT :: nat where
  "INVESTIGATE_TURN_LIMIT = 16"

definition formatInvestigateCallTitle :: "utext \<Rightarrow> nat \<Rightarrow> bool \<Rightarrow> utext" where
  "formatInvestigateCallTitle goal stepCount inProgress =
     (if \<not> inProgress then investigateTitle goal
      else investigateTitle goal @ [32, 32] @ COPY_collab_stepRunning @ [32] @ ascii (nat_str stepCount) @ [47] @
           ascii (nat_str INVESTIGATE_TOOL_LIMIT))"

definition step_line :: "scout_step \<Rightarrow> utext" where
  "step_line s =
     middle_dot @ tool_label (ss_name s) @
     (if ss_target s \<noteq> [] then [32, 32] @ truncateColumns (ss_target s) 80 else []) @ [32, 32] @
     (case ss_status s of StepRunning \<Rightarrow> COPY_collab_stepRunning | StepFailed \<Rightarrow> COPY_collab_stepFailed
      | StepDone \<Rightarrow> COPY_collab_stepDone)"

definition formatInvestigateSteps :: "scout_step list \<Rightarrow> utext" where
  "formatInvestigateSteps steps = join_with [newline] (map step_line steps)"

definition collabTitleFromSteps :: "utext \<Rightarrow> scout_step list \<Rightarrow> utext" where
  "collabTitleFromSteps goal steps =
     (case (case List.find (\<lambda>s. ss_status s = StepRunning) (rev steps) of
              Some s \<Rightarrow> Some s | None \<Rightarrow> if steps = [] then None else Some (last steps)) of
        None \<Rightarrow> truncateColumns goal 16
      | Some live \<Rightarrow>
          truncateColumns
            (if ss_target live \<noteq> [] then tool_label (ss_name live) @ [32] @ ss_target live else tool_label (ss_name live)) 16)"

text \<open>\<open>String(value)\<close> of a value that came out of JSON.\<close>

fun js_String :: "json \<Rightarrow> string" where
  "js_String JNull = ''null''"
| "js_String (JBool b) = (if b then ''true'' else ''false'')"
| "js_String (JInt i) = int_str i"
| "js_String (JStr s) = s"
| "js_String (JArr xs) = join_with '','' (map (\<lambda>x. if x = JNull then [] else js_String x) xs)"
| "js_String (JObj kvs) = ''[object Object]''"

definition childStepTarget :: "scout_tool \<Rightarrow> (string \<times> json) list \<Rightarrow> utext" where
  "childStepTarget t args =
     (case jm_get args (case t of ReadTool \<Rightarrow> ''path'' | BashTool \<Rightarrow> ''command'') of
        None \<Rightarrow> [] | Some JNull \<Rightarrow> [] | Some v \<Rightarrow> ascii (js_String v))"

section \<open>Its report\<close>

definition scout_tool_of :: "string \<Rightarrow> scout_tool option" where
  "scout_tool_of name = (if name = ''read'' then Some ReadTool else if name = ''bash'' then Some BashTool else None)"

definition EMPTY_INVESTIGATE :: utext where
  "EMPTY_INVESTIGATE = [25490, 26597, 26410, 36820, 22238, 32467, 35770, 12290]"

text \<open>Conclusions of the child, its calls so far, and a line for each result of a call.\<close>

fun summarize_message ::
  "(content option \<Rightarrow> string) \<Rightarrow> agent_message \<Rightarrow>
     utext list \<times> (string \<times> block) list \<times> utext list \<Rightarrow> utext list \<times> (string \<times> block) list \<times> utext list" where
  "summarize_message contentText (Assistant a) (conclusions, calls, summaries) =
     (let t = trim_text (ascii (contentText (map_option Blocks (am_content a)))) in
      (if t \<noteq> [] then conclusions @ [t] else conclusions,
       fold (\<lambda>b m. case b of ToolCallBlock i n args \<Rightarrow> jm_set i b m | _ \<Rightarrow> m)
         (case am_content a of Some bs \<Rightarrow> bs | None \<Rightarrow> []) calls,
       summaries))"
| "summarize_message contentText (ToolResult i c t) (conclusions, calls, summaries) =
     (case jm_get calls i of
        Some (ToolCallBlock j name args) \<Rightarrow>
          (case scout_tool_of name of
             None \<Rightarrow> (conclusions, calls, summaries)
           | Some tool \<Rightarrow>
               (let target = childStepTarget tool args in
                (conclusions, calls,
                 summaries @ [if target \<noteq> [] then tool_label tool @ [32] @ truncateColumns target 80 else tool_label tool])))
      | _ \<Rightarrow> (conclusions, calls, summaries))"
| "summarize_message contentText m st = st"

definition summarizeChild :: "(content option \<Rightarrow> string) \<Rightarrow> agent_message list \<Rightarrow> utext" where
  "summarizeChild contentText messages =
     (let (conclusions, calls, summaries) = fold (summarize_message contentText) messages ([], [], []);
          t = join_with [newline] (conclusions @ summaries)
      in if t = [] then EMPTY_INVESTIGATE else t)"

definition limitedInvestigateText :: "(content option \<Rightarrow> string) \<Rightarrow> agent_message list option \<Rightarrow> utext" where
  "limitedInvestigateText contentText child =
     (case child of
        None \<Rightarrow> COPY_errors_investigateLimit
      | Some messages \<Rightarrow>
          (let findings = summarizeChild contentText messages in
           if findings = [] \<or> findings = EMPTY_INVESTIGATE then COPY_errors_investigateLimit
           else COPY_errors_investigateLimit @ [newline] @ findings))"

end
