(* ===== verification/Host_Pulse.thy ===== *)
theory Host_Pulse
  imports Host_Status
begin

text \<open>
  The store of the host status with the timer that clears settled scouts
  (\<open>HostStatusStore\<close>, \<open>harness/tui/host-status.ts\<close>), and the probe of the graphics cards that runs
  while a managed service does (\<open>harness/tui/host-pulse.ts\<close>). Timers and answers of the probe are
  events; the answer of \<open>nvidia-smi\<close> is a text.
\<close>

section \<open>The store\<close>

record host_store =
  st_status :: host_status
  st_hold :: bool

definition store_start :: host_store where
  "store_start = \<lparr>st_status = createIdleHostStatus, st_hold = False\<rparr>"

definition store_set :: "host_status \<Rightarrow> host_store \<Rightarrow> host_store" where
  "store_set status st = st\<lparr>st_status := status\<rparr>"

definition patch_host :: "host_segment \<Rightarrow> host_store \<Rightarrow> host_store" where
  "patch_host h st = st\<lparr>st_status := (st_status st)\<lparr>hs_host := h\<rparr>\<rparr>"

definition patch_collab :: "collab_slot list \<Rightarrow> host_store \<Rightarrow> host_store" where
  "patch_collab c st = st\<lparr>st_status := (st_status st)\<lparr>hs_collab := c\<rparr>\<rparr>"

definition slots :: "host_store \<Rightarrow> collab_slot list" where
  "slots st = hs_collab (st_status st)"

definition live_slot :: "collab_slot \<Rightarrow> bool" where
  "live_slot s \<longleftrightarrow> co_phase s = CollabRunning \<or> co_phase s = CollabAwaiting"

definition clearHoldTimer :: "host_store \<Rightarrow> host_store" where
  "clearHoldTimer st = st\<lparr>st_hold := False\<rparr>"

definition scheduleCollabHold :: "host_store \<Rightarrow> host_store" where
  "scheduleCollabHold st =
     (if (\<exists>s \<in> set (slots st). live_slot s) \<or> slots st = [] then clearHoldTimer st
      else (clearHoldTimer st)\<lparr>st_hold := True\<rparr>)"

definition patched_slot :: "utext option \<Rightarrow> collab_phase option \<Rightarrow> collab_slot \<Rightarrow> collab_slot" where
  "patched_slot title phase s =
     s\<lparr>co_title := (case title of Some t \<Rightarrow> t | None \<Rightarrow> co_title s),
       co_phase := (case phase of Some p \<Rightarrow> p | None \<Rightarrow> co_phase s)\<rparr>"

definition with_slot :: "string \<Rightarrow> utext option \<Rightarrow> collab_phase option \<Rightarrow> collab_slot list \<Rightarrow> collab_slot list" where
  "with_slot i title phase next_slots =
     (case find_index (\<lambda>s. co_id s = i) next_slots of
        None \<Rightarrow>
          next_slots @ [\<lparr>co_id = i, co_title = (case title of Some t \<Rightarrow> t | None \<Rightarrow> []),
                         co_phase = (case phase of Some p \<Rightarrow> p | None \<Rightarrow> CollabRunning)\<rparr>]
      | Some k \<Rightarrow> next_slots[k := patched_slot title phase (next_slots ! k)])"

definition setCollab :: "string \<Rightarrow> utext option \<Rightarrow> collab_phase option \<Rightarrow> host_store \<Rightarrow> host_store" where
  "setCollab i title phase st = scheduleCollabHold (patch_collab (with_slot i title phase (slots st)) st)"

definition clearSettledCollab :: "host_store \<Rightarrow> host_store" where
  "clearSettledCollab st =
     (let st1 = clearHoldTimer st; live = filter live_slot (slots st) in
      if length live \<noteq> length (slots st) then patch_collab live st1 else st1)"

section \<open>The answer of nvidia-smi\<close>

record pulse_gpu =
  pg_name :: utext
  pg_vramTotal :: "rat option"
  pg_vramUsed :: "rat option"
  pg_utilization :: "rat option"

fun split_at_code :: "nat \<Rightarrow> utext \<Rightarrow> utext list" where
  "split_at_code d [] = [[]]"
| "split_at_code d (c # t) =
     (if c = d then [] # split_at_code d t
      else (case split_at_code d t of w # ws \<Rightarrow> (c # w) # ws | [] \<Rightarrow> [[c]]))"

definition digit_code :: "nat \<Rightarrow> bool" where
  "digit_code c \<longleftrightarrow> 48 \<le> c \<and> c \<le> 57"

definition decimal_of :: "utext \<Rightarrow> rat option" where
  "decimal_of t = decimal_mantissa t"

definition not_available :: "utext \<Rightarrow> bool" where
  "not_available field \<longleftrightarrow> map lower_code field \<in> ascii ` {''n/a'', ''[n/a'', ''n/a]'', ''[n/a]''}"

definition parseSmiNumber :: "utext option \<Rightarrow> rat option" where
  "parseSmiNumber field =
     (case field of
        None \<Rightarrow> None
      | Some f \<Rightarrow>
          if f = [] \<or> not_available f then None
          else
            (let w = takeWhile digit_code f; r = drop (length w) f;
                 d = (if r \<noteq> [] \<and> hd r = 46 then takeWhile digit_code (tl r) else [])
             in if w = [] then None
                else decimal_of (if d = [] then w else w @ [46] @ d)))"

definition nth_field :: "utext list \<Rightarrow> nat \<Rightarrow> utext option" where
  "nth_field cols n = (if n < length cols then Some (cols ! n) else None)"

definition positive :: "rat option \<Rightarrow> rat option" where
  "positive x = (case x of Some v \<Rightarrow> if v > 0 then Some v else None | None \<Rightarrow> None)"

definition parseGpuLine :: "utext \<Rightarrow> pulse_gpu option" where
  "parseGpuLine l =
     (if l = [] then None
      else
        (let cols = map trim_text (split_at_code 44 l) in
         if hd cols = [] then None
         else Some \<lparr>pg_name = hd cols, pg_vramTotal = positive (parseSmiNumber (nth_field cols 1)),
                    pg_vramUsed = nonneg (parseSmiNumber (nth_field cols 2)),
                    pg_utilization = nonneg (parseSmiNumber (nth_field cols 3))\<rparr>))"

text \<open>A carriage return before a line break goes with the trimming of the line.\<close>

definition gpusFromNvidiaSmi :: "utext \<Rightarrow> pulse_gpu list" where
  "gpusFromNvidiaSmi output = List.map_filter (\<lambda>l. parseGpuLine (trim_text l)) (split_at_code newline output)"

definition gpuNamesFromNvidiaSmi :: "utext \<Rightarrow> utext list" where
  "gpuNamesFromNvidiaSmi output = map pg_name (gpusFromNvidiaSmi output)"

definition pulse_gpu_sum :: "pulse_gpu \<Rightarrow> vram_sum \<Rightarrow> vram_sum" where
  "pulse_gpu_sum g v =
     (case positive (pg_vramTotal g) of
        None \<Rightarrow> v
      | Some t \<Rightarrow> add_util (pg_utilization g) (add_used (nonneg (pg_vramUsed g)) (add_total t v)))"

definition aggregateVram :: "pulse_gpu list \<Rightarrow> rat option \<times> rat option \<times> int option" where
  "aggregateVram gpus = vram_result (fold pulse_gpu_sum gpus vram_none)"

fun or_else :: "'a option \<Rightarrow> 'a option \<Rightarrow> 'a option" where
  "or_else (Some x) y = Some x"
| "or_else None y = y"

definition mergePulseGpus :: "host_segment \<Rightarrow> pulse_gpu list \<Rightarrow> host_segment" where
  "mergePulseGpus current gpus =
     (if gpus = [] then current
      else
        (let (t, u, util) = aggregateVram gpus in
         hostFromDoctor (map pg_name gpus) (ho_docker current) (ho_coreDown current)
           (or_else t (ho_vramTotal current)) (or_else u (ho_vramUsed current)) (or_else util (ho_utilization current))))"

text \<open>What the first probe reports; \<open>None\<close> when it took too long or threw.\<close>

definition probeHostPulse :: "(pulse_gpu list \<times> docker_state) option \<Rightarrow> host_segment" where
  "probeHostPulse answer =
     (case answer of
        None \<Rightarrow> hostFromDoctor [] DockerDown False None None None
      | Some (gpus, docker) \<Rightarrow>
          (let (t, u, util) = aggregateVram gpus in hostFromDoctor (map pg_name gpus) docker False t u util))"

section \<open>The pulse\<close>

record pulse =
  pu_store :: host_store
  pu_bound :: bool
  pu_timer :: bool
  pu_inFlight :: bool

definition service_runs :: "pulse \<Rightarrow> bool" where
  "service_runs p \<longleftrightarrow> sv_kind (hs_service (st_status (pu_store p))) = Running"

text \<open>The listener that the pulse has on the store.\<close>

definition sync :: "pulse \<Rightarrow> pulse" where
  "sync p = (if pu_bound p then p\<lparr>pu_timer := service_runs p\<rparr> else p)"

definition on_store_change :: "(host_store \<Rightarrow> host_store) \<Rightarrow> pulse \<Rightarrow> pulse" where
  "on_store_change f p = sync (p\<lparr>pu_store := f (pu_store p)\<rparr>)"

definition bindManagedHostPulse :: "host_store \<Rightarrow> pulse" where
  "bindManagedHostPulse st = sync \<lparr>pu_store = st, pu_bound = True, pu_timer = False, pu_inFlight = False\<rparr>"

definition unbind :: "pulse \<Rightarrow> pulse" where
  "unbind p = p\<lparr>pu_bound := False, pu_timer := False\<rparr>"

text \<open>The part of \<open>tick\<close> before the probe is awaited.\<close>

definition tick :: "pulse \<Rightarrow> pulse" where
  "tick p =
     (if pu_inFlight p \<or> \<not> service_runs p then (if \<not> service_runs p then p\<lparr>pu_timer := False\<rparr> else p)
      else p\<lparr>pu_inFlight := True\<rparr>)"

text \<open>The part after it; \<open>None\<close> when the probe threw.\<close>

definition probed :: "pulse_gpu list option \<Rightarrow> pulse \<Rightarrow> pulse" where
  "probed answer p =
     (let p1 = (case answer of
                  None \<Rightarrow> p
                | Some gpus \<Rightarrow>
                    if gpus = [] \<or> \<not> service_runs p then p
                    else on_store_change (\<lambda>st. patch_host (mergePulseGpus (hs_host (st_status st)) gpus) st) p)
      in p1\<lparr>pu_inFlight := False\<rparr>)"

text \<open>The store notifies its listeners only when a slot was cleared.\<close>

definition clear_settled :: "pulse \<Rightarrow> pulse" where
  "clear_settled p =
     (if list_all live_slot (slots (pu_store p)) then p\<lparr>pu_store := clearSettledCollab (pu_store p)\<rparr>
      else on_store_change clearSettledCollab p)"

inductive pulse_step :: "pulse \<Rightarrow> pulse \<Rightarrow> bool" where
  event: "pulse_step p (on_store_change (\<lambda>st. store_set (reduceHostStatus (st_status st) ev) st) p)"
| first_probe: "pulse_step p (on_store_change (patch_host (probeHostPulse answer)) p)"
| collab: "pulse_step p (on_store_change (setCollab i title phase) p)"
| cleared: "pulse_step p (clear_settled p)"
| hold_fires: "st_hold (pu_store p) \<Longrightarrow> pulse_step p (clear_settled p)"
| ticked: "pu_timer p \<Longrightarrow> pulse_step p (tick p)"
| answered: "pu_inFlight p \<Longrightarrow> pulse_step p (probed answer p)"
| unbound: "pulse_step p (unbind p)"

inductive pulse_reachable :: "pulse \<Rightarrow> bool" where
  start: "pulse_reachable (bindManagedHostPulse store_start)"
| more: "pulse_reachable p \<Longrightarrow> pulse_step p p' \<Longrightarrow> pulse_reachable p'"

section \<open>What is kept\<close>

lemma sync_sel [simp]:
  "pu_store (sync p) = pu_store p" "pu_bound (sync p) = pu_bound p" "pu_inFlight (sync p) = pu_inFlight p"
  by (simp_all add: sync_def)

lemma on_store_change_sel [simp]:
  "pu_store (on_store_change f p) = f (pu_store p)" "pu_bound (on_store_change f p) = pu_bound p"
  "pu_inFlight (on_store_change f p) = pu_inFlight p"
  by (simp_all add: on_store_change_def)

lemma reduceHostStatus_collab [simp]: "hs_collab (reduceHostStatus s ev) = hs_collab s"
  by (cases "(s, ev)" rule: reduceHostStatus.cases) (auto simp: Let_def split: option.split)

lemma slots_simps [simp]:
  "slots (store_set (reduceHostStatus (st_status st) ev) st) = slots st" "slots (patch_host h st) = slots st"
  "slots (patch_collab c st) = c" "slots (clearHoldTimer st) = slots st"
  by (simp_all add: slots_def store_set_def patch_host_def patch_collab_def clearHoldTimer_def)

lemma hold_simps [simp]:
  "st_hold (store_set s st) = st_hold st" "st_hold (patch_host h st) = st_hold st"
  "st_hold (patch_collab c st) = st_hold st" "st_hold (clearHoldTimer st) = False"
  by (simp_all add: store_set_def patch_host_def patch_collab_def clearHoldTimer_def)

text \<open>The hold timer is set exactly when there are slots and all are settled.\<close>

definition hold_right :: "host_store \<Rightarrow> bool" where
  "hold_right st \<longleftrightarrow> (st_hold st \<longleftrightarrow> slots st \<noteq> [] \<and> (\<forall>s \<in> set (slots st). \<not> live_slot s))"

lemma scheduleCollabHold_right: "hold_right (scheduleCollabHold st)"
  by (auto simp: hold_right_def scheduleCollabHold_def clearHoldTimer_def slots_def)

lemma setCollab_right: "hold_right (setCollab i title phase st)"
  by (simp add: setCollab_def scheduleCollabHold_right)

lemma clearSettled_slots [simp]: "slots (clearSettledCollab st) = filter live_slot (slots st)"
  by (auto simp: clearSettledCollab_def Let_def) (metis filter_True length_filter_less less_irrefl)

lemma clearSettled_right: "hold_right (clearSettledCollab st)"
proof -
  have "\<not> st_hold (clearSettledCollab st)" by (simp add: clearSettledCollab_def Let_def)
  then show ?thesis by (auto simp: hold_right_def)
qed

definition pulse_right :: "pulse \<Rightarrow> bool" where
  "pulse_right p \<longleftrightarrow> (pu_timer p \<longleftrightarrow> pu_bound p \<and> service_runs p) \<and> hold_right (pu_store p)"

lemma synced_right: "\<not> pu_bound p \<longrightarrow> \<not> pu_timer p \<Longrightarrow> hold_right (pu_store p) \<Longrightarrow> pulse_right (sync p)"
  by (auto simp: pulse_right_def sync_def service_runs_def)

lemma store_change_right:
  "pulse_right p \<Longrightarrow> hold_right (f (pu_store p)) \<Longrightarrow> pulse_right (on_store_change f p)"
  unfolding on_store_change_def by (rule synced_right) (auto simp: pulse_right_def)

lemma other_change_right:
  assumes "pulse_right p" and "\<And>st. slots (f st) = slots st" and "\<And>st. st_hold (f st) = st_hold st"
  shows "pulse_right (on_store_change f p)"
  using assms by (intro store_change_right) (auto simp: pulse_right_def hold_right_def)

lemma clearSettled_service [simp]: "hs_service (st_status (clearSettledCollab st)) = hs_service (st_status st)"
  by (simp add: clearSettledCollab_def Let_def patch_collab_def clearHoldTimer_def)

lemma clear_settled_right:
  assumes "pulse_right p"
  shows "pulse_right (clear_settled p)"
proof (cases "list_all live_slot (slots (pu_store p))")
  case True
  with assms show ?thesis
    by (auto simp: clear_settled_def pulse_right_def service_runs_def clearSettled_right)
next
  case False
  with store_change_right [OF assms clearSettled_right] show ?thesis by (simp add: clear_settled_def)
qed

lemma pulse_step_right:
  assumes "pulse_step p p'" and "pulse_right p"
  shows "pulse_right p'"
  using assms
proof (cases rule: pulse_step.cases)
  case (event ev)
  with assms(2) show ?thesis by (auto intro: other_change_right)
next
  case (first_probe answer)
  with assms(2) show ?thesis by (auto intro: other_change_right)
next
  case (collab i title phase)
  with assms(2) setCollab_right show ?thesis by (simp add: store_change_right)
next
  case ticked
  with assms(2) show ?thesis by (auto simp: tick_def pulse_right_def service_runs_def)
next
  case (answered answer)
  have "pulse_right (on_store_change (\<lambda>st. patch_host (mergePulseGpus (hs_host (st_status st)) gpus) st) p)" for gpus
    using assms(2) by (auto intro: other_change_right)
  with answered assms(2) show ?thesis
    by (auto simp: probed_def Let_def pulse_right_def service_runs_def split: option.splits)
next
  case unbound
  with assms(2) show ?thesis by (auto simp: unbind_def pulse_right_def service_runs_def)
qed (simp_all add: clear_settled_right)

lemma pulse_reachable_right: "pulse_reachable p \<Longrightarrow> pulse_right p"
proof (induction rule: pulse_reachable.induct)
  case start
  show ?case unfolding bindManagedHostPulse_def
    by (rule synced_right) (simp_all add: hold_right_def store_start_def slots_def createIdleHostStatus_def)
next
  case (more p p')
  then show ?case by (blast intro: pulse_step_right)
qed

end
