(* ===== verification/Scout.thy ===== *)
theory Scout
  imports Scout_Text Host_Pulse
begin

text \<open>
  \<open>InvestigateScheduler\<close> and the tool \<open>investigate\<close> (\<open>harness/subagent.ts\<close>): the slots, the life of a
  scout from its call to the delivery of its evidence, its limits, and the slots it shows in the status.
  A scout runs in parallel with others, so its life is cut at each \<open>await\<close> into events: the child session
  is created, prompted, and its staged evidence is handed to the intake. The child session reports events
  and asks questions while its prompt runs, not before and not after.
\<close>

section \<open>The scheduler\<close>

text \<open>The flag of an active scout: an abort function is set.\<close>

record scheduler =
  sch_active :: "(string \<times> bool) list"
  sch_aborted :: "string list"

definition scheduler_start :: scheduler where
  "scheduler_start = \<lparr>sch_active = [], sch_aborted = []\<rparr>"

definition scheduler_size :: "scheduler \<Rightarrow> nat" where
  "scheduler_size s = length (sch_active s)"

definition tryAcquire :: "string \<Rightarrow> scheduler \<Rightarrow> bool \<times> scheduler" where
  "tryAcquire i s =
     (let s1 = s\<lparr>sch_aborted := filter (\<lambda>j. j \<noteq> i) (sch_aborted s)\<rparr> in
      if scheduler_size s1 \<ge> COPY_collab_capacity then (False, s1)
      else (True, s1\<lparr>sch_active := jm_set i False (sch_active s1)\<rparr>))"

text \<open>Whether the function is called at once.\<close>

definition setAbort :: "string \<Rightarrow> scheduler \<Rightarrow> bool \<times> scheduler" where
  "setAbort i s =
     (if i \<in> set (sch_aborted s) \<or> \<not> jm_has (sch_active s) i then (True, s)
      else (False, s\<lparr>sch_active := jm_set i True (sch_active s)\<rparr>))"

definition wasAborted :: "string \<Rightarrow> scheduler \<Rightarrow> bool" where
  "wasAborted i s \<longleftrightarrow> i \<in> set (sch_aborted s)"

definition release :: "string \<Rightarrow> scheduler \<Rightarrow> scheduler" where
  "release i s = s\<lparr>sch_active := jm_delete i (sch_active s), sch_aborted := filter (\<lambda>j. j \<noteq> i) (sch_aborted s)\<rparr>"

text \<open>Whose abort functions are called.\<close>

definition abortAll :: "scheduler \<Rightarrow> string list \<times> scheduler" where
  "abortAll s =
     (map fst (filter snd (sch_active s)),
      s\<lparr>sch_active := [], sch_aborted := fold add_once (map fst (sch_active s)) (sch_aborted s)\<rparr>)"

section \<open>A scout\<close>

datatype scout_stage = Creating | Prompting | Delivering | Over

datatype scout_result = Cancelled | Limited utext | Concluded utext | Failed

record scout_run =
  sc_id :: string
  sc_goal :: utext
  sc_stage :: scout_stage
  sc_signal :: bool
  sc_cancelled :: bool
  sc_limited :: bool
  sc_aborts :: nat
  sc_steps :: "scout_step list"
  sc_tools :: nat
  sc_turns :: nat
  sc_staged :: "string list"
  sc_delivered :: nat
  sc_result :: "scout_result option"

record scouts =
  sy_scheduler :: scheduler
  sy_store :: host_store
  sy_runs :: "scout_run list"
  sy_ingested :: "string list"
  sy_down :: bool

definition scouts_start :: scouts where
  "scouts_start =
     \<lparr>sy_scheduler = scheduler_start, sy_store = store_start, sy_runs = [], sy_ingested = [], sy_down = False\<rparr>"

definition show_scout :: "scout_run \<Rightarrow> utext option \<Rightarrow> collab_phase option \<Rightarrow> scouts \<Rightarrow> scouts" where
  "show_scout r title phase s = s\<lparr>sy_store := setCollab (sc_id r) title phase (sy_store s)\<rparr>"

definition put_run :: "nat \<Rightarrow> scout_run \<Rightarrow> scouts \<Rightarrow> scouts" where
  "put_run k r s = s\<lparr>sy_runs := (sy_runs s)[k := r]\<rparr>"

text \<open>\<open>abortChild\<close>: the child session is told to stop when there is one.\<close>

definition abort_child :: "scout_run \<Rightarrow> scout_run" where
  "abort_child r = (if sc_stage r = Creating then r else r\<lparr>sc_aborts := Suc (sc_aborts r)\<rparr>)"

definition cancel_run :: "scout_run \<Rightarrow> scout_run" where
  "cancel_run r = abort_child (r\<lparr>sc_cancelled := True\<rparr>)"

definition limit_run :: "scout_run \<Rightarrow> scout_run" where
  "limit_run r = abort_child (r\<lparr>sc_limited := True\<rparr>)"

definition is_cancelled :: "scout_run \<Rightarrow> scouts \<Rightarrow> bool" where
  "is_cancelled r s \<longleftrightarrow> sc_cancelled r \<or> sc_signal r \<or> wasAborted (sc_id r) (sy_scheduler s)"

section \<open>The end of a scout\<close>

text \<open>The \<open>finally\<close>: staged evidence first, when there is any and the core is reachable, then the slot.\<close>

definition finish_run :: "nat \<Rightarrow> scout_run \<Rightarrow> scouts \<Rightarrow> scouts" where
  "finish_run k r s =
     (put_run k (r\<lparr>sc_stage := Over\<rparr>) s)\<lparr>sy_scheduler := release (sc_id r) (sy_scheduler s)\<rparr>"

definition leave_run :: "bool \<Rightarrow> nat \<Rightarrow> scout_run \<Rightarrow> scout_result \<Rightarrow> scouts \<Rightarrow> scouts" where
  "leave_run has_client k r res s =
     (let r1 = r\<lparr>sc_result := Some res\<rparr> in
      if has_client \<and> sc_staged r \<noteq> [] then put_run k (r1\<lparr>sc_stage := Delivering\<rparr>) s
      else finish_run k r1 s)"

text \<open>A file has been taken by the intake: the next one, or the end.\<close>

definition delivered :: "nat \<Rightarrow> scout_run \<Rightarrow> scouts \<Rightarrow> scouts" where
  "delivered k r s =
     (let r1 = r\<lparr>sc_delivered := Suc (sc_delivered r)\<rparr>;
          s1 = s\<lparr>sy_ingested := sy_ingested s @ [sc_staged r ! sc_delivered r]\<rparr>
      in if sc_delivered r1 < length (sc_staged r) then put_run k r1 s1 else finish_run k r1 s1)"

section \<open>Its steps\<close>

definition emitSteps :: "scout_run \<Rightarrow> scouts \<Rightarrow> scouts" where
  "emitSteps r s =
     (if formatInvestigateSteps (sc_steps r) = [] then s
      else show_scout r (Some (collabTitleFromSteps (sc_goal r) (sc_steps r))) None s)"

definition update_step :: "string \<Rightarrow> (scout_step \<Rightarrow> scout_step) \<Rightarrow> scout_step \<Rightarrow> scout_step list \<Rightarrow> scout_step list" where
  "update_step i f fresh steps =
     (case find_index (\<lambda>st. ss_id st = i) steps of
        Some n \<Rightarrow> steps[n := f (steps ! n)]
      | None \<Rightarrow> steps @ [fresh])"

definition step_started :: "string \<Rightarrow> scout_tool \<Rightarrow> utext \<Rightarrow> scout_run \<Rightarrow> scout_run" where
  "step_started i tool target r =
     r\<lparr>sc_steps := update_step i (\<lambda>st. st\<lparr>ss_status := StepRunning, ss_target := target\<rparr>)
        \<lparr>ss_id = i, ss_name = tool, ss_target = target, ss_status = StepRunning\<rparr> (sc_steps r)\<rparr>"

definition step_ended :: "string \<Rightarrow> scout_tool \<Rightarrow> utext \<Rightarrow> bool \<Rightarrow> scout_run \<Rightarrow> scout_run" where
  "step_ended i tool target isError r =
     (let status = (if isError then StepFailed else StepDone) in
      r\<lparr>sc_steps := update_step i (\<lambda>st. st\<lparr>ss_status := status\<rparr>)
         \<lparr>ss_id = i, ss_name = tool, ss_target = target, ss_status = status\<rparr> (sc_steps r)\<rparr>)"

text \<open>The handler of a tool's result: the limit, then the evidence it staged.\<close>

definition tool_result_seen :: "string option \<Rightarrow> scout_run \<Rightarrow> scout_run" where
  "tool_result_seen filename r =
     (let r1 = r\<lparr>sc_tools := Suc (sc_tools r)\<rparr>;
          r2 = (if sc_tools r1 \<ge> INVESTIGATE_TOOL_LIMIT then abort_child (limit_run r1) else r1)
      in case filename of None \<Rightarrow> r2 | Some f \<Rightarrow> r2\<lparr>sc_staged := sc_staged r2 @ [f]\<rparr>)"

definition turn_ended :: "scout_run \<Rightarrow> scout_run" where
  "turn_ended r =
     (let r1 = r\<lparr>sc_turns := Suc (sc_turns r)\<rparr> in
      if sc_turns r1 \<ge> INVESTIGATE_TURN_LIMIT then abort_child (limit_run r1) else r1)"

section \<open>The tool\<close>

definition new_run :: "string \<Rightarrow> utext \<Rightarrow> bool \<Rightarrow> scout_run" where
  "new_run i goal signal =
     \<lparr>sc_id = i, sc_goal = goal, sc_stage = Creating, sc_signal = signal, sc_cancelled = False, sc_limited = False,
      sc_aborts = 0, sc_steps = [], sc_tools = 0, sc_turns = 0, sc_staged = [], sc_delivered = 0, sc_result = None\<rparr>"

text \<open>
  \<open>execute\<close> up to the creation of the child session; refused when all slots are taken. \<open>signal\<close>: the
  call was aborted before it began.
\<close>

definition start_scout :: "string \<Rightarrow> utext \<Rightarrow> bool \<Rightarrow> scouts \<Rightarrow> bool \<times> scouts" where
  "start_scout i goal signal s =
     (let (acquired, sch) = tryAcquire i (sy_scheduler s) in
      if \<not> acquired then (False, s\<lparr>sy_scheduler := sch\<rparr>)
      else
        (let r = new_run i goal signal;
             s1 = show_scout r (Some (truncateColumns goal 16)) (Some CollabRunning) (s\<lparr>sy_scheduler := sch\<rparr>);
             (now_called, sch1) = setAbort i sch;
             r1 = (if now_called then cancel_run r else r);
             s2 = s1\<lparr>sy_scheduler := sch1\<rparr>
         in (True,
             if signal \<or> wasAborted i sch1
             then (show_scout r1 None (Some CollabFailed) s2)
                    \<lparr>sy_scheduler := release i sch1,
                     sy_runs := sy_runs s @ [r1\<lparr>sc_stage := Over, sc_result := Some Cancelled\<rparr>]\<rparr>
             else s2\<lparr>sy_runs := sy_runs s @ [r1]\<rparr>)))"

text \<open>The child session exists.\<close>

definition session_ready :: "bool \<Rightarrow> nat \<Rightarrow> utext \<Rightarrow> scouts \<Rightarrow> scouts" where
  "session_ready has_client k limit_text s =
     (let r = (sy_runs s ! k)\<lparr>sc_stage := Prompting\<rparr>;
          (now_called, sch) = setAbort (sc_id r) (sy_scheduler s);
          s1 = s\<lparr>sy_scheduler := sch\<rparr>;
          r1 = (if now_called then cancel_run r else r)
      in if sc_limited r1 \<or> is_cancelled r1 s1
         then leave_run has_client k (abort_child r1) (if sc_limited r1 then Limited limit_text else Cancelled)
                (show_scout r1 None (Some CollabFailed) s1)
         else put_run k r1 s1)"

text \<open>The prompt has returned, or something threw; \<open>report\<close> and \<open>limit_text\<close> are made of the child's messages.\<close>

definition prompt_returned :: "bool \<Rightarrow> nat \<Rightarrow> utext \<Rightarrow> utext \<Rightarrow> scouts \<Rightarrow> scouts" where
  "prompt_returned has_client k report limit_text s =
     (let r = sy_runs s ! k in
      if sc_limited r then leave_run has_client k r (Limited limit_text) (show_scout r None (Some CollabFailed) s)
      else if is_cancelled r s then leave_run has_client k r Cancelled (show_scout r None (Some CollabFailed) s)
      else leave_run has_client k r (Concluded report) (show_scout r None (Some CollabDone) s))"

definition scout_threw :: "bool \<Rightarrow> nat \<Rightarrow> utext \<Rightarrow> scouts \<Rightarrow> scouts" where
  "scout_threw has_client k limit_text s =
     (let r = sy_runs s ! k in
      leave_run has_client k r
        (if sc_limited r then Limited limit_text else if is_cancelled r s then Cancelled else Failed)
        (show_scout r None (Some CollabFailed) s))"

definition shut_down :: "scouts \<Rightarrow> scouts" where
  "shut_down s =
     (let (called, sch) = abortAll (sy_scheduler s) in
      s\<lparr>sy_scheduler := sch, sy_down := True,
        sy_runs := map (\<lambda>r. if sc_stage r \<noteq> Over \<and> sc_id r \<in> set called then cancel_run r else r) (sy_runs s)\<rparr>)"

section \<open>Events\<close>

text \<open>
  The scout that an event is about is at that point. No call comes once the session has been shut down,
  and the names of calls differ.
\<close>

definition at_stage :: "nat \<Rightarrow> scout_stage \<Rightarrow> scouts \<Rightarrow> bool" where
  "at_stage k g s \<longleftrightarrow> k < length (sy_runs s) \<and> sc_stage (sy_runs s ! k) = g"

inductive scouts_step :: "bool \<Rightarrow> scouts \<Rightarrow> scouts \<Rightarrow> bool" for has_client where
  called: "i \<notin> set (map sc_id (sy_runs s)) \<Longrightarrow> \<not> sy_down s \<Longrightarrow>
    scouts_step has_client s (snd (start_scout i goal signal s))"
| created: "at_stage k Creating s \<Longrightarrow> scouts_step has_client s (session_ready has_client k limit_text s)"
| not_created: "at_stage k Creating s \<Longrightarrow> scouts_step has_client s (scout_threw has_client k limit_text s)"
| tool_starts: "at_stage k Prompting s \<Longrightarrow> r = step_started i tool target (sy_runs s ! k) \<Longrightarrow>
    scouts_step has_client s (emitSteps r (put_run k r s))"
| tool_ends: "at_stage k Prompting s \<Longrightarrow> r = step_ended i tool target isError (sy_runs s ! k) \<Longrightarrow>
    scouts_step has_client s (emitSteps r (put_run k r s))"
| tool_result: "at_stage k Prompting s \<Longrightarrow> scouts_step has_client s (put_run k (tool_result_seen filename (sy_runs s ! k)) s)"
| turn: "at_stage k Prompting s \<Longrightarrow> scouts_step has_client s (put_run k (turn_ended (sy_runs s ! k)) s)"
| compaction: "at_stage k Prompting s \<Longrightarrow> scouts_step has_client s (put_run k (abort_child (sy_runs s ! k)) s)"
| asked: "at_stage k Prompting s \<Longrightarrow> scouts_step has_client s (show_scout (sy_runs s ! k) None (Some CollabAwaiting) s)"
| answered: "at_stage k Prompting s \<Longrightarrow>
    scouts_step has_client s (show_scout (sy_runs s ! k) None (Some (if approved then CollabRunning else CollabFailed)) s)"
| signalled: "at_stage k g s \<Longrightarrow> g = Creating \<or> g = Prompting \<or> g = Delivering \<Longrightarrow>
    scouts_step has_client s (put_run k ((if g = Delivering then (\<lambda>r. r) else cancel_run) ((sy_runs s ! k)\<lparr>sc_signal := True\<rparr>)) s)"
| returned: "at_stage k Prompting s \<Longrightarrow> scouts_step has_client s (prompt_returned has_client k report limit_text s)"
| threw: "at_stage k Prompting s \<Longrightarrow> scouts_step has_client s (scout_threw has_client k limit_text s)"
| taken: "at_stage k Delivering s \<Longrightarrow> scouts_step has_client s (delivered k (sy_runs s ! k) s)"
| shut: "scouts_step has_client s (shut_down s)"
| hold: "st_hold (sy_store s) \<Longrightarrow> scouts_step has_client s (s\<lparr>sy_store := clearSettledCollab (sy_store s)\<rparr>)"
| next_prompt: "scouts_step has_client s (s\<lparr>sy_store := clearSettledCollab (sy_store s)\<rparr>)"
| status: "scouts_step has_client s (s\<lparr>sy_store := store_set (reduceHostStatus (st_status (sy_store s)) ev) (sy_store s)\<rparr>)"
| machine: "scouts_step has_client s (s\<lparr>sy_store := patch_host h (sy_store s)\<rparr>)"

inductive scouts_reachable :: "bool \<Rightarrow> scouts \<Rightarrow> bool" for has_client where
  start: "scouts_reachable has_client scouts_start"
| more: "scouts_reachable has_client s \<Longrightarrow> scouts_step has_client s s' \<Longrightarrow> scouts_reachable has_client s'"

end
