(* ===== verification/Scout_Lemmas.thy ===== *)
theory Scout_Lemmas
  imports Scout
begin

text \<open>
  The invariant of the scouts: the slots of the scheduler are those of the scouts that are not over,
  each scout knows its limits and what it has delivered, and the status shows none as live that is not.
\<close>

section \<open>The invariant\<close>

definition open_ids :: "scouts \<Rightarrow> string set" where
  "open_ids s = sc_id ` {r \<in> set (sy_runs s). sc_stage r \<noteq> Over}"

definition slots_held :: "scouts \<Rightarrow> bool" where
  "slots_held s \<longleftrightarrow>
     distinct (map sc_id (sy_runs s)) \<and> distinct (map fst (sch_active (sy_scheduler s))) \<and>
     card (open_ids s) \<le> COPY_collab_capacity \<and>
     (if sy_down s then sch_active (sy_scheduler s) = []
      else fst ` set (sch_active (sy_scheduler s)) = open_ids s)"

fun says_limit :: "scout_result \<Rightarrow> bool" where
  "says_limit (Limited t) = True"
| "says_limit _ = False"

definition at_work :: "scout_run \<Rightarrow> bool" where
  "at_work r \<longleftrightarrow> sc_stage r = Creating \<or> sc_stage r = Prompting"

definition limit_right :: "scout_run \<Rightarrow> bool" where
  "limit_right r \<longleftrightarrow>
     (sc_limited r \<longleftrightarrow> sc_tools r \<ge> INVESTIGATE_TOOL_LIMIT \<or> sc_turns r \<ge> INVESTIGATE_TURN_LIMIT) \<and>
     (sc_limited r \<longrightarrow> sc_aborts r > 0)"

definition run_right :: "bool \<Rightarrow> scout_run \<Rightarrow> bool" where
  "run_right has_client r \<longleftrightarrow>
     limit_right r \<and>
     (at_work r \<longrightarrow> sc_delivered r = 0) \<and>
     (\<not> at_work r \<longrightarrow> (\<exists>res. sc_result r = Some res \<and> (says_limit res \<longleftrightarrow> sc_limited r))) \<and>
     (sc_stage r = Delivering \<longrightarrow> has_client \<and> sc_delivered r < length (sc_staged r)) \<and>
     (sc_stage r = Over \<longrightarrow> sc_delivered r = (if has_client then length (sc_staged r) else 0))"

definition taken :: "scout_run \<Rightarrow> string list" where
  "taken r = take (sc_delivered r) (sc_staged r)"

definition evidence_right :: "scouts \<Rightarrow> bool" where
  "evidence_right s \<longleftrightarrow> mset (sy_ingested s) = mset (concat (map taken (sy_runs s)))"

definition display_right :: "scouts \<Rightarrow> bool" where
  "display_right s \<longleftrightarrow>
     hold_right (sy_store s) \<and> distinct (map co_id (slots (sy_store s))) \<and>
     (\<forall>c \<in> set (slots (sy_store s)). live_slot c \<longrightarrow> (\<exists>r \<in> set (sy_runs s). sc_id r = co_id c \<and> at_work r))"

definition scouts_right :: "bool \<Rightarrow> scouts \<Rightarrow> bool" where
  "scouts_right has_client s \<longleftrightarrow>
     slots_held s \<and> (\<forall>r \<in> set (sy_runs s). run_right has_client r) \<and> evidence_right s \<and> display_right s"

section \<open>Slots of the status\<close>

lemma find_index_iff: "find_index P xs = None \<longleftrightarrow> (\<forall>x \<in> set xs. \<not> P x)"
  by (meson find_index_NoneD find_index_SomeD in_set_conv_nth not_None_eq)

lemma with_slot_ids:
  assumes "distinct (map co_id cs)"
  shows "distinct (map co_id (with_slot i title phase cs))"
proof (cases "find_index (\<lambda>c. co_id c = i) cs")
  case None
  then have "i \<notin> co_id ` set cs" by (auto simp: find_index_iff)
  with None assms show ?thesis by (simp add: with_slot_def)
next
  case (Some k)
  have "map co_id (cs[k := patched_slot title phase (cs ! k)]) = map co_id cs"
    by (simp add: map_update patched_slot_def) (metis list_update_id map_update)
  with Some assms show ?thesis by (simp add: with_slot_def)
qed

lemma with_slot_member:
  assumes "distinct (map co_id cs)" and "c \<in> set (with_slot i title phase cs)"
  shows "(c \<in> set cs \<and> co_id c \<noteq> i) \<or> (co_id c = i \<and> (\<forall>p. phase = Some p \<longrightarrow> co_phase c = p))"
proof (cases "find_index (\<lambda>c. co_id c = i) cs")
  case None
  with assms(2) show ?thesis by (auto simp: with_slot_def find_index_iff split: option.splits)
next
  case (Some k)
  then have k: "k < length cs" "co_id (cs ! k) = i" by (auto dest: find_index_SomeD)
  from assms(2) Some obtain j where j: "j < length cs" "c = (cs[k := patched_slot title phase (cs ! k)]) ! j"
    by (auto simp: with_slot_def in_set_conv_nth)
  show ?thesis
  proof (cases "j = k")
    case True
    with j k show ?thesis by (simp add: patched_slot_def)
  next
    case False
    with j have c: "c = cs ! j" by simp
    have "co_id (cs ! j) \<noteq> co_id (cs ! k)"
      using nth_eq_iff_index_eq [OF assms(1), of j k] j(1) k(1) False by simp
    with c j(1) k(2) show ?thesis by simp
  qed
qed

lemma setCollab_slots: "slots (setCollab i title phase st) = with_slot i title phase (slots st)"
proof -
  have "slots (scheduleCollabHold st') = slots st'" for st'
    by (simp add: scheduleCollabHold_def slots_def clearHoldTimer_def)
  then show ?thesis by (simp add: setCollab_def)
qed

lemma filter_ids: "distinct (map co_id cs) \<Longrightarrow> distinct (map co_id (filter P cs))"
  by (simp add: distinct_map_filter)

section \<open>Replacing a scout\<close>

lemma open_ids_nth: "open_ids s = {sc_id (sy_runs s ! j) | j. j < length (sy_runs s) \<and> sc_stage (sy_runs s ! j) \<noteq> Over}"
  by (force simp: open_ids_def in_set_conv_nth)

lemma scout_set_sel [simp]:
  "sy_runs (put_run k r s) = (sy_runs s)[k := r]" "sy_scheduler (put_run k r s) = sy_scheduler s"
  "sy_store (put_run k r s) = sy_store s" "sy_ingested (put_run k r s) = sy_ingested s" "sy_down (put_run k r s) = sy_down s"
  by (simp_all add: put_run_def)

lemma ids_update:
  assumes "k < length rs" and "sc_id r = sc_id (rs ! k)"
  shows "map sc_id (rs[k := r]) = map sc_id rs"
  using assms by (simp add: map_update) (metis list_update_id nth_map)

lemma open_ids_update:
  assumes "distinct (map sc_id (sy_runs s))" and "k < length (sy_runs s)" and "sc_id r = sc_id (sy_runs s ! k)"
  shows "open_ids (put_run k r s) =
    (if sc_stage r = Over then open_ids s - {sc_id r} else insert (sc_id r) (open_ids s))"
proof -
  have other: "sc_id (sy_runs s ! j) \<noteq> sc_id r" if "j < length (sy_runs s)" "j \<noteq> k" for j
    using nth_eq_iff_index_eq [OF assms(1), of j k] that assms(2,3) by simp
  show ?thesis
    unfolding open_ids_nth using assms(2,3) other
    by (auto simp: nth_list_update split: if_splits) metis
qed

lemma taken_update:
  assumes "k < length rs" and "taken r = taken (rs ! k)"
  shows "concat (map taken (rs[k := r])) = concat (map taken rs)"
  using assms by (simp add: map_update) (metis list_update_id nth_map)

lemma taken_one_more:
  assumes "k < length rs" and "taken r = taken (rs ! k) @ [f]"
  shows "mset (concat (map taken (rs[k := r]))) = add_mset f (mset (concat (map taken rs)))"
proof -
  have rs: "rs = take k rs @ rs ! k # drop (Suc k) rs" by (rule id_take_nth_drop [OF assms(1)])
  have "mset (concat (map taken (take k rs @ r # drop (Suc k) rs))) =
        add_mset f (mset (concat (map taken (take k rs @ rs ! k # drop (Suc k) rs))))"
    using assms(2) by simp
  then show ?thesis using upd_conv_take_nth_drop [OF assms(1)] rs by metis
qed

lemma set_update_subset: "x \<in> set (xs[k := y]) \<Longrightarrow> x \<in> set xs \<or> x = y"
  using set_update_subset_insert [of xs k y] by blast

lemma open_ids_elem:
  assumes "distinct (map sc_id (sy_runs s))" and "k < length (sy_runs s)"
  shows "sc_id (sy_runs s ! k) \<in> open_ids s \<longleftrightarrow> sc_stage (sy_runs s ! k) \<noteq> Over"
proof -
  have one: "j = k" if "j < length (sy_runs s)" "sc_id (sy_runs s ! j) = sc_id (sy_runs s ! k)" for j
    using nth_eq_iff_index_eq [OF assms(1), of j k] that assms(2) by simp
  show ?thesis
    unfolding open_ids_nth mem_Collect_eq using one assms(2) by metis
qed

lemma release_keys [simp]: "fst ` set (sch_active (release i sch)) = fst ` set (sch_active sch) - {i}"
  by (simp add: release_def delete_keys flip: set_map)

lemma release_distinct: "distinct (map fst (sch_active sch)) \<Longrightarrow> distinct (map fst (sch_active (release i sch)))"
  by (simp add: release_def jm_delete_distinct)

lemma release_none: "sch_active sch = [] \<Longrightarrow> sch_active (release i sch) = []"
  by (simp add: release_def)

text \<open>The scheduler once scout \<open>r\<close> has become what it is.\<close>

definition sch_after :: "scout_run \<Rightarrow> scheduler \<Rightarrow> scheduler" where
  "sch_after r sch = (if sc_stage r = Over then release (sc_id r) sch else sch)"

lemma slots_held_change:
  assumes "slots_held s" and "k < length (sy_runs s)" and "sc_id r = sc_id (sy_runs s ! k)"
    and "sc_stage (sy_runs s ! k) \<noteq> Over"
    and "sy_runs s' = (sy_runs s)[k := r]" and "sy_scheduler s' = sch_after r (sy_scheduler s)" and "sy_down s' = sy_down s"
  shows "slots_held s'"
proof -
  have d: "distinct (map sc_id (sy_runs s))" using assms(1) by (simp add: slots_held_def)
  have "open_ids s' = open_ids (put_run k r s)" using assms(5) by (simp add: open_ids_def)
  also have "\<dots> = (if sc_stage r = Over then open_ids s - {sc_id r} else open_ids s)"
    using open_ids_update [OF d assms(2,3)] open_ids_elem [OF d assms(2)] assms(3,4) by (simp add: insert_absorb)
  finally have o: "open_ids s' = (if sc_stage r = Over then open_ids s - {sc_id r} else open_ids s)" .
  then have "card (open_ids s') \<le> card (open_ids s)"
    by (simp add: card_Diff1_le)
  moreover have "map sc_id (sy_runs s') = map sc_id (sy_runs s)" using assms(2,3,5) ids_update by simp
  ultimately show ?thesis
    using assms(1,6,7) o unfolding slots_held_def sch_after_def
    by (cases "sc_stage r = Over"; cases "sy_down s") (simp_all add: release_distinct release_none)
qed

lemma change_run_right:
  assumes "scouts_right hc s" and "k < length (sy_runs s)" and "sc_id r = sc_id (sy_runs s ! k)"
    and "sc_stage (sy_runs s ! k) \<noteq> Over" and "run_right hc r"
    and "at_work (sy_runs s ! k) \<longrightarrow> at_work r \<or> (\<forall>c \<in> set (slots (sy_store s)). live_slot c \<longrightarrow> co_id c \<noteq> sc_id r)"
    and "sy_runs s' = (sy_runs s)[k := r]" and "sy_scheduler s' = sch_after r (sy_scheduler s)"
    and "sy_down s' = sy_down s" and "sy_store s' = sy_store s" and "evidence_right s'"
  shows "scouts_right hc s'"
proof -
  have keeps: "\<exists>q \<in> set ((sy_runs s)[k := r]). sc_id q = i \<and> at_work q"
    if ex: "\<exists>q0 \<in> set (sy_runs s). sc_id q0 = i \<and> at_work q0"
      and i: "at_work (sy_runs s ! k) \<longrightarrow> at_work r \<or> i \<noteq> sc_id r" for i
  proof -
    obtain q0 where q0: "q0 \<in> set (sy_runs s)" "sc_id q0 = i" "at_work q0" using ex by blast
    then obtain j where j: "j < length (sy_runs s)" "sy_runs s ! j = q0" by (metis in_set_conv_nth)
    then have "sc_id ((sy_runs s)[k := r] ! j) = i \<and> at_work ((sy_runs s)[k := r] ! j)"
      using assms(2,3) i q0 by (cases "j = k") auto
    then show ?thesis using j(1) by (metis length_list_update nth_mem)
  qed
  have "\<exists>q \<in> set ((sy_runs s)[k := r]). sc_id q = co_id c \<and> at_work q"
    if "c \<in> set (slots (sy_store s))" "live_slot c" for c
  proof (rule keeps)
    show "\<exists>q0 \<in> set (sy_runs s). sc_id q0 = co_id c \<and> at_work q0"
      using assms(1) that unfolding scouts_right_def display_right_def by blast
    show "at_work (sy_runs s ! k) \<longrightarrow> at_work r \<or> co_id c \<noteq> sc_id r" using assms(6) that by blast
  qed
  then have "display_right s'"
    using assms(1,7,10) by (simp add: scouts_right_def display_right_def)
  moreover have "slots_held s'"
    by (rule slots_held_change [OF _ assms(2,3,4,7,8,9)]) (use assms(1) in \<open>simp add: scouts_right_def\<close>)
  moreover have "\<forall>q \<in> set (sy_runs s'). run_right hc q"
    using assms(1,5,7) set_update_subset [of _ "sy_runs s" k r] by (auto simp: scouts_right_def)
  ultimately show ?thesis using assms(11) by (simp add: scouts_right_def)
qed

text \<open>A scout that stays where it is, or goes on with its work.\<close>

lemma put_run_right:
  assumes "scouts_right hc s" and "k < length (sy_runs s)" and "sc_id r = sc_id (sy_runs s ! k)"
    and "sc_stage (sy_runs s ! k) \<noteq> Over" and "sc_stage r \<noteq> Over" and "at_work (sy_runs s ! k) \<longrightarrow> at_work r"
    and "run_right hc r" and "taken r = taken (sy_runs s ! k)"
  shows "scouts_right hc (put_run k r s)"
  by (rule change_run_right [OF assms(1-4,7)])
    (use assms in \<open>simp_all add: sch_after_def evidence_right_def taken_update scouts_right_def\<close>)

text \<open>The status alone changes.\<close>

lemma store_right:
  assumes "scouts_right hc s" and "hold_right st" and "distinct (map co_id (slots st))"
    and "\<And>c. c \<in> set (slots st) \<Longrightarrow> live_slot c \<Longrightarrow>
      (\<exists>c' \<in> set (slots (sy_store s)). co_id c' = co_id c \<and> live_slot c') \<or> (\<exists>r \<in> set (sy_runs s). sc_id r = co_id c \<and> at_work r)"
  shows "scouts_right hc (s\<lparr>sy_store := st\<rparr>)"
proof -
  have "\<exists>r \<in> set (sy_runs s). sc_id r = co_id c \<and> at_work r" if "c \<in> set (slots st)" "live_slot c" for c
  proof (cases "\<exists>c' \<in> set (slots (sy_store s)). co_id c' = co_id c \<and> live_slot c'")
    case True
    moreover have "\<forall>c \<in> set (slots (sy_store s)). live_slot c \<longrightarrow> (\<exists>r \<in> set (sy_runs s). sc_id r = co_id c \<and> at_work r)"
      using assms(1) unfolding scouts_right_def display_right_def by blast
    ultimately show ?thesis by metis
  next
    case False
    with assms(4) [OF that] show ?thesis by blast
  qed
  with assms(1-3) show ?thesis
    by (simp add: scouts_right_def slots_held_def open_ids_def evidence_right_def display_right_def)
qed

text \<open>A scout at work shows something.\<close>

lemma show_scout_right:
  assumes "scouts_right hc s" and "r \<in> set (sy_runs s)" and "at_work r" and "sc_id q = sc_id r"
  shows "scouts_right hc (show_scout q title phase s)"
  unfolding show_scout_def
proof (rule store_right [OF assms(1) setCollab_right])
  have d: "distinct (map co_id (slots (sy_store s)))" using assms(1) by (simp add: scouts_right_def display_right_def)
  then show "distinct (map co_id (slots (setCollab (sc_id q) title phase (sy_store s))))"
    by (simp add: setCollab_slots with_slot_ids)
  fix c
  assume "c \<in> set (slots (setCollab (sc_id q) title phase (sy_store s)))" and "live_slot c"
  with with_slot_member [OF d] assms(2-4)
  show "(\<exists>c' \<in> set (slots (sy_store s)). co_id c' = co_id c \<and> live_slot c') \<or> (\<exists>r \<in> set (sy_runs s). sc_id r = co_id c \<and> at_work r)"
    by (metis setCollab_slots)
qed

section \<open>The end of a scout\<close>

lemma taken_Nil: "sc_delivered r = 0 \<Longrightarrow> taken r = []"
  by (simp add: taken_def)

lemma not_live_after:
  assumes "distinct (map co_id cs)" and "c \<in> set (with_slot i title (Some p) cs)" and "live_slot c"
    and "p = CollabDone \<or> p = CollabFailed"
  shows "co_id c \<noteq> i"
  using with_slot_member [OF assms(1,2)] assms(3,4) by (auto simp: live_slot_def)

lemma finish_run_right:
  assumes "scouts_right hc s" and "k < length (sy_runs s)" and "sc_id r = sc_id (sy_runs s ! k)"
    and "sc_stage (sy_runs s ! k) \<noteq> Over" and "run_right hc (r\<lparr>sc_stage := Over\<rparr>)"
    and "at_work (sy_runs s ! k) \<longrightarrow> (\<forall>c \<in> set (slots (sy_store s)). live_slot c \<longrightarrow> co_id c \<noteq> sc_id r)"
    and "evidence_right ((put_run k (r\<lparr>sc_stage := Over\<rparr>) s)\<lparr>sy_ingested := ing\<rparr>)"
  shows "scouts_right hc (finish_run k r (s\<lparr>sy_ingested := ing\<rparr>))"
  by (rule change_run_right [OF assms(1,2), of "r\<lparr>sc_stage := Over\<rparr>"])
    (use assms in \<open>simp_all add: finish_run_def sch_after_def evidence_right_def put_run_def\<close>)

lemma leave_run_right:
  assumes "scouts_right hc s" and "k < length (sy_runs s)" and "sc_id r = sc_id (sy_runs s ! k)"
    and "at_work (sy_runs s ! k)" and "limit_right r" and "sc_delivered r = 0" and "says_limit res = sc_limited r"
    and "\<forall>c \<in> set (slots (sy_store s)). live_slot c \<longrightarrow> co_id c \<noteq> sc_id r"
  shows "scouts_right hc (leave_run hc k r res s)"
proof -
  have still: "sc_stage (sy_runs s ! k) \<noteq> Over" using assms(4) by (auto simp: at_work_def)
  have "sc_delivered (sy_runs s ! k) = 0"
    using assms(1,2,4) by (auto simp: scouts_right_def run_right_def)
  then have same: "concat (map taken ((sy_runs s)[k := q])) = concat (map taken (sy_runs s))" if "sc_delivered q = 0" for q
    using taken_update [OF assms(2)] that by (simp add: taken_Nil)
  show ?thesis
  proof (cases "hc \<and> sc_staged r \<noteq> []")
    case True
    then have run: "run_right hc (r\<lparr>sc_result := Some res, sc_stage := Delivering\<rparr>)"
      using assms(5-7) by (simp add: run_right_def at_work_def limit_right_def)
    have "scouts_right hc (put_run k (r\<lparr>sc_result := Some res, sc_stage := Delivering\<rparr>) s)"
      by (rule change_run_right [OF assms(1,2) _ still run])
        (use assms same in \<open>simp_all add: sch_after_def evidence_right_def scouts_right_def\<close>)
    with True show ?thesis by (simp add: leave_run_def)
  next
    case False
    then have run: "run_right hc (r\<lparr>sc_result := Some res, sc_stage := Over\<rparr>)"
      using assms(5-7) by (auto simp: run_right_def at_work_def limit_right_def)
    have "scouts_right hc (finish_run k (r\<lparr>sc_result := Some res\<rparr>) (s\<lparr>sy_ingested := sy_ingested s\<rparr>))"
      by (rule finish_run_right [OF assms(1,2) _ still])
        (use assms same run in \<open>simp_all add: evidence_right_def scouts_right_def\<close>)
    with False show ?thesis by (auto simp: leave_run_def Let_def)
  qed
qed

text \<open>The way every scout at work ends: its slot is settled, then it leaves.\<close>

lemma settle_and_leave_right:
  assumes "scouts_right hc s" and "k < length (sy_runs s)" and "sc_id r = sc_id (sy_runs s ! k)"
    and "at_work (sy_runs s ! k)" and "limit_right r" and "sc_delivered r = 0" and "says_limit res = sc_limited r"
    and "p = CollabDone \<or> p = CollabFailed" and "sc_id q = sc_id r"
  shows "scouts_right hc (leave_run hc k r res (show_scout q None (Some p) s))"
proof (rule leave_run_right)
  show "scouts_right hc (show_scout q None (Some p) s)"
    by (rule show_scout_right [OF assms(1) nth_mem [OF assms(2)] assms(4)]) (simp add: assms(3,9))
  have d: "distinct (map co_id (slots (sy_store s)))" using assms(1) by (simp add: scouts_right_def display_right_def)
  then show "\<forall>c \<in> set (slots (sy_store (show_scout q None (Some p) s))). live_slot c \<longrightarrow> co_id c \<noteq> sc_id r"
    using not_live_after [OF d _ _ assms(8)] assms(9) by (auto simp: show_scout_def setCollab_slots)
qed (use assms in \<open>simp_all add: show_scout_def\<close>)

lemma delivered_right:
  assumes "scouts_right hc s" and "k < length (sy_runs s)" and "sc_stage (sy_runs s ! k) = Delivering"
  shows "scouts_right hc (delivered k (sy_runs s ! k) s)"
proof -
  let ?r = "sy_runs s ! k" and ?f = "sc_staged (sy_runs s ! k) ! sc_delivered (sy_runs s ! k)"
  have run: "run_right hc ?r" using assms(1,2) by (simp add: scouts_right_def)
  then have n: "sc_delivered ?r < length (sc_staged ?r)" "hc" using assms(3) by (auto simp: run_right_def)
  have ev: "mset (concat (map taken ((sy_runs s)[k := q]))) = add_mset ?f (mset (concat (map taken (sy_runs s))))"
    if "sc_delivered q = Suc (sc_delivered ?r)" "sc_staged q = sc_staged ?r" for q
    by (rule taken_one_more [OF assms(2)]) (simp add: taken_def that take_Suc_conv_app_nth n)
  have evr: "mset (sy_ingested s @ [?f]) = add_mset ?f (mset (concat (map taken (sy_runs s))))"
    using assms(1) by (simp add: scouts_right_def evidence_right_def)
  show ?thesis
  proof (cases "Suc (sc_delivered ?r) < length (sc_staged ?r)")
    case True
    then have "run_right hc (?r\<lparr>sc_delivered := Suc (sc_delivered ?r)\<rparr>)"
      using run assms(3) n(2) by (auto simp: run_right_def at_work_def limit_right_def)
    then have "scouts_right hc (put_run k (?r\<lparr>sc_delivered := Suc (sc_delivered ?r)\<rparr>) (s\<lparr>sy_ingested := sy_ingested s @ [?f]\<rparr>))"
      by (rule change_run_right [OF assms(1,2), rotated 2])
        (use assms(3) evr ev in \<open>simp_all add: sch_after_def evidence_right_def at_work_def put_run_def\<close>)
    with True show ?thesis by (simp add: delivered_def Let_def)
  next
    case False
    then have "run_right hc (?r\<lparr>sc_delivered := Suc (sc_delivered ?r), sc_stage := Over\<rparr>)"
      using run assms(3) n by (auto simp: run_right_def at_work_def limit_right_def)
    then have "scouts_right hc (finish_run k (?r\<lparr>sc_delivered := Suc (sc_delivered ?r)\<rparr>) (s\<lparr>sy_ingested := sy_ingested s @ [?f]\<rparr>))"
      using assms(3) evr ev
      by (intro finish_run_right [OF assms(1,2)]) (simp_all add: evidence_right_def at_work_def put_run_def)
    with False show ?thesis by (simp add: delivered_def Let_def)
  qed
qed

section \<open>The scheduler\<close>

lemma scheduler_change_right:
  assumes "scouts_right hc s" and "distinct (map fst (sch_active sch))"
    and "fst ` set (sch_active sch) = fst ` set (sch_active (sy_scheduler s))"
  shows "scouts_right hc (s\<lparr>sy_scheduler := sch\<rparr>)"
  using assms
  by (cases "sy_down s") (auto simp: scouts_right_def slots_held_def open_ids_def evidence_right_def display_right_def)

lemma setAbort_keys:
  "distinct (map fst (sch_active s)) \<Longrightarrow> distinct (map fst (sch_active (snd (setAbort i s))))"
  "fst ` set (sch_active (snd (setAbort i s))) = fst ` set (sch_active s)"
  by (auto simp: setAbort_def jm_set_distinct dom_update) (force dest: map_of_SomeD)

lemma setAbort_right: "scouts_right hc s \<Longrightarrow> scouts_right hc (s\<lparr>sy_scheduler := snd (setAbort i (sy_scheduler s))\<rparr>)"
  by (rule scheduler_change_right) (auto simp: setAbort_keys scouts_right_def slots_held_def)

lemma tryAcquire_refused: "\<not> fst (tryAcquire i s) \<Longrightarrow> sch_active (snd (tryAcquire i s)) = sch_active s"
  by (simp add: tryAcquire_def Let_def split: if_splits)

lemma tryAcquire_granted:
  assumes "fst (tryAcquire i s)"
  shows "sch_active (snd (tryAcquire i s)) = jm_set i False (sch_active s)" "scheduler_size s < COPY_collab_capacity"
    "\<not> wasAborted i (snd (tryAcquire i s))"
  using assms by (auto simp: tryAcquire_def Let_def scheduler_size_def wasAborted_def split: if_splits)

text \<open>A new scout in the list.\<close>

lemma new_scout_right:
  assumes "scouts_right hc s" and "\<not> sy_down s" and "i \<notin> set (map sc_id (sy_runs s))"
    and "fst (tryAcquire i (sy_scheduler s))"
  shows "scouts_right hc (s\<lparr>sy_scheduler := snd (tryAcquire i (sy_scheduler s)), sy_runs := sy_runs s @ [new_run i goal signal]\<rparr>)"
proof -
  let ?s = "s\<lparr>sy_scheduler := snd (tryAcquire i (sy_scheduler s)), sy_runs := sy_runs s @ [new_run i goal signal]\<rparr>"
  have held: "slots_held s" using assms(1) by (simp add: scouts_right_def)
  have "{r \<in> set (sy_runs ?s). sc_stage r \<noteq> Over} = insert (new_run i goal signal) {r \<in> set (sy_runs s). sc_stage r \<noteq> Over}"
    by (auto simp: new_run_def)
  then have o: "open_ids ?s = insert i (open_ids s)" by (simp add: open_ids_def) (simp add: new_run_def)
  have fresh: "i \<notin> open_ids s" using assms(3) by (auto simp: open_ids_def)
  have fin: "finite (open_ids s)" by (simp add: open_ids_def)
  have "card (open_ids s) = scheduler_size (sy_scheduler s)"
    using held assms(2) distinct_card [of "map fst (sch_active (sy_scheduler s))"] by (simp add: slots_held_def scheduler_size_def)
  then have "card (open_ids ?s) \<le> COPY_collab_capacity"
    using o fresh fin tryAcquire_granted(2) [OF assms(4)] by simp
  then have "slots_held ?s"
    using held assms(2,3) o tryAcquire_granted(1) [OF assms(4)]
    by (simp add: slots_held_def jm_set_distinct dom_update new_run_def)
  moreover have "run_right hc (new_run i goal signal)"
    by (simp add: run_right_def new_run_def at_work_def limit_right_def INVESTIGATE_TOOL_LIMIT_def INVESTIGATE_TURN_LIMIT_def)
  moreover have "evidence_right ?s" using assms(1) by (simp add: scouts_right_def evidence_right_def taken_def new_run_def)
  moreover have "display_right ?s" using assms(1) by (auto simp: scouts_right_def display_right_def)
  ultimately show ?thesis using assms(1) by (auto simp: scouts_right_def)
qed

lemma start_scout_right:
  assumes "scouts_right hc s" and "\<not> sy_down s" and "i \<notin> set (map sc_id (sy_runs s))"
  shows "scouts_right hc (snd (start_scout i goal signal s))"
proof (cases "fst (tryAcquire i (sy_scheduler s))")
  case False
  let ?sch = "snd (tryAcquire i (sy_scheduler s))"
  have "scouts_right hc (s\<lparr>sy_scheduler := ?sch\<rparr>)"
    using assms(1) by (intro scheduler_change_right) (simp_all add: tryAcquire_refused [OF False] scouts_right_def slots_held_def)
  with False show ?thesis by (simp add: start_scout_def case_prod_beta)
next
  case True
  let ?sch = "snd (tryAcquire i (sy_scheduler s))" and ?n = "new_run i goal signal" and ?k = "length (sy_runs s)"
  let ?s0 = "s\<lparr>sy_scheduler := ?sch, sy_runs := sy_runs s @ [?n]\<rparr>"
  let ?s1 = "show_scout ?n (Some (truncateColumns goal 16)) (Some CollabRunning) ?s0"
  let ?sch1 = "snd (setAbort i ?sch)"
  let ?s2 = "?s1\<lparr>sy_scheduler := ?sch1\<rparr>"
  have n: "sc_id ?n = i" "at_work ?n" "limit_right ?n" "sc_delivered ?n = 0" "\<not> sc_limited ?n"
    by (simp_all add: new_run_def at_work_def limit_right_def INVESTIGATE_TOOL_LIMIT_def INVESTIGATE_TURN_LIMIT_def)
  have calm: "\<not> fst (setAbort i ?sch)" "\<not> wasAborted i ?sch1"
    using tryAcquire_granted [OF True] by (simp_all add: setAbort_def wasAborted_def jm_get_set)
  have "scouts_right hc ?s0" by (rule new_scout_right [OF assms True])
  then have "scouts_right hc ?s1" by (rule show_scout_right [of _ _ ?n]) (simp_all add: n)
  then have "scouts_right hc (?s1\<lparr>sy_scheduler := snd (setAbort i (sy_scheduler ?s1))\<rparr>)" by (rule setAbort_right)
  then have r2: "scouts_right hc ?s2" by (simp add: show_scout_def)
  have runs: "sy_runs ?s2 = sy_runs s @ [?n]" by (simp add: show_scout_def)
  show ?thesis
  proof (cases signal)
    case False
    with True calm have "?s2 = snd (start_scout i goal signal s)"
      by (simp add: start_scout_def Let_def show_scout_def case_prod_beta)
    with r2 show ?thesis by simp
  next
    case sig: True
    have "scouts_right hc (leave_run hc ?k ?n Cancelled (show_scout ?n None (Some CollabFailed) ?s2))"
      by (rule settle_and_leave_right [OF r2]) (simp_all add: runs n)
    moreover have "leave_run hc ?k ?n Cancelled (show_scout ?n None (Some CollabFailed) ?s2) = snd (start_scout i goal signal s)"
      using True calm sig by (simp add: start_scout_def Let_def show_scout_def leave_run_def finish_run_def put_run_def new_run_def case_prod_beta)
    ultimately show ?thesis by simp
  qed
qed

section \<open>Steps of a scout at work\<close>

text \<open>What its events keep: its name, its stage, and that nothing has been delivered.\<close>

definition worked :: "scout_run \<Rightarrow> scout_run \<Rightarrow> bool" where
  "worked r q \<longleftrightarrow> sc_id q = sc_id r \<and> sc_stage q = sc_stage r \<and> sc_delivered q = sc_delivered r \<and> (limit_right r \<longrightarrow> limit_right q)"

lemma abort_child_worked: "worked r (abort_child r)"
  by (auto simp: worked_def abort_child_def limit_right_def)

lemma cancel_run_worked: "worked r (cancel_run r)"
  by (auto simp: worked_def cancel_run_def abort_child_def limit_right_def)

lemma tool_result_worked: "sc_stage r = Prompting \<Longrightarrow> worked r (tool_result_seen f r)"
  by (auto simp: worked_def tool_result_seen_def Let_def limit_run_def abort_child_def limit_right_def split: option.split)

lemma turn_ended_worked: "sc_stage r = Prompting \<Longrightarrow> worked r (turn_ended r)"
  by (auto simp: worked_def turn_ended_def Let_def limit_run_def abort_child_def limit_right_def)

lemma signal_worked: "worked r (cancel_run (r\<lparr>sc_signal := True\<rparr>))"
  by (auto simp: worked_def cancel_run_def abort_child_def limit_right_def)

lemma step_events_worked: "worked r (step_started i tool target r)" "worked r (step_ended i tool target e r)"
  by (simp_all add: worked_def step_started_def step_ended_def limit_right_def Let_def)

lemma worked_right:
  assumes "scouts_right hc s" and "at_stage k g s" and "g = Creating \<or> g = Prompting"
    and "worked (sy_runs s ! k) r"
  shows "scouts_right hc (put_run k r s)"
proof (rule put_run_right)
  have k: "k < length (sy_runs s)" using assms(2) by (simp add: at_stage_def)
  with assms(1) have "run_right hc (sy_runs s ! k)" by (simp add: scouts_right_def)
  with assms(2-4) show "run_right hc r" "taken r = taken (sy_runs s ! k)"
    by (auto simp: run_right_def worked_def at_stage_def at_work_def taken_def)
qed (use assms in \<open>auto simp: at_stage_def worked_def at_work_def\<close>)

lemma at_stageD:
  assumes "scouts_right hc s" and "at_stage k g s" and "g = Creating \<or> g = Prompting"
  shows "k < length (sy_runs s)" "at_work (sy_runs s ! k)" "sy_runs s ! k \<in> set (sy_runs s)"
    "limit_right (sy_runs s ! k)" "sc_delivered (sy_runs s ! k) = 0"
  using assms by (auto simp: at_stage_def at_work_def scouts_right_def run_right_def)

lemma emitSteps_right:
  assumes "scouts_right hc s" and "at_stage k Prompting s" and "worked (sy_runs s ! k) r"
  shows "scouts_right hc (emitSteps r (put_run k r s))"
proof -
  have w: "scouts_right hc (put_run k r s)" using worked_right assms by blast
  have "r \<in> set (sy_runs (put_run k r s))" using assms(2) by (simp add: at_stage_def set_update_memI)
  moreover have "at_work r" using assms(2,3) by (simp add: at_stage_def worked_def at_work_def)
  ultimately show ?thesis using w by (auto simp: emitSteps_def intro: show_scout_right)
qed

lemma ended_right:
  assumes "scouts_right hc s" and "at_stage k g s" and "g = Creating \<or> g = Prompting"
  shows "scouts_right hc (scout_threw hc k limit_text s)" "scouts_right hc (prompt_returned hc k report limit_text s)"
proof -
  note at = at_stageD [OF assms]
  show "scouts_right hc (scout_threw hc k limit_text s)"
    unfolding scout_threw_def Let_def
    by (rule settle_and_leave_right [OF assms(1) at(1) refl at(2,4,5)]) simp_all
  show "scouts_right hc (prompt_returned hc k report limit_text s)"
    unfolding prompt_returned_def Let_def
    using settle_and_leave_right [OF assms(1) at(1) refl at(2,4,5)] by simp
qed

lemma session_ready_right:
  assumes "scouts_right hc s" and "at_stage k Creating s"
  shows "scouts_right hc (session_ready hc k limit_text s)"
proof -
  note at = at_stageD [OF assms disjI1 [OF refl]]
  define r where "r = (sy_runs s ! k)\<lparr>sc_stage := Prompting\<rparr>"
  define s1 where "s1 = s\<lparr>sy_scheduler := snd (setAbort (sc_id r) (sy_scheduler s))\<rparr>"
  define r1 where "r1 = (if fst (setAbort (sc_id r) (sy_scheduler s)) then cancel_run r else r)"
  have s1: "scouts_right hc s1" unfolding s1_def by (rule setAbort_right [OF assms(1)])
  have w: "worked r r1" by (simp add: r1_def cancel_run_worked) (simp add: worked_def)
  have r: "sc_id r = sc_id (sy_runs s ! k)" "limit_right r" "sc_delivered r = 0" "sc_stage r = Prompting"
    using at(4,5) by (simp_all add: r_def limit_right_def)
  have r1: "sc_id r1 = sc_id (sy_runs s ! k)" "limit_right r1" "sc_delivered r1 = 0" "sc_stage r1 = Prompting"
    using r w by (simp_all add: worked_def)
  have runs: "sy_runs s1 = sy_runs s" by (simp add: s1_def)
  have "scouts_right hc (put_run k r1 s1)"
    by (rule put_run_right [OF s1]) (use at r1 in \<open>auto simp: runs at_work_def run_right_def taken_def\<close>)
  moreover have "scouts_right hc (leave_run hc k (abort_child r1) (if sc_limited r1 then Limited limit_text else Cancelled)
      (show_scout r1 None (Some CollabFailed) s1))"
    using abort_child_worked [of r1] at r1
    by (intro settle_and_leave_right [OF s1]) (auto simp: runs worked_def abort_child_def)
  ultimately show ?thesis
    by (simp add: session_ready_def Let_def case_prod_beta r_def [symmetric] s1_def [symmetric] r1_def [symmetric])
qed

lemma shut_down_right:
  assumes "scouts_right hc s"
  shows "scouts_right hc (shut_down s)"
proof -
  define f where "f r = (if sc_stage r \<noteq> Over \<and> sc_id r \<in> set (map fst (filter snd (sch_active (sy_scheduler s)))) then cancel_run r else r)" for r
  have f: "sc_id (f r) = sc_id r" "sc_stage (f r) = sc_stage r" "taken (f r) = taken r" "at_work (f r) = at_work r" for r
    by (simp_all add: f_def cancel_run_def abort_child_def taken_def at_work_def)
  have g: "run_right hc (f r)" if "run_right hc r" for r
    using that by (auto simp: f_def cancel_run_def abort_child_def at_work_def run_right_def limit_right_def)
  have runs: "sy_runs (shut_down s) = map f (sy_runs s)" by (simp add: shut_down_def abortAll_def f_def)
  have rest: "sch_active (sy_scheduler (shut_down s)) = []" "sy_down (shut_down s)" "sy_store (shut_down s) = sy_store s"
    "sy_ingested (shut_down s) = sy_ingested s"
    by (simp_all add: shut_down_def abortAll_def)
  have ids: "map sc_id (sy_runs (shut_down s)) = map sc_id (sy_runs s)" by (simp add: runs o_def f)
  have "{r \<in> set (sy_runs (shut_down s)). sc_stage r \<noteq> Over} = f ` {r \<in> set (sy_runs s). sc_stage r \<noteq> Over}"
    by (auto simp: runs f)
  then have "open_ids (shut_down s) = open_ids s" by (simp add: open_ids_def image_image f)
  with assms ids rest have "slots_held (shut_down s)" by (simp add: scouts_right_def slots_held_def)
  moreover have "evidence_right (shut_down s)"
    using assms rest by (simp add: scouts_right_def evidence_right_def runs o_def f)
  moreover have "display_right (shut_down s)"
    using assms rest by (simp add: scouts_right_def display_right_def runs f)
  ultimately show ?thesis using assms by (simp add: scouts_right_def runs g)
qed

section \<open>Every step\<close>

lemma cleared_right: "scouts_right hc s \<Longrightarrow> scouts_right hc (s\<lparr>sy_store := clearSettledCollab (sy_store s)\<rparr>)"
  by (rule store_right [OF _ clearSettled_right]) (auto simp: scouts_right_def display_right_def filter_ids)

lemma other_status_right:
  assumes "scouts_right hc s" and "slots st = slots (sy_store s)" and "st_hold st = st_hold (sy_store s)"
  shows "scouts_right hc (s\<lparr>sy_store := st\<rparr>)"
  using assms by (intro store_right) (auto simp: scouts_right_def display_right_def hold_right_def)

lemma scout_step_right:
  assumes "scouts_step hc s s'" and "scouts_right hc s"
  shows "scouts_right hc s'"
  using assms
proof (cases rule: scouts_step.cases)
  case (called i goal signal)
  with assms(2) show ?thesis by (simp add: start_scout_right)
next
  case (created k limit_text)
  with assms(2) show ?thesis by (simp add: session_ready_right)
next
  case (not_created k limit_text)
  with assms(2) show ?thesis by (auto intro: ended_right)
next
  case (tool_starts k r i tool target)
  with assms(2) show ?thesis by (simp add: emitSteps_right step_events_worked)
next
  case (tool_ends k r i tool target isError)
  with assms(2) show ?thesis by (simp add: emitSteps_right step_events_worked)
next
  case (tool_result k filename)
  with assms(2) show ?thesis by (auto intro!: worked_right tool_result_worked simp: at_stage_def)
next
  case (turn k)
  with assms(2) show ?thesis by (auto intro!: worked_right turn_ended_worked simp: at_stage_def)
next
  case (compaction k)
  with assms(2) show ?thesis by (auto intro!: worked_right abort_child_worked)
next
  case (asked k)
  with at_stageD [OF assms(2)] show ?thesis by (auto intro!: show_scout_right [OF assms(2)])
next
  case (answered k approved)
  with at_stageD [OF assms(2)] show ?thesis by (auto intro!: show_scout_right [OF assms(2)])
next
  case (signalled k g)
  show ?thesis
  proof (cases "g = Delivering")
    case True
    have k: "k < length (sy_runs s)" "sc_stage (sy_runs s ! k) = Delivering" "run_right hc (sy_runs s ! k)"
      using signalled True assms(2) by (auto simp: at_stage_def scouts_right_def)
    have "scouts_right hc (put_run k ((sy_runs s ! k)\<lparr>sc_signal := True\<rparr>) s)"
      by (rule put_run_right [OF assms(2) k(1)]) (use k in \<open>auto simp: at_work_def run_right_def limit_right_def taken_def\<close>)
    with signalled True show ?thesis by simp
  next
    case False
    with signalled assms(2) show ?thesis by (auto intro: worked_right signal_worked)
  qed
next
  case (returned k report limit_text)
  with assms(2) show ?thesis by (auto intro: ended_right)
next
  case (threw k limit_text)
  with assms(2) show ?thesis by (auto intro: ended_right)
next
  case (taken k)
  with assms(2) show ?thesis by (auto intro: delivered_right simp: at_stage_def)
qed (simp_all add: assms(2) shut_down_right cleared_right other_status_right)

lemma scouts_reachable_right: "scouts_reachable hc s \<Longrightarrow> scouts_right hc s"
proof (induction rule: scouts_reachable.induct)
  case start
  show ?case
    by (simp add: scouts_right_def scouts_start_def slots_held_def scheduler_start_def open_ids_def evidence_right_def
        display_right_def hold_right_def store_start_def slots_def createIdleHostStatus_def)
next
  case (more s s')
  then show ?case by (blast intro: scout_step_right)
qed

end
