(* ===== verification/Scout_Properties.thy ===== *)
theory Scout_Properties
  imports Scout_Lemmas Status_Display
begin

text \<open>
  What holds of the scouts and of the status in every reachable state: how many there are, what a scout at
  its limit reports, what becomes of its evidence, what header and footer show, and when the pulse is on.
\<close>

lemma find_map: "List.find P (map f xs) = map_option f (List.find (\<lambda>x. P (f x)) xs)"
  by (induction xs) simp_all

lemma find_index_Cons: "find_index P (x # xs) = (if P x then Some 0 else map_option Suc (find_index P xs))"
proof -
  have "[0..<length (x # xs)] = 0 # map Suc [0..<length xs]" by (simp add: map_Suc_upt upt_conv_Cons del: upt_Suc)
  then show ?thesis by (simp add: find_index_def scan_up_def find_map del: upt_Suc)
qed

lemma with_slot_Cons:
  "with_slot i t p [] = [\<lparr>co_id = i, co_title = (case t of Some x \<Rightarrow> x | None \<Rightarrow> []),
     co_phase = (case p of Some x \<Rightarrow> x | None \<Rightarrow> CollabRunning)\<rparr>]"
  "with_slot i t p (c # cs) = (if co_id c = i then patched_slot t p c # cs else c # with_slot i t p cs)"
  by (auto simp: with_slot_def find_index_Cons split: option.split) (simp_all add: find_index_def scan_up_def)

section \<open>A scout that runs, as an example\<close>

text \<open>Two scouts: the first has staged two files and ended; the second has been asked for consent and told no.\<close>

definition first_called :: scouts where
  "first_called = snd (start_scout ''a'' [] False scouts_start)"

definition first_ready :: scouts where
  "first_ready = session_ready True 0 [] first_called"

definition first_staged :: scouts where
  "first_staged =
     put_run 0 (tool_result_seen (Some ''f2'') (tool_result_seen (Some ''f1'') (sy_runs first_ready ! 0))) first_ready"

definition first_over :: scouts where
  "first_over =
     (let s1 = prompt_returned True 0 [] [] first_staged;
          s2 = delivered 0 (sy_runs s1 ! 0) s1
      in delivered 0 (sy_runs s2 ! 0) s2)"

definition second_ready :: scouts where
  "second_ready = session_ready True 1 [] (snd (start_scout ''b'' [] False first_over))"

definition second_declined :: scouts where
  "second_declined =
     (let s1 = second_ready
      in show_scout (sy_runs s1 ! 1) None (Some CollabFailed) (show_scout (sy_runs s1 ! 1) None (Some CollabAwaiting) s1))"

lemmas example_defs = start_scout_def tryAcquire_def setAbort_def scheduler_size_def scheduler_start_def Let_def
  show_scout_def wasAborted_def session_ready_def new_run_def is_cancelled_def put_run_def scouts_start_def
  COPY_collab_capacity_def

lemma first_ready_eq:
  "first_called = \<lparr>sy_scheduler = \<lparr>sch_active = [(''a'', True)], sch_aborted = []\<rparr>,
     sy_store = setCollab ''a'' (Some (truncateColumns [] 16)) (Some CollabRunning) store_start,
     sy_runs = [new_run ''a'' [] False], sy_ingested = [], sy_down = False\<rparr>"
  "first_ready = first_called\<lparr>sy_runs := [(new_run ''a'' [] False)\<lparr>sc_stage := Prompting\<rparr>]\<rparr>"
  by (simp_all add: first_called_def first_ready_def example_defs)

lemma first_over_eq:
  "sy_runs first_staged ! 0 = (new_run ''a'' [] False)\<lparr>sc_stage := Prompting, sc_tools := 2, sc_staged := [''f1'', ''f2'']\<rparr>"
  "first_over = first_called\<lparr>sy_scheduler := scheduler_start,
     sy_store := setCollab ''a'' None (Some CollabDone) (sy_store first_called),
     sy_runs := [(new_run ''a'' [] False)\<lparr>sc_stage := Over, sc_tools := 2, sc_staged := [''f1'', ''f2''],
                   sc_delivered := 2, sc_result := Some (Concluded [])\<rparr>],
     sy_ingested := [''f1'', ''f2'']\<rparr>"
  by (simp_all add: first_staged_def first_over_def first_ready_eq prompt_returned_def delivered_def leave_run_def
      finish_run_def release_def example_defs tool_result_seen_def INVESTIGATE_TOOL_LIMIT_def)

lemma second_ready_eq:
  "second_ready = first_over\<lparr>sy_scheduler := \<lparr>sch_active = [(''b'', True)], sch_aborted = []\<rparr>,
     sy_store := setCollab ''b'' (Some (truncateColumns [] 16)) (Some CollabRunning) (sy_store first_over),
     sy_runs := sy_runs first_over @ [(new_run ''b'' [] False)\<lparr>sc_stage := Prompting\<rparr>]\<rparr>"
  by (simp add: second_ready_def first_over_eq first_ready_eq example_defs)

lemma first_ready_reachable: "scouts_reachable True first_ready"
proof -
  have "scouts_reachable True first_called"
    unfolding first_called_def
    by (rule scouts_reachable.more [OF scouts_reachable.start scouts_step.called]) (simp_all add: scouts_start_def)
  then show ?thesis
    unfolding first_ready_def
    by (rule scouts_reachable.more [OF _ scouts_step.created]) (simp add: first_ready_eq at_stage_def new_run_def)
qed

lemma first_staged_reachable: "scouts_reachable True first_staged"
proof -
  have "scouts_reachable True (put_run 0 (tool_result_seen (Some ''f1'') (sy_runs first_ready ! 0)) first_ready)" (is "scouts_reachable _ ?s1")
    by (rule scouts_reachable.more [OF first_ready_reachable scouts_step.tool_result])
      (simp add: first_ready_eq at_stage_def new_run_def)
  then have "scouts_reachable True (put_run 0 (tool_result_seen (Some ''f2'') (sy_runs ?s1 ! 0)) ?s1)"
    by (rule scouts_reachable.more [OF _ scouts_step.tool_result])
      (simp add: first_ready_eq at_stage_def new_run_def put_run_def tool_result_seen_def INVESTIGATE_TOOL_LIMIT_def)
  moreover have "put_run 0 (tool_result_seen (Some ''f2'') (sy_runs ?s1 ! 0)) ?s1 = first_staged"
    by (simp add: first_staged_def first_ready_eq put_run_def)
  ultimately show ?thesis by simp
qed

lemma first_over_reachable: "scouts_reachable True first_over"
proof -
  have s1: "scouts_reachable True (prompt_returned True 0 [] [] first_staged)" (is "scouts_reachable _ ?s1")
    by (rule scouts_reachable.more [OF first_staged_reachable scouts_step.returned])
      (simp add: first_staged_def first_ready_eq at_stage_def new_run_def put_run_def tool_result_seen_def INVESTIGATE_TOOL_LIMIT_def)
  have d1: "at_stage 0 Delivering ?s1" "sc_staged (sy_runs ?s1 ! 0) = [''f1'', ''f2'']" "sc_delivered (sy_runs ?s1 ! 0) = 0"
    by (simp_all add: first_staged_def prompt_returned_def leave_run_def first_ready_eq at_stage_def example_defs
        tool_result_seen_def INVESTIGATE_TOOL_LIMIT_def)
  have s2: "scouts_reachable True (delivered 0 (sy_runs ?s1 ! 0) ?s1)" (is "scouts_reachable _ ?s2")
    by (rule scouts_reachable.more [OF s1 scouts_step.taken [OF d1(1)]])
  have "at_stage 0 Delivering ?s2" using d1 by (simp add: delivered_def Let_def put_run_def at_stage_def)
  from scouts_reachable.more [OF s2 scouts_step.taken [OF this]] show ?thesis by (simp add: first_over_def Let_def)
qed

lemma second_ready_reachable: "scouts_reachable True second_ready"
proof -
  have "scouts_reachable True (snd (start_scout ''b'' [] False first_over))" (is "scouts_reachable _ ?s1")
    by (rule scouts_reachable.more [OF first_over_reachable scouts_step.called])
      (simp_all add: first_over_eq first_ready_eq new_run_def)
  then show ?thesis
    unfolding second_ready_def
    by (rule scouts_reachable.more [OF _ scouts_step.created])
      (simp add: first_over_eq first_ready_eq at_stage_def example_defs)
qed

lemma second_declined_reachable: "scouts_reachable True second_declined"
proof -
  have at: "at_stage k g (s\<lparr>sy_store := st\<rparr>) = at_stage k g s" for k g s st by (simp add: at_stage_def)
  have p: "at_stage 1 Prompting second_ready"
    by (simp add: second_ready_eq first_over_eq at_stage_def)
  have s3: "scouts_reachable True (show_scout (sy_runs second_ready ! 1) None (Some CollabAwaiting) second_ready)" (is "scouts_reachable _ ?s3")
    by (rule scouts_reachable.more [OF second_ready_reachable scouts_step.asked [OF p]])
  have "at_stage 1 Prompting ?s3" using p by (simp add: show_scout_def at)
  from scouts_reachable.more [OF s3 scouts_step.answered [OF this, of _ False]]
  show ?thesis by (simp add: second_declined_def Let_def show_scout_def)
qed

text \<open>
  A question the user has declined: the footer shows no scout at work and the slot is about to be cleared,
  while the scout goes on.
\<close>

lemma declined_scout_works_unseen:
  "\<exists>s. scouts_reachable True s \<and> activeCollab (slots (sy_store s)) = [] \<and> st_hold (sy_store s) \<and>
     (\<exists>r \<in> set (sy_runs s). sc_stage r = Prompting \<and> \<not> sc_cancelled r \<and> \<not> sc_limited r)"
proof (intro exI conjI)
  have start: "slots store_start = []" by (simp add: slots_def store_start_def createIdleHostStatus_def)
  have sl: "map (\<lambda>c. (co_id c, co_phase c)) (slots (sy_store second_declined)) = [(''a'', CollabDone), (''b'', CollabFailed)]"
    by (simp add: second_declined_def second_ready_eq first_over_eq first_ready_eq show_scout_def setCollab_slots
        with_slot_Cons start patched_slot_def new_run_def Let_def)
  then have all: "\<forall>c \<in> set (slots (sy_store second_declined)). \<not> live_slot c" "slots (sy_store second_declined) \<noteq> []"
    by (auto simp: live_slot_def map_eq_Cons_conv)
  show "activeCollab (slots (sy_store second_declined)) = []"
    using all(1) by (auto simp: activeCollab_def live_slot_def live_phase_def filter_empty_conv)
  show "st_hold (sy_store second_declined)"
    using all scouts_reachable_right [OF second_declined_reachable]
    by (auto simp: scouts_right_def display_right_def hold_right_def)
  show "\<exists>r \<in> set (sy_runs second_declined). sc_stage r = Prompting \<and> \<not> sc_cancelled r \<and> \<not> sc_limited r"
    by (simp add: second_declined_def second_ready_eq show_scout_def new_run_def Let_def)
qed (rule second_declined_reachable)

section \<open>How many scouts there are\<close>

definition scouts_open :: "scouts \<Rightarrow> scout_run list" where
  "scouts_open s = filter (\<lambda>r. sc_stage r \<noteq> Over) (sy_runs s)"

lemma open_card: "distinct (map sc_id (sy_runs s)) \<Longrightarrow> card (open_ids s) = length (scouts_open s)"
  using distinct_card [of "map sc_id (scouts_open s)"] by (simp add: scouts_open_def open_ids_def distinct_map_filter)

text \<open>
  C24. In every reachable state at most three scouts are not over. Until the session is shut down the
  scheduler's slots are exactly those of the scouts that are not over, however they ended, so with fewer
  than three of them the next call is accepted and with three it is refused.
\<close>

theorem scouts_share_three_slots:
  assumes "scouts_reachable hc s"
  shows "length (scouts_open s) \<le> 3 \<and>
    (\<not> sy_down s \<longrightarrow> scheduler_size (sy_scheduler s) = length (scouts_open s) \<and>
       (fst (start_scout i goal signal s) \<longleftrightarrow> length (scouts_open s) < 3))"
proof -
  have held: "slots_held s" using scouts_reachable_right [OF assms] by (simp add: scouts_right_def)
  then have n: "card (open_ids s) = length (scouts_open s)" by (simp add: open_card slots_held_def)
  have sz: "scheduler_size (sy_scheduler s) = length (scouts_open s)" if "\<not> sy_down s"
    using held that n distinct_card [of "map fst (sch_active (sy_scheduler s))"] by (simp add: slots_held_def scheduler_size_def)
  moreover have "fst (start_scout i goal signal s) \<longleftrightarrow> length (scouts_open s) < 3" if "\<not> sy_down s"
    using sz [OF that] by (simp add: start_scout_def tryAcquire_def scheduler_size_def Let_def case_prod_beta COPY_collab_capacity_def)
  ultimately show ?thesis using held n by (simp add: slots_held_def COPY_collab_capacity_def)
qed

theorem scouts_share_three_slots_witness:
  "length (scouts_open second_declined) \<le> 3 \<and> fst (start_scout ''c'' [] False second_declined)"
proof -
  have "\<not> sy_down second_declined" "length (scouts_open second_declined) = 1"
    by (simp_all add: second_declined_def second_ready_eq first_over_eq first_ready_eq show_scout_def scouts_open_def
        new_run_def Let_def)
  with scouts_share_three_slots [OF second_declined_reachable, of "''c''" "[]" False] show ?thesis by simp
qed

section \<open>Limits\<close>

text \<open>
  C25. A scout that has had 12 results of tools or 16 turns is marked as limited and has been told to stop;
  when it has ended, what it reports is the report of a limited scout, whatever else happened meanwhile
  (the caller's abort, a shutdown, a failure), and no other scout reports that.
\<close>

theorem scout_at_limit_reports_it:
  assumes "scouts_reachable hc s" and "r \<in> set (sy_runs s)"
  shows "(sc_limited r \<longleftrightarrow> sc_tools r \<ge> 12 \<or> sc_turns r \<ge> 16) \<and> (sc_limited r \<longrightarrow> sc_aborts r > 0) \<and>
    (sc_stage r = Over \<longrightarrow> (\<exists>res. sc_result r = Some res \<and> ((\<exists>t. res = Limited t) \<longleftrightarrow> sc_limited r)))"
proof -
  have run: "run_right hc r" using scouts_reachable_right [OF assms(1)] assms(2) by (simp add: scouts_right_def)
  have "says_limit res \<longleftrightarrow> (\<exists>t. res = Limited t)" for res by (cases res) simp_all
  with run show ?thesis
    by (auto simp: run_right_def limit_right_def at_work_def INVESTIGATE_TOOL_LIMIT_def INVESTIGATE_TURN_LIMIT_def)
qed

theorem scout_at_limit_reports_it_witness:
  "\<exists>r \<in> set (sy_runs first_over). sc_stage r = Over \<and> \<not> sc_limited r \<and> \<not> (\<exists>t. sc_result r = Some (Limited t))"
proof -
  have m: "sy_runs first_over ! 0 \<in> set (sy_runs first_over)" and o: "sc_stage (sy_runs first_over ! 0) = Over"
    "sc_tools (sy_runs first_over ! 0) = 2" "sc_turns (sy_runs first_over ! 0) = 0"
    by (simp_all add: first_over_eq new_run_def)
  with scout_at_limit_reports_it [OF first_over_reachable m] show ?thesis by (intro bexI [OF _ m]) auto
qed

section \<open>Evidence\<close>

text \<open>
  With a core to talk to, the intake has taken, at every moment, for each scout a prefix of the files it
  staged and nothing else, and for a scout that is over all of them, each once: so when all scouts are over
  the files taken are exactly the files staged.
\<close>

theorem staged_evidence_is_taken_once:
  assumes "scouts_reachable True s"
  shows "mset (sy_ingested s) = mset (concat (map (\<lambda>r. take (sc_delivered r) (sc_staged r)) (sy_runs s))) \<and>
    (\<forall>r \<in> set (sy_runs s). sc_stage r = Over \<longrightarrow> sc_delivered r = length (sc_staged r)) \<and>
    (scouts_open s = [] \<longrightarrow> mset (sy_ingested s) = mset (concat (map sc_staged (sy_runs s))))"
proof -
  have right: "scouts_right True s" by (rule scouts_reachable_right [OF assms])
  then have ev: "mset (sy_ingested s) = mset (concat (map taken (sy_runs s)))"
    by (simp add: scouts_right_def evidence_right_def)
  moreover have over: "\<forall>r \<in> set (sy_runs s). sc_stage r = Over \<longrightarrow> sc_delivered r = length (sc_staged r)"
    using right by (auto simp: scouts_right_def run_right_def)
  moreover have "mset (sy_ingested s) = mset (concat (map sc_staged (sy_runs s)))" if "scouts_open s = []"
  proof -
    have "map taken (sy_runs s) = map sc_staged (sy_runs s)"
      using that over by (auto simp: scouts_open_def filter_empty_conv taken_def)
    with ev show ?thesis by simp
  qed
  ultimately show ?thesis unfolding taken_def by blast
qed

theorem staged_evidence_is_taken_once_witness: "mset (sy_ingested first_over) = {#''f1'', ''f2''#}"
proof -
  have "scouts_open first_over = []" and staged: "concat (map sc_staged (sy_runs first_over)) = [''f1'', ''f2'']"
    by (simp_all add: scouts_open_def first_over_eq)
  then have "mset (sy_ingested first_over) = mset (concat (map sc_staged (sy_runs first_over)))"
    using staged_evidence_is_taken_once [OF first_over_reachable] by blast
  then show ?thesis using staged by simp
qed

section \<open>Display\<close>

text \<open>
  Every slot the status shows as running or waiting belongs to a scout that is at work (it has been called
  and its prompt has not ended), slots are one per scout, and the timer that clears settled slots is set
  exactly when there are slots and none is live.
\<close>

theorem live_slots_are_scouts_at_work:
  assumes "scouts_reachable hc s"
  shows "(\<forall>c \<in> set (activeCollab (slots (sy_store s))).
      \<exists>r \<in> set (sy_runs s). sc_id r = co_id c \<and> (sc_stage r = Creating \<or> sc_stage r = Prompting)) \<and>
    distinct (map co_id (slots (sy_store s))) \<and>
    (st_hold (sy_store s) \<longleftrightarrow> slots (sy_store s) \<noteq> [] \<and> activeCollab (slots (sy_store s)) = [])"
proof -
  have right: "display_right s" using scouts_reachable_right [OF assms] by (simp add: scouts_right_def)
  have ac: "set (activeCollab cs) = {c \<in> set cs. live_slot c}" for cs
    by (auto simp: activeCollab_def live_phase_def live_slot_def)
  then have "activeCollab cs = [] \<longleftrightarrow> (\<forall>c \<in> set cs. \<not> live_slot c)" for cs
    by (metis (mono_tags, lifting) empty_Collect_eq set_empty)
  with ac right show ?thesis by (auto simp: display_right_def hold_right_def at_work_def)
qed

theorem live_slots_are_scouts_at_work_witness: "distinct (map co_id (slots (sy_store second_declined)))"
  using live_slots_are_scouts_at_work [OF second_declined_reachable] by blast

text \<open>
  The first line of the footer and the header never take more columns than the terminal has, whatever
  the names of cards, engines and goals are: wide characters count two columns, and the ellipsis counts.
\<close>

theorem status_lines_fit_the_terminal:
  assumes "0 \<le> width"
  shows "columnWidth (formatFooterLine status width) \<le> width \<and>
    columnWidth (formatCompactHeader version (hs_collab status) width) \<le> width"
  using formatFooterLine_width [OF assms] formatCompactHeader_width [OF assms] by blast

theorem status_lines_fit_the_terminal_witness: "columnWidth (formatFooterLine createIdleHostStatus 10) \<le> 10"
  using status_lines_fit_the_terminal [of 10 createIdleHostStatus "[]"] by simp

section \<open>The pulse\<close>

text \<open>
  The timer of the pulse runs exactly while it is bound and the status says that the managed service
  runs, whichever events, probes and unbinding have come in which order; a probe that answers after the
  service has stopped, or with no card, changes no segment.
\<close>

theorem pulse_runs_with_the_service:
  assumes "pulse_reachable p"
  shows "(pu_timer p \<longleftrightarrow> pu_bound p \<and> sv_kind (hs_service (st_status (pu_store p))) = Running) \<and>
    (\<forall>gpus. sv_kind (hs_service (st_status (pu_store p))) \<noteq> Running \<or> gpus = [] \<longrightarrow>
       pu_store (probed (Some gpus) p) = pu_store p)"
  using pulse_reachable_right [OF assms] by (auto simp: pulse_right_def service_runs_def probed_def)

theorem pulse_runs_with_the_service_witness: "\<not> pu_timer (bindManagedHostPulse store_start)"
proof -
  have "sv_kind (hs_service (st_status (pu_store (bindManagedHostPulse store_start)))) \<noteq> Running"
    by (simp add: bindManagedHostPulse_def store_start_def createIdleHostStatus_def)
  with pulse_runs_with_the_service [OF pulse_reachable.start] show ?thesis by blast
qed

section \<open>Its end\<close>

text \<open>How far a scout is from its end, in events.\<close>

definition steps_left :: "scout_run \<Rightarrow> nat" where
  "steps_left r =
     (case sc_stage r of Over \<Rightarrow> 0 | Delivering \<Rightarrow> length (sc_staged r) - sc_delivered r | _ \<Rightarrow> Suc (length (sc_staged r)))"

lemma nearer_the_end:
  assumes "scouts_right hc s" and "k < length (sy_runs s)" and "sc_stage (sy_runs s ! k) \<noteq> Over"
  shows "\<exists>s'. scouts_step hc s s' \<and> k < length (sy_runs s') \<and> sc_id (sy_runs s' ! k) = sc_id (sy_runs s ! k) \<and>
    steps_left (sy_runs s' ! k) < steps_left (sy_runs s ! k)"
proof (cases "sc_stage (sy_runs s ! k) = Delivering")
  case True
  have n: "sc_delivered (sy_runs s ! k) < length (sc_staged (sy_runs s ! k))"
    using assms(1,2) True by (auto simp: scouts_right_def run_right_def)
  have "scouts_step hc s (delivered k (sy_runs s ! k) s)"
    by (rule scouts_step.taken) (simp add: at_stage_def assms(2) True)
  moreover have "k < length (sy_runs (delivered k (sy_runs s ! k) s))"
    "sc_id (sy_runs (delivered k (sy_runs s ! k) s) ! k) = sc_id (sy_runs s ! k)"
    "steps_left (sy_runs (delivered k (sy_runs s ! k) s) ! k) < steps_left (sy_runs s ! k)"
    using assms(2) True n
    by (auto simp: delivered_def Let_def finish_run_def put_run_def steps_left_def intro: diff_less_mono2)
  ultimately show ?thesis by blast
next
  case False
  with assms(3) have st: "sc_stage (sy_runs s ! k) = Creating \<or> sc_stage (sy_runs s ! k) = Prompting"
    by (cases "sc_stage (sy_runs s ! k)") auto
  then have "scouts_step hc s (scout_threw hc k [] s)"
    using assms(2) by (auto simp: at_stage_def intro: scouts_step.not_created scouts_step.threw)
  moreover have "k < length (sy_runs (scout_threw hc k [] s))"
    "sc_id (sy_runs (scout_threw hc k [] s) ! k) = sc_id (sy_runs s ! k)"
    "steps_left (sy_runs (scout_threw hc k [] s) ! k) < steps_left (sy_runs s ! k)"
    using assms(1,2) st
    by (auto simp: scout_threw_def Let_def leave_run_def finish_run_def put_run_def show_scout_def steps_left_def)
  ultimately show ?thesis by blast
qed

lemma over_without_slot:
  assumes "scouts_right hc s" and "k < length (sy_runs s)" and "sc_stage (sy_runs s ! k) = Over"
  shows "sc_id (sy_runs s ! k) \<notin> fst ` set (sch_active (sy_scheduler s))"
  using assms open_ids_elem [of s k] by (cases "sy_down s") (auto simp: scouts_right_def slots_held_def)

text \<open>
  No scout can be stuck with its slot: from every reachable state some further events bring it to its end,
  and then its slot is free.
\<close>

theorem every_scout_can_end:
  assumes "scouts_reachable hc s" and "k < length (sy_runs s)"
  shows "\<exists>s'. (scouts_step hc)\<^sup>*\<^sup>* s s' \<and> sc_stage (sy_runs s' ! k) = Over \<and>
    sc_id (sy_runs s' ! k) = sc_id (sy_runs s ! k) \<and>
    sc_id (sy_runs s ! k) \<notin> fst ` set (sch_active (sy_scheduler s'))"
  using assms
proof (induction "steps_left (sy_runs s ! k)" arbitrary: s rule: less_induct)
  case less
  show ?case
  proof (cases "sc_stage (sy_runs s ! k) = Over")
    case True
    with over_without_slot [OF scouts_reachable_right [OF less.prems(1)] less.prems(2)] show ?thesis by blast
  next
    case False
    from nearer_the_end [OF scouts_reachable_right [OF less.prems(1)] less.prems(2) False]
    obtain s1 where s1: "scouts_step hc s s1" "k < length (sy_runs s1)" "sc_id (sy_runs s1 ! k) = sc_id (sy_runs s ! k)"
      "steps_left (sy_runs s1 ! k) < steps_left (sy_runs s ! k)" by blast
    from less.hyps [OF s1(4) scouts_reachable.more [OF less.prems(1) s1(1)] s1(2)] s1(1,3)
    show ?thesis by (metis converse_rtranclp_into_rtranclp)
  qed
qed

theorem every_scout_can_end_witness:
  "\<exists>s'. (scouts_step True)\<^sup>*\<^sup>* second_ready s' \<and> sc_stage (sy_runs s' ! 1) = Over"
proof -
  have "1 < length (sy_runs second_ready)" by (simp add: second_ready_eq first_over_eq)
  from every_scout_can_end [OF second_ready_reachable this] show ?thesis by blast
qed

end
