(* ===== verification/Extension_Runner.thy ===== *)
theory Extension_Runner
  imports Messages
begin

text \<open>
  How \<open>ExtensionRunner\<close> passes its events round (\<open>core/extensions/runner.ts\<close>), and the hooks of the session
  around a tool call (\<open>core/agent-session.ts\<close>). Each gives its answer, the errors reported to the listeners,
  in order, and the world as the handlers left it.
\<close>

text \<open>
  The events the class \<open>ExtensionRunner\<close> passes to the handlers of extensions (\<open>core/extensions/runner.ts\<close>,
  \<open>types.ts\<close>). A handler is code of an extension: a function of the event and of the world
  \<open>'s\<close> the extensions share, which it may change. It throws or returns, possibly nothing. Handlers do not
  change an event in place, but for the input of a call and the headers of a request, where the code says
  that they may.
\<close>

section \<open>Handlers\<close>

datatype 'r handled = Threw string | Returned "'r option"

type_synonym ('e, 'r, 's) handler = "'e \<Rightarrow> 's \<Rightarrow> 'r handled \<times> 's"

text \<open>One that may change its event.\<close>

type_synonym ('e, 'r, 's) mutator = "'e \<Rightarrow> 's \<Rightarrow> 'r handled \<times> 'e \<times> 's"

section \<open>Events and results\<close>

record before_result =
  be_cancel :: bool
  be_rest :: json

record tool_result_event =
  te_toolName :: string
  te_toolCallId :: string
  te_input :: "json jsmap"
  te_content :: "block list"
  te_details :: "json option"
  te_isError :: bool
  te_usage :: "usage option"

record tool_result_patch =
  tp_content :: "block list option"
  tp_details :: "json option"
  tp_isError :: "bool option"
  tp_usage :: "usage option"

record tool_call_event =
  tc_toolName :: string
  tc_toolCallId :: string
  tc_input :: "json jsmap"

record tool_call_result =
  tr_block :: bool
  tr_reason :: "string option"
  tr_terminate :: "bool option"

record user_bash_event =
  ub_command :: string
  ub_excludeFromContext :: bool
  ub_cwd :: string

record start_event =
  se_prompt :: string
  se_images :: "block list option"
  se_systemPrompt :: string
  se_options :: json

record start_result =
  sr_message :: "json option"
  sr_systemPrompt :: "string option"

record start_combined =
  sc_messages :: "json list option"
  sc_prompt :: "string option"

record discover_event =
  de_cwd :: string
  de_reload :: bool

record discover_result =
  di_skillPaths :: "string list option"
  di_promptPaths :: "string list option"
  di_themePaths :: "string list option"

datatype input_source = FromInteractive | FromRpc | FromExtension

record input_event =
  in_text :: string
  in_images :: "block list option"
  in_source :: input_source
  in_streaming :: "string option"

datatype input_answer = Continue | Transform string "block list option" | Handled

datatype trust_decision = TrustYes | TrustNo | TrustUndecided

record trust_result =
  tu_trusted :: trust_decision
  tu_remember :: bool

section \<open>Extensions\<close>

text \<open>The handlers of an extension, by event; a type without handlers has the empty list.\<close>

record 's extension =
  ex_path :: string
  ex_event :: "string \<Rightarrow> (json, before_result, 's) handler list"
  ex_message_end :: "(agent_message, agent_message, 's) handler list"
  ex_tool_result :: "(tool_result_event, tool_result_patch, 's) handler list"
  ex_tool_call :: "(tool_call_event, tool_call_result, 's) mutator list"
  ex_user_bash :: "(user_bash_event, json, 's) handler list"
  ex_context :: "(agent_message list, agent_message list, 's) handler list"
  ex_provider_request :: "(json, json, 's) handler list"
  ex_provider_headers :: "(string jsmap, unit, 's) mutator list"
  ex_before_agent_start :: "(start_event, start_result, 's) handler list"
  ex_resources_discover :: "(discover_event, discover_result, 's) handler list"
  ex_input :: "(input_event, input_answer, 's) handler list"
  ex_project_trust :: "(string, trust_result, 's) handler list"

record extension_error =
  er_extensionPath :: string
  er_event :: string
  er_error :: string

section \<open>Calling them\<close>

text \<open>What one handler's result does to what the code has so far; \<open>Refuse\<close> reports an error and goes on.\<close>

datatype 'a step = Go 'a | Stop 'a | Refuse string

definition error_at :: "string \<Rightarrow> string \<Rightarrow> string \<Rightarrow> extension_error" where
  "error_at path event message = \<lparr>er_extensionPath = path, er_event = event, er_error = message\<rparr>"

text \<open>The two nested loops with their \<open>try\<close>, over the handlers in the order of the extensions.\<close>

fun each_handler ::
  "string \<Rightarrow> ('a \<Rightarrow> 'e) \<Rightarrow> (string \<Rightarrow> 'a \<Rightarrow> 'r \<Rightarrow> 'a step) \<Rightarrow> (string \<times> ('e, 'r, 's) handler) list \<Rightarrow>
     'a \<Rightarrow> 's \<Rightarrow> 'a \<times> extension_error list \<times> 's" where
  "each_handler event event_of combine [] a w = (a, [], w)"
| "each_handler event event_of combine ((path, h) # hs) a w =
     (let (result, w1) = h (event_of a) w;
          onwards = (\<lambda>a errs. let (a2, errs2, w2) = each_handler event event_of combine hs a w1 in (a2, errs @ errs2, w2))
      in case result of
           Threw message \<Rightarrow> onwards a [error_at path event message]
         | Returned None \<Rightarrow> onwards a []
         | Returned (Some r) \<Rightarrow>
             (case combine path a r of
                Go a1 \<Rightarrow> onwards a1 []
              | Stop a1 \<Rightarrow> (a1, [], w1)
              | Refuse message \<Rightarrow> onwards a [error_at path event message]))"

definition handlers_of :: "('s extension \<Rightarrow> 'h list) \<Rightarrow> 's extension list \<Rightarrow> (string \<times> 'h) list" where
  "handlers_of sel exts = concat (map (\<lambda>x. map (Pair (ex_path x)) (sel x)) exts)"

type_synonym ('a, 's) answer = "'a \<times> extension_error list \<times> 's"

section \<open>Session events\<close>

definition isSessionBeforeEvent :: "string \<Rightarrow> bool" where
  "isSessionBeforeEvent t \<longleftrightarrow>
     t = ''session_before_switch'' \<or> t = ''session_before_fork'' \<or> t = ''session_before_compact'' \<or> t = ''session_before_tree''"

definition emit_event :: "'s extension list \<Rightarrow> string \<Rightarrow> json \<Rightarrow> 's \<Rightarrow> (before_result option, 's) answer" where
  "emit_event exts t event w =
     each_handler t (\<lambda>_. event)
       (\<lambda>_ result r. if isSessionBeforeEvent t then (if be_cancel r then Stop (Some r) else Go (Some r)) else Go result)
       (handlers_of (\<lambda>x. ex_event x t) exts) None w"

definition hasHandlers :: "('s extension \<Rightarrow> 'h list) \<Rightarrow> 's extension list \<Rightarrow> bool" where
  "hasHandlers sel exts \<longleftrightarrow> (\<exists>x \<in> set exts. sel x \<noteq> [])"

definition emitSessionShutdownEvent :: "'s extension list \<Rightarrow> json \<Rightarrow> 's \<Rightarrow> (bool, 's) answer" where
  "emitSessionShutdownEvent exts event w =
     (if hasHandlers (\<lambda>x. ex_event x ''session_shutdown'') exts
      then (let (_, errs, w1) = emit_event exts ''session_shutdown'' event w in (True, errs, w1))
      else (False, [], w))"

text \<open>The first answer that is not undecided, with the errors so far.\<close>

definition emitProjectTrustEvent :: "'s extension list \<Rightarrow> string \<Rightarrow> 's \<Rightarrow> (trust_result option, 's) answer" where
  "emitProjectTrustEvent exts cwd w =
     each_handler ''project_trust'' (\<lambda>_. cwd)
       (\<lambda>_ a r. if tu_trusted r = TrustUndecided then Go a else Stop (Some r))
       (handlers_of ex_project_trust exts) None w"

section \<open>Messages and context\<close>

fun role_of :: "agent_message \<Rightarrow> string" where
  "role_of (User _ _) = ''user''"
| "role_of (Assistant _) = ''assistant''"
| "role_of (ToolResult _ _ _) = ''toolResult''"
| "role_of (BashExecution _) = ''bashExecution''"
| "role_of (Custom _) = ''custom''"
| "role_of (BranchSummary _ _ _) = ''branchSummary''"
| "role_of (CompactionSummary _ _ _) = ''compactionSummary''"

definition same_role_only :: "agent_message \<times> bool \<Rightarrow> agent_message \<Rightarrow> (agent_message \<times> bool) step" where
  "same_role_only a m =
     (if role_of m \<noteq> role_of (fst a) then Refuse ''message_end handlers must return a message with the same role''
      else Go (m, True))"

definition emitMessageEnd :: "'s extension list \<Rightarrow> agent_message \<Rightarrow> 's \<Rightarrow> (agent_message option, 's) answer" where
  "emitMessageEnd exts message w =
     (let ((current, modified), errs, w1) =
            each_handler ''message_end'' fst (\<lambda>_. same_role_only) (handlers_of ex_message_end exts) (message, False) w
      in (if modified then Some current else None, errs, w1))"

definition emitContext :: "'s extension list \<Rightarrow> agent_message list \<Rightarrow> 's \<Rightarrow> (agent_message list, 's) answer" where
  "emitContext exts messages w =
     each_handler ''context'' (\<lambda>current. current) (\<lambda>_ _ ms. Go ms) (handlers_of ex_context exts) messages w"

section \<open>Results of tools\<close>

definition patch_result :: "tool_result_patch \<Rightarrow> tool_result_event \<Rightarrow> tool_result_event" where
  "patch_result p e =
     e\<lparr>te_content := (case tp_content p of Some c \<Rightarrow> c | None \<Rightarrow> te_content e),
       te_details := (case tp_details p of Some d \<Rightarrow> Some d | None \<Rightarrow> te_details e),
       te_isError := (case tp_isError p of Some b \<Rightarrow> b | None \<Rightarrow> te_isError e),
       te_usage := (case tp_usage p of Some u \<Rightarrow> Some u | None \<Rightarrow> te_usage e)\<rparr>"

definition says_something :: "tool_result_patch \<Rightarrow> bool" where
  "says_something p \<longleftrightarrow> tp_content p \<noteq> None \<or> tp_details p \<noteq> None \<or> tp_isError p \<noteq> None \<or> tp_usage p \<noteq> None"

definition emitToolResult :: "'s extension list \<Rightarrow> tool_result_event \<Rightarrow> 's \<Rightarrow> (tool_result_patch option, 's) answer" where
  "emitToolResult exts event w =
     (let ((current, modified), errs, w1) =
            each_handler ''tool_result'' fst (\<lambda>_ (e, m) p. Go (patch_result p e, m \<or> says_something p))
              (handlers_of ex_tool_result exts) (event, False) w
      in (if modified
          then Some \<lparr>tp_content = Some (te_content current), tp_details = te_details current,
                     tp_isError = Some (te_isError current), tp_usage = te_usage current\<rparr>
          else None, errs, w1))"

section \<open>Calls of tools\<close>

text \<open>Nothing is caught here: a handler that throws ends the round, and the call does not run.\<close>

fun tool_call_round ::
  "(string \<times> (tool_call_event, tool_call_result, 's) mutator) list \<Rightarrow> tool_call_result option \<Rightarrow> tool_call_event \<Rightarrow> 's \<Rightarrow>
     (string + tool_call_result option) \<times> tool_call_event \<times> 's" where
  "tool_call_round [] result e w = (Inr result, e, w)"
| "tool_call_round ((path, h) # hs) result e w =
     (let (answer, e1, w1) = h e w in
      case answer of
        Threw message \<Rightarrow> (Inl message, e1, w1)
      | Returned None \<Rightarrow> tool_call_round hs result e1 w1
      | Returned (Some r) \<Rightarrow>
          if tr_block r then (Inr (Some r), e1, w1) else tool_call_round hs (Some r) e1 w1)"

definition emitToolCall ::
  "'s extension list \<Rightarrow> tool_call_event \<Rightarrow> 's \<Rightarrow> (string + tool_call_result option) \<times> tool_call_event \<times> 's" where
  "emitToolCall exts e w = tool_call_round (handlers_of ex_tool_call exts) None e w"

text \<open>The hooks the session installs. The arguments are those the agent executes the tool with.\<close>

definition beforeToolCall ::
  "'s extension list \<Rightarrow> tool_call_event \<Rightarrow> 's \<Rightarrow> (string + tool_call_result option) \<times> tool_call_event \<times> 's" where
  "beforeToolCall exts e w = (if \<not> hasHandlers ex_tool_call exts then (Inr None, e, w) else emitToolCall exts e w)"

text \<open>\<open>resize\<close>: images of the content are resized; the code compares identities, so it tells a change.\<close>

definition afterToolCall ::
  "(block list \<Rightarrow> block list \<times> bool) \<Rightarrow> 's extension list \<Rightarrow> tool_result_event \<Rightarrow> 's \<Rightarrow> (tool_result_patch option, 's) answer" where
  "afterToolCall resize exts event w =
     (let (hook, errs, w1) =
            (if hasHandlers ex_tool_result exts then emitToolResult exts event w else (None, [], w));
          shown = (case Option.bind hook tp_content of Some c \<Rightarrow> c | None \<Rightarrow> te_content event);
          (normalized, changed) = resize shown
      in (if hook = None \<and> \<not> changed then None
          else Some \<lparr>tp_content = Some normalized,
                     tp_details = (case hook of Some h \<Rightarrow> tp_details h | None \<Rightarrow> None),
                     tp_isError = Some (case hook of Some h \<Rightarrow> (case tp_isError h of Some b \<Rightarrow> b | None \<Rightarrow> te_isError event) | None \<Rightarrow> te_isError event),
                     tp_usage = (case hook of Some h \<Rightarrow> tp_usage h | None \<Rightarrow> None)\<rparr>, errs, w1))"

section \<open>Shell commands of the user\<close>

definition emitUserBash :: "'s extension list \<Rightarrow> user_bash_event \<Rightarrow> 's \<Rightarrow> (json option, 's) answer" where
  "emitUserBash exts event w =
     each_handler ''user_bash'' (\<lambda>_. event) (\<lambda>_ _ r. Stop (Some r)) (handlers_of ex_user_bash exts) None w"

section \<open>Requests to a provider\<close>

definition emitBeforeProviderRequest :: "'s extension list \<Rightarrow> json \<Rightarrow> 's \<Rightarrow> (json, 's) answer" where
  "emitBeforeProviderRequest exts payload w =
     each_handler ''before_provider_request'' (\<lambda>current. current) (\<lambda>_ _ p. Go p) (handlers_of ex_provider_request exts) payload w"

text \<open>The headers are one object all handlers change; what they return is ignored.\<close>

fun headers_round ::
  "(string \<times> (string jsmap, unit, 's) mutator) list \<Rightarrow> string jsmap \<Rightarrow> 's \<Rightarrow> (string jsmap, 's) answer" where
  "headers_round [] headers w = (headers, [], w)"
| "headers_round ((path, h) # hs) headers w =
     (let (answer, headers1, w1) = h headers w;
          (headers2, errs, w2) = headers_round hs headers1 w1
      in (headers2,
          (case answer of Threw message \<Rightarrow> [error_at path ''before_provider_headers'' message] | Returned _ \<Rightarrow> []) @ errs, w2))"

definition emitBeforeProviderHeaders :: "'s extension list \<Rightarrow> string jsmap \<Rightarrow> 's \<Rightarrow> (string jsmap, 's) answer" where
  "emitBeforeProviderHeaders exts headers w = headers_round (handlers_of ex_provider_headers exts) headers w"

section \<open>The start of the agent\<close>

record starting =
  sg_prompt :: string
  sg_modified :: bool
  sg_messages :: "json list"

definition add_start :: "start_result \<Rightarrow> starting \<Rightarrow> starting" where
  "add_start r a =
     (let a1 = (case sr_message r of Some m \<Rightarrow> a\<lparr>sg_messages := sg_messages a @ [m]\<rparr> | None \<Rightarrow> a) in
      case sr_systemPrompt r of Some p \<Rightarrow> a1\<lparr>sg_prompt := p, sg_modified := True\<rparr> | None \<Rightarrow> a1)"

definition emitBeforeAgentStart ::
  "'s extension list \<Rightarrow> string \<Rightarrow> block list option \<Rightarrow> string \<Rightarrow> json \<Rightarrow> 's \<Rightarrow> (start_combined option, 's) answer" where
  "emitBeforeAgentStart exts prompt images systemPrompt options w =
     (let (a, errs, w1) =
            each_handler ''before_agent_start''
              (\<lambda>a. \<lparr>se_prompt = prompt, se_images = images, se_systemPrompt = sg_prompt a, se_options = options\<rparr>)
              (\<lambda>_ a r. Go (add_start r a)) (handlers_of ex_before_agent_start exts)
              \<lparr>sg_prompt = systemPrompt, sg_modified = False, sg_messages = []\<rparr> w
      in (if sg_messages a \<noteq> [] \<or> sg_modified a
          then Some \<lparr>sc_messages = (if sg_messages a \<noteq> [] then Some (sg_messages a) else None),
                     sc_prompt = (if sg_modified a then Some (sg_prompt a) else None)\<rparr>
          else None, errs, w1))"

section \<open>Resources\<close>

text \<open>Skill, prompt and theme paths, each with the extension it came from.\<close>

record discovered =
  dd_skillPaths :: "(string \<times> string) list"
  dd_promptPaths :: "(string \<times> string) list"
  dd_themePaths :: "(string \<times> string) list"

definition from_extension :: "string \<Rightarrow> string list option \<Rightarrow> (string \<times> string) list" where
  "from_extension path paths = (case paths of Some ps \<Rightarrow> map (\<lambda>p. (p, path)) ps | None \<Rightarrow> [])"

definition add_discovered :: "string \<Rightarrow> discovered \<Rightarrow> discover_result \<Rightarrow> discovered step" where
  "add_discovered path a r =
     Go (a\<lparr>dd_skillPaths := dd_skillPaths a @ from_extension path (di_skillPaths r),
           dd_promptPaths := dd_promptPaths a @ from_extension path (di_promptPaths r),
           dd_themePaths := dd_themePaths a @ from_extension path (di_themePaths r)\<rparr>)"

definition emitResourcesDiscover :: "'s extension list \<Rightarrow> discover_event \<Rightarrow> 's \<Rightarrow> (discovered, 's) answer" where
  "emitResourcesDiscover exts event w =
     each_handler ''resources_discover'' (\<lambda>_. event) add_discovered (handlers_of ex_resources_discover exts)
       \<lparr>dd_skillPaths = [], dd_promptPaths = [], dd_themePaths = []\<rparr> w"

section \<open>Input\<close>

text \<open>Text and images so far, and whether the input has been handled.\<close>

fun take_input :: "input_event \<times> bool \<Rightarrow> input_answer \<Rightarrow> (input_event \<times> bool) step" where
  "take_input (e, _) Handled = Stop (e, True)"
| "take_input (e, h) (Transform t images) =
     Go (e\<lparr>in_text := t, in_images := (case images of Some i \<Rightarrow> Some i | None \<Rightarrow> in_images e)\<rparr>, h)"
| "take_input (e, h) Continue = Go (e, h)"

definition emitInput :: "'s extension list \<Rightarrow> input_event \<Rightarrow> 's \<Rightarrow> (input_answer, 's) answer" where
  "emitInput exts event w =
     (let ((current, handled), errs, w1) =
            each_handler ''input'' fst (\<lambda>_. take_input) (handlers_of ex_input exts) (event, False) w
      in (if handled then Handled
          else if in_text current \<noteq> in_text event \<or> in_images current \<noteq> in_images event
          then Transform (in_text current) (in_images current)
          else Continue, errs, w1))"

end
