(* ===== verification/Extension_Registry.thy ===== *)
theory Extension_Registry
  imports Extension_Runner Approval_Gate
begin

text \<open>
  What extensions register with the runner (\<open>core/extensions/runner.ts\<close>): tools, flags, commands with the
  names they are called by, shortcuts and their conflicts with built-in keys, and providers queued while
  extensions load. A context of a replaced session refuses every access.
\<close>

section \<open>Registrations\<close>

text \<open>The maps of an extension; a tool's key in the map and its own name are two fields.\<close>

record registered_tool =
  rt_name :: string
  rt_definition :: json

record extension_flag =
  fl_name :: string
  fl_default :: "json option"

record registered_command =
  rc_name :: string
  rc_extension :: string

record extension_shortcut =
  es_shortcut :: string
  es_extensionPath :: string

record registrations =
  rg_path :: string
  rg_tools :: "registered_tool jsmap"
  rg_flags :: "extension_flag jsmap"
  rg_commands :: "registered_command jsmap"
  rg_shortcuts :: "extension_shortcut jsmap"

section \<open>Tools and flags: the first registration of a name wins\<close>

definition set_first :: "string \<Rightarrow> 'v \<Rightarrow> 'v jsmap \<Rightarrow> 'v jsmap" where
  "set_first k v m = (if jm_has m k then m else jm_set k v m)"

definition getAllRegisteredTools :: "registrations list \<Rightarrow> registered_tool list" where
  "getAllRegisteredTools exts =
     map snd (fold (\<lambda>x. fold (\<lambda>t. set_first (rt_name t) t) (map snd (rg_tools x))) exts [])"

definition getToolDefinition :: "string \<Rightarrow> registrations list \<Rightarrow> json option" where
  "getToolDefinition toolName exts =
     (case List.map_filter (\<lambda>x. jm_get (rg_tools x) toolName) exts of t # _ \<Rightarrow> Some (rt_definition t) | [] \<Rightarrow> None)"

definition getFlags :: "registrations list \<Rightarrow> extension_flag jsmap" where
  "getFlags exts = fold (\<lambda>x. fold (\<lambda>(name, flag). set_first name flag) (rg_flags x)) exts []"

section \<open>Names of commands\<close>

definition count_command :: "registered_command list \<Rightarrow> string \<Rightarrow> nat" where
  "count_command commands name = length (filter (\<lambda>c. rc_name c = name) commands)"

definition numbered_name :: "string \<Rightarrow> nat \<Rightarrow> string" where
  "numbered_name name n = name @ '':'' @ nat_str n"

text \<open>The loop that counts on until the name is free. It ends because only finitely many names are taken.\<close>

definition str_val :: "string \<Rightarrow> nat" where
  "str_val s = foldl (\<lambda>n c. 10 * n + (of_char c - 48)) 0 s"

lemma str_val_nat_str: "str_val (nat_str n) = n"
proof (induction n rule: nat_str.induct)
  case (1 n)
  have digit: "of_char (digit_char d) - 48 = d" if "d < 10" for d :: nat
    using that by (simp add: digit_char_def)
  show ?case
  proof (cases "n < 10")
    case True
    then show ?thesis by (simp add: nat_str.simps [of n] str_val_def digit)
  next
    case False
    with 1 have "str_val (nat_str (n div 10)) = n div 10" by blast
    with False show ?thesis by (simp add: nat_str.simps [of n] str_val_def digit)
  qed
qed

lemma numbered_inj: "numbered_name name m = numbered_name name n \<longleftrightarrow> m = n"
  using str_val_nat_str by (auto simp: numbered_name_def) metis

function next_free :: "string \<Rightarrow> nat \<Rightarrow> string list \<Rightarrow> string" where
  "next_free name n taken_names =
     (if numbered_name name (Suc n) \<in> set taken_names then next_free name (Suc n) taken_names
      else numbered_name name (Suc n))"
  by pat_completeness auto
termination
proof (relation "measure (\<lambda>(name, n, taken_names). card {k. n < k \<and> numbered_name name k \<in> set taken_names})", goal_cases)
  case (2 name n taken_names)
  let ?A = "\<lambda>m. {k. m < k \<and> numbered_name name k \<in> set taken_names}"
  have "inj_on (numbered_name name) (?A n)" by (simp add: inj_on_def numbered_inj)
  then have "finite (?A n)"
    by (rule inj_on_finite [where B = "set taken_names"]) auto
  moreover have "?A (Suc n) \<subset> ?A n" using 2 by auto
  ultimately show ?case by (simp add: psubset_card_mono)
qed simp

declare next_free.simps [simp del]

text \<open>One command after another: the names of those before it, and the names given so far.\<close>

fun name_commands ::
  "registered_command list \<Rightarrow> string list \<Rightarrow> string list \<Rightarrow> registered_command list \<Rightarrow> (registered_command \<times> string) list" where
  "name_commands all seen taken_names [] = []"
| "name_commands all seen taken_names (c # cs) =
     (let occurrence = Suc (length (filter (\<lambda>n. n = rc_name c) seen));
          wanted = (if count_command all (rc_name c) > 1 then numbered_name (rc_name c) occurrence else rc_name c);
          invocationName = (if wanted \<in> set taken_names then next_free (rc_name c) occurrence taken_names else wanted)
      in (c, invocationName) # name_commands all (rc_name c # seen) (invocationName # taken_names) cs)"

definition all_commands :: "registrations list \<Rightarrow> registered_command list" where
  "all_commands exts = concat (map (\<lambda>x. map snd (rg_commands x)) exts)"

definition resolveRegisteredCommands :: "registrations list \<Rightarrow> (registered_command \<times> string) list" where
  "resolveRegisteredCommands exts = name_commands (all_commands exts) [] [] (all_commands exts)"

definition getCommand :: "string \<Rightarrow> registrations list \<Rightarrow> (registered_command \<times> string) option" where
  "getCommand name exts = List.find (\<lambda>p. snd p = name) (resolveRegisteredCommands exts)"

section \<open>Shortcuts\<close>

definition RESERVED_KEYBINDINGS :: "string list" where
  "RESERVED_KEYBINDINGS =
     [''app.interrupt'', ''app.clear'', ''app.exit'', ''app.suspend'', ''app.thinking.cycle'',
      ''app.model.cycleForward'', ''app.model.cycleBackward'', ''app.model.select'', ''app.tools.expand'',
      ''app.thinking.toggle'', ''app.editor.external'', ''app.message.copy'', ''app.message.followUp'',
      ''tui.input.submit'', ''tui.select.confirm'', ''tui.select.cancel'', ''tui.input.copy'',
      ''tui.editor.deleteToLineEnd'']"

record builtin_key =
  bk_keybinding :: string
  bk_restrictOverride :: bool

definition bind_key :: "string \<Rightarrow> string \<Rightarrow> builtin_key jsmap \<Rightarrow> builtin_key jsmap" where
  "bind_key keybinding key m =
     (let normalizedKey = to_lower key; restrictOverride = keybinding \<in> set RESERVED_KEYBINDINGS in
      if (case jm_get m normalizedKey of Some e \<Rightarrow> bk_restrictOverride e | None \<Rightarrow> False) \<and> \<not> restrictOverride then m
      else jm_set normalizedKey \<lparr>bk_keybinding = keybinding, bk_restrictOverride = restrictOverride\<rparr> m)"

text \<open>The keys of an action; \<open>None\<close> when the entry is undefined.\<close>

definition buildBuiltinKeybindings :: "(string \<times> string list option) list \<Rightarrow> builtin_key jsmap" where
  "buildBuiltinKeybindings resolved =
     fold (\<lambda>(keybinding, keys). case keys of None \<Rightarrow> (\<lambda>m. m) | Some ks \<Rightarrow> fold (bind_key keybinding) ks) resolved []"

datatype shortcut_warning =
    ReservedSkipped string string
  | OverridesBuiltin string string string
  | RegisteredTwice string string string

definition take_shortcut ::
  "builtin_key jsmap \<Rightarrow> string \<times> extension_shortcut \<Rightarrow> extension_shortcut jsmap \<times> shortcut_warning list \<Rightarrow>
     extension_shortcut jsmap \<times> shortcut_warning list" where
  "take_shortcut builtin entry acc =
     (let (key, shortcut) = entry; (m, warnings) = acc;
          normalizedKey = to_lower key; path = es_extensionPath shortcut
      in case jm_get builtin normalizedKey of
           Some b \<Rightarrow>
             if bk_restrictOverride b then (m, warnings @ [ReservedSkipped key path])
             else (jm_set normalizedKey shortcut m,
                   warnings @ [OverridesBuiltin key (bk_keybinding b) path] @
                   (case jm_get m normalizedKey of Some e \<Rightarrow> [RegisteredTwice key (es_extensionPath e) path] | None \<Rightarrow> []))
         | None \<Rightarrow>
             (jm_set normalizedKey shortcut m,
              warnings @ (case jm_get m normalizedKey of Some e \<Rightarrow> [RegisteredTwice key (es_extensionPath e) path] | None \<Rightarrow> [])))"

definition getShortcuts ::
  "(string \<times> string list option) list \<Rightarrow> registrations list \<Rightarrow> extension_shortcut jsmap \<times> shortcut_warning list" where
  "getShortcuts resolved exts =
     fold (take_shortcut (buildBuiltinKeybindings resolved)) (concat (map rg_shortcuts exts)) ([], [])"

section \<open>Providers that were registered while loading\<close>

text \<open>\<open>register\<close> is what takes a provider; the queue is empty afterwards, whatever it threw.\<close>

fun flush_registrations ::
  "(string \<Rightarrow> json \<Rightarrow> 's \<Rightarrow> (string + unit) \<times> 's) \<Rightarrow> (string \<times> string \<times> json) list \<Rightarrow> 's \<Rightarrow> extension_error list \<times> 's" where
  "flush_registrations register [] w = ([], w)"
| "flush_registrations register ((path, name, config) # queue) w =
     (let (result, w1) = register name config w;
          (errs, w2) = flush_registrations register queue w1
      in ((case result of Inl message \<Rightarrow> [error_at path ''register_provider'' message] | Inr _ \<Rightarrow> []) @ errs, w2))"

section \<open>Stale contexts\<close>

definition invalidate :: "string \<Rightarrow> string option \<Rightarrow> string option" where
  "invalidate message stale = (if truthy_str stale = None then Some message else stale)"

text \<open>Every access of a context goes through \<open>assertActive\<close>.\<close>

definition assertActive :: "string option \<Rightarrow> 'v \<Rightarrow> string + 'v" where
  "assertActive stale v = (case truthy_str stale of Some message \<Rightarrow> Inl message | None \<Rightarrow> Inr v)"

end
