(* ===== verification/Extension_Properties.thy ===== *)
theory Extension_Properties
  imports Extension_Registry
begin

text \<open>
  Failing handlers are isolated, but for calls of tools, which run only when no handler of any extension
  objects; commands get names of their own; reserved keys stay with the program.
\<close>

section \<open>Handlers that throw\<close>

text \<open>The handler that returns nothing where the given one throws.\<close>

definition quiet :: "('e, 'r, 's) handler \<Rightarrow> ('e, 'r, 's) handler" where
  "quiet h e w = (case h e w of (Threw m, w1) \<Rightarrow> (Returned None, w1) | r \<Rightarrow> r)"

definition quiet_all :: "'s extension \<Rightarrow> 's extension" where
  "quiet_all x = x\<lparr>ex_event := (\<lambda>t. map quiet (ex_event x t)), ex_message_end := map quiet (ex_message_end x),
     ex_tool_result := map quiet (ex_tool_result x), ex_user_bash := map quiet (ex_user_bash x),
     ex_context := map quiet (ex_context x), ex_provider_request := map quiet (ex_provider_request x),
     ex_before_agent_start := map quiet (ex_before_agent_start x),
     ex_resources_discover := map quiet (ex_resources_discover x), ex_input := map quiet (ex_input x),
     ex_project_trust := map quiet (ex_project_trust x)\<rparr>"

text \<open>The answer and the world, without the errors.\<close>

definition outcome_of :: "('a, 's) answer \<Rightarrow> 'a \<times> 's" where
  "outcome_of r = (fst r, snd (snd r))"

lemma each_handler_quiet_both:
  "fst (each_handler ev f c (map (\<lambda>x. (fst x, quiet (snd x))) hs) a w) = fst (each_handler ev f c hs a w) \<and>
   snd (snd (each_handler ev f c (map (\<lambda>x. (fst x, quiet (snd x))) hs) a w)) = snd (snd (each_handler ev f c hs a w))"
proof (induction hs arbitrary: a w)
  case (Cons ph hs)
  obtain p h where ph: "ph = (p, h)" by (cases ph)
  obtain r w1 where h: "h (f a) w = (r, w1)" by (cases "h (f a) w")
  have q: "quiet h (f a) w = ((case r of Threw _ \<Rightarrow> Returned None | _ \<Rightarrow> r), w1)"
    by (simp add: quiet_def h split: handled.split)
  show ?case using Cons.IH [of _ w1]
    by (simp add: ph h q) (auto simp: Let_def split_beta split: handled.split option.split step.split)
qed simp

lemmas each_handler_quiet = each_handler_quiet_both [THEN conjunct1] each_handler_quiet_both [THEN conjunct2]

lemma handlers_quiet:
  assumes "\<And>x. sel (quiet_all x) = map quiet (sel x)"
  shows "handlers_of sel (map quiet_all exts) = map (\<lambda>x. (fst x, quiet (snd x))) (handlers_of sel exts)"
  using assms by (induction exts) (simp_all add: handlers_of_def quiet_all_def o_def)

lemma quiet_handlers:
  "handlers_of (\<lambda>x. ex_event x t) (map quiet_all exts) = map (\<lambda>x. (fst x, quiet (snd x))) (handlers_of (\<lambda>x. ex_event x t) exts)"
  "handlers_of ex_message_end (map quiet_all exts) = map (\<lambda>x. (fst x, quiet (snd x))) (handlers_of ex_message_end exts)"
  "handlers_of ex_tool_result (map quiet_all exts) = map (\<lambda>x. (fst x, quiet (snd x))) (handlers_of ex_tool_result exts)"
  "handlers_of ex_user_bash (map quiet_all exts) = map (\<lambda>x. (fst x, quiet (snd x))) (handlers_of ex_user_bash exts)"
  "handlers_of ex_context (map quiet_all exts) = map (\<lambda>x. (fst x, quiet (snd x))) (handlers_of ex_context exts)"
  "handlers_of ex_provider_request (map quiet_all exts) = map (\<lambda>x. (fst x, quiet (snd x))) (handlers_of ex_provider_request exts)"
  "handlers_of ex_before_agent_start (map quiet_all exts) = map (\<lambda>x. (fst x, quiet (snd x))) (handlers_of ex_before_agent_start exts)"
  "handlers_of ex_resources_discover (map quiet_all exts) = map (\<lambda>x. (fst x, quiet (snd x))) (handlers_of ex_resources_discover exts)"
  "handlers_of ex_input (map quiet_all exts) = map (\<lambda>x. (fst x, quiet (snd x))) (handlers_of ex_input exts)"
  "handlers_of ex_project_trust (map quiet_all exts) = map (\<lambda>x. (fst x, quiet (snd x))) (handlers_of ex_project_trust exts)"
  by (rule handlers_quiet, simp add: quiet_all_def)+

text \<open>
  A handler that throws is a handler that returns nothing: for every event but the call of a tool and
  the headers of a request, the answer of the round and what the extensions do are those of the same
  extensions with throwing handlers replaced by silent ones. One failing extension spoils no other.
\<close>

theorem throwing_handler_is_silent:
  "outcome_of (emit_event (map quiet_all exts) t event w) = outcome_of (emit_event exts t event w) \<and>
   outcome_of (emitProjectTrustEvent (map quiet_all exts) cwd w) = outcome_of (emitProjectTrustEvent exts cwd w) \<and>
   outcome_of (emitMessageEnd (map quiet_all exts) message w) = outcome_of (emitMessageEnd exts message w) \<and>
   outcome_of (emitContext (map quiet_all exts) messages w) = outcome_of (emitContext exts messages w) \<and>
   outcome_of (emitToolResult (map quiet_all exts) tool_event w) = outcome_of (emitToolResult exts tool_event w) \<and>
   outcome_of (emitUserBash (map quiet_all exts) bash_event w) = outcome_of (emitUserBash exts bash_event w) \<and>
   outcome_of (emitBeforeProviderRequest (map quiet_all exts) payload w) =
     outcome_of (emitBeforeProviderRequest exts payload w) \<and>
   outcome_of (emitBeforeAgentStart (map quiet_all exts) prompt images system options w) =
     outcome_of (emitBeforeAgentStart exts prompt images system options w) \<and>
   outcome_of (emitResourcesDiscover (map quiet_all exts) discover w) = outcome_of (emitResourcesDiscover exts discover w) \<and>
   outcome_of (emitInput (map quiet_all exts) input w) = outcome_of (emitInput exts input w)"
  unfolding emit_event_def emitProjectTrustEvent_def emitMessageEnd_def emitContext_def emitToolResult_def emitUserBash_def
    emitBeforeProviderRequest_def emitBeforeAgentStart_def emitResourcesDiscover_def emitInput_def
    outcome_of_def Let_def case_prod_beta fst_conv snd_conv quiet_handlers each_handler_quiet
  by simp

section \<open>Calls of tools\<close>

fun objects :: "tool_call_result handled \<Rightarrow> bool" where
  "objects (Threw message) = True"
| "objects (Returned None) = False"
| "objects (Returned (Some r)) = tr_block r"

text \<open>The call runs: nothing threw and the last answer does not block.\<close>

definition runs :: "(string + tool_call_result option) \<times> tool_call_event \<times> 's \<Rightarrow> bool" where
  "runs r = (case fst r of Inl _ \<Rightarrow> False | Inr None \<Rightarrow> True | Inr (Some x) \<Rightarrow> \<not> tr_block x)"

type_synonym 's call_handlers = "(string \<times> (tool_call_event, tool_call_result, 's) mutator) list"

text \<open>Event and world after some handlers, each seeing what the one before it left.\<close>

definition left_by :: "'s call_handlers \<Rightarrow> tool_call_event \<times> 's \<Rightarrow> tool_call_event \<times> 's" where
  "left_by hs ew = fold (\<lambda>ph ew. snd (snd ph (fst ew) (snd ew))) hs ew"

definition objects_at :: "'s call_handlers \<Rightarrow> tool_call_event \<times> 's \<Rightarrow> nat \<Rightarrow> bool" where
  "objects_at hs ew k = (let (e, w) = left_by (take k hs) ew in objects (fst (snd (hs ! k) e w)))"

lemma left_by_simps [simp]:
  "left_by [] ew = ew" "left_by (ph # hs) ew = left_by hs (snd (snd ph (fst ew) (snd ew)))"
  by (simp_all add: left_by_def)

lemma objects_at_Cons:
  "objects_at (ph # hs) ew 0 = objects (fst (snd ph (fst ew) (snd ew)))"
  "objects_at (ph # hs) ew (Suc k) = objects_at hs (snd (snd ph (fst ew) (snd ew))) k"
  by (simp_all add: objects_at_def split_beta)

lemma round_Cons:
  "tool_call_round (ph # hs) r e w =
     (case snd ph e w of
        (Threw m, ew) \<Rightarrow> (Inl m, ew)
      | (Returned None, ew) \<Rightarrow> tool_call_round hs r (fst ew) (snd ew)
      | (Returned (Some x), ew) \<Rightarrow> if tr_block x then (Inr (Some x), ew) else tool_call_round hs (Some x) (fst ew) (snd ew))"
  by (cases ph) (auto split: prod.split handled.split option.split)

lemma round_objects:
  "\<forall>x. r = Some x \<longrightarrow> \<not> tr_block x \<Longrightarrow>
     (runs (tool_call_round hs r (fst ew) (snd ew)) \<longleftrightarrow> (\<forall>k < length hs. \<not> objects_at hs ew k)) \<and>
     (runs (tool_call_round hs r (fst ew) (snd ew)) \<longrightarrow> snd (tool_call_round hs r (fst ew) (snd ew)) = left_by hs ew) \<and>
     (\<forall>k < length hs. objects_at hs ew k \<and> (\<forall>j < k. \<not> objects_at hs ew j) \<longrightarrow>
        snd (tool_call_round hs r (fst ew) (snd ew)) = left_by (take (Suc k) hs) ew)"
proof (induction hs arbitrary: r ew)
  case Nil
  then show ?case by (auto simp: runs_def split: option.split)
next
  case (Cons ph hs)
  obtain a ew1 where a: "snd ph (fst ew) (snd ew) = (a, ew1)" by (cases "snd ph (fst ew) (snd ew)")
  show ?case
  proof (cases "objects a")
    case True
    then have "tool_call_round (ph # hs) r (fst ew) (snd ew) = (case a of Threw m \<Rightarrow> Inl m | Returned x \<Rightarrow> Inr x, ew1)"
      "\<not> runs (tool_call_round (ph # hs) r (fst ew) (snd ew))"
      by (cases a rule: objects.cases; simp add: round_Cons a runs_def)+
    moreover have "objects_at (ph # hs) ew 0" using True a by (simp add: objects_at_Cons)
    moreover have "k = 0" if "\<forall>j < k. \<not> objects_at (ph # hs) ew j" for k
      using that calculation(3) by blast
    ultimately show ?thesis using a by fastforce
  next
    case False
    then obtain r1 where r1: "tool_call_round (ph # hs) r (fst ew) (snd ew) = tool_call_round hs r1 (fst ew1) (snd ew1)"
      "\<forall>x. r1 = Some x \<longrightarrow> \<not> tr_block x"
      using Cons.prems by (cases a rule: objects.cases) (auto simp: round_Cons a)
    have "\<not> objects_at (ph # hs) ew 0" and s: "\<And>k. objects_at (ph # hs) ew (Suc k) = objects_at hs ew1 k"
      using False a by (simp_all add: objects_at_Cons)
    with Cons.IH [OF r1(2), of ew1] show ?thesis
      by (simp add: r1(1) All_less_Suc2 a s del: tool_call_round.simps)
  qed
qed

text \<open>
  C27. A call runs exactly if no handler of any extension objects, by blocking or by throwing, to the event
  as the handlers before it left it; it runs with the input the last one left. After the first objection
  no further handler is asked: event and world are as the objecting handler left them.
\<close>

theorem call_runs_unless_a_handler_objects:
  fixes exts :: "'s extension list"
  defines "hs \<equiv> handlers_of ex_tool_call exts"
  shows "(runs (beforeToolCall exts e w) \<longleftrightarrow> (\<forall>k < length hs. \<not> objects_at hs (e, w) k)) \<and>
    (runs (beforeToolCall exts e w) \<longrightarrow> snd (beforeToolCall exts e w) = left_by hs (e, w)) \<and>
    (\<forall>k < length hs. objects_at hs (e, w) k \<and> (\<forall>j < k. \<not> objects_at hs (e, w) j) \<longrightarrow>
       \<not> runs (beforeToolCall exts e w) \<and> snd (beforeToolCall exts e w) = left_by (take (Suc k) hs) (e, w))"
proof -
  have none: "hs = []" if "\<not> hasHandlers ex_tool_call exts"
    using that by (auto simp: hs_def handlers_of_def hasHandlers_def)
  have "beforeToolCall exts e w = tool_call_round hs None e w"
    using none by (simp add: beforeToolCall_def emitToolCall_def hs_def)
  with round_objects [of None hs "(e, w)"] show ?thesis by auto
qed

definition lone_handler :: "(tool_call_event, tool_call_result, nat) mutator \<Rightarrow> nat extension" where
  "lone_handler h = \<lparr>ex_path = ''x'', ex_event = (\<lambda>_. []), ex_message_end = [], ex_tool_result = [], ex_tool_call = [h],
     ex_user_bash = [], ex_context = [], ex_provider_request = [], ex_provider_headers = [], ex_before_agent_start = [],
     ex_resources_discover = [], ex_input = [], ex_project_trust = []\<rparr>"

text \<open>One handler counts, the next throws, a third is never asked.\<close>

definition three_handlers :: "nat extension list" where
  "three_handlers =
     [lone_handler (\<lambda>e n. (Returned None, e, Suc n)), lone_handler (\<lambda>e n. (Threw ''no'', e, n + 10)),
      lone_handler (\<lambda>e n. (Returned None, e, n + 100))]"

theorem call_runs_unless_a_handler_objects_witness:
  "\<forall>e. \<not> runs (beforeToolCall three_handlers e 0) \<and> snd (beforeToolCall three_handlers e 0) = (e, 11)"
proof
  fix e
  let ?hs = "handlers_of ex_tool_call three_handlers"
  have hs: "?hs = [(''x'', \<lambda>e n. (Returned None, e, Suc n)), (''x'', \<lambda>e n. (Threw ''no'', e, n + 10)),
      (''x'', \<lambda>e n. (Returned None, e, n + 100))]"
    by (simp add: handlers_of_def three_handlers_def lone_handler_def)
  have "1 < length ?hs \<and> objects_at ?hs (e, 0) 1 \<and> (\<forall>j < 1. \<not> objects_at ?hs (e, 0) j)"
    by (simp add: hs objects_at_def)
  moreover have "left_by (take (Suc 1) ?hs) (e, 0) = (e, 11)" by (simp add: hs)
  ultimately show "\<not> runs (beforeToolCall three_handlers e 0) \<and> snd (beforeToolCall three_handlers e 0) = (e, 11)"
    using call_runs_unless_a_handler_objects [where exts = three_handlers and e = e and w = 0] by metis
qed

section \<open>Names of commands\<close>

lemma next_free_fresh: "next_free name n taken_names \<notin> set taken_names"
proof (induction name n taken_names rule: next_free.induct)
  case (1 name n taken_names)
  then show ?case by (subst next_free.simps) auto
qed

lemma next_free_numbered: "\<exists>k. next_free name n taken_names = numbered_name name k"
proof (induction name n taken_names rule: next_free.induct)
  case (1 name n taken_names)
  then show ?case by (subst next_free.simps) auto
qed

lemma name_commands_Cons:
  "\<exists>n. name_commands all seen taken_names (d # cs) = (d, n) # name_commands all (rc_name d # seen) (n # taken_names) cs \<and>
     n \<notin> set taken_names \<and> (n = rc_name d \<or> (\<exists>k. n = numbered_name (rc_name d) k)) \<and>
     (count_command all (rc_name d) \<le> 1 \<and> rc_name d \<notin> set taken_names \<longrightarrow> n = rc_name d)"
  using next_free_fresh next_free_numbered by (auto simp: Let_def)

lemma name_commands_distinct:
  "map fst (name_commands all seen taken_names cs) = cs \<and> distinct (map snd (name_commands all seen taken_names cs)) \<and>
     set (map snd (name_commands all seen taken_names cs)) \<inter> set taken_names = {}"
proof (induction cs arbitrary: seen taken_names)
  case (Cons c cs)
  obtain n where n: "name_commands all seen taken_names (c # cs) = (c, n) # name_commands all (rc_name c # seen) (n # taken_names) cs"
    "n \<notin> set taken_names" using name_commands_Cons by metis
  with Cons.IH [of "rc_name c # seen" "n # taken_names"] show ?case by (simp del: name_commands.simps)
qed simp

lemma numbered_colon: "CHR '':'' \<in> set (numbered_name name k)"
  by (simp add: numbered_name_def)

text \<open>A name that occurs once and has no colon is kept.\<close>

lemma name_commands_plain:
  assumes "CHR '':'' \<notin> set (rc_name c)" and "count_command all (rc_name c) = 1"
    and "(c, i) \<in> set (name_commands all seen taken_names cs)" and "rc_name c \<notin> set taken_names"
    and "count_command cs (rc_name c) \<le> 1"
  shows "i = rc_name c"
  using assms(3-)
proof (induction cs arbitrary: seen taken_names)
  case (Cons d cs)
  obtain n where n: "name_commands all seen taken_names (d # cs) = (d, n) # name_commands all (rc_name d # seen) (n # taken_names) cs"
    "n = rc_name d \<or> (\<exists>k. n = numbered_name (rc_name d) k)"
    "count_command all (rc_name d) \<le> 1 \<and> rc_name d \<notin> set taken_names \<longrightarrow> n = rc_name d"
    using name_commands_Cons by metis
  show ?case
  proof (cases "c = d \<and> i = n")
    case True
    with assms(2) Cons.prems(2) n(3) show ?thesis by simp
  next
    case False
    with Cons.prems(1) n(1) have m: "(c, i) \<in> set (name_commands all (rc_name d # seen) (n # taken_names) cs)" by auto
    then have "c \<in> set cs"
      using name_commands_distinct [of all "rc_name d # seen" "n # taken_names" cs] by (metis fst_conv image_eqI set_map)
    with Cons.prems(3) have d: "rc_name d \<noteq> rc_name c"
      by (auto simp: count_command_def filter_empty_conv)
    with n(2) assms(1) have "n \<noteq> rc_name c" using numbered_colon by metis
    with m Cons show ?thesis by (auto simp: count_command_def split: if_splits)
  qed
qed simp

text \<open>
  Every registered command gets a name to call it by, in the order of registration, no two the same
  one, so that asking for a name finds exactly its command; the search for a free name ends. A command
  whose name is used once and has no colon keeps it, whatever names the other extensions choose.
\<close>

theorem commands_have_names_of_their_own:
  "map fst (resolveRegisteredCommands exts) = all_commands exts \<and>
   distinct (map snd (resolveRegisteredCommands exts)) \<and>
   (\<forall>p \<in> set (resolveRegisteredCommands exts). getCommand (snd p) exts = Some p) \<and>
   (\<forall>p \<in> set (resolveRegisteredCommands exts).
      count_command (all_commands exts) (rc_name (fst p)) = 1 \<and> CHR '':'' \<notin> set (rc_name (fst p)) \<longrightarrow> snd p = rc_name (fst p))"
proof -
  let ?r = "resolveRegisteredCommands exts"
  have d: "map fst ?r = all_commands exts" "distinct (map snd ?r)"
    using name_commands_distinct [of "all_commands exts" "[]" "[]" "all_commands exts"] by (simp_all add: resolveRegisteredCommands_def)
  have "List.find (\<lambda>q. snd q = snd p) ps = Some p" if "distinct (map snd ps)" "p \<in> set ps" for p :: "registered_command \<times> string" and ps
    using that by (induction ps) (auto dest: image_eqI [of "snd p" snd p])
  with d(2) have "\<forall>p \<in> set ?r. getCommand (snd p) exts = Some p" by (simp add: getCommand_def)
  moreover have "snd p = rc_name (fst p)"
    if "p \<in> set ?r" "count_command (all_commands exts) (rc_name (fst p)) = 1" "CHR '':'' \<notin> set (rc_name (fst p))" for p
    using name_commands_plain [of "fst p" "all_commands exts" "snd p" "[]" "[]" "all_commands exts"] that
    by (simp add: resolveRegisteredCommands_def)
  ultimately show ?thesis using d by blast
qed

theorem commands_have_names_of_their_own_witness:
  "distinct (map snd (resolveRegisteredCommands [\<lparr>rg_path = ''x'', rg_tools = [], rg_flags = [],
     rg_commands = [(''a'', \<lparr>rc_name = ''a'', rc_extension = ''x''\<rparr>), (''b'', \<lparr>rc_name = ''a'', rc_extension = ''x''\<rparr>)],
     rg_shortcuts = []\<rparr>]))"
  using commands_have_names_of_their_own by blast

section \<open>Shortcuts\<close>

definition restricted :: "builtin_key jsmap \<Rightarrow> string \<Rightarrow> bool" where
  "restricted m k \<longleftrightarrow> (\<exists>b. jm_get m k = Some b \<and> bk_restrictOverride b)"

lemma bind_key_restricted:
  "restricted (bind_key keybinding key m) k \<longleftrightarrow> restricted m k \<or> (k = to_lower key \<and> keybinding \<in> set RESERVED_KEYBINDINGS)"
  by (auto simp: bind_key_def restricted_def Let_def jm_get_set split: option.split)

lemma bind_keys_restricted:
  "restricted (fold (bind_key keybinding) ks m) k \<longleftrightarrow>
     restricted m k \<or> (keybinding \<in> set RESERVED_KEYBINDINGS \<and> (\<exists>key \<in> set ks. k = to_lower key))"
  by (induction ks arbitrary: m) (auto simp: bind_key_restricted)

text \<open>An action of the bindings reserves a key: the action is reserved and the key is one of its keys.\<close>

fun reserves :: "string \<times> string list option \<Rightarrow> string \<Rightarrow> bool" where
  "reserves (keybinding, None) k = False"
| "reserves (keybinding, Some ks) k \<longleftrightarrow> keybinding \<in> set RESERVED_KEYBINDINGS \<and> k \<in> to_lower ` set ks"

lemma builtin_restricted: "restricted (buildBuiltinKeybindings resolved) k \<longleftrightarrow> (\<exists>b \<in> set resolved. reserves b k)"
proof -
  have "restricted (fold (\<lambda>(keybinding, keys). case keys of None \<Rightarrow> (\<lambda>m. m) | Some ks \<Rightarrow> fold (bind_key keybinding) ks) res m) k \<longleftrightarrow>
    restricted m k \<or> (\<exists>b \<in> set res. reserves b k)" for res m
  proof (induction res arbitrary: m)
    case (Cons b res)
    then show ?case by (cases "(b, k)" rule: reserves.cases) (auto simp: bind_keys_restricted)
  qed simp
  then show ?thesis by (simp add: buildBuiltinKeybindings_def restricted_def)
qed

lemma take_shortcut_fst:
  "fst (take_shortcut builtin (key, s) acc) =
     (if restricted builtin (to_lower key) then fst acc else jm_set (to_lower key) s (fst acc))"
  by (cases acc) (auto simp: take_shortcut_def restricted_def Let_def split: option.split)

lemma take_shortcuts:
  "jm_get (fst (fold (take_shortcut builtin) entries acc)) k =
     (if restricted builtin k then jm_get (fst acc) k
      else (case List.find (\<lambda>(key, s). to_lower key = k) (rev entries) of Some (key, s) \<Rightarrow> Some s | None \<Rightarrow> jm_get (fst acc) k))"
proof (induction entries rule: rev_induct)
  case (snoc e entries)
  then show ?case by (cases e) (auto simp: take_shortcut_fst jm_get_set split: option.split)
qed simp

text \<open>
  A key bound to a reserved action of the program never reaches an extension, however the bindings
  are ordered and written; every other shortcut that is registered goes to the last extension that registers it.
\<close>

theorem reserved_keys_stay_with_the_program:
  "jm_get (fst (getShortcuts resolved exts)) k =
     (if \<exists>b \<in> set resolved. reserves b k then None
      else map_option snd (List.find (\<lambda>(key, s). to_lower key = k) (rev (concat (map rg_shortcuts exts)))))"
  using take_shortcuts [of "buildBuiltinKeybindings resolved" "concat (map rg_shortcuts exts)" "([], [])" k]
  by (auto simp: getShortcuts_def builtin_restricted split: option.split)

end
