(* ===== verification/Managed_Reply.thy ===== *)
theory Managed_Reply
  imports Product_Copy Status_Display Scout_Text Core_Client
begin

text \<open>
  What the user reads of a managed tool: \<open>toolLabel\<close> and \<open>humanizeUserText\<close> (\<open>harness/tui/copy.ts\<close>) and the
  sentence made of a result (\<open>summarizeManagedResult\<close>, \<open>harness/managed-tools.ts\<close>). Numbers of JSON are
  integers here, so that one decimal place is always zero.
\<close>

text \<open>
  The sentences of \<open>harness/managed-tools.ts\<close> and the labels of \<open>harness/tui/copy.ts\<close>, as lists of Unicode
  scalar values.
\<close>

definition M_inspected_head :: utext where
  "M_inspected_head = [24050, 26816, 26597, 26412, 26426, 30828, 20214, 65306]"

definition M_gpus_open :: utext where
  "M_gpus_open = [32, 24352, 32, 71, 80, 85, 65288]"

definition M_unknown_model :: utext where
  "M_unknown_model = [26410, 30693, 22411, 21495]"

definition M_unidentified :: utext where
  "M_unidentified = [26410, 35782, 21035]"

definition M_list_comma :: utext where
  "M_list_comma = [12289]"

definition M_close_paren :: utext where
  "M_close_paren = [65289]"

definition M_docker_ok :: utext where
  "M_docker_ok = [65292, 68, 111, 99, 107, 101, 114, 32, 21487, 29992]"

definition M_docker_no :: utext where
  "M_docker_no = [65292, 68, 111, 99, 107, 101, 114, 32, 19981, 21487, 29992]"

definition M_full_stop :: utext where
  "M_full_stop = [12290]"

definition M_service_records :: utext where
  "M_service_records = [24050, 26816, 26597, 26381, 21153, 35760, 24405, 65306, 20849, 32]"

definition M_rows_end :: utext where
  "M_rows_end = [32, 26465, 12290]"

definition M_service_state :: utext where
  "M_service_state = [24050, 26816, 26597, 26381, 21153, 29366, 24577, 65306]"

definition M_endpoint_open :: utext where
  "M_endpoint_open = [65288, 101, 110, 100, 112, 111, 105, 110, 116, 32]"

definition M_service_checked :: utext where
  "M_service_checked = [24050, 26816, 26597, 26381, 21153, 12290]"

definition M_plan_recorded_n :: utext where
  "M_plan_recorded_n = [24050, 35760, 24405, 37096, 32626, 35745, 21010, 32]"

definition M_open_paren :: utext where
  "M_open_paren = [65288]"

definition M_plan_recorded :: utext where
  "M_plan_recorded = [24050, 35760, 24405, 37096, 32626, 35745, 21010, 12290]"

definition M_managed_state :: utext where
  "M_managed_state = [21463, 31649, 26381, 21153, 24403, 21069, 29366, 24577, 65306]"

definition M_endpoint_comma :: utext where
  "M_endpoint_comma = [65292, 101, 110, 100, 112, 111, 105, 110, 116, 32]"

definition M_managed_done :: utext where
  "M_managed_done = [21463, 31649, 26381, 21153, 25805, 20316, 24050, 23436, 25104, 12290]"

definition M_suite_recorded :: utext where
  "M_suite_recorded = [39564, 25910, 24050, 35760, 24405, 12290]"

definition M_suite_colon :: utext where
  "M_suite_colon = [39564, 25910, 24050, 35760, 24405, 65306]"

definition M_suite_rows :: utext where
  "M_suite_rows = [32, 26723, 12290]"

definition M_deliverable :: utext where
  "M_deliverable = [20132, 25509, 20214, 24050, 20889, 20986, 12290]"

definition M_success_rate :: utext where
  "M_success_rate = [25104, 21151, 29575, 32]"

definition M_throughput :: utext where
  "M_throughput = [21534, 21520, 32]"

definition M_latency :: utext where
  "M_latency = [24179, 22343, 31471, 21040, 31471, 24310, 36831, 32]"

definition M_comma :: utext where
  "M_comma = [65292]"

definition M_bench_colon :: utext where
  "M_bench_colon = [21387, 27979, 23436, 25104, 65306]"

definition M_bench_details :: utext where
  "M_bench_details = [21387, 27979, 23436, 25104, 65292, 25351, 26631, 35265, 35786, 26029, 35814, 24773, 12290]"

definition M_bench_done :: utext where
  "M_bench_done = [21387, 27979, 23436, 25104, 12290]"

definition M_compared_n :: utext where
  "M_compared_n = [24050, 23436, 25104, 30830, 23450, 24615, 27604, 36739, 65306, 20849, 32]"

definition M_compared_end :: utext where
  "M_compared_end = [32, 39033, 23545, 27604, 32467, 26524, 12290]"

definition M_compared :: utext where
  "M_compared = [24050, 23436, 25104, 27604, 36739, 12290]"

definition M_report_made_n :: utext where
  "M_report_made_n = [25253, 21578, 24050, 29983, 25104, 65306, 35]"

definition M_artifacts_end :: utext where
  "M_artifacts_end = [32, 20010, 32, 77, 97, 114, 107, 100, 111, 119, 110, 32, 20135, 29289, 65289, 12290]"

definition M_report_made :: utext where
  "M_report_made = [25253, 21578, 24050, 29983, 25104, 12290]"

definition M_found_n :: utext where
  "M_found_n = [20849, 26597, 21040, 32]"

definition M_runs_end :: utext where
  "M_runs_end = [32, 26465, 32, 82, 117, 110, 32, 35760, 24405, 12290]"

definition M_facts_end :: utext where
  "M_facts_end = [32, 26465, 20107, 23454, 35760, 24405, 12290]"

definition M_read_head :: utext where
  "M_read_head = [24050, 35835, 21462, 32]"

definition M_records_word :: utext where
  "M_records_word = [32, 35760, 24405, 32]"

definition M_record_read :: utext where
  "M_record_read = [24050, 35835, 21462, 35760, 24405, 12290]"

definition M_recorded :: utext where
  "M_recorded = [25805, 20316, 24050, 35760, 24405, 12290]"

definition M_note :: utext where
  "M_note = [27880, 24847, 65306]"

definition M_semicolon :: utext where
  "M_semicolon = [65307]"

definition GENERIC_TOOL_LABELS :: "(string \<times> utext) list" where
  "GENERIC_TOOL_LABELS =
    [(''read'', [35835, 21462]),
     (''bash'', [21629, 20196]),
     (''edit'', [32534, 36753]),
     (''write'', [20889, 20837])]"

definition MANAGED_TOOL_LABELS :: "(string \<times> utext) list" where
  "MANAGED_TOOL_LABELS =
    [(''inspect_environment'', [26816, 26597, 26412, 26426, 29615, 22659]),
     (''inspect_service'', [26597, 30475, 26381, 21153]),
     (''plan_deployment'', [25552, 20986, 37096, 32626, 26041, 26696]),
     (''deploy_service'', [21551, 21160, 26381, 21153]),
     (''benchmark_service'', [21387, 27979, 26381, 21153]),
     (''benchmark_suite'', [39564, 25910, 26381, 21153]),
     (''export_deliverable'', [23548, 20986, 20132, 25509, 20214]),
     (''compare_results'', [23545, 27604, 32467, 26524]),
     (''write_report'', [20889, 25253, 21578]),
     (''inspect_records'', [26597, 38405, 35760, 24405])]"

definition PLAN_ACTION_LABELS :: "(string \<times> utext) list" where
  "PLAN_ACTION_LABELS =
    [(''create'', [25552, 20986, 37096, 32626, 26041, 26696]),
     (''validate'', [26680, 23545, 26041, 26696]),
     (''freeze'', [22266, 21270, 26041, 26696])]"

definition DEPLOY_ACTION_LABELS :: "(string \<times> utext) list" where
  "DEPLOY_ACTION_LABELS =
    [(''start'', [21551, 21160, 26381, 21153]),
     (''stop'', [20572, 27490, 26381, 21153]),
     (''recover'', [24674, 22797, 26381, 21153])]"

definition COPY_compare_incomparable :: utext where
  "COPY_compare_incomparable = [36825, 20004, 27425, 19981, 33021, 27604, 36739, 65292, 27809, 26377, 30334, 20998, 27604, 12290]"

definition COPY_compare_unclaimable :: utext where
  "COPY_compare_unclaimable = [25968, 23383, 21487, 20197, 24182, 21015, 65292, 36825, 27425, 27604, 36739, 19981, 33021, 31216, 20026, 23454, 27979, 12290]"

definition COPY_errors_coreBusy :: utext where
  "COPY_errors_coreBusy = [27491, 22312, 25191, 34892, 19978, 19968, 39033, 26412, 26426, 25805, 20316, 65292, 35831, 31245, 20505, 12290]"

definition M_core_failed_head :: utext where
  "M_core_failed_head = [67, 111, 114, 101, 32, 26410, 33021, 23436, 25104, 32]"

definition M_core_failed_tail :: utext where
  "M_core_failed_tail = [12290]"

definition M_not_completed :: utext where
  "M_not_completed = [26410, 33021, 23436, 25104, 12290]"

section \<open>Labels\<close>

definition toolLabel :: "string \<Rightarrow> string option \<Rightarrow> utext" where
  "toolLabel name action =
     (case (if name = ''plan_deployment'' then Option.bind (truthy_str action) (map_of PLAN_ACTION_LABELS) else None) of
        Some l \<Rightarrow> l
      | None \<Rightarrow>
     (case (if name = ''deploy_service'' then Option.bind (truthy_str action) (map_of DEPLOY_ACTION_LABELS) else None) of
        Some l \<Rightarrow> l
      | None \<Rightarrow>
     (case map_of GENERIC_TOOL_LABELS name of
        Some l \<Rightarrow> l
      | None \<Rightarrow>
     (case map_of MANAGED_TOOL_LABELS name of
        Some l \<Rightarrow> l
      | None \<Rightarrow> if name = ''investigate'' then INVESTIGATE_LABEL else ascii name))))"

text \<open>A stable sort: longest names first.\<close>

definition TOOL_NAME_TOKENS :: "string list" where
  "TOOL_NAME_TOKENS = rev (sort_key length (rev (map fst MANAGED_TOOL_LABELS @ [''investigate''])))"

text \<open>\<open>out.split(name).join(label)\<close>.\<close>

function replace_each :: "utext \<Rightarrow> utext \<Rightarrow> utext \<Rightarrow> utext" where
  "replace_each old new t =
     (if old = [] \<or> t = [] then t
      else if take (length old) t = old then new @ replace_each old new (drop (length old) t)
      else hd t # replace_each old new (tl t))"
  by pat_completeness auto
termination
  by (relation "measure (\<lambda>(old, new, t). length t)") auto

declare replace_each.simps [simp del]

definition tool_word :: "nat \<Rightarrow> bool" where
  "tool_word c \<longleftrightarrow> (65 \<le> c \<and> c \<le> 90) \<or> (97 \<le> c \<and> c \<le> 122) \<or> c = 95"

text \<open>The name in a sentence that says nothing but that the core could not complete it.\<close>

definition failed_tool :: "utext \<Rightarrow> utext option" where
  "failed_tool t =
     (let h = length M_core_failed_head; k = length M_core_failed_tail;
          name = take (length t - k - h) (drop h t)
      in if h + k < length t \<and> take h t = M_core_failed_head \<and> drop (length t - k) t = M_core_failed_tail \<and>
            (\<forall>c \<in> set name. tool_word c)
         then Some name else None)"

definition humanizeUserText :: "utext \<Rightarrow> utext" where
  "humanizeUserText t =
     (case failed_tool t of
        Some name \<Rightarrow> toolLabel (map char_of name) None @ M_not_completed
      | None \<Rightarrow> fold (\<lambda>name. replace_each (ascii name) (toolLabel name None)) TOOL_NAME_TOKENS t)"

section \<open>Sentences\<close>

type_synonym fields = "(string \<times> json) list"

abbreviation rec_at :: "fields \<Rightarrow> string \<Rightarrow> fields option" where
  "rec_at kvs k \<equiv> asRecord (jm_get kvs k)"

text \<open>\<open>typeof v === "string" && v ? ... : ""\<close>.\<close>

definition when_text :: "json option \<Rightarrow> (utext \<Rightarrow> utext) \<Rightarrow> utext" where
  "when_text v f = (case asString v of Some s \<Rightarrow> f (ascii s) | None \<Rightarrow> [])"

fun elements_of :: "json option \<Rightarrow> json list option" where
  "elements_of (Some (JArr xs)) = Some xs"
| "elements_of _ = None"

definition gpu_word :: "json \<Rightarrow> utext" where
  "gpu_word gpu =
     (case asRecord (Some gpu) of
        Some kvs \<Rightarrow> (case jm_get kvs ''name'' of Some (JStr s) \<Rightarrow> ascii s | _ \<Rightarrow> M_unknown_model)
      | None \<Rightarrow> M_unknown_model)"

definition environment_line :: "fields \<Rightarrow> utext" where
  "environment_line payload =
     (let snapshot = (case rec_at payload ''hardware_snapshot'' of Some s \<Rightarrow> s | None \<Rightarrow> []);
          gpus = (case elements_of (jm_get snapshot ''gpus'') of Some xs \<Rightarrow> xs | None \<Rightarrow> []);
          names = join_with M_list_comma (map gpu_word gpus);
          dockerReady = (case rec_at snapshot ''docker'' of Some d \<Rightarrow> jm_get d ''daemon'' = Some (JBool True) | None \<Rightarrow> False)
      in M_inspected_head @ ascii (nat_str (length gpus)) @ M_gpus_open @ (if names = [] then M_unidentified else names) @
         M_close_paren @ (if dockerReady then M_docker_ok else M_docker_no) @ M_full_stop)"

definition service_line :: "fields \<Rightarrow> utext" where
  "service_line payload =
     (case elements_of (jm_get payload ''services'') of
        Some xs \<Rightarrow> M_service_records @ ascii (nat_str (length xs)) @ M_rows_end
      | None \<Rightarrow>
          (case rec_at payload ''current_container_state'' of
             Some state \<Rightarrow>
               (let status = ascii (case nullish (jm_get state ''status'') of Some v \<Rightarrow> js_String v | None \<Rightarrow> ''unknown'') in
                case rec_at payload ''service'' of
                  Some service \<Rightarrow>
                    M_service_state @ status @
                    when_text (jm_get service ''endpoint'') (\<lambda>e. M_endpoint_open @ e @ M_close_paren) @ M_full_stop
                | None \<Rightarrow> M_service_state @ status @ M_full_stop)
           | None \<Rightarrow> M_service_checked))"

definition plan_line :: "fields \<Rightarrow> utext" where
  "plan_line payload =
     (case rec_at payload ''plan'' of
        Some plan \<Rightarrow>
          M_plan_recorded_n @
          (case jm_get plan ''plan_id'' of Some (JStr i) \<Rightarrow> 35 # ascii i | _ \<Rightarrow> []) @
          (case jm_get plan ''status'' of Some (JStr s) \<Rightarrow> M_open_paren @ ascii s @ M_close_paren | _ \<Rightarrow> []) @ M_full_stop
      | None \<Rightarrow> M_plan_recorded)"

definition deploy_line :: "fields \<Rightarrow> utext" where
  "deploy_line payload =
     (case rec_at payload ''service'' of
        Some service \<Rightarrow>
          M_managed_state @ (case jm_get service ''observed_state'' of Some (JStr s) \<Rightarrow> ascii s | _ \<Rightarrow> ascii ''unknown'') @
          when_text (jm_get service ''endpoint'') (\<lambda>e. M_endpoint_comma @ e) @ M_full_stop
      | None \<Rightarrow> M_managed_done)"

definition suite_line :: "fields \<Rightarrow> utext" where
  "suite_line payload =
     (case List.map_filter (rec_at payload) [''suite_result'', ''correctness_result'', ''cache_pair_result'', ''pd_estimate''] of
        [] \<Rightarrow> M_suite_recorded
      | found # _ \<Rightarrow>
          (case elements_of (jm_get found ''rows'') of
             Some rows \<Rightarrow> M_suite_colon @ ascii (nat_str (length rows)) @ M_suite_rows
           | None \<Rightarrow>
               (case asString (jm_get found ''state'') of
                  Some state \<Rightarrow> M_suite_colon @ ascii state @ M_full_stop
                | None \<Rightarrow> M_suite_recorded)))"

definition metric_part :: "fields \<Rightarrow> string \<Rightarrow> int \<Rightarrow> utext \<Rightarrow> string \<Rightarrow> utext list" where
  "metric_part metrics k factor word unit_text =
     (case jm_get metrics k of Some (JInt i) \<Rightarrow> [word @ ascii (int_str (i * factor) @ ''.0'' @ unit_text)] | _ \<Rightarrow> [])"

definition benchmark_line :: "fields \<Rightarrow> utext" where
  "benchmark_line payload =
     (case rec_at payload ''benchmark_result'' of
        Some result \<Rightarrow>
          (let metrics = (case rec_at result ''metrics'' of Some m \<Rightarrow> m | None \<Rightarrow> []);
               parts = metric_part metrics ''success_rate'' 100 M_success_rate ''%'' @
                 metric_part metrics ''requests_per_second'' 1 M_throughput '' req/s'' @
                 metric_part metrics ''mean_e2e_latency_ms'' 1 M_latency '' ms''
           in if parts \<noteq> [] then M_bench_colon @ join_with M_comma parts @ M_full_stop else M_bench_details)
      | None \<Rightarrow> M_bench_done)"

definition compare_line :: "fields \<Rightarrow> utext" where
  "compare_line payload =
     (case rec_at payload ''comparison'' of
        Some c \<Rightarrow>
          if jm_get c ''comparable'' = Some (JBool False) then COPY_compare_incomparable
          else if jm_get c ''claimable'' = Some (JBool False) then COPY_compare_unclaimable
          else M_compared_n @ ascii (nat_str (length (case elements_of (jm_get c ''deltas'') of Some xs \<Rightarrow> xs | None \<Rightarrow> []))) @ M_compared_end
      | None \<Rightarrow> M_compared)"

definition report_line :: "fields \<Rightarrow> utext" where
  "report_line payload =
     (case rec_at payload ''report'' of
        Some report \<Rightarrow>
          (case jm_get report ''report_id'' of
             Some (JStr i) \<Rightarrow>
               M_report_made_n @ ascii i @ M_open_paren @
               ascii (nat_str (length (case elements_of (jm_get report ''artifact_ids'') of Some xs \<Rightarrow> xs | None \<Rightarrow> []))) @ M_artifacts_end
           | _ \<Rightarrow> M_report_made)
      | None \<Rightarrow> M_report_made)"

definition records_line :: "fields \<Rightarrow> utext" where
  "records_line payload =
     (case elements_of (jm_get payload ''runs'') of
        Some xs \<Rightarrow> M_found_n @ ascii (nat_str (length xs)) @ M_runs_end
      | None \<Rightarrow>
     (case elements_of (jm_get payload ''records'') of
        Some xs \<Rightarrow> M_found_n @ ascii (nat_str (length xs)) @ M_facts_end
      | None \<Rightarrow>
     (case (jm_get payload ''artifact_id'', jm_get payload ''label'', jm_get payload ''id'', jm_get payload ''kind'') of
        (Some (JStr a), label, _, _) \<Rightarrow>
          ascii ''Artifact '' @ ascii a @
          (case label of Some (JStr l) \<Rightarrow> M_open_paren @ ascii l @ M_close_paren | _ \<Rightarrow> []) @ M_full_stop
      | (_, _, Some (JStr i), Some (JStr k)) \<Rightarrow> M_read_head @ ascii k @ M_records_word @ ascii i @ M_full_stop
      | _ \<Rightarrow> M_record_read)))"

definition headlineOf :: "string \<Rightarrow> fields \<Rightarrow> utext" where
  "headlineOf toolName payload =
     (if toolName = ''inspect_environment'' then environment_line payload
      else if toolName = ''inspect_service'' then service_line payload
      else if toolName = ''plan_deployment'' then plan_line payload
      else if toolName = ''deploy_service'' then deploy_line payload
      else if toolName = ''benchmark_suite'' then suite_line payload
      else if toolName = ''export_deliverable'' then M_deliverable
      else if toolName = ''benchmark_service'' then benchmark_line payload
      else if toolName = ''compare_results'' then compare_line payload
      else if toolName = ''write_report'' then report_line payload
      else if toolName = ''inspect_records'' then records_line payload
      else M_recorded)"

definition summarizeManagedResult :: "string \<Rightarrow> json \<Rightarrow> utext" where
  "summarizeManagedResult toolName raw =
     (let envelope = (case asRecord (Some raw) of Some e \<Rightarrow> e | None \<Rightarrow> []);
          payload = (case rec_at envelope ''data'' of Some d \<Rightarrow> d | None \<Rightarrow> envelope);
          preferInspectHeadline = (toolName = ''inspect_environment'' \<and> rec_at payload ''hardware_snapshot'' \<noteq> None);
          head = (case jm_get envelope ''summary'' of
                    Some (JStr s) \<Rightarrow>
                      if \<not> preferInspectHeadline \<and> trim_text (ascii s) \<noteq> [] then ascii s else headlineOf toolName payload
                  | _ \<Rightarrow> headlineOf toolName payload);
          warnings = (case elements_of (jm_get envelope ''warnings'') of
                        Some (w # ws) \<Rightarrow> newline # M_note @ join_with M_semicolon (map (\<lambda>v. case v of JNull \<Rightarrow> [] | _ \<Rightarrow> ascii (js_String v)) (w # ws))
                      | _ \<Rightarrow> [])
      in humanizeUserText (head @ warnings))"

end
