(* ===== verification/Managed_Tools.thy ===== *)
theory Managed_Tools
  imports Managed_Reply
begin

text \<open>
  The execution of a managed tool (\<open>makeExecute\<close>, \<open>harness/managed-tools.ts\<close>): the client, the check of the
  task scope, the questions to the user, the request to the core and what is made of its answer. Client and
  user are parameters; what was asked of them is recorded in order.
\<close>

section \<open>Outside\<close>

text \<open>\<open>me_ask\<close> is \<open>askApproval\<close> where it is given and the confirmation of the user interface otherwise.\<close>

record 's managed_env =
  me_client :: "'s \<Rightarrow> bool"
  me_request :: "string \<Rightarrow> fields \<Rightarrow> 's \<Rightarrow> (core_error + json) \<times> 's"
  me_ask :: "utext \<Rightarrow> 's \<Rightarrow> (string + bool) \<times> 's"
  me_scoped :: bool

text \<open>A question with its answer, \<open>None\<close> when asking failed, and a request.\<close>

datatype managed_effect = Asked utext "bool option" | Requested string fields

text \<open>What is caught: an error of the core client, one made here, or anything else that was thrown.\<close>

datatype managed_fault = FromCore core_error | NoClient | CoverageMismatch | TypeFault | Thrown string

section \<open>What needs a confirmation\<close>

text \<open>\<open>CONFIRMED_ACTIONS[actionKey]\<close>.\<close>

definition CONFIRMED_ACTIONS :: "(string \<times> utext) list" where
  "CONFIRMED_ACTIONS =
     [(''plan_deployment.freeze'', COPY_confirmBody_freeze), (''deploy_service.start'', COPY_confirmBody_start),
      (''deploy_service.stop'', COPY_confirmBody_stop), (''deploy_service.recover'', COPY_confirmBody_recover)]"

definition action_key :: "string \<Rightarrow> fields \<Rightarrow> string" where
  "action_key toolName params =
     (if toolName = ''plan_deployment'' \<or> toolName = ''deploy_service''
      then toolName @ ''.'' @ (case nullish (jm_get params ''action'') of Some a \<Rightarrow> js_String a | None \<Rightarrow> [])
      else [])"

definition loopback_url :: "fields \<Rightarrow> string" where
  "loopback_url params =
     (case rec_at params ''endpoint'' of
        Some endpoint \<Rightarrow> (case jm_get endpoint ''url'' of Some (JStr u) \<Rightarrow> u | _ \<Rightarrow> [])
      | None \<Rightarrow> [])"

definition destructiveSuite :: "string \<Rightarrow> fields \<Rightarrow> bool" where
  "destructiveSuite toolName params \<longleftrightarrow> toolName = ''benchmark_suite'' \<and> jm_get params ''destructive'' = Some (JBool True)"

definition loopbackMeasure :: "string \<Rightarrow> fields \<Rightarrow> bool" where
  "loopbackMeasure toolName params \<longleftrightarrow>
     (toolName = ''benchmark_service'' \<or> toolName = ''benchmark_suite'') \<and> loopback_url params \<noteq> []"

definition measure_message :: "string \<Rightarrow> fields \<Rightarrow> utext" where
  "measure_message toolName params =
     join_with [newline] (filter (\<lambda>t. t \<noteq> [])
       [if loopbackMeasure toolName params then COPY_confirmBody_loopback @ [newline] @ ascii (loopback_url params) else [],
        if destructiveSuite toolName params then COPY_confirmBody_destructive else []])"

definition request_params :: "string \<Rightarrow> fields \<Rightarrow> fields" where
  "request_params toolName params =
     (if toolName = ''benchmark_suite''
      then jm_set ''destructive_authorized'' (JBool (destructiveSuite toolName params)) params else params)"

section \<open>The compact answer of a revised report\<close>

text \<open>\<open>({ rows, ...summary }) => summary\<close>; \<open>null\<close> cannot be taken apart.\<close>

fun without_rows :: "json \<Rightarrow> json option" where
  "without_rows JNull = None"
| "without_rows (JObj kvs) = Some (JObj (jm_delete ''rows'' kvs))"
| "without_rows (JArr xs) = Some (JObj (map (\<lambda>i. (nat_str i, xs ! i)) [0..<length xs]))"
| "without_rows (JStr s) = Some (JObj (map (\<lambda>i. (nat_str i, JStr [s ! i])) [0..<length s]))"
| "without_rows v = Some (JObj [])"

definition is_integer :: "json option \<Rightarrow> bool" where
  "is_integer v = (case v of Some (JInt i) \<Rightarrow> True | _ \<Rightarrow> False)"

definition kept :: "string \<Rightarrow> json \<Rightarrow> fields" where
  "kept k v = (case jprop k v of Some x \<Rightarrow> [(k, x)] | None \<Rightarrow> [])"

definition spread_of :: "json \<Rightarrow> fields" where
  "spread_of v = (case asRecord (Some v) of Some kvs \<Rightarrow> kvs | None \<Rightarrow> [])"

definition compact_report :: "json \<Rightarrow> json \<Rightarrow> json \<Rightarrow> json \<Rightarrow> json list \<Rightarrow> json" where
  "compact_report result data report coverage suites =
     JObj (jm_set ''data''
       (JObj (jm_set ''report''
          (JObj (kept ''report_id'' report @ kept ''title'' report @ kept ''artifact_ids'' report @
            [(''coverage'', JObj (jm_set ''suites'' (JArr suites) (spread_of coverage)))]))
          (spread_of data)))
       (spread_of result))"

definition compactReportResult :: "json \<Rightarrow> managed_fault + json" where
  "compactReportResult value =
     (let data = nullish (jprop ''data'' value);
          report = Option.bind data (jprop ''report'')
      in if \<not> truthy_json report then Inr value
         else
           (let rep = the report; coverage = nullish (jprop ''coverage'' rep) in
            if Option.bind coverage (jprop ''version'') \<noteq> Some (JStr ''report-coverage-v1'') \<or>
               \<not> is_integer (Option.bind coverage (jprop ''metric_claims_count'')) \<or>
               \<not> is_integer (Option.bind coverage (jprop ''suite_claims_count''))
            then Inl CoverageMismatch
            else
              (case nullish (Option.bind coverage (jprop ''suites'')) of
                 Some (JArr suites) \<Rightarrow>
                   if None \<in> set (map without_rows suites) then Inl TypeFault
                   else Inr (compact_report value (the data) rep (the coverage) (map (the \<circ> without_rows) suites))
               | Some _ \<Rightarrow> Inl TypeFault
               | None \<Rightarrow> Inr (compact_report value (the data) rep (the coverage) []))))"

section \<open>Errors\<close>

definition fault_code :: "managed_fault \<Rightarrow> json" where
  "fault_code f =
     (case f of
        FromCore e \<Rightarrow> ce_code e
      | NoClient \<Rightarrow> CORE_UNAVAILABLE
      | CoverageMismatch \<Rightarrow> JStr ''report_coverage_mismatch''
      | TypeFault \<Rightarrow> JStr ''core_error''
      | Thrown _ \<Rightarrow> JStr ''core_error'')"

definition has_remediation :: "managed_fault \<Rightarrow> bool" where
  "has_remediation f =
     (case f of
        FromCore e \<Rightarrow>
          (case ce_remediation e of None \<Rightarrow> False | Some (WireText v) \<Rightarrow> truthy_json (Some v) | Some _ \<Rightarrow> True)
      | _ \<Rightarrow> False)"

text \<open>The sentence: two codes have one of their own, otherwise the message, with its remediation if it has one.\<close>

datatype error_notice = OwnSentence utext | MessageWithRemediation managed_fault | MessageOf managed_fault

datatype managed_result = Answered utext json | Declined | Failed_result error_notice json

definition errorResult :: "managed_fault \<Rightarrow> managed_result" where
  "errorResult f =
     Failed_result
       (if fault_code f = JStr ''core_busy'' then OwnSentence COPY_errors_coreBusy
        else if fault_code f = JStr ''core_unavailable'' then OwnSentence COPY_errors_coreUnavailable
        else if has_remediation f then MessageWithRemediation f else MessageOf f)
       (fault_code f)"

section \<open>The execution\<close>

text \<open>A part of it: a fault or a value, what was asked and requested, and the world after.\<close>

type_synonym ('a, 's) managed_act = "'s \<Rightarrow> (managed_fault + 'a) \<times> managed_effect list \<times> 's"

definition then_do :: "('a, 's) managed_act \<Rightarrow> ('a \<Rightarrow> ('b, 's) managed_act) \<Rightarrow> ('b, 's) managed_act" where
  "then_do m f w =
     (let (r, effects, w1) = m w in
      case r of
        Inl e \<Rightarrow> (Inl e, effects, w1)
      | Inr a \<Rightarrow> (let (r2, effects2, w2) = f a w1 in (r2, effects @ effects2, w2)))"

definition give :: "managed_fault + 'a \<Rightarrow> ('a, 's) managed_act" where
  "give r w = (r, [], w)"

definition ask_user :: "'s managed_env \<Rightarrow> utext \<Rightarrow> (bool, 's) managed_act" where
  "ask_user env message w =
     (let (r, w1) = me_ask env message w in
      case r of Inl m \<Rightarrow> (Inl (Thrown m), [Asked message None], w1) | Inr b \<Rightarrow> (Inr b, [Asked message (Some b)], w1))"

definition core_request :: "'s managed_env \<Rightarrow> string \<Rightarrow> fields \<Rightarrow> (json, 's) managed_act" where
  "core_request env tool params w =
     (let (r, w1) = me_request env tool params w in
      ((case r of Inl e \<Rightarrow> Inl (FromCore e) | Inr v \<Rightarrow> Inr v), [Requested tool params], w1))"

text \<open>A question that has to be approved; \<open>declined\<close> ends the execution without an error.\<close>

definition confirmed :: "'s managed_env \<Rightarrow> utext option \<Rightarrow> (managed_result, 's) managed_act \<Rightarrow> (managed_result, 's) managed_act" where
  "confirmed env message continue =
     (case message of
        None \<Rightarrow> continue
      | Some m \<Rightarrow> then_do (ask_user env m) (\<lambda>approved. if approved then continue else give (Inr Declined)))"

definition request_and_answer :: "'s managed_env \<Rightarrow> string \<Rightarrow> fields \<Rightarrow> (managed_result, 's) managed_act" where
  "request_and_answer env toolName params =
     then_do (core_request env toolName (request_params toolName params)) (\<lambda>data.
       let shown = summarizeManagedResult toolName data in
       if toolName = ''write_report'' \<and>
          (truthy_json (jm_get params ''based_on_report_id'') \<or> truthy_json (jm_get params ''suite_selections''))
       then then_do (give (compactReportResult data)) (\<lambda>response. give (Inr (Answered shown response)))
       else give (Inr (Answered shown data)))"

definition scope_check :: "'s managed_env \<Rightarrow> string \<Rightarrow> fields \<Rightarrow> (unit, 's) managed_act" where
  "scope_check env toolName params =
     (if me_scoped env
      then then_do (core_request env ''check_task_scope'' [(''tool'', JStr toolName), (''params'', JObj params)]) (\<lambda>_. give (Inr ()))
      else give (Inr ()))"

definition measure_question :: "string \<Rightarrow> fields \<Rightarrow> utext option" where
  "measure_question toolName params =
     (if loopbackMeasure toolName params \<or> destructiveSuite toolName params then Some (measure_message toolName params) else None)"

definition execute_body :: "'s managed_env \<Rightarrow> string \<Rightarrow> fields \<Rightarrow> (managed_result, 's) managed_act" where
  "execute_body env toolName params w =
     (if \<not> me_client env w then give (Inl NoClient) w
      else then_do (scope_check env toolName params)
        (\<lambda>_. confirmed env (map_of CONFIRMED_ACTIONS (action_key toolName params))
          (confirmed env (measure_question toolName params) (request_and_answer env toolName params))) w)"

definition makeExecute ::
  "'s managed_env \<Rightarrow> string \<Rightarrow> fields \<Rightarrow> 's \<Rightarrow> managed_result \<times> managed_effect list \<times> 's" where
  "makeExecute env toolName params w =
     (let (r, effects, w1) = execute_body env toolName params w in
      ((case r of Inl f \<Rightarrow> errorResult f | Inr x \<Rightarrow> x), effects, w1))"

section \<open>Arguments of a measurement\<close>

datatype argument_fault = NotAnObject | NotExactlyOne

definition prepareMeasurementArguments :: "json \<Rightarrow> argument_fault + fields" where
  "prepareMeasurementArguments args =
     (case asRecord (Some args) of
        None \<Rightarrow> Inl NotAnObject
      | Some kvs \<Rightarrow>
          if jm_has kvs ''service_instance_id'' = jm_has kvs ''endpoint'' then Inl NotExactlyOne else Inr kvs)"

end
