(* ===== verification/Managed_Properties.thy ===== *)
theory Managed_Properties
  imports Managed_Tools
begin

text \<open>
  A managed tool asks before it acts and stops when it is told no, and what the user reads names no
  internal tool.
\<close>

section \<open>What an execution asks and requests\<close>

abbreviation effects_of :: "('a, 's) managed_act \<Rightarrow> 's \<Rightarrow> managed_effect list" where
  "effects_of m w \<equiv> fst (snd (m w))"

lemma effects_then_do:
  "effects_of (then_do m f) w = effects_of m w @ (case fst (m w) of Inl _ \<Rightarrow> [] | Inr a \<Rightarrow> effects_of (f a) (snd (snd (m w))))"
  by (auto simp: then_do_def Let_def split: prod.split sum.split)

lemma effects_give [simp]: "effects_of (give r) w = []"
  by (simp add: give_def)

lemma effects_core_request [simp]: "effects_of (core_request env tool params) w = [Requested tool params]"
  by (simp add: core_request_def split: prod.split)

lemma effects_request_and_answer [simp]:
  "effects_of (request_and_answer env toolName params) w = [Requested toolName (request_params toolName params)]"
  by (auto simp: request_and_answer_def effects_then_do Let_def split: sum.split)

lemma effects_confirmed:
  "effects_of (confirmed env None continue) w = effects_of continue w"
  "effects_of (confirmed env (Some m) continue) w =
     (case me_ask env m w of
        (Inl _, _) \<Rightarrow> [Asked m None]
      | (Inr b, w1) \<Rightarrow> Asked m (Some b) # (if b then effects_of continue w1 else []))"
  by (auto simp: confirmed_def effects_then_do ask_user_def split: sum.split prod.split)

lemma effects_scope_check: "x \<in> set (effects_of (scope_check env toolName params) w) \<Longrightarrow> \<exists>ps. x = Requested ''check_task_scope'' ps"
  by (auto simp: scope_check_def effects_then_do split: if_splits sum.splits)

lemma split_at_end: "xs @ x # zs = ys @ [y] \<Longrightarrow> x \<notin> set ys \<Longrightarrow> xs = ys \<and> zs = [] \<and> x = y"
proof (induction ys arbitrary: xs)
  case Nil
  then show ?case by (cases xs) auto
next
  case (Cons a ys)
  from Cons.prems Cons.IH [of "tl xs"] show ?case by (cases xs) auto
qed

text \<open>Every question is approved before the request, and nothing follows the request.\<close>

fun questions :: "utext option list \<Rightarrow> managed_effect list" where
  "questions [] = []"
| "questions (None # qs) = questions qs"
| "questions (Some m # qs) = Asked m (Some True) # questions qs"

lemma asks_then_requests:
  assumes "\<And>v. Requested toolName sent \<in> set (effects_of c v) \<Longrightarrow> effects_of c v = questions qs @ [r]"
    and "Requested toolName sent \<in> set (effects_of (confirmed env q c) w)"
  shows "effects_of (confirmed env q c) w = questions (q # qs) @ [r]"
proof (cases q)
  case None
  with assms show ?thesis by (simp add: effects_confirmed)
next
  case (Some m)
  obtain a w1 where a: "me_ask env m w = (a, w1)" by (cases "me_ask env m w")
  have "a = Inr True" and "Requested toolName sent \<in> set (effects_of c w1)"
    using assms(2) Some a by (auto simp: effects_confirmed split: sum.splits if_splits)
  with assms(1) [of w1] Some a show ?thesis by (simp add: effects_confirmed)
qed

lemma execute_effects:
  assumes "Requested toolName sent \<in> set (effects_of (execute_body env toolName params) w)" and "toolName \<noteq> ''check_task_scope''"
  obtains scope where "effects_of (execute_body env toolName params) w =
      scope @ questions [map_of CONFIRMED_ACTIONS (action_key toolName params), measure_question toolName params] @
      [Requested toolName (request_params toolName params)]"
    and "\<forall>x \<in> set scope. \<exists>ps. x = Requested ''check_task_scope'' ps"
proof -
  let ?rest = "confirmed env (map_of CONFIRMED_ACTIONS (action_key toolName params))
      (confirmed env (measure_question toolName params) (request_and_answer env toolName params))"
  have c: "me_client env w"
  proof (rule ccontr)
    assume "\<not> me_client env w"
    with assms(1) show False by (simp add: execute_body_def)
  qed
  then have e: "effects_of (execute_body env toolName params) w = effects_of (scope_check env toolName params) w @
      (case fst (scope_check env toolName params w) of Inl _ \<Rightarrow> [] | Inr _ \<Rightarrow> effects_of ?rest (snd (snd (scope_check env toolName params w))))"
    by (simp add: execute_body_def effects_then_do)
  have s: "\<forall>x \<in> set (effects_of (scope_check env toolName params) w). \<exists>ps. x = Requested ''check_task_scope'' ps"
    by (rule ballI) (rule effects_scope_check)
  have "Requested toolName sent \<notin> set (effects_of (scope_check env toolName params) w)"
    using bspec [OF s, of "Requested toolName sent"] assms(2) by auto
  moreover obtain u where u: "fst (scope_check env toolName params w) = Inr u"
  proof (cases "fst (scope_check env toolName params w)")
    case (Inl f)
    with assms(1) e calculation show ?thesis by simp
  qed
  ultimately have r: "Requested toolName sent \<in> set (effects_of ?rest (snd (snd (scope_check env toolName params w))))"
    using assms(1) e by simp
  have "effects_of ?rest (snd (snd (scope_check env toolName params w))) =
      questions [map_of CONFIRMED_ACTIONS (action_key toolName params), measure_question toolName params] @
      [Requested toolName (request_params toolName params)]"
    by (rule asks_then_requests [OF asks_then_requests r]) simp_all
  with e u have "effects_of (execute_body env toolName params) w = effects_of (scope_check env toolName params) w @
      questions [map_of CONFIRMED_ACTIONS (action_key toolName params), measure_question toolName params] @
      [Requested toolName (request_params toolName params)]" by simp
  from that [OF this s] show ?thesis .
qed

section \<open>Consent\<close>

text \<open>The actions on the host that need a yes: fixing a plan, and starting, stopping or recovering a service.\<close>

definition host_action :: "string \<Rightarrow> fields \<Rightarrow> bool" where
  "host_action toolName params \<longleftrightarrow>
     (toolName = ''plan_deployment'' \<and> jm_get params ''action'' = Some (JStr ''freeze'')) \<or>
     (toolName = ''deploy_service'' \<and>
       jm_get params ''action'' \<in> {Some (JStr ''start''), Some (JStr ''stop''), Some (JStr ''recover'')})"

lemma host_action_asks: "host_action toolName params \<Longrightarrow> \<exists>m. map_of CONFIRMED_ACTIONS (action_key toolName params) = Some m"
  by (auto simp: host_action_def action_key_def CONFIRMED_ACTIONS_def)

lemma in_questions: "x \<in> set (questions qs) \<longleftrightarrow> (\<exists>m. Some m \<in> set qs \<and> x = Asked m (Some True))"
  by (induction qs rule: questions.induct) auto

lemma authorized:
  "jm_get (request_params ''benchmark_suite'' params) ''destructive_authorized'' = Some (JBool True) \<longleftrightarrow>
     destructiveSuite ''benchmark_suite'' params"
  by (simp add: request_params_def jm_get_set)

text \<open>
  C26. A request of a managed tool leaves for the core only after every question it needs has been answered
  with yes: one for an action on the host, and one that names the endpoint or the load for a measurement of
  a loopback endpoint or a destructive suite. It is the last thing that happens, no question of the
  execution was declined or failed, and a suite is sent as authorised to be destructive only if that was asked.
\<close>

theorem managed_action_needs_consent:
  assumes "fst (snd (makeExecute env toolName params w)) = before @ Requested toolName sent # rest"
    and "toolName \<noteq> ''check_task_scope''"
  shows "rest = [] \<and> (\<forall>m a. Asked m a \<in> set before \<longrightarrow> a = Some True) \<and>
    (host_action toolName params \<longrightarrow> (\<exists>m. Asked m (Some True) \<in> set before)) \<and>
    (loopbackMeasure toolName params \<or> destructiveSuite toolName params \<longrightarrow>
       Asked (measure_message toolName params) (Some True) \<in> set before) \<and>
    (toolName = ''benchmark_suite'' \<and> jm_get sent ''destructive_authorized'' = Some (JBool True) \<longrightarrow>
       destructiveSuite toolName params)"
proof -
  let ?qs = "[map_of CONFIRMED_ACTIONS (action_key toolName params), measure_question toolName params]"
  have eff: "fst (snd (makeExecute env toolName params w)) = effects_of (execute_body env toolName params) w"
    by (simp add: makeExecute_def split_beta)
  with assms(1) have "Requested toolName sent \<in> set (effects_of (execute_body env toolName params) w)" by simp
  from execute_effects [OF this assms(2)] obtain scope where
    e: "effects_of (execute_body env toolName params) w = scope @ questions ?qs @ [Requested toolName (request_params toolName params)]"
    and s: "\<forall>x \<in> set scope. \<exists>ps. x = Requested ''check_task_scope'' ps" by metis
  have no: "Requested toolName sent \<notin> set (scope @ questions ?qs)" using s assms(2) by (auto simp: in_questions)
  from assms(1) e eff have "before @ Requested toolName sent # rest =
      (scope @ questions ?qs) @ [Requested toolName (request_params toolName params)]" by simp
  from split_at_end [OF this no] have b: "before = scope @ questions ?qs" "rest = []" "sent = request_params toolName params"
    by simp_all
  have "\<forall>m a. Asked m a \<in> set before \<longrightarrow> a = Some True" using s by (auto simp: b(1) in_questions)
  moreover have "\<exists>m. Asked m (Some True) \<in> set before" if "host_action toolName params"
    using host_action_asks [OF that] by (auto simp: b(1) in_questions)
  moreover have "Asked (measure_message toolName params) (Some True) \<in> set before"
    if "loopbackMeasure toolName params \<or> destructiveSuite toolName params"
    using that by (auto simp: b(1) in_questions measure_question_def)
  moreover have "destructiveSuite toolName params"
    if "toolName = ''benchmark_suite'' \<and> jm_get sent ''destructive_authorized'' = Some (JBool True)"
    using that authorized [of params] b(3) by blast
  ultimately show ?thesis using b(2) by blast
qed

definition agreeable :: "bool \<Rightarrow> unit managed_env" where
  "agreeable answer = \<lparr>me_client = (\<lambda>_. True), me_request = (\<lambda>_ _ w. (Inr JNull, w)), me_ask = (\<lambda>_ w. (Inr answer, w)),
     me_scoped = True\<rparr>"

lemma execute_example:
  "fst (snd (makeExecute (agreeable answer) toolName params ())) =
     Requested ''check_task_scope'' [(''tool'', JStr toolName), (''params'', JObj params)] #
     effects_of (confirmed (agreeable answer) (map_of CONFIRMED_ACTIONS (action_key toolName params))
       (confirmed (agreeable answer) (measure_question toolName params) (request_and_answer (agreeable answer) toolName params))) ()"
  "me_ask (agreeable answer) m () = (Inr answer, ())"
  by (simp_all add: makeExecute_def split_beta execute_body_def effects_then_do scope_check_def then_do_def core_request_def give_def
      agreeable_def)

theorem managed_action_needs_consent_witness:
  "\<exists>before. fst (snd (makeExecute (agreeable True) ''deploy_service'' [(''action'', JStr ''stop'')] ())) =
      before @ Requested ''deploy_service'' [(''action'', JStr ''stop'')] # [] \<and> (\<exists>m. Asked m (Some True) \<in> set before)"
proof -
  let ?ps = "[(''action'', JStr ''stop'')]"
  let ?before = "[Requested ''check_task_scope'' [(''tool'', JStr ''deploy_service''), (''params'', JObj ?ps)],
    Asked COPY_confirmBody_stop (Some True)]"
  have e: "fst (snd (makeExecute (agreeable True) ''deploy_service'' ?ps ())) = ?before @ Requested ''deploy_service'' ?ps # []"
    by (simp add: execute_example effects_confirmed CONFIRMED_ACTIONS_def action_key_def measure_question_def loopbackMeasure_def
        destructiveSuite_def request_params_def)
  moreover have "host_action ''deploy_service'' ?ps" by (simp add: host_action_def)
  ultimately show ?thesis using managed_action_needs_consent [OF e] by blast
qed

text \<open>
  Where the core is not reachable, or refuses the call for the task, nothing is asked and the tool is not
  requested; where a question is declined, the tool is not requested and the user is told; every failure ends
  in an answer with the code of the error.
\<close>

theorem refused_call_goes_nowhere:
  assumes "toolName \<noteq> ''check_task_scope''"
  shows "(\<not> me_client env w \<longrightarrow>
      makeExecute env toolName params w = (Failed_result (OwnSentence COPY_errors_coreUnavailable) CORE_UNAVAILABLE, [], w)) \<and>
    (me_client env w \<and> me_scoped env \<and>
      me_request env ''check_task_scope'' [(''tool'', JStr toolName), (''params'', JObj params)] w = (Inl e, w1) \<longrightarrow>
      (\<exists>notice. makeExecute env toolName params w =
        (Failed_result notice (ce_code e),
         [Requested ''check_task_scope'' [(''tool'', JStr toolName), (''params'', JObj params)]], w1))) \<and>
    (Asked m (Some False) \<in> set (fst (snd (makeExecute env toolName params w))) \<longrightarrow>
      (\<forall>sent. Requested toolName sent \<notin> set (fst (snd (makeExecute env toolName params w)))))"
proof -
  have "makeExecute env toolName params w = (Failed_result (OwnSentence COPY_errors_coreUnavailable) CORE_UNAVAILABLE, [], w)"
    if "\<not> me_client env w"
    using that by (simp add: makeExecute_def execute_body_def give_def errorResult_def fault_code_def CORE_UNAVAILABLE_def)
  moreover have "\<exists>notice. makeExecute env toolName params w = (Failed_result notice (ce_code e),
      [Requested ''check_task_scope'' [(''tool'', JStr toolName), (''params'', JObj params)]], w1)"
    if "me_client env w" "me_scoped env"
      "me_request env ''check_task_scope'' [(''tool'', JStr toolName), (''params'', JObj params)] w = (Inl e, w1)"
    using that by (simp add: makeExecute_def execute_body_def then_do_def scope_check_def core_request_def errorResult_def fault_code_def)
  moreover have False
    if asked: "Asked m (Some False) \<in> set (fst (snd (makeExecute env toolName params w)))"
      and sent: "Requested toolName sent \<in> set (fst (snd (makeExecute env toolName params w)))" for sent
  proof -
    have "fst (snd (makeExecute env toolName params w)) = effects_of (execute_body env toolName params) w"
      by (simp add: makeExecute_def split_beta)
    with asked sent have a: "Asked m (Some False) \<in> set (effects_of (execute_body env toolName params) w)"
      and s: "Requested toolName sent \<in> set (effects_of (execute_body env toolName params) w)" by simp_all
    show False
      by (rule execute_effects [OF s assms]) (use a in \<open>auto simp: in_questions\<close>)
  qed
  ultimately show ?thesis by blast
qed

theorem refused_call_goes_nowhere_witness:
  "\<forall>sent. Requested ''deploy_service'' sent \<notin> set (fst (snd (makeExecute (agreeable False) ''deploy_service'' [(''action'', JStr ''stop'')] ())))"
proof -
  have "Asked COPY_confirmBody_stop (Some False) \<in>
      set (fst (snd (makeExecute (agreeable False) ''deploy_service'' [(''action'', JStr ''stop'')] ())))"
    by (simp add: execute_example effects_confirmed CONFIRMED_ACTIONS_def action_key_def)
  moreover have "''deploy_service'' \<noteq> ''check_task_scope''" by simp
  note refused_call_goes_nowhere [OF this, where env = "agreeable False" and params = "[(''action'', JStr ''stop'')]"
      and w = "()" and m = COPY_confirmBody_stop]
  ultimately show ?thesis by metis
qed

section \<open>What the user reads\<close>

text \<open>A label shares no character with a name, so that it is no part of an occurrence of one.\<close>

lemma replace_each_simps:
  "old = [] \<or> t = [] \<Longrightarrow> replace_each old new t = t"
  "\<not> (old = [] \<or> t = []) \<Longrightarrow> take (length old) t = old \<Longrightarrow>
     replace_each old new t = new @ replace_each old new (drop (length old) t)"
  "\<not> (old = [] \<or> t = []) \<Longrightarrow> take (length old) t \<noteq> old \<Longrightarrow>
     replace_each old new t = hd t # replace_each old new (tl t)"
  by (subst replace_each.simps, simp)+

lemma prefix_replace_each:
  assumes "set p \<inter> set l = {}" and "l \<noteq> []" and "prefix p (replace_each old l t)"
  shows "prefix p t"
  using assms
proof (induction old l t arbitrary: p rule: replace_each.induct)
  case (1 old l t)
  show ?case
  proof (cases p)
    case (Cons x q)
    show ?thesis
    proof (cases "old = [] \<or> t = []")
      case True
      with "1.prems"(3) show ?thesis by (simp add: replace_each_simps)
    next
      case False
      show ?thesis
      proof (cases "take (length old) t = old")
        case True
        from replace_each_simps(2) [OF False True] "1.prems"(3) Cons
        have "prefix (x # q) (l @ replace_each old l (drop (length old) t))" by simp
        with "1.prems"(1,2) Cons show ?thesis by (cases l) auto
      next
        case no: False
        from replace_each_simps(3) [OF False no] "1.prems"(3) Cons
        have "x = hd t" "prefix q (replace_each old l (tl t))" by simp_all
        with "1.IH"(2) [OF False no, of q] "1.prems"(1,2) Cons False show ?thesis by (cases t) auto
      qed
    qed
  qed simp
qed

lemma sublist_disjoint_append: "set m \<inter> set l = {} \<Longrightarrow> m \<noteq> [] \<Longrightarrow> sublist m (l @ t) \<longleftrightarrow> sublist m t"
proof (induction l)
  case (Cons a l)
  then have "\<not> prefix m (a # l @ t)" by (cases m) auto
  with Cons show ?case by (simp add: sublist_Cons_right)
qed simp

lemma absent_replace_each:
  assumes "set m \<inter> set l = {}" and "l \<noteq> []" and "m \<noteq> []" and "\<not> sublist m t \<or> m = old"
  shows "\<not> sublist m (replace_each old l t)"
  using assms
proof (induction old l t rule: replace_each.induct)
  case (1 old l t)
  show ?case
  proof (cases "old = [] \<or> t = []")
    case True
    with "1.prems" show ?thesis by (auto simp: replace_each_simps)
  next
    case False
    show ?thesis
    proof (cases "take (length old) t = old")
      case True
      have "\<not> sublist m (drop (length old) t) \<or> m = old"
        using "1.prems"(4) by (metis append_take_drop_id sublist_append_leftI sublist_order.order.trans)
      with "1.IH"(1) [OF False True] "1.prems"(1-3) have "\<not> sublist m (replace_each old l (drop (length old) t))" by blast
      with "1.prems"(1,3) show ?thesis
        unfolding replace_each_simps(2) [OF False True] by (simp add: sublist_disjoint_append)
    next
      case no: False
      obtain c s where t: "t = c # s" using False by (cases t) auto
      have "\<not> sublist m s \<or> m = old" using "1.prems"(4) t by (auto simp: sublist_Cons_right)
      with "1.IH"(2) [OF False no] "1.prems"(1-3) t have tail: "\<not> sublist m (replace_each old l s)" by simp
      have "\<not> prefix m t"
        using "1.prems"(4) no by (auto simp: prefix_def)
      then have "\<not> prefix m (replace_each old l t)" using prefix_replace_each "1.prems"(1,2) by blast
      with tail t show ?thesis
        unfolding replace_each_simps(3) [OF False no] by (simp add: sublist_Cons_right)
    qed
  qed
qed

lemma TOOL_NAME_TOKENS_set: "set TOOL_NAME_TOKENS = fst ` set MANAGED_TOOL_LABELS \<union> {''investigate''}"
  by (simp add: TOOL_NAME_TOKENS_def del: sort_key_simps)

definition foreign_label :: "utext \<Rightarrow> bool" where
  "foreign_label l \<longleftrightarrow> l \<noteq> [] \<and> (\<forall>c \<in> set l. 128 \<le> c)"

lemma foreign_labels:
  "map_of MANAGED_TOOL_LABELS n = Some l \<Longrightarrow> foreign_label l"
  "map_of GENERIC_TOOL_LABELS n = Some l \<Longrightarrow> foreign_label l"
  "foreign_label INVESTIGATE_LABEL"
proof -
  have "\<forall>l \<in> snd ` set MANAGED_TOOL_LABELS. foreign_label l" by (simp add: MANAGED_TOOL_LABELS_def foreign_label_def)
  then show "foreign_label l" if "map_of MANAGED_TOOL_LABELS n = Some l" using map_of_SomeD [OF that] by force
  have "\<forall>l \<in> snd ` set GENERIC_TOOL_LABELS. foreign_label l" by (simp add: GENERIC_TOOL_LABELS_def foreign_label_def)
  then show "foreign_label l" if "map_of GENERIC_TOOL_LABELS n = Some l" using map_of_SomeD [OF that] by force
  show "foreign_label INVESTIGATE_LABEL" by (simp add: INVESTIGATE_LABEL_def foreign_label_def)
qed

lemma toolLabel_no_action:
  "toolLabel n None = (case map_of GENERIC_TOOL_LABELS n of Some l \<Rightarrow> l
      | None \<Rightarrow> (case map_of MANAGED_TOOL_LABELS n of Some l \<Rightarrow> l
      | None \<Rightarrow> if n = ''investigate'' then INVESTIGATE_LABEL else ascii n))"
  unfolding toolLabel_def by (simp only: truthy_str.simps Option.bind.simps if_cancel option.case)

lemma token_labels:
  assumes "n \<in> set TOOL_NAME_TOKENS"
  shows "foreign_label (toolLabel n None)"
proof (cases "map_of GENERIC_TOOL_LABELS n")
  case None
  have label: "toolLabel n None = (case map_of MANAGED_TOOL_LABELS n of Some l \<Rightarrow> l
      | None \<Rightarrow> if n = ''investigate'' then INVESTIGATE_LABEL else ascii n)"
    using None by (simp only: toolLabel_no_action option.case)
  show ?thesis
  proof (cases "map_of MANAGED_TOOL_LABELS n")
    case None
    then have "n \<notin> fst ` set MANAGED_TOOL_LABELS" by (simp add: map_of_eq_None_iff)
    with assms have "n = ''investigate''" unfolding TOOL_NAME_TOKENS_set by blast
    with label None show ?thesis by (simp only: option.case if_True refl foreign_labels)
  next
    case (Some l)
    with label foreign_labels(1) [OF Some] show ?thesis by (simp only: option.case)
  qed
next
  case (Some l)
  then have "toolLabel n None = l" by (simp only: toolLabel_no_action option.case)
  with foreign_labels(2) [OF Some] show ?thesis by simp
qed

lemma token_chars: "n \<in> set TOOL_NAME_TOKENS \<Longrightarrow> ascii n \<noteq> [] \<and> (\<forall>c \<in> set (ascii n). c < 128)"
proof -
  have "\<forall>n \<in> fst ` set MANAGED_TOOL_LABELS \<union> {''investigate''}. ascii n \<noteq> [] \<and> (\<forall>c \<in> set (ascii n). c < 128)"
    by (simp add: MANAGED_TOOL_LABELS_def ascii_def)
  then show "n \<in> set TOOL_NAME_TOKENS \<Longrightarrow> ascii n \<noteq> [] \<and> (\<forall>c \<in> set (ascii n). c < 128)"
    unfolding TOOL_NAME_TOKENS_set by blast
qed

lemma token_not_in_label:
  assumes "n \<in> set TOOL_NAME_TOKENS" and "\<forall>c \<in> set l. (128::nat) \<le> c"
  shows "set (ascii n) \<inter> set l = {}" "ascii n \<noteq> []"
  using token_chars [OF assms(1)] assms(2) by (fastforce simp del: set_empty)+

lemma absent_fold:
  assumes "set ns \<subseteq> set TOOL_NAME_TOKENS" and "n \<in> set TOOL_NAME_TOKENS" and "n \<in> set ns \<or> \<not> sublist (ascii n) t"
  shows "\<not> sublist (ascii n) (fold (\<lambda>name. replace_each (ascii name) (toolLabel name None)) ns t)"
  using assms
proof (induction ns arbitrary: t)
  case (Cons k ns)
  have f: "foreign_label (toolLabel k None)" using token_labels Cons.prems(1) by simp
  then have "\<forall>c \<in> set (toolLabel k None). 128 \<le> c" by (simp add: foreign_label_def)
  note d = token_not_in_label [OF Cons.prems(2) this]
  have "n \<in> set ns \<or> \<not> sublist (ascii n) (replace_each (ascii k) (toolLabel k None) t)"
  proof (cases "n \<in> set ns")
    case False
    with Cons.prems(3) have "\<not> sublist (ascii n) t \<or> ascii n = ascii k" by auto
    with absent_replace_each [OF d(1) _ d(2)] f show ?thesis by (simp add: foreign_label_def)
  qed simp
  with Cons show ?case by simp
qed simp

text \<open>
  C30. No internal name of a managed tool, nor \<open>investigate\<close>, occurs in what the user is shown, however
  the sentence of the core mixes names, one being part of another or several side by side. (The sentence
  that says only that a tool could not be completed shows the label of that tool.)
\<close>

theorem internal_names_are_not_shown:
  assumes "n \<in> set TOOL_NAME_TOKENS" and "failed_tool t = None \<or> (\<exists>k \<in> set TOOL_NAME_TOKENS. failed_tool t = Some (ascii k))"
  shows "\<not> sublist (ascii n) (humanizeUserText t)"
proof (cases "failed_tool t")
  case None
  with absent_fold [OF _ assms(1), of TOOL_NAME_TOKENS t] assms(1) show ?thesis by (simp add: humanizeUserText_def)
next
  case (Some name)
  with assms(2) obtain k where k: "k \<in> set TOOL_NAME_TOKENS" "name = ascii k" by auto
  have "map char_of (ascii k) = k" by (induction k) (simp_all add: ascii_def)
  with Some k have h: "humanizeUserText t = toolLabel k None @ M_not_completed" by (simp add: humanizeUserText_def)
  have "\<forall>c \<in> set (humanizeUserText t). 128 \<le> c"
    using token_labels [OF k(1)] by (auto simp: h foreign_label_def M_not_completed_def)
  note d = token_not_in_label [OF assms(1) this]
  show ?thesis
  proof
    assume "sublist (ascii n) (humanizeUserText t)"
    then have "set (ascii n) \<subseteq> set (humanizeUserText t)" by (rule set_mono_sublist)
    with d show False by (metis inf.absorb_iff1 set_empty)
  qed
qed

theorem internal_names_are_not_shown_witness:
  "\<not> sublist (ascii ''inspect_service'') (humanizeUserText (ascii ''inspect_services inspect_service''))"
proof (rule internal_names_are_not_shown)
  show "''inspect_service'' \<in> set TOOL_NAME_TOKENS" by (simp add: TOOL_NAME_TOKENS_set MANAGED_TOOL_LABELS_def)
  show "failed_tool (ascii ''inspect_services inspect_service'') = None \<or>
    (\<exists>k \<in> set TOOL_NAME_TOKENS. failed_tool (ascii ''inspect_services inspect_service'') = Some (ascii k))"
    by (simp add: failed_tool_def ascii_def M_core_failed_head_def)
qed

end
