(* ===== verification/Project_Paths.thy ===== *)
theory Project_Paths
  imports Path_Resolve Session_Manager
begin

text \<open>
  \<open>utils/paths.ts\<close> on POSIX: the paths users write, and \<open>dirname\<close>, \<open>join\<close> and \<open>relative\<close> of Node.
  The process directory, the home directory, real paths and \<open>fileURLToPath\<close> are parameters. A path is a
  list of characters below 256, among which only the no-break space is a Unicode space.
\<close>

section \<open>Paths as users write them\<close>

text \<open>\<open>pe_file_url\<close> is \<open>None\<close> where the conversion throws, \<open>pe_real\<close> where there is no real path.\<close>

record path_env =
  pe_cwd :: string
  pe_home :: string
  pe_HOME :: "string option"
  pe_file_url :: "string \<Rightarrow> string option"
  pe_real :: "string \<Rightarrow> string option"

record path_options =
  po_trim :: bool
  po_keepTilde :: bool
  po_homeDir :: "string option"
  po_stripAtPrefix :: bool
  po_normalizeUnicodeSpaces :: bool

definition plain_options :: path_options where
  "plain_options = \<lparr>po_trim = False, po_keepTilde = False, po_homeDir = None, po_stripAtPrefix = False,
     po_normalizeUnicodeSpaces = False\<rparr>"

definition canonicalizePath :: "path_env \<Rightarrow> string \<Rightarrow> string" where
  "canonicalizePath pe path = (case pe_real pe path of Some p \<Rightarrow> p | None \<Rightarrow> path)"

text \<open>\<open>join(a, b)\<close> for an absolute \<open>a\<close>.\<close>

definition join_abs :: "string \<Rightarrow> string \<Rightarrow> string" where
  "join_abs a b = show_segments (norm_segments (norm_segments [] a) b)"

text \<open>\<open>join(home, rest)\<close>; a home directory is absolute.\<close>

definition normalizePath :: "path_env \<Rightarrow> path_options \<Rightarrow> string \<Rightarrow> string option" where
  "normalizePath pe po input =
     (let n1 = (if po_trim po then trim input else input);
          n2 = (if po_normalizeUnicodeSpaces po then map (\<lambda>c. if c = CHR 0xA0 then CHR '' '' else c) n1 else n1);
          n3 = (if po_stripAtPrefix po \<and> prefix ''@'' n2 then tl n2 else n2);
          home = (case po_homeDir po of Some h \<Rightarrow> h | None \<Rightarrow> pe_home pe)
      in if \<not> po_keepTilde po \<and> n3 = ''~'' then Some home
         else if \<not> po_keepTilde po \<and> prefix ''~/'' n3 then Some (join_abs home (drop 2 n3))
         else if prefix ''file://'' n3 then pe_file_url pe n3
         else Some n3)"

definition resolvePath :: "path_env \<Rightarrow> string \<Rightarrow> string \<Rightarrow> path_options \<Rightarrow> string option" where
  "resolvePath pe input baseDir po =
     (case (normalizePath pe po input, normalizePath pe plain_options baseDir) of
        (Some n, Some b) \<Rightarrow> Some (if is_absolute n then resolve1 (pe_cwd pe) n else resolve2 (pe_cwd pe) b n)
      | _ \<Rightarrow> None)"

definition isLocalPath :: "string \<Rightarrow> bool" where
  "isLocalPath value \<longleftrightarrow>
     \<not> (\<exists>p \<in> set [''npm:'', ''git:'', ''github:'', ''http:'', ''https:'', ''ssh:'']. prefix p (trim value))"

text \<open>\<open>config.ts\<close>: the directory of the program in a project and in the home directory.\<close>

definition CONFIG_DIR_NAME :: string where
  "CONFIG_DIR_NAME = ''.bittune''"

section \<open>Relative paths\<close>

fun common_segments :: "string list \<Rightarrow> string list \<Rightarrow> nat" where
  "common_segments (a # as) (b # bs) = (if a = b then Suc (common_segments as bs) else 0)"
| "common_segments _ _ = 0"

definition relative_path :: "string list \<Rightarrow> string list \<Rightarrow> string" where
  "relative_path source target =
     (let k = common_segments source target in
      join_with ''/'' (replicate (length source - k) ''..'' @ drop k target))"

definition getCwdRelativePath :: "path_env \<Rightarrow> string \<Rightarrow> string \<Rightarrow> string option option" where
  "getCwdRelativePath pe filePath cwd =
     (case resolvePath pe cwd (pe_cwd pe) plain_options of
        None \<Rightarrow> None
      | Some resolvedCwd \<Rightarrow>
     (case resolvePath pe filePath resolvedCwd plain_options of
        None \<Rightarrow> None
      | Some resolvedPath \<Rightarrow>
          (let relativePath = relative_path (norm_segments [] resolvedCwd) (norm_segments [] resolvedPath) in
           if relativePath = [] \<or>
              (relativePath \<noteq> ''..'' \<and> \<not> prefix ''../'' relativePath \<and> \<not> is_absolute relativePath)
           then Some (Some (if relativePath = [] then ''.'' else relativePath)) else Some None)))"

text \<open>Splitting at the separator and joining with a slash is nothing on POSIX.\<close>

definition formatPathRelativeToCwdOrAbsolute :: "path_env \<Rightarrow> string \<Rightarrow> string \<Rightarrow> string option" where
  "formatPathRelativeToCwdOrAbsolute pe filePath cwd =
     (case resolvePath pe filePath cwd plain_options of
        None \<Rightarrow> None
      | Some absolutePath \<Rightarrow>
          (case getCwdRelativePath pe absolutePath cwd of
             None \<Rightarrow> None
           | Some (Some r) \<Rightarrow> Some r
           | Some None \<Rightarrow> Some absolutePath))"

section \<open>Parents\<close>

text \<open>\<open>dirname\<close>: trailing slashes, then the last name, then one slash are dropped; the first character stays.\<close>

fun dirname :: "string \<Rightarrow> string" where
  "dirname [] = ''.''"
| "dirname (c # cs) =
     (case dropWhile (\<lambda>c. c \<noteq> slash) (dropWhile (\<lambda>c. c = slash) (rev cs)) of
        [] \<Rightarrow> if c = slash then [slash] else ''.''
      | x # y \<Rightarrow> if c = slash \<and> y = [] then [slash, slash] else c # rev y)"

declare dirname.simps [simp del]

text \<open>How far a walk to the parents is from its end.\<close>

definition path_height :: "string \<Rightarrow> nat" where
  "path_height p = (if p = ''.'' then 0 else Suc (length p))"

lemma last_name_shorter:
  "dropWhile (\<lambda>c. c \<noteq> x) (dropWhile (\<lambda>c. c = x) ys) \<noteq> [] \<Longrightarrow>
     length (dropWhile (\<lambda>c. c \<noteq> x) (dropWhile (\<lambda>c. c = x) ys)) < length ys"
  by (induction ys) (auto simp: le_imp_less_Suc length_dropWhile_le)

lemma dirname_lower:
  assumes "dirname p \<noteq> p"
  shows "path_height (dirname p) < path_height p"
proof (cases p)
  case Nil
  then show ?thesis by (simp add: path_height_def dirname.simps)
next
  case (Cons c cs)
  let ?r = "dropWhile (\<lambda>c. c \<noteq> slash) (dropWhile (\<lambda>c. c = slash) (rev cs))"
  show ?thesis
  proof (cases ?r)
    case Nil
    then have "dirname p = [slash] \<and> c = slash \<or> dirname p = ''.''"
      unfolding Cons dirname.simps by (simp only: list.case split: if_split) blast
    then show ?thesis
    proof
      assume a: "dirname p = [slash] \<and> c = slash"
      with assms Cons have "0 < length cs" by auto
      moreover have "dirname p = [slash]" using a by blast
      ultimately show ?thesis using Cons by (simp add: path_height_def)
    qed (use assms in \<open>simp add: path_height_def\<close>)
  next
    case r: (Cons x y)
    have l: "Suc (length y) < length cs" using last_name_shorter [of slash "rev cs"] unfolding r by simp
    have "length (dirname p) \<le> max 2 (Suc (length y))"
      unfolding Cons dirname.simps r by (simp only: list.case split: if_split) simp
    with l have "length (dirname p) < length p" "2 \<le> length p" unfolding Cons by simp_all
    then show ?thesis by (auto simp: path_height_def)
  qed
qed

lemma dirname_shown:
  assumes "\<forall>s \<in> set segs. segment s"
  shows "dirname (show_segments segs) = show_segments (butlast segs)"
proof (cases segs rule: rev_cases)
  case Nil
  then show ?thesis by (simp add: show_segments_def dirname.simps)
next
  case (snoc init s)
  with assms have s: "s \<noteq> []" "slash \<notin> set s" by (auto simp: segment_def)
  then have d: "dropWhile (\<lambda>c. c = slash) (rev s @ x) = rev s @ x" for x
    by (cases "rev s") (auto simp: rev_eq_Cons_iff)
  have d2: "dropWhile (\<lambda>c. c \<noteq> slash) (rev s @ x) = dropWhile (\<lambda>c. c \<noteq> slash) x" for x
    using s by (intro dropWhile_append2) auto
  show ?thesis
  proof (cases init)
    case Nil
    with snoc have e: "show_segments segs = slash # s" by (simp add: show_segments_def)
    have "dropWhile (\<lambda>c. c \<noteq> slash) (rev s) = []" using s by auto
    with d [of "[]"] have "dirname (slash # s) = [slash]" by (simp del: dropWhile_eq_Nil_conv add: dirname.simps)
    then show ?thesis using snoc Nil by (simp only: e) (simp add: show_segments_def)
  next
    case (Cons a rest)
    then have "init \<noteq> []" by simp
    then obtain q where q: "show_segments init = slash # q" "q \<noteq> []"
      using assms snoc Cons by (auto simp: show_segments_Cons segment_def)
    have e: "show_segments segs = show_segments init @ slash # s"
      using snoc \<open>init \<noteq> []\<close> by (simp add: show_segments_def)
    have e2: "show_segments segs = slash # q @ slash # s" using e q by simp
    have "dirname (slash # q @ slash # s) = show_segments init"
      using q by (simp add: d d2 dirname.simps)
    then show ?thesis unfolding e2 using snoc by simp
  qed
qed

section \<open>Canonical paths\<close>

lemma split_slash_segment: "slash \<notin> set s \<Longrightarrow> split_slash s = [s]"
  by (induction s) auto

lemma split_slash_append: "slash \<notin> set s \<Longrightarrow> split_slash (s @ slash # t) = s # split_slash t"
proof (induction s)
  case Nil
  then show ?case using split_slash_not_Nil [of t] by (auto split: list.split)
qed auto

lemma split_slash_shown: "\<forall>s \<in> set segs. segment s \<Longrightarrow> segs \<noteq> [] \<Longrightarrow> split_slash (show_segments segs) = [] # segs"
proof (induction segs)
  case (Cons s segs)
  then have s: "slash \<notin> set s" by (simp add: segment_def)
  show ?case
  proof (cases "segs = []")
    case True
    with s show ?thesis by (simp add: show_segments_Cons split_slash_segment)
  next
    case False
    then obtain q where q: "show_segments segs = slash # q" using show_segments_hd by blast
    with Cons False have "[] # segs = [] # split_slash q" using split_slash_append [of "[]" q] by simp
    with q s False show ?thesis by (simp add: show_segments_Cons split_slash_append)
  qed
qed simp

lemma fold_steps: "\<forall>s \<in> set segs. segment s \<Longrightarrow> foldl step_segment acc segs = acc @ segs"
  by (induction segs arbitrary: acc) (auto simp: segment_def)

lemma norm_shown: "\<forall>s \<in> set segs. segment s \<Longrightarrow> norm_segments [] (show_segments segs) = segs"
  by (cases "segs = []") (simp_all add: norm_segments_def split_slash_shown fold_steps, simp add: show_segments_def)

lemma absolute_shown: "is_absolute (show_segments segs)"
  using show_segments_hd [of segs] by (cases segs) (auto simp: is_absolute_def show_segments_def)

lemma normalizePath_absolute: "is_absolute p \<Longrightarrow> normalizePath pe plain_options p = Some p"
  by (cases p) (auto simp: normalizePath_def plain_options_def is_absolute_def)

end
