(* ===== verification/Project_Trust.thy ===== *)
theory Project_Trust
  imports Project_Paths Settings_Manager "HOL-Library.List_Lexorder" "HOL-Library.Char_ord" Extension_Runner Settings_Fields
begin

text \<open>
  \<open>core/project-trust.ts\<close>: whether the settings and extensions of a project may be used. The command line,
  the extensions, the store, the default of the user and a question decide in this order.
\<close>

text \<open>
  \<open>core/trust-manager.ts\<close>: which directories the user trusts, kept in one file for all projects, and
  which resources of a directory need that trust. What files and locks do is a parameter. Keys of the
  file are paths, so that none is \<open>__proto__\<close> or a number.
\<close>

section \<open>Entries and options\<close>

text \<open>A decision is \<open>true\<close>, \<open>false\<close> or \<open>null\<close>.\<close>

type_synonym trust_data = "bool option jsmap"

record trust_entry =
  te_path :: string
  te_decision :: bool

record trust_update =
  up_path :: string
  up_decision :: "bool option"

record trust_option =
  to_label :: string
  to_trusted :: bool
  to_updates :: "trust_update list"
  to_savedPath :: "string option"

datatype trust_fault = BadPath | UnreadableStore | StoreNoObject | BadStoreValue string | LockRefused string | StoreNotWritten

definition normalizeCwd :: "path_env \<Rightarrow> string \<Rightarrow> trust_fault + string" where
  "normalizeCwd pe cwd =
     (case resolvePath pe cwd (pe_cwd pe) plain_options of
        None \<Rightarrow> Inl BadPath
      | Some p \<Rightarrow> Inr (canonicalizePath pe p))"

function nearest_from :: "trust_data \<Rightarrow> string \<Rightarrow> trust_entry option" where
  "nearest_from data currentDir =
     (case jm_get data currentDir of
        Some (Some value) \<Rightarrow> Some \<lparr>te_path = currentDir, te_decision = value\<rparr>
      | _ \<Rightarrow> if dirname currentDir = currentDir then None else nearest_from data (dirname currentDir))"
  by pat_completeness auto
termination
  by (relation "measure (\<lambda>(data, p). path_height p)") (auto intro: dirname_lower)

declare nearest_from.simps [simp del]

definition findNearestTrustEntry :: "path_env \<Rightarrow> trust_data \<Rightarrow> string \<Rightarrow> trust_fault + trust_entry option" where
  "findNearestTrustEntry pe data cwd =
     (case normalizeCwd pe cwd of Inl e \<Rightarrow> Inl e | Inr p \<Rightarrow> Inr (nearest_from data p))"

definition trust_parent :: "string \<Rightarrow> string option" where
  "trust_parent trustPath = (if dirname trustPath = trustPath then None else Some (dirname trustPath))"

definition getProjectTrustParentPath :: "path_env \<Rightarrow> string \<Rightarrow> trust_fault + string option" where
  "getProjectTrustParentPath pe cwd =
     (case normalizeCwd pe cwd of Inl e \<Rightarrow> Inl e | Inr p \<Rightarrow> Inr (trust_parent p))"

definition trust_options_for :: "string \<Rightarrow> bool \<Rightarrow> trust_option list" where
  "trust_options_for trustPath sessionOnly =
     [\<lparr>to_label = ''Trust'', to_trusted = True, to_updates = [\<lparr>up_path = trustPath, up_decision = Some True\<rparr>],
       to_savedPath = Some trustPath\<rparr>] @
     (case trust_parent trustPath of
        Some parentPath \<Rightarrow>
          [\<lparr>to_label = ''Trust parent folder ('' @ parentPath @ '')'', to_trusted = True,
            to_updates = [\<lparr>up_path = parentPath, up_decision = Some True\<rparr>, \<lparr>up_path = trustPath, up_decision = None\<rparr>],
            to_savedPath = Some parentPath\<rparr>]
      | None \<Rightarrow> []) @
     (if sessionOnly
      then [\<lparr>to_label = ''Trust (this session only)'', to_trusted = True, to_updates = [], to_savedPath = None\<rparr>] else []) @
     [\<lparr>to_label = ''Do not trust'', to_trusted = False, to_updates = [\<lparr>up_path = trustPath, up_decision = Some False\<rparr>],
       to_savedPath = Some trustPath\<rparr>] @
     (if sessionOnly
      then [\<lparr>to_label = ''Do not trust (this session only)'', to_trusted = False, to_updates = [], to_savedPath = None\<rparr>]
      else [])"

definition getProjectTrustOptions :: "path_env \<Rightarrow> string \<Rightarrow> bool \<Rightarrow> trust_fault + trust_option list" where
  "getProjectTrustOptions pe cwd sessionOnly =
     (case normalizeCwd pe cwd of Inl e \<Rightarrow> Inl e | Inr p \<Rightarrow> Inr (trust_options_for p sessionOnly))"

section \<open>The file\<close>

fun trust_value :: "json \<Rightarrow> bool option option" where
  "trust_value (JBool b) = Some (Some b)"
| "trust_value JNull = Some None"
| "trust_value _ = None"

fun trust_data_of :: "(string \<times> json) list \<Rightarrow> trust_data \<Rightarrow> trust_fault + trust_data" where
  "trust_data_of [] data = Inr data"
| "trust_data_of ((key, value) # entries) data =
     (case trust_value value of
        None \<Rightarrow> Inl (BadStoreValue key)
      | Some v \<Rightarrow> trust_data_of entries (jm_set key v data))"

text \<open>\<open>readable\<close>: reading an existing file succeeds.\<close>

definition readTrustFile :: "bool \<Rightarrow> file_text option \<Rightarrow> trust_fault + trust_data" where
  "readTrustFile readable file =
     (case file of
        None \<Rightarrow> Inr []
      | Some t \<Rightarrow>
          if \<not> readable then Inl UnreadableStore
          else (case t of
                  JsonText (JObj entries) \<Rightarrow> trust_data_of entries []
                | JsonText _ \<Rightarrow> Inl StoreNoObject
                | _ \<Rightarrow> Inl UnreadableStore))"

definition trust_json :: "bool option \<Rightarrow> json" where
  "trust_json v = (case v of Some b \<Rightarrow> JBool b | None \<Rightarrow> JNull)"

text \<open>\<open>failed\<close>: writing threw, and this is what it left.\<close>

definition writeTrustFile :: "file_text option option \<Rightarrow> trust_data \<Rightarrow> (trust_fault + unit) \<times> file_text option" where
  "writeTrustFile failed data =
     (case failed of
        Some left \<Rightarrow> (Inl StoreNotWritten, left)
      | None \<Rightarrow> (Inr (), Some (JsonText (JObj (map (\<lambda>(k, v). (k, trust_json v)) (sort_key fst data))))))"

section \<open>The lock\<close>

text \<open>One attempt: the lock, somebody else's lock, or another error.\<close>

datatype lock_try = Acquired | Elocked | LockError string

function acquire_from :: "(nat \<Rightarrow> lock_try) \<Rightarrow> nat \<Rightarrow> trust_fault + nat" where
  "acquire_from tries attempt =
     (case tries attempt of
        Acquired \<Rightarrow> Inr attempt
      | LockError m \<Rightarrow> Inl (LockRefused m)
      | Elocked \<Rightarrow> if attempt \<ge> 10 then Inl (LockRefused ''ELOCKED'') else acquire_from tries (Suc attempt))"
  by pat_completeness auto
termination
  by (relation "measure (\<lambda>(tries, attempt). 10 - attempt)") auto

declare acquire_from.simps [simp del]

definition acquireTrustLockSync :: "(nat \<Rightarrow> lock_try) \<Rightarrow> trust_fault + nat" where
  "acquireTrustLockSync tries = acquire_from tries 1"

text \<open>What the file system does during one access of the store.\<close>

record trust_io =
  io_tries :: "nat \<Rightarrow> lock_try"
  io_readable :: bool
  io_write_failed :: "file_text option option"

text \<open>The lock is released whatever happens inside; \<open>fn\<close> gives its result and the file it leaves.\<close>

definition withTrustFileLock ::
  "trust_io \<Rightarrow> (file_text option \<Rightarrow> (trust_fault + 'a) \<times> file_text option) \<Rightarrow> file_text option \<Rightarrow>
     (trust_fault + 'a) \<times> file_text option" where
  "withTrustFileLock io fn file =
     (case acquireTrustLockSync (io_tries io) of Inl e \<Rightarrow> (Inl e, file) | Inr _ \<Rightarrow> fn file)"

section \<open>The store\<close>

definition getTrustEntry :: "path_env \<Rightarrow> trust_io \<Rightarrow> string \<Rightarrow> file_text option \<Rightarrow> (trust_fault + trust_entry option) \<times> file_text option" where
  "getTrustEntry pe io cwd =
     withTrustFileLock io (\<lambda>file.
       ((case readTrustFile (io_readable io) file of Inl e \<Rightarrow> Inl e | Inr data \<Rightarrow> findNearestTrustEntry pe data cwd), file))"

definition trust_get :: "path_env \<Rightarrow> trust_io \<Rightarrow> string \<Rightarrow> file_text option \<Rightarrow> (trust_fault + bool option) \<times> file_text option" where
  "trust_get pe io cwd file =
     (let (r, file1) = getTrustEntry pe io cwd file in
      ((case r of Inl e \<Rightarrow> Inl e | Inr entry \<Rightarrow> Inr (map_option te_decision entry)), file1))"

fun apply_updates :: "path_env \<Rightarrow> trust_update list \<Rightarrow> trust_data \<Rightarrow> trust_fault + trust_data" where
  "apply_updates pe [] data = Inr data"
| "apply_updates pe (u # us) data =
     (case normalizeCwd pe (up_path u) of
        Inl e \<Rightarrow> Inl e
      | Inr key \<Rightarrow>
          apply_updates pe us
            (if up_decision u = None then jm_delete key data else jm_set key (up_decision u) data))"

definition setMany :: "path_env \<Rightarrow> trust_io \<Rightarrow> trust_update list \<Rightarrow> file_text option \<Rightarrow> (trust_fault + unit) \<times> file_text option" where
  "setMany pe io decisions =
     withTrustFileLock io (\<lambda>file.
       case readTrustFile (io_readable io) file of
         Inl e \<Rightarrow> (Inl e, file)
       | Inr data \<Rightarrow>
           (case apply_updates pe decisions data of
              Inl e \<Rightarrow> (Inl e, file)
            | Inr data1 \<Rightarrow> writeTrustFile (io_write_failed io) data1))"

definition trust_set :: "path_env \<Rightarrow> trust_io \<Rightarrow> string \<Rightarrow> bool option \<Rightarrow> file_text option \<Rightarrow> (trust_fault + unit) \<times> file_text option" where
  "trust_set pe io cwd decision = setMany pe io [\<lparr>up_path = cwd, up_decision = decision\<rparr>]"

section \<open>What needs trust\<close>

definition TRUST_REQUIRING_PROJECT_CONFIG_RESOURCES :: "string list" where
  "TRUST_REQUIRING_PROJECT_CONFIG_RESOURCES =
     [''settings.json'', ''extensions'', ''skills'', ''prompts'', ''themes'', ''SYSTEM.md'', ''APPEND_SYSTEM.md'']"




definition agents_skills :: "string \<Rightarrow> string" where
  "agents_skills dir = join_abs (join_abs dir ''.agents'') ''skills''"

function skills_above :: "(string \<Rightarrow> bool) \<Rightarrow> string \<Rightarrow> string \<Rightarrow> bool" where
  "skills_above exists userAgentsSkillsDir currentDir \<longleftrightarrow>
     (if agents_skills currentDir \<noteq> userAgentsSkillsDir \<and> exists (agents_skills currentDir) then True
      else if dirname currentDir = currentDir then False
      else skills_above exists userAgentsSkillsDir (dirname currentDir))"
  by pat_completeness auto
termination
  by (relation "measure (\<lambda>(x, u, p). path_height p)") (auto intro: dirname_lower)

declare skills_above.simps [simp del]

definition hasTrustRequiringProjectResources :: "path_env \<Rightarrow> (string \<Rightarrow> bool) \<Rightarrow> string \<Rightarrow> trust_fault + bool" where
  "hasTrustRequiringProjectResources pe exists cwd =
     (case (normalizeCwd pe (case truthy_str (pe_HOME pe) of Some h \<Rightarrow> h | None \<Rightarrow> pe_home pe), normalizeCwd pe cwd) of
        (Inr homeDir, Inr currentDir) \<Rightarrow>
          Inr ((\<exists>entry \<in> set TRUST_REQUIRING_PROJECT_CONFIG_RESOURCES.
                  exists (join_abs (join_abs currentDir CONFIG_DIR_NAME) entry)) \<or>
               skills_above exists (agents_skills homeDir) currentDir)
      | _ \<Rightarrow> Inl BadPath)"

text \<open>
  What the decision depends on besides the world: \<open>pt_io\<close> is what the file system does at the accesses to
  the store, \<open>pt_select\<close> the answer of the user to a question with its choices.
\<close>

type_synonym 's trust_world = "file_text option \<times> 's"

record 's trust_request =
  pt_cwd :: string
  pt_override :: "bool option"
  pt_default :: json
  pt_extensions :: "'s trust_world extension list option"
  pt_hasUI :: bool
  pt_exists :: "string \<Rightarrow> bool"
  pt_io :: "'s trust_world \<Rightarrow> trust_io"
  pt_select :: "string \<Rightarrow> string list \<Rightarrow> 's trust_world \<Rightarrow> string option \<times> 's trust_world"

definition formatProjectTrustPrompt :: "string \<Rightarrow> string" where
  "formatProjectTrustPrompt cwd =
     ''Trust project folder?'' @ nl @ cwd @ nl @ nl @ ''This allows pi to load '' @ CONFIG_DIR_NAME @
     '' settings and resources, install missing project packages, and execute project extensions.''"

definition selectProjectTrustOption ::
  "path_env \<Rightarrow> 's trust_request \<Rightarrow> 's trust_world \<Rightarrow> (trust_fault + trust_option option) \<times> 's trust_world" where
  "selectProjectTrustOption pe rq w =
     (case getProjectTrustOptions pe (pt_cwd rq) True of
        Inl e \<Rightarrow> (Inl e, w)
      | Inr options \<Rightarrow>
          (let (selected, w1) = pt_select rq (formatProjectTrustPrompt (pt_cwd rq)) (map to_label options) w in
           (Inr (List.find (\<lambda>option. Some (to_label option) = selected) options), w1)))"

definition saveProjectTrustPromptResult ::
  "path_env \<Rightarrow> 's trust_request \<Rightarrow> trust_option \<Rightarrow> 's trust_world \<Rightarrow> (trust_fault + unit) \<times> 's trust_world" where
  "saveProjectTrustPromptResult pe rq result w =
     (if to_updates result = [] then (Inr (), w)
      else (let (r, file) = setMany pe (pt_io rq w) (to_updates result) (fst w) in (r, (file, snd w))))"

text \<open>A decision of an extension, remembered if it says so.\<close>

definition extension_decides ::
  "path_env \<Rightarrow> 's trust_request \<Rightarrow> trust_result \<Rightarrow> 's trust_world \<Rightarrow> (trust_fault + bool) \<times> 's trust_world" where
  "extension_decides pe rq result w =
     (let trusted = (tu_trusted result = TrustYes) in
      if tu_remember result
      then (let (r, file) = trust_set pe (pt_io rq w) (pt_cwd rq) (Some trusted) (fst w) in
            ((case r of Inl e \<Rightarrow> Inl e | Inr _ \<Rightarrow> Inr trusted), (file, snd w)))
      else (Inr trusted, w))"

definition user_decides :: "path_env \<Rightarrow> 's trust_request \<Rightarrow> 's trust_world \<Rightarrow> (trust_fault + bool) \<times> 's trust_world" where
  "user_decides pe rq w =
     (case selectProjectTrustOption pe rq w of
        (Inl e, w1) \<Rightarrow> (Inl e, w1)
      | (Inr None, w1) \<Rightarrow> (Inr False, w1)
      | (Inr (Some selected), w1) \<Rightarrow>
          (case saveProjectTrustPromptResult pe rq selected w1 of
             (Inl e, w2) \<Rightarrow> (Inl e, w2)
           | (Inr _, w2) \<Rightarrow> (Inr (to_trusted selected), w2)))"

definition stored_or_default :: "path_env \<Rightarrow> 's trust_request \<Rightarrow> 's trust_world \<Rightarrow> (trust_fault + bool) \<times> 's trust_world" where
  "stored_or_default pe rq w =
     (case trust_get pe (pt_io rq w) (pt_cwd rq) (fst w) of
        (Inl e, file) \<Rightarrow> (Inl e, (file, snd w))
      | (Inr (Some decision), file) \<Rightarrow> (Inr decision, (file, snd w))
      | (Inr None, file) \<Rightarrow>
          (if pt_default rq = JStr ''always'' then (Inr True, (file, snd w))
           else if pt_default rq = JStr ''never'' then (Inr False, (file, snd w))
           else if \<not> pt_hasUI rq then (Inr False, (file, snd w))
           else user_decides pe rq (file, snd w)))"

definition extension_warning :: "extension_error \<Rightarrow> string" where
  "extension_warning e =
     ''Extension \"'' @ er_extensionPath e @ ''\" project_trust error: '' @ er_error e"

definition resolveProjectTrusted ::
  "path_env \<Rightarrow> 's trust_request \<Rightarrow> 's trust_world \<Rightarrow> (trust_fault + bool) \<times> string list \<times> 's trust_world" where
  "resolveProjectTrusted pe rq w =
     (case pt_override rq of
        Some trusted \<Rightarrow> (Inr trusted, [], w)
      | None \<Rightarrow>
     (case hasTrustRequiringProjectResources pe (pt_exists rq) (pt_cwd rq) of
        Inl e \<Rightarrow> (Inl e, [], w)
      | Inr needs \<Rightarrow>
          if \<not> needs then (Inr True, [], w)
          else (case pt_extensions rq of
                  None \<Rightarrow> (let (r, w1) = stored_or_default pe rq w in (r, [], w1))
                | Some exts \<Rightarrow>
                    (case emitProjectTrustEvent exts (pt_cwd rq) w of
                       (Some result, errs, w1) \<Rightarrow>
                         (let (r, w2) = extension_decides pe rq result w1 in (r, map extension_warning errs, w2))
                     | (None, errs, w1) \<Rightarrow>
                         (let (r, w2) = stored_or_default pe rq w1 in (r, map extension_warning errs, w2))))))"

end
