(* ===== verification/Trust_Properties.thy ===== *)
theory Trust_Properties
  imports Project_Trust
begin

text \<open>
  What the trust store promises: the nearest decision counts, a choice of the user is what is read
  afterwards and concerns no directory outside the one it was made for, and a project is trusted only
  where a person, an extension or a setting said so.
\<close>

text \<open>
  Canonical paths as lists of segments, the walk to the parents as a search over prefixes, and what a
  write of the trust file leaves to read.
\<close>

section \<open>The environment\<close>

text \<open>
  What \<open>realpath\<close> and \<open>process.cwd\<close> are documented to give: absolute paths, and a real path is resolved,
  with all its parents.
\<close>

definition posix_env :: "path_env \<Rightarrow> bool" where
  "posix_env pe \<longleftrightarrow> is_absolute (pe_cwd pe) \<and>
     (\<forall>p q. pe_real pe p = Some q \<longrightarrow>
        (\<exists>segs. (\<forall>s \<in> set segs. segment s) \<and> q = show_segments segs \<and>
           (\<forall>n. pe_real pe (show_segments (take n segs)) = Some (show_segments (take n segs)))))"

lemma normalizeCwd_shown:
  assumes "posix_env pe" and "\<forall>s \<in> set segs. segment s"
  shows "normalizeCwd pe (show_segments segs) = Inr (canonicalizePath pe (show_segments segs))"
  using assms
  by (simp add: normalizeCwd_def resolvePath_def normalizePath_absolute absolute_shown posix_env_def resolve1_def
      abs_segments_def norm_shown)

lemma normalizeCwd_canonical:
  assumes "posix_env pe" and "normalizeCwd pe cwd = Inr p"
  obtains segs where "\<forall>s \<in> set segs. segment s" and "p = show_segments segs"
proof -
  from assms(2) obtain q where q: "resolvePath pe cwd (pe_cwd pe) plain_options = Some q" "p = canonicalizePath pe q"
    by (auto simp: normalizeCwd_def split: option.splits)
  obtain segs where segs: "\<forall>s \<in> set segs. segment s" "q = show_segments segs"
  proof -
    from q(1) consider x where "q = show_segments (abs_segments (pe_cwd pe) x)"
      | x y where "q = show_segments (resolve2_segments (pe_cwd pe) y x)"
      by (auto simp: resolvePath_def resolve1_def resolve2_def split: option.splits if_splits)
    then show thesis by cases (use that abs_segments_valid resolve2_segments_valid in blast)+
  qed
  show thesis
  proof (cases "pe_real pe q")
    case None
    with q segs that show ?thesis by (simp add: canonicalizePath_def)
  next
    case (Some r)
    with assms(1) obtain rs where "\<forall>s \<in> set rs. segment s" "r = show_segments rs" by (auto simp: posix_env_def)
    with Some q that show ?thesis by (simp add: canonicalizePath_def)
  qed
qed

text \<open>An existing directory and its parents are found again under their own names.\<close>

lemma normalizeCwd_again:
  assumes "posix_env pe" and "pe_real pe p = Some p"
  shows "normalizeCwd pe p = Inr p" "normalizeCwd pe (dirname p) = Inr (dirname p)"
proof -
  from assms obtain segs where segs: "\<forall>s \<in> set segs. segment s" "p = show_segments segs"
      "\<And>n. pe_real pe (show_segments (take n segs)) = Some (show_segments (take n segs))"
    by (auto simp: posix_env_def)
  have "normalizeCwd pe (show_segments (take n segs)) = Inr (show_segments (take n segs))" for n
    using normalizeCwd_shown [OF assms(1), of "take n segs"] segs(1,3) by (auto simp: canonicalizePath_def dest: in_set_takeD)
  from this [of "length segs"] this [of "length segs - 1"] segs(1,2)
  show "normalizeCwd pe p = Inr p" "normalizeCwd pe (dirname p) = Inr (dirname p)"
    by (simp_all add: dirname_shown butlast_conv_take)
qed

section \<open>The nearest decision\<close>

lemma nearest_shown:
  assumes "\<forall>s \<in> set segs. segment s"
  shows "nearest_from data (show_segments segs) =
    (case jm_get data (show_segments segs) of
       Some (Some v) \<Rightarrow> Some \<lparr>te_path = show_segments segs, te_decision = v\<rparr>
     | _ \<Rightarrow> if segs = [] then None else nearest_from data (show_segments (butlast segs)))"
proof -
  have "show_segments (butlast segs) = show_segments segs \<longleftrightarrow> segs = []"
  proof
    assume "show_segments (butlast segs) = show_segments segs"
    then have "butlast segs = segs" using assms by (intro show_segments_inj) (auto dest: in_set_butlastD)
    then have "length segs - 1 = length segs" by (metis length_butlast)
    then show "segs = []" by (cases segs) auto
  qed simp
  then show ?thesis
    by (subst nearest_from.simps) (simp add: dirname_shown [OF assms] split: option.split)
qed

lemma nearest_local:
  assumes "\<forall>s \<in> set segs. segment s"
    and "\<And>n. n \<le> length segs \<Longrightarrow> jm_get data (show_segments (take n segs)) = jm_get data1 (show_segments (take n segs))"
  shows "nearest_from data (show_segments segs) = nearest_from data1 (show_segments segs)"
  using assms
proof (induction segs rule: rev_induct)
  case Nil
  from Nil(2) [of 0] show ?case by (simp add: nearest_shown)
next
  case (snoc s segs)
  have e: "jm_get data (show_segments (segs @ [s])) = jm_get data1 (show_segments (segs @ [s]))"
    using snoc.prems(2) [of "length (segs @ [s])"] by simp
  have "jm_get data (show_segments (take n segs)) = jm_get data1 (show_segments (take n segs))" if "n \<le> length segs" for n
    using snoc.prems(2) [of n] that by simp
  with snoc.IH snoc.prems(1) have "nearest_from data (show_segments segs) = nearest_from data1 (show_segments segs)" by simp
  with e show ?case
    by (simp add: nearest_shown [OF snoc.prems(1)] split: option.split)
qed

section \<open>Reading what was written\<close>

lemma trust_data_distinct:
  "trust_data_of entries data = Inr data1 \<Longrightarrow> distinct (map fst data) \<Longrightarrow> distinct (map fst data1)"
  by (induction entries data rule: trust_data_of.induct) (auto split: option.splits simp: jm_set_distinct)

lemma readTrustFile_distinct: "readTrustFile readable file = Inr data \<Longrightarrow> distinct (map fst data)"
  by (auto simp: readTrustFile_def dest: trust_data_distinct split: option.splits file_text.splits json.splits if_splits)

lemma apply_updates_distinct:
  "apply_updates pe us data = Inr data1 \<Longrightarrow> distinct (map fst data) \<Longrightarrow> distinct (map fst data1)"
  by (induction us arbitrary: data) (auto split: sum.splits if_splits simp: jm_set_distinct jm_delete_distinct)

lemma trust_value_json: "trust_value (trust_json v) = Some v"
  by (cases v) (simp_all add: trust_json_def)

lemma trust_data_of_json:
  "distinct (map fst (acc @ xs)) \<Longrightarrow> trust_data_of (map (\<lambda>(k, v). (k, trust_json v)) xs) acc = Inr (acc @ xs)"
proof (induction xs arbitrary: acc)
  case (Cons x xs)
  obtain k v where x: "x = (k, v)" by (cases x)
  with Cons.prems have "jm_get acc k = None" by (auto simp: map_of_eq_None_iff)
  with Cons x show ?case by (simp add: trust_value_json jm_set_fresh)
qed simp

lemma read_written:
  assumes "distinct (map fst data)" and "writeTrustFile None data = (r, file)"
  shows "readTrustFile True file = Inr (sort_key fst data)" "jm_get (sort_key fst data) = jm_get data"
proof -
  have d: "distinct (map fst (sort_key fst data))" using assms(1) by (simp add: distinct_map)
  with assms(2) trust_data_of_json [of "[]" "sort_key fst data"] show "readTrustFile True file = Inr (sort_key fst data)"
    by (auto simp: writeTrustFile_def readTrustFile_def)
  show "jm_get (sort_key fst data) = jm_get data"
    using d assms(1) by (intro map_of_inject_set [THEN iffD2]) simp_all
qed

section \<open>The store\<close>

lemma acquire_from_tries:
  "acquire_from tries attempt = Inr n \<longleftrightarrow>
     attempt \<le> n \<and> (n \<le> 10 \<or> n = attempt) \<and> tries n = Acquired \<and> (\<forall>k. attempt \<le> k \<and> k < n \<longrightarrow> tries k = Elocked)"
proof (induction tries attempt rule: acquire_from.induct)
  case (1 tries attempt)
  show ?case
  proof (cases "tries attempt = Elocked \<and> attempt < 10")
    case True
    then have "acquire_from tries attempt = acquire_from tries (Suc attempt)"
      by (subst acquire_from.simps) simp
    moreover have "(\<forall>k. attempt \<le> k \<and> k < n \<longrightarrow> tries k = Elocked) \<longleftrightarrow> (\<forall>k. Suc attempt \<le> k \<and> k < n \<longrightarrow> tries k = Elocked)"
      using True by (metis Suc_leD le_antisym not_less_eq_eq)
    moreover have "n \<noteq> attempt" if "tries n = Acquired" using that True by auto
    ultimately show ?thesis using 1 True by (auto simp: Suc_le_eq)
  next
    case False
    have "(tries n = Acquired \<and> attempt \<le> n \<and> (n \<le> 10 \<or> n = attempt) \<and> (\<forall>k. attempt \<le> k \<and> k < n \<longrightarrow> tries k = Elocked))
        \<longleftrightarrow> tries attempt = Acquired \<and> n = attempt"
      using False by (metis le_antisym le_neq_implies_less less_le_trans linorder_not_le lock_try.distinct(1) order_refl)
    with False show ?thesis
      by (subst acquire_from.simps) (auto split: lock_try.split)
  qed
qed

lemma setMany_left:
  assumes "setMany pe io us file = (Inr (), file1)"
  obtains data data1 data2 where "readTrustFile True file = Inr data" and "apply_updates pe us data = Inr data1"
    and "readTrustFile True file1 = Inr data2" and "jm_get data2 = jm_get data1"
proof -
  from assms obtain data data1 where d: "readTrustFile (io_readable io) file = Inr data" "apply_updates pe us data = Inr data1"
      "writeTrustFile (io_write_failed io) data1 = (Inr (), file1)"
    by (auto simp: setMany_def withTrustFileLock_def split: sum.splits)
  then have "io_write_failed io = None" by (auto simp: writeTrustFile_def split: option.splits)
  moreover have "distinct (map fst data1)" using d readTrustFile_distinct apply_updates_distinct by blast
  moreover have "readTrustFile True file = Inr data" using d(1) by (auto simp: readTrustFile_def split: option.splits if_splits)
  ultimately show thesis using that d read_written [of data1 "Inr ()" file1] by simp
qed

lemma trust_get_reads:
  assumes "acquireTrustLockSync (io_tries io) = Inr n" and "io_readable io" and "readTrustFile True file = Inr data"
    and "normalizeCwd pe cwd = Inr p"
  shows "fst (trust_get pe io cwd file) = Inr (map_option te_decision (nearest_from data p))"
  using assms by (simp add: trust_get_def getTrustEntry_def withTrustFileLock_def findNearestTrustEntry_def)

lemma nearest_now: "jm_get data p = Some (Some v) \<Longrightarrow> nearest_from data p = Some \<lparr>te_path = p, te_decision = v\<rparr>"
  by (subst nearest_from.simps) simp

lemma nearest_of_parent:
  "jm_get data p = None \<Longrightarrow> dirname p \<noteq> p \<Longrightarrow> nearest_from data p = nearest_from data (dirname p)"
  by (subst nearest_from.simps) simp

lemma option_updates:
  assumes "posix_env pe" and "normalizeCwd pe cwd = Inr p" and "pe_real pe p = Some p"
    and "getProjectTrustOptions pe cwd sessionOnly = Inr options" and "option \<in> set options" and "to_updates option \<noteq> []"
    and "apply_updates pe (to_updates option) data = Inr data1"
  shows "nearest_from data1 p = Some \<lparr>te_path = the (to_savedPath option), te_decision = to_trusted option\<rparr>"
    and "to_savedPath option = Some saved \<Longrightarrow> \<not> within_dir k saved \<Longrightarrow> jm_get data1 k = jm_get data k"
proof -
  note again = normalizeCwd_again [OF assms(1,3)]
  obtain ps where ps: "\<forall>s \<in> set ps. segment s" "p = show_segments ps" using normalizeCwd_canonical [OF assms(1,2)] by metis
  have up: "within_dir p (dirname p)"
    using ps within_segments [of ps "butlast ps"] by (auto simp: dirname_shown prefixeq_butlast dest: in_set_butlastD)
  from assms(2,4,5,6) consider
      (one) "to_updates option = [\<lparr>up_path = p, up_decision = Some (to_trusted option)\<rparr>]" "to_savedPath option = Some p"
    | (parent) "dirname p \<noteq> p" "to_trusted option" "to_savedPath option = Some (dirname p)"
        "to_updates option = [\<lparr>up_path = dirname p, up_decision = Some True\<rparr>, \<lparr>up_path = p, up_decision = None\<rparr>]"
    by (auto simp: getProjectTrustOptions_def trust_options_for_def trust_parent_def split: if_splits option.splits)
  note cases = this
  show "nearest_from data1 p = Some \<lparr>te_path = the (to_savedPath option), te_decision = to_trusted option\<rparr>"
  proof (cases rule: cases)
    case one
    with assms(7) again have "data1 = jm_set p (Some (to_trusted option)) data" by simp
    with one show ?thesis by (simp add: nearest_now jm_get_set)
  next
    case parent
    with assms(7) again have "data1 = jm_delete p (jm_set (dirname p) (Some True) data)" by simp
    with parent show ?thesis
      by (simp add: nearest_of_parent jm_get_delete nearest_now jm_get_set)
  qed
  assume saved: "to_savedPath option = Some saved" "\<not> within_dir k saved"
  have self: "within_dir q q" for q by (simp add: within_dir_def)
  show "jm_get data1 k = jm_get data k"
  proof (cases rule: cases)
    case one
    with assms(7) again saved self [of p] show ?thesis by (auto simp: jm_get_set)
  next
    case parent
    with assms(7) again saved self [of "dirname p"] up show ?thesis by (auto simp: jm_get_set jm_get_delete)
  qed
qed

lemma within_dir_trans: "within_dir a b \<Longrightarrow> within_dir b c \<Longrightarrow> within_dir a c"
  unfolding within_dir_def
  by (auto simp: prefix_def split: if_splits)

text \<open>
  C29. A choice of the user that is not for the session only is what the store answers for that directory
  afterwards, whatever the file said before; directories outside the one the choice was saved for get the
  answer they got before.
\<close>

theorem trust_choice_is_remembered:
  assumes "posix_env pe" and "normalizeCwd pe cwd = Inr p" and "pe_real pe p = Some p"
    and "getProjectTrustOptions pe cwd sessionOnly = Inr options" and "option \<in> set options" and "to_updates option \<noteq> []"
    and "setMany pe io (to_updates option) file = (Inr (), file1)"
    and "acquireTrustLockSync (io_tries io1) = Inr n" and "io_readable io1"
  shows "fst (trust_get pe io1 cwd file1) = Inr (Some (to_trusted option)) \<and>
    (\<forall>d q saved. normalizeCwd pe d = Inr q \<and> to_savedPath option = Some saved \<and> \<not> within_dir q saved \<longrightarrow>
       fst (trust_get pe io1 d file1) = fst (trust_get pe io1 d file))"
proof -
  from setMany_left [OF assms(7)] obtain data data1 data2 where d: "readTrustFile True file = Inr data"
      "apply_updates pe (to_updates option) data = Inr data1" "readTrustFile True file1 = Inr data2" "jm_get data2 = jm_get data1" .
  note upd = option_updates [OF assms(1-6) d(2)]
  have same: "nearest_from data2 (show_segments segs) = nearest_from data1 (show_segments segs)" if "\<forall>s \<in> set segs. segment s" for segs
    by (rule nearest_local [OF that]) (simp add: d(4))
  obtain ps where ps: "\<forall>s \<in> set ps. segment s" "p = show_segments ps" using normalizeCwd_canonical [OF assms(1,2)] .
  have "fst (trust_get pe io1 cwd file1) = Inr (Some (to_trusted option))"
    using trust_get_reads [OF assms(8,9) d(3) assms(2)] same [OF ps(1)] upd(1) by (simp add: ps(2))
  moreover have "fst (trust_get pe io1 dir file1) = fst (trust_get pe io1 dir file)"
    if q: "normalizeCwd pe dir = Inr q" and saved: "to_savedPath option = Some saved" "\<not> within_dir q saved" for dir q saved
  proof -
    obtain qs where qs: "\<forall>s \<in> set qs. segment s" "q = show_segments qs" using normalizeCwd_canonical [OF assms(1) q] .
    have up: "within_dir q (show_segments (take k qs))" for k
      using qs within_segments [of qs "take k qs"] by (auto simp: take_is_prefix dest: in_set_takeD)
    have "\<not> within_dir (show_segments (take k qs)) saved" for k
      using saved(2) up [of k] within_dir_trans by blast
    with upd(2) [OF saved(1)] have "jm_get data2 (show_segments (take k qs)) = jm_get data (show_segments (take k qs))" for k
      by (simp add: d(4))
    with nearest_local [OF qs(1), of data2 data] have "nearest_from data2 q = nearest_from data q" by (simp add: qs(2))
    with trust_get_reads [OF assms(8,9) d(3) q] trust_get_reads [OF assms(8,9) d(1) q] show ?thesis by simp
  qed
  ultimately show ?thesis by blast
qed

text \<open>Directories \<open>/\<close>, \<open>/a\<close> and \<open>/a/b\<close>, and a store whose lock is free.\<close>

definition small_env :: path_env where
  "small_env = \<lparr>pe_cwd = ''/a/b'', pe_home = ''/a'', pe_HOME = None, pe_file_url = (\<lambda>_. None),
     pe_real = (\<lambda>p. if p \<in> {''/'', ''/a'', ''/a/b''} then Some p else None)\<rparr>"

definition free_io :: trust_io where
  "free_io = \<lparr>io_tries = (\<lambda>_. Acquired), io_readable = True, io_write_failed = None\<rparr>"

lemma small_env_posix: "posix_env small_env"
proof -
  have "\<exists>segs. (\<forall>s \<in> set segs. segment s) \<and> q = show_segments segs \<and>
      (\<forall>n. pe_real small_env (show_segments (take n segs)) = Some (show_segments (take n segs)))"
    if "q \<in> {''/'', ''/a'', ''/a/b''}" for q
  proof -
    have seg: "segment ''a''" "segment ''b''" by (simp_all add: segment_def)
    have real: "pe_real small_env (show_segments (take n [''a'', ''b''])) = Some (show_segments (take n [''a'', ''b'']))" for n
      by (cases n; cases "n - 1") (auto simp: small_env_def show_segments_def)
    from that consider "q = show_segments (take 0 [''a'', ''b''])" | "q = show_segments (take 1 [''a'', ''b''])"
      | "q = show_segments (take 2 [''a'', ''b''])" by (auto simp: show_segments_def)
    then obtain k where "q = show_segments (take k [''a'', ''b''])" by metis
    with seg real show ?thesis
      by (intro exI [of _ "take k [''a'', ''b'']"]) (auto simp: take_take dest: in_set_takeD)
  qed
  moreover have "is_absolute (pe_cwd small_env)" by (simp add: small_env_def is_absolute_def)
  ultimately show ?thesis by (auto simp: posix_env_def small_env_def split: if_splits)
qed

lemma small_cwd: "normalizeCwd small_env ''/a/b'' = Inr ''/a/b''"
  by code_simp

definition parent_choice :: trust_option where
  "parent_choice = \<lparr>to_label = ''Trust parent folder (/a)'', to_trusted = True,
     to_updates = [\<lparr>up_path = ''/a'', up_decision = Some True\<rparr>, \<lparr>up_path = ''/a/b'', up_decision = None\<rparr>], to_savedPath = Some ''/a''\<rparr>"

text \<open>The directory itself had been refused before its parent was trusted.\<close>

theorem trust_choice_is_remembered_witness:
  "fst (trust_get small_env free_io ''/a/b''
     (snd (setMany small_env free_io (to_updates parent_choice) (Some (JsonText (JObj [(''/a/b'', JBool False)])))))) = Inr (Some True)"
proof -
  let ?file = "Some (JsonText (JObj [(''/a/b'', JBool False)]))"
  obtain options where o: "getProjectTrustOptions small_env ''/a/b'' False = Inr options" "parent_choice \<in> set options"
  proof -
    have d: "dirname ''/a/b'' = ''/a''" by code_simp
    show thesis
      by (rule that [of "trust_options_for ''/a/b'' False"])
        (simp_all add: getProjectTrustOptions_def small_cwd trust_options_for_def trust_parent_def d parent_choice_def)
  qed
  have s: "setMany small_env free_io (to_updates parent_choice) ?file = (Inr (), snd (setMany small_env free_io (to_updates parent_choice) ?file))"
    by code_simp
  have "acquireTrustLockSync (io_tries free_io) = Inr 1" by (simp add: acquireTrustLockSync_def acquire_from.simps free_io_def)
  with trust_choice_is_remembered [OF small_env_posix small_cwd _ o _ s, of free_io 1] show ?thesis
    by (simp add: small_env_def parent_choice_def free_io_def)
qed

section \<open>The decision\<close>

lemma user_trusts:
  assumes "user_decides pe rq w2 = (Inr True, w4)"
  shows "\<exists>options option w3. getProjectTrustOptions pe (pt_cwd rq) True = Inr options \<and> option \<in> set options \<and> to_trusted option \<and>
      fst (pt_select rq (formatProjectTrustPrompt (pt_cwd rq)) (map to_label options) w3) = Some (to_label option)"
proof -
  from assms obtain selected w3 where s: "selectProjectTrustOption pe rq w2 = (Inr (Some selected), w3)" "to_trusted selected"
    by (auto simp: user_decides_def split: prod.splits sum.splits option.splits)
  then obtain options where o: "getProjectTrustOptions pe (pt_cwd rq) True = Inr options"
    by (auto simp: selectProjectTrustOption_def split: sum.splits)
  let ?answer = "fst (pt_select rq (formatProjectTrustPrompt (pt_cwd rq)) (map to_label options) w2)"
  have f: "List.find (\<lambda>option. Some (to_label option) = ?answer) options = Some selected"
    using s(1) o by (simp add: selectProjectTrustOption_def split_beta)
  then have "selected \<in> set options" "?answer = Some (to_label selected)"
    by (auto simp: find_Some_iff)
  with s(2) o show ?thesis by blast
qed

text \<open>Where no extension decides: the nearest decision of the store, the default, or the answer of the user.\<close>

definition trusted_by_user :: "path_env \<Rightarrow> 's trust_request \<Rightarrow> 's trust_world \<Rightarrow> bool" where
  "trusted_by_user pe rq w \<longleftrightarrow>
     (let stored_decision = fst (trust_get pe (pt_io rq w) (pt_cwd rq) (fst w)) in
      stored_decision = Inr (Some True) \<or>
      stored_decision = Inr None \<and>
        (pt_default rq = JStr ''always'' \<or>
         pt_hasUI rq \<and> pt_default rq \<noteq> JStr ''never'' \<and>
           (\<exists>options option w1. getProjectTrustOptions pe (pt_cwd rq) True = Inr options \<and> option \<in> set options \<and> to_trusted option \<and>
              fst (pt_select rq (formatProjectTrustPrompt (pt_cwd rq)) (map to_label options) w1) = Some (to_label option))))"

lemma stored_or_default_trusts:
  assumes "stored_or_default pe rq w = (Inr True, w1)"
  shows "trusted_by_user pe rq w"
proof (cases "trust_get pe (pt_io rq w) (pt_cwd rq) (fst w)")
  case (Pair r left)
  show ?thesis
  proof (cases "r = Inr None \<and> pt_default rq \<noteq> JStr ''always''")
    case True
    with Pair assms have "pt_default rq \<noteq> JStr ''never''" "pt_hasUI rq" "user_decides pe rq (left, snd w) = (Inr True, w1)"
      by (auto simp: stored_or_default_def split: if_splits)
    with True Pair user_trusts show ?thesis by (simp add: trusted_by_user_def)
  next
    case False
    with Pair assms show ?thesis
      by (auto simp: trusted_by_user_def stored_or_default_def split: sum.splits option.splits)
  qed
qed

text \<open>
  C28. A project whose settings or extensions need trust is trusted only for a reason: the first extension
  that decided said yes, or, where none decided, the store says so for the nearest directory it has a
  decision for, or, where it has none, the user set that projects are always trusted or chose an option that
  trusts. Without a user interface nobody is asked, and a store that cannot be read or locked ends in its
  error, not in trust.
\<close>

theorem trust_has_a_source:
  assumes "resolveProjectTrusted pe rq w = (Inr True, messages, w1)" and "pt_override rq = None"
    and "hasTrustRequiringProjectResources pe (pt_exists rq) (pt_cwd rq) = Inr True"
  shows "case pt_extensions rq of
      None \<Rightarrow> trusted_by_user pe rq w
    | Some exts \<Rightarrow>
        (case emitProjectTrustEvent exts (pt_cwd rq) w of
           (Some r, _, w2) \<Rightarrow> tu_trusted r = TrustYes
         | (None, _, w2) \<Rightarrow> trusted_by_user pe rq w2)"
proof (cases "pt_extensions rq")
  case None
  with assms have "fst (stored_or_default pe rq w) = Inr True" by (simp add: resolveProjectTrusted_def split_beta)
  with None stored_or_default_trusts [of pe rq w] show ?thesis by (cases "stored_or_default pe rq w") simp
next
  case (Some exts)
  obtain d errs w2 where e: "emitProjectTrustEvent exts (pt_cwd rq) w = (d, errs, w2)" by (metis prod_cases3)
  show ?thesis
  proof (cases d)
    case None
    with assms Some e have "fst (stored_or_default pe rq w2) = Inr True" by (simp add: resolveProjectTrusted_def split_beta)
    with Some e None stored_or_default_trusts [of pe rq w2] show ?thesis by (cases "stored_or_default pe rq w2") simp
  next
    case (Some r)
    with assms \<open>pt_extensions rq = Some exts\<close> e have "fst (extension_decides pe rq r w2) = Inr True"
      by (simp add: resolveProjectTrusted_def split_beta)
    then have "tu_trusted r = TrustYes" by (simp add: extension_decides_def split_beta Let_def split: sum.splits if_splits)
    with e Some \<open>pt_extensions rq = Some exts\<close> show ?thesis by simp
  qed
qed

definition printing :: "unit trust_request" where
  "printing = \<lparr>pt_cwd = ''/a/b'', pt_override = None, pt_default = JStr ''ask'', pt_extensions = None, pt_hasUI = False,
     pt_exists = (\<lambda>p. p = ''/a/b/.bittune/extensions''), pt_io = (\<lambda>_. free_io), pt_select = (\<lambda>_ _ w. (None, w))\<rparr>"

text \<open>Printing in a directory below a trusted one.\<close>

theorem trust_has_a_source_witness:
  "fst (trust_get small_env free_io ''/a/b'' (Some (JsonText (JObj [(''/a'', JBool True)])))) = Inr (Some True)"
proof -
  let ?w = "(Some (JsonText (JObj [(''/a'', JBool True)])), ())"
  have "resolveProjectTrusted small_env printing ?w = (Inr True, [], ?w)" by code_simp
  moreover have "hasTrustRequiringProjectResources small_env (pt_exists printing) (pt_cwd printing) = Inr True" by code_simp
  ultimately show ?thesis using trust_has_a_source [of small_env printing ?w "[]" ?w] by (simp add: printing_def trusted_by_user_def Let_def)
qed

end
