(* ===== verification/Prompt_Templates.thy ===== *)
theory Prompt_Templates
  imports Project_Paths Prelude
begin

text \<open>
  \<open>core/prompt-templates.ts\<close> and \<open>utils/frontmatter.ts\<close>: templates of prompts in Markdown files, their
  arguments and the text they expand to. The parser of YAML and the file system are parameters.
\<close>

section \<open>Arguments\<close>

text \<open>The loop over the characters: the arguments so far, the current one and the open quote.\<close>

fun parse_args :: "string list \<Rightarrow> string \<Rightarrow> char option \<Rightarrow> string \<Rightarrow> string list" where
  "parse_args args current inQuote [] = (if current \<noteq> [] then args @ [current] else args)"
| "parse_args args current (Some q) (c # cs) =
     (if c = q then parse_args args current None cs else parse_args args (current @ [c]) (Some q) cs)"
| "parse_args args current None (c # cs) =
     (if c = CHR 0x22 \<or> c = CHR 0x27 then parse_args args current (Some c) cs
      else if is_space c then
        (if current \<noteq> [] then parse_args (args @ [current]) [] None cs else parse_args args current None cs)
      else parse_args args (current @ [c]) None cs)"

definition parseCommandArgs :: "string \<Rightarrow> string list" where
  "parseCommandArgs argsString = parse_args [] [] None argsString"

section \<open>Placeholders\<close>

datatype target = AllArgs | Arg nat

datatype placeholder = WithDefault target string | Slice nat "nat option" | Plain target

definition is_digit :: "char \<Rightarrow> bool" where
  "is_digit c = (let n = of_char c :: nat in 48 \<le> n \<and> n \<le> 57)"

definition decimal :: "string \<Rightarrow> nat" where
  "decimal s = foldl (\<lambda>n c. 10 * n + (of_char c - 48)) 0 s"

text \<open>\<open>\d+\<close>, which is never followed by a digit in these expressions.\<close>

definition digits_at :: "string \<Rightarrow> (nat \<times> string) option" where
  "digits_at s = (if takeWhile is_digit s = [] then None else Some (decimal (takeWhile is_digit s), dropWhile is_digit s))"

definition after :: "string \<Rightarrow> string \<Rightarrow> string option" where
  "after p s = (if prefix p s then Some (drop (length p) s) else None)"

text \<open>\<open>\d+|ARGUMENTS|@\<close>.\<close>

definition target_at :: "string \<Rightarrow> (target \<times> string) option" where
  "target_at s =
     (case digits_at s of
        Some (n, r) \<Rightarrow> Some (Arg n, r)
      | None \<Rightarrow> (case after ''ARGUMENTS'' s of
          Some r \<Rightarrow> Some (AllArgs, r)
        | None \<Rightarrow> map_option (Pair AllArgs) (after ''@'' s)))"

text \<open>The three alternatives of the expression, after the dollar.\<close>

definition default_at :: "string \<Rightarrow> (placeholder \<times> string) option" where
  "default_at s =
     Option.bind (after ''{'' s) (\<lambda>s1. Option.bind (target_at s1) (\<lambda>(t, s2). Option.bind (after '':-'' s2) (\<lambda>s3.
       map_option (\<lambda>rest. (WithDefault t (takeWhile (\<lambda>c. c \<noteq> CHR ''}'') s3), rest))
         (after ''}'' (dropWhile (\<lambda>c. c \<noteq> CHR ''}'') s3)))))"

definition slice_at :: "string \<Rightarrow> (placeholder \<times> string) option" where
  "slice_at s =
     Option.bind (after ''{@:'' s) (\<lambda>s1. Option.bind (digits_at s1) (\<lambda>(n, s2).
       case Option.bind (after '':'' s2) digits_at of
         Some (l, s3) \<Rightarrow> map_option (Pair (Slice n (Some l))) (after ''}'' s3)
       | None \<Rightarrow> map_option (Pair (Slice n None)) (after ''}'' s2)))"

definition placeholder_at :: "string \<Rightarrow> (placeholder \<times> string) option" where
  "placeholder_at s =
     (case default_at s of
        Some r \<Rightarrow> Some r
      | None \<Rightarrow> (case slice_at s of
          Some r \<Rightarrow> Some r
        | None \<Rightarrow> map_option (\<lambda>(t, r). (Plain t, r)) (target_at s)))"

text \<open>\<open>args[n - 1]\<close>: nothing for \<open>n = 0\<close> and past the end.\<close>

definition nth_arg :: "string list \<Rightarrow> nat \<Rightarrow> string option" where
  "nth_arg args n = (if 1 \<le> n \<and> n \<le> length args then Some (args ! (n - 1)) else None)"

fun placeholder_value :: "string list \<Rightarrow> placeholder \<Rightarrow> string" where
  "placeholder_value args (WithDefault AllArgs d) = (if join_with '' '' args \<noteq> [] then join_with '' '' args else d)"
| "placeholder_value args (WithDefault (Arg n) d) = (case truthy_str (nth_arg args n) of Some v \<Rightarrow> v | None \<Rightarrow> d)"
| "placeholder_value args (Slice start (Some l)) = join_with '' '' (take l (drop (start - 1) args))"
| "placeholder_value args (Slice start None) = join_with '' '' (drop (start - 1) args)"
| "placeholder_value args (Plain AllArgs) = join_with '' '' args"
| "placeholder_value args (Plain (Arg n)) = (case nth_arg args n of Some v \<Rightarrow> v | None \<Rightarrow> [])"

lemma after_Some: "after p s = Some r \<longleftrightarrow> s = p @ r"
  by (auto simp: after_def prefix_def)

lemma digits_at_shorter: "digits_at s = Some (n, r) \<Longrightarrow> length r < length s"
proof -
  assume a: "digits_at s = Some (n, r)"
  then have "s = takeWhile is_digit s @ r" "takeWhile is_digit s \<noteq> []" by (auto simp: digits_at_def split: if_splits)
  then show "length r < length s" by (metis append_eq_conv_conj length_append length_greater_0_conv less_add_same_cancel2)
qed

lemma target_at_shorter: "target_at s = Some (t, r) \<Longrightarrow> length r < length s"
  by (auto simp: target_at_def after_Some split: option.splits dest: digits_at_shorter)

lemma placeholder_at_shorter: "placeholder_at s = Some (p, r) \<Longrightarrow> length r < length s"
proof -
  have d: "length r < length s" if "default_at s = Some (p, r)"
  proof -
    from that obtain t s2 s3 where s: "s = ''{'' @ drop 1 s" "target_at (drop 1 s) = Some (t, s2)" "s2 = '':-'' @ s3"
        "dropWhile (\<lambda>c. c \<noteq> CHR ''}'') s3 = ''}'' @ r"
      by (auto simp: default_at_def after_Some bind_eq_Some_conv)
    have "length (dropWhile (\<lambda>c. c \<noteq> CHR ''}'') s3) \<le> length s3" by (rule length_dropWhile_le)
    with s target_at_shorter [OF s(2)] show ?thesis by simp
  qed
  have l: "length r < length s" if "slice_at s = Some (p, r)"
  proof -
    from that obtain s1 n s2 where s: "s = ''{@:'' @ s1" "digits_at s1 = Some (n, s2)"
      and r: "(case Option.bind (after '':'' s2) digits_at of
         Some (l, s3) \<Rightarrow> map_option (Pair (Slice n (Some l))) (after ''}'' s3)
       | None \<Rightarrow> map_option (Pair (Slice n None)) (after ''}'' s2)) = Some (p, r)"
      by (auto simp: slice_at_def after_Some bind_eq_Some_conv)
    have "length r < length s2"
      using r by (auto simp: after_Some bind_eq_Some_conv split: option.splits dest!: digits_at_shorter)
    with s digits_at_shorter [OF s(2)] show ?thesis by simp
  qed
  assume "placeholder_at s = Some (p, r)"
  with d l show ?thesis by (auto simp: placeholder_at_def split: option.splits dest: target_at_shorter)
qed

function substituteArgs :: "string \<Rightarrow> string list \<Rightarrow> string" where
  "substituteArgs [] args = []"
| "substituteArgs (c # cs) args =
     (case (if c = CHR ''$'' then placeholder_at cs else None) of
        Some (p, rest) \<Rightarrow> placeholder_value args p @ substituteArgs rest args
      | None \<Rightarrow> c # substituteArgs cs args)"
  by pat_completeness auto
termination
  by (relation "measure (\<lambda>(s, args). length s)") (auto dest: placeholder_at_shorter split: if_splits)

section \<open>Files\<close>

fun normalizeNewlines :: "string \<Rightarrow> string" where
  "normalizeNewlines [] = []"
| "normalizeNewlines (c # cs) =
     (if c = CHR 0x0D
      then CHR 0x0A # (if cs \<noteq> [] \<and> hd cs = CHR 0x0A then normalizeNewlines (tl cs) else normalizeNewlines cs)
      else c # normalizeNewlines cs)"

definition frontmatter_end :: string where
  "frontmatter_end = CHR 0x0A # ''---''"

definition extractFrontmatter :: "string \<Rightarrow> string option \<times> string" where
  "extractFrontmatter content =
     (let normalized = normalizeNewlines content in
      if \<not> prefix ''---'' normalized then (None, normalized)
      else (case scan_up (\<lambda>i. prefix frontmatter_end (drop i normalized)) 3 (length normalized) of
              None \<Rightarrow> (None, normalized)
            | Some endIndex \<Rightarrow> (Some (take (endIndex - 4) (drop 4 normalized)), trim (drop (endIndex + 4) normalized))))"

text \<open>\<open>yaml\<close> is the parser, \<open>None\<close> where it throws. Only the fields of an object are looked at.\<close>

fun fields_of :: "json \<Rightarrow> (string \<times> json) list" where
  "fields_of (JObj kvs) = kvs"
| "fields_of _ = []"

definition parseFrontmatter :: "(string \<Rightarrow> json option) \<Rightarrow> string \<Rightarrow> ((string \<times> json) list \<times> string) option" where
  "parseFrontmatter yaml content =
     (let (yamlString, md) = extractFrontmatter content in
      case truthy_str yamlString of
        None \<Rightarrow> Some ([], md)
      | Some y \<Rightarrow> map_option (\<lambda>parsed. (fields_of parsed, md)) (yaml y))"

definition stripFrontmatter :: "(string \<Rightarrow> json option) \<Rightarrow> string \<Rightarrow> string option" where
  "stripFrontmatter yaml content = map_option snd (parseFrontmatter yaml content)"

datatype source_scope = UserScope | ProjectSource | TemporaryScope

datatype source_origin = PackageOrigin | TopLevel

record source_info =
  si_path :: string
  si_source :: string
  si_scope :: source_scope
  si_origin :: source_origin
  si_baseDir :: "string option"

definition createSyntheticSourceInfo ::
  "string \<Rightarrow> string \<Rightarrow> source_scope option \<Rightarrow> source_origin option \<Rightarrow> string option \<Rightarrow> source_info" where
  "createSyntheticSourceInfo path source scope origin baseDir =
     \<lparr>si_path = path, si_source = source, si_scope = (case scope of Some s \<Rightarrow> s | None \<Rightarrow> TemporaryScope),
      si_origin = (case origin of Some r \<Rightarrow> r | None \<Rightarrow> TopLevel), si_baseDir = baseDir\<rparr>"

record prompt_template =
  tp_name :: string
  tp_description :: json
  tp_argumentHint :: "json option"
  tp_content :: string
  tp_sourceInfo :: source_info
  tp_filePath :: string

text \<open>What \<open>stat\<close> and a directory say of a name; reading and listing are \<open>None\<close> where they throw.\<close>

datatype file_kind = KindFile | KindDirectory | KindOther

datatype dirent = Entry file_kind | SymbolicLink

record file_system =
  fs_exists :: "string \<Rightarrow> bool"
  fs_stat :: "string \<Rightarrow> file_kind option"
  fs_entries :: "string \<Rightarrow> (string \<times> dirent) list option"
  fs_read :: "string \<Rightarrow> string option"

definition basename :: "string \<Rightarrow> string" where
  "basename p = rev (takeWhile (\<lambda>c. c \<noteq> slash) (dropWhile (\<lambda>c. c = slash) (rev p)))"

definition without_md :: "string \<Rightarrow> string" where
  "without_md name = (if suffix ''.md'' name then take (length name - 3) name else name)"

fun split_lines :: "string \<Rightarrow> string list" where
  "split_lines [] = [[]]"
| "split_lines (c # cs) =
     (case split_lines cs of
        [] \<Rightarrow> [[c]]
      | l # ls \<Rightarrow> if c = CHR 0x0A then [] # l # ls else (c # l) # ls)"

fun json_truthy :: "json option \<Rightarrow> json option" where
  "json_truthy (Some JNull) = None"
| "json_truthy (Some (JBool False)) = None"
| "json_truthy (Some (JInt n)) = (if n = 0 then None else Some (JInt n))"
| "json_truthy (Some (JStr s)) = (if s = [] then None else Some (JStr s))"
| "json_truthy v = v"

definition described :: "(string \<times> json) list \<Rightarrow> string \<Rightarrow> json" where
  "described frontmatter md =
     (case json_truthy (jm_get frontmatter ''description'') of
        Some d \<Rightarrow> d
      | None \<Rightarrow>
          (case List.find (\<lambda>line. trim line \<noteq> []) (split_lines md) of
             Some firstLine \<Rightarrow> JStr (take 60 firstLine @ (if length firstLine > 60 then ''...'' else []))
           | None \<Rightarrow> JStr []))"

definition loadTemplateFromFile ::
  "file_system \<Rightarrow> (string \<Rightarrow> json option) \<Rightarrow> string \<Rightarrow> source_info \<Rightarrow> prompt_template option" where
  "loadTemplateFromFile fs yaml filePath sourceInfo =
     Option.bind (fs_read fs filePath) (\<lambda>rawContent.
       map_option (\<lambda>(frontmatter, md).
         \<lparr>tp_name = without_md (basename filePath), tp_description = described frontmatter md,
          tp_argumentHint = json_truthy (jm_get frontmatter ''argument-hint''), tp_content = md,
          tp_sourceInfo = sourceInfo, tp_filePath = filePath\<rparr>)
       (parseFrontmatter yaml rawContent))"

text \<open>An exception among the entries ends the directory with what was loaded.\<close>

fun load_entries ::
  "file_system \<Rightarrow> (string \<Rightarrow> json option) \<Rightarrow> (string \<Rightarrow> source_info option) \<Rightarrow> string \<Rightarrow> (string \<times> dirent) list \<Rightarrow>
     prompt_template list" where
  "load_entries fs yaml getSourceInfo dir [] = []"
| "load_entries fs yaml getSourceInfo dir ((name, entry) # entries) =
     (let fullPath = join_abs dir name;
          kind = (case entry of Entry k \<Rightarrow> Some k | SymbolicLink \<Rightarrow> fs_stat fs fullPath)
      in if kind = Some KindFile \<and> suffix ''.md'' name
         then (case getSourceInfo fullPath of
                 None \<Rightarrow> []
               | Some info \<Rightarrow>
                   (case loadTemplateFromFile fs yaml fullPath info of Some t \<Rightarrow> [t] | None \<Rightarrow> []) @
                   load_entries fs yaml getSourceInfo dir entries)
         else load_entries fs yaml getSourceInfo dir entries)"

definition loadTemplatesFromDir ::
  "file_system \<Rightarrow> (string \<Rightarrow> json option) \<Rightarrow> (string \<Rightarrow> source_info option) \<Rightarrow> string \<Rightarrow> prompt_template list" where
  "loadTemplatesFromDir fs yaml getSourceInfo dir =
     (if \<not> fs_exists fs dir then []
      else (case fs_entries fs dir of None \<Rightarrow> [] | Some entries \<Rightarrow> load_entries fs yaml getSourceInfo dir entries))"

record load_options =
  lo_cwd :: string
  lo_agentDir :: string
  lo_promptPaths :: "string list"
  lo_includeDefaults :: bool

text \<open>The two \<open>prompts\<close> directories are absolute, so that \<open>resolve(root)\<close> is its normal form.\<close>

definition source_info_of ::
  "file_system \<Rightarrow> string \<Rightarrow> string \<Rightarrow> string \<Rightarrow> source_info option" where
  "source_info_of fs globalPromptsDir projectPromptsDir resolvedPath =
     (if within_dir resolvedPath (show_segments (norm_segments [] globalPromptsDir))
      then Some (createSyntheticSourceInfo resolvedPath ''local'' (Some UserScope) None (Some globalPromptsDir))
      else if within_dir resolvedPath (show_segments (norm_segments [] projectPromptsDir))
      then Some (createSyntheticSourceInfo resolvedPath ''local'' (Some ProjectSource) None (Some projectPromptsDir))
      else map_option (\<lambda>kind. createSyntheticSourceInfo resolvedPath ''local'' None None
             (Some (if kind = KindDirectory then resolvedPath else dirname resolvedPath)))
           (fs_stat fs resolvedPath))"

definition load_explicit ::
  "path_env \<Rightarrow> file_system \<Rightarrow> (string \<Rightarrow> json option) \<Rightarrow> (string \<Rightarrow> source_info option) \<Rightarrow> string \<Rightarrow> string \<Rightarrow>
     prompt_template list option" where
  "load_explicit pe fs yaml getSourceInfo resolvedCwd rawPath =
     map_option (\<lambda>resolvedPath.
       if \<not> fs_exists fs resolvedPath then []
       else (case fs_stat fs resolvedPath of
               Some KindDirectory \<Rightarrow> loadTemplatesFromDir fs yaml getSourceInfo resolvedPath
             | Some KindFile \<Rightarrow>
                 (if suffix ''.md'' resolvedPath
                  then (case Option.bind (getSourceInfo resolvedPath) (loadTemplateFromFile fs yaml resolvedPath) of
                          Some t \<Rightarrow> [t] | None \<Rightarrow> [])
                  else [])
             | _ \<Rightarrow> []))
     (resolvePath pe rawPath resolvedCwd (plain_options\<lparr>po_trim := True\<rparr>))"

fun collect_all :: "'a list option list \<Rightarrow> 'a list option" where
  "collect_all [] = Some []"
| "collect_all (x # xs) = Option.bind x (\<lambda>ys. map_option (append ys) (collect_all xs))"

definition loadPromptTemplates ::
  "path_env \<Rightarrow> file_system \<Rightarrow> (string \<Rightarrow> json option) \<Rightarrow> load_options \<Rightarrow> prompt_template list option" where
  "loadPromptTemplates pe fs yaml lo =
     Option.bind (resolvePath pe (lo_cwd lo) (pe_cwd pe) plain_options) (\<lambda>resolvedCwd.
     Option.bind (resolvePath pe (lo_agentDir lo) (pe_cwd pe) plain_options) (\<lambda>resolvedAgentDir.
       let globalPromptsDir = join_abs resolvedAgentDir ''prompts'';
           projectPromptsDir = join_abs (join_abs resolvedCwd CONFIG_DIR_NAME) ''prompts'';
           getSourceInfo = source_info_of fs globalPromptsDir projectPromptsDir;
           defaults = (if lo_includeDefaults lo
             then loadTemplatesFromDir fs yaml getSourceInfo globalPromptsDir @
                  loadTemplatesFromDir fs yaml getSourceInfo projectPromptsDir
             else [])
       in map_option (append defaults)
            (collect_all (map (load_explicit pe fs yaml getSourceInfo resolvedCwd) (lo_promptPaths lo)))))"

section \<open>Expansion\<close>

text \<open>\<open>/name arguments\<close>: the name ends at the first white space.\<close>

definition expandPromptTemplate :: "string \<Rightarrow> prompt_template list \<Rightarrow> string" where
  "expandPromptTemplate text templates =
     (if \<not> prefix ''/'' text then text
      else
        (let templateName = takeWhile (\<lambda>c. \<not> is_space c) (tl text);
             argsString = dropWhile is_space (dropWhile (\<lambda>c. \<not> is_space c) (tl text))
         in if templateName = [] then text
            else (case List.find (\<lambda>t. tp_name t = templateName) templates of
                    Some template \<Rightarrow> substituteArgs (tp_content template) (parseCommandArgs argsString)
                  | None \<Rightarrow> text)))"

text \<open>
  The text a template expands to: every argument can be quoted so that it arrives as it is, and the
  placeholders of the template are replaced all at once.
\<close>

section \<open>Arguments\<close>

text \<open>Each character in double quotes, the double quote itself in single ones.\<close>

definition quote_char :: "char \<Rightarrow> string" where
  "quote_char c = (if c = CHR 0x22 then [CHR 0x27, c, CHR 0x27] else [CHR 0x22, c, CHR 0x22])"

definition quoted :: "string \<Rightarrow> string" where
  "quoted a = concat (map quote_char a)"

lemma parse_quoted: "parse_args acc current None (quoted a @ rest) = parse_args acc (current @ a) None rest"
  by (induction a arbitrary: current) (auto simp: quoted_def quote_char_def)

lemma blank_is_space: "is_space (CHR '' '')"
  by (simp add: is_space_def)

lemma parse_quoted_all:
  "\<forall>a \<in> set args. a \<noteq> [] \<Longrightarrow> parse_args acc [] None (join_with '' '' (map quoted args)) = acc @ args"
proof (induction args arbitrary: acc)
  case (Cons a args)
  show ?case
  proof (cases "args = []")
    case True
    with Cons.prems parse_quoted [of acc "[]" a "[]"] show ?thesis by simp
  next
    case False
    then have "join_with '' '' (map quoted (a # args)) = quoted a @ '' '' @ join_with '' '' (map quoted args)"
      by (simp add: join_with_Cons)
    with Cons parse_quoted [of acc "[]" a] blank_is_space show ?thesis by simp
  qed
qed simp

lemma quoted_starts_visible: "args \<noteq> [] \<Longrightarrow> \<forall>a \<in> set args. a \<noteq> [] \<Longrightarrow>
    dropWhile is_space (join_with '' '' (map quoted args)) = join_with '' '' (map quoted args)"
proof -
  assume a: "args \<noteq> []" "\<forall>a \<in> set args. a \<noteq> []"
  then obtain c cs as where args: "args = (c # cs) # as" by (metis list.exhaust list.set_intros(1))
  have "\<exists>q t. join_with '' '' (map quoted args) = q # t \<and> \<not> is_space q"
    by (cases as) (auto simp: args quoted_def quote_char_def is_space_def)
  then show ?thesis by auto
qed

section \<open>Expansion\<close>

text \<open>A template is characters and holes, whatever the arguments.\<close>

datatype part = Literal char | Hole placeholder

function template_parts :: "string \<Rightarrow> part list" where
  "template_parts [] = []"
| "template_parts (c # cs) =
     (case (if c = CHR ''$'' then placeholder_at cs else None) of
        Some (p, rest) \<Rightarrow> Hole p # template_parts rest
      | None \<Rightarrow> Literal c # template_parts cs)"
  by pat_completeness auto
termination
  by (relation "measure length") (auto dest: placeholder_at_shorter split: if_splits)

fun fill :: "string list \<Rightarrow> part \<Rightarrow> string" where
  "fill args (Literal c) = [c]"
| "fill args (Hole p) = placeholder_value args p"

lemma substituteArgs_parts: "substituteArgs content args = concat (map (fill args) (template_parts content))"
proof (induction content args rule: substituteArgs.induct)
  case (2 c cs args)
  then show ?case
    by (cases "if c = CHR ''$'' then placeholder_at cs else None") (auto split: prod.splits)
qed simp

text \<open>
  C30. Every list of nonempty arguments, of any characters, can be given to a template: typed after its name,
  quoted, they arrive unchanged, and the text is the template with its holes filled. The holes are those of
  the template alone, so that placeholders in arguments and defaults are not replaced again.
\<close>

theorem template_gets_its_arguments:
  assumes "List.find (\<lambda>t. tp_name t = name) templates = Some template"
    and "name \<noteq> []" and "\<forall>c \<in> set name. \<not> is_space c" and "\<forall>a \<in> set args. a \<noteq> []"
  shows "expandPromptTemplate (''/'' @ name @ '' '' @ join_with '' '' (map quoted args)) templates =
    concat (map (fill args) (template_parts (tp_content template)))"
proof -
  let ?given = "join_with '' '' (map quoted args)"
  have name: "takeWhile (\<lambda>c. \<not> is_space c) (name @ '' '' @ ?given) = name"
      "dropWhile (\<lambda>c. \<not> is_space c) (name @ '' '' @ ?given) = '' '' @ ?given"
    using assms(3) blank_is_space by (simp_all add: takeWhile_append2 dropWhile_append2)
  have given: "dropWhile is_space ('' '' @ ?given) = ?given"
    using quoted_starts_visible [OF _ assms(4)] blank_is_space by (cases "args = []") simp_all
  have "parseCommandArgs ?given = args" using parse_quoted_all [OF assms(4), of "[]"] by (simp add: parseCommandArgs_def)
  with assms(1,2) name given show ?thesis
    by (simp add: expandPromptTemplate_def substituteArgs_parts)
qed

definition greeting :: prompt_template where
  "greeting = \<lparr>tp_name = ''hi'', tp_description = JStr [], tp_argumentHint = None, tp_content = ''$1 and ${2:-you}'',
     tp_sourceInfo = createSyntheticSourceInfo [] [] None None None, tp_filePath = []\<rparr>"

text \<open>An argument that is a placeholder itself.\<close>

theorem template_gets_its_arguments_witness:
  "expandPromptTemplate (''/hi '' @ quoted ''$2'') [greeting] = ''$2 and you''"
proof -
  have "expandPromptTemplate (''/'' @ ''hi'' @ '' '' @ join_with '' '' (map quoted [''$2''])) [greeting] =
      concat (map (fill [''$2'']) (template_parts (tp_content greeting)))"
    by (rule template_gets_its_arguments) (simp_all add: greeting_def is_space_def)
  moreover have "concat (map (fill [''$2'']) (template_parts (tp_content greeting))) = ''$2 and you''" by code_simp
  ultimately show ?thesis by simp
qed

text \<open>An empty argument cannot be given: the quotes alone are nothing, and those after it move up.\<close>

lemma empty_argument_is_lost: "parseCommandArgs (''\"\" x'') = [''x'']"
  by (simp add: parseCommandArgs_def is_space_def)

end
