(* ===== verification/Model_Resolver.thy ===== *)
theory Model_Resolver
  imports Agent_Session Approval_Gate
begin

text \<open>
  \<open>core/model-resolver.ts\<close>: which model a name, a pattern or a saved choice stands for. The catalogue and
  what is configured come from the model runtime; \<open>localeCompare\<close>, the matching of wild cards
  (\<open>minimatch\<close>) and the comparison of models (\<open>modelsAreEqual\<close>) are parameters. Letters are those of ASCII.
\<close>

section \<open>Models and their names\<close>

record catalog_model = agent_model +
  cm_name :: "string option"

definition VALID_THINKING_LEVELS :: "string list" where
  "VALID_THINKING_LEVELS = [''off'', ''minimal'', ''low'', ''medium'', ''high'', ''xhigh'', ''max'']"

definition isValidThinkingLevel :: "string \<Rightarrow> bool" where
  "isValidThinkingLevel level \<longleftrightarrow> level \<in> set VALID_THINKING_LEVELS"

definition defaultModelPerProvider :: "(string \<times> string) list" where
  "defaultModelPerProvider =
    [(''amazon-bedrock'', ''us.anthropic.claude-opus-4-6-v1''),
     (''ant-ling'', ''Ring-2.6-1T''),
     (''anthropic'', ''claude-opus-4-8''),
     (''openai'', ''gpt-5.5''),
     (''azure-openai-responses'', ''gpt-5.4''),
     (''openai-codex'', ''gpt-5.5''),
     (''radius'', ''auto''),
     (''nvidia'', ''nvidia/nemotron-3-super-120b-a12b''),
     (''deepseek'', ''deepseek-v4-pro''),
     (''google'', ''gemini-3.1-pro-preview''),
     (''google-vertex'', ''gemini-3.1-pro-preview''),
     (''github-copilot'', ''gpt-5.4''),
     (''openrouter'', ''moonshotai/kimi-k2.6''),
     (''vercel-ai-gateway'', ''zai/glm-5.1''),
     (''xai'', ''grok-4.5''),
     (''groq'', ''openai/gpt-oss-120b''),
     (''cerebras'', ''zai-glm-4.7''),
     (''zai'', ''glm-5.1''),
     (''zai-coding-cn'', ''glm-5.1''),
     (''mistral'', ''devstral-medium-latest''),
     (''minimax'', ''MiniMax-M2.7''),
     (''minimax-cn'', ''MiniMax-M2.7''),
     (''moonshotai'', ''kimi-k2.6''),
     (''moonshotai-cn'', ''kimi-k2.6''),
     (''huggingface'', ''moonshotai/Kimi-K2.6''),
     (''fireworks'', ''accounts/fireworks/models/kimi-k2p6''),
     (''together'', ''moonshotai/Kimi-K2.6''),
     (''baseten'', ''zai-org/GLM-5.2''),
     (''opencode'', ''kimi-k2.6''),
     (''opencode-go'', ''kimi-k2.6''),
     (''kimi-coding'', ''kimi-for-coding''),
     (''cloudflare-workers-ai'', ''@cf/moonshotai/kimi-k2.6''),
     (''cloudflare-ai-gateway'', ''workers-ai/@cf/moonshotai/kimi-k2.6''),
     (''qwen-token-plan'', ''qwen3.7-max''),
     (''qwen-token-plan-cn'', ''qwen3.7-max''),
     (''qwen-token-plan-individual'', ''qwen3.8-max''),
     (''xiaomi'', ''mimo-v2.5-pro''),
     (''xiaomi-token-plan-cn'', ''mimo-v2.5-pro''),
     (''xiaomi-token-plan-ams'', ''mimo-v2.5-pro''),
     (''xiaomi-token-plan-sgp'', ''mimo-v2.5-pro'')]"

definition model_reference :: "catalog_model \<Rightarrow> string" where
  "model_reference m = mo_provider m @ ''/'' @ mo_id m"

text \<open>\<open>s.toLowerCase() === t.toLowerCase()\<close>.\<close>

definition same_lower :: "string \<Rightarrow> string \<Rightarrow> bool" where
  "same_lower s t \<longleftrightarrow> to_lower s = to_lower t"

text \<open>What is before and after the first, or the last, of a character.\<close>

definition split_first :: "char \<Rightarrow> string \<Rightarrow> (string \<times> string) option" where
  "split_first c s =
     (if c \<in> set s then Some (takeWhile (\<lambda>x. x \<noteq> c) s, tl (dropWhile (\<lambda>x. x \<noteq> c) s)) else None)"

definition split_last :: "char \<Rightarrow> string \<Rightarrow> (string \<times> string) option" where
  "split_last c s = map_option (\<lambda>(after, before). (rev before, rev after)) (split_first c (rev s))"

definition dated :: "string \<Rightarrow> bool" where
  "dated i \<longleftrightarrow> 9 \<le> length i \<and> i ! (length i - 9) = CHR ''-'' \<and>
     (\<forall>c \<in> set (drop (length i - 8) i). let n = of_char c :: nat in 48 \<le> n \<and> n \<le> 57)"

definition isAlias :: "string \<Rightarrow> bool" where
  "isAlias i \<longleftrightarrow> suffix ''-latest'' i \<or> \<not> dated i"

definition the_only :: "'a list \<Rightarrow> 'a option" where
  "the_only xs = (case xs of [x] \<Rightarrow> Some x | _ \<Rightarrow> None)"

definition findExactModelReferenceMatch :: "string \<Rightarrow> catalog_model list \<Rightarrow> catalog_model option" where
  "findExactModelReferenceMatch modelReference availableModels =
     (let reference = trim modelReference in
      if reference = [] then None
      else
        (let canonicalMatches = filter (\<lambda>m. same_lower (model_reference m) reference) availableModels in
         if canonicalMatches \<noteq> [] then the_only canonicalMatches
         else
           (let providerMatches =
                  (case split_first (CHR ''/'') reference of
                     None \<Rightarrow> []
                   | Some (p, i) \<Rightarrow>
                       if trim p \<noteq> [] \<and> trim i \<noteq> []
                       then filter (\<lambda>m. same_lower (mo_provider m) (trim p) \<and> same_lower (mo_id m) (trim i)) availableModels
                       else [])
            in if providerMatches \<noteq> [] then the_only providerMatches
               else the_only (filter (\<lambda>m. same_lower (mo_id m) reference) availableModels))))"

definition includes_text :: "string \<Rightarrow> string \<Rightarrow> bool" where
  "includes_text s t \<longleftrightarrow> sublist t s"

text \<open>The first of a list sorted downwards by identifier, with a stable sort.\<close>

definition highest :: "(string \<Rightarrow> string \<Rightarrow> int) \<Rightarrow> catalog_model list \<Rightarrow> catalog_model option" where
  "highest localeCompare ms =
     (case ms of
        [] \<Rightarrow> None
      | m # rest \<Rightarrow> Some (fold (\<lambda>a best. if localeCompare (mo_id best) (mo_id a) < 0 then a else best) rest m))"

definition partial_matches :: "string \<Rightarrow> catalog_model list \<Rightarrow> catalog_model list" where
  "partial_matches modelPattern availableModels =
     filter (\<lambda>m. includes_text (to_lower (mo_id m)) (to_lower modelPattern) \<or>
                 (case cm_name m of Some n \<Rightarrow> includes_text (to_lower n) (to_lower modelPattern) | None \<Rightarrow> False)) availableModels"

definition tryMatchModel :: "(string \<Rightarrow> string \<Rightarrow> int) \<Rightarrow> string \<Rightarrow> catalog_model list \<Rightarrow> catalog_model option" where
  "tryMatchModel localeCompare modelPattern availableModels =
     (case findExactModelReferenceMatch modelPattern availableModels of
        Some m \<Rightarrow> Some m
      | None \<Rightarrow>
          (let matches = partial_matches modelPattern availableModels;
               aliases = filter (\<lambda>m. isAlias (mo_id m)) matches
           in if aliases \<noteq> [] then highest localeCompare aliases
              else highest localeCompare (filter (\<lambda>m. \<not> isAlias (mo_id m)) matches)))"

definition buildFallbackModel :: "string \<Rightarrow> string \<Rightarrow> catalog_model list \<Rightarrow> catalog_model option" where
  "buildFallbackModel provider modelId availableModels =
     (case filter (\<lambda>m. mo_provider m = provider) availableModels of
        [] \<Rightarrow> None
      | first # rest \<Rightarrow>
          (let baseModel =
                 (case truthy_str (map_of defaultModelPerProvider provider) of
                    Some defaultId \<Rightarrow>
                      (case List.find (\<lambda>m. mo_id m = defaultId) (first # rest) of Some m \<Rightarrow> m | None \<Rightarrow> first)
                  | None \<Rightarrow> first)
           in Some (baseModel\<lparr>mo_id := modelId, cm_name := Some modelId\<rparr>)))"

section \<open>Patterns\<close>

record parsed_model =
  pm_model :: "catalog_model option"
  pm_level :: "string option"
  pm_warning :: "string option"

definition nothing_parsed :: parsed_model where
  "nothing_parsed = \<lparr>pm_model = None, pm_level = None, pm_warning = None\<rparr>"

definition invalid_level_warning :: "string \<Rightarrow> string \<Rightarrow> string" where
  "invalid_level_warning level pattern =
     ''Invalid thinking level \"'' @ level @ ''\" in pattern \"'' @ pattern @ ''\". Using default instead.''"

lemma split_first_length: "split_first c s = Some (a, b) \<Longrightarrow> length a < length s \<and> length b < length s"
proof -
  assume a: "split_first c s = Some (a, b)"
  then have "s = a @ dropWhile (\<lambda>x. x \<noteq> c) s" "dropWhile (\<lambda>x. x \<noteq> c) s \<noteq> []" "b = tl (dropWhile (\<lambda>x. x \<noteq> c) s)"
    by (auto simp: split_first_def dropWhile_eq_Nil_conv split: if_splits)
  then show ?thesis
    by (metis length_append length_greater_0_conv length_tl diff_less less_add_same_cancel1 less_numeral_extra(1) trans_less_add2)
qed

lemma split_last_length: "split_last c s = Some (a, b) \<Longrightarrow> length a < length s"
  by (auto simp: split_last_def dest: split_first_length)

function parseModelPattern ::
  "(string \<Rightarrow> string \<Rightarrow> int) \<Rightarrow> bool \<Rightarrow> string \<Rightarrow> catalog_model list \<Rightarrow> parsed_model" where
  "parseModelPattern localeCompare allowFallback pattern availableModels =
     (case tryMatchModel localeCompare pattern availableModels of
        Some m \<Rightarrow> \<lparr>pm_model = Some m, pm_level = None, pm_warning = None\<rparr>
      | None \<Rightarrow>
          (case split_last (CHR '':'') pattern of
             None \<Rightarrow> nothing_parsed
           | Some (before, level) \<Rightarrow>
               if isValidThinkingLevel level
               then (let result = parseModelPattern localeCompare allowFallback before availableModels in
                     if pm_model result \<noteq> None
                     then result\<lparr>pm_level := (if pm_warning result \<noteq> None then None else Some level)\<rparr>
                     else result)
               else if \<not> allowFallback then nothing_parsed
               else (let result = parseModelPattern localeCompare allowFallback before availableModels in
                     if pm_model result \<noteq> None
                     then result\<lparr>pm_level := None, pm_warning := Some (invalid_level_warning level pattern)\<rparr>
                     else result)))"
  by pat_completeness auto
termination
  by (relation "measure (\<lambda>(lc, af, p, ms). length p)") (auto dest: split_last_length)

declare parseModelPattern.simps [simp del]

section \<open>The models of a session\<close>

record scoped_model =
  sd_model :: catalog_model
  sd_level :: "string option"

datatype scope_code = NoMatch | InvalidThinkingLevel

record scope_diagnostic =
  dg_code :: scope_code
  dg_message :: string
  dg_pattern :: string

definition no_match :: "string \<Rightarrow> scope_diagnostic" where
  "no_match pattern = \<lparr>dg_code = NoMatch, dg_message = ''No models match pattern \"'' @ pattern @ ''\"'', dg_pattern = pattern\<rparr>"

definition add_scoped :: "(catalog_model \<Rightarrow> catalog_model \<Rightarrow> bool) \<Rightarrow> string option \<Rightarrow> catalog_model \<Rightarrow> scoped_model list \<Rightarrow> scoped_model list" where
  "add_scoped modelsAreEqual level m scoped =
     (if \<exists>sm \<in> set scoped. modelsAreEqual (sd_model sm) m then scoped
      else scoped @ [\<lparr>sd_model = m, sd_level = level\<rparr>])"

definition is_glob :: "string \<Rightarrow> bool" where
  "is_glob pattern \<longleftrightarrow> CHR ''*'' \<in> set pattern \<or> CHR ''?'' \<in> set pattern \<or> CHR ''['' \<in> set pattern"

definition glob_and_level :: "string \<Rightarrow> string \<times> string option" where
  "glob_and_level pattern =
     (case split_last (CHR '':'') pattern of
        Some (before, level) \<Rightarrow> if isValidThinkingLevel level then (before, Some level) else (pattern, None)
      | None \<Rightarrow> (pattern, None))"

definition resolve_pattern ::
  "(string \<Rightarrow> string \<Rightarrow> int) \<Rightarrow> (string \<Rightarrow> string \<Rightarrow> bool) \<Rightarrow> (catalog_model \<Rightarrow> catalog_model \<Rightarrow> bool) \<Rightarrow>
     catalog_model list \<Rightarrow> string \<Rightarrow>
     scoped_model list \<times> scope_diagnostic list \<Rightarrow> scoped_model list \<times> scope_diagnostic list" where
  "resolve_pattern localeCompare minimatch modelsAreEqual availableModels pattern st =
     (let (scoped, diagnostics) = st in
      if is_glob pattern
      then
        (let (globPattern, level) = glob_and_level pattern in
         case findExactModelReferenceMatch globPattern availableModels of
           Some m \<Rightarrow> (add_scoped modelsAreEqual level m scoped, diagnostics)
         | None \<Rightarrow>
             (let matchingModels = filter (\<lambda>m. minimatch (model_reference m) globPattern \<or> minimatch (mo_id m) globPattern) availableModels
              in if matchingModels = [] then (scoped, diagnostics @ [no_match pattern])
                 else (fold (add_scoped modelsAreEqual level) matchingModels scoped, diagnostics)))
      else
        (let result = parseModelPattern localeCompare True pattern availableModels;
             warned = diagnostics @ (case truthy_str (pm_warning result) of
               Some w \<Rightarrow> [\<lparr>dg_code = InvalidThinkingLevel, dg_message = w, dg_pattern = pattern\<rparr>] | None \<Rightarrow> [])
         in case pm_model result of
              None \<Rightarrow> (scoped, warned @ [no_match pattern])
            | Some m \<Rightarrow> (add_scoped modelsAreEqual (pm_level result) m scoped, warned)))"

definition resolveModelScopeFromModels ::
  "(string \<Rightarrow> string \<Rightarrow> int) \<Rightarrow> (string \<Rightarrow> string \<Rightarrow> bool) \<Rightarrow> (catalog_model \<Rightarrow> catalog_model \<Rightarrow> bool) \<Rightarrow>
     string list \<Rightarrow> catalog_model list \<Rightarrow>
     scoped_model list \<times> scope_diagnostic list" where
  "resolveModelScopeFromModels localeCompare minimatch modelsAreEqual patterns models =
     fold (resolve_pattern localeCompare minimatch modelsAreEqual models) patterns ([], [])"

section \<open>The model of the command line\<close>

text \<open>What the model runtime knows, with the comparison of the library.\<close>

record model_runtime =
  mr_models :: "catalog_model list"
  mr_available :: "catalog_model list"
  mr_auth :: "string \<Rightarrow> bool"
  mr_equal :: "catalog_model \<Rightarrow> catalog_model \<Rightarrow> bool"

record cli_result =
  cr_model :: "catalog_model option"
  cr_level :: "string option"
  cr_warning :: "string option"
  cr_error :: "string option"

definition cli_found :: "catalog_model \<Rightarrow> string option \<Rightarrow> string option \<Rightarrow> cli_result" where
  "cli_found m level warning = \<lparr>cr_model = Some m, cr_level = level, cr_warning = warning, cr_error = None\<rparr>"

definition cli_failed :: "string option \<Rightarrow> string \<Rightarrow> cli_result" where
  "cli_failed warning message = \<lparr>cr_model = None, cr_level = None, cr_warning = warning, cr_error = Some message\<rparr>"

text \<open>\<open>providerMap\<close>: a provider whose lower-case name was set again replaces the one before.\<close>

definition canonical_provider :: "catalog_model list \<Rightarrow> string \<Rightarrow> string option" where
  "canonical_provider models name =
     jm_get (fold (\<lambda>m. jm_set (to_lower (mo_provider m)) (mo_provider m)) models []) (to_lower name)"

definition matches_raw :: "string \<Rightarrow> catalog_model \<Rightarrow> bool" where
  "matches_raw cliModel m \<longleftrightarrow> same_lower (mo_id m) cliModel \<or> same_lower (model_reference m) cliModel"

fun insert_by :: "(string \<Rightarrow> string \<Rightarrow> int) \<Rightarrow> string \<Rightarrow> string list \<Rightarrow> string list" where
  "insert_by cmp x [] = [x]"
| "insert_by cmp x (y # ys) = (if cmp y x \<le> 0 then y # insert_by cmp x ys else x # y # ys)"

definition ambiguous_error :: "(string \<Rightarrow> string \<Rightarrow> int) \<Rightarrow> string \<Rightarrow> catalog_model list \<Rightarrow> bool \<Rightarrow> string" where
  "ambiguous_error localeCompare cliModel exactMatches none_authenticated =
     ''Model \"'' @ cliModel @ ''\" is ambiguous across providers: '' @
     join_with '', '' (fold (insert_by localeCompare) (map model_reference exactMatches) []) @ ''. '' @
     (if none_authenticated then ''No matching provider is authenticated.''
      else ''More than one matching provider is authenticated.'') @ '' Use --provider or provider/model.''"

text \<open>The exact matches of a name without a provider; \<open>None\<close> when there is none.\<close>

definition exact_cli_match :: "(string \<Rightarrow> string \<Rightarrow> int) \<Rightarrow> model_runtime \<Rightarrow> string \<Rightarrow> cli_result option" where
  "exact_cli_match localeCompare mr cliModel =
     (let exactMatches = filter (matches_raw cliModel) (mr_models mr);
          authenticated = filter (\<lambda>m. mr_auth mr (mo_provider m)) exactMatches
      in case exactMatches of
           [] \<Rightarrow> None
         | [m] \<Rightarrow> Some (cli_found m None None)
         | _ \<Rightarrow>
             (case authenticated of
                [m] \<Rightarrow> Some (cli_found m None None)
              | _ \<Rightarrow> Some (cli_failed None (ambiguous_error localeCompare cliModel exactMatches (authenticated = [])))))"

definition inferred_match :: "model_runtime \<Rightarrow> string \<Rightarrow> catalog_model \<Rightarrow> catalog_model option" where
  "inferred_match mr cliModel m =
     (if mr_auth mr (mo_provider m) then None
      else the_only (filter (\<lambda>a. mr_auth mr (mo_provider a))
             (filter (\<lambda>a. same_lower (mo_id a) cliModel \<and> \<not> mr_equal mr a m) (mr_models mr))))"

definition raw_fallback :: "(string \<Rightarrow> string \<Rightarrow> int) \<Rightarrow> model_runtime \<Rightarrow> string \<Rightarrow> cli_result option" where
  "raw_fallback localeCompare mr cliModel =
     (case List.find (matches_raw cliModel) (mr_models mr) of
        Some m \<Rightarrow> Some (cli_found m None None)
      | None \<Rightarrow>
          (let fallback = parseModelPattern localeCompare False cliModel (mr_models mr) in
           map_option (\<lambda>m. cli_found m (pm_level fallback) (pm_warning fallback)) (pm_model fallback)))"

definition custom_warning :: "string option \<Rightarrow> string \<Rightarrow> string \<Rightarrow> string" where
  "custom_warning warning fallbackPattern provider =
     (case truthy_str warning of Some w \<Rightarrow> w @ '' '' | None \<Rightarrow> []) @
     ''Model \"'' @ fallbackPattern @ ''\" not found for provider \"'' @ provider @ ''\". Using custom model id.''"

definition custom_model ::
  "model_runtime \<Rightarrow> string \<Rightarrow> string \<Rightarrow> string option \<Rightarrow> string option \<Rightarrow> cli_result option" where
  "custom_model mr provider pattern cliThinking warning =
     (let (fallbackPattern, fallbackThinking) = (if cliThinking = None then glob_and_level pattern else (pattern, None));
          requestedThinking = (case cliThinking of Some t \<Rightarrow> Some t | None \<Rightarrow> fallbackThinking)
      in map_option (\<lambda>m.
           cli_found (if requestedThinking \<noteq> None \<and> requestedThinking \<noteq> Some ''off'' then m\<lparr>lm_reasoning := True\<rparr> else m)
             fallbackThinking (Some (custom_warning warning fallbackPattern provider)))
         (buildFallbackModel provider fallbackPattern (mr_models mr)))"

definition cli_not_found :: "string option \<Rightarrow> string option \<Rightarrow> string \<Rightarrow> string \<Rightarrow> cli_result" where
  "cli_not_found warning provider pattern cliModel =
     cli_failed warning
       (''Model \"'' @ (case provider of Some p \<Rightarrow> p @ ''/'' @ pattern | None \<Rightarrow> cliModel) @
        ''\" not found. Use --list-models to see available models.'')"

definition or_else_do :: "'a option \<Rightarrow> 'a \<Rightarrow> 'a" where
  "or_else_do r d = (case r of Some x \<Rightarrow> x | None \<Rightarrow> d)"

text \<open>What follows once provider and pattern are known.\<close>

definition resolve_with ::
  "(string \<Rightarrow> string \<Rightarrow> int) \<Rightarrow> model_runtime \<Rightarrow> string \<Rightarrow> string option \<Rightarrow> string option \<Rightarrow> bool \<Rightarrow> string \<Rightarrow> cli_result" where
  "resolve_with localeCompare mr cliModel cliThinking provider inferredProvider pattern =
     (let candidates = (case provider of Some p \<Rightarrow> filter (\<lambda>m. mo_provider m = p) (mr_models mr) | None \<Rightarrow> mr_models mr);
          result = parseModelPattern localeCompare False pattern candidates
      in case pm_model result of
           Some m \<Rightarrow>
             (case (if inferredProvider then inferred_match mr cliModel m else None) of
                Some a \<Rightarrow> cli_found a None None
              | None \<Rightarrow> cli_found m (pm_level result) (pm_warning result))
         | None \<Rightarrow>
             or_else_do (if inferredProvider then raw_fallback localeCompare mr cliModel else None)
               (or_else_do (case provider of Some p \<Rightarrow> custom_model mr p pattern cliThinking (pm_warning result) | None \<Rightarrow> None)
                 (cli_not_found (pm_warning result) provider pattern cliModel)))"

definition resolveCliModel ::
  "(string \<Rightarrow> string \<Rightarrow> int) \<Rightarrow> model_runtime \<Rightarrow> string option \<Rightarrow> string option \<Rightarrow> string option \<Rightarrow> cli_result" where
  "resolveCliModel localeCompare mr cliProvider cliModelOpt cliThinking =
     (case truthy_str cliModelOpt of
        None \<Rightarrow> \<lparr>cr_model = None, cr_level = None, cr_warning = None, cr_error = None\<rparr>
      | Some cliModel \<Rightarrow>
          if mr_models mr = []
          then cli_failed None ''No models available. Check your installation or add models to models.json.''
          else
            (case truthy_str cliProvider of
               Some p \<Rightarrow>
                 (case truthy_str (canonical_provider (mr_models mr) p) of
                    None \<Rightarrow> cli_failed None
                      (''Unknown provider \"'' @ p @ ''\". Use --list-models to see available providers/models.'')
                  | Some provider \<Rightarrow>
                      resolve_with localeCompare mr cliModel cliThinking (Some provider) False
                        (if prefix (to_lower (provider @ ''/'')) (to_lower cliModel)
                         then drop (length (provider @ ''/'')) cliModel else cliModel))
             | None \<Rightarrow>
                 (case Option.bind (split_first (CHR ''/'') cliModel)
                         (\<lambda>(a, b). map_option (\<lambda>p. (p, b)) (truthy_str (canonical_provider (mr_models mr) a))) of
                    Some (provider, pattern) \<Rightarrow>
                      resolve_with localeCompare mr cliModel cliThinking (Some provider) True pattern
                  | None \<Rightarrow>
                      or_else_do (exact_cli_match localeCompare mr cliModel)
                        (resolve_with localeCompare mr cliModel cliThinking None False cliModel))))"

section \<open>The first model of a session\<close>

record initial_model =
  im_model :: "catalog_model option"
  im_level :: string
  im_message :: "string option"

datatype initial_result = ExitWith string | Started initial_model

definition getModel :: "model_runtime \<Rightarrow> string \<Rightarrow> string \<Rightarrow> catalog_model option" where
  "getModel mr providerId modelId = List.find (\<lambda>m. mo_provider m = providerId \<and> mo_id m = modelId) (mr_models mr)"

text \<open>The default of the first known provider that has it, or else the first model there is.\<close>

definition first_available :: "catalog_model list \<Rightarrow> catalog_model option" where
  "first_available ms =
     (case List.map_filter (\<lambda>(p, i). List.find (\<lambda>m. mo_provider m = p \<and> mo_id m = i) ms) defaultModelPerProvider of
        m # _ \<Rightarrow> Some m
      | [] \<Rightarrow> (case ms of m # _ \<Rightarrow> Some m | [] \<Rightarrow> None))"

definition started :: "catalog_model option \<Rightarrow> string \<Rightarrow> initial_result" where
  "started m level = Started \<lparr>im_model = m, im_level = level, im_message = None\<rparr>"

definition without_cli ::
  "model_runtime \<Rightarrow> scoped_model list \<Rightarrow> bool \<Rightarrow> string option \<Rightarrow> string option \<Rightarrow> string option \<Rightarrow> initial_result" where
  "without_cli mr scopedModels isContinuing defaultProvider defaultModelId defaultThinkingLevel =
     (case (if isContinuing then [] else scopedModels) of
        sm # _ \<Rightarrow>
          started (Some (sd_model sm))
            (case sd_level sm of Some l \<Rightarrow> l | None \<Rightarrow> (case defaultThinkingLevel of Some l \<Rightarrow> l | None \<Rightarrow> DEFAULT_THINKING_LEVEL))
      | [] \<Rightarrow>
          (case (case (truthy_str defaultProvider, truthy_str defaultModelId) of
                   (Some p, Some i) \<Rightarrow> getModel mr p i | _ \<Rightarrow> None) of
             Some found \<Rightarrow>
               if mr_auth mr (mo_provider found)
               then started (Some found) (case truthy_str defaultThinkingLevel of Some l \<Rightarrow> l | None \<Rightarrow> DEFAULT_THINKING_LEVEL)
               else started (first_available (mr_available mr)) DEFAULT_THINKING_LEVEL
           | None \<Rightarrow> started (first_available (mr_available mr)) DEFAULT_THINKING_LEVEL))"

definition findInitialModel ::
  "(string \<Rightarrow> string \<Rightarrow> int) \<Rightarrow> model_runtime \<Rightarrow> string option \<Rightarrow> string option \<Rightarrow> scoped_model list \<Rightarrow> bool \<Rightarrow>
     string option \<Rightarrow> string option \<Rightarrow> string option \<Rightarrow> initial_result" where
  "findInitialModel localeCompare mr cliProvider cliModel scopedModels isContinuing defaultProvider defaultModelId
     defaultThinkingLevel =
     (let rest = without_cli mr scopedModels isContinuing defaultProvider defaultModelId defaultThinkingLevel in
      if truthy_str cliProvider \<noteq> None \<and> truthy_str cliModel \<noteq> None
      then (let resolved = resolveCliModel localeCompare mr cliProvider cliModel None in
            case truthy_str (cr_error resolved) of
              Some message \<Rightarrow> ExitWith message
            | None \<Rightarrow> (case cr_model resolved of Some m \<Rightarrow> started (Some m) DEFAULT_THINKING_LEVEL | None \<Rightarrow> rest))
      else rest)"

text \<open>What is printed on the way is left out.\<close>

definition restoreModelFromSession ::
  "model_runtime \<Rightarrow> string \<Rightarrow> string \<Rightarrow> catalog_model option \<Rightarrow> catalog_model option \<times> string option" where
  "restoreModelFromSession mr savedProvider savedModelId currentModel =
     (let restoredModel = getModel mr savedProvider savedModelId;
          reason = (if restoredModel = None then ''model no longer exists'' else ''no auth configured'');
          using_instead = (\<lambda>m. ''Could not restore model '' @ savedProvider @ ''/'' @ savedModelId @ '' ('' @ reason @
            ''). Using '' @ model_reference m @ ''.'')
      in if (case restoredModel of Some m \<Rightarrow> mr_auth mr (mo_provider m) | None \<Rightarrow> False) then (restoredModel, None)
         else (case currentModel of
                 Some m \<Rightarrow> (Some m, Some (using_instead m))
               | None \<Rightarrow>
                   (case first_available (mr_available mr) of
                      Some m \<Rightarrow> (Some m, Some (using_instead m))
                    | None \<Rightarrow> (None, None))))"

end
