(* ===== verification/Model_Properties.thy ===== *)
theory Model_Properties
  imports Model_Resolver
begin

text \<open>
  What names resolve to: only models of the catalogue, or a custom identifier with a warning; and the full
  name of a model is a name for it.
\<close>

section \<open>Searching\<close>

lemma the_only_in: "the_only xs = Some x \<Longrightarrow> x \<in> set xs"
  by (auto simp: the_only_def split: list.splits)

lemma exact_reference_in: "findExactModelReferenceMatch r ms = Some m \<Longrightarrow> m \<in> set ms"
  by (auto simp: findExactModelReferenceMatch_def Let_def split: if_splits option.splits prod.splits dest!: the_only_in)

lemma highest_in: "highest lc ms = Some m \<Longrightarrow> m \<in> set ms"
proof -
  have "fold (\<lambda>a best. if lc (mo_id best) (mo_id a) < 0 then a else best) xs b \<in> insert b (set xs)" for xs and b :: catalog_model
    by (induction xs arbitrary: b) auto
  then show "highest lc ms = Some m \<Longrightarrow> m \<in> set ms" by (cases ms) (auto simp: highest_def)
qed

lemma tryMatchModel_in: "tryMatchModel lc p ms = Some m \<Longrightarrow> m \<in> set ms"
  by (auto simp: tryMatchModel_def Let_def partial_matches_def split: option.splits if_splits
      dest!: exact_reference_in highest_in)

lemma parseModelPattern_in: "pm_model (parseModelPattern lc af p ms) = Some m \<Longrightarrow> m \<in> set ms"
proof (induction lc af p ms rule: parseModelPattern.induct)
  case (1 lc af p ms)
  show ?case
  proof (cases "tryMatchModel lc p ms")
    case (Some a)
    with "1.prems" show ?thesis by (subst (asm) parseModelPattern.simps) (auto dest: tryMatchModel_in)
  next
    case None
    with 1 show ?thesis
      by (subst (asm) (3) parseModelPattern.simps)
        (auto simp: nothing_parsed_def Let_def split: option.splits prod.splits if_splits)
  qed
qed

section \<open>The model of the command line\<close>

text \<open>A model of a known provider under another identifier, which may be made to reason.\<close>

definition custom_of :: "catalog_model list \<Rightarrow> catalog_model \<Rightarrow> bool" where
  "custom_of ms m \<longleftrightarrow>
     (\<exists>base \<in> set ms. m = base\<lparr>mo_id := mo_id m, cm_name := Some (mo_id m), lm_reasoning := lm_reasoning m\<rparr>)"

definition well_resolved :: "catalog_model list \<Rightarrow> (string \<Rightarrow> bool) \<Rightarrow> cli_result \<Rightarrow> bool" where
  "well_resolved ms provider_ok r \<longleftrightarrow>
     (cr_model r = None \<longleftrightarrow> cr_error r \<noteq> None) \<and>
     (\<forall>m. cr_model r = Some m \<longrightarrow>
        (m \<in> set ms \<or> cr_warning r \<noteq> None \<and> custom_of ms m) \<and> provider_ok (mo_provider m))"

lemma well_resolved_simps [simp]:
  "well_resolved ms ok (cli_failed w e)"
  "well_resolved ms ok (cli_found m l w) \<longleftrightarrow> (m \<in> set ms \<or> w \<noteq> None \<and> custom_of ms m) \<and> ok (mo_provider m)"
  by (auto simp: well_resolved_def cli_failed_def cli_found_def)

lemma buildFallbackModel_custom:
  assumes "buildFallbackModel provider i ms = Some m"
  shows "mo_provider m = provider \<and> custom_of ms m \<and> custom_of ms (m\<lparr>lm_reasoning := True\<rparr>)"
proof -
  let ?ms = "filter (\<lambda>m. mo_provider m = provider) ms"
  have "\<exists>base \<in> set ?ms. m = base\<lparr>mo_id := i, cm_name := Some i\<rparr>"
  proof (cases ?ms)
    case Nil
    with assms show ?thesis by (simp add: buildFallbackModel_def)
  next
    case (Cons a rest)
    have "x \<in> set (a # rest)" if "List.find (\<lambda>m. mo_id m = d) (a # rest) = Some x" for x d
      using that by (metis find_Some_iff nth_mem)
    with assms show ?thesis
      unfolding buildFallbackModel_def Cons list.case Let_def by (simp only: option.inject split: option.splits) force+
  qed
  then obtain base where base: "base \<in> set ms" "mo_provider base = provider" "m = base\<lparr>mo_id := i, cm_name := Some i\<rparr>" by auto
  then show ?thesis by (auto simp: custom_of_def intro!: bexI [of _ base])
qed

lemma custom_model_well:
  "custom_model mr p pattern t w = Some r \<Longrightarrow> well_resolved (mr_models mr) (\<lambda>q. q = p) r"
  by (auto simp: custom_model_def Let_def custom_warning_def split: prod.splits if_splits dest!: buildFallbackModel_custom)

lemma raw_fallback_well: "raw_fallback lc mr c = Some r \<Longrightarrow> well_resolved (mr_models mr) (\<lambda>_. True) r"
  by (auto simp: raw_fallback_def Let_def find_Some_iff split: option.splits dest!: parseModelPattern_in)

lemma found_or_not:
  "(case es of [] \<Rightarrow> None | [m] \<Rightarrow> Some (f m) | _ # _ # _ \<Rightarrow> (case as of [m] \<Rightarrow> Some (f m) | _ \<Rightarrow> Some x)) = Some r \<Longrightarrow>
     (\<exists>m. r = f m \<and> (es = [m] \<or> as = [m])) \<or> r = x"
  by (auto split: list.splits)

lemma exact_cli_match_well: "exact_cli_match lc mr c = Some r \<Longrightarrow> well_resolved (mr_models mr) (\<lambda>_. True) r"
proof -
  let ?e = "filter (matches_raw c) (mr_models mr)" and ?a = "filter (\<lambda>m. mr_auth mr (mo_provider m)) (filter (matches_raw c) (mr_models mr))"
  assume r: "exact_cli_match lc mr c = Some r"
  from r have "(case ?e of [] \<Rightarrow> None | [m] \<Rightarrow> Some (cli_found m None None)
      | _ # _ # _ \<Rightarrow> (case ?a of [m] \<Rightarrow> Some (cli_found m None None)
          | _ \<Rightarrow> Some (cli_failed None (ambiguous_error lc c ?e (?a = []))))) = Some r"
    unfolding exact_cli_match_def Let_def .
  from found_or_not [OF this] show "well_resolved (mr_models mr) (\<lambda>_. True) r"
  proof (elim disjE exE conjE)
    fix m
    assume m: "r = cli_found m None None" "?e = [m]"
    have "m \<in> set ?e" unfolding m by simp
    then show ?thesis unfolding m(1) by simp
  next
    fix m
    assume m: "r = cli_found m None None" "?a = [m]"
    have "m \<in> set ?a" unfolding m by simp
    then show ?thesis unfolding m(1) by simp
  next
    assume "r = cli_failed None (ambiguous_error lc c ?e (?a = []))"
    then show ?thesis by simp
  qed
qed

lemma inferred_match_in: "inferred_match mr c m = Some a \<Longrightarrow> a \<in> set (mr_models mr)"
  by (auto simp: inferred_match_def split: if_splits dest!: the_only_in)

lemma resolve_with_well:
  assumes "\<And>p. provider = Some p \<Longrightarrow> \<not> inferred \<Longrightarrow> ok p" and "inferred \<or> provider = None \<Longrightarrow> \<forall>q. ok q"
  shows "well_resolved (mr_models mr) ok (resolve_with lc mr c t provider inferred pattern)"
proof -
  let ?r = "parseModelPattern lc False pattern (case provider of Some p \<Rightarrow> filter (\<lambda>m. mo_provider m = p) (mr_models mr) | None \<Rightarrow> mr_models mr)"
  have ok: "ok q" if "provider = Some q" for q using assms that by (cases inferred) auto
  show ?thesis
  proof (cases "pm_model ?r")
    case (Some m)
    then have "m \<in> set (mr_models mr) \<and> ok (mo_provider m)"
      using parseModelPattern_in [OF Some] assms(2) ok by (cases provider) auto
    moreover have "a \<in> set (mr_models mr) \<and> ok (mo_provider a)" if "(if inferred then inferred_match mr c m else None) = Some a" for a
      using that assms(2) by (auto split: if_splits dest: inferred_match_in)
    ultimately show ?thesis using Some by (auto simp: resolve_with_def Let_def split: option.split)
  next
    case None
    have "well_resolved (mr_models mr) ok r" if "(if inferred then raw_fallback lc mr c else None) = Some r" for r
      using that assms(2) by (auto simp: well_resolved_def split: if_splits dest!: raw_fallback_well)
    moreover have "well_resolved (mr_models mr) ok r"
      if "(case provider of Some p \<Rightarrow> custom_model mr p pattern t (pm_warning ?r) | None \<Rightarrow> None) = Some r" for r
      using that ok by (auto simp: well_resolved_def split: option.splits dest!: custom_model_well)
    ultimately show ?thesis using None
      by (auto simp: resolve_with_def Let_def or_else_do_def cli_not_found_def split: option.split)
  qed
qed

lemma canonical_provider_lower: "canonical_provider ms name = Some p \<Longrightarrow> to_lower p = to_lower name"
proof -
  have "\<forall>k v. jm_get acc k = Some v \<longrightarrow> to_lower v = k \<Longrightarrow>
      jm_get (fold (\<lambda>m. jm_set (to_lower (mo_provider m)) (mo_provider m)) ms acc) k = Some v \<Longrightarrow> to_lower v = k"
    for acc k v and ms :: "catalog_model list"
  proof (induction ms arbitrary: acc)
    case (Cons m ms)
    have "\<forall>k v. jm_get (jm_set (to_lower (mo_provider m)) (mo_provider m) acc) k = Some v \<longrightarrow> to_lower v = k"
      using Cons.prems(1) by (simp add: jm_get_set)
    from Cons.IH [OF this] Cons.prems(2) show ?case by simp
  qed simp
  note looked_up = this
  have "\<forall>k v. jm_get [] k = Some v \<longrightarrow> to_lower v = k" by simp
  then show "canonical_provider ms name = Some p \<Longrightarrow> to_lower p = to_lower name"
    unfolding canonical_provider_def by (rule looked_up)
qed

lemma unnamed_provider:
  assumes "truthy_str cliProvider = None" and "c \<noteq> []"
  shows "(\<exists>e. resolveCliModel lc mr cliProvider (Some c) t = cli_failed None e) \<or>
    exact_cli_match lc mr c = Some (resolveCliModel lc mr cliProvider (Some c) t) \<or>
    (\<exists>p i pat. resolveCliModel lc mr cliProvider (Some c) t = resolve_with lc mr c t p i pat)"
proof -
  have c: "truthy_str (Some c) = Some c" using assms(2) by simp
  show ?thesis
  proof (cases "mr_models mr = []")
    case True
    then show ?thesis unfolding resolveCliModel_def c assms(1) option.case by (intro disjI1 exI) (rule if_P)
  next
    case False
    have r: "resolveCliModel lc mr cliProvider (Some c) t =
        (case Option.bind (split_first (CHR ''/'') c)
                (\<lambda>(a, b). map_option (\<lambda>p. (p, b)) (truthy_str (canonical_provider (mr_models mr) a))) of
           Some (provider, pattern) \<Rightarrow> resolve_with lc mr c t (Some provider) True pattern
         | None \<Rightarrow> or_else_do (exact_cli_match lc mr c) (resolve_with lc mr c t None False c))"
      unfolding resolveCliModel_def c assms(1) option.case if_not_P [OF False] by (rule refl)
    show ?thesis
    proof (cases "Option.bind (split_first (CHR ''/'') c)
        (\<lambda>(a, b). map_option (\<lambda>p. (p, b)) (truthy_str (canonical_provider (mr_models mr) a)))")
      case None
      show ?thesis
      proof (cases "exact_cli_match lc mr c")
        case None
        with \<open>Option.bind _ _ = None\<close> have "resolveCliModel lc mr cliProvider (Some c) t = resolve_with lc mr c t None False c"
          unfolding r by (simp only: option.case or_else_do_def)
        then show ?thesis by blast
      next
        case (Some x)
        with \<open>Option.bind _ _ = None\<close> have "resolveCliModel lc mr cliProvider (Some c) t = x"
          unfolding r by (simp only: option.case or_else_do_def)
        with Some show ?thesis by simp
      qed
    next
      case (Some x)
      obtain p pat where x: "x = (p, pat)" by (cases x)
      have "resolveCliModel lc mr cliProvider (Some c) t = resolve_with lc mr c t (Some p) True pat"
        unfolding r Some x by (simp only: option.case prod.case)
      then show ?thesis by blast
    qed
  qed
qed

text \<open>
  C31. The command line gets a model or an error, never both and never neither. The model is one of the
  catalogue, unchanged, or one of a known provider under the identifier that was typed, and then there is a
  warning; a provider that was named is the provider of the model.
\<close>

theorem cli_model_is_known_or_announced:
  assumes "cliModel \<noteq> []"
  shows "let r = resolveCliModel lc mr cliProvider (Some cliModel) cliThinking in
    (cr_model r = None \<longleftrightarrow> cr_error r \<noteq> None) \<and>
    (\<forall>m. cr_model r = Some m \<longrightarrow>
       (m \<in> set (mr_models mr) \<or> cr_warning r \<noteq> None \<and> custom_of (mr_models mr) m) \<and>
       (\<forall>p. cliProvider = Some p \<and> p \<noteq> [] \<longrightarrow> to_lower (mo_provider m) = to_lower p))"
proof -
  obtain ok where ok: "ok = (\<lambda>q. \<forall>p. cliProvider = Some p \<and> p \<noteq> [] \<longrightarrow> to_lower q = to_lower p)" by simp
  have "well_resolved (mr_models mr) ok (resolveCliModel lc mr cliProvider (Some cliModel) cliThinking)"
  proof (cases "truthy_str cliProvider")
    case None
    then have any: "ok q" for q by (cases cliProvider) (auto simp: ok)
    then have e: "well_resolved (mr_models mr) ok r" if "exact_cli_match lc mr cliModel = Some r" for r
      using exact_cli_match_well [OF that] by (simp add: well_resolved_def)
    have "well_resolved (mr_models mr) ok (resolve_with lc mr cliModel cliThinking p i pat)" for p i pat
      by (rule resolve_with_well) (simp_all add: any)
    with unnamed_provider [OF None assms, of lc mr cliThinking] e show ?thesis by (metis well_resolved_simps(1))
  next
    case (Some p)
    have "well_resolved (mr_models mr) ok (resolve_with lc mr cliModel cliThinking (Some q) False pat)"
      if "truthy_str (canonical_provider (mr_models mr) p) = Some q" for q pat
    proof (rule resolve_with_well)
      show "ok p'" if "Some q = Some p'" for p'
        using that \<open>truthy_str _ = Some q\<close> Some by (auto simp: ok dest: canonical_provider_lower)
    qed simp
    with Some assms show ?thesis
      by (simp add: resolveCliModel_def split: option.split)
  qed
  with ok have "well_resolved (mr_models mr) (\<lambda>q. \<forall>p. cliProvider = Some p \<and> p \<noteq> [] \<longrightarrow> to_lower q = to_lower p)
      (resolveCliModel lc mr cliProvider (Some cliModel) cliThinking)" by simp
  then show ?thesis unfolding well_resolved_def Let_def .
qed

text \<open>An unknown identifier of a known provider, with a level.\<close>

definition one_model :: catalog_model where
  "one_model = \<lparr>lm_maxTokens = 1, lm_contextWindow = 1, lm_reasoning = False, mo_provider = ''p'', mo_id = ''m'', cm_name = None\<rparr>"

definition one_runtime :: model_runtime where
  "one_runtime = \<lparr>mr_models = [one_model], mr_available = [one_model], mr_auth = (\<lambda>_. True), mr_equal = (\<lambda>a b. a = b)\<rparr>"

theorem cli_model_is_known_or_announced_witness:
  "cr_warning (resolveCliModel (\<lambda>_ _. 0) one_runtime (Some ''P'') (Some ''x:high'') None) \<noteq> None"
proof -
  have r: "map_option mo_id (cr_model (resolveCliModel (\<lambda>_ _. 0) one_runtime (Some ''P'') (Some ''x:high'') None)) = Some ''x''"
    by code_simp
  then obtain m where m: "cr_model (resolveCliModel (\<lambda>_ _. 0) one_runtime (Some ''P'') (Some ''x:high'') None) = Some m"
      "mo_id m = ''x''" by auto
  then have "m \<notin> set (mr_models one_runtime)" by (auto simp: one_runtime_def one_model_def)
  with cli_model_is_known_or_announced [of "''x:high''" "\<lambda>_ _. 0" one_runtime "Some ''P''" None] m(1)
  show ?thesis by (simp add: Let_def)
qed

section \<open>Full names\<close>

definition plain_name :: "string \<Rightarrow> bool" where
  "plain_name s \<longleftrightarrow> s \<noteq> [] \<and> (\<forall>c \<in> set s. \<not> is_space c)"

text \<open>
  Names without white space, providers without a slash; no two models have the same name, in whatever case
  the letters are, and a provider is written one way.
\<close>

definition well_named :: "catalog_model list \<Rightarrow> bool" where
  "well_named ms \<longleftrightarrow> distinct ms \<and>
     (\<forall>a \<in> set ms. plain_name (mo_provider a) \<and> plain_name (mo_id a) \<and> CHR ''/'' \<notin> set (mo_provider a)) \<and>
     (\<forall>a \<in> set ms. \<forall>b \<in> set ms. same_lower (model_reference a) (model_reference b) \<longrightarrow> a = b) \<and>
     (\<forall>a \<in> set ms. \<forall>b \<in> set ms. same_lower (mo_provider a) (mo_provider b) \<longrightarrow> mo_provider a = mo_provider b)"

lemma trim_plain: "\<forall>c \<in> set s. \<not> is_space c \<Longrightarrow> trim s = s"
proof -
  have d: "dropWhile is_space s = s" if "\<forall>c \<in> set s. \<not> is_space c" for s
    using that by (cases s) simp_all
  assume "\<forall>c \<in> set s. \<not> is_space c"
  with d [of s] d [of "rev s"] show "trim s = s" by (simp add: trim_def)
qed

lemma to_lower_append: "to_lower (s @ t) = to_lower s @ to_lower t"
  by (simp add: to_lower_def)

lemma split_first_at: "c \<notin> set s \<Longrightarrow> split_first c (s @ c # t) = Some (s, t)"
  by (induction s) (auto simp: split_first_def)

lemma split_first_SomeD: "split_first c s = Some (a, b) \<Longrightarrow> s = a @ c # b"
proof -
  assume a: "split_first c s = Some (a, b)"
  then have "c \<in> set s" by (auto simp: split_first_def split: if_splits)
  then obtain x y where x: "s = x @ c # y" "c \<notin> set x" by (metis split_list_first)
  with a split_first_at [of c x y] show "s = a @ c # b" by simp
qed

lemma only_element:
  assumes "distinct xs" and "m \<in> set xs" and "P m" and "\<And>a. a \<in> set xs \<Longrightarrow> P a \<Longrightarrow> a = m"
  shows "filter P xs = [m]"
proof -
  have "filter P xs = filter (\<lambda>a. a = m) xs" using assms(3,4) by (intro filter_cong) auto
  also have "\<dots> = [m]" using assms(1,2) by (induction xs) (auto simp: filter_empty_conv)
  finally show ?thesis .
qed

lemma the_only_single [simp]: "the_only [m] = Some m"
  by (simp add: the_only_def)

lemma full_name_found:
  assumes "well_named ms" and "m \<in> set ms"
  shows "findExactModelReferenceMatch (model_reference m) ms = Some m"
proof -
  have k: "plain_name (mo_provider m)" "plain_name (mo_id m)" using assms by (auto simp: well_named_def)
  then have t: "trim (model_reference m) = model_reference m" by (intro trim_plain) (auto simp: plain_name_def model_reference_def is_space_def)
  have "filter (\<lambda>a. same_lower (model_reference a) (model_reference m)) ms = [m]"
    using assms by (intro only_element) (auto simp: well_named_def same_lower_def)
  with t k show ?thesis
    by (simp add: findExactModelReferenceMatch_def plain_name_def) (simp add: model_reference_def)
qed

lemma identifier_found:
  assumes "well_named ms" and "m \<in> set ms" and "\<And>a. a \<in> set ms \<Longrightarrow> \<not> same_lower (model_reference a) (mo_id m)"
  shows "findExactModelReferenceMatch (mo_id m) (filter (\<lambda>a. mo_provider a = mo_provider m) ms) = Some m"
proof -
  let ?c = "filter (\<lambda>a. mo_provider a = mo_provider m) ms"
  have k: "plain_name (mo_id m)" using assms by (auto simp: well_named_def)
  then have t: "trim (mo_id m) = mo_id m" "mo_id m \<noteq> []" by (auto simp: plain_name_def intro: trim_plain)
  have 1: "filter (\<lambda>a. same_lower (model_reference a) (mo_id m)) ?c = []" using assms(3) by (simp add: filter_empty_conv)
  have 2: "filter (\<lambda>a. same_lower (mo_provider a) (trim p) \<and> same_lower (mo_id a) (trim i)) ?c = []"
    if "split_first (CHR ''/'') (mo_id m) = Some (p, i)" for p i
  proof -
    have s: "mo_id m = p @ CHR ''/'' # i" using split_first_SomeD [OF that] .
    have "\<forall>c \<in> set p. \<not> is_space c" "\<forall>c \<in> set i. \<not> is_space c" using k unfolding plain_name_def s by simp_all
    then have tr: "trim p = p" "trim i = i" by (simp_all only: trim_plain)
    have id: "to_lower (mo_id m) = to_lower p @ to_lower (CHR ''/'' # i)" unfolding s by (rule to_lower_append)
    have "same_lower (model_reference a) (mo_id m)" if "same_lower (mo_provider a) p" "same_lower (mo_id a) i" for a
    proof -
      have "to_lower (model_reference a) = to_lower (mo_provider a) @ to_lower (CHR ''/'' # mo_id a)"
        by (simp add: model_reference_def to_lower_append)
      also have "\<dots> = to_lower p @ to_lower (CHR ''/'' # i)"
        using that by (simp add: same_lower_def) (simp add: to_lower_def)
      finally show ?thesis by (simp only: same_lower_def id)
    qed
    with assms(3) have "\<not> (same_lower (mo_provider a) p \<and> same_lower (mo_id a) i)" if "a \<in> set ms" for a using that by blast
    then show ?thesis unfolding tr filter_empty_conv by simp
  qed
  have "same_lower (model_reference a) (model_reference m)" if "a \<in> set ?c" "same_lower (mo_id a) (mo_id m)" for a
    using that by (simp add: same_lower_def model_reference_def) (simp add: to_lower_def)
  moreover have "a = m" if "a \<in> set ms" "same_lower (model_reference a) (model_reference m)" for a
    using assms(1,2) that by (simp add: well_named_def)
  moreover have "distinct ?c" "m \<in> set ?c" using assms(1,2) by (simp_all add: well_named_def)
  moreover have "same_lower (mo_id m) (mo_id m)" by (simp add: same_lower_def)
  ultimately have 3: "filter (\<lambda>a. same_lower (mo_id a) (mo_id m)) ?c = [m]"
    by (intro only_element) simp_all
  show ?thesis
  proof (cases "split_first (CHR ''/'') (mo_id m)")
    case None
    with t 1 3 show ?thesis unfolding findExactModelReferenceMatch_def Let_def by simp
  next
    case (Some x)
    obtain p i where x: "x = (p, i)" by (cases x)
    show ?thesis
      unfolding findExactModelReferenceMatch_def Let_def t(1) 1 Some x option.case prod.case 2 [OF Some [unfolded x]] 3
      using t(2) by simp
  qed
qed

lemma canonical_own_name:
  assumes "well_named ms" and "m \<in> set ms"
  shows "canonical_provider ms (mo_provider m) = Some (mo_provider m)"
proof -
  have look: "(jm_get (fold (\<lambda>m. jm_set (to_lower (mo_provider m)) (mo_provider m)) xs acc) k = Some v \<longrightarrow>
        jm_get acc k = Some v \<or> v \<in> mo_provider ` set xs) \<and>
      (jm_get acc k \<noteq> None \<or> k \<in> (\<lambda>m. to_lower (mo_provider m)) ` set xs \<longrightarrow>
        jm_get (fold (\<lambda>m. jm_set (to_lower (mo_provider m)) (mo_provider m)) xs acc) k \<noteq> None)"
    for xs :: "catalog_model list" and acc k v
  proof (induction xs arbitrary: acc)
    case (Cons x xs)
    show ?case
      using Cons.IH [of "jm_set (to_lower (mo_provider x)) (mo_provider x) acc"] by (auto simp: jm_get_set split: if_splits)
  qed simp
  from look [of ms "[]" "to_lower (mo_provider m)"] assms(2) obtain v where v: "canonical_provider ms (mo_provider m) = Some v"
    unfolding canonical_provider_def by fastforce
  with look [of ms "[]" "to_lower (mo_provider m)"] obtain b where b: "b \<in> set ms" "v = mo_provider b"
    unfolding canonical_provider_def by fastforce
  with canonical_provider_lower [OF v] assms have "v = mo_provider m" by (auto simp: well_named_def same_lower_def)
  with v show ?thesis by simp
qed

text \<open>
  The full name of a model, provider and identifier, stands for that model: as a pattern of the scope,
  with no level and no warning, and on the command line, where its provider is one that can be used and its
  identifier is not the full name of another model. The order of the catalogue does not matter.
\<close>

theorem full_name_selects_its_model:
  assumes "well_named (mr_models mr)" and "m \<in> set (mr_models mr)"
  shows "parseModelPattern lc allowFallback (model_reference m) (mr_models mr) = \<lparr>pm_model = Some m, pm_level = None, pm_warning = None\<rparr> \<and>
    (mr_auth mr (mo_provider m) \<and> (\<forall>a \<in> set (mr_models mr). \<not> same_lower (model_reference a) (mo_id m)) \<longrightarrow>
       resolveCliModel lc mr None (Some (model_reference m)) cliThinking = cli_found m None None)"
proof -
  have pattern: "parseModelPattern lc allowFallback (model_reference m) (mr_models mr) = \<lparr>pm_model = Some m, pm_level = None, pm_warning = None\<rparr>"
    by (subst parseModelPattern.simps) (simp add: tryMatchModel_def full_name_found [OF assms])
  have "resolveCliModel lc mr None (Some (model_reference m)) cliThinking = cli_found m None None"
    if auth: "mr_auth mr (mo_provider m)" and own: "\<forall>a \<in> set (mr_models mr). \<not> same_lower (model_reference a) (mo_id m)"
  proof -
    have "CHR ''/'' \<notin> set (mo_provider m)" "mo_provider m \<noteq> []" using assms by (auto simp: well_named_def plain_name_def)
    then have s: "split_first (CHR ''/'') (model_reference m) = Some (mo_provider m, mo_id m)" "model_reference m \<noteq> []"
        "truthy_str (canonical_provider (mr_models mr) (mo_provider m)) = Some (mo_provider m)"
      by (simp_all add: split_first_at model_reference_def canonical_own_name [OF assms])
    have "parseModelPattern lc False (mo_id m) (filter (\<lambda>a. mo_provider a = mo_provider m) (mr_models mr)) =
        \<lparr>pm_model = Some m, pm_level = None, pm_warning = None\<rparr>"
      using own by (subst parseModelPattern.simps) (simp add: tryMatchModel_def identifier_found [OF assms])
    then have "resolve_with lc mr (model_reference m) cliThinking (Some (mo_provider m)) True (mo_id m) = cli_found m None None"
      using auth by (simp add: resolve_with_def inferred_match_def)
    moreover have "mr_models mr \<noteq> []" using assms(2) by auto
    ultimately show ?thesis using s by (simp add: resolveCliModel_def)
  qed
  with pattern show ?thesis by blast
qed

theorem full_name_selects_its_model_witness:
  "resolveCliModel (\<lambda>_ _. 0) one_runtime None (Some ''p/m'') None = cli_found one_model None None"
proof -
  have "well_named (mr_models one_runtime)" "one_model \<in> set (mr_models one_runtime)"
    by (simp_all add: one_runtime_def one_model_def well_named_def plain_name_def is_space_def)
  moreover have "mr_auth one_runtime (mo_provider one_model)" "\<forall>a \<in> set (mr_models one_runtime). \<not> same_lower (model_reference a) (mo_id one_model)"
    by (simp_all add: one_runtime_def one_model_def same_lower_def model_reference_def to_lower_def)
  moreover have "model_reference one_model = ''p/m''" by (simp add: model_reference_def one_model_def)
  ultimately show ?thesis using full_name_selects_its_model [of one_runtime one_model "\<lambda>_ _. 0" True None] by simp
qed

section \<open>Observation\<close>

text \<open>A level without a name matches every model, and the highest identifier of an alias is taken.\<close>

lemma level_alone_selects_a_model:
  "parseModelPattern (\<lambda>_ _. 0) False '':high'' [one_model] =
     \<lparr>pm_model = Some one_model, pm_level = Some ''high'', pm_warning = None\<rparr>"
  by code_simp

end
