(* ===== verification/File_Tools.thy ===== *)
theory File_Tools
  imports Truncate_Lemmas Prompt_Templates
begin

text \<open>
  The tools for files and directories (\<open>core/tools/read.ts\<close>, \<open>ls.ts\<close>, \<open>grep.ts\<close>, \<open>find.ts\<close>, \<open>write.ts\<close>) over the truncation
  of \<open>Truncate\<close>. The file system, the images, the sorting of names and the events of the search program are
  parameters; \<open>aborted\<close> says that the signal was raised before the call was settled, which rejects it at
  once. Offsets and limits are integers.
\<close>

section \<open>Sizes\<close>

text \<open>\<open>(bytes / d).toFixed(1)\<close> for an even \<open>d\<close>: the nearest tenth, the larger of two.\<close>

definition tenths :: "nat \<Rightarrow> nat \<Rightarrow> string" where
  "tenths bytes d = (let t = (10 * bytes + d div 2) div d in nat_str (t div 10) @ ''.'' @ nat_str (t mod 10))"

definition formatSize :: "nat \<Rightarrow> string" where
  "formatSize bytes =
     (if bytes < 1024 then nat_str bytes @ ''B''
      else if bytes < 1024 * 1024 then tenths bytes 1024 @ ''KB''
      else tenths bytes (1024 * 1024) @ ''MB'')"

definition code_of :: "string \<Rightarrow> utext" where
  "code_of s = map of_char s"

datatype tool_fault = ToolAborted | OffsetBeyondEnd int nat | OperationFailed string

section \<open>Reading a file\<close>

text \<open>\<open>xs.slice(a, b)\<close>: a negative end counts from the end of the list.\<close>

definition line_slice :: "'a list \<Rightarrow> nat \<Rightarrow> int \<Rightarrow> 'a list" where
  "line_slice xs a b = (let e = (if b < 0 then nat (b + int (length xs)) else nat b) in take (e - a) (drop a xs))"

text \<open>\<open>offset ? Math.max(0, offset - 1) : 0\<close>.\<close>

definition start_line :: "int option \<Rightarrow> nat" where
  "start_line offset = (case offset of Some k \<Rightarrow> if k = 0 then 0 else nat (max 0 (k - 1)) | None \<Rightarrow> 0)"

text \<open>What is shown of the file, the notice below it, and the offset the notice names.\<close>

record page =
  pg_content :: utext
  pg_notice :: utext
  pg_next :: "int option"
  pg_details :: "truncation option"

definition blank_line :: utext where
  "blank_line = [newline, newline]"

definition first_line_notice :: "nat \<Rightarrow> utext \<Rightarrow> string \<Rightarrow> string" where
  "first_line_notice display line path =
     ''[Line '' @ nat_str display @ '' is '' @ formatSize (byteLength line) @ '', exceeds '' @ formatSize DEFAULT_MAX_BYTES @
     '' limit. Use bash: sed -n '' @ [CHR 0x27] @ nat_str display @ ''p'' @ [CHR 0x27] @ '' '' @ path @ '' | head -c '' @
     nat_str DEFAULT_MAX_BYTES @ '']''"

definition showing_notice :: "nat \<Rightarrow> nat \<Rightarrow> nat \<Rightarrow> limit option \<Rightarrow> string" where
  "showing_notice display endDisplay total_lines by =
     ''[Showing lines '' @ nat_str display @ ''-'' @ nat_str endDisplay @ '' of '' @ nat_str total_lines @
     (if by = Some LimitLines then [] else '' ('' @ formatSize DEFAULT_MAX_BYTES @ '' limit)'') @
     ''. Use offset='' @ nat_str (endDisplay + 1) @ '' to continue.]''"

definition more_notice :: "int \<Rightarrow> int \<Rightarrow> string" where
  "more_notice remaining nextOffset =
     ''['' @ int_str remaining @ '' more lines in file. Use offset='' @ int_str nextOffset @ '' to continue.]''"

definition read_page :: "string \<Rightarrow> utext \<Rightarrow> int option \<Rightarrow> int option \<Rightarrow> tool_fault + page" where
  "read_page path textContent offset limit =
     (let allLines = split_nl textContent; startLine = start_line offset; n = length allLines in
      if startLine \<ge> n then Inl (OffsetBeyondEnd (case offset of Some k \<Rightarrow> k | None \<Rightarrow> 0) n)
      else
        (let endLine = map_option (\<lambda>l. min (int startLine + l) (int n)) limit;
             selected = join_with [newline] (case endLine of Some e \<Rightarrow> line_slice allLines startLine e | None \<Rightarrow> drop startLine allLines);
             truncation = truncateHead selected None None
         in if tr_firstLineExceedsLimit truncation
            then Inr \<lparr>pg_content = [], pg_notice = code_of (first_line_notice (startLine + 1) (allLines ! startLine) path),
                   pg_next = None, pg_details = Some truncation\<rparr>
            else if tr_truncated truncation
            then (let endDisplay = startLine + tr_outputLines truncation in
                  Inr \<lparr>pg_content = tr_content truncation,
                    pg_notice = blank_line @ code_of (showing_notice (startLine + 1) endDisplay n (tr_truncatedBy truncation)),
                    pg_next = Some (int endDisplay + 1), pg_details = Some truncation\<rparr>)
            else (case endLine of
                    Some e \<Rightarrow>
                      if e < int n
                      then Inr \<lparr>pg_content = tr_content truncation,
                             pg_notice = blank_line @ code_of (more_notice (int n - e) (e + 1)),
                             pg_next = Some (e + 1), pg_details = None\<rparr>
                      else Inr \<lparr>pg_content = tr_content truncation, pg_notice = [], pg_next = None, pg_details = None\<rparr>
                  | None \<Rightarrow> Inr \<lparr>pg_content = tr_content truncation, pg_notice = [], pg_next = None, pg_details = None\<rparr>)))"

datatype processed_image = NotProcessed string | Processed string string "string list"

datatype read_block = TextBlock utext | ImageBlock string string

text \<open>What the operations of the tool give: access and file content, or the message they throw.\<close>

record read_operations =
  ro_access :: "string option"
  ro_mime :: "string option"
  ro_image :: processed_image
  ro_text :: "string + utext"

definition non_vision_note :: "bool \<Rightarrow> string list" where
  "non_vision_note sees_images =
     (if sees_images then [] else [''[Current model does not support images. The image will be omitted from this request.]''])"

definition read_image :: "string \<Rightarrow> bool \<Rightarrow> processed_image \<Rightarrow> read_block list" where
  "read_image mime sees_images processed =
     (case processed of
        NotProcessed message \<Rightarrow>
          [TextBlock (code_of (join_with nl ([''Read image file ['' @ mime @ '']'', message] @ non_vision_note sees_images)))]
      | Processed data mimeType hints \<Rightarrow>
          [TextBlock (code_of (join_with nl ([''Read image file ['' @ mimeType @ '']''] @
             (if hints \<noteq> [] then [join_with nl hints] else []) @ non_vision_note sees_images))),
           ImageBlock data mimeType])"

text \<open>\<open>sees_images\<close>: no model is known, or its input has images.\<close>

definition read_execute ::
  "read_operations \<Rightarrow> bool \<Rightarrow> bool \<Rightarrow> string \<Rightarrow> int option \<Rightarrow> int option \<Rightarrow>
     tool_fault + read_block list \<times> truncation option" where
  "read_execute ops aborted sees_images path offset limit =
     (if aborted then Inl ToolAborted
      else (case ro_access ops of
              Some message \<Rightarrow> Inl (OperationFailed message)
            | None \<Rightarrow>
                (case truthy_str (ro_mime ops) of
                   Some mime \<Rightarrow> Inr (read_image mime sees_images (ro_image ops), None)
                 | None \<Rightarrow>
                     (case ro_text ops of
                        Inl message \<Rightarrow> Inl (OperationFailed message)
                      | Inr textContent \<Rightarrow>
                          (case read_page path textContent offset limit of
                             Inl e \<Rightarrow> Inl e
                           | Inr p \<Rightarrow> Inr ([TextBlock (pg_content p @ pg_notice p)], pg_details p))))))"

section \<open>Listing a directory\<close>

definition LS_DEFAULT_LIMIT :: int where
  "LS_DEFAULT_LIMIT = 500"

definition MAX_SAFE_INTEGER :: nat where
  "MAX_SAFE_INTEGER = 9007199254740991"

text \<open>A stable sort by a comparison.\<close>

fun insert_with :: "('a \<Rightarrow> 'a \<Rightarrow> int) \<Rightarrow> 'a \<Rightarrow> 'a list \<Rightarrow> 'a list" where
  "insert_with cmp x [] = [x]"
| "insert_with cmp x (y # ys) = (if cmp y x \<le> 0 then y # insert_with cmp x ys else x # y # ys)"

definition sort_with :: "('a \<Rightarrow> 'a \<Rightarrow> int) \<Rightarrow> 'a list \<Rightarrow> 'a list" where
  "sort_with cmp xs = fold (insert_with cmp) xs []"

text \<open>\<open>lo_stat\<close>: whether a path is a directory, \<open>None\<close> where it throws. \<open>lo_compare\<close> compares in lower case.\<close>

record ls_operations =
  lo_exists :: "string \<Rightarrow> bool"
  lo_stat :: "string \<Rightarrow> bool option"
  lo_readdir :: "string \<Rightarrow> string + string list"
  lo_compare :: "string \<Rightarrow> string \<Rightarrow> int"

fun ls_entries :: "(string \<Rightarrow> bool option) \<Rightarrow> string \<Rightarrow> int \<Rightarrow> string list \<Rightarrow> string list \<Rightarrow> string list \<times> bool" where
  "ls_entries stat dirPath effectiveLimit [] results = (results, False)"
| "ls_entries stat dirPath effectiveLimit (entry # entries) results =
     (if int (length results) \<ge> effectiveLimit then (results, True)
      else (case stat (join_abs dirPath entry) of
              None \<Rightarrow> ls_entries stat dirPath effectiveLimit entries results
            | Some d \<Rightarrow> ls_entries stat dirPath effectiveLimit entries (results @ [entry @ (if d then ''/'' else [])])))"

record tool_details =
  td_limitReached :: "int option"
  td_truncation :: "truncation option"
  td_linesTruncated :: bool

definition with_notices :: "utext \<Rightarrow> string list \<Rightarrow> utext" where
  "with_notices output notices =
     (if notices = [] then output else output @ blank_line @ code_of (''['' @ join_with ''. '' notices @ '']''))"

definition size_notice :: "truncation \<Rightarrow> string list" where
  "size_notice truncation = (if tr_truncated truncation then [formatSize DEFAULT_MAX_BYTES @ '' limit reached''] else [])"

definition ls_output :: "int \<Rightarrow> string list \<Rightarrow> bool \<Rightarrow> utext \<times> tool_details" where
  "ls_output effectiveLimit results entryLimitReached =
     (let truncation = truncateHead (join_with [newline] (map code_of results)) (Some MAX_SAFE_INTEGER) None;
          notices = (if entryLimitReached
              then [int_str effectiveLimit @ '' entries limit reached. Use limit='' @ int_str (effectiveLimit * 2) @ '' for more''] else []) @
            size_notice truncation
      in (with_notices (tr_content truncation) notices,
          \<lparr>td_limitReached = (if entryLimitReached then Some effectiveLimit else None),
           td_truncation = (if tr_truncated truncation then Some truncation else None), td_linesTruncated = False\<rparr>))"

definition no_details :: tool_details where
  "no_details = \<lparr>td_limitReached = None, td_truncation = None, td_linesTruncated = False\<rparr>"

definition ls_execute :: "ls_operations \<Rightarrow> bool \<Rightarrow> string \<Rightarrow> int option \<Rightarrow> tool_fault + utext \<times> tool_details" where
  "ls_execute ops aborted dirPath limit =
     (let effectiveLimit = (case limit of Some l \<Rightarrow> l | None \<Rightarrow> LS_DEFAULT_LIMIT) in
      if aborted then Inl ToolAborted
      else if \<not> lo_exists ops dirPath then Inl (OperationFailed (''Path not found: '' @ dirPath))
      else (case lo_stat ops dirPath of
              None \<Rightarrow> Inl (OperationFailed [])
            | Some False \<Rightarrow> Inl (OperationFailed (''Not a directory: '' @ dirPath))
            | Some True \<Rightarrow>
                (case lo_readdir ops dirPath of
                   Inl message \<Rightarrow> Inl (OperationFailed (''Cannot read directory: '' @ message))
                 | Inr entries \<Rightarrow>
                     (let (results, reached) =
                            ls_entries (lo_stat ops) dirPath effectiveLimit (sort_with (lo_compare ops) entries) []
                      in if results = [] then Inr (code_of ''(empty directory)'', no_details)
                         else Inr (ls_output effectiveLimit results reached)))))"

section \<open>Searching files\<close>

text \<open>
  The search program is missing, does not start, or writes lines and ends with a code; what it writes after
  it was stopped is ignored by the count.
\<close>

datatype 'l program_run = NoProgram | DidNotStart string | Ran "'l list" int string

definition GREP_DEFAULT_LIMIT :: int where
  "GREP_DEFAULT_LIMIT = 100"

text \<open>A line of the search program: a match with what it says of path, line number and text, or anything else.\<close>

datatype search_line = MatchLine "string option" "nat option" "utext option" | OtherLine

record grep_match =
  gm_filePath :: string
  gm_lineNumber :: nat
  gm_lineText :: "utext option"

text \<open>Matches are counted whether or not they can be shown; reaching the limit stops the program.\<close>

record search =
  se_count :: nat
  se_reached :: bool
  se_matches :: "grep_match list"

definition search_start :: search where
  "search_start = \<lparr>se_count = 0, se_reached = False, se_matches = []\<rparr>"

definition search_step :: "nat \<Rightarrow> search_line \<Rightarrow> search \<Rightarrow> search" where
  "search_step effectiveLimit line s =
     (case line of
        OtherLine \<Rightarrow> s
      | MatchLine path number text \<Rightarrow>
          if se_count s \<ge> effectiveLimit then s
          else
            \<lparr>se_count = Suc (se_count s), se_reached = (se_reached s \<or> Suc (se_count s) \<ge> effectiveLimit),
             se_matches = se_matches s @
               (case (truthy_str path, number) of
                  (Some p, Some k) \<Rightarrow> [\<lparr>gm_filePath = p, gm_lineNumber = k, gm_lineText = text\<rparr>] | _ \<Rightarrow> [])\<rparr>)"

definition carriage :: nat where
  "carriage = 13"

text \<open>\<open>replace(/\r\n/g, "\n")\<close>.\<close>

fun lf_lines :: "utext \<Rightarrow> utext" where
  "lf_lines [] = []"
| "lf_lines (c # cs) = (if c = carriage \<and> cs \<noteq> [] \<and> hd cs = newline then lf_lines cs else c # lf_lines cs)"

definition without_cr :: "utext \<Rightarrow> utext" where
  "without_cr t = filter (\<lambda>c. c \<noteq> carriage) t"

definition file_lines :: "utext \<Rightarrow> utext list" where
  "file_lines content = split_nl (map (\<lambda>c. if c = carriage then newline else c) (lf_lines content))"

definition without_last_newline :: "utext \<Rightarrow> utext" where
  "without_last_newline t = (if t \<noteq> [] \<and> last t = newline then butlast t else t)"

definition formatPath :: "bool \<Rightarrow> string \<Rightarrow> string \<Rightarrow> string" where
  "formatPath isDirectory searchPath filePath =
     (let rel = relative_path (norm_segments [] searchPath) (norm_segments [] filePath) in
      if isDirectory \<and> rel \<noteq> [] \<and> \<not> prefix ''..'' rel then map (\<lambda>c. if c = CHR 0x5C then slash else c) rel
      else basename filePath)"

definition show_line :: "string \<Rightarrow> nat \<Rightarrow> bool \<Rightarrow> utext \<Rightarrow> utext \<times> bool" where
  "show_line path number is_match text =
     (let (shown, cut) = truncateLine text None; sep = (if is_match then '':'' else ''-'') in
      (code_of (path @ sep @ nat_str number @ sep @ '' '') @ shown, cut))"

text \<open>The lines around a match; a file that cannot be read has none.\<close>

definition formatBlock :: "(string \<Rightarrow> utext option) \<Rightarrow> nat \<Rightarrow> string \<Rightarrow> grep_match \<Rightarrow> (utext \<times> bool) list" where
  "formatBlock readFile contextValue relativePath m =
     (case readFile (gm_filePath m) of
        None \<Rightarrow> [(code_of (relativePath @ '':'' @ nat_str (gm_lineNumber m) @ '': (unable to read file)''), False)]
      | Some content \<Rightarrow>
          (let lines = file_lines content; k = gm_lineNumber m;
               start = (if contextValue > 0 then max 1 (k - contextValue) else k);
               stop = (if contextValue > 0 then min (length lines) (k + contextValue) else k)
           in map (\<lambda>current.
                show_line relativePath current (current = k)
                  (without_cr (if 1 \<le> current \<and> current \<le> length lines then lines ! (current - 1) else [])))
              [start..<Suc stop]))"

definition format_match ::
  "(string \<Rightarrow> utext option) \<Rightarrow> nat \<Rightarrow> bool \<Rightarrow> string \<Rightarrow> grep_match \<Rightarrow> (utext \<times> bool) list" where
  "format_match readFile contextValue isDirectory searchPath m =
     (let relativePath = formatPath isDirectory searchPath (gm_filePath m) in
      case gm_lineText m of
        Some text \<Rightarrow>
          if contextValue = 0
          then [show_line relativePath (gm_lineNumber m) True (without_last_newline (without_cr (lf_lines text)))]
          else formatBlock readFile contextValue relativePath m
      | None \<Rightarrow> formatBlock readFile contextValue relativePath m)"

definition grep_output :: "nat \<Rightarrow> bool \<Rightarrow> (utext \<times> bool) list \<Rightarrow> utext \<times> tool_details" where
  "grep_output effectiveLimit reached outputLines =
     (let truncation = truncateHead (join_with [newline] (map fst outputLines)) (Some MAX_SAFE_INTEGER) None;
          cut = (\<exists>l \<in> set outputLines. snd l);
          notices = (if reached
              then [nat_str effectiveLimit @ '' matches limit reached. Use limit='' @ nat_str (effectiveLimit * 2) @
                    '' for more, or refine pattern''] else []) @
            size_notice truncation @
            (if cut then [''Some lines truncated to '' @ nat_str GREP_MAX_LINE_LENGTH @ '' chars. Use read tool to see full lines''] else [])
      in (with_notices (tr_content truncation) notices,
          \<lparr>td_limitReached = (if reached then Some (int effectiveLimit) else None),
           td_truncation = (if tr_truncated truncation then Some truncation else None), td_linesTruncated = cut\<rparr>))"

text \<open>What is passed to the search program.\<close>

definition grep_args :: "bool \<Rightarrow> bool \<Rightarrow> string option \<Rightarrow> string \<Rightarrow> string \<Rightarrow> string list" where
  "grep_args ignoreCase literal glob pattern searchPath =
     [''--json'', ''--line-number'', ''--color=never'', ''--hidden''] @ (if ignoreCase then [''--ignore-case''] else []) @
     (if literal then [''--fixed-strings''] else []) @ (case truthy_str glob of Some g \<Rightarrow> [''--glob'', g] | None \<Rightarrow> []) @
     [''--'', pattern, searchPath]"

definition grep_execute ::
  "(string \<Rightarrow> bool option) \<Rightarrow> (string \<Rightarrow> utext option) \<Rightarrow> (string list \<Rightarrow> search_line program_run) \<Rightarrow> bool \<Rightarrow> string list \<Rightarrow> string \<Rightarrow>
     int option \<Rightarrow> int option \<Rightarrow> tool_fault + utext \<times> tool_details" where
  "grep_execute isDirectory readFile run aborted args searchPath context limit =
     (let contextValue = (case context of Some c \<Rightarrow> nat c | None \<Rightarrow> 0);
          effectiveLimit = nat (max 1 (case limit of Some l \<Rightarrow> l | None \<Rightarrow> GREP_DEFAULT_LIMIT))
      in if aborted then Inl ToolAborted
         else (case run args of
                 NoProgram \<Rightarrow> Inl (OperationFailed ''ripgrep (rg) is not available and could not be downloaded'')
               | outcome \<Rightarrow>
                   (case isDirectory searchPath of
                      None \<Rightarrow> Inl (OperationFailed (''Path not found: '' @ searchPath))
                    | Some dir \<Rightarrow>
                        (case outcome of
                           Ran lines exit stderr \<Rightarrow>
                             (let s = fold (search_step effectiveLimit) lines search_start in
                              if \<not> se_reached s \<and> exit \<noteq> 0 \<and> exit \<noteq> 1
                              then Inl (OperationFailed (if trim stderr \<noteq> [] then trim stderr
                                     else ''ripgrep exited with code '' @ int_str exit))
                              else if se_count s = 0 then Inr (code_of ''No matches found'', no_details)
                              else Inr (grep_output effectiveLimit (se_reached s)
                                     (concat (map (format_match readFile contextValue dir searchPath) (se_matches s)))))
                         | DidNotStart message \<Rightarrow> Inl (OperationFailed (''Failed to run ripgrep: '' @ message))
                         | NoProgram \<Rightarrow> Inl (OperationFailed [])))))"

section \<open>Finding files\<close>

definition FIND_DEFAULT_LIMIT :: int where
  "FIND_DEFAULT_LIMIT = 1000"

definition relativizeFindResultPath :: "string \<Rightarrow> string \<Rightarrow> string" where
  "relativizeFindResultPath resultPath searchPath =
     (let relativePath = (if is_absolute resultPath
            then relative_path (norm_segments [] searchPath) (norm_segments [] resultPath) else resultPath)
      in if ends_with_slash resultPath \<and> \<not> ends_with_slash relativePath then relativePath @ [slash] else relativePath)"

text \<open>The search path and its parents, up to the root.\<close>

definition insideGitRepo :: "(string \<Rightarrow> bool) \<Rightarrow> string \<Rightarrow> bool" where
  "insideGitRepo exists searchPath =
     (let segs = norm_segments [] searchPath in
      list_ex (\<lambda>k. exists (join_abs (show_segments (take k segs)) ''.git'')) [0..<Suc (length segs)])"

definition effectivePattern :: "string \<Rightarrow> string" where
  "effectivePattern pattern =
     (if slash \<in> set pattern \<and> \<not> prefix [slash] pattern \<and> \<not> prefix ''**/'' pattern \<and> pattern \<noteq> ''**''
      then ''**/'' @ pattern else pattern)"

definition find_args :: "bool \<Rightarrow> int \<Rightarrow> string \<Rightarrow> string \<Rightarrow> string list" where
  "find_args inside effectiveLimit pattern searchPath =
     [''--glob'', ''--color=never'', ''--hidden''] @ (if inside then [] else [''--no-require-git'']) @
     [''--max-results'', int_str effectiveLimit] @ (if slash \<in> set pattern then [''--full-path''] else []) @
     [''--'', effectivePattern pattern, searchPath]"

definition without_last_cr :: "string \<Rightarrow> string" where
  "without_last_cr line = (if line \<noteq> [] \<and> last line = CHR 0x0D then butlast line else line)"

definition shown_paths :: "string \<Rightarrow> string list \<Rightarrow> string list" where
  "shown_paths searchPath lines =
     map (\<lambda>line. relativizeFindResultPath line searchPath) (filter (\<lambda>line. line \<noteq> []) (map (\<lambda>l. trim (without_last_cr l)) lines))"

definition find_output :: "string \<Rightarrow> int \<Rightarrow> string list \<Rightarrow> utext \<times> tool_details" where
  "find_output hint effectiveLimit relativized =
     (let reached = int (length relativized) \<ge> effectiveLimit;
          truncation = truncateHead (join_with [newline] (map code_of relativized)) (Some MAX_SAFE_INTEGER) None;
          notices = (if reached then [int_str effectiveLimit @ '' results limit reached'' @ hint] else []) @ size_notice truncation
      in (with_notices (tr_content truncation) notices,
          \<lparr>td_limitReached = (if reached then Some effectiveLimit else None),
           td_truncation = (if tr_truncated truncation then Some truncation else None), td_linesTruncated = False\<rparr>))"

definition nothing_found :: "utext \<times> tool_details" where
  "nothing_found = (code_of ''No files found matching pattern'', no_details)"

text \<open>A host may bring a \<open>glob\<close> of its own, with a test that a path exists.\<close>

definition find_with_glob ::
  "(string \<Rightarrow> bool) \<Rightarrow> (string \<Rightarrow> string \<Rightarrow> int \<Rightarrow> string + string list) \<Rightarrow> string \<Rightarrow> string \<Rightarrow> int \<Rightarrow>
     tool_fault + utext \<times> tool_details" where
  "find_with_glob exists glob pattern searchPath effectiveLimit =
     (if \<not> exists searchPath then Inl (OperationFailed (''Path not found: '' @ searchPath))
      else (case glob pattern searchPath effectiveLimit of
              Inl message \<Rightarrow> Inl (OperationFailed message)
            | Inr results \<Rightarrow>
                if results = [] then Inr nothing_found
                else Inr (find_output [] effectiveLimit (map (\<lambda>p. relativizeFindResultPath p searchPath) results))))"

definition find_with_fd :: "string program_run \<Rightarrow> string \<Rightarrow> int \<Rightarrow> tool_fault + utext \<times> tool_details" where
  "find_with_fd outcome searchPath effectiveLimit =
     (case outcome of
        NoProgram \<Rightarrow> Inl (OperationFailed ''fd is not available and could not be downloaded'')
      | DidNotStart message \<Rightarrow> Inl (OperationFailed (''Failed to run fd: '' @ message))
      | Ran lines exit stderr \<Rightarrow>
          if join_with nl lines = []
          then (if exit \<noteq> 0
                then Inl (OperationFailed (if trim stderr \<noteq> [] then trim stderr else ''fd exited with code '' @ int_str exit))
                else Inr nothing_found)
          else Inr (find_output (''. Use limit='' @ int_str (effectiveLimit * 2) @ '' for more, or refine pattern'')
                 effectiveLimit (shown_paths searchPath lines)))"

definition find_execute ::
  "(string \<Rightarrow> bool) \<Rightarrow> (string \<Rightarrow> string \<Rightarrow> int \<Rightarrow> string + string list) option \<Rightarrow> (string list \<Rightarrow> string program_run) \<Rightarrow>
     bool \<Rightarrow> string \<Rightarrow> string \<Rightarrow> int option \<Rightarrow> tool_fault + utext \<times> tool_details" where
  "find_execute exists glob run aborted pattern searchPath limit =
     (let effectiveLimit = (case limit of Some l \<Rightarrow> l | None \<Rightarrow> FIND_DEFAULT_LIMIT) in
      if aborted then Inl ToolAborted
      else (case glob of
              Some g \<Rightarrow> find_with_glob exists g pattern searchPath effectiveLimit
            | None \<Rightarrow>
                find_with_fd (run (find_args (insideGitRepo exists searchPath) effectiveLimit pattern searchPath))
                  searchPath effectiveLimit))"

section \<open>Writing a file\<close>

text \<open>The length of a JavaScript string: code units, two for a code point above the first plane.\<close>

definition js_length :: "utext \<Rightarrow> nat" where
  "js_length t = sum_list (map (\<lambda>c. if c \<ge> 65536 then 2 else 1) t)"

text \<open>
  The signal is looked at before the directory is made, before the file is written and after it; \<open>aborted\<close>
  says at which look it had been raised. The directory and the file may fail. The file holds the content
  where the second component says so.
\<close>

definition write_execute ::
  "(nat \<Rightarrow> bool) \<Rightarrow> string option \<Rightarrow> string option \<Rightarrow> string \<Rightarrow> utext \<Rightarrow> (tool_fault + string) \<times> bool" where
  "write_execute aborted mkdir writeFile path content =
     (if aborted 0 then (Inl ToolAborted, False)
      else (case mkdir of
              Some message \<Rightarrow> (Inl (OperationFailed message), False)
            | None \<Rightarrow>
                if aborted 1 then (Inl ToolAborted, False)
                else (case writeFile of
                        Some message \<Rightarrow> (Inl (OperationFailed message), False)
                      | None \<Rightarrow>
                          if aborted 2 then (Inl ToolAborted, True)
                          else (Inr (''Successfully wrote '' @ nat_str (js_length content) @ '' bytes to '' @ path), True))))"

end
