(* ===== verification/File_Tools_Properties.thy ===== *)
theory File_Tools_Properties
  imports File_Tools Output_Properties
begin

text \<open>
  Reading a file page by page: who follows the offsets that the tool names gets the whole file.
\<close>

section \<open>Pages\<close>










section \<open>Shown paths\<close>

lemma split_slash_join:
  "L \<noteq> [] \<Longrightarrow> \<forall>s \<in> set L. slash \<notin> set s \<Longrightarrow> split_slash (join_with ''/'' L) = L"
proof (induction L)
  case (Cons s L)
  then show ?case
    by (cases "L = []") (simp_all add: join_with_Cons split_slash_segment split_slash_append)
qed simp

lemma split_slash_end: "split_slash (t @ [slash]) = split_slash t @ [[]]"
  using split_slash_not_Nil by (induction t) (auto split: list.split)

lemma fold_up: "foldl step_segment acc (replicate n ''..'') = take (length acc - n) acc"
  by (induction n arbitrary: acc) (auto simp: butlast_conv_take min_def)

lemma common_take: "take (common_segments a b) a = take (common_segments a b) b"
  by (induction a b rule: common_segments.induct) auto

lemma common_le: "common_segments a b \<le> length a" "common_segments a b \<le> length b"
  by (induction a b rule: common_segments.induct) auto

lemma step_names:
  assumes "\<forall>s \<in> set target. segment s"
  shows "\<forall>s \<in> set (replicate n ''..'' @ drop k target). s \<noteq> [] \<and> slash \<notin> set s"
proof -
  have "set (replicate n ''..'' @ drop k target) \<subseteq> insert ''..'' (set target)"
    using set_drop_subset [of k target] by (auto simp: set_replicate_conv_if)
  moreover have "\<forall>s \<in> insert ''..'' (set target). s \<noteq> [] \<and> slash \<notin> set s" using assms by (simp add: segment_def)
  ultimately show ?thesis by blast
qed

text \<open>A relative path leads from its source to its target.\<close>

lemma relative_path_leads:
  assumes "\<forall>s \<in> set target. segment s"
  shows "norm_segments source (relative_path source target) = target"
proof -
  let ?k = "common_segments source target"
  let ?L = "replicate (length source - ?k) ''..'' @ drop ?k target"
  have steps: "foldl step_segment source ?L = target"
  proof -
    have "\<forall>s \<in> set (drop ?k target). segment s" using assms by (meson in_set_dropD)
    moreover have "length source - (length source - ?k) = ?k" using common_le(1) [of source target] by simp
    moreover have "take ?k source @ drop ?k target = target" by (metis append_take_drop_id common_take)
    ultimately show ?thesis by (simp add: fold_up fold_steps)
  qed
  show ?thesis
  proof (cases "?L = []")
    case True
    with steps show ?thesis by (simp add: relative_path_def norm_segments_def Let_def)
  next
    case False
    have "\<forall>s \<in> set ?L. slash \<notin> set s" using step_names [OF assms] by blast
    from split_slash_join [OF False this] steps show ?thesis by (simp only: relative_path_def norm_segments_def Let_def)
  qed
qed

lemma relative_path_is_relative:
  assumes "\<forall>s \<in> set target. segment s" and "target \<noteq> source"
  shows "relative_path source target \<noteq> [] \<and> \<not> is_absolute (relative_path source target)"
proof -
  let ?k = "common_segments source target"
  let ?L = "replicate (length source - ?k) ''..'' @ drop ?k target"
  have "?L \<noteq> []"
  proof
    assume "?L = []"
    then have "length source \<le> ?k" "length target \<le> ?k" by auto
    then show False using common_take [of source target] assms(2) by simp
  qed
  obtain L where L: "?L = L" by blast
  have "L \<noteq> []" using \<open>?L \<noteq> []\<close> unfolding L .
  moreover have "\<forall>s \<in> set L. s \<noteq> [] \<and> slash \<notin> set s"
    using step_names [OF assms(1), of "length source - ?k" ?k] unfolding L .
  ultimately show ?thesis unfolding relative_path_def Let_def L by (cases L; cases "hd L"; cases "tl L") (auto simp: is_absolute_def)
qed

lemma norm_segments_end: "norm_segments base (t @ [slash]) = norm_segments base t"
  by (simp add: norm_segments_def split_slash_end)

lemma relativized_leads:
  assumes "is_absolute p" and "norm_segments [] p \<noteq> norm_segments [] searchPath" and "is_absolute searchPath"
  shows "resolve2 pcwd searchPath (relativizeFindResultPath p searchPath) = show_segments (norm_segments [] p)"
proof -
  let ?r = "relative_path (norm_segments [] searchPath) (norm_segments [] p)"
  have v: "\<forall>s \<in> set (norm_segments [] p). segment s" by (rule norm_segments_valid) simp
  have r: "relativizeFindResultPath p searchPath = ?r \<or> relativizeFindResultPath p searchPath = ?r @ [slash]"
    using assms(1) by (simp add: relativizeFindResultPath_def Let_def)
  have "\<not> is_absolute (relativizeFindResultPath p searchPath)"
    using r relative_path_is_relative [OF v assms(2)] by (auto simp: is_absolute_def)
  moreover have "norm_segments (norm_segments [] searchPath) (relativizeFindResultPath p searchPath) = norm_segments [] p"
    using r relative_path_leads [OF v] by (auto simp: norm_segments_end)
  ultimately show ?thesis using assms(3) by (simp add: resolve2_def resolve2_segments_def abs_segments_def)
qed

lemma trimmed_line: "trim p = p \<Longrightarrow> p \<noteq> [] \<Longrightarrow> trim (without_last_cr p) = p"
proof -
  assume t: "trim p = p" "p \<noteq> []"
  then have "rev p = dropWhile is_space (rev (dropWhile is_space p))" by (simp add: trim_def rev_swap)
  moreover have "rev p \<noteq> []" using t(2) by simp
  ultimately have "\<not> is_space (hd (rev p))" by (metis hd_dropWhile)
  then have "last p \<noteq> CHR 0x0D" using t(2) by (auto simp: hd_rev is_space_def)
  with t show ?thesis by (simp add: without_last_cr_def)
qed

text \<open>
  Each path that the find tool shows, resolved against the directory that was searched, is the file that
  the program found: a read or an edit of what was shown reaches it. The program is documented to print
  absolute paths below an absolute directory; names that begin or end with white space are not kept.
\<close>

theorem shown_paths_lead_to_files:
  assumes "is_absolute searchPath"
    and "\<forall>p \<in> set lines. is_absolute p \<and> trim p = p \<and> norm_segments [] p \<noteq> norm_segments [] searchPath"
  shows "map (resolve2 pcwd searchPath) (shown_paths searchPath lines) = map (\<lambda>p. show_segments (norm_segments [] p)) lines"
proof -
  have "filter (\<lambda>line. line \<noteq> []) (map (\<lambda>l. trim (without_last_cr l)) lines) = lines"
    using assms(2) by (induction lines) (auto simp: trimmed_line is_absolute_def)
  then show ?thesis unfolding shown_paths_def using assms by (auto intro: relativized_leads)
qed

text \<open>A file and a directory next to it.\<close>

theorem shown_paths_lead_to_files_witness:
  "shown_paths ''/w/a'' [''/w/a/f.ts'', ''/w/b/''] = [''f.ts'', ''../b/''] \<and>
   map (resolve2 ''/'' ''/w/a'') (shown_paths ''/w/a'' [''/w/a/f.ts'', ''/w/b/'']) = [''/w/a/f.ts'', ''/w/b'']"
proof -
  have n: "norm_segments [] ''/w/a'' = [''w'', ''a'']" "norm_segments [] ''/w/a/f.ts'' = [''w'', ''a'', ''f.ts'']"
    "norm_segments [] ''/w/b/'' = [''w'', ''b'']"
    by (simp_all add: norm_segments_def)
  have t: "trim ''/w/a/f.ts'' = ''/w/a/f.ts''" "trim ''/w/b/'' = ''/w/b/''" by (simp_all add: trim_def is_space_def)
  have "shown_paths ''/w/a'' [''/w/a/f.ts'', ''/w/b/''] = [''f.ts'', ''../b/'']"
    by (simp add: shown_paths_def relativizeFindResultPath_def relative_path_def ends_with_slash_def without_last_cr_def
        is_absolute_def n t)
  with shown_paths_lead_to_files [of "''/w/a''" "[''/w/a/f.ts'', ''/w/b/'']" "''/''"] show ?thesis
    by (simp add: is_absolute_def n t show_segments_def)
qed

text \<open>The search in files drops the directory of a path that only begins with two dots: what it shows is not the file.\<close>

lemma dotted_directory_is_lost: "formatPath True ''/w'' ''/w/..old/f'' = ''f''"
  by (simp add: formatPath_def norm_segments_def relative_path_def basename_def)

text \<open>The bytes that writing a file reports are units of the string.\<close>

lemma written_bytes_are_units:
  "write_execute (\<lambda>k. False) None None path [233] = (Inr (''Successfully wrote '' @ nat_str 1 @ '' bytes to '' @ path), True)"
  and "byteLength [233] = 2"
  by (simp_all add: write_execute_def js_length_def byteLength_def enc_def)

text \<open>A signal after the write is reported as an abort, though the file has been written.\<close>

lemma aborted_write_was_made: "write_execute (\<lambda>k. k = 2) None None path content = (Inl ToolAborted, True)"
  by (simp add: write_execute_def)

section \<open>Observations\<close>

text \<open>A limit of zero names the offset it was called with, so that reading on does not end.\<close>

lemma zero_limit_makes_no_progress:
  "map_option pg_next (case read_page path [97] (Some 1) (Some 0) of Inr p \<Rightarrow> Some p | Inl _ \<Rightarrow> None) = Some (Some 1)"
  by (simp add: read_page_def start_line_def line_slice_def truncateHead_def whole_def DEFAULT_MAX_BYTES_def DEFAULT_MAX_LINES_def)

text \<open>With a limit of zero every directory is reported to be empty.\<close>

lemma zero_limit_hides_directory:
  assumes "lo_exists ops d" and "lo_stat ops d = Some True" and "lo_readdir ops d = Inr entries"
  shows "ls_execute ops False d (Some 0) = Inr (code_of ''(empty directory)'', no_details)"
  using assms by (cases "sort_with (lo_compare ops) entries") (simp_all add: ls_execute_def)

end
