(* ===== verification/Config_Values.thy ===== *)
theory Config_Values
  imports Session_Manager
begin

text \<open>
  Configured values (\<open>core/resolve-config-value.ts\<close>): an API key or a header is a literal, a template with
  environment variables, or a shell command whose result is remembered. What an object gives for a name is a
  function (what it inherits included); the shells are parameters that may answer differently each time.
\<close>

section \<open>Templates\<close>

datatype template_part = LiteralPart string | EnvPart string

datatype config_reference = CommandReference string | TemplateReference "template_part list"

definition appendLiteral :: "template_part list \<Rightarrow> string \<Rightarrow> template_part list" where
  "appendLiteral parts value =
     (if value = [] then parts
      else if parts = [] then [LiteralPart value]
      else (case last parts of
              LiteralPart v \<Rightarrow> butlast parts @ [LiteralPart (v @ value)]
            | EnvPart _ \<Rightarrow> parts @ [LiteralPart value]))"

abbreviation dollar :: char where
  "dollar \<equiv> CHR ''$''"

definition name_start :: "char \<Rightarrow> bool" where
  "name_start c =
     (let n = of_char c :: nat in (65 \<le> n \<and> n \<le> 90) \<or> (97 \<le> n \<and> n \<le> 122) \<or> n = 95)"

definition name_char :: "char \<Rightarrow> bool" where
  "name_char c = (name_start c \<or> (let n = of_char c :: nat in 48 \<le> n \<and> n \<le> 57))"

text \<open>\<open>ENV_VAR_NAME_RE\<close> and the match of \<open>ENV_VAR_NAME_PREFIX_RE\<close>, empty where there is none.\<close>

definition env_name :: "string \<Rightarrow> bool" where
  "env_name s = (s \<noteq> [] \<and> name_start (hd s) \<and> list_all name_char s)"

definition env_name_prefix :: "string \<Rightarrow> string" where
  "env_name_prefix s = (if s \<noteq> [] \<and> name_start (hd s) then takeWhile name_char s else [])"

text \<open>The loop, on what is left of the text; \<open>before\<close> is what precedes the next dollar.\<close>

function parse_template :: "string \<Rightarrow> template_part list \<Rightarrow> template_part list" where
  "parse_template config parts =
     (let before = takeWhile (\<lambda>c. c \<noteq> dollar) config; parts1 = appendLiteral parts before in
      case dropWhile (\<lambda>c. c \<noteq> dollar) config of
        [] \<Rightarrow> parts1
      | _ # rest \<Rightarrow>
          (case rest of
             c # cs \<Rightarrow>
               if c = dollar \<or> c = CHR ''!'' then parse_template cs (appendLiteral parts1 [c])
               else if c = CHR ''{''
               then (let name = takeWhile (\<lambda>c. c \<noteq> CHR ''}'') cs in
                     case dropWhile (\<lambda>c. c \<noteq> CHR ''}'') cs of
                       [] \<Rightarrow> parse_template rest (appendLiteral parts1 [dollar])
                     | _ # after \<Rightarrow>
                         if env_name name then parse_template after (parts1 @ [EnvPart name])
                         else parse_template after (appendLiteral parts1 ([dollar, c] @ name @ ''}'')))
               else if env_name_prefix rest \<noteq> []
               then parse_template (drop (length (env_name_prefix rest)) rest) (parts1 @ [EnvPart (env_name_prefix rest)])
               else parse_template rest (appendLiteral parts1 [dollar])
           | [] \<Rightarrow> appendLiteral parts1 [dollar]))"
  by pat_completeness auto

lemma dropWhile_rest_shorter: "dropWhile P s = c # t \<Longrightarrow> length t < length s"
  by (metis length_dropWhile_le length_Cons less_eq_Suc_le)

termination parse_template
proof (relation "measure (length \<circ> fst)", goal_cases)
  case (2 config parts before parts1 x rest c cs)
  then show ?case using dropWhile_rest_shorter [of _ config] by fastforce
next
  case (4 config parts before parts1 x rest c cs name y after)
  then show ?case using dropWhile_rest_shorter [of _ config] dropWhile_rest_shorter [of _ cs] by fastforce
next
  case (5 config parts before parts1 x rest c cs name y after)
  then show ?case using dropWhile_rest_shorter [of _ config] dropWhile_rest_shorter [of _ cs] by fastforce
next
  case (6 config parts before parts1 x rest c cs)
  then show ?case using dropWhile_rest_shorter [of _ config] by fastforce
qed (use dropWhile_rest_shorter in \<open>fastforce+\<close>)

declare parse_template.simps [simp del]

definition parseConfigValueTemplate :: "string \<Rightarrow> template_part list" where
  "parseConfigValueTemplate config = parse_template config []"

definition parseConfigValueReference :: "string \<Rightarrow> config_reference" where
  "parseConfigValueReference config =
     (if config \<noteq> [] \<and> hd config = CHR ''!'' then CommandReference config
      else TemplateReference (parseConfigValueTemplate config))"

section \<open>Variables\<close>

text \<open>What the environments give: the one that is passed, and the one of the process.\<close>

type_synonym env = "string \<Rightarrow> string option"

definition resolveEnvConfigValue :: "env \<Rightarrow> env \<Rightarrow> string \<Rightarrow> string option" where
  "resolveEnvConfigValue process_env env name =
     (case truthy_str (env name) of Some v \<Rightarrow> Some v | None \<Rightarrow> truthy_str (process_env name))"

fun getTemplateEnvVarNames :: "template_part list \<Rightarrow> string list \<Rightarrow> string list" where
  "getTemplateEnvVarNames [] names = names"
| "getTemplateEnvVarNames (LiteralPart _ # parts) names = getTemplateEnvVarNames parts names"
| "getTemplateEnvVarNames (EnvPart n # parts) names =
     getTemplateEnvVarNames parts (if n \<in> set names then names else names @ [n])"

fun resolveTemplate :: "(string \<Rightarrow> string option) \<Rightarrow> template_part list \<Rightarrow> string \<Rightarrow> string option" where
  "resolveTemplate look [] resolved = Some resolved"
| "resolveTemplate look (LiteralPart v # parts) resolved = resolveTemplate look parts (resolved @ v)"
| "resolveTemplate look (EnvPart n # parts) resolved =
     (case look n of None \<Rightarrow> None | Some v \<Rightarrow> resolveTemplate look parts (resolved @ v))"

definition getConfigValueEnvVarName :: "string \<Rightarrow> string option" where
  "getConfigValueEnvVarName config =
     (case parseConfigValueReference config of TemplateReference [EnvPart n] \<Rightarrow> Some n | _ \<Rightarrow> None)"

definition getConfigValueEnvVarNames :: "string \<Rightarrow> string list" where
  "getConfigValueEnvVarNames config =
     (case parseConfigValueReference config of
        TemplateReference parts \<Rightarrow> getTemplateEnvVarNames parts [] | CommandReference _ \<Rightarrow> [])"

definition getMissingConfigValueEnvVarNames :: "env \<Rightarrow> env \<Rightarrow> string \<Rightarrow> string list" where
  "getMissingConfigValueEnvVarNames process_env env config =
     filter (\<lambda>n. resolveEnvConfigValue process_env env n = None) (getConfigValueEnvVarNames config)"

definition isCommandConfigValue :: "string \<Rightarrow> bool" where
  "isCommandConfigValue config =
     (case parseConfigValueReference config of CommandReference _ \<Rightarrow> True | TemplateReference _ \<Rightarrow> False)"

definition isConfigValueConfigured :: "env \<Rightarrow> env \<Rightarrow> string \<Rightarrow> bool" where
  "isConfigValueConfigured process_env env config = (getMissingConfigValueEnvVarNames process_env env config = [])"

section \<open>Commands\<close>

text \<open>What starting the configured shell gives; \<open>sh_default\<close> is \<open>None\<close> where \<open>execSync\<close> throws.\<close>

datatype spawn_result = SpawnThrew | SpawnMissing | SpawnFailed | Exited int string

record shells =
  sh_win32 :: bool
  sh_configured :: "nat \<Rightarrow> string \<Rightarrow> spawn_result"
  sh_default :: "nat \<Rightarrow> string \<Rightarrow> string option"
  sh_process_env :: env

text \<open>The remembered results, and the commands that were run, the last one first.\<close>

record config_state =
  cs_cache :: "string option jsmap"
  cs_runs :: "string list"

definition no_results :: config_state where
  "no_results = \<lparr>cs_cache = [], cs_runs = []\<rparr>"

definition executeWithConfiguredShell :: "spawn_result \<Rightarrow> bool \<times> string option" where
  "executeWithConfiguredShell outcome =
     (case outcome of
        SpawnThrew \<Rightarrow> (False, None)
      | SpawnMissing \<Rightarrow> (False, None)
      | SpawnFailed \<Rightarrow> (True, None)
      | Exited status stdout \<Rightarrow> (True, if status \<noteq> 0 then None else truthy_str (Some (trim stdout))))"

definition executeWithDefaultShell :: "string option \<Rightarrow> string option" where
  "executeWithDefaultShell output = (case output of Some t \<Rightarrow> truthy_str (Some (trim t)) | None \<Rightarrow> None)"

definition executeCommandUncached :: "shells \<Rightarrow> string \<Rightarrow> config_state \<Rightarrow> string option \<times> config_state" where
  "executeCommandUncached sh commandConfig s =
     (let command = drop 1 commandConfig; time = length (cs_runs s); fallback = executeWithDefaultShell (sh_default sh time command) in
      (if sh_win32 sh
       then (let (executed, v) = executeWithConfiguredShell (sh_configured sh time command) in if executed then v else fallback)
       else fallback,
       s\<lparr>cs_runs := commandConfig # cs_runs s\<rparr>))"

definition executeCommand :: "shells \<Rightarrow> string \<Rightarrow> config_state \<Rightarrow> string option \<times> config_state" where
  "executeCommand sh commandConfig s =
     (case jm_get (cs_cache s) commandConfig of
        Some result \<Rightarrow> (result, s)
      | None \<Rightarrow>
          (let (result, s1) = executeCommandUncached sh commandConfig s in
           (result, s1\<lparr>cs_cache := jm_set commandConfig result (cs_cache s1)\<rparr>)))"

definition clearConfigValueCache :: "config_state \<Rightarrow> config_state" where
  "clearConfigValueCache s = s\<lparr>cs_cache := []\<rparr>"

section \<open>Values\<close>

definition resolveConfigValue :: "shells \<Rightarrow> env \<Rightarrow> string \<Rightarrow> config_state \<Rightarrow> string option \<times> config_state" where
  "resolveConfigValue sh env config s =
     (case parseConfigValueReference config of
        CommandReference c \<Rightarrow> executeCommand sh c s
      | TemplateReference parts \<Rightarrow> (resolveTemplate (resolveEnvConfigValue (sh_process_env sh) env) parts [], s))"

definition resolveConfigValueUncached :: "shells \<Rightarrow> env \<Rightarrow> string \<Rightarrow> config_state \<Rightarrow> string option \<times> config_state" where
  "resolveConfigValueUncached sh env config s =
     (case parseConfigValueReference config of
        CommandReference c \<Rightarrow> executeCommandUncached sh c s
      | TemplateReference parts \<Rightarrow> (resolveTemplate (resolveEnvConfigValue (sh_process_env sh) env) parts [], s))"

definition unresolved_error :: "shells \<Rightarrow> env \<Rightarrow> string \<Rightarrow> string \<Rightarrow> string" where
  "unresolved_error sh env config description =
     ''Failed to resolve '' @ description @
     (case parseConfigValueReference config of
        CommandReference c \<Rightarrow> '' from shell command: '' @ drop 1 c
      | TemplateReference _ \<Rightarrow>
          (case getMissingConfigValueEnvVarNames (sh_process_env sh) env config of
             [] \<Rightarrow> []
           | [n] \<Rightarrow> '' from environment variable: '' @ n
           | names \<Rightarrow> '' from environment variables: '' @ join_with '', '' names))"

definition resolveConfigValueOrThrow ::
  "shells \<Rightarrow> string \<Rightarrow> env \<Rightarrow> string \<Rightarrow> config_state \<Rightarrow> (string + string) \<times> config_state" where
  "resolveConfigValueOrThrow sh description env config s =
     (case resolveConfigValueUncached sh env config s of
        (Some v, s1) \<Rightarrow> (Inr v, s1)
      | (None, s1) \<Rightarrow> (Inl (unresolved_error sh env config description), s1))"

fun resolve_each :: "shells \<Rightarrow> env \<Rightarrow> string jsmap \<Rightarrow> string jsmap \<Rightarrow> config_state \<Rightarrow> string jsmap \<times> config_state" where
  "resolve_each sh env [] resolved s = (resolved, s)"
| "resolve_each sh env ((key, value) # headers) resolved s =
     (let (v, s1) = resolveConfigValue sh env value s in
      resolve_each sh env headers (case truthy_str v of Some r \<Rightarrow> jm_set key r resolved | None \<Rightarrow> resolved) s1)"

definition resolveHeaders :: "shells \<Rightarrow> env \<Rightarrow> string jsmap option \<Rightarrow> config_state \<Rightarrow> string jsmap option \<times> config_state" where
  "resolveHeaders sh env headers s =
     (case headers of
        None \<Rightarrow> (None, s)
      | Some hs \<Rightarrow> (let (resolved, s1) = resolve_each sh env hs [] s in (if resolved \<noteq> [] then Some resolved else None, s1)))"

fun resolve_all :: "shells \<Rightarrow> string \<Rightarrow> env \<Rightarrow> string jsmap \<Rightarrow> string jsmap \<Rightarrow> config_state \<Rightarrow>
    (string + string jsmap) \<times> config_state" where
  "resolve_all sh description env [] resolved s = (Inr resolved, s)"
| "resolve_all sh description env ((key, value) # headers) resolved s =
     (case resolveConfigValueOrThrow sh (description @ '' header '' @ [CHR 0x22] @ key @ [CHR 0x22]) env value s of
        (Inl e, s1) \<Rightarrow> (Inl e, s1)
      | (Inr v, s1) \<Rightarrow> resolve_all sh description env headers (jm_set key v resolved) s1)"

definition resolveHeadersOrThrow ::
  "shells \<Rightarrow> string jsmap option \<Rightarrow> string \<Rightarrow> env \<Rightarrow> config_state \<Rightarrow> (string + string jsmap option) \<times> config_state" where
  "resolveHeadersOrThrow sh headers description env s =
     (case headers of
        None \<Rightarrow> (Inr None, s)
      | Some hs \<Rightarrow>
          (case resolve_all sh description env hs [] s of
             (Inl e, s1) \<Rightarrow> (Inl e, s1)
           | (Inr resolved, s1) \<Rightarrow> (Inr (if resolved \<noteq> [] then Some resolved else None), s1)))"

end
