(* ===== verification/Credential_Store.thy ===== *)
theory Credential_Store
  imports Config_Values Settings_Manager
begin

text \<open>
  The store of credentials (\<open>core/auth-storage.ts\<close>): the file \<open>auth.json\<close> under a lock that processes share,
  the operations on it as interleaved steps, what a process remembers of the file, and the read-only store.
  \<open>lockfile\<close> promises that one holder has the lock and that a holder who lost it is told. Provider names are
  no indices of arrays and no members that every object inherits; the revision of a file counts its writes.
\<close>

section \<open>Stored data\<close>

text \<open>\<open>None\<close>: \<open>JSON.parse\<close> threw.\<close>

definition parseStorageData :: "file_text option \<Rightarrow> json option" where
  "parseStorageData content =
     (case content of
        None \<Rightarrow> Some (JObj []) | Some EmptyText \<Rightarrow> Some (JObj []) | Some Unparsable \<Rightarrow> None | Some (JsonText j) \<Rightarrow> Some j)"

fun credential_of :: "json \<Rightarrow> string \<Rightarrow> json option" where
  "credential_of (JObj kvs) p = jm_get kvs p"
| "credential_of _ p = None"

fun without_credential :: "json \<Rightarrow> string \<Rightarrow> json" where
  "without_credential (JObj kvs) p = JObj (jm_delete p kvs)"
| "without_credential j p = j"

definition with_credential :: "json \<Rightarrow> string \<Rightarrow> json \<Rightarrow> json" where
  "with_credential j p c = JObj (jm_set p c (spread (Some j)))"

section \<open>The lock\<close>

text \<open>What an attempt to lock gives: the lock, \<open>ELOCKED\<close>, or another error.\<close>

datatype attempt = Acquired | Locked | LockError string

fun acquireLockSync :: "nat \<Rightarrow> attempt list \<Rightarrow> string + nat" where
  "acquireLockSync tried [] = Inl ''ELOCKED''"
| "acquireLockSync tried (a # as) =
     (case a of
        Acquired \<Rightarrow> Inr (Suc tried)
      | LockError message \<Rightarrow> Inl message
      | Locked \<Rightarrow> if Suc tried \<ge> 10 then Inl ''ELOCKED'' else acquireLockSync (Suc tried) as)"

text \<open>
  The wait of the asynchronous lock, in milliseconds since its start; \<open>answer\<close> is what an attempt at a time
  gives, \<open>jitter\<close> what the random part adds to a delay (at most the delay itself), \<open>late\<close> by how much a timer
  is late. The result is the time and the number of the attempts.
\<close>

definition STALE_MS :: nat where
  "STALE_MS = 30000"

definition base_delay :: "nat \<Rightarrow> nat" where
  "base_delay retry = min (10 * 2 ^ retry) 1000"

function acquireLockAsync ::
  "(nat \<Rightarrow> attempt) \<Rightarrow> (nat \<Rightarrow> nat) \<Rightarrow> (nat \<Rightarrow> nat) \<Rightarrow> nat \<Rightarrow> nat \<Rightarrow> (string + nat) \<times> nat" where
  "acquireLockAsync answer jitter late retry elapsed =
     (case answer elapsed of
        Acquired \<Rightarrow> (Inr elapsed, Suc retry)
      | LockError message \<Rightarrow> (Inl message, Suc retry)
      | Locked \<Rightarrow>
          if elapsed \<ge> STALE_MS then (Inl ''ELOCKED'', Suc retry)
          else acquireLockAsync answer jitter late (Suc retry)
                 (elapsed + min (base_delay retry + min (jitter retry) (base_delay retry)) (STALE_MS - elapsed) + late retry))"
  by pat_completeness auto

lemma base_delay_positive: "0 < base_delay retry"
  by (simp add: base_delay_def)

lemma later_deadline:
  "(0::nat) < d \<Longrightarrow> e < m \<Longrightarrow> m - (e + min (d + x) (m - e) + y) < m - e"
  by arith

termination acquireLockAsync
  by (relation "measure (\<lambda>(answer, jitter, late, retry, elapsed). STALE_MS - elapsed)")
    (simp_all add: later_deadline base_delay_positive)

declare acquireLockAsync.simps [simp del]

section \<open>Operations\<close>

datatype auth_fault =
    AuthAborted
  | AuthLockFailed string
  | AuthLockCompromised
  | AuthNotParsed
  | AuthUpdateFailed string
  | AuthWriteFailed string

datatype auth_kind = ModifyOp string | DeleteOp string | ReloadOp

text \<open>
  \<open>Holding\<close> has the lock, or had it when it was compromised, and the data it read; a released operation has
  still to take over what it knows of the file, with the revision, into what the process remembers.
\<close>

datatype auth_stage =
    Asking
  | Holding json
  | Released "json option" json "nat option"
  | Settled "json option"
  | AuthFailed auth_fault

record auth_op =
  ao_kind :: auth_kind
  ao_here :: bool
  ao_stage :: auth_stage
  ao_aborted :: bool
  ao_compromised :: bool

text \<open>
  What was written: by which operation and for which provider, the credential that the change was made from,
  and the new one, if any.
\<close>

datatype commit = Commit (commit_by: nat) (commit_provider: string) (commit_seen: "json option") (commit_next: "json option")

record auth_world =
  aw_file :: "file_text option"
  aw_version :: nat
  aw_lock :: "nat option"
  aw_ops :: "auth_op list"
  aw_data :: json
  aw_revision :: "nat option"
  aw_commits :: "commit list"

definition auth_start :: "file_text option \<Rightarrow> auth_world" where
  "auth_start file =
     \<lparr>aw_file = file, aw_version = 0, aw_lock = None, aw_ops = [], aw_data = JObj [], aw_revision = None, aw_commits = []\<rparr>"

definition getFileRevision :: "auth_world \<Rightarrow> nat option" where
  "getFileRevision w = (if aw_file w = None then None else Some (aw_version w))"

definition write_auth :: "json \<Rightarrow> auth_world \<Rightarrow> auth_world" where
  "write_auth j w = w\<lparr>aw_file := Some (JsonText j), aw_version := Suc (aw_version w)\<rparr>"

definition ensureFileExists :: "auth_world \<Rightarrow> auth_world" where
  "ensureFileExists w = (if aw_file w = None then write_auth (JObj []) w else w)"

definition auth_at :: "nat \<Rightarrow> auth_stage \<Rightarrow> auth_world \<Rightarrow> auth_world" where
  "auth_at i s w = w\<lparr>aw_ops := (aw_ops w)[i := (aw_ops w ! i)\<lparr>ao_stage := s\<rparr>]\<rparr>"

text \<open>Who has been told that the lock is lost does not release the lock of another.\<close>

definition release_auth :: "nat \<Rightarrow> auth_world \<Rightarrow> auth_world" where
  "release_auth i w = (if aw_lock w = Some i then w\<lparr>aw_lock := None\<rparr> else w)"

definition leave_auth :: "nat \<Rightarrow> auth_stage \<Rightarrow> auth_world \<Rightarrow> auth_world" where
  "leave_auth i s w = release_auth i (auth_at i s w)"

definition updateReadState :: "bool \<Rightarrow> json \<Rightarrow> nat option \<Rightarrow> auth_world \<Rightarrow> auth_world" where
  "updateReadState here j revision w = (if here then w\<lparr>aw_data := j, aw_revision := revision\<rparr> else w)"

definition begin_auth :: "auth_kind \<Rightarrow> bool \<Rightarrow> bool \<Rightarrow> auth_world \<Rightarrow> auth_world" where
  "begin_auth kind here aborted w =
     (let op = \<lparr>ao_kind = kind, ao_here = here, ao_stage = (if aborted then AuthFailed AuthAborted else Asking),
                ao_aborted = aborted, ao_compromised = False\<rparr>;
          w1 = (if aborted then w else ensureFileExists w)
      in w1\<lparr>aw_ops := aw_ops w1 @ [op]\<rparr>)"

text \<open>The lock is there: the file is read, and the function of the operation begins.\<close>

definition locked_auth :: "nat \<Rightarrow> auth_world \<Rightarrow> auth_world" where
  "locked_auth i w =
     (let op = aw_ops w ! i; w1 = w\<lparr>aw_lock := Some i\<rparr> in
      if ao_aborted op then leave_auth i (AuthFailed AuthAborted) w1
      else (case parseStorageData (aw_file w) of
              None \<Rightarrow> leave_auth i (AuthFailed AuthNotParsed) w1
            | Some j \<Rightarrow>
                if ao_kind op = ReloadOp then auth_at i (Holding j) (updateReadState (ao_here op) j (getFileRevision w) w1)
                else if j = JNull then leave_auth i (AuthFailed AuthNotParsed) w1
                else auth_at i (Holding j) w1))"

text \<open>What the function of an operation gives: the content to write, if any, and how the operation is left.\<close>

definition outcome_auth ::
  "nat \<Rightarrow> auth_kind \<Rightarrow> json \<Rightarrow> json option \<Rightarrow> nat option \<Rightarrow> json option \<times> commit list \<times> auth_stage" where
  "outcome_auth i kind j answer revision =
     (case kind of
        ModifyOp p \<Rightarrow>
          (case answer of
             None \<Rightarrow> (None, [], Released (credential_of j p) j revision)
           | Some c \<Rightarrow>
               (Some (with_credential j p c), [Commit i p (credential_of j p) (Some c)],
                Released (Some c) (with_credential j p c) None))
      | DeleteOp p \<Rightarrow>
          (Some (without_credential j p), [Commit i p (credential_of j p) None], Released None (without_credential j p) None)
      | ReloadOp \<Rightarrow> (None, [], Released None j revision))"

text \<open>The function is done, with its answer or its error; \<open>fault\<close> is the message of a write that fails.\<close>

definition answered_auth :: "nat \<Rightarrow> json \<Rightarrow> string + json option \<Rightarrow> string option \<Rightarrow> auth_world \<Rightarrow> auth_world" where
  "answered_auth i j answer fault w =
     (let op = aw_ops w ! i in
      case answer of
        Inl message \<Rightarrow> leave_auth i (AuthFailed (AuthUpdateFailed message)) w
      | Inr a \<Rightarrow>
          if ao_compromised op then leave_auth i (AuthFailed AuthLockCompromised) w
          else if ao_aborted op then leave_auth i (AuthFailed AuthAborted) w
          else
            (let (content, commits, s) = outcome_auth i (ao_kind op) j a (getFileRevision w) in
             case (content, fault) of
               (None, _) \<Rightarrow> leave_auth i s w
             | (Some _, Some message) \<Rightarrow> leave_auth i (AuthFailed (AuthWriteFailed message)) w
             | (Some new, None) \<Rightarrow>
                 leave_auth i s (write_auth new (w\<lparr>aw_commits := aw_commits w @ commits\<rparr>))))"

definition settle_auth :: "nat \<Rightarrow> json option \<Rightarrow> json \<Rightarrow> nat option \<Rightarrow> auth_world \<Rightarrow> auth_world" where
  "settle_auth i r j revision w =
     (let op = aw_ops w ! i in
      auth_at i (Settled r) (if ao_kind op = ReloadOp then w else updateReadState (ao_here op) j revision w))"

datatype auth_event =
    BeginAuth auth_kind bool bool
  | LockedAuth nat
  | GaveUpAuth nat string
  | CompromisedAuth nat
  | AbortedAuth nat
  | AnsweredAuth nat "string + json option" "string option"
  | SettledAuth nat

text \<open>A step that the state does not allow changes nothing.\<close>

definition auth_step :: "auth_event \<Rightarrow> auth_world \<Rightarrow> auth_world" where
  "auth_step e w =
     (case e of
        BeginAuth kind here aborted \<Rightarrow> begin_auth kind here aborted w
      | LockedAuth i \<Rightarrow>
          if i < length (aw_ops w) \<and> ao_stage (aw_ops w ! i) = Asking \<and> aw_lock w = None then locked_auth i w else w
      | GaveUpAuth i message \<Rightarrow>
          if i < length (aw_ops w) \<and> ao_stage (aw_ops w ! i) = Asking
          then auth_at i (AuthFailed (if ao_aborted (aw_ops w ! i) then AuthAborted else AuthLockFailed message)) w else w
      | CompromisedAuth i \<Rightarrow>
          if aw_lock w = Some i
          then w\<lparr>aw_lock := None, aw_ops := (aw_ops w)[i := (aw_ops w ! i)\<lparr>ao_compromised := True\<rparr>]\<rparr> else w
      | AbortedAuth i \<Rightarrow>
          if i < length (aw_ops w) then w\<lparr>aw_ops := (aw_ops w)[i := (aw_ops w ! i)\<lparr>ao_aborted := True\<rparr>]\<rparr> else w
      | AnsweredAuth i answer fault \<Rightarrow>
          if i < length (aw_ops w)
          then (case ao_stage (aw_ops w ! i) of Holding j \<Rightarrow> answered_auth i j answer fault w | _ \<Rightarrow> w) else w
      | SettledAuth i \<Rightarrow>
          if i < length (aw_ops w)
          then (case ao_stage (aw_ops w ! i) of Released r j revision \<Rightarrow> settle_auth i r j revision w | _ \<Rightarrow> w) else w)"

definition auth_run :: "auth_event list \<Rightarrow> auth_world \<Rightarrow> auth_world" where
  "auth_run es w = fold auth_step es w"

text \<open>\<open>readLatestData\<close> where the revision is the one that is remembered; otherwise a reload is begun or joined.\<close>

definition remembered_data :: "auth_world \<Rightarrow> json option" where
  "remembered_data w =
     (if getFileRevision w \<noteq> None \<and> getFileRevision w = aw_revision w then Some (aw_data w) else None)"

section \<open>Reading\<close>

fun env_of :: "json option \<Rightarrow> env" where
  "env_of (Some (JObj kvs)) n = json_string (jm_get kvs n)"
| "env_of _ n = None"

text \<open>\<open>None\<close> is a key that is no string: the code then throws.\<close>

definition resolve_key ::
  "shells \<Rightarrow> (string \<times> json) list \<Rightarrow> config_state \<Rightarrow> json option \<times> config_state" where
  "resolve_key sh kvs s =
     (case jm_get kvs ''key'' of
        Some (JStr key) \<Rightarrow>
          (let (v, s1) = resolveConfigValue sh (env_of (jm_get kvs ''env'')) key s in
           (Some (JObj (put ''key'' (map_option JStr v) kvs)), s1))
      | _ \<Rightarrow> (None, s))"

definition is_api_key :: "(string \<times> json) list \<Rightarrow> bool" where
  "is_api_key kvs = (jm_get kvs ''type'' = Some (JStr ''api_key''))"

datatype auth_read = NoCredential | Credential json | KeyNotString

definition read_credential :: "shells \<Rightarrow> json option \<Rightarrow> config_state \<Rightarrow> auth_read \<times> config_state" where
  "read_credential sh credential s =
     (case credential of
        Some (JObj kvs) \<Rightarrow>
          if \<not> is_api_key kvs \<or> jm_get kvs ''key'' = None then (Credential (JObj kvs), s)
          else (case resolve_key sh kvs s of (Some c, s1) \<Rightarrow> (Credential c, s1) | (None, s1) \<Rightarrow> (KeyNotString, s1))
      | Some c \<Rightarrow> (Credential c, s)
      | None \<Rightarrow> (NoCredential, s))"

definition list_credentials :: "json \<Rightarrow> (string \<times> json option) list" where
  "list_credentials j =
     map (\<lambda>(p, c). (p, case c of JObj kvs \<Rightarrow> jm_get kvs ''type'' | _ \<Rightarrow> None)) (spread (Some j))"

section \<open>The read-only store\<close>

datatype read_only_fault = ReadFailed string | NotAnObject | InvalidCredential string

definition all_strings :: "(string \<times> json) list \<Rightarrow> bool" where
  "all_strings kvs = list_all (\<lambda>(k, v). json_string (Some v) \<noteq> None) kvs"

definition valid_api_key :: "(string \<times> json) list \<Rightarrow> bool" where
  "valid_api_key kvs =
     ((jm_get kvs ''key'' = None \<or> json_string (jm_get kvs ''key'') \<noteq> None) \<and>
      (case jm_get kvs ''env'' of None \<Rightarrow> True | Some (JObj e) \<Rightarrow> all_strings e | Some _ \<Rightarrow> False))"

definition valid_oauth :: "(string \<times> json) list \<Rightarrow> bool" where
  "valid_oauth kvs =
     (jm_get kvs ''type'' = Some (JStr ''oauth'') \<and> json_string (jm_get kvs ''access'') \<noteq> None \<and>
      json_string (jm_get kvs ''refresh'') \<noteq> None \<and> (case jm_get kvs ''expires'' of Some (JInt _) \<Rightarrow> True | _ \<Rightarrow> False))"

fun valid_credential :: "json \<Rightarrow> bool" where
  "valid_credential (JObj kvs) = (if is_api_key kvs then valid_api_key kvs else valid_oauth kvs)"
| "valid_credential _ = False"

fun first_invalid :: "(string \<times> json) list \<Rightarrow> string option" where
  "first_invalid [] = None"
| "first_invalid ((p, c) # rest) = (if valid_credential c then first_invalid rest else Some p)"

text \<open>\<open>Inl\<close> is the message of a read that failed otherwise than because there is no file.\<close>

definition load_read_only :: "string + file_text option \<Rightarrow> read_only_fault + (string \<times> json) list" where
  "load_read_only file =
     (case file of
        Inl message \<Rightarrow> Inl (ReadFailed message)
      | Inr None \<Rightarrow> Inr []
      | Inr (Some (JsonText (JObj kvs))) \<Rightarrow>
          (case first_invalid kvs of Some p \<Rightarrow> Inl (InvalidCredential p) | None \<Rightarrow> Inr kvs)
      | Inr (Some (JsonText _)) \<Rightarrow> Inl NotAnObject
      | Inr (Some _) \<Rightarrow> Inl (ReadFailed ''JSON''))"

text \<open>A key that is a command is handed on as it is; \<open>loaded\<close> is what was loaded before.\<close>

definition read_only_load ::
  "string + file_text option \<Rightarrow> (string \<times> json) list option \<Rightarrow> read_only_fault + (string \<times> json) list" where
  "read_only_load file loaded = (case loaded of Some kvs \<Rightarrow> Inr kvs | None \<Rightarrow> load_read_only file)"

definition read_only_read ::
  "shells \<Rightarrow> string + file_text option \<Rightarrow> (string \<times> json) list option \<Rightarrow> string \<Rightarrow> config_state \<Rightarrow>
     (read_only_fault + auth_read) \<times> config_state" where
  "read_only_read sh file loaded p s =
     (case read_only_load file loaded of
        Inl e \<Rightarrow> (Inl e, s)
      | Inr data \<Rightarrow>
          (case jm_get data p of
             Some (JObj kvs) \<Rightarrow>
               (case truthy_str (json_string (jm_get kvs ''key'')) of
                  Some key \<Rightarrow>
                    if \<not> is_api_key kvs \<or> isCommandConfigValue key then (Inr (Credential (JObj kvs)), s)
                    else (case resolve_key sh kvs s of
                            (Some c, s1) \<Rightarrow> (Inr (Credential c), s1) | (None, s1) \<Rightarrow> (Inr KeyNotString, s1))
                | None \<Rightarrow> (Inr (Credential (JObj kvs)), s))
           | Some c \<Rightarrow> (Inr (Credential c), s)
           | None \<Rightarrow> (Inr NoCredential, s)))"

end
