(* ===== verification/Credential_Properties.thy ===== *)
theory Credential_Properties
  imports Credential_Store
begin

text \<open>
  What the store promises to those who share it: no change is lost, and what a process remembers is the file.
\<close>

section \<open>What was written\<close>

fun apply_commit :: "json \<Rightarrow> commit \<Rightarrow> json" where
  "apply_commit j (Commit i p seen (Some c)) = with_credential j p c"
| "apply_commit j (Commit i p seen None) = without_credential j p"


fun seen_right :: "json \<Rightarrow> commit list \<Rightarrow> bool" where
  "seen_right j [] = True"
| "seen_right j (m # ms) = (commit_seen m = credential_of j (commit_provider m) \<and> seen_right (apply_commit j m) ms)"

lemma seen_right_append: "seen_right j (ms @ ns) \<longleftrightarrow> seen_right j ms \<and> seen_right (foldl apply_commit j ms) ns"
  by (induction ms arbitrary: j) auto




section \<open>The invariant\<close>

text \<open>What is known of the file under a revision: if no write came after it, it is what the file holds.\<close>

definition known :: "auth_world \<Rightarrow> json \<Rightarrow> nat option \<Rightarrow> bool" where
  "known w j revision \<longleftrightarrow>
     (\<forall>r. revision = Some r \<longrightarrow> r \<le> aw_version w \<and> (r = aw_version w \<longrightarrow> parseStorageData (aw_file w) = Some j))"

definition op_ok :: "auth_world \<Rightarrow> nat \<Rightarrow> bool" where
  "op_ok w i \<longleftrightarrow>
     (case ao_stage (aw_ops w ! i) of
        Holding j \<Rightarrow> ao_compromised (aw_ops w ! i) \<or> aw_lock w = Some i \<and> parseStorageData (aw_file w) = Some j
      | Released r j revision \<Rightarrow> known w j revision
      | Asking \<Rightarrow> \<not> ao_compromised (aw_ops w ! i)
      | _ \<Rightarrow> True)"

definition holds_lock :: "auth_world \<Rightarrow> nat \<Rightarrow> bool" where
  "holds_lock w i \<longleftrightarrow> i < length (aw_ops w) \<and> (\<exists>j. ao_stage (aw_ops w ! i) = Holding j) \<and> \<not> ao_compromised (aw_ops w ! i)"

fun succeeded :: "auth_stage \<Rightarrow> bool" where
  "succeeded (Released r j v) = True"
| "succeeded (Settled r) = True"
| "succeeded _ = False"

definition commit_ok :: "auth_world \<Rightarrow> commit \<Rightarrow> bool" where
  "commit_ok w m \<longleftrightarrow>
     commit_by m < length (aw_ops w) \<and> succeeded (ao_stage (aw_ops w ! commit_by m)) \<and>
     (case ao_kind (aw_ops w ! commit_by m) of
        ModifyOp p \<Rightarrow> commit_provider m = p \<and> commit_next m \<noteq> None
      | DeleteOp p \<Rightarrow> commit_provider m = p \<and> commit_next m = None
      | ReloadOp \<Rightarrow> False)"

definition auth_inv :: "file_text option \<Rightarrow> auth_world \<Rightarrow> bool" where
  "auth_inv file w \<longleftrightarrow>
     (\<forall>i. aw_lock w = Some i \<longrightarrow> holds_lock w i) \<and>
     (\<forall>i < length (aw_ops w). op_ok w i) \<and>
     known w (aw_data w) (aw_revision w) \<and>
     parseStorageData (aw_file w) = map_option (\<lambda>j. foldl apply_commit j (aw_commits w)) (parseStorageData file) \<and>
     (\<forall>j. parseStorageData file = Some j \<longrightarrow> seen_right j (aw_commits w)) \<and>
     distinct (map commit_by (aw_commits w)) \<and>
     (\<forall>m \<in> set (aw_commits w). commit_ok w m)"

lemmas auth_simps = leave_auth_def release_auth_def auth_at_def write_auth_def updateReadState_def

lemma inv_start: "auth_inv file (auth_start file)"
  by (cases "parseStorageData file") (simp_all add: auth_inv_def auth_start_def known_def)

text \<open>What only depends on the operations at other places.\<close>

lemma inv_lock: "auth_inv file w \<Longrightarrow> aw_lock w = Some i \<Longrightarrow> holds_lock w i"
  by (simp add: auth_inv_def)

lemma inv_op: "auth_inv file w \<Longrightarrow> i < length (aw_ops w) \<Longrightarrow> op_ok w i"
  by (simp add: auth_inv_def)

lemma inv_holding:
  "auth_inv file w \<Longrightarrow> i < length (aw_ops w) \<Longrightarrow> ao_stage (aw_ops w ! i) = Holding j \<Longrightarrow> \<not> ao_compromised (aw_ops w ! i) \<Longrightarrow>
     aw_lock w = Some i \<and> parseStorageData (aw_file w) = Some j"
  by (auto dest!: inv_op simp: op_ok_def)

text \<open>An operation leaves the lock, or never had it, for a stage that claims no more than is known.\<close>

lemma inv_leave:
  assumes "auth_inv file w" and "i < length (aw_ops w)" and "\<not> succeeded (ao_stage (aw_ops w ! i))"
    and "\<And>j. s \<noteq> Holding j" "s \<noteq> Asking" and "\<And>r j v. s = Released r j v \<Longrightarrow> known w j v"
  shows "auth_inv file (leave_auth i s w)"
proof -
  let ?w = "leave_auth i s w"
  have same: "aw_file ?w = aw_file w" "aw_version ?w = aw_version w" "aw_data ?w = aw_data w" "aw_revision ?w = aw_revision w"
    "aw_commits ?w = aw_commits w" "length (aw_ops ?w) = length (aw_ops w)"
    "\<And>k. aw_ops ?w ! k = (if k = i then (aw_ops w ! i)\<lparr>ao_stage := s\<rparr> else aw_ops w ! k)"
    using assms(2) by (auto simp: auth_simps nth_list_update)
  have lock: "aw_lock ?w = (if aw_lock w = Some i then None else aw_lock w)" by (auto simp: auth_simps)
  have kn: "known ?w = known w" by (simp add: fun_eq_iff known_def same)
  have "holds_lock ?w k" if "aw_lock ?w = Some k" for k
    using that inv_lock [OF assms(1), of k] by (auto simp: lock holds_lock_def same split: if_splits)
  moreover have "op_ok ?w k" if "k < length (aw_ops ?w)" for k
  proof (cases "k = i")
    case True
    then have "ao_stage (aw_ops ?w ! k) = s" by (simp add: same)
    with assms(4-6) show ?thesis unfolding op_ok_def kn by (auto split: auth_stage.split)
  next
    case False
    with inv_op [OF assms(1), of k] that show ?thesis
      by (auto simp: op_ok_def same kn lock split: auth_stage.splits)
  qed
  moreover have "commit_ok ?w m" if "m \<in> set (aw_commits w)" for m
    using that assms(1,3) by (auto simp: auth_inv_def commit_ok_def same)
  ultimately show ?thesis using assms(1) by (simp add: auth_inv_def kn same)
qed

text \<open>The holder of the lock writes, and leaves.\<close>

lemma inv_commit:
  assumes "auth_inv file w" and "aw_lock w = Some i" and "ao_stage (aw_ops w ! i) = Holding j"
    and "commit_by m = i" and "commit_seen m = credential_of j (commit_provider m)" and "s = Released r d None"
    and "case ao_kind (aw_ops w ! i) of
        ModifyOp p \<Rightarrow> commit_provider m = p \<and> commit_next m \<noteq> None
      | DeleteOp p \<Rightarrow> commit_provider m = p \<and> commit_next m = None | ReloadOp \<Rightarrow> False"
  shows "auth_inv file (leave_auth i s (write_auth (apply_commit j m) (w\<lparr>aw_commits := aw_commits w @ [m]\<rparr>)))"
proof -
  let ?w = "leave_auth i s (write_auth (apply_commit j m) (w\<lparr>aw_commits := aw_commits w @ [m]\<rparr>))"
  have h: "holds_lock w i" by (rule inv_lock [OF assms(1,2)])
  then have i: "i < length (aw_ops w)" and unc: "\<not> ao_compromised (aw_ops w ! i)" by (simp_all add: holds_lock_def)
  have parsed: "parseStorageData (aw_file w) = Some j" using inv_holding [OF assms(1) i assms(3) unc] by simp
  have same: "aw_data ?w = aw_data w" "aw_revision ?w = aw_revision w" "aw_version ?w = Suc (aw_version w)"
    "aw_commits ?w = aw_commits w @ [m]" "length (aw_ops ?w) = length (aw_ops w)" "aw_lock ?w = None"
    "parseStorageData (aw_file ?w) = Some (apply_commit j m)"
    "\<And>k. aw_ops ?w ! k = (if k = i then (aw_ops w ! i)\<lparr>ao_stage := s\<rparr> else aw_ops w ! k)"
    using i assms(2) by (auto simp: auth_simps nth_list_update parseStorageData_def)
  have kn: "known ?w x v" if "known w x v" for x v using that by (auto simp: known_def same)
  have fresh: "i \<notin> commit_by ` set (aw_commits w)"
    using assms(1,3) by (auto simp: auth_inv_def commit_ok_def dest!: bspec)
  have oks: "op_ok ?w k" if "k < length (aw_ops w)" for k
  proof (cases "k = i")
    case True
    then have "ao_stage (aw_ops ?w ! k) = s" by (simp add: same)
    then show ?thesis unfolding op_ok_def by (simp add: assms(6) known_def)
  next
    case False
    with inv_op [OF assms(1) that] assms(2) show ?thesis by (auto simp: op_ok_def same split: auth_stage.splits intro: kn)
  qed
  have coks: "commit_ok ?w c" if "c \<in> set (aw_commits w @ [m])" for c
  proof (cases "c = m")
    case True
    have "ao_stage (aw_ops ?w ! i) = s" "ao_kind (aw_ops ?w ! i) = ao_kind (aw_ops w ! i)" by (simp_all add: same)
    with i assms(7) show ?thesis unfolding commit_ok_def True assms(4) same(5) by (simp add: assms(6))
  next
    case False
    with that have "c \<in> set (aw_commits w)" by simp
    with assms(1) fresh show ?thesis by (auto simp: auth_inv_def commit_ok_def same)
  qed
  have kept: "known ?w (aw_data ?w) (aw_revision ?w)" using assms(1) by (simp add: same(1,2) auth_inv_def kn)
  obtain j0 where j0: "parseStorageData file = Some j0" "j = foldl apply_commit j0 (aw_commits w)" "seen_right j0 (aw_commits w)"
  proof -
    have "parseStorageData (aw_file w) = map_option (\<lambda>j. foldl apply_commit j (aw_commits w)) (parseStorageData file)"
      and "\<forall>j. parseStorageData file = Some j \<longrightarrow> seen_right j (aw_commits w)"
      using assms(1) by (simp_all add: auth_inv_def)
    with parsed that show thesis by (cases "parseStorageData file") auto
  qed
  have replayed: "parseStorageData (aw_file ?w) = map_option (\<lambda>j. foldl apply_commit j (aw_commits ?w)) (parseStorageData file)"
    by (simp add: same(4,7) j0(1) j0(2) [symmetric])
  have seen: "\<forall>j. parseStorageData file = Some j \<longrightarrow> seen_right j (aw_commits ?w)"
    using assms(5) by (simp add: same(4) j0(1,3) seen_right_append j0(2) [symmetric])
  have once: "distinct (map commit_by (aw_commits ?w))"
    using assms(1,4) fresh by (simp add: same(4) auth_inv_def)
  show ?thesis unfolding auth_inv_def
  proof (intro conjI replayed seen once kept)
    show "\<forall>k. aw_lock ?w = Some k \<longrightarrow> holds_lock ?w k" by (simp add: same(6))
    show "\<forall>k < length (aw_ops ?w). op_ok ?w k" using oks by (simp only: same(5)) blast
    show "\<forall>c \<in> set (aw_commits ?w). commit_ok ?w c" using coks by (simp only: same(4)) blast
  qed
qed

section \<open>Every step\<close>

lemma inv_begin: "auth_inv file w \<Longrightarrow> auth_inv file (begin_auth kind here aborted w)"
proof -
  assume inv: "auth_inv file w"
  let ?w = "begin_auth kind here aborted w"
  have same: "aw_data ?w = aw_data w" "aw_revision ?w = aw_revision w" "aw_commits ?w = aw_commits w" "aw_lock ?w = aw_lock w"
    "length (aw_ops ?w) = Suc (length (aw_ops w))" "\<And>k. k < length (aw_ops w) \<Longrightarrow> aw_ops ?w ! k = aw_ops w ! k"
    "\<And>k. k = length (aw_ops w) \<Longrightarrow> ao_stage (aw_ops ?w ! k) \<in> {Asking, AuthFailed AuthAborted}"
    by (auto simp: begin_auth_def ensureFileExists_def write_auth_def Let_def nth_append)
  have parsed: "parseStorageData (aw_file ?w) = parseStorageData (aw_file w)"
    by (auto simp: begin_auth_def ensureFileExists_def write_auth_def Let_def parseStorageData_def)
  have version: "aw_version w \<le> aw_version ?w" by (auto simp: begin_auth_def ensureFileExists_def write_auth_def Let_def)
  have kn: "known ?w x v" if "known w x v" for x v
    using that version unfolding known_def parsed by (metis dual_order.antisym order_trans)
  have "op_ok ?w k" if "k < Suc (length (aw_ops w))" for k
  proof (cases "k < length (aw_ops w)")
    case True
    with inv_op [OF inv True] show ?thesis by (auto simp: op_ok_def same parsed split: auth_stage.splits intro: kn)
  next
    case False
    then have "ao_stage (aw_ops ?w ! k) \<in> {Asking, AuthFailed AuthAborted} \<and> \<not> ao_compromised (aw_ops ?w ! k)"
      using that same(7) [of k] by (auto simp: begin_auth_def ensureFileExists_def write_auth_def Let_def nth_append)
    then show ?thesis by (auto simp: op_ok_def)
  qed
  moreover have "holds_lock ?w i" if "aw_lock w = Some i" for i
    using inv_lock [OF inv that] by (simp add: holds_lock_def same)
  moreover have "commit_ok ?w m" if "m \<in> set (aw_commits w)" for m
    using that inv by (auto simp: auth_inv_def commit_ok_def same less_SucI)
  moreover have "known ?w (aw_data w) (aw_revision w)" using inv by (simp add: auth_inv_def kn)
  ultimately show ?thesis using inv by (simp add: auth_inv_def same parsed)
qed

text \<open>Holding the lock, with the data of the file.\<close>

lemma inv_take:
  assumes "auth_inv file w" and "i < length (aw_ops w)" and "ao_stage (aw_ops w ! i) = Asking" and "aw_lock w = None"
    and "parseStorageData (aw_file w) = Some j"
  shows "auth_inv file (auth_at i (Holding j) (w\<lparr>aw_lock := Some i\<rparr>))"
proof -
  let ?w = "auth_at i (Holding j) (w\<lparr>aw_lock := Some i\<rparr>)"
  have same: "aw_data ?w = aw_data w" "aw_revision ?w = aw_revision w" "aw_version ?w = aw_version w" "aw_file ?w = aw_file w"
    "aw_commits ?w = aw_commits w" "length (aw_ops ?w) = length (aw_ops w)" "aw_lock ?w = Some i"
    "\<And>k. aw_ops ?w ! k = (if k = i then (aw_ops w ! i)\<lparr>ao_stage := Holding j\<rparr> else aw_ops w ! k)"
    using assms(2) by (auto simp: auth_simps nth_list_update)
  have kn: "known ?w = known w" by (simp add: fun_eq_iff known_def same)
  have unc: "\<not> ao_compromised (aw_ops w ! i)" using inv_op [OF assms(1,2)] assms(3) by (simp add: op_ok_def)
  have "op_ok ?w k" if "k < length (aw_ops w)" for k
  proof (cases "k = i")
    case True
    with assms(5) show ?thesis by (simp add: op_ok_def same)
  next
    case False
    with inv_op [OF assms(1) that] assms(4) show ?thesis by (auto simp: op_ok_def same kn split: auth_stage.splits)
  qed
  moreover have "holds_lock ?w i" using assms(2) unc by (simp add: holds_lock_def same)
  moreover have "commit_ok ?w m" if "m \<in> set (aw_commits w)" for m
    using that assms(1,3) by (auto simp: auth_inv_def commit_ok_def same)
  ultimately show ?thesis using assms(1) by (simp add: auth_inv_def kn same)
qed

lemma inv_remember:
  assumes "auth_inv file w" and "known w j v"
  shows "auth_inv file (updateReadState here j v w)"
  using assms by (auto simp: updateReadState_def auth_inv_def known_def op_ok_def holds_lock_def commit_ok_def split: auth_stage.splits)

text \<open>A mark on an operation that no other part of the state depends on.\<close>

lemma inv_aborted: "auth_inv file w \<Longrightarrow> auth_inv file (auth_step (AbortedAuth i) w)"
proof -
  assume inv: "auth_inv file w"
  let ?w = "auth_step (AbortedAuth i) w"
  have same: "aw_file ?w = aw_file w" "aw_version ?w = aw_version w" "aw_data ?w = aw_data w" "aw_revision ?w = aw_revision w"
    "aw_commits ?w = aw_commits w" "length (aw_ops ?w) = length (aw_ops w)" "aw_lock ?w = aw_lock w"
    by (simp_all add: auth_step_def)
  have ops: "ao_stage (aw_ops ?w ! k) = ao_stage (aw_ops w ! k)" "ao_compromised (aw_ops ?w ! k) = ao_compromised (aw_ops w ! k)"
    "ao_kind (aw_ops ?w ! k) = ao_kind (aw_ops w ! k)" for k
    by (auto simp: auth_step_def nth_list_update)
  have kn: "known ?w = known w" by (simp add: fun_eq_iff known_def same)
  have "op_ok ?w = op_ok w" "holds_lock ?w = holds_lock w" "commit_ok ?w = commit_ok w"
    by (simp_all add: fun_eq_iff op_ok_def holds_lock_def commit_ok_def same ops kn split: auth_stage.split)
  then show ?thesis using inv by (simp add: auth_inv_def same kn)
qed

lemma inv_compromised: "auth_inv file w \<Longrightarrow> auth_inv file (auth_step (CompromisedAuth i) w)"
proof (cases "aw_lock w = Some i")
  case True
  assume inv: "auth_inv file w"
  let ?w = "auth_step (CompromisedAuth i) w"
  have h: "holds_lock w i" by (rule inv_lock [OF inv True])
  then have i: "i < length (aw_ops w)" by (simp add: holds_lock_def)
  have same: "aw_file ?w = aw_file w" "aw_version ?w = aw_version w" "aw_data ?w = aw_data w" "aw_revision ?w = aw_revision w"
    "aw_commits ?w = aw_commits w" "length (aw_ops ?w) = length (aw_ops w)" "aw_lock ?w = None"
    "\<And>k. aw_ops ?w ! k = (if k = i then (aw_ops w ! i)\<lparr>ao_compromised := True\<rparr> else aw_ops w ! k)"
    using True i by (simp_all add: auth_step_def nth_list_update)
  have kn: "known ?w = known w" by (simp add: fun_eq_iff known_def same)
  have "op_ok ?w k" if "k < length (aw_ops w)" for k
  proof (cases "k = i")
    case True
    with h show ?thesis by (auto simp: op_ok_def same holds_lock_def)
  next
    case False
    with inv_op [OF inv that] True show ?thesis by (auto simp: op_ok_def same kn split: auth_stage.splits)
  qed
  moreover have "commit_ok ?w m" if "m \<in> set (aw_commits w)" for m
    using that inv by (auto simp: auth_inv_def commit_ok_def same)
  ultimately show ?thesis using inv by (simp add: auth_inv_def kn same)
qed (simp add: auth_step_def)

lemma inv_locked:
  assumes inv: "auth_inv file w" and i: "i < length (aw_ops w)" "ao_stage (aw_ops w ! i) = Asking" "aw_lock w = None"
  shows "auth_inv file (locked_auth i w)"
proof -
  have ns: "\<not> succeeded (ao_stage (aw_ops w ! i))" using i(2) by simp
  have fail: "leave_auth i s (w\<lparr>aw_lock := Some i\<rparr>) = leave_auth i s w" for s
    using i(3) by (simp add: auth_simps)
  have failed: "auth_inv file (leave_auth i (AuthFailed e) (w\<lparr>aw_lock := Some i\<rparr>))" for e
    unfolding fail by (rule inv_leave [OF inv i(1) ns]) simp_all
  show ?thesis
  proof (cases "ao_aborted (aw_ops w ! i) \<or> parseStorageData (aw_file w) = None")
    case True
    then show ?thesis using failed by (auto simp: locked_auth_def Let_def)
  next
    case False
    then obtain j where j: "parseStorageData (aw_file w) = Some j" by auto
    note taken = inv_take [OF inv i j]
    have "known w j (getFileRevision w)" using j by (simp add: known_def getFileRevision_def)
    then have kn: "known (auth_at i (Holding j) (w\<lparr>aw_lock := Some i\<rparr>)) j (getFileRevision w)"
      by (simp add: known_def auth_at_def)
    have swap: "auth_at i (Holding j) (updateReadState here j v w1) = updateReadState here j v (auth_at i (Holding j) w1)"
      for here v w1 by (simp add: auth_at_def updateReadState_def)
    show ?thesis using False j taken failed inv_remember [OF taken kn]
      by (auto simp: locked_auth_def Let_def swap)
  qed
qed

lemma inv_answered:
  assumes inv: "auth_inv file w" and i: "i < length (aw_ops w)" "ao_stage (aw_ops w ! i) = Holding j"
  shows "auth_inv file (answered_auth i j answer fault w)"
proof -
  have ns: "\<not> succeeded (ao_stage (aw_ops w ! i))" using i(2) by simp
  have failed: "auth_inv file (leave_auth i (AuthFailed e) w)" for e
    by (rule inv_leave [OF inv i(1) ns]) simp_all
  show ?thesis
  proof (cases "\<exists>a. answer = Inr a \<and> \<not> ao_compromised (aw_ops w ! i) \<and> \<not> ao_aborted (aw_ops w ! i)")
    case False
    with failed show ?thesis by (auto simp: answered_auth_def Let_def split: sum.split)
  next
    case True
    then obtain a where a: "answer = Inr a" "\<not> ao_compromised (aw_ops w ! i)" "\<not> ao_aborted (aw_ops w ! i)" by blast
    from inv_holding [OF inv i a(2)] have h: "aw_lock w = Some i" "parseStorageData (aw_file w) = Some j" by auto
    have unchanged: "auth_inv file (leave_auth i (Released r j (getFileRevision w)) w)" for r
      by (rule inv_leave [OF inv i(1) ns]) (auto simp: known_def getFileRevision_def h(2) split: if_splits)
    show ?thesis
    proof (cases "ao_kind (aw_ops w ! i)")
      case (ModifyOp p)
      show ?thesis
      proof (cases a)
        case None
        with ModifyOp a unchanged show ?thesis by (simp add: answered_auth_def Let_def outcome_auth_def)
      next
        case (Some c)
        have "auth_inv file (leave_auth i (Released (Some c) (with_credential j p c) None)
            (write_auth (apply_commit j (Commit i p (credential_of j p) (Some c)))
              (w\<lparr>aw_commits := aw_commits w @ [Commit i p (credential_of j p) (Some c)]\<rparr>)))"
          by (rule inv_commit [OF inv h(1) i(2)]) (simp_all add: ModifyOp)
        with ModifyOp Some a failed show ?thesis
          by (cases fault) (simp_all add: answered_auth_def Let_def outcome_auth_def)
      qed
    next
      case (DeleteOp p)
      have "auth_inv file (leave_auth i (Released None (without_credential j p) None)
          (write_auth (apply_commit j (Commit i p (credential_of j p) None))
            (w\<lparr>aw_commits := aw_commits w @ [Commit i p (credential_of j p) None]\<rparr>)))"
        by (rule inv_commit [OF inv h(1) i(2)]) (simp_all add: DeleteOp)
      with DeleteOp a failed show ?thesis
        by (cases fault) (simp_all add: answered_auth_def Let_def outcome_auth_def)
    next
      case ReloadOp
      with a unchanged show ?thesis by (simp add: answered_auth_def Let_def outcome_auth_def)
    qed
  qed
qed

lemma inv_settled:
  assumes inv: "auth_inv file w" and i: "i < length (aw_ops w)" "ao_stage (aw_ops w ! i) = Released r j v"
  shows "auth_inv file (settle_auth i r j v w)"
proof -
  let ?w = "auth_at i (Settled r) w"
  have same: "aw_file ?w = aw_file w" "aw_version ?w = aw_version w" "aw_data ?w = aw_data w" "aw_revision ?w = aw_revision w"
    "aw_commits ?w = aw_commits w" "length (aw_ops ?w) = length (aw_ops w)" "aw_lock ?w = aw_lock w"
    "\<And>k. aw_ops ?w ! k = (if k = i then (aw_ops w ! i)\<lparr>ao_stage := Settled r\<rparr> else aw_ops w ! k)"
    using i(1) by (auto simp: auth_simps nth_list_update)
  have kn: "known ?w = known w" by (simp add: fun_eq_iff known_def same)
  have "holds_lock ?w k" if "aw_lock w = Some k" for k
    using inv_lock [OF inv that] i(2) by (auto simp: holds_lock_def same)
  moreover have "op_ok ?w k" if "k < length (aw_ops w)" for k
    using inv_op [OF inv that] by (auto simp: op_ok_def same kn split: auth_stage.splits)
  moreover have "commit_ok ?w m" if "m \<in> set (aw_commits w)" for m
    using that inv by (auto simp: auth_inv_def commit_ok_def same)
  ultimately have "auth_inv file ?w" using inv by (simp add: auth_inv_def kn same)
  moreover have "known ?w j v" using inv_op [OF inv i(1)] i(2) by (simp add: op_ok_def kn)
  ultimately have "auth_inv file (updateReadState here j v ?w)" for here by (rule inv_remember)
  moreover have "auth_at i (Settled r) (updateReadState here j v w) = updateReadState here j v ?w" for here
    by (simp add: auth_at_def updateReadState_def)
  ultimately show ?thesis using \<open>auth_inv file ?w\<close> by (simp add: settle_auth_def Let_def)
qed

lemma inv_step: "auth_inv file w \<Longrightarrow> auth_inv file (auth_step e w)"
proof (cases e)
  case (GaveUpAuth i message)
  assume inv: "auth_inv file w"
  have "auth_inv file (auth_at i (AuthFailed f) w)" if "i < length (aw_ops w)" "ao_stage (aw_ops w ! i) = Asking" for f
  proof -
    have "aw_lock w \<noteq> Some i" using inv_lock [OF inv, of i] that(2) by (auto simp: holds_lock_def)
    then have "leave_auth i (AuthFailed f) w = auth_at i (AuthFailed f) w" by (simp add: auth_simps)
    moreover have "auth_inv file (leave_auth i (AuthFailed f) w)"
      using that by (intro inv_leave [OF inv]) simp_all
    ultimately show ?thesis by simp
  qed
  with GaveUpAuth inv show ?thesis by (simp add: auth_step_def)
next
  case (CompromisedAuth i)
  assume "auth_inv file w"
  then show ?thesis unfolding CompromisedAuth by (rule inv_compromised)
next
  case (AbortedAuth i)
  assume "auth_inv file w"
  then show ?thesis unfolding AbortedAuth by (rule inv_aborted)
qed (auto simp: auth_step_def inv_begin inv_locked inv_answered inv_settled split: auth_stage.splits)

lemma auth_inv_run: "auth_inv file w \<Longrightarrow> auth_inv file (auth_run es w)"
  unfolding auth_run_def by (induction es arbitrary: w) (simp_all add: inv_step)

section \<open>The store\<close>

lemma auth_reachable_inv: "auth_inv file (auth_run es (auth_start file))"
  by (rule auth_inv_run [OF inv_start])





text \<open>
  C33. What a process remembers under the revision that the file has is what the file holds, whoever wrote it:
  a read that does not go to the file is not out of date.
\<close>

theorem remembered_credentials_are_current:
  assumes "remembered_data (auth_run es (auth_start file)) = Some j"
  shows "parseStorageData (aw_file (auth_run es (auth_start file))) = Some j"
proof -
  let ?w = "auth_run es (auth_start file)"
  have "known ?w (aw_data ?w) (aw_revision ?w)" using auth_reachable_inv [of "file" es] by (simp add: auth_inv_def)
  moreover have "aw_revision ?w = Some (aw_version ?w)" "aw_data ?w = j"
    using assms by (auto simp: remembered_data_def getFileRevision_def split: if_splits)
  ultimately show ?thesis by (simp add: known_def)
qed

text \<open>A reload, before and after a change of another process.\<close>

theorem remembered_credentials_are_current_witness:
  "let es = [BeginAuth ReloadOp True False, LockedAuth 0] in
   remembered_data (auth_run es (auth_start None)) = Some (JObj []) \<and>
   parseStorageData (aw_file (auth_run es (auth_start None))) = Some (JObj [])"
proof -
  have "remembered_data (auth_run [BeginAuth ReloadOp True False, LockedAuth 0] (auth_start None)) = Some (JObj [])"
    by code_simp
  with remembered_credentials_are_current [OF this] show ?thesis by simp
qed

section \<open>The wait for the lock\<close>

text \<open>Who gives up has waited for the whole time, and has found the lock taken at the end of it.\<close>

lemma gives_up_at_deadline:
  "acquireLockAsync answer jitter late retry elapsed = (Inl ''ELOCKED'', n) \<Longrightarrow>
   (\<And>t. answer t \<noteq> LockError ''ELOCKED'') \<Longrightarrow> \<exists>t \<ge> STALE_MS. answer t = Locked"
  by (induction answer jitter late retry elapsed rule: acquireLockAsync.induct)
    (subst (asm) (2) acquireLockAsync.simps, auto split: attempt.splits if_splits)

section \<open>Configured values\<close>

lemma appendLiteral_append: "appendLiteral (appendLiteral parts a) b = appendLiteral parts (a @ b)"
  by (auto simp: appendLiteral_def split: template_part.split)

lemma parse_plain: "c \<noteq> dollar \<Longrightarrow> parse_template (c # config) parts = parse_template config (appendLiteral parts [c])"
  by (subst (1 2) parse_template.simps) (simp add: appendLiteral_append Let_def)

lemma parse_escape:
  "c = dollar \<or> c = CHR ''!'' \<Longrightarrow> parse_template (dollar # c # config) parts = parse_template config (appendLiteral parts [c])"
  by (subst parse_template.simps) (auto simp: Let_def appendLiteral_def)

definition escape :: "string \<Rightarrow> string" where
  "escape s = concat (map (\<lambda>c. if c = dollar then [dollar, dollar] else [c]) s)"

lemma appendLiteral_Nil: "appendLiteral parts [] = parts"
  by (simp add: appendLiteral_def)

lemma parse_escaped: "parse_template (escape s @ config) parts = parse_template config (appendLiteral parts s)"
proof (induction s arbitrary: parts)
  case (Cons c s)
  then show ?case
    by (cases "c = dollar") (simp_all add: escape_def parse_plain parse_escape appendLiteral_append)
qed (simp add: escape_def appendLiteral_Nil)

lemma name_without_brace: "name_char c \<Longrightarrow> c \<noteq> CHR ''}''"
  by (auto simp: name_char_def name_start_def Let_def)

lemma parse_variable:
  assumes "env_name n"
  shows "parse_template (dollar # CHR ''{'' # n @ CHR ''}'' # config) parts = parse_template config (parts @ [EnvPart n])"
proof -
  have n: "\<forall>c \<in> set n. c \<noteq> CHR ''}''" using assms name_without_brace by (auto simp: env_name_def list_all_iff)
  then have "takeWhile (\<lambda>c. c \<noteq> CHR ''}'') (n @ CHR ''}'' # config) = n"
    "dropWhile (\<lambda>c. c \<noteq> CHR ''}'') (n @ CHR ''}'' # config) = CHR ''}'' # config"
    by (simp_all add: takeWhile_append dropWhile_append)
  then show ?thesis using assms by (subst parse_template.simps) (simp add: Let_def appendLiteral_Nil)
qed

text \<open>How a list of parts is written.\<close>

fun write_part :: "template_part \<Rightarrow> string" where
  "write_part (LiteralPart v) = escape v"
| "write_part (EnvPart n) = dollar # CHR ''{'' # n @ ''}''"

definition write_template :: "template_part list \<Rightarrow> string" where
  "write_template parts =
     (let t = concat (map write_part parts) in if t \<noteq> [] \<and> hd t = CHR ''!'' then dollar # t else t)"

lemma resolve_append:
  "resolveTemplate look (ps @ qs) r = (case resolveTemplate look ps r of None \<Rightarrow> None | Some t \<Rightarrow> resolveTemplate look qs t)"
  by (induction look ps r rule: resolveTemplate.induct) (auto split: option.split)

lemma resolve_appendLiteral:
  "resolveTemplate look (appendLiteral parts v) r = map_option (\<lambda>t. t @ v) (resolveTemplate look parts r)"
proof (cases parts rule: rev_cases)
  case (snoc ps q)
  then show ?thesis by (cases q) (auto simp: appendLiteral_def resolve_append split: option.split)
qed (simp add: appendLiteral_def)

lemma resolve_parsed:
  "\<forall>n. EnvPart n \<in> set ps \<longrightarrow> env_name n \<Longrightarrow>
   resolveTemplate look (parse_template (concat (map write_part ps)) acc) r =
     (case resolveTemplate look acc r of None \<Rightarrow> None | Some t \<Rightarrow> resolveTemplate look ps t)"
proof (induction ps arbitrary: acc)
  case Nil
  then show ?case by (subst parse_template.simps) (simp add: appendLiteral_Nil Let_def option.case_eq_if)
next
  case (Cons p ps)
  show ?case
  proof (cases p)
    case (LiteralPart v)
    with Cons show ?thesis by (auto simp: parse_escaped resolve_appendLiteral split: option.split)
  next
    case (EnvPart n)
    with Cons.prems have "env_name n" by simp
    from parse_variable [OF this] EnvPart Cons show ?thesis by (auto simp: resolve_append split: option.splits)
  qed
qed

text \<open>
  C35. Any text and any variables can be written as a configured value: literal text with its dollars doubled
  and a first exclamation mark escaped, variables in braces. The value is then the text with what the
  variables hold, or nothing if one is not set; it is no command, and nothing is run or remembered.
\<close>

theorem template_means_its_parts:
  assumes "\<forall>n. EnvPart n \<in> set parts \<longrightarrow> env_name n"
  shows "resolveConfigValue sh env (write_template parts) s =
    (resolveTemplate (resolveEnvConfigValue (sh_process_env sh) env) parts [], s)"
proof -
  let ?t = "concat (map write_part parts)" and ?look = "resolveEnvConfigValue (sh_process_env sh) env"
  have "parse_template (write_template parts) [] = parse_template ?t []"
  proof (cases "?t \<noteq> [] \<and> hd ?t = CHR ''!''")
    case True
    then obtain u where "?t = CHR ''!'' # u" by (cases ?t) auto
    then show ?thesis by (simp add: write_template_def parse_escape parse_plain)
  qed (auto simp: write_template_def)
  moreover have "\<not> (write_template parts \<noteq> [] \<and> hd (write_template parts) = CHR ''!'')"
    by (auto simp: write_template_def Let_def)
  ultimately show ?thesis using resolve_parsed [OF assms, of ?look "[]" "[]"]
    by (auto simp: resolveConfigValue_def parseConfigValueReference_def parseConfigValueTemplate_def)
qed

text \<open>A price, a variable and an exclamation mark.\<close>

theorem template_means_its_parts_witness:
  "write_template [LiteralPart ''!$5'', EnvPart ''K''] = ''$!$$5${K}'' \<and>
   (\<forall>sh s. resolveConfigValue sh (\<lambda>n. if n = ''K'' then Some ''k'' else None) ''$!$$5${K}'' s = (Some ''!$5k'', s))"
proof -
  have w: "write_template [LiteralPart ''!$5'', EnvPart ''K''] = ''$!$$5${K}''" by (simp add: write_template_def escape_def)
  have "\<forall>n. EnvPart n \<in> set [LiteralPart ''!$5'', EnvPart ''K''] \<longrightarrow> env_name n"
    by (simp add: env_name_def name_char_def name_start_def)
  from template_means_its_parts [OF this] show ?thesis unfolding w by (simp add: resolveEnvConfigValue_def)
qed

text \<open>Reading from the read-only store never runs a command.\<close>

lemma read_only_store_runs_nothing: "snd (read_only_read sh file loaded p s) = s"
proof -
  have "snd (resolveConfigValue sh env key s) = s" if "\<not> isCommandConfigValue key" for env key
    using that by (auto simp: isCommandConfigValue_def resolveConfigValue_def split: config_reference.splits)
  then have "snd (resolve_key sh kvs s) = s" if "truthy_str (json_string (jm_get kvs ''key'')) = Some key"
      "\<not> isCommandConfigValue key" for kvs key
    using that by (cases "jm_get kvs ''key''" rule: json_string.cases) (auto simp: resolve_key_def split: prod.split if_splits, metis snd_conv)
  then show ?thesis
    by (auto simp: read_only_read_def split: sum.split option.split json.split prod.split) (metis snd_conv)+
qed

text \<open>A value without a command resolves exactly if every variable it names is set.\<close>

lemma variable_names: "set (getTemplateEnvVarNames parts names) = set names \<union> {n. EnvPart n \<in> set parts}"
  by (induction parts names rule: getTemplateEnvVarNames.induct) auto

lemma resolve_None: "resolveTemplate look parts r = None \<longleftrightarrow> (\<exists>n. EnvPart n \<in> set parts \<and> look n = None)"
  by (induction look parts r rule: resolveTemplate.induct) (auto split: option.split)

lemma configured_values_resolve:
  assumes "\<not> isCommandConfigValue config"
  shows "isConfigValueConfigured (sh_process_env sh) env config \<longleftrightarrow> fst (resolveConfigValue sh env config s) \<noteq> None"
proof -
  obtain parts where "parseConfigValueReference config = TemplateReference parts"
    using assms by (auto simp: isCommandConfigValue_def split: config_reference.splits)
  then show ?thesis
    by (auto simp: isConfigValueConfigured_def getMissingConfigValueEnvVarNames_def getConfigValueEnvVarNames_def
        resolveConfigValue_def filter_empty_conv variable_names resolve_None)
qed

end
