(* ===== verification/Cli_Args.thy ===== *)
theory Cli_Args
  imports Model_Resolver
begin

text \<open>
  Command lines: the arguments of the agent (\<open>cli/args.ts\<close>) and those of the product
  (\<open>cli/bittune-args.ts\<close>), with what they promise to whoever writes one.
\<close>

section \<open>The agent\<close>

datatype cli_mode = ModeText | ModeJson | ModeRpc

datatype list_models = AllModels | MatchingModels string

datatype tui_mode = TuiRegular | TuiFullscreen

datatype flag_value = FlagSet | FlagValue string

datatype cli_diagnostic = CliWarning string | CliError string

record args =
  ar_provider :: "string option"
  ar_model :: "string option"
  ar_apiKey :: "string option"
  ar_systemPrompt :: "string option"
  ar_appendSystemPrompt :: "string list option"
  ar_thinking :: "string option"
  ar_continue :: bool
  ar_resume :: bool
  ar_help :: bool
  ar_version :: bool
  ar_mode :: "cli_mode option"
  ar_name :: "string option"
  ar_noSession :: bool
  ar_session :: "string option"
  ar_sessionId :: "string option"
  ar_fork :: "string option"
  ar_sessionDir :: "string option"
  ar_models :: "string list option"
  ar_tools :: "string list option"
  ar_excludeTools :: "string list option"
  ar_noTools :: bool
  ar_noBuiltinTools :: bool
  ar_extensions :: "string list option"
  ar_noExtensions :: bool
  ar_print :: bool
  ar_export :: "string option"
  ar_noSkills :: bool
  ar_skills :: "string list option"
  ar_promptTemplates :: "string list option"
  ar_noPromptTemplates :: bool
  ar_themes :: "string list option"
  ar_noThemes :: bool
  ar_noContextFiles :: bool
  ar_listModels :: "list_models option"
  ar_offline :: bool
  ar_tuiMode :: "tui_mode option"
  ar_verbose :: bool
  ar_projectTrustOverride :: "bool option"
  ar_messages :: "string list"
  ar_fileArgs :: "string list"
  ar_unknownFlags :: "flag_value jsmap"
  ar_diagnostics :: "cli_diagnostic list"

definition no_args :: args where
  "no_args =
     \<lparr>ar_provider = None, ar_model = None, ar_apiKey = None, ar_systemPrompt = None, ar_appendSystemPrompt = None,
      ar_thinking = None, ar_continue = False, ar_resume = False, ar_help = False, ar_version = False, ar_mode = None,
      ar_name = None, ar_noSession = False, ar_session = None, ar_sessionId = None, ar_fork = None, ar_sessionDir = None,
      ar_models = None, ar_tools = None, ar_excludeTools = None, ar_noTools = False, ar_noBuiltinTools = False,
      ar_extensions = None, ar_noExtensions = False, ar_print = False, ar_export = None, ar_noSkills = False,
      ar_skills = None, ar_promptTemplates = None, ar_noPromptTemplates = False, ar_themes = None, ar_noThemes = False,
      ar_noContextFiles = False, ar_listModels = None, ar_offline = False, ar_tuiMode = None, ar_verbose = False,
      ar_projectTrustOverride = None, ar_messages = [], ar_fileArgs = [], ar_unknownFlags = [], ar_diagnostics = []\<rparr>"

fun split_commas :: "string \<Rightarrow> string list" where
  "split_commas [] = [[]]"
| "split_commas (c # cs) =
     (if c = CHR '','' then [] # split_commas cs
      else (case split_commas cs of s # ss \<Rightarrow> (c # s) # ss | [] \<Rightarrow> [[c]]))"

definition trimmed_names :: "string \<Rightarrow> string list" where
  "trimmed_names v = filter (\<lambda>n. n \<noteq> []) (map trim (split_commas v))"

definition pushed :: "string \<Rightarrow> string list option \<Rightarrow> string list option" where
  "pushed v xs = Some ((case xs of Some ys \<Rightarrow> ys | None \<Rightarrow> []) @ [v])"

definition with_diagnostic :: "cli_diagnostic \<Rightarrow> args \<Rightarrow> args" where
  "with_diagnostic d r = r\<lparr>ar_diagnostics := ar_diagnostics r @ [d]\<rparr>"

definition mode_of :: "string \<Rightarrow> cli_mode option" where
  "mode_of v =
     (if v = ''text'' then Some ModeText else if v = ''json'' then Some ModeJson else if v = ''rpc'' then Some ModeRpc else None)"

definition set_mode :: "string \<Rightarrow> args \<Rightarrow> args" where
  "set_mode v r = (case mode_of v of Some k \<Rightarrow> r\<lparr>ar_mode := Some k\<rparr> | None \<Rightarrow> r)"

definition set_thinking :: "string \<Rightarrow> args \<Rightarrow> args" where
  "set_thinking level r =
     (if isValidThinkingLevel level then r\<lparr>ar_thinking := Some level\<rparr>
      else with_diagnostic (CliWarning (''Invalid thinking level '' @ [CHR 0x22] @ level @ [CHR 0x22] @ ''. Valid values: '' @
             join_with '', '' VALID_THINKING_LEVELS)) r)"

text \<open>The options without a value, and those whose value is the next argument, whatever it is.\<close>

definition plain_flags :: "(string \<times> (args \<Rightarrow> args)) list" where
  "plain_flags =
     [(''--help'', \<lambda>r. r\<lparr>ar_help := True\<rparr>), (''-h'', \<lambda>r. r\<lparr>ar_help := True\<rparr>),
      (''--version'', \<lambda>r. r\<lparr>ar_version := True\<rparr>), (''-v'', \<lambda>r. r\<lparr>ar_version := True\<rparr>),
      (''--continue'', \<lambda>r. r\<lparr>ar_continue := True\<rparr>), (''-c'', \<lambda>r. r\<lparr>ar_continue := True\<rparr>),
      (''--resume'', \<lambda>r. r\<lparr>ar_resume := True\<rparr>), (''-r'', \<lambda>r. r\<lparr>ar_resume := True\<rparr>),
      (''--no-session'', \<lambda>r. r\<lparr>ar_noSession := True\<rparr>),
      (''--no-tools'', \<lambda>r. r\<lparr>ar_noTools := True\<rparr>), (''-nt'', \<lambda>r. r\<lparr>ar_noTools := True\<rparr>),
      (''--no-builtin-tools'', \<lambda>r. r\<lparr>ar_noBuiltinTools := True\<rparr>), (''-nbt'', \<lambda>r. r\<lparr>ar_noBuiltinTools := True\<rparr>),
      (''--no-extensions'', \<lambda>r. r\<lparr>ar_noExtensions := True\<rparr>), (''-ne'', \<lambda>r. r\<lparr>ar_noExtensions := True\<rparr>),
      (''--no-skills'', \<lambda>r. r\<lparr>ar_noSkills := True\<rparr>), (''-ns'', \<lambda>r. r\<lparr>ar_noSkills := True\<rparr>),
      (''--no-prompt-templates'', \<lambda>r. r\<lparr>ar_noPromptTemplates := True\<rparr>), (''-np'', \<lambda>r. r\<lparr>ar_noPromptTemplates := True\<rparr>),
      (''--no-themes'', \<lambda>r. r\<lparr>ar_noThemes := True\<rparr>),
      (''--no-context-files'', \<lambda>r. r\<lparr>ar_noContextFiles := True\<rparr>), (''-nc'', \<lambda>r. r\<lparr>ar_noContextFiles := True\<rparr>),
      (''--verbose'', \<lambda>r. r\<lparr>ar_verbose := True\<rparr>),
      (''--approve'', \<lambda>r. r\<lparr>ar_projectTrustOverride := Some True\<rparr>), (''-a'', \<lambda>r. r\<lparr>ar_projectTrustOverride := Some True\<rparr>),
      (''--no-approve'', \<lambda>r. r\<lparr>ar_projectTrustOverride := Some False\<rparr>), (''-na'', \<lambda>r. r\<lparr>ar_projectTrustOverride := Some False\<rparr>),
      (''--offline'', \<lambda>r. r\<lparr>ar_offline := True\<rparr>)]"

definition value_flags :: "(string \<times> (string \<Rightarrow> args \<Rightarrow> args)) list" where
  "value_flags =
     [(''--mode'', set_mode),
      (''--provider'', \<lambda>v r. r\<lparr>ar_provider := Some v\<rparr>),
      (''--model'', \<lambda>v r. r\<lparr>ar_model := Some v\<rparr>),
      (''--api-key'', \<lambda>v r. r\<lparr>ar_apiKey := Some v\<rparr>),
      (''--system-prompt'', \<lambda>v r. r\<lparr>ar_systemPrompt := Some v\<rparr>),
      (''--append-system-prompt'', \<lambda>v r. r\<lparr>ar_appendSystemPrompt := pushed v (ar_appendSystemPrompt r)\<rparr>),
      (''--session'', \<lambda>v r. r\<lparr>ar_session := Some v\<rparr>),
      (''--session-id'', \<lambda>v r. r\<lparr>ar_sessionId := Some v\<rparr>),
      (''--fork'', \<lambda>v r. r\<lparr>ar_fork := Some v\<rparr>),
      (''--session-dir'', \<lambda>v r. r\<lparr>ar_sessionDir := Some v\<rparr>),
      (''--models'', \<lambda>v r. r\<lparr>ar_models := Some (map trim (split_commas v))\<rparr>),
      (''--tools'', \<lambda>v r. r\<lparr>ar_tools := Some (trimmed_names v)\<rparr>), (''-t'', \<lambda>v r. r\<lparr>ar_tools := Some (trimmed_names v)\<rparr>),
      (''--exclude-tools'', \<lambda>v r. r\<lparr>ar_excludeTools := Some (trimmed_names v)\<rparr>),
      (''-xt'', \<lambda>v r. r\<lparr>ar_excludeTools := Some (trimmed_names v)\<rparr>),
      (''--thinking'', set_thinking),
      (''--export'', \<lambda>v r. r\<lparr>ar_export := Some v\<rparr>),
      (''--extension'', \<lambda>v r. r\<lparr>ar_extensions := pushed v (ar_extensions r)\<rparr>),
      (''-e'', \<lambda>v r. r\<lparr>ar_extensions := pushed v (ar_extensions r)\<rparr>),
      (''--skill'', \<lambda>v r. r\<lparr>ar_skills := pushed v (ar_skills r)\<rparr>),
      (''--prompt-template'', \<lambda>v r. r\<lparr>ar_promptTemplates := pushed v (ar_promptTemplates r)\<rparr>),
      (''--theme'', \<lambda>v r. r\<lparr>ar_themes := pushed v (ar_themes r)\<rparr>)]"

definition add_message :: "string \<Rightarrow> args \<Rightarrow> args" where
  "add_message t r = r\<lparr>ar_messages := ar_messages r @ [t]\<rparr>"

definition parse_name :: "string list \<Rightarrow> args \<Rightarrow> args \<times> string list" where
  "parse_name rest r =
     (case rest of
        v # rest1 \<Rightarrow> (r\<lparr>ar_name := Some v\<rparr>, rest1)
      | [] \<Rightarrow> (with_diagnostic (CliError ''--name requires a value'') r, []))"

definition parse_print :: "string list \<Rightarrow> args \<Rightarrow> args \<times> string list" where
  "parse_print rest r =
     (let r1 = r\<lparr>ar_print := True\<rparr> in
      case rest of
        v # rest1 \<Rightarrow>
          if \<not> prefix ''@'' v \<and> (\<not> prefix ''-'' v \<or> prefix ''---'' v) then (add_message v r1, rest1) else (r1, rest)
      | [] \<Rightarrow> (r1, []))"

definition parse_list_models :: "string list \<Rightarrow> args \<Rightarrow> args \<times> string list" where
  "parse_list_models rest r =
     (case rest of
        v # rest1 \<Rightarrow>
          if \<not> prefix ''-'' v \<and> \<not> prefix ''@'' v then (r\<lparr>ar_listModels := Some (MatchingModels v)\<rparr>, rest1)
          else (r\<lparr>ar_listModels := Some AllModels\<rparr>, rest)
      | [] \<Rightarrow> (r\<lparr>ar_listModels := Some AllModels\<rparr>, []))"

definition parse_tui_mode :: "string list \<Rightarrow> args \<Rightarrow> args \<times> string list" where
  "parse_tui_mode rest r =
     (case rest of
        v # rest1 \<Rightarrow>
          if v = ''regular'' then (r\<lparr>ar_tuiMode := Some TuiRegular\<rparr>, rest1)
          else if v = ''fullscreen'' then (r\<lparr>ar_tuiMode := Some TuiFullscreen\<rparr>, rest1)
          else if prefix ''-'' v then (with_diagnostic (CliError ''--tui-mode requires regular or fullscreen'') r, rest)
          else (with_diagnostic (CliError (''Invalid TUI mode '' @ [CHR 0x22] @ v @ [CHR 0x22] @
                  ''. Valid values: regular, fullscreen'')) r, rest1)
      | [] \<Rightarrow> (with_diagnostic (CliError ''--tui-mode requires regular or fullscreen'') r, []))"

definition parse_unknown :: "string \<Rightarrow> string list \<Rightarrow> args \<Rightarrow> args \<times> string list" where
  "parse_unknown arg rest r =
     (if CHR ''='' \<in> set arg
      then (let n = takeWhile (\<lambda>c. c \<noteq> CHR ''='') arg in
            (r\<lparr>ar_unknownFlags := jm_set (drop 2 n) (FlagValue (drop (Suc (length n)) arg)) (ar_unknownFlags r)\<rparr>, rest))
      else (case rest of
              v # rest1 \<Rightarrow>
                if \<not> prefix ''-'' v \<and> \<not> prefix ''@'' v
                then (r\<lparr>ar_unknownFlags := jm_set (drop 2 arg) (FlagValue v) (ar_unknownFlags r)\<rparr>, rest1)
                else (r\<lparr>ar_unknownFlags := jm_set (drop 2 arg) FlagSet (ar_unknownFlags r)\<rparr>, rest)
            | [] \<Rightarrow> (r\<lparr>ar_unknownFlags := jm_set (drop 2 arg) FlagSet (ar_unknownFlags r)\<rparr>, [])))"

definition parse_other :: "string \<Rightarrow> string list \<Rightarrow> args \<Rightarrow> args \<times> string list" where
  "parse_other arg rest r =
     (if arg = ''--name'' \<or> arg = ''-n'' then parse_name rest r
      else if arg = ''--print'' \<or> arg = ''-p'' then parse_print rest r
      else if arg = ''--list-models'' then parse_list_models rest r
      else if arg = ''--tui-mode'' then parse_tui_mode rest r
      else if prefix ''@'' arg then (r\<lparr>ar_fileArgs := ar_fileArgs r @ [tl arg]\<rparr>, rest)
      else if prefix ''--'' arg then parse_unknown arg rest r
      else if prefix ''-'' arg then (with_diagnostic (CliError (''Unknown option: '' @ arg)) r, rest)
      else (add_message arg r, rest))"

text \<open>One round of the loop, with the arguments that are left.\<close>

definition parse_arg :: "string \<Rightarrow> string list \<Rightarrow> args \<Rightarrow> args \<times> string list" where
  "parse_arg arg rest r =
     (case map_of plain_flags arg of
        Some f \<Rightarrow> (f r, rest)
      | None \<Rightarrow>
          (case (map_of value_flags arg, rest) of
             (Some f, v # rest1) \<Rightarrow> (f v r, rest1)
           | _ \<Rightarrow> parse_other arg rest r))"

lemma parse_arg_consumes: "length (snd (parse_arg arg rest r)) \<le> length rest"
  by (auto simp: parse_arg_def parse_other_def parse_name_def parse_print_def parse_list_models_def parse_tui_mode_def
      parse_unknown_def Let_def split: option.split list.split)

function parse_loop :: "string list \<Rightarrow> args \<Rightarrow> args" where
  "parse_loop [] r = r"
| "parse_loop (arg # rest) r = (let (r1, rest1) = parse_arg arg rest r in parse_loop rest1 r1)"
  by pat_completeness auto

termination parse_loop
  by (relation "measure (length \<circ> fst)") (use parse_arg_consumes in \<open>auto simp: less_Suc_eq_le, metis snd_conv\<close>)

definition parseArgs :: "string list \<Rightarrow> args" where
  "parseArgs argv = parse_loop argv no_args"

text \<open>
  What becomes of the flags that the parser does not know, once the extensions have registered theirs
  (\<open>core/agent-session-services.ts\<close>).
\<close>

datatype registered_flag = BooleanFlag | StringFlag

fun apply_flags ::
  "registered_flag jsmap \<Rightarrow> flag_value jsmap \<Rightarrow> flag_value jsmap \<Rightarrow> string list \<Rightarrow> string list \<Rightarrow>
     flag_value jsmap \<times> string list \<times> string list" where
  "apply_flags registered [] values errors unknown = (values, errors, unknown)"
| "apply_flags registered ((n, v) # flags) values errors unknown =
     (case (jm_get registered n, v) of
        (None, _) \<Rightarrow> apply_flags registered flags values errors (unknown @ [n])
      | (Some BooleanFlag, _) \<Rightarrow> apply_flags registered flags (jm_set n FlagSet values) errors unknown
      | (Some StringFlag, FlagValue t) \<Rightarrow> apply_flags registered flags (jm_set n (FlagValue t) values) errors unknown
      | (Some StringFlag, FlagSet) \<Rightarrow>
          apply_flags registered flags values
            (errors @ [''Extension flag '' @ [CHR 0x22] @ ''--'' @ n @ [CHR 0x22] @ '' requires a value'']) unknown)"

definition applyExtensionFlagValues ::
  "registered_flag jsmap \<Rightarrow> flag_value jsmap option \<Rightarrow> flag_value jsmap \<Rightarrow> flag_value jsmap \<times> string list" where
  "applyExtensionFlagValues registered flags values =
     (case flags of
        None \<Rightarrow> (values, [])
      | Some fs \<Rightarrow>
          (let (values1, errors, unknown) = apply_flags registered fs values [] [] in
           (values1,
            errors @ (if unknown \<noteq> []
              then [''Unknown option'' @ (if length unknown = 1 then [] else ''s'') @ '': '' @
                    join_with '', '' (map (\<lambda>n. ''--'' @ n) unknown)] else []))))"

section \<open>The product\<close>

record configure_options =
  cf_baseUrl :: "string option"
  cf_modelId :: "string option"
  cf_providerId :: "string option"
  cf_apiKeyEnv :: "string option"

record install_options =
  in_checkOnly :: bool
  in_json :: bool
  in_yes :: bool
  in_user :: "string option"
  in_packagePath :: "string option"
  in_bundleDir :: "string option"
  in_stageDir :: "string option"
  in_requirementsPath :: "string option"
  in_coreWheelDir :: "string option"

datatype invocation =
    InvokeHelp
  | InvokeVersion
  | InvokeDoctor
  | InvokeInstall install_options
  | InvokeConfigure configure_options
  | InvokeInteractive "string option" "string option"

datatype usage_error =
    UnexpectedFor string string
  | UnknownOption string string
  | OnlyOnce string
  | RequiresValue string
  | UnexpectedArgument string
  | DoctorTakesNone

definition in_quotes :: "string \<Rightarrow> string" where
  "in_quotes s = [CHR 0x22] @ s @ [CHR 0x22]"

definition usageError :: "usage_error \<Rightarrow> string" where
  "usageError e =
     (case e of
        UnexpectedFor arg command \<Rightarrow> ''Unexpected argument '' @ in_quotes arg @ '' for '' @ command @ ''.''
      | UnknownOption arg command \<Rightarrow> ''Unknown option '' @ in_quotes arg @ '' for '' @ command @ ''.''
      | OnlyOnce arg \<Rightarrow> ''Option '' @ in_quotes arg @ '' may only be specified once.''
      | RequiresValue arg \<Rightarrow> ''Option '' @ in_quotes arg @ '' requires a value.''
      | UnexpectedArgument arg \<Rightarrow> ''Unexpected argument '' @ in_quotes arg @ ''.''
      | DoctorTakesNone \<Rightarrow> ''The doctor command does not accept arguments.'') @ '' Run `bittune --help` for usage.''"

definition is_value :: "string \<Rightarrow> bool" where
  "is_value v = (\<not> prefix ''-'' v)"

fun parseOptions :: "string list \<Rightarrow> string \<Rightarrow> string list \<Rightarrow> string jsmap \<Rightarrow> usage_error + string jsmap" where
  "parseOptions allowed command [] values = Inr values"
| "parseOptions allowed command [arg] values =
     (if is_value arg then Inl (UnexpectedFor arg command)
      else if arg \<notin> set allowed then Inl (UnknownOption arg command)
      else if jm_has values arg then Inl (OnlyOnce arg)
      else Inl (RequiresValue arg))"
| "parseOptions allowed command (arg # v # rest) values =
     (if is_value arg then Inl (UnexpectedFor arg command)
      else if arg \<notin> set allowed then Inl (UnknownOption arg command)
      else if jm_has values arg then Inl (OnlyOnce arg)
      else if \<not> is_value v then Inl (RequiresValue arg)
      else parseOptions allowed command rest (jm_set arg v values))"

definition CONFIGURE_OPTIONS :: "string list" where
  "CONFIGURE_OPTIONS = [''--base-url'', ''--model-id'', ''--provider-id'', ''--api-key-env'']"

definition parseConfigure :: "string list \<Rightarrow> usage_error + invocation" where
  "parseConfigure args =
     (if args = [''--help''] \<or> args = [''-h''] then Inr InvokeHelp
      else (case parseOptions CONFIGURE_OPTIONS ''bittune configure'' args [] of
              Inl e \<Rightarrow> Inl e
            | Inr values \<Rightarrow>
                Inr (InvokeConfigure
                  \<lparr>cf_baseUrl = jm_get values ''--base-url'', cf_modelId = jm_get values ''--model-id'',
                   cf_providerId = jm_get values ''--provider-id'', cf_apiKeyEnv = jm_get values ''--api-key-env''\<rparr>)))"

fun parse_interactive :: "string list \<Rightarrow> string option \<Rightarrow> string list \<Rightarrow> usage_error + string option \<times> string list" where
  "parse_interactive [] session messages = Inr (session, messages)"
| "parse_interactive (arg # rest) session messages =
     (if arg = ''--session''
      then (if session \<noteq> None then Inl (OnlyOnce arg)
            else (case rest of
                    [] \<Rightarrow> Inl (RequiresValue arg)
                  | v # rest1 \<Rightarrow>
                      if \<not> is_value v then Inl (RequiresValue arg) else parse_interactive rest1 (Some v) messages))
      else if \<not> is_value arg then Inl (UnknownOption arg ''bittune'')
      else parse_interactive rest session (messages @ [arg]))"

definition parseInteractive :: "string list \<Rightarrow> usage_error + invocation" where
  "parseInteractive args =
     (case parse_interactive args None [] of
        Inl e \<Rightarrow> Inl e
      | Inr (session, messages) \<Rightarrow>
          Inr (InvokeInteractive (truthy_str session) (if messages \<noteq> [] then Some (join_with '' '' messages) else None)))"

definition no_install :: install_options where
  "no_install =
     \<lparr>in_checkOnly = False, in_json = False, in_yes = False, in_user = None, in_packagePath = None, in_bundleDir = None,
      in_stageDir = None, in_requirementsPath = None, in_coreWheelDir = None\<rparr>"

definition install_switches :: "(string \<times> (install_options \<Rightarrow> install_options)) list" where
  "install_switches =
     [(''--check-only'', \<lambda>o1. o1\<lparr>in_checkOnly := True\<rparr>), (''--json'', \<lambda>o1. o1\<lparr>in_json := True\<rparr>),
      (''--yes'', \<lambda>o1. o1\<lparr>in_yes := True\<rparr>)]"

definition install_values :: "(string \<times> (string \<Rightarrow> install_options \<Rightarrow> install_options)) list" where
  "install_values =
     [(''--user'', \<lambda>v o1. o1\<lparr>in_user := Some v\<rparr>), (''--package'', \<lambda>v o1. o1\<lparr>in_packagePath := Some v\<rparr>),
      (''--offline'', \<lambda>v o1. o1\<lparr>in_bundleDir := Some v\<rparr>), (''--stage-dir'', \<lambda>v o1. o1\<lparr>in_stageDir := Some v\<rparr>),
      (''--requirements'', \<lambda>v o1. o1\<lparr>in_requirementsPath := Some v\<rparr>),
      (''--core-wheel-dir'', \<lambda>v o1. o1\<lparr>in_coreWheelDir := Some v\<rparr>)]"

fun parse_install :: "string list \<Rightarrow> install_options \<Rightarrow> usage_error + install_options" where
  "parse_install [] o1 = Inr o1"
| "parse_install (arg # rest) o1 =
     (case map_of install_switches arg of
        Some f \<Rightarrow> parse_install rest (f o1)
      | None \<Rightarrow>
          (case map_of install_values arg of
             None \<Rightarrow> Inl (UnknownOption arg ''bittune install'')
           | Some f \<Rightarrow>
               (case rest of
                  [] \<Rightarrow> Inl (RequiresValue arg)
                | v # rest1 \<Rightarrow> if \<not> is_value v then Inl (RequiresValue arg) else parse_install rest1 (f v o1))))"

definition parseInstall :: "string list \<Rightarrow> usage_error + invocation" where
  "parseInstall args =
     (if args = [''--help''] \<or> args = [''-h''] then Inr InvokeHelp
      else (case parse_install args no_install of Inl e \<Rightarrow> Inl e | Inr o1 \<Rightarrow> Inr (InvokeInstall o1)))"

definition parseBittuneCliArguments :: "string list \<Rightarrow> usage_error + invocation" where
  "parseBittuneCliArguments argv =
     (case argv of
        [] \<Rightarrow> Inr (InvokeInteractive None None)
      | command # args \<Rightarrow>
          if command = ''--help'' \<or> command = ''-h'' \<or> command = ''help''
          then (if args \<noteq> [] then Inl (UnexpectedArgument (hd args)) else Inr InvokeHelp)
          else if command = ''--version'' \<or> command = ''-v'' \<or> command = ''version''
          then (if args \<noteq> [] then Inl (UnexpectedFor (hd args) ''version'') else Inr InvokeVersion)
          else if command = ''configure'' then parseConfigure args
          else if command = ''install'' then parseInstall args
          else if command = ''doctor'' then (if args \<noteq> [] then Inl DoctorTakesNone else Inr InvokeDoctor)
          else parseInteractive argv)"

section \<open>Reading in order\<close>

text \<open>What a command line of the agent is made of, and how each part is written.\<close>

datatype cli_item =
    PlainItem string
  | ValueItem string string
  | NameItem string
  | PrintItem
  | MessageItem string
  | FileItem string
  | UnknownItem string string

fun write_item :: "cli_item \<Rightarrow> string list" where
  "write_item (PlainItem k) = [k]"
| "write_item (ValueItem k v) = [k, v]"
| "write_item (NameItem v) = [''--name'', v]"
| "write_item PrintItem = [''--print'']"
| "write_item (MessageItem t) = [t]"
| "write_item (FileItem p) = [CHR ''@'' # p]"
| "write_item (UnknownItem n v) = [''--'' @ n @ ''='' @ v]"

definition some_flag :: "(string \<times> 'a) list \<Rightarrow> string \<Rightarrow> bool" where
  "some_flag table k = (k \<in> fst ` set table)"

fun well_written :: "cli_item \<Rightarrow> bool" where
  "well_written (PlainItem k) = some_flag plain_flags k"
| "well_written (ValueItem k v) = some_flag value_flags k"
| "well_written (MessageItem t) = (\<not> prefix ''-'' t \<and> \<not> prefix ''@'' t)"
| "well_written (UnknownItem n v) = (n \<noteq> [] \<and> \<not> prefix ''-'' n \<and> CHR ''='' \<notin> set n)"
| "well_written _ = True"

fun item_effect :: "cli_item \<Rightarrow> args \<Rightarrow> args" where
  "item_effect (PlainItem k) r = (case map_of plain_flags k of Some f \<Rightarrow> f r | None \<Rightarrow> r)"
| "item_effect (ValueItem k v) r = (case map_of value_flags k of Some f \<Rightarrow> f v r | None \<Rightarrow> r)"
| "item_effect (NameItem v) r = r\<lparr>ar_name := Some v\<rparr>"
| "item_effect PrintItem r = r\<lparr>ar_print := True\<rparr>"
| "item_effect (MessageItem t) r = add_message t r"
| "item_effect (FileItem p) r = r\<lparr>ar_fileArgs := ar_fileArgs r @ [p]\<rparr>"
| "item_effect (UnknownItem n v) r = r\<lparr>ar_unknownFlags := jm_set n (FlagValue v) (ar_unknownFlags r)\<rparr>"

text \<open>The names of the two tables: options, with one or two dashes, apart from each other and from the others.\<close>

definition option_name :: "string \<Rightarrow> bool" where
  "option_name k = (prefix ''-'' k \<and> \<not> prefix ''---'' k \<and> CHR ''='' \<notin> set k)"

lemma plain_names: "list_all option_name (map fst plain_flags)"
  by (simp add: plain_flags_def option_name_def)

lemma value_names:
  "list_all (\<lambda>k. option_name k \<and> k \<notin> set (map fst plain_flags)) (map fst value_flags)"
  by (simp add: plain_flags_def value_flags_def option_name_def)

lemma other_names:
  "list_all (\<lambda>k. k \<notin> set (map fst plain_flags) \<and> k \<notin> set (map fst value_flags)) [''--name'', ''--print'']"
  by (simp add: plain_flags_def value_flags_def)

lemma plain_name: "some_flag plain_flags k \<Longrightarrow> option_name k"
  using plain_names by (auto simp: some_flag_def list_all_iff)

lemma value_name: "some_flag value_flags k \<Longrightarrow> option_name k \<and> map_of plain_flags k = None"
  using value_names by (auto simp: some_flag_def list_all_iff map_of_eq_None_iff)

lemma no_option: "\<not> option_name k \<Longrightarrow> map_of plain_flags k = None \<and> map_of value_flags k = None"
  using plain_names value_names by (auto simp: list_all_iff map_of_eq_None_iff)

text \<open>The first argument that is left is not one that \<open>--print\<close> would take for a message.\<close>

lemma first_argument:
  "well_written it \<Longrightarrow> \<exists>a as. write_item it = a # as \<and>
     ((\<exists>t. it = MessageItem t \<and> a = t \<and> as = []) \<or> prefix ''@'' a \<or> prefix ''-'' a \<and> \<not> prefix ''---'' a)"
  by (cases it) (auto dest: plain_name value_name simp: option_name_def neq_Nil_conv)

lemma print_then:
  assumes "list_all well_written items"
  shows "\<exists>items1 r1. parse_print (concat (map write_item items)) r = (r1, concat (map write_item items1)) \<and>
    fold item_effect items1 r1 = fold item_effect items (r\<lparr>ar_print := True\<rparr>) \<and> list_all well_written items1 \<and>
    length (concat (map write_item items1)) \<le> length (concat (map write_item items))"
proof (cases items)
  case Nil
  then show ?thesis by (intro exI [of _ "[]"]) (simp add: parse_print_def Let_def)
next
  case (Cons it rest)
  with assms have w: "well_written it" by simp
  show ?thesis
  proof (cases "\<exists>t. it = MessageItem t")
    case True
    with Cons w assms show ?thesis
      by (intro exI [of _ rest] exI [of _ "item_effect it (r\<lparr>ar_print := True\<rparr>)"]) (auto simp: parse_print_def Let_def)
  next
    case False
    with first_argument [OF w] obtain a as where "write_item it = a # as" "prefix ''@'' a \<or> prefix ''-'' a \<and> \<not> prefix ''---'' a"
      by blast
    with Cons assms show ?thesis
      by (intro exI [of _ items] exI [of _ "r\<lparr>ar_print := True\<rparr>"]) (auto simp: parse_print_def Let_def)
  qed
qed

lemma not_dashed:
  assumes "\<not> prefix ''-'' t"
  shows "t \<noteq> ''--name''" "t \<noteq> ''-n''" "t \<noteq> ''--print''" "t \<noteq> ''-p''" "t \<noteq> ''--list-models''" "t \<noteq> ''--tui-mode''"
    "t \<noteq> ''--session''" "t \<noteq> ''--help''" "t \<noteq> ''-h''" "t \<noteq> ''--version''" "t \<noteq> ''-v''"
  using assms by (cases t; simp)+

lemma not_assigned:
  assumes "CHR ''='' \<in> set a"
  shows "a \<noteq> ''--name''" "a \<noteq> ''-n''" "a \<noteq> ''--print''" "a \<noteq> ''-p''" "a \<noteq> ''--list-models''" "a \<noteq> ''--tui-mode''"
  using assms by auto

lemma parse_item:
  assumes "well_written it" and "it \<noteq> PrintItem"
  shows "parse_loop (write_item it @ rest) r = parse_loop rest (item_effect it r)"
proof (cases it)
  case (PlainItem k)
  with assms obtain f where "map_of plain_flags k = Some f"
    by (cases "map_of plain_flags k") (auto simp: some_flag_def map_of_eq_None_iff)
  with PlainItem show ?thesis by (simp add: parse_arg_def)
next
  case (ValueItem k v)
  with assms obtain f where "map_of value_flags k = Some f"
    by (cases "map_of value_flags k") (auto simp: some_flag_def map_of_eq_None_iff)
  with ValueItem assms(1) value_name show ?thesis by (simp add: parse_arg_def)
next
  case (NameItem v)
  have "map_of plain_flags ''--name'' = None" "map_of value_flags ''--name'' = None"
    using other_names by (auto simp: map_of_eq_None_iff)
  with NameItem show ?thesis by (simp add: parse_arg_def parse_other_def parse_name_def)
next
  case (MessageItem t)
  with assms(1) have "\<not> option_name t" by (simp add: option_name_def)
  note none = no_option [OF this]
  have dash: "\<not> prefix ''-'' t" "\<not> prefix ''@'' t" using MessageItem assms(1) by simp_all
  then have "\<not> prefix ''--'' t" by (cases t) simp_all
  with none dash not_dashed [OF dash(1)] MessageItem show ?thesis by (simp add: parse_arg_def parse_other_def)
next
  case (FileItem p)
  have "\<not> option_name (CHR ''@'' # p)" by (simp add: option_name_def)
  from no_option [OF this] FileItem show ?thesis by (simp add: parse_arg_def parse_other_def)
next
  case (UnknownItem n v)
  let ?a = "''--'' @ n @ ''='' @ v"
  have "\<not> option_name ?a" by (simp add: option_name_def)
  note none = no_option [OF this]
  have eq: "CHR ''='' \<in> set ?a" by simp
  note diff = not_assigned [OF eq]
  have n: "takeWhile (\<lambda>c. c \<noteq> CHR ''='') ?a = ''--'' @ n"
    using assms(1) UnknownItem by (simp add: takeWhile_append)
  from none diff n eq show ?thesis using UnknownItem
    by (simp add: parse_arg_def parse_other_def parse_unknown_def)
qed (use assms in simp)

text \<open>
  C37. A command line is read part by part, in the order in which it is written: options with any value
  (also one that begins with a dash), the name, messages, files and flags of extensions in the form with an
  equals sign have their effects one after the other, wherever \<open>--print\<close> stands among them.
\<close>

theorem command_line_is_read_in_order:
  assumes "list_all well_written items"
  shows "parse_loop (concat (map write_item items)) r = fold item_effect items r"
  using assms
proof (induction "length (concat (map write_item items))" arbitrary: items r rule: less_induct)
  case less
  show ?case
  proof (cases items)
    case (Cons it rest)
    show ?thesis
    proof (cases "it = PrintItem")
      case False
      have "write_item it \<noteq> []" by (cases it) simp_all
      then have "length (concat (map write_item rest)) < length (concat (map write_item items))" by (simp add: Cons)
      from less.hyps [OF this] parse_item [OF _ False, of "concat (map write_item rest)" r] less.prems Cons
      show ?thesis by simp
    next
      case True
      have none: "map_of plain_flags ''--print'' = None" "map_of value_flags ''--print'' = None"
        using other_names by (auto simp: map_of_eq_None_iff)
      from less.prems Cons have "list_all well_written rest" by simp
      from print_then [OF this, of r] obtain items1 r1 where p: "parse_print (concat (map write_item rest)) r = (r1, concat (map write_item items1))"
          "fold item_effect items1 r1 = fold item_effect rest (r\<lparr>ar_print := True\<rparr>)" "list_all well_written items1"
          "length (concat (map write_item items1)) \<le> length (concat (map write_item rest))" by blast
      from p(4) have "length (concat (map write_item items1)) < length (concat (map write_item items))"
        by (simp add: Cons True)
      from less.hyps [OF this p(3)] show ?thesis
        by (simp add: Cons True parse_arg_def none parse_other_def p(1,2))
    qed
  qed simp
qed

text \<open>A print of a message after a value that looks like an option.\<close>

theorem command_line_is_read_in_order_witness:
  "ar_messages (parseArgs [''--print'', ''hi'', ''--system-prompt'', ''-x'']) = [''hi''] \<and>
   ar_systemPrompt (parseArgs [''--print'', ''hi'', ''--system-prompt'', ''-x'']) = Some ''-x''"
proof -
  have "list_all well_written [PrintItem, MessageItem ''hi'', ValueItem ''--system-prompt'' ''-x'']"
    by (simp add: some_flag_def value_flags_def)
  from command_line_is_read_in_order [OF this, of no_args] show ?thesis
    by (simp add: parseArgs_def value_flags_def add_message_def no_args_def)
qed

text \<open>A message after a flag of an extension that takes no value is lost, without a word.\<close>

lemma flag_takes_message:
  "let r = parseArgs [''--plan'', ''do it''] in
   ar_messages r = [] \<and> applyExtensionFlagValues [(''plan'', BooleanFlag)] (Some (ar_unknownFlags r)) [] = ([(''plan'', FlagSet)], [])"
  by (simp add: parseArgs_def parse_arg_def parse_other_def parse_unknown_def plain_flags_def value_flags_def no_args_def
      applyExtensionFlagValues_def)

section \<open>Writing an invocation\<close>

definition opt_arg :: "string \<Rightarrow> string option \<Rightarrow> string list" where
  "opt_arg k v = (case v of None \<Rightarrow> [] | Some t \<Rightarrow> [k, t])"

definition switch_arg :: "string \<Rightarrow> bool \<Rightarrow> string list" where
  "switch_arg k b = (if b then [k] else [])"

fun write_invocation :: "invocation \<Rightarrow> string list" where
  "write_invocation InvokeHelp = [''--help'']"
| "write_invocation InvokeVersion = [''--version'']"
| "write_invocation InvokeDoctor = [''doctor'']"
| "write_invocation (InvokeConfigure o1) =
     ''configure'' # opt_arg ''--base-url'' (cf_baseUrl o1) @ opt_arg ''--model-id'' (cf_modelId o1) @
       opt_arg ''--provider-id'' (cf_providerId o1) @ opt_arg ''--api-key-env'' (cf_apiKeyEnv o1)"
| "write_invocation (InvokeInstall o1) =
     ''install'' # switch_arg ''--check-only'' (in_checkOnly o1) @ switch_arg ''--json'' (in_json o1) @
       switch_arg ''--yes'' (in_yes o1) @ opt_arg ''--user'' (in_user o1) @ opt_arg ''--package'' (in_packagePath o1) @
       opt_arg ''--offline'' (in_bundleDir o1) @ opt_arg ''--stage-dir'' (in_stageDir o1) @
       opt_arg ''--requirements'' (in_requirementsPath o1) @ opt_arg ''--core-wheel-dir'' (in_coreWheelDir o1)"
| "write_invocation (InvokeInteractive session message) = opt_arg ''--session'' session @ (case message of None \<Rightarrow> [] | Some t \<Rightarrow> [t])"

definition opt_value :: "string option \<Rightarrow> bool" where
  "opt_value v = (case v of None \<Rightarrow> True | Some t \<Rightarrow> is_value t)"

text \<open>Values begin with no dash; a message alone is no command, and a session has a name.\<close>

fun writable :: "invocation \<Rightarrow> bool" where
  "writable (InvokeConfigure o1) =
     (opt_value (cf_baseUrl o1) \<and> opt_value (cf_modelId o1) \<and> opt_value (cf_providerId o1) \<and> opt_value (cf_apiKeyEnv o1))"
| "writable (InvokeInstall o1) =
     (opt_value (in_user o1) \<and> opt_value (in_packagePath o1) \<and> opt_value (in_bundleDir o1) \<and> opt_value (in_stageDir o1) \<and>
      opt_value (in_requirementsPath o1) \<and> opt_value (in_coreWheelDir o1))"
| "writable (InvokeInteractive session message) =
     (opt_value session \<and> session \<noteq> Some [] \<and> opt_value message \<and>
      (session = None \<longrightarrow> message \<notin> Some ` {''help'', ''version'', ''configure'', ''install'', ''doctor''}))"
| "writable _ = True"

lemma parseOptions_opt:
  assumes "opt_value v" and "prefix ''-'' k" and "k \<in> set allowed" and "jm_get values k = None"
  shows "parseOptions allowed command (opt_arg k v @ rest) values =
    parseOptions allowed command rest (case v of None \<Rightarrow> values | Some t \<Rightarrow> jm_set k t values)"
  using assms by (auto simp: opt_arg_def opt_value_def is_value_def split: option.split)

lemma parse_install_switches:
  "\<not> in_checkOnly o1 \<Longrightarrow> parse_install (switch_arg ''--check-only'' b @ rest) o1 = parse_install rest (o1\<lparr>in_checkOnly := b\<rparr>)"
  "\<not> in_json o1 \<Longrightarrow> parse_install (switch_arg ''--json'' b @ rest) o1 = parse_install rest (o1\<lparr>in_json := b\<rparr>)"
  "\<not> in_yes o1 \<Longrightarrow> parse_install (switch_arg ''--yes'' b @ rest) o1 = parse_install rest (o1\<lparr>in_yes := b\<rparr>)"
  by (cases o1; simp add: switch_arg_def install_switches_def)+

lemma parse_install_values:
  "in_user o1 = None \<Longrightarrow> opt_value v \<Longrightarrow> parse_install (opt_arg ''--user'' v @ rest) o1 = parse_install rest (o1\<lparr>in_user := v\<rparr>)"
  "in_packagePath o1 = None \<Longrightarrow> opt_value v \<Longrightarrow> parse_install (opt_arg ''--package'' v @ rest) o1 = parse_install rest (o1\<lparr>in_packagePath := v\<rparr>)"
  "in_bundleDir o1 = None \<Longrightarrow> opt_value v \<Longrightarrow> parse_install (opt_arg ''--offline'' v @ rest) o1 = parse_install rest (o1\<lparr>in_bundleDir := v\<rparr>)"
  "in_stageDir o1 = None \<Longrightarrow> opt_value v \<Longrightarrow> parse_install (opt_arg ''--stage-dir'' v @ rest) o1 = parse_install rest (o1\<lparr>in_stageDir := v\<rparr>)"
  "in_requirementsPath o1 = None \<Longrightarrow> opt_value v \<Longrightarrow> parse_install (opt_arg ''--requirements'' v @ rest) o1 = parse_install rest (o1\<lparr>in_requirementsPath := v\<rparr>)"
  "in_coreWheelDir o1 = None \<Longrightarrow> opt_value v \<Longrightarrow> parse_install (opt_arg ''--core-wheel-dir'' v @ rest) o1 = parse_install rest (o1\<lparr>in_coreWheelDir := v\<rparr>)"
  by (cases v; cases o1; simp add: opt_arg_def opt_value_def install_switches_def install_values_def)+

lemma configure_written:
  assumes "writable (InvokeConfigure o1)"
  shows "parseConfigure (tl (write_invocation (InvokeConfigure o1))) = Inr (InvokeConfigure o1)"
proof -
  have no_help: "tl (write_invocation (InvokeConfigure o1)) \<noteq> [x]" for x by (auto simp: opt_arg_def split: option.splits)
  have "parseOptions CONFIGURE_OPTIONS ''bittune configure'' (tl (write_invocation (InvokeConfigure o1)) @ []) [] =
      Inr ((case cf_baseUrl o1 of None \<Rightarrow> [] | Some t \<Rightarrow> [(''--base-url'', t)]) @ (case cf_modelId o1 of None \<Rightarrow> [] | Some t \<Rightarrow> [(''--model-id'', t)]) @
        (case cf_providerId o1 of None \<Rightarrow> [] | Some t \<Rightarrow> [(''--provider-id'', t)]) @ (case cf_apiKeyEnv o1 of None \<Rightarrow> [] | Some t \<Rightarrow> [(''--api-key-env'', t)]))"
    using assms by (cases "cf_baseUrl o1"; cases "cf_modelId o1"; cases "cf_providerId o1"; cases "cf_apiKeyEnv o1")
      (simp_all add: parseOptions_opt CONFIGURE_OPTIONS_def opt_arg_def opt_value_def is_value_def)
  then show ?thesis using no_help [of "''--help''"] no_help [of "''-h''"]
    by (cases "cf_baseUrl o1"; cases "cf_modelId o1"; cases "cf_providerId o1"; cases "cf_apiKeyEnv o1")
      (simp_all add: parseConfigure_def)
qed

lemma install_written:
  assumes "writable (InvokeInstall o1)"
  shows "parseInstall (tl (write_invocation (InvokeInstall o1))) = Inr (InvokeInstall o1)"
proof -
  have no_help: "tl (write_invocation (InvokeInstall o1)) \<noteq> [x]" if "x = ''--help'' \<or> x = ''-h''" for x
    using that by (auto simp: opt_arg_def switch_arg_def split: option.splits if_splits)
  have "parse_install (tl (write_invocation (InvokeInstall o1)) @ []) no_install = Inr o1"
    using assms unfolding write_invocation.simps list.sel append_assoc
    by (cases o1) (simp add: parse_install_switches parse_install_values parse_install_values(6) [of _ _ "[]", simplified] no_install_def)
  then have "parse_install (tl (write_invocation (InvokeInstall o1))) no_install = Inr o1" by (simp only: append_Nil2)
  with no_help show ?thesis by (simp add: parseInstall_def)
qed

lemma interactive_written:
  assumes "writable (InvokeInteractive session message)"
  shows "parseInteractive (write_invocation (InvokeInteractive session message)) = Inr (InvokeInteractive session message)"
  using assms by (cases session; cases message)
    (simp_all add: parseInteractive_def opt_arg_def opt_value_def is_value_def not_dashed)

text \<open>
  C36. Every invocation of the product can be written as a command line that is read as that invocation:
  each combination of options of \<open>install\<close> and \<open>configure\<close>, and each session with each message, as long as
  no value begins with a dash and a message that stands alone is not the name of a command.
\<close>

theorem every_invocation_can_be_written:
  assumes "writable call"
  shows "parseBittuneCliArguments (write_invocation call) = Inr call"
proof (cases call)
  case (InvokeInstall o1)
  with assms install_written [of o1] show ?thesis by (simp add: parseBittuneCliArguments_def)
next
  case (InvokeConfigure o1)
  with assms configure_written [of o1] show ?thesis by (simp add: parseBittuneCliArguments_def)
next
  case (InvokeInteractive session message)
  have interactive: "parseBittuneCliArguments (write_invocation call) = parseInteractive (write_invocation call)"
    if "write_invocation call = c # cs"
      "c \<noteq> ''--help''" "c \<noteq> ''-h''" "c \<noteq> ''help''" "c \<noteq> ''--version''" "c \<noteq> ''-v''" "c \<noteq> ''version''"
      "c \<noteq> ''configure''" "c \<noteq> ''install''" "c \<noteq> ''doctor''" for c cs
    using that by (simp add: parseBittuneCliArguments_def)
  have written: "parseInteractive (write_invocation call) = Inr call"
    using interactive_written [of session message] assms InvokeInteractive by simp
  show ?thesis
  proof (cases session)
    case (Some v)
    then have "write_invocation call = ''--session'' # v # (case message of None \<Rightarrow> [] | Some t \<Rightarrow> [t])"
      by (simp add: InvokeInteractive opt_arg_def)
    from interactive [OF this] written show ?thesis by simp
  next
    case None
    show ?thesis
    proof (cases message)
      case (Some t)
      then have w: "write_invocation call = [t]" by (simp add: InvokeInteractive None opt_arg_def)
      have "\<not> prefix ''-'' t" "t \<noteq> ''help''" "t \<noteq> ''version''" "t \<noteq> ''configure''" "t \<noteq> ''install''" "t \<noteq> ''doctor''"
        using assms None Some InvokeInteractive by (simp_all add: opt_value_def is_value_def)
      with interactive [OF w] not_dashed [OF this(1)] written show ?thesis by simp
    qed (simp add: InvokeInteractive None opt_arg_def parseBittuneCliArguments_def)
  qed
qed (simp_all add: parseBittuneCliArguments_def)

text \<open>A session with a message, and an installation.\<close>

theorem every_invocation_can_be_written_witness:
  "parseBittuneCliArguments [''--session'', ''s1'', ''doctor''] = Inr (InvokeInteractive (Some ''s1'') (Some ''doctor''))"
  using every_invocation_can_be_written [of "InvokeInteractive (Some ''s1'') (Some ''doctor'')"]
  by (simp add: opt_arg_def opt_value_def is_value_def)

end
