(* ===== verification/Spec2Isabelle.thy ===== *)
theory Spec2Isabelle
  imports Session_Properties Context_Properties Policy_Properties Output_Properties Core_Properties Evidence_Properties Edit_Properties Settings_Properties Agent_Properties Navigation_Properties Scout_Properties Extension_Properties Managed_Properties Trust_Properties Prompt_Templates Model_Properties File_Tools_Properties Credential_Properties Cli_Args
begin

text \<open>
  A verification library for the Bittune runtime (\<open>packages/bittune-runtime\<close>), the TypeScript agent
  that works on a machine with a Python core beside it. All paths below are under
  \<open>src/packages/bittune-runtime/src\<close>.

  \<^bold>\<open>The program.\<close> A prompt goes to an agent loop of a third-party package; \<open>core/agent-session.ts\<close> wraps
  it. The session writes every message to a tree-shaped log (\<open>core/session-manager.ts\<close>), from whose
  path the context of the next request is rebuilt, and shortens that context by summaries
  (\<open>core/compaction\<close>). The tools the agent calls are limited by a policy and by approvals
  (\<open>harness/runtime-policy.ts\<close>, \<open>extension.ts\<close>, \<open>task-scope.ts\<close>); shell output is truncated on the fly
  (\<open>core/tools/truncate.ts\<close>, \<open>output-accumulator.ts\<close>), files are edited one call at a time per file
  (\<open>core/tools/edit.ts\<close>, \<open>edit-diff.ts\<close>, \<open>file-mutation-queue.ts\<close>). Managed work is asked of the
  Python core over one connection (\<open>harness/core-client.ts\<close>), to which evidence of the generic tools
  is delivered too (\<open>harness/generic-evidence.ts\<close>). Settings of the user and of the project are merged
  and written back (\<open>core/settings-manager.ts\<close>).

  \<^bold>\<open>Theories and code.\<close> Each component has theories for its definitions, for its lemmas and for its
  properties; names are those of the code where HOL leaves them free.

  \<^item> \<open>Prelude\<close>: insertion-ordered maps (\<open>jm_*\<close>), truthiness, index scans, decimal rendering;
    JSON values. The collections \<open>map_laws\<close> and \<open>scan_laws\<close> carry the component proofs.
  \<^item> \<open>Messages\<close>: the roles and \<open>convertToLlm\<close> (\<open>core/messages.ts\<close>).
  \<^item> \<open>Session_Entry\<close>, \<open>Session_Context\<close>, \<open>Session_Manager\<close>: entries, migration and identifiers; the
    context of a path; the class \<open>SessionManager\<close> with its file (\<open>core/session-manager.ts\<close>). The
    record \<open>world\<close> is what the class takes from outside: random identifiers, the clock and the files.
    The locale \<open>parent_chain\<close> of the walk to the root (\<open>Session_Context\<close>) is interpreted on well-formed logs in
    \<open>Session_Runs\<close>, which has the operations as steps and the invariant \<open>sm_inv\<close> of every
    reachable manager; \<open>Session_Spec\<close> the abstract machine it refines.
  \<^item> \<open>File_Ops\<close>, \<open>Compaction\<close>, \<open>Summarization\<close>, \<open>Branch_Summary\<close>: the cut point, the
    summaries and the files they carry on (\<open>core/compaction/*.ts\<close>); \<open>Compaction_Lemmas\<close>,
    \<open>Context_Lemmas\<close>.
  \<^item> \<open>Agent_Session\<close>, \<open>Agent_Run\<close>, \<open>Agent_Navigation\<close>: the class \<open>AgentSession\<close>
    (\<open>core/agent-session.ts\<close>) over the session manager and the settings above: its state, the events of
    the agent, retries and compactions, the run loop and the prompt; models and levels; moving in the
    tree, with the step relation of a client; \<open>Agent_Lemmas\<close> has the locales
    \<open>session_relation\<close> and \<open>post_run_relation\<close> for relations that all operations respect, interpreted on
    the growth of the log and, in \<open>Agent_Trace\<close>, on what a run adds to it; \<open>Agent_Mirror\<close> and
    \<open>Agent_Retry\<close> the agreement of agent and log and the end of the retries.
  \<^item> \<open>Path_Resolve\<close>, \<open>Runtime_Policy\<close>, \<open>Approval_Gate\<close>: regular expressions the policy uses,
    \<open>path.resolve\<close>, the policy and the handlers that ask (\<open>harness/runtime-policy.ts\<close>, \<open>extension.ts\<close>,
    \<open>task-scope.ts\<close>, \<open>child-extension.ts\<close>).
  \<^item> \<open>Utf8\<close>, \<open>Truncate\<close>, \<open>Output_Accumulator\<close>: text as scalar values, its bytes, the truncations and the
    rolling buffer; \<open>Truncate_Lemmas\<close>, \<open>Accumulator_Lemmas\<close>.
  \<^item> \<open>Ticket_Port\<close>: the locales of a component that hands out promises, interpreted on \<open>Core_Client\<close>
    (requests, idle waiters, stops) there and on \<open>Mutation_Queue\<close>.
  \<^item> \<open>Evidence_Intake\<close>: evidence records and their serial delivery.
  \<^item> \<open>Text_Edit\<close>, \<open>Diff_Display\<close>, \<open>Mutation_Queue\<close>, \<open>Edit_Tool\<close>: exact and fuzzy replacement, the diff
    shown, the queue per file, a call from its access check to its write.
  \<^item> \<open>Settings_Manager\<close>, \<open>Settings_Fields\<close>, \<open>Settings_Lemmas\<close>: merging, migration, storage, the write
    queue, and one definition per accessor.
  \<^item> \<open>Product_Copy\<close>, \<open>Host_Status\<close>, \<open>Status_Display\<close>, \<open>Host_Pulse\<close>: the texts shown, the view of machine,
    service, task and scouts with the lines made of it, its store and the probe of the cards
    (\<open>harness/tui/copy.ts\<close>, \<open>host-status.ts\<close>, \<open>host-pulse.ts\<close>).
  \<^item> \<open>Scout_Text\<close>, \<open>Scout\<close>: the parallel read-only scouts of \<open>harness/subagent.ts\<close>, their scheduler, limits,
    evidence and slots; \<open>Scout_Lemmas\<close> has the invariant of every reachable state.
  \<^item> \<open>Extension_Runner\<close>, \<open>Extension_Registry\<close>: the events an extension handles, the
    rounds over the handlers with their errors and early ends, and what extensions register
    (\<open>core/extensions/runner.ts\<close>, \<open>types.ts\<close>).
  \<^item> \<open>Managed_Reply\<close>, \<open>Managed_Tools\<close>: the sentences about a managed tool and its
    execution with scope check, questions and request (\<open>harness/managed-tools.ts\<close>, \<open>task-scope.ts\<close>,
    \<open>tui/copy.ts\<close>).
  \<^item> \<open>Project_Paths\<close>, \<open>Project_Trust\<close>: paths as users write them, the file of trust
    decisions and the decision itself (\<open>utils/paths.ts\<close>, \<open>core/trust-manager.ts\<close>, \<open>project-trust.ts\<close>).
  \<^item> \<open>Prompt_Templates\<close>: templates with their front matter, arguments and placeholders
    (\<open>core/prompt-templates.ts\<close>, \<open>utils/frontmatter.ts\<close>); \<open>Model_Resolver\<close>: the model a name, a pattern or
    a saved choice stands for (\<open>core/model-resolver.ts\<close>).
  \<^item> \<open>File_Tools\<close>: reading, listing, searching, finding and writing files with the limits and notices of
    the tools (\<open>core/tools/read.ts\<close>, \<open>ls.ts\<close>, \<open>grep.ts\<close>, \<open>find.ts\<close>, \<open>write.ts\<close>).
  \<^item> \<open>Config_Values\<close>, \<open>Credential_Store\<close>: values with variables and commands, and the file of credentials
    that processes share under a lock (\<open>core/resolve-config-value.ts\<close>, \<open>auth-storage.ts\<close>).
  \<^item> \<open>Cli_Args\<close>: the arguments of agent and product (\<open>cli/args.ts\<close>, \<open>bittune-args.ts\<close>) and the flags of
    extensions (\<open>core/agent-session-services.ts\<close>).

  \<^bold>\<open>How the code is read.\<close> Stateful code passes its state explicitly; an exception is the left side of
  a sum (\<open>session_fault\<close>, \<open>settings_fault\<close>, \<open>edit_error\<close>, ...), so that every throw and early return is
  a branch; a walk that may not return is \<open>partial_function (option)\<close> and \<open>None\<close> then means that it does
  not. Promises and interleavings are explicit steps: what the code does between two \<open>await\<close>s is one
  definition, and the order of the steps is arbitrary unless the code forces it. Numbers of tokens are
  naturals, offsets of JavaScript strings positions in lists.

  \<^bold>\<open>What is shown.\<close> The session properties say that the manager is the abstract machine of log and
  conversation, that its file mirrors the log and restores it, and that walks end. The context
  properties say what a compaction and a branch summary keep and what they replace. The agent
  properties say that a run logs what it did, that the agent's messages mirror the log, that failing
  runs are given up, and where navigation leads. The policy properties say which commands get
  through, to whom the question goes, and that a scout may do no more than its parent. The output
  properties relate the rolling buffer to the truncation of the whole output. The core properties
  settle every request exactly once. The edit properties say which parts of a file change, alone and
  under interleaving, and the settings properties which fields a write touches and what an untrusted
  project can influence. The scout properties bound the scouts,
  account for their evidence and tie the status to what runs. The extension
  properties say that a failing extension spoils no other, when a tool call runs, and what names and
  keys extensions may take; the managed ones which questions precede a request and what the user reads. The trust properties say why a project is
  trusted and that choices are remembered, the prompt and model properties what arguments and names
  stand for. The file properties say that reading on covers a file
  and that shown paths lead to files; the credential ones that no change is lost, that what is remembered
  is current, and what a configured value means. The command-line properties say that what is
  written is what is read. The remaining named lemmas of the property theories record further
  facts and the places where the code does not do what it says.

  \<^bold>\<open>Bounds and fuel.\<close> \<open>generateId\<close> tries 100 short identifiers as the code does. Matching of a starred
  expression takes the length of the text as fuel, one unit for each nonempty round. The run loop of the
  agent takes the list of the agent's answers; \<open>failing_agent_is_given_up\<close> shows that \<open>2 * maxRetries + 3\<close>
  of them are enough. \<open>read_on\<close> makes as many calls as it is given, and the lines of the file are enough. All other recursions terminate by structure or a measure.

  \<^bold>\<open>Parameters.\<close> What is not in the repository or not deterministic is an argument: random identifiers,
  clock and files (\<open>world\<close>), model calls (\<open>llm_call\<close>), the agent's steps (\<open>run_input\<close>), the classification
  of errors, text of content blocks and levels of models (\<open>services\<close>), Unicode normalisation (\<open>nfkc\<close>), the
  library that diffs lines (\<open>diffLines\<close>), real paths, and the answers of user and extensions.

  \<^bold>\<open>Not modelled.\<close> The terminal interface (\<open>modes/interactive\<close>, its components and themes), which draws
  what the session reports; the installer and the start of the program, which call the operating system; the package manager, the resource loader and the loading of
  extensions, which move files and run processes; providers and model catalogues, which talk to
  services; the HTML export and its scripts; images and clipboard; the shell tool, which wraps a process
  around the accumulator modelled here; and the Python core, a program of its own behind the connection modelled here. Of the
  session, the assembly of tools and system prompt, the binding and reload of extensions, abort
  controllers and statistics are left out; of the settings, the lock file, accessors that expand paths
  or parse timeouts, and copies.
\<close>

end
